(* ===== verification/Prelude.thy ===== *)
theory Prelude
  imports Main
begin

text \<open>
  Shared ground of the development: Go's \<open>(value, error)\<close> returns as sums, Go's
  fixed-width signed integers as \<open>int\<close> with the wrap-around written out, and the
  generic facts on lists that several components use.
\<close>

named_theorems vocab \<open>the string constants of Go's closed vocabularies\<close>
named_theorems result_iffs \<open>when a chain of fallible steps succeeds or fails\<close>

section \<open>Fallible results\<close>

text \<open>
  \<open>bind_r r f\<close> is Go's \<open>x, err := r; if err != nil { return err }; f(x)\<close>.
\<close>

definition bind_r :: "'e + 'a \<Rightarrow> ('a \<Rightarrow> 'e + 'b) \<Rightarrow> 'e + 'b" where
  "bind_r r f = (case r of Inl e \<Rightarrow> Inl e | Inr a \<Rightarrow> f a)"

lemma bind_r_simps [simp]:
  "bind_r (Inl e) f = Inl e"
  "bind_r (Inr a) f = f a"
  by (simp_all add: bind_r_def)

lemma bind_r_Inr_iff [result_iffs]:
  "bind_r r f = Inr b \<longleftrightarrow> (\<exists>a. r = Inr a \<and> f a = Inr b)"
  by (cases r) simp_all

lemma bind_r_Inl_iff [result_iffs]:
  "bind_r r f = Inl e \<longleftrightarrow> r = Inl e \<or> (\<exists>a. r = Inr a \<and> f a = Inl e)"
  by (cases r) simp_all

lemma bind_r_cong [fundef_cong]:
  "r = r' \<Longrightarrow> (\<And>a. r' = Inr a \<Longrightarrow> f a = f' a) \<Longrightarrow> bind_r r f = bind_r r' f'"
  by (cases r') simp_all

lemma bind_r_assoc: "bind_r (bind_r r f) g = bind_r r (\<lambda>a. bind_r (f a) g)"
  by (cases r) simp_all

text \<open>Changing the error of a result, as \<open>fmt.Errorf("...: %w", err)\<close> does.\<close>

definition wrap_err :: "('e \<Rightarrow> 'f) \<Rightarrow> 'e + 'a \<Rightarrow> 'f + 'a" where
  "wrap_err w r = (case r of Inl e \<Rightarrow> Inl (w e) | Inr a \<Rightarrow> Inr a)"

lemma wrap_err_simps [simp]:
  "wrap_err w (Inl e) = Inl (w e)"
  "wrap_err w (Inr a) = Inr a"
  by (simp_all add: wrap_err_def)

lemma wrap_err_Inr_iff [result_iffs, simp]: "wrap_err w r = Inr a \<longleftrightarrow> r = Inr a"
  by (cases r) simp_all

lemma wrap_err_Inl_iff [result_iffs]: "wrap_err w r = Inl e \<longleftrightarrow> (\<exists>d. r = Inl d \<and> e = w d)"
  by (cases r) auto

section \<open>Fixed-width signed integers\<close>

text \<open>Two's complement reduction to 64 and to 32 bits, and the ranges it reduces to.\<close>

definition wrap64 :: "int \<Rightarrow> int" where
  "wrap64 x = (x + 2 ^ 63) mod 2 ^ 64 - 2 ^ 63"

definition wrap32 :: "int \<Rightarrow> int" where
  "wrap32 x = (x + 2 ^ 31) mod 2 ^ 32 - 2 ^ 31"

definition MaxInt64 :: int where
  "MaxInt64 = 9223372036854775807"

definition MinInt64 :: int where
  "MinInt64 = - 9223372036854775808"

definition MaxInt32 :: int where
  "MaxInt32 = 2147483647"

definition MinInt32 :: int where
  "MinInt32 = - 2147483648"

definition in_int64 :: "int \<Rightarrow> bool" where
  "in_int64 x \<longleftrightarrow> MinInt64 \<le> x \<and> x \<le> MaxInt64"

definition in_int32 :: "int \<Rightarrow> bool" where
  "in_int32 x \<longleftrightarrow> MinInt32 \<le> x \<and> x \<le> MaxInt32"

lemmas int64_defs = in_int64_def MaxInt64_def MinInt64_def
lemmas int32_defs = in_int32_def MaxInt32_def MinInt32_def

lemma wrap64_id [simp]: "in_int64 x \<Longrightarrow> wrap64 x = x"
  by (simp add: wrap64_def int64_defs mod_pos_pos_trivial)

lemma wrap64_range: "in_int64 (wrap64 x)"
proof -
  have "0 \<le> (x + 2 ^ 63) mod 2 ^ 64" "(x + 2 ^ 63) mod 2 ^ 64 < (2 ^ 64 :: int)"
    by simp_all
  then show ?thesis by (simp add: wrap64_def int64_defs)
qed

lemma wrap32_id [simp]: "in_int32 x \<Longrightarrow> wrap32 x = x"
  by (simp add: wrap32_def int32_defs mod_pos_pos_trivial)

lemma wrap32_range: "in_int32 (wrap32 x)"
proof -
  have "0 \<le> (x + 2 ^ 31) mod 2 ^ 32" "(x + 2 ^ 31) mod 2 ^ 32 < (2 ^ 32 :: int)"
    by simp_all
  then show ?thesis by (simp add: wrap32_def int32_defs)
qed

section \<open>Lists\<close>

lemma filter_eq_NilI: "(\<And>x. x \<in> set xs \<Longrightarrow> \<not> P x) \<Longrightarrow> filter P xs = []"
  by (induction xs) auto

text \<open>Look-up by a key that no two elements share.\<close>

lemma filter_unique_key:
  "distinct (map f xs) \<Longrightarrow> x \<in> set xs \<Longrightarrow> filter (\<lambda>y. f y = f x) xs = [x]"
  by (induction xs) (auto simp: filter_empty_conv image_iff)

lemma find_unique_key:
  "distinct (map f xs) \<Longrightarrow> x \<in> set xs \<Longrightarrow> find (\<lambda>y. f y = f x) xs = Some x"
  by (induction xs) (auto simp: image_iff)

lemma find_key_None [simp]: "find (\<lambda>y. f y = k) xs = None \<longleftrightarrow> k \<notin> f ` set xs"
  by (induction xs) auto

lemma find_key_Some: "find (\<lambda>y. f y = k) xs = Some x \<Longrightarrow> x \<in> set xs \<and> f x = k"
  by (induction xs) (auto split: if_splits)

lemma sum_list_map_append1 [simp]:
  "sum_list (map f (xs @ [x])) = sum_list (map f xs) + (f x :: int)"
  by simp

end
