(* ===== verification/GoText.thy ===== *)
theory GoText
  imports Prelude
begin

text \<open>
  Go strings are byte sequences; an Isabelle \<open>string\<close> is a list of bytes as well, so a Go
  string is a \<open>string\<close> byte for byte. This theory models what the repository uses of the
  packages \<open>unicode/utf8\<close>, \<open>unicode\<close>, \<open>strings\<close> and \<open>strconv\<close>: decoding of the first and
  the last rune with Go's treatment of malformed input (U+FFFD of width 1), white space and
  control runes, \<open>TrimSpace\<close>, and decimal integers.
\<close>

section \<open>Runes\<close>

abbreviation byte :: "char \<Rightarrow> nat" where
  "byte c \<equiv> of_char c"

definition RuneError :: nat where
  "RuneError = 65533"

definition cont_byte :: "nat \<Rightarrow> bool" where
  "cont_byte b \<longleftrightarrow> 128 \<le> b \<and> b \<le> 191"

text \<open>The range the second byte must lie in, as in the table of \<open>unicode/utf8\<close>.\<close>

definition second_range :: "nat \<Rightarrow> nat \<times> nat" where
  "second_range b0 =
     (if b0 = 224 then (160, 191) else if b0 = 237 then (128, 159)
      else if b0 = 240 then (144, 191) else if b0 = 244 then (128, 143) else (128, 191))"

text \<open>\<open>utf8.DecodeRuneInString\<close>: the first rune and its width.\<close>

fun decode_rune :: "string \<Rightarrow> nat \<times> nat" where
  "decode_rune [] = (RuneError, 0)"
| "decode_rune (c0 # s) =
    (let b0 = byte c0; bad = (RuneError, 1); (lo, hi) = second_range b0 in
     if b0 < 128 then (b0, 1)
     else if b0 < 194 \<or> 244 < b0 then bad
     else (case s of [] \<Rightarrow> bad | c1 # s1 \<Rightarrow>
       (let b1 = byte c1 in
        if b1 < lo \<or> hi < b1 then bad
        else if b0 < 224 then ((b0 - 192) * 64 + (b1 - 128), 2)
        else (case s1 of [] \<Rightarrow> bad | c2 # s2 \<Rightarrow>
          (let b2 = byte c2 in
           if \<not> cont_byte b2 then bad
           else if b0 < 240 then ((b0 - 224) * 4096 + (b1 - 128) * 64 + (b2 - 128), 3)
           else (case s2 of [] \<Rightarrow> bad | c3 # _ \<Rightarrow>
             (let b3 = byte c3 in
              if \<not> cont_byte b3 then bad
              else ((b0 - 240) * 262144 + (b1 - 128) * 4096 + (b2 - 128) * 64 + (b3 - 128), 4))))))))"

lemma decode_rune_width: "s \<noteq> [] \<Longrightarrow> 1 \<le> snd (decode_rune s) \<and> snd (decode_rune s) \<le> length s"
  by (cases s) (auto simp: Let_def split: list.splits prod.splits)

lemma decode_rune_ascii: "byte c < 128 \<Longrightarrow> decode_rune (c # s) = (byte c, 1)"
  by (simp add: Let_def split: prod.splits)

declare decode_rune.simps(2) [simp del]

text \<open>A prefix decodes to the same first rune, or to the error rune where it cuts the rune.\<close>

lemma decode_rune_prefix:
  assumes "t \<noteq> []"
  shows "decode_rune t = decode_rune (t @ u) \<or> fst (decode_rune t) = RuneError"
proof -
  obtain c0 t0 where t: "t = c0 # t0" using assms by (cases t) auto
  show ?thesis
    by (cases t0; cases "tl t0"; cases "tl (tl t0)")
       (auto simp: t decode_rune.simps(2) Let_def split: list.splits prod.splits)
qed

text \<open>
  \<open>utf8.DecodeLastRuneInString\<close>: step back over at most three continuation bytes, decode
  there, and accept the rune only if it reaches the end of the string.
\<close>

definition rune_start :: "char \<Rightarrow> bool" where
  "rune_start c \<longleftrightarrow> \<not> cont_byte (byte c)"

fun back_to_start :: "string \<Rightarrow> nat \<Rightarrow> nat \<Rightarrow> nat" where
  "back_to_start s lim 0 = 0"
| "back_to_start s lim (Suc i) =
     (if i < lim then i else if rune_start (s ! i) then i else back_to_start s lim i)"

definition decode_last_rune :: "string \<Rightarrow> nat \<times> nat" where
  "decode_last_rune s =
    (if s = [] then (RuneError, 0)
     else let c = last s in
       if byte c < 128 then (byte c, 1)
       else let n = length s; start = back_to_start s (n - 4) (n - 1);
                (r, w) = decode_rune (drop start s)
            in if start + w \<noteq> n then (RuneError, 1) else (r, w))"

lemma back_to_start_le: "back_to_start s lim i \<le> i"
  by (induction i) auto

lemma decode_last_rune_width:
  assumes "s \<noteq> []"
  shows "1 \<le> snd (decode_last_rune s) \<and> snd (decode_last_rune s) \<le> length s"
proof -
  let ?st = "back_to_start s (length s - 4) (length s - 1)"
  have "?st < length s"
    using back_to_start_le [of s "length s - 4" "length s - 1"] assms
    by (cases s) auto
  then have "drop ?st s \<noteq> []" by simp
  from decode_rune_width [OF this] show ?thesis
    using assms by (auto simp: decode_last_rune_def Let_def Suc_le_eq split: prod.splits)
qed

text \<open>\<open>unicode.IsSpace\<close> and \<open>unicode.IsControl\<close>.\<close>

definition is_space :: "nat \<Rightarrow> bool" where
  "is_space r \<longleftrightarrow> r \<in> {9, 10, 11, 12, 13, 32, 133, 160, 5760, 8232, 8233, 8239, 8287, 12288}
     \<or> 8192 \<le> r \<and> r \<le> 8202"

definition is_control :: "nat \<Rightarrow> bool" where
  "is_control r \<longleftrightarrow> r < 32 \<or> 127 \<le> r \<and> r < 160"

lemma not_is_space_RuneError [simp]: "\<not> is_space RuneError"
  by (simp add: is_space_def RuneError_def)

section \<open>strings.TrimSpace\<close>

function trim_left :: "string \<Rightarrow> string" where
  "trim_left s =
     (if s \<noteq> [] \<and> is_space (fst (decode_rune s)) then trim_left (drop (snd (decode_rune s)) s) else s)"
  by pat_completeness auto
termination
proof (relation "measure length")
  show "wf (measure length)" by simp
next
  fix s :: string
  assume "s \<noteq> [] \<and> is_space (fst (decode_rune s))"
  then show "(drop (snd (decode_rune s)) s, s) \<in> measure length"
    using decode_rune_width [of s] by auto
qed

function trim_right :: "string \<Rightarrow> string" where
  "trim_right s =
     (if s \<noteq> [] \<and> is_space (fst (decode_last_rune s))
      then trim_right (take (length s - snd (decode_last_rune s)) s) else s)"
  by pat_completeness auto
termination
proof (relation "measure length")
  show "wf (measure length)" by simp
next
  fix s :: string
  assume "s \<noteq> [] \<and> is_space (fst (decode_last_rune s))"
  then show "(take (length s - snd (decode_last_rune s)) s, s) \<in> measure length"
    using decode_last_rune_width [of s] by auto
qed

declare trim_left.simps [simp del] trim_right.simps [simp del]

definition TrimSpace :: "string \<Rightarrow> string" where
  "TrimSpace s = trim_right (trim_left s)"

lemma trim_left_stops: "trim_left s \<noteq> [] \<Longrightarrow> \<not> is_space (fst (decode_rune (trim_left s)))"
proof (induction s rule: trim_left.induct)
  case (1 s)
  show ?case
  proof (cases "s \<noteq> [] \<and> is_space (fst (decode_rune s))")
    case True
    with 1 show ?thesis by (simp add: trim_left.simps [of s])
  next
    case False
    with 1 show ?thesis by (auto simp: trim_left.simps [of s])
  qed
qed

lemma trim_right_stops: "trim_right s \<noteq> [] \<Longrightarrow> \<not> is_space (fst (decode_last_rune (trim_right s)))"
proof (induction s rule: trim_right.induct)
  case (1 s)
  show ?case
  proof (cases "s \<noteq> [] \<and> is_space (fst (decode_last_rune s))")
    case True
    with 1 show ?thesis by (simp add: trim_right.simps [of s])
  next
    case False
    with 1 show ?thesis by (auto simp: trim_right.simps [of s])
  qed
qed

lemma trim_right_fix: "\<not> (t \<noteq> [] \<and> is_space (fst (decode_last_rune t))) \<Longrightarrow> trim_right t = t"
  by (subst trim_right.simps) (rule if_not_P)

lemma trim_right_prefix: "\<exists>u. s = trim_right s @ u"
proof (induction s rule: trim_right.induct)
  case (1 s)
  show ?case
  proof (cases "s \<noteq> [] \<and> is_space (fst (decode_last_rune s))")
    case True
    let ?t = "take (length s - snd (decode_last_rune s)) s"
    from 1 True obtain u where "?t = trim_right ?t @ u" by blast
    then have "s = trim_right ?t @ (u @ drop (length s - snd (decode_last_rune s)) s)"
      by (metis append_assoc append_take_drop_id)
    with True show ?thesis by (auto simp: trim_right.simps [of s])
  next
    case False
    then show ?thesis by (auto simp: trim_right.simps [of s])
  qed
qed

text \<open>Trimming is idempotent, on malformed UTF-8 too.\<close>

theorem TrimSpace_idem [simp]: "TrimSpace (TrimSpace s) = TrimSpace s"
proof -
  let ?l = "trim_left s"
  let ?t = "trim_right ?l"
  obtain u where u: "?l = ?t @ u" using trim_right_prefix by blast
  have "trim_left ?t = ?t"
  proof (cases "?t = []")
    case True
    then show ?thesis by (simp add: trim_left.simps)
  next
    case False
    with u have "?l \<noteq> []" by auto
    then have "\<not> is_space (fst (decode_rune (?t @ u)))"
      using trim_left_stops [of s] u by simp
    with decode_rune_prefix [OF False, of u] have "\<not> is_space (fst (decode_rune ?t))" by auto
    then show ?thesis by (simp add: trim_left.simps [of ?t])
  qed
  moreover have "trim_right ?t = ?t"
    using trim_right_stops [of ?l] by (intro trim_right_fix) blast
  ultimately show ?thesis by (simp add: TrimSpace_def)
qed

lemma TrimSpace_Nil [simp]: "TrimSpace [] = []"
  by (simp add: TrimSpace_def trim_left.simps trim_right.simps)

section \<open>Printable ASCII\<close>

text \<open>
  The identifiers of every module accept the bytes \<open>0x21..0x7e\<close> only. Such a string is
  unchanged by trimming.
\<close>

definition printable :: "char \<Rightarrow> bool" where
  "printable c \<longleftrightarrow> 33 \<le> byte c \<and> byte c \<le> 126"

lemma printable_not_space: "printable c \<Longrightarrow> byte c < 128 \<and> \<not> is_space (byte c)"
  by (auto simp: printable_def is_space_def)

lemma decode_last_rune_ascii: "byte c < 128 \<Longrightarrow> decode_last_rune (s @ [c]) = (byte c, 1)"
  by (simp add: decode_last_rune_def)

lemma TrimSpace_printable [simp]:
  assumes "list_all printable s"
  shows "TrimSpace s = s"
proof (cases s)
  case Nil
  then show ?thesis by simp
next
  case (Cons c t)
  with assms have "\<not> is_space (fst (decode_rune s))"
    by (auto simp: decode_rune_ascii dest: printable_not_space)
  then have l: "trim_left s = s" by (simp add: trim_left.simps [of s])
  from Cons have "s \<noteq> []" by simp
  then obtain t' d where "s = t' @ [d]" by (metis append_butlast_last_id)
  with assms have "\<not> is_space (fst (decode_last_rune s))"
    by (auto simp: decode_last_rune_ascii dest: printable_not_space)
  then show ?thesis by (simp add: TrimSpace_def l trim_right.simps [of s])
qed

section \<open>Rune loops\<close>

text \<open>\<open>for _, r := range s\<close>: the runes of a string, malformed bytes as U+FFFD.\<close>

function runes :: "string \<Rightarrow> nat list" where
  "runes s = (if s = [] then [] else fst (decode_rune s) # runes (drop (snd (decode_rune s)) s))"
  by pat_completeness auto
termination
proof (relation "measure length")
  show "wf (measure length)" by simp
next
  fix s :: string
  assume "s \<noteq> []"
  then show "(drop (snd (decode_rune s)) s, s) \<in> measure length"
    using decode_rune_width [of s] by auto
qed

text \<open>\<open>utf8.ValidString\<close>: no position decodes to the width-1 error rune.\<close>

function valid_utf8 :: "string \<Rightarrow> bool" where
  "valid_utf8 s =
     (if s = [] then True
      else if decode_rune s = (RuneError, 1) then False
      else valid_utf8 (drop (snd (decode_rune s)) s))"
  by pat_completeness auto
termination
proof (relation "measure length")
  show "wf (measure length)" by simp
next
  fix s :: string
  assume "s \<noteq> []"
  then show "(drop (snd (decode_rune s)) s, s) \<in> measure length"
    using decode_rune_width [of s] by auto
qed

declare runes.simps [simp del] valid_utf8.simps [simp del]

lemma runes_Nil [simp]: "runes [] = []"
  by (simp add: runes.simps)

lemma valid_utf8_Nil [simp]: "valid_utf8 []"
  by (simp add: valid_utf8.simps)

lemma runes_ascii_Cons: "byte c < 128 \<Longrightarrow> runes (c # s) = byte c # runes s"
  by (simp add: runes.simps [of "c # s"] decode_rune_ascii)

lemma valid_utf8_ascii_Cons: "byte c < 128 \<Longrightarrow> valid_utf8 (c # s) = valid_utf8 s"
  by (simp add: valid_utf8.simps [of "c # s"] decode_rune_ascii RuneError_def)

lemma length_runes: "length (runes s) \<le> length s"
proof (induction s rule: runes.induct)
  case (1 s)
  show ?case
  proof (cases "s = []")
    case False
    have "length (runes (drop (snd (decode_rune s)) s)) \<le> length (drop (snd (decode_rune s)) s)" by (rule 1 [OF False])
    moreover have "1 \<le> snd (decode_rune s) \<and> snd (decode_rune s) \<le> length s" by (rule decode_rune_width [OF False])
    ultimately have "Suc (length (runes (drop (snd (decode_rune s)) s))) \<le> length s" by simp linarith
    then show ?thesis using False by (subst runes.simps) simp
  qed simp
qed

text \<open>Trimming evaluated byte by byte where the end bytes are ASCII.\<close>

lemma trim_left_ascii:
  "byte c < 128 \<Longrightarrow> trim_left (c # s) = (if is_space (byte c) then trim_left s else c # s)"
  by (subst trim_left.simps) (simp add: decode_rune_ascii)

lemma trim_right_ascii:
  "s \<noteq> [] \<Longrightarrow> byte (last s) < 128 \<Longrightarrow>
     trim_right s = (if is_space (byte (last s)) then trim_right (butlast s) else s)"
  by (subst trim_right.simps) (simp add: decode_last_rune_def butlast_conv_take)

lemma trim_Nil: "trim_left [] = []" "trim_right [] = []"
  by (simp_all add: trim_left.simps trim_right.simps)

lemmas trim_ascii = TrimSpace_def trim_left_ascii trim_right_ascii trim_Nil is_space_def

text \<open>
  Valid UTF-8 is a sequence of whole encodings, and trimming takes whole encodings away, so
  trimmed text stays valid.
\<close>

lemma decode_rune_take:
  assumes "s \<noteq> []" "decode_rune s \<noteq> (RuneError, 1)"
  shows "decode_rune (take (snd (decode_rune s)) s @ u) = decode_rune s"
proof -
  obtain c0 s0 where s: "s = c0 # s0" using assms by (cases s) auto
  show ?thesis
    using assms(2)
    by (cases s0; cases "tl s0"; cases "tl (tl s0)")
       (auto simp: s decode_rune.simps(2) Let_def split: list.splits prod.splits)
qed

text \<open>The encoding of one rune, and its bytes after the first.\<close>

definition rune_chunk :: "string \<Rightarrow> bool" where
  "rune_chunk c \<longleftrightarrow> c \<noteq> [] \<and> snd (decode_rune c) = length c \<and> decode_rune c \<noteq> (RuneError, 1)"

lemma valid_utf8_step:
  "s \<noteq> [] \<Longrightarrow> valid_utf8 s \<longleftrightarrow>
     decode_rune s \<noteq> (RuneError, 1) \<and> valid_utf8 (drop (snd (decode_rune s)) s)"
  by (subst valid_utf8.simps) simp

lemma rune_chunk_take:
  assumes "s \<noteq> []" "decode_rune s \<noteq> (RuneError, 1)"
  shows "rune_chunk (take (snd (decode_rune s)) s)"
  using decode_rune_take [OF assms, of "[]"] decode_rune_width [OF assms(1)] assms
  by (auto simp: rune_chunk_def)

lemma valid_utf8_chunk_append: "rune_chunk c \<Longrightarrow> valid_utf8 (c @ u) = valid_utf8 u"
  using decode_rune_take [of c u] by (subst valid_utf8_step) (auto simp: rune_chunk_def)

lemma valid_utf8_last_chunk:
  "valid_utf8 s \<Longrightarrow> s \<noteq> [] \<Longrightarrow> \<exists>t c. s = t @ c \<and> valid_utf8 t \<and> rune_chunk c"
proof (induction s rule: valid_utf8.induct)
  case (1 s)
  let ?w = "snd (decode_rune s)"
  from 1 have dec: "decode_rune s \<noteq> (RuneError, 1)" and rest: "valid_utf8 (drop ?w s)"
    by (simp_all add: valid_utf8_step)
  have chunk: "rune_chunk (take ?w s)" by (rule rune_chunk_take [OF 1(3) dec])
  show ?case
  proof (cases "drop ?w s = []")
    case True
    then have "s = [] @ take ?w s" by simp
    with chunk show ?thesis by (metis valid_utf8_Nil)
  next
    case False
    from 1(1) [OF 1(3) dec rest False] obtain t c
      where tc: "drop ?w s = t @ c" "valid_utf8 t" "rune_chunk c" by blast
    then have "s = (take ?w s @ t) @ c" by (metis append_assoc append_take_drop_id)
    moreover have "valid_utf8 (take ?w s @ t)" using chunk tc by (simp add: valid_utf8_chunk_append)
    ultimately show ?thesis using tc by blast
  qed
qed

lemma rune_chunk_bytes:
  assumes "rune_chunk c"
  shows "length c \<le> 4 \<and> rune_start (hd c) \<and> list_all (\<lambda>d. \<not> rune_start d) (tl c)
    \<and> (length c = 1 \<longleftrightarrow> byte (last c) < 128)"
proof -
  obtain c0 s0 where c: "c = c0 # s0" using assms by (cases c) (auto simp: rune_chunk_def)
  show ?thesis
    using assms
    by (cases s0; cases "tl s0"; cases "tl (tl s0)"; cases "tl (tl (tl s0))")
       (auto simp: c rune_chunk_def rune_start_def cont_byte_def second_range_def
          decode_rune.simps(2) Let_def split: list.splits prod.splits if_splits)
qed


lemma back_to_start_chunk:
  assumes "rune_start (hd c)" "list_all (\<lambda>d. \<not> rune_start d) (tl c)" "lim \<le> length t"
  shows "1 \<le> k \<Longrightarrow> k < length c \<Longrightarrow> back_to_start (t @ c) lim (length t + k) = length t"
proof (induction k)
  case 0
  then show ?case by simp
next
  case (Suc k)
  show ?case
  proof (cases k)
    case 0
    with assms Suc show ?thesis by (cases c) auto
  next
    case (Suc j)
    with Suc.prems have "\<not> rune_start (c ! k)" using assms(2)
      by (cases c) (auto simp: list_all_length)
    with Suc Suc.prems Suc.IH assms(3) show ?thesis by (simp add: nth_append)
  qed
qed

lemma decode_last_rune_chunk:
  assumes "rune_chunk c"
  shows "snd (decode_last_rune (t @ c)) = length c"
proof -
  note b = rune_chunk_bytes [OF assms]
  have "c \<noteq> []" and w: "snd (decode_rune c) = length c" using assms by (auto simp: rune_chunk_def)
  show ?thesis
  proof (cases "length c = 1")
    case True
    with b \<open>c \<noteq> []\<close> show ?thesis by (simp add: decode_last_rune_def)
  next
    case False
    with \<open>c \<noteq> []\<close> have "2 \<le> length c" by (cases c) (auto simp: Suc_le_eq)
    then have "back_to_start (t @ c) (length (t @ c) - 4) (length (t @ c) - 1) = length t"
      using back_to_start_chunk [of c "length (t @ c) - 4" t "length c - 1"] b by auto
    with False b w \<open>c \<noteq> []\<close> show ?thesis
      by (auto simp: decode_last_rune_def Let_def split: prod.splits)
  qed
qed

lemma valid_utf8_trim_left: "valid_utf8 s \<Longrightarrow> valid_utf8 (trim_left s)"
proof (induction s rule: trim_left.induct)
  case (1 s)
  then show ?case by (subst trim_left.simps) (auto simp: valid_utf8_step)
qed

lemma valid_utf8_trim_right: "valid_utf8 s \<Longrightarrow> valid_utf8 (trim_right s)"
proof (induction s rule: trim_right.induct)
  case (1 s)
  show ?case
  proof (cases "s \<noteq> [] \<and> is_space (fst (decode_last_rune s))")
    case True
    with 1(2) obtain t c where s: "s = t @ c" "valid_utf8 t" "rune_chunk c"
      using valid_utf8_last_chunk by blast
    then have t: "take (length s - snd (decode_last_rune s)) s = t"
      by (simp add: decode_last_rune_chunk)
    then have "trim_right s = trim_right t" using True by (subst trim_right.simps) (simp only: if_True simp_thms)
    with 1(1) True s t show ?thesis by simp
  next
    case False
    with 1 show ?thesis by (simp add: trim_right_fix)
  qed
qed

lemma valid_utf8_TrimSpace: "valid_utf8 s \<Longrightarrow> valid_utf8 (TrimSpace s)"
  by (simp add: TrimSpace_def valid_utf8_trim_left valid_utf8_trim_right)

section \<open>Decimal integers\<close>

definition is_digit :: "char \<Rightarrow> bool" where
  "is_digit c \<longleftrightarrow> 48 \<le> byte c \<and> byte c \<le> 57"

definition digit_val :: "char \<Rightarrow> nat" where
  "digit_val c = byte c - 48"

definition digit_char :: "nat \<Rightarrow> char" where
  "digit_char d = char_of (48 + d)"

lemma digit_char: "d < 10 \<Longrightarrow> is_digit (digit_char d) \<and> digit_val (digit_char d) = d"
  by (simp add: is_digit_def digit_val_def digit_char_def)

lemma printable_digit_char: "d < 10 \<Longrightarrow> printable (digit_char d)"
  by (simp add: printable_def digit_char_def)

lemma digit_char_val: "is_digit c \<Longrightarrow> digit_char (digit_val c) = c"
  by (simp add: is_digit_def digit_val_def digit_char_def)

lemma digit_val_less: "is_digit c \<Longrightarrow> digit_val c < 10"
  by (auto simp: is_digit_def digit_val_def)

text \<open>The value of a digit string, most significant digit first.\<close>

definition dec_value :: "string \<Rightarrow> nat" where
  "dec_value s = fold (\<lambda>c n. 10 * n + digit_val c) s 0"

text \<open>The decimal digits of a natural number (\<open>strconv.FormatInt(n, 10)\<close> for \<open>n \<ge> 0\<close>).\<close>

fun dec_digits :: "nat \<Rightarrow> string" where
  "dec_digits n = (if n < 10 then [digit_char n] else dec_digits (n div 10) @ [digit_char (n mod 10)])"

declare dec_digits.simps [simp del]

lemma dec_value_snoc: "dec_value (s @ [c]) = 10 * dec_value s + digit_val c"
  by (simp add: dec_value_def)

lemma dec_value_dec_digits [simp]: "dec_value (dec_digits n) = n"
proof (induction n rule: dec_digits.induct)
  case (1 n)
  show ?case
  proof (cases "n < 10")
    case True
    then show ?thesis by (simp add: dec_digits.simps [of n] dec_value_def digit_char)
  next
    case False
    then have "dec_value (dec_digits n) = 10 * (n div 10) + n mod 10"
      using 1 by (subst dec_digits.simps) (simp add: dec_value_snoc digit_char)
    then show ?thesis by simp
  qed
qed

lemma dec_digits_digits: "list_all is_digit (dec_digits n)"
proof (induction n rule: dec_digits.induct)
  case (1 n)
  then show ?case by (subst dec_digits.simps) (simp add: digit_char)
qed

lemma dec_digits_nonempty [simp]: "dec_digits n \<noteq> []"
  by (subst dec_digits.simps) simp

lemma digit_printable: "is_digit c \<Longrightarrow> printable c"
  by (simp add: is_digit_def printable_def)

text \<open>\<open>strconv.FormatInt(x, 10)\<close>.\<close>

definition FormatInt :: "int \<Rightarrow> string" where
  "FormatInt x = (if x < 0 then CHR ''-'' # dec_digits (nat (- x)) else dec_digits (nat x))"

text \<open>
  \<open>strconv.ParseInt(s, 10, 64)\<close>: an optional sign and decimal digits; a value beyond 64 bits
  is \<open>ErrRange\<close>, anything else malformed is \<open>ErrSyntax\<close>.
\<close>

datatype strconv_error = ErrSyntax | ErrRange

definition ParseInt :: "string \<Rightarrow> strconv_error + int" where
  "ParseInt s =
     (let neg = (s \<noteq> [] \<and> hd s = CHR ''-'');
          ds = (if s \<noteq> [] \<and> (hd s = CHR ''-'' \<or> hd s = CHR ''+'') then tl s else s)
      in if ds = [] \<or> \<not> list_all is_digit ds then Inl ErrSyntax
         else let v = (if neg then - int (dec_value ds) else int (dec_value ds))
              in if in_int64 v then Inr v else Inl ErrRange)"

lemma ParseInt_digits:
  assumes "list_all is_digit s" "s \<noteq> []"
  shows "ParseInt s = (if int (dec_value s) \<le> MaxInt64 then Inr (int (dec_value s)) else Inl ErrRange)"
proof -
  from assms have "hd s \<noteq> CHR ''-''" "hd s \<noteq> CHR ''+''"
    by (cases s; auto simp: is_digit_def)+
  with assms show ?thesis by (simp add: ParseInt_def in_int64_def MinInt64_def)
qed

text \<open>Zero-padded digits of a fixed width, as in \<open>%04d\<close>, and their reading.\<close>

fun pad_digits :: "nat \<Rightarrow> nat \<Rightarrow> string" where
  "pad_digits 0 n = []"
| "pad_digits (Suc w) n = pad_digits w (n div 10) @ [digit_char (n mod 10)]"

lemma length_pad_digits [simp]: "length (pad_digits w n) = w"
  by (induction w arbitrary: n) auto

lemma pad_digits_digits: "list_all is_digit (pad_digits w n)"
  by (induction w arbitrary: n) (auto simp: digit_char)

lemma dec_value_pad_digits: "dec_value (pad_digits w n) = n mod 10 ^ w"
proof (induction w arbitrary: n)
  case 0
  then show ?case by (simp add: dec_value_def)
next
  case (Suc w)
  have "dec_value (pad_digits (Suc w) n) = 10 * (n div 10 mod 10 ^ w) + n mod 10"
    by (simp add: dec_value_snoc Suc digit_char)
  also have "\<dots> = n mod (10 * 10 ^ w)"
    by (metis add.commute mod_mult2_eq mult.commute)
  finally show ?case by simp
qed

lemma dec_value_less: "list_all is_digit s \<Longrightarrow> dec_value s < 10 ^ length s"
proof (induction s rule: rev_induct)
  case Nil
  then show ?case by (simp add: dec_value_def)
next
  case (snoc c s)
  then show ?case using digit_val_less [of c] by (simp add: dec_value_snoc)
qed

lemma pad_digits_dec_value: "list_all is_digit s \<Longrightarrow> pad_digits (length s) (dec_value s) = s"
proof (induction s rule: rev_induct)
  case Nil
  then show ?case by simp
next
  case (snoc c s)
  then show ?case using digit_val_less [of c] by (simp add: dec_value_snoc digit_char_val)
qed

section \<open>Identifiers of printable ASCII\<close>

text \<open>
  Every module parses its identifiers and keys by one contract: trim, refuse the empty and the
  overlong text, refuse a byte outside \<open>0x21..0x7e\<close>, keep the trimmed text. The locale states
  the contract of such a parser; the modules' parsers interpret it.
\<close>

locale printable_identifier =
  fixes parse :: "string \<Rightarrow> 'e + 'v"
    and text_of :: "'v \<Rightarrow> string"
    and limit :: nat
  assumes parse_text: "parse raw = Inr v \<Longrightarrow> text_of v = TrimSpace raw"
    and parse_succeeds_iff: "(\<exists>v. parse raw = Inr v) \<longleftrightarrow>
      TrimSpace raw \<noteq> [] \<and> length (TrimSpace raw) \<le> limit \<and> list_all printable (TrimSpace raw)"
    and text_of_inject: "text_of v = text_of w \<Longrightarrow> v = w"
begin

lemma parsed_shape:
  assumes "parse raw = Inr v"
  shows "text_of v \<noteq> [] \<and> length (text_of v) \<le> limit \<and> list_all printable (text_of v)"
  using assms parse_succeeds_iff [of raw] parse_text [of raw v] by auto

lemma reparse: "parse raw = Inr v \<Longrightarrow> parse (text_of v) = Inr v"
proof -
  assume ok: "parse raw = Inr v"
  then have shape: "text_of v \<noteq> []" "length (text_of v) \<le> limit" "list_all printable (text_of v)"
    using parsed_shape by blast+
  then obtain w where w: "parse (text_of v) = Inr w"
    using parse_succeeds_iff [of "text_of v"] by auto
  then have "text_of w = text_of v" using parse_text [OF w] shape by simp
  with w show ?thesis using text_of_inject by blast
qed

lemma parse_of_text:
  assumes "text_of v \<noteq> []" "length (text_of v) \<le> limit" "list_all printable (text_of v)"
  shows "parse (text_of v) = Inr v"
proof -
  from assms obtain w where w: "parse (text_of v) = Inr w"
    using parse_succeeds_iff [of "text_of v"] by auto
  then have "text_of w = text_of v" using parse_text [OF w] assms by simp
  with w show ?thesis using text_of_inject by blast
qed

lemma parse_trim_eq: "TrimSpace raw = TrimSpace raw' \<Longrightarrow> parse raw = Inr v \<Longrightarrow> parse raw' = Inr v"
  using parse_succeeds_iff [of raw] parse_succeeds_iff [of raw'] parse_text text_of_inject by metis

end

section \<open>Splitting and ASCII case\<close>

text \<open>\<open>strings.Split\<close> at one byte, and \<open>strings.ToLower\<close> and \<open>strings.ToUpper\<close> of an ASCII string.\<close>

fun split_on :: "char \<Rightarrow> string \<Rightarrow> string list" where
  "split_on d [] = [[]]"
| "split_on d (c # s) =
     (if c = d then [] # split_on d s else (c # hd (split_on d s)) # tl (split_on d s))"

lemma split_on_last: "d \<notin> set s \<Longrightarrow> split_on d s = [s]"
  by (induction s) auto

lemma split_on_append: "d \<notin> set s \<Longrightarrow> split_on d (s @ d # u) = s # split_on d u"
  by (induction s) auto

definition ascii_lower :: "string \<Rightarrow> string" where
  "ascii_lower = map (\<lambda>c. if 65 \<le> byte c \<and> byte c \<le> 90 then char_of (byte c + 32) else c)"

definition ascii_upper :: "string \<Rightarrow> string" where
  "ascii_upper = map (\<lambda>c. if 97 \<le> byte c \<and> byte c \<le> 122 then char_of (byte c - 32) else c)"

end
