(* ===== verification/GoTime.thy ===== *)
theory GoTime
  imports GoText
begin

text \<open>
  What the repository uses of Go's package \<open>time\<close>. An instant is the number of nanoseconds
  since 0001-01-01T00:00:00Z, the zero value of \<open>time.Time\<close>; every calendar field is read in
  UTC, as the code does through \<open>.UTC()\<close>. The civil date of an instant is computed by the
  400/100/4/1-year cycles of the proleptic Gregorian calendar.
\<close>

type_synonym time = int

definition ns_per_sec :: int where "ns_per_sec = 1000000000"
definition ns_per_day :: int where "ns_per_day = 86400000000000"

definition time_IsZero :: "time \<Rightarrow> bool" where
  "time_IsZero t \<longleftrightarrow> t = 0"

section \<open>Years\<close>

definition is_leap :: "int \<Rightarrow> bool" where
  "is_leap y \<longleftrightarrow> y mod 4 = 0 \<and> (y mod 100 \<noteq> 0 \<or> y mod 400 = 0)"

definition days_before_year :: "int \<Rightarrow> int" where
  "days_before_year y = 365 * (y - 1) + (y - 1) div 4 - (y - 1) div 100 + (y - 1) div 400"

definition year_of_days :: "int \<Rightarrow> int" where
  "year_of_days d =
     (let n400 = d div 146097; r400 = d mod 146097;
          n100 = min 3 (r400 div 36524); r100 = r400 - 36524 * n100;
          n4 = r100 div 1461; r4 = r100 mod 1461;
          n1 = min 3 (r4 div 365)
      in 400 * n400 + 100 * n100 + 4 * n4 + n1 + 1)"

definition year_length :: "int \<Rightarrow> int" where
  "year_length y = (if is_leap y then 366 else 365)"

lemma div_step:
  assumes "0 < (k::int)"
  shows "y div k = (y - 1) div k + (if y mod k = 0 then 1 else 0)"
proof (cases "y mod k = 0")
  case True
  then have "y = k * (y div k)" by (metis add.right_neutral mult_div_mod_eq)
  then have "y - 1 = k * (y div k - 1) + (k - 1)" by (simp add: right_diff_distrib)
  then have "(y - 1) div k = y div k - 1" using assms by (intro int_div_pos_eq [where r = "k - 1"]) auto
  with True show ?thesis by simp
next
  case False
  have "y = k * (y div k) + y mod k" by simp
  then have "y - 1 = k * (y div k) + (y mod k - 1)" by linarith
  moreover have "0 < y mod k" "y mod k < k"
    using False assms pos_mod_sign [of k y] pos_mod_bound [of k y] by linarith+
  ultimately have "(y - 1) div k = y div k" by (intro int_div_pos_eq [where r = "y mod k - 1"]) auto
  with False show ?thesis by simp
qed

lemma days_before_year_Suc: "days_before_year (y + 1) = days_before_year y + year_length y"
proof -
  have m: "y mod 100 = 0 \<longrightarrow> y mod 4 = 0" "y mod 400 = 0 \<longrightarrow> y mod 100 = 0"
    using dvd_trans [of 4 100 y] dvd_trans [of 100 400 y] by (simp_all add: mod_eq_0_iff_dvd)
  have s: "y div 4 = (y - 1) div 4 + (if y mod 4 = 0 then 1 else 0)"
    "y div 100 = (y - 1) div 100 + (if y mod 100 = 0 then 1 else 0)"
    "y div 400 = (y - 1) div 400 + (if y mod 400 = 0 then 1 else 0)"
    by (rule div_step, simp)+
  have "days_before_year (y + 1) = 365 * y + y div 4 - y div 100 + y div 400"
    by (simp add: days_before_year_def)
  also have "\<dots> = days_before_year y + 365 + ((if y mod 4 = 0 then 1 else 0)
      - (if y mod 100 = 0 then 1 else 0) + (if y mod 400 = 0 then 1 else 0))"
    unfolding s days_before_year_def by (simp only: algebra_simps)
  also have "\<dots> = days_before_year y + year_length y"
    using m by (cases "y mod 4 = 0"; cases "y mod 100 = 0"; cases "y mod 400 = 0")
      (simp_all only: year_length_def is_leap_def if_True if_False, simp_all)
  finally show ?thesis .
qed

text \<open>The cycles decompose a year number uniquely.\<close>

lemma days_before_year_cycles:
  assumes "0 \<le> b" "b \<le> 3" "0 \<le> c" "c \<le> 24" "0 \<le> e" "e \<le> 3"
  shows "days_before_year (400 * a + 100 * b + 4 * c + e + 1) = 146097 * a + 36524 * b + 1461 * c + 365 * e"
proof -
  let ?x = "400 * a + 100 * b + 4 * c + e"
  have "?x div 4 = 100 * a + 25 * b + c"
    using assms by (intro int_div_pos_eq [where r = e]) auto
  moreover have "?x div 100 = 4 * a + b"
    using assms by (intro int_div_pos_eq [where r = "4 * c + e"]) auto
  moreover have "?x div 400 = a"
    using assms by (intro int_div_pos_eq [where r = "100 * b + 4 * c + e"]) auto
  ultimately show ?thesis by (simp add: days_before_year_def)
qed

text \<open>Dividing into three full parts and a rest, which may be one longer.\<close>

lemma clamped_rest:
  assumes "0 < k" "r \<le> 4 * (k::int)"
  shows "0 \<le> r - k * min 3 (r div k) \<and> r - k * min 3 (r div k) \<le> k
    \<and> (min 3 (r div k) < 3 \<longrightarrow> r - k * min 3 (r div k) < k)"
proof -
  define q w where "q = r div k" and "w = r mod k"
  have r: "r = k * q + w" "0 \<le> w" "w < k" using assms(1) by (simp_all add: q_def w_def)
  show ?thesis
  proof (cases "q \<le> 3")
    case True
    with r show ?thesis unfolding q_def [symmetric] by (simp add: min_absorb2)
  next
    case False
    then have "k * 4 \<le> k * q" using assms(1) by (intro mult_left_mono) simp_all
    with r(1,2) assms have "k * 3 \<le> r" "r \<le> k * 3 + k" by linarith+
    moreover have "min 3 q = 3" using False by simp
    ultimately show ?thesis unfolding q_def [symmetric] by simp
  qed
qed

lemma year_of_days_bounds:
  "days_before_year (year_of_days d) \<le> d \<and> d < days_before_year (year_of_days d + 1)"
proof -
  define a where "a = d div 146097"
  define r where "r = d mod 146097"
  define b where "b = min 3 (r div 36524)"
  define s where "s = r - 36524 * b"
  define c where "c = s div 1461"
  define u where "u = s mod 1461"
  define e where "e = min 3 (u div 365)"
  have d: "d = 146097 * a + r" "0 \<le> r" "r < 146097" by (simp_all add: a_def r_def)
  have b: "0 \<le> b" "b \<le> 3" using d by (auto simp: b_def)
  have r4: "r \<le> 4 * 36524" using d by simp
  have s: "0 \<le> s" "s \<le> 36524" "b < 3 \<longrightarrow> s < 36524"
    using clamped_rest [OF zero_less_numeral r4] unfolding s_def b_def by blast+
  have c: "s = 1461 * c + u" "0 \<le> u" "u < 1461" by (simp_all add: c_def u_def)
  have c24: "0 \<le> c" "c \<le> 24" using c s by linarith+
  have e: "0 \<le> e" "e \<le> 3" using c by (auto simp: e_def)
  have u4: "u \<le> 4 * 365" using c by simp
  have "0 \<le> u - 365 * e" "u - 365 * e \<le> 365" "e < 3 \<longrightarrow> u - 365 * e < 365"
    using clamped_rest [OF zero_less_numeral u4] unfolding e_def by blast+
  then have u: "365 * e \<le> u" "u \<le> 365 * e + 365" "e < 3 \<longrightarrow> u < 365 * e + 365" by linarith+
  have y: "year_of_days d = 400 * a + 100 * b + 4 * c + e + 1"
    by (simp add: year_of_days_def Let_def a_def b_def c_def e_def r_def s_def u_def)
  have dby: "days_before_year (year_of_days d) = 146097 * a + 36524 * b + 1461 * c + 365 * e"
    unfolding y using b c24 e by (rule days_before_year_cycles)
  have lower: "146097 * a + 36524 * b + 1461 * c + 365 * e \<le> d"
    using d c u by (simp add: s_def)
  have off: "d - days_before_year (year_of_days d) = u - 365 * e"
    unfolding dby using d c by (simp add: s_def)
  have leap: "is_leap (year_of_days d)" if "u = 365 * e + 365"
  proof -
    have e3: "e = 3" using that u e by linarith
    have y4: "year_of_days d mod 4 = 0"
      unfolding y e3 by (intro int_mod_pos_eq [where q = "100 * a + 25 * b + c + 1"]) auto
    show ?thesis
    proof (cases "c = 24")
      case True
      have "b = 3"
      proof (rule ccontr)
        assume "b \<noteq> 3"
        with b s have "s < 36524" by simp
        with c True that e3 show False by simp
      qed
      with True e3 have "year_of_days d = 400 * (a + 1)" unfolding y by simp
      then show ?thesis by (simp add: is_leap_def)
    next
      case False
      have "year_of_days d = 100 * (4 * a + b) + (4 * c + 4)" unfolding y e3 by simp
      moreover have "0 < 4 * c + 4" "4 * c + 4 < 100" using False c24 by auto
      ultimately have "year_of_days d mod 100 = 4 * c + 4" by (intro int_mod_pos_eq [where q = "4 * a + b"]) auto
      then show ?thesis using y4 \<open>0 < 4 * c + 4\<close> by (simp add: is_leap_def)
    qed
  qed
  have "d < days_before_year (year_of_days d + 1)"
    unfolding days_before_year_Suc year_length_def using off u leap
    by (cases "u = 365 * e + 365") auto
  then show ?thesis using lower dby by simp
qed

lemma year_length_pos: "0 < year_length y"
  by (simp add: year_length_def)

lemma days_before_year_mono: "x \<le> y \<Longrightarrow> days_before_year x \<le> days_before_year y"
proof (induction y rule: int_ge_induct)
  case base
  show ?case by simp
next
  case (step i)
  then show ?case using days_before_year_Suc [of i] year_length_pos [of i] by linarith
qed

lemma year_of_days_unique:
  assumes "days_before_year y \<le> d" "d < days_before_year (y + 1)"
  shows "year_of_days d = y"
proof (rule linorder_cases [of "year_of_days d" y])
  assume "year_of_days d < y"
  then have "days_before_year (year_of_days d + 1) \<le> days_before_year y"
    by (intro days_before_year_mono) simp
  with assms year_of_days_bounds [of d] show ?thesis by linarith
next
  assume "y < year_of_days d"
  then have "days_before_year (y + 1) \<le> days_before_year (year_of_days d)"
    by (intro days_before_year_mono) simp
  with assms year_of_days_bounds [of d] show ?thesis by linarith
qed

section \<open>Months\<close>

text \<open>Months are numbered 1 to 12 as \<open>time.Month\<close>.\<close>

definition month_length :: "int \<Rightarrow> int \<Rightarrow> int" where
  "month_length y m =
     (if m = 2 then (if is_leap y then 29 else 28)
      else if m = 4 \<or> m = 6 \<or> m = 9 \<or> m = 11 then 30 else 31)"

definition days_before_month :: "int \<Rightarrow> int \<Rightarrow> int" where
  "days_before_month y m =
     (if m \<le> 1 then 0 else if m = 2 then 31
      else (if is_leap y then 1 else 0) +
        (if m = 3 then 59 else if m = 4 then 90 else if m = 5 then 120 else if m = 6 then 151
         else if m = 7 then 181 else if m = 8 then 212 else if m = 9 then 243
         else if m = 10 then 273 else if m = 11 then 304 else if m = 12 then 334 else 365))"

text \<open>
  The months of all years on one axis: month number \<open>k\<close> is month \<open>k mod 12 + 1\<close> of year
  \<open>k div 12 + 1\<close>, and starts on day \<open>month_start k\<close>.
\<close>

definition month_start :: "int \<Rightarrow> int" where
  "month_start k = days_before_year (k div 12 + 1) + days_before_month (k div 12 + 1) (k mod 12 + 1)"

definition month_len :: "int \<Rightarrow> int" where
  "month_len k = month_length (k div 12 + 1) (k mod 12 + 1)"

lemma month_cases:
  fixes m :: int
  assumes "1 \<le> m" "m \<le> 12"
  obtains "m = 1" | "m = 2" | "m = 3" | "m = 4" | "m = 5" | "m = 6"
    | "m = 7" | "m = 8" | "m = 9" | "m = 10" | "m = 11" | "m = 12"
proof -
  from assms have "m = 1 \<or> m = 2 \<or> m = 3 \<or> m = 4 \<or> m = 5 \<or> m = 6
    \<or> m = 7 \<or> m = 8 \<or> m = 9 \<or> m = 10 \<or> m = 11 \<or> m = 12" by presburger
  with that show thesis by blast
qed

lemma days_before_month_Suc:
  assumes "1 \<le> m" "m \<le> 12"
  shows "days_before_month y (m + 1) = days_before_month y m + month_length y m"
  using assms by (cases m rule: month_cases) (simp_all add: days_before_month_def month_length_def)

lemma month_start_at:
  assumes "0 \<le> r" "r < 12"
  shows "month_start (12 * q + r) = days_before_year (q + 1) + days_before_month (q + 1) (r + 1)"
    and "month_len (12 * q + r) = month_length (q + 1) (r + 1)"
proof -
  have "(12 * q + r) div 12 = q" "(12 * q + r) mod 12 = r"
    using assms by (auto intro: int_div_pos_eq int_mod_pos_eq)
  then show "month_start (12 * q + r) = days_before_year (q + 1) + days_before_month (q + 1) (r + 1)"
    and "month_len (12 * q + r) = month_length (q + 1) (r + 1)"
    unfolding month_start_def month_len_def by simp_all
qed

lemma month_start_Suc: "month_start (k + 1) = month_start k + month_len k"
proof -
  define q r where "q = k div 12" and "r = k mod 12"
  have k: "k = 12 * q + r" "0 \<le> r" "r < 12" by (simp_all add: q_def r_def)
  note here = month_start_at [OF k(2,3), of q]
  show ?thesis
  proof (cases "r = 11")
    case True
    then have "k + 1 = 12 * (q + 1) + 0" using k by simp
    then have "month_start (k + 1) = days_before_year (q + 1 + 1)"
      by (simp only: month_start_at) (simp add: days_before_month_def)
    with days_before_year_Suc [of "q + 1"] here k True show ?thesis
      by (simp add: month_length_def days_before_month_def year_length_def)
  next
    case False
    then have "k + 1 = 12 * q + (r + 1)" "0 \<le> r + 1" "r + 1 < 12" using k by simp_all
    then have "month_start (k + 1) = days_before_year (q + 1) + days_before_month (q + 1) (r + 1 + 1)"
      by (metis month_start_at(1))
    with days_before_month_Suc [of "r + 1" "q + 1"] here k show ?thesis by simp
  qed
qed

lemma month_length_bounds: "28 \<le> month_length y m \<and> month_length y m \<le> 31"
  by (simp add: month_length_def)

lemma month_len_bounds: "28 \<le> month_len k \<and> month_len k \<le> 31"
  by (simp add: month_len_def month_length_bounds)

lemma month_start_mono: "j \<le> k \<Longrightarrow> month_start j \<le> month_start k"
proof (induction k rule: int_ge_induct)
  case base
  show ?case by simp
next
  case (step i)
  then show ?case using month_start_Suc [of i] month_len_bounds [of i] by linarith
qed

lemma month_start_strict: "j < k \<Longrightarrow> month_start j + 28 \<le> month_start k"
  using month_start_mono [of "j + 1" k] month_start_Suc [of j] month_len_bounds [of j] by linarith

text \<open>The month that holds day \<open>n\<close> of a year (day 0 is January 1st).\<close>

definition month_of_yday :: "int \<Rightarrow> int \<Rightarrow> int" where
  "month_of_yday y n =
     (if n < days_before_month y 2 then 1 else if n < days_before_month y 3 then 2
      else if n < days_before_month y 4 then 3 else if n < days_before_month y 5 then 4
      else if n < days_before_month y 6 then 5 else if n < days_before_month y 7 then 6
      else if n < days_before_month y 8 then 7 else if n < days_before_month y 9 then 8
      else if n < days_before_month y 10 then 9 else if n < days_before_month y 11 then 10
      else if n < days_before_month y 12 then 11 else 12)"

lemma month_of_yday_range: "1 \<le> month_of_yday y n \<and> month_of_yday y n \<le> 12"
  by (simp add: month_of_yday_def)

lemma month_of_yday_bounds:
  assumes "0 \<le> n" "n < year_length y"
  shows "days_before_month y (month_of_yday y n) \<le> n \<and> n < days_before_month y (month_of_yday y n + 1)"
proof (cases "is_leap y")
  case True
  with assms show ?thesis by (simp add: month_of_yday_def days_before_month_def year_length_def)
next
  case False
  with assms show ?thesis by (simp add: month_of_yday_def days_before_month_def year_length_def)
qed

section \<open>Civil fields of an instant\<close>

definition day_of :: "time \<Rightarrow> int" where
  "day_of t = t div ns_per_day"

definition tod :: "time \<Rightarrow> int" where
  "tod t = t mod ns_per_day"

definition Year :: "time \<Rightarrow> int" where
  "Year t = year_of_days (day_of t)"

definition yday :: "time \<Rightarrow> int" where
  "yday t = day_of t - days_before_year (Year t)"

definition Month :: "time \<Rightarrow> int" where
  "Month t = month_of_yday (Year t) (yday t)"

definition Day :: "time \<Rightarrow> int" where
  "Day t = yday t - days_before_month (Year t) (Month t) + 1"

definition Hour :: "time \<Rightarrow> int" where
  "Hour t = tod t div 3600000000000"

definition Minute :: "time \<Rightarrow> int" where
  "Minute t = tod t mod 3600000000000 div 60000000000"

definition Second :: "time \<Rightarrow> int" where
  "Second t = tod t mod 60000000000 div ns_per_sec"

definition Nanosecond :: "time \<Rightarrow> int" where
  "Nanosecond t = tod t mod ns_per_sec"

text \<open>
  \<open>time.Date(y, mo, d, h, mi, s, ns, time.UTC)\<close>: an out-of-range month carries into the year
  and every other out-of-range field is added linearly.
\<close>

definition time_Date :: "int \<Rightarrow> int \<Rightarrow> int \<Rightarrow> int \<Rightarrow> int \<Rightarrow> int \<Rightarrow> int \<Rightarrow> time" where
  "time_Date y mo d h mi s ns =
     (month_start (12 * (y - 1) + (mo - 1)) + (d - 1)) * ns_per_day
     + h * 3600000000000 + mi * 60000000000 + s * ns_per_sec + ns"

text \<open>\<open>t.AddDate(years, months, days)\<close>.\<close>

definition AddDate :: "time \<Rightarrow> int \<Rightarrow> int \<Rightarrow> int \<Rightarrow> time" where
  "AddDate t dy dm dd = time_Date (Year t + dy) (Month t + dm) (Day t + dd)
     (Hour t) (Minute t) (Second t) (Nanosecond t)"

definition month_no :: "time \<Rightarrow> int" where
  "month_no t = 12 * (Year t - 1) + (Month t - 1)"

lemma time_split: "t = day_of t * ns_per_day + tod t"
  by (simp add: day_of_def tod_def)

lemma tod_range: "0 \<le> tod t \<and> tod t < ns_per_day"
  by (simp add: tod_def ns_per_day_def)

lemma clock_fields:
  "Hour t * 3600000000000 + Minute t * 60000000000 + Second t * ns_per_sec + Nanosecond t = tod t"
proof -
  have "tod t mod 3600000000000 mod 60000000000 = tod t mod 60000000000"
    by (rule mod_mod_cancel) simp
  moreover have "tod t mod 60000000000 mod ns_per_sec = tod t mod ns_per_sec"
    by (rule mod_mod_cancel) (simp add: ns_per_sec_def)
  ultimately show ?thesis
    unfolding Hour_def Minute_def Second_def Nanosecond_def
    by (metis (no_types, lifting) add.assoc div_mult_mod_eq)
qed

lemma yday_range: "0 \<le> yday t \<and> yday t < year_length (Year t)"
  using year_of_days_bounds [of "day_of t"] days_before_year_Suc [of "Year t"]
  by (simp add: yday_def Year_def)

lemma Month_range: "1 \<le> Month t \<and> Month t \<le> 12"
  by (simp add: Month_def month_of_yday_range)

lemma month_no_div_mod:
  "month_no t div 12 = Year t - 1" "month_no t mod 12 = Month t - 1"
  using Month_range [of t]
  by (auto simp: month_no_def intro!: int_div_pos_eq [where r = "Month t - 1"] int_mod_pos_eq [where q = "Year t - 1"])

lemma Year_month_no: "Year t = month_no t div 12 + 1"
  and Month_month_no: "Month t = month_no t mod 12 + 1"
  by (simp_all add: month_no_div_mod)

lemma month_start_month_no:
  "month_start (month_no t) = days_before_year (Year t) + days_before_month (Year t) (Month t)"
  unfolding month_start_def month_no_div_mod by simp

lemma Day_month_start: "Day t = day_of t - month_start (month_no t) + 1"
  unfolding month_start_month_no Day_def yday_def by simp

lemma month_no_bounds:
  "month_start (month_no t) \<le> day_of t \<and> day_of t < month_start (month_no t + 1)"
proof -
  have y: "0 \<le> yday t" "yday t < year_length (Year t)" using yday_range by simp_all
  note b = month_of_yday_bounds [OF y, folded Month_def]
  have "month_len (month_no t) = month_length (Year t) (Month t)"
    unfolding month_len_def month_no_div_mod by simp
  then have "month_start (month_no t + 1)
      = days_before_year (Year t) + days_before_month (Year t) (Month t + 1)"
    using days_before_month_Suc [of "Month t" "Year t"] Month_range [of t]
    by (simp add: month_start_Suc month_start_month_no)
  with b show ?thesis by (simp add: month_start_month_no yday_def)
qed

lemma month_no_unique:
  assumes "month_start k \<le> day_of t" "day_of t < month_start (k + 1)"
  shows "month_no t = k"
proof (rule linorder_cases [of "month_no t" k])
  assume "month_no t < k"
  then have "month_start (month_no t + 1) \<le> month_start k" by (intro month_start_mono) simp
  with assms month_no_bounds [of t] show ?thesis by linarith
next
  assume "k < month_no t"
  then have "month_start (k + 1) \<le> month_start (month_no t)" by (intro month_start_mono) simp
  with assms month_no_bounds [of t] show ?thesis by linarith
qed

lemma Day_range: "1 \<le> Day t \<and> Day t \<le> month_len (month_no t)"
  using month_no_bounds [of t] month_start_Suc [of "month_no t"] by (simp add: Day_month_start)

lemma day_of_add: "0 \<le> x \<Longrightarrow> x < ns_per_day \<Longrightarrow> day_of (d * ns_per_day + x) = d"
  and tod_add: "0 \<le> x \<Longrightarrow> x < ns_per_day \<Longrightarrow> tod (d * ns_per_day + x) = x"
  by (auto simp: day_of_def tod_def ns_per_day_def intro: int_div_pos_eq int_mod_pos_eq)

text \<open>A date rebuilt with the clock fields of an instant keeps its time of day.\<close>

lemma time_Date_clock:
  "time_Date y mo d (Hour t) (Minute t) (Second t) (Nanosecond t)
   = (month_start (12 * (y - 1) + (mo - 1)) + (d - 1)) * ns_per_day + tod t"
  using clock_fields [of t] by (simp add: time_Date_def)

text \<open>The civil fields determine the instant.\<close>

lemma time_Date_fields: "time_Date (Year t) (Month t) (Day t) (Hour t) (Minute t) (Second t) (Nanosecond t) = t"
  unfolding time_Date_clock month_no_def [symmetric] Day_month_start
  using time_split [of t] by simp

lemma AddDate_days: "AddDate t 0 0 n = t + n * ns_per_day"
proof -
  have "AddDate t 0 0 n = (month_start (month_no t) + (Day t + n - 1)) * ns_per_day + tod t"
    by (simp only: AddDate_def time_Date_clock month_no_def add_0_right)
  also have "\<dots> = (day_of t + n) * ns_per_day + tod t"
    by (simp add: Day_month_start)
  finally show ?thesis using time_split [of t] by (simp add: distrib_right)
qed

section \<open>The layout RFC 3339\<close>

text \<open>
  \<open>time.Time.Format\<close> with the layout \<open>time.RFC3339\<close> for UTC instants: fields padded with zeros to
  at least two digits, the year to at least four.
\<close>

definition pad_int :: "nat \<Rightarrow> int \<Rightarrow> string" where
  "pad_int w x =
     (let ds = dec_digits (nat \<bar>x\<bar>)
      in (if x < 0 then ''-'' else []) @ replicate (w - length ds) (CHR ''0'') @ ds)"

definition FormatRFC3339 :: "time \<Rightarrow> string" where
  "FormatRFC3339 t =
     pad_int 4 (Year t) @ ''-'' @ pad_int 2 (Month t) @ ''-'' @ pad_int 2 (Day t) @ ''T'' @
     pad_int 2 (Hour t) @ '':'' @ pad_int 2 (Minute t) @ '':'' @ pad_int 2 (Second t) @ ''Z''"

lemma dec_digits_length: "n < 10 ^ w \<Longrightarrow> 0 < w \<Longrightarrow> length (dec_digits n) \<le> w"
proof (induction n arbitrary: w rule: dec_digits.induct)
  case (1 n)
  show ?case
  proof (cases "n < 10")
    case True
    with 1 show ?thesis by (simp add: dec_digits.simps [of n])
  next
    case False
    then obtain v where v: "w = Suc v" "0 < v" using 1(2,3) by (cases w; cases "w - 1") auto
    then have "n div 10 < 10 ^ v" using 1(2) by (simp add: less_mult_imp_div_less mult.commute)
    with 1(1) False v have "length (dec_digits (n div 10)) \<le> v" by blast
    with False v show ?thesis by (simp add: dec_digits.simps [of n])
  qed
qed

lemma pad_int_length: "0 \<le> x \<Longrightarrow> x < 10 ^ w \<Longrightarrow> 0 < w \<Longrightarrow> length (pad_int w x) = w"
  using dec_digits_length [of "nat x" w] by (simp add: pad_int_def Let_def nat_less_iff)

lemma dec_value_append: "dec_value (replicate k (CHR ''0'') @ s) = dec_value s"
  by (induction k) (simp_all add: dec_value_def digit_val_def)

lemma pad_int_inject: "0 \<le> x \<Longrightarrow> 0 \<le> y \<Longrightarrow> pad_int w x = pad_int w y \<Longrightarrow> x = y"
  by (drule arg_cong [where f = dec_value]) (simp add: pad_int_def Let_def dec_value_append)

lemma pad_int_printable: "list_all printable (pad_int w x)"
proof -
  have "list_all printable (dec_digits n)" for n
    using dec_digits_digits by (rule list.pred_mono_strong) (rule digit_printable)
  then show ?thesis by (auto simp: pad_int_def Let_def printable_def list_all_iff)
qed

lemma FormatRFC3339_printable: "list_all printable (FormatRFC3339 t)"
  by (simp add: FormatRFC3339_def pad_int_printable) (simp add: printable_def)

text \<open>Years with four digits, as every instant the ledger can hold has.\<close>

definition four_digit_year :: "time \<Rightarrow> bool" where
  "four_digit_year t \<longleftrightarrow> 0 \<le> Year t \<and> Year t < 10000"

lemma FormatRFC3339_length: "four_digit_year t \<Longrightarrow> length (FormatRFC3339 t) = 20"
proof -
  assume y: "four_digit_year t"
  have m: "length (pad_int 2 (Month t)) = 2" using Month_range [of t] by (intro pad_int_length) auto
  have "month_len (month_no t) \<le> 31" using month_len_bounds by blast
  then have d: "length (pad_int 2 (Day t)) = 2" using Day_range [of t] by (intro pad_int_length) auto
  have r: "0 \<le> tod t" "tod t < 86400000000000" using tod_range [of t] by (simp_all add: ns_per_day_def)
  have h: "length (pad_int 2 (Hour t)) = 2"
    using r by (intro pad_int_length) (auto simp: Hour_def)
  have "tod t mod 3600000000000 < 3600000000000" "0 \<le> tod t mod 3600000000000" by simp_all
  then have mi: "length (pad_int 2 (Minute t)) = 2"
    by (intro pad_int_length) (auto simp: Minute_def)
  have "tod t mod 60000000000 < 60000000000" "0 \<le> tod t mod 60000000000" by simp_all
  then have s: "length (pad_int 2 (Second t)) = 2"
    by (intro pad_int_length) (auto simp: Second_def ns_per_sec_def)
  have "length (pad_int 4 (Year t)) = 4" using y by (intro pad_int_length) (auto simp: four_digit_year_def)
  with m d h mi s show ?thesis by (simp add: FormatRFC3339_def)
qed

text \<open>Instants of different months print differently.\<close>

lemma FormatRFC3339_month:
  assumes "FormatRFC3339 s = FormatRFC3339 t" "four_digit_year s" "four_digit_year t"
  shows "month_no s = month_no t"
proof -
  have len: "length (pad_int 4 (Year x)) = 4" if "four_digit_year x" for x
    using that by (intro pad_int_length) (auto simp: four_digit_year_def)
  have m: "length (pad_int 2 (Month x)) = 2" for x using Month_range [of x] by (intro pad_int_length) auto
  have "pad_int 4 (Year s) = pad_int 4 (Year t)" "pad_int 2 (Month s) = pad_int 2 (Month t)"
    using assms(1) len [OF assms(2)] len [OF assms(3)] m [of s] m [of t]
    by (simp_all add: FormatRFC3339_def append_eq_append_conv)
  then have "Year s = Year t" "Month s = Month t"
    using assms(2,3) Month_range [of s] Month_range [of t]
    by (auto intro: pad_int_inject simp: four_digit_year_def)
  then show ?thesis by (simp add: month_no_def)
qed

end
