(* ===== verification/Postgres.thy ===== *)
theory Postgres
  imports GoTime "HOL-Library.Word" "HOL-Library.Char_ord" "HOL-Library.List_Lexorder"
begin

text \<open>
  What the repositories use of PostgreSQL: the error classes a statement can end in, the range
  check of \<open>bigint\<close>, text values, UUIDs and their canonical rendering (\<open>uuidToString\<close>), and
  keyset pagination over a table read newest first. A statement of a repository is a function
  from the state of the tables to a \<open>pg_error\<close> or the returned rows and the new state; an error
  leaves the transaction's state to be discarded by the caller.
\<close>

section \<open>Statement outcomes\<close>

text \<open>\<open>NoRows\<close> is \<open>pgx.ErrNoRows\<close>, the outcome of a \<open>:one\<close> query that returned no row.\<close>

datatype pg_error =
    NoRows | CheckViolation | UniqueViolation | ForeignKeyViolation | NumericOutOfRange
  | InvalidText | InvalidLimit | NotNullViolation

definition bigint :: "int \<Rightarrow> pg_error + int" where
  "bigint x = (if in_int64 x then Inr x else Inl NumericOutOfRange)"

lemma bigint_Inr [result_iffs]: "bigint x = Inr y \<longleftrightarrow> in_int64 x \<and> y = x"
  by (auto simp: bigint_def)

text \<open>A text value holds valid UTF-8 without NUL; \<open>trim\<close> strips blanks only.\<close>

definition pg_text :: "string \<Rightarrow> bool" where
  "pg_text s \<longleftrightarrow> valid_utf8 s \<and> list_all (\<lambda>c. byte c \<noteq> 0) s"

definition sql_blank :: "string \<Rightarrow> bool" where
  "sql_blank s \<longleftrightarrow> list_all (\<lambda>c. c = CHR '' '') s"

lemma valid_utf8_ascii: "list_all (\<lambda>c. byte c < 128) s \<Longrightarrow> valid_utf8 s"
  by (induction s) (simp_all add: valid_utf8_ascii_Cons)

lemma printable_pg_text: "list_all printable s \<Longrightarrow> pg_text s"
proof -
  assume p: "list_all printable s"
  then have "list_all (\<lambda>c. byte c < 128) s"
    by (rule list.pred_mono_strong) (auto dest: printable_not_space)
  moreover from p have "list_all (\<lambda>c. byte c \<noteq> 0) s"
    by (rule list.pred_mono_strong) (auto simp: printable_def)
  ultimately show ?thesis by (simp add: pg_text_def valid_utf8_ascii)
qed

lemma printable_not_blank: "list_all printable s \<Longrightarrow> s \<noteq> [] \<Longrightarrow> \<not> sql_blank s"
  by (cases s) (auto simp: sql_blank_def printable_def)

text \<open>A \<open>timestamptz\<close> keeps microseconds: the driver drops what is below.\<close>

definition timestamptz :: "time \<Rightarrow> time" where
  "timestamptz t = t - t mod 1000"

lemma timestamptz_mono: "s \<le> t \<Longrightarrow> timestamptz s \<le> timestamptz t"
proof -
  assume "s \<le> t"
  then have "s div 1000 \<le> t div 1000" by (rule zdiv_mono1) simp
  then have "1000 * (s div 1000) \<le> 1000 * (t div 1000)" by simp
  then show ?thesis by (simp add: timestamptz_def minus_mod_eq_mult_div)
qed

lemma timestamptz_idem [simp]: "timestamptz (timestamptz t) = timestamptz t"
  by (simp add: timestamptz_def minus_mod_eq_mult_div)

lemma timestamptz_le: "timestamptz t \<le> t"
  by (simp add: timestamptz_def)

section \<open>UUIDs\<close>

text \<open>
  \<open>pgtype.UUID\<close>: 16 bytes, most significant first, and a validity flag; an invalid value is
  \<open>None\<close>. The repositories render it as 32 hexadecimal digits in five groups.
\<close>

type_synonym uuid = "128 word"

definition hex_digit :: "nat \<Rightarrow> char" where
  "hex_digit d = (if d < 10 then char_of (48 + d) else char_of (87 + d))"

fun hex_digits :: "nat \<Rightarrow> nat \<Rightarrow> string" where
  "hex_digits 0 n = []"
| "hex_digits (Suc w) n = hex_digits w (n div 16) @ [hex_digit (n mod 16)]"

definition uuidToString :: "uuid option \<Rightarrow> string" where
  "uuidToString u =
     (case u of None \<Rightarrow> []
      | Some w \<Rightarrow> (let h = hex_digits 32 (unat w) in
          take 8 h @ ''-'' @ take 4 (drop 8 h) @ ''-'' @ take 4 (drop 12 h) @ ''-'' @
          take 4 (drop 16 h) @ ''-'' @ drop 20 h))"

lemma byte_char_of: "n < 256 \<Longrightarrow> byte (char_of n) = n"
  by (simp only: of_char_of mod_less)

lemma byte_hex_digit: "d < 16 \<Longrightarrow> byte (hex_digit d) = (if d < 10 then 48 + d else 87 + d)"
  by (simp only: hex_digit_def byte_char_of split: if_split) (simp add: byte_char_of del: of_char_of)

lemma hex_digit_printable: "d < 16 \<Longrightarrow> printable (hex_digit d)"
  using byte_hex_digit [of d] by (auto simp: printable_def)

lemma hex_digits_printable: "list_all printable (hex_digits w n)"
  by (induction w arbitrary: n) (simp_all add: hex_digit_printable)

lemma length_hex_digits [simp]: "length (hex_digits w n) = w"
  by (induction w arbitrary: n) auto

lemma hex_digits_set: "c \<in> set (hex_digits w n) \<Longrightarrow> \<exists>d < 16. c = hex_digit d"
proof (induction w arbitrary: n)
  case (Suc w)
  then consider "c \<in> set (hex_digits w (n div 16))" | "c = hex_digit (n mod 16)" by auto
  then show ?case
  proof cases
    case 2
    have "n mod 16 < 16" by simp
    with 2 show ?thesis by blast
  qed (rule Suc.IH)
qed simp

lemma list_all_take_drop: "list_all P xs \<Longrightarrow> list_all P (take n xs)" "list_all P xs \<Longrightarrow> list_all P (drop n xs)"
  by (auto simp: list_all_iff dest: in_set_takeD in_set_dropD)

lemma uuidToString_printable: "list_all printable (uuidToString u)"
  using hex_digits_printable
  by (cases u) (simp_all add: uuidToString_def Let_def list_all_take_drop, simp add: printable_def)

lemma uuidToString_nonempty [simp]: "uuidToString (Some u) \<noteq> []"
  by (simp add: uuidToString_def Let_def)

lemma hex_digit_inj:
  assumes "a < 16" "b < 16" "hex_digit a = hex_digit b"
  shows "a = b"
proof -
  have "(if a < 10 then 48 + a else 87 + a) = (if b < 10 then 48 + b else 87 + b)"
    by (simp only: byte_hex_digit [symmetric] assms)
  then show ?thesis using assms(1,2) by (simp split: if_splits)
qed

lemma hex_digits_inj: "hex_digits w a = hex_digits w b \<Longrightarrow> a mod 16 ^ w = b mod 16 ^ w"
proof (induction w arbitrary: a b)
  case 0
  then show ?case by simp
next
  case (Suc w)
  then have d: "hex_digit (a mod 16) = hex_digit (b mod 16)"
    and r: "hex_digits w (a div 16) = hex_digits w (b div 16)" by simp_all
  have "a mod 16 = b mod 16" by (rule hex_digit_inj [OF _ _ d]) simp_all
  with Suc.IH [OF r] show ?case by (simp only: power_Suc mod_mult2_eq)
qed

lemma uuidToString_inj: "uuidToString (Some u) = uuidToString (Some v) \<Longrightarrow> u = v"
proof -
  define a where "a = hex_digits 32 (unat u)"
  define b where "b = hex_digits 32 (unat v)"
  have l: "length a = 32" "length b = 32" by (simp_all add: a_def b_def)
  assume "uuidToString (Some u) = uuidToString (Some v)"
  then have e: "take 8 a @ ''-'' @ take 4 (drop 8 a) @ ''-'' @ take 4 (drop 12 a) @ ''-'' @
      take 4 (drop 16 a) @ ''-'' @ drop 20 a =
    take 8 b @ ''-'' @ take 4 (drop 8 b) @ ''-'' @ take 4 (drop 12 b) @ ''-'' @
      take 4 (drop 16 b) @ ''-'' @ drop 20 b"
    unfolding uuidToString_def a_def b_def by (simp only: option.case Let_def)
  then have "take 8 a = take 8 b \<and> take 4 (drop 8 a) = take 4 (drop 8 b) \<and>
      take 4 (drop 12 a) = take 4 (drop 12 b) \<and> take 4 (drop 16 a) = take 4 (drop 16 b) \<and>
      drop 20 a = drop 20 b"
    using l by (simp add: append_eq_append_conv)
  moreover have "xs = take 8 xs @ take 4 (drop 8 xs) @ take 4 (drop 12 xs) @ take 4 (drop 16 xs) @ drop 20 xs"
    for xs :: string
    using append_take_drop_id [of 8 xs] append_take_drop_id [of 4 "drop 8 xs"]
      append_take_drop_id [of 4 "drop 12 xs"] append_take_drop_id [of 4 "drop 16 xs"] by simp
  ultimately have "a = b" by metis
  then have "unat u mod 16 ^ 32 = unat v mod 16 ^ 32"
    unfolding a_def b_def by (rule hex_digits_inj)
  moreover have "unat u < 16 ^ 32" "unat v < 16 ^ 32"
    using unsigned_less [of u, where ?'a = nat] unsigned_less [of v, where ?'a = nat] by simp_all
  ultimately have "unat u = unat v" by (simp only: mod_less)
  then show "u = v" by (simp add: word_unat_eq_iff)
qed

section \<open>Keyset pagination\<close>

text \<open>The sort key of a row, \<open>(created_at, id)\<close>, compared as SQL compares the pair.\<close>

datatype keyset = Keyset (keyset_at: time) (keyset_id: uuid)

instantiation keyset :: linorder
begin

definition less_eq_keyset :: "keyset \<Rightarrow> keyset \<Rightarrow> bool" where
  "j \<le> k \<longleftrightarrow> keyset_at j < keyset_at k \<or> keyset_at j = keyset_at k \<and> keyset_id j \<le> keyset_id k"

definition less_keyset :: "keyset \<Rightarrow> keyset \<Rightarrow> bool" where
  "j < k \<longleftrightarrow> keyset_at j < keyset_at k \<or> keyset_at j = keyset_at k \<and> keyset_id j < keyset_id k"

instance
  by standard (auto simp: less_eq_keyset_def less_keyset_def intro: keyset.expand)

end

text \<open>
  \<open>WHERE key < after ORDER BY key DESC LIMIT n\<close>, the shape of every keyset query, and the walk of
  a client that asks for one row more than it shows and continues after the last row shown.
\<close>

definition keyset_query :: "('a \<Rightarrow> 'k::linorder) \<Rightarrow> 'a list \<Rightarrow> 'k option \<Rightarrow> nat \<Rightarrow> 'a list" where
  "keyset_query key rows after n =
     take n (rev (sort_key key (filter (\<lambda>r. case after of None \<Rightarrow> True | Some k \<Rightarrow> key r < k) rows)))"

locale keyset_pages =
  fixes key :: "'a \<Rightarrow> 'k::linorder"
    and table :: "'s \<Rightarrow> 'a list"
    and good :: "'s \<Rightarrow> bool"
    and page :: "'s \<Rightarrow> 'k option \<Rightarrow> nat \<Rightarrow> 'a list"
  assumes page_query: "page s after n = keyset_query key (table s) after n"
    and keys_distinct: "good s \<Longrightarrow> distinct (map key (table s))"
begin

definition newest_first :: "'s \<Rightarrow> 'a list" where
  "newest_first s = rev (sort_key key (table s))"

fun walk :: "nat \<Rightarrow> 's \<Rightarrow> nat \<Rightarrow> 'k option \<Rightarrow> 'a list" where
  "walk 0 s n after = []"
| "walk (Suc fuel) s n after =
     (let rows = page s after (Suc n) in
      if length rows > n then take n rows @ walk fuel s n (Some (key (last (take n rows)))) else rows)"

lemma newest_first_strict:
  assumes "good s"
  shows "sorted_wrt (\<lambda>x y. key y < key x) (newest_first s)"
proof -
  have "sorted (map key (sort_key key (table s)))" by simp
  moreover have "distinct (map key (sort_key key (table s)))"
    using keys_distinct [OF assms] by (simp add: distinct_map)
  ultimately have "sorted_wrt (<) (map key (sort_key key (table s)))"
    by (simp add: strict_sorted_iff)
  then show ?thesis by (simp add: newest_first_def sorted_wrt_rev sorted_wrt_map)
qed

lemma set_newest_first [simp]: "set (newest_first s) = set (table s)"
  by (simp add: newest_first_def)

lemma page_newest_first:
  "page s after n = take n (filter (\<lambda>r. case after of None \<Rightarrow> True | Some k \<Rightarrow> key r < k) (newest_first s))"
  by (simp add: page_query keyset_query_def newest_first_def filter_sort rev_filter [symmetric])

text \<open>The page after the last row of a prefix is the beginning of what follows the prefix.\<close>

lemma page_after_prefix:
  assumes "good s" "newest_first s = seen @ rest"
    and "after = (if seen = [] then None else Some (key (last seen)))"
  shows "page s after n = take n rest"
proof (cases "seen = []")
  case True
  with assms show ?thesis by (simp add: page_newest_first)
next
  case False
  then obtain s0 r where s: "seen = s0 @ [r]" by (metis append_butlast_last_id)
  have "sorted_wrt (\<lambda>x y. key y < key x) (s0 @ [r] @ rest)"
    using newest_first_strict [OF assms(1)] assms(2) s by simp
  then have "\<forall>x \<in> set s0. \<not> key x < key r" "\<forall>x \<in> set rest. key x < key r"
    by (auto simp: sorted_wrt_append)
  then have "filter (\<lambda>x. key x < key r) (newest_first s) = rest"
    using assms(2) s by (auto simp: filter_empty_conv filter_id_conv)
  then show ?thesis using assms(3) False s by (simp add: page_newest_first)
qed

lemma walk_from_prefix:
  assumes "0 < n" "good s"
  shows "newest_first s = seen @ rest \<Longrightarrow>
    after = (if seen = [] then None else Some (key (last seen))) \<Longrightarrow>
    length rest < fuel \<Longrightarrow> walk fuel s n after = rest"
proof (induction fuel arbitrary: seen rest after)
  case 0
  then show ?case by simp
next
  case (Suc fuel)
  note page = page_after_prefix [OF assms(2) Suc.prems(1,2), of "Suc n"]
  show ?case
  proof (cases "length rest > n")
    case True
    let ?p = "take n rest"
    from assms True have "?p \<noteq> []" by auto
    with Suc.prems have "newest_first s = (seen @ ?p) @ drop n rest"
      and "Some (key (last ?p)) = (if seen @ ?p = [] then None else Some (key (last (seen @ ?p))))"
      by simp_all
    from Suc.IH [OF this] True Suc.prems assms have "walk fuel s n (Some (key (last ?p))) = drop n rest"
      by simp
    with True page show ?thesis by (simp add: Let_def min_def)
  next
    case False
    with page show ?thesis by simp
  qed
qed

lemma walk_complete: "good s \<Longrightarrow> 0 < n \<Longrightarrow> length (table s) < fuel \<Longrightarrow> walk fuel s n None = newest_first s"
  by (rule walk_from_prefix [where seen = "[]"]) (simp_all add: newest_first_def)

end

end
