(* ===== verification/WalletDomain.thy ===== *)
theory WalletDomain
  imports GoText
begin

text \<open>
  The wallet domain, \<open>internal/wallet/domain\<close>: INK quantities, buckets, operation types and
  their directions, references, idempotency keys and reasons, the reconstitution of stored
  operations, and the allocation of a debit over the two buckets. Go's \<open>int64\<close> quantities are
  \<open>int\<close> with \<open>wrap64\<close> at each arithmetic operation; the string enumerations stay strings.
\<close>

section \<open>Errors\<close>

text \<open>\<open>errors.go\<close>: domain errors are compared by their code, one constructor per code.\<close>

datatype wallet_error =
    ErrEmptyAccountID | ErrEmptyOperationID | ErrNegativeInk | ErrInvalidInk | ErrInkOverflow
  | ErrInsufficientInk | ErrZeroAmount | ErrInvalidDirection | ErrInvalidBucket
  | ErrInvalidOperationType | ErrNotACredit | ErrNotADebit | ErrAdminOpsRestricted
  | ErrNotAdminAdjustment | ErrActorRequired | ErrEmptyReason | ErrInvalidReason
  | ErrReasonTooLong | ErrEmptyReference | ErrInvalidReference | ErrReferenceTooLong
  | ErrEmptyIdempotencyKey | ErrInvalidIdempotencyKey | ErrIdempotencyKeyTooLong

section \<open>Accounts and INK quantities\<close>

type_synonym AccountID = string

definition AccountID_IsZero :: "AccountID \<Rightarrow> bool" where
  "AccountID_IsZero i \<longleftrightarrow> TrimSpace i = []"

record Ink =
  amount :: int

definition zero_Ink :: Ink where
  "zero_Ink = \<lparr>amount = 0\<rparr>"

definition NewInk :: "int \<Rightarrow> wallet_error + Ink" where
  "NewInk a = (if a < 0 then Inl ErrNegativeInk else Inr \<lparr>amount = a\<rparr>)"

definition ParseInk :: "string \<Rightarrow> wallet_error + Ink" where
  "ParseInk raw =
     (if raw = [] then Inl ErrInvalidInk
      else if \<not> list_all (\<lambda>c. \<not> (byte c < 48 \<or> 57 < byte c)) raw then Inl ErrInvalidInk
      else case ParseInt raw of
        Inl ErrRange \<Rightarrow> Inl ErrInkOverflow
      | Inl ErrSyntax \<Rightarrow> Inl ErrInvalidInk
      | Inr a \<Rightarrow> Inr \<lparr>amount = a\<rparr>)"

definition Ink_Add :: "Ink \<Rightarrow> Ink \<Rightarrow> wallet_error + Ink" where
  "Ink_Add i other =
     (if amount other > wrap64 (MaxInt64 - amount i) then Inl ErrInkOverflow
      else Inr \<lparr>amount = wrap64 (amount i + amount other)\<rparr>)"

definition Ink_Sub :: "Ink \<Rightarrow> Ink \<Rightarrow> wallet_error + Ink" where
  "Ink_Sub i other =
     (if amount other > amount i then Inl ErrInsufficientInk
      else Inr \<lparr>amount = wrap64 (amount i - amount other)\<rparr>)"

definition Ink_String :: "Ink \<Rightarrow> string" where
  "Ink_String i = FormatInt (amount i)"

definition Ink_IsZero :: "Ink \<Rightarrow> bool" where
  "Ink_IsZero i \<longleftrightarrow> amount i = 0"

text \<open>The type invariant of a quantity: non-negative and within 64 bits.\<close>

definition is_Ink :: "Ink \<Rightarrow> bool" where
  "is_Ink i \<longleftrightarrow> 0 \<le> amount i \<and> amount i \<le> MaxInt64"

lemma is_Ink_zero [simp]: "is_Ink zero_Ink"
  by (simp add: is_Ink_def zero_Ink_def MaxInt64_def)

lemma amount_zero_Ink [simp]: "amount zero_Ink = 0"
  by (simp add: zero_Ink_def)

lemma is_Ink_in_int64: "is_Ink i \<Longrightarrow> in_int64 (amount i)"
  by (simp add: is_Ink_def int64_defs)

lemma NewInk_iff: "NewInk a = Inr i \<longleftrightarrow> 0 \<le> a \<and> i = \<lparr>amount = a\<rparr>"
  by (auto simp: NewInk_def)

lemma Ink_Add_valid:
  assumes "is_Ink i" "is_Ink j"
  shows "Ink_Add i j = (if amount i + amount j \<le> MaxInt64 then Inr \<lparr>amount = amount i + amount j\<rparr>
                         else Inl ErrInkOverflow)"
proof -
  have "in_int64 (MaxInt64 - amount i)"
    using assms by (simp add: is_Ink_def int64_defs)
  moreover have "amount i + amount j \<le> MaxInt64 \<Longrightarrow> in_int64 (amount i + amount j)"
    using assms by (simp add: is_Ink_def int64_defs)
  ultimately show ?thesis by (auto simp: Ink_Add_def)
qed

lemma Ink_Sub_valid:
  assumes "is_Ink i" "is_Ink j"
  shows "Ink_Sub i j = (if amount j \<le> amount i then Inr \<lparr>amount = amount i - amount j\<rparr>
                         else Inl ErrInsufficientInk)"
  using assms by (auto simp: Ink_Sub_def is_Ink_def int64_defs)

lemma digit_test: "(\<not> (byte c < 48 \<or> 57 < byte c)) = is_digit c"
  by (auto simp: is_digit_def)

lemma ParseInk_eq:
  "ParseInk raw = (if raw = [] \<or> \<not> list_all is_digit raw then Inl ErrInvalidInk
     else if int (dec_value raw) \<le> MaxInt64 then Inr \<lparr>amount = int (dec_value raw)\<rparr>
     else Inl ErrInkOverflow)"
  unfolding ParseInk_def digit_test by (simp add: ParseInt_digits)

section \<open>Buckets\<close>

type_synonym Bucket = string

definition BucketFree :: Bucket where [vocab]: "BucketFree = ''FREE_INK''"
definition BucketPurchased :: Bucket where [vocab]: "BucketPurchased = ''PURCHASED_INK''"

definition Bucket_IsValid :: "Bucket \<Rightarrow> bool" where
  "Bucket_IsValid b \<longleftrightarrow> b = BucketFree \<or> b = BucketPurchased"

definition ParseBucket :: "string \<Rightarrow> wallet_error + Bucket" where
  "ParseBucket raw = (if \<not> Bucket_IsValid raw then Inl ErrInvalidBucket else Inr raw)"

definition Priority :: "Bucket \<Rightarrow> int" where
  "Priority b = (if b = BucketFree then 1 else if b = BucketPurchased then 2 else 0)"

lemma buckets_distinct [simp]: "BucketFree \<noteq> BucketPurchased" "BucketPurchased \<noteq> BucketFree"
  by (simp_all add: vocab)

section \<open>Directions and operation types\<close>

text \<open>\<open>Direction\<close> is Go's \<open>uint8\<close> with \<open>iota + 1\<close>; 0 is the zero value.\<close>

type_synonym Direction = nat

definition DirectionCredit :: Direction where [vocab]: "DirectionCredit = 1"
definition DirectionDebit :: Direction where [vocab]: "DirectionDebit = 2"

definition Direction_IsValid :: "Direction \<Rightarrow> bool" where
  "Direction_IsValid d \<longleftrightarrow> d = DirectionCredit \<or> d = DirectionDebit"

definition Direction_Apply :: "Direction \<Rightarrow> Ink \<Rightarrow> wallet_error + int" where
  "Direction_Apply d a =
     (if \<not> Direction_IsValid d then Inl ErrInvalidDirection
      else if Ink_IsZero a then Inl ErrZeroAmount
      else if d = DirectionDebit then Inr (wrap64 (- amount a))
      else Inr (amount a))"

type_synonym OperationType = string

definition OperationCreditFree :: OperationType where [vocab]: "OperationCreditFree = ''credit_free''"
definition OperationCreditMember :: OperationType where [vocab]: "OperationCreditMember = ''credit_member''"
definition OperationCreditPurchase :: OperationType where [vocab]: "OperationCreditPurchase = ''credit_purchase''"
definition OperationCreditRefund :: OperationType where [vocab]: "OperationCreditRefund = ''credit_refund''"
definition OperationCreditAdmin :: OperationType where [vocab]: "OperationCreditAdmin = ''credit_admin''"
definition OperationDebitArgument :: OperationType where [vocab]: "OperationDebitArgument = ''debit_argument''"
definition OperationDebitAdmin :: OperationType where [vocab]: "OperationDebitAdmin = ''debit_admin''"
definition OperationDebitRefund :: OperationType where [vocab]: "OperationDebitRefund = ''debit_refund''"
definition OperationExpireFree :: OperationType where [vocab]: "OperationExpireFree = ''expire_free''"

definition operationTypeDirection :: "OperationType \<Rightarrow> Direction option" where
  "operationTypeDirection = map_of
     [(OperationCreditFree, DirectionCredit), (OperationCreditMember, DirectionCredit),
      (OperationCreditPurchase, DirectionCredit), (OperationCreditRefund, DirectionCredit),
      (OperationCreditAdmin, DirectionCredit), (OperationDebitArgument, DirectionDebit),
      (OperationDebitAdmin, DirectionDebit), (OperationDebitRefund, DirectionDebit),
      (OperationExpireFree, DirectionDebit)]"

definition AllOperationTypes :: "OperationType list" where
  "AllOperationTypes =
     [OperationCreditFree, OperationCreditMember, OperationCreditPurchase, OperationCreditRefund,
      OperationCreditAdmin, OperationDebitArgument, OperationDebitAdmin, OperationDebitRefund,
      OperationExpireFree]"

definition OperationType_IsValid :: "OperationType \<Rightarrow> bool" where
  "OperationType_IsValid t \<longleftrightarrow> operationTypeDirection t \<noteq> None"

definition ParseOperationType :: "string \<Rightarrow> wallet_error + OperationType" where
  "ParseOperationType raw = (if \<not> OperationType_IsValid raw then Inl ErrInvalidOperationType else Inr raw)"

definition OperationType_Direction :: "OperationType \<Rightarrow> wallet_error + Direction" where
  "OperationType_Direction t =
     (case operationTypeDirection t of None \<Rightarrow> Inl ErrInvalidOperationType | Some d \<Rightarrow> Inr d)"

definition IsCredit :: "OperationType \<Rightarrow> bool" where
  "IsCredit t \<longleftrightarrow> operationTypeDirection t = Some DirectionCredit"

definition IsDebit :: "OperationType \<Rightarrow> bool" where
  "IsDebit t \<longleftrightarrow> operationTypeDirection t = Some DirectionDebit"

definition IsAdmin :: "OperationType \<Rightarrow> bool" where
  "IsAdmin t \<longleftrightarrow> t = OperationCreditAdmin \<or> t = OperationDebitAdmin"

lemma OperationType_IsValid_iff: "OperationType_IsValid t \<longleftrightarrow> t \<in> set AllOperationTypes"
  by (auto simp: OperationType_IsValid_def operationTypeDirection_def AllOperationTypes_def split: if_splits)

lemma valid_credit_or_debit: "OperationType_IsValid t \<longleftrightarrow> IsCredit t \<or> IsDebit t"
  unfolding OperationType_IsValid_def IsCredit_def IsDebit_def operationTypeDirection_def
  by (auto split: if_splits)

lemma credit_not_debit: "IsCredit t \<Longrightarrow> \<not> IsDebit t"
  by (simp add: IsCredit_def IsDebit_def vocab)

lemma operation_type_facts [simp]:
  "IsDebit OperationExpireFree" "IsCredit OperationCreditFree"
  "OperationType_IsValid OperationExpireFree" "OperationType_IsValid OperationCreditFree"
  "\<not> IsAdmin OperationExpireFree" "\<not> IsAdmin OperationCreditFree"
  by (simp_all add: IsDebit_def IsCredit_def OperationType_IsValid_def IsAdmin_def operationTypeDirection_def vocab)

section \<open>References, idempotency keys and reasons\<close>

definition maxReferenceLength :: nat where "maxReferenceLength = 200"

datatype Reference = Reference (reference_String: string)

definition ParseReference :: "string \<Rightarrow> wallet_error + Reference" where
  "ParseReference raw =
     (let trimmed = TrimSpace raw in
      if trimmed = [] then Inl ErrEmptyReference
      else if length trimmed > maxReferenceLength then Inl ErrReferenceTooLong
      else if \<not> list_all printable trimmed then Inl ErrInvalidReference
      else Inr (Reference trimmed))"

definition Reference_IsZero :: "Reference \<Rightarrow> bool" where
  "Reference_IsZero r \<longleftrightarrow> reference_String r = []"

definition Reference_Equals :: "Reference \<Rightarrow> Reference \<Rightarrow> bool" where
  "Reference_Equals r other \<longleftrightarrow> reference_String r = reference_String other"

definition maxIdempotencyKeyLength :: nat where "maxIdempotencyKeyLength = 200"

datatype IdempotencyKey = IdempotencyKey (key_String: string)

definition ParseIdempotencyKey :: "string \<Rightarrow> wallet_error + IdempotencyKey" where
  "ParseIdempotencyKey raw =
     (let trimmed = TrimSpace raw in
      if trimmed = [] then Inl ErrEmptyIdempotencyKey
      else if length trimmed > maxIdempotencyKeyLength then Inl ErrIdempotencyKeyTooLong
      else if \<not> list_all printable trimmed then Inl ErrInvalidIdempotencyKey
      else Inr (IdempotencyKey trimmed))"

definition IdempotencyKey_IsZero :: "IdempotencyKey \<Rightarrow> bool" where
  "IdempotencyKey_IsZero k \<longleftrightarrow> key_String k = []"

definition IdempotencyKey_Equals :: "IdempotencyKey \<Rightarrow> IdempotencyKey \<Rightarrow> bool" where
  "IdempotencyKey_Equals k other \<longleftrightarrow> key_String k = key_String other"

definition maxReasonLength :: nat where "maxReasonLength = 500"

datatype Reason = Reason (reason_String: string)

definition isBidiOverride :: "nat \<Rightarrow> bool" where
  "isBidiOverride r \<longleftrightarrow>
     r \<in> {0x200E, 0x200F, 0x061C, 0x202A, 0x202B, 0x202C, 0x202D, 0x202E, 0x2066, 0x2067, 0x2068, 0x2069}"

definition ParseReason :: "string \<Rightarrow> wallet_error + Reason" where
  "ParseReason raw =
     (if \<not> valid_utf8 raw then Inl ErrInvalidReason
      else let trimmed = TrimSpace raw in
      if trimmed = [] then Inl ErrEmptyReason
      else if length (runes trimmed) > maxReasonLength then Inl ErrReasonTooLong
      else if \<not> list_all (\<lambda>r. \<not> (is_control r \<or> isBidiOverride r)) (runes trimmed) then Inl ErrInvalidReason
      else Inr (Reason trimmed))"

definition zero_Reason :: Reason where "zero_Reason = Reason []"

definition Reason_IsZero :: "Reason \<Rightarrow> bool" where
  "Reason_IsZero r \<longleftrightarrow> reason_String r = []"

definition Reason_Equals :: "Reason \<Rightarrow> Reason \<Rightarrow> bool" where
  "Reason_Equals r other \<longleftrightarrow> reason_String r = reason_String other"

interpretation reference: printable_identifier ParseReference reference_String maxReferenceLength
proof unfold_locales
  show "ParseReference raw = Inr v \<Longrightarrow> reference_String v = TrimSpace raw" for raw v
    by (auto simp: ParseReference_def Let_def split: if_splits)
  show "(\<exists>v. ParseReference raw = Inr v) \<longleftrightarrow> TrimSpace raw \<noteq> [] \<and>
      length (TrimSpace raw) \<le> maxReferenceLength \<and> list_all printable (TrimSpace raw)" for raw
    by (auto simp: ParseReference_def Let_def)
  show "reference_String v = reference_String w \<Longrightarrow> v = w" for v w
    by (rule Reference.expand)
qed

interpretation idem_key: printable_identifier ParseIdempotencyKey key_String maxIdempotencyKeyLength
proof unfold_locales
  show "ParseIdempotencyKey raw = Inr v \<Longrightarrow> key_String v = TrimSpace raw" for raw v
    by (auto simp: ParseIdempotencyKey_def Let_def split: if_splits)
  show "(\<exists>v. ParseIdempotencyKey raw = Inr v) \<longleftrightarrow> TrimSpace raw \<noteq> [] \<and>
      length (TrimSpace raw) \<le> maxIdempotencyKeyLength \<and> list_all printable (TrimSpace raw)" for raw
    by (auto simp: ParseIdempotencyKey_def Let_def)
  show "key_String v = key_String w \<Longrightarrow> v = w" for v w
    by (rule IdempotencyKey.expand)
qed

text \<open>What the parsers promise of their results, and that a stored value parses to itself.\<close>

definition is_Reference :: "Reference \<Rightarrow> bool" where
  "is_Reference r \<longleftrightarrow> ParseReference (reference_String r) = Inr r"

definition is_IdempotencyKey :: "IdempotencyKey \<Rightarrow> bool" where
  "is_IdempotencyKey k \<longleftrightarrow> ParseIdempotencyKey (key_String k) = Inr k"

definition is_Reason :: "Reason \<Rightarrow> bool" where
  "is_Reason r \<longleftrightarrow> ParseReason (reason_String r) = Inr r"

lemma ParseReference_valid: "ParseReference raw = Inr r \<Longrightarrow> is_Reference r"
  unfolding is_Reference_def by (rule reference.reparse)

lemma ParseIdempotencyKey_valid: "ParseIdempotencyKey raw = Inr k \<Longrightarrow> is_IdempotencyKey k"
  unfolding is_IdempotencyKey_def by (rule idem_key.reparse)

lemma ParseReason_valid: "ParseReason raw = Inr r \<Longrightarrow> is_Reason r"
  by (auto simp: is_Reason_def ParseReason_def Let_def valid_utf8_TrimSpace split: if_splits)

lemma valid_not_zero:
  "is_Reference r \<Longrightarrow> \<not> Reference_IsZero r"
  "is_IdempotencyKey k \<Longrightarrow> \<not> IdempotencyKey_IsZero k"
  "is_Reason q \<Longrightarrow> \<not> Reason_IsZero q"
  by (auto simp: is_Reference_def ParseReference_def Reference_IsZero_def is_IdempotencyKey_def
      ParseIdempotencyKey_def IdempotencyKey_IsZero_def is_Reason_def ParseReason_def
      Reason_IsZero_def Let_def)

section \<open>Operations\<close>

type_synonym OperationID = string

definition OperationID_IsZero :: "OperationID \<Rightarrow> bool" where
  "OperationID_IsZero i \<longleftrightarrow> i = []"

record Operation =
  Operation_ID :: OperationID
  Operation_AccountID :: AccountID
  Operation_Type :: OperationType
  Operation_Key :: IdempotencyKey
  Operation_Reference :: Reference
  Operation_Reason :: Reason
  Operation_Actor :: AccountID
  Operation_CreatedAt :: int

definition ReconstituteOperation ::
  "OperationID \<Rightarrow> AccountID \<Rightarrow> OperationType \<Rightarrow> IdempotencyKey \<Rightarrow> Reference \<Rightarrow> Reason \<Rightarrow>
     AccountID \<Rightarrow> int \<Rightarrow> wallet_error + Operation" where
  "ReconstituteOperation i accountID operationType idempotencyKey ref reason actor createdAt =
     (if OperationID_IsZero i then Inl ErrEmptyOperationID
      else if AccountID_IsZero accountID then Inl ErrEmptyAccountID
      else if \<not> OperationType_IsValid operationType then Inl ErrInvalidOperationType
      else if IdempotencyKey_IsZero idempotencyKey then Inl ErrEmptyIdempotencyKey
      else if Reference_IsZero ref then Inl ErrEmptyReference
      else if IsAdmin operationType \<and> Reason_IsZero reason then Inl ErrEmptyReason
      else if IsAdmin operationType \<and> AccountID_IsZero actor then Inl ErrActorRequired
      else Inr \<lparr>Operation_ID = i, Operation_AccountID = accountID, Operation_Type = operationType,
                Operation_Key = idempotencyKey, Operation_Reference = ref, Operation_Reason = reason,
                Operation_Actor = actor, Operation_CreatedAt = createdAt\<rparr>)"

section \<open>Debit allocation\<close>

record AllocationLine =
  line_Bucket :: Bucket
  line_Amount :: Ink

record Allocation =
  fromFree :: Ink
  fromPurchased :: Ink

definition NewAllocation :: "Ink \<Rightarrow> Ink \<Rightarrow> Allocation" where
  "NewAllocation f p = \<lparr>fromFree = f, fromPurchased = p\<rparr>"

definition AllocateDebit :: "Ink \<Rightarrow> Ink \<Rightarrow> Ink \<Rightarrow> wallet_error + Allocation" where
  "AllocateDebit a availableFree availablePurchased =
     (if Ink_IsZero a then Inl ErrZeroAmount
      else if amount a \<le> amount availableFree
        then Inr \<lparr>fromFree = a, fromPurchased = zero_Ink\<rparr>
      else bind_r (Ink_Add availableFree availablePurchased) (\<lambda>total.
        if amount a > amount total then Inl ErrInsufficientInk
        else bind_r (Ink_Sub a availableFree) (\<lambda>remaining.
          Inr \<lparr>fromFree = availableFree, fromPurchased = remaining\<rparr>)))"

definition Allocation_Total :: "Allocation \<Rightarrow> wallet_error + Ink" where
  "Allocation_Total p = Ink_Add (fromFree p) (fromPurchased p)"

definition Allocation_Lines :: "Allocation \<Rightarrow> AllocationLine list" where
  "Allocation_Lines p =
     (if \<not> Ink_IsZero (fromFree p)
        then [\<lparr>line_Bucket = BucketFree, line_Amount = fromFree p\<rparr>] else []) @
     (if \<not> Ink_IsZero (fromPurchased p)
        then [\<lparr>line_Bucket = BucketPurchased, line_Amount = fromPurchased p\<rparr>] else [])"

definition Allocation_IsZero :: "Allocation \<Rightarrow> bool" where
  "Allocation_IsZero p \<longleftrightarrow> Ink_IsZero (fromFree p) \<and> Ink_IsZero (fromPurchased p)"

definition Allocation_Equals :: "Allocation \<Rightarrow> Allocation \<Rightarrow> bool" where
  "Allocation_Equals p q \<longleftrightarrow>
     amount (fromFree p) = amount (fromFree q) \<and> amount (fromPurchased p) = amount (fromPurchased q)"

lemma AllocateDebit_cases:
  assumes "is_Ink a" "is_Ink f" "is_Ink p"
  shows "AllocateDebit a f p =
     (if amount a = 0 then Inl ErrZeroAmount
      else if amount a \<le> amount f then Inr \<lparr>fromFree = a, fromPurchased = zero_Ink\<rparr>
      else if MaxInt64 < amount f + amount p then Inl ErrInkOverflow
      else if amount f + amount p < amount a then Inl ErrInsufficientInk
      else Inr \<lparr>fromFree = f, fromPurchased = \<lparr>amount = amount a - amount f\<rparr>\<rparr>)"
proof -
  have sub: "Ink_Sub a f = (if amount f \<le> amount a then Inr \<lparr>amount = amount a - amount f\<rparr>
      else Inl ErrInsufficientInk)" using assms by (rule_tac Ink_Sub_valid)
  show ?thesis unfolding AllocateDebit_def Ink_Add_valid [OF assms(2,3)] sub
    by (auto simp: Ink_IsZero_def)
qed

lemma AllocateDebit_Inr:
  assumes "is_Ink a" "is_Ink f" "is_Ink p" "AllocateDebit a f p = Inr plan"
  shows "0 < amount a \<and> is_Ink (fromFree plan) \<and> is_Ink (fromPurchased plan)
    \<and> amount (fromFree plan) = min (amount a) (amount f)
    \<and> amount (fromPurchased plan) = amount a - min (amount a) (amount f)
    \<and> amount (fromPurchased plan) \<le> amount p"
  using assms(4) assms(1-3) unfolding AllocateDebit_cases [OF assms(1-3)]
  by (auto simp: is_Ink_def zero_Ink_def MaxInt64_def split: if_splits)

lemma Ink_IsZero_iff: "Ink_IsZero i \<longleftrightarrow> i = zero_Ink"
  by (cases i) (simp add: Ink_IsZero_def zero_Ink_def)

section \<open>Properties\<close>

text \<open>
  A debit is planned exactly: for well-formed quantities the plan exists exactly when the
  amount is positive, and either the free bucket covers it or the (representable) total does;
  a plan sums to the amount, draws on the free bucket first (purchased INK only once the free
  bucket is drained) and takes from no bucket more than it holds.
\<close>
theorem AllocateDebit_exact:
  assumes ink: "is_Ink a" "is_Ink f" "is_Ink p"
  shows "((\<exists>plan. AllocateDebit a f p = Inr plan) \<longleftrightarrow>
           0 < amount a \<and> (amount a \<le> amount f \<or>
             amount f + amount p \<le> MaxInt64 \<and> amount a \<le> amount f + amount p))
       \<and> (\<forall>plan. AllocateDebit a f p = Inr plan \<longrightarrow>
           Allocation_Total plan = Inr a
         \<and> (\<Sum>l\<leftarrow>Allocation_Lines plan. amount (line_Amount l)) = amount a
         \<and> amount (fromFree plan) \<le> amount f \<and> amount (fromPurchased plan) \<le> amount p
         \<and> (0 < amount (fromPurchased plan) \<longrightarrow> fromFree plan = f))"
proof (intro conjI allI impI, goal_cases)
  case 1
  then show ?case
    using ink unfolding AllocateDebit_cases [OF ink] by (auto simp: is_Ink_def)
next
  case (2 plan)
  with AllocateDebit_Inr [OF ink] show ?case
    unfolding Allocation_Total_def using Ink_Add_valid [of "fromFree plan" "fromPurchased plan"] ink
    by (cases a) (simp add: is_Ink_def)
next
  case (3 plan)
  with AllocateDebit_Inr [OF ink] show ?case
    by (auto simp: Allocation_Lines_def Ink_IsZero_def)
next
  case (4 plan)
  with AllocateDebit_Inr [OF ink] show ?case by auto
next
  case (5 plan)
  with AllocateDebit_Inr [OF ink] show ?case by auto
next
  case (6 plan)
  with AllocateDebit_Inr [OF ink] show ?case
    by (cases f; cases "fromFree plan") (auto simp: min_def)
qed

theorem AllocateDebit_exact_witness:
  "AllocateDebit \<lparr>amount = 7\<rparr> \<lparr>amount = 5\<rparr> \<lparr>amount = 3\<rparr> =
     Inr \<lparr>fromFree = \<lparr>amount = 5\<rparr>, fromPurchased = \<lparr>amount = 2\<rparr>\<rparr>
   \<and> Allocation_Total \<lparr>fromFree = \<lparr>amount = 5\<rparr>, fromPurchased = \<lparr>amount = 2\<rparr>\<rparr> = Inr \<lparr>amount = 7\<rparr>"
proof -
  have "is_Ink \<lparr>amount = 7\<rparr>" "is_Ink \<lparr>amount = 5\<rparr>" "is_Ink \<lparr>amount = 3\<rparr>"
    by (simp_all add: is_Ink_def MaxInt64_def)
  note C = AllocateDebit_exact [OF this]
  have "AllocateDebit \<lparr>amount = 7\<rparr> \<lparr>amount = 5\<rparr> \<lparr>amount = 3\<rparr> =
     Inr \<lparr>fromFree = \<lparr>amount = 5\<rparr>, fromPurchased = \<lparr>amount = 2\<rparr>\<rparr>"
    by code_simp
  with C show ?thesis by blast
qed

text \<open>
  Parsing an INK quantity inverts printing it: a text parses to a quantity exactly when it
  is a non-empty digit string whose value fits in 64 bits; printing any well-formed quantity
  and parsing the text gives it back; and a parsed quantity is well formed.
\<close>
theorem ParseInk_roundtrip:
  "(\<forall>i. is_Ink i \<longrightarrow> ParseInk (Ink_String i) = Inr i)
 \<and> (\<forall>raw i. ParseInk raw = Inr i \<longleftrightarrow>
       raw \<noteq> [] \<and> list_all is_digit raw \<and> int (dec_value raw) \<le> MaxInt64
     \<and> i = \<lparr>amount = int (dec_value raw)\<rparr>)
 \<and> (\<forall>raw i. ParseInk raw = Inr i \<longrightarrow> is_Ink i)"
  by (auto simp: ParseInk_eq Ink_String_def FormatInt_def is_Ink_def dec_digits_digits)

theorem ParseInk_roundtrip_witness:
  "is_Ink \<lparr>amount = 120\<rparr> \<and> ParseInk (Ink_String \<lparr>amount = 120\<rparr>) = Inr \<lparr>amount = 120\<rparr>
   \<and> is_Ink \<lparr>amount = 7\<rparr> \<and> ParseInk ''007'' = Inr \<lparr>amount = 7\<rparr>"
proof -
  have "is_Ink \<lparr>amount = 120\<rparr>" by (simp add: is_Ink_def MaxInt64_def)
  moreover have "ParseInk ''007'' = Inr \<lparr>amount = 7\<rparr>" by code_simp
  ultimately show ?thesis using ParseInk_roundtrip by blast
qed

text \<open>
  The parsers of references, idempotency keys and reasons normalise: the accepted text is
  the trimmed input, and parsing the text of an accepted value gives the same value, so what
  the ledger stores reads back unchanged.
\<close>
theorem parsers_normalise:
  "(\<forall>raw r. ParseReference raw = Inr r \<longrightarrow>
      reference_String r = TrimSpace raw \<and> ParseReference (reference_String r) = Inr r)
 \<and> (\<forall>raw k. ParseIdempotencyKey raw = Inr k \<longrightarrow>
      key_String k = TrimSpace raw \<and> ParseIdempotencyKey (key_String k) = Inr k)
 \<and> (\<forall>raw q. ParseReason raw = Inr q \<longrightarrow>
      reason_String q = TrimSpace raw \<and> ParseReason (reason_String q) = Inr q)"
proof (intro conjI allI impI)
  fix raw r assume "ParseReference raw = Inr r"
  then show "reference_String r = TrimSpace raw" "ParseReference (reference_String r) = Inr r"
    by (rule reference.parse_text, rule reference.reparse)
next
  fix raw k assume "ParseIdempotencyKey raw = Inr k"
  then show "key_String k = TrimSpace raw" "ParseIdempotencyKey (key_String k) = Inr k"
    by (rule idem_key.parse_text, rule idem_key.reparse)
next
  fix raw q assume ok: "ParseReason raw = Inr q"
  then show "reason_String q = TrimSpace raw"
    by (auto simp: ParseReason_def Let_def split: if_splits)
  from ok show "ParseReason (reason_String q) = Inr q"
    using ParseReason_valid is_Reason_def by blast
qed

theorem parsers_normalise_witness:
  "ParseReference '' evt_1 '' = Inr (Reference ''evt_1'')
   \<and> ParseReference ''evt_1'' = Inr (Reference ''evt_1'')
   \<and> ParseIdempotencyKey '' k '' = Inr (IdempotencyKey ''k'') \<and> ParseReason '' why not '' = Inr (Reason ''why not'')
   \<and> ParseReason ''why not'' = Inr (Reason ''why not'')"
proof -
  have r: "ParseReference '' evt_1 '' = Inr (Reference ''evt_1'')"
    and k: "ParseIdempotencyKey '' k '' = Inr (IdempotencyKey ''k'')"
    and q: "ParseReason '' why not '' = Inr (Reason ''why not'')"
    by (simp_all add: ParseReference_def ParseIdempotencyKey_def ParseReason_def trim_ascii printable_def
        maxReferenceLength_def maxIdempotencyKeyLength_def maxReasonLength_def runes_ascii_Cons
        valid_utf8_ascii_Cons is_control_def isBidiOverride_def)
  note C = parsers_normalise
  from C [THEN conjunct1, rule_format, OF r] C [THEN conjunct2, THEN conjunct2, rule_format, OF q]
  show ?thesis using r k q unfolding Reference.sel Reason.sel by blast
qed

end
