(* ===== verification/WalletPeriod.thy ===== *)
theory WalletPeriod
  imports WalletDomain GoTime
begin

text \<open>
  \<open>internal/wallet/domain/period.go\<close>: the monthly cycle of the free plan. A period is one
  month of a cycle anchored on an instant, with the anchor's day clamped to the length of the
  month it falls in. Months are counted on one linear axis (\<open>month_no\<close>), on which the
  code's year/month arithmetic is plain addition; the instants of Go's \<open>time.Time\<close> keep every
  month number below \<open>2 ^ 43\<close>, so the code's \<open>int64\<close> month arithmetic cannot wrap and is written
  on \<open>int\<close>.
\<close>

section \<open>Policy\<close>

definition FreeMonthlyFranchise :: int where "FreeMonthlyFranchise = 5000"

record FreeCyclePolicy =
  policy_Franchise :: Ink

definition DefaultFreeCyclePolicy :: FreeCyclePolicy where
  "DefaultFreeCyclePolicy = \<lparr>policy_Franchise = \<lparr>amount = FreeMonthlyFranchise\<rparr>\<rparr>"

section \<open>Calendar months\<close>

text \<open>Go's \<open>/\<close> and \<open>%\<close> truncate towards zero; the two helpers round towards minus infinity.\<close>

definition go_quot :: "int \<Rightarrow> int \<Rightarrow> int" where
  "go_quot a b = sgn a * sgn b * (\<bar>a\<bar> div \<bar>b\<bar>)"

definition go_rem :: "int \<Rightarrow> int \<Rightarrow> int" where
  "go_rem a b = a - go_quot a b * b"

definition floorDiv :: "int \<Rightarrow> int \<Rightarrow> int" where
  "floorDiv a b =
     (let quotient = go_quot a b in
      if go_rem a b \<noteq> 0 \<and> (a < 0) \<noteq> (b < 0) then quotient - 1 else quotient)"

definition floorMod :: "int \<Rightarrow> int \<Rightarrow> int" where
  "floorMod a b =
     (let remainder = go_rem a b in
      if remainder \<noteq> 0 \<and> (remainder < 0) \<noteq> (b < 0) then remainder + b else remainder)"

definition daysInMonth :: "int \<Rightarrow> int \<Rightarrow> int" where
  "daysInMonth year month = Day (time_Date year (month + 1) 0 0 0 0 0)"

definition calendarMonthDiff :: "time \<Rightarrow> time \<Rightarrow> int" where
  "calendarMonthDiff t to = (Year to - Year t) * 12 + Month to - Month t"

definition addClampedMonths :: "time \<Rightarrow> int \<Rightarrow> time" where
  "addClampedMonths anchor months =
     (let zeroBasedMonth = Month anchor - 1 + months;
          year = Year anchor + floorDiv zeroBasedMonth 12;
          month = floorMod zeroBasedMonth 12 + 1;
          day = (if Day anchor > daysInMonth year month then daysInMonth year month else Day anchor)
      in time_Date year month day (Hour anchor) (Minute anchor) (Second anchor) (Nanosecond anchor))"

lemma go_rem_pos: "0 < b \<Longrightarrow> go_rem a b = (if a < 0 then - ((- a) mod b) else a mod b)"
  by (auto simp: go_rem_def go_quot_def sgn_if minus_mod_eq_mult_div [symmetric] algebra_simps)

lemma floorMod_12: "floorMod a 12 = a mod 12"
proof -
  have "a < 0 \<Longrightarrow> - ((- a) mod 12) = a mod 12 - (if a mod 12 = 0 then 0 else 12)"
    by (simp add: zmod_zminus1_eq_if)
  moreover have "0 \<le> a mod 12" "a mod 12 < 12" by simp_all
  ultimately show ?thesis by (auto simp: floorMod_def go_rem_pos Let_def)
qed

lemma floorDiv_12: "floorDiv a 12 = a div 12"
proof -
  have "a = 12 * (a div 12) + a mod 12" by simp
  moreover have "12 * go_quot a 12 = a - go_rem a 12" by (simp add: go_rem_def)
  moreover have "go_rem a 12 = (if a < 0 \<and> a mod 12 \<noteq> 0 then a mod 12 - 12 else a mod 12)"
    by (simp add: go_rem_pos zmod_zminus1_eq_if)
  ultimately show ?thesis by (auto simp: floorDiv_def Let_def)
qed

lemma daysInMonth_eq: "daysInMonth year month = month_len (12 * (year - 1) + (month - 1))"
proof -
  define k where "k = 12 * (year - 1) + (month - 1)"
  have t: "time_Date year (month + 1) 0 0 0 0 0 = (month_start (k + 1) - 1) * ns_per_day + 0"
    by (simp add: time_Date_def k_def algebra_simps)
  have d: "day_of (time_Date year (month + 1) 0 0 0 0 0) = month_start (k + 1) - 1"
    unfolding t by (rule day_of_add) (simp_all add: ns_per_day_def)
  have "month_start k < month_start (k + 1)" using month_start_strict [of k "k + 1"] by simp
  then have "month_no (time_Date year (month + 1) 0 0 0 0 0) = k"
    using d by (intro month_no_unique) auto
  then have "daysInMonth year month = month_start (k + 1) - 1 - month_start k + 1"
    by (simp only: daysInMonth_def Day_month_start d)
  then show ?thesis unfolding k_def [symmetric] by (simp add: month_start_Suc)
qed

lemma addClampedMonths_eq:
  "addClampedMonths anchor n =
     (let k = month_no anchor + n in
      (month_start k + (min (Day anchor) (month_len k) - 1)) * ns_per_day + tod anchor)"
proof -
  define z where "z = Month anchor - 1 + n"
  have "12 * (Year anchor + z div 12 - 1) + z mod 12 = month_no anchor + n"
    unfolding month_no_def using div_mult_mod_eq [of z 12] by (simp add: z_def)
  then show ?thesis
    unfolding addClampedMonths_def z_def [symmetric] Let_def floorDiv_12 floorMod_12
      daysInMonth_eq time_Date_clock by (simp add: min_def)
qed

lemma addClampedMonths_fields:
  "day_of (addClampedMonths anchor n) = month_start (month_no anchor + n)
     + (min (Day anchor) (month_len (month_no anchor + n)) - 1)"
  "tod (addClampedMonths anchor n) = tod anchor"
  using tod_range [of anchor] by (auto simp: addClampedMonths_eq Let_def day_of_add tod_add)

lemma addClampedMonths_month: "month_no (addClampedMonths anchor n) = month_no anchor + n"
proof (rule month_no_unique)
  note len = month_len_bounds [of "month_no anchor + n"] and day = Day_range [of anchor]
  show "month_start (month_no anchor + n) \<le> day_of (addClampedMonths anchor n)"
    using len day unfolding addClampedMonths_fields by auto
  show "day_of (addClampedMonths anchor n) < month_start (month_no anchor + n + 1)"
    using len unfolding addClampedMonths_fields month_start_Suc by auto
qed

lemma addClampedMonths_Day:
  "Day (addClampedMonths anchor n) = min (Day anchor) (month_len (month_no anchor + n))"
  unfolding Day_month_start [of "addClampedMonths anchor n"] addClampedMonths_month
  by (simp add: addClampedMonths_fields)

lemma addClampedMonths_0 [simp]: "addClampedMonths anchor 0 = anchor"
proof -
  have "min (Day anchor) (month_len (month_no anchor)) = Day anchor"
    using Day_range [of anchor] by simp
  then show ?thesis
    using time_split [of anchor] by (simp add: addClampedMonths_eq Day_month_start Let_def)
qed

lemma day_less_imp_less:
  assumes "day_of s < day_of t"
  shows "s < t"
proof -
  have "day_of s * ns_per_day + ns_per_day \<le> day_of t * ns_per_day"
    using assms mult_right_mono [of "day_of s + 1" "day_of t" ns_per_day]
    by (simp add: ns_per_day_def algebra_simps)
  then show ?thesis
    using time_split [of s] time_split [of t] tod_range [of s] tod_range [of t] by linarith
qed

lemma month_less_imp_less: "month_no s < month_no t \<Longrightarrow> s < t"
proof (rule day_less_imp_less)
  assume "month_no s < month_no t"
  then have "month_start (month_no s + 1) \<le> month_start (month_no t)"
    by (intro month_start_mono) simp
  then show "day_of s < day_of t"
    using month_no_bounds [of s] month_no_bounds [of t] by linarith
qed

lemma addClampedMonths_strict: "m < n \<Longrightarrow> addClampedMonths anchor m < addClampedMonths anchor n"
  by (rule month_less_imp_less) (simp add: addClampedMonths_month)

lemma addClampedMonths_mono: "m \<le> n \<Longrightarrow> addClampedMonths anchor m \<le> addClampedMonths anchor n"
  using addClampedMonths_strict [of m n anchor] by (cases "m = n") auto

lemma calendarMonthDiff_eq: "calendarMonthDiff t to = month_no to - month_no t"
  by (simp add: calendarMonthDiff_def month_no_def)

section \<open>Periods\<close>

record MonthlyPeriod =
  period_anchor :: time
  period_index :: int
  period_start :: time
  period_end :: time

definition PeriodAt :: "time \<Rightarrow> int \<Rightarrow> MonthlyPeriod" where
  "PeriodAt anchor index =
     \<lparr>period_anchor = anchor, period_index = index,
      period_start = addClampedMonths anchor index, period_end = addClampedMonths anchor (index + 1)\<rparr>"

text \<open>The loop of \<open>PeriodFor\<close>: step back while the instant lies before the start.\<close>

function step_back :: "time \<Rightarrow> time \<Rightarrow> int \<Rightarrow> int" where
  "step_back anchor at index =
     (if at < addClampedMonths anchor index then step_back anchor at (index - 1) else index)"
  by pat_completeness auto
termination
proof (relation "measure (\<lambda>(anchor, at, index). nat (addClampedMonths anchor index - at))")
  fix anchor at index
  assume "at < addClampedMonths anchor index"
  then show "((anchor, at, index - 1), anchor, at, index)
      \<in> measure (\<lambda>(anchor, at, index). nat (addClampedMonths anchor index - at))"
    using addClampedMonths_strict [of "index - 1" index anchor] by simp
qed simp

declare step_back.simps [simp del]

definition PeriodFor :: "time \<Rightarrow> time \<Rightarrow> MonthlyPeriod" where
  "PeriodFor anchor at =
     (let index = step_back anchor at (calendarMonthDiff anchor at)
      in \<lparr>period_anchor = anchor, period_index = index,
          period_start = addClampedMonths anchor index,
          period_end = addClampedMonths anchor (index + 1)\<rparr>)"

definition Contains :: "MonthlyPeriod \<Rightarrow> time \<Rightarrow> bool" where
  "Contains p at \<longleftrightarrow> \<not> at < period_start p \<and> at < period_end p"

definition Next :: "MonthlyPeriod \<Rightarrow> MonthlyPeriod" where
  "Next p = PeriodAt (period_anchor p) (period_index p + 1)"

lemma PeriodFor_PeriodAt: "PeriodFor anchor at = PeriodAt anchor (period_index (PeriodFor anchor at))"
  by (simp add: PeriodFor_def PeriodAt_def Let_def)

text \<open>The month of the instant starts the search; one step back is always enough.\<close>

lemma step_back_once:
  "step_back anchor at (calendarMonthDiff anchor at) =
     (if at < addClampedMonths anchor (calendarMonthDiff anchor at)
      then calendarMonthDiff anchor at - 1 else calendarMonthDiff anchor at)"
proof -
  let ?d = "calendarMonthDiff anchor at"
  have "addClampedMonths anchor (?d - 1) < at"
    by (rule month_less_imp_less) (simp add: addClampedMonths_month calendarMonthDiff_eq)
  then have "step_back anchor at (?d - 1) = ?d - 1"
    by (simp add: step_back.simps [of anchor at "?d - 1"])
  then show ?thesis by (simp add: step_back.simps [of anchor at ?d])
qed

lemma PeriodFor_index:
  "period_index (PeriodFor anchor at) =
     (if at < addClampedMonths anchor (calendarMonthDiff anchor at)
      then calendarMonthDiff anchor at - 1 else calendarMonthDiff anchor at)"
  by (simp add: PeriodFor_def Let_def step_back_once)

lemma PeriodFor_Contains: "Contains (PeriodFor anchor at) at"
proof -
  let ?d = "calendarMonthDiff anchor at"
  have "at < addClampedMonths anchor (?d + 1)" "addClampedMonths anchor (?d - 1) < at"
    by (rule month_less_imp_less; simp add: addClampedMonths_month calendarMonthDiff_eq)+
  then show ?thesis
    unfolding PeriodFor_def step_back_once Contains_def by (simp add: Let_def)
qed

lemma Contains_PeriodAt_unique:
  assumes "Contains (PeriodAt anchor i) at" "Contains (PeriodAt anchor j) at"
  shows "i = j"
proof (rule ccontr)
  assume "i \<noteq> j"
  then consider "i + 1 \<le> j" | "j + 1 \<le> i" by linarith
  then show False
    using assms addClampedMonths_mono [of "i + 1" j anchor] addClampedMonths_mono [of "j + 1" i anchor]
    by cases (auto simp: Contains_def PeriodAt_def)
qed

lemma PeriodFor_unique: "Contains (PeriodAt anchor i) at \<Longrightarrow> PeriodFor anchor at = PeriodAt anchor i"
  using Contains_PeriodAt_unique [of anchor i at "period_index (PeriodFor anchor at)"]
    PeriodFor_Contains [of anchor at] PeriodFor_PeriodAt [of anchor at] by simp

section \<open>Properties\<close>

text \<open>
  Every instant falls in exactly one period of a cycle and \<open>PeriodFor\<close> finds it, stepping
  back at most one month; each period is non-empty and the next one starts where it ends, so
  the cycle neither skips nor doubles a month.
\<close>
theorem PeriodFor_partition:
  "Contains (PeriodFor anchor at) at
 \<and> (\<exists>!i. Contains (PeriodAt anchor i) at)
 \<and> PeriodFor anchor at = PeriodAt anchor (period_index (PeriodFor anchor at))
 \<and> calendarMonthDiff anchor at - period_index (PeriodFor anchor at) \<in> {0, 1}
 \<and> period_start (PeriodAt anchor i) < period_end (PeriodAt anchor i)
 \<and> period_start (Next (PeriodAt anchor i)) = period_end (PeriodAt anchor i)"
proof (intro conjI)
  show "\<exists>!i. Contains (PeriodAt anchor i) at"
    using PeriodFor_Contains [of anchor at] PeriodFor_PeriodAt [of anchor at] Contains_PeriodAt_unique
    by metis
  show "PeriodFor anchor at = PeriodAt anchor (period_index (PeriodFor anchor at))"
    by (rule PeriodFor_PeriodAt)
qed (simp_all add: PeriodFor_Contains PeriodFor_index Next_def PeriodAt_def addClampedMonths_strict)

text \<open>
  Renewal boundaries do not drift: the start of period \<open>i\<close> lies exactly \<open>i\<close> calendar months
  after the anchor, on the anchor's day or on the last day of a shorter month, at the anchor's
  time of day, and period 0 starts at the anchor itself.
\<close>
theorem period_boundaries_clamped:
  "month_no (period_start (PeriodAt anchor i)) = month_no anchor + i
 \<and> Day (period_start (PeriodAt anchor i)) = min (Day anchor) (month_len (month_no anchor + i))
 \<and> tod (period_start (PeriodAt anchor i)) = tod anchor
 \<and> period_start (PeriodAt anchor 0) = anchor"
  by (simp add: PeriodAt_def addClampedMonths_month addClampedMonths_Day addClampedMonths_fields)

end
