(* ===== verification/WalletLedger.thy ===== *)
theory WalletLedger
  imports Postgres WalletPeriod
begin

text \<open>
  The wallet tables and the statements of \<open>internal/platform/postgres/wallet.sql.go\<close>, with the
  constraints of migrations 00008, 00009, 00010 and 00021: the balance projection
  \<open>wallet_accounts\<close>, the append-only registry \<open>wallet_operations\<close> and the append-only lines
  \<open>wallet_transactions\<close>. The invariant \<open>ledger_ok\<close> says that the tables are well formed and that
  every projected balance is the sum of the account's lines; each group of statements an
  operation issues keeps it.
\<close>

section \<open>Tables\<close>

record AppWalletAccount =
  BalanceFree :: int
  BalancePurchased :: int
  wallet_CreatedAt :: time
  wallet_UpdatedAt :: time
  FreeCycleAnchorAt :: time

record AppWalletOperation =
  op_id :: uuid
  op_account :: uuid
  op_type :: string
  op_key :: string
  op_ref :: string
  op_created :: time
  op_reason :: "string option"
  op_actor :: "uuid option"

record AppWalletTransaction =
  tx_id :: uuid
  tx_operation :: uuid
  tx_bucket :: string
  tx_amount :: int
  tx_created :: time

text \<open>
  \<open>app_accounts\<close> holds the keys of \<open>app.accounts\<close> (the target of the foreign keys), \<open>uuid_gen\<close>
  and \<open>uuid_next\<close> the values \<open>uuidv7()\<close> returns, \<open>db_now\<close> the value of \<open>now()\<close>.
\<close>

record wallet_db =
  app_accounts :: "uuid list"
  wallets :: "uuid \<Rightarrow> AppWalletAccount option"
  operations :: "AppWalletOperation list"
  transactions :: "AppWalletTransaction list"
  uuid_gen :: "nat \<Rightarrow> uuid"
  uuid_next :: nat
  db_now :: time

section \<open>Statements on the projection\<close>

definition new_wallet :: "wallet_db \<Rightarrow> AppWalletAccount" where
  "new_wallet db = \<lparr>BalanceFree = 0, BalancePurchased = 0, wallet_CreatedAt = db_now db,
     wallet_UpdatedAt = db_now db, FreeCycleAnchorAt = db_now db\<rparr>"

definition EnsureWalletAccount :: "uuid \<Rightarrow> wallet_db \<Rightarrow> pg_error + wallet_db" where
  "EnsureWalletAccount u db =
     (if wallets db u \<noteq> None then Inr db
      else if u \<notin> set (app_accounts db) then Inl ForeignKeyViolation
      else Inr (db\<lparr>wallets := (wallets db)(u \<mapsto> new_wallet db)\<rparr>))"

definition CreateWalletAccount :: "uuid \<Rightarrow> wallet_db \<Rightarrow> pg_error + AppWalletAccount \<times> wallet_db" where
  "CreateWalletAccount u db =
     (if wallets db u \<noteq> None then Inl UniqueViolation
      else if u \<notin> set (app_accounts db) then Inl ForeignKeyViolation
      else Inr (new_wallet db, db\<lparr>wallets := (wallets db)(u \<mapsto> new_wallet db)\<rparr>))"

definition GetWalletAccount :: "uuid \<Rightarrow> wallet_db \<Rightarrow> pg_error + AppWalletAccount" where
  "GetWalletAccount u db = (case wallets db u of None \<Rightarrow> Inl NoRows | Some w \<Rightarrow> Inr w)"

text \<open>\<open>FOR UPDATE\<close> takes the row lock of the account; transactions are modelled one at a time.\<close>

definition GetWalletAccountForUpdate :: "uuid \<Rightarrow> wallet_db \<Rightarrow> pg_error + AppWalletAccount" where
  "GetWalletAccountForUpdate u db = (case wallets db u of None \<Rightarrow> Inl NoRows | Some w \<Rightarrow> Inr w)"

definition GetWalletFreeCycleAnchor :: "uuid \<Rightarrow> wallet_db \<Rightarrow> pg_error + time" where
  "GetWalletFreeCycleAnchor u db =
     (case wallets db u of None \<Rightarrow> Inl NoRows | Some w \<Rightarrow> Inr (FreeCycleAnchorAt w))"

text \<open>An \<open>UPDATE\<close> of one row: \<open>bigint\<close> range, then the two balance checks.\<close>

definition update_balances ::
  "uuid \<Rightarrow> int \<Rightarrow> int \<Rightarrow> wallet_db \<Rightarrow> pg_error + AppWalletAccount \<times> wallet_db" where
  "update_balances u df dp db =
     (case wallets db u of
        None \<Rightarrow> Inl NoRows
      | Some w \<Rightarrow>
          bind_r (bigint (BalanceFree w + df)) (\<lambda>f.
          bind_r (bigint (BalancePurchased w + dp)) (\<lambda>p.
            if f < 0 \<or> p < 0 then Inl CheckViolation
            else let w' = w\<lparr>BalanceFree := f, BalancePurchased := p, wallet_UpdatedAt := db_now db\<rparr>
                 in Inr (w', db\<lparr>wallets := (wallets db)(u \<mapsto> w')\<rparr>))))"

definition ApplyFreeBalanceDelta :: "uuid \<Rightarrow> int \<Rightarrow> wallet_db \<Rightarrow> pg_error + AppWalletAccount \<times> wallet_db" where
  "ApplyFreeBalanceDelta u d db = update_balances u d 0 db"

definition ApplyWalletDebit :: "uuid \<Rightarrow> int \<Rightarrow> int \<Rightarrow> wallet_db \<Rightarrow> pg_error + AppWalletAccount \<times> wallet_db" where
  "ApplyWalletDebit u f p db = update_balances u (- f) (- p) db"

definition CreditFreeBalance :: "uuid \<Rightarrow> int \<Rightarrow> wallet_db \<Rightarrow> pg_error + AppWalletAccount \<times> wallet_db" where
  "CreditFreeBalance u d db = update_balances u d 0 db"

definition CreditPurchasedBalance :: "uuid \<Rightarrow> int \<Rightarrow> wallet_db \<Rightarrow> pg_error + AppWalletAccount \<times> wallet_db" where
  "CreditPurchasedBalance u d db = update_balances u 0 d db"

section \<open>Statements on the registry and the lines\<close>

record CreateWalletOperationParams =
  arg_AccountID :: uuid
  arg_OperationType :: string
  arg_IdempotencyKey :: string
  arg_Reference :: string
  arg_Reason :: "string option"
  arg_ActorAccountID :: "uuid option"

definition operation_row :: "CreateWalletOperationParams \<Rightarrow> wallet_db \<Rightarrow> AppWalletOperation" where
  "operation_row arg db =
     \<lparr>op_id = uuid_gen db (uuid_next db), op_account = arg_AccountID arg,
      op_type = arg_OperationType arg, op_key = arg_IdempotencyKey arg, op_ref = arg_Reference arg,
      op_created = db_now db, op_reason = arg_Reason arg, op_actor = arg_ActorAccountID arg\<rparr>"

text \<open>The \<open>CHECK\<close> constraints of \<open>wallet_operations\<close>.\<close>

definition operation_checks :: "CreateWalletOperationParams \<Rightarrow> bool" where
  "operation_checks arg \<longleftrightarrow>
     arg_OperationType arg \<in> set AllOperationTypes
   \<and> \<not> sql_blank (arg_IdempotencyKey arg) \<and> \<not> sql_blank (arg_Reference arg)
   \<and> (case arg_Reason arg of None \<Rightarrow> True | Some r \<Rightarrow> \<not> sql_blank r \<and> length (runes r) \<le> 500)
   \<and> (arg_OperationType arg \<in> {''credit_admin'', ''debit_admin''} \<longrightarrow>
        (case arg_Reason arg of None \<Rightarrow> False | Some r \<Rightarrow> \<not> sql_blank r) \<and> arg_ActorAccountID arg \<noteq> None)"

definition operation_texts :: "CreateWalletOperationParams \<Rightarrow> bool" where
  "operation_texts arg \<longleftrightarrow> pg_text (arg_OperationType arg) \<and> pg_text (arg_IdempotencyKey arg) \<and>
     pg_text (arg_Reference arg) \<and> (case arg_Reason arg of None \<Rightarrow> True | Some r \<Rightarrow> pg_text r)"

definition insert_operation :: "CreateWalletOperationParams \<Rightarrow> wallet_db \<Rightarrow> pg_error + AppWalletOperation \<times> wallet_db" where
  "insert_operation arg db =
     (let row = operation_row arg db in
      if op_id row \<in> op_id ` set (operations db) then Inl UniqueViolation
      else if wallets db (op_account row) = None then Inl ForeignKeyViolation
      else if \<not> (case op_actor row of None \<Rightarrow> True | Some a \<Rightarrow> a \<in> set (app_accounts db)) then Inl ForeignKeyViolation
      else Inr (row, db\<lparr>operations := operations db @ [row], uuid_next := Suc (uuid_next db)\<rparr>))"

definition CreateWalletOperation :: "CreateWalletOperationParams \<Rightarrow> wallet_db \<Rightarrow> pg_error + AppWalletOperation \<times> wallet_db" where
  "CreateWalletOperation arg db =
     (if \<not> operation_texts arg then Inl InvalidText
      else if \<not> operation_checks arg then Inl CheckViolation
      else if arg_IdempotencyKey arg \<in> op_key ` set (operations db) then Inl UniqueViolation
      else insert_operation arg db)"

text \<open>\<open>ON CONFLICT (idempotency_key) DO NOTHING\<close>: a used key returns no row.\<close>

definition CreateWalletOperationIfAbsent :: "CreateWalletOperationParams \<Rightarrow> wallet_db \<Rightarrow> pg_error + AppWalletOperation \<times> wallet_db" where
  "CreateWalletOperationIfAbsent arg db =
     (if \<not> operation_texts arg then Inl InvalidText
      else if \<not> operation_checks arg then Inl CheckViolation
      else if arg_IdempotencyKey arg \<in> op_key ` set (operations db) then Inl NoRows
      else insert_operation arg db)"

definition GetWalletOperationByIdempotencyKey :: "string \<Rightarrow> wallet_db \<Rightarrow> pg_error + AppWalletOperation" where
  "GetWalletOperationByIdempotencyKey k db =
     (case find (\<lambda>q. op_key q = k) (operations db) of None \<Rightarrow> Inl NoRows | Some row \<Rightarrow> Inr row)"

definition CreateWalletTransaction ::
  "uuid \<Rightarrow> string \<Rightarrow> int \<Rightarrow> wallet_db \<Rightarrow> pg_error + AppWalletTransaction \<times> wallet_db" where
  "CreateWalletTransaction operation bucket a db =
     (let row = \<lparr>tx_id = uuid_gen db (uuid_next db), tx_operation = operation, tx_bucket = bucket,
                 tx_amount = a, tx_created = db_now db\<rparr> in
      if bucket \<notin> {''FREE_INK'', ''PURCHASED_INK''} \<or> a = 0 then Inl CheckViolation
      else if tx_id row \<in> tx_id ` set (transactions db) then Inl UniqueViolation
      else if (operation, bucket) \<in> (\<lambda>t. (tx_operation t, tx_bucket t)) ` set (transactions db) then Inl UniqueViolation
      else if operation \<notin> op_id ` set (operations db) then Inl ForeignKeyViolation
      else Inr (row, db\<lparr>transactions := transactions db @ [row], uuid_next := Suc (uuid_next db)\<rparr>))"

definition ListWalletTransactionsByOperationID :: "uuid \<Rightarrow> wallet_db \<Rightarrow> AppWalletTransaction list" where
  "ListWalletTransactionsByOperationID operation db =
     sort_key tx_bucket (filter (\<lambda>t. tx_operation t = operation) (transactions db))"

section \<open>Queries over the join of lines and operations\<close>

definition joined :: "wallet_db \<Rightarrow> (AppWalletTransaction \<times> AppWalletOperation) list" where
  "joined db = concat (map (\<lambda>t. map (Pair t) (filter (\<lambda>q. op_id q = tx_operation t) (operations db)))
                           (transactions db))"

definition account_lines :: "uuid \<Rightarrow> wallet_db \<Rightarrow> (AppWalletTransaction \<times> AppWalletOperation) list" where
  "account_lines u db = filter (\<lambda>(t, q). op_account q = u) (joined db)"

definition bucket_sum :: "string \<Rightarrow> (AppWalletTransaction \<times> AppWalletOperation) list \<Rightarrow> int" where
  "bucket_sum b rows = (\<Sum>(t, q)\<leftarrow>filter (\<lambda>(t, q). tx_bucket t = b) rows. tx_amount t)"

definition GetDerivedWalletBalance :: "uuid \<Rightarrow> wallet_db \<Rightarrow> pg_error + int \<times> int" where
  "GetDerivedWalletBalance u db =
     bind_r (bigint (bucket_sum ''FREE_INK'' (account_lines u db))) (\<lambda>f.
     bind_r (bigint (bucket_sum ''PURCHASED_INK'' (account_lines u db))) (\<lambda>p. Inr (f, p)))"

record StatementRow =
  row_ID :: uuid
  row_OperationID :: uuid
  row_Bucket :: string
  row_Amount :: int
  row_CreatedAt :: time
  row_OperationType :: string
  row_Reference :: string

definition statement_row :: "AppWalletTransaction \<times> AppWalletOperation \<Rightarrow> StatementRow" where
  "statement_row r =
     (case r of (t, q) \<Rightarrow>
        \<lparr>row_ID = tx_id t, row_OperationID = tx_operation t, row_Bucket = tx_bucket t,
         row_Amount = tx_amount t, row_CreatedAt = tx_created t, row_OperationType = op_type q,
         row_Reference = op_ref q\<rparr>)"

definition row_key :: "StatementRow \<Rightarrow> keyset" where
  "row_key r = Keyset (row_CreatedAt r) (row_ID r)"

definition ListWalletStatementPage ::
  "uuid \<Rightarrow> keyset option \<Rightarrow> int \<Rightarrow> wallet_db \<Rightarrow> pg_error + StatementRow list" where
  "ListWalletStatementPage u after pageLimit db =
     (if pageLimit < 0 then Inl InvalidLimit
      else Inr (keyset_query row_key (map statement_row (account_lines u db)) after (nat pageLimit)))"

definition ListWalletTransactionsByAccount :: "uuid \<Rightarrow> wallet_db \<Rightarrow> StatementRow list" where
  "ListWalletTransactionsByAccount u db =
     rev (sort_key row_key (map statement_row (account_lines u db)))"

section \<open>The ledger invariant\<close>

definition tables_ok :: "wallet_db \<Rightarrow> bool" where
  "tables_ok db \<longleftrightarrow>
     distinct (map op_id (operations db)) \<and> distinct (map op_key (operations db))
   \<and> (\<forall>q \<in> set (operations db). wallets db (op_account q) \<noteq> None \<and> op_type q \<in> set AllOperationTypes)
   \<and> distinct (map tx_id (transactions db))
   \<and> distinct (map (\<lambda>t. (tx_operation t, tx_bucket t)) (transactions db))
   \<and> (\<forall>t \<in> set (transactions db). tx_operation t \<in> op_id ` set (operations db)
        \<and> tx_bucket t \<in> {''FREE_INK'', ''PURCHASED_INK''} \<and> tx_amount t \<noteq> 0)
   \<and> (\<forall>u w. wallets db u = Some w \<longrightarrow> u \<in> set (app_accounts db)
        \<and> 0 \<le> BalanceFree w \<and> BalanceFree w \<le> MaxInt64
        \<and> 0 \<le> BalancePurchased w \<and> BalancePurchased w \<le> MaxInt64)"

text \<open>
  The lines of account \<open>u\<close> run ahead of its projection by \<open>df\<close> and \<open>dp\<close>; every other
  projection equals the sum of its lines. Between operations the lag is zero.
\<close>

definition balances_lag :: "uuid \<Rightarrow> int \<Rightarrow> int \<Rightarrow> wallet_db \<Rightarrow> bool" where
  "balances_lag u df dp db \<longleftrightarrow>
     (\<forall>v w. wallets db v = Some w \<longrightarrow>
        BalanceFree w + (if v = u then df else 0) = bucket_sum ''FREE_INK'' (account_lines v db)
      \<and> BalancePurchased w + (if v = u then dp else 0) = bucket_sum ''PURCHASED_INK'' (account_lines v db))"

definition ledger_ok :: "wallet_db \<Rightarrow> bool" where
  "ledger_ok db \<longleftrightarrow> tables_ok db \<and> balances_lag 0 0 0 db"

lemma balances_lag_0: "balances_lag u 0 0 db = balances_lag v 0 0 db"
  by (simp add: balances_lag_def)

lemma ledger_okD:
  assumes "ledger_ok db"
  shows "tables_ok db" "balances_lag u 0 0 db"
  using assms balances_lag_0 by (auto simp: ledger_ok_def)

lemma ledger_okI: "tables_ok db \<Longrightarrow> balances_lag u 0 0 db \<Longrightarrow> ledger_ok db"
  using balances_lag_0 by (auto simp: ledger_ok_def)

lemma ledger_ok_balance:
  assumes "ledger_ok db" "wallets db u = Some w"
  shows "BalanceFree w = bucket_sum ''FREE_INK'' (account_lines u db)"
    and "BalancePurchased w = bucket_sum ''PURCHASED_INK'' (account_lines u db)"
  using ledger_okD(2) [OF assms(1), of u] assms(2) by (auto simp: balances_lag_def)

lemma tables_ok_balance_range:
  assumes "tables_ok db" "wallets db u = Some w"
  shows "0 \<le> BalanceFree w" "BalanceFree w \<le> MaxInt64" "0 \<le> BalancePurchased w" "BalancePurchased w \<le> MaxInt64"
  using assms by (auto simp: tables_ok_def)

lemma bucket_sum_append: "bucket_sum b (xs @ ys) = bucket_sum b xs + bucket_sum b ys"
  by (simp add: bucket_sum_def)

lemma bucket_sum_Nil [simp]: "bucket_sum b [] = 0"
  by (simp add: bucket_sum_def)

lemma bucket_sum_single: "bucket_sum b [(t, q)] = (if tx_bucket t = b then tx_amount t else 0)"
  by (simp add: bucket_sum_def)

section \<open>Statements and the invariant\<close>

lemma joined_cong:
  "operations db' = operations db \<Longrightarrow> transactions db' = transactions db \<Longrightarrow> joined db' = joined db"
  by (simp add: joined_def)

lemma joined_insert_operation:
  assumes "op_id row \<notin> op_id ` set (operations db)"
    and "\<forall>t \<in> set (transactions db). tx_operation t \<in> op_id ` set (operations db)"
  shows "joined (db\<lparr>operations := operations db @ [row], uuid_next := n\<rparr>) = joined db"
proof -
  from assms have "\<forall>t \<in> set (transactions db). op_id row \<noteq> tx_operation t" by auto
  then show ?thesis by (auto simp: joined_def intro!: arg_cong [where f = concat] map_cong)
qed

lemma joined_append_transaction:
  assumes "distinct (map op_id (operations db))" "q \<in> set (operations db)" "tx_operation t = op_id q"
  shows "joined (db\<lparr>transactions := transactions db @ [t], uuid_next := n\<rparr>) = joined db @ [(t, q)]"
  using assms by (simp add: joined_def filter_unique_key)

lemma account_lines_insert_operation:
  assumes "tables_ok db" "op_id row \<notin> op_id ` set (operations db)"
  shows "account_lines v (db\<lparr>operations := operations db @ [row], uuid_next := n\<rparr>) = account_lines v db"
  unfolding account_lines_def using assms joined_insert_operation by (simp add: tables_ok_def)

lemma no_lines_without_wallet:
  assumes "tables_ok db" "wallets db u = None"
  shows "account_lines u db = []"
  using assms unfolding account_lines_def joined_def tables_ok_def
  by (auto simp: filter_empty_conv)

lemma insert_operation_Inr:
  assumes "insert_operation arg db = Inr (row, db')"
  shows "row = operation_row arg db \<and> op_id row \<notin> op_id ` set (operations db)
    \<and> wallets db (arg_AccountID arg) \<noteq> None
    \<and> db' = db\<lparr>operations := operations db @ [row], uuid_next := Suc (uuid_next db)\<rparr>"
  using assms by (auto simp: insert_operation_def Let_def operation_row_def split: if_splits)

lemma create_operation_Inr:
  assumes "CreateWalletOperationIfAbsent arg db = Inr (row, db')"
  shows "insert_operation arg db = Inr (row, db') \<and> arg_IdempotencyKey arg \<notin> op_key ` set (operations db)
    \<and> operation_checks arg \<and> operation_texts arg"
  using assms by (simp add: CreateWalletOperationIfAbsent_def split: if_splits)

lemma create_operation_NoRows:
  "CreateWalletOperationIfAbsent arg db = Inl NoRows \<longleftrightarrow>
     operation_texts arg \<and> operation_checks arg \<and> arg_IdempotencyKey arg \<in> op_key ` set (operations db)"
  by (simp add: CreateWalletOperationIfAbsent_def insert_operation_def Let_def)

text \<open>Registering an operation changes no line and no balance.\<close>

lemma create_operation_ok:
  assumes "CreateWalletOperationIfAbsent arg db = Inr (row, db')" "tables_ok db"
  shows "tables_ok db' \<and> (balances_lag u df dp db' = balances_lag u df dp db)
    \<and> row = operation_row arg db \<and> row \<in> set (operations db') \<and> wallets db' = wallets db
    \<and> (\<forall>t \<in> set (transactions db'). tx_operation t \<noteq> op_id row)
    \<and> app_accounts db' = app_accounts db \<and> transactions db' = transactions db \<and> db_now db' = db_now db
    \<and> operations db' = operations db @ [row] \<and> (\<forall>v. account_lines v db' = account_lines v db)"
proof -
  note c = create_operation_Inr [OF assms(1)]
  note i = insert_operation_Inr [OF conjunct1 [OF c]]
  have key: "op_key row \<notin> op_key ` set (operations db)" and ty: "op_type row \<in> set AllOperationTypes"
    using c i by (auto simp: operation_row_def operation_checks_def)
  have lines: "account_lines v db' = account_lines v db" for v
    using i account_lines_insert_operation [OF assms(2), of row v "Suc (uuid_next db)"] by metis
  have w: "wallets db (op_account row) \<noteq> None" using i by (simp add: operation_row_def)
  have "tables_ok db'"
    using assms(2) i key ty w unfolding tables_ok_def by (auto simp: image_iff)
  moreover have "\<forall>t \<in> set (transactions db'). tx_operation t \<noteq> op_id row"
  proof
    fix t
    assume "t \<in> set (transactions db')"
    with i assms(2) have "tx_operation t \<in> op_id ` set (operations db)" by (simp add: tables_ok_def)
    with i show "tx_operation t \<noteq> op_id row" by metis
  qed
  moreover have "balances_lag u df dp db' = balances_lag u df dp db"
    using i lines by (simp add: balances_lag_def)
  ultimately show ?thesis using i lines by simp
qed

text \<open>A line moves the lag of its account's bucket by its amount.\<close>

lemma create_transaction_Inr:
  assumes "CreateWalletTransaction operation bucket a db = Inr (row, db')"
  shows "tx_operation row = operation \<and> tx_bucket row = bucket \<and> tx_amount row = a \<and> tx_created row = db_now db
    \<and> bucket \<in> {''FREE_INK'', ''PURCHASED_INK''} \<and> a \<noteq> 0
    \<and> tx_id row \<notin> tx_id ` set (transactions db) \<and> operation \<in> op_id ` set (operations db)
    \<and> (operation, bucket) \<notin> (\<lambda>t. (tx_operation t, tx_bucket t)) ` set (transactions db)
    \<and> db' = db\<lparr>transactions := transactions db @ [row], uuid_next := Suc (uuid_next db)\<rparr>"
  using assms by (auto simp: CreateWalletTransaction_def Let_def split: if_splits)

lemma create_transaction_ok:
  assumes "CreateWalletTransaction (op_id q) bucket a db = Inr (row, db')" "tables_ok db"
    and "q \<in> set (operations db)" "op_account q = u" "balances_lag u df dp db"
  shows "tables_ok db'
    \<and> balances_lag u (df + (if bucket = ''FREE_INK'' then a else 0))
                     (dp + (if bucket = ''PURCHASED_INK'' then a else 0)) db'
    \<and> wallets db' = wallets db \<and> operations db' = operations db \<and> db_now db' = db_now db
    \<and> transactions db' = transactions db @ [row]
    \<and> account_lines u db' = account_lines u db @ [(row, q)]
    \<and> (\<forall>v. v \<noteq> u \<longrightarrow> account_lines v db' = account_lines v db)"
proof -
  note c = create_transaction_Inr [OF assms(1)]
  have lines: "account_lines v db' = account_lines v db @ (if v = u then [(row, q)] else [])" for v
    using c assms joined_append_transaction [of db q row "Suc (uuid_next db)"]
    unfolding account_lines_def tables_ok_def by auto
  have "tables_ok db'"
    using assms(2) c unfolding tables_ok_def by (auto simp: image_iff)
  moreover have "balances_lag u (df + (if bucket = ''FREE_INK'' then a else 0))
      (dp + (if bucket = ''PURCHASED_INK'' then a else 0)) db'"
  proof -
    have "wallets db' = wallets db" "tx_bucket row = bucket" "tx_amount row = a" using c by simp_all
    note r = this
    show ?thesis
      unfolding balances_lag_def lines r(1)
    proof (intro allI impI)
      fix v w
      assume "wallets db v = Some w"
      with assms(5) have "BalanceFree w + (if v = u then df else 0) = bucket_sum ''FREE_INK'' (account_lines v db)"
        "BalancePurchased w + (if v = u then dp else 0) = bucket_sum ''PURCHASED_INK'' (account_lines v db)"
        by (simp_all add: balances_lag_def)
      then show "BalanceFree w + (if v = u then df + (if bucket = ''FREE_INK'' then a else 0) else 0) =
          bucket_sum ''FREE_INK'' (account_lines v db @ (if v = u then [(row, q)] else []))
        \<and> BalancePurchased w + (if v = u then dp + (if bucket = ''PURCHASED_INK'' then a else 0) else 0) =
          bucket_sum ''PURCHASED_INK'' (account_lines v db @ (if v = u then [(row, q)] else []))"
        using r by (cases "v = u") (simp_all add: bucket_sum_append bucket_sum_single)
    qed
  qed
  ultimately show ?thesis using c lines by simp
qed

text \<open>An update of the projection catches up by what it adds.\<close>

lemma update_balances_Inr:
  assumes "update_balances u df dp db = Inr (w', db')"
  shows "\<exists>w. wallets db u = Some w \<and> in_int64 (BalanceFree w + df) \<and> in_int64 (BalancePurchased w + dp)
    \<and> 0 \<le> BalanceFree w + df \<and> 0 \<le> BalancePurchased w + dp
    \<and> w' = w\<lparr>BalanceFree := BalanceFree w + df, BalancePurchased := BalancePurchased w + dp, wallet_UpdatedAt := db_now db\<rparr>
    \<and> db' = db\<lparr>wallets := (wallets db)(u \<mapsto> w')\<rparr>"
  using assms unfolding update_balances_def
  by (auto simp: result_iffs Let_def split: option.splits if_splits)

lemma update_balances_ok:
  assumes "update_balances u df dp db = Inr (w', db')" "tables_ok db" "balances_lag u df' dp' db"
  shows "tables_ok db' \<and> balances_lag u (df' - df) (dp' - dp) db'
    \<and> wallets db' u = Some w' \<and> (\<forall>v. v \<noteq> u \<longrightarrow> wallets db' v = wallets db v)
    \<and> operations db' = operations db \<and> transactions db' = transactions db
    \<and> (\<forall>v. account_lines v db' = account_lines v db)
    \<and> map_option FreeCycleAnchorAt (wallets db u) = Some (FreeCycleAnchorAt w')"
proof -
  obtain w where w: "wallets db u = Some w" "in_int64 (BalanceFree w + df)" "in_int64 (BalancePurchased w + dp)"
    "0 \<le> BalanceFree w + df" "0 \<le> BalancePurchased w + dp"
    "w' = w\<lparr>BalanceFree := BalanceFree w + df, BalancePurchased := BalancePurchased w + dp, wallet_UpdatedAt := db_now db\<rparr>"
    "db' = db\<lparr>wallets := (wallets db)(u \<mapsto> w')\<rparr>"
    using update_balances_Inr [OF assms(1)] by blast
  have lines: "account_lines v db' = account_lines v db" for v
    using w by (simp add: account_lines_def joined_def)
  have "tables_ok db'"
    using assms(2) w unfolding tables_ok_def by (auto simp: in_int64_def)
  moreover have "balances_lag u (df' - df) (dp' - dp) db'"
    using assms(3) w lines unfolding balances_lag_def by (auto split: if_splits)
  ultimately show ?thesis using w lines by simp
qed

lemma EnsureWalletAccount_ok:
  assumes "EnsureWalletAccount u db = Inr db'" "ledger_ok db"
  shows "ledger_ok db' \<and> wallets db' u \<noteq> None \<and> operations db' = operations db
    \<and> transactions db' = transactions db \<and> db_now db' = db_now db
    \<and> (\<forall>v. account_lines v db' = account_lines v db)
    \<and> (\<forall>v. v \<noteq> u \<or> wallets db u \<noteq> None \<longrightarrow> wallets db' v = wallets db v)"
proof (cases "wallets db u")
  case (Some w)
  with assms show ?thesis by (simp add: EnsureWalletAccount_def)
next
  case None
  with assms have db': "db' = db\<lparr>wallets := (wallets db)(u \<mapsto> new_wallet db)\<rparr>" "u \<in> set (app_accounts db)"
    by (auto simp: EnsureWalletAccount_def split: if_splits)
  have lines: "account_lines v db' = account_lines v db" for v
    using db' by (simp add: account_lines_def joined_def)
  have empty: "account_lines u db = []"
    using no_lines_without_wallet ledger_okD(1) [OF assms(2)] None by blast
  have "tables_ok db'"
    using ledger_okD(1) [OF assms(2)] db' unfolding tables_ok_def
    by (auto simp: new_wallet_def MaxInt64_def)
  moreover have "balances_lag u 0 0 db'"
    using ledger_okD(2) [OF assms(2), of u] db' lines empty None unfolding balances_lag_def
    by (auto simp: new_wallet_def)
  ultimately show ?thesis using db' lines None ledger_okI by simp
qed

end
