(* ===== verification/WalletRepository.thy ===== *)
theory WalletRepository
  imports WalletLedger
begin

text \<open>
  \<open>internal/wallet/adapters/postgres/repository.go\<close>: the wallet ports over the statements of
  \<open>WalletLedger\<close>. A repository operation takes the database and returns its outcome with the
  database it leaves: the committed state, or the state before \<open>Begin\<close> when the transaction is
  rolled back. \<open>scan\<close> stands for \<open>pgtype.UUID.Scan\<close> of the third-party driver: the UUID a text
  is read as, if any.
\<close>

section \<open>Requests, results and errors\<close>

text \<open>
  \<open>application/errors.go\<close>, \<open>ports.go\<close>, \<open>queries.go\<close> and \<open>free_cycle.go\<close>. An error wrapped by
  \<open>fmt.Errorf\<close> with \<open>%w\<close> stays the error it wraps.
\<close>

datatype wallet_app_error =
    ErrIdempotencyMismatch | ErrInvalidCursor | ErrWalletNotFound | ErrNotAuthorized
  | ErrWeakStatementCursorSecret | Domain wallet_error | Pg pg_error | InvalidAccountIDFormat
  | ConflictWithoutOperation | StoredBucketInvalid | AuditFailed

record CreditRequest =
  credit_AccountID :: AccountID
  credit_Bucket :: Bucket
  credit_OperationType :: OperationType
  credit_IdempotencyKey :: IdempotencyKey
  credit_Reference :: Reference
  credit_Reason :: Reason
  credit_ActorAccountID :: AccountID
  credit_Delta :: int
  credit_ChangedAt :: time

record CreditResult =
  creditResult_Operation :: Operation
  creditResult_Replayed :: bool

record DebitRequest =
  debit_AccountID :: AccountID
  debit_OperationType :: OperationType
  debit_IdempotencyKey :: IdempotencyKey
  debit_Reference :: Reference
  debit_Reason :: Reason
  debit_ActorAccountID :: AccountID
  debit_Amount :: Ink
  debit_ChangedAt :: time

record DebitResult =
  debitResult_Operation :: Operation
  debitResult_Allocation :: Allocation
  debitResult_Replayed :: bool

record WalletBalance =
  Free :: Ink
  Purchased :: Ink

record StatementEntry =
  entry_TransactionID :: string
  entry_OperationID :: string
  entry_OperationType :: OperationType
  entry_Reference :: Reference
  entry_Bucket :: Bucket
  entry_Amount :: int
  entry_CreatedAt :: time

record StatementPosition =
  position_CreatedAt :: time
  position_TransactionID :: string

record FreeCycleRenewalRequest =
  renewal_AccountID :: AccountID
  renewal_PeriodStart :: time
  renewal_ExpireKey :: IdempotencyKey
  renewal_GrantKey :: IdempotencyKey
  renewal_Reference :: Reference
  renewal_Franchise :: Ink
  renewal_ChangedAt :: time

record PeriodRenewal =
  renewed_PeriodStart :: time
  renewed_Expired :: Ink
  renewed_Granted :: Ink
  renewed_Replayed :: bool

section \<open>Row mapping\<close>

definition pgUUIDFromAccountID :: "(string \<Rightarrow> uuid option) \<Rightarrow> AccountID \<Rightarrow> wallet_app_error + uuid" where
  "pgUUIDFromAccountID scan i = (case scan i of None \<Rightarrow> Inl InvalidAccountIDFormat | Some u \<Rightarrow> Inr u)"

definition operationReason :: "Reason \<Rightarrow> string option" where
  "operationReason reason = (if Reason_IsZero reason then None else Some (reason_String reason))"

definition operationActor :: "(string \<Rightarrow> uuid option) \<Rightarrow> AccountID \<Rightarrow> uuid option" where
  "operationActor scan actor =
     (if AccountID_IsZero actor then None
      else case pgUUIDFromAccountID scan actor of Inl _ \<Rightarrow> None | Inr u \<Rightarrow> Some u)"

definition mapOperationRow :: "AppWalletOperation \<Rightarrow> wallet_app_error + Operation" where
  "mapOperationRow row =
     bind_r (wrap_err Domain (ParseOperationType (op_type row))) (\<lambda>operationType.
     bind_r (wrap_err Domain (ParseIdempotencyKey (op_key row))) (\<lambda>idempotencyKey.
     bind_r (wrap_err Domain (ParseReference (op_ref row))) (\<lambda>ref.
     bind_r (case op_reason row of None \<Rightarrow> Inr zero_Reason | Some r \<Rightarrow> wrap_err Domain (ParseReason r)) (\<lambda>reason.
       wrap_err Domain (ReconstituteOperation
         (uuidToString (Some (op_id row))) (uuidToString (Some (op_account row)))
         operationType idempotencyKey ref reason (uuidToString (op_actor row)) (op_created row))))))"

section \<open>Credits\<close>

definition replayCredit :: "CreditRequest \<Rightarrow> wallet_db \<Rightarrow> wallet_app_error + CreditResult" where
  "replayCredit request db =
     (case GetWalletOperationByIdempotencyKey (key_String (credit_IdempotencyKey request)) db of
        Inl NoRows \<Rightarrow> Inl ConflictWithoutOperation
      | Inl e \<Rightarrow> Inl (Pg e)
      | Inr existing \<Rightarrow>
          if uuidToString (Some (op_account existing)) \<noteq> credit_AccountID request then Inl ErrIdempotencyMismatch
          else bind_r (mapOperationRow existing) (\<lambda>operation.
            Inr \<lparr>creditResult_Operation = operation, creditResult_Replayed = True\<rparr>))"

definition creditBalance :: "uuid \<Rightarrow> CreditRequest \<Rightarrow> wallet_db \<Rightarrow> wallet_app_error + wallet_db" where
  "creditBalance account request db =
     (if credit_Bucket request = BucketFree
        then bind_r (wrap_err Pg (CreditFreeBalance account (credit_Delta request) db)) (\<lambda>(_, db'). Inr db')
      else if credit_Bucket request = BucketPurchased
        then bind_r (wrap_err Pg (CreditPurchasedBalance account (credit_Delta request) db)) (\<lambda>(_, db'). Inr db')
      else Inl (Domain ErrInvalidBucket))"

definition credit_params :: "(string \<Rightarrow> uuid option) \<Rightarrow> uuid \<Rightarrow> CreditRequest \<Rightarrow> CreateWalletOperationParams" where
  "credit_params scan u request =
     \<lparr>arg_AccountID = u, arg_OperationType = credit_OperationType request,
      arg_IdempotencyKey = key_String (credit_IdempotencyKey request),
      arg_Reference = reference_String (credit_Reference request),
      arg_Reason = operationReason (credit_Reason request),
      arg_ActorAccountID = operationActor scan (credit_ActorAccountID request)\<rparr>"

definition ApplyCredit ::
  "(string \<Rightarrow> uuid option) \<Rightarrow> CreditRequest \<Rightarrow> wallet_db \<Rightarrow> (wallet_app_error + CreditResult) \<times> wallet_db" where
  "ApplyCredit scan request db =
     (case pgUUIDFromAccountID scan (credit_AccountID request) of
        Inl e \<Rightarrow> (Inl e, db)
      | Inr u \<Rightarrow> (case EnsureWalletAccount u db of
          Inl e \<Rightarrow> (Inl (Pg e), db)
        | Inr db1 \<Rightarrow> (case CreateWalletOperationIfAbsent (credit_params scan u request) db1 of
            Inl NoRows \<Rightarrow> (replayCredit request db1, db)
          | Inl e \<Rightarrow> (Inl (Pg e), db)
          | Inr (row, db2) \<Rightarrow>
              (case CreateWalletTransaction (op_id row) (credit_Bucket request) (credit_Delta request) db2 of
                 Inl e \<Rightarrow> (Inl (Pg e), db)
               | Inr (_, db3) \<Rightarrow> (case creditBalance u request db3 of
                   Inl e \<Rightarrow> (Inl e, db)
                 | Inr db4 \<Rightarrow>
                     (bind_r (mapOperationRow row) (\<lambda>operation.
                        Inr \<lparr>creditResult_Operation = operation, creditResult_Replayed = False\<rparr>), db4))))))"

section \<open>Debits\<close>

fun sum_stored_lines :: "AppWalletTransaction list \<Rightarrow> Ink \<Rightarrow> Ink \<Rightarrow> wallet_app_error + Allocation" where
  "sum_stored_lines [] f p = Inr (NewAllocation f p)"
| "sum_stored_lines (row # rows) f p =
     (let magnitude = (if tx_amount row < 0 then wrap64 (- tx_amount row) else tx_amount row) in
      bind_r (wrap_err Domain (NewInk magnitude)) (\<lambda>a.
        if tx_bucket row = BucketFree
          then bind_r (wrap_err Domain (Ink_Add f a)) (\<lambda>f'. sum_stored_lines rows f' p)
        else if tx_bucket row = BucketPurchased
          then bind_r (wrap_err Domain (Ink_Add p a)) (\<lambda>p'. sum_stored_lines rows f p')
        else Inl StoredBucketInvalid))"

definition reconstructAllocation :: "uuid \<Rightarrow> wallet_db \<Rightarrow> wallet_app_error + Allocation" where
  "reconstructAllocation operation db =
     sum_stored_lines (ListWalletTransactionsByOperationID operation db) zero_Ink zero_Ink"

text \<open>\<open>Some\<close> is the code's \<open>found\<close> result.\<close>

definition replayDebit :: "DebitRequest \<Rightarrow> wallet_db \<Rightarrow> wallet_app_error + DebitResult option" where
  "replayDebit request db =
     (case GetWalletOperationByIdempotencyKey (key_String (debit_IdempotencyKey request)) db of
        Inl NoRows \<Rightarrow> Inr None
      | Inl e \<Rightarrow> Inl (Pg e)
      | Inr existing \<Rightarrow>
          if uuidToString (Some (op_account existing)) \<noteq> debit_AccountID request then Inl ErrIdempotencyMismatch
          else bind_r (mapOperationRow existing) (\<lambda>operation.
               bind_r (reconstructAllocation (op_id existing) db) (\<lambda>allocation.
                 Inr (Some \<lparr>debitResult_Operation = operation, debitResult_Allocation = allocation,
                            debitResult_Replayed = True\<rparr>))))"

definition debit_params :: "(string \<Rightarrow> uuid option) \<Rightarrow> uuid \<Rightarrow> DebitRequest \<Rightarrow> CreateWalletOperationParams" where
  "debit_params scan u request =
     \<lparr>arg_AccountID = u, arg_OperationType = debit_OperationType request,
      arg_IdempotencyKey = key_String (debit_IdempotencyKey request),
      arg_Reference = reference_String (debit_Reference request),
      arg_Reason = operationReason (debit_Reason request),
      arg_ActorAccountID = operationActor scan (debit_ActorAccountID request)\<rparr>"

fun record_lines :: "uuid \<Rightarrow> AllocationLine list \<Rightarrow> wallet_db \<Rightarrow> wallet_app_error + wallet_db" where
  "record_lines operation [] db = Inr db"
| "record_lines operation (line # rest) db =
     bind_r (wrap_err Domain (Direction_Apply DirectionDebit (line_Amount line))) (\<lambda>delta.
     bind_r (wrap_err Pg (CreateWalletTransaction operation (line_Bucket line) delta db)) (\<lambda>(_, db').
       record_lines operation rest db'))"

text \<open>The debit under the wallet lock, once the key is known to be unused: plan, register, write.\<close>

definition debit_locked ::
  "(string \<Rightarrow> uuid option) \<Rightarrow> DebitRequest \<Rightarrow> uuid \<Rightarrow> AppWalletAccount \<Rightarrow> wallet_db \<Rightarrow> wallet_app_error + DebitResult \<times> wallet_db" where
  "debit_locked scan request u account db =
     bind_r (wrap_err Domain (NewInk (BalanceFree account))) (\<lambda>availableFree.
     bind_r (wrap_err Domain (NewInk (BalancePurchased account))) (\<lambda>availablePurchased.
     bind_r (wrap_err Domain (AllocateDebit (debit_Amount request) availableFree availablePurchased)) (\<lambda>allocation.
     case CreateWalletOperationIfAbsent (debit_params scan u request) db of
        Inl NoRows \<Rightarrow>
          bind_r (replayDebit request db) (\<lambda>found.
            case found of Some result \<Rightarrow> Inr (result, db) | None \<Rightarrow> Inl ConflictWithoutOperation)
      | Inl e \<Rightarrow> Inl (Pg e)
      | Inr (row, db1) \<Rightarrow>
     bind_r (record_lines (op_id row) (Allocation_Lines allocation) db1) (\<lambda>db2.
     bind_r (wrap_err Pg (ApplyWalletDebit u (amount (fromFree allocation)) (amount (fromPurchased allocation)) db2)) (\<lambda>(_, db3).
     bind_r (mapOperationRow row) (\<lambda>operation.
       Inr (\<lparr>debitResult_Operation = operation, debitResult_Allocation = allocation,
             debitResult_Replayed = False\<rparr>, db3)))))))"

text \<open>
  The body of a debit inside its transaction. The first look-up runs before the wallet row is
  locked and may see an earlier committed state, \<open>seen\<close>; everything after the lock sees \<open>db\<close>.
\<close>

definition applyDebit ::
  "(string \<Rightarrow> uuid option) \<Rightarrow> DebitRequest \<Rightarrow> wallet_db \<Rightarrow> wallet_db \<Rightarrow> wallet_app_error + DebitResult \<times> wallet_db" where
  "applyDebit scan request seen db =
     bind_r (pgUUIDFromAccountID scan (debit_AccountID request)) (\<lambda>u.
     bind_r (replayDebit request seen) (\<lambda>early.
     case early of Some result \<Rightarrow> Inr (result, db) | None \<Rightarrow>
     (case GetWalletAccountForUpdate u db of
        Inl NoRows \<Rightarrow> Inl (Domain ErrInsufficientInk)
      | Inl e \<Rightarrow> Inl (Pg e)
      | Inr account \<Rightarrow>
     bind_r (replayDebit request db) (\<lambda>again.
     case again of Some result \<Rightarrow> Inr (result, db) | None \<Rightarrow> debit_locked scan request u account db))))"

text \<open>Without a shared transaction the adapter owns one: commit on success, roll back on error.\<close>

definition ApplyDebit ::
  "(string \<Rightarrow> uuid option) \<Rightarrow> DebitRequest \<Rightarrow> wallet_db \<Rightarrow> wallet_db \<Rightarrow> (wallet_app_error + DebitResult) \<times> wallet_db" where
  "ApplyDebit scan request seen db =
     (case applyDebit scan request seen db of
        Inl e \<Rightarrow> (Inl e, db)
      | Inr (result, db') \<Rightarrow> (Inr result, db'))"

section \<open>Queries\<close>

definition DerivedBalance :: "(string \<Rightarrow> uuid option) \<Rightarrow> AccountID \<Rightarrow> wallet_db \<Rightarrow> wallet_app_error + WalletBalance" where
  "DerivedBalance scan accountID db =
     bind_r (pgUUIDFromAccountID scan accountID) (\<lambda>u.
     bind_r (wrap_err Pg (GetDerivedWalletBalance u db)) (\<lambda>(rowFree, rowPurchased).
     bind_r (wrap_err Domain (NewInk rowFree)) (\<lambda>f.
     bind_r (wrap_err Domain (NewInk rowPurchased)) (\<lambda>p. Inr \<lparr>Free = f, Purchased = p\<rparr>))))"

definition statement_entry :: "StatementRow \<Rightarrow> wallet_app_error + StatementEntry" where
  "statement_entry row =
     bind_r (wrap_err Domain (ParseOperationType (row_OperationType row))) (\<lambda>operationType.
     bind_r (wrap_err Domain (ParseReference (row_Reference row))) (\<lambda>ref.
     bind_r (wrap_err Domain (ParseBucket (row_Bucket row))) (\<lambda>bucket.
       Inr \<lparr>entry_TransactionID = uuidToString (Some (row_ID row)),
            entry_OperationID = uuidToString (Some (row_OperationID row)),
            entry_OperationType = operationType, entry_Reference = ref, entry_Bucket = bucket,
            entry_Amount = row_Amount row, entry_CreatedAt = row_CreatedAt row\<rparr>)))"

fun statement_entries :: "StatementRow list \<Rightarrow> wallet_app_error + StatementEntry list" where
  "statement_entries [] = Inr []"
| "statement_entries (row # rows) =
     bind_r (statement_entry row) (\<lambda>e. bind_r (statement_entries rows) (\<lambda>es. Inr (e # es)))"

definition ListStatementPage ::
  "(string \<Rightarrow> uuid option) \<Rightarrow> AccountID \<Rightarrow> StatementPosition option \<Rightarrow> int \<Rightarrow> wallet_db
     \<Rightarrow> wallet_app_error + StatementEntry list" where
  "ListStatementPage scan accountID after limit db =
     bind_r (pgUUIDFromAccountID scan accountID) (\<lambda>u.
     bind_r (case after of
         None \<Rightarrow> Inr None
       | Some p \<Rightarrow> (case scan (position_TransactionID p) of
           None \<Rightarrow> Inl ErrInvalidCursor
         | Some t \<Rightarrow> Inr (Some (Keyset (timestamptz (position_CreatedAt p)) t)))) (\<lambda>from_key.
     bind_r (wrap_err Pg (ListWalletStatementPage u from_key (wrap32 limit) db)) statement_entries))"

section \<open>Free cycle\<close>

definition FreeCycleAnchor :: "(string \<Rightarrow> uuid option) \<Rightarrow> AccountID \<Rightarrow> wallet_db \<Rightarrow> wallet_app_error + time" where
  "FreeCycleAnchor scan accountID db =
     (case pgUUIDFromAccountID scan accountID of
        Inl _ \<Rightarrow> Inl ErrWalletNotFound
      | Inr u \<Rightarrow> (case GetWalletFreeCycleAnchor u db of
          Inl NoRows \<Rightarrow> Inl ErrWalletNotFound
        | Inl e \<Rightarrow> Inl (Pg e)
        | Inr anchor \<Rightarrow> Inr anchor))"

definition cycle_params :: "uuid \<Rightarrow> OperationType \<Rightarrow> IdempotencyKey \<Rightarrow> Reference \<Rightarrow> CreateWalletOperationParams" where
  "cycle_params u operationType k ref =
     \<lparr>arg_AccountID = u, arg_OperationType = operationType, arg_IdempotencyKey = key_String k,
      arg_Reference = reference_String ref, arg_Reason = None, arg_ActorAccountID = None\<rparr>"

text \<open>The part of a renewal that expires what is left of the franchise.\<close>

definition expire_remaining :: "uuid \<Rightarrow> FreeCycleRenewalRequest \<Rightarrow> Ink \<Rightarrow> wallet_db \<Rightarrow> wallet_app_error + wallet_db" where
  "expire_remaining u request expired db =
     (if Ink_IsZero expired then Inr db
      else case CreateWalletOperationIfAbsent
                  (cycle_params u OperationExpireFree (renewal_ExpireKey request) (renewal_Reference request)) db of
        Inl NoRows \<Rightarrow> Inl ConflictWithoutOperation
      | Inl e \<Rightarrow> Inl (Pg e)
      | Inr (row, db1) \<Rightarrow>
          bind_r (wrap_err Domain (Direction_Apply DirectionDebit expired)) (\<lambda>delta.
          bind_r (wrap_err Pg (CreateWalletTransaction (op_id row) BucketFree delta db1)) (\<lambda>(_, db2). Inr db2)))"

definition renew_body ::
  "(string \<Rightarrow> uuid option) \<Rightarrow> FreeCycleRenewalRequest \<Rightarrow> wallet_db \<Rightarrow> wallet_app_error + PeriodRenewal \<times> wallet_db" where
  "renew_body scan request db =
     (case pgUUIDFromAccountID scan (renewal_AccountID request) of
        Inl _ \<Rightarrow> Inl ErrWalletNotFound
      | Inr u \<Rightarrow> (case GetWalletAccountForUpdate u db of
          Inl NoRows \<Rightarrow> Inl ErrWalletNotFound
        | Inl e \<Rightarrow> Inl (Pg e)
        | Inr account \<Rightarrow>
     (case GetWalletOperationByIdempotencyKey (key_String (renewal_GrantKey request)) db of
        Inr grant \<Rightarrow>
          if uuidToString (Some (op_account grant)) \<noteq> renewal_AccountID request then Inl ErrIdempotencyMismatch
          else Inr (\<lparr>renewed_PeriodStart = renewal_PeriodStart request, renewed_Expired = zero_Ink,
                     renewed_Granted = zero_Ink, renewed_Replayed = True\<rparr>, db)
      | Inl NoRows \<Rightarrow>
     bind_r (wrap_err Domain (NewInk (BalanceFree account))) (\<lambda>expired.
     bind_r (expire_remaining u request expired db) (\<lambda>db1.
     case CreateWalletOperationIfAbsent
            (cycle_params u OperationCreditFree (renewal_GrantKey request) (renewal_Reference request)) db1 of
        Inl NoRows \<Rightarrow> Inl ConflictWithoutOperation
      | Inl e \<Rightarrow> Inl (Pg e)
      | Inr (row, db2) \<Rightarrow>
     bind_r (wrap_err Pg (CreateWalletTransaction (op_id row) BucketFree (amount (renewal_Franchise request)) db2)) (\<lambda>(_, db3).
     bind_r (wrap_err Pg (ApplyFreeBalanceDelta u (wrap64 (amount (renewal_Franchise request) - amount expired)) db3)) (\<lambda>(_, db4).
       Inr (\<lparr>renewed_PeriodStart = renewal_PeriodStart request, renewed_Expired = expired,
             renewed_Granted = renewal_Franchise request, renewed_Replayed = False\<rparr>, db4)))))
      | Inl e \<Rightarrow> Inl (Pg e))))"

definition RenewFreePeriod ::
  "(string \<Rightarrow> uuid option) \<Rightarrow> FreeCycleRenewalRequest \<Rightarrow> wallet_db \<Rightarrow> (wallet_app_error + PeriodRenewal) \<times> wallet_db" where
  "RenewFreePeriod scan request db =
     (case renew_body scan request db of
        Inl e \<Rightarrow> (Inl e, db)
      | Inr (renewal, db') \<Rightarrow> (Inr renewal, db'))"

end
