(* ===== verification/WalletCorrectness.thy ===== *)
theory WalletCorrectness
  imports WalletRepository
begin

text \<open>
  What the wallet repository guarantees over any history of calls: the ledger invariant, exact
  credits and debits, renewal of the free cycle, and replay of an idempotency key at any later
  time. The contract between the repository and a caller that retries is the locale
  \<open>idempotent_store\<close>, interpreted on the repository's operations.
\<close>

section \<open>The append-only order on ledgers\<close>

definition ledger_extends :: "wallet_db \<Rightarrow> wallet_db \<Rightarrow> bool" where
  "ledger_extends db db' \<longleftrightarrow>
     (\<exists>rows. operations db' = operations db @ rows)
   \<and> (\<exists>lines. transactions db' = transactions db @ lines
        \<and> (\<forall>t \<in> set lines. tx_operation t \<notin> op_id ` set (operations db)))
   \<and> (\<forall>u w. wallets db u = Some w \<longrightarrow>
        (\<exists>w'. wallets db' u = Some w' \<and> FreeCycleAnchorAt w' = FreeCycleAnchorAt w))"

lemma ledger_extends_refl [simp]: "ledger_extends db db"
  by (simp add: ledger_extends_def)

lemma ledger_extends_trans:
  assumes "ledger_extends a b" "ledger_extends b c"
  shows "ledger_extends a c"
proof -
  from assms obtain r1 r2 l1 l2 where
    ops: "operations b = operations a @ r1" "operations c = operations b @ r2" and
    txs: "transactions b = transactions a @ l1" "transactions c = transactions b @ l2" and
    fresh: "\<forall>t \<in> set l1. tx_operation t \<notin> op_id ` set (operations a)"
      "\<forall>t \<in> set l2. tx_operation t \<notin> op_id ` set (operations b)"
    unfolding ledger_extends_def by blast
  have "\<forall>t \<in> set (l1 @ l2). tx_operation t \<notin> op_id ` set (operations a)"
    using fresh ops(1) by auto
  moreover have "operations c = operations a @ (r1 @ r2)" "transactions c = transactions a @ (l1 @ l2)"
    using ops txs by simp_all
  moreover have "\<forall>u w. wallets a u = Some w \<longrightarrow>
      (\<exists>w'. wallets c u = Some w' \<and> FreeCycleAnchorAt w' = FreeCycleAnchorAt w)"
    using assms unfolding ledger_extends_def by metis
  ultimately show ?thesis unfolding ledger_extends_def by blast
qed

lemma extends_lookup:
  assumes "ledger_extends db db'" "ledger_ok db'" "q \<in> set (operations db)"
  shows "GetWalletOperationByIdempotencyKey (op_key q) db' = Inr q"
proof -
  have "q \<in> set (operations db')" "distinct (map op_key (operations db'))"
    using assms by (auto simp: ledger_extends_def ledger_ok_def tables_ok_def)
  then show ?thesis by (simp add: GetWalletOperationByIdempotencyKey_def find_unique_key)
qed

text \<open>The lines of an operation never change after the transaction that wrote them.\<close>

lemma extends_lines:
  assumes "ledger_extends db db'" "q \<in> set (operations db)"
  shows "ListWalletTransactionsByOperationID (op_id q) db' = ListWalletTransactionsByOperationID (op_id q) db"
proof -
  obtain ls where ls: "transactions db' = transactions db @ ls"
      "\<forall>t \<in> set ls. tx_operation t \<notin> op_id ` set (operations db)"
    using assms(1) by (auto simp: ledger_extends_def)
  then have "filter (\<lambda>t. tx_operation t = op_id q) ls = []"
    using assms(2) by (auto simp: filter_empty_conv)
  with ls show ?thesis by (simp add: ListWalletTransactionsByOperationID_def)
qed

lemma lookup_fresh:
  "GetWalletOperationByIdempotencyKey k db = Inl NoRows \<longleftrightarrow> k \<notin> op_key ` set (operations db)"
  using find_key_None [of op_key k "operations db"]
  by (auto simp: GetWalletOperationByIdempotencyKey_def simp del: find_key_None split: option.split)

lemma lookup_errors: "GetWalletOperationByIdempotencyKey k db = Inl e \<Longrightarrow> e = NoRows"
  by (simp add: GetWalletOperationByIdempotencyKey_def split: option.splits)

lemma lookup_found:
  "GetWalletOperationByIdempotencyKey k db = Inr q \<Longrightarrow> q \<in> set (operations db) \<and> op_key q = k"
  by (auto simp: GetWalletOperationByIdempotencyKey_def dest: find_key_Some split: option.splits)

section \<open>Credits\<close>

definition bucket_delta :: "Bucket \<Rightarrow> Bucket \<Rightarrow> int \<Rightarrow> int" where
  "bucket_delta b target d = (if b = target then d else 0)"

text \<open>What a committed credit leaves behind.\<close>

definition credit_committed ::
  "(string \<Rightarrow> uuid option) \<Rightarrow> CreditRequest \<Rightarrow> wallet_db \<Rightarrow> uuid \<Rightarrow> AppWalletOperation \<Rightarrow> AppWalletTransaction \<Rightarrow> wallet_db \<Rightarrow> bool" where
  "credit_committed scan rq db u row t db' \<longleftrightarrow>
     scan (credit_AccountID rq) = Some u
   \<and> row = operation_row (credit_params scan u rq) db
   \<and> operation_checks (credit_params scan u rq) \<and> operation_texts (credit_params scan u rq)
   \<and> op_key row \<notin> op_key ` set (operations db)
   \<and> operations db' = operations db @ [row] \<and> transactions db' = transactions db @ [t]
   \<and> (\<forall>l \<in> set (transactions db). tx_operation l \<noteq> op_id row)
   \<and> op_id row \<notin> op_id ` set (operations db)
   \<and> tx_operation t = op_id row \<and> tx_bucket t = credit_Bucket rq \<and> tx_amount t = credit_Delta rq
   \<and> Bucket_IsValid (credit_Bucket rq)
   \<and> (\<exists>w. wallets db' u = Some w
        \<and> BalanceFree w = bucket_sum ''FREE_INK'' (account_lines u db) + bucket_delta (credit_Bucket rq) BucketFree (credit_Delta rq)
        \<and> BalancePurchased w = bucket_sum ''PURCHASED_INK'' (account_lines u db) + bucket_delta (credit_Bucket rq) BucketPurchased (credit_Delta rq))
   \<and> (\<forall>v. v \<noteq> u \<longrightarrow> wallets db' v = wallets db v)
   \<and> (\<forall>w0. wallets db u = Some w0 \<longrightarrow>
        map_option FreeCycleAnchorAt (wallets db' u) = Some (FreeCycleAnchorAt w0))"

lemma creditBalance_ok:
  assumes "creditBalance u rq db = Inr db'" "tables_ok db" "balances_lag u df dp db"
  shows "tables_ok db' \<and> balances_lag u (df - bucket_delta (credit_Bucket rq) BucketFree (credit_Delta rq))
                              (dp - bucket_delta (credit_Bucket rq) BucketPurchased (credit_Delta rq)) db'
    \<and> Bucket_IsValid (credit_Bucket rq)
    \<and> (\<exists>w'. wallets db' u = Some w')
    \<and> (\<forall>v. v \<noteq> u \<longrightarrow> wallets db' v = wallets db v)
    \<and> operations db' = operations db \<and> transactions db' = transactions db
    \<and> (\<forall>v. account_lines v db' = account_lines v db)
    \<and> map_option FreeCycleAnchorAt (wallets db' u) = map_option FreeCycleAnchorAt (wallets db u)"
proof -
  consider (f) "credit_Bucket rq = BucketFree" | (p) "credit_Bucket rq = BucketPurchased"
    using assms(1) by (auto simp: creditBalance_def split: if_splits)
  then show ?thesis
  proof cases
    case f
    with assms(1) obtain w' where "update_balances u (credit_Delta rq) 0 db = Inr (w', db')"
      by (auto simp: creditBalance_def CreditFreeBalance_def result_iffs)
    from update_balances_ok [OF this assms(2,3)] f show ?thesis
      by (auto simp: bucket_delta_def Bucket_IsValid_def)
  next
    case p
    with assms(1) obtain w' where "update_balances u 0 (credit_Delta rq) db = Inr (w', db')"
      by (auto simp: creditBalance_def CreditPurchasedBalance_def result_iffs)
    from update_balances_ok [OF this assms(2,3)] p show ?thesis
      by (auto simp: bucket_delta_def Bucket_IsValid_def)
  qed
qed

lemma operation_row_ensure: "EnsureWalletAccount u db = Inr db' \<Longrightarrow> operation_row arg db' = operation_row arg db"
  by (auto simp: EnsureWalletAccount_def operation_row_def split: if_splits)

lemma credit_cases:
  assumes "ApplyCredit scan rq db = (res, db')" "ledger_ok db"
  shows "db' = db \<and> (\<forall>r. res = Inr r \<longrightarrow> creditResult_Replayed r) \<or>
    (\<exists>u row t. credit_committed scan rq db u row t db' \<and> ledger_ok db'
       \<and> res = bind_r (mapOperationRow row) (\<lambda>operation.
                 Inr \<lparr>creditResult_Operation = operation, creditResult_Replayed = False\<rparr>))"
proof (cases "\<exists>u db1 row db2 t db3 db4. scan (credit_AccountID rq) = Some u \<and> EnsureWalletAccount u db = Inr db1
    \<and> CreateWalletOperationIfAbsent (credit_params scan u rq) db1 = Inr (row, db2)
    \<and> CreateWalletTransaction (op_id row) (credit_Bucket rq) (credit_Delta rq) db2 = Inr (t, db3)
    \<and> creditBalance u rq db3 = Inr db4")
  case False
  then have "db' = db \<and> (\<forall>r. res = Inr r \<longrightarrow> creditResult_Replayed r)"
    using assms(1) unfolding ApplyCredit_def pgUUIDFromAccountID_def
    by (auto simp: replayCredit_def result_iffs split: option.splits sum.splits prod.splits pg_error.splits if_splits)
  then show ?thesis by blast
next
  case True
  then obtain u db1 row db2 t db3 db4 where c: "scan (credit_AccountID rq) = Some u"
    "EnsureWalletAccount u db = Inr db1"
    "CreateWalletOperationIfAbsent (credit_params scan u rq) db1 = Inr (row, db2)"
    "CreateWalletTransaction (op_id row) (credit_Bucket rq) (credit_Delta rq) db2 = Inr (t, db3)"
    "creditBalance u rq db3 = Inr db4" by blast
  from c assms(1) have out: "db' = db4" "res = bind_r (mapOperationRow row) (\<lambda>operation.
      Inr \<lparr>creditResult_Operation = operation, creditResult_Replayed = False\<rparr>)"
    by (auto simp: ApplyCredit_def pgUUIDFromAccountID_def)
  note e = EnsureWalletAccount_ok [OF c(2) assms(2)]
  then have ok1: "tables_ok db1" "balances_lag u 0 0 db1" using ledger_okD by blast+
  note o = create_operation_ok [OF c(3) ok1(1), of u 0 0]
  note o' = create_operation_Inr [OF c(3)]
  have acct: "op_account row = u" using o by (simp add: operation_row_def credit_params_def)
  have lag2: "balances_lag u 0 0 db2" using o ok1(2) by simp
  have x: "tables_ok db3"
    "balances_lag u (bucket_delta (credit_Bucket rq) BucketFree (credit_Delta rq))
       (bucket_delta (credit_Bucket rq) BucketPurchased (credit_Delta rq)) db3"
    "wallets db3 = wallets db2" "operations db3 = operations db2" "transactions db3 = transactions db2 @ [t]"
    "tx_operation t = op_id row" "tx_bucket t = credit_Bucket rq" "tx_amount t = credit_Delta rq"
    using create_transaction_ok [OF c(4) conjunct1 [OF o] _ acct lag2] create_transaction_Inr [OF c(4)] o
    by (simp_all add: bucket_delta_def vocab)
  note b = creditBalance_ok [OF c(5) x(1,2)]
  have final: "ledger_ok db4" using b by (intro ledger_okI [where u = u]) simp_all
  have lines: "account_lines u db4 = account_lines u db1 @ [(t, row)]"
    using b create_transaction_ok [OF c(4) conjunct1 [OF o] _ acct lag2] o by simp
  obtain w where w: "wallets db4 u = Some w" using b by blast
  have "credit_committed scan rq db u row t db4"
    unfolding credit_committed_def
  proof (intro conjI)
    show "\<exists>w. wallets db4 u = Some w
        \<and> BalanceFree w = bucket_sum ''FREE_INK'' (account_lines u db) + bucket_delta (credit_Bucket rq) BucketFree (credit_Delta rq)
        \<and> BalancePurchased w = bucket_sum ''PURCHASED_INK'' (account_lines u db) + bucket_delta (credit_Bucket rq) BucketPurchased (credit_Delta rq)"
      using w ledger_ok_balance [OF final w] lines e x
      by (simp add: bucket_sum_append bucket_sum_single bucket_delta_def vocab)
    show "row = operation_row (credit_params scan u rq) db"
      using o operation_row_ensure [OF c(2)] by simp
    show "op_id row \<notin> op_id ` set (operations db)" "op_key row \<notin> op_key ` set (operations db)"
      using insert_operation_Inr [OF conjunct1 [OF o']] o' e by (auto simp: operation_row_def)
  qed (use c o o' e x b in auto)
  with final out show ?thesis by blast
qed

section \<open>Debits\<close>

definition lines_of :: "Bucket \<Rightarrow> AllocationLine list \<Rightarrow> int" where
  "lines_of b ls = (\<Sum>l\<leftarrow>filter (\<lambda>l. line_Bucket l = b) ls. amount (line_Amount l))"

lemma Direction_Apply_debit:
  "is_Ink a \<Longrightarrow> Direction_Apply DirectionDebit a =
     (if amount a = 0 then Inl ErrZeroAmount else Inr (- amount a))"
  by (simp add: Direction_Apply_def Direction_IsValid_def Ink_IsZero_def is_Ink_def int64_defs)

text \<open>The lines of a debit run the account's projection behind by the amounts they take.\<close>

lemma record_lines_ok:
  assumes "record_lines (op_id q) ls db = Inr db'" "tables_ok db" "balances_lag u df dp db"
    and "q \<in> set (operations db)" "op_account q = u" "\<forall>l \<in> set ls. is_Ink (line_Amount l)"
  shows "tables_ok db' \<and> balances_lag u (df - lines_of BucketFree ls) (dp - lines_of BucketPurchased ls) db'
    \<and> wallets db' = wallets db \<and> operations db' = operations db
    \<and> (\<exists>ts. transactions db' = transactions db @ ts
          \<and> map (\<lambda>t. (tx_operation t, tx_bucket t, tx_amount t)) ts =
            map (\<lambda>l. (op_id q, line_Bucket l, - amount (line_Amount l))) ls)"
  using assms
proof (induction ls arbitrary: db df dp)
  case Nil
  then show ?case by (simp add: lines_of_def)
next
  case (Cons l ls)
  then have ink: "is_Ink (line_Amount l)" by simp
  with Cons.prems(1) obtain t db1 where
    t: "CreateWalletTransaction (op_id q) (line_Bucket l) (- amount (line_Amount l)) db = Inr (t, db1)"
    and rest: "record_lines (op_id q) ls db1 = Inr db'"
    by (auto simp: result_iffs Direction_Apply_debit split: if_splits)
  note x = create_transaction_ok [OF t Cons.prems(2,4,5,3)]
  have "tables_ok db1" "q \<in> set (operations db1)" using x Cons.prems by simp_all
  moreover have "balances_lag u (df - (if line_Bucket l = BucketFree then amount (line_Amount l) else 0))
      (dp - (if line_Bucket l = BucketPurchased then amount (line_Amount l) else 0)) db1"
    using x by (cases "line_Bucket l = ''FREE_INK''"; cases "line_Bucket l = ''PURCHASED_INK''")
      (simp_all add: vocab)
  ultimately have IH: "tables_ok db' \<and> balances_lag u
        (df - (if line_Bucket l = BucketFree then amount (line_Amount l) else 0) - lines_of BucketFree ls)
        (dp - (if line_Bucket l = BucketPurchased then amount (line_Amount l) else 0) - lines_of BucketPurchased ls) db'
    \<and> wallets db' = wallets db1 \<and> operations db' = operations db1
    \<and> (\<exists>ts. transactions db' = transactions db1 @ ts
          \<and> map (\<lambda>t. (tx_operation t, tx_bucket t, tx_amount t)) ts =
            map (\<lambda>l. (op_id q, line_Bucket l, - amount (line_Amount l))) ls)"
    using Cons.IH [OF rest] Cons.prems(5,6) by simp
  then obtain ts where ts: "transactions db' = transactions db1 @ ts"
      "map (\<lambda>t. (tx_operation t, tx_bucket t, tx_amount t)) ts =
       map (\<lambda>l. (op_id q, line_Bucket l, - amount (line_Amount l))) ls" by blast
  have "transactions db' = transactions db @ (t # ts)
     \<and> map (\<lambda>t. (tx_operation t, tx_bucket t, tx_amount t)) (t # ts) =
       map (\<lambda>l. (op_id q, line_Bucket l, - amount (line_Amount l))) (l # ls)"
    using ts x create_transaction_Inr [OF t] by simp
  moreover have "balances_lag u (df - lines_of BucketFree (l # ls)) (dp - lines_of BucketPurchased (l # ls)) db'"
    using IH by (simp add: lines_of_def algebra_simps split: if_splits)
  moreover have "wallets db' = wallets db" "operations db' = operations db" using IH x by simp_all
  ultimately show ?case using IH by (intro conjI exI) auto
qed

lemma Allocation_Lines_facts:
  assumes "is_Ink (fromFree plan)" "is_Ink (fromPurchased plan)"
  shows "\<forall>l \<in> set (Allocation_Lines plan). is_Ink (line_Amount l)"
    "lines_of BucketFree (Allocation_Lines plan) = amount (fromFree plan)"
    "lines_of BucketPurchased (Allocation_Lines plan) = amount (fromPurchased plan)"
  using assms by (auto simp: Allocation_Lines_def lines_of_def Ink_IsZero_def)

text \<open>What a committed debit leaves behind.\<close>

definition debit_committed ::
  "(string \<Rightarrow> uuid option) \<Rightarrow> DebitRequest \<Rightarrow> wallet_db \<Rightarrow> uuid \<Rightarrow> AppWalletOperation \<Rightarrow> Allocation \<Rightarrow> wallet_db \<Rightarrow> bool" where
  "debit_committed scan rq db u row plan db' \<longleftrightarrow>
     scan (debit_AccountID rq) = Some u
   \<and> row = operation_row (debit_params scan u rq) db
   \<and> operation_checks (debit_params scan u rq) \<and> operation_texts (debit_params scan u rq)
   \<and> op_key row \<notin> op_key ` set (operations db) \<and> op_id row \<notin> op_id ` set (operations db)
   \<and> operations db' = operations db @ [row]
   \<and> (\<forall>l \<in> set (transactions db). tx_operation l \<noteq> op_id row)
   \<and> (\<exists>ts. transactions db' = transactions db @ ts
        \<and> map (\<lambda>t. (tx_operation t, tx_bucket t, tx_amount t)) ts =
          map (\<lambda>l. (op_id row, line_Bucket l, - amount (line_Amount l))) (Allocation_Lines plan))
   \<and> (\<exists>w w'. wallets db u = Some w \<and> wallets db' u = Some w'
        \<and> AllocateDebit (debit_Amount rq) \<lparr>amount = BalanceFree w\<rparr> \<lparr>amount = BalancePurchased w\<rparr> = Inr plan
        \<and> BalanceFree w' = BalanceFree w - amount (fromFree plan)
        \<and> BalancePurchased w' = BalancePurchased w - amount (fromPurchased plan)
        \<and> FreeCycleAnchorAt w' = FreeCycleAnchorAt w)
   \<and> (\<forall>v. v \<noteq> u \<longrightarrow> wallets db' v = wallets db v)"

lemma wallet_Ink:
  assumes "ledger_ok db" "wallets db u = Some w"
  shows "NewInk (BalanceFree w) = Inr \<lparr>amount = BalanceFree w\<rparr>"
    "NewInk (BalancePurchased w) = Inr \<lparr>amount = BalancePurchased w\<rparr>"
    "is_Ink \<lparr>amount = BalanceFree w\<rparr>" "is_Ink \<lparr>amount = BalancePurchased w\<rparr>"
  using tables_ok_balance_range [OF ledger_okD(1) [OF assms(1)] assms(2)]
  by (auto simp: NewInk_def is_Ink_def)

lemma replayDebit_fresh:
  "replayDebit rq db = Inr None \<longleftrightarrow> key_String (debit_IdempotencyKey rq) \<notin> op_key ` set (operations db)"
proof -
  have "replayDebit rq db = Inr None \<longleftrightarrow>
      GetWalletOperationByIdempotencyKey (key_String (debit_IdempotencyKey rq)) db = Inl NoRows"
    by (auto simp: replayDebit_def result_iffs split: sum.split pg_error.split)
  then show ?thesis using lookup_fresh by simp
qed

lemma replayDebit_replayed: "replayDebit rq db = Inr (Some r) \<Longrightarrow> debitResult_Replayed r"
  by (auto simp: replayDebit_def result_iffs split: sum.splits pg_error.splits if_splits)


text \<open>A debit replays or goes through \<open>debit_locked\<close> with an unused key.\<close>

lemma applyDebit_Inr:
  assumes "applyDebit scan rq seen db = Inr (r, db')"
  shows "db' = db \<and> debitResult_Replayed r
      \<and> (replayDebit rq seen = Inr (Some r) \<or> replayDebit rq db = Inr (Some r)) \<or>
    (\<exists>u w. scan (debit_AccountID rq) = Some u \<and> wallets db u = Some w \<and> replayDebit rq db = Inr None
       \<and> debit_locked scan rq u w db = Inr (r, db'))"
proof -
  obtain u early where u: "scan (debit_AccountID rq) = Some u" and early: "replayDebit rq seen = Inr early"
    and rest: "(case early of Some result \<Rightarrow> Inr (result, db) | None \<Rightarrow>
     (case GetWalletAccountForUpdate u db of
        Inl NoRows \<Rightarrow> Inl (Domain ErrInsufficientInk)
      | Inl e \<Rightarrow> Inl (Pg e)
      | Inr account \<Rightarrow>
     bind_r (replayDebit rq db) (\<lambda>again.
     case again of Some result \<Rightarrow> Inr (result, db) | None \<Rightarrow> debit_locked scan rq u account db)))
     = Inr (r, db')"
    using assms unfolding applyDebit_def pgUUIDFromAccountID_def
    by (auto simp: bind_r_Inr_iff split: option.splits)
  show ?thesis
  proof (cases early)
    case (Some result)
    with rest early show ?thesis using replayDebit_replayed by auto
  next
    case None
    show ?thesis
    proof (cases "wallets db u")
      case (Some w)
      with rest \<open>early = None\<close> obtain again where again: "replayDebit rq db = Inr again"
        "(case again of Some result \<Rightarrow> Inr (result, db) | None \<Rightarrow> debit_locked scan rq u w db) = Inr (r, db')"
        by (auto simp: GetWalletAccountForUpdate_def bind_r_Inr_iff)
      with u Some show ?thesis by (cases again) (auto dest: replayDebit_replayed)
    qed (use rest None in \<open>simp add: GetWalletAccountForUpdate_def\<close>)
  qed
qed

lemma debit_locked_Inr:
  assumes "debit_locked scan rq u w db = Inr (r, db')" "replayDebit rq db = Inr None"
  shows "\<exists>plan row db1 db2 w' operation.
    AllocateDebit (debit_Amount rq) \<lparr>amount = BalanceFree w\<rparr> \<lparr>amount = BalancePurchased w\<rparr> = Inr plan
  \<and> CreateWalletOperationIfAbsent (debit_params scan u rq) db = Inr (row, db1)
  \<and> record_lines (op_id row) (Allocation_Lines plan) db1 = Inr db2
  \<and> update_balances u (- amount (fromFree plan)) (- amount (fromPurchased plan)) db2 = Inr (w', db')
  \<and> mapOperationRow row = Inr operation
  \<and> r = \<lparr>debitResult_Operation = operation, debitResult_Allocation = plan, debitResult_Replayed = False\<rparr>"
proof -
  obtain plan where plan: "AllocateDebit (debit_Amount rq) \<lparr>amount = BalanceFree w\<rparr> \<lparr>amount = BalancePurchased w\<rparr> = Inr plan"
    and rest: "(case CreateWalletOperationIfAbsent (debit_params scan u rq) db of
        Inl NoRows \<Rightarrow>
          bind_r (replayDebit rq db) (\<lambda>found.
            case found of Some result \<Rightarrow> Inr (result, db) | None \<Rightarrow> Inl ConflictWithoutOperation)
      | Inl e \<Rightarrow> Inl (Pg e)
      | Inr (row, db1) \<Rightarrow>
     bind_r (record_lines (op_id row) (Allocation_Lines plan) db1) (\<lambda>db2.
     bind_r (wrap_err Pg (ApplyWalletDebit u (amount (fromFree plan)) (amount (fromPurchased plan)) db2)) (\<lambda>(_, db3).
     bind_r (mapOperationRow row) (\<lambda>operation.
       Inr (\<lparr>debitResult_Operation = operation, debitResult_Allocation = plan,
             debitResult_Replayed = False\<rparr>, db3))))) = Inr (r, db')"
    using assms(1) unfolding debit_locked_def by (auto simp: bind_r_Inr_iff NewInk_iff)
  obtain row db1 where row: "CreateWalletOperationIfAbsent (debit_params scan u rq) db = Inr (row, db1)"
    using rest assms(2) by (auto split: sum.splits pg_error.splits)
  with rest show ?thesis using plan
    by (auto simp: bind_r_Inr_iff ApplyWalletDebit_def split: prod.splits)
qed

lemma applyDebit_cases:
  assumes "applyDebit scan rq seen db = Inr (r, db')" "ledger_ok db" "is_Ink (debit_Amount rq)"
  shows "db' = db \<and> debitResult_Replayed r \<or>
    (\<exists>u row plan operation. debit_committed scan rq db u row plan db' \<and> ledger_ok db'
       \<and> mapOperationRow row = Inr operation
       \<and> r = \<lparr>debitResult_Operation = operation, debitResult_Allocation = plan, debitResult_Replayed = False\<rparr>)"
proof (cases "db' = db \<and> debitResult_Replayed r")
  case False
  then obtain u w where uw: "scan (debit_AccountID rq) = Some u" "wallets db u = Some w"
    "replayDebit rq db = Inr None" "debit_locked scan rq u w db = Inr (r, db')"
    using applyDebit_Inr [OF assms(1)] by blast
  obtain plan row db1 db2 w' operation where d:
    "AllocateDebit (debit_Amount rq) \<lparr>amount = BalanceFree w\<rparr> \<lparr>amount = BalancePurchased w\<rparr> = Inr plan"
    "CreateWalletOperationIfAbsent (debit_params scan u rq) db = Inr (row, db1)"
    "record_lines (op_id row) (Allocation_Lines plan) db1 = Inr db2"
    "update_balances u (- amount (fromFree plan)) (- amount (fromPurchased plan)) db2 = Inr (w', db')"
    "mapOperationRow row = Inr operation"
    "r = \<lparr>debitResult_Operation = operation, debitResult_Allocation = plan, debitResult_Replayed = False\<rparr>"
    using debit_locked_Inr [OF uw(4,3)] by metis
  note c = uw(1-3) d
  have plan: "is_Ink (fromFree plan)" "is_Ink (fromPurchased plan)"
    using AllocateDebit_Inr [OF assms(3) wallet_Ink(3,4) [OF assms(2) c(2)] c(4)] by simp_all
  have ok: "tables_ok db" "balances_lag u 0 0 db" using assms(2) ledger_okD by blast+
  note o = create_operation_ok [OF c(5) ok(1), of u 0 0] and o' = create_operation_Inr [OF c(5)]
  have acct: "op_account row = u" using o by (simp add: operation_row_def debit_params_def)
  have mem: "row \<in> set (operations db1)" and lag: "balances_lag u 0 0 db1" using o ok(2) by simp_all
  have l: "tables_ok db2" "balances_lag u (- amount (fromFree plan)) (- amount (fromPurchased plan)) db2"
    "wallets db2 = wallets db1" "operations db2 = operations db1"
    "\<exists>ts. transactions db2 = transactions db1 @ ts
        \<and> map (\<lambda>t. (tx_operation t, tx_bucket t, tx_amount t)) ts =
          map (\<lambda>l. (op_id row, line_Bucket l, - amount (line_Amount l))) (Allocation_Lines plan)"
    using record_lines_ok [OF c(6) conjunct1 [OF o] lag mem acct Allocation_Lines_facts(1) [OF plan]]
      Allocation_Lines_facts [OF plan] by simp_all
  note b = update_balances_ok [OF c(7) l(1,2)]
  obtain w0 where w0: "wallets db2 u = Some w0" "BalanceFree w' = BalanceFree w0 - amount (fromFree plan)"
      "BalancePurchased w' = BalancePurchased w0 - amount (fromPurchased plan)"
    using update_balances_Inr [OF c(7)] by auto
  have "ledger_ok db'" using b by (intro ledger_okI [where u = u]) simp_all
  moreover have "debit_committed scan rq db u row plan db'"
    unfolding debit_committed_def
  proof (intro conjI)
    show "op_id row \<notin> op_id ` set (operations db)" "op_key row \<notin> op_key ` set (operations db)"
      using insert_operation_Inr [OF conjunct1 [OF o']] o' by (auto simp: operation_row_def)
    show "\<exists>w w'. wallets db u = Some w \<and> wallets db' u = Some w'
        \<and> AllocateDebit (debit_Amount rq) \<lparr>amount = BalanceFree w\<rparr> \<lparr>amount = BalancePurchased w\<rparr> = Inr plan
        \<and> BalanceFree w' = BalanceFree w - amount (fromFree plan)
        \<and> BalancePurchased w' = BalancePurchased w - amount (fromPurchased plan)
        \<and> FreeCycleAnchorAt w' = FreeCycleAnchorAt w"
      using b o l(3) w0 c by auto
    show "\<exists>ts. transactions db' = transactions db @ ts
        \<and> map (\<lambda>t. (tx_operation t, tx_bucket t, tx_amount t)) ts =
          map (\<lambda>l. (op_id row, line_Bucket l, - amount (line_Amount l))) (Allocation_Lines plan)"
      using l(5) b o by auto
  qed (use c o o' l b in auto)
  ultimately show ?thesis using c by blast
qed blast

section \<open>Renewal of the free cycle\<close>

text \<open>What a committed renewal leaves behind; \<open>rows\<close> holds the expiry when there was one.\<close>

definition renewal_committed ::
  "(string \<Rightarrow> uuid option) \<Rightarrow> FreeCycleRenewalRequest \<Rightarrow> wallet_db \<Rightarrow> uuid \<Rightarrow> AppWalletOperation list \<Rightarrow> AppWalletOperation
     \<Rightarrow> AppWalletTransaction list \<Rightarrow> wallet_db \<Rightarrow> bool" where
  "renewal_committed scan rq db u rows grant ts db' \<longleftrightarrow>
     scan (renewal_AccountID rq) = Some u
   \<and> op_key grant = key_String (renewal_GrantKey rq) \<and> op_type grant = OperationCreditFree \<and> op_account grant = u
   \<and> op_key grant \<notin> op_key ` set (operations db)
   \<and> operations db' = operations db @ rows @ [grant]
   \<and> (\<forall>q \<in> set rows. op_key q = key_String (renewal_ExpireKey rq) \<and> op_type q = OperationExpireFree \<and> op_account q = u)
   \<and> transactions db' = transactions db @ ts
   \<and> (\<forall>t \<in> set ts. tx_operation t \<notin> op_id ` set (operations db) \<and> tx_bucket t = BucketFree)
   \<and> (\<exists>w w'. wallets db u = Some w \<and> wallets db' u = Some w'
        \<and> BalanceFree w' = amount (renewal_Franchise rq) \<and> BalancePurchased w' = BalancePurchased w
        \<and> FreeCycleAnchorAt w' = FreeCycleAnchorAt w
        \<and> map tx_amount ts = (if BalanceFree w = 0 then [] else [- BalanceFree w]) @ [amount (renewal_Franchise rq)])
   \<and> (\<forall>v. v \<noteq> u \<longrightarrow> wallets db' v = wallets db v)"

lemma expire_remaining_ok:
  assumes "expire_remaining u rq expired db = Inr db'" "tables_ok db" "balances_lag u 0 0 db" "is_Ink expired"
  shows "tables_ok db' \<and> balances_lag u (- amount expired) 0 db' \<and> wallets db' = wallets db
    \<and> (\<exists>rows ts. operations db' = operations db @ rows \<and> transactions db' = transactions db @ ts
        \<and> (\<forall>q \<in> set rows. op_key q = key_String (renewal_ExpireKey rq) \<and> op_type q = OperationExpireFree \<and> op_account q = u)
        \<and> (\<forall>t \<in> set ts. tx_operation t \<notin> op_id ` set (operations db) \<and> tx_bucket t = BucketFree)
        \<and> map tx_amount ts = (if amount expired = 0 then [] else [- amount expired]))"
proof (cases "amount expired = 0")
  case True
  with assms show ?thesis by (simp add: expire_remaining_def Ink_IsZero_def)
next
  case False
  then obtain row db1 t where c: "CreateWalletOperationIfAbsent
      (cycle_params u OperationExpireFree (renewal_ExpireKey rq) (renewal_Reference rq)) db = Inr (row, db1)"
    "CreateWalletTransaction (op_id row) BucketFree (- amount expired) db1 = Inr (t, db')"
    using assms(1,4) unfolding expire_remaining_def
    by (auto simp: Ink_IsZero_def Direction_Apply_debit bind_r_Inr_iff split: sum.splits pg_error.splits)
  note o = create_operation_ok [OF c(1) assms(2), of u 0 0] and o' = create_operation_Inr [OF c(1)]
  have acct: "op_account row = u" using o by (simp add: operation_row_def cycle_params_def)
  have mem: "row \<in> set (operations db1)" and lag: "balances_lag u 0 0 db1" using o assms(3) by simp_all
  note x = create_transaction_ok [OF c(2) conjunct1 [OF o] mem acct lag] and x' = create_transaction_Inr [OF c(2)]
  have "op_id row \<notin> op_id ` set (operations db)"
    using insert_operation_Inr [OF conjunct1 [OF o']] by blast
  moreover have "operations db' = operations db @ [row]" "transactions db' = transactions db @ [t]"
    "op_key row = key_String (renewal_ExpireKey rq)" "op_type row = OperationExpireFree" "op_account row = u"
    "tx_operation t = op_id row" "tx_bucket t = BucketFree" "tx_amount t = - amount expired"
    using x x' o by (auto simp: operation_row_def cycle_params_def)
  moreover have "tables_ok db'" "balances_lag u (- amount expired) 0 db'" "wallets db' = wallets db"
    using x o by (simp_all add: vocab)
  ultimately show ?thesis using False by (intro conjI exI [of _ "[row]"] exI [of _ "[t]"]) auto
qed

lemma renew_body_Inr:
  assumes "renew_body scan rq db = Inr (r, db')"
  shows "db' = db \<and> renewed_Replayed r \<and> (\<exists>grant. GetWalletOperationByIdempotencyKey (key_String (renewal_GrantKey rq)) db = Inr grant)
    \<or> (\<exists>u w expired db1 row db2 t db3 w'. scan (renewal_AccountID rq) = Some u \<and> wallets db u = Some w
       \<and> key_String (renewal_GrantKey rq) \<notin> op_key ` set (operations db)
       \<and> NewInk (BalanceFree w) = Inr expired \<and> expire_remaining u rq expired db = Inr db1
       \<and> CreateWalletOperationIfAbsent
            (cycle_params u OperationCreditFree (renewal_GrantKey rq) (renewal_Reference rq)) db1 = Inr (row, db2)
       \<and> CreateWalletTransaction (op_id row) BucketFree (amount (renewal_Franchise rq)) db2 = Inr (t, db3)
       \<and> update_balances u (wrap64 (amount (renewal_Franchise rq) - amount expired)) 0 db3 = Inr (w', db')
       \<and> r = \<lparr>renewed_PeriodStart = renewal_PeriodStart rq, renewed_Expired = expired,
             renewed_Granted = renewal_Franchise rq, renewed_Replayed = False\<rparr>)"
proof -
  obtain u where u: "scan (renewal_AccountID rq) = Some u"
    using assms by (auto simp: renew_body_def pgUUIDFromAccountID_def split: option.splits)
  obtain w where w: "wallets db u = Some w"
    using assms u by (auto simp: renew_body_def pgUUIDFromAccountID_def GetWalletAccountForUpdate_def split: option.splits)
  show ?thesis
  proof (cases "GetWalletOperationByIdempotencyKey (key_String (renewal_GrantKey rq)) db")
    case (Inr grant)
    with assms u w show ?thesis
      by (auto simp: renew_body_def pgUUIDFromAccountID_def GetWalletAccountForUpdate_def split: if_splits)
  next
    case (Inl e)
    then have e: "e = NoRows" by (rule lookup_errors)
    with Inl have fresh: "key_String (renewal_GrantKey rq) \<notin> op_key ` set (operations db)"
      using lookup_fresh by blast
    obtain expired db1 where x: "NewInk (BalanceFree w) = Inr expired" "expire_remaining u rq expired db = Inr db1"
      and rest: "(case CreateWalletOperationIfAbsent
            (cycle_params u OperationCreditFree (renewal_GrantKey rq) (renewal_Reference rq)) db1 of
        Inl NoRows \<Rightarrow> Inl ConflictWithoutOperation
      | Inl e \<Rightarrow> Inl (Pg e)
      | Inr (row, db2) \<Rightarrow>
     bind_r (wrap_err Pg (CreateWalletTransaction (op_id row) BucketFree (amount (renewal_Franchise rq)) db2)) (\<lambda>(_, db3).
     bind_r (wrap_err Pg (ApplyFreeBalanceDelta u (wrap64 (amount (renewal_Franchise rq) - amount expired)) db3)) (\<lambda>(_, db4).
       Inr (\<lparr>renewed_PeriodStart = renewal_PeriodStart rq, renewed_Expired = expired,
             renewed_Granted = renewal_Franchise rq, renewed_Replayed = False\<rparr>, db4)))) = Inr (r, db')"
      using assms u w Inl e
      by (auto simp: renew_body_def pgUUIDFromAccountID_def GetWalletAccountForUpdate_def bind_r_Inr_iff)
    then obtain row db2 where row: "CreateWalletOperationIfAbsent
            (cycle_params u OperationCreditFree (renewal_GrantKey rq) (renewal_Reference rq)) db1 = Inr (row, db2)"
      by (auto split: sum.splits pg_error.splits)
    with rest u w fresh x show ?thesis
      by (auto simp: bind_r_Inr_iff ApplyFreeBalanceDelta_def split: prod.splits)
  qed
qed

lemma renew_cases:
  assumes "renew_body scan rq db = Inr (r, db')" "ledger_ok db" "is_Ink (renewal_Franchise rq)"
  shows "db' = db \<and> renewed_Replayed r \<and> (\<exists>grant. GetWalletOperationByIdempotencyKey (key_String (renewal_GrantKey rq)) db = Inr grant) \<or>
    (\<exists>u rows grant ts. renewal_committed scan rq db u rows grant ts db' \<and> ledger_ok db'
       \<and> (\<exists>w. wallets db u = Some w \<and>
            r = \<lparr>renewed_PeriodStart = renewal_PeriodStart rq, renewed_Expired = \<lparr>amount = BalanceFree w\<rparr>,
             renewed_Granted = renewal_Franchise rq, renewed_Replayed = False\<rparr>))"
  using renew_body_Inr [OF assms(1)]
proof (elim disjE exE conjE, goal_cases)
  case 1
  then show ?case by blast
next
  case (2 u w expired db1 row db2 t db3 w')
  then have expired: "expired = \<lparr>amount = BalanceFree w\<rparr>" "is_Ink expired"
    using wallet_Ink [OF assms(2)] by auto
  have ok: "tables_ok db" "balances_lag u 0 0 db" using assms(2) ledger_okD by blast+
  note e = expire_remaining_ok [OF 2(5) ok expired(2)]
  then have ok1: "tables_ok db1" and lag1: "balances_lag u (- amount expired) 0 db1" by blast+
  obtain rows ts where rows: "operations db1 = operations db @ rows" "transactions db1 = transactions db @ ts"
    "\<forall>q \<in> set rows. op_key q = key_String (renewal_ExpireKey rq) \<and> op_type q = OperationExpireFree \<and> op_account q = u"
    "\<forall>t \<in> set ts. tx_operation t \<notin> op_id ` set (operations db) \<and> tx_bucket t = BucketFree"
    "map tx_amount ts = (if amount expired = 0 then [] else [- amount expired])"
    using e by blast
  note o = create_operation_ok [OF 2(6) ok1, of u "- amount expired" 0] and o' = create_operation_Inr [OF 2(6)]
  have acct: "op_account row = u" using o by (simp add: operation_row_def cycle_params_def)
  have mem: "row \<in> set (operations db2)" and lag: "balances_lag u (- amount expired) 0 db2" using o lag1 by simp_all
  note x = create_transaction_ok [OF 2(7) conjunct1 [OF o] mem acct lag] and x' = create_transaction_Inr [OF 2(7)]
  have lag3: "balances_lag u (amount (renewal_Franchise rq) - amount expired) 0 db3" and ok3: "tables_ok db3"
    using x by (simp_all add: vocab)
  have delta: "wrap64 (amount (renewal_Franchise rq) - amount expired) = amount (renewal_Franchise rq) - amount expired"
    using assms(3) expired(2) by (simp add: is_Ink_def int64_defs)
  note b = update_balances_ok [OF 2(8) ok3 lag3, unfolded delta]
  have "ledger_ok db'" using b by (intro ledger_okI [where u = u]) simp_all
  moreover have "renewal_committed scan rq db u rows row (ts @ [t]) db'"
    unfolding renewal_committed_def
  proof (intro conjI)
    show "op_key row = key_String (renewal_GrantKey rq)" "op_type row = OperationCreditFree"
      using o by (simp_all add: operation_row_def cycle_params_def)
    then show "op_key row \<notin> op_key ` set (operations db)" using 2(3) by simp
    have "op_id row \<notin> op_id ` set (operations db)"
      using insert_operation_Inr [OF conjunct1 [OF o']] rows(1) by auto
    then show "\<forall>t' \<in> set (ts @ [t]). tx_operation t' \<notin> op_id ` set (operations db) \<and> tx_bucket t' = BucketFree"
      using rows x' by auto
    show "\<exists>w w'. wallets db u = Some w \<and> wallets db' u = Some w'
        \<and> BalanceFree w' = amount (renewal_Franchise rq) \<and> BalancePurchased w' = BalancePurchased w
        \<and> FreeCycleAnchorAt w' = FreeCycleAnchorAt w
        \<and> map tx_amount (ts @ [t]) = (if BalanceFree w = 0 then [] else [- BalanceFree w]) @ [amount (renewal_Franchise rq)]"
      using update_balances_Inr [OF 2(8), unfolded delta] b 2(2) e o x x' rows(5) expired by auto
  qed (use 2 acct rows o o' e b x in auto)
  ultimately show ?case using 2 expired by blast
qed

section \<open>Every operation extends the ledger and keeps it consistent\<close>

lemma extendsI:
  assumes "operations db' = operations db @ rows" "transactions db' = transactions db @ ts"
    and "\<And>t. t \<in> set ts \<Longrightarrow> tx_operation t \<notin> op_id ` set (operations db)"
    and "\<And>w. wallets db u = Some w \<Longrightarrow> \<exists>w'. wallets db' u = Some w' \<and> FreeCycleAnchorAt w' = FreeCycleAnchorAt w"
    and "\<forall>v. v \<noteq> u \<longrightarrow> wallets db' v = wallets db v"
  shows "ledger_extends db db'"
proof -
  have "\<forall>v w. wallets db v = Some w \<longrightarrow> (\<exists>w'. wallets db' v = Some w' \<and> FreeCycleAnchorAt w' = FreeCycleAnchorAt w)"
    using assms(4,5) by metis
  with assms(1-3) show ?thesis unfolding ledger_extends_def by blast
qed

lemma credit_committed_extends: "credit_committed scan rq db u row t db' \<Longrightarrow> ledger_extends db db'"
  by (rule extendsI [where rows = "[row]" and ts = "[t]" and u = u]) (auto simp: credit_committed_def)

lemma debit_committed_extends: "debit_committed scan rq db u row plan db' \<Longrightarrow> ledger_extends db db'"
proof -
  assume c: "debit_committed scan rq db u row plan db'"
  then obtain ts where ts: "transactions db' = transactions db @ ts"
    "map (\<lambda>t. (tx_operation t, tx_bucket t, tx_amount t)) ts =
     map (\<lambda>l. (op_id row, line_Bucket l, - amount (line_Amount l))) (Allocation_Lines plan)"
    by (auto simp: debit_committed_def)
  have "tx_operation t = op_id row" if "t \<in> set ts" for t
    using arg_cong [OF ts(2), of set] that by force
  then show ?thesis
    using c ts(1) by (intro extendsI [where rows = "[row]" and ts = ts and u = u]) (auto simp: debit_committed_def)
qed

lemma renewal_committed_extends: "renewal_committed scan rq db u rows grant ts db' \<Longrightarrow> ledger_extends db db'"
  by (rule extendsI [where rows = "rows @ [grant]" and ts = ts and u = u]) (auto simp: renewal_committed_def)

lemma ApplyCredit_keeps:
  assumes "ApplyCredit scan rq db = (res, db')" "ledger_ok db"
  shows "ledger_ok db' \<and> ledger_extends db db'"
  using credit_cases [OF assms] assms(2) credit_committed_extends by auto

lemma ApplyDebit_keeps:
  assumes "ApplyDebit scan rq seen db = (res, db')" "ledger_ok db" "is_Ink (debit_Amount rq)"
  shows "ledger_ok db' \<and> ledger_extends db db'"
proof (cases "applyDebit scan rq seen db")
  case (Inl e)
  with assms show ?thesis by (simp add: ApplyDebit_def)
next
  case (Inr p)
  obtain r d where "p = (r, d)" by (cases p)
  with Inr assms have "applyDebit scan rq seen db = Inr (r, db')" by (simp add: ApplyDebit_def)
  from applyDebit_cases [OF this assms(2,3)] show ?thesis
    using assms(2) debit_committed_extends by auto
qed

lemma RenewFreePeriod_keeps:
  assumes "RenewFreePeriod scan rq db = (res, db')" "ledger_ok db" "is_Ink (renewal_Franchise rq)"
  shows "ledger_ok db' \<and> ledger_extends db db'"
proof (cases "renew_body scan rq db")
  case (Inl e)
  with assms show ?thesis by (simp add: RenewFreePeriod_def)
next
  case (Inr p)
  obtain r d where "p = (r, d)" by (cases p)
  with Inr assms have "renew_body scan rq db = Inr (r, db')" by (simp add: RenewFreePeriod_def)
  from renew_cases [OF this assms(2,3)] show ?thesis
    using assms(2) renewal_committed_extends by auto
qed

section \<open>Replays\<close>

text \<open>The caller names an account by the canonical text of its UUID.\<close>

definition canonical :: "(string \<Rightarrow> uuid option) \<Rightarrow> AccountID \<Rightarrow> bool" where
  "canonical scan i \<longleftrightarrow> (\<forall>u. scan i = Some u \<longrightarrow> uuidToString (Some u) = i)"

lemma op_account_has_wallet: "ledger_ok db \<Longrightarrow> q \<in> set (operations db) \<Longrightarrow> wallets db (op_account q) \<noteq> None"
  by (auto simp: ledger_ok_def tables_ok_def)

lemma credit_replay_of_row:
  assumes "ledger_ok db" "q \<in> set (operations db)" "op_key q = key_String (credit_IdempotencyKey rq)"
    and "scan (credit_AccountID rq) = Some (op_account q)" "canonical scan (credit_AccountID rq)"
    and "operation_checks (credit_params scan (op_account q) rq)" "operation_texts (credit_params scan (op_account q) rq)"
    and "mapOperationRow q = Inr operation"
  shows "ApplyCredit scan rq db = (Inr \<lparr>creditResult_Operation = operation, creditResult_Replayed = True\<rparr>, db)"
proof -
  have "EnsureWalletAccount (op_account q) db = Inr db"
    using op_account_has_wallet [OF assms(1,2)] by (auto simp: EnsureWalletAccount_def)
  moreover have "CreateWalletOperationIfAbsent (credit_params scan (op_account q) rq) db = Inl NoRows"
  proof -
    have "key_String (credit_IdempotencyKey rq) \<in> op_key ` set (operations db)"
      using assms(2,3) by (metis image_eqI)
    with assms(6,7) show ?thesis by (simp add: create_operation_NoRows credit_params_def)
  qed
  moreover have "GetWalletOperationByIdempotencyKey (key_String (credit_IdempotencyKey rq)) db = Inr q"
    using extends_lookup [OF ledger_extends_refl assms(1,2)] assms(3) by simp
  moreover have "uuidToString (Some (op_account q)) = credit_AccountID rq"
    using assms(4,5) by (simp add: canonical_def)
  ultimately show ?thesis
    using assms(4,8) by (simp add: ApplyCredit_def pgUUIDFromAccountID_def replayCredit_def)
qed

lemma credit_replay:
  assumes "ApplyCredit scan rq db = (Inr r, db1)" "ledger_ok db"
    and "ledger_extends db1 db2" "ledger_ok db2" "canonical scan (credit_AccountID rq)"
  shows "ApplyCredit scan rq db2 = (Inr (r\<lparr>creditResult_Replayed := True\<rparr>), db2)"
  using credit_cases [OF assms(1,2)]
proof
  assume "\<exists>u row t. credit_committed scan rq db u row t db1 \<and> ledger_ok db1
       \<and> Inr r = bind_r (mapOperationRow row) (\<lambda>operation.
                 Inr \<lparr>creditResult_Operation = operation, creditResult_Replayed = False\<rparr>)"
  then obtain u row t operation where c: "credit_committed scan rq db u row t db1"
    and m: "mapOperationRow row = Inr operation"
    and r: "r = \<lparr>creditResult_Operation = operation, creditResult_Replayed = False\<rparr>"
    by (auto dest!: sym [where s = "Inr r"] simp: bind_r_Inr_iff)
  have "op_account row = u" "op_key row = key_String (credit_IdempotencyKey rq)"
    using c by (auto simp: credit_committed_def operation_row_def credit_params_def)
  moreover have "row \<in> set (operations db2)"
    using c assms(3) by (auto simp: credit_committed_def ledger_extends_def)
  ultimately show ?thesis
    using credit_replay_of_row [OF assms(4), of row rq scan operation] c m r assms(5)
    by (simp add: credit_committed_def)
next
  assume same: "db1 = db \<and> (\<forall>r'. Inr r = Inr r' \<longrightarrow> creditResult_Replayed r')"
  then obtain u dbx where u: "scan (credit_AccountID rq) = Some u" "EnsureWalletAccount u db = Inr dbx"
    "CreateWalletOperationIfAbsent (credit_params scan u rq) dbx = Inl NoRows"
    "replayCredit rq dbx = Inr r"
    using assms(1) unfolding ApplyCredit_def pgUUIDFromAccountID_def
    by (auto simp: bind_r_Inr_iff split: option.splits sum.splits prod.splits pg_error.splits)
  then obtain q operation where q: "GetWalletOperationByIdempotencyKey (key_String (credit_IdempotencyKey rq)) dbx = Inr q"
    "uuidToString (Some (op_account q)) = credit_AccountID rq" "mapOperationRow q = Inr operation"
    "r = \<lparr>creditResult_Operation = operation, creditResult_Replayed = True\<rparr>"
    by (auto simp: replayCredit_def bind_r_Inr_iff split: sum.splits pg_error.splits if_splits)
  have "uuidToString (Some u) = credit_AccountID rq" using assms(5) u(1) by (simp add: canonical_def)
  then have acct: "op_account q = u" using q(2) uuidToString_inj by metis
  have "q \<in> set (operations db)" "op_key q = key_String (credit_IdempotencyKey rq)"
    using lookup_found [OF q(1)] EnsureWalletAccount_ok [OF u(2) assms(2)] by simp_all
  moreover from this have "q \<in> set (operations db2)" using same assms(3) by (auto simp: ledger_extends_def)
  ultimately show ?thesis
    using credit_replay_of_row [OF assms(4), of q rq scan operation] u acct q assms(5)
    by (simp add: create_operation_NoRows)
qed

text \<open>The plan of a debit is read back from its lines.\<close>

lemma sum_stored_lines_of_plan:
  assumes "is_Ink (fromFree plan)" "is_Ink (fromPurchased plan)"
    and "map (\<lambda>t. (tx_operation t, tx_bucket t, tx_amount t)) ts =
         map (\<lambda>l. (i, line_Bucket l, - amount (line_Amount l))) (Allocation_Lines plan)"
  shows "sum_stored_lines (sort_key tx_bucket ts) zero_Ink zero_Ink = Inr plan"
proof -
  have order: "''FREE_INK'' \<le> (''PURCHASED_INK'' :: string)" by code_simp
  have neg: "is_Ink a \<Longrightarrow> wrap64 (amount a) = amount a" for a by (simp add: is_Ink_in_int64)
  have ink: "is_Ink a \<Longrightarrow> NewInk (amount a) = Inr a" for a by (cases a) (simp add: NewInk_def is_Ink_def)
  have add: "is_Ink a \<Longrightarrow> Ink_Add zero_Ink a = Inr a" for a
    by (cases a) (simp add: Ink_Add_valid is_Ink_def)
  have pos: "is_Ink a \<Longrightarrow> \<not> amount a < 0" for a by (simp add: is_Ink_def)
  have zero: "amount a = 0 \<Longrightarrow> a = zero_Ink" for a by (cases a) (simp add: zero_Ink_def)
  have plan: "NewAllocation (fromFree plan) (fromPurchased plan) = plan"
    by (cases plan) (simp add: NewAllocation_def)
  have zeros: "amount (fromFree plan) = 0 \<Longrightarrow> NewAllocation zero_Ink (fromPurchased plan) = plan"
    "amount (fromPurchased plan) = 0 \<Longrightarrow> NewAllocation (fromFree plan) zero_Ink = plan"
    "amount (fromFree plan) = 0 \<Longrightarrow> amount (fromPurchased plan) = 0 \<Longrightarrow> NewAllocation zero_Ink zero_Ink = plan"
    using plan by (metis zero)+
  show ?thesis
    using assms(3) order plan neg [OF assms(1)] neg [OF assms(2)] ink [OF assms(1)] ink [OF assms(2)]
      add [OF assms(1)] add [OF assms(2)] pos [OF assms(1)] pos [OF assms(2)]
    by (cases "amount (fromFree plan) = 0"; cases "amount (fromPurchased plan) = 0")
       (auto simp: Allocation_Lines_def Ink_IsZero_def vocab map_eq_Cons_conv zeros)
qed

lemma debit_lines_read_back:
  assumes "debit_committed scan rq db u row plan db1" "ledger_ok db" "is_Ink (debit_Amount rq)"
  shows "reconstructAllocation (op_id row) db1 = Inr plan"
proof -
  obtain w where w: "wallets db u = Some w"
    "AllocateDebit (debit_Amount rq) \<lparr>amount = BalanceFree w\<rparr> \<lparr>amount = BalancePurchased w\<rparr> = Inr plan"
    using assms(1) by (auto simp: debit_committed_def)
  then have plan: "is_Ink (fromFree plan)" "is_Ink (fromPurchased plan)"
    using AllocateDebit_Inr [OF assms(3) wallet_Ink(3,4) [OF assms(2) w(1)] w(2)] by simp_all
  obtain ts where ts: "transactions db1 = transactions db @ ts"
    "map (\<lambda>t. (tx_operation t, tx_bucket t, tx_amount t)) ts =
     map (\<lambda>l. (op_id row, line_Bucket l, - amount (line_Amount l))) (Allocation_Lines plan)"
    using assms(1) by (auto simp: debit_committed_def)
  have "tx_operation t = op_id row" if "t \<in> set ts" for t
    using arg_cong [OF ts(2), of set] that by force
  then have "filter (\<lambda>t. tx_operation t = op_id row) ts = ts" by (simp add: filter_id_conv)
  moreover have "filter (\<lambda>t. tx_operation t = op_id row) (transactions db) = []"
    using assms(1) by (auto simp: debit_committed_def filter_empty_conv)
  ultimately show ?thesis
    using sum_stored_lines_of_plan [OF plan ts(2)] ts(1)
    by (simp add: reconstructAllocation_def ListWalletTransactionsByOperationID_def)
qed

text \<open>A key once registered resolves to the same result in every later state.\<close>

lemma replayDebit_extends:
  assumes "replayDebit rq db = Inr (Some r)" "ledger_extends db db2" "ledger_ok db2"
  shows "replayDebit rq db2 = Inr (Some r)"
proof -
  obtain q operation plan where q: "GetWalletOperationByIdempotencyKey (key_String (debit_IdempotencyKey rq)) db = Inr q"
    "uuidToString (Some (op_account q)) = debit_AccountID rq" "mapOperationRow q = Inr operation"
    "reconstructAllocation (op_id q) db = Inr plan"
    "r = \<lparr>debitResult_Operation = operation, debitResult_Allocation = plan, debitResult_Replayed = True\<rparr>"
    using assms(1) by (auto simp: replayDebit_def bind_r_Inr_iff split: sum.splits pg_error.splits if_splits)
  note f = lookup_found [OF q(1)]
  have "GetWalletOperationByIdempotencyKey (key_String (debit_IdempotencyKey rq)) db2 = Inr q"
    using extends_lookup [OF assms(2,3), of q] f by simp
  moreover have "reconstructAllocation (op_id q) db2 = Inr plan"
    using extends_lines [OF assms(2), of q] f q(4) by (simp add: reconstructAllocation_def)
  ultimately show ?thesis using q by (simp add: replayDebit_def)
qed

lemma applyDebit_replays:
  assumes "replayDebit rq db = Inr (Some r)" "ledger_ok db" "canonical scan (debit_AccountID rq)"
    and "scan (debit_AccountID rq) = Some u" "ledger_extends seen db" "ledger_ok seen"
  shows "ApplyDebit scan rq seen db = (Inr r, db)"
proof -
  obtain q where q: "GetWalletOperationByIdempotencyKey (key_String (debit_IdempotencyKey rq)) db = Inr q"
    "uuidToString (Some (op_account q)) = debit_AccountID rq"
    using assms(1) by (auto simp: replayDebit_def split: sum.splits pg_error.splits if_splits)
  then have "op_account q = u" using assms(3,4) uuidToString_inj unfolding canonical_def by metis
  then obtain w where w: "wallets db u = Some w"
    using op_account_has_wallet [OF assms(2)] lookup_found [OF q(1)] by blast
  have "replayDebit rq seen = Inr None \<or> replayDebit rq seen = Inr (Some r)"
  proof (cases "key_String (debit_IdempotencyKey rq) \<in> op_key ` set (operations seen)")
    case False
    then show ?thesis using replayDebit_fresh by blast
  next
    case True
    then obtain q' where q': "q' \<in> set (operations seen)" "op_key q' = key_String (debit_IdempotencyKey rq)" by auto
    then have "GetWalletOperationByIdempotencyKey (key_String (debit_IdempotencyKey rq)) seen = Inr q'"
      and "GetWalletOperationByIdempotencyKey (key_String (debit_IdempotencyKey rq)) db = Inr q'"
      using extends_lookup [OF ledger_extends_refl assms(6)] extends_lookup [OF assms(5,2)] by metis+
    moreover have "reconstructAllocation (op_id q') seen = reconstructAllocation (op_id q') db"
      using extends_lines [OF assms(5) q'(1)] by (simp add: reconstructAllocation_def)
    ultimately have "replayDebit rq seen = replayDebit rq db" by (simp add: replayDebit_def)
    with assms(1) show ?thesis by simp
  qed
  then show ?thesis
    using assms(1,4) w
    by (auto simp: ApplyDebit_def applyDebit_def pgUUIDFromAccountID_def GetWalletAccountForUpdate_def)
qed

lemma debit_replay:
  assumes "ApplyDebit scan rq seen db = (Inr r, db1)" "ledger_ok db" "is_Ink (debit_Amount rq)"
    and "ledger_extends seen db" "canonical scan (debit_AccountID rq)"
    and "ledger_extends db1 db2" "ledger_ok db2" "ledger_extends seen2 db2" "ledger_ok seen2"
  shows "ApplyDebit scan rq seen2 db2 = (Inr (r\<lparr>debitResult_Replayed := True\<rparr>), db2)"
proof -
  have body: "applyDebit scan rq seen db = Inr (r, db1)"
    using assms(1) by (auto simp: ApplyDebit_def split: sum.splits prod.splits)
  then obtain u where u: "scan (debit_AccountID rq) = Some u"
    by (auto simp: applyDebit_def pgUUIDFromAccountID_def bind_r_Inr_iff split: option.splits)
  have "replayDebit rq db1 = Inr (Some (r\<lparr>debitResult_Replayed := True\<rparr>))"
  proof (cases "db1 = db \<and> debitResult_Replayed r")
    case True
    have "replayDebit rq seen = Inr (Some r) \<or> replayDebit rq db = Inr (Some r)"
      using applyDebit_Inr [OF body] True debit_locked_Inr [of scan rq _ _ db r db1] by fastforce
    then have "replayDebit rq db = Inr (Some r)"
      using replayDebit_extends [OF _ assms(4,2)] by blast
    with True show ?thesis by simp
  next
    case False
    with applyDebit_cases [OF body assms(2,3)] obtain v row plan operation where c:
      "debit_committed scan rq db v row plan db1" "mapOperationRow row = Inr operation" "ledger_ok db1"
      "r = \<lparr>debitResult_Operation = operation, debitResult_Allocation = plan, debitResult_Replayed = False\<rparr>"
      by blast
    have row: "row \<in> set (operations db1)" "op_key row = key_String (debit_IdempotencyKey rq)"
      and acct: "uuidToString (Some (op_account row)) = debit_AccountID rq"
      using c(1) assms(5) by (auto simp: debit_committed_def operation_row_def debit_params_def canonical_def)
    have "GetWalletOperationByIdempotencyKey (key_String (debit_IdempotencyKey rq)) db1 = Inr row"
      using extends_lookup [OF ledger_extends_refl c(3) row(1)] row(2) by simp
    then show ?thesis
      using c acct debit_lines_read_back [OF c(1) assms(2,3)] by (simp add: replayDebit_def)
  qed
  then have "replayDebit rq db2 = Inr (Some (r\<lparr>debitResult_Replayed := True\<rparr>))"
    using replayDebit_extends assms(6,7) by blast
  then show ?thesis using applyDebit_replays assms(5,7,8,9) u by blast
qed

definition renewal_as_replay :: "PeriodRenewal \<Rightarrow> PeriodRenewal" where
  "renewal_as_replay r = r\<lparr>renewed_Expired := zero_Ink, renewed_Granted := zero_Ink, renewed_Replayed := True\<rparr>"

lemma renewal_replay:
  assumes "RenewFreePeriod scan rq db = (Inr r, db1)" "ledger_ok db" "is_Ink (renewal_Franchise rq)"
    and "canonical scan (renewal_AccountID rq)" "ledger_extends db1 db2" "ledger_ok db2"
  shows "RenewFreePeriod scan rq db2 = (Inr (renewal_as_replay r), db2)"
proof -
  have body: "renew_body scan rq db = Inr (r, db1)"
    using assms(1) by (auto simp: RenewFreePeriod_def split: sum.splits prod.splits)
  have "\<exists>u q. scan (renewal_AccountID rq) = Some u \<and> q \<in> set (operations db1) \<and> op_account q = u
      \<and> op_key q = key_String (renewal_GrantKey rq) \<and> renewed_PeriodStart r = renewal_PeriodStart rq"
    using renew_cases [OF body assms(2,3)]
  proof
    assume "\<exists>u rows grant ts. renewal_committed scan rq db u rows grant ts db1 \<and> ledger_ok db1
       \<and> (\<exists>w. wallets db u = Some w \<and>
            r = \<lparr>renewed_PeriodStart = renewal_PeriodStart rq, renewed_Expired = \<lparr>amount = BalanceFree w\<rparr>,
             renewed_Granted = renewal_Franchise rq, renewed_Replayed = False\<rparr>)"
    then show ?thesis by (auto simp: renewal_committed_def)
  next
    assume "db1 = db \<and> renewed_Replayed r \<and>
      (\<exists>grant. GetWalletOperationByIdempotencyKey (key_String (renewal_GrantKey rq)) db = Inr grant)"
    then obtain grant where g: "db1 = db"
      "GetWalletOperationByIdempotencyKey (key_String (renewal_GrantKey rq)) db = Inr grant" by blast
    obtain u where u: "scan (renewal_AccountID rq) = Some u"
      using body by (auto simp: renew_body_def pgUUIDFromAccountID_def split: option.splits)
    from body g u have "uuidToString (Some (op_account grant)) = renewal_AccountID rq"
      and "renewed_PeriodStart r = renewal_PeriodStart rq"
      by (auto simp: renew_body_def pgUUIDFromAccountID_def split: option.splits sum.splits pg_error.splits if_splits)
    moreover from this have "op_account grant = u"
      using assms(4) u uuidToString_inj unfolding canonical_def by metis
    ultimately show ?thesis using g u lookup_found [OF g(2)] by auto
  qed
  then obtain u q where q: "scan (renewal_AccountID rq) = Some u" "q \<in> set (operations db1)" "op_account q = u"
    "op_key q = key_String (renewal_GrantKey rq)" "renewed_PeriodStart r = renewal_PeriodStart rq" by blast
  have q2: "q \<in> set (operations db2)" using q(2) assms(5) by (auto simp: ledger_extends_def)
  then obtain w where w: "wallets db2 u = Some w" using op_account_has_wallet [OF assms(6)] q(3) by blast
  have "GetWalletOperationByIdempotencyKey (key_String (renewal_GrantKey rq)) db2 = Inr q"
    using extends_lookup [OF ledger_extends_refl assms(6) q2] q(4) by simp
  moreover have "uuidToString (Some (op_account q)) = renewal_AccountID rq"
    using assms(4) q by (simp add: canonical_def)
  ultimately show ?thesis
    using q w by (simp add: RenewFreePeriod_def renew_body_def pgUUIDFromAccountID_def
        GetWalletAccountForUpdate_def renewal_as_replay_def)
qed

end
