(* ===== verification/StoreContracts.thy ===== *)
theory StoreContracts
  imports Prelude
begin

text \<open>The two contracts between a store and the callers that retry or race on it.\<close>

section \<open>Calls with a retry key\<close>

text \<open>
  The contract of a store whose calls carry a retry key: a call keeps the store good and only
  extends it, and once a call has succeeded, the same call at any later state changes nothing
  and returns the first outcome, marked as a replay. The lemmas derive what a client that
  retries relies on.
\<close>

locale idempotent_store =
  fixes call :: "'req \<Rightarrow> 'db \<Rightarrow> ('e + 'res) \<times> 'db"
    and good :: "'db \<Rightarrow> bool"
    and later :: "'db \<Rightarrow> 'db \<Rightarrow> bool"
    and legal :: "'req \<Rightarrow> bool"
    and as_replay :: "'res \<Rightarrow> 'res"
  assumes keeps: "legal rq \<Longrightarrow> good db \<Longrightarrow> good (snd (call rq db)) \<and> later db (snd (call rq db))"
    and later_refl: "later db db"
    and later_trans: "later a b \<Longrightarrow> later b c \<Longrightarrow> later a c"
    and replays: "legal rq \<Longrightarrow> good db \<Longrightarrow> call rq db = (Inr r, db1) \<Longrightarrow> later db1 db2 \<Longrightarrow> good db2 \<Longrightarrow>
      call rq db2 = (Inr (as_replay r), db2)"
begin

definition run :: "'req list \<Rightarrow> 'db \<Rightarrow> 'db" where
  "run rqs db = fold (\<lambda>rq d. snd (call rq d)) rqs db"

lemma run_simps [simp]:
  "run [] db = db" "run (rq # rqs) db = run rqs (snd (call rq db))" "run (xs @ ys) db = run ys (run xs db)"
  by (simp_all add: run_def)

lemma run_keeps: "list_all legal rqs \<Longrightarrow> good db \<Longrightarrow> good (run rqs db) \<and> later db (run rqs db)"
proof (induction rqs arbitrary: db)
  case Nil
  then show ?case by (simp add: later_refl)
next
  case (Cons rq rqs)
  then show ?case using keeps [of rq db] later_trans by auto
qed

text \<open>A retry after any history returns the first outcome and changes nothing.\<close>

lemma retry_after_run:
  assumes "legal rq" "good db" "call rq db = (Inr r, db1)" "list_all legal rqs"
  shows "call rq (run rqs db1) = (Inr (as_replay r), run rqs db1)"
proof -
  have "good db1" using keeps [OF assms(1,2)] assms(3) by simp
  from run_keeps [OF assms(4) this] show ?thesis using replays [OF assms(1-3)] by blast
qed

text \<open>Inserting retries of a call that succeeded anywhere in a later history does not matter.\<close>

lemma run_with_retry:
  assumes "legal rq" "good db" "call rq db = (Inr r, db1)" "list_all legal xs"
  shows "run (xs @ rq # ys) db1 = run (xs @ ys) db1"
  using retry_after_run [OF assms] by simp

end

section \<open>Writes guarded by a version\<close>

text \<open>
  The contract of a row written under an optimistic version check: a write that names the
  version it was computed from either finds that version and leaves a greater one, or changes
  nothing; no other step of the store lowers the version. Two writes from one version then never
  both succeed, whatever runs between them.
\<close>

locale optimistic_store =
  fixes current_version :: "'k \<Rightarrow> 'db \<Rightarrow> int"
    and put :: "'k \<Rightarrow> 'rq \<Rightarrow> int \<Rightarrow> 'db \<Rightarrow> ('e + 'a) \<times> 'db"
    and good :: "'db \<Rightarrow> bool"
    and later :: "'db \<Rightarrow> 'db \<Rightarrow> bool"
  assumes success: "good db \<Longrightarrow> put k rq v db = (Inr r, db') \<Longrightarrow>
      current_version k db = v \<and> v < current_version k db'"
    and failure: "put k rq v db = (Inl e, db') \<Longrightarrow> db' = db"
    and monotone: "later db db' \<Longrightarrow> current_version k db \<le> current_version k db'"
begin

lemma stale_write_refused:
  assumes "good db" "current_version k db \<noteq> v"
  shows "\<exists>e. put k rq v db = (Inl e, db)"
proof (cases "put k rq v db")
  case (Pair r db')
  show ?thesis
  proof (cases r)
    case (Inl e)
    with Pair failure [of k rq v db e db'] show ?thesis by auto
  next
    case (Inr b)
    with Pair success [OF assms(1), of k rq v b db'] assms(2) show ?thesis by auto
  qed
qed

lemma one_write_per_version:
  assumes "good db" "put k rq v db = (Inr r, db1)" "later db1 db2" "good db2"
  shows "\<exists>e. put k rq' v db2 = (Inl e, db2)"
proof (rule stale_write_refused [OF assms(4)])
  show "current_version k db2 \<noteq> v"
    using success [OF assms(1,2)] monotone [OF assms(3), of k] by simp
qed

end

end
