(* ===== verification/WalletHistory.thy ===== *)
theory WalletHistory
  imports WalletCorrectness StoreContracts "HOL-Library.Multiset"
begin

text \<open>
  Histories of the wallet: the step relation of the repository and its environment, the states
  it reaches, and the properties that hold in all of them.
\<close>

section \<open>Calls as one interface\<close>

datatype wallet_request =
    Credit CreditRequest | Debit DebitRequest | Renew FreeCycleRenewalRequest

datatype wallet_result =
    Credited CreditResult | Debited DebitResult | Renewed PeriodRenewal

fun wallet_call ::
  "(string \<Rightarrow> uuid option) \<Rightarrow> wallet_request \<Rightarrow> wallet_db \<Rightarrow> (wallet_app_error + wallet_result) \<times> wallet_db" where
  "wallet_call scan (Credit rq) db = apfst (map_sum id Credited) (ApplyCredit scan rq db)"
| "wallet_call scan (Debit rq) db = apfst (map_sum id Debited) (ApplyDebit scan rq db db)"
| "wallet_call scan (Renew rq) db = apfst (map_sum id Renewed) (RenewFreePeriod scan rq db)"

fun replay_result :: "wallet_result \<Rightarrow> wallet_result" where
  "replay_result (Credited r) = Credited (r\<lparr>creditResult_Replayed := True\<rparr>)"
| "replay_result (Debited r) = Debited (r\<lparr>debitResult_Replayed := True\<rparr>)"
| "replay_result (Renewed r) = Renewed (renewal_as_replay r)"

text \<open>A request names its account canonically and carries a well-formed quantity.\<close>

fun legal_request :: "(string \<Rightarrow> uuid option) \<Rightarrow> wallet_request \<Rightarrow> bool" where
  "legal_request scan (Credit rq) = canonical scan (credit_AccountID rq)"
| "legal_request scan (Debit rq) = (canonical scan (debit_AccountID rq) \<and> is_Ink (debit_Amount rq))"
| "legal_request scan (Renew rq) = (canonical scan (renewal_AccountID rq) \<and> is_Ink (renewal_Franchise rq))"

lemma apfst_eq: "apfst f p = (x, d) \<longleftrightarrow> (\<exists>y. p = (y, d) \<and> f y = x)"
  by (cases p) auto

lemma map_sum_eq_Inr: "map_sum id g y = Inr r \<longleftrightarrow> (\<exists>a. y = Inr a \<and> r = g a)"
  by (cases y) auto

lemma wallet_call_keeps:
  assumes "legal_request scan rq" "ledger_ok db"
  shows "ledger_ok (snd (wallet_call scan rq db)) \<and> ledger_extends db (snd (wallet_call scan rq db))"
proof (cases rq)
  case (Credit r)
  obtain res db' where "ApplyCredit scan r db = (res, db')" by (cases "ApplyCredit scan r db")
  with ApplyCredit_keeps [OF this assms(2)] Credit show ?thesis by simp
next
  case (Debit r)
  obtain res db' where "ApplyDebit scan r db db = (res, db')" by (cases "ApplyDebit scan r db db")
  with ApplyDebit_keeps [OF this assms(2)] Debit assms(1) show ?thesis by simp
next
  case (Renew r)
  obtain res db' where "RenewFreePeriod scan r db = (res, db')" by (cases "RenewFreePeriod scan r db")
  with RenewFreePeriod_keeps [OF this assms(2)] Renew assms(1) show ?thesis by simp
qed

lemma wallet_call_replays:
  assumes "legal_request scan rq" "ledger_ok db" "wallet_call scan rq db = (Inr r, db1)"
    and "ledger_extends db1 db2" "ledger_ok db2"
  shows "wallet_call scan rq db2 = (Inr (replay_result r), db2)"
proof (cases rq)
  case (Credit q)
  with assms(3) obtain a where "ApplyCredit scan q db = (Inr a, db1)" "r = Credited a"
    by (auto simp: apfst_eq map_sum_eq_Inr)
  with credit_replay [OF this(1) assms(2,4,5)] Credit assms(1) show ?thesis by simp
next
  case (Debit q)
  with assms(3) obtain a where "ApplyDebit scan q db db = (Inr a, db1)" "r = Debited a"
    by (auto simp: apfst_eq map_sum_eq_Inr)
  with debit_replay [OF this(1) assms(2) _ ledger_extends_refl _ assms(4,5) ledger_extends_refl assms(5)]
    Debit assms(1) show ?thesis by simp
next
  case (Renew q)
  with assms(3) obtain a where "RenewFreePeriod scan q db = (Inr a, db1)" "r = Renewed a"
    by (auto simp: apfst_eq map_sum_eq_Inr)
  with renewal_replay [OF this(1) assms(2) _ _ assms(4,5)] Renew assms(1) show ?thesis by simp
qed

interpretation wallet: idempotent_store "wallet_call scan" ledger_ok ledger_extends "legal_request scan" replay_result
  for scan
  by unfold_locales
    (rule wallet_call_keeps ledger_extends_refl, assumption+ | rule ledger_extends_refl
     | erule (1) ledger_extends_trans | erule (4) wallet_call_replays)+

section \<open>Steps and reachable states\<close>

text \<open>
  The environment creates accounts, moves the clock, may hand out any UUID and may materialise a
  wallet; the other steps are the repository's operations, a debit with any earlier snapshot.
\<close>

inductive wallet_step :: "(string \<Rightarrow> uuid option) \<Rightarrow> wallet_db \<Rightarrow> wallet_db \<Rightarrow> bool" for scan where
  account_created: "wallet_step scan db (db\<lparr>app_accounts := a # app_accounts db\<rparr>)"
| clock: "wallet_step scan db (db\<lparr>db_now := t\<rparr>)"
| uuids: "wallet_step scan db (db\<lparr>uuid_gen := g, uuid_next := n\<rparr>)"
| ensure: "EnsureWalletAccount u db = Inr db' \<Longrightarrow> wallet_step scan db db'"
| create: "CreateWalletAccount u db = Inr (w, db') \<Longrightarrow> wallet_step scan db db'"
| credit: "ApplyCredit scan crq db = (cres, db') \<Longrightarrow> wallet_step scan db db'"
| debit: "ApplyDebit scan drq seen db = (dres, db') \<Longrightarrow> is_Ink (debit_Amount drq) \<Longrightarrow> wallet_step scan db db'"
| renew: "RenewFreePeriod scan rrq db = (rres, db') \<Longrightarrow> is_Ink (renewal_Franchise rrq) \<Longrightarrow> wallet_step scan db db'"

inductive_cases wallet_stepE: "wallet_step scan db db'"

definition wallet_init :: "wallet_db \<Rightarrow> bool" where
  "wallet_init db \<longleftrightarrow> wallets db = (\<lambda>_. None) \<and> operations db = [] \<and> transactions db = []"

inductive wallet_reachable :: "(string \<Rightarrow> uuid option) \<Rightarrow> wallet_db \<Rightarrow> bool" for scan where
  start: "wallet_init db \<Longrightarrow> wallet_reachable scan db"
| step: "wallet_reachable scan db \<Longrightarrow> wallet_step scan db db' \<Longrightarrow> wallet_reachable scan db'"

lemma lines_cong:
  "operations db' = operations db \<Longrightarrow> transactions db' = transactions db \<Longrightarrow> account_lines u db' = account_lines u db"
  by (simp add: account_lines_def joined_def)

lemma ledger_ok_cong:
  assumes "ledger_ok db" "wallets db' = wallets db" "operations db' = operations db"
    "transactions db' = transactions db" "set (app_accounts db) \<subseteq> set (app_accounts db')"
  shows "ledger_ok db'"
  using assms lines_cong [OF assms(3,4)] unfolding ledger_ok_def tables_ok_def balances_lag_def by auto

lemma CreateWalletAccount_Ensure:
  "CreateWalletAccount u db = Inr (w, db') \<Longrightarrow> EnsureWalletAccount u db = Inr db'"
  by (auto simp: CreateWalletAccount_def EnsureWalletAccount_def split: if_splits)

lemma wallet_step_ok: "wallet_step scan db db' \<Longrightarrow> ledger_ok db \<Longrightarrow> ledger_ok db'"
proof (induction rule: wallet_step.induct)
  case (ensure u db db')
  then show ?case using EnsureWalletAccount_ok by blast
next
  case (create u db w db')
  then show ?case using CreateWalletAccount_Ensure EnsureWalletAccount_ok by blast
next
  case (credit crq db cres db')
  then show ?case using ApplyCredit_keeps by blast
next
  case (debit drq seen db dres db')
  then show ?case using ApplyDebit_keeps by blast
next
  case (renew rrq db rres db')
  then show ?case using RenewFreePeriod_keeps by blast
qed (erule ledger_ok_cong; auto)+

lemma wallet_init_ok: "wallet_init db \<Longrightarrow> ledger_ok db"
  by (simp add: wallet_init_def ledger_ok_def tables_ok_def balances_lag_def)

lemma reachable_ledger_ok: "wallet_reachable scan db \<Longrightarrow> ledger_ok db"
  by (induction rule: wallet_reachable.induct) (auto intro: wallet_init_ok wallet_step_ok)

text \<open>Registry and lines only grow, in every step.\<close>

lemma wallet_step_extends:
  assumes "wallet_step scan db db'" "ledger_ok db"
  shows "ledger_extends db db'"
  using assms(1)
proof (rule wallet_stepE)
  fix u assume "EnsureWalletAccount u db = Inr db'"
  with EnsureWalletAccount_ok [OF this assms(2)] show ?thesis
    by (intro extendsI [where rows = "[]" and ts = "[]" and u = u]) auto
next
  fix u w assume "CreateWalletAccount u db = Inr (w, db')"
  then have "EnsureWalletAccount u db = Inr db'" by (rule CreateWalletAccount_Ensure)
  with EnsureWalletAccount_ok [OF this assms(2)] show ?thesis
    by (intro extendsI [where rows = "[]" and ts = "[]" and u = u]) auto
qed (use assms(2) ApplyCredit_keeps ApplyDebit_keeps RenewFreePeriod_keeps in
      \<open>auto simp: ledger_extends_def\<close>)

lemma wallet_steps_extend: "(wallet_step scan)\<^sup>*\<^sup>* db db' \<Longrightarrow> ledger_ok db \<Longrightarrow> ledger_ok db' \<and> ledger_extends db db'"
proof (induction rule: rtranclp_induct)
  case base
  then show ?case by simp
next
  case (step y z)
  then show ?case using wallet_step_ok wallet_step_extends ledger_extends_trans by blast
qed

section \<open>Rows of validated requests read back\<close>

definition valid_texts :: "IdempotencyKey \<Rightarrow> Reference \<Rightarrow> Reason \<Rightarrow> bool" where
  "valid_texts k ref reason \<longleftrightarrow> is_IdempotencyKey k \<and> is_Reference ref \<and> (Reason_IsZero reason \<or> is_Reason reason)"

lemma uuid_text_not_zero [simp]: "\<not> AccountID_IsZero (uuidToString (Some u))"
  by (simp add: AccountID_IsZero_def uuidToString_printable)

lemma inserted_row_maps:
  assumes "row = operation_row arg db" "operation_checks arg" "valid_texts k ref reason"
    and "arg_IdempotencyKey arg = key_String k" "arg_Reference arg = reference_String ref"
    and "arg_Reason arg = operationReason reason"
  shows "\<exists>operation. mapOperationRow row = Inr operation
    \<and> Operation_Key operation = k \<and> Operation_Reference operation = ref \<and> Operation_Type operation = arg_OperationType arg
    \<and> Operation_AccountID operation = uuidToString (Some (arg_AccountID arg)) \<and> Operation_Reason operation = reason"
proof -
  have ty: "ParseOperationType (op_type row) = Inr (op_type row)"
    using assms(1,2) by (simp add: ParseOperationType_def OperationType_IsValid_iff operation_checks_def operation_row_def)
  have k: "ParseIdempotencyKey (op_key row) = Inr k" "ParseReference (op_ref row) = Inr ref"
    using assms by (simp_all add: valid_texts_def is_IdempotencyKey_def is_Reference_def operation_row_def)
  have q: "(case op_reason row of None \<Rightarrow> Inr zero_Reason | Some r \<Rightarrow> wrap_err Domain (ParseReason r)) = Inr reason"
    using assms(1,3,6)
    by (cases reason) (auto simp: operation_row_def operationReason_def valid_texts_def is_Reason_def
        zero_Reason_def Reason_IsZero_def)
  have admin: "IsAdmin (op_type row) \<Longrightarrow> \<not> Reason_IsZero reason \<and> (\<exists>a. op_actor row = Some a)"
    using assms(1,2,6)
    by (auto simp: IsAdmin_def vocab operation_checks_def operation_row_def operationReason_def
        split: if_splits option.splits)
  have nz: "\<not> IdempotencyKey_IsZero k" "\<not> Reference_IsZero ref"
    using assms(3) valid_not_zero by (auto simp: valid_texts_def)
  have "OperationType_IsValid (op_type row)" using ty by (auto simp: ParseOperationType_def split: if_splits)
  then show ?thesis
    using ty k q nz admin assms(1)
    by (auto simp: mapOperationRow_def ReconstituteOperation_def OperationID_IsZero_def operation_row_def)
qed

section \<open>A small ledger\<close>

definition demo_account :: string where "demo_account = uuidToString (Some 1)"

definition demo_scan :: "string \<Rightarrow> uuid option" where
  "demo_scan s = (if s = uuidToString (Some 1) then Some 1 else None)"

definition demo_db :: wallet_db where
  "demo_db = \<lparr>app_accounts = [1], wallets = (\<lambda>_. None), operations = [], transactions = [],
     uuid_gen = (\<lambda>n. word_of_nat (100 + n)), uuid_next = 0, db_now = 0\<rparr>"

definition demo_credit :: CreditRequest where
  "demo_credit = \<lparr>credit_AccountID = demo_account, credit_Bucket = BucketPurchased,
     credit_OperationType = OperationCreditPurchase, credit_IdempotencyKey = IdempotencyKey ''k1'',
     credit_Reference = Reference ''r1'', credit_Reason = zero_Reason, credit_ActorAccountID = [],
     credit_Delta = 50, credit_ChangedAt = 0\<rparr>"

definition demo_row :: AppWalletOperation where
  "demo_row = \<lparr>op_id = 100, op_account = 1, op_type = ''credit_purchase'', op_key = ''k1'', op_ref = ''r1'',
     op_created = 0, op_reason = None, op_actor = None\<rparr>"

definition demo_wallet :: "int \<Rightarrow> int \<Rightarrow> AppWalletAccount" where
  "demo_wallet f p = \<lparr>BalanceFree = f, BalancePurchased = p, wallet_CreatedAt = 0, wallet_UpdatedAt = 0, FreeCycleAnchorAt = 0\<rparr>"

definition demo_db1 :: wallet_db where
  "demo_db1 = demo_db\<lparr>wallets := [1 \<mapsto> demo_wallet 0 50], operations := [demo_row],
     transactions := [\<lparr>tx_id = 101, tx_operation = 100, tx_bucket = ''PURCHASED_INK'', tx_amount = 50, tx_created = 0\<rparr>],
     uuid_next := 2\<rparr>"

lemma demo_texts: "list_all printable ''k1''" "list_all printable ''r1''" "list_all printable ''credit_purchase''"
  "list_all printable ''d1''" "list_all printable ''debit_argument''"
  by (simp_all add: printable_def)

lemma demo_valid: "valid_texts (IdempotencyKey ''k1'') (Reference ''r1'') zero_Reason"
  "valid_texts (IdempotencyKey ''d1'') (Reference ''r1'') zero_Reason"
  using demo_texts
  by (simp_all add: valid_texts_def is_IdempotencyKey_def is_Reference_def ParseIdempotencyKey_def
      ParseReference_def maxReferenceLength_def maxIdempotencyKeyLength_def Reason_IsZero_def zero_Reason_def)

lemma demo_scan_canonical: "canonical demo_scan demo_account" "demo_scan demo_account = Some 1"
  by (simp_all add: canonical_def demo_scan_def demo_account_def)

lemma demo_init: "wallet_init demo_db" "ledger_ok demo_db"
  by (simp_all add: wallet_init_ok wallet_init_def demo_db_def)

lemma demo_credit_call:
  "\<exists>operation. mapOperationRow demo_row = Inr operation \<and> ApplyCredit demo_scan demo_credit demo_db =
     (Inr \<lparr>creditResult_Operation = operation, creditResult_Replayed = False\<rparr>, demo_db1)"
proof -
  define arg where "arg = credit_params demo_scan 1 demo_credit"
  have checks: "operation_checks arg" "operation_texts arg"
    using demo_texts
    by (simp_all add: arg_def operation_checks_def operation_texts_def credit_params_def demo_credit_def
        AllOperationTypes_def operationReason_def zero_Reason_def Reason_IsZero_def vocab printable_pg_text
        printable_not_blank)
  have row: "operation_row arg demo_db = demo_row"
    by (simp add: arg_def operation_row_def credit_params_def demo_credit_def demo_db_def demo_row_def
        operationReason_def zero_Reason_def Reason_IsZero_def operationActor_def AccountID_IsZero_def vocab)
  obtain operation where o: "mapOperationRow demo_row = Inr operation"
    using inserted_row_maps [of demo_row arg demo_db, OF _ checks(1) demo_valid(1)] row
    by (auto simp: arg_def credit_params_def demo_credit_def)
  define db0 where "db0 = demo_db\<lparr>wallets := [1 \<mapsto> demo_wallet 0 0]\<rparr>"
  have e: "EnsureWalletAccount 1 demo_db = Inr db0"
    by (simp add: EnsureWalletAccount_def db0_def demo_db_def new_wallet_def demo_wallet_def)
  define db2 where "db2 = db0\<lparr>operations := [demo_row], uuid_next := 1\<rparr>"
  have "operation_row arg db0 = demo_row" using row operation_row_ensure [OF e] by simp
  then have c: "CreateWalletOperationIfAbsent arg db0 = Inr (demo_row, db2)"
    using checks by (simp add: CreateWalletOperationIfAbsent_def insert_operation_def db2_def)
      (simp add: db0_def demo_db_def demo_row_def)
  have t: "\<exists>t db3. CreateWalletTransaction (op_id demo_row) (credit_Bucket demo_credit) (credit_Delta demo_credit) db2
      = Inr (t, db3) \<and> creditBalance 1 demo_credit db3 = Inr demo_db1"
    by (simp add: CreateWalletTransaction_def demo_credit_def db2_def db0_def demo_db_def demo_row_def vocab
        creditBalance_def CreditPurchasedBalance_def update_balances_def bigint_def int64_defs demo_wallet_def
        demo_db1_def Let_def numeral_2_eq_2)
  show ?thesis
    using o e c [unfolded arg_def] t demo_scan_canonical(2)
    by (auto simp: ApplyCredit_def pgUUIDFromAccountID_def demo_credit_def [THEN arg_cong [where f = credit_AccountID]])
qed

section \<open>Balances as numbers\<close>

definition free_of :: "wallet_db \<Rightarrow> uuid \<Rightarrow> int" where
  "free_of db u = (case wallets db u of None \<Rightarrow> 0 | Some w \<Rightarrow> BalanceFree w)"

definition purchased_of :: "wallet_db \<Rightarrow> uuid \<Rightarrow> int" where
  "purchased_of db u = (case wallets db u of None \<Rightarrow> 0 | Some w \<Rightarrow> BalancePurchased w)"

lemma balances_of_lines:
  assumes "ledger_ok db"
  shows "free_of db u = bucket_sum ''FREE_INK'' (account_lines u db)"
    and "purchased_of db u = bucket_sum ''PURCHASED_INK'' (account_lines u db)"
  using ledger_ok_balance [OF assms] no_lines_without_wallet [OF ledger_okD(1) [OF assms]]
  by (auto simp: free_of_def purchased_of_def split: option.split)

lemma balances_Ink: "ledger_ok db \<Longrightarrow> is_Ink \<lparr>amount = free_of db u\<rparr> \<and> is_Ink \<lparr>amount = purchased_of db u\<rparr>"
  using wallet_Ink(3,4) [of db u]
  by (auto simp: free_of_def purchased_of_def is_Ink_def MaxInt64_def split: option.split)

section \<open>Statement pages\<close>

definition statement_page :: "uuid \<Rightarrow> wallet_db \<Rightarrow> keyset option \<Rightarrow> nat \<Rightarrow> StatementRow list" where
  "statement_page u db after n = (case ListWalletStatementPage u after (int n) db of Inl _ \<Rightarrow> [] | Inr rows \<Rightarrow> rows)"

lemma joined_transactions:
  assumes "tables_ok db"
  shows "map fst (joined db) = transactions db"
proof -
  have "map (Pair t) (filter (\<lambda>q. op_id q = tx_operation t) (operations db)) = [(t, SOME q. q \<in> set (operations db) \<and> op_id q = tx_operation t)]"
    if t: "t \<in> set (transactions db)" for t
  proof -
    have "\<exists>q. q \<in> set (operations db) \<and> op_id q = tx_operation t"
      using assms t by (force simp: tables_ok_def)
    then have s: "(SOME q. q \<in> set (operations db) \<and> op_id q = tx_operation t) \<in> set (operations db)"
      "op_id (SOME q. q \<in> set (operations db) \<and> op_id q = tx_operation t) = tx_operation t"
      by (rule someI2_ex, blast)+
    then show ?thesis
      using filter_unique_key [of op_id "operations db", OF _ s(1)] assms by (simp add: tables_ok_def)
  qed
  then have "map fst (concat (map (\<lambda>t. map (Pair t) (filter (\<lambda>q. op_id q = tx_operation t) (operations db))) ts)) = ts"
    if "set ts \<subseteq> set (transactions db)" for ts
    using that by (induction ts) auto
  then show ?thesis by (simp add: joined_def)
qed

lemma ledgerokD_tx: "ledger_ok db \<Longrightarrow> distinct (map tx_id (transactions db))"
  by (simp add: ledger_ok_def tables_ok_def)

lemma statement_keys_distinct:
  assumes "ledger_ok db"
  shows "distinct (map row_key (map statement_row (account_lines u db)))"
proof -
  have "distinct (map (tx_id \<circ> fst) (joined db))"
    using joined_transactions [OF ledger_okD(1) [OF assms]] ledgerokD_tx [OF assms] by (metis map_map)
  then have "distinct (map (tx_id \<circ> fst) (account_lines u db))"
    unfolding account_lines_def by (rule distinct_map_filter)
  then have "distinct (map keyset_id (map row_key (map statement_row (account_lines u db))))"
    by (simp add: comp_def row_key_def statement_row_def case_prod_beta)
  then show ?thesis using distinct_map by blast
qed

interpretation statement: keyset_pages row_key "\<lambda>db. map statement_row (account_lines u db)" ledger_ok "statement_page u"
  for u
  by unfold_locales (simp_all add: statement_page_def ListWalletStatementPage_def statement_keys_distinct del: map_map)

section \<open>Properties\<close>

text \<open>
  C1. In every state the wallet can reach, by any sequence of credits, debits (with any stale
  first look-up), renewals and environment steps, the ledger is consistent: keys and ids are
  unique, lines belong to registered operations, balances are non-negative 64-bit values; and the
  balance recomputed from the lines, which the balance query returns, equals the projection.
\<close>
theorem ledger_consistent:
  assumes "wallet_reachable scan db"
  shows "ledger_ok db \<and> (\<forall>acct u w. scan acct = Some u \<longrightarrow> wallets db u = Some w \<longrightarrow>
    DerivedBalance scan acct db =
      Inr \<lparr>Free = \<lparr>amount = BalanceFree w\<rparr>, Purchased = \<lparr>amount = BalancePurchased w\<rparr>\<rparr>)"
proof -
  have ok: "ledger_ok db" by (rule reachable_ledger_ok [OF assms])
  moreover have "DerivedBalance scan acct db =
      Inr \<lparr>Free = \<lparr>amount = BalanceFree w\<rparr>, Purchased = \<lparr>amount = BalancePurchased w\<rparr>\<rparr>"
    if "scan acct = Some u" "wallets db u = Some w" for acct u w
    using that ledger_ok_balance [OF ok that(2)] wallet_Ink [OF ok that(2)]
    by (simp add: DerivedBalance_def pgUUIDFromAccountID_def GetDerivedWalletBalance_def bigint_def
        is_Ink_def in_int64_def MinInt64_def)
  ultimately show ?thesis by blast
qed

theorem ledger_consistent_witness:
  "ledger_ok demo_db1 \<and> DerivedBalance demo_scan demo_account demo_db1 =
     Inr \<lparr>Free = \<lparr>amount = 0\<rparr>, Purchased = \<lparr>amount = 50\<rparr>\<rparr>"
proof -
  obtain res where "ApplyCredit demo_scan demo_credit demo_db = (res, demo_db1)"
    using demo_credit_call by blast
  then have "wallet_reachable demo_scan demo_db1"
    by (rule wallet_reachable.step [OF wallet_reachable.start [OF demo_init(1)] wallet_step.credit])
  note C = ledger_consistent [OF this]
  have "wallets demo_db1 1 = Some (demo_wallet 0 50)" by (simp add: demo_db1_def)
  with C demo_scan_canonical(2) show ?thesis by (simp add: demo_wallet_def)
qed

text \<open>
  A validated credit is exact and atomic: it fails and leaves the database as it was, or
  replays and writes nothing, or appends one operation with a key never used before and one line
  with the credited bucket and amount, and moves exactly that bucket of exactly that account.
\<close>
theorem ApplyCredit_exact:
  assumes "ApplyCredit scan rq db = (res, db')" "ledger_ok db"
    and "valid_texts (credit_IdempotencyKey rq) (credit_Reference rq) (credit_Reason rq)"
  shows "case res of
      Inl _ \<Rightarrow> db' = db
    | Inr r \<Rightarrow> if creditResult_Replayed r then db' = db
        else \<exists>u row t. scan (credit_AccountID rq) = Some u
          \<and> op_key row = key_String (credit_IdempotencyKey rq) \<and> op_key row \<notin> op_key ` set (operations db)
          \<and> operations db' = operations db @ [row] \<and> transactions db' = transactions db @ [t]
          \<and> tx_operation t = op_id row \<and> tx_bucket t = credit_Bucket rq \<and> tx_amount t = credit_Delta rq
          \<and> Operation_Key (creditResult_Operation r) = credit_IdempotencyKey rq
          \<and> (\<forall>v. free_of db' v = free_of db v
                + (if v = u \<and> credit_Bucket rq = BucketFree then credit_Delta rq else 0)
              \<and> purchased_of db' v = purchased_of db v
                + (if v = u \<and> credit_Bucket rq = BucketPurchased then credit_Delta rq else 0))"
  using credit_cases [OF assms(1,2)]
proof
  assume "db' = db \<and> (\<forall>r. res = Inr r \<longrightarrow> creditResult_Replayed r)"
  then show ?thesis by (simp split: sum.split)
next
  assume "\<exists>u row t. credit_committed scan rq db u row t db' \<and> ledger_ok db'
       \<and> res = bind_r (mapOperationRow row) (\<lambda>operation.
                 Inr \<lparr>creditResult_Operation = operation, creditResult_Replayed = False\<rparr>)"
  then obtain u row t where c: "credit_committed scan rq db u row t db'" "ledger_ok db'"
    and res: "res = bind_r (mapOperationRow row) (\<lambda>operation.
                 Inr \<lparr>creditResult_Operation = operation, creditResult_Replayed = False\<rparr>)" by blast
  then obtain operation where o: "mapOperationRow row = Inr operation" "Operation_Key operation = credit_IdempotencyKey rq"
    using inserted_row_maps [of row "credit_params scan u rq" db, OF _ _ assms(3)]
    by (auto simp: credit_committed_def credit_params_def)
  have "free_of db' v = free_of db v + (if v = u \<and> credit_Bucket rq = BucketFree then credit_Delta rq else 0)
    \<and> purchased_of db' v = purchased_of db v + (if v = u \<and> credit_Bucket rq = BucketPurchased then credit_Delta rq else 0)"
    for v
    using c(1) balances_of_lines [OF assms(2), of u]
    by (cases "v = u") (auto simp: credit_committed_def free_of_def purchased_of_def bucket_delta_def)
  then show ?thesis
    using c(1) o res by (auto simp: credit_committed_def operation_row_def credit_params_def)
qed

theorem ApplyCredit_exact_witness:
  "purchased_of (snd (ApplyCredit demo_scan demo_credit demo_db)) 1 = purchased_of demo_db 1 + 50"
proof -
  obtain operation where call: "ApplyCredit demo_scan demo_credit demo_db =
     (Inr \<lparr>creditResult_Operation = operation, creditResult_Replayed = False\<rparr>, demo_db1)"
    using demo_credit_call by blast
  have "valid_texts (credit_IdempotencyKey demo_credit) (credit_Reference demo_credit) (credit_Reason demo_credit)"
    using demo_valid by (simp add: demo_credit_def)
  from ApplyCredit_exact [OF call demo_init(2) this] show ?thesis
    using call demo_scan_canonical(2) by (auto simp: demo_credit_def)
qed

text \<open>The plan of a debit on the stored balances, spelled out: the free bucket first, as far as it goes.\<close>

lemma debit_plan:
  assumes "ledger_ok db" "is_Ink (debit_Amount rq)"
    and "AllocateDebit (debit_Amount rq) \<lparr>amount = free_of db u\<rparr> \<lparr>amount = purchased_of db u\<rparr> = Inr plan"
    and "f = min (free_of db u) (amount (debit_Amount rq))" "p = amount (debit_Amount rq) - f"
  shows "0 < amount (debit_Amount rq) \<and> p \<le> purchased_of db u \<and> plan = \<lparr>fromFree = \<lparr>amount = f\<rparr>, fromPurchased = \<lparr>amount = p\<rparr>\<rparr>"
  using AllocateDebit_Inr [OF assms(2) _ _ assms(3)] balances_Ink [OF assms(1), of u] unfolding assms(4,5)
  by (cases plan; cases "fromFree plan"; cases "fromPurchased plan") (simp add: min.commute)

lemma Allocation_Lines_of:
  "map (\<lambda>l. (i, line_Bucket l, - amount (line_Amount l))) (Allocation_Lines \<lparr>fromFree = \<lparr>amount = f\<rparr>, fromPurchased = \<lparr>amount = p\<rparr>\<rparr>)
   = (if f \<noteq> 0 then [(i, BucketFree, - f)] else []) @ (if p \<noteq> 0 then [(i, BucketPurchased, - p)] else [])"
  by (simp add: Allocation_Lines_def Ink_IsZero_def)

text \<open>
  C3. A debit is exact and atomic: it fails and changes nothing, or replays and writes nothing, or takes
  exactly its amount, the free bucket first: \<open>f\<close>, the free balance as far as the amount needs it, and
  \<open>p\<close>, the rest, from the purchased bucket, which holds that much. It answers this split, appends one
  operation under a key never used before and one line of \<open>- f\<close> or \<open>- p\<close> for each bucket it draws on,
  lowers exactly the two balances of this account by them, and touches no other account. The balances are
  those under the wallet lock, whatever earlier state the unlocked look-up saw.
\<close>
theorem ApplyDebit_exact:
  assumes "ApplyDebit scan rq seen db = (res, db')" "ledger_ok db" "is_Ink (debit_Amount rq)"
  shows "case res of
      Inl _ \<Rightarrow> db' = db
    | Inr r \<Rightarrow> if debitResult_Replayed r then db' = db
        else \<exists>u row ts f p. scan (debit_AccountID rq) = Some u
          \<and> 0 < amount (debit_Amount rq)
          \<and> f = min (free_of db u) (amount (debit_Amount rq)) \<and> p = amount (debit_Amount rq) - f \<and> p \<le> purchased_of db u
          \<and> debitResult_Allocation r = \<lparr>fromFree = \<lparr>amount = f\<rparr>, fromPurchased = \<lparr>amount = p\<rparr>\<rparr>
          \<and> AllocateDebit (debit_Amount rq) \<lparr>amount = free_of db u\<rparr> \<lparr>amount = purchased_of db u\<rparr>
              = Inr (debitResult_Allocation r)
          \<and> op_key row = key_String (debit_IdempotencyKey rq) \<and> op_key row \<notin> op_key ` set (operations db)
          \<and> operations db' = operations db @ [row] \<and> transactions db' = transactions db @ ts
          \<and> map (\<lambda>t. (tx_operation t, tx_bucket t, tx_amount t)) ts
              = (if f \<noteq> 0 then [(op_id row, BucketFree, - f)] else [])
                @ (if p \<noteq> 0 then [(op_id row, BucketPurchased, - p)] else [])
          \<and> (\<forall>v. free_of db' v = free_of db v - (if v = u then f else 0)
              \<and> purchased_of db' v = purchased_of db v - (if v = u then p else 0))"
proof (cases "applyDebit scan rq seen db")
  case (Inl e)
  with assms(1) have "res = Inl e" "db' = db" by (simp_all add: ApplyDebit_def)
  then show ?thesis by simp
next
  case (Inr p)
  obtain r d where p: "p = (r, d)" by (cases p)
  with Inr assms(1) have res: "res = Inr r" and body: "applyDebit scan rq seen db = Inr (r, db')"
    by (simp_all add: ApplyDebit_def)
  show ?thesis using applyDebit_cases [OF body assms(2,3)]
  proof
    assume "\<exists>u row plan operation. debit_committed scan rq db u row plan db' \<and> ledger_ok db'
       \<and> mapOperationRow row = Inr operation
       \<and> r = \<lparr>debitResult_Operation = operation, debitResult_Allocation = plan, debitResult_Replayed = False\<rparr>"
    then obtain u row plan operation where c: "debit_committed scan rq db u row plan db'"
      and r: "r = \<lparr>debitResult_Operation = operation, debitResult_Allocation = plan, debitResult_Replayed = False\<rparr>"
      by blast
    have "free_of db' v = free_of db v - (if v = u then amount (fromFree plan) else 0)
        \<and> purchased_of db' v = purchased_of db v - (if v = u then amount (fromPurchased plan) else 0)" for v
      using c by (cases "v = u") (auto simp: debit_committed_def free_of_def purchased_of_def)
    note bal = this
    obtain ts where ts: "transactions db' = transactions db @ ts"
      "map (\<lambda>t. (tx_operation t, tx_bucket t, tx_amount t)) ts
         = map (\<lambda>l. (op_id row, line_Bucket l, - amount (line_Amount l))) (Allocation_Lines plan)"
      using c by (auto simp: debit_committed_def)
    have row: "row = operation_row (debit_params scan u rq) db"
      and rest: "scan (debit_AccountID rq) = Some u" "op_key row \<notin> op_key ` set (operations db)"
      "operations db' = operations db @ [row]"
      using c unfolding debit_committed_def by blast+
    have key: "op_key row = key_String (debit_IdempotencyKey rq)"
      by (simp add: row operation_row_def debit_params_def)
    have alloc: "AllocateDebit (debit_Amount rq) \<lparr>amount = free_of db u\<rparr> \<lparr>amount = purchased_of db u\<rparr> = Inr plan"
      using c unfolding debit_committed_def free_of_def purchased_of_def by auto
    define f where "f = min (free_of db u) (amount (debit_Amount rq))"
    define p where "p = amount (debit_Amount rq) - f"
    note split = debit_plan [OF assms(2,3) alloc f_def p_def]
    have plan: "debitResult_Allocation r = plan" "\<not> debitResult_Replayed r" using r by simp_all
    have lines: "map (\<lambda>t. (tx_operation t, tx_bucket t, tx_amount t)) ts
        = (if f \<noteq> 0 then [(op_id row, BucketFree, - f)] else []) @ (if p \<noteq> 0 then [(op_id row, BucketPurchased, - p)] else [])"
      using ts(2) Allocation_Lines_of split by metis
    have bal: "free_of db' v = free_of db v - (if v = u then f else 0)
        \<and> purchased_of db' v = purchased_of db v - (if v = u then p else 0)" for v
      using bal [of v] split by simp
    show ?thesis unfolding res sum.case plan(1) if_not_P [OF plan(2)]
      by (rule exI [of _ u], rule exI [of _ row], rule exI [of _ ts], rule exI [of _ f], rule exI [of _ p], intro conjI)
        (rule rest ts(1) key alloc lines f_def p_def split [THEN conjunct1] split [THEN conjunct2, THEN conjunct1]
          split [THEN conjunct2, THEN conjunct2] allI bal)+
  qed (use res in simp)
qed

definition demo_debit :: DebitRequest where
  "demo_debit = \<lparr>debit_AccountID = demo_account, debit_OperationType = OperationDebitArgument,
     debit_IdempotencyKey = IdempotencyKey ''d1'', debit_Reference = Reference ''r1'', debit_Reason = zero_Reason,
     debit_ActorAccountID = [], debit_Amount = \<lparr>amount = 20\<rparr>, debit_ChangedAt = 0\<rparr>"

lemma demo_debit_call:
  "\<exists>operation db2. ApplyDebit demo_scan demo_debit demo_db1 demo_db1 =
     (Inr \<lparr>debitResult_Operation = operation,
           debitResult_Allocation = \<lparr>fromFree = zero_Ink, fromPurchased = \<lparr>amount = 20\<rparr>\<rparr>,
           debitResult_Replayed = False\<rparr>, db2)"
proof -
  define arg where "arg = debit_params demo_scan 1 demo_debit"
  have checks: "operation_checks arg" "operation_texts arg"
    using demo_texts
    by (simp_all add: arg_def operation_checks_def operation_texts_def debit_params_def demo_debit_def
        AllOperationTypes_def operationReason_def zero_Reason_def Reason_IsZero_def vocab printable_pg_text
        printable_not_blank)
  define row where "row = operation_row arg demo_db1"
  obtain operation where o: "mapOperationRow row = Inr operation"
    using inserted_row_maps [of row arg demo_db1, OF row_def checks(1) demo_valid(2)]
    by (auto simp: arg_def debit_params_def demo_debit_def)
  have fresh: "replayDebit demo_debit demo_db1 = Inr None"
    by (simp add: replayDebit_fresh demo_debit_def demo_db1_def demo_row_def)
  define db2 where "db2 = demo_db1\<lparr>operations := [demo_row, row], uuid_next := 3\<rparr>"
  have row_id: "op_id row = 102"
    by (simp add: row_def operation_row_def demo_db1_def demo_db_def)
  have c: "CreateWalletOperationIfAbsent arg demo_db1 = Inr (row, db2)"
    using checks row_id unfolding CreateWalletOperationIfAbsent_def insert_operation_def Let_def row_def [symmetric]
    by (simp add: db2_def demo_db1_def demo_row_def arg_def debit_params_def demo_debit_def)
      (simp add: row_def arg_def operation_row_def debit_params_def demo_debit_def operationActor_def AccountID_IsZero_def)
  have alloc: "AllocateDebit (debit_Amount demo_debit) \<lparr>amount = 0\<rparr> \<lparr>amount = 50\<rparr> =
      Inr \<lparr>fromFree = zero_Ink, fromPurchased = \<lparr>amount = 20\<rparr>\<rparr>"
    by (simp add: demo_debit_def AllocateDebit_def Ink_IsZero_def Ink_Add_def Ink_Sub_def zero_Ink_def
        MaxInt64_def wrap64_def)
  have t: "\<exists>db3 w db4. record_lines (op_id row) (Allocation_Lines \<lparr>fromFree = zero_Ink, fromPurchased = \<lparr>amount = 20\<rparr>\<rparr>) db2 = Inr db3
      \<and> update_balances 1 0 (- 20) db3 = Inr (w, db4)"
    by (simp add: row_id Allocation_Lines_def Ink_IsZero_def Direction_Apply_def Direction_IsValid_def vocab
        wrap64_def CreateWalletTransaction_def db2_def demo_db1_def demo_db_def update_balances_def bigint_def
        int64_defs demo_wallet_def Let_def)
  show ?thesis
    using fresh c [unfolded arg_def] alloc t o demo_scan_canonical(2)
    by (auto simp: ApplyDebit_def applyDebit_def debit_locked_def pgUUIDFromAccountID_def ApplyWalletDebit_def
        GetWalletAccountForUpdate_def demo_db1_def demo_wallet_def NewInk_def
        demo_debit_def [THEN arg_cong [where f = debit_AccountID]])
qed

text \<open>The same account with 15 units in the free bucket too: a debit of 40 draws on both buckets.\<close>

definition demo_grant :: CreditRequest where
  "demo_grant = demo_credit\<lparr>credit_Bucket := BucketFree, credit_OperationType := OperationCreditFree,
     credit_IdempotencyKey := IdempotencyKey ''f1'', credit_Delta := 15\<rparr>"

definition demo_large_debit :: DebitRequest where
  "demo_large_debit = demo_debit\<lparr>debit_Amount := \<lparr>amount = 40\<rparr>\<rparr>"

definition demo_grant_row :: AppWalletOperation where
  "demo_grant_row = demo_row\<lparr>op_id := 102, op_type := ''credit_free'', op_key := ''f1''\<rparr>"

definition demo_both :: wallet_db where
  "demo_both = demo_db1\<lparr>wallets := [1 \<mapsto> demo_wallet 15 50], operations := [demo_row, demo_grant_row],
     transactions := transactions demo_db1
       @ [\<lparr>tx_id = 103, tx_operation = 102, tx_bucket = ''FREE_INK'', tx_amount = 15, tx_created = 0\<rparr>],
     uuid_next := 4\<rparr>"

lemma demo_both_ok: "ledger_ok demo_both"
proof -
  define arg where "arg = credit_params demo_scan 1 demo_grant"
  have "list_all printable ''f1''" "list_all printable ''credit_free''" by (simp_all add: printable_def)
  then have checks: "operation_checks arg" "operation_texts arg"
    using demo_texts
    by (simp_all add: arg_def operation_checks_def operation_texts_def credit_params_def demo_grant_def demo_credit_def
        AllOperationTypes_def operationReason_def zero_Reason_def Reason_IsZero_def vocab printable_pg_text
        printable_not_blank)
  have row: "operation_row arg demo_db1 = demo_grant_row"
    by (simp add: arg_def operation_row_def credit_params_def demo_grant_def demo_credit_def demo_db1_def demo_db_def demo_row_def
        demo_grant_row_def operationReason_def zero_Reason_def Reason_IsZero_def operationActor_def AccountID_IsZero_def vocab)
  have key: "arg_IdempotencyKey arg = ''f1''" by (simp add: arg_def credit_params_def demo_grant_def)
  have e: "EnsureWalletAccount 1 demo_db1 = Inr demo_db1"
    by (simp add: EnsureWalletAccount_def demo_db1_def demo_db_def)
  define db2 where "db2 = demo_db1\<lparr>operations := [demo_row, demo_grant_row], uuid_next := 3\<rparr>"
  have c: "CreateWalletOperationIfAbsent arg demo_db1 = Inr (demo_grant_row, db2)"
    using checks row key by (simp add: CreateWalletOperationIfAbsent_def insert_operation_def db2_def)
      (simp add: demo_db1_def demo_db_def demo_row_def demo_grant_row_def)
  have t: "\<exists>t db3. CreateWalletTransaction (op_id demo_grant_row) (credit_Bucket demo_grant) (credit_Delta demo_grant) db2
      = Inr (t, db3) \<and> creditBalance 1 demo_grant db3 = Inr demo_both"
    by (simp add: CreateWalletTransaction_def demo_grant_def demo_credit_def db2_def demo_db1_def demo_db_def demo_row_def vocab
        creditBalance_def CreditFreeBalance_def update_balances_def bigint_def int64_defs demo_wallet_def demo_grant_row_def
        demo_both_def Let_def)
  have acct: "credit_AccountID demo_grant = demo_account" by (simp add: demo_grant_def demo_credit_def)
  have "\<exists>res. ApplyCredit demo_scan demo_grant demo_db1 = (res, demo_both)"
    using e c [unfolded arg_def] t demo_scan_canonical(2)
    by (auto simp: ApplyCredit_def pgUUIDFromAccountID_def acct)
  moreover have "ledger_ok demo_db1" using demo_credit_call ApplyCredit_keeps demo_init(2) by blast
  ultimately show ?thesis using ApplyCredit_keeps by blast
qed

lemma demo_large_debit_call:
  "\<exists>operation db2. ApplyDebit demo_scan demo_large_debit demo_both demo_both =
     (Inr \<lparr>debitResult_Operation = operation,
           debitResult_Allocation = \<lparr>fromFree = \<lparr>amount = 15\<rparr>, fromPurchased = \<lparr>amount = 25\<rparr>\<rparr>,
           debitResult_Replayed = False\<rparr>, db2)"
proof -
  define arg where "arg = debit_params demo_scan 1 demo_large_debit"
  have checks: "operation_checks arg" "operation_texts arg"
    using demo_texts
    by (simp_all add: arg_def operation_checks_def operation_texts_def debit_params_def demo_large_debit_def demo_debit_def
        AllOperationTypes_def operationReason_def zero_Reason_def Reason_IsZero_def vocab printable_pg_text
        printable_not_blank)
  define row where "row = operation_row arg demo_both"
  obtain operation where o: "mapOperationRow row = Inr operation"
    using inserted_row_maps [of row arg demo_both, OF row_def checks(1) demo_valid(2)]
    by (auto simp: arg_def debit_params_def demo_large_debit_def demo_debit_def)
  have fresh: "replayDebit demo_large_debit demo_both = Inr None"
    by (simp add: replayDebit_fresh demo_large_debit_def demo_debit_def demo_both_def demo_row_def demo_grant_row_def)
  define db2 where "db2 = demo_both\<lparr>operations := [demo_row, demo_grant_row, row], uuid_next := 5\<rparr>"
  have row_id: "op_id row = 104"
    by (simp add: row_def operation_row_def demo_both_def demo_db1_def demo_db_def)
  have c: "CreateWalletOperationIfAbsent arg demo_both = Inr (row, db2)"
    using checks row_id unfolding CreateWalletOperationIfAbsent_def insert_operation_def Let_def row_def [symmetric]
    by (simp add: db2_def demo_both_def demo_row_def demo_grant_row_def arg_def debit_params_def demo_large_debit_def demo_debit_def)
      (simp add: row_def arg_def operation_row_def debit_params_def demo_large_debit_def demo_debit_def operationActor_def
        AccountID_IsZero_def)
  have alloc: "AllocateDebit (debit_Amount demo_large_debit) \<lparr>amount = 15\<rparr> \<lparr>amount = 50\<rparr> =
      Inr \<lparr>fromFree = \<lparr>amount = 15\<rparr>, fromPurchased = \<lparr>amount = 25\<rparr>\<rparr>"
    by (simp add: demo_large_debit_def AllocateDebit_def Ink_IsZero_def Ink_Add_def Ink_Sub_def zero_Ink_def
        MaxInt64_def wrap64_def)
  have t: "\<exists>db3 w db4. record_lines (op_id row) (Allocation_Lines \<lparr>fromFree = \<lparr>amount = 15\<rparr>, fromPurchased = \<lparr>amount = 25\<rparr>\<rparr>) db2 = Inr db3
      \<and> update_balances 1 (- 15) (- 25) db3 = Inr (w, db4)"
    by (simp add: row_id Allocation_Lines_def Ink_IsZero_def Direction_Apply_def Direction_IsValid_def vocab
        wrap64_def CreateWalletTransaction_def db2_def demo_both_def demo_db1_def demo_db_def update_balances_def bigint_def
        int64_defs demo_wallet_def Let_def)
  have acct: "debit_AccountID demo_large_debit = demo_account" by (simp add: demo_large_debit_def demo_debit_def)
  show ?thesis
    using fresh c [unfolded arg_def] alloc t o demo_scan_canonical(2)
    by (auto simp: ApplyDebit_def applyDebit_def debit_locked_def pgUUIDFromAccountID_def ApplyWalletDebit_def
        GetWalletAccountForUpdate_def demo_both_def demo_wallet_def NewInk_def acct)
qed

theorem ApplyDebit_exact_witness:
  "free_of demo_both 1 = 15 \<and> purchased_of demo_both 1 = 50
   \<and> free_of (snd (ApplyDebit demo_scan demo_large_debit demo_both demo_both)) 1 = 0
   \<and> purchased_of (snd (ApplyDebit demo_scan demo_large_debit demo_both demo_both)) 1 = 25
   \<and> map (\<lambda>t. (tx_bucket t, tx_amount t)) (drop 2 (transactions (snd (ApplyDebit demo_scan demo_large_debit demo_both demo_both))))
       = [(BucketFree, - 15), (BucketPurchased, - 25)]"
proof -
  obtain operation db2 where call: "ApplyDebit demo_scan demo_large_debit demo_both demo_both =
     (Inr \<lparr>debitResult_Operation = operation,
           debitResult_Allocation = \<lparr>fromFree = \<lparr>amount = 15\<rparr>, fromPurchased = \<lparr>amount = 25\<rparr>\<rparr>,
           debitResult_Replayed = False\<rparr>, db2)" using demo_large_debit_call by blast
  have rq: "amount (debit_Amount demo_large_debit) = 40" "debit_AccountID demo_large_debit = demo_account"
    by (simp_all add: demo_large_debit_def demo_debit_def)
  have ink: "is_Ink (debit_Amount demo_large_debit)" using rq(1) by (simp add: is_Ink_def MaxInt64_def)
  have both: "free_of demo_both 1 = 15" "purchased_of demo_both 1 = 50" "length (transactions demo_both) = 2"
    by (simp_all add: free_of_def purchased_of_def demo_both_def demo_db1_def demo_wallet_def)
  obtain i ts where ts: "transactions db2 = transactions demo_both @ ts" "free_of db2 1 = 0" "purchased_of db2 1 = 25"
    "map (\<lambda>t. (tx_operation t, tx_bucket t, tx_amount t)) ts = [(i, BucketFree, - 15), (i, BucketPurchased, - 25)]"
    using ApplyDebit_exact [OF call demo_both_ok ink] demo_scan_canonical(2) by (auto simp: rq both)
  then have "map (\<lambda>t. (tx_bucket t, tx_amount t)) ts = map snd [(i, BucketFree, - 15), (i, BucketPurchased, - 25)]"
    by (metis (no_types, lifting) ts(4) list.map_comp comp_def map_eq_conv snd_conv)
  then show ?thesis using ts both by (simp add: call)
qed

text \<open>
  No debit beyond the balance: a fresh debit of more than both buckets hold together is refused
  with \<open>ErrInsufficientInk\<close> and leaves the database unchanged, with or without a wallet.
\<close>
theorem ApplyDebit_insufficient:
  assumes "ledger_ok db" "is_Ink (debit_Amount rq)" "scan (debit_AccountID rq) = Some u"
    and "key_String (debit_IdempotencyKey rq) \<notin> op_key ` set (operations db)"
    and "key_String (debit_IdempotencyKey rq) \<notin> op_key ` set (operations seen)"
    and "free_of db u + purchased_of db u < amount (debit_Amount rq)"
  shows "ApplyDebit scan rq seen db = (Inl (Domain ErrInsufficientInk), db)"
proof -
  have fresh: "replayDebit rq seen = Inr None" "replayDebit rq db = Inr None"
    using assms(4,5) replayDebit_fresh by blast+
  show ?thesis
  proof (cases "wallets db u")
    case None
    with fresh assms(3) show ?thesis
      by (simp add: ApplyDebit_def applyDebit_def pgUUIDFromAccountID_def GetWalletAccountForUpdate_def)
  next
    case (Some w)
    then have less: "BalanceFree w + BalancePurchased w < amount (debit_Amount rq)"
      using assms(6) by (simp add: free_of_def purchased_of_def)
    note ink = wallet_Ink [OF assms(1) Some]
    have "AllocateDebit (debit_Amount rq) \<lparr>amount = BalanceFree w\<rparr> \<lparr>amount = BalancePurchased w\<rparr>
        = Inl ErrInsufficientInk"
      unfolding AllocateDebit_cases [OF assms(2) ink(3,4)]
      using less assms(2) ink(3,4) by (auto simp: is_Ink_def)
    then show ?thesis
      using fresh assms(3) Some ink
      by (simp add: ApplyDebit_def applyDebit_def pgUUIDFromAccountID_def GetWalletAccountForUpdate_def debit_locked_def)
  qed
qed

theorem ApplyDebit_insufficient_witness:
  "ApplyDebit demo_scan demo_debit demo_db demo_db = (Inl (Domain ErrInsufficientInk), demo_db)"
  by (rule ApplyDebit_insufficient [where u = 1])
     (simp_all add: demo_init demo_debit_def is_Ink_def MaxInt64_def demo_scan_canonical demo_db_def
        free_of_def purchased_of_def wallet_init_ok wallet_init_def)

definition run_calls :: "(string \<Rightarrow> uuid option) \<Rightarrow> wallet_request list \<Rightarrow> wallet_db \<Rightarrow> wallet_db" where
  "run_calls scan rqs db = fold (\<lambda>rq d. snd (wallet_call scan rq d)) rqs db"

text \<open>
  A retry is harmless: once a credit, debit or renewal has succeeded, the same call after any
  further history of calls returns the same operation and the same plan, marked as a replay, and
  changes nothing.
\<close>
theorem wallet_retry:
  assumes "wallet_reachable scan db" "legal_request scan rq" "wallet_call scan rq db = (Inr r, db1)"
    and "list_all (legal_request scan) later_calls"
  shows "wallet_call scan rq (run_calls scan later_calls db1) = (Inr (replay_result r), run_calls scan later_calls db1)"
  using wallet.retry_after_run [OF assms(2) reachable_ledger_ok [OF assms(1)] assms(3,4)]
  by (simp add: run_calls_def wallet.run_def)

theorem wallet_retry_witness:
  "\<exists>r. wallet_call demo_scan (Credit demo_credit) demo_db = (Inr (Credited r), demo_db1)
     \<and> wallet_call demo_scan (Credit demo_credit) demo_db1 = (Inr (Credited (r\<lparr>creditResult_Replayed := True\<rparr>)), demo_db1)"
proof -
  obtain r where call: "wallet_call demo_scan (Credit demo_credit) demo_db = (Inr (Credited r), demo_db1)"
    using demo_credit_call by auto
  have "legal_request demo_scan (Credit demo_credit)"
    using demo_scan_canonical by (simp add: demo_credit_def)
  from wallet_retry [OF wallet_reachable.start [OF demo_init(1)] this call, of "[]"] call
  show ?thesis by (auto simp: run_calls_def)
qed

text \<open>
  C2. A debit is never applied twice, under any interleaving: after a debit succeeded, whatever
  steps follow and whatever earlier committed state the retry's unlocked look-up sees, the retry
  returns the same operation and the plan read back from the ledger lines, and writes nothing.
\<close>
theorem debit_never_twice:
  assumes "wallet_reachable scan seen" "(wallet_step scan)\<^sup>*\<^sup>* seen db"
    and "is_Ink (debit_Amount rq)" "canonical scan (debit_AccountID rq)"
    and "ApplyDebit scan rq seen db = (Inr r, db1)" "(wallet_step scan)\<^sup>*\<^sup>* db1 db2"
    and "wallet_reachable scan seen2" "(wallet_step scan)\<^sup>*\<^sup>* seen2 db2"
  shows "ApplyDebit scan rq seen2 db2 = (Inr (r\<lparr>debitResult_Replayed := True\<rparr>), db2)"
proof -
  have seen: "ledger_ok seen" "ledger_ok seen2" using assms(1,7) reachable_ledger_ok by blast+
  have db: "ledger_ok db \<and> ledger_extends seen db" using wallet_steps_extend [OF assms(2) seen(1)] .
  then have "ledger_ok db1" using ApplyDebit_keeps [OF assms(5) _ assms(3)] by blast
  then have "ledger_ok db2 \<and> ledger_extends db1 db2" using wallet_steps_extend [OF assms(6)] by blast
  moreover have "ledger_extends seen2 db2" using wallet_steps_extend [OF assms(8) seen(2)] by blast
  ultimately show ?thesis using debit_replay [OF assms(5) _ assms(3)] db assms(4) seen(2) by blast
qed

theorem debit_never_twice_witness:
  "\<exists>r db2. ApplyDebit demo_scan demo_debit demo_db1 demo_db1 = (Inr r, db2)
     \<and> ApplyDebit demo_scan demo_debit demo_db1 db2 = (Inr (r\<lparr>debitResult_Replayed := True\<rparr>), db2)"
proof -
  obtain r db2 where call: "ApplyDebit demo_scan demo_debit demo_db1 demo_db1 = (Inr r, db2)"
    using demo_debit_call by blast
  obtain res where "ApplyCredit demo_scan demo_credit demo_db = (res, demo_db1)"
    using demo_credit_call by blast
  then have reach: "wallet_reachable demo_scan demo_db1"
    by (rule wallet_reachable.step [OF wallet_reachable.start [OF demo_init(1)] wallet_step.credit])
  have ink: "is_Ink (debit_Amount demo_debit)" by (simp add: demo_debit_def is_Ink_def MaxInt64_def)
  have canon: "canonical demo_scan (debit_AccountID demo_debit)"
    using demo_scan_canonical by (simp add: demo_debit_def)
  have "(wallet_step demo_scan)\<^sup>*\<^sup>* demo_db1 db2"
    using wallet_step.debit [OF call ink] by blast
  from debit_never_twice [OF reach rtranclp.rtrancl_refl ink canon call rtranclp.rtrancl_refl reach this] call
  show ?thesis by blast
qed

text \<open>
  A renewal is exact: it fails and changes nothing, or it replays because the period's grant is
  registered and writes nothing, or it expires what was left of the franchise with one explicit
  line, grants the new franchise with another, and the free balance is then exactly the
  franchise, the purchased balance and every other account being untouched.
\<close>
theorem RenewFreePeriod_exact:
  assumes "RenewFreePeriod scan rq db = (res, db')" "ledger_ok db" "is_Ink (renewal_Franchise rq)"
  shows "case res of
      Inl _ \<Rightarrow> db' = db
    | Inr r \<Rightarrow> if renewed_Replayed r then db' = db \<and> key_String (renewal_GrantKey rq) \<in> op_key ` set (operations db)
        else \<exists>u rows. scan (renewal_AccountID rq) = Some u
          \<and> key_String (renewal_GrantKey rq) \<notin> op_key ` set (operations db)
          \<and> operations db' = operations db @ rows \<and> op_key (last rows) = key_String (renewal_GrantKey rq)
          \<and> map tx_amount (drop (length (transactions db)) (transactions db'))
              = (if free_of db u = 0 then [] else [- free_of db u]) @ [amount (renewal_Franchise rq)]
          \<and> renewed_Expired r = \<lparr>amount = free_of db u\<rparr>
          \<and> free_of db' u = amount (renewal_Franchise rq) \<and> purchased_of db' u = purchased_of db u
          \<and> (\<forall>v. v \<noteq> u \<longrightarrow> wallets db' v = wallets db v)"
proof (cases "renew_body scan rq db")
  case (Inl e)
  with assms(1) have "res = Inl e" "db' = db" by (simp_all add: RenewFreePeriod_def)
  then show ?thesis by simp
next
  case (Inr p)
  obtain r d where p: "p = (r, d)" by (cases p)
  with Inr assms(1) have res: "res = Inr r" and body: "renew_body scan rq db = Inr (r, db')"
    by (simp_all add: RenewFreePeriod_def)
  show ?thesis using renew_cases [OF body assms(2,3)]
  proof
    assume "db' = db \<and> renewed_Replayed r \<and>
      (\<exists>grant. GetWalletOperationByIdempotencyKey (key_String (renewal_GrantKey rq)) db = Inr grant)"
    then show ?thesis unfolding res by (force dest: lookup_found)
  next
    assume "\<exists>u rows grant ts. renewal_committed scan rq db u rows grant ts db' \<and> ledger_ok db'
       \<and> (\<exists>w. wallets db u = Some w \<and>
            r = \<lparr>renewed_PeriodStart = renewal_PeriodStart rq, renewed_Expired = \<lparr>amount = BalanceFree w\<rparr>,
             renewed_Granted = renewal_Franchise rq, renewed_Replayed = False\<rparr>)"
    then obtain u rows grant ts w where c: "renewal_committed scan rq db u rows grant ts db'"
      "wallets db u = Some w"
      "r = \<lparr>renewed_PeriodStart = renewal_PeriodStart rq, renewed_Expired = \<lparr>amount = BalanceFree w\<rparr>,
             renewed_Granted = renewal_Franchise rq, renewed_Replayed = False\<rparr>" by blast
    then show ?thesis unfolding res renewal_committed_def
      by (auto simp: free_of_def purchased_of_def intro!: exI [of _ u] exI [of _ "rows @ [grant]"])
  qed
qed

definition demo_renewal :: FreeCycleRenewalRequest where
  "demo_renewal = \<lparr>renewal_AccountID = demo_account, renewal_PeriodStart = 0,
     renewal_ExpireKey = IdempotencyKey ''e1'', renewal_GrantKey = IdempotencyKey ''d1'',
     renewal_Reference = Reference ''r1'', renewal_Franchise = \<lparr>amount = 5000\<rparr>, renewal_ChangedAt = 0\<rparr>"

text \<open>Any renewal of the small ledger's account with an unused grant key succeeds.\<close>

lemma demo_renewal_general:
  assumes "renewal_AccountID rq = demo_account" "renewal_GrantKey rq = k" "is_IdempotencyKey k" "key_String k \<noteq> ''k1''"
    and "is_Reference (renewal_Reference rq)" "renewal_Franchise rq = \<lparr>amount = 5000\<rparr>"
  shows "\<exists>db2. RenewFreePeriod demo_scan rq demo_db1 =
     (Inr \<lparr>renewed_PeriodStart = renewal_PeriodStart rq, renewed_Expired = zero_Ink,
           renewed_Granted = \<lparr>amount = 5000\<rparr>, renewed_Replayed = False\<rparr>, db2)"
proof -
  define arg where "arg = cycle_params 1 OperationCreditFree k (renewal_Reference rq)"
  have texts: "key_String k \<noteq> []" "list_all printable (key_String k)"
    "reference_String (renewal_Reference rq) \<noteq> []" "list_all printable (reference_String (renewal_Reference rq))"
    using idem_key.parsed_shape reference.parsed_shape assms(3,5)
    unfolding is_IdempotencyKey_def is_Reference_def by blast+
  have "list_all printable OperationCreditFree" by (simp add: vocab printable_def)
  then have checks: "operation_checks arg" "operation_texts arg"
    using texts
    by (simp_all add: arg_def operation_checks_def operation_texts_def cycle_params_def
        AllOperationTypes_def printable_pg_text printable_not_blank) (simp_all add: vocab)
  define row where "row = operation_row arg demo_db1"
  define db2 where "db2 = demo_db1\<lparr>operations := [demo_row, row], uuid_next := 3\<rparr>"
  have row_id: "op_id row = 102" by (simp add: row_def operation_row_def demo_db1_def demo_db_def)
  have c: "CreateWalletOperationIfAbsent arg demo_db1 = Inr (row, db2)"
    using checks row_id assms(4) unfolding CreateWalletOperationIfAbsent_def insert_operation_def Let_def row_def [symmetric]
    by (simp add: db2_def demo_db1_def demo_row_def arg_def cycle_params_def)
      (simp add: row_def arg_def operation_row_def cycle_params_def)
  have t: "\<exists>t db3 w db4. CreateWalletTransaction (op_id row) BucketFree 5000 db2 = Inr (t, db3)
      \<and> update_balances 1 (wrap64 5000) 0 db3 = Inr (w, db4)"
    by (simp add: row_id vocab wrap64_def CreateWalletTransaction_def db2_def demo_db1_def demo_db_def
        update_balances_def bigint_def int64_defs demo_wallet_def Let_def)
  have l: "GetWalletOperationByIdempotencyKey (key_String k) demo_db1 = Inl NoRows"
    using assms(4) by (simp add: lookup_fresh demo_db1_def demo_row_def)
  show ?thesis
    using c [unfolded arg_def] t l demo_scan_canonical(2) assms
    by (auto simp: RenewFreePeriod_def renew_body_def pgUUIDFromAccountID_def ApplyFreeBalanceDelta_def
        GetWalletAccountForUpdate_def demo_wallet_def NewInk_def expire_remaining_def Ink_IsZero_def zero_Ink_def
        demo_db1_def [THEN arg_cong [where f = wallets]])
qed

lemma demo_renewal_call:
  "\<exists>db2. RenewFreePeriod demo_scan demo_renewal demo_db1 =
     (Inr \<lparr>renewed_PeriodStart = 0, renewed_Expired = zero_Ink, renewed_Granted = \<lparr>amount = 5000\<rparr>,
           renewed_Replayed = False\<rparr>, db2)"
  using demo_renewal_general [of demo_renewal "IdempotencyKey ''d1''"] demo_valid(2)
  by (simp add: demo_renewal_def valid_texts_def)

theorem RenewFreePeriod_exact_witness:
  "free_of (snd (RenewFreePeriod demo_scan demo_renewal demo_db1)) 1 = 5000
   \<and> purchased_of (snd (RenewFreePeriod demo_scan demo_renewal demo_db1)) 1 = 50"
proof -
  obtain db2 where call: "RenewFreePeriod demo_scan demo_renewal demo_db1 =
     (Inr \<lparr>renewed_PeriodStart = 0, renewed_Expired = zero_Ink, renewed_Granted = \<lparr>amount = 5000\<rparr>,
           renewed_Replayed = False\<rparr>, db2)" using demo_renewal_call by blast
  have ok: "ledger_ok demo_db1" using demo_credit_call ApplyCredit_keeps demo_init(2) by blast
  have "is_Ink (renewal_Franchise demo_renewal)" by (simp add: demo_renewal_def is_Ink_def MaxInt64_def)
  from RenewFreePeriod_exact [OF call ok this] show ?thesis
    using call demo_scan_canonical(2)
    by (auto simp: demo_renewal_def purchased_of_def demo_db1_def demo_wallet_def)
qed

text \<open>
  The statement is complete and free of duplicates: a client that reads pages of any size
  and continues after the last row it was shown sees exactly the account's lines, each once,
  newest first, as the unpaginated listing returns them.
\<close>
theorem statement_walk_complete:
  assumes "wallet_reachable scan db" "0 < n" "length (account_lines u db) < fuel"
  shows "keyset_pages.walk row_key (statement_page u) fuel db n None = ListWalletTransactionsByAccount u db
    \<and> sorted_wrt (\<lambda>x y. row_key y < row_key x) (ListWalletTransactionsByAccount u db)
    \<and> mset (ListWalletTransactionsByAccount u db) = mset (map statement_row (account_lines u db))"
proof -
  have ok: "ledger_ok db" by (rule reachable_ledger_ok [OF assms(1)])
  have list: "ListWalletTransactionsByAccount u db = statement.newest_first u db"
    by (simp add: ListWalletTransactionsByAccount_def statement.newest_first_def)
  show ?thesis
    using statement.walk_complete [OF ok assms(2), of u fuel] statement.newest_first_strict [OF ok, of u] assms(3)
    unfolding list by (simp add: statement.newest_first_def)
qed

theorem statement_walk_complete_witness:
  "keyset_pages.walk row_key (statement_page 1) 2 demo_db1 1 None = ListWalletTransactionsByAccount 1 demo_db1
   \<and> length (account_lines 1 demo_db1) = 1"
proof -
  obtain res where "ApplyCredit demo_scan demo_credit demo_db = (res, demo_db1)"
    using demo_credit_call by blast
  then have reach: "wallet_reachable demo_scan demo_db1"
    by (rule wallet_reachable.step [OF wallet_reachable.start [OF demo_init(1)] wallet_step.credit])
  have one: "length (account_lines 1 demo_db1) = 1"
    by (simp add: account_lines_def joined_def demo_db1_def demo_row_def)
  from statement_walk_complete [OF reach, of 1 1 2] one show ?thesis by simp
qed

end
