(* ===== verification/WalletUseCases.thy ===== *)
theory WalletUseCases
  imports WalletHistory GoTime
begin

text \<open>
  \<open>internal/wallet/application\<close>: the use cases over the repository. The clock is an argument; the
  authorizer and the audit recorder, ports of other modules, are parameters: \<open>authorize\<close> returns
  the error that refuses an actor, \<open>record\<close> the audit store after an event or its error.
\<close>

section \<open>Crediting and debiting\<close>

record CreditInkCommand =
  creditCmd_AccountID :: string
  creditCmd_Bucket :: string
  creditCmd_OperationType :: string
  creditCmd_Amount :: int
  creditCmd_Reference :: string
  creditCmd_IdempotencyKey :: string

text \<open>The validation of a credit command, up to the request handed to the repository.\<close>

definition credit_request :: "time \<Rightarrow> CreditInkCommand \<Rightarrow> wallet_error + CreditRequest" where
  "credit_request now cmd =
     (if AccountID_IsZero (creditCmd_AccountID cmd) then Inl ErrEmptyAccountID
      else bind_r (ParseBucket (creditCmd_Bucket cmd)) (\<lambda>bucket.
      bind_r (ParseOperationType (creditCmd_OperationType cmd)) (\<lambda>operationType.
      if \<not> IsCredit operationType then Inl ErrNotACredit
      else if IsAdmin operationType then Inl ErrAdminOpsRestricted
      else bind_r (NewInk (creditCmd_Amount cmd)) (\<lambda>a.
      bind_r (ParseReference (creditCmd_Reference cmd)) (\<lambda>ref.
      bind_r (ParseIdempotencyKey (creditCmd_IdempotencyKey cmd)) (\<lambda>idempotencyKey.
      bind_r (OperationType_Direction operationType) (\<lambda>direction.
      bind_r (Direction_Apply direction a) (\<lambda>delta.
        Inr \<lparr>credit_AccountID = creditCmd_AccountID cmd, credit_Bucket = bucket,
             credit_OperationType = operationType, credit_IdempotencyKey = idempotencyKey,
             credit_Reference = ref, credit_Reason = zero_Reason, credit_ActorAccountID = [],
             credit_Delta = delta, credit_ChangedAt = now\<rparr>))))))))"

definition CreditInk_Execute ::
  "(string \<Rightarrow> uuid option) \<Rightarrow> time \<Rightarrow> CreditInkCommand \<Rightarrow> wallet_db \<Rightarrow> (wallet_app_error + CreditResult) \<times> wallet_db" where
  "CreditInk_Execute scan now cmd db =
     (case credit_request now cmd of
        Inl e \<Rightarrow> (Inl (Domain e), db)
      | Inr request \<Rightarrow> ApplyCredit scan request db)"

record DebitInkCommand =
  debitCmd_AccountID :: string
  debitCmd_OperationType :: string
  debitCmd_Amount :: int
  debitCmd_Reference :: string
  debitCmd_IdempotencyKey :: string

definition debit_request :: "time \<Rightarrow> DebitInkCommand \<Rightarrow> wallet_error + DebitRequest" where
  "debit_request now cmd =
     (if AccountID_IsZero (debitCmd_AccountID cmd) then Inl ErrEmptyAccountID
      else bind_r (ParseOperationType (debitCmd_OperationType cmd)) (\<lambda>operationType.
      if \<not> IsDebit operationType then Inl ErrNotADebit
      else if IsAdmin operationType then Inl ErrAdminOpsRestricted
      else bind_r (NewInk (debitCmd_Amount cmd)) (\<lambda>a.
      if Ink_IsZero a then Inl ErrZeroAmount
      else bind_r (ParseReference (debitCmd_Reference cmd)) (\<lambda>ref.
      bind_r (ParseIdempotencyKey (debitCmd_IdempotencyKey cmd)) (\<lambda>idempotencyKey.
        Inr \<lparr>debit_AccountID = debitCmd_AccountID cmd, debit_OperationType = operationType,
             debit_IdempotencyKey = idempotencyKey, debit_Reference = ref, debit_Reason = zero_Reason,
             debit_ActorAccountID = [], debit_Amount = a, debit_ChangedAt = now\<rparr>)))))"

definition DebitInk_Execute ::
  "(string \<Rightarrow> uuid option) \<Rightarrow> time \<Rightarrow> DebitInkCommand \<Rightarrow> wallet_db \<Rightarrow> wallet_db \<Rightarrow> (wallet_app_error + DebitResult) \<times> wallet_db" where
  "DebitInk_Execute scan now cmd seen db =
     (case debit_request now cmd of
        Inl e \<Rightarrow> (Inl (Domain e), db)
      | Inr request \<Rightarrow> ApplyDebit scan request seen db)"

section \<open>Administrative adjustments\<close>

record AdjustInkCommand =
  adjustCmd_ActorAccountID :: string
  adjustCmd_AccountID :: string
  adjustCmd_Bucket :: string
  adjustCmd_OperationType :: string
  adjustCmd_Amount :: int
  adjustCmd_Reference :: string
  adjustCmd_Reason :: string
  adjustCmd_IdempotencyKey :: string

record AdminAdjustmentEvent =
  event_ActorAccountID :: AccountID
  event_AccountID :: AccountID
  event_OperationID :: string
  event_OperationType :: OperationType
  event_Allocation :: Allocation
  event_Reason :: Reason
  event_Reference :: Reference
  event_IdempotencyKey :: IdempotencyKey
  event_Replayed :: bool
  event_OccurredAt :: time

record AdminAdjustmentResult =
  adjustment_Operation :: Operation
  adjustment_Allocation :: Allocation
  adjustment_Replayed :: bool

record validated_adjustment =
  adj_operationType :: OperationType
  adj_reason :: Reason
  adj_reference :: Reference
  adj_idempotencyKey :: IdempotencyKey
  adj_amount :: Ink
  adj_bucket :: Bucket

definition adjust_validate :: "AdjustInkCommand \<Rightarrow> wallet_error + validated_adjustment" where
  "adjust_validate cmd =
     (if AccountID_IsZero (adjustCmd_ActorAccountID cmd) then Inl ErrActorRequired
      else if AccountID_IsZero (adjustCmd_AccountID cmd) then Inl ErrEmptyAccountID
      else bind_r (ParseOperationType (adjustCmd_OperationType cmd)) (\<lambda>operationType.
      if \<not> IsAdmin operationType then Inl ErrNotAdminAdjustment
      else bind_r (ParseReason (adjustCmd_Reason cmd)) (\<lambda>reason.
      bind_r (ParseReference (adjustCmd_Reference cmd)) (\<lambda>ref.
      bind_r (ParseIdempotencyKey (adjustCmd_IdempotencyKey cmd)) (\<lambda>idempotencyKey.
      bind_r (NewInk (adjustCmd_Amount cmd)) (\<lambda>a.
      if Ink_IsZero a then Inl ErrZeroAmount
      else bind_r (if IsCredit operationType then ParseBucket (adjustCmd_Bucket cmd) else Inr []) (\<lambda>bucket.
        Inr \<lparr>adj_operationType = operationType, adj_reason = reason, adj_reference = ref,
             adj_idempotencyKey = idempotencyKey, adj_amount = a, adj_bucket = bucket\<rparr>))))))) "

definition adjust_apply ::
  "(string \<Rightarrow> uuid option) \<Rightarrow> AccountID \<Rightarrow> AccountID \<Rightarrow> validated_adjustment \<Rightarrow> time \<Rightarrow> wallet_db \<Rightarrow> wallet_db
     \<Rightarrow> (wallet_app_error + AdminAdjustmentResult) \<times> wallet_db" where
  "adjust_apply scan accountID actor v now seen db =
     (if IsCredit (adj_operationType v) then
        (let (res, db') = ApplyCredit scan
               \<lparr>credit_AccountID = accountID, credit_Bucket = adj_bucket v,
                credit_OperationType = adj_operationType v, credit_IdempotencyKey = adj_idempotencyKey v,
                credit_Reference = adj_reference v, credit_Reason = adj_reason v,
                credit_ActorAccountID = actor, credit_Delta = amount (adj_amount v), credit_ChangedAt = now\<rparr> db
         in (bind_r res (\<lambda>result. Inr \<lparr>adjustment_Operation = creditResult_Operation result,
               adjustment_Allocation =
                 (if adj_bucket v = BucketPurchased then NewAllocation zero_Ink (adj_amount v)
                  else NewAllocation (adj_amount v) zero_Ink),
               adjustment_Replayed = creditResult_Replayed result\<rparr>), db'))
      else
        (let (res, db') = ApplyDebit scan
               \<lparr>debit_AccountID = accountID, debit_OperationType = adj_operationType v,
                debit_IdempotencyKey = adj_idempotencyKey v, debit_Reference = adj_reference v,
                debit_Reason = adj_reason v, debit_ActorAccountID = actor, debit_Amount = adj_amount v,
                debit_ChangedAt = now\<rparr> seen db
         in (bind_r res (\<lambda>result. Inr \<lparr>adjustment_Operation = debitResult_Operation result,
               adjustment_Allocation = debitResult_Allocation result,
               adjustment_Replayed = debitResult_Replayed result\<rparr>), db')))"

definition AdjustInk_Execute ::
  "(string \<Rightarrow> uuid option) \<Rightarrow> (AccountID \<Rightarrow> wallet_app_error option)
     \<Rightarrow> (AdminAdjustmentEvent \<Rightarrow> 'log \<Rightarrow> wallet_app_error + 'log) \<Rightarrow> time \<Rightarrow> AdjustInkCommand
     \<Rightarrow> wallet_db \<Rightarrow> wallet_db \<Rightarrow> 'log \<Rightarrow> (wallet_app_error + AdminAdjustmentResult) \<times> wallet_db \<times> 'log" where
  "AdjustInk_Execute scan authorize recorder now cmd seen db log =
     (case adjust_validate cmd of
        Inl e \<Rightarrow> (Inl (Domain e), db, log)
      | Inr v \<Rightarrow>
     (case authorize (adjustCmd_ActorAccountID cmd) of
        Some e \<Rightarrow> (Inl e, db, log)
      | None \<Rightarrow>
     (case adjust_apply scan (adjustCmd_AccountID cmd) (adjustCmd_ActorAccountID cmd) v now seen db of
        (Inl e, db') \<Rightarrow> (Inl e, db', log)
      | (Inr result, db') \<Rightarrow>
     (case recorder \<lparr>event_ActorAccountID = adjustCmd_ActorAccountID cmd, event_AccountID = adjustCmd_AccountID cmd,
              event_OperationID = Operation_ID (adjustment_Operation result),
              event_OperationType = adj_operationType v, event_Allocation = adjustment_Allocation result,
              event_Reason = adj_reason v, event_Reference = adj_reference v,
              event_IdempotencyKey = adj_idempotencyKey v, event_Replayed = adjustment_Replayed result,
              event_OccurredAt = now\<rparr> log of
        Inl e \<Rightarrow> (Inl e, db', log)
      | Inr log' \<Rightarrow> (Inr result, db', log')))))"

section \<open>Balance\<close>

definition GetWalletBalance_Execute :: "(string \<Rightarrow> uuid option) \<Rightarrow> AccountID \<Rightarrow> wallet_db \<Rightarrow> wallet_app_error + WalletBalance" where
  "GetWalletBalance_Execute scan accountID db =
     (if AccountID_IsZero accountID then Inl (Domain ErrEmptyAccountID) else DerivedBalance scan accountID db)"

section \<open>Renewing the free cycle\<close>

record RenewFreeCycleResult =
  CurrentPeriodStart :: time
  Renewals :: "PeriodRenewal list"

definition cycle_stamp :: "MonthlyPeriod \<Rightarrow> string" where
  "cycle_stamp period = FormatRFC3339 (period_start period)"

definition renewal_request :: "FreeCyclePolicy \<Rightarrow> AccountID \<Rightarrow> MonthlyPeriod \<Rightarrow> time \<Rightarrow> wallet_error + FreeCycleRenewalRequest" where
  "renewal_request policy accountID period now =
     (let stamp = cycle_stamp period; prefix = ''free-cycle:'' @ accountID @ '':'' @ stamp in
      bind_r (ParseReference (''free:'' @ accountID @ '':'' @ stamp)) (\<lambda>ref.
      bind_r (ParseIdempotencyKey (prefix @ '':expire'')) (\<lambda>expireKey.
      bind_r (ParseIdempotencyKey (prefix @ '':grant'')) (\<lambda>grantKey.
        Inr \<lparr>renewal_AccountID = accountID, renewal_PeriodStart = period_start period,
             renewal_ExpireKey = expireKey, renewal_GrantKey = grantKey, renewal_Reference = ref,
             renewal_Franchise = policy_Franchise policy, renewal_ChangedAt = now\<rparr>))))"

definition renewPeriod ::
  "(string \<Rightarrow> uuid option) \<Rightarrow> FreeCyclePolicy \<Rightarrow> AccountID \<Rightarrow> MonthlyPeriod \<Rightarrow> time \<Rightarrow> wallet_db
     \<Rightarrow> (wallet_app_error + PeriodRenewal) \<times> wallet_db" where
  "renewPeriod scan policy accountID period now db =
     (case renewal_request policy accountID period now of
        Inl e \<Rightarrow> (Inl (Domain e), db)
      | Inr request \<Rightarrow> RenewFreePeriod scan request db)"

text \<open>The loop over the elapsed periods; each period is its own transaction.\<close>

fun renew_loop ::
  "(string \<Rightarrow> uuid option) \<Rightarrow> FreeCyclePolicy \<Rightarrow> AccountID \<Rightarrow> time \<Rightarrow> time \<Rightarrow> int list \<Rightarrow> wallet_db
     \<Rightarrow> (wallet_app_error + PeriodRenewal list) \<times> wallet_db" where
  "renew_loop scan policy accountID anchor now [] db = (Inr [], db)"
| "renew_loop scan policy accountID anchor now (index # rest) db =
     (case renewPeriod scan policy accountID (PeriodAt anchor index) now db of
        (Inl e, db') \<Rightarrow> (Inl e, db')
      | (Inr renewal, db') \<Rightarrow>
          (case renew_loop scan policy accountID anchor now rest db' of
             (Inl e, db'') \<Rightarrow> (Inl e, db'')
           | (Inr renewals, db'') \<Rightarrow> (Inr (renewal # renewals), db'')))"

definition RenewFreeCycle_Execute ::
  "(string \<Rightarrow> uuid option) \<Rightarrow> FreeCyclePolicy \<Rightarrow> time \<Rightarrow> AccountID \<Rightarrow> wallet_db
     \<Rightarrow> (wallet_app_error + RenewFreeCycleResult) \<times> wallet_db" where
  "RenewFreeCycle_Execute scan policy now accountID db =
     (if AccountID_IsZero accountID then (Inl (Domain ErrEmptyAccountID), db)
      else case FreeCycleAnchor scan accountID db of
        Inl e \<Rightarrow> (Inl e, db)
      | Inr anchor \<Rightarrow>
          (let current = PeriodFor anchor now in
           case renew_loop scan policy accountID anchor now [1..period_index current] db of
             (Inl e, db') \<Rightarrow> (Inl e, db')
           | (Inr renewals, db') \<Rightarrow>
               (Inr \<lparr>CurrentPeriodStart = period_start current, Renewals = renewals\<rparr>, db')))"

section \<open>What reaches the ledger\<close>

lemma credit_request_Inr:
  assumes "credit_request now cmd = Inr rq"
  shows "IsCredit (credit_OperationType rq) \<and> \<not> IsAdmin (credit_OperationType rq)
    \<and> 0 < creditCmd_Amount cmd \<and> credit_Delta rq = creditCmd_Amount cmd
    \<and> Bucket_IsValid (credit_Bucket rq) \<and> credit_AccountID rq = creditCmd_AccountID cmd
    \<and> valid_texts (credit_IdempotencyKey rq) (credit_Reference rq) (credit_Reason rq)"
proof -
  have dir: "OperationType_Direction t = Inr d \<Longrightarrow> IsCredit t \<Longrightarrow> d = DirectionCredit" for t d
    by (auto simp: OperationType_Direction_def IsCredit_def split: option.splits)
  from assms obtain b t a ref k d where
    c: "ParseBucket (creditCmd_Bucket cmd) = Inr b" "IsCredit t" "\<not> IsAdmin t"
      "NewInk (creditCmd_Amount cmd) = Inr a" "ParseReference (creditCmd_Reference cmd) = Inr ref"
      "ParseIdempotencyKey (creditCmd_IdempotencyKey cmd) = Inr k"
      "OperationType_Direction t = Inr d" "Direction_Apply d a = Inr (credit_Delta rq)"
    and rq: "credit_OperationType rq = t" "credit_Bucket rq = b" "credit_AccountID rq = creditCmd_AccountID cmd"
      "credit_IdempotencyKey rq = k" "credit_Reference rq = ref" "credit_Reason rq = zero_Reason"
    by (auto simp: credit_request_def bind_r_Inr_iff split: if_splits)
  have "d = DirectionCredit" using dir c by blast
  with c(8) have "amount a \<noteq> 0 \<and> credit_Delta rq = amount a"
    by (auto simp: Direction_Apply_def Ink_IsZero_def Direction_IsValid_def vocab split: if_splits)
  with c rq show ?thesis
    by (auto simp: NewInk_iff ParseBucket_def valid_texts_def Reason_IsZero_def zero_Reason_def
        dest: ParseReference_valid ParseIdempotencyKey_valid split: if_splits)
qed

lemma debit_request_Inr:
  assumes "debit_request now cmd = Inr rq" "in_int64 (debitCmd_Amount cmd)"
  shows "IsDebit (debit_OperationType rq) \<and> \<not> IsAdmin (debit_OperationType rq)
    \<and> 0 < debitCmd_Amount cmd \<and> debit_Amount rq = \<lparr>amount = debitCmd_Amount cmd\<rparr> \<and> is_Ink (debit_Amount rq)
    \<and> debit_AccountID rq = debitCmd_AccountID cmd"
  using assms unfolding debit_request_def
  by (auto simp: bind_r_Inr_iff NewInk_iff is_Ink_def in_int64_def Ink_IsZero_def split: if_splits)

definition new_operations :: "wallet_db \<Rightarrow> wallet_db \<Rightarrow> AppWalletOperation list" where
  "new_operations db db' = drop (length (operations db)) (operations db')"

lemma new_operations_refl [simp]: "new_operations db db = []"
  by (simp add: new_operations_def)

lemma ApplyCredit_new_operations:
  assumes "ApplyCredit scan rq db = (res, db')" "ledger_ok db" "row \<in> set (new_operations db db')"
  shows "op_type row = credit_OperationType rq \<and> op_reason row = operationReason (credit_Reason rq)
    \<and> op_actor row = operationActor scan (credit_ActorAccountID rq)
    \<and> (\<exists>u. operation_checks (credit_params scan u rq))"
proof -
  have "db' \<noteq> db" using assms(3) by auto
  then obtain u r t where "credit_committed scan rq db u r t db'"
    using credit_cases [OF assms(1,2)] by blast
  then show ?thesis
    using assms(3) by (auto simp: new_operations_def credit_committed_def operation_row_def credit_params_def)
qed

lemma ApplyDebit_new_operations:
  assumes "ApplyDebit scan rq seen db = (res, db')" "ledger_ok db" "is_Ink (debit_Amount rq)"
    "row \<in> set (new_operations db db')"
  shows "op_type row = debit_OperationType rq \<and> op_reason row = operationReason (debit_Reason rq)
    \<and> op_actor row = operationActor scan (debit_ActorAccountID rq)
    \<and> (\<exists>u. operation_checks (debit_params scan u rq))"
proof -
  have "db' \<noteq> db" using assms(4) by auto
  with assms(1) obtain r where "applyDebit scan rq seen db = Inr (r, db')"
    by (auto simp: ApplyDebit_def split: sum.splits prod.splits)
  from applyDebit_cases [OF this assms(2,3)] \<open>db' \<noteq> db\<close>
  obtain u row' plan where "debit_committed scan rq db u row' plan db'" by blast
  then show ?thesis
    using assms(4) by (auto simp: new_operations_def debit_committed_def operation_row_def debit_params_def)
qed

lemma RenewFreePeriod_new_operations:
  assumes "RenewFreePeriod scan rq db = (res, db')" "ledger_ok db" "is_Ink (renewal_Franchise rq)"
    "row \<in> set (new_operations db db')"
  shows "op_type row \<in> {OperationCreditFree, OperationExpireFree}"
proof -
  have "db' \<noteq> db" using assms(4) by auto
  with assms(1) obtain r where "renew_body scan rq db = Inr (r, db')"
    by (auto simp: RenewFreePeriod_def split: sum.splits prod.splits)
  from renew_cases [OF this assms(2,3)] \<open>db' \<noteq> db\<close>
  obtain u rows grant ts where "renewal_committed scan rq db u rows grant ts db'" by blast
  then show ?thesis using assms(4) by (auto simp: new_operations_def renewal_committed_def)
qed

lemma renewPeriod_keeps:
  assumes "renewPeriod scan policy accountID period now db = (res, db')" "ledger_ok db" "is_Ink (policy_Franchise policy)"
  shows "ledger_ok db' \<and> ledger_extends db db'
    \<and> (\<forall>row \<in> set (new_operations db db'). \<not> IsAdmin (op_type row))"
proof (cases "renewal_request policy accountID period now")
  case (Inl e)
  with assms show ?thesis by (simp add: renewPeriod_def)
next
  case (Inr rq)
  then have f: "renewal_Franchise rq = policy_Franchise policy"
    by (auto simp: renewal_request_def bind_r_Inr_iff Let_def)
  from Inr assms(1) have call: "RenewFreePeriod scan rq db = (res, db')" by (simp add: renewPeriod_def)
  have "\<not> IsAdmin (op_type row)" if "row \<in> set (new_operations db db')" for row
    using RenewFreePeriod_new_operations [OF call assms(2) _ that] f assms(3) by auto
  with RenewFreePeriod_keeps [OF call assms(2)] f assms(3) show ?thesis by simp
qed

lemma new_operations_trans:
  assumes "ledger_extends a b" "ledger_extends b c"
  shows "new_operations a c = new_operations a b @ new_operations b c"
  using assms by (auto simp: ledger_extends_def new_operations_def)

lemma renew_loop_keeps:
  "renew_loop scan policy accountID anchor now indices db = (res, db') \<Longrightarrow> ledger_ok db \<Longrightarrow>
   is_Ink (policy_Franchise policy) \<Longrightarrow>
   ledger_ok db' \<and> ledger_extends db db' \<and> (\<forall>row \<in> set (new_operations db db'). \<not> IsAdmin (op_type row))"
proof (induction indices arbitrary: db res db')
  case Nil
  then show ?case by simp
next
  case (Cons i rest)
  obtain r1 d1 where p: "renewPeriod scan policy accountID (PeriodAt anchor i) now db = (r1, d1)" by fastforce
  note k = renewPeriod_keeps [OF p Cons.prems(2,3)]
  show ?case
  proof (cases r1)
    case (Inl e)
    with Cons.prems(1) p k show ?thesis by simp
  next
    case (Inr renewal)
    obtain r2 d2 where l: "renew_loop scan policy accountID anchor now rest d1 = (r2, d2)" by fastforce
    with Cons.prems(1) p Inr have "db' = d2" by (auto split: sum.splits)
    have IH: "ledger_ok d2" "ledger_extends d1 d2" "\<forall>row \<in> set (new_operations d1 d2). \<not> IsAdmin (op_type row)"
      using Cons.IH [OF l] k Cons.prems(3) by simp_all
    have "ledger_extends db d2" using k IH(2) ledger_extends_trans by blast
    moreover have "new_operations db d2 = new_operations db d1 @ new_operations d1 d2"
      using k IH(2) new_operations_trans by blast
    ultimately show ?thesis using IH k \<open>db' = d2\<close> by auto
  qed
qed

lemma FreeCycleAnchor_keeps:
  assumes "FreeCycleAnchor scan accountID db = Inr anchor" "ledger_extends db db'"
  shows "FreeCycleAnchor scan accountID db' = Inr anchor"
proof -
  obtain u w where u: "scan accountID = Some u" "wallets db u = Some w" "anchor = FreeCycleAnchorAt w"
    using assms(1) by (auto simp: FreeCycleAnchor_def pgUUIDFromAccountID_def GetWalletFreeCycleAnchor_def
        split: option.splits)
  then obtain w' where "wallets db' u = Some w'" "FreeCycleAnchorAt w' = anchor"
    using assms(2) unfolding ledger_extends_def by blast
  with u show ?thesis
    by (simp add: FreeCycleAnchor_def pgUUIDFromAccountID_def GetWalletFreeCycleAnchor_def)
qed

lemma RenewFreeCycle_keeps:
  assumes "RenewFreeCycle_Execute scan policy now accountID db = (res, db')" "ledger_ok db"
    "is_Ink (policy_Franchise policy)"
  shows "ledger_ok db' \<and> ledger_extends db db' \<and> (\<forall>row \<in> set (new_operations db db'). \<not> IsAdmin (op_type row))"
proof (cases "AccountID_IsZero accountID")
  case True
  with assms show ?thesis by (simp add: RenewFreeCycle_Execute_def)
next
  case False
  show ?thesis
  proof (cases "FreeCycleAnchor scan accountID db")
    case (Inl e)
    with False assms show ?thesis by (simp add: RenewFreeCycle_Execute_def)
  next
    case (Inr anchor)
    obtain r d where l: "renew_loop scan policy accountID anchor now [1..period_index (PeriodFor anchor now)] db = (r, d)"
      by fastforce
    with Inr False assms(1) have "db' = d" by (auto simp: RenewFreeCycle_Execute_def Let_def split: sum.splits)
    with renew_loop_keeps [OF l assms(2,3)] show ?thesis by simp
  qed
qed

lemma renew_ignores_time: "RenewFreePeriod scan (rq\<lparr>renewal_ChangedAt := t\<rparr>) db = RenewFreePeriod scan rq db"
  by (cases rq, hypsubst) (unfold RenewFreePeriod_def renew_body_def expire_remaining_def FreeCycleRenewalRequest.simps, rule refl)

lemma renewal_request_now:
  "renewal_request policy accountID period now = Inr rq \<Longrightarrow>
     renewal_request policy accountID period now' = Inr (rq\<lparr>renewal_ChangedAt := now'\<rparr>)"
  by (auto simp: renewal_request_def bind_r_Inr_iff Let_def)

lemma renewal_request_Inr:
  assumes "renewal_request policy accountID period now = Inr rq"
  shows "renewal_AccountID rq = accountID \<and> renewal_Franchise rq = policy_Franchise policy"
  using assms by (auto simp: renewal_request_def bind_r_Inr_iff Let_def)

lemma renewPeriod_replays:
  assumes "renewPeriod scan policy accountID period now db = (Inr r, db1)" "ledger_ok db"
    and "is_Ink (policy_Franchise policy)" "canonical scan accountID" "ledger_extends db1 db2" "ledger_ok db2"
  shows "renewPeriod scan policy accountID period now' db2 = (Inr (renewal_as_replay r), db2)"
proof -
  obtain rq where rq: "renewal_request policy accountID period now = Inr rq" "RenewFreePeriod scan rq db = (Inr r, db1)"
    using assms(1) by (auto simp: renewPeriod_def split: sum.splits)
  have "is_Ink (renewal_Franchise rq)" "canonical scan (renewal_AccountID rq)"
    using renewal_request_Inr [OF rq(1)] assms(3,4) by simp_all
  from renewal_replay [OF rq(2) assms(2) this assms(5,6)] renewal_request_now [OF rq(1), of now']
  show ?thesis by (simp add: renewPeriod_def renew_ignores_time)
qed

lemma renew_loop_replays:
  "renew_loop scan policy accountID anchor now indices db = (Inr rs, db1) \<Longrightarrow> ledger_ok db \<Longrightarrow>
   is_Ink (policy_Franchise policy) \<Longrightarrow> canonical scan accountID \<Longrightarrow> ledger_extends db1 db2 \<Longrightarrow> ledger_ok db2 \<Longrightarrow>
   renew_loop scan policy accountID anchor now' indices db2 = (Inr (map renewal_as_replay rs), db2)"
proof (induction indices arbitrary: db rs)
  case Nil
  then show ?case by simp
next
  case (Cons i rest)
  then obtain r d rs' where c: "renewPeriod scan policy accountID (PeriodAt anchor i) now db = (Inr r, d)"
    "renew_loop scan policy accountID anchor now rest d = (Inr rs', db1)" "rs = r # rs'"
    by (auto split: prod.splits sum.splits)
  note k = renewPeriod_keeps [OF c(1) Cons.prems(2,3)]
  then have l: "ledger_extends d db1" using renew_loop_keeps [OF c(2) _ Cons.prems(3)] by blast
  have "renewPeriod scan policy accountID (PeriodAt anchor i) now' db2 = (Inr (renewal_as_replay r), db2)"
    using renewPeriod_replays [OF c(1) Cons.prems(2,3,4) ledger_extends_trans [OF l Cons.prems(5)] Cons.prems(6)] .
  moreover have "renew_loop scan policy accountID anchor now' rest db2 = (Inr (map renewal_as_replay rs'), db2)"
    using Cons.IH [OF c(2) _ Cons.prems(3-6)] k by blast
  ultimately show ?case using c(3) by simp
qed

lemma period_month: "month_no (period_start (PeriodAt anchor i)) = month_no anchor + i"
  by (simp add: PeriodAt_def addClampedMonths_month)

lemma TrimSpace_ends:
  assumes "s \<noteq> []" "byte (hd s) < 128" "\<not> is_space (byte (hd s))" "byte (last s) < 128" "\<not> is_space (byte (last s))"
  shows "TrimSpace s = s"
  using assms by (cases s) (simp_all add: TrimSpace_def trim_left_ascii trim_right_ascii)

lemma ParseReason_Inr: "ParseReason raw = Inr q \<Longrightarrow> q = Reason (TrimSpace raw) \<and> TrimSpace raw \<noteq> []"
  by (auto simp: ParseReason_def Let_def split: if_splits)

lemma renewal_request_valid:
  "renewal_request policy accountID period now = Inr rq \<Longrightarrow>
     is_IdempotencyKey (renewal_GrantKey rq) \<and> is_Reference (renewal_Reference rq)"
  by (auto simp: renewal_request_def bind_r_Inr_iff Let_def dest: ParseReference_valid ParseIdempotencyKey_valid)

text \<open>The keys of a period are well formed for every account id of printable characters.\<close>

lemma renewal_request_ok:
  assumes "list_all printable accountID" "length accountID \<le> 100" "four_digit_year (period_start period)"
  shows "\<exists>rq. renewal_request policy accountID period now = Inr rq \<and> hd (key_String (renewal_GrantKey rq)) = CHR ''f''"
proof -
  define stamp where "stamp = cycle_stamp period"
  have stamp: "list_all printable stamp" "length stamp = 20"
    using assms(3) by (simp_all add: stamp_def cycle_stamp_def FormatRFC3339_printable FormatRFC3339_length)
  have p: "list_all printable ''free-cycle:''" "list_all printable '':''" "list_all printable '':expire''"
    "list_all printable '':grant''" "list_all printable ''free:''" by (simp_all add: printable_def)
  have "ParseReference (''free:'' @ accountID @ '':'' @ stamp) = Inr (Reference (''free:'' @ accountID @ '':'' @ stamp))"
    using reference.parse_of_text [of "Reference (''free:'' @ accountID @ '':'' @ stamp)"] stamp assms p
    by (simp add: maxReferenceLength_def)
  moreover have "ParseIdempotencyKey (''free-cycle:'' @ accountID @ '':'' @ stamp @ t)
      = Inr (IdempotencyKey (''free-cycle:'' @ accountID @ '':'' @ stamp @ t))"
    if "list_all printable t" "length t \<le> 7" for t
    using idem_key.parse_of_text [of "IdempotencyKey (''free-cycle:'' @ accountID @ '':'' @ stamp @ t)"] stamp assms p that
    by (simp add: maxIdempotencyKeyLength_def)
  ultimately show ?thesis
    using p(3,4) unfolding renewal_request_def stamp_def [symmetric] by (simp add: Let_def)
qed

lemma renew_loop_length:
  "renew_loop scan policy accountID anchor now indices db = (Inr rs, db1) \<Longrightarrow> length rs = length indices"
  by (induction indices arbitrary: db rs) (auto split: prod.splits sum.splits)

section \<open>Properties\<close>

lemma adjust_validate_Inr:
  assumes "adjust_validate cmd = Inr v" "in_int64 (adjustCmd_Amount cmd)"
  shows "IsAdmin (adj_operationType v)" "operationReason (adj_reason v) = Some (TrimSpace (adjustCmd_Reason cmd))"
    "is_Ink (adj_amount v)"
proof -
  have v: "IsAdmin (adj_operationType v)" "ParseReason (adjustCmd_Reason cmd) = Inr (adj_reason v)"
    "is_Ink (adj_amount v)"
    using assms
    by (auto simp: adjust_validate_def bind_r_Inr_iff NewInk_iff is_Ink_def in_int64_def split: if_splits)
  then show "IsAdmin (adj_operationType v)" "is_Ink (adj_amount v)" by simp_all
  show "operationReason (adj_reason v) = Some (TrimSpace (adjustCmd_Reason cmd))"
    using ParseReason_Inr [OF v(2)] by (simp add: operationReason_def Reason_IsZero_def)
qed

lemma adjust_apply_rows:
  assumes "adjust_apply scan acct actor v now seen db = (r, db')" "ledger_ok db" "is_Ink (adj_amount v)"
    and "row \<in> set (new_operations db db')"
  shows "op_type row = adj_operationType v \<and> op_reason row = operationReason (adj_reason v)
    \<and> op_actor row = operationActor scan actor
    \<and> (\<exists>arg. operation_checks arg \<and> arg_OperationType arg = adj_operationType v
          \<and> arg_ActorAccountID arg = operationActor scan actor)"
proof (cases "IsCredit (adj_operationType v)")
  case True
  then obtain rq res' where rq: "ApplyCredit scan rq db = (res', db')"
    "credit_OperationType rq = adj_operationType v" "credit_Reason rq = adj_reason v"
    "credit_ActorAccountID rq = actor"
    using assms(1) by (auto simp: adjust_apply_def split: prod.splits)
  from ApplyCredit_new_operations [OF rq(1) assms(2,4)] rq show ?thesis by (auto simp: credit_params_def)
next
  case False
  then obtain rq res' where rq: "ApplyDebit scan rq seen db = (res', db')"
    "debit_OperationType rq = adj_operationType v" "debit_Reason rq = adj_reason v"
    "debit_ActorAccountID rq = actor" "debit_Amount rq = adj_amount v"
    using assms(1) by (auto simp: adjust_apply_def split: prod.splits)
  from ApplyDebit_new_operations [OF rq(1) assms(2) _ assms(4)] rq assms(3) show ?thesis
    by (auto simp: debit_params_def)
qed

text \<open>The table refuses an administrative operation without an actor.\<close>

lemma admin_actor_scanned:
  assumes "operation_checks arg" "IsAdmin (arg_OperationType arg)" "arg_ActorAccountID arg = operationActor scan actor"
  shows "operationActor scan actor = scan actor \<and> scan actor \<noteq> None"
proof -
  have "operationActor scan actor \<noteq> None" using assms by (auto simp: operation_checks_def IsAdmin_def vocab)
  then show ?thesis by (auto simp: operationActor_def pgUUIDFromAccountID_def split: option.splits if_splits)
qed

lemma CreditInk_rows:
  "CreditInk_Execute scan now cmd db = (res, db') \<Longrightarrow> ledger_ok db \<Longrightarrow> row \<in> set (new_operations db db') \<Longrightarrow>
    \<not> IsAdmin (op_type row)"
  using ApplyCredit_new_operations credit_request_Inr
  by (fastforce simp: CreditInk_Execute_def split: sum.splits)

lemma DebitInk_rows:
  assumes "DebitInk_Execute scan now cmd seen db = (res, db')" "ledger_ok db" "in_int64 (debitCmd_Amount cmd)"
    "row \<in> set (new_operations db db')"
  shows "\<not> IsAdmin (op_type row)"
proof -
  obtain rq where rq: "debit_request now cmd = Inr rq" "ApplyDebit scan rq seen db = (res, db')"
    using assms(1,4) by (auto simp: DebitInk_Execute_def split: sum.splits)
  note d = debit_request_Inr [OF rq(1) assms(3)]
  then have "is_Ink (debit_Amount rq)" by blast
  from ApplyDebit_new_operations [OF rq(2) assms(2) this assms(4)] d show ?thesis by simp
qed

lemma AdjustInk_rows:
  assumes "AdjustInk_Execute scan authorize recorder now cmd seen db log = (res, db', log')" "ledger_ok db"
    "in_int64 (adjustCmd_Amount cmd)" "row \<in> set (new_operations db db')"
  shows "authorize (adjustCmd_ActorAccountID cmd) = None \<and> IsAdmin (op_type row)
    \<and> op_reason row = Some (TrimSpace (adjustCmd_Reason cmd))
    \<and> op_actor row = scan (adjustCmd_ActorAccountID cmd) \<and> op_actor row \<noteq> None"
proof -
  obtain v r where v: "adjust_validate cmd = Inr v" "authorize (adjustCmd_ActorAccountID cmd) = None"
    "adjust_apply scan (adjustCmd_AccountID cmd) (adjustCmd_ActorAccountID cmd) v now seen db = (r, db')"
    using assms(1,4) by (auto simp: AdjustInk_Execute_def split: sum.splits option.splits prod.splits)
  note val = adjust_validate_Inr [OF v(1) assms(3)]
  note row = adjust_apply_rows [OF v(3) assms(2) val(3) assms(4)]
  from row admin_actor_scanned val(1) have "op_actor row = scan (adjustCmd_ActorAccountID cmd) \<and> op_actor row \<noteq> None"
    by metis
  with row val v(2) show ?thesis by (intro conjI; elim conjE; simp only: not_False_eq_True)
qed

text \<open>
  Administrative entries enter the ledger only through the audited adjustment: the credit,
  debit and renewal use cases never write one, whatever the command says; and an adjustment that
  writes a row was authorised for its actor, and the row has an administrative type and carries
  the parsed reason and the actor.
\<close>
theorem admin_only_by_adjustment:
  assumes "ledger_ok db"
  shows "(\<forall>now cmd res db'. CreditInk_Execute scan now cmd db = (res, db') \<longrightarrow>
            (\<forall>row \<in> set (new_operations db db'). \<not> IsAdmin (op_type row)))
    \<and> (\<forall>now cmd seen res db'. in_int64 (debitCmd_Amount cmd) \<longrightarrow> DebitInk_Execute scan now cmd seen db = (res, db') \<longrightarrow>
            (\<forall>row \<in> set (new_operations db db'). \<not> IsAdmin (op_type row)))
    \<and> (\<forall>policy now acct res db'. is_Ink (policy_Franchise policy) \<longrightarrow>
            RenewFreeCycle_Execute scan policy now acct db = (res, db') \<longrightarrow>
            (\<forall>row \<in> set (new_operations db db'). \<not> IsAdmin (op_type row)))
    \<and> (\<forall>authorize recorder now cmd seen log res db' log'. in_int64 (adjustCmd_Amount cmd) \<longrightarrow>
            AdjustInk_Execute scan authorize recorder now cmd seen db log = (res, db', log') \<longrightarrow>
            (\<forall>row \<in> set (new_operations db db').
               authorize (adjustCmd_ActorAccountID cmd) = None \<and> IsAdmin (op_type row)
             \<and> op_reason row = Some (TrimSpace (adjustCmd_Reason cmd))
             \<and> op_actor row = scan (adjustCmd_ActorAccountID cmd) \<and> op_actor row \<noteq> None))"
  by (intro conjI allI impI ballI)
    (auto dest: CreditInk_rows [OF _ assms] DebitInk_rows [OF _ assms] AdjustInk_rows [OF _ assms]
       RenewFreeCycle_keeps [OF _ assms])

theorem admin_only_by_adjustment_witness:
  "filter (\<lambda>row. IsAdmin (op_type row)) (new_operations demo_db (snd (CreditInk_Execute demo_scan 0
      \<lparr>creditCmd_AccountID = demo_account, creditCmd_Bucket = ''PURCHASED_INK'', creditCmd_OperationType = ''credit_admin'',
       creditCmd_Amount = 5, creditCmd_Reference = ''r1'', creditCmd_IdempotencyKey = ''k1''\<rparr> demo_db))) = []"
  unfolding filter_empty_conv
  using admin_only_by_adjustment [OF demo_init(2), of demo_scan] by (metis prod.collapse)

text \<open>
  Catching up the free cycle is idempotent: when a renewal run succeeded, a second run at any
  later state, at any instant of the same period, replays every period, writes nothing and
  reports the same periods; each run handles exactly the periods elapsed since the anchor.
\<close>
theorem RenewFreeCycle_idempotent:
  assumes "wallet_reachable scan db" "is_Ink (policy_Franchise policy)" "canonical scan accountID"
    and "RenewFreeCycle_Execute scan policy now accountID db = (Inr result, db1)"
    and "(wallet_step scan)\<^sup>*\<^sup>* db1 db2"
    and "FreeCycleAnchor scan accountID db = Inr anchor" "PeriodFor anchor now' = PeriodFor anchor now"
  shows "RenewFreeCycle_Execute scan policy now' accountID db2 =
      (Inr \<lparr>CurrentPeriodStart = CurrentPeriodStart result, Renewals = map renewal_as_replay (Renewals result)\<rparr>, db2)
    \<and> length (Renewals result) = nat (period_index (PeriodFor anchor now))"
proof -
  have ok: "ledger_ok db" by (rule reachable_ledger_ok [OF assms(1)])
  note k = RenewFreeCycle_keeps [OF assms(4) ok assms(2)]
  then have ok2: "ledger_ok db2 \<and> ledger_extends db1 db2" using wallet_steps_extend [OF assms(5)] by blast
  then have "ledger_extends db db2" using k ledger_extends_trans by blast
  with FreeCycleAnchor_keeps assms(6) have anchor: "FreeCycleAnchor scan accountID db2 = Inr anchor" by blast
  have nz: "\<not> AccountID_IsZero accountID" using assms(4) by (auto simp: RenewFreeCycle_Execute_def)
  obtain rs where l: "renew_loop scan policy accountID anchor now [1..period_index (PeriodFor anchor now)] db = (Inr rs, db1)"
    and r: "result = \<lparr>CurrentPeriodStart = period_start (PeriodFor anchor now), Renewals = rs\<rparr>"
    using assms(4,6) nz by (auto simp: RenewFreeCycle_Execute_def Let_def split: prod.splits sum.splits)
  have "renew_loop scan policy accountID anchor now' [1..period_index (PeriodFor anchor now)] db2
      = (Inr (map renewal_as_replay rs), db2)"
    using renew_loop_replays [OF l ok assms(2,3)] ok2 by blast
  then show ?thesis
    using anchor nz r assms(7) renew_loop_length [OF l] by (simp add: RenewFreeCycle_Execute_def Let_def)
qed

theorem RenewFreeCycle_idempotent_witness:
  "\<exists>result db2. RenewFreeCycle_Execute demo_scan DefaultFreeCyclePolicy 2700000000000000 demo_account demo_db1 = (Inr result, db2)
     \<and> length (Renewals result) = 1
     \<and> snd (RenewFreeCycle_Execute demo_scan DefaultFreeCyclePolicy 2700000000000000 demo_account db2) = db2"
proof -
  let ?now = "2700000000000000 :: time"
  have "Contains (PeriodAt 0 1) ?now" by code_simp
  then have period: "PeriodFor 0 ?now = PeriodAt 0 1" by (rule PeriodFor_unique)
  have index: "period_index (PeriodAt 0 1) = 1" by (simp add: PeriodAt_def)
  have year: "four_digit_year (period_start (PeriodAt 0 1))" by code_simp
  have acct: "list_all printable demo_account" "length demo_account \<le> 100"
    by (simp_all add: demo_account_def uuidToString_printable) (simp add: uuidToString_def Let_def)
  obtain rq where rq: "renewal_request DefaultFreeCyclePolicy demo_account (PeriodAt 0 1) ?now = Inr rq"
    "hd (key_String (renewal_GrantKey rq)) = CHR ''f''"
    using renewal_request_ok [OF acct year, of DefaultFreeCyclePolicy ?now] by auto
  then obtain db2 where step: "renewPeriod demo_scan DefaultFreeCyclePolicy demo_account (PeriodAt 0 1) ?now demo_db1
      = (Inr \<lparr>renewed_PeriodStart = renewal_PeriodStart rq, renewed_Expired = zero_Ink,
           renewed_Granted = \<lparr>amount = 5000\<rparr>, renewed_Replayed = False\<rparr>, db2)"
    using demo_renewal_general [of rq "renewal_GrantKey rq"] renewal_request_Inr [OF rq(1)] renewal_request_valid [OF rq(1)]
    by (fastforce simp: renewPeriod_def DefaultFreeCyclePolicy_def FreeMonthlyFranchise_def)
  have anchor: "FreeCycleAnchor demo_scan demo_account demo_db1 = Inr 0"
    using demo_scan_canonical(2)
    by (simp add: FreeCycleAnchor_def pgUUIDFromAccountID_def GetWalletFreeCycleAnchor_def demo_db1_def demo_wallet_def)
  obtain result where call: "RenewFreeCycle_Execute demo_scan DefaultFreeCyclePolicy ?now demo_account demo_db1 = (Inr result, db2)"
    using anchor step period index by (simp add: RenewFreeCycle_Execute_def demo_account_def Let_def upto.simps)
  obtain res where "ApplyCredit demo_scan demo_credit demo_db = (res, demo_db1)"
    using demo_credit_call by blast
  then have reach: "wallet_reachable demo_scan demo_db1"
    by (rule wallet_reachable.step [OF wallet_reachable.start [OF demo_init(1)] wallet_step.credit])
  have ink: "is_Ink (policy_Franchise DefaultFreeCyclePolicy)"
    by (simp add: DefaultFreeCyclePolicy_def FreeMonthlyFranchise_def is_Ink_def MaxInt64_def)
  from RenewFreeCycle_idempotent [OF reach ink demo_scan_canonical(1) call rtranclp.rtrancl_refl anchor refl]
  show ?thesis using call period index by auto
qed

text \<open>
  Renewal keys never collide: the grant key determines the account and the calendar month,
  and differs from every expiry key, so neither two accounts nor two periods of one cycle share a
  key (for periods that start in years of four digits).
\<close>
theorem renewal_keys_injective:
  assumes "renewal_request policy a (PeriodAt anchorA i) now = Inr ra"
    and "renewal_request policy' b (PeriodAt anchorB j) now' = Inr rb"
    and "four_digit_year (period_start (PeriodAt anchorA i))" "four_digit_year (period_start (PeriodAt anchorB j))"
  shows "(renewal_GrantKey ra = renewal_GrantKey rb \<longrightarrow>
            a = b \<and> month_no anchorA + i = month_no anchorB + j \<and> (anchorA = anchorB \<longrightarrow> i = j))
    \<and> renewal_GrantKey ra \<noteq> renewal_ExpireKey rb"
proof -
  define sa where "sa = FormatRFC3339 (period_start (PeriodAt anchorA i))"
  define sb where "sb = FormatRFC3339 (period_start (PeriodAt anchorB j))"
  have keys: "ParseIdempotencyKey (''free-cycle:'' @ a @ '':'' @ sa @ '':grant'') = Inr (renewal_GrantKey ra)"
    "ParseIdempotencyKey (''free-cycle:'' @ b @ '':'' @ sb @ '':grant'') = Inr (renewal_GrantKey rb)"
    "ParseIdempotencyKey (''free-cycle:'' @ b @ '':'' @ sb @ '':expire'') = Inr (renewal_ExpireKey rb)"
    using assms(1,2) by (auto simp: renewal_request_def bind_r_Inr_iff Let_def cycle_stamp_def sa_def sb_def)
  have grant: "key_String (renewal_GrantKey ra) = ''free-cycle:'' @ a @ '':'' @ sa @ '':grant''"
    "key_String (renewal_GrantKey rb) = ''free-cycle:'' @ b @ '':'' @ sb @ '':grant''"
    and expire: "key_String (renewal_ExpireKey rb) = ''free-cycle:'' @ b @ '':'' @ sb @ '':expire''"
    using idem_key.parse_text [OF keys(1)] idem_key.parse_text [OF keys(2)] idem_key.parse_text [OF keys(3)]
    by (simp_all add: TrimSpace_ends is_space_def)
  have "last (key_String (renewal_GrantKey ra)) \<noteq> last (key_String (renewal_ExpireKey rb))"
    unfolding grant expire by simp
  then have "renewal_GrantKey ra \<noteq> renewal_ExpireKey rb" by metis
  moreover {
    assume "renewal_GrantKey ra = renewal_GrantKey rb"
    then have "a @ '':'' @ sa @ '':grant'' = b @ '':'' @ sb @ '':grant''" using grant by simp
    moreover have "length sa = length sb"
      using assms(3,4) by (simp add: sa_def sb_def FormatRFC3339_length)
    ultimately have "a = b" "sa = sb" by (simp_all add: append_eq_append_conv)
    moreover from this have "month_no anchorA + i = month_no anchorB + j"
      using FormatRFC3339_month [OF _ assms(3,4)] period_month unfolding sa_def sb_def by metis
    ultimately have "a = b \<and> month_no anchorA + i = month_no anchorB + j \<and> (anchorA = anchorB \<longrightarrow> i = j)"
      by auto
  }
  ultimately show ?thesis by blast
qed

theorem renewal_keys_injective_witness:
  "\<exists>ra rb. renewal_request DefaultFreeCyclePolicy ''acct'' (PeriodAt 0 1) 0 = Inr ra
     \<and> renewal_request DefaultFreeCyclePolicy ''acct'' (PeriodAt 0 2) 0 = Inr rb
     \<and> renewal_GrantKey ra \<noteq> renewal_GrantKey rb \<and> renewal_GrantKey ra \<noteq> renewal_ExpireKey rb"
proof -
  have year: "four_digit_year (period_start (PeriodAt 0 1))" "four_digit_year (period_start (PeriodAt 0 2))"
    by code_simp+
  have acct: "list_all printable ''acct''" "length ''acct'' \<le> 100" by (simp_all add: printable_def)
  obtain ra rb where "renewal_request DefaultFreeCyclePolicy ''acct'' (PeriodAt 0 1) 0 = Inr ra"
    "renewal_request DefaultFreeCyclePolicy ''acct'' (PeriodAt 0 2) 0 = Inr rb"
    using renewal_request_ok [OF acct year(1)] renewal_request_ok [OF acct year(2)] by blast
  with renewal_keys_injective [OF this year] show ?thesis by auto
qed

end
