(* ===== verification/SignedCursor.thy ===== *)
theory SignedCursor
  imports Postgres GoTime
begin

text \<open>
  The signed keyset cursors of the public lists, which three modules implement alike: a version, the
  instant and the identifier of the last row shown, joined by \<open>|\<close>, and the HMAC of that text, both
  in unpadded URL base64 (\<open>base64.RawURLEncoding\<close>). \<open>mac\<close> stands for HMAC-SHA256 under the secret
  of the codec and \<open>parse_time\<close> for \<open>time.Parse\<close> with \<open>time.RFC3339Nano\<close>, which reads back what
  \<open>Format\<close> printed in that layout.
\<close>

section \<open>Base64\<close>

definition b64_digit :: "nat \<Rightarrow> char" where
  "b64_digit n =
     (if n < 26 then char_of (65 + n) else if n < 52 then char_of (71 + n) else if n < 62 then char_of (n - 4)
      else if n = 62 then CHR ''-'' else CHR ''_'')"

definition b64_value :: "char \<Rightarrow> nat option" where
  "b64_value c =
     (if 65 \<le> byte c \<and> byte c \<le> 90 then Some (byte c - 65)
      else if 97 \<le> byte c \<and> byte c \<le> 122 then Some (byte c - 71)
      else if 48 \<le> byte c \<and> byte c \<le> 57 then Some (byte c + 4)
      else if c = CHR ''-'' then Some 62 else if c = CHR ''_'' then Some 63 else None)"

fun b64_encode :: "string \<Rightarrow> string" where
  "b64_encode [] = []"
| "b64_encode [a] = [b64_digit (byte a div 4), b64_digit (byte a mod 4 * 16)]"
| "b64_encode [a, b] =
     [b64_digit (byte a div 4), b64_digit (byte a mod 4 * 16 + byte b div 16), b64_digit (byte b mod 16 * 4)]"
| "b64_encode (a # b # c # s) =
     [b64_digit (byte a div 4), b64_digit (byte a mod 4 * 16 + byte b div 16),
      b64_digit (byte b mod 16 * 4 + byte c div 64), b64_digit (byte c mod 64)] @ b64_encode s"

text \<open>Quantums of four digits; a last one of two or three gives one or two bytes, one of one digit is corrupt.\<close>

fun b64_quantums :: "nat list \<Rightarrow> string option" where
  "b64_quantums [] = Some []"
| "b64_quantums [p] = None"
| "b64_quantums [p, q] = Some [char_of (p * 4 + q div 16)]"
| "b64_quantums [p, q, r] = Some [char_of (p * 4 + q div 16), char_of (q mod 16 * 16 + r div 4)]"
| "b64_quantums (p # q # r # s # rest) =
     map_option (\<lambda>t. [char_of (p * 4 + q div 16), char_of (q mod 16 * 16 + r div 4), char_of (r mod 4 * 64 + s)] @ t)
       (b64_quantums rest)"

text \<open>The decoder skips line ends and refuses every other byte outside the alphabet.\<close>

definition b64_decode :: "string \<Rightarrow> string option" where
  "b64_decode s =
     (let t = filter (\<lambda>c. c \<noteq> CHR 0x0A \<and> c \<noteq> CHR 0x0D) s in
      if list_all (\<lambda>c. b64_value c \<noteq> None) t then b64_quantums (map (the \<circ> b64_value) t) else None)"

definition b64_char :: "char \<Rightarrow> bool" where
  "b64_char c \<longleftrightarrow> 65 \<le> byte c \<and> byte c \<le> 90 \<or> 97 \<le> byte c \<and> byte c \<le> 122 \<or> 48 \<le> byte c \<and> byte c \<le> 57
     \<or> c = CHR ''-'' \<or> c = CHR ''_''"

lemma b64_value_digit [simp]: "n < 64 \<Longrightarrow> b64_value (b64_digit n) = Some n"
  by (auto simp: b64_digit_def b64_value_def byte_char_of)

lemma b64_digit_char: "n < 64 \<Longrightarrow> b64_char (b64_digit n)"
  by (auto simp: b64_digit_def b64_char_def byte_char_of)

lemma byte_less: "byte c < 256"
  by simp

lemma b64_parts:
  "byte a div 4 < 64" "byte a mod 4 * 16 + byte b div 16 < 64" "byte b mod 16 * 4 + byte c div 64 < 64"
  "byte c mod 64 < 64" "byte a mod 4 * 16 < 64" "byte b mod 16 * 4 < 64"
proof -
  have "byte a div 4 < 64" "byte b div 16 < 16" "byte c div 64 < 4"
    using byte_less [of a] byte_less [of b] byte_less [of c] by (simp_all add: less_mult_imp_div_less)
  moreover have "byte a mod 4 < 4" "byte b mod 16 < 16" by simp_all
  ultimately show "byte a div 4 < 64" "byte a mod 4 * 16 + byte b div 16 < 64" "byte b mod 16 * 4 + byte c div 64 < 64"
    "byte c mod 64 < 64" "byte a mod 4 * 16 < 64" "byte b mod 16 * 4 < 64"
    by linarith+
qed

lemma b64_high_bits:
  "byte b div 16 div 16 = 0" "byte c div 64 div 4 = 0" "byte b div 16 mod 16 = byte b div 16" "byte c div 64 mod 4 = byte c div 64"
  using byte_less [of b] byte_less [of c] by (simp_all add: less_mult_imp_div_less flip: div_mult2_eq)

lemma b64_quantums_encode: "b64_quantums (map (the \<circ> b64_value) (b64_encode s)) = Some s"
  by (induction s rule: b64_encode.induct) (simp_all add: b64_parts b64_high_bits)

lemma b64_encode_chars: "list_all b64_char (b64_encode s)"
  by (induction s rule: b64_encode.induct) (simp_all add: b64_digit_char b64_parts)

lemma b64_encode_nonempty: "s \<noteq> [] \<Longrightarrow> b64_encode s \<noteq> []"
  by (cases s rule: b64_encode.cases) simp_all

lemma b64_char_valued: "b64_char c \<Longrightarrow> b64_value c \<noteq> None \<and> c \<noteq> CHR 0x0A \<and> c \<noteq> CHR 0x0D \<and> c \<noteq> CHR ''.'' \<and> printable c"
proof (intro conjI)
  assume c: "b64_char c"
  then show "b64_value c \<noteq> None" unfolding b64_char_def b64_value_def by auto
  from c show "printable c" unfolding b64_char_def printable_def by (elim disjE) simp_all
  have "byte c \<noteq> 10" "byte c \<noteq> 13" "byte c \<noteq> 46" using c unfolding b64_char_def by (elim disjE; simp)+
  then show "c \<noteq> CHR 0x0A" "c \<noteq> CHR 0x0D" "c \<noteq> CHR ''.''" by auto
qed

lemma b64_roundtrip: "b64_decode (b64_encode s) = Some s"
proof -
  have "\<forall>c \<in> set (b64_encode s). b64_char c" using b64_encode_chars [of s] by (simp add: list_all_iff)
  then have "filter (\<lambda>c. c \<noteq> CHR 0x0A \<and> c \<noteq> CHR 0x0D) (b64_encode s) = b64_encode s"
    and "list_all (\<lambda>c. b64_value c \<noteq> None) (b64_encode s)"
    using b64_char_valued by (auto simp: filter_id_conv list_all_iff)
  then show ?thesis by (simp add: b64_decode_def b64_quantums_encode)
qed

section \<open>Instants\<close>

text \<open>\<open>time.RFC3339Nano\<close>: the fraction without its trailing zeros, nothing when it is zero.\<close>

definition fraction :: "int \<Rightarrow> string" where
  "fraction n = (if n = 0 then [] else ''.'' @ rev (dropWhile (\<lambda>c. c = CHR ''0'') (rev (pad_int 9 n))))"

definition FormatRFC3339Nano :: "time \<Rightarrow> string" where
  "FormatRFC3339Nano t = butlast (FormatRFC3339 t) @ fraction (Nanosecond t) @ ''Z''"

section \<open>The codec\<close>

definition cursor_payload :: "time \<Rightarrow> string \<Rightarrow> string" where
  "cursor_payload t i = ''v1'' @ ''|'' @ FormatRFC3339Nano t @ ''|'' @ i"

definition cursor_encode :: "(string \<Rightarrow> string) \<Rightarrow> time \<Rightarrow> string \<Rightarrow> string" where
  "cursor_encode mac t i =
     b64_encode (cursor_payload t i) @ ''.'' @ b64_encode (mac (cursor_payload t i))"

text \<open>\<open>None\<close> is \<open>ErrInvalidCursor\<close>; \<open>Some None\<close> is the first page.\<close>

definition cursor_decode_with ::
  "(string \<Rightarrow> bool) \<Rightarrow> (string \<Rightarrow> string) \<Rightarrow> (string \<Rightarrow> time option) \<Rightarrow> string \<Rightarrow> (time \<times> string) option option" where
  "cursor_decode_with accepts mac parse_time raw =
     (let trimmed = TrimSpace raw in
      if trimmed = [] then Some None
      else case split_on (CHR ''.'') trimmed of
        [p, s] \<Rightarrow>
          (case (b64_decode p, b64_decode s) of
             (Some payload, Some signature) \<Rightarrow>
               if signature \<noteq> mac payload then None
               else (case split_on (CHR ''|'') payload of
                   [version, instant, i] \<Rightarrow>
                     if version \<noteq> ''v1'' then None
                     else (case parse_time instant of
                         None \<Rightarrow> None
                       | Some t \<Rightarrow> if \<not> accepts i then None else Some (Some (t, i)))
                 | _ \<Rightarrow> None)
           | _ \<Rightarrow> None)
      | _ \<Rightarrow> None)"

definition cursor_decode ::
  "(string \<Rightarrow> string) \<Rightarrow> (string \<Rightarrow> time option) \<Rightarrow> string \<Rightarrow> (time \<times> string) option option" where
  "cursor_decode = cursor_decode_with (\<lambda>i. i \<noteq> [] \<and> list_all printable i)"

lemma printable_no_bar: "set (FormatRFC3339Nano t) \<subseteq> {c. is_digit c} \<union> set ''-T:.Z''"
proof -
  have ds: "set (pad_int w x) \<subseteq> {c. is_digit c} \<union> {CHR ''-''}" for w x
  proof -
    have "list_all is_digit (dec_digits n)" for n by (rule dec_digits_digits)
    then show ?thesis by (auto simp: pad_int_def Let_def list_all_iff is_digit_def)
  qed
  have "set (fraction n) \<subseteq> {c. is_digit c} \<union> set ''-T:.Z''" for n
  proof -
    have "set (dropWhile (\<lambda>c. c = CHR ''0'') (rev (pad_int 9 n))) \<subseteq> set (pad_int 9 n)"
      using set_dropWhileD by fastforce
    then show ?thesis using ds [of 9 n] by (auto simp: fraction_def)
  qed
  moreover have "set (butlast (FormatRFC3339 t)) \<subseteq> {c. is_digit c} \<union> set ''-T:.Z''"
    using ds by (force simp: FormatRFC3339_def butlast_append)
  ultimately show ?thesis by (auto simp: FormatRFC3339Nano_def)
qed

lemma cursor_roundtrip:
  assumes "parse_time (FormatRFC3339Nano t) = Some t" "accepts i" "CHR ''|'' \<notin> set i"
  shows "cursor_decode_with accepts mac parse_time (cursor_encode mac t i) = Some (Some (t, i))"
proof -
  let ?p = "cursor_payload t i"
  have chars: "\<forall>c \<in> set (b64_encode s). b64_char c" for s using b64_encode_chars [of s] by (simp add: list_all_iff)
  then have dot: "CHR ''.'' \<notin> set (b64_encode s)" for s using b64_char_valued by blast
  have "list_all printable (cursor_encode mac t i)"
    using chars b64_char_valued by (auto simp: cursor_encode_def list_all_iff printable_def)
  then have trim: "TrimSpace (cursor_encode mac t i) = cursor_encode mac t i" by (rule TrimSpace_printable)
  have parts: "split_on (CHR ''.'') (cursor_encode mac t i) = [b64_encode ?p, b64_encode (mac ?p)]"
    using dot by (simp add: cursor_encode_def split_on_append split_on_last)
  have "CHR ''|'' \<notin> set (FormatRFC3339Nano t)" using printable_no_bar [of t] by (auto simp: is_digit_def)
  then have fields: "split_on (CHR ''|'') ?p = [''v1'', FormatRFC3339Nano t, i]"
    using assms(3) by (simp add: cursor_payload_def split_on_append split_on_last)
  show ?thesis using trim parts fields assms(1,2)
    by (simp add: cursor_decode_with_def) (simp add: cursor_encode_def b64_roundtrip)
qed

text \<open>What is accepted was signed: the position is the one named by a payload whose HMAC the cursor carries.\<close>

lemma cursor_signed:
  assumes "cursor_decode_with accepts mac parse_time raw = Some (Some (t, i))"
  shows "\<exists>p s payload instant. split_on (CHR ''.'') (TrimSpace raw) = [p, s] \<and> b64_decode p = Some payload
    \<and> b64_decode s = Some (mac payload) \<and> split_on (CHR ''|'') payload = [''v1'', instant, i] \<and> parse_time instant = Some t"
proof -
  obtain p s where ps: "split_on (CHR ''.'') (TrimSpace raw) = [p, s]"
    using assms by (auto simp: cursor_decode_with_def Let_def split: if_splits list.splits)
  obtain payload where pay: "b64_decode p = Some payload" "b64_decode s = Some (mac payload)"
    using assms by (auto simp: cursor_decode_with_def Let_def ps split: if_splits option.splits)
  have "(case split_on (CHR ''|'') payload of
           [version, instant, i] \<Rightarrow>
             if version \<noteq> ''v1'' then None
             else (case parse_time instant of
                 None \<Rightarrow> None
               | Some t \<Rightarrow> if \<not> accepts i then None else Some (Some (t, i)))
         | _ \<Rightarrow> None) = Some (Some (t, i))"
    using assms by (simp add: cursor_decode_with_def Let_def ps pay split: if_splits)
  then obtain instant where "split_on (CHR ''|'') payload = [''v1'', instant, i]" "parse_time instant = Some t"
    by (auto split: list.splits if_splits option.splits)
  with ps pay show ?thesis by blast
qed

end
