(* ===== verification/UuidScan.thy ===== *)
theory UuidScan
  imports Postgres
begin

text \<open>
  \<open>pgtype.UUID.Scan\<close> is a parameter of the repositories' models. What they rely on is that it
  reads back the canonical rendering of every UUID; the reader of canonical texts below is one
  instance of it.
\<close>

definition reads_canonical :: "(string \<Rightarrow> uuid option) \<Rightarrow> bool" where
  "reads_canonical scan \<longleftrightarrow> (\<forall>u. scan (uuidToString (Some u)) = Some u)"

definition hex_value :: "char \<Rightarrow> nat" where
  "hex_value c = (if byte c < 58 then byte c - 48 else byte c - 87)"

definition hex_number :: "string \<Rightarrow> nat" where
  "hex_number s = foldl (\<lambda>n c. 16 * n + hex_value c) 0 s"

definition scan_canonical :: "string \<Rightarrow> uuid option" where
  "scan_canonical s =
     (let u = word_of_nat (hex_number (filter (\<lambda>c. c \<noteq> CHR ''-'') s)) in
      if s = uuidToString (Some u) then Some u else None)"

lemma hex_value_digit: "d < 16 \<Longrightarrow> hex_value (hex_digit d) = d"
  by (simp add: hex_value_def byte_hex_digit)

lemma hex_number_digits: "hex_number (hex_digits w n) = n mod 16 ^ w"
proof (induction w arbitrary: n)
  case 0
  then show ?case by (simp add: hex_number_def)
next
  case (Suc w)
  have "hex_number (hex_digits (Suc w) n) = 16 * hex_number (hex_digits w (n div 16)) + n mod 16"
    by (simp add: hex_number_def hex_value_digit)
  also have "\<dots> = n mod 16 ^ Suc w" by (simp only: Suc.IH power_Suc mod_mult2_eq)
  finally show ?case .
qed

lemma hex_digit_not_dash: "d < 16 \<Longrightarrow> hex_digit d \<noteq> CHR ''-''"
proof
  assume d: "d < 16" and "hex_digit d = CHR ''-''"
  then have "byte (hex_digit d) = 45" by simp
  with d show False by (simp add: byte_hex_digit split: if_splits)
qed

lemma filter_hex_digits: "filter (\<lambda>c. c \<noteq> CHR ''-'') (hex_digits w n) = hex_digits w n"
  by (induction w arbitrary: n) (simp_all add: hex_digit_not_dash)

lemma filter_uuid: "filter (\<lambda>c. c \<noteq> CHR ''-'') (uuidToString (Some u)) = hex_digits 32 (unat u)"
proof -
  define h where "h = hex_digits 32 (unat u)"
  have "filter (\<lambda>c. c \<noteq> CHR ''-'') (uuidToString (Some u)) =
      filter (\<lambda>c. c \<noteq> CHR ''-'') (take 8 h @ take 4 (drop 8 h) @ take 4 (drop 12 h) @ take 4 (drop 16 h) @ drop 20 h)"
    by (simp add: uuidToString_def Let_def h_def)
  also have "take 8 h @ take 4 (drop 8 h) @ take 4 (drop 12 h) @ take 4 (drop 16 h) @ drop 20 h = h"
    using append_take_drop_id [of 8 h] append_take_drop_id [of 4 "drop 8 h"]
      append_take_drop_id [of 4 "drop 12 h"] append_take_drop_id [of 4 "drop 16 h"] by simp
  also have "filter (\<lambda>c. c \<noteq> CHR ''-'') h = h" by (simp only: h_def filter_hex_digits)
  finally show ?thesis by (simp only: h_def)
qed

lemma scan_canonical: "reads_canonical scan_canonical"
  unfolding reads_canonical_def
proof
  fix u :: uuid
  have "unat u < 16 ^ 32"
    using unsigned_less [of u, where ?'a = nat] by simp
  then have "hex_number (filter (\<lambda>c. c \<noteq> CHR ''-'') (uuidToString (Some u))) = unat u"
    by (simp only: filter_uuid hex_number_digits mod_less)
  then show "scan_canonical (uuidToString (Some u)) = Some u"
    by (simp add: scan_canonical_def)
qed

end
