(* ===== verification/SignedPages.thy ===== *)
theory SignedPages
  imports SignedCursor UuidScan
begin

text \<open>
  A public list as a client reads it: it asks for a page and sends the cursor of the page back until a
  page has none. Whatever the module, such a list shows every row once, newest first, as long as one
  request answers the keyset page its cursor opens and every cursor opens the page after its row.
\<close>

fun cursor_walk :: "nat \<Rightarrow> (string \<Rightarrow> 'e + 'b list \<times> string) \<Rightarrow> string \<Rightarrow> 'e + 'b list" where
  "cursor_walk 0 fetch cursor = Inr []"
| "cursor_walk (Suc fuel) fetch cursor =
     bind_r (fetch cursor) (\<lambda>(entries, next).
       if next = [] then Inr entries else bind_r (cursor_walk fuel fetch next) (\<lambda>more. Inr (entries @ more)))"

section \<open>Cursors of stored rows\<close>

lemma cursor_encode_nonempty: "cursor_encode mac t i \<noteq> []"
  by (simp add: cursor_encode_def)

lemma byte_bar: "byte (CHR ''|'') = 124"
  by simp

lemma uuid_no_bar: "CHR ''|'' \<notin> set (uuidToString (Some u))"
proof
  assume "CHR ''|'' \<in> set (uuidToString (Some u))"
  then have "CHR ''|'' \<in> set (filter (\<lambda>c. c \<noteq> CHR ''-'') (uuidToString (Some u)))" by simp
  then have "CHR ''|'' \<in> set (hex_digits 32 (unat u))" by (simp only: filter_uuid)
  moreover have "CHR ''|'' \<notin> set (hex_digits w n)" for w n
  proof (induction w arbitrary: n)
    case (Suc w)
    have "n mod 16 < 16" by simp
    then have "n mod 16 \<noteq> 37" by linarith
    then have "byte (hex_digit (n mod 16)) \<noteq> 124" by (simp add: byte_hex_digit)
    then have "hex_digit (n mod 16) \<noteq> CHR ''|''" by (metis byte_bar)
    then show ?case using Suc.IH by auto
  qed simp
  ultimately show False by blast
qed

lemma cursor_of_uuid:
  "parse_time (FormatRFC3339Nano t) = Some t \<Longrightarrow>
   cursor_decode mac parse_time (cursor_encode mac t (uuidToString (Some u))) = Some (Some (t, uuidToString (Some u)))"
  unfolding cursor_decode_def by (rule cursor_roundtrip) (simp_all add: uuid_no_bar uuidToString_printable)

lemma cursor_empty: "TrimSpace raw = [] \<Longrightarrow> cursor_decode mac parse_time raw = Some None"
  by (simp add: cursor_decode_def cursor_decode_with_def)

section \<open>Pages\<close>

text \<open>\<open>opens cursor after\<close>: the server reads this cursor as this position.\<close>

locale signed_pages = keyset_pages key table good page
  for key :: "'a \<Rightarrow> 'k::linorder"
    and table :: "'s \<Rightarrow> 'a list"
    and good :: "'s \<Rightarrow> bool"
    and page :: "'s \<Rightarrow> 'k option \<Rightarrow> nat \<Rightarrow> 'a list" +
  fixes fetch :: "'s \<Rightarrow> string \<Rightarrow> 'e + 'b list \<times> string"
    and limit :: nat
    and opens :: "string \<Rightarrow> 'k option \<Rightarrow> bool"
    and cursor_of :: "'a \<Rightarrow> string"
    and render :: "'a \<Rightarrow> 'b"
  assumes limit_pos: "0 < limit"
    and fetch_page: "good s \<Longrightarrow> opens cursor after \<Longrightarrow> set (page s after (Suc limit)) \<subseteq> set (table s) \<Longrightarrow>
      fetch s cursor =
        (let rows = page s after (Suc limit) in
         Inr (if length rows > limit then (map render (take limit rows), cursor_of (rows ! (limit - 1))) else (map render rows, [])))"
    and cursor_opens: "good s \<Longrightarrow> r \<in> set (table s) \<Longrightarrow> opens (cursor_of r) (Some (key r))"
    and cursor_nonempty: "good s \<Longrightarrow> r \<in> set (table s) \<Longrightarrow> cursor_of r \<noteq> []"
begin

lemma fetch_rest:
  assumes "good s" "newest_first s = shown @ rest" "opens cursor (if shown = [] then None else Some (key (last shown)))"
  shows "fetch s cursor = Inr (if limit < length rest then (map render (take limit rest), cursor_of (rest ! (limit - 1)))
    else (map render rest, []))"
proof -
  have page: "page s (if shown = [] then None else Some (key (last shown))) n = take n rest" for n
    by (rule page_after_prefix [OF assms(1,2) refl])
  have "set rest \<subseteq> set (table s)" using assms(2) set_newest_first [of s] by (metis Un_upper2 set_append)
  then have "set (take (Suc limit) rest) \<subseteq> set (table s)" using set_take_subset by fast
  then show ?thesis
    using fetch_page [OF assms(1,3)] limit_pos
    by (cases "limit < length rest") (simp_all add: page Let_def min_def)
qed

lemma walk_rest:
  assumes "good s"
  shows "newest_first s = shown @ rest \<Longrightarrow> opens cursor (if shown = [] then None else Some (key (last shown))) \<Longrightarrow>
    length rest < fuel \<Longrightarrow> cursor_walk fuel (fetch s) cursor = Inr (map render rest)"
proof (induction fuel arbitrary: shown rest cursor)
  case 0
  then show ?case by simp
next
  case (Suc fuel)
  note fetched = fetch_rest [OF assms Suc.prems(1,2)]
  show ?case
  proof (cases "limit < length rest")
    case False
    then show ?thesis using fetched by simp
  next
    case True
    let ?r = "rest ! (limit - 1)"
    have n: "limit - 1 < length rest" using True by simp
    have ne: "take limit rest \<noteq> []" using limit_pos True by auto
    then have last: "last (shown @ take limit rest) = ?r" using last_conv_nth [OF ne] True by (simp add: min_def)
    have "?r \<in> set (table s)" using nth_mem [OF n] Suc.prems(1) set_newest_first [of s] by (metis Un_iff set_append)
    note r = cursor_opens [OF assms this] cursor_nonempty [OF assms this]
    have "cursor_walk fuel (fetch s) (cursor_of ?r) = Inr (map render (drop limit rest))"
      by (rule Suc.IH [where shown = "shown @ take limit rest"]) (use Suc.prems True limit_pos last ne r in auto)
    then show ?thesis using True fetched r by (simp flip: map_append)
  qed
qed

lemma cursor_walk_complete:
  "good s \<Longrightarrow> opens cursor None \<Longrightarrow> length (table s) < fuel \<Longrightarrow> cursor_walk fuel (fetch s) cursor = Inr (map render (newest_first s))"
  by (rule walk_rest [where shown = "[]"]) (simp_all add: newest_first_def)

end

end
