(* ===== verification/WalletStatement.thy ===== *)
theory WalletStatement
  imports WalletUseCases SignedPages
begin

text \<open>
  \<open>application/get_wallet_statement.go\<close> and \<open>statement_cursor.go\<close>: the paginated statement behind
  signed cursors, and what a client that follows them receives.
\<close>

section \<open>The use case\<close>

definition minStatementCursorSecretLength :: nat where "minStatementCursorSecretLength = 32"

definition NewStatementCursorCodec :: "string \<Rightarrow> wallet_app_error + string" where
  "NewStatementCursorCodec secret =
     (if length secret < minStatementCursorSecretLength then Inl ErrWeakStatementCursorSecret else Inr secret)"

definition StatementCursor_Encode :: "(string \<Rightarrow> string) \<Rightarrow> StatementEntry \<Rightarrow> string" where
  "StatementCursor_Encode mac entry = cursor_encode mac (entry_CreatedAt entry) (entry_TransactionID entry)"

definition StatementCursor_Decode ::
  "(string \<Rightarrow> string) \<Rightarrow> (string \<Rightarrow> time option) \<Rightarrow> string \<Rightarrow> wallet_app_error + StatementPosition option" where
  "StatementCursor_Decode mac parse_time raw =
     (case cursor_decode mac parse_time raw of
        None \<Rightarrow> Inl ErrInvalidCursor
      | Some None \<Rightarrow> Inr None
      | Some (Some (t, i)) \<Rightarrow> Inr (Some \<lparr>position_CreatedAt = t, position_TransactionID = i\<rparr>))"

definition DefaultStatementLimit :: int where "DefaultStatementLimit = 20"
definition MaxStatementLimit :: int where "MaxStatementLimit = 100"

record WalletStatement =
  Entries :: "StatementEntry list"
  NextCursor :: string

definition GetWalletStatement_Execute ::
  "(string \<Rightarrow> uuid option) \<Rightarrow> (string \<Rightarrow> string) \<Rightarrow> (string \<Rightarrow> time option) \<Rightarrow> AccountID \<Rightarrow> string \<Rightarrow> int \<Rightarrow> wallet_db
     \<Rightarrow> wallet_app_error + WalletStatement" where
  "GetWalletStatement_Execute scan mac parse_time accountID cursor limit0 db =
     (if AccountID_IsZero accountID then Inl (Domain ErrEmptyAccountID)
      else bind_r (StatementCursor_Decode mac parse_time cursor) (\<lambda>after.
      let limit = (if limit0 \<le> 0 then DefaultStatementLimit
                   else if limit0 > MaxStatementLimit then MaxStatementLimit else limit0) in
      bind_r (ListStatementPage scan accountID after (limit + 1) db) (\<lambda>entries.
        if int (length entries) > limit
        then Inr \<lparr>Entries = take (nat limit) entries,
                  NextCursor = StatementCursor_Encode mac (take (nat limit) entries ! nat (limit - 1))\<rparr>
        else Inr \<lparr>Entries = entries, NextCursor = []\<rparr>)))"

section \<open>Entries\<close>

text \<open>The references of stored operations are texts their parser accepted, as value objects are.\<close>

definition references_ok :: "wallet_db \<Rightarrow> bool" where
  "references_ok db \<longleftrightarrow> list_all (\<lambda>q. is_Reference (Reference (op_ref q))) (operations db)"

definition entry_of_row :: "StatementRow \<Rightarrow> StatementEntry" where
  "entry_of_row row =
     \<lparr>entry_TransactionID = uuidToString (Some (row_ID row)), entry_OperationID = uuidToString (Some (row_OperationID row)),
      entry_OperationType = row_OperationType row, entry_Reference = Reference (row_Reference row),
      entry_Bucket = row_Bucket row, entry_Amount = row_Amount row, entry_CreatedAt = row_CreatedAt row\<rparr>"

lemma joined_parts: "(t, q) \<in> set (joined db) \<Longrightarrow> t \<in> set (transactions db) \<and> q \<in> set (operations db)"
  by (auto simp: joined_def)

lemma line_parts:
  assumes "ledger_ok db" "row \<in> set (map statement_row (account_lines u db))"
  obtains t q where "row = statement_row (t, q)" "t \<in> set (transactions db)" "q \<in> set (operations db)"
    "op_type q \<in> set AllOperationTypes" "tx_bucket t \<in> {''FREE_INK'', ''PURCHASED_INK''}"
proof -
  obtain t q where "row = statement_row (t, q)" "(t, q) \<in> set (joined db)"
    using assms(2) by (auto simp: account_lines_def)
  moreover from this have "t \<in> set (transactions db)" "q \<in> set (operations db)" using joined_parts by blast+
  moreover have "tables_ok db" by (rule ledger_okD(1) [OF assms(1)])
  ultimately show ?thesis using that by (simp add: tables_ok_def)
qed

lemma statement_entry_ok:
  assumes "ledger_ok db" "references_ok db" "row \<in> set (map statement_row (account_lines u db))"
  shows "statement_entry row = Inr (entry_of_row row)"
proof -
  obtain t q where p: "row = statement_row (t, q)" "t \<in> set (transactions db)" "q \<in> set (operations db)"
    "op_type q \<in> set AllOperationTypes" "tx_bucket t \<in> {''FREE_INK'', ''PURCHASED_INK''}"
    by (rule line_parts [OF assms(1,3)])
  have "ParseOperationType (op_type q) = Inr (op_type q)" using p(4) by (simp add: ParseOperationType_def OperationType_IsValid_iff)
  moreover have "ParseReference (op_ref q) = Inr (Reference (op_ref q))"
    using assms(2) p(3) by (simp add: references_ok_def list_all_iff is_Reference_def)
  moreover have "ParseBucket (tx_bucket t) = Inr (tx_bucket t)" using p(5) by (auto simp: ParseBucket_def Bucket_IsValid_def vocab)
  ultimately show ?thesis by (simp add: statement_entry_def entry_of_row_def p(1) statement_row_def)
qed

lemma statement_entries_ok:
  assumes "ledger_ok db" "references_ok db" "set rows \<subseteq> set (map statement_row (account_lines u db))"
  shows "statement_entries rows = Inr (map entry_of_row rows)"
  using assms(3) by (induction rows) (auto simp: statement_entry_ok [OF assms(1,2)] simp del: set_map)

section \<open>Pages\<close>

text \<open>\<open>time.Parse\<close> reads back the stored instants, which have the resolution of a \<open>timestamptz\<close>.\<close>

definition reads_lines :: "(string \<Rightarrow> time option) \<Rightarrow> wallet_db \<Rightarrow> bool" where
  "reads_lines parse_time db \<longleftrightarrow> (\<forall>t \<in> set (transactions db).
     parse_time (FormatRFC3339Nano (tx_created t)) = Some (tx_created t) \<and> timestamptz (tx_created t) = tx_created t)"

definition statement_limit :: "int \<Rightarrow> nat" where
  "statement_limit limit = nat (if limit \<le> 0 then DefaultStatementLimit else if limit > MaxStatementLimit then MaxStatementLimit else limit)"

lemma statement_limit_bounds: "0 < statement_limit limit" "statement_limit limit \<le> 100"
  by (auto simp: statement_limit_def DefaultStatementLimit_def MaxStatementLimit_def)

lemma statement_limit_int:
  "(if limit \<le> 0 then DefaultStatementLimit else if limit > MaxStatementLimit then MaxStatementLimit else limit) = int (statement_limit limit)"
  by (simp add: statement_limit_def DefaultStatementLimit_def MaxStatementLimit_def)

definition statement_fetch ::
  "(string \<Rightarrow> uuid option) \<Rightarrow> (string \<Rightarrow> string) \<Rightarrow> (string \<Rightarrow> time option) \<Rightarrow> AccountID \<Rightarrow> int \<Rightarrow> wallet_db \<Rightarrow> string
     \<Rightarrow> wallet_app_error + StatementEntry list \<times> string" where
  "statement_fetch scan mac parse_time accountID limit db cursor =
     bind_r (GetWalletStatement_Execute scan mac parse_time accountID cursor limit db) (\<lambda>s. Inr (Entries s, NextCursor s))"

definition statement_opens ::
  "(string \<Rightarrow> uuid option) \<Rightarrow> (string \<Rightarrow> string) \<Rightarrow> (string \<Rightarrow> time option) \<Rightarrow> string \<Rightarrow> keyset option \<Rightarrow> bool" where
  "statement_opens scan mac parse_time cursor after \<longleftrightarrow>
     (case StatementCursor_Decode mac parse_time cursor of
        Inl _ \<Rightarrow> False
      | Inr None \<Rightarrow> after = None
      | Inr (Some p) \<Rightarrow> (\<exists>i. scan (position_TransactionID p) = Some i \<and> after = Some (Keyset (timestamptz (position_CreatedAt p)) i)))"

definition statement_session ::
  "(string \<Rightarrow> uuid option) \<Rightarrow> (string \<Rightarrow> time option) \<Rightarrow> AccountID \<Rightarrow> uuid \<Rightarrow> wallet_db \<Rightarrow> bool" where
  "statement_session scan parse_time accountID u db \<longleftrightarrow>
     ledger_ok db \<and> references_ok db \<and> reads_lines parse_time db \<and> reads_canonical scan
   \<and> scan accountID = Some u \<and> \<not> AccountID_IsZero accountID"

lemma statement_fetch_page:
  assumes "statement_session scan parse_time accountID u db" "statement_opens scan mac parse_time cursor after"
  shows "statement_fetch scan mac parse_time accountID limit db cursor =
    (let rows = keyset_query row_key (map statement_row (account_lines u db)) after (Suc (statement_limit limit)) in
     Inr (if statement_limit limit < length rows
          then (map entry_of_row (take (statement_limit limit) rows),
                StatementCursor_Encode mac (entry_of_row (rows ! (statement_limit limit - 1))))
          else (map entry_of_row rows, [])))"
proof -
  let ?n = "statement_limit limit"
  let ?rows = "keyset_query row_key (map statement_row (account_lines u db)) after (Suc ?n)"
  have s: "ledger_ok db" "references_ok db" "scan accountID = Some u" "\<not> AccountID_IsZero accountID"
    using assms(1) by (simp_all add: statement_session_def)
  have "set ?rows \<subseteq> set (map statement_row (account_lines u db))" by (auto simp: keyset_query_def dest: in_set_takeD)
  note entries = statement_entries_ok [OF s(1,2) this]
  have wrap: "wrap32 (int ?n + 1) = int ?n + 1" using statement_limit_bounds [of limit] by (simp add: int32_defs)
  have n: "nat (int ?n + 1) = Suc ?n" by simp
  obtain p where p: "StatementCursor_Decode mac parse_time cursor = Inr p"
    and at: "case p of None \<Rightarrow> after = None
      | Some q \<Rightarrow> \<exists>i. scan (position_TransactionID q) = Some i \<and> after = Some (Keyset (timestamptz (position_CreatedAt q)) i)"
    using assms(2) by (auto simp: statement_opens_def split: sum.splits option.splits)
  have "ListStatementPage scan accountID p (int ?n + 1) db = Inr (map entry_of_row ?rows)"
    using at entries s(3)
    by (cases p) (auto simp: ListStatementPage_def pgUUIDFromAccountID_def ListWalletStatementPage_def wrap n)
  then have "GetWalletStatement_Execute scan mac parse_time accountID cursor limit db =
      (let entries = map entry_of_row ?rows in
       if int (length entries) > int ?n
       then Inr \<lparr>Entries = take ?n entries, NextCursor = StatementCursor_Encode mac (take ?n entries ! (?n - 1))\<rparr>
       else Inr \<lparr>Entries = entries, NextCursor = []\<rparr>)"
    using statement_limit_bounds [of limit] s(4) unfolding GetWalletStatement_Execute_def statement_limit_int p
    by (simp add: Let_def nat_diff_distrib)
  then show ?thesis using statement_limit_bounds [of limit]
    by (cases "?n < length ?rows") (simp_all add: statement_fetch_def Let_def take_map)
qed

lemma statement_cursor_opens:
  assumes "statement_session scan parse_time accountID u db" "row \<in> set (map statement_row (account_lines u db))"
  shows "statement_opens scan mac parse_time (StatementCursor_Encode mac (entry_of_row row)) (Some (row_key row))"
proof -
  have s: "ledger_ok db" "reads_lines parse_time db" "reads_canonical scan" using assms(1) by (simp_all add: statement_session_def)
  obtain t q where p: "row = statement_row (t, q)" "t \<in> set (transactions db)" by (rule line_parts [OF s(1) assms(2)])
  then have "parse_time (FormatRFC3339Nano (tx_created t)) = Some (tx_created t)" "timestamptz (tx_created t) = tx_created t"
    using s(2) by (simp_all add: reads_lines_def)
  then show ?thesis using cursor_of_uuid [of parse_time "tx_created t" mac "tx_id t"] s(3)
    by (simp add: statement_opens_def StatementCursor_Decode_def StatementCursor_Encode_def entry_of_row_def p(1) statement_row_def
        row_key_def reads_canonical_def)
qed

lemma StatementCursor_Encode_nonempty: "StatementCursor_Encode mac entry \<noteq> []"
  by (simp add: StatementCursor_Encode_def cursor_encode_nonempty)

interpretation pages: signed_pages row_key "\<lambda>db. map statement_row (account_lines u db)"
  "statement_session scan parse_time accountID u"
  "\<lambda>db. keyset_query row_key (map statement_row (account_lines u db))" "statement_fetch scan mac parse_time accountID limit"
  "statement_limit limit" "statement_opens scan mac parse_time" "\<lambda>row. StatementCursor_Encode mac (entry_of_row row)" entry_of_row
  by unfold_locales
    (auto intro: statement_keys_distinct statement_fetch_page statement_cursor_opens
      simp: statement_session_def statement_limit_bounds StatementCursor_Encode_nonempty simp del: map_map)

section \<open>Properties\<close>

text \<open>
  C16. The statement is complete and free of duplicates: an owner who starts without a cursor and
  sends back the cursors it is given receives, whatever the page size asked for, exactly the lines
  of the account, each once and newest first.
\<close>
theorem statement_pages_complete:
  assumes "wallet_reachable scan db" "references_ok db" "reads_lines parse_time db" "reads_canonical scan"
    and "scan accountID = Some u" "\<not> AccountID_IsZero accountID" "TrimSpace cursor = []" "length (account_lines u db) < fuel"
  shows "\<exists>rows. cursor_walk fuel (statement_fetch scan mac parse_time accountID limit db) cursor = Inr (map entry_of_row rows)
    \<and> mset rows = mset (map statement_row (account_lines u db))
    \<and> sorted_wrt (\<lambda>x y. row_key y < row_key x) rows"
proof -
  have session: "statement_session scan parse_time accountID u db"
    using assms(2-6) reachable_ledger_ok [OF assms(1)] by (simp add: statement_session_def)
  let ?rows = "pages.newest_first u db"
  have "statement_opens scan mac parse_time cursor None"
    using assms(7) by (simp add: statement_opens_def StatementCursor_Decode_def cursor_empty)
  then have "cursor_walk fuel (statement_fetch scan mac parse_time accountID limit db) cursor = Inr (map entry_of_row ?rows)"
    using pages.cursor_walk_complete [OF session, of mac cursor fuel limit] assms(8) by simp
  moreover have "mset ?rows = mset (map statement_row (account_lines u db))" by (simp add: pages.newest_first_def)
  moreover have "sorted_wrt (\<lambda>x y. row_key y < row_key x) ?rows" by (rule pages.newest_first_strict [OF session])
  ultimately show ?thesis by blast
qed

definition demo_read :: "string \<Rightarrow> time option" where
  "demo_read s = (if s = FormatRFC3339Nano 0 then Some 0 else None)"

theorem statement_pages_complete_witness:
  "\<exists>rows. cursor_walk 2 (statement_fetch scan_canonical rev demo_read demo_account 1 demo_db1) [] = Inr (map entry_of_row rows)
    \<and> length rows = 1"
proof -
  have u: "scan_canonical demo_account = Some 1" using scan_canonical by (simp only: reads_canonical_def demo_account_def)
  obtain res where "ApplyCredit demo_scan demo_credit demo_db = (res, demo_db1)" using demo_credit_call by blast
  moreover have "ApplyCredit scan_canonical demo_credit demo_db = ApplyCredit demo_scan demo_credit demo_db"
  proof -
    have "credit_AccountID demo_credit = demo_account" "credit_params scan_canonical v demo_credit = credit_params demo_scan v demo_credit" for v
      by (simp_all add: demo_credit_def credit_params_def operationActor_def AccountID_IsZero_def)
    moreover have "pgUUIDFromAccountID scan_canonical demo_account = pgUUIDFromAccountID demo_scan demo_account"
      by (simp add: pgUUIDFromAccountID_def u demo_scan_canonical)
    ultimately show ?thesis unfolding ApplyCredit_def by (simp only:)
  qed
  ultimately have reach: "wallet_reachable scan_canonical demo_db1"
    using wallet_reachable.step [OF wallet_reachable.start [OF demo_init(1)] wallet_step.credit] by metis
  have "references_ok demo_db1" using demo_valid by (simp add: references_ok_def demo_db1_def demo_row_def valid_texts_def)
  moreover have "reads_lines demo_read demo_db1" by (simp add: reads_lines_def demo_db1_def demo_read_def timestamptz_def)
  moreover have "\<not> AccountID_IsZero demo_account" by (simp add: demo_account_def)
  moreover have one: "length (account_lines 1 demo_db1) = 1" by (simp add: account_lines_def joined_def demo_db1_def demo_row_def)
  ultimately obtain rows where rows: "cursor_walk 2 (statement_fetch scan_canonical rev demo_read demo_account 1 demo_db1) [] = Inr (map entry_of_row rows)"
    "mset rows = mset (map statement_row (account_lines 1 demo_db1))"
    using statement_pages_complete [OF reach _ _ scan_canonical u, of demo_read "[]" 2 rev 1] by auto
  from rows(2) have "length rows = 1" using one by (metis length_map size_mset)
  with rows(1) show ?thesis by blast
qed

end
