(* ===== verification/PositionsDomain.thy ===== *)
theory PositionsDomain
  imports GoText GoTime
begin

text \<open>
  \<open>internal/positions/domain\<close>: identifiers, the closed vocabulary of positions, one accepted
  change, the private projection of an account's position in an Arena with its transitions, the
  replay of a history over the initial position, and the privacy policy of aggregates.
\<close>

datatype positions_error =
    ErrEmptyArenaID | ErrInvalidArenaID | ErrEmptyAccountID | ErrInvalidAccountID
  | ErrEmptyPosition | ErrInvalidPosition | ErrSamePosition | ErrInvalidVersion
  | ErrInvalidInstant | ErrBrokenChain | ErrInvalidPolicy

section \<open>Identifiers\<close>

definition maxIdentifierLength :: nat where "maxIdentifierLength = 64"

datatype ArenaID = ArenaID (arena_String: string)
datatype AccountID = AccountID (account_String: string)

definition ParseArenaID :: "string \<Rightarrow> positions_error + ArenaID" where
  "ParseArenaID raw =
     (let trimmed = TrimSpace raw in
      if trimmed = [] then Inl ErrEmptyArenaID
      else if length trimmed > maxIdentifierLength then Inl ErrInvalidArenaID
      else if \<not> list_all printable trimmed then Inl ErrInvalidArenaID
      else Inr (ArenaID trimmed))"

definition ArenaID_IsZero :: "ArenaID \<Rightarrow> bool" where
  "ArenaID_IsZero i \<longleftrightarrow> arena_String i = []"

definition ArenaID_Equals :: "ArenaID \<Rightarrow> ArenaID \<Rightarrow> bool" where
  "ArenaID_Equals i other \<longleftrightarrow> arena_String i = arena_String other"

definition ParseAccountID :: "string \<Rightarrow> positions_error + AccountID" where
  "ParseAccountID raw =
     (let trimmed = TrimSpace raw in
      if trimmed = [] then Inl ErrEmptyAccountID
      else if length trimmed > maxIdentifierLength then Inl ErrInvalidAccountID
      else if \<not> list_all printable trimmed then Inl ErrInvalidAccountID
      else Inr (AccountID trimmed))"

definition AccountID_IsZero :: "AccountID \<Rightarrow> bool" where
  "AccountID_IsZero i \<longleftrightarrow> account_String i = []"

definition AccountID_Equals :: "AccountID \<Rightarrow> AccountID \<Rightarrow> bool" where
  "AccountID_Equals i other \<longleftrightarrow> account_String i = account_String other"

interpretation arena_id: printable_identifier ParseArenaID arena_String maxIdentifierLength
proof unfold_locales
  show "ParseArenaID raw = Inr v \<Longrightarrow> arena_String v = TrimSpace raw" for raw v
    by (auto simp: ParseArenaID_def Let_def split: if_splits)
  show "(\<exists>v. ParseArenaID raw = Inr v) \<longleftrightarrow> TrimSpace raw \<noteq> [] \<and>
      length (TrimSpace raw) \<le> maxIdentifierLength \<and> list_all printable (TrimSpace raw)" for raw
    by (auto simp: ParseArenaID_def Let_def)
  show "arena_String v = arena_String w \<Longrightarrow> v = w" for v w
    by (rule ArenaID.expand)
qed

interpretation account_id: printable_identifier ParseAccountID account_String maxIdentifierLength
proof unfold_locales
  show "ParseAccountID raw = Inr v \<Longrightarrow> account_String v = TrimSpace raw" for raw v
    by (auto simp: ParseAccountID_def Let_def split: if_splits)
  show "(\<exists>v. ParseAccountID raw = Inr v) \<longleftrightarrow> TrimSpace raw \<noteq> [] \<and>
      length (TrimSpace raw) \<le> maxIdentifierLength \<and> list_all printable (TrimSpace raw)" for raw
    by (auto simp: ParseAccountID_def Let_def)
  show "account_String v = account_String w \<Longrightarrow> v = w" for v w
    by (rule AccountID.expand)
qed

section \<open>Positions\<close>

datatype Position = Position (position_String: string)

definition PositionAgree :: string where [vocab]: "PositionAgree = ''agree''"
definition PositionDisagree :: string where [vocab]: "PositionDisagree = ''disagree''"
definition PositionUndecided :: string where [vocab]: "PositionUndecided = ''undecided''"

definition ParsePosition :: "string \<Rightarrow> positions_error + Position" where
  "ParsePosition raw =
     (let trimmed = TrimSpace raw in
      if trimmed = [] then Inl ErrEmptyPosition
      else if trimmed \<in> {PositionAgree, PositionDisagree, PositionUndecided} then Inr (Position trimmed)
      else Inl ErrInvalidPosition)"

definition SupportedPositions :: "Position list" where
  "SupportedPositions = [Position PositionAgree, Position PositionDisagree, Position PositionUndecided]"

definition Position_IsZero :: "Position \<Rightarrow> bool" where
  "Position_IsZero p \<longleftrightarrow> position_String p = []"

definition IsSupported :: "Position \<Rightarrow> bool" where
  "IsSupported p \<longleftrightarrow> position_String p \<in> {PositionAgree, PositionDisagree, PositionUndecided}"

definition Position_Equals :: "Position \<Rightarrow> Position \<Rightarrow> bool" where
  "Position_Equals p other \<longleftrightarrow> position_String p = position_String other"

lemma Position_Equals_iff [simp]: "Position_Equals p q \<longleftrightarrow> p = q"
  by (auto simp: Position_Equals_def intro: Position.expand)

lemma IsSupported_iff: "IsSupported p \<longleftrightarrow> p \<in> set SupportedPositions"
  by (cases p) (simp add: IsSupported_def SupportedPositions_def)

lemma supported_not_zero [simp]: "IsSupported p \<Longrightarrow> \<not> Position_IsZero p"
  by (auto simp: IsSupported_def Position_IsZero_def vocab)

lemma vocabulary_printable: "IsSupported p \<Longrightarrow> list_all printable (position_String p)"
  by (auto simp: IsSupported_def vocab printable_def)

lemma ParsePosition_Inr: "ParsePosition raw = Inr p \<Longrightarrow> IsSupported p"
  by (auto simp: ParsePosition_def IsSupported_def Let_def split: if_splits)

lemma ParsePosition_supported: "IsSupported p \<Longrightarrow> ParsePosition (position_String p) = Inr p"
  using vocabulary_printable [of p] by (cases p) (auto simp: ParsePosition_def IsSupported_def Let_def vocab)

section \<open>Changes\<close>

record PositionChange =
  change_arenaID :: ArenaID
  change_accountID :: AccountID
  change_from :: Position
  change_to :: Position
  change_version :: int
  change_changedAt :: time

definition NewPositionChange ::
  "ArenaID \<Rightarrow> AccountID \<Rightarrow> Position \<Rightarrow> Position \<Rightarrow> int \<Rightarrow> time \<Rightarrow> positions_error + PositionChange" where
  "NewPositionChange arenaID accountID from_p to_p version changedAt =
     (if ArenaID_IsZero arenaID then Inl ErrEmptyArenaID
      else if AccountID_IsZero accountID then Inl ErrEmptyAccountID
      else if Position_IsZero from_p \<or> Position_IsZero to_p then Inl ErrEmptyPosition
      else if \<not> IsSupported from_p \<or> \<not> IsSupported to_p then Inl ErrInvalidPosition
      else if Position_Equals from_p to_p then Inl ErrSamePosition
      else if version < 2 then Inl ErrInvalidVersion
      else if time_IsZero changedAt then Inl ErrInvalidInstant
      else Inr \<lparr>change_arenaID = arenaID, change_accountID = accountID, change_from = from_p,
                change_to = to_p, change_version = version, change_changedAt = changedAt\<rparr>)"

lemma NewPositionChange_Inr:
  "NewPositionChange a u f t v at = Inr c \<longleftrightarrow>
     \<not> ArenaID_IsZero a \<and> \<not> AccountID_IsZero u \<and> IsSupported f \<and> IsSupported t \<and> f \<noteq> t \<and> 2 \<le> v
   \<and> \<not> time_IsZero at
   \<and> c = \<lparr>change_arenaID = a, change_accountID = u, change_from = f, change_to = t, change_version = v, change_changedAt = at\<rparr>"
  by (auto simp: NewPositionChange_def)

text \<open>The replay of a history over the initial position.\<close>

fun derive_loop :: "PositionChange list \<Rightarrow> Position \<Rightarrow> int \<Rightarrow> positions_error + Position \<times> int" where
  "derive_loop [] current version = Inr (current, version)"
| "derive_loop (c # changes) current version =
     (if change_version c \<noteq> wrap32 (version + 1) \<or> \<not> Position_Equals (change_from c) current then Inl ErrBrokenChain
      else derive_loop changes (change_to c) (change_version c))"

definition DeriveCurrentPosition :: "Position \<Rightarrow> PositionChange list \<Rightarrow> positions_error + Position \<times> int" where
  "DeriveCurrentPosition initial changes =
     (if Position_IsZero initial then Inl ErrEmptyPosition
      else if \<not> IsSupported initial then Inl ErrInvalidPosition
      else derive_loop changes initial 1)"

lemma derive_loop_append:
  "derive_loop (xs @ ys) p v = bind_r (derive_loop xs p v) (\<lambda>(q, w). derive_loop ys q w)"
  by (induction xs arbitrary: p v) auto

lemma derive_loop_version:
  "derive_loop cs p v = Inr (q, w) \<Longrightarrow> 0 \<le> v \<Longrightarrow> v + int (length cs) \<le> MaxInt32 \<Longrightarrow> w = v + int (length cs)"
proof (induction cs arbitrary: p v)
  case Nil
  then show ?case by simp
next
  case (Cons c cs)
  then have "wrap32 (v + 1) = v + 1" by (simp add: int32_defs)
  with Cons.prems have "derive_loop cs (change_to c) (v + 1) = Inr (q, w)" by (simp split: if_splits)
  from Cons.IH [OF this] Cons.prems show ?case by simp
qed

section \<open>The projection\<close>

record DebatePosition =
  arenaID :: ArenaID
  accountID :: AccountID
  initial :: Position
  current :: Position
  version :: int
  createdAt :: time
  updatedAt :: time

definition validateIdentity :: "ArenaID \<Rightarrow> AccountID \<Rightarrow> positions_error + unit" where
  "validateIdentity arena account =
     (if ArenaID_IsZero arena then Inl ErrEmptyArenaID
      else if AccountID_IsZero account then Inl ErrEmptyAccountID else Inr ())"

definition validatePosition :: "Position \<Rightarrow> positions_error + unit" where
  "validatePosition p =
     (if Position_IsZero p then Inl ErrEmptyPosition
      else if \<not> IsSupported p then Inl ErrInvalidPosition else Inr ())"

definition ConfirmInitialPosition :: "ArenaID \<Rightarrow> AccountID \<Rightarrow> Position \<Rightarrow> time \<Rightarrow> positions_error + DebatePosition" where
  "ConfirmInitialPosition arena account p at =
     bind_r (validateIdentity arena account) (\<lambda>_.
     bind_r (validatePosition p) (\<lambda>_.
       if time_IsZero at then Inl ErrInvalidInstant
       else Inr \<lparr>arenaID = arena, accountID = account, initial = p, current = p, version = 1,
                 createdAt = at, updatedAt = at\<rparr>))"

definition ReconstituteDebatePosition ::
  "ArenaID \<Rightarrow> AccountID \<Rightarrow> Position \<Rightarrow> Position \<Rightarrow> int \<Rightarrow> time \<Rightarrow> time \<Rightarrow> positions_error + DebatePosition" where
  "ReconstituteDebatePosition arena account i c v created updated =
     bind_r (validateIdentity arena account) (\<lambda>_.
     bind_r (validatePosition i) (\<lambda>_.
     bind_r (validatePosition c) (\<lambda>_.
       if v < 1 then Inl ErrInvalidVersion
       else if time_IsZero created \<or> time_IsZero updated \<or> updated < created then Inl ErrInvalidInstant
       else if v = 1 \<and> \<not> Position_Equals c i then Inl ErrBrokenChain
       else Inr \<lparr>arenaID = arena, accountID = account, initial = i, current = c, version = v,
                 createdAt = created, updatedAt = updated\<rparr>)))"

text \<open>\<open>ChangeTo\<close> mutates the projection: the model returns the change and the projection after it.\<close>

definition ChangeTo :: "DebatePosition \<Rightarrow> Position \<Rightarrow> time \<Rightarrow> positions_error + PositionChange \<times> DebatePosition" where
  "ChangeTo p next at =
     bind_r (validatePosition next) (\<lambda>_.
       if Position_Equals next (current p) then Inl ErrSamePosition
       else if time_IsZero at \<or> at < updatedAt p then Inl ErrInvalidInstant
       else bind_r (NewPositionChange (arenaID p) (accountID p) (current p) next (wrap32 (version p + 1)) at) (\<lambda>c.
         Inr (c, p\<lparr>current := next, version := change_version c, updatedAt := at\<rparr>)))"

lemma validatePosition_iff [simp]: "validatePosition p = Inr () \<longleftrightarrow> IsSupported p"
  by (auto simp: validatePosition_def)

lemma validateIdentity_iff [simp]:
  "validateIdentity a u = Inr () \<longleftrightarrow> \<not> ArenaID_IsZero a \<and> \<not> AccountID_IsZero u"
  by (simp add: validateIdentity_def)

lemma ReconstituteDebatePosition_Inr:
  "ReconstituteDebatePosition a u i c v cr up = Inr d \<longleftrightarrow>
     \<not> ArenaID_IsZero a \<and> \<not> AccountID_IsZero u \<and> IsSupported i \<and> IsSupported c \<and> 1 \<le> v
   \<and> \<not> time_IsZero cr \<and> \<not> time_IsZero up \<and> cr \<le> up \<and> (v = 1 \<longrightarrow> c = i)
   \<and> d = \<lparr>arenaID = a, accountID = u, initial = i, current = c, version = v, createdAt = cr, updatedAt = up\<rparr>"
  by (auto simp: ReconstituteDebatePosition_def bind_r_Inr_iff split: if_splits)

lemma ChangeTo_Inr:
  "ChangeTo p next at = Inr (c, p') \<longleftrightarrow>
     IsSupported next \<and> next \<noteq> current p \<and> \<not> time_IsZero at \<and> updatedAt p \<le> at
   \<and> NewPositionChange (arenaID p) (accountID p) (current p) next (wrap32 (version p + 1)) at = Inr c
   \<and> p' = p\<lparr>current := next, version := change_version c, updatedAt := at\<rparr>"
  by (auto simp: ChangeTo_def bind_r_Inr_iff split: if_splits)

section \<open>The aggregate policy\<close>

record AggregatePolicy =
  policy_Version :: string
  MinParticipants :: int

definition DefaultAggregatePolicy :: AggregatePolicy where
  "DefaultAggregatePolicy = \<lparr>policy_Version = ''2026-09'', MinParticipants = 10\<rparr>"

definition AggregatePolicy_IsValid :: "AggregatePolicy \<Rightarrow> bool" where
  "AggregatePolicy_IsValid p \<longleftrightarrow> policy_Version p \<noteq> [] \<and> MinParticipants p \<ge> 1"

definition Suppresses :: "AggregatePolicy \<Rightarrow> int \<Rightarrow> bool" where
  "Suppresses p population \<longleftrightarrow> population < MinParticipants p"

end
