(* ===== verification/PositionsStore.thy ===== *)
theory PositionsStore
  imports PositionsDomain Postgres
begin

text \<open>
  The tables of the positions module (migration 00014), the statements of
  \<open>internal/platform/postgres/positions.sql.go\<close> and the repository
  \<open>internal/positions/adapters/postgres/repository.go\<close>. \<open>scan\<close> stands for \<open>pgtype.UUID.Scan\<close>.
\<close>

section \<open>Tables\<close>

record AppDebatePosition =
  dp_ArenaID :: uuid
  dp_AccountID :: uuid
  dp_InitialPosition :: string
  dp_CurrentPosition :: string
  dp_Version :: int
  dp_CreatedAt :: time
  dp_UpdatedAt :: time

record AppPositionChange =
  pc_ID :: uuid
  pc_ArenaID :: uuid
  pc_AccountID :: uuid
  pc_FromPosition :: string
  pc_ToPosition :: string
  pc_Version :: int
  pc_ChangedAt :: time

text \<open>
  \<open>account_status\<close> is the table \<open>app.accounts\<close> as far as the module reads it, \<open>arena_ids\<close> the keys
  of \<open>app.arenas\<close>, \<open>pos_uuid_gen\<close> and \<open>pos_uuid_next\<close> the values of \<open>uuidv7()\<close>.
\<close>

record positions_db =
  account_status :: "uuid \<Rightarrow> string option"
  arena_ids :: "uuid list"
  debate_positions :: "AppDebatePosition list"
  position_changes :: "AppPositionChange list"
  pos_uuid_gen :: "nat \<Rightarrow> uuid"
  pos_uuid_next :: nat

definition position_values :: "string list" where
  "position_values = [''agree'', ''disagree'', ''undecided'']"

definition dp_key :: "AppDebatePosition \<Rightarrow> uuid \<times> uuid" where
  "dp_key r = (dp_ArenaID r, dp_AccountID r)"

definition pc_key :: "AppPositionChange \<Rightarrow> uuid \<times> uuid" where
  "pc_key r = (pc_ArenaID r, pc_AccountID r)"

section \<open>Statements\<close>

definition sql_ConfirmInitialPosition ::
  "uuid \<Rightarrow> uuid \<Rightarrow> string \<Rightarrow> time \<Rightarrow> positions_db \<Rightarrow> pg_error + AppDebatePosition \<times> positions_db" where
  "sql_ConfirmInitialPosition arena account p at db =
     (let row = \<lparr>dp_ArenaID = arena, dp_AccountID = account, dp_InitialPosition = p, dp_CurrentPosition = p,
                 dp_Version = 1, dp_CreatedAt = timestamptz at, dp_UpdatedAt = timestamptz at\<rparr> in
      if p \<notin> set position_values then Inl CheckViolation
      else if (arena, account) \<in> dp_key ` set (debate_positions db) then Inl NoRows
      else if arena \<notin> set (arena_ids db) \<or> account_status db account = None then Inl ForeignKeyViolation
      else Inr (row, db\<lparr>debate_positions := debate_positions db @ [row]\<rparr>))"

definition sql_GetDebatePosition :: "uuid \<Rightarrow> uuid \<Rightarrow> positions_db \<Rightarrow> pg_error + AppDebatePosition" where
  "sql_GetDebatePosition arena account db =
     (case find (\<lambda>r. dp_key r = (arena, account)) (debate_positions db) of None \<Rightarrow> Inl NoRows | Some row \<Rightarrow> Inr row)"

definition sql_CreatePositionChange ::
  "uuid \<Rightarrow> uuid \<Rightarrow> string \<Rightarrow> string \<Rightarrow> int \<Rightarrow> time \<Rightarrow> positions_db \<Rightarrow> pg_error + uuid \<times> positions_db" where
  "sql_CreatePositionChange arena account from_p to_p v at db =
     (let row = \<lparr>pc_ID = pos_uuid_gen db (pos_uuid_next db), pc_ArenaID = arena, pc_AccountID = account,
                 pc_FromPosition = from_p, pc_ToPosition = to_p, pc_Version = v, pc_ChangedAt = timestamptz at\<rparr> in
      if from_p \<notin> set position_values \<or> to_p \<notin> set position_values \<or> from_p = to_p \<or> v < 2 then Inl CheckViolation
      else if pc_ID row \<in> pc_ID ` set (position_changes db) then Inl UniqueViolation
      else if (arena, account, v) \<in> (\<lambda>r. (pc_ArenaID r, pc_AccountID r, pc_Version r)) ` set (position_changes db)
        then Inl UniqueViolation
      else if (arena, account) \<notin> dp_key ` set (debate_positions db) then Inl ForeignKeyViolation
      else Inr (pc_ID row, db\<lparr>position_changes := position_changes db @ [row], pos_uuid_next := Suc (pos_uuid_next db)\<rparr>))"

text \<open>The update returns the number of rows it touched.\<close>

definition sql_UpdateCurrentPosition ::
  "uuid \<Rightarrow> uuid \<Rightarrow> string \<Rightarrow> int \<Rightarrow> time \<Rightarrow> int \<Rightarrow> positions_db \<Rightarrow> pg_error + int \<times> positions_db" where
  "sql_UpdateCurrentPosition arena account p v at expected db =
     (let hit = (\<lambda>r. dp_key r = (arena, account) \<and> dp_Version r = expected);
          n = length (filter hit (debate_positions db)) in
      if n > 0 \<and> (p \<notin> set position_values \<or> v < 1) then Inl CheckViolation
      else Inr (int n, db\<lparr>debate_positions :=
              map (\<lambda>r. if hit r then r\<lparr>dp_CurrentPosition := p, dp_Version := v, dp_UpdatedAt := timestamptz at\<rparr> else r)
                  (debate_positions db)\<rparr>))"

definition sql_ListPositionChanges :: "uuid \<Rightarrow> uuid \<Rightarrow> positions_db \<Rightarrow> AppPositionChange list" where
  "sql_ListPositionChanges arena account db =
     rev (sort_key pc_Version (filter (\<lambda>r. pc_key r = (arena, account)) (position_changes db)))"

record CountEligiblePositionsByArenaRow =
  count_Total :: int
  InitialAgree :: int
  InitialDisagree :: int
  InitialUndecided :: int
  CurrentAgree :: int
  CurrentDisagree :: int
  CurrentUndecided :: int

definition eligible_positions :: "uuid \<Rightarrow> positions_db \<Rightarrow> AppDebatePosition list" where
  "eligible_positions arena db =
     filter (\<lambda>r. dp_ArenaID r = arena \<and> account_status db (dp_AccountID r) = Some ''active'') (debate_positions db)"

definition count_where :: "('a \<Rightarrow> bool) \<Rightarrow> 'a list \<Rightarrow> int" where
  "count_where P rows = int (length (filter P rows))"

definition sql_CountEligiblePositionsByArena :: "uuid \<Rightarrow> positions_db \<Rightarrow> CountEligiblePositionsByArenaRow" where
  "sql_CountEligiblePositionsByArena arena db =
     (let rows = eligible_positions arena db in
      \<lparr>count_Total = int (length rows),
       InitialAgree = count_where (\<lambda>r. dp_InitialPosition r = ''agree'') rows,
       InitialDisagree = count_where (\<lambda>r. dp_InitialPosition r = ''disagree'') rows,
       InitialUndecided = count_where (\<lambda>r. dp_InitialPosition r = ''undecided'') rows,
       CurrentAgree = count_where (\<lambda>r. dp_CurrentPosition r = ''agree'') rows,
       CurrentDisagree = count_where (\<lambda>r. dp_CurrentPosition r = ''disagree'') rows,
       CurrentUndecided = count_where (\<lambda>r. dp_CurrentPosition r = ''undecided'') rows\<rparr>)"

section \<open>The repository\<close>

datatype positions_app_error =
    ErrPositionNotFound | ErrInitialPositionAlreadySet | ErrVersionConflict | ErrAccountNotFound
  | ErrAccountNotEligible | ErrAccountSuspended | ErrArenaNotFound | ErrArenaNotOpen
  | Domain positions_error | Pg pg_error

definition uuidParam :: "(string \<Rightarrow> uuid option) \<Rightarrow> string \<Rightarrow> uuid option" where
  "uuidParam scan raw = scan raw"

definition positionScope ::
  "(string \<Rightarrow> uuid option) \<Rightarrow> ArenaID \<Rightarrow> AccountID \<Rightarrow> positions_app_error + uuid \<times> uuid" where
  "positionScope scan arena account =
     (case uuidParam scan (arena_String arena) of
        None \<Rightarrow> Inl ErrArenaNotFound
      | Some a \<Rightarrow> (case uuidParam scan (account_String account) of
          None \<Rightarrow> Inl ErrPositionNotFound
        | Some u \<Rightarrow> Inr (a, u)))"

definition mapDebatePosition :: "AppDebatePosition \<Rightarrow> positions_app_error + DebatePosition" where
  "mapDebatePosition row =
     bind_r (wrap_err Domain (ParseArenaID (uuidToString (Some (dp_ArenaID row))))) (\<lambda>arena.
     bind_r (wrap_err Domain (ParseAccountID (uuidToString (Some (dp_AccountID row))))) (\<lambda>account.
     bind_r (wrap_err Domain (ParsePosition (dp_InitialPosition row))) (\<lambda>i.
     bind_r (wrap_err Domain (ParsePosition (dp_CurrentPosition row))) (\<lambda>c.
       wrap_err Domain (ReconstituteDebatePosition arena account i c (dp_Version row)
         (dp_CreatedAt row) (dp_UpdatedAt row))))))"

definition mapPositionChange :: "AppPositionChange \<Rightarrow> positions_app_error + PositionChange" where
  "mapPositionChange row =
     bind_r (wrap_err Domain (ParseArenaID (uuidToString (Some (pc_ArenaID row))))) (\<lambda>arena.
     bind_r (wrap_err Domain (ParseAccountID (uuidToString (Some (pc_AccountID row))))) (\<lambda>account.
     bind_r (wrap_err Domain (ParsePosition (pc_FromPosition row))) (\<lambda>f.
     bind_r (wrap_err Domain (ParsePosition (pc_ToPosition row))) (\<lambda>t.
       wrap_err Domain (NewPositionChange arena account f t (pc_Version row) (pc_ChangedAt row))))))"

definition GetByAccountAndArena ::
  "(string \<Rightarrow> uuid option) \<Rightarrow> ArenaID \<Rightarrow> AccountID \<Rightarrow> positions_db \<Rightarrow> positions_app_error + DebatePosition" where
  "GetByAccountAndArena scan arena account db =
     bind_r (positionScope scan arena account) (\<lambda>(a, u).
       case sql_GetDebatePosition a u db of
         Inl NoRows \<Rightarrow> Inl ErrPositionNotFound
       | Inl e \<Rightarrow> Inl (Pg e)
       | Inr row \<Rightarrow> mapDebatePosition row)"

text \<open>\<open>None\<close> is the code's \<open>inserted = false\<close>.\<close>

definition repo_ConfirmInitialPosition ::
  "(string \<Rightarrow> uuid option) \<Rightarrow> ArenaID \<Rightarrow> AccountID \<Rightarrow> Position \<Rightarrow> time \<Rightarrow> positions_db
     \<Rightarrow> (positions_app_error + DebatePosition option) \<times> positions_db" where
  "repo_ConfirmInitialPosition scan arena account p at db =
     (case positionScope scan arena account of
        Inl e \<Rightarrow> (Inl e, db)
      | Inr (a, u) \<Rightarrow> (case sql_ConfirmInitialPosition a u (position_String p) at db of
          Inl NoRows \<Rightarrow> (Inr None, db)
        | Inl e \<Rightarrow> (Inl (Pg e), db)
        | Inr (row, db') \<Rightarrow> (bind_r (mapDebatePosition row) (\<lambda>created. Inr (Some created)), db')))"

definition repo_CreatePositionChange ::
  "(string \<Rightarrow> uuid option) \<Rightarrow> PositionChange \<Rightarrow> positions_db \<Rightarrow> positions_app_error + string \<times> positions_db" where
  "repo_CreatePositionChange scan c db =
     bind_r (positionScope scan (change_arenaID c) (change_accountID c)) (\<lambda>(a, u).
       case sql_CreatePositionChange a u (position_String (change_from c)) (position_String (change_to c))
              (change_version c) (change_changedAt c) db of
         Inl UniqueViolation \<Rightarrow> Inl ErrVersionConflict
       | Inl e \<Rightarrow> Inl (Pg e)
       | Inr (i, db') \<Rightarrow> Inr (uuidToString (Some i), db'))"

definition diagnoseProjectionMiss :: "uuid \<Rightarrow> uuid \<Rightarrow> positions_db \<Rightarrow> positions_app_error" where
  "diagnoseProjectionMiss a u db =
     (case sql_GetDebatePosition a u db of
        Inl NoRows \<Rightarrow> ErrPositionNotFound
      | Inl e \<Rightarrow> Pg e
      | Inr _ \<Rightarrow> ErrVersionConflict)"

definition repo_UpdateCurrentPosition ::
  "(string \<Rightarrow> uuid option) \<Rightarrow> PositionChange \<Rightarrow> int \<Rightarrow> positions_db \<Rightarrow> positions_app_error + positions_db" where
  "repo_UpdateCurrentPosition scan c expectedVersion db =
     bind_r (positionScope scan (change_arenaID c) (change_accountID c)) (\<lambda>(a, u).
       case sql_UpdateCurrentPosition a u (position_String (change_to c)) (change_version c)
              (change_changedAt c) expectedVersion db of
         Inl e \<Rightarrow> Inl (Pg e)
       | Inr (rows, db') \<Rightarrow> if rows = 0 then Inl (diagnoseProjectionMiss a u db') else Inr db')"

record PositionChangeRecord =
  record_ID :: string
  record_Change :: PositionChange

fun map_change_rows :: "AppPositionChange list \<Rightarrow> positions_app_error + PositionChangeRecord list" where
  "map_change_rows [] = Inr []"
| "map_change_rows (row # rows) =
     bind_r (mapPositionChange row) (\<lambda>c.
     bind_r (map_change_rows rows) (\<lambda>rs. Inr (\<lparr>record_ID = uuidToString (Some (pc_ID row)), record_Change = c\<rparr> # rs)))"

definition ListPositionChanges ::
  "(string \<Rightarrow> uuid option) \<Rightarrow> ArenaID \<Rightarrow> AccountID \<Rightarrow> positions_db \<Rightarrow> positions_app_error + PositionChangeRecord list" where
  "ListPositionChanges scan arena account db =
     bind_r (positionScope scan arena account) (\<lambda>(a, u). map_change_rows (sql_ListPositionChanges a u db))"

record PositionDistribution =
  Agree :: int
  Disagree :: int
  Undecided :: int

definition PositionDistribution_Total :: "PositionDistribution \<Rightarrow> int" where
  "PositionDistribution_Total d = wrap64 (wrap64 (Agree d + Disagree d) + Undecided d)"

definition CountEligiblePositions ::
  "(string \<Rightarrow> uuid option) \<Rightarrow> ArenaID \<Rightarrow> positions_db \<Rightarrow> positions_app_error + PositionDistribution \<times> PositionDistribution" where
  "CountEligiblePositions scan arena db =
     (case uuidParam scan (arena_String arena) of
        None \<Rightarrow> Inl ErrArenaNotFound
      | Some a \<Rightarrow>
          (let row = sql_CountEligiblePositionsByArena a db in
           Inr (\<lparr>Agree = InitialAgree row, Disagree = InitialDisagree row, Undecided = InitialUndecided row\<rparr>,
                \<lparr>Agree = CurrentAgree row, Disagree = CurrentDisagree row, Undecided = CurrentUndecided row\<rparr>)))"

end
