(* ===== verification/PositionsUseCases.thy ===== *)
theory PositionsUseCases
  imports PositionsStore
begin

text \<open>
  \<open>internal/positions/application\<close>: the use cases over the repository. A use case reads the
  projection outside the transaction it writes in, so it is a function of the state it read
  (\<open>seen\<close>) and of the state its transaction runs on (\<open>db\<close>). The eligibility ports
  (\<open>EnsureEligible\<close>, \<open>EnsureAcceptsPositions\<close>) are answered by other modules: each is a
  parameter returning the error it reports, or \<open>None\<close>.
\<close>

record ChangePositionCommand =
  change_cmd_AccountID :: string
  change_cmd_ArenaID :: string
  change_cmd_Position :: string

record ChangePositionResult =
  ChangeID :: string
  changed_Position :: DebatePosition

section \<open>Changing a position\<close>

text \<open>The unit of work: both statements commit, or the state is the one before them.\<close>

definition change_transaction ::
  "(string \<Rightarrow> uuid option) \<Rightarrow> PositionChange \<Rightarrow> int \<Rightarrow> positions_db \<Rightarrow> (positions_app_error + string) \<times> positions_db" where
  "change_transaction scan c expectedVersion db =
     (case repo_CreatePositionChange scan c db of
        Inl e \<Rightarrow> (Inl e, db)
      | Inr (changeID, db1) \<Rightarrow> (case repo_UpdateCurrentPosition scan c expectedVersion db1 of
          Inl e \<Rightarrow> (Inl e, db)
        | Inr db2 \<Rightarrow> (Inr changeID, db2)))"

definition ChangePosition_Execute ::
  "(string \<Rightarrow> uuid option) \<Rightarrow> (ArenaID \<Rightarrow> positions_app_error option) \<Rightarrow> time \<Rightarrow> ChangePositionCommand
     \<Rightarrow> positions_db \<Rightarrow> positions_db \<Rightarrow> (positions_app_error + ChangePositionResult) \<times> positions_db" where
  "ChangePosition_Execute scan accepts now cmd seen db =
     (case ParseArenaID (change_cmd_ArenaID cmd) of
        Inl e \<Rightarrow> (Inl (Domain e), db)
      | Inr arena \<Rightarrow>
     (case ParseAccountID (change_cmd_AccountID cmd) of
        Inl e \<Rightarrow> (Inl (Domain e), db)
      | Inr account \<Rightarrow>
     (case ParsePosition (change_cmd_Position cmd) of
        Inl e \<Rightarrow> (Inl (Domain e), db)
      | Inr next \<Rightarrow>
     (case GetByAccountAndArena scan arena account seen of
        Inl e \<Rightarrow> (Inl e, db)
      | Inr projection \<Rightarrow>
     (case accepts arena of
        Some e \<Rightarrow> (Inl e, db)
      | None \<Rightarrow>
     (case ChangeTo projection next now of
        Inl e \<Rightarrow> (Inl (Domain e), db)
      | Inr (c, projection') \<Rightarrow>
     (case change_transaction scan c (version projection) db of
        (Inl e, db') \<Rightarrow> (Inl e, db')
      | (Inr i, db') \<Rightarrow> (Inr \<lparr>ChangeID = i, changed_Position = projection'\<rparr>, db'))))))))"

section \<open>Confirming the initial position\<close>

record ConfirmInitialPositionCommand =
  confirm_cmd_AccountID :: string
  confirm_cmd_ArenaID :: string
  confirm_cmd_Position :: string

record ConfirmInitialPositionResult =
  confirmed_Position :: DebatePosition
  confirmed_Replayed :: bool

definition resolveExistingConfirmation ::
  "DebatePosition \<Rightarrow> Position \<Rightarrow> positions_app_error + ConfirmInitialPositionResult" where
  "resolveExistingConfirmation stored requested =
     (if Position_Equals (initial stored) requested
      then Inr \<lparr>confirmed_Position = stored, confirmed_Replayed = True\<rparr>
      else Inl ErrInitialPositionAlreadySet)"

text \<open>The insert commits on its own; a lost race is resolved against the state it met.\<close>

definition ConfirmInitialPosition_Execute ::
  "(string \<Rightarrow> uuid option) \<Rightarrow> (AccountID \<Rightarrow> positions_app_error option) \<Rightarrow> (ArenaID \<Rightarrow> positions_app_error option)
     \<Rightarrow> time \<Rightarrow> ConfirmInitialPositionCommand \<Rightarrow> positions_db \<Rightarrow> positions_db
     \<Rightarrow> (positions_app_error + ConfirmInitialPositionResult) \<times> positions_db" where
  "ConfirmInitialPosition_Execute scan eligible accepts now cmd seen db =
     (case ParseArenaID (confirm_cmd_ArenaID cmd) of
        Inl e \<Rightarrow> (Inl (Domain e), db)
      | Inr arena \<Rightarrow>
     (case ParseAccountID (confirm_cmd_AccountID cmd) of
        Inl e \<Rightarrow> (Inl (Domain e), db)
      | Inr account \<Rightarrow>
     (case ParsePosition (confirm_cmd_Position cmd) of
        Inl e \<Rightarrow> (Inl (Domain e), db)
      | Inr p \<Rightarrow>
     (case GetByAccountAndArena scan arena account seen of
        Inr stored \<Rightarrow> (resolveExistingConfirmation stored p, db)
      | Inl e \<Rightarrow>
        if e \<noteq> ErrPositionNotFound then (Inl e, db)
        else
     (case eligible account of
        Some e \<Rightarrow> (Inl e, db)
      | None \<Rightarrow>
     (case accepts arena of
        Some e \<Rightarrow> (Inl e, db)
      | None \<Rightarrow>
     (case repo_ConfirmInitialPosition scan arena account p now db of
        (Inl e, db') \<Rightarrow> (Inl e, db')
      | (Inr (Some created), db') \<Rightarrow> (Inr \<lparr>confirmed_Position = created, confirmed_Replayed = False\<rparr>, db')
      | (Inr None, db') \<Rightarrow>
          (bind_r (GetByAccountAndArena scan arena account db') (\<lambda>winner. resolveExistingConfirmation winner p),
           db'))))))))"

section \<open>Reads\<close>

record GetMyPositionQuery =
  my_AccountID :: string
  my_ArenaID :: string

definition GetMyPosition_Execute ::
  "(string \<Rightarrow> uuid option) \<Rightarrow> GetMyPositionQuery \<Rightarrow> positions_db \<Rightarrow> positions_app_error + DebatePosition" where
  "GetMyPosition_Execute scan query db =
     bind_r (wrap_err Domain (ParseAccountID (my_AccountID query))) (\<lambda>account.
     bind_r (wrap_err Domain (ParseArenaID (my_ArenaID query))) (\<lambda>arena.
       GetByAccountAndArena scan arena account db))"

record ListPositionChangesQuery =
  list_AccountID :: string
  list_ArenaID :: string

definition ListPositionChanges_Execute ::
  "(string \<Rightarrow> uuid option) \<Rightarrow> ListPositionChangesQuery \<Rightarrow> positions_db \<Rightarrow> positions_app_error + PositionChangeRecord list" where
  "ListPositionChanges_Execute scan query db =
     bind_r (wrap_err Domain (ParseAccountID (list_AccountID query))) (\<lambda>account.
     bind_r (wrap_err Domain (ParseArenaID (list_ArenaID query))) (\<lambda>arena.
       ListPositionChanges scan arena account db))"

record PositionAggregate =
  aggregate_Initial :: PositionDistribution
  aggregate_Current :: PositionDistribution
  aggregate_Total :: int
  aggregate_Suppressed :: bool
  aggregate_CheckedAt :: time

definition no_distribution :: PositionDistribution where
  "no_distribution = \<lparr>Agree = 0, Disagree = 0, Undecided = 0\<rparr>"

definition GetPositionAggregate_Execute ::
  "(string \<Rightarrow> uuid option) \<Rightarrow> AggregatePolicy \<Rightarrow> time \<Rightarrow> string \<Rightarrow> positions_db \<Rightarrow> positions_app_error + PositionAggregate" where
  "GetPositionAggregate_Execute scan policy now arena_raw db =
     (if \<not> AggregatePolicy_IsValid policy then Inl (Domain ErrInvalidPolicy)
      else bind_r (wrap_err Domain (ParseArenaID arena_raw)) (\<lambda>arena.
           bind_r (CountEligiblePositions scan arena db) (\<lambda>(i, c).
             let tot = PositionDistribution_Total i in
             if Suppresses policy tot
             then Inr \<lparr>aggregate_Initial = no_distribution, aggregate_Current = no_distribution,
                       aggregate_Total = 0, aggregate_Suppressed = True, aggregate_CheckedAt = now\<rparr>
             else Inr \<lparr>aggregate_Initial = i, aggregate_Current = c, aggregate_Total = tot,
                       aggregate_Suppressed = False, aggregate_CheckedAt = now\<rparr>)))"

end
