(* ===== verification/PositionsCorrectness.thy ===== *)
theory PositionsCorrectness
  imports PositionsUseCases StoreContracts UuidScan
begin

text \<open>
  The invariant of the positions tables (every projection is the replay of its history over the
  confirmed position), its preservation by the use cases, and the order in which states follow
  one another: rows are never removed, the initial position never changes, histories only grow.
\<close>

section \<open>Replaying rows\<close>

definition at_start :: "AppDebatePosition \<Rightarrow> AppDebatePosition" where
  "at_start r = r\<lparr>dp_CurrentPosition := dp_InitialPosition r, dp_Version := 1, dp_UpdatedAt := dp_CreatedAt r\<rparr>"

definition follows :: "AppDebatePosition \<Rightarrow> AppPositionChange \<Rightarrow> bool" where
  "follows r c \<longleftrightarrow> pc_key c = dp_key r \<and> pc_FromPosition c = dp_CurrentPosition r
     \<and> pc_ToPosition c \<in> set position_values \<and> pc_ToPosition c \<noteq> pc_FromPosition c
     \<and> pc_Version c = dp_Version r + 1 \<and> pc_Version c \<le> MaxInt32 \<and> dp_UpdatedAt r \<le> pc_ChangedAt c
     \<and> timestamptz (pc_ChangedAt c) = pc_ChangedAt c"

definition advance :: "AppDebatePosition \<Rightarrow> AppPositionChange \<Rightarrow> AppDebatePosition" where
  "advance r c = r\<lparr>dp_CurrentPosition := pc_ToPosition c, dp_Version := pc_Version c, dp_UpdatedAt := pc_ChangedAt c\<rparr>"

fun replay_rows :: "AppDebatePosition \<Rightarrow> AppPositionChange list \<Rightarrow> AppDebatePosition option" where
  "replay_rows r [] = Some r"
| "replay_rows r (c # cs) = (if follows r c then replay_rows (advance r c) cs else None)"

lemma replay_rows_append:
  "replay_rows r (xs @ ys) = Option.bind (replay_rows r xs) (\<lambda>s. replay_rows s ys)"
  by (induction xs arbitrary: r) auto

lemma advance_keeps [simp]:
  "dp_key (advance r c) = dp_key r" "at_start (advance r c) = at_start r"
  "dp_InitialPosition (advance r c) = dp_InitialPosition r" "dp_CreatedAt (advance r c) = dp_CreatedAt r"
  "dp_CurrentPosition (advance r c) = pc_ToPosition c" "dp_Version (advance r c) = pc_Version c"
  "dp_UpdatedAt (advance r c) = pc_ChangedAt c"
  by (simp_all add: advance_def at_start_def dp_key_def)

lemma at_start_fields [simp]:
  "dp_key (at_start r) = dp_key r" "dp_InitialPosition (at_start r) = dp_InitialPosition r"
  "dp_CreatedAt (at_start r) = dp_CreatedAt r" "dp_CurrentPosition (at_start r) = dp_InitialPosition r"
  "dp_Version (at_start r) = 1" "dp_UpdatedAt (at_start r) = dp_CreatedAt r"
  by (simp_all add: at_start_def dp_key_def)

lemma at_start_eqD:
  "at_start r = at_start s \<Longrightarrow> dp_key r = dp_key s"
  "at_start r = at_start s \<Longrightarrow> dp_InitialPosition r = dp_InitialPosition s"
  "at_start r = at_start s \<Longrightarrow> dp_CreatedAt r = dp_CreatedAt s"
  by (metis at_start_fields)+

lemma replay_rows_Some:
  "replay_rows r cs = Some s \<Longrightarrow>
     dp_key s = dp_key r \<and> at_start s = at_start r \<and> dp_Version s = dp_Version r + int (length cs)
   \<and> dp_UpdatedAt r \<le> dp_UpdatedAt s \<and> (cs \<noteq> [] \<longrightarrow> dp_Version s \<le> MaxInt32)
   \<and> (dp_CurrentPosition r \<in> set position_values \<longrightarrow> dp_CurrentPosition s \<in> set position_values)
   \<and> (timestamptz (dp_UpdatedAt r) = dp_UpdatedAt r \<longrightarrow> timestamptz (dp_UpdatedAt s) = dp_UpdatedAt s)
   \<and> map pc_Version cs = map (\<lambda>i. dp_Version r + 1 + int i) [0..<length cs]
   \<and> list_all (\<lambda>c. pc_key c = dp_key r \<and> dp_UpdatedAt r \<le> pc_ChangedAt c) cs"
proof (induction cs arbitrary: r)
  case Nil
  then show ?case by simp
next
  case (Cons c cs)
  then have f: "follows r c" and rest: "replay_rows (advance r c) cs = Some s" by (simp_all split: if_splits)
  note IH = Cons.IH [OF rest]
  have "map (\<lambda>i. dp_Version r + 1 + int i) [0..<length (c # cs)] =
      (dp_Version r + 1) # map (\<lambda>i. dp_Version r + 1 + int (Suc i)) [0..<length cs]"
    by (simp add: upt_conv_Cons map_Suc_upt [symmetric] del: upt_Suc)
  moreover have "dp_UpdatedAt r \<le> dp_UpdatedAt s" using IH f by (simp add: follows_def)
  moreover have "list_all (\<lambda>d. pc_key d = dp_key r \<and> dp_UpdatedAt r \<le> pc_ChangedAt d) cs"
  proof -
    from IH have "list_all (\<lambda>d. pc_key d = dp_key (advance r c) \<and> dp_UpdatedAt (advance r c) \<le> pc_ChangedAt d) cs"
      by blast
    then show ?thesis by (rule list.pred_mono_strong) (use f in \<open>auto simp: follows_def\<close>)
  qed
  ultimately show ?case using IH f by (auto simp: follows_def add.commute add.left_commute)
qed

section \<open>The invariant\<close>

definition history :: "uuid \<times> uuid \<Rightarrow> positions_db \<Rightarrow> AppPositionChange list" where
  "history k db = filter (\<lambda>c. pc_key c = k) (position_changes db)"

definition row_ok :: "positions_db \<Rightarrow> AppDebatePosition \<Rightarrow> bool" where
  "row_ok db r \<longleftrightarrow> dp_InitialPosition r \<in> set position_values \<and> 0 < dp_CreatedAt r
     \<and> timestamptz (dp_CreatedAt r) = dp_CreatedAt r
     \<and> replay_rows (at_start r) (history (dp_key r) db) = Some r"

definition positions_ok :: "positions_db \<Rightarrow> bool" where
  "positions_ok db \<longleftrightarrow> distinct (map dp_key (debate_positions db)) \<and> list_all (row_ok db) (debate_positions db)
     \<and> pc_key ` set (position_changes db) \<subseteq> dp_key ` set (debate_positions db)"

definition positions_extends :: "positions_db \<Rightarrow> positions_db \<Rightarrow> bool" where
  "positions_extends s db \<longleftrightarrow>
     set (map at_start (debate_positions s)) \<subseteq> set (map at_start (debate_positions db))
   \<and> (\<exists>new. position_changes db = position_changes s @ new)"

lemma positions_extends_refl [simp]: "positions_extends db db"
  by (simp add: positions_extends_def)

lemma positions_extends_trans:
  "positions_extends a b \<Longrightarrow> positions_extends b c \<Longrightarrow> positions_extends a c"
  by (auto simp: positions_extends_def)

lemma history_append: "position_changes db' = position_changes db @ new \<Longrightarrow>
    history k db' = history k db @ filter (\<lambda>c. pc_key c = k) new"
  by (simp add: history_def)

lemma row_ok_facts:
  assumes "row_ok db r"
  shows "1 \<le> dp_Version r" "dp_Version r = 1 + int (length (history (dp_key r) db))"
    "dp_Version r \<le> MaxInt32" "dp_CurrentPosition r \<in> set position_values"
    "dp_CreatedAt r \<le> dp_UpdatedAt r" "0 < dp_UpdatedAt r"
    "history (dp_key r) db = [] \<Longrightarrow> r = at_start r" "timestamptz (dp_UpdatedAt r) = dp_UpdatedAt r"
proof -
  let ?h = "history (dp_key r) db"
  have rp: "replay_rows (at_start r) ?h = Some r" and i: "dp_InitialPosition r \<in> set position_values"
    and z: "0 < dp_CreatedAt r" and t: "timestamptz (dp_CreatedAt r) = dp_CreatedAt r"
    using assms by (simp_all add: row_ok_def)
  note f = replay_rows_Some [OF rp]
  show v: "dp_Version r = 1 + int (length ?h)" using f by simp
  then show "1 \<le> dp_Version r" by simp
  show "dp_Version r \<le> MaxInt32" using f v by (cases "?h = []") (simp_all add: MaxInt32_def)
  show "dp_CurrentPosition r \<in> set position_values" using f i by simp
  show c: "dp_CreatedAt r \<le> dp_UpdatedAt r" using f by simp
  then show "0 < dp_UpdatedAt r" using z by simp
  show "timestamptz (dp_UpdatedAt r) = dp_UpdatedAt r" using f t by simp
  show "r = at_start r" if "?h = []" using rp that by simp
qed

lemma positions_okD:
  assumes "positions_ok db" "r \<in> set (debate_positions db)"
  shows "row_ok db r"
  using assms by (simp add: positions_ok_def list_all_iff)

lemma same_key_same_row:
  assumes "positions_ok db" "r \<in> set (debate_positions db)" "s \<in> set (debate_positions db)" "dp_key r = dp_key s"
  shows "r = s"
  using assms by (auto simp: positions_ok_def distinct_map dest: inj_onD)

text \<open>A projection read from an earlier state: its row is still there, and if the version is the
  same then it is the same row.\<close>

lemma row_still_there:
  assumes "positions_ok s" "positions_ok db" "positions_extends s db" "r \<in> set (debate_positions s)"
  obtains r' where "r' \<in> set (debate_positions db)" "dp_key r' = dp_key r" "at_start r' = at_start r"
    "dp_Version r \<le> dp_Version r'" "dp_Version r' = dp_Version r \<Longrightarrow> r' = r"
proof -
  from assms(3,4) obtain r' where r': "r' \<in> set (debate_positions db)" "at_start r' = at_start r"
    by (fastforce simp: positions_extends_def)
  from assms(3) obtain new where new: "position_changes db = position_changes s @ new"
    by (auto simp: positions_extends_def)
  have k: "dp_key r' = dp_key r" using r'(2) by (rule at_start_eqD)
  have h: "history (dp_key r) db = history (dp_key r) s @ filter (\<lambda>c. pc_key c = dp_key r) new"
    using new by (rule history_append)
  have ok: "row_ok s r" "row_ok db r'" using positions_okD assms(1,2,4) r'(1) by blast+
  note v = row_ok_facts(2) [OF ok(1)] row_ok_facts(2) [OF ok(2)]
  have le: "dp_Version r \<le> dp_Version r'" using v h k by simp
  have "r' = r" if "dp_Version r' = dp_Version r"
  proof -
    have "history (dp_key r) db = history (dp_key r) s" using that v h k by simp
    then show ?thesis using ok r'(2) k by (simp add: row_ok_def)
  qed
  with r' k le show ?thesis by (intro that)
qed

section \<open>Rows as domain values\<close>

definition abs_position :: "AppDebatePosition \<Rightarrow> DebatePosition" where
  "abs_position r =
     \<lparr>arenaID = ArenaID (uuidToString (Some (dp_ArenaID r))), accountID = AccountID (uuidToString (Some (dp_AccountID r))),
      initial = Position (dp_InitialPosition r), current = Position (dp_CurrentPosition r),
      version = dp_Version r, createdAt = dp_CreatedAt r, updatedAt = dp_UpdatedAt r\<rparr>"

definition abs_change :: "AppPositionChange \<Rightarrow> PositionChange" where
  "abs_change c =
     \<lparr>change_arenaID = ArenaID (uuidToString (Some (pc_ArenaID c))),
      change_accountID = AccountID (uuidToString (Some (pc_AccountID c))),
      change_from = Position (pc_FromPosition c), change_to = Position (pc_ToPosition c),
      change_version = pc_Version c, change_changedAt = pc_ChangedAt c\<rparr>"

lemma position_values_supported: "p \<in> set position_values \<longleftrightarrow> IsSupported (Position p)"
  by (simp add: position_values_def IsSupported_def vocab)

lemma length_uuidToString: "length (uuidToString (Some u)) = 36"
  by (simp add: uuidToString_def Let_def)

lemma uuid_trim: "TrimSpace (uuidToString (Some u)) = uuidToString (Some u)"
  using uuidToString_printable by (rule TrimSpace_printable)

lemma ParseArenaID_uuid [simp]: "ParseArenaID (uuidToString (Some u)) = Inr (ArenaID (uuidToString (Some u)))"
  using uuidToString_printable [of "Some u"]
  by (simp add: ParseArenaID_def Let_def uuid_trim length_uuidToString maxIdentifierLength_def)

lemma ParseAccountID_uuid [simp]: "ParseAccountID (uuidToString (Some u)) = Inr (AccountID (uuidToString (Some u)))"
  using uuidToString_printable [of "Some u"]
  by (simp add: ParseAccountID_def Let_def uuid_trim length_uuidToString maxIdentifierLength_def)

lemma ids_not_zero [simp]:
  "\<not> ArenaID_IsZero (ArenaID (uuidToString (Some u)))" "\<not> AccountID_IsZero (AccountID (uuidToString (Some u)))"
  by (simp_all add: ArenaID_IsZero_def AccountID_IsZero_def)

lemma ParsePosition_value [simp]: "p \<in> set position_values \<Longrightarrow> ParsePosition p = Inr (Position p)"
  using ParsePosition_supported [of "Position p"] by (simp add: position_values_supported)

lemma mapDebatePosition_ok: "row_ok db r \<Longrightarrow> mapDebatePosition r = Inr (abs_position r)"
proof -
  assume ok: "row_ok db r"
  note f = row_ok_facts [OF ok]
  have i: "dp_InitialPosition r \<in> set position_values" and z: "0 < dp_CreatedAt r" using ok by (simp_all add: row_ok_def)
  have one: "dp_CurrentPosition r = dp_InitialPosition r" if "dp_Version r = 1"
  proof -
    have "history (dp_key r) db = []" using f(2) that by simp
    from arg_cong [OF f(7) [OF this], of dp_CurrentPosition] show ?thesis by simp
  qed
  have "ReconstituteDebatePosition (ArenaID (uuidToString (Some (dp_ArenaID r))))
      (AccountID (uuidToString (Some (dp_AccountID r)))) (Position (dp_InitialPosition r))
      (Position (dp_CurrentPosition r)) (dp_Version r) (dp_CreatedAt r) (dp_UpdatedAt r) = Inr (abs_position r)"
    unfolding ReconstituteDebatePosition_Inr
    using i z f(1,4,5,6) one by (simp add: position_values_supported [symmetric] abs_position_def time_IsZero_def)
  then show ?thesis using i f(4) by (simp add: mapDebatePosition_def)
qed

lemma mapPositionChange_follows:
  assumes "follows r c" "0 < dp_UpdatedAt r" "1 \<le> dp_Version r" "dp_CurrentPosition r \<in> set position_values"
  shows "mapPositionChange c = Inr (abs_change c)"
proof -
  have v: "pc_FromPosition c \<in> set position_values" "pc_ToPosition c \<in> set position_values"
    using assms(1,4) by (simp_all add: follows_def)
  have "NewPositionChange (ArenaID (uuidToString (Some (pc_ArenaID c)))) (AccountID (uuidToString (Some (pc_AccountID c))))
      (Position (pc_FromPosition c)) (Position (pc_ToPosition c)) (pc_Version c) (pc_ChangedAt c) = Inr (abs_change c)"
    unfolding NewPositionChange_Inr
    using assms v by (auto simp: follows_def position_values_supported [symmetric] abs_change_def time_IsZero_def)
  then show ?thesis using v by (simp add: mapPositionChange_def)
qed

lemma replay_rows_abs:
  assumes "replay_rows r cs = Some s" "0 < dp_UpdatedAt r" "1 \<le> dp_Version r" "dp_CurrentPosition r \<in> set position_values"
  shows "map mapPositionChange cs = map (\<lambda>c. Inr (abs_change c)) cs
     \<and> derive_loop (map abs_change cs) (Position (dp_CurrentPosition r)) (dp_Version r) =
         Inr (Position (dp_CurrentPosition s), dp_Version s)"
  using assms
proof (induction cs arbitrary: r)
  case Nil
  then show ?case by simp
next
  case (Cons c cs)
  then have f: "follows r c" and rest: "replay_rows (advance r c) cs = Some s" by (simp_all split: if_splits)
  have w: "wrap32 (dp_Version r + 1) = pc_Version c"
    using f Cons.prems(3) by (auto simp: follows_def int32_defs)
  have "0 < dp_UpdatedAt (advance r c)" "1 \<le> dp_Version (advance r c)"
    "dp_CurrentPosition (advance r c) \<in> set position_values"
    using f Cons.prems by (simp_all add: follows_def)
  from Cons.IH [OF rest this] mapPositionChange_follows [OF f Cons.prems(2-4)] f w show ?case
    by (simp add: abs_change_def follows_def)
qed

text \<open>What an ok row is to the domain: the replay of its history.\<close>

lemma row_ok_derives:
  assumes "row_ok db r"
  shows "map mapPositionChange (history (dp_key r) db) = map (\<lambda>c. Inr (abs_change c)) (history (dp_key r) db)"
    and "DeriveCurrentPosition (initial (abs_position r)) (map abs_change (history (dp_key r) db)) =
      Inr (current (abs_position r), version (abs_position r))"
proof -
  have rp: "replay_rows (at_start r) (history (dp_key r) db) = Some r" and i: "dp_InitialPosition r \<in> set position_values"
    and z: "0 < dp_CreatedAt r"
    using assms by (simp_all add: row_ok_def)
  note m = replay_rows_abs [OF rp, simplified, OF z i]
  show "map mapPositionChange (history (dp_key r) db) = map (\<lambda>c. Inr (abs_change c)) (history (dp_key r) db)"
    using m by simp
  show "DeriveCurrentPosition (initial (abs_position r)) (map abs_change (history (dp_key r) db)) =
      Inr (current (abs_position r), version (abs_position r))"
    using m i by (simp add: DeriveCurrentPosition_def abs_position_def position_values_supported)
qed

lemma find_row:
  "positions_ok db \<Longrightarrow> r \<in> set (debate_positions db) \<Longrightarrow> dp_key r = k \<Longrightarrow>
    find (\<lambda>r. dp_key r = k) (debate_positions db) = Some r"
  using find_unique_key [of dp_key "debate_positions db" r] by (simp add: positions_ok_def)

lemma get_rowD: "sql_GetDebatePosition a u db = Inr r \<Longrightarrow> r \<in> set (debate_positions db) \<and> dp_key r = (a, u)"
  unfolding sql_GetDebatePosition_def
  by (cases "find (\<lambda>r. dp_key r = (a, u)) (debate_positions db)") (auto dest: find_key_Some)

lemma get_rowI:
  "positions_ok db \<Longrightarrow> r \<in> set (debate_positions db) \<Longrightarrow> dp_key r = (a, u) \<Longrightarrow> sql_GetDebatePosition a u db = Inr r"
  using find_row [of db r "(a, u)"] by (simp add: sql_GetDebatePosition_def)

lemma get_no_row: "sql_GetDebatePosition a u db = Inl e \<longleftrightarrow> e = NoRows \<and> (a, u) \<notin> dp_key ` set (debate_positions db)"
proof (cases "find (\<lambda>r. dp_key r = (a, u)) (debate_positions db)")
  case None
  then have "(a, u) \<notin> dp_key ` set (debate_positions db)" unfolding find_key_None .
  with None show ?thesis unfolding sql_GetDebatePosition_def None option.case by blast
next
  case (Some s)
  from find_key_Some [OF this] have "(a, u) \<in> dp_key ` set (debate_positions db)" by (metis image_eqI)
  then show ?thesis unfolding sql_GetDebatePosition_def Some option.case by blast
qed

lemma GetByAccountAndArena_row:
  assumes "positions_ok db" "r \<in> set (debate_positions db)" "positionScope scan arena account = Inr (dp_key r)"
  shows "GetByAccountAndArena scan arena account db = Inr (abs_position r)"
proof -
  obtain a u where k: "dp_key r = (a, u)" by fastforce
  have "sql_GetDebatePosition a u db = Inr r" using get_rowI [OF assms(1,2) k] .
  with mapDebatePosition_ok [OF positions_okD [OF assms(1,2)]] k assms(3) show ?thesis
    by (simp add: GetByAccountAndArena_def)
qed

lemma GetByAccountAndArena_Inr:
  assumes "positions_ok db" "GetByAccountAndArena scan arena account db = Inr p"
  obtains r where "r \<in> set (debate_positions db)" "positionScope scan arena account = Inr (dp_key r)" "p = abs_position r"
proof -
  from assms(2) obtain a u where s: "positionScope scan arena account = Inr (a, u)"
    unfolding GetByAccountAndArena_def by (auto simp: bind_r_Inr_iff)
  show thesis
  proof (cases "sql_GetDebatePosition a u db")
    case (Inl e)
    then have "e = NoRows" using get_no_row by blast
    with assms(2) s Inl show ?thesis by (simp add: GetByAccountAndArena_def)
  next
    case (Inr r)
    then have r: "r \<in> set (debate_positions db)" "dp_key r = (a, u)" using get_rowD by blast+
    then have k: "positionScope scan arena account = Inr (dp_key r)" using s by simp
    from GetByAccountAndArena_row [OF assms(1) r(1) k] assms(2) have "p = abs_position r" by simp
    from that [OF r(1) k this] show ?thesis .
  qed
qed

lemma GetByAccountAndArena_none:
  assumes "positionScope scan arena account = Inr k" "k \<notin> dp_key ` set (debate_positions db)"
  shows "GetByAccountAndArena scan arena account db = Inl ErrPositionNotFound"
proof -
  obtain a u where k: "k = (a, u)" by fastforce
  then have "sql_GetDebatePosition a u db = Inl NoRows" using get_no_row assms(2) by blast
  with assms(1) k show ?thesis by (simp add: GetByAccountAndArena_def)
qed

end
