(* ===== verification/PositionsHistory.thy ===== *)
theory PositionsHistory
  imports PositionsCorrectness
begin

text \<open>
  Histories of the positions module: what one transaction does, the states a run reaches with
  reads as stale as any earlier state of the run, and the properties that hold in all of them.
\<close>

section \<open>The change transaction\<close>

definition change_row :: "positions_db \<Rightarrow> uuid \<Rightarrow> uuid \<Rightarrow> PositionChange \<Rightarrow> AppPositionChange" where
  "change_row db a u c =
     \<lparr>pc_ID = pos_uuid_gen db (pos_uuid_next db), pc_ArenaID = a, pc_AccountID = u,
      pc_FromPosition = position_String (change_from c), pc_ToPosition = position_String (change_to c),
      pc_Version = change_version c, pc_ChangedAt = timestamptz (change_changedAt c)\<rparr>"

definition committed_change :: "positions_db \<Rightarrow> uuid \<Rightarrow> uuid \<Rightarrow> PositionChange \<Rightarrow> int \<Rightarrow> positions_db" where
  "committed_change db a u c v =
     db\<lparr>position_changes := position_changes db @ [change_row db a u c], pos_uuid_next := Suc (pos_uuid_next db),
        debate_positions := map (\<lambda>r. if dp_key r = (a, u) \<and> dp_Version r = v then advance r (change_row db a u c) else r)
          (debate_positions db)\<rparr>"

lemma change_row_key [simp]: "pc_key (change_row db a u c) = (a, u)" "pc_Version (change_row db a u c) = change_version c"
  "pc_ChangedAt (change_row db a u c) = timestamptz (change_changedAt c)"
  "pc_FromPosition (change_row db a u c) = position_String (change_from c)"
  "pc_ToPosition (change_row db a u c) = position_String (change_to c)"
  by (simp_all add: change_row_def pc_key_def)

lemma committed_change_simps [simp]:
  "position_changes (committed_change db a u c v) = position_changes db @ [change_row db a u c]"
  "account_status (committed_change db a u c v) = account_status db"
  "arena_ids (committed_change db a u c v) = arena_ids db"
  by (simp_all add: committed_change_def)

lemma insert_change_Inr:
  assumes "sql_CreatePositionChange a u f t w at db = Inr (i, db1)"
  shows "i = pos_uuid_gen db (pos_uuid_next db) \<and> debate_positions db1 = debate_positions db
    \<and> db1 = db\<lparr>position_changes := position_changes db @
         [\<lparr>pc_ID = i, pc_ArenaID = a, pc_AccountID = u, pc_FromPosition = f, pc_ToPosition = t,
           pc_Version = w, pc_ChangedAt = timestamptz at\<rparr>], pos_uuid_next := Suc (pos_uuid_next db)\<rparr>
    \<and> f \<in> set position_values \<and> t \<in> set position_values \<and> f \<noteq> t \<and> 2 \<le> w
    \<and> (a, u, w) \<notin> (\<lambda>r. (pc_ArenaID r, pc_AccountID r, pc_Version r)) ` set (position_changes db)"
  using assms by (auto simp: sql_CreatePositionChange_def Let_def split: if_splits)

lemma change_transaction_Inr:
  assumes "change_transaction scan c v db = (Inr i, db')"
  obtains a u where "positionScope scan (change_arenaID c) (change_accountID c) = Inr (a, u)"
    "db' = committed_change db a u c v" "i = uuidToString (Some (pc_ID (change_row db a u c)))"
    "\<exists>r \<in> set (debate_positions db). dp_key r = (a, u) \<and> dp_Version r = v" "2 \<le> change_version c"
    "position_String (change_from c) \<in> set position_values" "position_String (change_to c) \<in> set position_values"
    "(a, u, change_version c) \<notin> (\<lambda>r. (pc_ArenaID r, pc_AccountID r, pc_Version r)) ` set (position_changes db)"
proof -
  from assms obtain db1 where c1: "repo_CreatePositionChange scan c db = Inr (i, db1)"
    and u1: "repo_UpdateCurrentPosition scan c v db1 = Inr db'"
    by (auto simp: change_transaction_def split: sum.splits prod.splits)
  obtain k where s: "positionScope scan (change_arenaID c) (change_accountID c) = Inr k"
    using c1 by (auto simp: repo_CreatePositionChange_def bind_r_Inr_iff)
  obtain a u where k: "k = (a, u)" by fastforce
  from c1 s k obtain j where ins: "sql_CreatePositionChange a u (position_String (change_from c))
      (position_String (change_to c)) (change_version c) (change_changedAt c) db = Inr (j, db1)"
    and i: "i = uuidToString (Some j)"
    by (auto simp: repo_CreatePositionChange_def split: sum.splits pg_error.splits)
  note f = insert_change_Inr [OF ins]
  define hit where "hit = (\<lambda>r. dp_key r = (a, u) \<and> dp_Version r = v)"
  from u1 s k have up: "filter hit (debate_positions db1) \<noteq> []"
    "db' = db1\<lparr>debate_positions := map (\<lambda>r. if hit r then r\<lparr>dp_CurrentPosition := position_String (change_to c),
        dp_Version := change_version c, dp_UpdatedAt := timestamptz (change_changedAt c)\<rparr> else r) (debate_positions db1)\<rparr>"
    by (auto simp: repo_UpdateCurrentPosition_def sql_UpdateCurrentPosition_def Let_def hit_def split: if_splits)
  have "db' = committed_change db a u c v"
    using up(2) f unfolding committed_change_def hit_def by (simp add: change_row_def advance_def)
  moreover have "\<exists>r \<in> set (debate_positions db). dp_key r = (a, u) \<and> dp_Version r = v"
    using up(1) f by (auto simp: filter_empty_conv hit_def)
  moreover have "i = uuidToString (Some (pc_ID (change_row db a u c)))" using i f by (simp add: change_row_def)
  ultimately show thesis using s k f by (intro that [of a u]) blast+
qed

lemma change_transaction_Inl: "change_transaction scan c v db = (Inl e, db') \<Longrightarrow> db' = db"
  by (auto simp: change_transaction_def split: sum.splits prod.splits)

text \<open>The transaction keeps the invariant when the change follows the row it names.\<close>

lemma committed_change_ok:
  assumes ok: "positions_ok db" and r: "r \<in> set (debate_positions db)" "dp_key r = (a, u)" "dp_Version r = v"
    and f: "follows r (change_row db a u c)"
  shows "positions_ok (committed_change db a u c v) \<and> positions_extends db (committed_change db a u c v)"
proof -
  let ?row = "change_row db a u c"
  let ?db = "committed_change db a u c v"
  let ?step = "\<lambda>s. if dp_key s = (a, u) \<and> dp_Version s = v then advance s ?row else s"
  have dps: "debate_positions ?db = map ?step (debate_positions db)" by (simp add: committed_change_def)
  have keys: "map dp_key (debate_positions ?db) = map dp_key (debate_positions db)"
    by (simp add: dps o_def if_distrib cong: if_cong)
  have starts: "map at_start (debate_positions ?db) = map at_start (debate_positions db)"
    by (simp add: dps o_def if_distrib cong: if_cong)
  have "row_ok ?db (?step s)" if s: "s \<in> set (debate_positions db)" for s
  proof (cases "dp_key s = (a, u)")
    case True
    then have "s = r" using same_key_same_row [OF ok s r(1)] r(2) by simp
    then have st: "?step s = advance r ?row" using r by simp
    have "history (a, u) ?db = history (a, u) db @ [?row]" by (simp add: history_def)
    then show ?thesis using positions_okD [OF ok r(1)] f r(2)
      unfolding st row_ok_def by (simp add: replay_rows_append)
  next
    case False
    then have "history (dp_key s) ?db = history (dp_key s) db" by (simp add: history_def)
    then show ?thesis using positions_okD [OF ok s] False by (simp add: row_ok_def)
  qed
  then have "list_all (row_ok ?db) (debate_positions ?db)"
    unfolding dps list_all_iff set_map by blast
  moreover have "pc_key ` set (position_changes ?db) \<subseteq> dp_key ` set (debate_positions ?db)"
  proof -
    have "dp_key ` set (debate_positions ?db) = dp_key ` set (debate_positions db)"
      by (metis keys image_set)
    moreover have "(a, u) \<in> dp_key ` set (debate_positions db)" using r(1,2) by (metis image_eqI)
    ultimately show ?thesis using ok by (simp add: positions_ok_def)
  qed
  ultimately show ?thesis using ok keys starts by (simp add: positions_ok_def positions_extends_def)
qed

section \<open>One use case at a time\<close>

lemma scope_of_row:
  assumes "reads_canonical scan"
  shows "positionScope scan (arenaID (abs_position r)) (accountID (abs_position r)) = Inr (dp_key r)"
  using assms by (simp add: positionScope_def uuidParam_def reads_canonical_def abs_position_def dp_key_def)

lemma ChangePosition_Inr:
  assumes "ChangePosition_Execute scan accepts now cmd seen db = (Inr res, db')"
  obtains arena account nxt p c where
    "ParseArenaID (change_cmd_ArenaID cmd) = Inr arena" "ParseAccountID (change_cmd_AccountID cmd) = Inr account"
    "ParsePosition (change_cmd_Position cmd) = Inr nxt"
    "GetByAccountAndArena scan arena account seen = Inr p" "accepts arena = None"
    "ChangeTo p nxt now = Inr (c, changed_Position res)"
    "change_transaction scan c (version p) db = (Inr (ChangeID res), db')"
  using assms unfolding ChangePosition_Execute_def
  by (auto split: sum.splits option.splits prod.splits)

lemma ChangePosition_Inl: "ChangePosition_Execute scan accepts now cmd seen db = (Inl e, db') \<Longrightarrow> db' = db"
  unfolding ChangePosition_Execute_def
  by (auto split: sum.splits option.splits prod.splits dest: change_transaction_Inl)

text \<open>A change computed from an ok row follows it, also after its instant was stored.\<close>

lemma ChangeTo_follows:
  assumes ok: "row_ok db r" and c: "ChangeTo (abs_position r) next now = Inr (c, p')"
  shows "follows r (change_row db' (dp_ArenaID r) (dp_AccountID r) c)" "change_version c = dp_Version r + 1"
    "p' = abs_position r\<lparr>current := next, version := dp_Version r + 1, updatedAt := now\<rparr>"
    "change_arenaID c = arenaID (abs_position r)" "change_accountID c = accountID (abs_position r)"
    "change_to c = next" "change_from c = current (abs_position r)" "change_changedAt c = now"
proof -
  note f = row_ok_facts [OF ok]
  from c have n: "IsSupported next" "next \<noteq> current (abs_position r)" "dp_UpdatedAt r \<le> now"
      "NewPositionChange (arenaID (abs_position r)) (accountID (abs_position r)) (current (abs_position r)) next
        (wrap32 (dp_Version r + 1)) now = Inr c"
      "p' = abs_position r\<lparr>current := next, version := change_version c, updatedAt := now\<rparr>"
    unfolding ChangeTo_Inr by (simp_all add: abs_position_def)
  from n(4) have w: "2 \<le> wrap32 (dp_Version r + 1)"
    and cv: "change_version c = wrap32 (dp_Version r + 1)" "change_arenaID c = arenaID (abs_position r)"
      "change_accountID c = accountID (abs_position r)" "change_to c = next"
      "change_from c = current (abs_position r)" "change_changedAt c = now"
    unfolding NewPositionChange_Inr by simp_all
  have le: "dp_Version r + 1 \<le> MaxInt32"
  proof (rule ccontr)
    assume "\<not> dp_Version r + 1 \<le> MaxInt32"
    with f(3) have "dp_Version r = MaxInt32" by simp
    with w show False by (simp add: wrap32_def MaxInt32_def)
  qed
  with f(1) have wv: "wrap32 (dp_Version r + 1) = dp_Version r + 1" by (simp add: int32_defs)
  have "dp_UpdatedAt r \<le> timestamptz now" using timestamptz_mono [OF n(3)] f(8) by simp
  then show "follows r (change_row db' (dp_ArenaID r) (dp_AccountID r) c)"
    using le wv cv n(1,2) by (cases "next") (auto simp: follows_def dp_key_def abs_position_def position_values_supported)
  show "change_version c = dp_Version r + 1" using cv(1) wv by simp
  then show "p' = abs_position r\<lparr>current := next, version := dp_Version r + 1, updatedAt := now\<rparr>" using n(5) by simp
  show "change_arenaID c = arenaID (abs_position r)" "change_accountID c = accountID (abs_position r)"
    "change_to c = next" "change_from c = current (abs_position r)" "change_changedAt c = now"
    using cv by simp_all
qed

lemma ChangePosition_step:
  assumes scan: "reads_canonical scan" and ok: "positions_ok seen" "positions_ok db" "positions_extends seen db"
    and ex: "ChangePosition_Execute scan accepts now cmd seen db = (Inr res, db')"
  obtains r c nxt where "r \<in> set (debate_positions seen)" "r \<in> set (debate_positions db)"
    "ParsePosition (change_cmd_Position cmd) = Inr nxt"
    "change_to c = nxt" "change_from c = current (abs_position r)" "change_version c = dp_Version r + 1" "change_changedAt c = now"
    "follows r (change_row db (dp_ArenaID r) (dp_AccountID r) c)"
    "db' = committed_change db (dp_ArenaID r) (dp_AccountID r) c (dp_Version r)"
    "positions_ok db'" "positions_extends db db'"
    "changed_Position res = abs_position r\<lparr>current := nxt, version := dp_Version r + 1, updatedAt := now\<rparr>"
proof -
  obtain arena account nxt p c where
    n: "ParsePosition (change_cmd_Position cmd) = Inr nxt" and g: "GetByAccountAndArena scan arena account seen = Inr p"
    and ct: "ChangeTo p nxt now = Inr (c, changed_Position res)"
    and tx: "change_transaction scan c (version p) db = (Inr (ChangeID res), db')"
    by (rule ChangePosition_Inr [OF ex], rule that)
  from GetByAccountAndArena_Inr [OF ok(1) g] obtain r where r: "r \<in> set (debate_positions seen)" and p: "p = abs_position r"
    by blast
  note f = ChangeTo_follows [OF positions_okD [OF ok(1) r] ct [unfolded p]]
  obtain a u where
    sc: "positionScope scan (change_arenaID c) (change_accountID c) = Inr (a, u)"
    and db': "db' = committed_change db a u c (version p)"
    and hit: "\<exists>s \<in> set (debate_positions db). dp_key s = (a, u) \<and> dp_Version s = version p"
    by (rule change_transaction_Inr [OF tx], rule that)
  have k: "dp_key r = (a, u)" using sc scope_of_row [OF scan, of r] f(4,5) by simp
  then have au: "a = dp_ArenaID r" "u = dp_AccountID r" by (simp_all add: dp_key_def)
  have v: "version p = dp_Version r" by (simp add: p abs_position_def)
  from row_still_there [OF ok r] obtain r' where r': "r' \<in> set (debate_positions db)" "dp_key r' = dp_key r"
    "dp_Version r' = dp_Version r \<Longrightarrow> r' = r" by blast
  from hit obtain s where s: "s \<in> set (debate_positions db)" "dp_key s = dp_key r" "dp_Version s = dp_Version r"
    unfolding k v by blast
  then have "r' = s" using same_key_same_row [OF ok(2) r'(1) s(1)] r'(2) by simp
  then have "r' = r" using r'(3) s(3) by simp
  then have rdb: "r \<in> set (debate_positions db)" using r'(1) by simp
  have keep: "positions_ok db' \<and> positions_extends db db'"
    unfolding db' v using committed_change_ok [OF ok(2) rdb k refl] f(1) au by simp
  show thesis
    by (rule that [OF r rdb n f(6,7,2,8) f(1) _ _ _ f(3)]) (use db' v au keep in simp_all)
qed

lemma sql_Confirm_Inr:
  assumes "sql_ConfirmInitialPosition a u p at db = Inr (row, db')"
  shows "row = \<lparr>dp_ArenaID = a, dp_AccountID = u, dp_InitialPosition = p, dp_CurrentPosition = p,
                 dp_Version = 1, dp_CreatedAt = timestamptz at, dp_UpdatedAt = timestamptz at\<rparr>"
    "p \<in> set position_values" "(a, u) \<notin> dp_key ` set (debate_positions db)"
    "db' = db\<lparr>debate_positions := debate_positions db @ [row]\<rparr>"
  using assms by (auto simp: sql_ConfirmInitialPosition_def Let_def split: if_splits)

lemma confirm_row_ok:
  assumes ok: "positions_ok db" and ins: "sql_ConfirmInitialPosition a u p at db = Inr (row, db')" and at: "1000 \<le> at"
  shows "positions_ok db' \<and> positions_extends db db' \<and> row_ok db' row \<and> row \<in> set (debate_positions db') \<and> dp_key row = (a, u)"
proof -
  note f = sql_Confirm_Inr [OF ins]
  have k: "dp_key row = (a, u)" by (simp add: f(1) dp_key_def)
  have "timestamptz 1000 \<le> timestamptz at" using at by (rule timestamptz_mono)
  then have t: "0 < timestamptz at" by (simp add: timestamptz_def)
  have none: "(a, u) \<notin> pc_key ` set (position_changes db)" using ok f(3) by (auto simp: positions_ok_def)
  then have "history (a, u) db = []" unfolding history_def filter_empty_conv by (metis image_eqI)
  then have new: "row_ok db' row"
    unfolding row_ok_def k using f(2,4) t by (simp add: f(1) history_def at_start_def)
  have old: "row_ok db' s" if "s \<in> set (debate_positions db)" for s
    using positions_okD [OF ok that] f(4) by (simp add: row_ok_def history_def)
  have "positions_ok db'" using ok new old f(3,4) k by (auto simp: positions_ok_def list_all_iff)
  moreover have "positions_extends db db'" using f(4) by (auto simp: positions_extends_def)
  ultimately show ?thesis using new k f(4) by simp
qed

text \<open>What the repository's insert does: nothing, or a row whose mapping is returned.\<close>

lemma repo_Confirm_cases:
  assumes ok: "positions_ok db" and at: "1000 \<le> at"
    and ex: "repo_ConfirmInitialPosition scan arena account p at db = (res, db')"
  shows "(db' = db \<and> (\<forall>d. res \<noteq> Inr (Some d))) \<or>
    (\<exists>a u row. positionScope scan arena account = Inr (a, u) \<and> res = Inr (Some (abs_position row))
      \<and> sql_ConfirmInitialPosition a u (position_String p) at db = Inr (row, db'))"
proof (cases "positionScope scan arena account")
  case (Inl e)
  with ex have "db' = db" "res = Inl e" by (simp_all add: repo_ConfirmInitialPosition_def)
  then show ?thesis by simp
next
  case (Inr k)
  obtain a u where k: "k = (a, u)" by fastforce
  show ?thesis
  proof (cases "sql_ConfirmInitialPosition a u (position_String p) at db")
    case (Inl e)
    with ex Inr k have "db' = db" "\<forall>d. res \<noteq> Inr (Some d)"
      by (cases e; auto simp: repo_ConfirmInitialPosition_def)+
    then show ?thesis by simp
  next
    case R: (Inr q)
    obtain row d where q: "q = (row, d)" by fastforce
    with R have ins: "sql_ConfirmInitialPosition a u (position_String p) at db = Inr (row, d)" by simp
    have "row_ok d row" using confirm_row_ok [OF ok ins at] by blast
    with ex Inr k ins mapDebatePosition_ok show ?thesis
      by (auto simp: repo_ConfirmInitialPosition_def)
  qed
qed

lemma Confirm_Execute_state:
  assumes "ConfirmInitialPosition_Execute scan eligible accepts now cmd seen db = (res, db')"
  shows "db' = db \<or> (\<exists>arena account p r. repo_ConfirmInitialPosition scan arena account p now db = (r, db'))"
  using assms unfolding ConfirmInitialPosition_Execute_def
  by (auto split: sum.splits option.splits prod.splits if_splits)

lemma ConfirmInitialPosition_keeps:
  assumes ok: "positions_ok db" and at: "1000 \<le> now"
    and ex: "ConfirmInitialPosition_Execute scan eligible accepts now cmd seen db = (res, db')"
  shows "positions_ok db' \<and> positions_extends db db'"
  using Confirm_Execute_state [OF ex]
proof
  assume "db' = db"
  then show ?thesis using ok by simp
next
  assume "\<exists>arena account p r. repo_ConfirmInitialPosition scan arena account p now db = (r, db')"
  then obtain arena account p r where "repo_ConfirmInitialPosition scan arena account p now db = (r, db')" by blast
  from repo_Confirm_cases [OF ok at this] show ?thesis using confirm_row_ok [OF ok _ at] ok by auto
qed

lemma ChangePosition_keeps:
  assumes "reads_canonical scan" "positions_ok seen" "positions_ok db" "positions_extends seen db"
    and "ChangePosition_Execute scan accepts now cmd seen db = (res, db')"
  shows "positions_ok db' \<and> positions_extends db db'"
proof (cases res)
  case (Inl e)
  then show ?thesis using assms(3,5) ChangePosition_Inl by fastforce
next
  case (Inr r)
  with assms(5) have "ChangePosition_Execute scan accepts now cmd seen db = (Inr r, db')" by simp
  from ChangePosition_step [OF assms(1-4) this] show ?thesis by blast
qed

section \<open>When a change commits and when it conflicts\<close>

definition version_keys :: "positions_db \<Rightarrow> (uuid \<times> uuid \<times> int) set" where
  "version_keys db = (\<lambda>r. (pc_ArenaID r, pc_AccountID r, pc_Version r)) ` set (position_changes db)"

lemma version_keys_of_row:
  assumes "row_ok db r" "dp_key r = (a, u)"
  shows "(a, u, w) \<in> version_keys db \<longleftrightarrow> 2 \<le> w \<and> w \<le> dp_Version r"
proof -
  let ?h = "history (a, u) db"
  have rp: "replay_rows (at_start r) ?h = Some r" using assms by (simp add: row_ok_def)
  have vs: "map pc_Version ?h = map (\<lambda>i. 2 + int i) [0..<length ?h]"
    using replay_rows_Some [OF rp] by (simp add: add.commute)
  have "(a, u, w) \<in> version_keys db \<longleftrightarrow> w \<in> set (map pc_Version ?h)"
    by (auto simp: version_keys_def history_def pc_key_def)
  also have "\<dots> \<longleftrightarrow> (\<exists>i < length ?h. w = 2 + int i)" unfolding vs by auto
  also have "\<dots> \<longleftrightarrow> 2 \<le> w \<and> w < 2 + int (length ?h)"
  proof
    assume "2 \<le> w \<and> w < 2 + int (length ?h)"
    then show "\<exists>i < length ?h. w = 2 + int i" by (intro exI [of _ "nat (w - 2)"]) auto
  qed auto
  finally show ?thesis using row_ok_facts(2) [OF assms(1)] assms(2) by auto
qed

lemma create_change_eq:
  assumes "positionScope scan (change_arenaID c) (change_accountID c) = Inr (a, u)"
    and "position_String (change_from c) \<in> set position_values" "position_String (change_to c) \<in> set position_values"
    and "position_String (change_from c) \<noteq> position_String (change_to c)" "2 \<le> change_version c"
    and "(a, u) \<in> dp_key ` set (debate_positions db)"
  shows "repo_CreatePositionChange scan c db =
    (if pos_uuid_gen db (pos_uuid_next db) \<in> pc_ID ` set (position_changes db) \<or> (a, u, change_version c) \<in> version_keys db
     then Inl ErrVersionConflict
     else Inr (uuidToString (Some (pos_uuid_gen db (pos_uuid_next db))),
               db\<lparr>position_changes := position_changes db @ [change_row db a u c], pos_uuid_next := Suc (pos_uuid_next db)\<rparr>))"
proof -
  have "sql_CreatePositionChange a u (position_String (change_from c)) (position_String (change_to c))
      (change_version c) (change_changedAt c) db =
    (if pos_uuid_gen db (pos_uuid_next db) \<in> pc_ID ` set (position_changes db) \<or> (a, u, change_version c) \<in> version_keys db
     then Inl UniqueViolation
     else Inr (pos_uuid_gen db (pos_uuid_next db),
               db\<lparr>position_changes := position_changes db @ [change_row db a u c], pos_uuid_next := Suc (pos_uuid_next db)\<rparr>))"
    using assms(2-6) unfolding sql_CreatePositionChange_def Let_def version_keys_def change_row_def by (simp del: image_iff)
  with assms(1) show ?thesis by (simp add: repo_CreatePositionChange_def)
qed

lemma update_current_eq:
  assumes "positionScope scan (change_arenaID c) (change_accountID c) = Inr (a, u)"
    and "position_String (change_to c) \<in> set position_values" "1 \<le> change_version c"
    and "r \<in> set (debate_positions db)" "dp_key r = (a, u)" "dp_Version r = v"
  shows "repo_UpdateCurrentPosition scan c v db =
    Inr (db\<lparr>debate_positions := map (\<lambda>r. if dp_key r = (a, u) \<and> dp_Version r = v
        then r\<lparr>dp_CurrentPosition := position_String (change_to c), dp_Version := change_version c,
               dp_UpdatedAt := timestamptz (change_changedAt c)\<rparr> else r) (debate_positions db)\<rparr>)"
proof -
  have "filter (\<lambda>r. dp_key r = (a, u) \<and> dp_Version r = v) (debate_positions db) \<noteq> []"
    using assms(4-6) by (auto simp: filter_empty_conv)
  with assms(1-3) show ?thesis
    by (simp add: repo_UpdateCurrentPosition_def sql_UpdateCurrentPosition_def Let_def)
qed

lemma change_commits:
  assumes ok: "positions_ok db" and r: "r \<in> set (debate_positions db)" "dp_key r = (a, u)" "dp_Version r = v"
    and sc: "positionScope scan (change_arenaID c) (change_accountID c) = Inr (a, u)"
    and f: "follows r (change_row db a u c)"
    and fresh: "pos_uuid_gen db (pos_uuid_next db) \<notin> pc_ID ` set (position_changes db)"
  shows "change_transaction scan c v db =
    (Inr (uuidToString (Some (pos_uuid_gen db (pos_uuid_next db)))), committed_change db a u c v)"
proof -
  let ?db1 = "db\<lparr>position_changes := position_changes db @ [change_row db a u c], pos_uuid_next := Suc (pos_uuid_next db)\<rparr>"
  have row: "row_ok db r" using positions_okD [OF ok r(1)] .
  note rf = row_ok_facts [OF row]
  have c: "position_String (change_from c) \<in> set position_values" "position_String (change_to c) \<in> set position_values"
    "position_String (change_from c) \<noteq> position_String (change_to c)" "change_version c = v + 1"
    using f rf(4) r(3) by (auto simp: follows_def)
  have "(a, u, change_version c) \<notin> version_keys db" using version_keys_of_row [OF row r(2)] c(4) r(3) by simp
  moreover have "(a, u) \<in> dp_key ` set (debate_positions db)" using r(1,2) by (metis image_eqI)
  ultimately have 1: "repo_CreatePositionChange scan c db =
      Inr (uuidToString (Some (pos_uuid_gen db (pos_uuid_next db))), ?db1)"
    using create_change_eq [OF sc c(1-3)] fresh c(4) rf(1) r(3) by simp
  have "r \<in> set (debate_positions ?db1)" "1 \<le> change_version c" using r(1,3) c(4) rf(1) by simp_all
  from update_current_eq [OF sc c(2) this(2,1) r(2,3)] 1 show ?thesis
    by (simp add: change_transaction_def committed_change_def advance_def change_row_def)
qed

lemma change_conflicts:
  assumes ok: "positions_ok db" and r: "r \<in> set (debate_positions db)" "dp_key r = (a, u)" "v < dp_Version r"
    and sc: "positionScope scan (change_arenaID c) (change_accountID c) = Inr (a, u)"
    and c: "position_String (change_from c) \<in> set position_values" "position_String (change_to c) \<in> set position_values"
      "position_String (change_from c) \<noteq> position_String (change_to c)" "change_version c = v + 1" "1 \<le> v"
  shows "change_transaction scan c v db = (Inl ErrVersionConflict, db)"
proof -
  have "(a, u, change_version c) \<in> version_keys db"
    using version_keys_of_row [OF positions_okD [OF ok r(1)] r(2)] c(4,5) r(3) by simp
  moreover have "(a, u) \<in> dp_key ` set (debate_positions db)" using r(1,2) by (metis image_eqI)
  ultimately have "repo_CreatePositionChange scan c db = Inl ErrVersionConflict"
    using create_change_eq [OF sc c(1-3)] c(4,5) by simp
  then show ?thesis by (simp add: change_transaction_def)
qed

section \<open>Runs\<close>

text \<open>
  A run lists the committed states, the current one first. A use case may have read any state of
  the run. The environment changes accounts and Arenas and the source of UUIDs, never the tables
  of this module (\<open>arena_app\<close> has no other statement on them). The clock is past the first
  microsecond of year 1, the resolution of a stored instant.
\<close>

definition positions_init :: "positions_db \<Rightarrow> bool" where
  "positions_init db \<longleftrightarrow> debate_positions db = [] \<and> position_changes db = []"

inductive positions_run :: "(string \<Rightarrow> uuid option) \<Rightarrow> positions_db list \<Rightarrow> bool" for scan where
  start: "positions_init db \<Longrightarrow> positions_run scan [db]"
| environment: "positions_run scan (db # past) \<Longrightarrow>
    positions_run scan (db\<lparr>account_status := accts, arena_ids := arenas, pos_uuid_gen := g, pos_uuid_next := n\<rparr> # db # past)"
| confirm: "positions_run scan (db # past) \<Longrightarrow> seen \<in> set (db # past) \<Longrightarrow> 1000 \<le> now \<Longrightarrow>
    ConfirmInitialPosition_Execute scan eligible accepts now ccmd seen db = (cres, db') \<Longrightarrow>
    positions_run scan (db' # db # past)"
| change: "positions_run scan (db # past) \<Longrightarrow> seen \<in> set (db # past) \<Longrightarrow> 1000 \<le> now \<Longrightarrow>
    ChangePosition_Execute scan accepts now cmd seen db = (res, db') \<Longrightarrow>
    positions_run scan (db' # db # past)"

inductive_cases positions_run_NilE: "positions_run scan []"
inductive_simps positions_run_single: "positions_run scan [db]"

lemma positions_ok_cong:
  assumes "positions_ok db" "debate_positions db' = debate_positions db" "position_changes db' = position_changes db"
  shows "positions_ok db'"
  using assms by (simp add: positions_ok_def row_ok_def history_def list_all_iff)

definition run_ok :: "positions_db list \<Rightarrow> bool" where
  "run_ok run \<longleftrightarrow> list_all (\<lambda>s. positions_ok s \<and> positions_extends s (hd run)) run"

lemma run_ok_step:
  assumes "run_ok (db # past)" "positions_ok db'" "positions_extends db db'"
  shows "run_ok (db' # db # past)"
  using assms positions_extends_trans by (fastforce simp: run_ok_def list_all_iff)

lemma run_okD: "run_ok (db # past) \<Longrightarrow> s \<in> set (db # past) \<Longrightarrow> positions_ok s \<and> positions_extends s db"
  by (auto simp: run_ok_def list_all_iff)

lemma positions_run_ok:
  assumes "reads_canonical scan"
  shows "positions_run scan run \<Longrightarrow> run_ok run"
proof (induction rule: positions_run.induct)
  case (start db)
  then show ?case by (simp add: run_ok_def positions_init_def positions_ok_def)
next
  case (environment db past n g arenas accts)
  let ?db = "db\<lparr>account_status := accts, arena_ids := arenas, pos_uuid_gen := g, pos_uuid_next := n\<rparr>"
  have "positions_ok db" using run_okD [OF environment.IH, of db] by simp
  then have "positions_ok ?db" by (rule positions_ok_cong) simp_all
  then show ?case by (rule run_ok_step [OF environment.IH]) (simp add: positions_extends_def)
next
  case (confirm db past seen now eligible accepts ccmd cres db')
  have "positions_ok db" using run_okD [OF confirm.IH, of db] by simp
  from ConfirmInitialPosition_keeps [OF this confirm.hyps(3,4)] show ?case
    using run_ok_step [OF confirm.IH] by blast
next
  case (change db past seen now accepts cmd res db')
  have "positions_ok db" using run_okD [OF change.IH, of db] by simp
  moreover have "positions_ok seen" "positions_extends seen db" using run_okD [OF change.IH change.hyps(2)] by auto
  ultimately show ?case
    using ChangePosition_keeps [OF assms _ _ _ change.hyps(4)] run_ok_step [OF change.IH] by blast
qed

lemma run_past_ok:
  assumes "reads_canonical scan" "positions_run scan (db # past)" "seen \<in> set (db # past)"
  shows "positions_ok seen" "positions_ok db" "positions_extends seen db"
  using run_okD [OF positions_run_ok [OF assms(1,2)]] assms(3) by auto

end
