(* ===== verification/PositionsProperties.thy ===== *)
theory PositionsProperties
  imports PositionsHistory
begin

text \<open>
  The properties of the positions module over its runs: the optimistic check as an instance of
  the contract of \<open>StoreContracts\<close>, replayability, exactness, immutability and aggregates.
\<close>

section \<open>The optimistic check\<close>

definition row_version :: "uuid \<times> uuid \<Rightarrow> positions_db \<Rightarrow> int" where
  "row_version k db = (case find (\<lambda>r. dp_key r = k) (debate_positions db) of None \<Rightarrow> 0 | Some r \<Rightarrow> dp_Version r)"

text \<open>The change of a pair from one position to another, computed from version \<open>v\<close>.\<close>

definition change_of :: "uuid \<times> uuid \<Rightarrow> Position \<times> Position \<times> time \<Rightarrow> int \<Rightarrow> PositionChange" where
  "change_of k rq v =
     \<lparr>change_arenaID = ArenaID (uuidToString (Some (fst k))), change_accountID = AccountID (uuidToString (Some (snd k))),
      change_from = fst rq, change_to = fst (snd rq), change_version = wrap32 (v + 1), change_changedAt = snd (snd rq)\<rparr>"

definition put_change ::
  "uuid \<times> uuid \<Rightarrow> Position \<times> Position \<times> time \<Rightarrow> int \<Rightarrow> positions_db \<Rightarrow> (positions_app_error + string) \<times> positions_db" where
  "put_change k rq v db = change_transaction scan_canonical (change_of k rq v) v db"

definition positions_later :: "positions_db \<Rightarrow> positions_db \<Rightarrow> bool" where
  "positions_later s db \<longleftrightarrow> positions_ok s \<and> positions_ok db \<and> positions_extends s db"

lemma row_version_of: "positions_ok db \<Longrightarrow> r \<in> set (debate_positions db) \<Longrightarrow> row_version (dp_key r) db = dp_Version r"
  using find_row [of db r] by (simp add: row_version_def)

lemma row_version_absent: "k \<notin> dp_key ` set (debate_positions db) \<Longrightarrow> row_version k db = 0"
  using find_key_None [of dp_key k "debate_positions db"] by (simp add: row_version_def del: find_key_None)

lemma row_version_mono: "positions_later s db \<Longrightarrow> row_version k s \<le> row_version k db"
proof -
  assume l: "positions_later s db"
  then have ok: "positions_ok s" "positions_ok db" "positions_extends s db" by (simp_all add: positions_later_def)
  show ?thesis
  proof (cases "k \<in> dp_key ` set (debate_positions s)")
    case True
    then obtain r where r: "r \<in> set (debate_positions s)" "k = dp_key r" by blast
    from row_still_there [OF ok r(1)] obtain r' where "r' \<in> set (debate_positions db)" "dp_key r' = dp_key r"
      "dp_Version r \<le> dp_Version r'" by blast
    then show ?thesis using row_version_of ok r by metis
  next
    case False
    have "0 \<le> row_version k db"
    proof (cases "k \<in> dp_key ` set (debate_positions db)")
      case True
      then obtain r where r: "r \<in> set (debate_positions db)" "k = dp_key r" by blast
      then show ?thesis using row_version_of [OF ok(2) r(1)] row_ok_facts(1) [OF positions_okD [OF ok(2) r(1)]] by simp
    qed (simp add: row_version_absent)
    then show ?thesis using False by (simp add: row_version_absent)
  qed
qed

lemma change_of_scope:
  "reads_canonical scan \<Longrightarrow>
    positionScope scan (change_arenaID (change_of k rq v)) (change_accountID (change_of k rq v)) = Inr k"
  by (simp add: positionScope_def uuidParam_def reads_canonical_def change_of_def)

lemma put_change_success:
  assumes ok: "positions_ok db" and put: "put_change k rq v db = (Inr i, db')"
  shows "row_version k db = v \<and> v < row_version k db'"
proof -
  note scope = change_of_scope [OF scan_canonical, of k rq v]
  let ?c = "change_of k rq v"
  obtain a u where s: "positionScope scan_canonical (change_arenaID ?c) (change_accountID ?c) = Inr (a, u)"
    and db': "db' = committed_change db a u ?c v"
    and hit: "\<exists>r \<in> set (debate_positions db). dp_key r = (a, u) \<and> dp_Version r = v"
    and v2: "2 \<le> change_version ?c"
    by (rule change_transaction_Inr [OF put [unfolded put_change_def]], rule that)
  have k: "k = (a, u)" using s scope by simp
  from hit obtain r where r: "r \<in> set (debate_positions db)" "dp_key r = (a, u)" "dp_Version r = v" by blast
  note f = row_ok_facts [OF positions_okD [OF ok r(1)]]
  have w: "wrap32 (v + 1) = v + 1"
  proof (cases "v = MaxInt32")
    case True
    with v2 show ?thesis by (simp add: change_of_def wrap32_def MaxInt32_def)
  next
    case False
    with f(1,3) r(3) show ?thesis by (simp add: int32_defs)
  qed
  have "find (\<lambda>s. dp_key s = k) (debate_positions db') = Some (advance r (change_row db a u ?c))"
  proof -
    have "advance r (change_row db a u ?c) \<in> set (debate_positions db')"
      using r by (force simp: db' committed_change_def)
    moreover have "distinct (map dp_key (debate_positions db'))"
    proof -
      have "map dp_key (debate_positions db') = map dp_key (debate_positions db)"
        by (simp add: db' committed_change_def o_def if_distrib cong: if_cong)
      then show ?thesis using ok by (simp add: positions_ok_def)
    qed
    ultimately show ?thesis using find_unique_key [of dp_key "debate_positions db'" "advance r (change_row db a u ?c)"]
      by (simp add: r(2) k)
  qed
  then have "row_version k db' = v + 1" using w by (simp add: row_version_def change_of_def)
  moreover have "row_version k db = v" using row_version_of [OF ok r(1)] r(2,3) k by simp
  ultimately show ?thesis by simp
qed

interpretation positions: optimistic_store row_version put_change positions_ok positions_later
proof unfold_locales
  show "positions_ok db \<Longrightarrow> put_change k rq v db = (Inr r, db') \<Longrightarrow> row_version k db = v \<and> v < row_version k db'"
    for k rq v db db' r by (rule put_change_success)
  show "put_change k rq v db = (Inl e, db') \<Longrightarrow> db' = db" for k rq v db db' e
    by (simp add: put_change_def change_transaction_Inl)
qed (rule row_version_mono)

text \<open>For every scanner that reads canonical texts the transaction is the one of the contract.\<close>

lemma put_change_any_scan:
  assumes "reads_canonical scan"
  shows "change_transaction scan (change_of k rq v) v db = put_change k rq v db"
proof -
  have "repo_CreatePositionChange scan (change_of k rq v) = repo_CreatePositionChange scan_canonical (change_of k rq v)"
    unfolding repo_CreatePositionChange_def by (rule ext) (simp only: change_of_scope [OF assms] change_of_scope [OF scan_canonical])
  moreover have "repo_UpdateCurrentPosition scan (change_of k rq v) = repo_UpdateCurrentPosition scan_canonical (change_of k rq v)"
    unfolding repo_UpdateCurrentPosition_def by (intro ext) (simp only: change_of_scope [OF assms] change_of_scope [OF scan_canonical])
  ultimately show ?thesis by (simp only: put_change_def change_transaction_def)
qed

section \<open>Runs and their earlier states\<close>

lemma positions_run_suffix: "positions_run scan (xs @ db # past) \<Longrightarrow> positions_run scan (db # past)"
proof (induction xs)
  case Nil
  then show ?case by simp
next
  case (Cons x xs)
  have "positions_run scan (xs @ db # past)" using Cons.prems by cases (auto simp: Cons_eq_append_conv)
  then show ?case by (rule Cons.IH)
qed

lemma run_later:
  assumes "reads_canonical scan" "positions_run scan (db2 # past2)" "db2 # past2 = xs @ db # past"
  shows "positions_later db db2"
  using run_past_ok [OF assms(1,2), of db] assms(3) by (auto simp: positions_later_def Cons_eq_append_conv)

text \<open>Every state between two states of a run lies between them in the order of states.\<close>

lemma run_between:
  assumes "reads_canonical scan" "positions_run scan (xs @ db1 # past)" "s \<in> set (xs @ [db1])"
  shows "positions_later db1 s"
proof -
  from assms(3) obtain ys zs where "xs @ [db1] = ys @ s # zs" by (metis split_list)
  then consider "s = db1" "xs = ys" | zs' where "xs = ys @ s # zs'" "zs = zs' @ [db1]"
    by (cases zs rule: rev_cases) auto
  then show ?thesis
  proof cases
    case 1
    then have "positions_run scan (db1 # past)" using assms(2) positions_run_suffix by blast
    from run_past_ok [OF assms(1) this, of db1] 1 show ?thesis by (simp add: positions_later_def)
  next
    case 2
    then have "positions_run scan (ys @ s # zs' @ db1 # past)" using assms(2) by simp
    then have "positions_run scan (s # zs' @ db1 # past)" by (rule positions_run_suffix)
    from run_later [OF assms(1) this, of "s # zs'" db1 past] show ?thesis by simp
  qed
qed

section \<open>Reading a projection and its history\<close>

lemma map_change_rows_ok:
  "list_all (\<lambda>c. mapPositionChange c = Inr (abs_change c)) cs \<Longrightarrow>
    map_change_rows cs = Inr (map (\<lambda>c. \<lparr>record_ID = uuidToString (Some (pc_ID c)), record_Change = abs_change c\<rparr>) cs)"
  by (induction cs) simp_all

lemma row_history:
  assumes "row_ok db r"
  shows "sql_ListPositionChanges (dp_ArenaID r) (dp_AccountID r) db = rev (history (dp_key r) db)"
    and "sorted_wrt (<) (map pc_Version (history (dp_key r) db))"
    and "list_all (\<lambda>c. mapPositionChange c = Inr (abs_change c)) (history (dp_key r) db)"
proof -
  let ?h = "history (dp_key r) db"
  have rp: "replay_rows (at_start r) ?h = Some r" using assms by (simp add: row_ok_def)
  have vs: "map pc_Version ?h = map (\<lambda>i. 2 + int i) [0..<length ?h]"
    using replay_rows_Some [OF rp] by (simp add: add.commute)
  show s: "sorted_wrt (<) (map pc_Version ?h)" unfolding vs by (simp add: sorted_wrt_iff_nth_less)
  then have "sort_key pc_Version ?h = ?h" by (intro sort_key_id_if_sorted) (simp add: strict_sorted_iff)
  then show "sql_ListPositionChanges (dp_ArenaID r) (dp_AccountID r) db = rev ?h"
    by (simp add: sql_ListPositionChanges_def history_def dp_key_def)
  show "list_all (\<lambda>c. mapPositionChange c = Inr (abs_change c)) ?h"
    using row_ok_derives(1) [OF assms] by (simp add: list_all_iff)
qed

lemma GetMyPosition_row:
  assumes "positions_ok db" "GetMyPosition_Execute scan \<lparr>my_AccountID = acct, my_ArenaID = ar\<rparr> db = Inr p"
  obtains r account arena where "r \<in> set (debate_positions db)" "p = abs_position r"
    "ParseAccountID acct = Inr account" "ParseArenaID ar = Inr arena"
    "positionScope scan arena account = Inr (dp_key r)"
proof -
  from assms(2) obtain account arena where a: "ParseAccountID acct = Inr account"
    "ParseArenaID ar = Inr arena" "GetByAccountAndArena scan arena account db = Inr p"
    by (auto simp: GetMyPosition_Execute_def bind_r_Inr_iff)
  from GetByAccountAndArena_Inr [OF assms(1) a(3)] show thesis using that a(1,2) by blast
qed

lemma ListPositionChanges_row:
  assumes "row_ok db r" "positionScope scan arena account = Inr (dp_key r)"
  shows "ListPositionChanges scan arena account db =
    Inr (map (\<lambda>c. \<lparr>record_ID = uuidToString (Some (pc_ID c)), record_Change = abs_change c\<rparr>) (rev (history (dp_key r) db)))"
proof -
  have "positionScope scan arena account = Inr (dp_ArenaID r, dp_AccountID r)" using assms(2) by (simp add: dp_key_def)
  then show ?thesis using row_history [OF assms(1)] map_change_rows_ok [of "rev (history (dp_key r) db)"]
    by (simp add: ListPositionChanges_def list_all_iff)
qed

section \<open>Properties\<close>

text \<open>A concrete run: an account confirms a position and then changes it.\<close>

definition demo_pos0 :: positions_db where
  "demo_pos0 = \<lparr>account_status = [2 \<mapsto> ''active''], arena_ids = [1], debate_positions = [], position_changes = [],
     pos_uuid_gen = of_nat, pos_uuid_next = 7\<rparr>"

definition demo_arena :: string where "demo_arena = ''00000000-0000-0000-0000-000000000001''"
definition demo_holder :: string where "demo_holder = ''00000000-0000-0000-0000-000000000002''"

definition demo_confirm :: ConfirmInitialPositionCommand where
  "demo_confirm = \<lparr>confirm_cmd_AccountID = demo_holder, confirm_cmd_ArenaID = demo_arena, confirm_cmd_Position = ''agree''\<rparr>"

definition demo_change :: ChangePositionCommand where
  "demo_change = \<lparr>change_cmd_AccountID = demo_holder, change_cmd_ArenaID = demo_arena, change_cmd_Position = ''undecided''\<rparr>"

definition demo_pos1 :: positions_db where
  "demo_pos1 = snd (ConfirmInitialPosition_Execute scan_canonical Map.empty Map.empty 5000 demo_confirm demo_pos0 demo_pos0)"

definition demo_pos2 :: positions_db where
  "demo_pos2 = snd (ChangePosition_Execute scan_canonical Map.empty 9000 demo_change demo_pos1 demo_pos1)"

lemma demo_ids: "uuidToString (Some 1) = demo_arena" "uuidToString (Some 2) = demo_holder"
  by code_simp+

lemma demo_parse [simp]:
  "ParseArenaID demo_arena = Inr (ArenaID demo_arena)" "ParseAccountID demo_holder = Inr (AccountID demo_holder)"
  using ParseArenaID_uuid [of 1] ParseAccountID_uuid [of 2] by (simp_all add: demo_ids)

lemma demo_scope [simp]: "positionScope scan_canonical (ArenaID demo_arena) (AccountID demo_holder) = Inr (1, 2)"
  using scan_canonical by (simp add: positionScope_def uuidParam_def reads_canonical_def demo_ids [symmetric])

definition demo_row :: AppDebatePosition where
  "demo_row = \<lparr>dp_ArenaID = 1, dp_AccountID = 2, dp_InitialPosition = ''agree'', dp_CurrentPosition = ''agree'',
     dp_Version = 1, dp_CreatedAt = 5000, dp_UpdatedAt = 5000\<rparr>"

lemma demo_value [simp]: "ParsePosition ''agree'' = Inr (Position ''agree'')" "ParsePosition ''undecided'' = Inr (Position ''undecided'')"
  by (simp_all add: position_values_def)

lemma demo_map_row [simp]: "mapDebatePosition demo_row = Inr (abs_position demo_row)"
  by (rule mapDebatePosition_ok [of demo_pos0])
    (simp add: row_ok_def demo_row_def history_def demo_pos0_def at_start_def position_values_def timestamptz_def)

lemma demo_confirmed:
  "ConfirmInitialPosition_Execute scan_canonical Map.empty Map.empty 5000 demo_confirm demo_pos0 demo_pos0 =
     (Inr \<lparr>confirmed_Position = abs_position demo_row, confirmed_Replayed = False\<rparr>,
      demo_pos0\<lparr>debate_positions := [demo_row]\<rparr>)"
proof -
  have "GetByAccountAndArena scan_canonical (ArenaID demo_arena) (AccountID demo_holder) demo_pos0 = Inl ErrPositionNotFound"
    by (rule GetByAccountAndArena_none [OF demo_scope]) (simp add: demo_pos0_def)
  moreover have "sql_ConfirmInitialPosition 1 2 ''agree'' 5000 demo_pos0 = Inr (demo_row, demo_pos0\<lparr>debate_positions := [demo_row]\<rparr>)"
    by (simp add: sql_ConfirmInitialPosition_def demo_pos0_def demo_row_def position_values_def timestamptz_def Let_def)
  ultimately show ?thesis
    by (simp add: ConfirmInitialPosition_Execute_def demo_confirm_def repo_ConfirmInitialPosition_def)
qed

lemma demo_pos1: "demo_pos1 = demo_pos0\<lparr>debate_positions := [demo_row]\<rparr>"
  by (simp add: demo_pos1_def demo_confirmed)

lemma demo_run: "positions_run scan_canonical [demo_pos1, demo_pos0]" "positions_run scan_canonical [demo_pos2, demo_pos1, demo_pos0]"
proof -
  have "positions_run scan_canonical [demo_pos0]" by (simp add: positions_run.start positions_init_def demo_pos0_def)
  from positions_run.confirm [OF this, of demo_pos0 5000 Map.empty Map.empty demo_confirm, OF _ _ demo_confirmed]
  show r: "positions_run scan_canonical [demo_pos1, demo_pos0]" by (simp add: demo_pos1)
  show "positions_run scan_canonical [demo_pos2, demo_pos1, demo_pos0]"
    by (rule positions_run.change [OF r, of demo_pos1 9000 Map.empty demo_change "fst (ChangePosition_Execute scan_canonical Map.empty 9000 demo_change demo_pos1 demo_pos1)"])
      (simp_all add: demo_pos2_def)
qed

text \<open>
  C17. The projection never diverges from its history: in every state of every run, reading an
  account's position and its change history both succeed, the history comes newest first with
  strictly falling versions, and replaying it over the initial position gives exactly the current
  position and version.
\<close>
theorem projection_replays_history:
  assumes "reads_canonical scan" "positions_run scan (db # past)"
    and "GetMyPosition_Execute scan \<lparr>my_AccountID = account, my_ArenaID = arena\<rparr> db = Inr p"
  shows "\<exists>records. ListPositionChanges_Execute scan \<lparr>list_AccountID = account, list_ArenaID = arena\<rparr> db = Inr records
    \<and> DeriveCurrentPosition (initial p) (rev (map record_Change records)) = Inr (current p, version p)
    \<and> sorted_wrt (>) (map (\<lambda>r. change_version (record_Change r)) records)
    \<and> int (length records) = version p - 1"
proof -
  have ok: "positions_ok db" using run_past_ok(2) [OF assms(1,2), of db] by simp
  obtain r acct ar where r: "r \<in> set (debate_positions db)" "p = abs_position r"
    and a: "ParseAccountID account = Inr acct" "ParseArenaID arena = Inr ar"
      "positionScope scan ar acct = Inr (dp_key r)"
    by (rule GetMyPosition_row [OF ok assms(3)], rule that)
  have row: "row_ok db r" using positions_okD [OF ok r(1)] .
  let ?h = "history (dp_key r) db"
  let ?rec = "\<lambda>c. \<lparr>record_ID = uuidToString (Some (pc_ID c)), record_Change = abs_change c\<rparr>"
  have "ListPositionChanges_Execute scan \<lparr>list_AccountID = account, list_ArenaID = arena\<rparr> db = Inr (map ?rec (rev ?h))"
    using a ListPositionChanges_row [OF row a(3)] by (simp add: ListPositionChanges_Execute_def)
  moreover have "rev (map record_Change (map ?rec (rev ?h))) = map abs_change ?h" by (simp add: rev_map o_def)
  moreover have "map (\<lambda>r. change_version (record_Change r)) (map ?rec (rev ?h)) = rev (map pc_Version ?h)"
    by (simp add: rev_map abs_change_def o_def)
  moreover have "sorted_wrt (>) (rev (map pc_Version ?h))" using row_history(2) [OF row] by (simp add: sorted_wrt_rev)
  ultimately show ?thesis
    using row_ok_derives(2) [OF row] r(2) row_ok_facts(2) [OF row]
    by (intro exI [of _ "map ?rec (rev ?h)"] conjI) (simp_all add: abs_position_def)
qed

lemma demo_read1: "GetMyPosition_Execute scan_canonical \<lparr>my_AccountID = demo_holder, my_ArenaID = demo_arena\<rparr> demo_pos1
    = Inr (abs_position demo_row)"
  by (simp add: GetMyPosition_Execute_def GetByAccountAndArena_def demo_pos1 sql_GetDebatePosition_def)
    (simp add: demo_row_def dp_key_def)

lemma demo_list1: "ListPositionChanges_Execute scan_canonical \<lparr>list_AccountID = demo_holder, list_ArenaID = demo_arena\<rparr> demo_pos1 = Inr []"
  by (simp add: ListPositionChanges_Execute_def ListPositionChanges_def sql_ListPositionChanges_def demo_pos1 demo_pos0_def)

text \<open>
  The recorded past is immutable: whatever a run does after an account's position was read,
  the initial position and its instant stay, the version never falls, and the history read before
  is the older part of the history read now.
\<close>
theorem recorded_past_immutable:
  assumes "reads_canonical scan" "positions_run scan (db # past)" "seen \<in> set (db # past)"
    and "GetMyPosition_Execute scan \<lparr>my_AccountID = account, my_ArenaID = arena\<rparr> seen = Inr p"
    and "ListPositionChanges_Execute scan \<lparr>list_AccountID = account, list_ArenaID = arena\<rparr> seen = Inr old"
  shows "\<exists>q new. GetMyPosition_Execute scan \<lparr>my_AccountID = account, my_ArenaID = arena\<rparr> db = Inr q
    \<and> ListPositionChanges_Execute scan \<lparr>list_AccountID = account, list_ArenaID = arena\<rparr> db = Inr (new @ old)
    \<and> initial q = initial p \<and> createdAt q = createdAt p \<and> version p \<le> version q"
proof -
  note ok = run_past_ok [OF assms(1-3)]
  obtain r acct ar where r: "r \<in> set (debate_positions seen)" "p = abs_position r"
    and a: "ParseAccountID account = Inr acct" "ParseArenaID arena = Inr ar"
      "positionScope scan ar acct = Inr (dp_key r)"
    by (rule GetMyPosition_row [OF ok(1) assms(4)], rule that)
  from row_still_there [OF ok r(1)] obtain r' where r': "r' \<in> set (debate_positions db)" "dp_key r' = dp_key r"
    "at_start r' = at_start r" "dp_Version r \<le> dp_Version r'" by blast
  from ok(3) obtain more where "position_changes db = position_changes seen @ more" by (auto simp: positions_extends_def)
  then have h: "history (dp_key r) db = history (dp_key r) seen @ filter (\<lambda>c. pc_key c = dp_key r) more"
    by (rule history_append)
  have rows: "row_ok seen r" "row_ok db r'" using positions_okD ok(1,2) r(1) r'(1) by blast+
  let ?rec = "\<lambda>c. \<lparr>record_ID = uuidToString (Some (pc_ID c)), record_Change = abs_change c\<rparr>"
  have old: "old = map ?rec (rev (history (dp_key r) seen))"
    using assms(5) a ListPositionChanges_row [OF rows(1) a(3)] by (simp add: ListPositionChanges_Execute_def)
  have sc': "positionScope scan ar acct = Inr (dp_key r')" using a(3) r'(2) by simp
  have "ListPositionChanges_Execute scan \<lparr>list_AccountID = account, list_ArenaID = arena\<rparr> db
      = Inr (map ?rec (rev (filter (\<lambda>c. pc_key c = dp_key r) more)) @ old)"
    using a ListPositionChanges_row [OF rows(2) sc'] r'(2) h old by (simp add: ListPositionChanges_Execute_def)
  moreover have "GetMyPosition_Execute scan \<lparr>my_AccountID = account, my_ArenaID = arena\<rparr> db = Inr (abs_position r')"
    using a GetByAccountAndArena_row [OF ok(2) r'(1) sc'] by (simp add: GetMyPosition_Execute_def)
  ultimately show ?thesis
    using r(2) r'(4) at_start_eqD(2,3) [OF r'(3)] by (auto simp: abs_position_def)
qed

theorem recorded_past_immutable_witness:
  "\<exists>q. GetMyPosition_Execute scan_canonical \<lparr>my_AccountID = demo_holder, my_ArenaID = demo_arena\<rparr> demo_pos2 = Inr q
     \<and> initial q = Position ''agree''"
  using recorded_past_immutable [OF scan_canonical demo_run(2) _ demo_read1 demo_list1]
  by (auto simp: abs_position_def demo_row_def)

lemma ChangePosition_reduce:
  assumes "ParseArenaID arena = Inr ar" "ParseAccountID account = Inr acct" "ParsePosition raw = Inr nxt"
    and "GetByAccountAndArena scan ar acct seen = Inr p" "accepts ar = None" "ChangeTo p nxt now = Inr (c, p')"
  shows "ChangePosition_Execute scan accepts now
      \<lparr>change_cmd_AccountID = account, change_cmd_ArenaID = arena, change_cmd_Position = raw\<rparr> seen db =
    (case change_transaction scan c (version p) db of
        (Inl e, db') \<Rightarrow> (Inl e, db')
      | (Inr i, db') \<Rightarrow> (Inr \<lparr>ChangeID = i, changed_Position = p'\<rparr>, db'))"
  using assms by (simp add: ChangePosition_Execute_def)

text \<open>A supported, different position at a later instant is always a change of the projection.\<close>

lemma ChangeTo_row:
  assumes "row_ok db r" "IsSupported nxt" "nxt \<noteq> current (abs_position r)" "dp_UpdatedAt r \<le> now" "dp_Version r < MaxInt32"
  shows "ChangeTo (abs_position r) nxt now =
    Inr (\<lparr>change_arenaID = arenaID (abs_position r), change_accountID = accountID (abs_position r),
          change_from = current (abs_position r), change_to = nxt, change_version = dp_Version r + 1, change_changedAt = now\<rparr>,
         abs_position r\<lparr>current := nxt, version := dp_Version r + 1, updatedAt := now\<rparr>)"
proof -
  note f = row_ok_facts [OF assms(1)]
  have w: "wrap32 (dp_Version r + 1) = dp_Version r + 1" using f(1) assms(5) by (simp add: int32_defs)
  show ?thesis unfolding ChangeTo_Inr NewPositionChange_Inr
    using assms(2-4) f(1,4,6) w
    by (simp add: abs_position_def position_values_supported time_IsZero_def)
qed

text \<open>The change a use case computes from a row it read, and what its transaction does.\<close>

definition next_change :: "AppDebatePosition \<Rightarrow> Position \<Rightarrow> time \<Rightarrow> PositionChange" where
  "next_change r nxt now =
     \<lparr>change_arenaID = arenaID (abs_position r), change_accountID = accountID (abs_position r),
      change_from = current (abs_position r), change_to = nxt, change_version = dp_Version r + 1, change_changedAt = now\<rparr>"

lemma next_change_transaction:
  assumes scan: "reads_canonical scan" and ok: "positions_ok seen" "positions_ok db" "positions_extends seen db"
    and r: "r \<in> set (debate_positions seen)" and s: "s \<in> set (debate_positions db)" "dp_key s = dp_key r"
    and n: "IsSupported nxt" "nxt \<noteq> current (abs_position r)" "dp_UpdatedAt r \<le> now" "dp_Version r < MaxInt32"
    and fresh: "pos_uuid_gen db (pos_uuid_next db) \<notin> pc_ID ` set (position_changes db)"
  shows "change_transaction scan (next_change r nxt now) (dp_Version r) db =
      (if dp_Version s = dp_Version r
       then (Inr (uuidToString (Some (pos_uuid_gen db (pos_uuid_next db)))),
             committed_change db (dp_ArenaID r) (dp_AccountID r) (next_change r nxt now) (dp_Version r))
       else (Inl ErrVersionConflict, db))"
    and "dp_Version s = dp_Version r \<Longrightarrow> s = r"
proof -
  have row: "row_ok seen r" using positions_okD [OF ok(1) r] .
  from row_still_there [OF ok r] obtain r' where r': "r' \<in> set (debate_positions db)" "dp_key r' = dp_key r"
    "dp_Version r \<le> dp_Version r'" "dp_Version r' = dp_Version r \<Longrightarrow> r' = r" by blast
  have rs: "r' = s" using same_key_same_row [OF ok(2) r'(1) s(1)] r'(2) s(2) by simp
  show same: "dp_Version s = dp_Version r \<Longrightarrow> s = r" using r'(4) rs by simp
  have sc: "positionScope scan (change_arenaID (next_change r nxt now)) (change_accountID (next_change r nxt now))
      = Inr (dp_ArenaID r, dp_AccountID r)"
    using scope_of_row [OF scan, of r] by (simp add: dp_key_def next_change_def)
  have ks: "dp_key s = (dp_ArenaID r, dp_AccountID r)" using s(2) by (simp add: dp_key_def)
  note fol = ChangeTo_follows(1) [OF row ChangeTo_row [OF row n], folded next_change_def, of db]
  show "change_transaction scan (next_change r nxt now) (dp_Version r) db =
      (if dp_Version s = dp_Version r
       then (Inr (uuidToString (Some (pos_uuid_gen db (pos_uuid_next db)))),
             committed_change db (dp_ArenaID r) (dp_AccountID r) (next_change r nxt now) (dp_Version r))
       else (Inl ErrVersionConflict, db))"
  proof (cases "dp_Version s = dp_Version r")
    case True
    have "follows s (change_row db (dp_ArenaID r) (dp_AccountID r) (next_change r nxt now))"
      using fol same [OF True] by simp
    from change_commits [OF ok(2) s(1) ks True sc this fresh] True show ?thesis by simp
  next
    case False
    then have "dp_Version r < dp_Version s" using r'(3) rs by simp
    from change_conflicts [OF ok(2) s(1) ks this sc] fol row_ok_facts(1,4) [OF row] False show ?thesis
      by (auto simp: follows_def)
  qed
qed

text \<open>
  C18. A change is exact under concurrency: computed from any earlier state of the run, an accepted
  change commits exactly when the stored version is still the one it was computed from; it then
  appends one row to the history and moves only this account's projection, and otherwise fails
  with \<open>ErrVersionConflict\<close> and leaves the database as it was.
\<close>
theorem ChangePosition_exact:
  fixes account arena raw
  defines "cmd \<equiv> \<lparr>change_cmd_AccountID = account, change_cmd_ArenaID = arena, change_cmd_Position = raw\<rparr>"
  assumes "reads_canonical scan" "positions_run scan (db # past)" "seen \<in> set (db # past)"
    and "GetMyPosition_Execute scan \<lparr>my_AccountID = account, my_ArenaID = arena\<rparr> seen = Inr p"
    and "GetMyPosition_Execute scan \<lparr>my_AccountID = account, my_ArenaID = arena\<rparr> db = Inr q"
    and "ParseArenaID arena = Inr ar" "accepts ar = None"
    and "ParsePosition raw = Inr nxt" "nxt \<noteq> current p" "updatedAt p \<le> now" "version p < MaxInt32"
    and "pos_uuid_gen db (pos_uuid_next db) \<notin> pc_ID ` set (position_changes db)"
  shows "if version q = version p
    then \<exists>i db' row c. ChangePosition_Execute scan accepts now cmd seen db =
            (Inr \<lparr>ChangeID = i, changed_Position = p\<lparr>current := nxt, version := version p + 1, updatedAt := now\<rparr>\<rparr>, db')
        \<and> row \<in> set (debate_positions db) \<and> mapDebatePosition row = Inr p
        \<and> debate_positions db' = map (\<lambda>r. if r = row then row\<lparr>dp_CurrentPosition := position_String nxt,
             dp_Version := version p + 1, dp_UpdatedAt := timestamptz now\<rparr> else r) (debate_positions db)
        \<and> position_changes db' = position_changes db @ [c] \<and> i = uuidToString (Some (pc_ID c))
        \<and> mapPositionChange c = Inr \<lparr>change_arenaID = arenaID p, change_accountID = accountID p, change_from = current p,
             change_to = nxt, change_version = version p + 1, change_changedAt = timestamptz now\<rparr>
    else ChangePosition_Execute scan accepts now cmd seen db = (Inl ErrVersionConflict, db)"
proof -
  note ok = run_past_ok [OF assms(2-4)]
  obtain r acct ar' where r: "r \<in> set (debate_positions seen)" "p = abs_position r"
    and a: "ParseAccountID account = Inr acct" "ParseArenaID arena = Inr ar'" "positionScope scan ar' acct = Inr (dp_key r)"
    by (rule GetMyPosition_row [OF ok(1) assms(5)], rule that)
  obtain s acct2 ar2 where s: "s \<in> set (debate_positions db)" "q = abs_position s" "ParseAccountID account = Inr acct2"
    "ParseArenaID arena = Inr ar2" "positionScope scan ar2 acct2 = Inr (dp_key s)"
    by (rule GetMyPosition_row [OF ok(2) assms(6)], rule that)
  have ar: "ar' = ar" and k: "dp_key s = dp_key r" using a s(3-5) assms(7) by simp_all
  have row: "row_ok seen r" using positions_okD [OF ok(1) r(1)] .
  have n: "IsSupported nxt" "nxt \<noteq> current (abs_position r)" "dp_UpdatedAt r \<le> now" "dp_Version r < MaxInt32"
    using ParsePosition_Inr [OF assms(9)] assms(10-12) r(2) by (simp_all add: abs_position_def)
  note tx = next_change_transaction [OF assms(2) ok r(1) s(1) k n assms(13)]
  let ?c = "next_change r nxt now" and ?row = "change_row db (dp_ArenaID r) (dp_AccountID r) (next_change r nxt now)"
  let ?p = "p\<lparr>current := nxt, version := version p + 1, updatedAt := now\<rparr>"
  have ct: "ChangeTo p nxt now = Inr (?c, ?p)"
    using ChangeTo_row [OF row n] r(2) by (simp add: next_change_def abs_position_def)
  have g: "GetByAccountAndArena scan ar acct seen = Inr p"
    using GetByAccountAndArena_row [OF ok(1) r(1)] a(3) ar r(2) by simp
  have v: "version p = dp_Version r" "version q = dp_Version s" using r(2) s(2) by (simp_all add: abs_position_def)
  have ex: "ChangePosition_Execute scan accepts now cmd seen db =
      (case change_transaction scan ?c (dp_Version r) db of
        (Inl e, db') \<Rightarrow> (Inl e, db') | (Inr i, db') \<Rightarrow> (Inr \<lparr>ChangeID = i, changed_Position = ?p\<rparr>, db'))"
    unfolding cmd_def v(1) [symmetric] by (rule ChangePosition_reduce) (fact assms(7) a(1) assms(9) g assms(8) ct)+
  show ?thesis
  proof (cases "dp_Version s = dp_Version r")
    case False
    then show ?thesis using ex tx(1) v by simp
  next
    case True
    then have sr: "s = r" by (rule tx(2))
    have "mapDebatePosition r = Inr p" using mapDebatePosition_ok [OF row] r(2) by simp
    moreover have "mapPositionChange ?row = Inr (abs_change ?row)"
      using mapPositionChange_follows [OF ChangeTo_follows(1) [OF row ct [unfolded r(2)]]] row_ok_facts [OF row] by simp
    moreover have "debate_positions (committed_change db (dp_ArenaID r) (dp_AccountID r) ?c (dp_Version r)) =
        map (\<lambda>r'. if r' = r then r\<lparr>dp_CurrentPosition := position_String nxt, dp_Version := version p + 1,
              dp_UpdatedAt := timestamptz now\<rparr> else r') (debate_positions db)"
      using same_key_same_row [OF ok(2) _ s(1)] v sr
      by (auto simp: committed_change_def advance_def next_change_def dp_key_def)
    ultimately show ?thesis using ex tx(1) v True s(1) sr r(2)
      by (auto simp: abs_change_def change_row_def next_change_def abs_position_def intro!: exI [of _ r])
  qed
qed

theorem ChangePosition_exact_witness:
  "\<exists>r db'. ChangePosition_Execute scan_canonical Map.empty 9000 demo_change demo_pos1 demo_pos1 = (Inr r, db')
     \<and> version (changed_Position r) = 2 \<and> length (position_changes db') = 1"
  using ChangePosition_exact [OF scan_canonical demo_run(1) _ demo_read1 demo_read1, where ar = "ArenaID demo_arena"
      and accepts = Map.empty and raw = "''undecided''" and nxt = "Position ''undecided''" and now = 9000]
  by (auto simp: demo_change_def abs_position_def demo_row_def demo_pos1 demo_pos0_def MaxInt32_def)

text \<open>A successful change is a successful write of the contract.\<close>

lemma ChangePosition_is_put:
  assumes scan: "reads_canonical scan" and ok: "positions_ok seen"
    and ex: "ChangePosition_Execute scan accepts now cmd seen db = (Inr res, db')"
  obtains r rq where "r \<in> set (debate_positions seen)"
    "put_change (dp_key r) rq (dp_Version r) db = (Inr (ChangeID res), db')"
    "arenaID (changed_Position res) = arenaID (abs_position r)"
    "accountID (changed_Position res) = accountID (abs_position r)"
    "version (changed_Position res) = dp_Version r + 1"
proof -
  obtain arena account nxt p c where
    g: "GetByAccountAndArena scan arena account seen = Inr p" and ct: "ChangeTo p nxt now = Inr (c, changed_Position res)"
    and tx: "change_transaction scan c (version p) db = (Inr (ChangeID res), db')"
    by (rule ChangePosition_Inr [OF ex], rule that)
  from GetByAccountAndArena_Inr [OF ok g] obtain r where r: "r \<in> set (debate_positions seen)" and p: "p = abs_position r"
    by blast
  note f = ChangeTo_follows [OF positions_okD [OF ok r] ct [unfolded p]]
  have v: "version p = dp_Version r" by (simp add: p abs_position_def)
  have "wrap32 (dp_Version r + 1) = dp_Version r + 1"
    using f(1) row_ok_facts(1) [OF positions_okD [OF ok r]] f(2) by (simp add: follows_def int32_defs)
  then have "c = change_of (dp_key r) (change_from c, nxt, now) (dp_Version r)"
    using f by (simp add: change_of_def abs_position_def dp_key_def)
  then have "change_transaction scan (change_of (dp_key r) (change_from c, nxt, now) (dp_Version r)) (dp_Version r) db
      = (Inr (ChangeID res), db')" using tx v by metis
  then have "put_change (dp_key r) (change_from c, nxt, now) (dp_Version r) db = (Inr (ChangeID res), db')"
    by (simp only: put_change_any_scan [OF scan])
  with that [OF r] f(3) show thesis by (simp add: abs_position_def)
qed

text \<open>
  No lost update: two changes of one account's position in one Arena that both succeed in a
  run never start from the same version, however stale the states they read; the later one always
  leads to a greater version.
\<close>
theorem one_change_per_version:
  assumes "reads_canonical scan" "positions_run scan (xs @ db1 # db # past)"
    and "seen \<in> set (db # past)" "ChangePosition_Execute scan accepts now cmd seen db = (Inr res, db1)"
    and "seen2 \<in> set (xs @ db1 # db # past)" "db2 = hd (xs @ [db1])"
    and "ChangePosition_Execute scan accepts2 now2 cmd2 seen2 db2 = (Inr res2, db3)"
    and "arenaID (changed_Position res2) = arenaID (changed_Position res)"
      "accountID (changed_Position res2) = accountID (changed_Position res)"
  shows "version (changed_Position res) < version (changed_Position res2)"
proof -
  have run: "positions_run scan (db1 # db # past)" "positions_run scan (db # past)"
    using positions_run_suffix [of scan xs db1] positions_run_suffix [of scan "xs @ [db1]" db] assms(2) by simp_all
  have ok: "positions_ok seen" "positions_ok db" "positions_ok db1"
    using run_past_ok [OF assms(1) run(2) assms(3)] run_past_ok(2) [OF assms(1) run(1), of db1] by simp_all
  have l: "positions_later db1 db2" using run_between [OF assms(1,2), of db2] assms(6) by (cases xs) auto
  obtain d ds where "xs @ db1 # db # past = d # ds" by (cases xs) auto
  then have ok2: "positions_ok seen2" using run_past_ok(1) [OF assms(1), of d ds seen2] assms(2,5) by simp
  obtain r rq where r: "put_change (dp_key r) rq (dp_Version r) db = (Inr (ChangeID res), db1)"
    "arenaID (changed_Position res) = arenaID (abs_position r)"
    "accountID (changed_Position res) = accountID (abs_position r)" "version (changed_Position res) = dp_Version r + 1"
    by (rule ChangePosition_is_put [OF assms(1) ok(1) assms(4)], rule that)
  obtain s sq where s: "put_change (dp_key s) sq (dp_Version s) db2 = (Inr (ChangeID res2), db3)"
    "arenaID (changed_Position res2) = arenaID (abs_position s)"
    "accountID (changed_Position res2) = accountID (abs_position s)" "version (changed_Position res2) = dp_Version s + 1"
    by (rule ChangePosition_is_put [OF assms(1) ok2 assms(7)], rule that)
  have "dp_key s = dp_key r"
    using r(2,3) s(2,3) assms(8,9) uuidToString_inj by (auto simp: abs_position_def dp_key_def)
  moreover have "row_version (dp_key s) db2 = dp_Version s"
    using positions.success [OF _ s(1)] l by (simp add: positions_later_def)
  moreover have "dp_Version r < row_version (dp_key r) db1" using positions.success [OF ok(2) r(1)] by simp
  ultimately have "dp_Version r < dp_Version s" using row_version_mono [OF l, of "dp_key r"] by simp
  then show ?thesis using r(4) s(4) by simp
qed

text \<open>A change computed from the current row commits.\<close>

lemma ChangePosition_current_row:
  assumes "reads_canonical scan" "positions_ok db" "r \<in> set (debate_positions db)"
    and "ParseArenaID arena = Inr ar" "ParseAccountID account = Inr acct" "positionScope scan ar acct = Inr (dp_key r)"
    and "accepts ar = None" "ParsePosition raw = Inr nxt" "nxt \<noteq> current (abs_position r)" "dp_UpdatedAt r \<le> now"
    and "dp_Version r < MaxInt32" "pos_uuid_gen db (pos_uuid_next db) \<notin> pc_ID ` set (position_changes db)"
  shows "ChangePosition_Execute scan accepts now
      \<lparr>change_cmd_AccountID = account, change_cmd_ArenaID = arena, change_cmd_Position = raw\<rparr> db db =
    (Inr \<lparr>ChangeID = uuidToString (Some (pos_uuid_gen db (pos_uuid_next db))),
          changed_Position = abs_position r\<lparr>current := nxt, version := dp_Version r + 1, updatedAt := now\<rparr>\<rparr>,
     committed_change db (dp_ArenaID r) (dp_AccountID r) (next_change r nxt now) (dp_Version r))"
proof -
  have row: "row_ok db r" using positions_okD assms(2,3) by blast
  have n: "IsSupported nxt" using ParsePosition_Inr [OF assms(8)] .
  have ct: "ChangeTo (abs_position r) nxt now =
      Inr (next_change r nxt now, abs_position r\<lparr>current := nxt, version := dp_Version r + 1, updatedAt := now\<rparr>)"
    using ChangeTo_row [OF row n assms(9-11)] by (simp add: next_change_def)
  have g: "GetByAccountAndArena scan ar acct db = Inr (abs_position r)"
    using GetByAccountAndArena_row [OF assms(2,3,6)] .
  have v: "version (abs_position r) = dp_Version r" by (simp add: abs_position_def)
  have tx: "change_transaction scan (next_change r nxt now) (dp_Version r) db =
      (Inr (uuidToString (Some (pos_uuid_gen db (pos_uuid_next db)))),
       committed_change db (dp_ArenaID r) (dp_AccountID r) (next_change r nxt now) (dp_Version r))"
    using next_change_transaction(1) [OF assms(1,2,2) positions_extends_refl assms(3,3) refl n assms(9-12)] by simp
  show ?thesis using ChangePosition_reduce [where accepts = accepts, OF assms(4,5,8) g assms(7) ct] v tx by simp
qed

definition demo_row2 :: AppDebatePosition where
  "demo_row2 = demo_row\<lparr>dp_CurrentPosition := ''undecided'', dp_Version := 2, dp_UpdatedAt := 9000\<rparr>"

lemma demo_ok: "positions_ok demo_pos1" "positions_ok demo_pos2"
  using run_past_ok(2) [OF scan_canonical demo_run(1), of demo_pos1]
    run_past_ok(2) [OF scan_canonical demo_run(2), of demo_pos2] by simp_all

lemma demo_changed:
  "\<exists>i. ChangePosition_Execute scan_canonical Map.empty 9000 demo_change demo_pos1 demo_pos1 =
     (Inr \<lparr>ChangeID = i, changed_Position = abs_position demo_row2\<rparr>, demo_pos2)"
  "debate_positions demo_pos2 = [demo_row2]" "map pc_ID (position_changes demo_pos2) = [7]"
  "pos_uuid_gen demo_pos2 (pos_uuid_next demo_pos2) = 8"
proof -
  have k: "positionScope scan_canonical (ArenaID demo_arena) (AccountID demo_holder) = Inr (dp_key demo_row)"
    by (simp add: demo_row_def dp_key_def)
  have "ChangePosition_Execute scan_canonical Map.empty 9000 demo_change demo_pos1 demo_pos1 =
     (Inr \<lparr>ChangeID = uuidToString (Some (pos_uuid_gen demo_pos1 (pos_uuid_next demo_pos1))),
          changed_Position = abs_position demo_row\<lparr>current := Position ''undecided'', version := dp_Version demo_row + 1, updatedAt := 9000\<rparr>\<rparr>,
      committed_change demo_pos1 (dp_ArenaID demo_row) (dp_AccountID demo_row)
        (next_change demo_row (Position ''undecided'') 9000) (dp_Version demo_row))"
    unfolding demo_change_def
    by (rule ChangePosition_current_row [OF scan_canonical demo_ok(1) _ demo_parse k])
      (simp_all add: demo_pos1 demo_pos0_def demo_row_def abs_position_def MaxInt32_def)
  moreover have "abs_position demo_row\<lparr>current := Position ''undecided'', version := dp_Version demo_row + 1, updatedAt := 9000\<rparr>
      = abs_position demo_row2" by (simp add: abs_position_def demo_row2_def demo_row_def)
  ultimately have e: "ChangePosition_Execute scan_canonical Map.empty 9000 demo_change demo_pos1 demo_pos1 =
     (Inr \<lparr>ChangeID = uuidToString (Some (pos_uuid_gen demo_pos1 (pos_uuid_next demo_pos1))), changed_Position = abs_position demo_row2\<rparr>,
      committed_change demo_pos1 1 2 (next_change demo_row (Position ''undecided'') 9000) 1)"
    by (simp add: demo_row_def)
  then have p2: "demo_pos2 = committed_change demo_pos1 1 2 (next_change demo_row (Position ''undecided'') 9000) 1"
    by (simp add: demo_pos2_def)
  show "\<exists>i. ChangePosition_Execute scan_canonical Map.empty 9000 demo_change demo_pos1 demo_pos1 =
     (Inr \<lparr>ChangeID = i, changed_Position = abs_position demo_row2\<rparr>, demo_pos2)" using e p2 by simp
  show "debate_positions demo_pos2 = [demo_row2]" "map pc_ID (position_changes demo_pos2) = [7]"
    "pos_uuid_gen demo_pos2 (pos_uuid_next demo_pos2) = 8"
    by (simp_all add: p2 committed_change_def demo_pos1 demo_pos0_def demo_row_def demo_row2_def dp_key_def advance_def
        change_row_def next_change_def timestamptz_def)
qed

lemma demo_read2: "GetMyPosition_Execute scan_canonical \<lparr>my_AccountID = demo_holder, my_ArenaID = demo_arena\<rparr> demo_pos2
    = Inr (abs_position demo_row2)"
proof -
  have "GetByAccountAndArena scan_canonical (ArenaID demo_arena) (AccountID demo_holder) demo_pos2 = Inr (abs_position demo_row2)"
    by (rule GetByAccountAndArena_row [OF demo_ok(2)]) (simp_all add: demo_changed(2) demo_row2_def demo_row_def dp_key_def)
  then show ?thesis by (simp add: GetMyPosition_Execute_def)
qed

theorem projection_replays_history_witness:
  "\<exists>records. ListPositionChanges_Execute scan_canonical \<lparr>list_AccountID = demo_holder, list_ArenaID = demo_arena\<rparr> demo_pos2
      = Inr records \<and> length records = 1 \<and> current (abs_position demo_row2) = Position ''undecided''"
  using projection_replays_history [OF scan_canonical demo_run(2) demo_read2] by (auto simp: abs_position_def demo_row2_def demo_row_def)

theorem one_change_per_version_witness:
  "\<exists>r. fst (ChangePosition_Execute scan_canonical Map.empty 9500 (demo_change\<lparr>change_cmd_Position := ''agree''\<rparr>) demo_pos2 demo_pos2)
     = Inr r \<and> 2 < version (changed_Position r)"
proof -
  obtain i where first: "ChangePosition_Execute scan_canonical Map.empty 9000 demo_change demo_pos1 demo_pos1 =
     (Inr \<lparr>ChangeID = i, changed_Position = abs_position demo_row2\<rparr>, demo_pos2)" using demo_changed(1) by blast
  have k: "positionScope scan_canonical (ArenaID demo_arena) (AccountID demo_holder) = Inr (dp_key demo_row2)"
    by (simp add: demo_row2_def demo_row_def dp_key_def)
  have r: "demo_row2 \<in> set (debate_positions demo_pos2)" by (simp add: demo_changed(2))
  have "pc_ID ` set (position_changes demo_pos2) = {7}" using demo_changed(3) by (metis image_set list.simps(15) empty_set)
  then have fresh: "pos_uuid_gen demo_pos2 (pos_uuid_next demo_pos2) \<notin> pc_ID ` set (position_changes demo_pos2)"
    using demo_changed(4) by simp
  obtain res db3 where second: "ChangePosition_Execute scan_canonical Map.empty 9500
      (demo_change\<lparr>change_cmd_Position := ''agree''\<rparr>) demo_pos2 demo_pos2 = (Inr res, db3)"
    and res: "arenaID (changed_Position res) = arenaID (abs_position demo_row2)"
      "accountID (changed_Position res) = accountID (abs_position demo_row2)"
    using ChangePosition_current_row [OF scan_canonical demo_ok(2) r demo_parse k, of Map.empty "''agree''" "Position ''agree''" 9500]
      fresh by (simp add: demo_change_def abs_position_def demo_row2_def demo_row_def MaxInt32_def)
  have "2 < version (changed_Position res)"
    using one_change_per_version [of scan_canonical "[]" demo_pos2 demo_pos1 "[demo_pos0]", OF scan_canonical _ _ first _ _ second]
      demo_run(2) res by (simp add: abs_position_def demo_row2_def)
  then show ?thesis using second by simp
qed

end
