(* ===== verification/PositionsConfirm.thy ===== *)
theory PositionsConfirm
  imports PositionsProperties
begin

text \<open>
  The confirmation of the initial position (exact and idempotent over runs) and the privacy of
  the public aggregate.
\<close>

section \<open>Confirmation\<close>

lemma resolve_Inr:
  "resolveExistingConfirmation stored p = Inr r \<longleftrightarrow>
     initial stored = p \<and> r = \<lparr>confirmed_Position = stored, confirmed_Replayed = True\<rparr>"
  by (auto simp: resolveExistingConfirmation_def)

lemma scope_key_row:
  assumes "positions_ok db" "r \<in> set (debate_positions db)" "positionScope scan arena account = Inr k" "dp_key r = k"
  shows "GetByAccountAndArena scan arena account db = Inr (abs_position r)"
  using GetByAccountAndArena_row [OF assms(1,2)] assms(3,4) by simp

text \<open>
  A confirmation is exact: it fails or resolves the recorded position and changes nothing, or
  it inserts exactly one projection for a pair that had none, with the requested position as
  initial and current, version 1 and the stored instant; the insert happens only for an eligible
  account and an open Arena.
\<close>
theorem ConfirmInitialPosition_exact:
  assumes "positions_run scan (db # past)" "reads_canonical scan" "seen \<in> set (db # past)" "1000 \<le> now"
    and "ConfirmInitialPosition_Execute scan eligible accepts now cmd seen db = (res, db')"
  shows "case res of
      Inl _ \<Rightarrow> db' = db
    | Inr r \<Rightarrow> ParsePosition (confirm_cmd_Position cmd) = Inr (initial (confirmed_Position r))
      \<and> (if confirmed_Replayed r then db' = db
         else \<exists>arena account row. ParseArenaID (confirm_cmd_ArenaID cmd) = Inr arena
           \<and> ParseAccountID (confirm_cmd_AccountID cmd) = Inr account
           \<and> eligible account = None \<and> accepts arena = None
           \<and> dp_key row \<notin> dp_key ` set (debate_positions db)
           \<and> positionScope scan arena account = Inr (dp_key row)
           \<and> db' = db\<lparr>debate_positions := debate_positions db @ [row]\<rparr>
           \<and> mapDebatePosition row = Inr (confirmed_Position r)
           \<and> current (confirmed_Position r) = initial (confirmed_Position r) \<and> version (confirmed_Position r) = 1
           \<and> createdAt (confirmed_Position r) = timestamptz now \<and> updatedAt (confirmed_Position r) = timestamptz now)"
proof -
  note ok = run_past_ok [OF assms(2,1,3)]
  show ?thesis
  proof (cases "\<exists>arena account p. ParseArenaID (confirm_cmd_ArenaID cmd) = Inr arena
      \<and> ParseAccountID (confirm_cmd_AccountID cmd) = Inr account \<and> ParsePosition (confirm_cmd_Position cmd) = Inr p
      \<and> GetByAccountAndArena scan arena account seen = Inl ErrPositionNotFound \<and> eligible account = None \<and> accepts arena = None")
    case False
    with assms(5) show ?thesis unfolding ConfirmInitialPosition_Execute_def
      by (auto simp: resolveExistingConfirmation_def split: sum.splits option.splits if_splits)
  next
    case True
    then obtain arena account p where c: "ParseArenaID (confirm_cmd_ArenaID cmd) = Inr arena"
      "ParseAccountID (confirm_cmd_AccountID cmd) = Inr account" "ParsePosition (confirm_cmd_Position cmd) = Inr p"
      "GetByAccountAndArena scan arena account seen = Inl ErrPositionNotFound" "eligible account = None" "accepts arena = None"
      by blast
    obtain q d where rc: "repo_ConfirmInitialPosition scan arena account p now db = (q, d)" by fastforce
    from repo_Confirm_cases [OF ok(2) assms(4) rc] show ?thesis
    proof
      assume n: "d = db \<and> (\<forall>x. q \<noteq> Inr (Some x))"
      with assms(5) c rc have "db' = db"
        unfolding ConfirmInitialPosition_Execute_def by (auto split: sum.splits option.splits)
      moreover have "ParsePosition (confirm_cmd_Position cmd) = Inr (initial (confirmed_Position r)) \<and> confirmed_Replayed r"
        if "res = Inr r" for r
        using assms(5) c rc n that unfolding ConfirmInitialPosition_Execute_def
        by (auto simp: bind_r_Inr_iff resolve_Inr split: sum.splits option.splits)
      ultimately show ?thesis by (cases res) simp_all
    next
      assume "\<exists>a u row. positionScope scan arena account = Inr (a, u) \<and> q = Inr (Some (abs_position row))
        \<and> sql_ConfirmInitialPosition a u (position_String p) now db = Inr (row, d)"
      then obtain a u row where i: "positionScope scan arena account = Inr (a, u)" "q = Inr (Some (abs_position row))"
        "sql_ConfirmInitialPosition a u (position_String p) now db = Inr (row, d)" by blast
      have e: "res = Inr \<lparr>confirmed_Position = abs_position row, confirmed_Replayed = False\<rparr>" "db' = d"
        using assms(5) c rc i(2) unfolding ConfirmInitialPosition_Execute_def by simp_all
      have k: "dp_key row = (a, u)" "mapDebatePosition row = Inr (abs_position row)"
        using confirm_row_ok [OF ok(2) i(3) assms(4)] mapDebatePosition_ok by blast+
      note f = sql_Confirm_Inr [OF i(3)]
      have fields: "initial (abs_position row) = p" "current (abs_position row) = p" "version (abs_position row) = 1"
        "createdAt (abs_position row) = timestamptz now" "updatedAt (abs_position row) = timestamptz now"
        by (simp_all add: abs_position_def f(1))
      have "\<exists>arena account row'. ParseArenaID (confirm_cmd_ArenaID cmd) = Inr arena
           \<and> ParseAccountID (confirm_cmd_AccountID cmd) = Inr account
           \<and> eligible account = None \<and> accepts arena = None
           \<and> dp_key row' \<notin> dp_key ` set (debate_positions db)
           \<and> positionScope scan arena account = Inr (dp_key row')
           \<and> d = db\<lparr>debate_positions := debate_positions db @ [row']\<rparr>
           \<and> mapDebatePosition row' = Inr (abs_position row)"
        using c i(1) k f(3,4) by metis
      with e fields c(3) show ?thesis by (simp del: image_iff)
    qed
  qed
qed

theorem ConfirmInitialPosition_exact_witness:
  "\<exists>row. demo_pos1 = demo_pos0\<lparr>debate_positions := [row]\<rparr> \<and> mapDebatePosition row = Inr (abs_position demo_row)"
proof -
  have "positions_run scan_canonical [demo_pos0]" by (simp add: positions_run.start positions_init_def demo_pos0_def)
  from ConfirmInitialPosition_exact [OF this scan_canonical _ _ demo_confirmed] show ?thesis
    by (auto simp: demo_pos1 demo_pos0_def)
qed

text \<open>What a successful confirmation leaves: the row of the pair, with the requested initial position.\<close>

lemma Confirm_leaves_row:
  assumes scan: "reads_canonical scan" and ok: "positions_ok seen" "positions_ok db" "positions_extends seen db" and at: "1000 \<le> now"
    and ex: "ConfirmInitialPosition_Execute scan eligible accepts now cmd seen db = (Inr r, db')"
  obtains arena account p row where "ParseArenaID (confirm_cmd_ArenaID cmd) = Inr arena"
    "ParseAccountID (confirm_cmd_AccountID cmd) = Inr account" "ParsePosition (confirm_cmd_Position cmd) = Inr p"
    "row \<in> set (debate_positions db')" "positionScope scan arena account = Inr (dp_key row)"
    "dp_InitialPosition row = position_String p" "initial (confirmed_Position r) = p"
proof -
  obtain arena account p where c: "ParseArenaID (confirm_cmd_ArenaID cmd) = Inr arena"
    "ParseAccountID (confirm_cmd_AccountID cmd) = Inr account" "ParsePosition (confirm_cmd_Position cmd) = Inr p"
    using ex unfolding ConfirmInitialPosition_Execute_def by (auto split: sum.splits)
  note finish = that
  have goal: thesis if "s \<in> set (debate_positions db')" "positionScope scan arena account = Inr (dp_key s)"
      "initial (abs_position s) = p" "initial (confirmed_Position r) = p" for s
    using finish [OF c that(1,2) _ that(4)] that(3) by (auto simp: abs_position_def)
  show thesis
  proof (cases "GetByAccountAndArena scan arena account seen")
    case (Inr stored)
    with ex c have e: "db' = db" "resolveExistingConfirmation stored p = Inr r"
      unfolding ConfirmInitialPosition_Execute_def by simp_all
    from GetByAccountAndArena_Inr [OF ok(1) Inr] obtain s where s: "s \<in> set (debate_positions seen)"
      "positionScope scan arena account = Inr (dp_key s)" "stored = abs_position s" by blast
    from row_still_there [OF ok s(1)] obtain s' where s': "s' \<in> set (debate_positions db)" "dp_key s' = dp_key s"
      "at_start s' = at_start s" by blast
    show thesis using goal [of s'] s s' e at_start_eqD(2) [OF s'(3)] by (simp add: resolve_Inr abs_position_def)
  next
    case (Inl e)
    obtain q where rc: "repo_ConfirmInitialPosition scan arena account p now db = (q, db')"
      "case q of Inl _ \<Rightarrow> False | Inr (Some d) \<Rightarrow> r = \<lparr>confirmed_Position = d, confirmed_Replayed = False\<rparr>
        | Inr None \<Rightarrow> bind_r (GetByAccountAndArena scan arena account db') (\<lambda>w. resolveExistingConfirmation w p) = Inr r"
      using ex c Inl unfolding ConfirmInitialPosition_Execute_def
      by (auto split: if_splits sum.splits option.splits prod.splits)
    from repo_Confirm_cases [OF ok(2) at rc(1)] show thesis
    proof
      assume "db' = db \<and> (\<forall>d. q \<noteq> Inr (Some d))"
      with rc(2) obtain w where w: "GetByAccountAndArena scan arena account db = Inr w" "resolveExistingConfirmation w p = Inr r"
        and e: "db' = db" by (auto simp: bind_r_Inr_iff split: sum.splits option.splits)
      from GetByAccountAndArena_Inr [OF ok(2) w(1)] obtain s where "s \<in> set (debate_positions db)"
        "positionScope scan arena account = Inr (dp_key s)" "w = abs_position s" by blast
      then show thesis using goal [of s] w(2) e by (simp add: resolve_Inr)
    next
      assume "\<exists>a u row. positionScope scan arena account = Inr (a, u) \<and> q = Inr (Some (abs_position row))
        \<and> sql_ConfirmInitialPosition a u (position_String p) now db = Inr (row, db')"
      then obtain a u row where i: "positionScope scan arena account = Inr (a, u)" "q = Inr (Some (abs_position row))"
        "sql_ConfirmInitialPosition a u (position_String p) now db = Inr (row, db')" by blast
      have "initial (abs_position row) = p" using sql_Confirm_Inr(1) [OF i(3)] by (simp add: abs_position_def)
      then show thesis using goal [of row] confirm_row_ok [OF ok(2) i(3) at] i(1,2) rc(2) by simp
    qed
  qed
qed

text \<open>
  C19. A confirmation is idempotent and final: after it succeeded, whatever a run does, asking again
  for the same account and Arena changes nothing; the same position answers the stored projection
  as a replay, without asking for eligibility again, and a different position is refused.
\<close>
theorem confirmation_final:
  assumes "reads_canonical scan" "positions_run scan (xs @ db1 # db # past)" "seen \<in> set (db # past)" "1000 \<le> now"
    and "ConfirmInitialPosition_Execute scan eligible accepts now cmd seen db = (Inr r, db1)"
    and "seen2 \<in> set (xs @ [db1])"
    and "confirm_cmd_ArenaID cmd2 = confirm_cmd_ArenaID cmd" "confirm_cmd_AccountID cmd2 = confirm_cmd_AccountID cmd"
    and "ParsePosition (confirm_cmd_Position cmd2) = Inr p2"
  shows "if p2 = initial (confirmed_Position r)
    then \<exists>q. ConfirmInitialPosition_Execute scan eligible2 accepts2 now2 cmd2 seen2 db2 =
          (Inr \<lparr>confirmed_Position = q, confirmed_Replayed = True\<rparr>, db2) \<and> initial q = initial (confirmed_Position r)
        \<and> GetMyPosition_Execute scan \<lparr>my_AccountID = confirm_cmd_AccountID cmd, my_ArenaID = confirm_cmd_ArenaID cmd\<rparr> seen2 = Inr q
    else ConfirmInitialPosition_Execute scan eligible2 accepts2 now2 cmd2 seen2 db2 = (Inl ErrInitialPositionAlreadySet, db2)"
proof -
  have run: "positions_run scan (db # past)" using positions_run_suffix [of scan "xs @ [db1]" db] assms(2) by simp
  note ok = run_past_ok [OF assms(1) run assms(3)]
  obtain arena account p row where c: "ParseArenaID (confirm_cmd_ArenaID cmd) = Inr arena"
    "ParseAccountID (confirm_cmd_AccountID cmd) = Inr account"
    and row: "row \<in> set (debate_positions db1)" "positionScope scan arena account = Inr (dp_key row)"
      "dp_InitialPosition row = position_String p" and p: "initial (confirmed_Position r) = p"
    by (rule Confirm_leaves_row [OF assms(1) ok assms(4,5)], rule that)
  have l: "positions_ok db1" "positions_ok seen2" "positions_extends db1 seen2"
    using run_between [OF assms(1,2,6)] by (simp_all add: positions_later_def)
  from row_still_there [OF l row(1)] obtain s where s: "s \<in> set (debate_positions seen2)" "dp_key s = dp_key row"
    "at_start s = at_start row" by blast
  have g: "GetByAccountAndArena scan arena account seen2 = Inr (abs_position s)"
    using GetByAccountAndArena_row [OF l(2) s(1)] row(2) s(2) by simp
  have i: "initial (abs_position s) = p" using at_start_eqD(2) [OF s(3)] row(3) by (simp add: abs_position_def)
  have "ConfirmInitialPosition_Execute scan eligible2 accepts2 now2 cmd2 seen2 db2 =
      (resolveExistingConfirmation (abs_position s) p2, db2)"
    using c assms(7-9) g by (simp add: ConfirmInitialPosition_Execute_def)
  then show ?thesis using i p c g by (auto simp: resolveExistingConfirmation_def GetMyPosition_Execute_def)
qed

theorem confirmation_final_witness:
  "ConfirmInitialPosition_Execute scan_canonical Map.empty Map.empty 9100
     (demo_confirm\<lparr>confirm_cmd_Position := ''disagree''\<rparr>) demo_pos2 demo_pos2 = (Inl ErrInitialPositionAlreadySet, demo_pos2)"
proof -
  have c: "ConfirmInitialPosition_Execute scan_canonical Map.empty Map.empty 5000 demo_confirm demo_pos0 demo_pos0 =
     (Inr \<lparr>confirmed_Position = abs_position demo_row, confirmed_Replayed = False\<rparr>, demo_pos1)"
    by (simp add: demo_confirmed demo_pos1)
  have "ParsePosition ''disagree'' = Inr (Position ''disagree'')" by (simp add: position_values_def)
  then show ?thesis
    using confirmation_final [of scan_canonical "[demo_pos2]" demo_pos1 demo_pos0 "[]", OF scan_canonical _ _ _ c,
        where ?seen2.0 = demo_pos2 and ?cmd2.0 = "demo_confirm\<lparr>confirm_cmd_Position := ''disagree''\<rparr>"]
      demo_run(2) by (simp add: abs_position_def demo_row_def)
qed

section \<open>The public aggregate\<close>

lemma count_split:
  assumes "list_all (\<lambda>r. f r \<in> set position_values) rows"
  shows "count_where (\<lambda>r. f r = ''agree'') rows + count_where (\<lambda>r. f r = ''disagree'') rows
    + count_where (\<lambda>r. f r = ''undecided'') rows = int (length rows)"
  using assms by (induction rows) (auto simp: count_where_def position_values_def)

lemma count_bounds: "0 \<le> count_where P rows" "count_where P rows \<le> int (length rows)"
  by (simp_all add: count_where_def)

text \<open>
  C20. The public aggregate reveals nothing below the threshold and adds up above it: over the
  participants whose account is active, a population smaller than the policy's minimum gives the
  same answer whatever they chose; otherwise the published initial and current distributions both
  add up to the population, which is at least the minimum.
\<close>
theorem aggregate_private:
  assumes "reads_canonical scan" "positions_run scan (db # past)" "AggregatePolicy_IsValid policy"
    and "ParseArenaID raw = Inr arena" "scan (arena_String arena) = Some a"
    and "length (eligible_positions a db) < 2 ^ 63"
  shows "let n = int (length (eligible_positions a db)) in
    if n < MinParticipants policy
    then GetPositionAggregate_Execute scan policy now raw db =
      Inr \<lparr>aggregate_Initial = no_distribution, aggregate_Current = no_distribution, aggregate_Total = 0,
           aggregate_Suppressed = True, aggregate_CheckedAt = now\<rparr>
    else \<exists>i c. GetPositionAggregate_Execute scan policy now raw db =
      Inr \<lparr>aggregate_Initial = i, aggregate_Current = c, aggregate_Total = n,
           aggregate_Suppressed = False, aggregate_CheckedAt = now\<rparr>
      \<and> Agree i + Disagree i + Undecided i = n \<and> Agree c + Disagree c + Undecided c = n
      \<and> 0 \<le> Agree i \<and> 0 \<le> Disagree i \<and> 0 \<le> Undecided i \<and> 0 \<le> Agree c \<and> 0 \<le> Disagree c \<and> 0 \<le> Undecided c"
proof -
  let ?rows = "eligible_positions a db"
  let ?n = "int (length ?rows)"
  have ok: "positions_ok db" using run_past_ok(2) [OF assms(1,2), of db] by simp
  then have "list_all (\<lambda>r. dp_InitialPosition r \<in> set position_values) ?rows"
    "list_all (\<lambda>r. dp_CurrentPosition r \<in> set position_values) ?rows"
    using positions_okD [OF ok] row_ok_facts(4) by (auto simp: list_all_iff eligible_positions_def row_ok_def)
  note sums = count_split [OF this(1)] count_split [OF this(2)]
  let ?i = "\<lambda>v. count_where (\<lambda>r. dp_InitialPosition r = v) ?rows" and ?c = "\<lambda>v. count_where (\<lambda>r. dp_CurrentPosition r = v) ?rows"
  have n: "?n < 2 ^ 63" using assms(6) by (simp only: of_nat_less_iff [symmetric, where ?'a = int] of_nat_power of_nat_numeral)
  then have tot: "PositionDistribution_Total \<lparr>Agree = ?i ''agree'', Disagree = ?i ''disagree'', Undecided = ?i ''undecided''\<rparr> = ?n"
    using sums(1) count_bounds(1) [of "\<lambda>r. dp_InitialPosition r = ''agree''" ?rows]
      count_bounds(1) [of "\<lambda>r. dp_InitialPosition r = ''disagree''" ?rows]
      count_bounds(1) [of "\<lambda>r. dp_InitialPosition r = ''undecided''" ?rows]
    by (simp add: PositionDistribution_Total_def int64_defs)
  have "CountEligiblePositions scan arena db =
      Inr (\<lparr>Agree = ?i ''agree'', Disagree = ?i ''disagree'', Undecided = ?i ''undecided''\<rparr>,
           \<lparr>Agree = ?c ''agree'', Disagree = ?c ''disagree'', Undecided = ?c ''undecided''\<rparr>)"
    using assms(5) by (simp add: CountEligiblePositions_def uuidParam_def sql_CountEligiblePositionsByArena_def Let_def)
  then show ?thesis
    using assms(3,4) tot sums by (simp add: GetPositionAggregate_Execute_def Suppresses_def Let_def count_bounds)
qed

theorem aggregate_private_witness:
  "GetPositionAggregate_Execute scan_canonical DefaultAggregatePolicy 7 demo_arena demo_pos1 =
     Inr \<lparr>aggregate_Initial = no_distribution, aggregate_Current = no_distribution, aggregate_Total = 0,
          aggregate_Suppressed = True, aggregate_CheckedAt = 7\<rparr>
   \<and> (\<exists>agg. GetPositionAggregate_Execute scan_canonical (DefaultAggregatePolicy\<lparr>MinParticipants := 1\<rparr>) 7 demo_arena demo_pos1 = Inr agg
        \<and> \<not> aggregate_Suppressed agg \<and> aggregate_Total agg = 1
        \<and> Agree (aggregate_Initial agg) + Disagree (aggregate_Initial agg) + Undecided (aggregate_Initial agg) = 1)"
proof -
  have s: "scan_canonical (arena_String (ArenaID demo_arena)) = Some 1"
    using scan_canonical by (simp add: reads_canonical_def demo_ids [symmetric])
  have one: "length (eligible_positions 1 demo_pos1) = 1"
    by (simp add: eligible_positions_def demo_pos1 demo_pos0_def demo_row_def)
  have policies: "AggregatePolicy_IsValid DefaultAggregatePolicy" "AggregatePolicy_IsValid (DefaultAggregatePolicy\<lparr>MinParticipants := 1\<rparr>)"
    "MinParticipants DefaultAggregatePolicy = 10"
    by (simp_all add: DefaultAggregatePolicy_def AggregatePolicy_IsValid_def)
  note agg = aggregate_private [OF scan_canonical demo_run(1) _ demo_parse(1) s, where now = 7]
  show ?thesis
  proof (rule conjI)
    show "GetPositionAggregate_Execute scan_canonical DefaultAggregatePolicy 7 demo_arena demo_pos1 =
       Inr \<lparr>aggregate_Initial = no_distribution, aggregate_Current = no_distribution, aggregate_Total = 0,
            aggregate_Suppressed = True, aggregate_CheckedAt = 7\<rparr>"
      using agg [OF policies(1)] one policies(3) by (simp add: Let_def)
    show "\<exists>agg. GetPositionAggregate_Execute scan_canonical (DefaultAggregatePolicy\<lparr>MinParticipants := 1\<rparr>) 7 demo_arena demo_pos1 = Inr agg
        \<and> \<not> aggregate_Suppressed agg \<and> aggregate_Total agg = 1
        \<and> Agree (aggregate_Initial agg) + Disagree (aggregate_Initial agg) + Undecided (aggregate_Initial agg) = 1"
      using agg [OF policies(2)] one by (auto simp: Let_def)
  qed
qed

end
