(* ===== verification/JobsDomain.thy ===== *)
theory JobsDomain
  imports GoText GoTime
begin

text \<open>
  \<open>internal/jobs/domain\<close> without the periods: the closed vocabularies, the structural check of a
  payload, redacted failures, leases, the job entity with its validation, and the rules of the
  administrative surface.
\<close>

datatype jobs_error =
    ErrEmptyJobID | ErrUnknownJobType | ErrInvalidVersion | ErrEmptyPayload | ErrPayloadTooLarge
  | ErrPayloadNotObject | ErrPayloadMalformed | ErrPayloadTooDeep | ErrUnknownJobState
  | ErrInvalidAttempts | ErrInvalidLease | ErrLeaseIncoherent | ErrInvalidIdempotencyKey
  | ErrInvalidFailure | ErrUnknownFailureCode | ErrInvalidTimestamps

section \<open>Vocabularies and bounds\<close>

type_synonym JobState = string
type_synonym JobType = string
type_synonym FailureCode = string

definition StateQueued :: JobState where [vocab]: "StateQueued = ''queued''"
definition StateLeased :: JobState where [vocab]: "StateLeased = ''leased''"
definition StateSucceeded :: JobState where [vocab]: "StateSucceeded = ''succeeded''"
definition StateDead :: JobState where [vocab]: "StateDead = ''dead''"

definition AllJobStates :: "JobState list" where
  "AllJobStates = [StateQueued, StateLeased, StateSucceeded, StateDead]"

definition JobState_IsValid :: "JobState \<Rightarrow> bool" where
  "JobState_IsValid s \<longleftrightarrow> s \<in> {StateQueued, StateLeased, StateSucceeded, StateDead}"

definition JobState_IsTerminal :: "JobState \<Rightarrow> bool" where
  "JobState_IsTerminal s \<longleftrightarrow> s = StateSucceeded \<or> s = StateDead"

definition TypeEmailDelivery :: JobType where [vocab]: "TypeEmailDelivery = ''email_delivery''"
definition TypeINKGrantMonthly :: JobType where [vocab]: "TypeINKGrantMonthly = ''ink_grant_monthly''"
definition TypePassExpiry :: JobType where [vocab]: "TypePassExpiry = ''pass_expiry''"
definition TypeRetentionRun :: JobType where [vocab]: "TypeRetentionRun = ''retention_run''"
definition TypeSessionCleanup :: JobType where [vocab]: "TypeSessionCleanup = ''session_cleanup''"
definition TypeBillingReconciliation :: JobType where [vocab]: "TypeBillingReconciliation = ''billing_reconciliation''"

definition AllJobTypes :: "JobType list" where
  "AllJobTypes = [TypeEmailDelivery, TypeINKGrantMonthly, TypePassExpiry, TypeRetentionRun,
     TypeSessionCleanup, TypeBillingReconciliation]"

definition JobType_IsValid :: "JobType \<Rightarrow> bool" where
  "JobType_IsValid t \<longleftrightarrow> List.member AllJobTypes t"

definition MaxPayloadBytes :: nat where "MaxPayloadBytes = 4096"
definition MaxPayloadDepth :: int where "MaxPayloadDepth = 2"
definition MaxLeaseOwnerLength :: nat where "MaxLeaseOwnerLength = 128"
definition MaxIdempotencyKeyLength :: nat where "MaxIdempotencyKeyLength = 200"
definition MaxErrorDetailLength :: nat where "MaxErrorDetailLength = 300"
definition DefaultMaxAttempts :: int where "DefaultMaxAttempts = 5"

section \<open>Payloads\<close>

text \<open>
  One step of the walk outside a string literal: the depth, whether a literal was opened and
  whether the outermost container has been closed.
\<close>

definition structure_step :: "char \<Rightarrow> int \<Rightarrow> bool \<Rightarrow> jobs_error + int \<times> bool \<times> bool" where
  "structure_step c depth closed =
     (if c = CHR 0x22 then Inr (depth, True, closed)
      else if c = CHR ''{'' \<or> c = CHR ''['' then
        (if depth + 1 > MaxPayloadDepth then Inl ErrPayloadTooDeep else Inr (depth + 1, False, closed))
      else if c = CHR ''}'' \<or> c = CHR '']'' then
        (if depth - 1 < 0 then Inl ErrPayloadMalformed else Inr (depth - 1, False, closed \<or> depth - 1 = 0))
      else if c \<in> {CHR '' '', CHR 0x09, CHR 0x0A, CHR 0x0D, CHR '','', CHR '':''} then Inr (depth, False, closed)
      else if byte c < 32 then Inl ErrPayloadMalformed
      else Inr (depth, False, closed))"

fun structure_walk :: "string \<Rightarrow> int \<Rightarrow> bool \<Rightarrow> bool \<Rightarrow> bool \<Rightarrow> jobs_error + unit" where
  "structure_walk [] depth inString escaped closed =
     (if inString \<or> escaped \<or> depth \<noteq> 0 then Inl ErrPayloadMalformed else Inr ())"
| "structure_walk (c # rest) depth inString escaped closed =
     (if inString then
        (if escaped then structure_walk rest depth True False closed
         else if c = CHR 0x5C then structure_walk rest depth True True closed
         else if c = CHR 0x22 then structure_walk rest depth False False closed
         else if byte c < 32 then Inl ErrPayloadMalformed
         else structure_walk rest depth True False closed)
      else bind_r (structure_step c depth closed) (\<lambda>(depth', inString', closed').
        if closed' \<and> rest \<noteq> [] \<and> TrimSpace rest \<noteq> [] then Inl ErrPayloadNotObject
        else structure_walk rest depth' inString' escaped closed'))"

definition checkObjectStructure :: "string \<Rightarrow> jobs_error + unit" where
  "checkObjectStructure text = structure_walk text 0 False False False"

definition ValidatePayload :: "string \<Rightarrow> jobs_error + unit" where
  "ValidatePayload payload =
     (if length payload = 0 then Inl ErrEmptyPayload
      else if length payload > MaxPayloadBytes then Inl ErrPayloadTooLarge
      else if \<not> valid_utf8 payload then Inl ErrPayloadMalformed
      else if \<not> (take 1 payload = ''{'') \<or> \<not> (last payload = CHR ''}'') then Inl ErrPayloadNotObject
      else checkObjectStructure payload)"

section \<open>Failures\<close>

definition FailureInvalidPayload :: FailureCode where [vocab]: "FailureInvalidPayload = ''JOB_INVALID_PAYLOAD''"
definition FailureUnknownType :: FailureCode where [vocab]: "FailureUnknownType = ''JOB_UNKNOWN_TYPE''"
definition FailureUnsupportedVersion :: FailureCode where [vocab]: "FailureUnsupportedVersion = ''JOB_UNSUPPORTED_VERSION''"
definition FailureHandlerError :: FailureCode where [vocab]: "FailureHandlerError = ''JOB_HANDLER_ERROR''"
definition FailureHandlerTimeout :: FailureCode where [vocab]: "FailureHandlerTimeout = ''JOB_HANDLER_TIMEOUT''"
definition FailureLeaseExpired :: FailureCode where [vocab]: "FailureLeaseExpired = ''JOB_LEASE_EXPIRED''"

definition AllFailureCodes :: "FailureCode list" where
  "AllFailureCodes = [FailureInvalidPayload, FailureUnknownType, FailureUnsupportedVersion,
     FailureHandlerError, FailureHandlerTimeout, FailureLeaseExpired]"

definition FailureCode_IsValid :: "FailureCode \<Rightarrow> bool" where
  "FailureCode_IsValid c \<longleftrightarrow> List.member AllFailureCodes c"

record Failure =
  failure_Code :: FailureCode
  failure_Detail :: string

text \<open>\<open>strings.Map\<close> with a mapping that keeps or drops each rune.\<close>

function keep_runes :: "(nat \<Rightarrow> bool) \<Rightarrow> string \<Rightarrow> string" where
  "keep_runes P s =
     (if s = [] then []
      else (if P (fst (decode_rune s)) then take (snd (decode_rune s)) s else []) @
        keep_runes P (drop (snd (decode_rune s)) s))"
  by pat_completeness auto
termination
proof (relation "measure (\<lambda>(P, s). length s)")
  fix P :: "nat \<Rightarrow> bool" and s :: string
  assume "s \<noteq> []"
  then show "((P, drop (snd (decode_rune s)) s), (P, s)) \<in> measure (\<lambda>(P, s). length s)"
    using decode_rune_width [of s] by auto
qed simp

declare keep_runes.simps [simp del]

definition detail_rune :: "nat \<Rightarrow> bool" where
  "detail_rune r \<longleftrightarrow> 97 \<le> r \<and> r \<le> 122 \<or> 65 \<le> r \<and> r \<le> 90 \<or> 48 \<le> r \<and> r \<le> 57 \<or> r \<in> {32, 95, 45, 46, 58, 44}"

text \<open>\<open>strings.Fields\<close> on ASCII text and \<open>strings.Join\<close> with a blank.\<close>

fun fields_acc :: "string \<Rightarrow> string \<Rightarrow> string list" where
  "fields_acc [] acc = (if acc = [] then [] else [rev acc])"
| "fields_acc (c # s) acc =
     (if is_space (byte c) then (if acc = [] then fields_acc s [] else rev acc # fields_acc s [])
      else fields_acc s (c # acc))"

definition Fields :: "string \<Rightarrow> string list" where
  "Fields s = fields_acc s []"

fun Join :: "string list \<Rightarrow> string" where
  "Join [] = []"
| "Join [f] = f"
| "Join (f # g # fs) = f @ '' '' @ Join (g # fs)"

definition SanitizeDetail :: "string \<Rightarrow> string" where
  "SanitizeDetail raw =
     (let cleaned = Join (Fields (keep_runes detail_rune raw));
          bounded = (if length cleaned > MaxErrorDetailLength then take MaxErrorDetailLength cleaned else cleaned)
      in if bounded = [] then ''redacted'' else bounded)"

definition NewFailure :: "FailureCode \<Rightarrow> string \<Rightarrow> jobs_error + Failure" where
  "NewFailure code detail =
     (if \<not> FailureCode_IsValid code then Inl ErrUnknownFailureCode
      else Inr \<lparr>failure_Code = code, failure_Detail = SanitizeDetail detail\<rparr>)"

section \<open>Jobs\<close>

record Lease =
  Owner :: string
  Until :: time

definition Lease_Validate :: "Lease \<Rightarrow> jobs_error + unit" where
  "Lease_Validate l =
     (if TrimSpace (Owner l) = [] \<or> length (Owner l) > MaxLeaseOwnerLength then Inl ErrInvalidLease
      else if time_IsZero (Until l) then Inl ErrInvalidLease
      else Inr ())"

definition NewLease :: "string \<Rightarrow> time \<Rightarrow> jobs_error + Lease" where
  "NewLease owner until =
     (let lease = \<lparr>Owner = owner, Until = until\<rparr> in
      case Lease_Validate lease of Inl e \<Rightarrow> Inl e | Inr _ \<Rightarrow> Inr lease)"

record Job =
  job_ID :: string
  job_Type :: JobType
  job_Version :: int
  job_Payload :: string
  job_IdempotencyKey :: string
  job_State :: JobState
  job_AvailableAt :: time
  job_Attempts :: int
  job_MaxAttempts :: int
  job_LeaseOwner :: string
  job_LeasedUntil :: time
  job_LastErrorCode :: FailureCode
  job_LastErrorDetail :: string
  job_CreatedAt :: time
  job_UpdatedAt :: time

definition validateLease :: "Job \<Rightarrow> jobs_error + unit" where
  "validateLease j =
     (let hasOwner = (job_LeaseOwner j \<noteq> []); hasExpiry = (\<not> time_IsZero (job_LeasedUntil j)) in
      if hasOwner \<noteq> hasExpiry then Inl ErrInvalidLease
      else if (job_State j = StateLeased) \<noteq> (hasOwner \<and> hasExpiry) then Inl ErrLeaseIncoherent
      else if hasOwner then Lease_Validate \<lparr>Owner = job_LeaseOwner j, Until = job_LeasedUntil j\<rparr>
      else if JobState_IsTerminal (job_State j) \<and> (hasOwner \<or> hasExpiry) then Inl ErrLeaseIncoherent
      else Inr ())"

definition validateIdempotencyKey :: "Job \<Rightarrow> jobs_error + unit" where
  "validateIdempotencyKey j =
     (if job_IdempotencyKey j = [] then Inr ()
      else if TrimSpace (job_IdempotencyKey j) = [] \<or> length (job_IdempotencyKey j) > MaxIdempotencyKeyLength
        then Inl ErrInvalidIdempotencyKey
      else Inr ())"

definition validateFailure :: "Job \<Rightarrow> jobs_error + unit" where
  "validateFailure j =
     (let hasCode = (job_LastErrorCode j \<noteq> []); hasDetail = (job_LastErrorDetail j \<noteq> []) in
      if hasCode \<noteq> hasDetail then Inl ErrInvalidFailure
      else if \<not> hasCode then Inr ()
      else if \<not> FailureCode_IsValid (job_LastErrorCode j) then Inl ErrUnknownFailureCode
      else if length (job_LastErrorDetail j) > MaxErrorDetailLength then Inl ErrInvalidFailure
      else Inr ())"

definition Job_Validate :: "Job \<Rightarrow> jobs_error + unit" where
  "Job_Validate j =
     (if TrimSpace (job_ID j) = [] then Inl ErrEmptyJobID
      else if \<not> JobType_IsValid (job_Type j) then Inl ErrUnknownJobType
      else if job_Version j < 1 then Inl ErrInvalidVersion
      else bind_r (ValidatePayload (job_Payload j)) (\<lambda>_.
      if \<not> JobState_IsValid (job_State j) then Inl ErrUnknownJobState
      else if job_MaxAttempts j < 1 \<or> job_Attempts j < 0 \<or> job_Attempts j > job_MaxAttempts j then Inl ErrInvalidAttempts
      else bind_r (validateLease j) (\<lambda>_.
      bind_r (validateIdempotencyKey j) (\<lambda>_.
      bind_r (validateFailure j) (\<lambda>_.
      if time_IsZero (job_CreatedAt j) \<or> job_UpdatedAt j < job_CreatedAt j then Inl ErrInvalidTimestamps
      else Inr ())))))"

definition Job_IsTerminal :: "Job \<Rightarrow> bool" where
  "Job_IsTerminal j \<longleftrightarrow> JobState_IsTerminal (job_State j)"

definition LeaseExpired :: "Job \<Rightarrow> time \<Rightarrow> bool" where
  "LeaseExpired j now =
     (if job_State j \<noteq> StateLeased \<or> time_IsZero (job_LeasedUntil j) then False
      else \<not> now < job_LeasedUntil j)"

definition WithinAttemptBudget :: "Job \<Rightarrow> bool" where
  "WithinAttemptBudget j \<longleftrightarrow> job_Attempts j < job_MaxAttempts j"

definition Job_Lease :: "Job \<Rightarrow> Lease" where
  "Job_Lease j = \<lparr>Owner = job_LeaseOwner j, Until = job_LeasedUntil j\<rparr>"

definition Job_Failure :: "Job \<Rightarrow> Failure option" where
  "Job_Failure j =
     (if job_LastErrorCode j = [] then None
      else Some \<lparr>failure_Code = job_LastErrorCode j, failure_Detail = job_LastErrorDetail j\<rparr>)"

section \<open>Administration\<close>

datatype admin_error = ErrStepUpRequired | ErrRetryNotAllowed | ErrJobNotDead | ErrEmptyReason | ErrEmptyActor

definition StepUpWindow :: int where "StepUpWindow = 15 * 60 * ns_per_sec"
definition ActionRetryDeadJob :: string where "ActionRetryDeadJob = ''jobs.retry''"
definition ReasonCodeDeadJobRetry :: string where "ReasonCodeDeadJobRetry = ''dead_job_retry''"

definition RetryableJobTypes :: "JobType list" where
  "RetryableJobTypes = [TypeBillingReconciliation, TypeEmailDelivery, TypeINKGrantMonthly, TypePassExpiry,
     TypeRetentionRun, TypeSessionCleanup]"

definition RetryAllowed :: "JobType \<Rightarrow> bool" where
  "RetryAllowed t \<longleftrightarrow> List.member RetryableJobTypes t"

definition StepUpSatisfied :: "string \<Rightarrow> int \<Rightarrow> admin_error + bool" where
  "StepUpSatisfied action sessionAge =
     (if TrimSpace action = [] then Inl ErrStepUpRequired
      else if sessionAge \<le> 0 \<or> sessionAge > StepUpWindow then Inl ErrStepUpRequired
      else Inr True)"

definition ValidateReason :: "string \<Rightarrow> admin_error + unit" where
  "ValidateReason reason =
     (let trimmed = TrimSpace reason in
      if trimmed = [] \<or> length trimmed > 200 then Inl ErrEmptyReason else Inr ())"

end
