(* ===== verification/JobsStore.thy ===== *)
theory JobsStore
  imports JobsDomain Postgres
begin

text \<open>
  The table \<open>app.jobs\<close> (migration 00029), the statements of
  \<open>internal/platform/postgres/jobs.sql.go\<close> and the repository
  \<open>internal/jobs/adapters/postgres\<close>. \<open>jsonb\<close> stands for PostgreSQL's conversion of a text to
  \<open>jsonb\<close> and back to text (\<open>None\<close>: not JSON), \<open>scan\<close> for \<open>pgtype.UUID.Scan\<close>, and the set
  \<open>locked\<close> of a claim for the rows that concurrent transactions hold (\<open>SKIP LOCKED\<close>).
\<close>

section \<open>The table\<close>

record AppJob =
  jr_ID :: uuid
  jr_Type :: string
  jr_Version :: int
  jr_Parameters :: string
  jr_IdempotencyKey :: "string option"
  jr_State :: string
  jr_AvailableAt :: time
  jr_Attempts :: int
  jr_MaxAttempts :: int
  jr_LeaseOwner :: "string option"
  jr_LeasedUntil :: "time option"
  jr_LastErrorCode :: "string option"
  jr_LastErrorDetail :: "string option"
  jr_CreatedAt :: time
  jr_UpdatedAt :: time

record jobs_db =
  job_rows :: "AppJob list"
  job_uuid_gen :: "nat \<Rightarrow> uuid"
  job_uuid_next :: nat

definition char_length :: "string \<Rightarrow> nat" where
  "char_length s = length (runes s)"

text \<open>\<open>last_error_code ~ '^JOB_[A-Z0-9_]{2,61}$'\<close>.\<close>

definition error_code_shape :: "string \<Rightarrow> bool" where
  "error_code_shape s \<longleftrightarrow> take 4 s = ''JOB_'' \<and> 2 \<le> length (drop 4 s) \<and> length (drop 4 s) \<le> 61
     \<and> list_all (\<lambda>c. 65 \<le> byte c \<and> byte c \<le> 90 \<or> 48 \<le> byte c \<and> byte c \<le> 57 \<or> byte c = 95) (drop 4 s)"

definition jobs_checks :: "AppJob \<Rightarrow> bool" where
  "jobs_checks r \<longleftrightarrow>
     jr_Type r \<in> {''email_delivery'', ''ink_grant_monthly'', ''pass_expiry'', ''retention_run'',
       ''session_cleanup'', ''billing_reconciliation''}
   \<and> 1 \<le> jr_Version r
   \<and> take 1 (jr_Parameters r) = ''{'' \<and> length (jr_Parameters r) \<le> 4096
   \<and> jr_State r \<in> {''queued'', ''leased'', ''succeeded'', ''dead''}
   \<and> 0 \<le> jr_Attempts r \<and> jr_Attempts r \<le> jr_MaxAttempts r \<and> 1 \<le> jr_MaxAttempts r
   \<and> (case jr_IdempotencyKey r of None \<Rightarrow> True | Some k \<Rightarrow> \<not> sql_blank k \<and> char_length k \<le> 200)
   \<and> (jr_State r = ''leased'') = (jr_LeaseOwner r \<noteq> None \<and> jr_LeasedUntil r \<noteq> None)
   \<and> (case jr_LeaseOwner r of None \<Rightarrow> True | Some w \<Rightarrow> \<not> sql_blank w \<and> char_length w \<le> 128)
   \<and> (jr_LastErrorCode r = None) = (jr_LastErrorDetail r = None)
   \<and> (case jr_LastErrorCode r of None \<Rightarrow> True | Some c \<Rightarrow> error_code_shape c)
   \<and> (case jr_LastErrorDetail r of None \<Rightarrow> True | Some d \<Rightarrow> char_length d \<le> 300)
   \<and> (jr_State r \<in> {''succeeded'', ''dead''} \<longrightarrow> jr_LeaseOwner r = None \<and> jr_LeasedUntil r = None)"

text \<open>The driver sends the zero instant as \<open>NULL\<close>.\<close>

definition pgTimestamptz :: "time \<Rightarrow> time option" where
  "pgTimestamptz t = (if time_IsZero t then None else Some (timestamptz t))"

definition timeFromPg :: "time option \<Rightarrow> time" where
  "timeFromPg t = (case t of None \<Rightarrow> 0 | Some u \<Rightarrow> u)"

definition pgTextOrNull :: "string \<Rightarrow> string option" where
  "pgTextOrNull raw = (if raw = [] then None else Some raw)"

definition stringFromPg :: "string option \<Rightarrow> string" where
  "stringFromPg raw = (case raw of None \<Rightarrow> [] | Some s \<Rightarrow> s)"

section \<open>Statements\<close>

text \<open>Replacing the row with an identifier, under the table's checks.\<close>

definition put_row :: "AppJob \<Rightarrow> jobs_db \<Rightarrow> pg_error + AppJob \<times> jobs_db" where
  "put_row row db =
     (if \<not> jobs_checks row then Inl CheckViolation
      else Inr (row, db\<lparr>job_rows := map (\<lambda>r. if jr_ID r = jr_ID row then row else r) (job_rows db)\<rparr>))"

definition sql_EnqueueJob ::
  "(string \<Rightarrow> string option) \<Rightarrow> string \<Rightarrow> int \<Rightarrow> string \<Rightarrow> string option \<Rightarrow> time option \<Rightarrow> int \<Rightarrow> time option
     \<Rightarrow> jobs_db \<Rightarrow> pg_error + AppJob \<times> jobs_db" where
  "sql_EnqueueJob jsonb jobType v parameters key availableAt maxAttempts createdAt db =
     (if \<not> pg_text jobType \<or> (case key of None \<Rightarrow> False | Some k \<Rightarrow> \<not> pg_text k) then Inl InvalidText
      else case jsonb parameters of None \<Rightarrow> Inl InvalidText | Some stored \<Rightarrow>
     (case (availableAt, createdAt) of
        (Some a, Some c) \<Rightarrow>
          (let row = \<lparr>jr_ID = job_uuid_gen db (job_uuid_next db), jr_Type = jobType, jr_Version = v,
                      jr_Parameters = stored, jr_IdempotencyKey = key, jr_State = ''queued'', jr_AvailableAt = a,
                      jr_Attempts = 0, jr_MaxAttempts = maxAttempts, jr_LeaseOwner = None, jr_LeasedUntil = None,
                      jr_LastErrorCode = None, jr_LastErrorDetail = None, jr_CreatedAt = c, jr_UpdatedAt = c\<rparr> in
           if \<not> jobs_checks row then Inl CheckViolation
           else if key \<noteq> None \<and> key \<in> jr_IdempotencyKey ` set (job_rows db) then Inl NoRows
           else if jr_ID row \<in> jr_ID ` set (job_rows db) then Inl UniqueViolation
           else Inr (row, db\<lparr>job_rows := job_rows db @ [row], job_uuid_next := Suc (job_uuid_next db)\<rparr>))
      | _ \<Rightarrow> Inl NotNullViolation))"

definition sql_GetJob :: "uuid \<Rightarrow> jobs_db \<Rightarrow> pg_error + AppJob" where
  "sql_GetJob i db = (case find (\<lambda>r. jr_ID r = i) (job_rows db) of None \<Rightarrow> Inl NoRows | Some r \<Rightarrow> Inr r)"

definition sql_GetJobByIdempotencyKey :: "string \<Rightarrow> jobs_db \<Rightarrow> pg_error + AppJob" where
  "sql_GetJobByIdempotencyKey k db =
     (case find (\<lambda>r. jr_IdempotencyKey r = Some k) (job_rows db) of None \<Rightarrow> Inl NoRows | Some r \<Rightarrow> Inr r)"

definition claimable :: "time \<Rightarrow> AppJob \<Rightarrow> bool" where
  "claimable now r \<longleftrightarrow> jr_State r = ''queued'' \<and> jr_AvailableAt r \<le> now
     \<or> jr_State r = ''leased'' \<and> (case jr_LeasedUntil r of None \<Rightarrow> False | Some u \<Rightarrow> u \<le> now)"

definition claim_key :: "AppJob \<Rightarrow> keyset" where
  "claim_key r = Keyset (jr_AvailableAt r) (jr_ID r)"

definition claim_order :: "uuid set \<Rightarrow> time \<Rightarrow> jobs_db \<Rightarrow> AppJob list" where
  "claim_order locked now db = sort_key claim_key (filter (\<lambda>r. claimable now r \<and> jr_ID r \<notin> locked) (job_rows db))"

definition sql_LeaseJob ::
  "uuid set \<Rightarrow> string \<Rightarrow> time option \<Rightarrow> time option \<Rightarrow> jobs_db \<Rightarrow> pg_error + AppJob \<times> jobs_db" where
  "sql_LeaseJob locked owner leasedUntil now db =
     (if \<not> pg_text owner then Inl InvalidText
      else case now of None \<Rightarrow> Inl NoRows | Some t \<Rightarrow>
     (case claim_order locked t db of
        [] \<Rightarrow> Inl NoRows
      | r # _ \<Rightarrow>
          if \<not> in_int32 (jr_Attempts r + 1) then Inl NumericOutOfRange
          else put_row (r\<lparr>jr_State := ''leased'', jr_LeaseOwner := Some owner, jr_LeasedUntil := leasedUntil,
                          jr_Attempts := jr_Attempts r + 1, jr_UpdatedAt := t\<rparr>) db))"

text \<open>The row a holder may still act on.\<close>

definition held_row :: "uuid \<Rightarrow> string \<Rightarrow> jobs_db \<Rightarrow> AppJob option" where
  "held_row i owner db =
     find (\<lambda>r. jr_ID r = i \<and> jr_State r = ''leased'' \<and> jr_LeaseOwner r = Some owner) (job_rows db)"

definition sql_CompleteJob :: "time option \<Rightarrow> uuid \<Rightarrow> string \<Rightarrow> jobs_db \<Rightarrow> pg_error + AppJob \<times> jobs_db" where
  "sql_CompleteJob now i owner db =
     (if \<not> pg_text owner then Inl InvalidText
      else case held_row i owner db of None \<Rightarrow> Inl NoRows | Some r \<Rightarrow>
     (case now of None \<Rightarrow> Inl NotNullViolation | Some t \<Rightarrow>
        put_row (r\<lparr>jr_State := ''succeeded'', jr_LeaseOwner := None, jr_LeasedUntil := None, jr_UpdatedAt := t\<rparr>) db))"

definition sql_FailJob ::
  "time option \<Rightarrow> string \<Rightarrow> string \<Rightarrow> time option \<Rightarrow> uuid \<Rightarrow> string \<Rightarrow> jobs_db \<Rightarrow> pg_error + AppJob \<times> jobs_db" where
  "sql_FailJob retryAt code detail now i owner db =
     (if \<not> pg_text owner \<or> \<not> pg_text code \<or> \<not> pg_text detail then Inl InvalidText
      else case held_row i owner db of None \<Rightarrow> Inl NoRows | Some r \<Rightarrow>
     (let spent = (jr_Attempts r \<ge> jr_MaxAttempts r);
          available = (if spent then Some (jr_AvailableAt r) else retryAt) in
      case (available, now) of
        (Some a, Some t) \<Rightarrow>
          put_row (r\<lparr>jr_State := (if spent then ''dead'' else ''queued''), jr_AvailableAt := a,
                     jr_LeaseOwner := None, jr_LeasedUntil := None, jr_LastErrorCode := Some code,
                     jr_LastErrorDetail := Some detail, jr_UpdatedAt := t\<rparr>) db
      | _ \<Rightarrow> Inl NotNullViolation))"

definition lease_ended :: "time \<Rightarrow> AppJob \<Rightarrow> bool" where
  "lease_ended now r \<longleftrightarrow> jr_State r = ''leased'' \<and> (case jr_LeasedUntil r of None \<Rightarrow> False | Some u \<Rightarrow> u \<le> now)"

definition released :: "time \<Rightarrow> AppJob \<Rightarrow> AppJob" where
  "released now r = r\<lparr>jr_State := ''queued'', jr_LeaseOwner := None, jr_LeasedUntil := None, jr_UpdatedAt := now\<rparr>"

definition sql_ReleaseExpiredLeases :: "time option \<Rightarrow> jobs_db \<Rightarrow> pg_error + int \<times> jobs_db" where
  "sql_ReleaseExpiredLeases now db =
     (case now of None \<Rightarrow> Inr (0, db) | Some t \<Rightarrow>
        if list_all (\<lambda>r. lease_ended t r \<longrightarrow> jobs_checks (released t r)) (job_rows db)
        then Inr (int (length (filter (lease_ended t) (job_rows db))),
                  db\<lparr>job_rows := map (\<lambda>r. if lease_ended t r then released t r else r) (job_rows db)\<rparr>)
        else Inl CheckViolation)"

definition sql_RetryDeadJob :: "time option \<Rightarrow> uuid \<Rightarrow> jobs_db \<Rightarrow> pg_error + AppJob \<times> jobs_db" where
  "sql_RetryDeadJob now i db =
     (case find (\<lambda>r. jr_ID r = i \<and> jr_State r = ''dead'') (job_rows db) of None \<Rightarrow> Inl NoRows | Some r \<Rightarrow>
     (case now of None \<Rightarrow> Inl NotNullViolation | Some t \<Rightarrow>
        put_row (r\<lparr>jr_State := ''queued'', jr_Attempts := 0, jr_AvailableAt := t, jr_LeaseOwner := None,
                   jr_LeasedUntil := None, jr_LastErrorCode := None, jr_LastErrorDetail := None, jr_UpdatedAt := t\<rparr>) db))"

definition dead_key :: "AppJob \<Rightarrow> keyset" where
  "dead_key r = Keyset (jr_UpdatedAt r) (jr_ID r)"

definition sql_ListDeadJobs :: "int \<Rightarrow> jobs_db \<Rightarrow> pg_error + AppJob list" where
  "sql_ListDeadJobs rowLimit db =
     (if rowLimit < 0 then Inl InvalidLimit
      else Inr (take (nat rowLimit) (sort_key dead_key (filter (\<lambda>r. jr_State r = ''dead'') (job_rows db)))))"

record GetQueueHealthRow =
  hr_Queued :: int
  hr_Leased :: int
  hr_Succeeded :: int
  hr_Dead :: int
  hr_DueNow :: int
  hr_OldestDueAt :: "time option"
  hr_OldestDeadAt :: "time option"
  hr_NewestDeadAt :: "time option"

definition count_rows :: "(AppJob \<Rightarrow> bool) \<Rightarrow> jobs_db \<Rightarrow> int" where
  "count_rows P db = int (length (filter P (job_rows db)))"

definition least :: "time list \<Rightarrow> time option" where
  "least ts = (case ts of [] \<Rightarrow> None | t # ts \<Rightarrow> Some (fold min ts t))"

definition greatest :: "time list \<Rightarrow> time option" where
  "greatest ts = (case ts of [] \<Rightarrow> None | t # ts \<Rightarrow> Some (fold max ts t))"

definition sql_GetQueueHealth :: "time option \<Rightarrow> jobs_db \<Rightarrow> GetQueueHealthRow" where
  "sql_GetQueueHealth now db =
     (let due = (\<lambda>r. jr_State r = ''queued'' \<and> (case now of None \<Rightarrow> False | Some t \<Rightarrow> jr_AvailableAt r \<le> t));
          dead = filter (\<lambda>r. jr_State r = ''dead'') (job_rows db) in
      \<lparr>hr_Queued = count_rows (\<lambda>r. jr_State r = ''queued'') db,
       hr_Leased = count_rows (\<lambda>r. jr_State r = ''leased'') db,
       hr_Succeeded = count_rows (\<lambda>r. jr_State r = ''succeeded'') db,
       hr_Dead = count_rows (\<lambda>r. jr_State r = ''dead'') db,
       hr_DueNow = count_rows due db,
       hr_OldestDueAt = least (map jr_AvailableAt (filter due (job_rows db))),
       hr_OldestDeadAt = least (map jr_UpdatedAt dead),
       hr_NewestDeadAt = greatest (map jr_UpdatedAt dead)\<rparr>)"

text \<open>The states in use with their counts; the states are lower-case words, on which collations agree.\<close>

definition sql_CountJobsByState :: "jobs_db \<Rightarrow> (string \<times> int) list" where
  "sql_CountJobsByState db =
     map (\<lambda>s. (s, count_rows (\<lambda>r. jr_State r = s) db)) (sort (remdups (map jr_State (job_rows db))))"

end
