(* ===== verification/JobsQueue.thy ===== *)
theory JobsQueue
  imports JobsStore UuidScan
begin

text \<open>
  The queue repository (\<open>internal/jobs/adapters/postgres/repository.go\<close>) and the use cases of
  \<open>internal/jobs/application/queue.go\<close>. A statement commits on its own, so an operation returns
  its outcome and the state after it: a row that was written but does not convert to a job is an
  error with a changed state. The loggers, the context and nil dependencies are left out.
\<close>

datatype jobs_app_error =
    JobDomain jobs_error | JobAdmin admin_error
  | ErrJobNotFound | ErrLeaseNotHeld | ErrInvalidLeaseOwner | ErrInvalidLeaseDuration | ErrInvalidMaxAttempts
  | ErrInvalidWorkerConfig | ErrInvalidBackoff | ErrInvalidHandler | ErrDuplicateHandler | ErrUnknownHandler
  | ErrInvalidSchedule | ErrUnsupportedHandlerVersion | ErrInvalidQueueConfig | ErrInvalidIdentifier
  | AuditFailed | ErrUnknownSession | ErrPeriodInvalid
  | JobDatabase pg_error

section \<open>Repository\<close>

record EnqueueRecord =
  rec_Type :: JobType
  rec_Version :: int
  rec_Payload :: string
  rec_IdempotencyKey :: string
  rec_AvailableAt :: time
  rec_MaxAttempts :: int
  rec_CreatedAt :: time

definition narrowInt32 :: "int \<Rightarrow> jobs_app_error \<Rightarrow> jobs_app_error + int" where
  "narrowInt32 value invalid = (if value < MinInt32 \<or> value > MaxInt32 then Inl invalid else Inr value)"

definition job_of_row :: "AppJob \<Rightarrow> Job" where
  "job_of_row r =
     \<lparr>job_ID = uuidToString (Some (jr_ID r)), job_Type = jr_Type r, job_Version = jr_Version r,
      job_Payload = jr_Parameters r, job_IdempotencyKey = stringFromPg (jr_IdempotencyKey r),
      job_State = jr_State r, job_AvailableAt = timeFromPg (Some (jr_AvailableAt r)),
      job_Attempts = jr_Attempts r, job_MaxAttempts = jr_MaxAttempts r,
      job_LeaseOwner = stringFromPg (jr_LeaseOwner r), job_LeasedUntil = timeFromPg (jr_LeasedUntil r),
      job_LastErrorCode = stringFromPg (jr_LastErrorCode r), job_LastErrorDetail = stringFromPg (jr_LastErrorDetail r),
      job_CreatedAt = timeFromPg (Some (jr_CreatedAt r)), job_UpdatedAt = timeFromPg (Some (jr_UpdatedAt r))\<rparr>"

definition jobFromRow :: "AppJob \<Rightarrow> jobs_app_error + Job" where
  "jobFromRow r = bind_r (wrap_err JobDomain (Job_Validate (job_of_row r))) (\<lambda>_. Inr (job_of_row r))"

definition repo_Enqueue ::
  "(string \<Rightarrow> string option) \<Rightarrow> EnqueueRecord \<Rightarrow> jobs_db \<Rightarrow> (jobs_app_error + Job \<times> bool) \<times> jobs_db" where
  "repo_Enqueue jsonb rc db =
     (case narrowInt32 (rec_Version rc) (JobDomain ErrInvalidVersion) of Inl e \<Rightarrow> (Inl e, db) | Inr v \<Rightarrow>
     (case narrowInt32 (rec_MaxAttempts rc) ErrInvalidMaxAttempts of Inl e \<Rightarrow> (Inl e, db) | Inr maxAttempts \<Rightarrow>
     (case sql_EnqueueJob jsonb (rec_Type rc) v (rec_Payload rc) (pgTextOrNull (rec_IdempotencyKey rc))
        (pgTimestamptz (rec_AvailableAt rc)) maxAttempts (pgTimestamptz (rec_CreatedAt rc)) db of
        Inr (row, db') \<Rightarrow> (bind_r (jobFromRow row) (\<lambda>job. Inr (job, False)), db')
      | Inl e \<Rightarrow>
          if e \<noteq> NoRows then (Inl (JobDatabase e), db)
          else if rec_IdempotencyKey rc = [] then (Inl (JobDatabase e), db)
          else (case sql_GetJobByIdempotencyKey (rec_IdempotencyKey rc) db of
              Inl e \<Rightarrow> (Inl (JobDatabase e), db)
            | Inr existing \<Rightarrow> (bind_r (jobFromRow existing) (\<lambda>job. Inr (job, True)), db)))))"

definition repo_Lease ::
  "uuid set \<Rightarrow> string \<Rightarrow> time \<Rightarrow> time \<Rightarrow> jobs_db \<Rightarrow> (jobs_app_error + Job option) \<times> jobs_db" where
  "repo_Lease locked owner now until db =
     (case sql_LeaseJob locked owner (pgTimestamptz until) (pgTimestamptz now) db of
        Inl e \<Rightarrow> (if e = NoRows then Inr None else Inl (JobDatabase e), db)
      | Inr (row, db') \<Rightarrow> (bind_r (jobFromRow row) (\<lambda>job. Inr (Some job)), db'))"

definition repo_Complete ::
  "(string \<Rightarrow> uuid option) \<Rightarrow> string \<Rightarrow> string \<Rightarrow> time \<Rightarrow> jobs_db \<Rightarrow> (jobs_app_error + Job) \<times> jobs_db" where
  "repo_Complete scan jobID owner now db =
     (case scan jobID of None \<Rightarrow> (Inl ErrLeaseNotHeld, db) | Some i \<Rightarrow>
     (case sql_CompleteJob (pgTimestamptz now) i owner db of
        Inl e \<Rightarrow> (Inl (if e = NoRows then ErrLeaseNotHeld else JobDatabase e), db)
      | Inr (row, db') \<Rightarrow> (jobFromRow row, db')))"

definition repo_Fail ::
  "(string \<Rightarrow> uuid option) \<Rightarrow> Failure \<Rightarrow> string \<Rightarrow> string \<Rightarrow> time \<Rightarrow> time \<Rightarrow> jobs_db
     \<Rightarrow> (jobs_app_error + Job) \<times> jobs_db" where
  "repo_Fail scan failure jobID owner retryAt now db =
     (case scan jobID of None \<Rightarrow> (Inl ErrLeaseNotHeld, db) | Some i \<Rightarrow>
     (case sql_FailJob (pgTimestamptz retryAt) (failure_Code failure) (failure_Detail failure)
        (pgTimestamptz now) i owner db of
        Inl e \<Rightarrow> (Inl (if e = NoRows then ErrLeaseNotHeld else JobDatabase e), db)
      | Inr (row, db') \<Rightarrow> (jobFromRow row, db')))"

definition repo_ReleaseExpiredLeases :: "time \<Rightarrow> jobs_db \<Rightarrow> (jobs_app_error + int) \<times> jobs_db" where
  "repo_ReleaseExpiredLeases now db =
     (case sql_ReleaseExpiredLeases (pgTimestamptz now) db of
        Inl e \<Rightarrow> (Inl (JobDatabase e), db)
      | Inr (reclaimed, db') \<Rightarrow> (Inr reclaimed, db'))"

definition repo_JobByID :: "(string \<Rightarrow> uuid option) \<Rightarrow> string \<Rightarrow> jobs_db \<Rightarrow> jobs_app_error + Job" where
  "repo_JobByID scan jobID db =
     (case scan jobID of None \<Rightarrow> Inl ErrJobNotFound | Some i \<Rightarrow>
     (case sql_GetJob i db of
        Inl e \<Rightarrow> Inl (if e = NoRows then ErrJobNotFound else JobDatabase e)
      | Inr row \<Rightarrow> jobFromRow row))"

section \<open>Use cases\<close>

definition DefaultLeaseDuration :: int where "DefaultLeaseDuration = 60 * ns_per_sec"
definition MaxLeaseDuration :: int where "MaxLeaseDuration = 30 * 60 * ns_per_sec"

record EnqueueCommand =
  enq_Type :: JobType
  enq_Version :: int
  enq_Payload :: string
  enq_IdempotencyKey :: string
  enq_AvailableAt :: "time option"
  enq_MaxAttempts :: int

definition validateOwner :: "string \<Rightarrow> jobs_app_error + unit" where
  "validateOwner owner =
     (if TrimSpace owner = [] \<or> length owner > MaxLeaseOwnerLength then Inl ErrInvalidLeaseOwner else Inr ())"

definition validateCommand :: "EnqueueCommand \<Rightarrow> jobs_app_error + int" where
  "validateCommand cmd =
     (if \<not> JobType_IsValid (enq_Type cmd) then Inl (JobDomain ErrUnknownJobType)
      else if enq_Version cmd < 1 then Inl (JobDomain ErrInvalidVersion)
      else bind_r (wrap_err JobDomain (ValidatePayload (enq_Payload cmd))) (\<lambda>_.
      let maxAttempts = (if enq_MaxAttempts cmd = 0 then DefaultMaxAttempts else enq_MaxAttempts cmd) in
      if maxAttempts < 1 then Inl ErrInvalidMaxAttempts
      else if enq_IdempotencyKey cmd \<noteq> [] \<and> (TrimSpace (enq_IdempotencyKey cmd) = []
           \<or> length (enq_IdempotencyKey cmd) > MaxIdempotencyKeyLength)
        then Inl (JobDomain ErrInvalidIdempotencyKey)
      else Inr maxAttempts))"

definition Enqueue_Execute ::
  "(string \<Rightarrow> string option) \<Rightarrow> time \<Rightarrow> EnqueueCommand \<Rightarrow> jobs_db \<Rightarrow> (jobs_app_error + Job \<times> bool) \<times> jobs_db" where
  "Enqueue_Execute jsonb now cmd db =
     (case validateCommand cmd of Inl e \<Rightarrow> (Inl e, db) | Inr maxAttempts \<Rightarrow>
        repo_Enqueue jsonb
          \<lparr>rec_Type = enq_Type cmd, rec_Version = enq_Version cmd, rec_Payload = enq_Payload cmd,
           rec_IdempotencyKey = enq_IdempotencyKey cmd,
           rec_AvailableAt = (case enq_AvailableAt cmd of None \<Rightarrow> now | Some t \<Rightarrow> t),
           rec_MaxAttempts = maxAttempts, rec_CreatedAt = now\<rparr> db)"

definition Lease_Execute ::
  "uuid set \<Rightarrow> time \<Rightarrow> string \<Rightarrow> int \<Rightarrow> jobs_db \<Rightarrow> (jobs_app_error + Job option) \<times> jobs_db" where
  "Lease_Execute locked now owner duration db =
     (case validateOwner owner of Inl e \<Rightarrow> (Inl e, db) | Inr _ \<Rightarrow>
        if duration \<le> 0 \<or> duration > MaxLeaseDuration then (Inl ErrInvalidLeaseDuration, db)
        else repo_Lease locked owner now (now + duration) db)"

definition Complete_Execute ::
  "(string \<Rightarrow> uuid option) \<Rightarrow> time \<Rightarrow> string \<Rightarrow> string \<Rightarrow> jobs_db \<Rightarrow> (jobs_app_error + Job) \<times> jobs_db" where
  "Complete_Execute scan now jobID owner db =
     (case validateOwner owner of Inl e \<Rightarrow> (Inl e, db) | Inr _ \<Rightarrow> repo_Complete scan jobID owner now db)"

definition Fail_Execute ::
  "(string \<Rightarrow> uuid option) \<Rightarrow> time \<Rightarrow> string \<Rightarrow> string \<Rightarrow> FailureCode \<Rightarrow> string \<Rightarrow> time option \<Rightarrow> jobs_db
     \<Rightarrow> (jobs_app_error + Job) \<times> jobs_db" where
  "Fail_Execute scan now jobID owner code detail retryAt db =
     (case validateOwner owner of Inl e \<Rightarrow> (Inl e, db) | Inr _ \<Rightarrow>
     (case NewFailure code detail of Inl e \<Rightarrow> (Inl (JobDomain e), db) | Inr failure \<Rightarrow>
        repo_Fail scan failure jobID owner (case retryAt of None \<Rightarrow> now | Some t \<Rightarrow> t) now db))"

definition Recover_Execute :: "time \<Rightarrow> jobs_db \<Rightarrow> (jobs_app_error + int) \<times> jobs_db" where
  "Recover_Execute now db = repo_ReleaseExpiredLeases now db"

end
