(* ===== verification/JobsOperations.thy ===== *)
theory JobsOperations
  imports JobsQueue
begin

text \<open>
  The operational surface: \<open>internal/jobs/application/operations.go\<close> over
  \<open>internal/jobs/adapters/postgres/operations.go\<close>. The audit trail belongs to another module: the
  parameter \<open>audit\<close> tells whether recording a fact fails, and the state carries the facts that were
  recorded in the transaction of a retry. The job is loaded outside that transaction, so a retry
  takes the state it read (\<open>seen\<close>) and the one its transaction runs on.
\<close>

section \<open>Health\<close>

record QueueHealth =
  qh_Queued :: int
  qh_Leased :: int
  qh_Succeeded :: int
  qh_Dead :: int
  qh_DueNow :: int
  qh_LagSeconds :: int
  qh_OldestDeadSeconds :: int

text \<open>\<open>time.Time.Sub\<close> saturates at the bounds of \<open>time.Duration\<close>.\<close>

definition time_Sub :: "time \<Rightarrow> time \<Rightarrow> int" where
  "time_Sub t u = max MinInt64 (min MaxInt64 (t - u))"

definition elapsedSeconds :: "time \<Rightarrow> time \<Rightarrow> int" where
  "elapsedSeconds now earlier =
     (if time_IsZero earlier then 0
      else if time_Sub now earlier \<le> 0 then 0
      else time_Sub now earlier div ns_per_sec)"

definition repo_QueueHealth :: "time \<Rightarrow> jobs_db \<Rightarrow> QueueHealth" where
  "repo_QueueHealth now db =
     (let row = sql_GetQueueHealth (pgTimestamptz now) db in
      \<lparr>qh_Queued = hr_Queued row, qh_Leased = hr_Leased row, qh_Succeeded = hr_Succeeded row,
       qh_Dead = hr_Dead row, qh_DueNow = hr_DueNow row,
       qh_LagSeconds = (case hr_OldestDueAt row of None \<Rightarrow> 0 | Some t \<Rightarrow> elapsedSeconds now t),
       qh_OldestDeadSeconds = elapsedSeconds now (timeFromPg (hr_OldestDeadAt row))\<rparr>)"

record HealthReport =
  health_GeneratedAt :: time
  health_Queue :: QueueHealth

definition GetQueueHealth_Execute :: "time \<Rightarrow> jobs_db \<Rightarrow> HealthReport" where
  "GetQueueHealth_Execute now db = \<lparr>health_GeneratedAt = now, health_Queue = repo_QueueHealth now db\<rparr>"

section \<open>Dead jobs\<close>

record DeadJob =
  dead_ID :: string
  dead_Type :: JobType
  dead_Version :: int
  dead_Attempts :: int
  dead_MaxAttempts :: int
  dead_LastErrorCode :: FailureCode
  dead_AgeSeconds :: int
  dead_Retryable :: bool

definition deadJobFromRow :: "AppJob \<Rightarrow> time \<Rightarrow> jobs_app_error + DeadJob" where
  "deadJobFromRow row now =
     (if \<not> JobType_IsValid (jr_Type row) then Inl (JobDomain ErrUnknownJobType)
      else Inr \<lparr>dead_ID = uuidToString (Some (jr_ID row)), dead_Type = jr_Type row, dead_Version = jr_Version row,
        dead_Attempts = jr_Attempts row, dead_MaxAttempts = jr_MaxAttempts row,
        dead_LastErrorCode = (case jr_LastErrorCode row of None \<Rightarrow> [] | Some c \<Rightarrow> c),
        dead_AgeSeconds = elapsedSeconds now (timeFromPg (Some (jr_UpdatedAt row))),
        dead_Retryable = RetryAllowed (jr_Type row)\<rparr>)"

fun dead_jobs :: "AppJob list \<Rightarrow> time \<Rightarrow> jobs_app_error + DeadJob list" where
  "dead_jobs [] now = Inr []"
| "dead_jobs (row # rows) now =
     bind_r (deadJobFromRow row now) (\<lambda>job. bind_r (dead_jobs rows now) (\<lambda>jobs. Inr (job # jobs)))"

definition repo_ListDeadJobs :: "int \<Rightarrow> time \<Rightarrow> jobs_db \<Rightarrow> jobs_app_error + DeadJob list" where
  "repo_ListDeadJobs limit now db =
     bind_r (narrowInt32 limit ErrInvalidQueueConfig) (\<lambda>narrowed.
     bind_r (wrap_err JobDatabase (sql_ListDeadJobs narrowed db)) (\<lambda>rows. dead_jobs rows now))"

definition DefaultDeadListLimit :: int where "DefaultDeadListLimit = 50"
definition MaxDeadListLimit :: int where "MaxDeadListLimit = 200"

record DeadReport =
  report_GeneratedAt :: time
  report_Total :: int
  report_Items :: "DeadJob list"

definition ListDeadJobs_Execute :: "time \<Rightarrow> int \<Rightarrow> jobs_db \<Rightarrow> jobs_app_error + DeadReport" where
  "ListDeadJobs_Execute now limit db =
     (let limit1 = (if limit \<le> 0 then DefaultDeadListLimit else limit);
          limit2 = (if limit1 > MaxDeadListLimit then MaxDeadListLimit else limit1) in
      bind_r (repo_ListDeadJobs limit2 now db) (\<lambda>items.
        Inr \<lparr>report_GeneratedAt = now, report_Total = int (length items),
             report_Items = map (\<lambda>j. j\<lparr>dead_Retryable := RetryAllowed (dead_Type j)\<rparr>) items\<rparr>))"

section \<open>Retrying a dead job\<close>

definition repo_SessionAgeAt ::
  "(string \<Rightarrow> uuid option) \<Rightarrow> (uuid \<Rightarrow> pg_error + time) \<Rightarrow> string \<Rightarrow> time \<Rightarrow> jobs_app_error + int" where
  "repo_SessionAgeAt scan session_created sessionID now =
     (case scan sessionID of None \<Rightarrow> Inl ErrUnknownSession | Some i \<Rightarrow>
     (case session_created i of
        Inl e \<Rightarrow> Inl (if e = NoRows then ErrUnknownSession else JobDatabase e)
      | Inr createdAt \<Rightarrow> Inr (if time_Sub now createdAt < 0 then 0 else time_Sub now createdAt)))"

definition repo_RetryDeadJob ::
  "(string \<Rightarrow> uuid option) \<Rightarrow> string \<Rightarrow> time \<Rightarrow> jobs_db \<Rightarrow> (jobs_app_error + DeadJob option) \<times> jobs_db" where
  "repo_RetryDeadJob scan jobID now db =
     (case scan jobID of None \<Rightarrow> (Inl ErrInvalidIdentifier, db) | Some i \<Rightarrow>
     (case sql_RetryDeadJob (pgTimestamptz now) i db of
        Inl e \<Rightarrow> (if e = NoRows then Inr None else Inl (JobDatabase e), db)
      | Inr (row, db') \<Rightarrow>
          if \<not> JobType_IsValid (jr_Type row) then (Inl (JobDomain ErrUnknownJobType), db')
          else (Inr (Some \<lparr>dead_ID = uuidToString (Some (jr_ID row)), dead_Type = jr_Type row,
              dead_Version = jr_Version row, dead_Attempts = jr_Attempts row, dead_MaxAttempts = jr_MaxAttempts row,
              dead_LastErrorCode = [], dead_AgeSeconds = 0, dead_Retryable = RetryAllowed (jr_Type row)\<rparr>), db')))"

record RetryJobCommand =
  retry_Actor :: string
  retry_SessionAge :: int
  retry_JobID :: string
  retry_Reason :: string

record RetryJobResult =
  retried_JobID :: string
  retried_Type :: JobType
  retried_State :: JobState

record AdminFact =
  fact_Actor :: string
  fact_Action :: string
  fact_TargetID :: string
  fact_ReasonCode :: string
  fact_Reason :: string
  fact_Metadata :: "(string \<times> string) list"
  fact_OccurredAt :: time

definition validActor :: "string \<Rightarrow> bool" where
  "validActor actor \<longleftrightarrow> TrimSpace actor \<noteq> [] \<and> length (TrimSpace actor) \<le> MaxLeaseOwnerLength"

definition validJobReference :: "string \<Rightarrow> bool" where
  "validJobReference i \<longleftrightarrow> TrimSpace i \<noteq> [] \<and> length (TrimSpace i) \<le> 64"

definition authorizeRetry :: "RetryJobCommand \<Rightarrow> jobs_app_error + unit" where
  "authorizeRetry cmd =
     bind_r (wrap_err JobAdmin (ValidateReason (retry_Reason cmd))) (\<lambda>_.
     if \<not> validActor (retry_Actor cmd) then Inl (JobAdmin ErrEmptyActor)
     else bind_r (wrap_err JobAdmin (StepUpSatisfied ActionRetryDeadJob (retry_SessionAge cmd))) (\<lambda>_.
     if \<not> validJobReference (retry_JobID cmd) then Inl ErrJobNotFound else Inr ()))"

definition retry_fact :: "RetryJobCommand \<Rightarrow> DeadJob \<Rightarrow> time \<Rightarrow> AdminFact" where
  "retry_fact cmd retried now =
     \<lparr>fact_Actor = retry_Actor cmd, fact_Action = ActionRetryDeadJob, fact_TargetID = dead_ID retried,
      fact_ReasonCode = ReasonCodeDeadJobRetry, fact_Reason = retry_Reason cmd,
      fact_Metadata = [(''previous_status'', StateDead), (''new_status'', StateQueued),
        (''reference'', dead_ID retried)],
      fact_OccurredAt = now\<rparr>"

text \<open>The unit of work: the retry and its audit record commit together or not at all.\<close>

definition retry_transaction ::
  "(string \<Rightarrow> uuid option) \<Rightarrow> (AdminFact \<Rightarrow> bool) \<Rightarrow> RetryJobCommand \<Rightarrow> string \<Rightarrow> time
     \<Rightarrow> jobs_db \<times> AdminFact list \<Rightarrow> (jobs_app_error + RetryJobResult) \<times> jobs_db \<times> AdminFact list" where
  "retry_transaction scan audit cmd jobID now st =
     (case repo_RetryDeadJob scan jobID now (fst st) of
        (Inl e, _) \<Rightarrow> (Inl e, st)
      | (Inr None, _) \<Rightarrow> (Inl ErrJobNotFound, st)
      | (Inr (Some retried), db') \<Rightarrow>
          if \<not> audit (retry_fact cmd retried now) then (Inl AuditFailed, st)
          else (Inr \<lparr>retried_JobID = dead_ID retried, retried_Type = dead_Type retried, retried_State = StateQueued\<rparr>,
                db', snd st @ [retry_fact cmd retried now]))"

definition RetryJob_Execute ::
  "(string \<Rightarrow> uuid option) \<Rightarrow> (AdminFact \<Rightarrow> bool) \<Rightarrow> time \<Rightarrow> RetryJobCommand \<Rightarrow> jobs_db
     \<Rightarrow> jobs_db \<times> AdminFact list \<Rightarrow> (jobs_app_error + RetryJobResult) \<times> jobs_db \<times> AdminFact list" where
  "RetryJob_Execute scan audit now cmd seen st =
     (case authorizeRetry cmd of Inl e \<Rightarrow> (Inl e, st) | Inr _ \<Rightarrow>
     (case repo_JobByID scan (retry_JobID cmd) seen of Inl e \<Rightarrow> (Inl e, st) | Inr job \<Rightarrow>
        if job_State job \<noteq> StateDead then (Inl (JobAdmin ErrJobNotDead), st)
        else if \<not> RetryAllowed (job_Type job) then (Inl (JobAdmin ErrRetryNotAllowed), st)
        else retry_transaction scan audit cmd (job_ID job) now st))"

end
