(* ===== verification/JobsChecks.thy ===== *)
theory JobsChecks
  imports JobsDomain
begin

text \<open>
  What the checks of the jobs domain accept: the payload walk against a reference definition of
  a bounded object, and the redaction of failure details.
\<close>

section \<open>The payload walk\<close>

text \<open>The text outside string literals; \<open>None\<close> for an open literal or a control character in one.\<close>

fun outside :: "string \<Rightarrow> bool \<Rightarrow> bool \<Rightarrow> string option" where
  "outside [] inString escaped = (if inString then None else Some [])"
| "outside (c # s) True escaped =
     (if escaped then outside s True False
      else if c = CHR 0x5C then outside s True True
      else if c = CHR 0x22 then outside s False False
      else if byte c < 32 then None
      else outside s True False)"
| "outside (c # s) False escaped =
     (if c = CHR 0x22 then outside s True False else map_option ((#) c) (outside s False False))"

definition nesting :: "char \<Rightarrow> int" where
  "nesting c = (if c = CHR ''{'' \<or> c = CHR ''['' then 1 else if c = CHR ''}'' \<or> c = CHR '']'' then -1 else 0)"

definition depth_of :: "string \<Rightarrow> int" where
  "depth_of s = sum_list (map nesting s)"

definition allowed_outside :: "char \<Rightarrow> bool" where
  "allowed_outside c \<longleftrightarrow> 32 \<le> byte c \<or> c \<in> {CHR 0x09, CHR 0x0A, CHR 0x0D}"

text \<open>The rest of an object whose depth is \<open>d\<close>: never closed before its end, never too deep.\<close>

definition closes :: "int \<Rightarrow> string \<Rightarrow> bool" where
  "closes d out \<longleftrightarrow> list_all allowed_outside out
     \<and> (\<forall>k < length out. 1 \<le> d + depth_of (take k out) \<and> d + depth_of (take k out) \<le> MaxPayloadDepth)
     \<and> d + depth_of out = 0"

lemma depth_of_simps [simp]: "depth_of [] = 0" "depth_of (c # s) = nesting c + depth_of s"
  by (simp_all add: depth_of_def)

lemma closes_Nil [simp]: "closes d [] \<longleftrightarrow> d = 0"
  by (simp add: closes_def)

lemma closes_Cons:
  "closes d (c # out) \<longleftrightarrow> allowed_outside c \<and> 1 \<le> d \<and> d \<le> MaxPayloadDepth \<and> closes (d + nesting c) out"
proof -
  have "(\<forall>k < length (c # out). 1 \<le> d + depth_of (take k (c # out)) \<and> d + depth_of (take k (c # out)) \<le> MaxPayloadDepth)
      \<longleftrightarrow> (1 \<le> d \<and> d \<le> MaxPayloadDepth) \<and>
        (\<forall>k < length out. 1 \<le> d + nesting c + depth_of (take k out) \<and> d + nesting c + depth_of (take k out) \<le> MaxPayloadDepth)"
    by (auto simp: less_Suc_eq_0_disj add.assoc)
  then show ?thesis by (auto simp: closes_def add.assoc)
qed

text \<open>A step outside literals is the change of depth, within the bounds.\<close>

lemma structure_step_Inr:
  assumes "c \<noteq> CHR 0x22"
  shows "structure_step c d closed = Inr r \<longleftrightarrow> allowed_outside c
    \<and> (nesting c = 1 \<longrightarrow> d + 1 \<le> MaxPayloadDepth) \<and> (nesting c = -1 \<longrightarrow> 1 \<le> d)
    \<and> r = (d + nesting c, False, closed \<or> nesting c = -1 \<and> d = 1)"
proof -
  consider (open_bracket) "c = CHR ''{'' \<or> c = CHR ''[''" | (close_bracket) "c = CHR ''}'' \<or> c = CHR '']''"
    | (other) "nesting c = 0" "c \<notin> {CHR ''{'', CHR ''['', CHR ''}'', CHR '']''}"
    by (auto simp: nesting_def)
  then show ?thesis
  proof cases
    case open_bracket
    then show ?thesis by (elim disjE) (auto simp: structure_step_def nesting_def allowed_outside_def)
  next
    case close_bracket
    then show ?thesis by (elim disjE) (auto simp: structure_step_def nesting_def allowed_outside_def)
  next
    case other
    have "structure_step c d closed =
        (if c \<in> {CHR '' '', CHR 0x09, CHR 0x0A, CHR 0x0D, CHR '','', CHR '':''} \<or> \<not> byte c < 32 then Inr (d, False, closed)
         else Inl ErrPayloadMalformed)"
      using assms other(2) by (simp add: structure_step_def)
    moreover have "c \<in> {CHR '' '', CHR 0x09, CHR 0x0A, CHR 0x0D, CHR '','', CHR '':''} \<or> \<not> byte c < 32 \<longleftrightarrow> allowed_outside c"
      by (auto simp: allowed_outside_def)
    ultimately show ?thesis using other(1) by auto
  qed
qed

lemma trim_left_keeps_last:
  "s \<noteq> [] \<Longrightarrow> byte (last s) < 128 \<Longrightarrow> \<not> is_space (byte (last s)) \<Longrightarrow>
    trim_left s \<noteq> [] \<and> last (trim_left s) = last s"
proof (induction s rule: trim_left.induct)
  case (1 s)
  let ?w = "snd (decode_rune s)"
  show ?case
  proof (cases "is_space (fst (decode_rune s))")
    case False
    then have "trim_left s = s" by (simp add: trim_left.simps [of s])
    then show ?thesis using 1(2) by simp
  next
    case True
    then have step: "trim_left s = trim_left (drop ?w s)" using 1(2) by (subst trim_left.simps) simp
    have "drop ?w s \<noteq> []"
    proof
      assume e: "drop ?w s = []"
      have "decode_rune s \<noteq> (RuneError, 1)" using True by (metis fst_conv not_is_space_RuneError)
      from rune_chunk_take [OF 1(2) this] e have "rune_chunk s" by simp
      from rune_chunk_bytes [OF this] 1(3) have "length s = 1" by simp
      then obtain c where "s = [c]" by (auto simp: length_Suc_conv)
      with 1(3,4) True show False by (simp add: decode_rune_ascii)
    qed
    with 1 True step show ?thesis by simp
  qed
qed

lemma ends_with_brace: "s \<noteq> [] \<Longrightarrow> last s = CHR ''}'' \<Longrightarrow> TrimSpace s \<noteq> []"
  using trim_left_keeps_last [of s] by (simp add: TrimSpace_def trim_right_ascii is_space_def)

lemma outside_ends: "outside s inString escaped = Some out \<Longrightarrow> s \<noteq> [] \<Longrightarrow> last s = CHR ''}'' \<Longrightarrow> out \<noteq> []"
  by (induction s inString escaped arbitrary: out rule: outside.induct) (auto split: if_splits)

lemma structure_walk_iff:
  assumes "last s = CHR ''}''" "s \<noteq> []" "1 \<le> d" "d \<le> MaxPayloadDepth" "inString \<or> \<not> escaped"
  shows "structure_walk s d inString escaped False = Inr () \<longleftrightarrow>
    (\<exists>out. outside s inString escaped = Some out \<and> closes d out)"
  using assms
proof (induction s arbitrary: d inString escaped)
  case Nil
  then show ?case by simp
next
  case (Cons c s)
  show ?case
  proof (cases "s = []")
    case True
    with Cons.prems have c: "c = CHR ''}''" by simp
    then show ?thesis using True Cons.prems(3-5)
      by (cases inString) (auto simp: structure_step_def closes_Cons allowed_outside_def nesting_def)
  next
    case False
    with Cons.prems(1) have last: "last s = CHR ''}''" by simp
    note IH = Cons.IH [OF last False _ _]
    show ?thesis
    proof (cases inString)
      case True
      then show ?thesis using IH [OF Cons.prems(3,4)] by auto
    next
      case out: False
      then have esc: "\<not> escaped" using Cons.prems(5) by simp
      show ?thesis
      proof (cases "c = CHR 0x22")
        case True
        then show ?thesis using out esc IH [OF Cons.prems(3,4)] False by (simp add: structure_step_def)
      next
        case q: False
        have trail: "TrimSpace s \<noteq> []" using ends_with_brace [OF False last] .
        show ?thesis
        proof (cases "nesting c = -1 \<and> d = 1")
          case True
          have "\<not> (\<exists>rest. outside s False False = Some rest \<and> closes 0 rest)"
          proof (intro notI, elim exE conjE)
            fix rest
            assume "outside s False False = Some rest" "closes 0 rest"
            then show False using outside_ends [OF _ False last] by (cases rest) (auto simp: closes_Cons)
          qed
          moreover have "structure_walk (c # s) d inString escaped False \<noteq> Inr ()"
            using out True False trail structure_step_Inr [OF q, of d False] by (auto simp: bind_r_Inr_iff)
          ultimately show ?thesis using out q True by (auto simp: closes_Cons)
        next
          case go: False
          have "structure_walk (c # s) d inString escaped False = Inr () \<longleftrightarrow>
              allowed_outside c \<and> (nesting c = 1 \<longrightarrow> d + 1 \<le> MaxPayloadDepth)
            \<and> structure_walk s (d + nesting c) False False False = Inr ()"
          proof (cases "structure_step c d False")
            case (Inl e)
            then have "\<not> (allowed_outside c \<and> (nesting c = 1 \<longrightarrow> d + 1 \<le> MaxPayloadDepth))"
              using structure_step_Inr [OF q, of d False "(d + nesting c, False, nesting c = -1 \<and> d = 1)"] Cons.prems(3) by simp
            then show ?thesis using Inl out by auto
          next
            case (Inr r)
            then have "allowed_outside c" "nesting c = 1 \<longrightarrow> d + 1 \<le> MaxPayloadDepth" "r = (d + nesting c, False, False)"
              using structure_step_Inr [OF q, of d False r] go by simp_all
            then show ?thesis using Inr out esc by simp
          qed
          also have "\<dots> \<longleftrightarrow> (\<exists>o'. outside s False False = Some o' \<and> closes d (c # o'))"
          proof (cases "nesting c = 1 \<longrightarrow> d + 1 \<le> MaxPayloadDepth")
            case True
            then have "1 \<le> d + nesting c" "d + nesting c \<le> MaxPayloadDepth"
              using go Cons.prems(3,4) by (auto simp: nesting_def split: if_splits)
            from IH [OF this, of False False] True Cons.prems(3,4) show ?thesis by (auto simp: closes_Cons)
          next
            case deep: False
            have "\<not> closes (d + nesting c) o'" if "outside s False False = Some o'" for o'
              using outside_ends [OF that False last] deep by (cases o') (auto simp: closes_Cons)
            then show ?thesis using deep by (auto simp: closes_Cons)
          qed
          finally show ?thesis using out q by auto
        qed
      qed
    qed
  qed
qed

text \<open>
  C32. The payload check accepts exactly the bounded objects: at most 4096 bytes of valid UTF-8
  from an opening to a closing brace whose text outside string literals has no control character
  but white space, nests at most two deep and closes its outermost brace only at the end; no
  literal is open or holds a control character. Braces and brackets count alike: which kind closes
  which is not compared, and what stands between them is left to the database.
\<close>
theorem ValidatePayload_iff:
  "ValidatePayload p = Inr () \<longleftrightarrow>
     length p \<le> MaxPayloadBytes \<and> valid_utf8 p \<and> last p = CHR ''}''
   \<and> (\<exists>rest out. p = CHR ''{'' # rest \<and> rest \<noteq> [] \<and> outside rest False False = Some out \<and> closes 1 out)"
proof (cases "\<exists>rest. p = CHR ''{'' # rest")
  case False
  then show ?thesis by (cases p) (auto simp: ValidatePayload_def)
next
  case True
  then obtain rest where p: "p = CHR ''{'' # rest" by blast
  have first: "checkObjectStructure p = structure_walk rest 1 False False False"
    by (simp add: p checkObjectStructure_def structure_step_def MaxPayloadDepth_def)
  show ?thesis
  proof (cases "rest = []")
    case True
    then show ?thesis by (simp add: p ValidatePayload_def)
  next
    case False
    then have "last rest = CHR ''}'' \<Longrightarrow> ?thesis"
      using structure_walk_iff [of rest 1 False False] by (auto simp: ValidatePayload_def first MaxPayloadDepth_def) (simp_all add: p)
    moreover have "last p = last rest" using p False by simp
    ultimately show ?thesis by (auto simp: ValidatePayload_def)
  qed
qed

section \<open>Redaction\<close>

lemma decode_rune_high: "128 \<le> byte c \<Longrightarrow> 128 \<le> fst (decode_rune (c # s))"
  by (auto simp: decode_rune.simps(2) Let_def second_range_def RuneError_def split: list.splits prod.splits)

lemma decode_rune_high_bytes:
  assumes "128 \<le> byte c"
  shows "list_all (\<lambda>d. 128 \<le> byte d) (take (snd (decode_rune (c # s))) (c # s))"
proof (cases "decode_rune (c # s) = (RuneError, 1)")
  case True
  with assms show ?thesis by simp
next
  case False
  from rune_chunk_take [OF _ this] have ch: "rune_chunk (take (snd (decode_rune (c # s))) (c # s))" by simp
  from rune_chunk_bytes [OF this] have "list_all (\<lambda>d. \<not> rune_start d) (tl (take (snd (decode_rune (c # s))) (c # s)))"
    by blast
  then have "list_all (\<lambda>d. 128 \<le> byte d) (tl (take (snd (decode_rune (c # s))) (c # s)))"
    by (rule list.pred_mono_strong) (simp add: rune_start_def cont_byte_def)
  then show ?thesis using assms by (cases "snd (decode_rune (c # s))") simp_all
qed

text \<open>Keeping ASCII runes keeps exactly the ASCII bytes that are wanted.\<close>

lemma keep_runes_filter:
  assumes "\<And>r. P r \<Longrightarrow> r < 128"
  shows "keep_runes P s = filter (\<lambda>c. P (byte c)) s"
  using assms
proof (induction P s rule: keep_runes.induct)
  case (1 P s)
  show ?case
  proof (cases s)
    case Nil
    then show ?thesis by (simp add: keep_runes.simps)
  next
    case (Cons c t)
    let ?w = "snd (decode_rune s)"
    have IH: "keep_runes P (drop ?w s) = filter (\<lambda>c. P (byte c)) (drop ?w s)" using 1 Cons by simp
    have split: "s = take ?w s @ drop ?w s" by simp
    have "(if P (fst (decode_rune s)) then take ?w s else []) = filter (\<lambda>c. P (byte c)) (take ?w s)"
    proof (cases "byte c < 128")
      case True
      then show ?thesis by (simp add: Cons decode_rune_ascii)
    next
      case False
      then have "\<not> P (fst (decode_rune s))" using decode_rune_high [of c t] 1(2) Cons by fastforce
      moreover have "filter (\<lambda>c. P (byte c)) (take ?w s) = []"
        using decode_rune_high_bytes [of c t] False 1(2) Cons by (fastforce simp: filter_empty_conv list_all_iff)
      ultimately show ?thesis by simp
    qed
    then have "keep_runes P s = filter (\<lambda>c. P (byte c)) (take ?w s) @ filter (\<lambda>c. P (byte c)) (drop ?w s)"
      using IH Cons by (subst keep_runes.simps) simp
    then show ?thesis by (simp only: filter_append [symmetric] append_take_drop_id)
  qed
qed

definition detail_char :: "char \<Rightarrow> bool" where
  "detail_char c \<longleftrightarrow> detail_rune (byte c)"

definition single_spaced :: "string \<Rightarrow> bool" where
  "single_spaced s \<longleftrightarrow> successively (\<lambda>a b. \<not> (a = CHR '' '' \<and> b = CHR '' '')) s"

definition word :: "string \<Rightarrow> bool" where
  "word w \<longleftrightarrow> w \<noteq> [] \<and> list_all detail_char w \<and> CHR '' '' \<notin> set w"

lemma detail_space: "detail_char c \<Longrightarrow> is_space (byte c) \<longleftrightarrow> c = CHR '' ''"
  using of_char_eq_iff [where ?'a = nat, of c "CHR '' ''"]
  by (auto simp: detail_char_def detail_rune_def is_space_def)

lemma fields_acc_words:
  "list_all detail_char s \<Longrightarrow> list_all detail_char acc \<Longrightarrow> CHR '' '' \<notin> set acc \<Longrightarrow> list_all word (fields_acc s acc)"
  by (induction s acc rule: fields_acc.induct) (auto simp: word_def detail_space list_all_rev)

lemma Join_Cons: "fs \<noteq> [] \<Longrightarrow> Join (f # fs) = f @ '' '' @ Join fs"
  by (cases fs) simp_all

lemma detail_blank [simp]: "detail_char CHR '' ''"
  by (simp add: detail_char_def detail_rune_def)

lemma single_spaced_word: "CHR '' '' \<notin> set w \<Longrightarrow> single_spaced w"
  by (induction w) (auto simp: single_spaced_def successively_Cons)

lemma Join_words:
  "list_all word fs \<Longrightarrow> list_all detail_char (Join fs) \<and> single_spaced (Join fs)
     \<and> (fs \<noteq> [] \<longrightarrow> Join fs \<noteq> [] \<and> hd (Join fs) \<noteq> CHR '' '')"
proof (induction fs rule: Join.induct)
  case 1
  then show ?case by (simp add: single_spaced_def)
next
  case (2 f)
  then show ?case by (cases f) (auto simp: word_def single_spaced_word)
next
  case (3 f g fs)
  then have f: "f \<noteq> []" "list_all detail_char f" "CHR '' '' \<notin> set f" by (simp_all add: word_def)
  from 3 have IH: "list_all detail_char (Join (g # fs))" "single_spaced (Join (g # fs))" "Join (g # fs) \<noteq> []"
    "hd (Join (g # fs)) \<noteq> CHR '' ''" by simp_all
  have "last f \<noteq> CHR '' ''" "hd f \<noteq> CHR '' ''" using f by (metis last_in_set, metis hd_in_set)
  then have "single_spaced (f @ '' '' @ Join (g # fs))"
    using single_spaced_word [OF f(3)] IH(2-4)
    by (cases "Join (g # fs)") (simp_all add: single_spaced_def successively_append_iff)
  with f IH \<open>hd f \<noteq> CHR '' ''\<close> show ?case by simp
qed

lemma fields_acc_Join:
  "list_all detail_char s \<Longrightarrow> single_spaced s \<Longrightarrow> (s \<noteq> [] \<longrightarrow> last s \<noteq> CHR '' '') \<Longrightarrow>
     (acc = [] \<longrightarrow> s \<noteq> [] \<longrightarrow> hd s \<noteq> CHR '' '') \<Longrightarrow> Join (fields_acc s acc) = rev acc @ s
     \<and> (acc \<noteq> [] \<or> s \<noteq> [] \<longrightarrow> fields_acc s acc \<noteq> [])"
proof (induction s acc rule: fields_acc.induct)
  case (1 acc)
  then show ?case by simp
next
  case (2 c s acc)
  have rest: "list_all detail_char s" "single_spaced s" "s \<noteq> [] \<longrightarrow> last s \<noteq> CHR '' ''"
    using 2(4-6) by (auto simp: single_spaced_def successively_Cons)
  show ?case
  proof (cases "is_space (byte c)")
    case True
    then have c: "c = CHR '' ''" using detail_space 2(4) by simp
    then have acc: "acc \<noteq> []" and s: "s \<noteq> []" "hd s \<noteq> CHR '' ''"
      using 2(5-7) by (auto simp: single_spaced_def successively_Cons)
    from 2(2) [OF True acc rest] s have "Join (fields_acc s []) = s" "fields_acc s [] \<noteq> []" by simp_all
    then show ?thesis using True acc c by (simp add: Join_Cons)
  next
    case False
    from 2(3) [OF False rest] show ?thesis using False by simp
  qed
qed

text \<open>The redaction keeps or cuts: its result on every text, and on the texts it leaves alone.\<close>

lemma SanitizeDetail_text:
  "SanitizeDetail raw \<noteq> [] \<and> length (SanitizeDetail raw) \<le> MaxErrorDetailLength
   \<and> list_all detail_char (SanitizeDetail raw) \<and> single_spaced (SanitizeDetail raw)
   \<and> hd (SanitizeDetail raw) \<noteq> CHR '' ''
   \<and> (raw \<noteq> [] \<and> length raw \<le> MaxErrorDetailLength \<and> list_all detail_char raw \<and> single_spaced raw
       \<and> hd raw \<noteq> CHR '' '' \<and> last raw \<noteq> CHR '' '' \<longrightarrow> SanitizeDetail raw = raw)"
proof -
  let ?kept = "keep_runes detail_rune raw"
  let ?clean = "Join (Fields ?kept)"
  have kept: "?kept = filter detail_char raw"
    unfolding detail_char_def by (rule keep_runes_filter) (auto simp: detail_rune_def)
  then have "list_all detail_char ?kept" by (simp add: list_all_iff)
  then have "list_all word (Fields ?kept)" by (simp add: Fields_def fields_acc_words)
  note j = Join_words [OF this]
  have clean: "list_all detail_char ?clean" "single_spaced ?clean" "?clean \<noteq> [] \<Longrightarrow> hd ?clean \<noteq> CHR '' ''"
    using j by (cases "Fields ?kept"; simp)+
  have bounded: "list_all detail_char (take n ?clean)" "single_spaced (take n ?clean)"
    "take n ?clean \<noteq> [] \<Longrightarrow> hd (take n ?clean) \<noteq> CHR '' ''" for n
  proof -
    show "list_all detail_char (take n ?clean)" using clean(1) by (auto simp: list_all_iff dest: in_set_takeD)
    have "successively (\<lambda>a b. \<not> (a = CHR '' '' \<and> b = CHR '' '')) (take n ?clean @ drop n ?clean)"
      using clean(2) by (simp add: single_spaced_def)
    then show "single_spaced (take n ?clean)" unfolding single_spaced_def successively_append_iff by blast
    show "take n ?clean \<noteq> [] \<Longrightarrow> hd (take n ?clean) \<noteq> CHR '' ''" using clean(3) by (cases ?clean; cases n) simp_all
  qed
  have san: "SanitizeDetail raw = (if take MaxErrorDetailLength ?clean = [] then ''redacted'' else take MaxErrorDetailLength ?clean)"
    by (simp add: SanitizeDetail_def Let_def)
  have red: "list_all detail_char ''redacted''" "single_spaced ''redacted''"
    by (simp_all add: detail_char_def detail_rune_def single_spaced_def)
  have same: "SanitizeDetail raw = raw" if r: "raw \<noteq> []" "length raw \<le> MaxErrorDetailLength" "list_all detail_char raw"
      "single_spaced raw" "hd raw \<noteq> CHR '' ''" "last raw \<noteq> CHR '' ''"
  proof -
    have "?kept = raw" using kept r(3) by (simp add: list_all_iff filter_id_conv)
    moreover have "Join (Fields raw) = raw" using fields_acc_Join [of raw "[]"] r by (simp add: Fields_def)
    ultimately show ?thesis using r(1,2) by (simp add: san)
  qed
  show ?thesis
  proof (cases "take MaxErrorDetailLength ?clean = []")
    case True
    then have s: "SanitizeDetail raw = ''redacted''" by (simp add: san)
    show ?thesis using same red unfolding s by (auto simp: MaxErrorDetailLength_def)
  next
    case False
    then have s: "SanitizeDetail raw = take MaxErrorDetailLength ?clean" by (simp add: san)
    have b: "list_all detail_char (SanitizeDetail raw)" "single_spaced (SanitizeDetail raw)"
      "hd (SanitizeDetail raw) \<noteq> CHR '' ''" "SanitizeDetail raw \<noteq> []"
      using bounded [of MaxErrorDetailLength] False unfolding s by blast+
    have "length (SanitizeDetail raw) \<le> MaxErrorDetailLength" unfolding s by simp
    with b same show ?thesis by blast
  qed
qed

text \<open>
  Redaction: whatever text a failure carries, the stored detail is one to 300 characters from
  a small alphabet (so no quote, slash, at sign, bracket, control character or byte of a URL's
  query survives), starts with no blank and never has two in a row; and a detail that is already
  of this form is stored as it is.
\<close>
theorem SanitizeDetail_safe:
  "SanitizeDetail raw \<noteq> [] \<and> length (SanitizeDetail raw) \<le> MaxErrorDetailLength
   \<and> list_all detail_char (SanitizeDetail raw) \<and> single_spaced (SanitizeDetail raw)
   \<and> hd (SanitizeDetail raw) \<noteq> CHR '' ''
   \<and> (raw \<noteq> [] \<and> length raw \<le> MaxErrorDetailLength \<and> list_all detail_char raw \<and> single_spaced raw
       \<and> hd raw \<noteq> CHR '' '' \<and> last raw \<noteq> CHR '' '' \<longrightarrow> SanitizeDetail raw = raw)"
  by (rule SanitizeDetail_text)

theorem SanitizeDetail_safe_witness: "SanitizeDetail ''dial tcp: timeout'' = ''dial tcp: timeout''"
  using SanitizeDetail_safe [of "''dial tcp: timeout''"]
  by (simp add: MaxErrorDetailLength_def detail_char_def detail_rune_def single_spaced_def)

end
