(* ===== verification/JobsCorrectness.thy ===== *)
theory JobsCorrectness
  imports JobsOperations JobsChecks
begin

text \<open>
  The lifecycle of a queue row as a step relation, the invariant of the table, and the refinement:
  every operation of the queue leaves the table as it was, appends one fresh row, or moves rows
  along the lifecycle.
\<close>

section \<open>The lifecycle of a row\<close>

definition holds_lease :: "string \<Rightarrow> AppJob \<Rightarrow> bool" where
  "holds_lease w r \<longleftrightarrow> jr_State r = ''leased'' \<and> jr_LeaseOwner r = Some w"

definition owner_ok :: "string \<Rightarrow> bool" where
  "owner_ok w \<longleftrightarrow> TrimSpace w \<noteq> [] \<and> length w \<le> MaxLeaseOwnerLength"

definition failure_ok :: "string \<Rightarrow> string \<Rightarrow> bool" where
  "failure_ok code detail \<longleftrightarrow> FailureCode_IsValid code \<and> detail \<noteq> [] \<and> length detail \<le> MaxErrorDetailLength"

definition claimed :: "time \<Rightarrow> string \<Rightarrow> time \<Rightarrow> AppJob \<Rightarrow> AppJob" where
  "claimed t w u r = r\<lparr>jr_State := ''leased'', jr_LeaseOwner := Some w, jr_LeasedUntil := Some u,
     jr_Attempts := jr_Attempts r + 1, jr_UpdatedAt := t\<rparr>"

definition completed :: "time \<Rightarrow> AppJob \<Rightarrow> AppJob" where
  "completed t r = r\<lparr>jr_State := ''succeeded'', jr_LeaseOwner := None, jr_LeasedUntil := None, jr_UpdatedAt := t\<rparr>"

definition failed :: "time \<Rightarrow> string \<Rightarrow> string \<Rightarrow> string \<Rightarrow> time \<Rightarrow> AppJob \<Rightarrow> AppJob" where
  "failed t state code detail a r = r\<lparr>jr_State := state, jr_AvailableAt := a, jr_LeaseOwner := None,
     jr_LeasedUntil := None, jr_LastErrorCode := Some code, jr_LastErrorDetail := Some detail, jr_UpdatedAt := t\<rparr>"

definition revived :: "time \<Rightarrow> AppJob \<Rightarrow> AppJob" where
  "revived t r = r\<lparr>jr_State := ''queued'', jr_Attempts := 0, jr_AvailableAt := t, jr_LeaseOwner := None,
     jr_LeasedUntil := None, jr_LastErrorCode := None, jr_LastErrorDetail := None, jr_UpdatedAt := t\<rparr>"

inductive job_step :: "time \<Rightarrow> AppJob \<Rightarrow> AppJob \<Rightarrow> bool" for t where
  claim: "claimable t r \<Longrightarrow> jr_Attempts r < jr_MaxAttempts r \<Longrightarrow> owner_ok w \<Longrightarrow> t \<le> u \<Longrightarrow> job_step t r (claimed t w u r)"
| complete: "holds_lease w r \<Longrightarrow> job_step t r (completed t r)"
| fail_again: "holds_lease w r \<Longrightarrow> jr_Attempts r < jr_MaxAttempts r \<Longrightarrow> failure_ok code detail \<Longrightarrow>
    job_step t r (failed t ''queued'' code detail a r)"
| fail_dead: "holds_lease w r \<Longrightarrow> jr_Attempts r = jr_MaxAttempts r \<Longrightarrow> failure_ok code detail \<Longrightarrow>
    job_step t r (failed t ''dead'' code detail (jr_AvailableAt r) r)"
| release: "lease_ended t r \<Longrightarrow> job_step t r (released t r)"
| revive: "jr_State r = ''dead'' \<Longrightarrow> job_step t r (revived t r)"

inductive_cases job_stepE: "job_step t r r'"

lemma claimed_sel [simp]:
  "jr_ID (claimed t w u r) = jr_ID r" "jr_Type (claimed t w u r) = jr_Type r"
  "jr_Version (claimed t w u r) = jr_Version r" "jr_Parameters (claimed t w u r) = jr_Parameters r"
  "jr_IdempotencyKey (claimed t w u r) = jr_IdempotencyKey r" "jr_State (claimed t w u r) = ''leased''"
  "jr_AvailableAt (claimed t w u r) = jr_AvailableAt r" "jr_Attempts (claimed t w u r) = jr_Attempts r + 1"
  "jr_MaxAttempts (claimed t w u r) = jr_MaxAttempts r" "jr_LeaseOwner (claimed t w u r) = Some w"
  "jr_LeasedUntil (claimed t w u r) = Some u" "jr_LastErrorCode (claimed t w u r) = jr_LastErrorCode r"
  "jr_LastErrorDetail (claimed t w u r) = jr_LastErrorDetail r" "jr_CreatedAt (claimed t w u r) = jr_CreatedAt r"
  "jr_UpdatedAt (claimed t w u r) = t"
  by (cases r; simp add: claimed_def)+

lemma completed_sel [simp]:
  "jr_ID (completed t r) = jr_ID r" "jr_Type (completed t r) = jr_Type r" "jr_Version (completed t r) = jr_Version r"
  "jr_Parameters (completed t r) = jr_Parameters r" "jr_IdempotencyKey (completed t r) = jr_IdempotencyKey r"
  "jr_State (completed t r) = ''succeeded''" "jr_AvailableAt (completed t r) = jr_AvailableAt r"
  "jr_Attempts (completed t r) = jr_Attempts r" "jr_MaxAttempts (completed t r) = jr_MaxAttempts r"
  "jr_LeaseOwner (completed t r) = None" "jr_LeasedUntil (completed t r) = None"
  "jr_LastErrorCode (completed t r) = jr_LastErrorCode r" "jr_LastErrorDetail (completed t r) = jr_LastErrorDetail r"
  "jr_CreatedAt (completed t r) = jr_CreatedAt r" "jr_UpdatedAt (completed t r) = t"
  by (cases r; simp add: completed_def)+

lemma failed_sel [simp]:
  "jr_ID (failed t st c d a r) = jr_ID r" "jr_Type (failed t st c d a r) = jr_Type r"
  "jr_Version (failed t st c d a r) = jr_Version r" "jr_Parameters (failed t st c d a r) = jr_Parameters r"
  "jr_IdempotencyKey (failed t st c d a r) = jr_IdempotencyKey r" "jr_State (failed t st c d a r) = st"
  "jr_AvailableAt (failed t st c d a r) = a" "jr_Attempts (failed t st c d a r) = jr_Attempts r"
  "jr_MaxAttempts (failed t st c d a r) = jr_MaxAttempts r" "jr_LeaseOwner (failed t st c d a r) = None"
  "jr_LeasedUntil (failed t st c d a r) = None" "jr_LastErrorCode (failed t st c d a r) = Some c"
  "jr_LastErrorDetail (failed t st c d a r) = Some d" "jr_CreatedAt (failed t st c d a r) = jr_CreatedAt r"
  "jr_UpdatedAt (failed t st c d a r) = t"
  by (cases r; simp add: failed_def)+

lemma released_sel [simp]:
  "jr_ID (released t r) = jr_ID r" "jr_Type (released t r) = jr_Type r" "jr_Version (released t r) = jr_Version r"
  "jr_Parameters (released t r) = jr_Parameters r" "jr_IdempotencyKey (released t r) = jr_IdempotencyKey r"
  "jr_State (released t r) = ''queued''" "jr_AvailableAt (released t r) = jr_AvailableAt r"
  "jr_Attempts (released t r) = jr_Attempts r" "jr_MaxAttempts (released t r) = jr_MaxAttempts r"
  "jr_LeaseOwner (released t r) = None" "jr_LeasedUntil (released t r) = None"
  "jr_LastErrorCode (released t r) = jr_LastErrorCode r" "jr_LastErrorDetail (released t r) = jr_LastErrorDetail r"
  "jr_CreatedAt (released t r) = jr_CreatedAt r" "jr_UpdatedAt (released t r) = t"
  by (cases r; simp add: released_def)+

lemma revived_sel [simp]:
  "jr_ID (revived t r) = jr_ID r" "jr_Type (revived t r) = jr_Type r" "jr_Version (revived t r) = jr_Version r"
  "jr_Parameters (revived t r) = jr_Parameters r" "jr_IdempotencyKey (revived t r) = jr_IdempotencyKey r"
  "jr_State (revived t r) = ''queued''" "jr_AvailableAt (revived t r) = t" "jr_Attempts (revived t r) = 0"
  "jr_MaxAttempts (revived t r) = jr_MaxAttempts r" "jr_LeaseOwner (revived t r) = None"
  "jr_LeasedUntil (revived t r) = None" "jr_LastErrorCode (revived t r) = None"
  "jr_LastErrorDetail (revived t r) = None" "jr_CreatedAt (revived t r) = jr_CreatedAt r"
  "jr_UpdatedAt (revived t r) = t"
  by (cases r; simp add: revived_def)+

section \<open>The invariant\<close>

text \<open>What no operation changes in a row.\<close>

definition provenance :: "AppJob \<Rightarrow> uuid \<times> string \<times> int \<times> string \<times> string option \<times> int \<times> time" where
  "provenance r = (jr_ID r, jr_Type r, jr_Version r, jr_Parameters r, jr_IdempotencyKey r, jr_MaxAttempts r, jr_CreatedAt r)"

definition key_ok :: "string option \<Rightarrow> bool" where
  "key_ok key \<longleftrightarrow> (case key of None \<Rightarrow> True | Some k \<Rightarrow> TrimSpace k \<noteq> [] \<and> length k \<le> MaxIdempotencyKeyLength)"

fun lease_ok :: "string option \<Rightarrow> time option \<Rightarrow> bool" where
  "lease_ok None None = True"
| "lease_ok (Some w) (Some u) = (owner_ok w \<and> 0 < u)"
| "lease_ok _ _ = False"

fun error_ok :: "string option \<Rightarrow> string option \<Rightarrow> bool" where
  "error_ok None None = True"
| "error_ok (Some c) (Some d) = failure_ok c d"
| "error_ok _ _ = False"

definition row_more :: "time \<Rightarrow> AppJob \<Rightarrow> bool" where
  "row_more t r \<longleftrightarrow> ValidatePayload (jr_Parameters r) = Inr () \<and> key_ok (jr_IdempotencyKey r)
   \<and> lease_ok (jr_LeaseOwner r) (jr_LeasedUntil r) \<and> error_ok (jr_LastErrorCode r) (jr_LastErrorDetail r)
   \<and> in_int32 (jr_MaxAttempts r)
   \<and> (jr_State r = ''leased'' \<longrightarrow> jr_AvailableAt r \<le> jr_UpdatedAt r)
   \<and> 0 < jr_CreatedAt r \<and> jr_CreatedAt r \<le> jr_UpdatedAt r \<and> jr_UpdatedAt r \<le> timestamptz t"

definition row_ok :: "time \<Rightarrow> AppJob \<Rightarrow> bool" where
  "row_ok t r \<longleftrightarrow> jobs_checks r \<and> row_more t r"

definition jobs_ok :: "time \<Rightarrow> jobs_db \<Rightarrow> bool" where
  "jobs_ok t db \<longleftrightarrow> 1000 \<le> t \<and> list_all (row_ok t) (job_rows db) \<and> distinct (map jr_ID (job_rows db))
     \<and> distinct (List.map_filter jr_IdempotencyKey (job_rows db))"

definition jobs_extends :: "jobs_db \<Rightarrow> jobs_db \<Rightarrow> bool" where
  "jobs_extends db db' \<longleftrightarrow> (\<exists>extra. map provenance (job_rows db') = map provenance (job_rows db) @ extra)"

text \<open>A table without rows, with a given supply of identifiers.\<close>

definition empty_jobs :: "(nat \<Rightarrow> uuid) \<Rightarrow> jobs_db" where
  "empty_jobs gen = \<lparr>job_rows = [], job_uuid_gen = gen, job_uuid_next = 0\<rparr>"

lemma empty_jobs_ok: "1000 \<le> t \<Longrightarrow> jobs_ok t (empty_jobs gen)"
  by (simp add: jobs_ok_def empty_jobs_def map_filter_def)

text \<open>What an operation at \<open>t\<close> may do to the table.\<close>

definition fresh_row :: "time \<Rightarrow> AppJob \<Rightarrow> bool" where
  "fresh_row t r \<longleftrightarrow> jr_State r = ''queued'' \<and> jr_Attempts r = 0 \<and> jr_LeaseOwner r = None \<and> jr_LeasedUntil r = None
     \<and> jr_LastErrorCode r = None \<and> jr_LastErrorDetail r = None \<and> jr_CreatedAt r = t \<and> jr_UpdatedAt r = t"

definition moves :: "time \<Rightarrow> jobs_db \<Rightarrow> jobs_db \<Rightarrow> bool" where
  "moves t db db' \<longleftrightarrow> (\<exists>f. job_rows db' = map f (job_rows db)
     \<and> (\<forall>r \<in> set (job_rows db). f r = r \<or> job_step t r (f r) \<and> jobs_checks (f r)))"

definition adds :: "time \<Rightarrow> jobs_db \<Rightarrow> jobs_db \<Rightarrow> bool" where
  "adds t db db' \<longleftrightarrow> (\<exists>row. job_rows db' = job_rows db @ [row] \<and> fresh_row t row \<and> row_ok t row
     \<and> jr_ID row \<notin> jr_ID ` set (job_rows db)
     \<and> (jr_IdempotencyKey row \<noteq> None \<longrightarrow> jr_IdempotencyKey row \<notin> jr_IdempotencyKey ` set (job_rows db)))"

lemma moves_refl [simp]: "moves t db db"
  by (auto simp: moves_def intro!: exI [of _ "\<lambda>r. r"])

section \<open>Steps keep the invariant\<close>

lemma job_step_provenance: "job_step t r r' \<Longrightarrow> provenance r' = provenance r"
  by (erule job_stepE) (simp_all add: provenance_def)

lemma timestamptz_pos: "1000 \<le> t \<Longrightarrow> 0 < timestamptz t"
  using timestamptz_mono [of 1000 t] by (simp add: timestamptz_def)

lemma job_step_row_more:
  assumes "job_step (timestamptz t) r r'" "row_more s r" "s \<le> t" "1000 \<le> t"
  shows "row_more t r'"
  using assms(1)
proof (cases rule: job_step.cases)
  case (claim w u)
  then show ?thesis using assms(2-4) timestamptz_mono [OF assms(3)] timestamptz_pos [OF assms(4)]
    by (auto simp: row_more_def claimable_def)
qed (use assms(2-4) timestamptz_mono [OF assms(3)] in \<open>simp add: row_more_def\<close>)+

lemma row_ok_mono: "row_ok s r \<Longrightarrow> s \<le> t \<Longrightarrow> row_ok t r"
  using timestamptz_mono [of s t] by (auto simp: row_ok_def row_more_def)

lemma jobs_ok_mono: "jobs_ok s db \<Longrightarrow> s \<le> t \<Longrightarrow> jobs_ok t db"
  by (auto simp: jobs_ok_def list_all_iff intro: row_ok_mono)

lemma map_filter_provenance:
  "map provenance rs = map provenance ss \<Longrightarrow> List.map_filter jr_IdempotencyKey rs = List.map_filter jr_IdempotencyKey ss"
  "map provenance rs = map provenance ss \<Longrightarrow> map jr_ID rs = map jr_ID ss"
proof -
  have k: "jr_IdempotencyKey = (\<lambda>p. fst (snd (snd (snd (snd p))))) \<circ> provenance" and i: "jr_ID = fst \<circ> provenance"
    by (auto simp: provenance_def fun_eq_iff)
  have m: "List.map_filter (f \<circ> provenance) xs = List.map_filter f (map provenance xs)" for f :: "_ \<Rightarrow> string option" and xs
    by (induction xs) (simp_all add: map_filter_simps split: option.split)
  assume e: "map provenance rs = map provenance ss"
  show "List.map_filter jr_IdempotencyKey rs = List.map_filter jr_IdempotencyKey ss" unfolding k m e ..
  show "map jr_ID rs = map jr_ID ss" unfolding i map_map [symmetric] e ..
qed

lemma moves_extends: "moves t db db' \<Longrightarrow> map provenance (job_rows db') = map provenance (job_rows db)"
  using job_step_provenance by (fastforce simp: moves_def)

lemma moves_ok:
  assumes "moves (timestamptz t) db db'" "jobs_ok s db" "s \<le> t"
  shows "jobs_ok t db' \<and> jobs_extends db db'"
proof -
  from assms(1) obtain f where f: "job_rows db' = map f (job_rows db)"
    "\<forall>r \<in> set (job_rows db). f r = r \<or> job_step (timestamptz t) r (f r) \<and> jobs_checks (f r)" by (auto simp: moves_def)
  have "row_ok t (f r)" if r: "r \<in> set (job_rows db)" for r
  proof -
    have ok: "row_ok s r" "1000 \<le> t" using assms(2,3) r by (auto simp: jobs_ok_def list_all_iff)
    from f(2) r consider "f r = r" | "job_step (timestamptz t) r (f r)" "jobs_checks (f r)" by blast
    then show ?thesis
    proof cases
      case 1
      then show ?thesis using row_ok_mono [OF ok(1) assms(3)] by simp
    next
      case 2
      then show ?thesis using job_step_row_more [OF 2(1) _ assms(3) ok(2)] ok(1) by (simp add: row_ok_def)
    qed
  qed
  then have "list_all (row_ok t) (job_rows db')" by (simp add: f(1) list_all_iff)
  with moves_extends [OF assms(1)] map_filter_provenance [OF moves_extends [OF assms(1)]] assms(2,3)
  show ?thesis by (simp add: jobs_ok_def jobs_extends_def)
qed

lemma adds_ok:
  assumes "adds u db db'" "jobs_ok s db" "s \<le> t" "u \<le> t"
  shows "jobs_ok t db' \<and> jobs_extends db db'"
proof -
  from assms(1) obtain row where row: "job_rows db' = job_rows db @ [row]" "row_ok u row"
    "jr_ID row \<notin> jr_ID ` set (job_rows db)"
    "jr_IdempotencyKey row \<noteq> None \<longrightarrow> jr_IdempotencyKey row \<notin> jr_IdempotencyKey ` set (job_rows db)"
    by (auto simp: adds_def)
  from row(4) have "\<forall>k. jr_IdempotencyKey row = Some k \<longrightarrow> k \<notin> set (List.map_filter jr_IdempotencyKey (job_rows db))"
    by (auto simp: map_filter_def image_iff)
  moreover have "row_ok t row" using row_ok_mono [OF row(2) assms(4)] .
  ultimately show ?thesis using row assms(2,3)
    by (auto simp: jobs_ok_def jobs_extends_def map_filter_def list_all_iff intro: row_ok_mono)
qed

lemma jobs_extends_refl [simp]: "jobs_extends db db"
  by (simp add: jobs_extends_def)

lemma jobs_extends_trans: "jobs_extends a b \<Longrightarrow> jobs_extends b c \<Longrightarrow> jobs_extends a c"
  by (auto simp: jobs_extends_def)

section \<open>Reading rows\<close>

lemma sql_blank_TrimSpace: "sql_blank s \<Longrightarrow> TrimSpace s = []"
proof -
  assume "sql_blank s"
  then have "trim_left s = []"
    unfolding sql_blank_def by (induction s) (simp_all add: trim_Nil trim_left_ascii is_space_def)
  then show ?thesis by (simp add: TrimSpace_def trim_Nil)
qed

lemma owner_ok_checks: "owner_ok w \<Longrightarrow> \<not> sql_blank w \<and> char_length w \<le> 128"
  using sql_blank_TrimSpace [of w] length_runes [of w] by (auto simp: owner_ok_def char_length_def MaxLeaseOwnerLength_def)

lemma JobType_IsValid_iff: "JobType_IsValid t \<longleftrightarrow> t \<in> {''email_delivery'', ''ink_grant_monthly'', ''pass_expiry'',
    ''retention_run'', ''session_cleanup'', ''billing_reconciliation''}"
  by (simp add: JobType_IsValid_def AllJobTypes_def vocab)

lemma jobs_checksD:
  assumes "jobs_checks r"
  shows "JobType_IsValid (jr_Type r)" "1 \<le> jr_Version r" "JobState_IsValid (jr_State r)" "0 \<le> jr_Attempts r"
    "jr_Attempts r \<le> jr_MaxAttempts r" "1 \<le> jr_MaxAttempts r"
    "(jr_State r = ''leased'') = (jr_LeaseOwner r \<noteq> None \<and> jr_LeasedUntil r \<noteq> None)"
  using assms by (simp_all only: jobs_checks_def JobType_IsValid_iff JobState_IsValid_def vocab)

lemma TrimSpace_nonempty: "TrimSpace s \<noteq> [] \<Longrightarrow> s \<noteq> []"
  by auto

lemma lease_ok_cases: "lease_ok w u \<Longrightarrow> w = None \<and> u = None \<or> (\<exists>x v. w = Some x \<and> u = Some v \<and> owner_ok x \<and> 0 < v)"
  by (cases "(w, u)" rule: lease_ok.cases) auto

lemma error_ok_cases: "error_ok c d \<Longrightarrow> c = None \<and> d = None \<or> (\<exists>x y. c = Some x \<and> d = Some y \<and> failure_ok x y)"
  by (cases "(c, d)" rule: error_ok.cases) auto

lemma pg_values [simp]: "stringFromPg None = []" "stringFromPg (Some s) = s" "timeFromPg None = 0" "timeFromPg (Some t) = t"
  by (simp_all add: stringFromPg_def timeFromPg_def)

lemma job_of_row_sel [simp]:
  "job_ID (job_of_row r) = uuidToString (Some (jr_ID r))" "job_Type (job_of_row r) = jr_Type r"
  "job_Version (job_of_row r) = jr_Version r" "job_Payload (job_of_row r) = jr_Parameters r"
  "job_IdempotencyKey (job_of_row r) = stringFromPg (jr_IdempotencyKey r)" "job_State (job_of_row r) = jr_State r"
  "job_AvailableAt (job_of_row r) = jr_AvailableAt r" "job_Attempts (job_of_row r) = jr_Attempts r"
  "job_MaxAttempts (job_of_row r) = jr_MaxAttempts r" "job_LeaseOwner (job_of_row r) = stringFromPg (jr_LeaseOwner r)"
  "job_LeasedUntil (job_of_row r) = timeFromPg (jr_LeasedUntil r)"
  "job_LastErrorCode (job_of_row r) = stringFromPg (jr_LastErrorCode r)"
  "job_LastErrorDetail (job_of_row r) = stringFromPg (jr_LastErrorDetail r)"
  "job_CreatedAt (job_of_row r) = jr_CreatedAt r" "job_UpdatedAt (job_of_row r) = jr_UpdatedAt r"
  by (simp_all add: job_of_row_def)

lemma FailureCode_nonempty: "\<not> FailureCode_IsValid []"
  by (simp add: FailureCode_IsValid_def AllFailureCodes_def vocab)

lemma jobFromRow_ok:
  assumes "row_ok t r"
  shows "jobFromRow r = Inr (job_of_row r)"
proof -
  let ?j = "job_of_row r"
  have c: "jobs_checks r" and m: "row_more t r" using assms by (simp_all add: row_ok_def)
  note d = jobs_checksD [OF c]
  have ID: "TrimSpace (job_ID ?j) \<noteq> []" by (simp add: uuidToString_printable)
  have lease: "validateLease ?j = Inr ()"
  proof -
    from m have "lease_ok (jr_LeaseOwner r) (jr_LeasedUntil r)" by (simp add: row_more_def)
    from lease_ok_cases [OF this] d(7) show ?thesis
      by (auto simp: validateLease_def Let_def time_IsZero_def vocab Lease_Validate_def owner_ok_def dest: TrimSpace_nonempty)
  qed
  have key: "validateIdempotencyKey ?j = Inr ()"
    using m by (auto simp: row_more_def key_ok_def validateIdempotencyKey_def split: option.splits)
  have failure: "validateFailure ?j = Inr ()"
  proof -
    from m have "error_ok (jr_LastErrorCode r) (jr_LastErrorDetail r)" by (simp add: row_more_def)
    from error_ok_cases [OF this] show ?thesis
      using FailureCode_nonempty by (auto simp: validateFailure_def Let_def failure_ok_def)
  qed
  have "Job_Validate ?j = Inr ()"
    unfolding Job_Validate_def lease key failure using ID d m
    by (simp add: row_more_def time_IsZero_def)
  then show ?thesis by (simp add: jobFromRow_def)
qed

lemma jobs_okD:
  assumes "jobs_ok t db" "r \<in> set (job_rows db)"
  shows "row_ok t r" "jobs_checks r" "row_more t r"
  using assms by (auto simp: jobs_ok_def list_all_iff row_ok_def)

lemma same_job_row: "jobs_ok t db \<Longrightarrow> r \<in> set (job_rows db) \<Longrightarrow> s \<in> set (job_rows db) \<Longrightarrow> jr_ID r = jr_ID s \<Longrightarrow> r = s"
  by (auto simp: jobs_ok_def dest: inj_onD simp: distinct_map)

section \<open>Writing rows\<close>

definition with_row :: "AppJob \<Rightarrow> jobs_db \<Rightarrow> jobs_db" where
  "with_row row db = db\<lparr>job_rows := map (\<lambda>r. if jr_ID r = jr_ID row then row else r) (job_rows db)\<rparr>"

lemma put_row_checked: "put_row row db = (if jobs_checks row then Inr (row, with_row row db) else Inl CheckViolation)"
  by (simp add: put_row_def with_row_def)

lemma with_row_moves:
  assumes "jobs_ok t db" "r \<in> set (job_rows db)" "jr_ID row = jr_ID r" "job_step u r row" "jobs_checks row"
  shows "moves u db (with_row row db)"
proof -
  have "s = r" if "s \<in> set (job_rows db)" "jr_ID s = jr_ID row" for s
    using same_job_row [OF assms(1) that(1) assms(2)] that(2) assms(3) by simp
  with assms(4,5) show ?thesis unfolding moves_def with_row_def
    by (intro exI [of _ "\<lambda>s. if jr_ID s = jr_ID row then row else s"]) auto
qed

lemma with_row_written:
  assumes "jobs_ok t db" "r \<in> set (job_rows db)" "jr_ID row = jr_ID r"
  shows "row \<in> set (job_rows (with_row row db))"
    "s \<in> set (job_rows db) \<Longrightarrow> s \<noteq> r \<Longrightarrow> s \<in> set (job_rows (with_row row db))"
proof -
  show "row \<in> set (job_rows (with_row row db))" using assms(2,3) by (force simp: with_row_def)
  assume s: "s \<in> set (job_rows db)" "s \<noteq> r"
  then have "jr_ID s \<noteq> jr_ID row" using same_job_row [OF assms(1) s(1) assms(2)] assms(3) by auto
  then show "s \<in> set (job_rows (with_row row db))" using s(1) by (force simp: with_row_def)
qed

end
