(* ===== verification/JobsHistory.thy ===== *)
theory JobsHistory
  imports JobsCorrectness
begin

text \<open>
  The operations of the queue on a table that satisfies the invariant: their exact outcomes, the
  refinement of the lifecycle, and the histories they build.
\<close>

section \<open>Stored instants\<close>

lemma pgTimestamptz_now [simp]: "1000 \<le> t \<Longrightarrow> pgTimestamptz t = Some (timestamptz t)"
  by (simp add: pgTimestamptz_def time_IsZero_def)

lemma claim_order_hd:
  assumes "claim_order locked t db = r # rest"
  shows "r \<in> set (job_rows db)" "claimable t r" "jr_ID r \<notin> locked"
proof -
  have "r \<in> set (claim_order locked t db)" using assms by simp
  then show "r \<in> set (job_rows db)" "claimable t r" "jr_ID r \<notin> locked" by (simp_all add: claim_order_def)
qed

lemma held_row_Some:
  assumes "held_row i w db = Some r"
  shows "r \<in> set (job_rows db)" "jr_ID r = i" "holds_lease w r"
  using assms by (auto simp: held_row_def find_Some_iff holds_lease_def)

lemma held_row_None: "held_row i w db = None \<longleftrightarrow> (\<forall>r \<in> set (job_rows db). jr_ID r = i \<longrightarrow> \<not> holds_lease w r)"
  by (auto simp: held_row_def find_None_iff holds_lease_def)

section \<open>The table's checks after a step\<close>

text \<open>The checks on the columns no operation changes, and the others.\<close>

definition frozen_checks :: "AppJob \<Rightarrow> bool" where
  "frozen_checks r \<longleftrightarrow>
     jr_Type r \<in> {''email_delivery'', ''ink_grant_monthly'', ''pass_expiry'', ''retention_run'',
       ''session_cleanup'', ''billing_reconciliation''}
   \<and> 1 \<le> jr_Version r \<and> take 1 (jr_Parameters r) = ''{'' \<and> length (jr_Parameters r) \<le> 4096 \<and> 1 \<le> jr_MaxAttempts r
   \<and> (case jr_IdempotencyKey r of None \<Rightarrow> True | Some k \<Rightarrow> \<not> sql_blank k \<and> char_length k \<le> 200)"

definition error_checks :: "string option \<Rightarrow> string option \<Rightarrow> bool" where
  "error_checks c d \<longleftrightarrow> (c = None) = (d = None)
   \<and> (case c of None \<Rightarrow> True | Some c \<Rightarrow> error_code_shape c) \<and> (case d of None \<Rightarrow> True | Some d \<Rightarrow> char_length d \<le> 300)"

definition state_checks :: "string \<Rightarrow> string option \<Rightarrow> time option \<Rightarrow> bool" where
  "state_checks st w u \<longleftrightarrow> st \<in> {''queued'', ''leased'', ''succeeded'', ''dead''}
   \<and> (st = ''leased'') = (w \<noteq> None \<and> u \<noteq> None)
   \<and> (case w of None \<Rightarrow> True | Some w \<Rightarrow> \<not> sql_blank w \<and> char_length w \<le> 128)
   \<and> (st \<in> {''succeeded'', ''dead''} \<longrightarrow> w = None \<and> u = None)"

lemma jobs_checks_parts:
  "jobs_checks r \<longleftrightarrow> frozen_checks r \<and> state_checks (jr_State r) (jr_LeaseOwner r) (jr_LeasedUntil r)
     \<and> 0 \<le> jr_Attempts r \<and> jr_Attempts r \<le> jr_MaxAttempts r \<and> error_checks (jr_LastErrorCode r) (jr_LastErrorDetail r)"
  unfolding jobs_checks_def frozen_checks_def error_checks_def state_checks_def by (simp only: conj_ac)

lemma state_checks_unleased [simp]: "state_checks ''queued'' None None" "state_checks ''succeeded'' None None"
  "state_checks ''dead'' None None"
  by (simp_all add: state_checks_def)

lemma state_checks_leased: "owner_ok w \<Longrightarrow> state_checks ''leased'' (Some w) (Some u)"
  using owner_ok_checks [of w] by (simp add: state_checks_def)

lemma frozen_max: "frozen_checks r \<Longrightarrow> 1 \<le> jr_MaxAttempts r"
  by (simp only: frozen_checks_def)

lemma frozen_checks_updates [simp]: "frozen_checks (claimed t w u r) = frozen_checks r"
  "frozen_checks (completed t r) = frozen_checks r" "frozen_checks (failed t st c d a r) = frozen_checks r"
  "frozen_checks (released t r) = frozen_checks r" "frozen_checks (revived t r) = frozen_checks r"
  by (simp_all only: frozen_checks_def claimed_sel completed_sel failed_sel released_sel revived_sel)

lemma checks_claimed:
  assumes "jobs_checks r" "owner_ok w"
  shows "jobs_checks (claimed t w u r) = (jr_Attempts r < jr_MaxAttempts r)"
  using assms(1) state_checks_leased [OF assms(2)] unfolding jobs_checks_parts claimed_sel frozen_checks_updates by auto

lemma checks_completed: "jobs_checks r \<Longrightarrow> jobs_checks (completed t r)"
  unfolding jobs_checks_parts completed_sel frozen_checks_updates by simp

lemma checks_released: "jobs_checks r \<Longrightarrow> jobs_checks (released t r)"
  unfolding jobs_checks_parts released_sel frozen_checks_updates by simp

lemma checks_revived: "jobs_checks r \<Longrightarrow> jobs_checks (revived t r)"
  unfolding jobs_checks_parts revived_sel frozen_checks_updates by (simp add: error_checks_def frozen_max)

lemma FailureCode_shape: "FailureCode_IsValid c \<Longrightarrow> error_code_shape c \<and> pg_text c"
proof -
  assume "FailureCode_IsValid c"
  then have "c \<in> set AllFailureCodes" by (simp add: FailureCode_IsValid_def)
  moreover have "list_all (\<lambda>c. error_code_shape c \<and> list_all printable c) AllFailureCodes" by code_simp
  ultimately show ?thesis by (auto simp: list_all_iff intro: printable_pg_text [unfolded list_all_iff])
qed

lemma NewFailure_Inr:
  "NewFailure code detail = Inr f \<longleftrightarrow> FailureCode_IsValid code \<and> f = \<lparr>failure_Code = code, failure_Detail = SanitizeDetail detail\<rparr>"
  by (auto simp: NewFailure_def)

lemma detail_char_byte: "detail_char c \<Longrightarrow> byte c < 128 \<and> 0 < byte c"
  unfolding detail_char_def detail_rune_def by auto

lemma SanitizeDetail_stored: "failure_ok c (SanitizeDetail raw) = FailureCode_IsValid c" "pg_text (SanitizeDetail raw)"
  "char_length (SanitizeDetail raw) \<le> 300"
proof -
  note s = SanitizeDetail_text [of raw]
  show "failure_ok c (SanitizeDetail raw) = FailureCode_IsValid c" using s by (auto simp: failure_ok_def)
  show "char_length (SanitizeDetail raw) \<le> 300"
    using s length_runes [of "SanitizeDetail raw"] by (simp add: char_length_def MaxErrorDetailLength_def)
  have "list_all detail_char (SanitizeDetail raw)" using s by blast
  then have "list_all (\<lambda>c. byte c < 128) (SanitizeDetail raw)" "list_all (\<lambda>c. byte c \<noteq> 0) (SanitizeDetail raw)"
    by (rule list.pred_mono_strong; simp add: detail_char_byte)+
  then show "pg_text (SanitizeDetail raw)" by (simp add: pg_text_def valid_utf8_ascii)
qed

lemma checks_failed:
  assumes "jobs_checks r" "FailureCode_IsValid code" "state = ''queued'' \<or> state = ''dead''"
  shows "jobs_checks (failed t state code (SanitizeDetail raw) a r)"
  using assms FailureCode_shape [OF assms(2)] SanitizeDetail_stored(3) [of raw]
  unfolding jobs_checks_parts failed_sel frozen_checks_updates by (auto simp: error_checks_def)

section \<open>A row written by an operation\<close>

text \<open>What every update of one row shares: the table stays well-formed and the new row converts.\<close>

lemma one_row_step:
  assumes "jobs_ok s db" "s \<le> now" "r \<in> set (job_rows db)" "jr_ID row = jr_ID r"
    and "job_step (timestamptz now) r row" "jobs_checks row"
  shows "moves (timestamptz now) db (with_row row db)" "jobFromRow row = Inr (job_of_row row)"
proof -
  show m: "moves (timestamptz now) db (with_row row db)" by (rule with_row_moves [OF assms(1,3-6)])
  have "jobs_ok now (with_row row db)" using moves_ok [OF m assms(1,2)] by simp
  from jobs_okD(1) [OF this with_row_written(1) [OF assms(1,3,4)]] show "jobFromRow row = Inr (job_of_row row)"
    by (rule jobFromRow_ok)
qed

section \<open>Leasing\<close>

definition lease_outcome ::
  "uuid set \<Rightarrow> time \<Rightarrow> string \<Rightarrow> time \<Rightarrow> jobs_db \<Rightarrow> (jobs_app_error + Job option) \<times> jobs_db" where
  "lease_outcome locked now owner until db =
     (case claim_order locked (timestamptz now) db of
        [] \<Rightarrow> (Inr None, db)
      | r # _ \<Rightarrow>
          if jr_Attempts r < jr_MaxAttempts r then
            (let row = claimed (timestamptz now) owner (timestamptz until) r in (Inr (Some (job_of_row row)), with_row row db))
          else (Inl (JobDatabase (if in_int32 (jr_Attempts r + 1) then CheckViolation else NumericOutOfRange)), db))"

lemma Lease_Execute_ok:
  assumes "jobs_ok s db" "s \<le> now" "owner_ok owner" "pg_text owner" "0 < d" "d \<le> MaxLeaseDuration"
  shows "Lease_Execute locked now owner d db = lease_outcome locked now owner (now + d) db"
proof -
  let ?t = "timestamptz now" and ?u = "timestamptz (now + d)"
  have t: "1000 \<le> now" using assms(1,2) by (simp add: jobs_ok_def)
  have repo: "Lease_Execute locked now owner d db = repo_Lease locked owner now (now + d) db"
    using assms by (simp add: Lease_Execute_def validateOwner_def owner_ok_def)
  show ?thesis
  proof (cases "claim_order locked ?t db")
    case Nil
    then show ?thesis using t assms by (simp add: repo repo_Lease_def sql_LeaseJob_def lease_outcome_def)
  next
    case (Cons r rest)
    note hd = claim_order_hd [OF Cons]
    let ?row = "claimed ?t owner ?u r"
    note ok = jobs_okD [OF assms(1) hd(1)]
    have sql: "sql_LeaseJob locked owner (Some ?u) (Some ?t) db =
        (if \<not> in_int32 (jr_Attempts r + 1) then Inl NumericOutOfRange else put_row ?row db)"
      using assms(4) Cons by (simp add: sql_LeaseJob_def claimed_def)
    show ?thesis
    proof (cases "jr_Attempts r < jr_MaxAttempts r")
      case True
      have "in_int32 (jr_Attempts r + 1)" using True ok(3) jobs_checksD(4) [OF ok(2)] by (simp add: row_more_def in_int32_def MinInt32_def)
      moreover have c: "jobs_checks ?row" using checks_claimed [OF ok(2) assms(3)] True by simp
      moreover have "timestamptz now \<le> timestamptz (now + d)" using assms(5) by (intro timestamptz_mono) simp
      note job_step.claim [OF hd(2) True assms(3) this]
      note one_row_step(2) [OF assms(1,2) hd(1) _ this c]
      ultimately show ?thesis using Cons True t assms(5)
        by (simp add: repo repo_Lease_def sql put_row_checked lease_outcome_def Let_def)
    next
      case False
      then have "\<not> jobs_checks ?row" using checks_claimed [OF ok(2) assms(3)] by simp
      then show ?thesis using Cons False t assms(5)
        by (simp add: repo repo_Lease_def sql put_row_checked lease_outcome_def)
    qed
  qed
qed

lemma lease_outcome_moves:
  assumes "jobs_ok s db" "s \<le> now" "now \<le> until" "owner_ok owner"
  shows "moves (timestamptz now) db (snd (lease_outcome locked now owner until db))"
proof (cases "claim_order locked (timestamptz now) db")
  case Nil
  then show ?thesis by (simp add: lease_outcome_def)
next
  case (Cons r rest)
  note hd = claim_order_hd [OF Cons]
  have "timestamptz now \<le> timestamptz until" using assms(3) by (rule timestamptz_mono)
  then show ?thesis using Cons job_step.claim [OF hd(2) _ assms(4)] checks_claimed [OF jobs_okD(2) [OF assms(1) hd(1)] assms(4)]
      one_row_step(1) [OF assms(1,2) hd(1)]
    by (simp add: lease_outcome_def Let_def)
qed

section \<open>Completing and failing\<close>

definition complete_outcome :: "time \<Rightarrow> uuid \<Rightarrow> string \<Rightarrow> jobs_db \<Rightarrow> (jobs_app_error + Job) \<times> jobs_db" where
  "complete_outcome now i w db =
     (case held_row i w db of
        None \<Rightarrow> (Inl ErrLeaseNotHeld, db)
      | Some r \<Rightarrow> (let row = completed (timestamptz now) r in (Inr (job_of_row row), with_row row db)))"

definition failure_row :: "time \<Rightarrow> FailureCode \<Rightarrow> string \<Rightarrow> time \<Rightarrow> AppJob \<Rightarrow> AppJob" where
  "failure_row now code detail retryAt r =
     (if jr_Attempts r = jr_MaxAttempts r
      then failed (timestamptz now) ''dead'' code (SanitizeDetail detail) (jr_AvailableAt r) r
      else failed (timestamptz now) ''queued'' code (SanitizeDetail detail) (timestamptz retryAt) r)"

definition fail_outcome ::
  "time \<Rightarrow> uuid \<Rightarrow> string \<Rightarrow> FailureCode \<Rightarrow> string \<Rightarrow> time \<Rightarrow> jobs_db \<Rightarrow> (jobs_app_error + Job) \<times> jobs_db" where
  "fail_outcome now i w code detail retryAt db =
     (case held_row i w db of
        None \<Rightarrow> (Inl ErrLeaseNotHeld, db)
      | Some r \<Rightarrow>
          if jr_Attempts r < jr_MaxAttempts r \<and> time_IsZero retryAt then (Inl (JobDatabase NotNullViolation), db)
          else (let row = failure_row now code detail retryAt r in (Inr (job_of_row row), with_row row db)))"

lemma completed_step:
  assumes "jobs_ok s db" "s \<le> now" "held_row i w db = Some r"
  shows "moves (timestamptz now) db (with_row (completed (timestamptz now) r) db)"
    "jobFromRow (completed (timestamptz now) r) = Inr (job_of_row (completed (timestamptz now) r))"
  by (rule one_row_step [OF assms(1,2) held_row_Some(1) [OF assms(3)]];
      use checks_completed [OF jobs_okD(2) [OF assms(1) held_row_Some(1) [OF assms(3)]]]
        job_step.complete [OF held_row_Some(3) [OF assms(3)]] in simp)+

lemma failure_row_step:
  assumes "jobs_ok s db" "s \<le> now" "held_row i w db = Some r" "FailureCode_IsValid code"
  shows "moves (timestamptz now) db (with_row (failure_row now code detail retryAt r) db)"
    "jobFromRow (failure_row now code detail retryAt r) = Inr (job_of_row (failure_row now code detail retryAt r))"
    "jobs_checks (failure_row now code detail retryAt r)"
proof -
  note h = held_row_Some [OF assms(3)]
  note c = jobs_okD(2) [OF assms(1) h(1)]
  let ?row = "failure_row now code detail retryAt r"
  show checks: "jobs_checks ?row" using checks_failed [OF c assms(4)] by (simp add: failure_row_def)
  have step: "job_step (timestamptz now) r ?row"
    using job_step.fail_dead [OF h(3)] job_step.fail_again [OF h(3)] jobs_checksD(5) [OF c] assms(4)
    by (simp add: failure_row_def SanitizeDetail_stored)
  have i: "jr_ID ?row = jr_ID r" by (simp add: failure_row_def)
  show "moves (timestamptz now) db (with_row ?row db)" "jobFromRow ?row = Inr (job_of_row ?row)"
    by (rule one_row_step [OF assms(1,2) h(1) i step checks])+
qed

lemma Complete_Execute_ok:
  assumes "jobs_ok s db" "s \<le> now" "owner_ok w" "pg_text w" "scan jobID = Some i"
  shows "Complete_Execute scan now jobID w db = complete_outcome now i w db"
proof -
  have t: "1000 \<le> now" using assms(1,2) by (simp add: jobs_ok_def)
  have repo: "Complete_Execute scan now jobID w db = repo_Complete scan jobID w now db"
    using assms by (simp add: Complete_Execute_def validateOwner_def owner_ok_def)
  show ?thesis
  proof (cases "held_row i w db")
    case None
    then show ?thesis using t assms by (simp add: repo repo_Complete_def sql_CompleteJob_def complete_outcome_def)
  next
    case (Some r)
    let ?row = "completed (timestamptz now) r"
    have "sql_CompleteJob (pgTimestamptz now) i w db = put_row ?row db"
      using Some assms(4) t by (simp add: sql_CompleteJob_def completed_def)
    moreover have "jobs_checks ?row" using checks_completed jobs_okD(2) [OF assms(1) held_row_Some(1) [OF Some]] .
    ultimately show ?thesis using Some assms(5) completed_step(2) [OF assms(1,2) Some]
      by (simp add: repo repo_Complete_def put_row_checked complete_outcome_def Let_def)
  qed
qed

lemma Fail_Execute_ok:
  assumes "jobs_ok s db" "s \<le> now" "owner_ok w" "pg_text w" "scan jobID = Some i" "FailureCode_IsValid code"
    and "retry = (case retryAt of None \<Rightarrow> now | Some t \<Rightarrow> t)"
  shows "Fail_Execute scan now jobID w code detail retryAt db = fail_outcome now i w code detail retry db"
proof -
  have t: "1000 \<le> now" using assms(1,2) by (simp add: jobs_ok_def)
  let ?f = "\<lparr>failure_Code = code, failure_Detail = SanitizeDetail detail\<rparr>"
  have repo: "Fail_Execute scan now jobID w code detail retryAt db = repo_Fail scan ?f jobID w retry now db"
    using assms by (simp add: Fail_Execute_def validateOwner_def owner_ok_def NewFailure_def)
  have chars: "pg_text code" "pg_text (SanitizeDetail detail)"
    using FailureCode_shape [OF assms(6)] SanitizeDetail_stored(2) by simp_all
  show ?thesis
  proof (cases "held_row i w db")
    case None
    then show ?thesis using t assms(4,5) chars by (simp add: repo repo_Fail_def sql_FailJob_def fail_outcome_def)
  next
    case (Some r)
    note step = failure_row_step [OF assms(1,2) Some assms(6), of detail retry]
    have "jr_Attempts r \<le> jr_MaxAttempts r" using jobs_checksD(5) [OF jobs_okD(2) [OF assms(1) held_row_Some(1) [OF Some]]] .
    then have "sql_FailJob (pgTimestamptz retry) code (SanitizeDetail detail) (pgTimestamptz now) i w db
        = (if jr_Attempts r < jr_MaxAttempts r \<and> time_IsZero retry then Inl NotNullViolation
           else put_row (failure_row now code detail retry r) db)"
      using Some assms(4) t chars
      by (simp add: sql_FailJob_def failure_row_def failed_def Let_def pgTimestamptz_def [of retry])
    then show ?thesis using Some assms(5) step
      by (simp add: repo repo_Fail_def put_row_checked fail_outcome_def Let_def)
  qed
qed

section \<open>Recovery and retries\<close>

definition recovered :: "time \<Rightarrow> jobs_db \<Rightarrow> jobs_db" where
  "recovered t db = db\<lparr>job_rows := map (\<lambda>r. if lease_ended t r then released t r else r) (job_rows db)\<rparr>"

lemma Recover_Execute_ok:
  assumes "jobs_ok s db" "s \<le> now"
  shows "Recover_Execute now db =
      (Inr (int (length (filter (lease_ended (timestamptz now)) (job_rows db)))), recovered (timestamptz now) db)"
    "moves (timestamptz now) db (recovered (timestamptz now) db)"
proof -
  have t: "1000 \<le> now" using assms(1,2) by (simp add: jobs_ok_def)
  have c: "jobs_checks (released u r)" if "r \<in> set (job_rows db)" for r u
    using checks_released jobs_okD(2) [OF assms(1) that] .
  then have "list_all (\<lambda>r. lease_ended u r \<longrightarrow> jobs_checks (released u r)) (job_rows db)" for u
    by (simp add: list_all_iff)
  then show "Recover_Execute now db =
      (Inr (int (length (filter (lease_ended (timestamptz now)) (job_rows db)))), recovered (timestamptz now) db)"
    using t by (simp add: Recover_Execute_def repo_ReleaseExpiredLeases_def sql_ReleaseExpiredLeases_def recovered_def)
  show "moves (timestamptz now) db (recovered (timestamptz now) db)"
    unfolding moves_def recovered_def using c job_step.release
    by (intro exI [of _ "\<lambda>r. if lease_ended (timestamptz now) r then released (timestamptz now) r else r"]) auto
qed

definition dead_row :: "uuid \<Rightarrow> jobs_db \<Rightarrow> AppJob option" where
  "dead_row i db = find (\<lambda>r. jr_ID r = i \<and> jr_State r = ''dead'') (job_rows db)"

lemma dead_row_Some:
  assumes "dead_row i db = Some r"
  shows "r \<in> set (job_rows db)" "jr_ID r = i" "jr_State r = ''dead''"
  using assms by (auto simp: dead_row_def find_Some_iff)

definition dead_job_of_row :: "AppJob \<Rightarrow> DeadJob" where
  "dead_job_of_row r =
     \<lparr>dead_ID = uuidToString (Some (jr_ID r)), dead_Type = jr_Type r, dead_Version = jr_Version r,
      dead_Attempts = jr_Attempts r, dead_MaxAttempts = jr_MaxAttempts r, dead_LastErrorCode = [],
      dead_AgeSeconds = 0, dead_Retryable = RetryAllowed (jr_Type r)\<rparr>"

lemma repo_RetryDeadJob_ok:
  assumes "jobs_ok s db" "s \<le> now" "scan jobID = Some i"
  shows "repo_RetryDeadJob scan jobID now db =
      (case dead_row i db of None \<Rightarrow> (Inr None, db)
       | Some r \<Rightarrow> (Inr (Some (dead_job_of_row (revived (timestamptz now) r))), with_row (revived (timestamptz now) r) db))"
    "dead_row i db = Some r \<Longrightarrow> moves (timestamptz now) db (with_row (revived (timestamptz now) r) db)"
proof -
  have t: "1000 \<le> now" using assms(1,2) by (simp add: jobs_ok_def)
  show "repo_RetryDeadJob scan jobID now db =
      (case dead_row i db of None \<Rightarrow> (Inr None, db)
       | Some r \<Rightarrow> (Inr (Some (dead_job_of_row (revived (timestamptz now) r))), with_row (revived (timestamptz now) r) db))"
  proof (cases "dead_row i db")
    case None
    then show ?thesis using assms(3) by (simp add: repo_RetryDeadJob_def sql_RetryDeadJob_def dead_row_def)
  next
    case (Some r)
    let ?row = "revived (timestamptz now) r"
    have sql: "sql_RetryDeadJob (pgTimestamptz now) i db = put_row ?row db"
      using Some t by (simp add: sql_RetryDeadJob_def dead_row_def revived_def)
    have c: "jobs_checks r" using jobs_okD(2) [OF assms(1) dead_row_Some(1) [OF Some]] .
    then have "jobs_checks ?row" "JobType_IsValid (jr_Type r)" using checks_revived jobs_checksD(1) by blast+
    then show ?thesis using Some assms(3)
      by (simp add: repo_RetryDeadJob_def sql put_row_checked dead_job_of_row_def)
  qed
  assume d: "dead_row i db = Some r"
  note h = dead_row_Some [OF d]
  show "moves (timestamptz now) db (with_row (revived (timestamptz now) r) db)"
    by (rule one_row_step(1) [OF assms(1,2) h(1)])
      (use job_step.revive [OF h(3)] checks_revived [OF jobs_okD(2) [OF assms(1) h(1)]] in simp_all)
qed

section \<open>Enqueueing\<close>

text \<open>
  What the queue relies on of \<open>jsonb\<close>: an accepted object is still one after PostgreSQL has read
  and printed it, unless it has grown beyond the bound.
\<close>

definition jsonb_keeps :: "(string \<Rightarrow> string option) \<Rightarrow> bool" where
  "jsonb_keeps jsonb \<longleftrightarrow> (\<forall>p q. ValidatePayload p = Inr () \<longrightarrow> jsonb p = Some q \<longrightarrow> length q \<le> MaxPayloadBytes \<longrightarrow>
     ValidatePayload q = Inr ())"

lemma ValidatePayload_Inr: "ValidatePayload p = Inr () \<Longrightarrow> take 1 p = ''{'' \<and> length p \<le> 4096"
  by (auto simp: ValidatePayload_def MaxPayloadBytes_def split: if_splits)

lemma validateCommand_Inr:
  assumes "validateCommand cmd = Inr m"
  shows "JobType_IsValid (enq_Type cmd)" "1 \<le> enq_Version cmd" "ValidatePayload (enq_Payload cmd) = Inr ()" "1 \<le> m"
    "m = (if enq_MaxAttempts cmd = 0 then DefaultMaxAttempts else enq_MaxAttempts cmd)"
    "key_ok (pgTextOrNull (enq_IdempotencyKey cmd))"
  using assms
  by (auto simp: validateCommand_def bind_r_Inr_iff Let_def key_ok_def pgTextOrNull_def split: if_splits)

definition new_row :: "string \<Rightarrow> time \<Rightarrow> EnqueueCommand \<Rightarrow> time \<Rightarrow> int \<Rightarrow> jobs_db \<Rightarrow> AppJob" where
  "new_row stored now cmd available m db =
     \<lparr>jr_ID = job_uuid_gen db (job_uuid_next db), jr_Type = enq_Type cmd, jr_Version = enq_Version cmd,
      jr_Parameters = stored, jr_IdempotencyKey = pgTextOrNull (enq_IdempotencyKey cmd), jr_State = ''queued'',
      jr_AvailableAt = timestamptz available, jr_Attempts = 0, jr_MaxAttempts = m, jr_LeaseOwner = None,
      jr_LeasedUntil = None, jr_LastErrorCode = None, jr_LastErrorDetail = None,
      jr_CreatedAt = timestamptz now, jr_UpdatedAt = timestamptz now\<rparr>"

lemma key_ok_checks: "key_ok (Some k) \<Longrightarrow> \<not> sql_blank k \<and> char_length k \<le> 200"
  using sql_blank_TrimSpace [of k] length_runes [of k] by (auto simp: key_ok_def char_length_def MaxIdempotencyKeyLength_def)

lemma new_row_ok:
  assumes "validateCommand cmd = Inr m" "in_int32 m" "ValidatePayload stored = Inr ()" "1000 \<le> now"
  shows "row_ok now (new_row stored now cmd available m db)" "fresh_row (timestamptz now) (new_row stored now cmd available m db)"
proof -
  let ?r = "new_row stored now cmd available m db"
  note v = validateCommand_Inr [OF assms(1)] and p = ValidatePayload_Inr [OF assms(3)]
  have "frozen_checks ?r"
    unfolding frozen_checks_def JobType_IsValid_iff [symmetric]
    using v p key_ok_checks by (cases "pgTextOrNull (enq_IdempotencyKey cmd)") (simp_all add: new_row_def)
  then have "jobs_checks ?r"
    unfolding jobs_checks_parts using v(4) by (simp add: new_row_def error_checks_def)
  then show "row_ok now ?r" using v assms timestamptz_pos [OF assms(4)]
    by (simp add: row_ok_def row_more_def new_row_def)
  show "fresh_row (timestamptz now) ?r" by (simp add: fresh_row_def new_row_def)
qed

text \<open>The commands that reach the table, with what they store.\<close>

definition accepted :: "(string \<Rightarrow> string option) \<Rightarrow> time \<Rightarrow> EnqueueCommand \<Rightarrow> (int \<times> string \<times> time) option" where
  "accepted jsonb now cmd =
     (case (validateCommand cmd, jsonb (enq_Payload cmd)) of
        (Inr m, Some stored) \<Rightarrow>
          (let available = (case enq_AvailableAt cmd of None \<Rightarrow> now | Some t \<Rightarrow> t) in
           if in_int32 (enq_Version cmd) \<and> in_int32 m \<and> pg_text (enq_IdempotencyKey cmd)
              \<and> length stored \<le> MaxPayloadBytes \<and> \<not> time_IsZero available
           then Some (m, stored, available) else None)
      | _ \<Rightarrow> None)"

definition keyed_row :: "string \<Rightarrow> jobs_db \<Rightarrow> AppJob option" where
  "keyed_row k db = (if k = [] then None else find (\<lambda>r. jr_IdempotencyKey r = Some k) (job_rows db))"

definition enqueue_outcome ::
  "time \<Rightarrow> EnqueueCommand \<Rightarrow> int \<times> string \<times> time \<Rightarrow> jobs_db \<Rightarrow> (jobs_app_error + Job \<times> bool) \<times> jobs_db" where
  "enqueue_outcome now cmd = (\<lambda>(m, stored, available) db.
     let row = new_row stored now cmd available m db in
     case keyed_row (enq_IdempotencyKey cmd) db of
       Some r \<Rightarrow> (Inr (job_of_row r, True), db)
     | None \<Rightarrow>
         if jr_ID row \<in> jr_ID ` set (job_rows db) then (Inl (JobDatabase UniqueViolation), db)
         else (Inr (job_of_row row, False), db\<lparr>job_rows := job_rows db @ [row], job_uuid_next := Suc (job_uuid_next db)\<rparr>))"

lemma keyed_row_image: "k \<noteq> [] \<Longrightarrow> (Some k \<in> jr_IdempotencyKey ` set (job_rows db)) = (keyed_row k db \<noteq> None)"
  by (simp add: keyed_row_def)

lemma keyed_row_Some: "keyed_row k db = Some r \<Longrightarrow> r \<in> set (job_rows db) \<and> jr_IdempotencyKey r = Some k"
  by (auto simp: keyed_row_def dest: find_key_Some split: if_splits)

lemma JobType_pg_text: "JobType_IsValid t \<Longrightarrow> pg_text t"
proof -
  assume "JobType_IsValid t"
  then have "t \<in> set AllJobTypes" by (simp add: JobType_IsValid_def)
  moreover have "list_all (list_all printable) AllJobTypes" by code_simp
  ultimately show ?thesis by (auto simp: list_all_iff intro: printable_pg_text [unfolded list_all_iff])
qed

lemma enqueue_repo:
  assumes "validateCommand cmd = Inr m" "available = (case enq_AvailableAt cmd of None \<Rightarrow> now | Some t \<Rightarrow> t)"
  shows "Enqueue_Execute jsonb now cmd db = repo_Enqueue jsonb
    \<lparr>rec_Type = enq_Type cmd, rec_Version = enq_Version cmd, rec_Payload = enq_Payload cmd,
     rec_IdempotencyKey = enq_IdempotencyKey cmd, rec_AvailableAt = available,
     rec_MaxAttempts = m, rec_CreatedAt = now\<rparr> db"
  using assms by (simp add: Enqueue_Execute_def)

lemma accepted_Some:
  assumes "accepted jsonb now cmd = Some (m, stored, available)"
  shows "validateCommand cmd = Inr m" "jsonb (enq_Payload cmd) = Some stored"
    "available = (case enq_AvailableAt cmd of None \<Rightarrow> now | Some t \<Rightarrow> t)" "in_int32 (enq_Version cmd)" "in_int32 m"
    "pg_text (enq_IdempotencyKey cmd)" "length stored \<le> MaxPayloadBytes" "\<not> time_IsZero available"
  using assms by (auto simp: accepted_def Let_def split: sum.splits option.splits if_splits)

lemma Enqueue_Execute_ok:
  assumes "jobs_ok s db" "1000 \<le> now" "jsonb_keeps jsonb" "accepted jsonb now cmd = Some a"
  shows "Enqueue_Execute jsonb now cmd db = enqueue_outcome now cmd a db"
    "snd (enqueue_outcome now cmd a db) = db \<or> adds (timestamptz now) db (snd (enqueue_outcome now cmd a db))"
proof -
  obtain m stored available where a: "a = (m, stored, available)" by (cases a)
  note ac = accepted_Some [OF assms(4) [unfolded a]]
  note t = assms(2)
  have p: "ValidatePayload stored = Inr ()"
    using assms(3) validateCommand_Inr(3) [OF ac(1)] ac(2,7) unfolding jsonb_keeps_def by blast
  let ?row = "new_row stored now cmd available m db"
  let ?key = "pgTextOrNull (enq_IdempotencyKey cmd)"
  note row = new_row_ok [OF ac(1,5) p t, of available db]
  have sql: "sql_EnqueueJob jsonb (enq_Type cmd) (enq_Version cmd) (enq_Payload cmd) ?key (pgTimestamptz available) m
      (pgTimestamptz now) db =
    (if ?key \<noteq> None \<and> ?key \<in> jr_IdempotencyKey ` set (job_rows db) then Inl NoRows
     else if jr_ID ?row \<in> jr_ID ` set (job_rows db) then Inl UniqueViolation
     else Inr (?row, db\<lparr>job_rows := job_rows db @ [?row], job_uuid_next := Suc (job_uuid_next db)\<rparr>))"
  proof -
    have checks: "jobs_checks ?row" using row(1) by (simp add: row_ok_def)
    have chars: "(\<not> pg_text (enq_Type cmd) \<or> (case ?key of None \<Rightarrow> False | Some k \<Rightarrow> \<not> pg_text k)) = False"
      using JobType_pg_text [OF validateCommand_Inr(1) [OF ac(1)]] ac(6) by (simp add: pgTextOrNull_def)
    have sent: "pgTimestamptz available = Some (timestamptz available)" using ac(8) by (simp add: pgTimestamptz_def)
    show ?thesis
      unfolding sql_EnqueueJob_def
      by (simp only: chars if_False ac(2) sent pgTimestamptz_now [OF t] option.case prod.case Let_def new_row_def
          checks [unfolded new_row_def] not_True_eq_False)
  qed
  note repo = enqueue_repo [OF ac(1,3), of jsonb db]
  have n: "narrowInt32 v e = Inr v" if "in_int32 v" for v e using that by (auto simp: narrowInt32_def in_int32_def)
  have found: "jobFromRow r = Inr (job_of_row r)" if "keyed_row (enq_IdempotencyKey cmd) db = Some r" for r
    using keyed_row_Some [OF that] jobFromRow_ok [OF jobs_okD(1) [OF assms(1)]] by blast
  show "Enqueue_Execute jsonb now cmd db = enqueue_outcome now cmd a db"
  proof (cases "keyed_row (enq_IdempotencyKey cmd) db")
    case None
    then have "(?key \<noteq> None \<and> ?key \<in> jr_IdempotencyKey ` set (job_rows db)) = False"
      using keyed_row_image by (auto simp: pgTextOrNull_def)
    note sql [unfolded this if_False]
    then show ?thesis using None n [OF ac(4)] n [OF ac(5)] jobFromRow_ok [OF row(1)]
      by (simp add: repo repo_Enqueue_def enqueue_outcome_def a Let_def)
  next
    case (Some r)
    then have k: "enq_IdempotencyKey cmd \<noteq> []" by (auto simp: keyed_row_def)
    then have "(?key \<noteq> None \<and> ?key \<in> jr_IdempotencyKey ` set (job_rows db)) = True"
      using Some keyed_row_image [OF k, of db] by (simp add: pgTextOrNull_def)
    note sql [unfolded this if_True]
    moreover have "sql_GetJobByIdempotencyKey (enq_IdempotencyKey cmd) db = Inr r"
      using Some k by (simp add: sql_GetJobByIdempotencyKey_def keyed_row_def)
    ultimately show ?thesis using Some k n [OF ac(4)] n [OF ac(5)] found [OF Some]
      by (simp add: repo repo_Enqueue_def enqueue_outcome_def a Let_def)
  qed
  have "keyed_row (enq_IdempotencyKey cmd) db = None \<Longrightarrow> jr_IdempotencyKey ?row \<noteq> None \<Longrightarrow>
      jr_IdempotencyKey ?row \<notin> jr_IdempotencyKey ` set (job_rows db)"
    using keyed_row_image [of "enq_IdempotencyKey cmd" db] by (auto simp: new_row_def pgTextOrNull_def split: if_splits)
  then show "snd (enqueue_outcome now cmd a db) = db \<or> adds (timestamptz now) db (snd (enqueue_outcome now cmd a db))"
    using row by (simp add: enqueue_outcome_def a Let_def adds_def row_ok_def row_more_def split: option.split)
qed

lemma Enqueue_Execute_refused:
  assumes "accepted jsonb now cmd = None" "1000 \<le> now"
  shows "\<exists>e. Enqueue_Execute jsonb now cmd db = (Inl e, db)"
proof (cases "validateCommand cmd")
  case (Inl e)
  then show ?thesis by (simp add: Enqueue_Execute_def)
next
  case (Inr m)
  define available where "available = (case enq_AvailableAt cmd of None \<Rightarrow> now | Some t \<Rightarrow> t)"
  note repo = enqueue_repo [OF Inr available_def, of jsonb db]
  show ?thesis
  proof (cases "in_int32 (enq_Version cmd) \<and> in_int32 m")
    case False
    then show ?thesis by (auto simp: repo repo_Enqueue_def narrowInt32_def in_int32_def)
  next
    case True
    then have n: "narrowInt32 (enq_Version cmd) e = Inr (enq_Version cmd)" "narrowInt32 m e = Inr m" for e
      by (auto simp: narrowInt32_def in_int32_def)
    let ?sql = "sql_EnqueueJob jsonb (enq_Type cmd) (enq_Version cmd) (enq_Payload cmd) (pgTextOrNull (enq_IdempotencyKey cmd))
      (pgTimestamptz available) m (pgTimestamptz now) db"
    have long: "\<not> jobs_checks \<lparr>jr_ID = i, jr_Type = x, jr_Version = v, jr_Parameters = stored, jr_IdempotencyKey = key,
        jr_State = st, jr_AvailableAt = av, jr_Attempts = att, jr_MaxAttempts = mx, jr_LeaseOwner = ow, jr_LeasedUntil = un,
        jr_LastErrorCode = co, jr_LastErrorDetail = de, jr_CreatedAt = cr, jr_UpdatedAt = up\<rparr>"
      if "4096 < length stored" for i x v stored key st av att mx ow un co de cr up
      using that by (simp add: jobs_checks_parts frozen_checks_def del: insert_iff)
    have "\<exists>e. ?sql = Inl e \<and> e \<noteq> NoRows"
    proof (cases "jsonb (enq_Payload cmd)")
      case None
      then show ?thesis by (simp add: sql_EnqueueJob_def)
    next
      case (Some stored)
      from assms(1) Some Inr True consider "\<not> pg_text (enq_IdempotencyKey cmd)" | "4096 < length stored" | "time_IsZero available"
        by (auto simp: accepted_def available_def Let_def MaxPayloadBytes_def split: if_splits)
      then show ?thesis
      proof cases
        case 1
        then show ?thesis by (auto simp: sql_EnqueueJob_def pgTextOrNull_def pg_text_def)
      next
        case 2
        then show ?thesis using Some long [OF 2] by (simp add: sql_EnqueueJob_def Let_def split: option.split)
      next
        case 3
        then show ?thesis using Some by (simp add: sql_EnqueueJob_def pgTimestamptz_def)
      qed
    qed
    then show ?thesis by (auto simp: repo repo_Enqueue_def n)
  qed
qed

end
