(* ===== verification/JobsRuns.thy ===== *)
theory JobsRuns
  imports JobsHistory
begin

text \<open>
  Histories of the queue: any sequence of requests at non-decreasing instants, by any workers and
  operators, and what holds along all of them.
\<close>

datatype jobs_request =
    EnqueueRq EnqueueCommand
  | LeaseRq "uuid set" string int
  | CompleteRq string string
  | FailRq string string FailureCode string "time option"
  | RecoverRq
  | RetryRq RetryJobCommand jobs_db

fun jobs_apply ::
  "(string \<Rightarrow> string option) \<Rightarrow> (string \<Rightarrow> uuid option) \<Rightarrow> (AdminFact \<Rightarrow> bool) \<Rightarrow> time \<Rightarrow> jobs_request \<Rightarrow> jobs_db \<Rightarrow> jobs_db" where
  "jobs_apply jsonb scan audit now (EnqueueRq cmd) db = snd (Enqueue_Execute jsonb now cmd db)"
| "jobs_apply jsonb scan audit now (LeaseRq locked owner d) db = snd (Lease_Execute locked now owner d db)"
| "jobs_apply jsonb scan audit now (CompleteRq jobID owner) db = snd (Complete_Execute scan now jobID owner db)"
| "jobs_apply jsonb scan audit now (FailRq jobID owner code detail retryAt) db =
     snd (Fail_Execute scan now jobID owner code detail retryAt db)"
| "jobs_apply jsonb scan audit now RecoverRq db = snd (Recover_Execute now db)"
| "jobs_apply jsonb scan audit now (RetryRq cmd seen) db = fst (snd (RetryJob_Execute scan audit now cmd seen (db, [])))"

definition jobs_run ::
  "(string \<Rightarrow> string option) \<Rightarrow> (string \<Rightarrow> uuid option) \<Rightarrow> (AdminFact \<Rightarrow> bool) \<Rightarrow> (time \<times> jobs_request) list \<Rightarrow> jobs_db \<Rightarrow> jobs_db" where
  "jobs_run jsonb scan audit evs db = fold (\<lambda>(t, rq) d. jobs_apply jsonb scan audit t rq d) evs db"

definition timeline :: "time \<Rightarrow> (time \<times> jobs_request) list \<Rightarrow> time \<Rightarrow> bool" where
  "timeline s evs t \<longleftrightarrow> sorted (s # map fst evs @ [t])"

lemma jobs_run_simps [simp]: "jobs_run jsonb scan audit [] db = db"
  "jobs_run jsonb scan audit ((t, rq) # evs) db = jobs_run jsonb scan audit evs (jobs_apply jsonb scan audit t rq db)"
  by (simp_all add: jobs_run_def)

lemma timeline_simps [simp]: "timeline s [] t \<longleftrightarrow> s \<le> t"
  "timeline s ((u, rq) # evs) t \<longleftrightarrow> s \<le> u \<and> timeline u evs t"
  by (auto simp: timeline_def)

section \<open>One request\<close>

text \<open>A request that does not reach a row, whatever the reason, leaves the table as it is.\<close>

lemma Lease_Execute_cases:
  assumes "jobs_ok s db" "s \<le> now"
  obtains "snd (Lease_Execute locked now w d db) = db" "\<forall>job. fst (Lease_Execute locked now w d db) \<noteq> Inr (Some job)"
  | "owner_ok w" "pg_text w" "0 < d" "d \<le> MaxLeaseDuration" "Lease_Execute locked now w d db = lease_outcome locked now w (now + d) db"
proof -
  note other = that(1) and legal = that(2)
  have t: "1000 \<le> now" using assms by (simp add: jobs_ok_def)
  show thesis
  proof (cases "owner_ok w \<and> 0 < d \<and> d \<le> MaxLeaseDuration")
    case False
    then show thesis using other by (auto simp: Lease_Execute_def validateOwner_def owner_ok_def)
  next
    case True
    show thesis
    proof (cases "pg_text w")
      case False
      then have "Lease_Execute locked now w d db = (Inl (JobDatabase InvalidText), db)"
        using True t by (simp add: Lease_Execute_def validateOwner_def owner_ok_def repo_Lease_def sql_LeaseJob_def)
      then show thesis using other by simp
    next
      case chars: True
      show thesis using legal [OF _ chars] Lease_Execute_ok [OF assms _ chars, of d locked] True by blast
    qed
  qed
qed

lemma Complete_Execute_cases:
  assumes "jobs_ok s db" "s \<le> now"
  obtains e where "Complete_Execute scan now jobID w db = (Inl e, db)"
  | i where "scan jobID = Some i" "Complete_Execute scan now jobID w db = complete_outcome now i w db"
proof -
  note other = that(1) and legal = that(2)
  show thesis
  proof (cases "owner_ok w")
    case False
    then show thesis using other by (auto simp: Complete_Execute_def validateOwner_def owner_ok_def)
  next
    case owner: True
    show thesis
    proof (cases "scan jobID")
      case None
      then show thesis using owner other by (simp add: Complete_Execute_def validateOwner_def owner_ok_def repo_Complete_def)
    next
      case (Some i)
      show thesis
      proof (cases "pg_text w")
        case False
        then have "Complete_Execute scan now jobID w db = (Inl (JobDatabase InvalidText), db)"
          using owner Some by (simp add: Complete_Execute_def validateOwner_def owner_ok_def repo_Complete_def sql_CompleteJob_def)
        then show thesis by (rule other)
      next
        case True
        show thesis by (rule legal [OF Some Complete_Execute_ok [where scan = scan, OF assms owner True Some]])
      qed
    qed
  qed
qed

lemma Fail_Execute_cases:
  assumes "jobs_ok s db" "s \<le> now"
  obtains e where "Fail_Execute scan now jobID w code detail retryAt db = (Inl e, db)"
  | i retry where "scan jobID = Some i" "FailureCode_IsValid code"
    "Fail_Execute scan now jobID w code detail retryAt db = fail_outcome now i w code detail retry db"
proof -
  note other = that(1) and legal = that(2)
  show thesis
  proof (cases "owner_ok w \<and> FailureCode_IsValid code")
    case False
    then have "\<exists>e. Fail_Execute scan now jobID w code detail retryAt db = (Inl e, db)"
      by (auto simp: Fail_Execute_def validateOwner_def owner_ok_def NewFailure_def)
    then show thesis using other by blast
  next
    case owner: True
    show thesis
    proof (cases "scan jobID")
      case None
      then show thesis using owner other
        by (simp add: Fail_Execute_def validateOwner_def owner_ok_def NewFailure_def repo_Fail_def)
    next
      case (Some i)
      show thesis
      proof (cases "pg_text w")
        case False
        then have "Fail_Execute scan now jobID w code detail retryAt db = (Inl (JobDatabase InvalidText), db)"
          using owner Some
          by (simp add: Fail_Execute_def validateOwner_def owner_ok_def NewFailure_def repo_Fail_def sql_FailJob_def)
        then show thesis by (rule other)
      next
        case True
        show thesis using legal [OF Some] Fail_Execute_ok [where scan = scan, OF assms _ True Some, of code _ retryAt detail] owner by blast
      qed
    qed
  qed
qed

definition retried_fact :: "RetryJobCommand \<Rightarrow> AppJob \<Rightarrow> time \<Rightarrow> AdminFact" where
  "retried_fact cmd r now = retry_fact cmd (dead_job_of_row (revived (timestamptz now) r)) now"

definition retry_outcome :: "AppJob \<Rightarrow> RetryJobResult" where
  "retry_outcome r = \<lparr>retried_JobID = uuidToString (Some (jr_ID r)), retried_Type = jr_Type r, retried_State = StateQueued\<rparr>"

lemma RetryJob_Execute_cases:
  assumes "jobs_ok s db" "s \<le> now"
  obtains e where "RetryJob_Execute scan audit now cmd seen (db, trail) = (Inl e, (db, trail))"
  | job i r where "authorizeRetry cmd = Inr ()" "repo_JobByID scan (retry_JobID cmd) seen = Inr job"
    "job_State job = StateDead" "RetryAllowed (job_Type job)" "scan (job_ID job) = Some i" "dead_row i db = Some r"
    "audit (retried_fact cmd r now)" "RetryJob_Execute scan audit now cmd seen (db, trail) =
      (Inr (retry_outcome r), (with_row (revived (timestamptz now) r) db, trail @ [retried_fact cmd r now]))"
proof -
  note other = that(1) and legal = that(2)
  let ?x = "RetryJob_Execute scan audit now cmd seen (db, trail)"
  show thesis
  proof (cases "authorizeRetry cmd")
    case (Inl e)
    then show thesis using other by (simp add: RetryJob_Execute_def)
  next
    case auth: (Inr u)
    show thesis
    proof (cases "repo_JobByID scan (retry_JobID cmd) seen")
      case (Inl e)
      then show thesis using other auth by (simp add: RetryJob_Execute_def)
    next
      case job: (Inr job)
      show thesis
      proof (cases "job_State job = StateDead \<and> RetryAllowed (job_Type job)")
        case False
        then have "\<exists>e. ?x = (Inl e, (db, trail))" using auth job by (auto simp: RetryJob_Execute_def)
        then show thesis using other by blast
      next
        case dead: True
        then have x: "?x = retry_transaction scan audit cmd (job_ID job) now (db, trail)"
          using auth job by (simp add: RetryJob_Execute_def)
        show thesis
        proof (cases "scan (job_ID job)")
          case None
          then show thesis using other x by (simp add: retry_transaction_def repo_RetryDeadJob_def)
        next
          case i: (Some i)
          note repo = repo_RetryDeadJob_ok(1) [where scan = scan, OF assms i]
          show thesis
          proof (cases "dead_row i db")
            case None
            then show thesis using other x by (simp add: retry_transaction_def repo)
          next
            case (Some r)
            then have "?x = (if \<not> audit (retried_fact cmd r now) then (Inl AuditFailed, (db, trail))
              else (Inr (retry_outcome r), (with_row (revived (timestamptz now) r) db, trail @ [retried_fact cmd r now])))"
              by (simp add: x retry_transaction_def repo retried_fact_def) (simp add: retry_outcome_def dead_job_of_row_def)
            then show thesis using other legal [OF _ job _ _ i Some] auth dead by (cases "audit (retried_fact cmd r now)") simp_all
          qed
        qed
      qed
    qed
  qed
qed

lemma with_row_set:
  assumes "jobs_ok t db" "r \<in> set (job_rows db)" "jr_ID row = jr_ID r"
  shows "set (job_rows (with_row row db)) = insert row (set (job_rows db) - {r})"
proof -
  have "(if jr_ID q = jr_ID row then row else q) = (if q = r then row else q)" if "q \<in> set (job_rows db)" for q
    using same_job_row [OF assms(1) that assms(2)] assms(3) by auto
  then show ?thesis using assms(2) by (auto simp: with_row_def)
qed

section \<open>Every request refines the lifecycle\<close>

lemma jobs_apply_change:
  assumes "jobs_ok s db" "s \<le> now" "jsonb_keeps jsonb"
  shows "moves (timestamptz now) db (jobs_apply jsonb scan audit now rq db)
    \<or> adds (timestamptz now) db (jobs_apply jsonb scan audit now rq db)"
proof -
  have t: "1000 \<le> now" using assms(1,2) by (simp add: jobs_ok_def)
  show ?thesis
  proof (cases rq)
    case (EnqueueRq cmd)
    show ?thesis
    proof (cases "accepted jsonb now cmd")
      case None
      then show ?thesis using Enqueue_Execute_refused [OF None t, of db] EnqueueRq by auto
    next
      case (Some a)
      then show ?thesis using Enqueue_Execute_ok [OF assms(1) t assms(3) Some] EnqueueRq by auto
    qed
  next
    case (LeaseRq locked w d)
    show ?thesis
      by (rule Lease_Execute_cases [OF assms(1,2), of locked w d])
        (use lease_outcome_moves [OF assms(1,2), of "now + d" w locked] LeaseRq in auto)
  next
    case (CompleteRq jobID w)
    show ?thesis
      by (rule Complete_Execute_cases [OF assms(1,2), of scan jobID w])
        (use completed_step(1) [OF assms(1,2)] CompleteRq in \<open>auto simp: complete_outcome_def Let_def split: option.split\<close>)
  next
    case (FailRq jobID w code detail retryAt)
    show ?thesis
      by (rule Fail_Execute_cases [OF assms(1,2), of scan jobID w code detail retryAt])
        (use failure_row_step(1) [OF assms(1,2)] FailRq in \<open>auto simp: fail_outcome_def Let_def split: option.split\<close>)
  next
    case RecoverRq
    then show ?thesis using Recover_Execute_ok [OF assms(1,2)] by simp
  next
    case (RetryRq cmd seen)
    show ?thesis
      by (rule RetryJob_Execute_cases [OF assms(1,2), of scan audit cmd seen "[]"])
        (use repo_RetryDeadJob_ok(2) [OF assms(1,2)] RetryRq in auto)
  qed
qed

lemma jobs_apply_ok:
  assumes "jobs_ok s db" "s \<le> now" "jsonb_keeps jsonb"
  shows "jobs_ok now (jobs_apply jsonb scan audit now rq db) \<and> jobs_extends db (jobs_apply jsonb scan audit now rq db)"
  using jobs_apply_change [OF assms] moves_ok [OF _ assms(1,2)] adds_ok [OF _ assms(1,2) timestamptz_le] by blast

lemma jobs_run_ok:
  assumes "jsonb_keeps jsonb"
  shows "jobs_ok s db \<Longrightarrow> timeline s evs t \<Longrightarrow>
    jobs_ok t (jobs_run jsonb scan audit evs db) \<and> jobs_extends db (jobs_run jsonb scan audit evs db)"
proof (induction evs arbitrary: s db)
  case Nil
  then show ?case by (auto intro: jobs_ok_mono)
next
  case (Cons ev evs)
  obtain u rq where ev: "ev = (u, rq)" by fastforce
  with Cons.prems have "s \<le> u" "timeline u evs t" by simp_all
  note step = jobs_apply_ok [OF Cons.prems(1) this(1) assms, of scan audit rq]
  show ?case using Cons.IH [OF conjunct1 [OF step] \<open>timeline u evs t\<close>] step jobs_extends_trans by (simp add: ev) blast
qed

end
