(* ===== verification/JobsWorker.thy ===== *)
theory JobsWorker
  imports JobsRuns
begin

text \<open>
  \<open>internal/jobs/application/worker.go\<close>: the handler registry, the retry backoff, the worker
  configuration, and one turn of a worker. A handler is a function from the job to what the worker
  sees of it; the pool's goroutines are the interleaving of their requests on the table, and the
  wait between polls, the loggers and the context are left out.
\<close>

section \<open>Handlers\<close>

datatype handler_result = Returned | Failed string | TimedOut string | Panicked

type_synonym Handler = "Job \<Rightarrow> handler_result"
type_synonym HandlerMap = "((JobType \<times> int) \<times> Handler) list"

definition Register :: "HandlerMap \<Rightarrow> JobType \<Rightarrow> int \<Rightarrow> Handler option \<Rightarrow> jobs_app_error + HandlerMap" where
  "Register m jobType v handler =
     (if \<not> JobType_IsValid jobType then Inl (JobDomain ErrUnknownJobType)
      else if v < 1 then Inl (JobDomain ErrInvalidVersion)
      else case handler of
        None \<Rightarrow> Inl ErrInvalidHandler
      | Some h \<Rightarrow>
          if map_of m (jobType, v) \<noteq> None then Inl ErrDuplicateHandler else Inr (((jobType, v), h) # m))"

definition Resolve :: "HandlerMap \<Rightarrow> JobType \<Rightarrow> int \<Rightarrow> jobs_app_error + Handler" where
  "Resolve m jobType v =
     (case map_of m (jobType, v) of
        Some h \<Rightarrow> Inr h
      | None \<Rightarrow>
          if list_ex (\<lambda>(key, _). fst key = jobType) m then Inl ErrUnsupportedHandlerVersion else Inl ErrUnknownHandler)"

section \<open>Backoff\<close>

record BackoffPolicy =
  Base :: int
  Max :: int

definition DefaultBackoffPolicy :: BackoffPolicy where
  "DefaultBackoffPolicy = \<lparr>Base = 2 * ns_per_sec, Max = 10 * 60 * ns_per_sec\<rparr>"

definition Backoff_Validate :: "BackoffPolicy \<Rightarrow> jobs_app_error + unit" where
  "Backoff_Validate p = (if Base p \<le> 0 \<or> Max p \<le> 0 \<or> Max p < Base p then Inl ErrInvalidBackoff else Inr ())"

text \<open>
  \<open>float64\<close> on non-negative integers: a value is kept to 53 significant bits, rounding to nearest
  with ties to even. Scaling by a power of two is exact, so \<open>fraction * float64(cap)\<close> with
  \<open>fraction = x / 2^53\<close> is the rounded product divided by \<open>2^53\<close>.
\<close>

fun bit_length :: "nat \<Rightarrow> nat" where
  "bit_length n = (if n = 0 then 0 else Suc (bit_length (n div 2)))"

declare bit_length.simps [simp del]

definition float_round :: "nat \<Rightarrow> nat" where
  "float_round n =
     (let s = bit_length n - 53; q = n div 2 ^ s; r = n mod 2 ^ s in
      (if 2 ^ s < 2 * r \<or> 2 ^ s = 2 * r \<and> odd q then q + 1 else q) * 2 ^ s)"

definition jitter :: "nat \<Rightarrow> int \<Rightarrow> int" where
  "jitter x cap = int (float_round (x * float_round (nat cap)) div 2 ^ 53)"

definition delay_cap :: "BackoffPolicy \<Rightarrow> int \<Rightarrow> int" where
  "delay_cap p attempt =
     (let shift = nat (attempt - 1);
          cap = (if 0 < shift
                 then (if 62 < shift \<or> Base p > MaxInt64 div 2 ^ shift then Max p else Base p * 2 ^ shift)
                 else Base p)
      in if cap > Max p \<or> cap \<le> 0 then Max p else cap)"

text \<open>\<open>random\<close> is the 64-bit number read from the entropy source, or \<open>None\<close> when it fails.\<close>

datatype delay_error = BackoffError jobs_app_error | EntropyError

definition Delay :: "BackoffPolicy \<Rightarrow> int \<Rightarrow> 64 word option \<Rightarrow> delay_error + int" where
  "Delay p attempt random =
     bind_r (wrap_err BackoffError (Backoff_Validate p)) (\<lambda>_.
       let attempt' = (if attempt < 1 then 1 else attempt) in
       case random of None \<Rightarrow> Inl EntropyError | Some x \<Rightarrow> Inr (jitter (unat (drop_bit 11 x)) (delay_cap p attempt')))"

section \<open>Configuration\<close>

record WorkerConfig =
  Concurrency :: int
  LeaseDuration :: int
  HandlerTimeout :: int
  PollInterval :: int
  Backoff :: BackoffPolicy

definition DefaultWorkerConfig :: WorkerConfig where
  "DefaultWorkerConfig = \<lparr>Concurrency = 4, LeaseDuration = DefaultLeaseDuration, HandlerTimeout = 30 * ns_per_sec,
     PollInterval = 2 * ns_per_sec, Backoff = DefaultBackoffPolicy\<rparr>"

definition WorkerConfig_Validate :: "WorkerConfig \<Rightarrow> jobs_app_error + unit" where
  "WorkerConfig_Validate c =
     (if Concurrency c < 1 \<or> Concurrency c > 64 then Inl ErrInvalidWorkerConfig
      else if LeaseDuration c \<le> 0 \<or> LeaseDuration c > MaxLeaseDuration then Inl ErrInvalidWorkerConfig
      else if HandlerTimeout c \<le> 0 then Inl ErrInvalidWorkerConfig
      else if HandlerTimeout c \<ge> LeaseDuration c then Inl ErrInvalidWorkerConfig
      else if PollInterval c \<le> 0 then Inl ErrInvalidWorkerConfig
      else Backoff_Validate (Backoff c))"

section \<open>A turn\<close>

record WorkerStats =
  st_Leased :: int
  st_Succeeded :: int
  st_Failed :: int
  st_Dead :: int
  st_Reclaimed :: int
  st_Panics :: int

text \<open>The readings a worker takes: its clock at each use, its entropy, the errors a resolution prints.\<close>

record readings =
  rd_Retry :: time
  rd_Done :: time
  rd_Random :: "64 word option"
  rd_ResolveText :: string

definition recordFailure ::
  "(string \<Rightarrow> uuid option) \<Rightarrow> WorkerConfig \<Rightarrow> readings \<Rightarrow> string \<Rightarrow> Job \<Rightarrow> FailureCode \<Rightarrow> string
     \<Rightarrow> WorkerStats \<times> jobs_db \<Rightarrow> WorkerStats \<times> jobs_db" where
  "recordFailure scan cfg rd owner job code detail = (\<lambda>(st, db).
     let retryAt = (if WithinAttemptBudget job then
           (case Delay (Backoff cfg) (job_Attempts job) (rd_Random rd) of
              Inl _ \<Rightarrow> None | Inr delay \<Rightarrow> Some (rd_Retry rd + delay))
         else None) in
     case Fail_Execute scan (rd_Done rd) (job_ID job) owner code detail retryAt db of
       (Inl e, db') \<Rightarrow> (st, db')
     | (Inr updated, db') \<Rightarrow>
         if job_State updated = StateDead then (st\<lparr>st_Dead := st_Dead st + 1\<rparr>, db')
         else (st\<lparr>st_Failed := st_Failed st + 1\<rparr>, db'))"

definition count_panic :: "handler_result \<Rightarrow> WorkerStats \<Rightarrow> WorkerStats" where
  "count_panic res st = (if res = Panicked then st\<lparr>st_Panics := st_Panics st + 1\<rparr> else st)"

definition process ::
  "(string \<Rightarrow> uuid option) \<Rightarrow> WorkerConfig \<Rightarrow> HandlerMap \<Rightarrow> readings \<Rightarrow> string \<Rightarrow> Job
     \<Rightarrow> WorkerStats \<times> jobs_db \<Rightarrow> WorkerStats \<times> jobs_db" where
  "process scan cfg registry rd owner job = (\<lambda>(st, db).
     case Resolve registry (job_Type job) (job_Version job) of
       Inl e \<Rightarrow> recordFailure scan cfg rd owner job
         (if e = ErrUnsupportedHandlerVersion then FailureUnsupportedVersion else FailureUnknownType) (rd_ResolveText rd) (st, db)
     | Inr handler \<Rightarrow>
         let res = handler job; st' = count_panic res st in
         (case res of
            Returned \<Rightarrow>
              (case Complete_Execute scan (rd_Done rd) (job_ID job) owner db of
                 (Inl e, db') \<Rightarrow> (st', db')
               | (Inr _, db') \<Rightarrow> (st'\<lparr>st_Succeeded := st_Succeeded st' + 1\<rparr>, db'))
          | Failed detail \<Rightarrow> recordFailure scan cfg rd owner job FailureHandlerError detail (st', db)
          | TimedOut detail \<Rightarrow> recordFailure scan cfg rd owner job FailureHandlerTimeout detail (st', db)
          | Panicked \<Rightarrow> recordFailure scan cfg rd owner job FailureHandlerError ''handler panicked'' (st', db)))"

definition reclaim :: "time \<Rightarrow> WorkerStats \<times> jobs_db \<Rightarrow> WorkerStats \<times> jobs_db" where
  "reclaim now = (\<lambda>(st, db).
     case Recover_Execute now db of
       (Inl e, db') \<Rightarrow> (st, db')
     | (Inr n, db') \<Rightarrow> (if n > 0 then st\<lparr>st_Reclaimed := st_Reclaimed st + n\<rparr> else st, db'))"

text \<open>One round of the loop; between the claim and the outcome, other requests reach the table (\<open>others\<close>).\<close>

definition worker_turn ::
  "(string \<Rightarrow> uuid option) \<Rightarrow> WorkerConfig \<Rightarrow> HandlerMap \<Rightarrow> (jobs_db \<Rightarrow> jobs_db) \<Rightarrow> uuid set \<Rightarrow> time \<Rightarrow> readings \<Rightarrow> string
     \<Rightarrow> WorkerStats \<times> jobs_db \<Rightarrow> WorkerStats \<times> jobs_db" where
  "worker_turn scan cfg registry others locked now rd owner = (\<lambda>(st, db).
     case Lease_Execute locked now owner (LeaseDuration cfg) db of
       (Inl e, db') \<Rightarrow> (st, db')
     | (Inr None, db') \<Rightarrow> reclaim (rd_Done rd) (st, others db')
     | (Inr (Some job), db') \<Rightarrow>
         process scan cfg registry rd owner job (st\<lparr>st_Leased := st_Leased st + 1\<rparr>, others db'))"

end
