(* ===== verification/JobsProperties.thy ===== *)
theory JobsProperties
  imports JobsRuns
begin

text \<open>The properties of the job queue.\<close>

section \<open>The table along every history\<close>

text \<open>
  C26. The queue stays coherent: after any history from an empty table, every stored row loads as a
  valid job, the identifiers and the retry keys are unique, and the jobs of every earlier state
  are still there, in order, with the type, version, payload, key, budget and creation instant they
  were queued with.
\<close>
theorem queue_coherent:
  assumes "jsonb_keeps jsonb" "1000 \<le> s" "timeline s (evs @ later) t"
    and "db = jobs_run jsonb scan audit evs (empty_jobs gen)" "db' = jobs_run jsonb scan audit (evs @ later) (empty_jobs gen)"
  shows "(\<forall>r \<in> set (job_rows db'). jobFromRow r = Inr (job_of_row r) \<and> Job_Validate (job_of_row r) = Inr ())
    \<and> distinct (map jr_ID (job_rows db')) \<and> distinct (List.map_filter jr_IdempotencyKey (job_rows db'))
    \<and> map provenance (take (length (job_rows db)) (job_rows db')) = map provenance (job_rows db)"
proof -
  obtain m where m: "timeline s evs m" "timeline m later t"
  proof -
    let ?m = "if evs = [] then s else fst (last evs)"
    have "sorted (s # map fst evs @ map fst later @ [t])" using assms(3) by (simp add: timeline_def)
    then have "timeline s evs ?m \<and> timeline ?m later t"
      by (cases evs rule: rev_cases) (auto simp: timeline_def sorted_append)
    with that show thesis by blast
  qed
  note ok = jobs_run_ok [where scan = scan and audit = audit, OF assms(1) empty_jobs_ok [of s gen, OF assms(2)] m(1), folded assms(4)]
  have db': "db' = jobs_run jsonb scan audit later db" using assms(4,5) by (simp add: jobs_run_def)
  note ok' = jobs_run_ok [where scan = scan and audit = audit, OF assms(1) conjunct1 [OF ok] m(2), folded db']
  have "jobFromRow r = Inr (job_of_row r) \<and> Job_Validate (job_of_row r) = Inr ()" if "r \<in> set (job_rows db')" for r
  proof -
    have "jobFromRow r = Inr (job_of_row r)" using jobFromRow_ok jobs_okD(1) [OF conjunct1 [OF ok'] that] .
    then show ?thesis by (auto simp: jobFromRow_def bind_r_Inr_iff)
  qed
  moreover have "map provenance (take (length (job_rows db)) (job_rows db')) = map provenance (job_rows db)"
  proof -
    from ok' obtain extra where e: "map provenance (job_rows db') = map provenance (job_rows db) @ extra"
      by (auto simp: jobs_extends_def)
    have "map provenance (take (length (job_rows db)) (job_rows db')) = take (length (map provenance (job_rows db))) (map provenance (job_rows db'))"
      by (simp add: take_map)
    then show ?thesis by (simp add: e)
  qed
  ultimately show ?thesis using ok' by (simp add: jobs_ok_def)
qed

section \<open>Leases\<close>

text \<open>The requests by which a holder settles a job.\<close>

fun settles :: "(string \<Rightarrow> uuid option) \<Rightarrow> uuid \<Rightarrow> string \<Rightarrow> jobs_request \<Rightarrow> bool" where
  "settles scan i w (CompleteRq jobID owner) = (scan jobID = Some i \<and> owner = w)"
| "settles scan i w (FailRq jobID owner code detail retryAt) = (scan jobID = Some i \<and> owner = w)"
| "settles scan i w _ = False"

lemma held_row_unique:
  assumes "jobs_ok s db" "r \<in> set (job_rows db)" "holds_lease w r" "held_row (jr_ID r) w' db = Some r'"
  shows "r' = r \<and> w' = w"
  using same_job_row [OF assms(1,2) held_row_Some(1) [OF assms(4)]] held_row_Some(2,3) [OF assms(4)] assms(3)
  by (auto simp: holds_lease_def)

text \<open>A row that no request may take away: not due, its lease not ended, not settled, not retried.\<close>

definition untouched :: "(string \<Rightarrow> uuid option) \<Rightarrow> time \<Rightarrow> AppJob \<Rightarrow> jobs_request \<Rightarrow> bool" where
  "untouched scan now r rq \<longleftrightarrow> \<not> claimable (timestamptz now) r \<and> \<not> lease_ended (timestamptz now) r
     \<and> (\<forall>w. holds_lease w r \<longrightarrow> \<not> settles scan (jr_ID r) w rq)
     \<and> (jr_State r = ''dead'' \<longrightarrow> (\<forall>cmd seen. rq \<noteq> RetryRq cmd seen))"

lemma row_kept:
  assumes "jobs_ok s db" "s \<le> now" "jsonb_keeps jsonb" "r \<in> set (job_rows db)" "untouched scan now r rq"
  shows "r \<in> set (job_rows (jobs_apply jsonb scan audit now rq db))"
proof -
  have t: "1000 \<le> now" using assms(1,2) by (simp add: jobs_ok_def)
  have live: "\<not> claimable (timestamptz now) r" "\<not> lease_ended (timestamptz now) r"
    and settle: "\<And>w. holds_lease w r \<Longrightarrow> \<not> settles scan (jr_ID r) w rq"
    using assms(5) by (auto simp: untouched_def)
  note other = with_row_written(2) [OF assms(1), of _ _ r]
  show ?thesis
  proof (cases rq)
    case (EnqueueRq cmd)
    show ?thesis
    proof (cases "accepted jsonb now cmd")
      case None
      then show ?thesis using Enqueue_Execute_refused [OF None t, of db] EnqueueRq assms(4) by auto
    next
      case (Some a)
      have "snd (enqueue_outcome now cmd a db) = db \<or> adds (timestamptz now) db (snd (enqueue_outcome now cmd a db))"
        using Enqueue_Execute_ok(2) [OF assms(1) t assms(3) Some] .
      then show ?thesis using Enqueue_Execute_ok(1) [OF assms(1) t assms(3) Some] EnqueueRq assms(4) by (auto simp: adds_def)
    qed
  next
    case (LeaseRq locked w' d)
    have "r \<in> set (job_rows (snd (lease_outcome locked now w' until db)))" for until
    proof (cases "claim_order locked (timestamptz now) db")
      case Nil
      then show ?thesis using assms(4) by (simp add: lease_outcome_def)
    next
      case (Cons r' rest)
      note hd = claim_order_hd [OF Cons]
      have "r \<noteq> r'" using hd(2) live(1) by auto
      then show ?thesis using Cons other [OF hd(1) _ assms(4)] assms(4) by (simp add: lease_outcome_def Let_def)
    qed
    then show ?thesis using assms(4) LeaseRq
      by (auto intro: Lease_Execute_cases [OF assms(1,2), of locked w' d])
  next
    case (CompleteRq jobID w')
    have "r \<in> set (job_rows (snd (complete_outcome now i w' db)))" if "scan jobID = Some i" for i
    proof (cases "held_row i w' db")
      case None
      then show ?thesis using assms(4) by (simp add: complete_outcome_def)
    next
      case (Some r')
      have "r \<noteq> r'" using held_row_Some(2,3) [OF Some] settle [of w'] that CompleteRq by auto
      then show ?thesis using Some other [OF held_row_Some(1) [OF Some] _ assms(4)] by (simp add: complete_outcome_def Let_def)
    qed
    then show ?thesis using assms(4) CompleteRq
      by (auto intro: Complete_Execute_cases [OF assms(1,2), of scan jobID w'])
  next
    case (FailRq jobID w' code detail retryAt)
    have "r \<in> set (job_rows (snd (fail_outcome now i w' code detail retry db)))" if "scan jobID = Some i" for i retry
    proof (cases "held_row i w' db")
      case None
      then show ?thesis using assms(4) by (simp add: fail_outcome_def)
    next
      case (Some r')
      have "r \<noteq> r'" using held_row_Some(2,3) [OF Some] settle [of w'] that FailRq by auto
      moreover have "jr_ID (failure_row now code detail retry r') = jr_ID r'" by (simp add: failure_row_def)
      ultimately show ?thesis using Some other [OF held_row_Some(1) [OF Some] _ assms(4)] assms(4)
        by (simp add: fail_outcome_def Let_def)
    qed
    then show ?thesis using assms(4) FailRq
      by (auto intro: Fail_Execute_cases [OF assms(1,2), of scan jobID w' code detail retryAt])
  next
    case RecoverRq
    have "r \<in> set (job_rows (recovered (timestamptz now) db))"
      using assms(4) live(2) by (force simp: recovered_def)
    then show ?thesis using Recover_Execute_ok(1) [OF assms(1,2)] RecoverRq by simp
  next
    case (RetryRq cmd seen)
    show ?thesis
    proof (rule RetryJob_Execute_cases [OF assms(1,2), of scan audit cmd seen "[]"])
      fix job i r'
      assume d: "dead_row i db = Some r'" and x: "RetryJob_Execute scan audit now cmd seen (db, []) =
        (Inr (retry_outcome r'), (with_row (revived (timestamptz now) r') db, [] @ [retried_fact cmd r' now]))"
      have "r \<noteq> r'" using dead_row_Some(3) [OF d] assms(5) RetryRq by (auto simp: untouched_def)
      then show ?thesis using x RetryRq other [OF dead_row_Some(1) [OF d] _ assms(4)] by simp
    qed (use RetryRq assms(4) in simp)
  qed
qed

lemma row_kept_run:
  assumes "jsonb_keeps jsonb"
  shows "jobs_ok s db \<Longrightarrow> timeline s evs t \<Longrightarrow> r \<in> set (job_rows db) \<Longrightarrow>
    list_all (\<lambda>(now, rq). untouched scan now r rq) evs \<Longrightarrow> r \<in> set (job_rows (jobs_run jsonb scan audit evs db))"
proof (induction evs arbitrary: s db)
  case Nil
  then show ?case by simp
next
  case (Cons ev evs)
  obtain now rq where ev: "ev = (now, rq)" by fastforce
  with Cons.prems have tl: "s \<le> now" "timeline now evs t" and u: "untouched scan now r rq" by simp_all
  note kept = row_kept [OF Cons.prems(1) tl(1) assms(1) Cons.prems(3) u, of audit]
  show ?case using Cons.IH [OF conjunct1 [OF jobs_apply_ok [OF Cons.prems(1) tl(1) assms(1), of scan audit rq]] tl(2) kept]
      Cons.prems(4) by (simp add: ev)
qed

lemma untouched_lease:
  assumes "holds_lease w r" "jr_LeasedUntil r = Some u" "timestamptz t < u" "now \<le> t" "\<not> settles scan (jr_ID r) w rq"
  shows "untouched scan now r rq"
  using assms timestamptz_mono [OF assms(4)]
  by (auto simp: untouched_def claimable_def lease_ended_def holds_lease_def)

lemma timeline_before: "timeline s evs t \<Longrightarrow> list_all (\<lambda>(now, _). now \<le> t) evs"
  by (auto simp: timeline_def sorted_append list_all_iff)

text \<open>
  A recorded outcome is final: a job that succeeded stays exactly as it is whatever happens
  afterwards, and so does a dead job as long as no operator asks for a retry.
\<close>
theorem outcome_final:
  assumes "jsonb_keeps jsonb" "jobs_ok s db" "timeline s evs t" "r \<in> set (job_rows db)"
    and "jr_State r = StateSucceeded \<or> jr_State r = StateDead \<and> list_all (\<lambda>(_, rq). \<forall>cmd seen. rq \<noteq> RetryRq cmd seen) evs"
  shows "r \<in> set (job_rows (jobs_run jsonb scan audit evs db))"
proof (rule row_kept_run [OF assms(1-4)])
  have "\<not> claimable u r" "\<not> lease_ended u r" "\<not> holds_lease w r" for u w
    using assms(5) by (auto simp: claimable_def lease_ended_def holds_lease_def vocab)
  then show "list_all (\<lambda>(now, rq). untouched scan now r rq) evs"
    using assms(5) by (auto simp: list_all_iff untouched_def vocab)
qed

text \<open>A claim by a valid owner leaves a good table.\<close>

lemma Lease_leaves:
  assumes "jobs_ok s db" "s \<le> now" "Lease_Execute locked now w d db = (Inr (Some job), db1)"
  obtains "owner_ok w" "pg_text w" "jobs_ok now db1"
proof (rule Lease_Execute_cases [OF assms(1,2), of locked w d])
  assume l: "owner_ok w" "pg_text w" "0 < d" "Lease_Execute locked now w d db = lease_outcome locked now w (now + d) db"
  then have "now \<le> now + d" by simp
  then have "jobs_ok now db1"
    using moves_ok [OF lease_outcome_moves [OF assms(1,2) _ l(1), of "now + d" locked] assms(1,2)] assms(3) l(4) by simp
  with that l show thesis by blast
qed (use assms(3) in simp)

lemma lease_held:
  assumes "jsonb_keeps jsonb" "jobs_ok s db" "s \<le> now" "scan (job_ID job) = Some i" "reads_canonical scan"
    and "Lease_Execute locked now w d db = (Inr (Some job), db1)"
    and "timeline now evs t" "timestamptz t < timestamptz (now + d)" "list_all (\<lambda>(_, rq). \<not> settles scan i w rq) evs"
    and "db2 = jobs_run jsonb scan audit evs db1"
  obtains r where "owner_ok w" "pg_text w" "i = jr_ID r" "job = job_of_row (claimed (timestamptz now) w (timestamptz (now + d)) r)"
    "claimed (timestamptz now) w (timestamptz (now + d)) r \<in> set (job_rows db2)" "jobs_ok t db2" "row_ok s r"
    "claimable (timestamptz now) r"
proof -
  note finish = that
  obtain r where r: "owner_ok w" "pg_text w" "0 < d" "r \<in> set (job_rows db)" "claimable (timestamptz now) r"
    "job = job_of_row (claimed (timestamptz now) w (timestamptz (now + d)) r)"
    "db1 = with_row (claimed (timestamptz now) w (timestamptz (now + d)) r) db"
  proof (rule Lease_Execute_cases [OF assms(2,3), of locked w d])
    assume "owner_ok w" "pg_text w" "0 < d" "Lease_Execute locked now w d db = lease_outcome locked now w (now + d) db"
    with assms(6) that claim_order_hd [of locked "timestamptz now" db] show thesis
      by (auto simp: lease_outcome_def Let_def split: list.splits if_splits)
  qed (use assms(6) in simp)
  let ?row = "claimed (timestamptz now) w (timestamptz (now + d)) r"
  have i: "i = jr_ID r" using assms(4,5) r(6) by (simp add: reads_canonical_def)
  have row: "?row \<in> set (job_rows db1)" using with_row_written(1) [OF assms(2) r(4)] r(7) by simp
  have "now \<le> now + d" using r(3) by simp
  have ok1: "jobs_ok now db1"
    using moves_ok [OF lease_outcome_moves [OF assms(2,3) \<open>now \<le> now + d\<close> r(1), of locked] assms(2,3)] assms(6) r(1)
    by (auto intro: Lease_Execute_cases [OF assms(2,3), of locked w d])
  have held: "holds_lease w ?row" "jr_LeasedUntil ?row = Some (timestamptz (now + d))" by (simp_all add: holds_lease_def)
  have "untouched scan a ?row rq" if "(a, rq) \<in> set evs" for a rq
  proof (rule untouched_lease [OF held assms(8)])
    show "a \<le> t" using timeline_before [OF assms(7)] that by (auto simp: list_all_iff)
    show "\<not> settles scan (jr_ID ?row) w rq" using assms(9) that i by (auto simp: list_all_iff)
  qed
  then have kept: "?row \<in> set (job_rows db2)"
    unfolding assms(10) by (intro row_kept_run [OF assms(1) ok1 assms(7) row]) (auto simp: list_all_iff)
  have ok2: "jobs_ok t db2" using jobs_run_ok [OF assms(1) ok1 assms(7)] assms(10) by simp
  show thesis using finish [of r] r i kept ok2 jobs_okD(1) [OF assms(2) r(4)] by blast
qed

text \<open>
  C28. A lease is exclusive until it ends: once a worker has claimed a job, and as long as it does
  not settle the job itself, no history of other requests (claims, completions and failures by
  other workers, recoveries, operator retries) before the end of the lease lets anybody else claim
  the job, complete it or fail it, and the holder can still complete it.
\<close>
theorem lease_exclusive:
  assumes "jsonb_keeps jsonb" "jobs_ok s db" "s \<le> now" "scan (job_ID job) = Some i" "reads_canonical scan"
    and "Lease_Execute locked now w d db = (Inr (Some job), db1)"
    and "timeline now evs t" "timestamptz t < timestamptz (now + d)" "list_all (\<lambda>(_, rq). \<not> settles scan i w rq) evs"
    and "db2 = jobs_run jsonb scan audit evs db1"
  shows "(\<forall>locked' w' d' job'. fst (Lease_Execute locked' t w' d' db2) = Inr (Some job') \<longrightarrow> job_ID job' \<noteq> job_ID job)
    \<and> (\<forall>w'. w' \<noteq> w \<longrightarrow> (\<exists>e. Complete_Execute scan t (job_ID job) w' db2 = (Inl e, db2))
        \<and> (\<forall>code detail retryAt. \<exists>e. Fail_Execute scan t (job_ID job) w' code detail retryAt db2 = (Inl e, db2)))
    \<and> (\<exists>done db3. Complete_Execute scan t (job_ID job) w db2 = (Inr done, db3)
        \<and> job_ID done = job_ID job \<and> job_State done = StateSucceeded)"
proof -
  obtain r where r: "owner_ok w" "pg_text w" and i: "i = jr_ID r"
    and job: "job = job_of_row (claimed (timestamptz now) w (timestamptz (now + d)) r)"
    and kept: "claimed (timestamptz now) w (timestamptz (now + d)) r \<in> set (job_rows db2)" and ok2: "jobs_ok t db2"
    by (rule lease_held [OF assms])
  let ?row = "claimed (timestamptz now) w (timestamptz (now + d)) r"
  have held: "holds_lease w ?row" by (simp add: holds_lease_def)
  have c1: "job_ID job' \<noteq> job_ID job" if l: "fst (Lease_Execute locked' t w' d' db2) = Inr (Some job')" for locked' w' d' job'
  proof (rule Lease_Execute_cases [OF ok2 order.refl, of locked' w' d'])
    assume "Lease_Execute locked' t w' d' db2 = lease_outcome locked' t w' (t + d') db2"
    with l obtain r' rest where co: "claim_order locked' (timestamptz t) db2 = r' # rest" and j: "job_ID job' = uuidToString (Some (jr_ID r'))"
      by (auto simp: lease_outcome_def Let_def split: list.splits if_splits)
    note hd = claim_order_hd [OF co]
    have "\<not> claimable (timestamptz t) ?row" using assms(8) by (simp add: claimable_def)
    then have "jr_ID r' \<noteq> jr_ID r" using same_job_row [OF ok2 hd(1) kept] hd(2) by auto
    then show "job_ID job' \<noteq> job_ID job" using j job uuidToString_inj by auto
  qed (use l in simp_all)
  have none: "held_row i w' db2 = None" if "w' \<noteq> w" for w'
    using held_row_unique [OF ok2 kept held, of w'] that i by (cases "held_row i w' db2") auto
  have c2: "\<exists>e. Complete_Execute scan t (job_ID job) w' db2 = (Inl e, db2)" if "w' \<noteq> w" for w'
    by (rule Complete_Execute_cases [OF ok2 order.refl, of scan "job_ID job" w'])
      (use none [OF that] assms(4) in \<open>auto simp: complete_outcome_def\<close>)
  have c3: "\<exists>e. Fail_Execute scan t (job_ID job) w' code detail retryAt db2 = (Inl e, db2)" if "w' \<noteq> w" for w' code detail retryAt
    by (rule Fail_Execute_cases [OF ok2 order.refl, of scan "job_ID job" w' code detail retryAt])
      (use none [OF that] assms(4) in \<open>auto simp: fail_outcome_def\<close>)
  obtain r' where r': "held_row i w db2 = Some r'" using held_row_None [of i w db2] kept held i
    by (cases "held_row i w db2") auto
  have "jr_ID r' = jr_ID r" using held_row_Some(2) [OF r'] i by simp
  then have "\<exists>done db3. Complete_Execute scan t (job_ID job) w db2 = (Inr done, db3)
      \<and> job_ID done = job_ID job \<and> job_State done = StateSucceeded"
    using Complete_Execute_ok [where scan = scan, OF ok2 order.refl r(1,2) assms(4)] r' job
    by (simp add: complete_outcome_def Let_def vocab)
  with c1 c2 c3 show ?thesis by blast
qed

end
