(* ===== verification/JobsOutcomes.thy ===== *)
theory JobsOutcomes
  imports JobsProperties
begin

text \<open>
  What one request of the queue does: the job a claim takes, the attempt budget, the refinement of
  the lifecycle, the retry key, and the operator's retry.
\<close>

section \<open>Claims\<close>

text \<open>The due rows nobody has locked, and the first of them in the order of the claim.\<close>

definition due :: "uuid set \<Rightarrow> time \<Rightarrow> jobs_db \<Rightarrow> AppJob set" where
  "due locked now db = {r \<in> set (job_rows db). jr_ID r \<notin> locked \<and>
     (jr_State r = StateQueued \<and> jr_AvailableAt r \<le> timestamptz now
      \<or> jr_State r = StateLeased \<and> (\<exists>u. jr_LeasedUntil r = Some u \<and> u \<le> timestamptz now))}"

definition first_due :: "uuid set \<Rightarrow> time \<Rightarrow> jobs_db \<Rightarrow> AppJob \<Rightarrow> bool" where
  "first_due locked now db r \<longleftrightarrow> r \<in> due locked now db \<and> (\<forall>q \<in> due locked now db.
     jr_AvailableAt r < jr_AvailableAt q \<or> jr_AvailableAt r = jr_AvailableAt q \<and> jr_ID r \<le> jr_ID q)"

lemma set_claim_order: "set (claim_order locked (timestamptz now) db) = due locked now db"
  by (auto simp: claim_order_def due_def claimable_def vocab split: option.splits)

lemma first_due_hd:
  assumes "jobs_ok s db" "first_due locked now db r"
  obtains rest where "claim_order locked (timestamptz now) db = r # rest"
proof -
  let ?c = "claim_order locked (timestamptz now) db"
  have mem: "r \<in> set ?c" using assms(2) by (simp add: set_claim_order first_due_def)
  then obtain q rest where c: "?c = q # rest" by (cases ?c) auto
  have "sorted (map claim_key ?c)" by (simp add: claim_order_def)
  then have "claim_key q \<le> claim_key r" using mem c by auto
  moreover have "q \<in> due locked now db" using c set_claim_order [of locked now db] by auto
  ultimately have "jr_ID q = jr_ID r" using assms(2)
    by (auto simp: first_due_def claim_key_def less_eq_keyset_def)
  then have "q = r" using same_job_row [OF assms(1)] assms(2) \<open>q \<in> due locked now db\<close> by (auto simp: first_due_def due_def)
  with c show thesis using that by simp
qed

text \<open>
  A claim takes the right job: with nothing due it reports that; otherwise it takes the due job
  that has been available longest (the smaller identifier among equals), marks it leased by the
  caller up to the end of the window, counts the attempt, and changes no other row.
\<close>
theorem Lease_exact:
  assumes "jobs_ok s db" "s \<le> now" "owner_ok w" "pg_text w" "0 < d" "d \<le> MaxLeaseDuration"
  shows "(due locked now db = {} \<longrightarrow> Lease_Execute locked now w d db = (Inr None, db))
    \<and> (\<forall>r. first_due locked now db r \<and> jr_Attempts r < jr_MaxAttempts r \<longrightarrow>
        (\<exists>job db'. Lease_Execute locked now w d db = (Inr (Some job), db')
          \<and> job = (job_of_row r)\<lparr>job_State := StateLeased, job_LeaseOwner := w, job_LeasedUntil := timestamptz (now + d),
              job_Attempts := jr_Attempts r + 1, job_UpdatedAt := timestamptz now\<rparr>
          \<and> (\<exists>row. job_of_row row = job \<and> set (job_rows db') = insert row (set (job_rows db) - {r}))))"
proof (intro conjI impI allI)
  note lease = Lease_Execute_ok [OF assms, of locked]
  show "Lease_Execute locked now w d db = (Inr None, db)" if "due locked now db = {}"
    using that set_claim_order [of locked now db] by (simp add: lease lease_outcome_def)
  fix r
  assume r: "first_due locked now db r \<and> jr_Attempts r < jr_MaxAttempts r"
  then obtain rest where c: "claim_order locked (timestamptz now) db = r # rest" using first_due_hd [OF assms(1)] by blast
  let ?row = "claimed (timestamptz now) w (timestamptz (now + d)) r"
  have "job_of_row ?row = (job_of_row r)\<lparr>job_State := StateLeased, job_LeaseOwner := w, job_LeasedUntil := timestamptz (now + d),
      job_Attempts := jr_Attempts r + 1, job_UpdatedAt := timestamptz now\<rparr>"
    by (simp add: job_of_row_def vocab)
  moreover have "set (job_rows (with_row ?row db)) = insert ?row (set (job_rows db) - {r})"
    using with_row_set [OF assms(1) claim_order_hd(1) [OF c], of ?row] by simp
  moreover have "Lease_Execute locked now w d db = (Inr (Some (job_of_row ?row)), with_row ?row db)"
    using r c by (simp add: lease lease_outcome_def Let_def)
  ultimately show "\<exists>job db'. Lease_Execute locked now w d db = (Inr (Some job), db')
      \<and> job = (job_of_row r)\<lparr>job_State := StateLeased, job_LeaseOwner := w, job_LeasedUntil := timestamptz (now + d),
          job_Attempts := jr_Attempts r + 1, job_UpdatedAt := timestamptz now\<rparr>
      \<and> (\<exists>row. job_of_row row = job \<and> set (job_rows db') = insert row (set (job_rows db) - {r}))"
    by blast
qed

section \<open>The attempt budget\<close>

text \<open>
  A recorded failure spends the budget: while attempts are left the job goes back to the queue
  at the retry instant, and with the last attempt it becomes dead and keeps its due instant; in
  both cases it loses its lease, keeps its attempts and carries the code with the redacted detail,
  and no other row changes.
\<close>
theorem Fail_exact:
  assumes "jobs_ok s db" "s \<le> now" "r \<in> set (job_rows db)" "jr_State r = StateLeased" "jr_LeaseOwner r = Some w" "pg_text w"
    and "scan jobID = Some (jr_ID r)" "FailureCode_IsValid code" "\<not> time_IsZero retry"
  shows "\<exists>job db'. Fail_Execute scan now jobID w code detail (Some retry) db = (Inr job, db')
    \<and> job = (job_of_row r)\<lparr>job_State := (if jr_Attempts r = jr_MaxAttempts r then StateDead else StateQueued),
        job_AvailableAt := (if jr_Attempts r = jr_MaxAttempts r then jr_AvailableAt r else timestamptz retry),
        job_LeaseOwner := [], job_LeasedUntil := 0, job_LastErrorCode := code,
        job_LastErrorDetail := SanitizeDetail detail, job_UpdatedAt := timestamptz now\<rparr>
    \<and> (\<exists>row. job_of_row row = job \<and> set (job_rows db') = insert row (set (job_rows db) - {r}))"
proof -
  have h: "holds_lease w r" using assms(4,5) by (simp add: holds_lease_def vocab)
  obtain r' where "held_row (jr_ID r) w db = Some r'"
    using held_row_None [of "jr_ID r" w db] assms(3) h by (cases "held_row (jr_ID r) w db") auto
  then have held: "held_row (jr_ID r) w db = Some r" using held_row_unique [OF assms(1,3) h] by blast
  have "owner_ok w"
    using jobs_okD(3) [OF assms(1,3)] assms(5) by (cases "jr_LeasedUntil r") (simp_all add: row_more_def)
  note fail = Fail_Execute_ok [where scan = scan and retryAt = "Some retry" and detail = detail, OF assms(1,2) this assms(6-8) refl]
  let ?row = "failure_row now code detail retry r"
  have "job_of_row ?row = (job_of_row r)\<lparr>job_State := (if jr_Attempts r = jr_MaxAttempts r then StateDead else StateQueued),
        job_AvailableAt := (if jr_Attempts r = jr_MaxAttempts r then jr_AvailableAt r else timestamptz retry),
        job_LeaseOwner := [], job_LeasedUntil := 0, job_LastErrorCode := code,
        job_LastErrorDetail := SanitizeDetail detail, job_UpdatedAt := timestamptz now\<rparr>"
    by (simp add: job_of_row_def failure_row_def vocab)
  moreover have "set (job_rows (with_row ?row db)) = insert ?row (set (job_rows db) - {r})"
    using with_row_set [OF assms(1,3), of ?row] by (simp add: failure_row_def)
  moreover have "Fail_Execute scan now jobID w code detail (Some retry) db = (Inr (job_of_row ?row), with_row ?row db)"
    using fail held assms(9) by (simp add: fail_outcome_def Let_def)
  ultimately show ?thesis by blast
qed

section \<open>The lifecycle as an abstract machine\<close>

datatype job_phase = Waiting | Running | Succeeded | Dead

definition phase :: "AppJob \<Rightarrow> job_phase" where
  "phase r = (if jr_State r = StateQueued then Waiting else if jr_State r = StateLeased then Running
     else if jr_State r = StateSucceeded then Succeeded else Dead)"

definition abs_job :: "AppJob \<Rightarrow> job_phase \<times> int" where
  "abs_job r = (phase r, jr_Attempts r)"

text \<open>The contract of one job with the budget \<open>m\<close>: its phase and the attempts it has used.\<close>

inductive lifecycle :: "int \<Rightarrow> job_phase \<times> int \<Rightarrow> job_phase \<times> int \<Rightarrow> bool" for m where
  start: "a < m \<Longrightarrow> lifecycle m (Waiting, a) (Running, a + 1)"
| take_over: "a < m \<Longrightarrow> lifecycle m (Running, a) (Running, a + 1)"
| succeed: "lifecycle m (Running, a) (Succeeded, a)"
| give_back: "lifecycle m (Running, a) (Waiting, a)"
| bury: "lifecycle m (Running, m) (Dead, m)"
| retry: "lifecycle m (Dead, a) (Waiting, 0)"

lemma job_step_lifecycle:
  assumes "job_step t r r'"
  shows "lifecycle (jr_MaxAttempts r) (abs_job r) (abs_job r')"
  using assms
proof (cases rule: job_step.cases)
  case (claim w u)
  then show ?thesis
    by (auto simp: abs_job_def phase_def claimable_def vocab intro: lifecycle.start lifecycle.take_over)
next
  case (complete w)
  then show ?thesis by (simp add: abs_job_def phase_def holds_lease_def vocab lifecycle.succeed)
next
  case (fail_again w code detail a)
  then show ?thesis by (simp add: abs_job_def phase_def holds_lease_def vocab lifecycle.give_back)
next
  case (fail_dead w code detail)
  then show ?thesis using lifecycle.bury [of "jr_MaxAttempts r"]
    by (simp add: abs_job_def phase_def holds_lease_def vocab)
next
  case release
  then show ?thesis by (simp add: abs_job_def phase_def lease_ended_def vocab lifecycle.give_back)
next
  case revive
  then show ?thesis by (simp add: abs_job_def phase_def vocab lifecycle.retry)
qed

definition follows_lifecycle :: "AppJob \<Rightarrow> AppJob \<Rightarrow> bool" where
  "follows_lifecycle r r' \<longleftrightarrow> provenance r' = provenance r \<and> (lifecycle (jr_MaxAttempts r))\<^sup>*\<^sup>* (abs_job r) (abs_job r')"

lemma follows_trans: "follows_lifecycle p q \<Longrightarrow> follows_lifecycle q r \<Longrightarrow> follows_lifecycle p r"
  by (auto simp: follows_lifecycle_def provenance_def)

definition born :: "AppJob \<Rightarrow> bool" where
  "born r \<longleftrightarrow> (lifecycle (jr_MaxAttempts r))\<^sup>*\<^sup>* (Waiting, 0) (abs_job r)"

lemma born_follows: "born q \<Longrightarrow> follows_lifecycle q r \<Longrightarrow> born r"
  by (auto simp: born_def follows_lifecycle_def provenance_def)

definition refines :: "AppJob list \<Rightarrow> AppJob list \<Rightarrow> bool" where
  "refines rows rows' \<longleftrightarrow> (\<exists>old new. rows' = old @ new \<and> list_all2 follows_lifecycle rows old \<and> list_all born new)"

lemma refinesI: "rows' = old @ new \<Longrightarrow> list_all2 follows_lifecycle rows old \<Longrightarrow> list_all born new \<Longrightarrow> refines rows rows'"
  unfolding refines_def by blast

lemma refines_trans:
  assumes "refines xs ys" "refines ys zs"
  shows "refines xs zs"
proof -
  from assms obtain old new old' new' where y: "ys = old @ new" "list_all2 follows_lifecycle xs old" "list_all born new"
    and z: "zs = old' @ new'" "list_all2 follows_lifecycle ys old'" "list_all born new'" by (auto simp: refines_def)
  from z(2) y(1) obtain o1 o2 where o: "old' = o1 @ o2" "list_all2 follows_lifecycle old o1" "list_all2 follows_lifecycle new o2"
    by (auto simp: list_all2_append1)
  have "list_all2 follows_lifecycle xs o1" by (rule list_all2_trans [OF follows_trans y(2) o(2)])
  moreover have "list_all born o2" using o(3) y(3)
    by (induction rule: list_all2_induct) (auto intro: born_follows)
  ultimately show ?thesis using z(1,3) o(1) by (intro refinesI [of zs o1 "o2 @ new'"]) simp_all
qed

lemma moves_refines: "moves t db db' \<Longrightarrow> refines (job_rows db) (job_rows db')"
proof -
  assume "moves t db db'"
  then obtain f where f: "job_rows db' = map f (job_rows db)"
    "\<forall>r \<in> set (job_rows db). f r = r \<or> job_step t r (f r) \<and> jobs_checks (f r)" by (auto simp: moves_def)
  have "follows_lifecycle r (f r)" if "r \<in> set (job_rows db)" for r
    using f(2) that job_step_lifecycle [of t r "f r"] job_step_provenance [of t r "f r"]
    by (auto simp: follows_lifecycle_def)
  then have "list_all2 follows_lifecycle (job_rows db) (map f (job_rows db))"
    by (simp add: list_all2_conv_all_nth)
  then show ?thesis by (intro refinesI [where new = "[]"]) (simp_all add: f(1))
qed

lemma follows_refl [simp]: "follows_lifecycle r r"
  by (simp add: follows_lifecycle_def)

lemma adds_refines: "adds t db db' \<Longrightarrow> refines (job_rows db) (job_rows db')"
proof -
  assume "adds t db db'"
  then obtain row where "job_rows db' = job_rows db @ [row]" "fresh_row t row" by (auto simp: adds_def)
  moreover have "list_all2 follows_lifecycle (job_rows db) (job_rows db)" by (rule list_all2_refl) simp
  moreover have "born row" using \<open>fresh_row t row\<close> by (simp add: born_def abs_job_def phase_def fresh_row_def vocab)
  ultimately show ?thesis by (intro refinesI [where new = "[row]"]) simp_all
qed

lemma jobs_run_refines:
  assumes "jsonb_keeps jsonb"
  shows "jobs_ok s db \<Longrightarrow> timeline s evs t \<Longrightarrow> refines (job_rows db) (job_rows (jobs_run jsonb scan audit evs db))"
proof (induction evs arbitrary: s db)
  case Nil
  show ?case using moves_refines [OF moves_refl, of db] by simp
next
  case (Cons ev evs)
  obtain now rq where ev: "ev = (now, rq)" by fastforce
  with Cons.prems have tl: "s \<le> now" "timeline now evs t" by simp_all
  have "refines (job_rows db) (job_rows (jobs_apply jsonb scan audit now rq db))"
    using jobs_apply_change [OF Cons.prems(1) tl(1) assms] moves_refines adds_refines by blast
  moreover have "jobs_ok now (jobs_apply jsonb scan audit now rq db)"
    using jobs_apply_ok [OF Cons.prems(1) tl(1) assms] by blast
  ultimately show ?case using Cons.IH [OF _ tl(2)] refines_trans unfolding ev jobs_run_simps by blast
qed

text \<open>
  C27. The queue refines the lifecycle of its jobs: along every history each job keeps its identity
  and moves only by the abstract machine (claimed within its budget, taken over when a lease has
  ended, succeeded, given back, dead exactly with the whole budget spent, retried from dead), no
  job disappears, and every new job starts waiting with no attempt used.
\<close>
theorem queue_refines_lifecycle:
  assumes "jsonb_keeps jsonb" "jobs_ok s db" "timeline s evs t"
  shows "\<exists>old new. job_rows (jobs_run jsonb scan audit evs db) = old @ new
    \<and> list_all2 (\<lambda>r r'. provenance r' = provenance r \<and> (lifecycle (jr_MaxAttempts r))\<^sup>*\<^sup>* (abs_job r) (abs_job r')) (job_rows db) old
    \<and> list_all (\<lambda>r. (lifecycle (jr_MaxAttempts r))\<^sup>*\<^sup>* (Waiting, 0) (abs_job r)) new"
  using jobs_run_refines [OF assms]
  unfolding refines_def follows_lifecycle_def [abs_def] born_def [abs_def] .

section \<open>Retry keys\<close>

lemma find_provenance:
  "map_option provenance (find (\<lambda>r. jr_IdempotencyKey r = Some k) rows)
   = find (\<lambda>p. fst (snd (snd (snd (snd p)))) = Some k) (map provenance rows)"
  by (induction rows) (simp_all add: provenance_def)

lemma find_append: "find P (xs @ ys) = (case find P xs of None \<Rightarrow> find P ys | Some x \<Rightarrow> Some x)"
  by (induction xs) auto

lemma keyed_row_later:
  assumes "keyed_row k db = Some r" "jobs_extends db db'"
  obtains r' where "keyed_row k db' = Some r'" "provenance r' = provenance r"
proof -
  from assms(1) have k: "k \<noteq> []" "find (\<lambda>r. jr_IdempotencyKey r = Some k) (job_rows db) = Some r"
    by (auto simp: keyed_row_def split: if_splits)
  from assms(2) obtain extra where "map provenance (job_rows db') = map provenance (job_rows db) @ extra"
    by (auto simp: jobs_extends_def)
  then have "map_option provenance (find (\<lambda>r. jr_IdempotencyKey r = Some k) (job_rows db')) = Some (provenance r)"
    using k(2) find_provenance [of k "job_rows db", symmetric] by (simp add: find_provenance find_append)
  with k(1) that show thesis by (auto simp: keyed_row_def)
qed

text \<open>
  A retry key queues one job: after an enqueue with a key has succeeded, and whatever happens to
  the queue in between, every later acceptable enqueue with that key (with whatever payload) changes
  nothing and returns the job of the first one, marked as a replay.
\<close>
theorem enqueue_once:
  assumes "jsonb_keeps jsonb" "jobs_ok s db" "s \<le> now" "enq_IdempotencyKey cmd \<noteq> []"
    and "Enqueue_Execute jsonb now cmd db = (Inr (job, replayed), db1)"
    and "timeline now evs t" "db2 = jobs_run jsonb scan audit evs db1"
    and "enq_IdempotencyKey cmd' = enq_IdempotencyKey cmd" "accepted jsonb t cmd' = Some a"
  shows "\<exists>job'. Enqueue_Execute jsonb t cmd' db2 = (Inr (job', True), db2)
    \<and> job_ID job' = job_ID job \<and> job_Type job' = job_Type job \<and> job_Version job' = job_Version job
    \<and> job_Payload job' = job_Payload job \<and> job_IdempotencyKey job' = job_IdempotencyKey job
    \<and> job_MaxAttempts job' = job_MaxAttempts job \<and> job_CreatedAt job' = job_CreatedAt job"
proof -
  have n: "1000 \<le> now" using assms(2,3) by (simp add: jobs_ok_def)
  obtain b where b: "accepted jsonb now cmd = Some b"
    using Enqueue_Execute_refused [of jsonb now cmd db] n assms(5) by (cases "accepted jsonb now cmd") auto
  note en = Enqueue_Execute_ok [OF assms(2) n assms(1) b]
  let ?k = "enq_IdempotencyKey cmd"
  have r: "\<exists>r. keyed_row ?k db1 = Some r \<and> job = job_of_row r"
  proof (cases "keyed_row ?k db")
    case (Some r)
    then show ?thesis using en(1) assms(5) by (auto simp: enqueue_outcome_def Let_def split: prod.splits)
  next
    case None
    obtain m stored available where bb: "b = (m, stored, available)" by (cases b)
    let ?row = "new_row stored now cmd available m db"
    have "job = job_of_row ?row" "job_rows db1 = job_rows db @ [?row]"
      using en(1) assms(5) None bb by (auto simp: enqueue_outcome_def Let_def split: if_splits)
    moreover have "jr_IdempotencyKey ?row = Some ?k" using assms(4) by (simp add: new_row_def pgTextOrNull_def)
    moreover have "find (\<lambda>r. jr_IdempotencyKey r = Some ?k) (job_rows db) = None" using None assms(4) by (simp add: keyed_row_def)
    ultimately show ?thesis using assms(4) by (simp add: keyed_row_def find_append del: find_key_None)
  qed
  then obtain r where r: "keyed_row ?k db1 = Some r" "job = job_of_row r" by blast
  have ok1: "jobs_ok now db1"
    using jobs_apply_ok [OF assms(2,3,1), of scan audit "EnqueueRq cmd"] assms(5) by simp
  note run = jobs_run_ok [OF assms(1) ok1 assms(6), of scan audit, folded assms(7)]
  obtain r' where r': "keyed_row ?k db2 = Some r'" "provenance r' = provenance r"
    using keyed_row_later [OF r(1) conjunct2 [OF run]] by blast
  have t: "1000 \<le> t" using run by (simp add: jobs_ok_def)
  have "Enqueue_Execute jsonb t cmd' db2 = (Inr (job_of_row r', True), db2)"
    using Enqueue_Execute_ok(1) [OF conjunct1 [OF run] t assms(1,9)] r'(1) assms(8)
    by (cases a) (simp add: enqueue_outcome_def Let_def)
  then show ?thesis using r'(2) r(2) by (simp add: provenance_def)
qed

section \<open>The operator's retry\<close>

text \<open>
  A retry is authorised, allow-listed and audited: it either fails and changes neither the
  queue nor the trail, or the caller authenticated at most 15 minutes ago, gave an identity and a
  reason of at most 200 bytes, the job was dead and its type retryable, exactly that row goes back
  to the queue with its attempts reset and its error cleared, and the trail gains exactly one fact,
  which names the actor, the job, the reason and the transition.
\<close>
theorem retry_audited:
  assumes "jobs_ok s db" "s \<le> now"
  shows "(\<exists>e. RetryJob_Execute scan audit now cmd seen (db, trail) = (Inl e, (db, trail)))
    \<or> (\<exists>r row db' fact. RetryJob_Execute scan audit now cmd seen (db, trail) = (Inr (retry_outcome r), (db', trail @ [fact]))
      \<and> 0 < retry_SessionAge cmd \<and> retry_SessionAge cmd \<le> 15 * 60 * ns_per_sec
      \<and> TrimSpace (retry_Actor cmd) \<noteq> [] \<and> TrimSpace (retry_Reason cmd) \<noteq> [] \<and> length (TrimSpace (retry_Reason cmd)) \<le> 200
      \<and> r \<in> set (job_rows db) \<and> jr_State r = StateDead
      \<and> row = r\<lparr>jr_State := StateQueued, jr_Attempts := 0, jr_AvailableAt := timestamptz now, jr_LeaseOwner := None,
          jr_LeasedUntil := None, jr_LastErrorCode := None, jr_LastErrorDetail := None, jr_UpdatedAt := timestamptz now\<rparr>
      \<and> set (job_rows db') = insert row (set (job_rows db) - {r})
      \<and> fact_Actor fact = retry_Actor cmd \<and> fact_Action fact = ActionRetryDeadJob
      \<and> fact_TargetID fact = uuidToString (Some (jr_ID r)) \<and> fact_Reason fact = retry_Reason cmd
      \<and> fact_Metadata fact = [(''previous_status'', StateDead), (''new_status'', StateQueued),
          (''reference'', uuidToString (Some (jr_ID r)))] \<and> fact_OccurredAt fact = now)"
proof (rule RetryJob_Execute_cases [OF assms, of scan audit cmd seen trail])
  fix job i r
  assume x: "authorizeRetry cmd = Inr ()" "dead_row i db = Some r"
    "RetryJob_Execute scan audit now cmd seen (db, trail) =
      (Inr (retry_outcome r), (with_row (revived (timestamptz now) r) db, trail @ [retried_fact cmd r now]))"
  note d = dead_row_Some [OF x(2)]
  let ?row = "revived (timestamptz now) r"
  have auth: "0 < retry_SessionAge cmd" "retry_SessionAge cmd \<le> 15 * 60 * ns_per_sec" "TrimSpace (retry_Actor cmd) \<noteq> []"
    "TrimSpace (retry_Reason cmd) \<noteq> []" "length (TrimSpace (retry_Reason cmd)) \<le> 200"
    using x(1) by (auto simp: authorizeRetry_def bind_r_Inr_iff ValidateReason_def StepUpSatisfied_def StepUpWindow_def
        validActor_def Let_def split: if_splits)
  have row: "?row = r\<lparr>jr_State := StateQueued, jr_Attempts := 0, jr_AvailableAt := timestamptz now, jr_LeaseOwner := None,
      jr_LeasedUntil := None, jr_LastErrorCode := None, jr_LastErrorDetail := None, jr_UpdatedAt := timestamptz now\<rparr>"
    by (simp add: revived_def vocab)
  have set: "set (job_rows (with_row ?row db)) = insert ?row (set (job_rows db) - {r})"
    by (rule with_row_set [OF assms(1) d(1)]) simp
  have fact: "fact_Actor (retried_fact cmd r now) = retry_Actor cmd" "fact_Action (retried_fact cmd r now) = ActionRetryDeadJob"
    "fact_TargetID (retried_fact cmd r now) = uuidToString (Some (jr_ID r))" "fact_Reason (retried_fact cmd r now) = retry_Reason cmd"
    "fact_Metadata (retried_fact cmd r now) = [(''previous_status'', StateDead), (''new_status'', StateQueued),
        (''reference'', uuidToString (Some (jr_ID r)))]" "fact_OccurredAt (retried_fact cmd r now) = now"
    by (simp_all add: retried_fact_def retry_fact_def dead_job_of_row_def)
  have dead: "jr_State r = StateDead" using d(3) by (simp add: vocab)
  show ?thesis
    by (rule disjI2, intro exI conjI) (rule x(3) auth d(1) dead row set fact)+
qed blast

end
