(* ===== verification/JobsBlocking.thy ===== *)
theory JobsBlocking
  imports JobsOutcomes
begin

text \<open>
  The defect the model shows in the claim statement: a job whose last attempt ended without a
  recorded outcome (its worker died) is due again with its whole budget spent, the claim picks it
  first, the increment of its attempts violates the table's check, and the claim fails.
\<close>

text \<open>A live job that is due, has spent its budget and precedes every other live job.\<close>

definition blocked :: "time \<Rightarrow> jobs_db \<Rightarrow> bool" where
  "blocked now db \<longleftrightarrow> (\<exists>r \<in> set (job_rows db). claimable (timestamptz now) r \<and> jr_Attempts r = jr_MaxAttempts r
     \<and> (\<forall>q \<in> set (job_rows db). jr_State q = ''queued'' \<or> jr_State q = ''leased'' \<longrightarrow> claim_key r \<le> claim_key q))"

lemma claimable_mono: "claimable s r \<Longrightarrow> s \<le> t \<Longrightarrow> claimable t r"
  by (auto simp: claimable_def split: option.splits)

lemma blocked_mono: "blocked s db \<Longrightarrow> s \<le> t \<Longrightarrow> blocked t db"
  using claimable_mono [OF _ timestamptz_mono] by (auto simp: blocked_def)

lemma blocked_lease:
  assumes "jobs_ok s db" "s \<le> now" "blocked now db"
  shows "\<exists>res. Lease_Execute {} now w d db = (res, db) \<and> (\<forall>job. res \<noteq> Inr (Some job))"
proof -
  from assms(3) obtain r where r: "r \<in> set (job_rows db)" "claimable (timestamptz now) r" "jr_Attempts r = jr_MaxAttempts r"
    and least: "\<forall>q \<in> set (job_rows db). jr_State q = ''queued'' \<or> jr_State q = ''leased'' \<longrightarrow> claim_key r \<le> claim_key q"
    by (auto simp: blocked_def)
  have "first_due {} now db r"
  proof -
    have "r \<in> due {} now db" using r(1,2) by (auto simp: due_def claimable_def vocab split: option.splits)
    moreover have "claim_key r \<le> claim_key q" if "q \<in> due {} now db" for q
      using that least by (auto simp: due_def vocab)
    ultimately show ?thesis by (auto simp: first_due_def claim_key_def less_eq_keyset_def)
  qed
  then obtain rest where "claim_order {} (timestamptz now) db = r # rest" using first_due_hd [OF assms(1)] by blast
  then have "lease_outcome {} now w (now + d) db =
      (Inl (JobDatabase (if in_int32 (jr_Attempts r + 1) then CheckViolation else NumericOutOfRange)), db)"
    using r(3) by (simp add: lease_outcome_def)
  then show ?thesis
    by (metis (no_types, lifting) Lease_Execute_cases [OF assms(1,2)] Inl_Inr_False prod.collapse)
qed

lemma blocked_recover:
  assumes "jobs_ok s db" "s \<le> now" "blocked now db"
  shows "blocked now (recovered (timestamptz now) db)"
proof -
  let ?f = "\<lambda>r. if lease_ended (timestamptz now) r then released (timestamptz now) r else r"
  from assms(3) obtain r where r: "r \<in> set (job_rows db)" "claimable (timestamptz now) r" "jr_Attempts r = jr_MaxAttempts r"
    and least: "\<forall>q \<in> set (job_rows db). jr_State q = ''queued'' \<or> jr_State q = ''leased'' \<longrightarrow> claim_key r \<le> claim_key q"
    by (auto simp: blocked_def)
  have key: "claim_key (?f q) = claim_key q" for q by (simp add: claim_key_def)
  have "claimable (timestamptz now) (?f r)"
  proof (cases "lease_ended (timestamptz now) r")
    case True
    then have "jr_AvailableAt r \<le> timestamptz now"
      using jobs_okD(3) [OF assms(1) r(1)] timestamptz_mono [OF assms(2)] by (simp add: row_more_def lease_ended_def)
    with True show ?thesis by (simp add: claimable_def)
  qed (use r(2) in simp)
  moreover have "jr_Attempts (?f r) = jr_MaxAttempts (?f r)" using r(3) by simp
  moreover have "claim_key (?f r) \<le> claim_key q'"
    if q': "q' \<in> set (job_rows (recovered (timestamptz now) db))" "jr_State q' = ''queued'' \<or> jr_State q' = ''leased''" for q'
  proof -
    from q'(1) obtain q where q: "q \<in> set (job_rows db)" "q' = ?f q" by (auto simp: recovered_def)
    have "jr_State q = ''queued'' \<or> jr_State q = ''leased''"
    proof (cases "lease_ended (timestamptz now) q")
      case True
      then show ?thesis by (simp add: lease_ended_def)
    next
      case False
      with q(2) q'(2) show ?thesis by simp
    qed
    then show ?thesis using least q(1) by (simp only: q(2) key)
  qed
  moreover have "?f r \<in> set (job_rows (recovered (timestamptz now) db))" using r(1) by (simp add: recovered_def)
  ultimately show ?thesis unfolding blocked_def by blast
qed

text \<open>The requests an idle pool of workers makes.\<close>

fun polls :: "jobs_request \<Rightarrow> bool" where
  "polls (LeaseRq locked w d) = (locked = {})"
| "polls RecoverRq = True"
| "polls _ = False"

lemma blocked_run:
  assumes "jsonb_keeps jsonb"
  shows "jobs_ok s db \<Longrightarrow> timeline s evs t \<Longrightarrow> blocked s db \<Longrightarrow> list_all (\<lambda>(_, rq). polls rq) evs \<Longrightarrow>
    blocked t (jobs_run jsonb scan audit evs db)"
proof (induction evs arbitrary: s db)
  case Nil
  then show ?case by (auto intro: blocked_mono)
next
  case (Cons ev evs)
  obtain now rq where ev: "ev = (now, rq)" by fastforce
  with Cons.prems have tl: "s \<le> now" "timeline now evs t" and p: "polls rq" by simp_all
  note b = blocked_mono [OF Cons.prems(3) tl(1)]
  have "blocked now (jobs_apply jsonb scan audit now rq db)"
  proof (cases rq)
    case (LeaseRq locked w d)
    then show ?thesis using blocked_lease [OF Cons.prems(1) tl(1) b, of w d] b p by auto
  next
    case RecoverRq
    then show ?thesis using blocked_recover [OF Cons.prems(1) tl(1) b] Recover_Execute_ok(1) [OF Cons.prems(1) tl(1)] by simp
  qed (use p in simp_all)
  then show ?case using Cons.IH [OF _ tl(2)] jobs_apply_ok [OF Cons.prems(1) tl(1) assms] Cons.prems(4)
    unfolding ev jobs_run_simps by auto
qed

text \<open>
  C31. An exhausted job blocks the queue: when the first due job has spent its whole budget and no
  other live job precedes it, no claim of any worker succeeds, now or after any sequence of further
  polls (claims and recoveries of ended leases), however many other jobs are due.
\<close>
theorem exhausted_job_blocks:
  assumes "jsonb_keeps jsonb" "jobs_ok s db" "timeline s evs t" "blocked s db" "list_all (\<lambda>(_, rq). polls rq) evs"
  shows "\<exists>res. Lease_Execute {} t w d (jobs_run jsonb scan audit evs db) = (res, jobs_run jsonb scan audit evs db)
    \<and> (\<forall>job. res \<noteq> Inr (Some job))"
  by (rule blocked_lease [OF conjunct1 [OF jobs_run_ok [OF assms(1-3)]] order.refl blocked_run [OF assms]])

end
