(* ===== verification/JobsSamples.thy ===== *)
theory JobsSamples
  imports JobsBlocking
begin

text \<open>A small queue on which the hypotheses of the queue's properties hold.\<close>

section \<open>One job, queued and claimed\<close>

definition nightly :: EnqueueCommand where
  "nightly = \<lparr>enq_Type = TypeSessionCleanup, enq_Version = 1, enq_Payload = ''{}'', enq_IdempotencyKey = ''nightly'',
     enq_AvailableAt = None, enq_MaxAttempts = 1\<rparr>"

definition queued_row :: AppJob where
  "queued_row = \<lparr>jr_ID = 0, jr_Type = ''session_cleanup'', jr_Version = 1, jr_Parameters = ''{}'',
     jr_IdempotencyKey = Some ''nightly'', jr_State = ''queued'', jr_AvailableAt = 5000, jr_Attempts = 0, jr_MaxAttempts = 1,
     jr_LeaseOwner = None, jr_LeasedUntil = None, jr_LastErrorCode = None, jr_LastErrorDetail = None,
     jr_CreatedAt = 5000, jr_UpdatedAt = 5000\<rparr>"

definition sample_empty :: jobs_db where "sample_empty = empty_jobs of_nat"

definition sample_queue :: jobs_db where
  "sample_queue = \<lparr>job_rows = [queued_row], job_uuid_gen = of_nat, job_uuid_next = 1\<rparr>"

definition claimed_row :: AppJob where "claimed_row = claimed 5000 ''w1'' 9000 queued_row"

definition sample_claimed :: jobs_db where
  "sample_claimed = \<lparr>job_rows = [claimed_row], job_uuid_gen = of_nat, job_uuid_next = 1\<rparr>"

lemma jsonb_keeps_Some: "jsonb_keeps Some"
  by (simp add: jsonb_keeps_def)

lemma sample_empty_ok: "jobs_ok 5000 sample_empty"
  by (simp add: sample_empty_def empty_jobs_ok)

lemma payload_sample: "ValidatePayload ''{}'' = Inr ()"
  by (simp add: ValidatePayload_def MaxPayloadBytes_def checkObjectStructure_def structure_step_def MaxPayloadDepth_def
      valid_utf8_ascii_Cons)

lemma text_sample: "list_all printable ''nightly''" "list_all printable ''w1''" "list_all printable ''w2''"
  by (simp_all add: printable_def)

lemma accepted_nightly: "accepted Some 5000 nightly = Some (1, ''{}'', 5000)"
proof -
  have "validateCommand nightly = Inr 1"
    using text_sample(1) by (simp add: validateCommand_def nightly_def payload_sample MaxIdempotencyKeyLength_def Let_def
        JobType_IsValid_iff vocab)
  then show ?thesis using printable_pg_text [OF text_sample(1)]
    by (simp add: accepted_def) (simp add: nightly_def in_int32_def MinInt32_def MaxInt32_def MaxPayloadBytes_def time_IsZero_def)
qed

lemma timestamptz_sample [simp]: "timestamptz 5000 = 5000" "timestamptz 6000 = 6000" "timestamptz 9000 = 9000"
  "timestamptz 8000 = 8000" "timestamptz 7000 = 7000"
  by (simp_all add: timestamptz_def)

lemma nightly_row: "new_row ''{}'' 5000 nightly 5000 1 sample_empty = queued_row"
  by (simp add: new_row_def nightly_def queued_row_def sample_empty_def empty_jobs_def pgTextOrNull_def vocab)

lemma enqueue_sample: "Enqueue_Execute Some 5000 nightly sample_empty = (Inr (job_of_row queued_row, False), sample_queue)"
  using Enqueue_Execute_ok(1) [OF sample_empty_ok _ jsonb_keeps_Some accepted_nightly]
  by (simp add: enqueue_outcome_def nightly_row) (simp add: keyed_row_def sample_empty_def empty_jobs_def sample_queue_def)

lemma sample_queue_ok: "jobs_ok 5000 sample_queue"
  using jobs_apply_ok [OF sample_empty_ok order.refl jsonb_keeps_Some, of scan "\<lambda>_. True" "EnqueueRq nightly" for scan]
  by (simp add: enqueue_sample)

lemma owner_sample: "owner_ok ''w1''" "pg_text ''w1''"
  using printable_pg_text [OF text_sample(2)] TrimSpace_printable [OF text_sample(2)]
  by (simp_all add: owner_ok_def MaxLeaseOwnerLength_def)

lemma claim_order_sample: "claim_order {} 5000 sample_queue = [queued_row]"
  by (simp add: claim_order_def sample_queue_def claimable_def queued_row_def)

lemma lease_sample: "Lease_Execute {} 5000 ''w1'' 4000 sample_queue = (Inr (Some (job_of_row claimed_row)), sample_claimed)"
  using Lease_Execute_ok [OF sample_queue_ok order.refl owner_sample, of 4000 "{}"]
  by (simp add: lease_outcome_def claim_order_sample MaxLeaseDuration_def ns_per_sec_def Let_def flip: claimed_row_def)
    (simp add: queued_row_def sample_claimed_def sample_queue_def with_row_def claimed_row_def claimed_def)

lemma sample_claimed_ok: "jobs_ok 5000 sample_claimed"
  using jobs_apply_ok [OF sample_queue_ok order.refl jsonb_keeps_Some, of scan "\<lambda>_. True" "LeaseRq {} ''w1'' 4000" for scan]
  by (simp add: lease_sample)

lemma complete_sample:
  "Complete_Execute scan_canonical 6000 (uuidToString (Some 0)) ''w1'' sample_claimed =
    (Inr (job_of_row (completed 6000 claimed_row)), with_row (completed 6000 claimed_row) sample_claimed)"
proof -
  have "scan_canonical (uuidToString (Some 0)) = Some 0" using scan_canonical by (simp only: reads_canonical_def)
  note Complete_Execute_ok [where scan = scan_canonical, OF sample_claimed_ok _ owner_sample this, of 6000]
  moreover have "held_row 0 ''w1'' sample_claimed = Some claimed_row"
    by (simp add: held_row_def sample_claimed_def claimed_row_def queued_row_def)
  ultimately show ?thesis by (simp add: complete_outcome_def Let_def)
qed

section \<open>Witnesses\<close>

theorem queue_coherent_witness:
  "map provenance (take 1 (job_rows sample_claimed)) = map provenance (job_rows sample_queue)
   \<and> distinct (map jr_ID (job_rows sample_claimed))"
  using queue_coherent [where s = 5000 and t = 6000 and evs = "[(5000, EnqueueRq nightly)]" and scan = scan_canonical
      and later = "[(5000, LeaseRq {} ''w1'' 4000)]" and gen = of_nat and audit = "\<lambda>_. True",
      OF jsonb_keeps_Some _ _ refl refl, folded sample_empty_def]
  by (simp add: enqueue_sample lease_sample timeline_def) (simp add: sample_queue_def)

theorem outcome_final_witness:
  "completed 6000 claimed_row \<in> set (job_rows (jobs_run Some scan_canonical (\<lambda>_. True) [(9000, RecoverRq)]
      (with_row (completed 6000 claimed_row) sample_claimed)))"
proof (rule outcome_final [where s = 6000 and t = 9000, OF jsonb_keeps_Some])
  show "jobs_ok 6000 (with_row (completed 6000 claimed_row) sample_claimed)"
    using jobs_apply_ok [OF sample_claimed_ok _ jsonb_keeps_Some, of 6000 scan_canonical "\<lambda>_. True"
        "CompleteRq (uuidToString (Some 0)) ''w1''"]
    by (simp add: complete_sample)
qed (simp_all add: timeline_def with_row_def sample_claimed_def claimed_row_def queued_row_def vocab)

theorem lease_exclusive_witness:
  "\<exists>e. Complete_Execute scan_canonical 8000 (job_ID (job_of_row claimed_row)) ''w2''
      (jobs_run Some scan_canonical (\<lambda>_. True) [(7000, LeaseRq {} ''w2'' 4000)] sample_claimed)
    = (Inl e, jobs_run Some scan_canonical (\<lambda>_. True) [(7000, LeaseRq {} ''w2'' 4000)] sample_claimed)"
proof -
  have "scan_canonical (job_ID (job_of_row claimed_row)) = Some 0"
    using scan_canonical by (simp add: reads_canonical_def claimed_row_def queued_row_def)
  from lease_exclusive [where t = 8000 and evs = "[(7000, LeaseRq {} ''w2'' 4000)]" and audit = "\<lambda>_. True",
      OF jsonb_keeps_Some sample_queue_ok order.refl this scan_canonical lease_sample _ _ _ refl]
  show ?thesis by (simp add: timeline_def del: jobs_run_simps)
qed

theorem Lease_exact_witness:
  "\<exists>job db'. Lease_Execute {} 5000 ''w1'' 4000 sample_queue = (Inr (Some job), db') \<and> job_Attempts job = 1"
proof -
  have "first_due {} 5000 sample_queue queued_row"
    by (simp add: first_due_def due_def sample_queue_def queued_row_def vocab)
  moreover have "jr_Attempts queued_row < jr_MaxAttempts queued_row" "jr_Attempts queued_row = 0" by (simp_all add: queued_row_def)
  ultimately show ?thesis
    using Lease_exact [OF sample_queue_ok order.refl owner_sample, of 4000 "{}"]
    by (auto simp: MaxLeaseDuration_def ns_per_sec_def)
qed

theorem Fail_exact_witness:
  "\<exists>job db'. Fail_Execute scan_canonical 6000 (uuidToString (Some 0)) ''w1'' FailureHandlerError ''boom'' (Some 7000) sample_claimed
      = (Inr job, db') \<and> job_State job = StateDead"
proof -
  have r: "claimed_row \<in> set (job_rows sample_claimed)" "jr_State claimed_row = StateLeased" "jr_LeaseOwner claimed_row = Some ''w1''"
    "jr_Attempts claimed_row = jr_MaxAttempts claimed_row" "jr_ID claimed_row = 0"
    by (simp_all add: sample_claimed_def claimed_row_def queued_row_def vocab)
  have s: "scan_canonical (uuidToString (Some 0)) = Some (jr_ID claimed_row)"
    using scan_canonical by (simp add: reads_canonical_def r(5))
  have "FailureCode_IsValid FailureHandlerError" by (simp add: FailureCode_IsValid_def AllFailureCodes_def)
  from Fail_exact [where retry = 7000 and now = 6000 and scan = scan_canonical,
      OF sample_claimed_ok _ r(1-3) owner_sample(2) s this, of "''boom''"] r(4)
  show ?thesis by (auto simp: time_IsZero_def)
qed

theorem queue_refines_lifecycle_witness: "(lifecycle 1)\<^sup>*\<^sup>* (Waiting, 0) (Running, 1)"
proof -
  have "(lifecycle (jr_MaxAttempts claimed_row))\<^sup>*\<^sup>* (Waiting, 0) (abs_job claimed_row)"
    using queue_refines_lifecycle [where t = 6000 and evs = "[(5000, EnqueueRq nightly), (5000, LeaseRq {} ''w1'' 4000)]"
        and audit = "\<lambda>_. True" and scan = scan_canonical, OF jsonb_keeps_Some sample_empty_ok]
    by (simp add: timeline_def enqueue_sample lease_sample) (simp add: sample_empty_def empty_jobs_def sample_claimed_def)
  then show ?thesis by (simp add: claimed_row_def queued_row_def abs_job_def phase_def vocab)
qed

theorem enqueue_once_witness:
  "\<exists>job. Enqueue_Execute Some 6000 nightly sample_claimed = (Inr (job, True), sample_claimed) \<and> job_ID job = uuidToString (Some 0)"
proof -
  have "accepted Some 6000 nightly = Some (1, ''{}'', 6000)"
    using accepted_nightly by (auto simp: accepted_def nightly_def time_IsZero_def Let_def split: sum.splits if_splits)
  from enqueue_once [where evs = "[(5000, LeaseRq {} ''w1'' 4000)]" and audit = "\<lambda>_. True" and scan = scan_canonical,
      OF jsonb_keeps_Some sample_empty_ok order.refl _ enqueue_sample _ refl refl this]
  show ?thesis by (simp add: timeline_def lease_sample nightly_def) (auto simp: queued_row_def)
qed

theorem retry_audited_witness:
  "\<exists>e. RetryJob_Execute scan_canonical (\<lambda>_. True) 6000
      \<lparr>retry_Actor = ''op'', retry_SessionAge = 0, retry_JobID = uuidToString (Some 0), retry_Reason = ''again''\<rparr>
      sample_claimed (sample_claimed, []) = (Inl e, (sample_claimed, []))"
  using retry_audited [OF sample_claimed_ok, of 6000 scan_canonical "\<lambda>_. True"
      "\<lparr>retry_Actor = ''op'', retry_SessionAge = 0, retry_JobID = uuidToString (Some 0), retry_Reason = ''again''\<rparr>" sample_claimed "[]"]
  by simp

theorem exhausted_job_blocks_witness:
  "\<exists>res. Lease_Execute {} 9000 ''w2'' 4000 (jobs_run Some scan_canonical (\<lambda>_. True) [(9000, RecoverRq)] sample_claimed)
      = (res, jobs_run Some scan_canonical (\<lambda>_. True) [(9000, RecoverRq)] sample_claimed) \<and> (\<forall>job. res \<noteq> Inr (Some job))"
proof (rule exhausted_job_blocks [where s = 9000, OF jsonb_keeps_Some])
  show "jobs_ok 9000 sample_claimed" using jobs_ok_mono [OF sample_claimed_ok] by simp
  show "blocked 9000 sample_claimed"
    by (simp add: blocked_def sample_claimed_def claimed_row_def queued_row_def claimable_def)
qed (simp_all add: timeline_def)

end
