(* ===== verification/JobsWorkerProperties.thy ===== *)
theory JobsWorkerProperties
  imports JobsWorker JobsSamples
begin

text \<open>What the worker promises: bounded retry delays, an outcome for every job that is still leased under its name
  when its turn ends, and no change of a job it lost.\<close>

section \<open>Backoff\<close>

lemma bit_length_le: "n < 2 ^ k \<Longrightarrow> bit_length n \<le> k"
proof (induction n arbitrary: k rule: bit_length.induct)
  case (1 n)
  show ?case
  proof (cases "n = 0")
    case True
    then show ?thesis by (simp add: bit_length.simps)
  next
    case False
    then obtain j where j: "k = Suc j" using 1(2) by (cases k) auto
    then have "n div 2 < 2 ^ j" using 1(2) by simp
    from 1(1) [OF False this] show ?thesis using j by (simp add: bit_length.simps [of n])
  qed
qed

text \<open>Rounding never passes a bound that is a multiple of the last kept place.\<close>

lemma float_round_le:
  assumes "n \<le> k" "2 ^ (bit_length n - 53) dvd k"
  shows "float_round n \<le> k"
proof -
  let ?s = "bit_length n - 53"
  let ?q = "n div 2 ^ ?s" and ?r = "n mod 2 ^ ?s"
  obtain c where c: "k = 2 ^ ?s * c" using assms(2) by (elim dvdE)
  have n: "n = ?q * 2 ^ ?s + ?r" by (rule div_mult_mod_eq [symmetric])
  have up: "?q + 1 \<le> c" if "0 < ?r"
  proof -
    have "?q * 2 ^ ?s < 2 ^ ?s * c" using assms(1) c n that by linarith
    then have "?q < c" by (simp add: mult.commute)
    then show ?thesis by simp
  qed
  have "?q \<le> c" using assms(1) c by (metis div_le_mono nonzero_mult_div_cancel_left power_not_zero zero_neq_numeral)
  with up have "(if 2 ^ ?s < 2 * ?r \<or> 2 ^ ?s = 2 * ?r \<and> odd ?q then ?q + 1 else ?q) \<le> c"
    by (cases "?r = 0") auto
  then show ?thesis unfolding float_round_def Let_def c by (metis mult.commute mult_le_mono2)
qed

lemma float_round_small: "n \<le> 2 ^ 53 \<Longrightarrow> float_round n \<le> n"
proof (cases "n = 2 ^ 53")
  case True
  have "bit_length n \<le> 54" by (rule bit_length_le) (simp add: True)
  then have "(2 :: nat) ^ (bit_length n - 53) dvd 2 ^ 53" by (intro le_imp_power_dvd) simp
  then show ?thesis using float_round_le [of n n] True by simp
next
  case False
  moreover assume "n \<le> 2 ^ 53"
  ultimately have "bit_length n \<le> 53" by (intro bit_length_le) simp
  then show ?thesis using float_round_le [of n n] by simp
qed

lemma jitter_le:
  assumes "x < 2 ^ 53" "0 \<le> cap" "cap \<le> 2 ^ 53"
  shows "0 \<le> jitter x cap \<and> jitter x cap \<le> cap"
proof -
  let ?c = "float_round (nat cap)"
  have c: "?c \<le> nat cap" using assms(3) by (intro float_round_small) (simp add: nat_le_iff)
  moreover have "nat cap \<le> 2 ^ 53" using assms(3) by (simp add: nat_le_iff)
  ultimately have c53: "?c \<le> 2 ^ 53" by (rule order_trans)
  have p: "x * ?c \<le> 2 ^ 53 * ?c" using assms(1) by (intro mult_right_mono) simp_all
  have "x * ?c < 2 ^ 53 * 2 ^ 53"
    using assms(1) c53 by (metis le_less_trans mult.commute mult_le_mono2 mult_less_cancel2 zero_less_numeral zero_less_power)
  then have "bit_length (x * ?c) \<le> 106" by (intro bit_length_le) simp
  then have "(2 :: nat) ^ (bit_length (x * ?c) - 53) dvd 2 ^ 53" by (intro le_imp_power_dvd) simp
  then have "float_round (x * ?c) \<le> 2 ^ 53 * ?c" by (intro float_round_le [OF p] dvd_mult2)
  then have "float_round (x * ?c) div 2 ^ 53 \<le> 2 ^ 53 * ?c div 2 ^ 53" by (rule div_le_mono)
  then have "float_round (x * ?c) div 2 ^ 53 \<le> ?c" by simp
  with c assms(2) show ?thesis by (simp add: jitter_def)
qed

lemma delay_cap_bounds:
  assumes "Backoff_Validate p = Inr ()" "Max p \<le> 2 ^ 53" "1 \<le> a"
  shows "0 < delay_cap p a \<and> delay_cap p a \<le> Max p \<and> delay_cap p a \<le> Base p * 2 ^ nat (a - 1)"
proof -
  define k where "k = nat (a - 1)"
  have v: "1 \<le> Base p" "Base p \<le> Max p" using assms(1) by (auto simp: Backoff_Validate_def split: if_splits)
  have big: "Max p \<le> Base p * 2 ^ k" if "62 < k \<or> Base p > MaxInt64 div 2 ^ k"
  proof (cases "62 < k")
    case True
    have "Max p \<le> 2 ^ 63" using assms(2) by simp
    also have "(2 :: int) ^ 63 \<le> 2 ^ k" using True by (intro power_increasing) simp_all
    also have "(2 :: int) ^ k = 1 * 2 ^ k" by simp
    also have "\<dots> \<le> Base p * 2 ^ k" using v by (intro mult_right_mono) simp_all
    finally show ?thesis .
  next
    case False
    with that have "MaxInt64 div 2 ^ k + 1 \<le> Base p" by simp
    then have "(MaxInt64 div 2 ^ k + 1) * 2 ^ k \<le> Base p * 2 ^ k" by (intro mult_right_mono) simp_all
    moreover have "MaxInt64 \<le> (MaxInt64 div 2 ^ k + 1) * 2 ^ k"
    proof -
      have "MaxInt64 mod 2 ^ k < 2 ^ k" by (rule pos_mod_bound) simp
      then show ?thesis
        using div_mult_mod_eq [of MaxInt64 "2 ^ k"] unfolding distrib_right mult_1 by linarith
    qed
    moreover have "Max p \<le> MaxInt64" using assms(2) by (simp add: MaxInt64_def)
    ultimately show ?thesis by linarith
  qed
  have one: "Base p \<le> Base p * 2 ^ k" using v mult_left_mono [of 1 "2 ^ k" "Base p"] by simp
  have pos: "0 < Base p * 2 ^ k" using v by simp
  define c where "c = Base p * 2 ^ k"
  show ?thesis
    using big one pos v unfolding delay_cap_def k_def [symmetric] Let_def c_def [symmetric]
    by (cases "0 < k"; cases "62 < k \<or> Base p > MaxInt64 div 2 ^ k") auto
qed

lemma unat_high_bits: "unat (drop_bit 11 (x :: 64 word)) < 2 ^ 53"
proof -
  have "unat x < 2 ^ 64" using unsigned_less [of x, where ?'a = nat] by simp
  then have "unat x div 2 ^ 11 < 2 ^ 53" by (simp add: less_mult_imp_div_less)
  then show ?thesis by (subst unat_drop_bit_eq) (simp add: drop_bit_eq_div)
qed

text \<open>
  C33. Retry delays are bounded: a valid policy (with a bound of at most \<open>2^53\<close> nanoseconds, some
  104 days) gives after the n-th attempt a delay between zero and the smaller of its bound and
  \<open>Base * 2^(n-1)\<close>, for every reading of the entropy source, and fails only with that source; an
  invalid policy always fails.
\<close>
theorem Delay_bounds:
  assumes "Max p \<le> 2 ^ 53"
  shows "(Backoff_Validate p = Inr () \<longrightarrow> (\<exists>d. Delay p a (Some x) = Inr d \<and> 0 \<le> d \<and> d \<le> Max p
      \<and> d \<le> Base p * 2 ^ nat (a - 1)) \<and> Delay p a None = Inl EntropyError)
    \<and> (Backoff_Validate p \<noteq> Inr () \<longrightarrow> (\<forall>random. Delay p a random = Inl (BackoffError ErrInvalidBackoff)))"
proof -
  let ?a = "if a < 1 then 1 else a"
  have n: "nat (?a - 1) = nat (a - 1)" by simp
  have "0 \<le> jitter (unat (drop_bit 11 x)) (delay_cap p ?a) \<and> jitter (unat (drop_bit 11 x)) (delay_cap p ?a) \<le> delay_cap p ?a"
    if v: "Backoff_Validate p = Inr ()"
    by (rule jitter_le [OF unat_high_bits]) (use delay_cap_bounds [OF v assms, of ?a] assms in auto)
  moreover have "delay_cap p ?a \<le> Max p \<and> delay_cap p ?a \<le> Base p * 2 ^ nat (a - 1)" if v: "Backoff_Validate p = Inr ()"
    using delay_cap_bounds [OF v assms, of ?a] unfolding n by simp
  ultimately have "Backoff_Validate p = Inr () \<longrightarrow> (\<exists>d. Delay p a (Some x) = Inr d \<and> 0 \<le> d \<and> d \<le> Max p
      \<and> d \<le> Base p * 2 ^ nat (a - 1)) \<and> Delay p a None = Inl EntropyError"
    unfolding Delay_def Let_def by force
  moreover have "Backoff_Validate p \<noteq> Inr () \<longrightarrow> Backoff_Validate p = Inl ErrInvalidBackoff"
    by (simp add: Backoff_Validate_def)
  ultimately show ?thesis by (auto simp: Delay_def)
qed

theorem Delay_bounds_witness:
  "\<exists>d. Delay DefaultBackoffPolicy 3 (Some 18446744073709551615) = Inr d \<and> 0 \<le> d \<and> d \<le> 8 * ns_per_sec"
proof -
  have "Backoff_Validate DefaultBackoffPolicy = Inr ()" "Max DefaultBackoffPolicy \<le> 2 ^ 53"
    by (simp_all add: Backoff_Validate_def DefaultBackoffPolicy_def ns_per_sec_def)
  with Delay_bounds [of DefaultBackoffPolicy 3 18446744073709551615] show ?thesis
    by (auto simp: DefaultBackoffPolicy_def)
qed

section \<open>Outcomes\<close>



text \<open>The counters of a turn that recorded an outcome, or none.\<close>

definition counted :: "WorkerStats \<Rightarrow> WorkerStats \<Rightarrow> JobState option \<Rightarrow> bool" where
  "counted st st' outcome \<longleftrightarrow> st_Leased st' = st_Leased st \<and> st_Reclaimed st' = st_Reclaimed st
     \<and> st_Succeeded st' = st_Succeeded st + of_bool (outcome = Some StateSucceeded)
     \<and> st_Dead st' = st_Dead st + of_bool (outcome = Some StateDead)
     \<and> st_Failed st' = st_Failed st + of_bool (outcome = Some StateQueued)"




lemma count_panic_counted [simp]: "counted (count_panic res st) st' x = counted st st' x"
  by (simp add: counted_def count_panic_def)




text \<open>
  Both endings on one queue: a worker without a handler, whose lease runs until 9000, buries the job on its
  only attempt when its turn ends at 7000; when it ends at 10000, after a recovery released the job at 9000,
  it changes nothing.
\<close>

abbreviation "idle \<equiv> \<lparr>st_Leased = 0, st_Succeeded = 0, st_Failed = 0, st_Dead = 0, st_Reclaimed = 0, st_Panics = 0\<rparr>"





end
