(* ===== verification/JobsPeriod.thy ===== *)
theory JobsPeriod
  imports GoText GoTime
begin

text \<open>
  \<open>internal/jobs/domain/period.go\<close>: cadences, the periods with their canonical labels, the walk
  back over missed periods, and the payload of a scheduled run. A period is compared with the slot
  it stands for: the number of its month, or of its day, on one axis.
\<close>

datatype period_error = ErrInvalidPeriod

type_synonym Interval = string

definition IntervalDaily :: Interval where [vocab]: "IntervalDaily = ''daily''"
definition IntervalMonthly :: Interval where [vocab]: "IntervalMonthly = ''monthly''"

definition AllIntervals :: "Interval list" where "AllIntervals = [IntervalDaily, IntervalMonthly]"

definition Interval_IsValid :: "Interval \<Rightarrow> bool" where
  "Interval_IsValid i \<longleftrightarrow> List.member AllIntervals i"

record Period =
  interval :: Interval
  label :: string

section \<open>Printing and parsing labels\<close>

text \<open>\<open>%0wd\<close>: the sign counts towards the width.\<close>

definition fmt_int :: "nat \<Rightarrow> int \<Rightarrow> string" where
  "fmt_int w x =
     (let ds = dec_digits (nat \<bar>x\<bar>) in
      if x < 0 then ''-'' @ replicate (w - 1 - length ds) (CHR ''0'') @ ds
      else replicate (w - length ds) (CHR ''0'') @ ds)"

definition month_label :: "int \<Rightarrow> int \<Rightarrow> string" where
  "month_label y m = fmt_int 4 y @ ''-'' @ fmt_int 2 m"

text \<open>\<open>Format("2006-01-02")\<close>.\<close>

definition FormatDay :: "time \<Rightarrow> string" where
  "FormatDay t = pad_int 4 (Year t) @ ''-'' @ pad_int 2 (Month t) @ ''-'' @ pad_int 2 (Day t)"

text \<open>The steps of \<open>time.Parse\<close>: a fixed number of digits, a literal character.\<close>

definition take_digits :: "nat \<Rightarrow> string \<Rightarrow> (int \<times> string) option" where
  "take_digits w s =
     (if length s < w \<or> \<not> list_all is_digit (take w s) then None
      else Some (int (dec_value (take w s)), drop w s))"

definition take_char :: "char \<Rightarrow> string \<Rightarrow> string option" where
  "take_char c s = (if s \<noteq> [] \<and> hd s = c then Some (tl s) else None)"

definition take_year_month :: "string \<Rightarrow> (int \<times> int \<times> string) option" where
  "take_year_month s =
     Option.bind (take_digits 4 s) (\<lambda>(y, s1).
     Option.bind (take_char (CHR ''-'') s1) (\<lambda>s2.
     Option.bind (take_digits 2 s2) (\<lambda>(m, s3).
       if m \<le> 0 \<or> 12 < m then None else Some (y, m, s3))))"

text \<open>\<open>time.Parse("2006-01", s)\<close> and \<open>time.Parse("2006-01-02", s)\<close>.\<close>

definition ParseMonth :: "string \<Rightarrow> time option" where
  "ParseMonth s =
     Option.bind (take_year_month s) (\<lambda>(y, m, rest).
       if rest \<noteq> [] then None else Some (time_Date y m 1 0 0 0 0))"

definition ParseDay :: "string \<Rightarrow> time option" where
  "ParseDay s =
     Option.bind (take_year_month s) (\<lambda>(y, m, s1).
     Option.bind (take_char (CHR ''-'') s1) (\<lambda>s2.
     Option.bind (take_digits 2 s2) (\<lambda>(d, rest).
       if rest \<noteq> [] \<or> d < 1 \<or> month_length y m < d then None else Some (time_Date y m d 0 0 0 0))))"

definition startOf :: "Interval \<Rightarrow> string \<Rightarrow> period_error + time" where
  "startOf iv lb =
     (if iv = IntervalMonthly then (case ParseMonth lb of None \<Rightarrow> Inl ErrInvalidPeriod | Some t \<Rightarrow> Inr t)
      else if iv = IntervalDaily then (case ParseDay lb of None \<Rightarrow> Inl ErrInvalidPeriod | Some t \<Rightarrow> Inr t)
      else Inl ErrInvalidPeriod)"

section \<open>Periods\<close>

definition PeriodAt :: "Interval \<Rightarrow> time \<Rightarrow> period_error + Period" where
  "PeriodAt iv t =
     (if \<not> Interval_IsValid iv then Inl ErrInvalidPeriod
      else if iv = IntervalMonthly then Inr \<lparr>interval = iv, label = month_label (Year t) (Month t)\<rparr>
      else if iv = IntervalDaily then Inr \<lparr>interval = iv, label = FormatDay t\<rparr>
      else Inl ErrInvalidPeriod)"

definition ParsePeriod :: "Interval \<Rightarrow> string \<Rightarrow> period_error + Period" where
  "ParsePeriod iv lb =
     (if \<not> Interval_IsValid iv then Inl ErrInvalidPeriod
      else if TrimSpace lb = [] then Inl ErrInvalidPeriod
      else bind_r (startOf iv (TrimSpace lb)) (PeriodAt iv))"

definition Period_IsZero :: "Period \<Rightarrow> bool" where
  "Period_IsZero p \<longleftrightarrow> label p = [] \<or> interval p = []"

definition Start :: "Period \<Rightarrow> period_error + time" where
  "Start p = (if Period_IsZero p then Inl ErrInvalidPeriod else startOf (interval p) (label p))"

definition Previous :: "Period \<Rightarrow> period_error + Period" where
  "Previous p =
     bind_r (Start p) (\<lambda>start.
       if interval p = IntervalMonthly then
         (let m = Month start - 1;
              month = (if m = 0 then 12 else m); year = (if m = 0 then Year start - 1 else Year start) in
          if year < 1 then Inl ErrInvalidPeriod
          else Inr \<lparr>interval = interval p, label = month_label year month\<rparr>)
       else if interval p = IntervalDaily then
         Inr \<lparr>interval = interval p, label = FormatDay (AddDate start 0 0 (-1))\<rparr>
       else Inl ErrInvalidPeriod)"

fun Back :: "Period \<Rightarrow> nat \<Rightarrow> period_error + Period" where
  "Back p 0 = Inr p"
| "Back p (Suc n) = bind_r (Previous p) (\<lambda>q. Back q n)"

definition payloadPrefix :: string where "payloadPrefix = ''{'' @ [CHR 0x22] @ ''period'' @ [CHR 0x22] @ '':'' @ [CHR 0x22]"
definition payloadSuffix :: string where "payloadSuffix = [CHR 0x22] @ ''}''"
definition MaxPeriodLabelLength :: nat where "MaxPeriodLabelLength = 10"

definition PeriodPayload :: "Period \<Rightarrow> period_error + string" where
  "PeriodPayload p =
     (if Period_IsZero p \<or> length (label p) > MaxPeriodLabelLength then Inl ErrInvalidPeriod
      else bind_r (startOf (interval p) (label p)) (\<lambda>_. Inr (payloadPrefix @ label p @ payloadSuffix)))"

definition ParsePeriodPayload :: "Interval \<Rightarrow> string \<Rightarrow> period_error + Period" where
  "ParsePeriodPayload iv text =
     (if take (length payloadPrefix) text \<noteq> payloadPrefix
         \<or> length text < length payloadSuffix \<or> drop (length text - length payloadSuffix) text \<noteq> payloadSuffix
        then Inl ErrInvalidPeriod
      else if length text < length payloadPrefix + length payloadSuffix then Inl ErrInvalidPeriod
      else
        let lb = take (length text - length payloadSuffix - length payloadPrefix) (drop (length payloadPrefix) text) in
        if list_ex (\<lambda>c. c = CHR 0x22 \<or> c = CHR 0x5C) lb then Inl ErrInvalidPeriod
        else ParsePeriod iv lb)"

section \<open>Slots\<close>

definition slot :: "Interval \<Rightarrow> time \<Rightarrow> int" where
  "slot iv t = (if iv = IntervalMonthly then month_no t else day_of t)"

definition slot_start :: "Interval \<Rightarrow> int \<Rightarrow> time" where
  "slot_start iv k = (if iv = IntervalMonthly then month_start k else k) * ns_per_day"

definition period_of :: "Interval \<Rightarrow> int \<Rightarrow> Period" where
  "period_of iv k = \<lparr>interval = iv, label =
     (if iv = IntervalMonthly then month_label (k div 12 + 1) (k mod 12 + 1) else FormatDay (k * ns_per_day))\<rparr>"

lemma Interval_IsValid_iff: "Interval_IsValid iv \<longleftrightarrow> iv = IntervalDaily \<or> iv = IntervalMonthly"
  by (auto simp: Interval_IsValid_def AllIntervals_def)

lemma daily_not_monthly [simp]: "IntervalDaily \<noteq> IntervalMonthly"
  by (simp add: vocab)

lemma day_of_day_start [simp]: "day_of (k * ns_per_day) = k"
  using day_of_add [of 0 k] by (simp add: ns_per_day_def)

lemma month_no_month_start [simp]: "month_no (month_start k * ns_per_day) = k"
  by (rule month_no_unique) (use month_start_strict [of k "k + 1"] in simp_all)

lemma slot_slot_start [simp]: "slot iv (slot_start iv k) = k"
  by (simp add: slot_def slot_start_def)

lemma slot_start_bounds: "slot_start iv (slot iv t) \<le> t \<and> t < slot_start iv (slot iv t + 1)"
proof -
  have m: "d * ns_per_day \<le> t" if "d \<le> day_of t" for d
    using that time_split [of t] tod_range [of t] mult_right_mono [OF that, of ns_per_day] by (simp add: ns_per_day_def)
  have n: "t < d * ns_per_day" if "day_of t < d" for d
    using that time_split [of t] tod_range [of t] mult_right_mono [of "day_of t + 1" d ns_per_day]
    by (simp add: ns_per_day_def)
  show ?thesis using m n month_no_bounds [of t] by (simp add: slot_def slot_start_def)
qed

lemma slot_unique:
  assumes "slot_start iv k \<le> t" "t < slot_start iv (k + 1)"
  shows "slot iv t = k"
proof -
  have l: "d \<le> day_of t" if "d * ns_per_day \<le> t" for d
    using that unfolding day_of_def ns_per_day_def by linarith
  have u: "day_of t < d" if "t < d * ns_per_day" for d
    using that unfolding day_of_def ns_per_day_def by linarith
  show ?thesis
  proof (cases "iv = IntervalMonthly")
    case True
    with assms l u show ?thesis by (auto simp: slot_def slot_start_def intro!: month_no_unique)
  next
    case False
    with assms l [of k] u [of "k + 1"] show ?thesis by (simp add: slot_def slot_start_def)
  qed
qed

lemma PeriodAt_slot: "Interval_IsValid iv \<Longrightarrow> PeriodAt iv t = Inr (period_of iv (slot iv t))"
proof -
  have "FormatDay t = FormatDay (day_of t * ns_per_day)"
    by (simp add: FormatDay_def Year_def Month_def Day_def yday_def)
  then show "Interval_IsValid iv \<Longrightarrow> PeriodAt iv t = Inr (period_of iv (slot iv t))"
    by (auto simp: Interval_IsValid_iff PeriodAt_def period_of_def slot_def Year_month_no Month_month_no)
qed

section \<open>Labels read back\<close>

lemma pad_int_digits: "0 \<le> x \<Longrightarrow> list_all is_digit (pad_int w x)"
  using dec_digits_digits [of "nat x"] by (auto simp: pad_int_def Let_def list_all_iff is_digit_def)

lemma fmt_int_pad: "0 \<le> x \<Longrightarrow> fmt_int w x = pad_int w x"
  by (simp add: fmt_int_def pad_int_def Let_def)

lemma take_digits_pad: "0 \<le> x \<Longrightarrow> x < 10 ^ w \<Longrightarrow> 0 < w \<Longrightarrow> take_digits w (pad_int w x @ s) = Some (x, s)"
  by (simp add: take_digits_def pad_int_length pad_int_digits) (simp add: pad_int_def Let_def dec_value_append)

lemma take_year_month_label:
  assumes "0 \<le> y" "y < 10000" "1 \<le> m" "m \<le> 12"
  shows "take_year_month (pad_int 4 y @ CHR ''-'' # pad_int 2 m @ s) = Some (y, m, s)"
  using take_digits_pad [of y 4] take_digits_pad [of m 2] assms
  by (simp add: take_year_month_def take_char_def)

lemma day_label_range: "0 \<le> Day t \<and> Day t < 100"
  using Day_range [of t] month_len_bounds [of "month_no t"] by linarith

lemma startOf_PeriodAt:
  assumes "Interval_IsValid iv" "0 \<le> Year t" "Year t < 10000"
  shows "startOf iv (label (period_of iv (slot iv t))) = Inr (slot_start iv (slot iv t))"
proof (cases "iv = IntervalMonthly")
  case True
  have "month_label (Year t) (Month t) = pad_int 4 (Year t) @ CHR ''-'' # pad_int 2 (Month t) @ []"
    using assms Month_range [of t] by (simp add: month_label_def fmt_int_pad)
  then have "ParseMonth (month_label (Year t) (Month t)) = Some (time_Date (Year t) (Month t) 1 0 0 0 0)"
    using take_year_month_label [of "Year t" "Month t" "[]"] Month_range [of t] assms by (simp add: ParseMonth_def)
  moreover have "time_Date (Year t) (Month t) 1 0 0 0 0 = slot_start iv (slot iv t)"
    using True unfolding time_Date_def month_no_def [symmetric] by (simp add: slot_start_def slot_def)
  ultimately show ?thesis using True by (simp add: startOf_def period_of_def slot_def flip: Year_month_no Month_month_no)
next
  case False
  define u where "u = day_of t * ns_per_day"
  have u: "Year u = Year t" "Month u = Month t" "Day u = Day t"
    by (simp_all add: u_def Year_def Month_def Day_def yday_def)
  have "FormatDay u = pad_int 4 (Year t) @ CHR ''-'' # pad_int 2 (Month t) @ CHR ''-'' # pad_int 2 (Day t)"
    by (simp add: FormatDay_def u)
  moreover have "Day t \<le> month_length (Year t) (Month t)"
    using Day_range [of t] by (simp add: month_len_def month_no_div_mod)
  ultimately have "ParseDay (FormatDay u) = Some (time_Date (Year t) (Month t) (Day t) 0 0 0 0)"
    using take_year_month_label [of "Year t" "Month t"] take_digits_pad [of "Day t" 2 "[]"] Month_range [of t]
      day_label_range [of t] Day_range [of t] assms
    by (simp add: ParseDay_def take_char_def)
  moreover have "time_Date (Year t) (Month t) (Day t) 0 0 0 0 = u"
    unfolding time_Date_def month_no_def [symmetric] by (simp add: u_def Day_month_start)
  ultimately show ?thesis using False assms(1)
    by (simp add: startOf_def period_of_def slot_def slot_start_def Interval_IsValid_iff u_def)
qed

lemma label_printable: "0 \<le> Year t \<Longrightarrow> list_all printable (label (period_of iv (slot iv t)))"
  using Month_range [of t] pad_int_printable [of 4 "Year t"] pad_int_printable [of 2 "Month t"]
  by (simp add: period_of_def slot_def month_label_def FormatDay_def fmt_int_pad pad_int_printable printable_def
      flip: Year_month_no Month_month_no)

lemma period_nonzero: "Interval_IsValid iv \<Longrightarrow> \<not> Period_IsZero (period_of iv k)"
  by (auto simp: Period_IsZero_def period_of_def month_label_def FormatDay_def Interval_IsValid_iff vocab)

lemma interval_period_of [simp]: "interval (period_of iv k) = iv"
  by (simp add: period_of_def)

text \<open>A slot whose first instant has a four-digit year.\<close>

definition slot_ok :: "Interval \<Rightarrow> int \<Rightarrow> bool" where
  "slot_ok iv k \<longleftrightarrow> four_digit_year (slot_start iv k)"

lemma slot_year: "Year (slot_start iv (slot iv t)) = Year t"
proof (cases "iv = IntervalMonthly")
  case True
  then have "month_no (slot_start iv (slot iv t)) = month_no t" by (simp add: slot_start_def slot_def)
  then show ?thesis by (simp only: Year_month_no)
next
  case False
  then have "day_of (slot_start iv (slot iv t)) = day_of t" by (simp add: slot_start_def slot_def)
  then show ?thesis by (simp only: Year_def)
qed

lemma Start_slot: "Interval_IsValid iv \<Longrightarrow> slot_ok iv k \<Longrightarrow> Start (period_of iv k) = Inr (slot_start iv k)"
  using startOf_PeriodAt [of iv "slot_start iv k"] by (simp add: Start_def period_nonzero slot_ok_def four_digit_year_def)

lemma month_before:
  fixes k y m :: int
  assumes "k = 12 * (y - 1) + (m - 1)" "1 \<le> m" "m \<le> 12"
  shows "(k - 1) div 12 + 1 = (if m - 1 = 0 then y - 1 else y)"
    "(k - 1) mod 12 + 1 = (if m - 1 = 0 then 12 else m - 1)"
proof -
  have "(k - 1) div 12 + 1 = (if m - 1 = 0 then y - 1 else y)
      \<and> (k - 1) mod 12 + 1 = (if m - 1 = 0 then 12 else m - 1)"
  proof (cases "m = 1")
    case True
    with assms have "k - 1 = 12 * (y - 2) + 11" by simp
    then have "(k - 1) div 12 = y - 2" "(k - 1) mod 12 = 11"
      by (auto intro: int_div_pos_eq int_mod_pos_eq [where q = "y - 2"])
    with True show ?thesis by simp
  next
    case False
    with assms have "k - 1 = 12 * (y - 1) + (m - 2)" "0 \<le> m - 2" "m - 2 < 12" by simp_all
    then have "(k - 1) div 12 = y - 1" "(k - 1) mod 12 = m - 2"
      by (auto intro: int_div_pos_eq int_mod_pos_eq [where q = "y - 1"])
    with False show ?thesis by simp
  qed
  then show "(k - 1) div 12 + 1 = (if m - 1 = 0 then y - 1 else y)"
    "(k - 1) mod 12 + 1 = (if m - 1 = 0 then 12 else m - 1)" by simp_all
qed

lemma Previous_monthly:
  assumes "Start p = Inr s" "interval p = iv" "iv = IntervalMonthly"
    and "1 \<le> (if Month s - 1 = 0 then Year s - 1 else Year s)"
  shows "Previous p = Inr \<lparr>interval = iv, label = month_label
    (if Month s - 1 = 0 then Year s - 1 else Year s) (if Month s - 1 = 0 then 12 else Month s - 1)\<rparr>"
  using assms by (simp add: Previous_def Let_def)

lemma Previous_slot:
  assumes "Interval_IsValid iv" "slot_ok iv k" "iv = IntervalMonthly \<Longrightarrow> 1 \<le> k"
  shows "Previous (period_of iv k) = Inr (period_of iv (k - 1))"
proof (cases "iv = IntervalMonthly")
  case True
  let ?s = "slot_start iv k"
  have k: "k = 12 * (Year ?s - 1) + (Month ?s - 1)" using slot_slot_start [of iv k] True by (simp add: slot_def month_no_def)
  have m: "1 \<le> Month ?s" "Month ?s \<le> 12" using Month_range by simp_all
  have y: "1 \<le> (if Month ?s - 1 = 0 then Year ?s - 1 else Year ?s)" using assms(3) [OF True] k m by auto
  have p: "period_of iv (k - 1) = \<lparr>interval = iv, label = month_label
      (if Month ?s - 1 = 0 then Year ?s - 1 else Year ?s) (if Month ?s - 1 = 0 then 12 else Month ?s - 1)\<rparr>"
    using True by (simp only: period_of_def month_before [OF k m] if_True simp_thms)
  show ?thesis unfolding p
    by (rule Previous_monthly [OF Start_slot [OF assms(1,2)]]) (use y True in simp_all)
next
  case False
  have "AddDate (slot_start iv k) 0 0 (-1) = (k - 1) * ns_per_day"
    using False by (simp add: AddDate_days slot_start_def algebra_simps)
  moreover have "iv = IntervalDaily" using False assms(1) by (simp add: Interval_IsValid_iff)
  moreover have "period_of iv (k - 1) = \<lparr>interval = iv, label = FormatDay ((k - 1) * ns_per_day)\<rparr>"
    using False by (simp add: period_of_def)
  ultimately show ?thesis using False Start_slot [OF assms(1,2)] by (simp add: Previous_def)
qed

section \<open>Properties\<close>

lemma Year_mono: "t \<le> u \<Longrightarrow> Year t \<le> Year u"
proof (rule ccontr)
  assume le: "t \<le> u" and n: "\<not> Year t \<le> Year u"
  have "day_of t \<le> day_of u" using le by (simp add: day_of_def zdiv_mono1 ns_per_day_def)
  moreover have "days_before_year (Year u + 1) \<le> days_before_year (Year t)" using n by (intro days_before_year_mono) simp
  moreover have "days_before_year (Year t) \<le> day_of t" "day_of u < days_before_year (Year u + 1)"
    using year_of_days_bounds [of "day_of t"] year_of_days_bounds [of "day_of u"] by (simp_all add: Year_def)
  ultimately show False by linarith
qed

lemma Year_0 [simp]: "Year 0 = 1"
  by (simp add: Year_def day_of_def year_of_days_def)

lemma slot_ok_slot: "four_digit_year t \<Longrightarrow> slot_ok iv (slot iv t)"
  by (simp add: slot_ok_def four_digit_year_def slot_year)

lemma slot_start_mono: "j \<le> k \<Longrightarrow> slot_start iv j \<le> slot_start iv k"
  by (auto simp: slot_start_def month_start_mono ns_per_day_def)

lemma slot_ok_between:
  assumes "0 \<le> slot_start iv j" "j \<le> k" "k \<le> l" "slot_ok iv l"
  shows "slot_ok iv k"
  using Year_mono [of 0 "slot_start iv k"] Year_mono [of "slot_start iv k" "slot_start iv l"]
    slot_start_mono [OF assms(2), of iv] slot_start_mono [OF assms(3), of iv] assms(1,4)
  by (simp add: slot_ok_def four_digit_year_def)

text \<open>
  A period is one slot of the calendar: the period of an instant begins at or before it, and
  there is an end such that an instant falls into the same period exactly when it lies from the
  beginning up to the end.
\<close>
theorem PeriodAt_slots:
  assumes "Interval_IsValid iv" "four_digit_year t"
  shows "\<exists>p s e. PeriodAt iv t = Inr p \<and> Start p = Inr s \<and> s \<le> t \<and> t < e
    \<and> (\<forall>u. four_digit_year u \<longrightarrow> (PeriodAt iv u = Inr p) = (s \<le> u \<and> u < e))"
proof -
  let ?k = "slot iv t"
  have eq: "(period_of iv (slot iv u) = period_of iv ?k) = (slot_start iv ?k \<le> u \<and> u < slot_start iv (?k + 1))"
    if u: "four_digit_year u" for u
  proof
    assume "period_of iv (slot iv u) = period_of iv ?k"
    then have "slot_start iv (slot iv u) = slot_start iv ?k"
      using Start_slot [OF assms(1) slot_ok_slot [OF u]] Start_slot [OF assms(1) slot_ok_slot [OF assms(2)]] by simp
    then have "slot iv u = ?k" by (metis slot_slot_start)
    then show "slot_start iv ?k \<le> u \<and> u < slot_start iv (?k + 1)" using slot_start_bounds [of iv u] by simp
  next
    assume "slot_start iv ?k \<le> u \<and> u < slot_start iv (?k + 1)"
    then show "period_of iv (slot iv u) = period_of iv ?k" using slot_unique [of iv ?k u] by simp
  qed
  show ?thesis
    using PeriodAt_slot [OF assms(1)] Start_slot [OF assms(1) slot_ok_slot [OF assms(2)]] slot_start_bounds [of iv t] eq
    by (intro exI [of _ "period_of iv ?k"] exI [of _ "slot_start iv ?k"] exI [of _ "slot_start iv (?k + 1)"]) simp
qed

theorem PeriodAt_slots_witness:
  "\<exists>p s e. PeriodAt IntervalMonthly 0 = Inr p \<and> Start p = Inr s \<and> s \<le> 0 \<and> 0 < (e :: time)"
proof -
  have "Interval_IsValid IntervalMonthly" "four_digit_year 0" by (simp_all add: Interval_IsValid_iff four_digit_year_def)
  from PeriodAt_slots [OF this] show ?thesis by blast
qed

lemma Back_slot:
  assumes "Interval_IsValid iv" "0 \<le> slot_start iv (k - int n)" "slot_ok iv k"
  shows "Back (period_of iv k) n = Inr (period_of iv (k - int n))"
  using assms(2,3)
proof (induction n arbitrary: k)
  case 0
  then show ?case by simp
next
  case (Suc n)
  have "slot_ok iv (k - 1)"
    by (rule slot_ok_between [OF Suc.prems(1) _ _ Suc.prems(2)]) simp_all
  moreover have k: "k - int (Suc n) = k - 1 - int n" by simp
  moreover have m: "1 \<le> k" if "iv = IntervalMonthly"
  proof (rule ccontr)
    assume "\<not> 1 \<le> k"
    then have "month_start (k - int (Suc n)) < month_start 0" using month_start_strict [of "k - int (Suc n)" 0] by simp
    then show False using Suc.prems(1) that by (simp add: slot_start_def month_start_def days_before_year_def
        days_before_month_def ns_per_day_def)
  qed
  ultimately show ?case
    using Suc.IH [of "k - 1"] Suc.prems Previous_slot [OF assms(1) Suc.prems(2) m] unfolding k by simp
qed

lemma slot_start_AddDate:
  "slot_start iv (k - n) = (if iv = IntervalMonthly then AddDate (slot_start iv k) 0 (- n) 0 else AddDate (slot_start iv k) 0 0 (- n))"
proof (cases "iv = IntervalMonthly")
  case True
  let ?s = "slot_start iv k"
  have s: "?s = month_start k * ns_per_day" using True by (simp add: slot_start_def)
  have k: "month_no ?s = k" "day_of ?s = month_start k" "tod ?s = 0"
    unfolding s by (simp_all add: tod_def)
  have "12 * (Year ?s + 0 - 1) + (Month ?s + - n - 1) = k - n" using k(1) by (simp add: month_no_def)
  then have "AddDate ?s 0 (- n) 0 = (month_start (k - n) + (Day ?s - 1)) * ns_per_day"
    unfolding AddDate_def time_Date_clock k(3) by (simp only: add_0_right)
  then show ?thesis using True k by (simp add: Day_month_start slot_start_def)
next
  case False
  then show ?thesis by (simp add: AddDate_days slot_start_def algebra_simps)
qed

text \<open>
  Walking back over missed periods is calendar arithmetic on the beginning of the period: \<open>n\<close>
  months earlier for a monthly cadence and \<open>n\<close> days earlier for a daily one, for every count that
  does not lead before the year 1.
\<close>
theorem Back_calendar:
  assumes "Interval_IsValid iv" "four_digit_year t" "PeriodAt iv t = Inr p" "Start p = Inr s"
    and "d = (if iv = IntervalMonthly then AddDate s 0 (- int n) 0 else AddDate s 0 0 (- int n))" "0 \<le> d"
  shows "Back p n = PeriodAt iv d \<and> bind_r (Back p n) Start = Inr d"
proof -
  let ?k = "slot iv t"
  have p: "p = period_of iv ?k" using assms(3) PeriodAt_slot [OF assms(1)] by simp
  have "s = slot_start iv ?k" using assms(4) Start_slot [OF assms(1) slot_ok_slot [OF assms(2)]] p by simp
  then have d: "d = slot_start iv (?k - int n)" using assms(5) by (simp add: slot_start_AddDate [of iv ?k "int n"])
  note walk = Back_slot [OF assms(1), of ?k n]
  have "Back p n = Inr (period_of iv (?k - int n))" using walk d assms(6) p slot_ok_slot [OF assms(2)] by simp
  moreover have "slot_ok iv (?k - int n)"
    using slot_ok_between [of iv "?k - int n" "?k - int n" ?k] d assms(6) slot_ok_slot [OF assms(2)] by simp
  ultimately show ?thesis using PeriodAt_slot [OF assms(1), of d] Start_slot [OF assms(1)] d by simp
qed

theorem Back_calendar_witness:
  "Back \<lparr>interval = IntervalMonthly, label = ''0001-02''\<rparr> 1 = PeriodAt IntervalMonthly 0"
proof -
  have "PeriodAt IntervalMonthly (31 * ns_per_day) = Inr \<lparr>interval = IntervalMonthly, label = ''0001-02''\<rparr>" by code_simp
  moreover have "Start \<lparr>interval = IntervalMonthly, label = ''0001-02''\<rparr> = Inr (31 * ns_per_day)" by code_simp
  moreover have "AddDate (31 * ns_per_day) 0 (- int 1) 0 = 0" by code_simp
  moreover have "four_digit_year (31 * ns_per_day)" by code_simp
  ultimately show ?thesis
    using Back_calendar [of IntervalMonthly "31 * ns_per_day" _ _ 0 1] by (simp add: Interval_IsValid_iff)
qed

end
