(* ===== verification/JobsScheduler.thy ===== *)
theory JobsScheduler
  imports JobsRuns JobsPeriod
begin

text \<open>
  \<open>internal/jobs/application/scheduler.go\<close> with the maintenance lock of
  \<open>adapters/postgres/locker.go\<close>. A pass runs in one transaction under the advisory lock, so it
  either commits everything it queued or leaves the queue as it was; \<open>acquired\<close> tells whether the
  lock was free. The enqueue use case reads the clock itself: \<open>clock\<close> gives its reading for each
  workload and step. The loop around the passes, its tick and the log records are left out.
\<close>

definition MaxCatchUpPeriods :: int where "MaxCatchUpPeriods = 24"
definition DefaultCatchUpPeriods :: int where "DefaultCatchUpPeriods = 3"

section \<open>Schedules\<close>

record ScheduleSpec =
  sched_Type :: JobType
  sched_Version :: int
  sched_Interval :: Interval
  sched_CatchUp :: int
  sched_MaxAttempts :: int

definition ScheduleSpec_Validate :: "ScheduleSpec \<Rightarrow> jobs_app_error + unit" where
  "ScheduleSpec_Validate s =
     (if \<not> JobType_IsValid (sched_Type s) then Inl ErrInvalidSchedule
      else if sched_Version s < 1 then Inl ErrInvalidSchedule
      else if \<not> Interval_IsValid (sched_Interval s) then Inl ErrInvalidSchedule
      else if sched_CatchUp s < 0 \<or> sched_CatchUp s > MaxCatchUpPeriods then Inl ErrInvalidSchedule
      else if sched_MaxAttempts s < 0 then Inl ErrInvalidSchedule
      else Inr ())"

definition schedule_entry :: "JobType \<Rightarrow> Interval \<Rightarrow> ScheduleSpec" where
  "schedule_entry ty iv = \<lparr>sched_Type = ty, sched_Version = 1, sched_Interval = iv,
     sched_CatchUp = DefaultCatchUpPeriods, sched_MaxAttempts = 0\<rparr>"

definition DefaultSchedules :: "ScheduleSpec list" where
  "DefaultSchedules =
     [schedule_entry TypeBillingReconciliation IntervalDaily, schedule_entry TypeINKGrantMonthly IntervalMonthly,
      schedule_entry TypePassExpiry IntervalDaily, schedule_entry TypeRetentionRun IntervalDaily,
      schedule_entry TypeSessionCleanup IntervalDaily]"

text \<open>The loop over the specifications, with the types already seen.\<close>

fun validate_schedules :: "ScheduleSpec list \<Rightarrow> JobType list \<Rightarrow> jobs_app_error + unit" where
  "validate_schedules [] seen = Inr ()"
| "validate_schedules (s # specs) seen =
     bind_r (ScheduleSpec_Validate s) (\<lambda>_.
       if List.member seen (sched_Type s) then Inl ErrInvalidSchedule
       else validate_schedules specs (sched_Type s # seen))"

definition DefaultTick :: int where "DefaultTick = 60 * ns_per_sec"

definition NewScheduler :: "ScheduleSpec list \<Rightarrow> int \<Rightarrow> jobs_app_error + ScheduleSpec list \<times> int" where
  "NewScheduler schedules tick =
     (let specs = (if schedules = [] then DefaultSchedules else schedules) in
      bind_r (validate_schedules specs []) (\<lambda>_.
      let tick' = (if tick = 0 then DefaultTick else tick) in
      if tick' < 0 then Inl ErrInvalidSchedule else Inr (sort_key sched_Type specs, tick')))"

section \<open>A pass\<close>

record PeriodRun =
  run_Period :: Period
  run_Created :: bool

record ScheduleReport =
  sr_Type :: JobType
  sr_Interval :: Interval
  sr_Current :: Period
  sr_LagSeconds :: int
  sr_Runs :: "PeriodRun list"
  sr_Created :: int
  sr_Replayed :: int

definition scheduleKey :: "JobType \<Rightarrow> Period \<Rightarrow> jobs_app_error + string" where
  "scheduleKey jobType p =
     (let key = ''schedule:'' @ jobType @ '':'' @ label p in
      if length key > MaxIdempotencyKeyLength then Inl (JobDomain ErrInvalidIdempotencyKey) else Inr key)"

abbreviation of_period :: "period_error + 'a \<Rightarrow> jobs_app_error + 'a" where
  "of_period \<equiv> wrap_err (\<lambda>_. ErrPeriodInvalid)"

definition scheduled_command :: "ScheduleSpec \<Rightarrow> string \<Rightarrow> string \<Rightarrow> EnqueueCommand" where
  "scheduled_command s payload key =
     \<lparr>enq_Type = sched_Type s, enq_Version = sched_Version s, enq_Payload = payload, enq_IdempotencyKey = key,
      enq_AvailableAt = None, enq_MaxAttempts = sched_MaxAttempts s\<rparr>"

definition queue_period ::
  "(string \<Rightarrow> string option) \<Rightarrow> time \<Rightarrow> ScheduleSpec \<Rightarrow> Period \<Rightarrow> jobs_db \<Rightarrow> jobs_app_error + PeriodRun \<times> jobs_db" where
  "queue_period jsonb now s p db =
     bind_r (of_period (PeriodPayload p)) (\<lambda>payload.
     bind_r (scheduleKey (sched_Type s) p) (\<lambda>key.
       case Enqueue_Execute jsonb now (scheduled_command s payload key) db of
         (Inl e, _) \<Rightarrow> Inl e
       | (Inr (_, replayed), db') \<Rightarrow> Inr (\<lparr>run_Period = p, run_Created = \<not> replayed\<rparr>, db')))"

text \<open>\<open>for step := spec.CatchUp; step >= 0; step--\<close>: the argument is one more than the step.\<close>

fun queue_steps ::
  "(string \<Rightarrow> string option) \<Rightarrow> (nat \<Rightarrow> time) \<Rightarrow> ScheduleSpec \<Rightarrow> Period \<Rightarrow> nat \<Rightarrow> jobs_db
     \<Rightarrow> jobs_app_error + PeriodRun list \<times> jobs_db" where
  "queue_steps jsonb clock s current 0 db = Inr ([], db)"
| "queue_steps jsonb clock s current (Suc step) db =
     bind_r (of_period (Back current step)) (\<lambda>p.
     bind_r (queue_period jsonb (clock step) s p db) (\<lambda>(run, db1).
     bind_r (queue_steps jsonb clock s current step db1) (\<lambda>(runs, db2). Inr (run # runs, db2))))"

definition queue_schedule ::
  "(string \<Rightarrow> string option) \<Rightarrow> (nat \<Rightarrow> time) \<Rightarrow> time \<Rightarrow> ScheduleSpec \<Rightarrow> jobs_db \<Rightarrow> jobs_app_error + ScheduleReport \<times> jobs_db" where
  "queue_schedule jsonb clock now s db =
     bind_r (of_period (PeriodAt (sched_Interval s) now)) (\<lambda>current.
     bind_r (of_period (Start current)) (\<lambda>start.
     bind_r (queue_steps jsonb clock s current (nat (sched_CatchUp s + 1)) db) (\<lambda>(runs, db').
       Inr (\<lparr>sr_Type = sched_Type s, sr_Interval = sched_Interval s, sr_Current = current,
             sr_LagSeconds = time_Sub now start div ns_per_sec, sr_Runs = runs,
             sr_Created = int (length (filter run_Created runs)),
             sr_Replayed = int (length (filter (\<lambda>r. \<not> run_Created r) runs))\<rparr>, db'))))"

fun queueDue ::
  "(string \<Rightarrow> string option) \<Rightarrow> (JobType \<Rightarrow> nat \<Rightarrow> time) \<Rightarrow> time \<Rightarrow> ScheduleSpec list \<Rightarrow> jobs_db
     \<Rightarrow> jobs_app_error + ScheduleReport list \<times> jobs_db" where
  "queueDue jsonb clock now [] db = Inr ([], db)"
| "queueDue jsonb clock now (s # specs) db =
     bind_r (queue_schedule jsonb (clock (sched_Type s)) now s db) (\<lambda>(rep, db1).
     bind_r (queueDue jsonb clock now specs db1) (\<lambda>(reps, db2). Inr (rep # reps, db2)))"

record Report =
  report_RunAt :: time
  report_LockHeld :: bool
  report_Schedules :: "ScheduleReport list"

text \<open>\<open>WithLock\<close>: the callback runs in the transaction that took the lock, or not at all.\<close>

definition WithLock ::
  "bool \<Rightarrow> (jobs_db \<Rightarrow> jobs_app_error + 'a \<times> jobs_db) \<Rightarrow> jobs_db \<Rightarrow> (jobs_app_error + 'a option) \<times> jobs_db" where
  "WithLock acquired fn db =
     (if \<not> acquired then (Inr None, db)
      else case fn db of Inl e \<Rightarrow> (Inl e, db) | Inr (a, db') \<Rightarrow> (Inr (Some a), db'))"

definition RunAt ::
  "(string \<Rightarrow> string option) \<Rightarrow> bool \<Rightarrow> (JobType \<Rightarrow> nat \<Rightarrow> time) \<Rightarrow> ScheduleSpec list \<Rightarrow> time \<Rightarrow> jobs_db
     \<Rightarrow> (jobs_app_error + Report) \<times> jobs_db" where
  "RunAt jsonb acquired clock specs now db =
     (case WithLock acquired (queueDue jsonb clock now specs) db of
        (Inl e, db') \<Rightarrow> (Inl e, db')
      | (Inr None, db') \<Rightarrow> (Inr \<lparr>report_RunAt = now, report_LockHeld = False, report_Schedules = []\<rparr>, db')
      | (Inr (Some reps), db') \<Rightarrow> (Inr \<lparr>report_RunAt = now, report_LockHeld = True, report_Schedules = reps\<rparr>, db'))"

definition Report_MaxLag :: "Report \<Rightarrow> int" where
  "Report_MaxLag r = fold (\<lambda>s worst. let lag = sr_LagSeconds s * ns_per_sec in if lag > worst then lag else worst)
     (report_Schedules r) 0"

definition Report_Created :: "Report \<Rightarrow> int" where
  "Report_Created r = fold (\<lambda>s total. total + sr_Created s) (report_Schedules r) 0"

end
