(* ===== verification/JobsSchedulerProperties.thy ===== *)
theory JobsSchedulerProperties
  imports JobsScheduler JobsSamples
begin

text \<open>
  What the scheduler promises: the payload of a scheduled run names its period, a pass queues every
  period of its windows once, and a later pass over the same periods queues nothing.
\<close>

section \<open>Payloads\<close>

definition label_char :: "char \<Rightarrow> bool" where
  "label_char c \<longleftrightarrow> is_digit c \<or> c = CHR ''-''"

lemma label_chars: "0 \<le> Year t \<Longrightarrow> list_all label_char (label (period_of iv (slot iv t)))"
proof -
  assume y: "0 \<le> Year t"
  have "list_all label_char (pad_int w x)" if "0 \<le> x" for w x
    using pad_int_digits [OF that, of w] by (rule list.pred_mono_strong) (simp add: label_char_def)
  with y Month_range [of t] Day_range [of "day_of t * ns_per_day"] Month_range [of "day_of t * ns_per_day"]
  show ?thesis
    by (simp add: period_of_def slot_def month_label_def FormatDay_def fmt_int_pad label_char_def Year_def
        flip: Year_month_no Month_month_no)
qed

lemma label_length: "0 \<le> Year t \<Longrightarrow> Year t < 10000 \<Longrightarrow> length (label (period_of iv (slot iv t))) \<le> 10"
proof -
  assume y: "0 \<le> Year t" "Year t < 10000"
  let ?u = "day_of t * ns_per_day"
  have u: "Year ?u = Year t" by (simp add: Year_def)
  have "length (pad_int 4 (Year t)) = 4" "length (pad_int 2 (Month t)) = 2" "length (pad_int 2 (Month ?u)) = 2"
    "length (pad_int 2 (Day ?u)) = 2"
    using y Month_range [of t] Month_range [of ?u] day_label_range [of ?u] by (simp_all add: pad_int_length)
  then show ?thesis using y Month_range [of t]
    by (simp add: period_of_def slot_def month_label_def FormatDay_def fmt_int_pad u flip: Year_month_no Month_month_no)
qed

lemma structure_walk_label:
  "list_all label_char l \<Longrightarrow> structure_walk (l @ rest) d True False c = structure_walk rest d True False c"
  by (induction l) (auto simp: label_char_def is_digit_def)

lemma valid_utf8_label: "list_all label_char l \<Longrightarrow> list_all (\<lambda>c. byte c < 128) l"
  by (erule list.pred_mono_strong) (auto simp: label_char_def is_digit_def)

lemma payload_valid:
  assumes "list_all label_char l" "length l \<le> 10"
  shows "ValidatePayload (payloadPrefix @ l @ payloadSuffix) = Inr ()"
proof -
  let ?p = "payloadPrefix @ l @ payloadSuffix"
  have "list_all (\<lambda>c. byte c < 128) ?p"
    using valid_utf8_label [OF assms(1)] by (simp add: payloadPrefix_def payloadSuffix_def)
  then have "valid_utf8 ?p" by (rule valid_utf8_ascii)
  moreover have "checkObjectStructure ?p = Inr ()"
    using structure_walk_label [OF assms(1)]
    by (simp add: checkObjectStructure_def payloadPrefix_def payloadSuffix_def structure_step_def MaxPayloadDepth_def)
  ultimately show ?thesis using assms(2)
    by (simp add: ValidatePayload_def MaxPayloadBytes_def payloadPrefix_def payloadSuffix_def)
qed

lemma ParsePeriod_label:
  assumes "Interval_IsValid iv" "four_digit_year t"
  shows "ParsePeriod iv (label (period_of iv (slot iv t))) = Inr (period_of iv (slot iv t))"
proof -
  let ?l = "label (period_of iv (slot iv t))"
  have y: "0 \<le> Year t" "Year t < 10000" using assms(2) by (simp_all add: four_digit_year_def)
  have "TrimSpace ?l = ?l" using label_printable [OF y(1)] by simp
  moreover have "?l \<noteq> []" using period_nonzero [OF assms(1)] by (auto simp: Period_IsZero_def)
  ultimately show ?thesis
    using assms(1) startOf_PeriodAt [OF assms(1) y] PeriodAt_slot [OF assms(1), of "slot_start iv (slot iv t)"]
    by (simp add: ParsePeriod_def)
qed

lemma ParsePeriodPayload_built:
  assumes "list_all label_char l"
  shows "ParsePeriodPayload iv (payloadPrefix @ l @ payloadSuffix) = ParsePeriod iv l"
proof -
  have "\<not> list_ex (\<lambda>c. c = CHR 0x22 \<or> c = CHR 0x5C) l"
    using assms by (induction l) (auto simp: label_char_def is_digit_def)
  then show ?thesis by (simp add: ParsePeriodPayload_def Let_def)
qed

text \<open>
  C34. The payload of a scheduled run names its period: for every instant with a four-digit year,
  the built payload is accepted by the queue's own check, and parsing it under the same cadence,
  like parsing the label itself, returns the period.
\<close>
theorem period_payload_roundtrip:
  assumes "Interval_IsValid iv" "four_digit_year t" "PeriodAt iv t = Inr p"
  shows "ParsePeriod iv (label p) = Inr p
    \<and> (\<exists>q. PeriodPayload p = Inr q \<and> ValidatePayload q = Inr () \<and> ParsePeriodPayload iv q = Inr p)"
proof -
  have y: "0 \<le> Year t" "Year t < 10000" using assms(2) by (simp_all add: four_digit_year_def)
  have p: "p = period_of iv (slot iv t)" using assms(3) PeriodAt_slot [OF assms(1)] by simp
  have len: "length (label p) \<le> 10" unfolding p by (rule label_length [OF y])
  have "PeriodPayload p = Inr (payloadPrefix @ label p @ payloadSuffix)"
    using period_nonzero [OF assms(1)] startOf_PeriodAt [OF assms(1) y] len
    by (simp add: PeriodPayload_def p MaxPeriodLabelLength_def)
  then show ?thesis
    using ParsePeriod_label [OF assms(1,2)] payload_valid [OF label_chars [OF y(1)] len [unfolded p]]
      ParsePeriodPayload_built [OF label_chars [OF y(1)], of iv iv]
    by (simp add: p)
qed

theorem period_payload_roundtrip_witness:
  "ParsePeriodPayload IntervalMonthly (payloadPrefix @ ''0001-01'' @ payloadSuffix)
    = Inr \<lparr>interval = IntervalMonthly, label = ''0001-01''\<rparr>"
proof -
  have a: "Interval_IsValid IntervalMonthly" "four_digit_year 0" by (simp_all add: Interval_IsValid_iff four_digit_year_def)
  have b: "PeriodAt IntervalMonthly 0 = Inr \<lparr>interval = IntervalMonthly, label = ''0001-01''\<rparr>" by code_simp
  from period_payload_roundtrip [OF a b] show ?thesis
    by (auto simp: PeriodPayload_def bind_r_Inr_iff split: if_splits)
qed

text \<open>PostgreSQL prints a \<open>jsonb\<close> object with a blank after each colon.\<close>

definition jsonb_spaced :: "(string \<Rightarrow> string option) \<Rightarrow> bool" where
  "jsonb_spaced jsonb \<longleftrightarrow> (\<forall>l. list_all label_char l \<longrightarrow>
     jsonb (payloadPrefix @ l @ payloadSuffix) = Some (butlast payloadPrefix @ '' '' @ [CHR 0x22] @ l @ payloadSuffix))"

text \<open>
  C35. The stored payload of a scheduled run is unreadable: the column is \<open>jsonb\<close>, which prints a
  blank after the colon, and the parser of the payload, which compares bytes, refuses what the
  queue hands back for every period.
\<close>
theorem stored_payload_unreadable:
  assumes "jsonb_spaced jsonb" "Interval_IsValid iv" "four_digit_year t" "PeriodAt iv t = Inr p" "PeriodPayload p = Inr q"
  shows "\<exists>stored. jsonb q = Some stored \<and> ParsePeriodPayload iv stored = Inl ErrInvalidPeriod"
proof -
  have p: "p = period_of iv (slot iv t)" using assms(4) PeriodAt_slot [OF assms(2)] by simp
  have "q = payloadPrefix @ label p @ payloadSuffix"
    using assms(5) by (auto simp: PeriodPayload_def bind_r_Inr_iff split: if_splits)
  moreover have "list_all label_char (label p)" unfolding p using assms(3) by (intro label_chars) (simp add: four_digit_year_def)
  ultimately have "jsonb q = Some (butlast payloadPrefix @ '' '' @ [CHR 0x22] @ label p @ payloadSuffix)"
    using assms(1) by (simp add: jsonb_spaced_def)
  moreover have "ParsePeriodPayload iv (butlast payloadPrefix @ '' '' @ [CHR 0x22] @ label p @ payloadSuffix) = Inl ErrInvalidPeriod"
    by (simp add: ParsePeriodPayload_def payloadPrefix_def)
  ultimately show ?thesis by blast
qed

definition spaced_jsonb :: "string \<Rightarrow> string option" where
  "spaced_jsonb s = Some (if take (length payloadPrefix) s = payloadPrefix
     then butlast payloadPrefix @ '' '' @ drop (length payloadPrefix - 1) s else s)"

theorem stored_payload_unreadable_witness:
  "\<exists>stored. spaced_jsonb (payloadPrefix @ ''0001-01'' @ payloadSuffix) = Some stored
    \<and> ParsePeriodPayload IntervalMonthly stored = Inl ErrInvalidPeriod"
proof -
  have "jsonb_spaced spaced_jsonb" by (simp add: jsonb_spaced_def spaced_jsonb_def payloadPrefix_def)
  moreover have "Interval_IsValid IntervalMonthly" "four_digit_year 0" by (simp_all add: Interval_IsValid_iff four_digit_year_def)
  moreover have "PeriodAt IntervalMonthly 0 = Inr \<lparr>interval = IntervalMonthly, label = ''0001-01''\<rparr>" by code_simp
  moreover have "PeriodPayload \<lparr>interval = IntervalMonthly, label = ''0001-01''\<rparr> = Inr (payloadPrefix @ ''0001-01'' @ payloadSuffix)"
    by code_simp
  ultimately show ?thesis by (rule stored_payload_unreadable)
qed

section \<open>Passes\<close>

lemma enqueue_keeps:
  assumes "jsonb_keeps jsonb" "jobs_ok t db" "1000 \<le> c" "c \<le> t"
  shows "jobs_ok t (snd (Enqueue_Execute jsonb c cmd db)) \<and> jobs_extends db (snd (Enqueue_Execute jsonb c cmd db))"
proof (cases "accepted jsonb c cmd")
  case None
  then show ?thesis using Enqueue_Execute_refused [OF None assms(3), of db] assms(2) by auto
next
  case (Some a)
  have "timestamptz c \<le> t" using timestamptz_le [of c] assms(4) by simp
  then show ?thesis using Enqueue_Execute_ok [OF assms(2,3,1) Some] adds_ok [OF _ assms(2) order.refl] assms(2) by auto
qed

text \<open>The job of a period is in the queue, and the command that queues it is acceptable at any time.\<close>

definition period_queued :: "(string \<Rightarrow> string option) \<Rightarrow> ScheduleSpec \<Rightarrow> Period \<Rightarrow> jobs_db \<Rightarrow> bool" where
  "period_queued jsonb s p db \<longleftrightarrow> (\<exists>payload key. PeriodPayload p = Inr payload \<and> scheduleKey (sched_Type s) p = Inr key
     \<and> keyed_row key db \<noteq> None \<and> (\<forall>c \<ge> 1000. accepted jsonb c (scheduled_command s payload key) \<noteq> None))"

lemma period_queued_later: "period_queued jsonb s p db \<Longrightarrow> jobs_extends db db' \<Longrightarrow> period_queued jsonb s p db'"
  unfolding period_queued_def by (metis keyed_row_later not_None_eq)

lemma accepted_any_time:
  assumes "accepted jsonb c cmd \<noteq> None" "enq_AvailableAt cmd = None" "1000 \<le> d"
  shows "accepted jsonb d cmd \<noteq> None"
  using assms by (auto simp: accepted_def Let_def time_IsZero_def split: sum.splits option.splits if_splits)

lemma scheduleKey_nonempty: "scheduleKey ty p = Inr key \<Longrightarrow> key \<noteq> []"
  by (auto simp: scheduleKey_def Let_def split: if_splits)

lemma enqueue_keyed:
  assumes "jsonb_keeps jsonb" "jobs_ok t db" "1000 \<le> c" "Enqueue_Execute jsonb c cmd db = (Inr res, db')"
    and "enq_IdempotencyKey cmd \<noteq> []"
  shows "accepted jsonb c cmd \<noteq> None \<and> keyed_row (enq_IdempotencyKey cmd) db' \<noteq> None"
proof -
  obtain a where a: "accepted jsonb c cmd = Some a"
    using Enqueue_Execute_refused [of jsonb c cmd db] assms(3,4) by (cases "accepted jsonb c cmd") auto
  obtain m stored available where aa: "a = (m, stored, available)" by (cases a)
  let ?row = "new_row stored c cmd available m db"
  have "jr_IdempotencyKey ?row = Some (enq_IdempotencyKey cmd)" using assms(5) by (simp add: new_row_def pgTextOrNull_def)
  then have "Some (enq_IdempotencyKey cmd) \<in> jr_IdempotencyKey ` set (job_rows db')"
    using Enqueue_Execute_ok(1) [OF assms(2,3,1) a] assms(4) aa
      keyed_row_image [OF assms(5), of db] 
    by (auto simp: enqueue_outcome_def Let_def image_Un split: option.splits if_splits)
  then show ?thesis using a keyed_row_image [OF assms(5), of db'] by simp
qed

lemma queue_period_queues:
  assumes "jsonb_keeps jsonb" "jobs_ok t db" "1000 \<le> c" "c \<le> t" "queue_period jsonb c s p db = Inr (run, db')"
  shows "jobs_ok t db' \<and> jobs_extends db db' \<and> period_queued jsonb s p db'"
proof -
  from assms(5) obtain payload key job replayed where q: "PeriodPayload p = Inr payload" "scheduleKey (sched_Type s) p = Inr key"
    "Enqueue_Execute jsonb c (scheduled_command s payload key) db = (Inr (job, replayed), db')"
  proof -
    note finish = that
    from assms(5) obtain payload key where q: "PeriodPayload p = Inr payload" "scheduleKey (sched_Type s) p = Inr key"
      and e: "(case Enqueue_Execute jsonb c (scheduled_command s payload key) db of
         (Inl e, _) \<Rightarrow> Inl e
       | (Inr (_, replayed), db') \<Rightarrow> Inr (\<lparr>run_Period = p, run_Created = \<not> replayed\<rparr>, db')) = Inr (run, db')"
      unfolding queue_period_def bind_r_Inr_iff wrap_err_Inr_iff by blast
    obtain res db2 where r: "Enqueue_Execute jsonb c (scheduled_command s payload key) db = (res, db2)" by fastforce
    show ?thesis using e finish [OF q] by (cases res) (auto simp: r)
  qed
  let ?cmd = "scheduled_command s payload key"
  have k: "enq_IdempotencyKey ?cmd = key" "enq_AvailableAt ?cmd = None" by (simp_all add: scheduled_command_def)
  have "accepted jsonb c ?cmd \<noteq> None \<and> keyed_row key db' \<noteq> None"
    using enqueue_keyed [OF assms(1-3) q(3)] scheduleKey_nonempty [OF q(2)] k by simp
  then have "period_queued jsonb s p db'" using q(1,2) accepted_any_time [OF _ k(2)] unfolding period_queued_def by blast
  then show ?thesis using enqueue_keeps [OF assms(1-4), of ?cmd] q(3) by simp
qed

lemma queue_period_again:
  assumes "jsonb_keeps jsonb" "jobs_ok t db" "1000 \<le> c" "period_queued jsonb s p db"
  shows "queue_period jsonb c s p db = Inr (\<lparr>run_Period = p, run_Created = False\<rparr>, db)"
proof -
  from assms(4) obtain payload key r a where q: "PeriodPayload p = Inr payload" "scheduleKey (sched_Type s) p = Inr key"
    "keyed_row key db = Some r" "accepted jsonb c (scheduled_command s payload key) = Some a"
    using assms(3) unfolding period_queued_def by blast
  have "Enqueue_Execute jsonb c (scheduled_command s payload key) db = (Inr (job_of_row r, True), db)"
    using Enqueue_Execute_ok(1) [OF assms(2,3,1) q(4)] q(3)
    by (cases a) (simp add: enqueue_outcome_def Let_def scheduled_command_def)
  then show ?thesis using q(1,2) by (simp add: queue_period_def)
qed

lemma queue_steps_queue:
  assumes "jsonb_keeps jsonb" "\<And>k. 1000 \<le> clock k \<and> clock k \<le> t"
  shows "jobs_ok t db \<Longrightarrow> queue_steps jsonb clock s current n db = Inr (runs, db') \<Longrightarrow>
    jobs_ok t db' \<and> jobs_extends db db' \<and> (\<forall>k < n. \<exists>p. Back current k = Inr p \<and> period_queued jsonb s p db')"
proof (induction n arbitrary: db runs)
  case 0
  then show ?case by simp
next
  case (Suc n)
  from Suc.prems(2) obtain p run db1 runs1 where st: "Back current n = Inr p" "queue_period jsonb (clock n) s p db = Inr (run, db1)"
    "queue_steps jsonb clock s current n db1 = Inr (runs1, db')"
    by (auto simp: bind_r_Inr_iff)
  note one = queue_period_queues [OF assms(1) Suc.prems(1) _ _ st(2)]
  have ok1: "jobs_ok t db1" "jobs_extends db db1" "period_queued jsonb s p db1" using one assms(2) by blast+
  note rest = Suc.IH [OF ok1(1) st(3)]
  have "period_queued jsonb s p db'" using period_queued_later [OF ok1(3)] rest by blast
  then show ?case using rest st(1) jobs_extends_trans [OF ok1(2)] less_Suc_eq by auto
qed

lemma queue_steps_again:
  assumes "jsonb_keeps jsonb" "jobs_ok t db" "\<And>k. 1000 \<le> clock k"
  shows "\<forall>k < n. \<exists>p. Back current k = Inr p \<and> period_queued jsonb s p db \<Longrightarrow>
    \<exists>runs. queue_steps jsonb clock s current n db = Inr (runs, db) \<and> list_all (\<lambda>r. \<not> run_Created r) runs"
proof (induction n)
  case 0
  then show ?case by simp
next
  case (Suc n)
  then obtain p runs where "Back current n = Inr p" "period_queued jsonb s p db"
    "queue_steps jsonb clock s current n db = Inr (runs, db)" "list_all (\<lambda>r. \<not> run_Created r) runs"
    by (meson less_Suc_eq)
  then show ?case using queue_period_again [OF assms(1,2,3)] by simp
qed

definition schedule_queued :: "(string \<Rightarrow> string option) \<Rightarrow> time \<Rightarrow> jobs_db \<Rightarrow> ScheduleSpec \<Rightarrow> bool" where
  "schedule_queued jsonb now db s \<longleftrightarrow> (\<exists>current start. PeriodAt (sched_Interval s) now = Inr current \<and> Start current = Inr start
     \<and> (\<forall>k < nat (sched_CatchUp s + 1). \<exists>p. Back current k = Inr p \<and> period_queued jsonb s p db))"

lemma schedule_queued_later: "schedule_queued jsonb now db s \<Longrightarrow> jobs_extends db db' \<Longrightarrow> schedule_queued jsonb now db' s"
  unfolding schedule_queued_def using period_queued_later by blast

lemma queueDue_queues:
  assumes "jsonb_keeps jsonb" "\<And>ty k. 1000 \<le> clock ty k \<and> clock ty k \<le> t"
  shows "jobs_ok t db \<Longrightarrow> queueDue jsonb clock now specs db = Inr (reps, db') \<Longrightarrow>
    jobs_ok t db' \<and> jobs_extends db db' \<and> (\<forall>s \<in> set specs. schedule_queued jsonb now db' s)"
proof (induction specs arbitrary: db reps)
  case Nil
  then show ?case by simp
next
  case (Cons s specs)
  from Cons.prems(2) obtain rep db1 reps1 where st: "queue_schedule jsonb (clock (sched_Type s)) now s db = Inr (rep, db1)"
    "queueDue jsonb clock now specs db1 = Inr (reps1, db')"
    by (auto simp: bind_r_Inr_iff)
  from st(1) obtain current start runs where c: "PeriodAt (sched_Interval s) now = Inr current" "Start current = Inr start"
    "queue_steps jsonb (clock (sched_Type s)) s current (nat (sched_CatchUp s + 1)) db = Inr (runs, db1)"
    by (auto simp: queue_schedule_def bind_r_Inr_iff)
  have one: "jobs_ok t db1 \<and> jobs_extends db db1 \<and>
      (\<forall>k < nat (sched_CatchUp s + 1). \<exists>p. Back current k = Inr p \<and> period_queued jsonb s p db1)"
    by (rule queue_steps_queue [OF assms(1) _ Cons.prems(1) c(3)]) (rule assms(2))
  then have "schedule_queued jsonb now db1 s" using c unfolding schedule_queued_def by blast
  moreover note rest = Cons.IH [OF conjunct1 [OF one] st(2)]
  ultimately have "schedule_queued jsonb now db' s" using schedule_queued_later by blast
  then show ?case using rest one jobs_extends_trans by auto
qed

lemma queueDue_again:
  assumes "jsonb_keeps jsonb" "jobs_ok t db" "\<And>ty k. 1000 \<le> clock ty k"
  shows "\<forall>s \<in> set specs. schedule_queued jsonb now db s \<Longrightarrow>
    \<exists>reps. queueDue jsonb clock now specs db = Inr (reps, db) \<and> list_all (\<lambda>r. sr_Created r = 0) reps"
proof (induction specs)
  case Nil
  then show ?case by simp
next
  case (Cons s specs)
  then obtain reps where reps: "queueDue jsonb clock now specs db = Inr (reps, db)" "list_all (\<lambda>r. sr_Created r = 0) reps"
    by auto
  from Cons.prems obtain current start where c: "PeriodAt (sched_Interval s) now = Inr current" "Start current = Inr start"
    "\<forall>k < nat (sched_CatchUp s + 1). \<exists>p. Back current k = Inr p \<and> period_queued jsonb s p db"
    unfolding schedule_queued_def by auto
  obtain runs where runs: "queue_steps jsonb (clock (sched_Type s)) s current (nat (sched_CatchUp s + 1)) db = Inr (runs, db)"
    "list_all (\<lambda>r. \<not> run_Created r) runs"
    using queue_steps_again [OF assms(1,2) _ c(3), of "clock (sched_Type s)"] assms(3) by blast
  have "filter run_Created runs = []" using runs(2) by (simp add: list_all_iff)
  then show ?case using c runs reps by (simp add: queue_schedule_def)
qed

lemma fold_created: "list_all (\<lambda>r. sr_Created r = 0) reps \<Longrightarrow> fold (\<lambda>s total. total + sr_Created s) reps n = n"
  by (induction reps arbitrary: n) simp_all

text \<open>
  C30. A pass queues each period once: after a pass under the lock has succeeded, and whatever
  happens to the queue in between, a later pass (by any instance, at any instant in the same
  periods, whatever its clock reads) succeeds, creates no job and changes nothing.
\<close>
theorem pass_once:
  assumes "jsonb_keeps jsonb" "jobs_ok t0 db" "\<And>ty k. 1000 \<le> clock ty k \<and> clock ty k \<le> t0"
    and "RunAt jsonb acquired clock specs now db = (Inr rep, db1)" "report_LockHeld rep"
    and "timeline t0 evs t" "db2 = jobs_run jsonb scan audit evs db1"
    and "\<And>ty k. 1000 \<le> clock' ty k" "\<forall>s \<in> set specs. PeriodAt (sched_Interval s) now' = PeriodAt (sched_Interval s) now"
  shows "\<exists>rep'. RunAt jsonb acquired' clock' specs now' db2 = (Inr rep', db2) \<and> Report_Created rep' = 0"
proof -
  from assms(4,5) obtain reps where first: "queueDue jsonb clock now specs db = Inr (reps, db1)"
    by (auto simp: RunAt_def WithLock_def split: if_splits sum.splits prod.splits option.splits)
  have q: "jobs_ok t0 db1 \<and> jobs_extends db db1 \<and> (\<forall>s \<in> set specs. schedule_queued jsonb now db1 s)"
    by (rule queueDue_queues [OF assms(1) _ assms(2) first]) (rule assms(3))
  note run = jobs_run_ok [OF assms(1) conjunct1 [OF q] assms(6), of scan audit, folded assms(7)]
  have "\<forall>s \<in> set specs. schedule_queued jsonb now' db2 s"
    using q run assms(9) schedule_queued_later [of jsonb now db1 _ db2] unfolding schedule_queued_def by auto
  then obtain reps' where again: "queueDue jsonb clock' now' specs db2 = Inr (reps', db2)" "list_all (\<lambda>r. sr_Created r = 0) reps'"
    using queueDue_again [where clock = clock' and now = now' and specs = specs, OF assms(1) conjunct1 [OF run] assms(8)] by blast
  show ?thesis
    using again fold_created [OF again(2), of 0] by (cases acquired') (simp_all add: RunAt_def WithLock_def Report_Created_def)
qed

section \<open>A pass on an empty queue\<close>

definition daily_cleanup :: ScheduleSpec where
  "daily_cleanup = (schedule_entry TypeSessionCleanup IntervalDaily)\<lparr>sched_CatchUp := 0\<rparr>"

definition first_day :: Period where "first_day = \<lparr>interval = IntervalDaily, label = ''0001-01-01''\<rparr>"

lemma first_day: "PeriodAt IntervalDaily 0 = Inr first_day" "PeriodAt IntervalDaily 6000 = Inr first_day" "Start first_day = Inr 0"
  "Back first_day 0 = Inr first_day" "PeriodPayload first_day = Inr (payloadPrefix @ ''0001-01-01'' @ payloadSuffix)"
  "scheduleKey TypeSessionCleanup first_day = Inr ''schedule:session_cleanup:0001-01-01''"
  by code_simp+

abbreviation first_command :: EnqueueCommand where
  "first_command \<equiv> scheduled_command daily_cleanup (payloadPrefix @ ''0001-01-01'' @ payloadSuffix) ''schedule:session_cleanup:0001-01-01''"

lemma first_command_accepted:
  "accepted Some 5000 first_command = Some (DefaultMaxAttempts, payloadPrefix @ ''0001-01-01'' @ payloadSuffix, 5000)"
proof -
  have v: "ValidatePayload (payloadPrefix @ ''0001-01-01'' @ payloadSuffix) = Inr ()"
    by (rule payload_valid) (simp_all add: label_char_def is_digit_def)
  have k: "list_all printable ''schedule:session_cleanup:0001-01-01''" by (simp add: printable_def)
  have "validateCommand first_command = Inr DefaultMaxAttempts"
    using k v by (simp add: validateCommand_def scheduled_command_def daily_cleanup_def schedule_entry_def MaxIdempotencyKeyLength_def Let_def
        JobType_IsValid_iff vocab DefaultMaxAttempts_def)
  then show ?thesis using printable_pg_text [OF k]
    by (simp add: accepted_def) (simp add: DefaultMaxAttempts_def scheduled_command_def daily_cleanup_def schedule_entry_def payloadPrefix_def payloadSuffix_def in_int32_def MinInt32_def MaxInt32_def MaxPayloadBytes_def time_IsZero_def)
qed

lemma first_pass:
  "\<exists>rep db1. RunAt Some True (\<lambda>_ _. 5000) [daily_cleanup] 0 sample_empty = (Inr rep, db1) \<and> report_LockHeld rep"
proof -
  have any: "\<exists>job replayed db1. enqueue_outcome 5000 first_command x sample_empty = (Inr (job, replayed), db1)" for x
    by (cases x) (simp add: enqueue_outcome_def Let_def keyed_row_def sample_empty_def empty_jobs_def, blast)
  have "1000 \<le> (5000::time)" by simp
  from Enqueue_Execute_ok(1) [OF sample_empty_ok this jsonb_keeps_Some first_command_accepted]
  obtain job replayed db1 where "Enqueue_Execute Some 5000 first_command sample_empty = (Inr (job, replayed), db1)"
    using any by metis
  then have "queue_period Some 5000 daily_cleanup first_day sample_empty = Inr (\<lparr>run_Period = first_day, run_Created = \<not> replayed\<rparr>, db1)"
    by (simp add: queue_period_def first_day daily_cleanup_def schedule_entry_def)
  then show ?thesis
    by (simp add: RunAt_def WithLock_def queue_schedule_def first_day) (simp add: daily_cleanup_def schedule_entry_def first_day)
qed

theorem pass_once_witness:
  "\<exists>rep db1 rep'. RunAt Some True (\<lambda>_ _. 5000) [daily_cleanup] 0 sample_empty = (Inr rep, db1)
     \<and> RunAt Some True (\<lambda>_ _. 7000) [daily_cleanup] 6000 db1 = (Inr rep', db1) \<and> Report_Created rep' = 0"
proof -
  obtain rep db1 where run: "RunAt Some True (\<lambda>_ _. 5000) [daily_cleanup] 0 sample_empty = (Inr rep, db1)" "report_LockHeld rep"
    using first_pass by blast
  have "\<exists>rep'. RunAt Some True (\<lambda>_ _. 7000) [daily_cleanup] 6000 db1 = (Inr rep', db1) \<and> Report_Created rep' = 0"
    by (rule pass_once [where scan = scan_canonical and audit = "\<lambda>_. True" and evs = "[]" and t = 5000,
          OF jsonb_keeps_Some sample_empty_ok _ run])
      (simp_all add: timeline_def daily_cleanup_def schedule_entry_def first_day)
  with run(1) show ?thesis by blast
qed
end
