(* ===== verification/ArenasText.thy ===== *)
theory ArenasText
  imports Postgres
begin

text \<open>
  The value objects of \<open>internal/arenas/domain\<close>: statements and contexts (\<open>statement.go\<close>,
  \<open>policy.go\<close>), moderation reasons (\<open>reason.go\<close>), categories, languages and slugs (\<open>category.go\<close>,
  \<open>language.go\<close>, \<open>slug.go\<close>). What a parser accepts is in a form that the parser leaves alone, which
  is what lets a stored row be read back.
\<close>

section \<open>Errors\<close>

datatype arenas_error =
    ErrEmptyArenaID | ErrEmptyCreatorID | ErrInvalidVersion | ErrInvalidPolicy | ErrEmptyStatement
  | ErrStatementTooShort | ErrStatementTooLong | ErrInvalidStatement | ErrContextTooLong | ErrInvalidContext
  | ErrEmptySlug | ErrInvalidSlug | ErrEmptyLanguage | ErrInvalidLanguage | ErrUnsupportedLanguage
  | ErrEmptyCategory | ErrInvalidCategory | ErrInvalidStatus | ErrInvalidStatusChange | ErrArenaNotDraft
  | ErrMissingSlug | ErrInvalidCloseDate | ErrArenaNotOpen | ErrActorRequired | ErrEmptyReason
  | ErrInvalidReason | ErrReasonTooLong

section \<open>Policies\<close>

record StatementPolicy =
  policy_Version :: string
  MinLength :: int
  MaxLength :: int
  ContextMaxLength :: int

definition DefaultStatementPolicy :: StatementPolicy where
  "DefaultStatementPolicy = \<lparr>policy_Version = ''2026-09'', MinLength = 10, MaxLength = 280, ContextMaxLength = 2000\<rparr>"

definition StatementPolicy_IsValid :: "StatementPolicy \<Rightarrow> bool" where
  "StatementPolicy_IsValid p \<longleftrightarrow> MinLength p > 0 \<and> MaxLength p \<ge> MinLength p \<and> ContextMaxLength p > 0"

definition ReconstitutionPolicy :: StatementPolicy where
  "ReconstitutionPolicy =
     \<lparr>policy_Version = ''reconstitution'', MinLength = 1, MaxLength = MaxInt64, ContextMaxLength = MaxInt64\<rparr>"

definition SlugMinLength :: nat where "SlugMinLength = 3"
definition SlugMaxLength :: nat where "SlugMaxLength = 80"
definition CategoryMinLength :: nat where "CategoryMinLength = 2"
definition CategoryMaxLength :: nat where "CategoryMaxLength = 40"

section \<open>Statements, contexts and reasons\<close>

datatype Statement = Statement (statement_String: string)
datatype Context = Context (context_String: string)
datatype Reason = Reason (reason_String: string)

fun crlf_to_lf :: "string \<Rightarrow> string" where
  "crlf_to_lf (c # d # s) =
     (if c = CHR 0x0D \<and> d = CHR 0x0A then CHR 0x0A # crlf_to_lf s else c # crlf_to_lf (d # s))"
| "crlf_to_lf s = s"

definition cr_to_lf :: "string \<Rightarrow> string" where
  "cr_to_lf = map (\<lambda>c. if c = CHR 0x0D then CHR 0x0A else c)"

definition normalizeText :: "string \<Rightarrow> string" where
  "normalizeText raw = TrimSpace (cr_to_lf (crlf_to_lf raw))"

definition isBidiOverride :: "nat \<Rightarrow> bool" where
  "isBidiOverride r \<longleftrightarrow> r \<in> {0x200E, 0x200F, 0x061C, 0x202A, 0x202B, 0x202C, 0x202D, 0x202E, 0x2066, 0x2067, 0x2068, 0x2069}"

definition containsUnsupportedRunes :: "string \<Rightarrow> bool" where
  "containsUnsupportedRunes v \<longleftrightarrow> list_ex (\<lambda>r. isBidiOverride r \<or> r \<noteq> 10 \<and> is_control r) (runes v)"

definition ParseStatement :: "string \<Rightarrow> StatementPolicy \<Rightarrow> arenas_error + Statement" where
  "ParseStatement raw policy =
     (if \<not> StatementPolicy_IsValid policy then Inl ErrInvalidPolicy
      else if \<not> valid_utf8 raw then Inl ErrInvalidStatement
      else let normalized = normalizeText raw in
      if normalized = [] then Inl ErrEmptyStatement
      else if int (length (runes normalized)) < MinLength policy then Inl ErrStatementTooShort
      else if int (length (runes normalized)) > MaxLength policy then Inl ErrStatementTooLong
      else if containsUnsupportedRunes normalized then Inl ErrInvalidStatement
      else Inr (Statement normalized))"

definition Statement_IsZero :: "Statement \<Rightarrow> bool" where "Statement_IsZero s \<longleftrightarrow> statement_String s = []"

definition ParseContext :: "string \<Rightarrow> StatementPolicy \<Rightarrow> arenas_error + Context" where
  "ParseContext raw policy =
     (if \<not> StatementPolicy_IsValid policy then Inl ErrInvalidPolicy
      else if \<not> valid_utf8 raw then Inl ErrInvalidContext
      else let normalized = normalizeText raw in
      if normalized = [] then Inr (Context [])
      else if int (length (runes normalized)) > ContextMaxLength policy then Inl ErrContextTooLong
      else if containsUnsupportedRunes normalized then Inl ErrInvalidContext
      else Inr (Context normalized))"

definition Context_IsZero :: "Context \<Rightarrow> bool" where "Context_IsZero c \<longleftrightarrow> context_String c = []"

definition maxReasonLength :: nat where "maxReasonLength = 500"

definition ParseReason :: "string \<Rightarrow> arenas_error + Reason" where
  "ParseReason raw =
     (if \<not> valid_utf8 raw then Inl ErrInvalidReason
      else let trimmed = TrimSpace raw in
      if trimmed = [] then Inl ErrEmptyReason
      else if length (runes trimmed) > maxReasonLength then Inl ErrReasonTooLong
      else if list_ex (\<lambda>r. is_control r \<or> isBidiOverride r) (runes trimmed) then Inl ErrInvalidReason
      else Inr (Reason trimmed))"

definition Reason_IsZero :: "Reason \<Rightarrow> bool" where "Reason_IsZero r \<longleftrightarrow> reason_String r = []"

section \<open>Categories\<close>

datatype Category = Category (category_String: string)

definition lower_alnum :: "char \<Rightarrow> bool" where
  "lower_alnum c \<longleftrightarrow> 97 \<le> byte c \<and> byte c \<le> 122 \<or> 48 \<le> byte c \<and> byte c \<le> 57"

text \<open>The loop over the bytes: \<open>first\<close> tells that the index is 0.\<close>

fun category_bytes :: "bool \<Rightarrow> string \<Rightarrow> bool" where
  "category_bytes first [] = True"
| "category_bytes first (b # rest) =
     (if lower_alnum b then category_bytes False rest
      else if b = CHR ''-'' then (if first \<or> rest = [] then False else category_bytes False rest)
      else False)"

definition ParseCategory :: "string \<Rightarrow> arenas_error + Category" where
  "ParseCategory raw =
     (let trimmed = TrimSpace raw in
      if trimmed = [] then Inl ErrEmptyCategory
      else if length trimmed < CategoryMinLength \<or> length trimmed > CategoryMaxLength then Inl ErrInvalidCategory
      else if \<not> category_bytes True trimmed then Inl ErrInvalidCategory
      else Inr (Category trimmed))"

definition Category_IsZero :: "Category \<Rightarrow> bool" where "Category_IsZero c \<longleftrightarrow> category_String c = []"

section \<open>Languages\<close>

datatype Language = Language (language_String: string)

definition LanguagePortuguese :: string where "LanguagePortuguese = ''pt-BR''"
definition LanguageEnglish :: string where "LanguageEnglish = ''en-US''"

definition supportedLanguages :: "string list" where "supportedLanguages = [LanguagePortuguese, LanguageEnglish]"

definition SupportedLanguages :: "Language list" where
  "SupportedLanguages = [Language LanguagePortuguese, Language LanguageEnglish]"

definition isASCIIAlpha :: "string \<Rightarrow> bool" where
  "isASCIIAlpha s \<longleftrightarrow> s \<noteq> [] \<and> list_all (\<lambda>c. 97 \<le> byte c \<and> byte c \<le> 122 \<or> 65 \<le> byte c \<and> byte c \<le> 90) s"

definition isASCIIDigit :: "string \<Rightarrow> bool" where
  "isASCIIDigit s \<longleftrightarrow> s \<noteq> [] \<and> list_all is_digit s"

definition canonicalizeLanguageTag :: "string \<Rightarrow> arenas_error + string" where
  "canonicalizeLanguageTag v =
     (if list_ex (\<lambda>c. byte c \<ge> 128) v then Inl ErrInvalidLanguage
      else if v = ''*'' then Inl ErrInvalidLanguage
      else let subtags = split_on (CHR ''-'') v in
      if length subtags > 2 then Inl ErrInvalidLanguage
      else let lang = ascii_lower (subtags ! 0) in
      if length lang < 2 \<or> length lang > 3 \<or> \<not> isASCIIAlpha lang then Inl ErrInvalidLanguage
      else if length subtags = 2 then
        (let region = subtags ! 1 in
         if length region = 2 \<and> isASCIIAlpha region then Inr (lang @ ''-'' @ ascii_upper region)
         else if length region = 3 \<and> isASCIIDigit region then Inr (lang @ ''-'' @ region)
         else Inl ErrInvalidLanguage)
      else Inr lang)"

definition ParseLanguage :: "string \<Rightarrow> arenas_error + Language" where
  "ParseLanguage raw =
     (let trimmed = TrimSpace raw in
      if trimmed = [] then Inl ErrEmptyLanguage
      else bind_r (canonicalizeLanguageTag trimmed) (\<lambda>canonical.
        if canonical \<notin> set supportedLanguages then Inl ErrUnsupportedLanguage else Inr (Language canonical)))"

definition Language_IsZero :: "Language \<Rightarrow> bool" where "Language_IsZero l \<longleftrightarrow> language_String l = []"

section \<open>Slugs\<close>

datatype Slug = Slug (slug_String: string)

text \<open>The loop over the bytes: the previous byte was a hyphen, the index is 0.\<close>

fun slug_bytes :: "bool \<Rightarrow> bool \<Rightarrow> string \<Rightarrow> bool" where
  "slug_bytes previousHyphen first [] = True"
| "slug_bytes previousHyphen first (b # rest) =
     (if lower_alnum b then slug_bytes False False rest
      else if b = CHR ''-'' then
        (if previousHyphen \<or> first \<or> rest = [] then False else slug_bytes True False rest)
      else False)"

definition ParseSlug :: "string \<Rightarrow> arenas_error + Slug" where
  "ParseSlug raw =
     (let trimmed = TrimSpace raw in
      if trimmed = [] then Inl ErrEmptySlug
      else if length trimmed < SlugMinLength \<or> length trimmed > SlugMaxLength then Inl ErrInvalidSlug
      else if \<not> slug_bytes False True trimmed then Inl ErrInvalidSlug
      else Inr (Slug trimmed))"

definition Slug_IsZero :: "Slug \<Rightarrow> bool" where "Slug_IsZero s \<longleftrightarrow> slug_String s = []"

text \<open>
  \<open>unicode.ToLower\<close> as far as \<open>Slugify\<close> can tell: the code points whose lower case lies below
  U+0100. The lower case of every other code point is above it, where \<open>Slugify\<close> drops it.
\<close>

definition lower_rune :: "nat \<Rightarrow> nat" where
  "lower_rune r =
     (if 65 \<le> r \<and> r \<le> 90 then r + 32
      else if 0xC0 \<le> r \<and> r \<le> 0xDE \<and> r \<noteq> 0xD7 then r + 32
      else if r = 0x130 then 105
      else if r = 0x178 then 0xFF
      else if r = 0x1E9E then 0xDF
      else if r = 0x212A then 107
      else if r = 0x212B then 0xE5
      else r)"

definition slugTransliterations :: "nat \<Rightarrow> char option" where
  "slugTransliterations r =
     (if 0xE0 \<le> r \<and> r \<le> 0xE5 then Some (CHR ''a'')
      else if 0xE8 \<le> r \<and> r \<le> 0xEB then Some (CHR ''e'')
      else if 0xEC \<le> r \<and> r \<le> 0xEF then Some (CHR ''i'')
      else if 0xF2 \<le> r \<and> r \<le> 0xF6 then Some (CHR ''o'')
      else if 0xF9 \<le> r \<and> r \<le> 0xFC then Some (CHR ''u'')
      else if r = 0xE7 then Some (CHR ''c'')
      else if r = 0xF1 then Some (CHR ''n'')
      else if r = 0xFD \<or> r = 0xFF then Some (CHR ''y'')
      else None)"

definition slug_rune :: "nat \<Rightarrow> string" where
  "slug_rune r =
     (case slugTransliterations r of
        Some c \<Rightarrow> [c]
      | None \<Rightarrow> if 97 \<le> r \<and> r \<le> 122 \<or> 48 \<le> r \<and> r \<le> 57 then [char_of r] else [])"

fun slugify_runes :: "nat list \<Rightarrow> string \<Rightarrow> bool \<Rightarrow> string" where
  "slugify_runes [] built pendingSeparator = built"
| "slugify_runes (r # rs) built pendingSeparator =
     (let mapped = slug_rune r in
      if mapped = [] then slugify_runes rs built (pendingSeparator \<or> built \<noteq> [])
      else if pendingSeparator then slugify_runes rs (built @ ''-'' @ mapped) False
      else slugify_runes rs (built @ mapped) False)"

definition Slugify :: "string \<Rightarrow> string" where
  "Slugify source = slugify_runes (map lower_rune (runes source)) [] False"

end
