(* ===== verification/ArenasDomain.thy ===== *)
theory ArenasDomain
  imports ArenasText
begin

text \<open>
  \<open>internal/arenas/domain/arena.go\<close>: the Arena and its lifecycle. A method that changes the Arena
  returns the new one or the error; the version is an \<open>int32\<close> and wraps around.
\<close>

type_synonym ArenaID = string
type_synonym CreatorID = string
type_synonym ModeratorID = string
type_synonym ArenaStatus = string

definition ArenaID_IsZero :: "ArenaID \<Rightarrow> bool" where "ArenaID_IsZero i \<longleftrightarrow> i = []"
definition CreatorID_IsZero :: "CreatorID \<Rightarrow> bool" where "CreatorID_IsZero i \<longleftrightarrow> i = []"
definition ModeratorID_IsZero :: "ModeratorID \<Rightarrow> bool" where "ModeratorID_IsZero i \<longleftrightarrow> i = []"

definition ArenaStatusDraft :: ArenaStatus where [vocab]: "ArenaStatusDraft = ''draft''"
definition ArenaStatusPublished :: ArenaStatus where [vocab]: "ArenaStatusPublished = ''published''"
definition ArenaStatusClosed :: ArenaStatus where [vocab]: "ArenaStatusClosed = ''closed''"
definition ArenaStatusRestricted :: ArenaStatus where [vocab]: "ArenaStatusRestricted = ''restricted''"
definition ArenaStatusRemoved :: ArenaStatus where [vocab]: "ArenaStatusRemoved = ''removed''"

definition ArenaStatus_IsValid :: "ArenaStatus \<Rightarrow> bool" where
  "ArenaStatus_IsValid s \<longleftrightarrow>
     s = ArenaStatusDraft \<or> s = ArenaStatusPublished \<or> s = ArenaStatusClosed \<or> s = ArenaStatusRestricted
     \<or> s = ArenaStatusRemoved"

record Arena =
  arena_id :: ArenaID
  arena_creatorID :: CreatorID
  arena_statement :: Statement
  arena_context :: Context
  arena_category :: Category
  arena_language :: Language
  arena_status :: ArenaStatus
  arena_slug :: Slug
  arena_version :: int
  arena_createdAt :: time
  arena_publishedAt :: "time option"
  arena_closesAt :: "time option"

definition ReconstituteArena :: "Arena \<Rightarrow> arenas_error + Arena" where
  "ReconstituteArena a =
     (if ArenaID_IsZero (arena_id a) then Inl ErrEmptyArenaID
      else if CreatorID_IsZero (arena_creatorID a) then Inl ErrEmptyCreatorID
      else if Statement_IsZero (arena_statement a) then Inl ErrEmptyStatement
      else if Category_IsZero (arena_category a) then Inl ErrEmptyCategory
      else if Language_IsZero (arena_language a) then Inl ErrEmptyLanguage
      else if \<not> ArenaStatus_IsValid (arena_status a) then Inl ErrInvalidStatus
      else if arena_version a < 1 then Inl ErrInvalidVersion
      else if arena_status a = ArenaStatusDraft \<and> (\<not> Slug_IsZero (arena_slug a) \<or> arena_publishedAt a \<noteq> None)
        then Inl ErrInvalidStatusChange
      else if arena_status a \<noteq> ArenaStatusDraft \<and> (Slug_IsZero (arena_slug a) \<or> arena_publishedAt a = None)
        then Inl ErrInvalidStatusChange
      else (case arena_closesAt a of
          None \<Rightarrow> Inr a
        | Some closes \<Rightarrow> (case arena_publishedAt a of
            None \<Rightarrow> Inl ErrInvalidCloseDate
          | Some published \<Rightarrow> if closes > published then Inr a else Inl ErrInvalidCloseDate)))"

definition IsDraft :: "Arena \<Rightarrow> bool" where
  "IsDraft a \<longleftrightarrow> arena_status a = ArenaStatusDraft"

definition AcceptsParticipation :: "Arena \<Rightarrow> bool" where
  "AcceptsParticipation a \<longleftrightarrow> arena_status a = ArenaStatusPublished"

definition EnsureAcceptsParticipation :: "Arena \<Rightarrow> arenas_error + unit" where
  "EnsureAcceptsParticipation a = (if \<not> AcceptsParticipation a then Inl ErrArenaNotOpen else Inr ())"

text \<open>\<open>a.version++\<close>.\<close>

definition bump :: "Arena \<Rightarrow> Arena" where
  "bump a = a\<lparr>arena_version := wrap32 (arena_version a + 1)\<rparr>"

definition UpdateDraft ::
  "Arena \<Rightarrow> Statement option \<Rightarrow> Context option \<Rightarrow> Category option \<Rightarrow> Language option \<Rightarrow> arenas_error + Arena" where
  "UpdateDraft a statement ctx category lang =
     (if arena_status a \<noteq> ArenaStatusDraft then Inl ErrArenaNotDraft
      else Inr (bump (a\<lparr>arena_statement := (case statement of None \<Rightarrow> arena_statement a | Some s \<Rightarrow> s),
                       arena_context := (case ctx of None \<Rightarrow> arena_context a | Some c \<Rightarrow> c),
                       arena_category := (case category of None \<Rightarrow> arena_category a | Some c \<Rightarrow> c),
                       arena_language := (case lang of None \<Rightarrow> arena_language a | Some l \<Rightarrow> l)\<rparr>)))"

definition Publish :: "Arena \<Rightarrow> Slug \<Rightarrow> time \<Rightarrow> arenas_error + Arena" where
  "Publish a slug now =
     (if arena_status a \<noteq> ArenaStatusDraft then Inl ErrInvalidStatusChange
      else if Slug_IsZero slug then Inl ErrMissingSlug
      else Inr (bump (a\<lparr>arena_status := ArenaStatusPublished, arena_slug := slug, arena_publishedAt := Some now\<rparr>)))"

definition Arena_Close :: "Arena \<Rightarrow> arenas_error + Arena" where
  "Arena_Close a =
     (if arena_status a \<noteq> ArenaStatusPublished then Inl ErrInvalidStatusChange
      else Inr (bump (a\<lparr>arena_status := ArenaStatusClosed\<rparr>)))"

definition Restrict :: "Arena \<Rightarrow> arenas_error + Arena" where
  "Restrict a =
     (if arena_status a = ArenaStatusPublished \<or> arena_status a = ArenaStatusClosed
      then Inr (bump (a\<lparr>arena_status := ArenaStatusRestricted\<rparr>)) else Inl ErrInvalidStatusChange)"

definition Remove :: "Arena \<Rightarrow> arenas_error + Arena" where
  "Remove a =
     (if arena_status a = ArenaStatusPublished \<or> arena_status a = ArenaStatusClosed \<or> arena_status a = ArenaStatusRestricted
      then Inr (bump (a\<lparr>arena_status := ArenaStatusRemoved\<rparr>)) else Inl ErrInvalidStatusChange)"

definition ScheduleClose :: "Arena \<Rightarrow> time \<Rightarrow> arenas_error + Arena" where
  "ScheduleClose a closesAt =
     (if arena_status a \<noteq> ArenaStatusPublished then Inl ErrInvalidStatusChange
      else case arena_publishedAt a of
        None \<Rightarrow> Inl ErrInvalidStatusChange
      | Some published \<Rightarrow>
          if \<not> closesAt > published then Inl ErrInvalidCloseDate
          else Inr (bump (a\<lparr>arena_closesAt := Some closesAt\<rparr>)))"

definition ClearCloseSchedule :: "Arena \<Rightarrow> arenas_error + Arena" where
  "ClearCloseSchedule a =
     (if arena_status a \<noteq> ArenaStatusPublished then Inl ErrInvalidStatusChange
      else Inr (bump (a\<lparr>arena_closesAt := None\<rparr>)))"

definition CloseIfDue :: "Arena \<Rightarrow> time \<Rightarrow> Arena \<times> bool" where
  "CloseIfDue a now =
     (case arena_closesAt a of
        None \<Rightarrow> (a, False)
      | Some closes \<Rightarrow>
          if arena_status a \<noteq> ArenaStatusPublished then (a, False)
          else if now < closes then (a, False)
          else (bump (a\<lparr>arena_status := ArenaStatusClosed\<rparr>), True))"

end
