(* ===== verification/ArenasStore.thy ===== *)
theory ArenasStore
  imports ArenasDomain
begin

text \<open>
  The table \<open>app.arenas\<close> (migration 00012, with its checks and its trigger), the statements of
  \<open>internal/platform/postgres/arenas.sql.go\<close>, the two statements of \<open>moderation.sql.go\<close> that write
  this table, and the repository
  \<open>internal/arenas/adapters/postgres/repository.go\<close>. \<open>scan\<close> stands for \<open>pgtype.UUID.Scan\<close>.
\<close>

section \<open>The table\<close>

record AppArena =
  ar_ID :: uuid
  ar_CreatorID :: uuid
  ar_Slug :: "string option"
  ar_Statement :: string
  ar_Context :: "string option"
  ar_Category :: string
  ar_Language :: string
  ar_Status :: string
  ar_Version :: int
  ar_CreatedAt :: time
  ar_PublishedAt :: "time option"
  ar_ClosesAt :: "time option"

text \<open>
  \<open>arena_accounts\<close> and \<open>category_slugs\<close> are the keys the foreign keys refer to, \<open>arena_uuid_gen\<close>
  and \<open>arena_uuid_next\<close> the values of \<open>uuidv7()\<close>.
\<close>

record arenas_db =
  arena_rows :: "AppArena list"
  arena_accounts :: "uuid list"
  category_slugs :: "string list"
  arena_uuid_gen :: "nat \<Rightarrow> uuid"
  arena_uuid_next :: nat

text \<open>\<open>slug ~ '^[a-z0-9]([a-z0-9-]{1,78}[a-z0-9])$'\<close>.\<close>

definition slug_format :: "string \<Rightarrow> bool" where
  "slug_format s \<longleftrightarrow> 3 \<le> length s \<and> length s \<le> 80 \<and> lower_alnum (hd s) \<and> lower_alnum (last s)
     \<and> list_all (\<lambda>c. lower_alnum c \<or> c = CHR ''-'') s"

definition arenas_checks :: "AppArena \<Rightarrow> bool" where
  "arenas_checks r \<longleftrightarrow>
     (case ar_Slug r of None \<Rightarrow> True | Some s \<Rightarrow> slug_format s)
   \<and> \<not> sql_blank (ar_Statement r) \<and> length (runes (ar_Statement r)) \<le> 2000
   \<and> (case ar_Context r of None \<Rightarrow> True | Some c \<Rightarrow> \<not> sql_blank c \<and> length (runes c) \<le> 10000)
   \<and> ar_Language r \<in> {''pt-BR'', ''en-US''}
   \<and> ar_Status r \<in> {''draft'', ''published'', ''closed'', ''restricted'', ''removed''}
   \<and> 0 < ar_Version r
   \<and> (ar_Status r = ''draft'') = (ar_PublishedAt r = None)
   \<and> (ar_Status r = ''draft'') = (ar_Slug r = None)
   \<and> (case ar_ClosesAt r of None \<Rightarrow> True
      | Some c \<Rightarrow> (case ar_PublishedAt r of None \<Rightarrow> False | Some p \<Rightarrow> p < c))"

text \<open>The trigger \<open>arenas_protect_published\<close> on an update.\<close>

definition protect_published :: "AppArena \<Rightarrow> AppArena \<Rightarrow> bool" where
  "protect_published old new \<longleftrightarrow> ar_Status old \<noteq> ''draft'' \<longrightarrow>
     ar_Statement new = ar_Statement old \<and> ar_Language new = ar_Language old \<and> ar_CreatorID new = ar_CreatorID old
     \<and> ar_Slug new = ar_Slug old \<and> ar_PublishedAt new = ar_PublishedAt old \<and> ar_CreatedAt new = ar_CreatedAt old"

definition texts_ok :: "AppArena \<Rightarrow> bool" where
  "texts_ok r \<longleftrightarrow> pg_text (ar_Statement r) \<and> pg_text (ar_Category r) \<and> pg_text (ar_Language r)
     \<and> (case ar_Context r of None \<Rightarrow> True | Some c \<Rightarrow> pg_text c) \<and> (case ar_Slug r of None \<Rightarrow> True | Some s \<Rightarrow> pg_text s)"

section \<open>Statements\<close>

definition sql_CreateArena ::
  "uuid \<Rightarrow> string \<Rightarrow> string option \<Rightarrow> string \<Rightarrow> string \<Rightarrow> time \<Rightarrow> arenas_db \<Rightarrow> pg_error + AppArena \<times> arenas_db" where
  "sql_CreateArena creator statement ctx category lang now db =
     (let row = \<lparr>ar_ID = arena_uuid_gen db (arena_uuid_next db), ar_CreatorID = creator, ar_Slug = None,
           ar_Statement = statement, ar_Context = ctx, ar_Category = category, ar_Language = lang,
           ar_Status = ''draft'', ar_Version = 1, ar_CreatedAt = timestamptz now, ar_PublishedAt = None, ar_ClosesAt = None\<rparr> in
      if \<not> texts_ok row then Inl InvalidText
      else if \<not> arenas_checks row then Inl CheckViolation
      else if ar_ID row \<in> ar_ID ` set (arena_rows db) then Inl UniqueViolation
      else if creator \<notin> set (arena_accounts db) \<or> category \<notin> set (category_slugs db) then Inl ForeignKeyViolation
      else Inr (row, db\<lparr>arena_rows := arena_rows db @ [row], arena_uuid_next := Suc (arena_uuid_next db)\<rparr>))"

definition find_arena :: "(AppArena \<Rightarrow> bool) \<Rightarrow> arenas_db \<Rightarrow> pg_error + AppArena" where
  "find_arena P db = (case find P (arena_rows db) of None \<Rightarrow> Inl NoRows | Some r \<Rightarrow> Inr r)"

definition sql_GetArenaByID :: "uuid \<Rightarrow> arenas_db \<Rightarrow> pg_error + AppArena" where
  "sql_GetArenaByID i db = find_arena (\<lambda>r. ar_ID r = i) db"

definition sql_GetArenaForCreator :: "uuid \<Rightarrow> uuid \<Rightarrow> arenas_db \<Rightarrow> pg_error + AppArena" where
  "sql_GetArenaForCreator i creator db = find_arena (\<lambda>r. ar_ID r = i \<and> ar_CreatorID r = creator) db"

definition sql_GetArenaStateByID :: "uuid \<Rightarrow> arenas_db \<Rightarrow> pg_error + string \<times> int" where
  "sql_GetArenaStateByID i db = bind_r (find_arena (\<lambda>r. ar_ID r = i) db) (\<lambda>r. Inr (ar_Status r, ar_Version r))"

definition sql_GetArenaStateForCreator :: "uuid \<Rightarrow> uuid \<Rightarrow> arenas_db \<Rightarrow> pg_error + string \<times> int" where
  "sql_GetArenaStateForCreator i creator db =
     bind_r (find_arena (\<lambda>r. ar_ID r = i \<and> ar_CreatorID r = creator) db) (\<lambda>r. Inr (ar_Status r, ar_Version r))"

definition sql_GetArenaStatusBySlug :: "string \<Rightarrow> arenas_db \<Rightarrow> pg_error + string" where
  "sql_GetArenaStatusBySlug slug db = bind_r (find_arena (\<lambda>r. ar_Slug r = Some slug) db) (\<lambda>r. Inr (ar_Status r))"

definition public_statuses :: "string list" where
  "public_statuses = [''published'', ''closed'', ''restricted'']"

definition sql_GetPublicArenaBySlug :: "string \<Rightarrow> arenas_db \<Rightarrow> pg_error + AppArena" where
  "sql_GetPublicArenaBySlug slug db =
     find_arena (\<lambda>r. ar_Slug r = Some slug \<and> ar_Status r \<in> set public_statuses) db"

definition created_key :: "AppArena \<Rightarrow> keyset" where
  "created_key r = Keyset (ar_CreatedAt r) (ar_ID r)"

definition sql_ListArenaDraftsForCreator :: "uuid \<Rightarrow> arenas_db \<Rightarrow> AppArena list" where
  "sql_ListArenaDraftsForCreator creator db =
     rev (sort_key created_key (filter (\<lambda>r. ar_CreatorID r = creator \<and> ar_Status r = ''draft'') (arena_rows db)))"

text \<open>\<open>UPDATE app.arenas SET ... WHERE hit RETURNING ...\<close>: \<open>hit\<close> names the primary key, so it selects at most one row.\<close>

definition update_arena ::
  "(AppArena \<Rightarrow> bool) \<Rightarrow> (AppArena \<Rightarrow> AppArena) \<Rightarrow> arenas_db \<Rightarrow> pg_error + AppArena \<times> arenas_db" where
  "update_arena hit change db =
     (case find hit (arena_rows db) of
        None \<Rightarrow> Inl NoRows
      | Some old \<Rightarrow>
          (let new = (change old)\<lparr>ar_Version := ar_Version old + 1\<rparr> in
           if \<not> in_int32 (ar_Version new) then Inl NumericOutOfRange
           else if \<not> texts_ok new then Inl InvalidText
           else if \<not> protect_published old new \<or> \<not> arenas_checks new then Inl CheckViolation
           else if ar_Slug new \<noteq> None \<and> (\<exists>r \<in> set (arena_rows db). ar_ID r \<noteq> ar_ID old \<and> ar_Slug r = ar_Slug new)
             then Inl UniqueViolation
           else if ar_Category new \<notin> set (category_slugs db) then Inl ForeignKeyViolation
           else Inr (new, db\<lparr>arena_rows := map (\<lambda>r. if ar_ID r = ar_ID old then new else r) (arena_rows db)\<rparr>)))"

definition sql_UpdateArenaDraft ::
  "uuid \<Rightarrow> uuid \<Rightarrow> string \<Rightarrow> string option \<Rightarrow> string \<Rightarrow> string \<Rightarrow> int \<Rightarrow> arenas_db \<Rightarrow> pg_error + AppArena \<times> arenas_db" where
  "sql_UpdateArenaDraft i creator statement ctx category lang version =
     update_arena (\<lambda>r. ar_ID r = i \<and> ar_CreatorID r = creator \<and> ar_Version r = version \<and> ar_Status r = ''draft'')
       (\<lambda>r. r\<lparr>ar_Statement := statement, ar_Context := ctx, ar_Category := category, ar_Language := lang\<rparr>)"

definition sql_PublishArenaDraft ::
  "uuid \<Rightarrow> uuid \<Rightarrow> string \<Rightarrow> time \<Rightarrow> int \<Rightarrow> arenas_db \<Rightarrow> pg_error + AppArena \<times> arenas_db" where
  "sql_PublishArenaDraft i creator slug publishedAt version =
     update_arena (\<lambda>r. ar_ID r = i \<and> ar_CreatorID r = creator \<and> ar_Status r = ''draft'' \<and> ar_Version r = version)
       (\<lambda>r. r\<lparr>ar_Status := ''published'', ar_Slug := Some slug, ar_PublishedAt := Some (timestamptz publishedAt)\<rparr>)"

definition sql_CloseArena :: "uuid \<Rightarrow> uuid \<Rightarrow> int \<Rightarrow> arenas_db \<Rightarrow> pg_error + AppArena \<times> arenas_db" where
  "sql_CloseArena i creator version =
     update_arena (\<lambda>r. ar_ID r = i \<and> ar_CreatorID r = creator \<and> ar_Status r = ''published'' \<and> ar_Version r = version)
       (\<lambda>r. r\<lparr>ar_Status := ''closed''\<rparr>)"

definition sql_RestrictArena :: "uuid \<Rightarrow> int \<Rightarrow> arenas_db \<Rightarrow> pg_error + AppArena \<times> arenas_db" where
  "sql_RestrictArena i version =
     update_arena (\<lambda>r. ar_ID r = i \<and> ar_Status r \<in> {''published'', ''closed''} \<and> ar_Version r = version)
       (\<lambda>r. r\<lparr>ar_Status := ''restricted''\<rparr>)"

definition sql_RemoveArena :: "uuid \<Rightarrow> int \<Rightarrow> arenas_db \<Rightarrow> pg_error + AppArena \<times> arenas_db" where
  "sql_RemoveArena i version =
     update_arena (\<lambda>r. ar_ID r = i \<and> ar_Status r \<in> {''published'', ''closed'', ''restricted''} \<and> ar_Version r = version)
       (\<lambda>r. r\<lparr>ar_Status := ''removed''\<rparr>)"

text \<open>The statements of the moderation module: a sanction closes a published Arena, an appeal that reverses it reopens a closed one.\<close>

definition sql_CloseArenaForModeration :: "uuid \<Rightarrow> arenas_db \<Rightarrow> pg_error + AppArena \<times> arenas_db" where
  "sql_CloseArenaForModeration i =
     update_arena (\<lambda>r. ar_ID r = i \<and> ar_Status r = ''published'') (\<lambda>r. r\<lparr>ar_Status := ''closed''\<rparr>)"

definition sql_ReopenArenaForAppeal :: "uuid \<Rightarrow> arenas_db \<Rightarrow> pg_error + AppArena \<times> arenas_db" where
  "sql_ReopenArenaForAppeal i =
     update_arena (\<lambda>r. ar_ID r = i \<and> ar_Status r = ''closed'') (\<lambda>r. r\<lparr>ar_Status := ''published''\<rparr>)"

text \<open>The statement of the account deletion: the drafts of the account go, its published Arenas stay.\<close>

definition sql_DeleteDeletedAccountDrafts :: "uuid \<Rightarrow> arenas_db \<Rightarrow> int \<times> arenas_db" where
  "sql_DeleteDeletedAccountDrafts account db =
     (let hit = (\<lambda>r. ar_CreatorID r = account \<and> ar_Status r = ''draft'') in
      (int (length (filter hit (arena_rows db))), db\<lparr>arena_rows := filter (\<lambda>r. \<not> hit r) (arena_rows db)\<rparr>))"

text \<open>The delete returns the number of rows; its condition implies that of the trigger, and no other
  table refers to a draft.\<close>

definition sql_DeleteArenaDraft :: "uuid \<Rightarrow> uuid \<Rightarrow> arenas_db \<Rightarrow> int \<times> arenas_db" where
  "sql_DeleteArenaDraft i creator db =
     (let hit = (\<lambda>r. ar_ID r = i \<and> ar_CreatorID r = creator \<and> ar_Status r = ''draft'') in
      (int (length (filter hit (arena_rows db))), db\<lparr>arena_rows := filter (\<lambda>r. \<not> hit r) (arena_rows db)\<rparr>))"

definition published_key :: "AppArena \<Rightarrow> keyset" where
  "published_key r = Keyset (case ar_PublishedAt r of None \<Rightarrow> 0 | Some t \<Rightarrow> t) (ar_ID r)"

text \<open>The rows a feed query selects before the cursor; every one has a publication instant.\<close>

definition feed_rows :: "string option \<Rightarrow> string option \<Rightarrow> string option \<Rightarrow> arenas_db \<Rightarrow> AppArena list" where
  "feed_rows lang category status db =
     filter (\<lambda>r. ar_Status r \<in> set public_statuses
       \<and> (lang = None \<or> lang = Some (ar_Language r)) \<and> (category = None \<or> category = Some (ar_Category r))
       \<and> (status = None \<or> status = Some (ar_Status r))) (arena_rows db)"

definition sql_ListPublicArenasPage ::
  "string option \<Rightarrow> string option \<Rightarrow> string option \<Rightarrow> (time \<times> uuid) option \<Rightarrow> int \<Rightarrow> arenas_db \<Rightarrow> pg_error + AppArena list" where
  "sql_ListPublicArenasPage lang category status after pageLimit db =
     (if pageLimit < 0 then Inl InvalidLimit
      else Inr (keyset_query published_key (feed_rows lang category status db)
        (case after of None \<Rightarrow> None | Some (t, i) \<Rightarrow> Some (Keyset (timestamptz t) i)) (nat pageLimit)))"

end
