(* ===== verification/ArenasRepository.thy ===== *)
theory ArenasRepository
  imports ArenasStore
begin

text \<open>
  \<open>internal/arenas/adapters/postgres/repository.go\<close> and the request types of
  \<open>application/arena_repository.go\<close>. A write that touched no row reads the state again to explain why.
\<close>

datatype arenas_app_error =
    ErrArenaNotFound | ErrVersionConflict | ErrNoPassAvailable | ErrArenaAlreadyConsumed | ErrSlugConflict
  | ErrNotAuthorized | ErrInvalidCursor | ErrWeakFeedCursorSecret | ErrInvalidFeedFilter | ErrArenaGone
  | ErrInvalidUUID | ErrRecorder | ArenaDomain arenas_error | ArenaDatabase pg_error

record CreateArenaRequest =
  car_CreatorID :: CreatorID
  car_Statement :: Statement
  car_Context :: Context
  car_Category :: Category
  car_Language :: Language

record DraftUpdate =
  du_Statement :: Statement
  du_Context :: Context
  du_Category :: Category
  du_Language :: Language
  du_ExpectedVersion :: int

definition textFromContext :: "Context \<Rightarrow> string option" where
  "textFromContext c = (if Context_IsZero c then None else Some (context_String c))"

definition mapArenaRow :: "AppArena \<Rightarrow> arenas_app_error + Arena" where
  "mapArenaRow row = wrap_err ArenaDomain
     (bind_r (ParseStatement (ar_Statement row) ReconstitutionPolicy) (\<lambda>statement.
      bind_r (case ar_Context row of None \<Rightarrow> Inr (Context []) | Some c \<Rightarrow> ParseContext c ReconstitutionPolicy) (\<lambda>ctx.
      bind_r (ParseCategory (ar_Category row)) (\<lambda>category.
      bind_r (ParseLanguage (ar_Language row)) (\<lambda>lang.
      bind_r (case ar_Slug row of None \<Rightarrow> Inr (Slug []) | Some s \<Rightarrow> ParseSlug s) (\<lambda>slug.
      ReconstituteArena
        \<lparr>arena_id = uuidToString (Some (ar_ID row)), arena_creatorID = uuidToString (Some (ar_CreatorID row)),
         arena_statement = statement, arena_context = ctx, arena_category = category, arena_language = lang,
         arena_status = ar_Status row, arena_slug = slug, arena_version = ar_Version row,
         arena_createdAt = ar_CreatedAt row, arena_publishedAt = ar_PublishedAt row, arena_closesAt = ar_ClosesAt row\<rparr>))))))"

fun map_arena_rows :: "AppArena list \<Rightarrow> arenas_app_error + Arena list" where
  "map_arena_rows [] = Inr []"
| "map_arena_rows (row # rows) = bind_r (mapArenaRow row) (\<lambda>a. bind_r (map_arena_rows rows) (\<lambda>as. Inr (a # as)))"

definition arenaScope :: "(string \<Rightarrow> uuid option) \<Rightarrow> ArenaID \<Rightarrow> CreatorID \<Rightarrow> arenas_app_error + uuid \<times> uuid" where
  "arenaScope scan i creator =
     (case scan i of None \<Rightarrow> Inl ErrArenaNotFound | Some a \<Rightarrow>
     (case scan creator of None \<Rightarrow> Inl ErrArenaNotFound | Some c \<Rightarrow> Inr (a, c)))"

definition repo_CreateArena ::
  "(string \<Rightarrow> uuid option) \<Rightarrow> time \<Rightarrow> CreateArenaRequest \<Rightarrow> arenas_db \<Rightarrow> (arenas_app_error + Arena) \<times> arenas_db" where
  "repo_CreateArena scan now rq db =
     (case scan (car_CreatorID rq) of None \<Rightarrow> (Inl ErrInvalidUUID, db) | Some creator \<Rightarrow>
     (case sql_CreateArena creator (statement_String (car_Statement rq)) (textFromContext (car_Context rq))
         (category_String (car_Category rq)) (language_String (car_Language rq)) now db of
        Inl e \<Rightarrow> (Inl (ArenaDatabase e), db)
      | Inr (row, db') \<Rightarrow> (mapArenaRow row, db')))"

definition repo_GetArenaForCreator ::
  "(string \<Rightarrow> uuid option) \<Rightarrow> ArenaID \<Rightarrow> CreatorID \<Rightarrow> arenas_db \<Rightarrow> arenas_app_error + Arena" where
  "repo_GetArenaForCreator scan i creator db =
     bind_r (arenaScope scan i creator) (\<lambda>(a, c).
     case sql_GetArenaForCreator a c db of
       Inl e \<Rightarrow> Inl (if e = NoRows then ErrArenaNotFound else ArenaDatabase e)
     | Inr row \<Rightarrow> mapArenaRow row)"

definition repo_ListArenaDraftsForCreator ::
  "(string \<Rightarrow> uuid option) \<Rightarrow> CreatorID \<Rightarrow> arenas_db \<Rightarrow> arenas_app_error + Arena list" where
  "repo_ListArenaDraftsForCreator scan creator db =
     (case scan creator of None \<Rightarrow> Inl ErrInvalidUUID | Some c \<Rightarrow> map_arena_rows (sql_ListArenaDraftsForCreator c db))"

definition diagnoseDraftMiss :: "uuid \<Rightarrow> uuid \<Rightarrow> int \<Rightarrow> arenas_db \<Rightarrow> arenas_app_error" where
  "diagnoseDraftMiss a c expectedVersion db =
     (case sql_GetArenaStateForCreator a c db of
        Inl e \<Rightarrow> (if e = NoRows then ErrArenaNotFound else ArenaDatabase e)
      | Inr (status, version) \<Rightarrow> (if status \<noteq> ArenaStatusDraft then ArenaDomain ErrArenaNotDraft else ErrVersionConflict))"

definition repo_UpdateArenaDraft ::
  "(string \<Rightarrow> uuid option) \<Rightarrow> ArenaID \<Rightarrow> CreatorID \<Rightarrow> DraftUpdate \<Rightarrow> arenas_db \<Rightarrow> (arenas_app_error + Arena) \<times> arenas_db" where
  "repo_UpdateArenaDraft scan i creator u db =
     (case arenaScope scan i creator of Inl e \<Rightarrow> (Inl e, db) | Inr (a, c) \<Rightarrow>
     (case sql_UpdateArenaDraft a c (statement_String (du_Statement u)) (textFromContext (du_Context u))
         (category_String (du_Category u)) (language_String (du_Language u)) (du_ExpectedVersion u) db of
        Inl e \<Rightarrow> (Inl (if e = NoRows then diagnoseDraftMiss a c (du_ExpectedVersion u) db else ArenaDatabase e), db)
      | Inr (row, db') \<Rightarrow> (mapArenaRow row, db')))"

definition repo_DeleteArenaDraft ::
  "(string \<Rightarrow> uuid option) \<Rightarrow> ArenaID \<Rightarrow> CreatorID \<Rightarrow> arenas_db \<Rightarrow> (arenas_app_error + unit) \<times> arenas_db" where
  "repo_DeleteArenaDraft scan i creator db =
     (case arenaScope scan i creator of Inl e \<Rightarrow> (Inl e, db) | Inr (a, c) \<Rightarrow>
     (case sql_DeleteArenaDraft a c db of
        (n, db') \<Rightarrow> if n = 1 then (Inr (), db') else (Inl (diagnoseDraftMiss a c 0 db'), db')))"

definition diagnosePublishMiss :: "uuid \<Rightarrow> uuid \<Rightarrow> int \<Rightarrow> arenas_db \<Rightarrow> arenas_app_error" where
  "diagnosePublishMiss a c expectedVersion db =
     (case sql_GetArenaStateForCreator a c db of
        Inl e \<Rightarrow> (if e = NoRows then ErrArenaNotFound else ArenaDatabase e)
      | Inr (status, version) \<Rightarrow>
          if status = ArenaStatusPublished then ErrVersionConflict
          else if status \<noteq> ArenaStatusDraft then ArenaDomain ErrInvalidStatusChange
          else ErrVersionConflict)"

text \<open>The only unique constraint an update can break is the one on the slug.\<close>

definition repo_PublishArenaDraft ::
  "(string \<Rightarrow> uuid option) \<Rightarrow> ArenaID \<Rightarrow> CreatorID \<Rightarrow> Slug \<Rightarrow> time \<Rightarrow> int \<Rightarrow> arenas_db
     \<Rightarrow> (arenas_app_error + Arena) \<times> arenas_db" where
  "repo_PublishArenaDraft scan i creator slug publishedAt expectedVersion db =
     (case arenaScope scan i creator of Inl e \<Rightarrow> (Inl e, db) | Inr (a, c) \<Rightarrow>
     (case sql_PublishArenaDraft a c (slug_String slug) publishedAt expectedVersion db of
        Inl e \<Rightarrow> (Inl (if e = UniqueViolation then ErrSlugConflict
                      else if e = NoRows then diagnosePublishMiss a c expectedVersion db else ArenaDatabase e), db)
      | Inr (row, db') \<Rightarrow> (mapArenaRow row, db')))"

definition repo_GetArenaByID :: "(string \<Rightarrow> uuid option) \<Rightarrow> ArenaID \<Rightarrow> arenas_db \<Rightarrow> arenas_app_error + Arena" where
  "repo_GetArenaByID scan i db =
     (case scan i of None \<Rightarrow> Inl ErrArenaNotFound | Some a \<Rightarrow>
     (case sql_GetArenaByID a db of
        Inl e \<Rightarrow> Inl (if e = NoRows then ErrArenaNotFound else ArenaDatabase e)
      | Inr row \<Rightarrow> mapArenaRow row))"

definition diagnoseCloseMiss :: "uuid \<Rightarrow> uuid \<Rightarrow> int \<Rightarrow> arenas_db \<Rightarrow> arenas_app_error" where
  "diagnoseCloseMiss a c expectedVersion db =
     (case sql_GetArenaStateForCreator a c db of
        Inl e \<Rightarrow> (if e = NoRows then ErrArenaNotFound else ArenaDatabase e)
      | Inr (status, version) \<Rightarrow>
          if status \<noteq> ArenaStatusPublished then ArenaDomain ErrInvalidStatusChange else ErrVersionConflict)"

definition repo_CloseArena ::
  "(string \<Rightarrow> uuid option) \<Rightarrow> ArenaID \<Rightarrow> CreatorID \<Rightarrow> int \<Rightarrow> arenas_db \<Rightarrow> (arenas_app_error + Arena) \<times> arenas_db" where
  "repo_CloseArena scan i creator expectedVersion db =
     (case arenaScope scan i creator of Inl e \<Rightarrow> (Inl e, db) | Inr (a, c) \<Rightarrow>
     (case sql_CloseArena a c expectedVersion db of
        Inl e \<Rightarrow> (Inl (if e = NoRows then diagnoseCloseMiss a c expectedVersion db else ArenaDatabase e), db)
      | Inr (row, db') \<Rightarrow> (mapArenaRow row, db')))"

definition diagnoseModerationMiss ::
  "uuid \<Rightarrow> int \<Rightarrow> ArenaStatus \<Rightarrow> ArenaStatus list \<Rightarrow> arenas_db \<Rightarrow> arenas_app_error" where
  "diagnoseModerationMiss a expectedVersion target allowed db =
     (case sql_GetArenaStateByID a db of
        Inl e \<Rightarrow> (if e = NoRows then ErrArenaNotFound else ArenaDatabase e)
      | Inr (status, version) \<Rightarrow>
          if status = target then ErrVersionConflict
          else if status \<in> set allowed then ErrVersionConflict
          else ArenaDomain ErrInvalidStatusChange)"

definition repo_RestrictArena ::
  "(string \<Rightarrow> uuid option) \<Rightarrow> ArenaID \<Rightarrow> int \<Rightarrow> arenas_db \<Rightarrow> (arenas_app_error + Arena) \<times> arenas_db" where
  "repo_RestrictArena scan i expectedVersion db =
     (case scan i of None \<Rightarrow> (Inl ErrArenaNotFound, db) | Some a \<Rightarrow>
     (case sql_RestrictArena a expectedVersion db of
        Inl e \<Rightarrow> (Inl (if e = NoRows
            then diagnoseModerationMiss a expectedVersion ArenaStatusRestricted [ArenaStatusPublished, ArenaStatusClosed] db
            else ArenaDatabase e), db)
      | Inr (row, db') \<Rightarrow> (mapArenaRow row, db')))"

definition repo_RemoveArena ::
  "(string \<Rightarrow> uuid option) \<Rightarrow> ArenaID \<Rightarrow> int \<Rightarrow> arenas_db \<Rightarrow> (arenas_app_error + Arena) \<times> arenas_db" where
  "repo_RemoveArena scan i expectedVersion db =
     (case scan i of None \<Rightarrow> (Inl ErrArenaNotFound, db) | Some a \<Rightarrow>
     (case sql_RemoveArena a expectedVersion db of
        Inl e \<Rightarrow> (Inl (if e = NoRows
            then diagnoseModerationMiss a expectedVersion ArenaStatusRemoved
              [ArenaStatusPublished, ArenaStatusClosed, ArenaStatusRestricted] db
            else ArenaDatabase e), db)
      | Inr (row, db') \<Rightarrow> (mapArenaRow row, db')))"

section \<open>Public reads\<close>

record ArenaFeedFilter =
  filter_Language :: "Language option"
  filter_Category :: "Category option"
  filter_Status :: "ArenaStatus option"

record FeedPosition =
  fp_PublishedAt :: time
  fp_ArenaID :: string

definition repo_ListPublicArenas ::
  "(string \<Rightarrow> uuid option) \<Rightarrow> ArenaFeedFilter \<Rightarrow> FeedPosition option \<Rightarrow> int \<Rightarrow> arenas_db \<Rightarrow> arenas_app_error + Arena list" where
  "repo_ListPublicArenas scan f after limit db =
     bind_r (case after of None \<Rightarrow> Inr None | Some p \<Rightarrow>
         (case scan (fp_ArenaID p) of None \<Rightarrow> Inl ErrInvalidCursor | Some i \<Rightarrow> Inr (Some (fp_PublishedAt p, i)))) (\<lambda>position.
     case sql_ListPublicArenasPage (map_option language_String (filter_Language f))
         (map_option category_String (filter_Category f)) (filter_Status f) position (wrap32 limit) db of
       Inl e \<Rightarrow> Inl (ArenaDatabase e)
     | Inr rows \<Rightarrow> map_arena_rows rows)"

definition repo_GetPublicArenaBySlug :: "Slug \<Rightarrow> arenas_db \<Rightarrow> arenas_app_error + Arena" where
  "repo_GetPublicArenaBySlug slug db =
     (case sql_GetPublicArenaBySlug (slug_String slug) db of
        Inl e \<Rightarrow> Inl (if e = NoRows then ErrArenaNotFound else ArenaDatabase e)
      | Inr row \<Rightarrow> mapArenaRow row)"

definition repo_GetArenaStatusBySlug :: "Slug \<Rightarrow> arenas_db \<Rightarrow> arenas_app_error + ArenaStatus" where
  "repo_GetArenaStatusBySlug slug db =
     (case sql_GetArenaStatusBySlug (slug_String slug) db of
        Inl e \<Rightarrow> Inl (if e = NoRows then ErrArenaNotFound else ArenaDatabase e)
      | Inr status \<Rightarrow> Inr status)"

end
