(* ===== verification/ArenasUseCases.thy ===== *)
theory ArenasUseCases
  imports ArenasRepository SignedCursor
begin

text \<open>
  The use cases of \<open>internal/arenas/application\<close>. A use case that reads and then writes does so in
  two statements with other requests possibly in between, also inside the publication's transaction:
  it takes the state it reads (\<open>seen\<close>) and the one its write runs on. \<open>consume\<close> stands for the pass
  consumption of the billing module inside that transaction, \<open>authorized\<close> for the moderation roles and
  \<open>audit\<close> for the moderation recorder, both of other modules.
\<close>

section \<open>Drafts\<close>

record CreateArenaDraftCommand =
  cad_AccountID :: string
  cad_Statement :: string
  cad_Context :: string
  cad_Category :: string
  cad_Language :: string

record UpdateArenaDraftCommand =
  uad_AccountID :: string
  uad_ArenaID :: string
  uad_Statement :: string
  uad_Context :: string
  uad_Category :: string
  uad_Language :: string
  uad_ExpectedVersion :: int

text \<open>The four parsers both commands run in this order.\<close>

definition parse_draft ::
  "StatementPolicy \<Rightarrow> string \<Rightarrow> string \<Rightarrow> string \<Rightarrow> string \<Rightarrow> arenas_app_error + Statement \<times> Context \<times> Category \<times> Language" where
  "parse_draft policy statement ctx category lang = wrap_err ArenaDomain
     (bind_r (ParseStatement statement policy) (\<lambda>s.
      bind_r (ParseContext ctx policy) (\<lambda>c.
      bind_r (ParseCategory category) (\<lambda>k.
      bind_r (ParseLanguage lang) (\<lambda>l. Inr (s, c, k, l))))))"

definition CreateArenaDraft_Execute ::
  "(string \<Rightarrow> uuid option) \<Rightarrow> StatementPolicy \<Rightarrow> time \<Rightarrow> CreateArenaDraftCommand \<Rightarrow> arenas_db \<Rightarrow> (arenas_app_error + Arena) \<times> arenas_db" where
  "CreateArenaDraft_Execute scan policy now cmd db =
     (if CreatorID_IsZero (cad_AccountID cmd) then (Inl (ArenaDomain ErrEmptyCreatorID), db)
      else case parse_draft policy (cad_Statement cmd) (cad_Context cmd) (cad_Category cmd) (cad_Language cmd) of
        Inl e \<Rightarrow> (Inl e, db)
      | Inr (s, c, k, l) \<Rightarrow>
          repo_CreateArena scan now \<lparr>car_CreatorID = cad_AccountID cmd, car_Statement = s, car_Context = c,
            car_Category = k, car_Language = l\<rparr> db)"

definition UpdateArenaDraft_Execute ::
  "(string \<Rightarrow> uuid option) \<Rightarrow> StatementPolicy \<Rightarrow> UpdateArenaDraftCommand \<Rightarrow> arenas_db \<Rightarrow> arenas_db
     \<Rightarrow> (arenas_app_error + Arena) \<times> arenas_db" where
  "UpdateArenaDraft_Execute scan policy cmd seen db =
     (if CreatorID_IsZero (uad_AccountID cmd) then (Inl (ArenaDomain ErrEmptyCreatorID), db)
      else if ArenaID_IsZero (uad_ArenaID cmd) then (Inl (ArenaDomain ErrEmptyArenaID), db)
      else if uad_ExpectedVersion cmd < 1 then (Inl (ArenaDomain ErrInvalidVersion), db)
      else case parse_draft policy (uad_Statement cmd) (uad_Context cmd) (uad_Category cmd) (uad_Language cmd) of
        Inl e \<Rightarrow> (Inl e, db)
      | Inr (s, c, k, l) \<Rightarrow>
          (case repo_GetArenaForCreator scan (uad_ArenaID cmd) (uad_AccountID cmd) seen of
             Inl e \<Rightarrow> (Inl e, db)
           | Inr arena \<Rightarrow>
               if arena_version arena \<noteq> uad_ExpectedVersion cmd then (Inl ErrVersionConflict, db)
               else (case UpdateDraft arena (Some s) (Some c) (Some k) (Some l) of
                   Inl e \<Rightarrow> (Inl (ArenaDomain e), db)
                 | Inr _ \<Rightarrow>
                     repo_UpdateArenaDraft scan (uad_ArenaID cmd) (uad_AccountID cmd)
                       \<lparr>du_Statement = s, du_Context = c, du_Category = k, du_Language = l,
                        du_ExpectedVersion = uad_ExpectedVersion cmd\<rparr> db)))"

record DeleteArenaDraftCommand =
  dad_AccountID :: string
  dad_ArenaID :: string

definition DeleteArenaDraft_Execute ::
  "(string \<Rightarrow> uuid option) \<Rightarrow> DeleteArenaDraftCommand \<Rightarrow> arenas_db \<Rightarrow> (arenas_app_error + unit) \<times> arenas_db" where
  "DeleteArenaDraft_Execute scan cmd db =
     (if CreatorID_IsZero (dad_AccountID cmd) then (Inl (ArenaDomain ErrEmptyCreatorID), db)
      else if ArenaID_IsZero (dad_ArenaID cmd) then (Inl (ArenaDomain ErrEmptyArenaID), db)
      else repo_DeleteArenaDraft scan (dad_ArenaID cmd) (dad_AccountID cmd) db)"

definition GetArenaDraft_Execute ::
  "(string \<Rightarrow> uuid option) \<Rightarrow> string \<Rightarrow> ArenaID \<Rightarrow> arenas_db \<Rightarrow> arenas_app_error + Arena" where
  "GetArenaDraft_Execute scan accountID arenaID db =
     (if CreatorID_IsZero accountID then Inl (ArenaDomain ErrEmptyCreatorID)
      else if ArenaID_IsZero arenaID then Inl (ArenaDomain ErrEmptyArenaID)
      else repo_GetArenaForCreator scan arenaID accountID db)"

definition ListArenaDrafts_Execute :: "(string \<Rightarrow> uuid option) \<Rightarrow> string \<Rightarrow> arenas_db \<Rightarrow> arenas_app_error + Arena list" where
  "ListArenaDrafts_Execute scan accountID db =
     (if CreatorID_IsZero accountID then Inl (ArenaDomain ErrEmptyCreatorID)
      else repo_ListArenaDraftsForCreator scan accountID db)"

section \<open>Publication\<close>

text \<open>The identifier of a stored Arena is ASCII.\<close>

definition shortArenaID :: "ArenaID \<Rightarrow> string" where
  "shortArenaID i =
     (let compact = filter (\<lambda>c. c \<noteq> CHR ''-'') (ascii_lower i) in
      if length compact < 8 then compact else take 8 compact)"

definition trim_hyphens :: "string \<Rightarrow> string" where
  "trim_hyphens s = rev (dropWhile (\<lambda>c. c = CHR ''-'') (rev s))"

definition DeriveSlug :: "Arena \<Rightarrow> arenas_error + Slug" where
  "DeriveSlug arena =
     (let suffix = shortArenaID (arena_id arena);
          base0 = Slugify (statement_String (arena_statement arena));
          maxBase0 = int SlugMaxLength - int (length suffix) - 1;
          maxBase = nat (if maxBase0 < int SlugMinLength then int SlugMinLength else maxBase0);
          base1 = (if length base0 > maxBase then trim_hyphens (take maxBase base0) else base0);
          base = (if length base1 < SlugMinLength then ''arena'' else base1) in
      ParseSlug (base @ ''-'' @ suffix))"

record PassConsumption =
  pass_AccountID :: string
  pass_ArenaID :: string

record ConsumedPass =
  consumed_LotID :: string
  consumed_Remaining :: int
  consumed_Replayed :: bool

record PublishArenaCommand =
  pub_AccountID :: string
  pub_ArenaID :: string

record ArenaResult =
  res_Arena :: Arena
  res_Replayed :: bool

text \<open>
  The body of the unit of work, on the passes (\<open>'p\<close>) and the Arenas; \<open>now\<close> is the clock. An error
  discards the changes of both.
\<close>

definition publish_body ::
  "(string \<Rightarrow> uuid option) \<Rightarrow> (PassConsumption \<Rightarrow> 'p \<Rightarrow> (arenas_app_error + ConsumedPass) \<times> 'p) \<Rightarrow> time \<Rightarrow> CreatorID \<Rightarrow> ArenaID
     \<Rightarrow> arenas_db \<Rightarrow> 'p \<times> arenas_db \<Rightarrow> (arenas_app_error + ArenaResult) \<times> 'p \<times> arenas_db" where
  "publish_body scan consume now creator i seen st =
     (case repo_GetArenaForCreator scan i creator seen of
        Inl e \<Rightarrow> (Inl e, st)
      | Inr arena \<Rightarrow>
          if arena_status arena = ArenaStatusPublished then (Inr \<lparr>res_Arena = arena, res_Replayed = True\<rparr>, st)
          else if arena_status arena \<noteq> ArenaStatusDraft then (Inl (ArenaDomain ErrInvalidStatusChange), st)
          else (case DeriveSlug arena of
              Inl e \<Rightarrow> (Inl (ArenaDomain e), st)
            | Inr slug \<Rightarrow>
                (case Publish arena slug now of
                   Inl e \<Rightarrow> (Inl (ArenaDomain e), st)
                 | Inr publishing \<Rightarrow>
                     (case consume \<lparr>pass_AccountID = creator, pass_ArenaID = i\<rparr> (fst st) of
                        (Inl e, passes) \<Rightarrow> (Inl e, passes, snd st)
                      | (Inr _, passes) \<Rightarrow>
                          (case repo_PublishArenaDraft scan i creator slug (the (arena_publishedAt publishing))
                             (arena_version arena) (snd st) of
                             (Inl e, db) \<Rightarrow> (Inl e, passes, db)
                           | (Inr published, db) \<Rightarrow> (Inr \<lparr>res_Arena = published, res_Replayed = False\<rparr>, passes, db))))))"

definition WithinTransaction :: "('s \<Rightarrow> ('e + 'a) \<times> 's) \<Rightarrow> 's \<Rightarrow> ('e + 'a) \<times> 's" where
  "WithinTransaction fn st = (case fn st of (Inl e, _) \<Rightarrow> (Inl e, st) | (Inr a, st') \<Rightarrow> (Inr a, st'))"

definition PublishArena_Execute ::
  "(string \<Rightarrow> uuid option) \<Rightarrow> (PassConsumption \<Rightarrow> 'p \<Rightarrow> (arenas_app_error + ConsumedPass) \<times> 'p) \<Rightarrow> time \<Rightarrow> PublishArenaCommand
     \<Rightarrow> arenas_db \<Rightarrow> 'p \<times> arenas_db \<Rightarrow> (arenas_app_error + ArenaResult) \<times> 'p \<times> arenas_db" where
  "PublishArena_Execute scan consume now cmd seen st =
     (if CreatorID_IsZero (pub_AccountID cmd) then (Inl (ArenaDomain ErrEmptyCreatorID), st)
      else if ArenaID_IsZero (pub_ArenaID cmd) then (Inl (ArenaDomain ErrEmptyArenaID), st)
      else WithinTransaction (publish_body scan consume now (pub_AccountID cmd) (pub_ArenaID cmd) seen) st)"

section \<open>Closing\<close>

record CloseArenaCommand =
  close_AccountID :: string
  close_ArenaID :: string

definition CloseArena_Execute ::
  "(string \<Rightarrow> uuid option) \<Rightarrow> CloseArenaCommand \<Rightarrow> arenas_db \<Rightarrow> arenas_db \<Rightarrow> (arenas_app_error + ArenaResult) \<times> arenas_db" where
  "CloseArena_Execute scan cmd seen db =
     (if CreatorID_IsZero (close_AccountID cmd) then (Inl (ArenaDomain ErrEmptyCreatorID), db)
      else if ArenaID_IsZero (close_ArenaID cmd) then (Inl (ArenaDomain ErrEmptyArenaID), db)
      else case repo_GetArenaForCreator scan (close_ArenaID cmd) (close_AccountID cmd) seen of
        Inl e \<Rightarrow> (Inl e, db)
      | Inr arena \<Rightarrow>
          if arena_status arena = ArenaStatusPublished then
            (case Arena_Close arena of
               Inl e \<Rightarrow> (Inl (ArenaDomain e), db)
             | Inr _ \<Rightarrow>
                 (case repo_CloseArena scan (close_ArenaID cmd) (close_AccountID cmd) (arena_version arena) db of
                    (Inl e, db') \<Rightarrow> (Inl e, db')
                  | (Inr closed, db') \<Rightarrow> (Inr \<lparr>res_Arena = closed, res_Replayed = False\<rparr>, db')))
          else if arena_status arena = ArenaStatusClosed then (Inr \<lparr>res_Arena = arena, res_Replayed = True\<rparr>, db)
          else (Inl (ArenaDomain ErrInvalidStatusChange), db))"

section \<open>Moderation\<close>

datatype ModerationAction = ModerationRestrict | ModerationRemove

record ModerationEvent =
  event_ActorAccountID :: ModeratorID
  event_ArenaID :: ArenaID
  event_Action :: ModerationAction
  event_Reason :: Reason
  event_Replayed :: bool
  event_OccurredAt :: time

record ModerateArenaCommand =
  mod_ActorAccountID :: string
  mod_ArenaID :: string
  mod_Reason :: string

definition validateModeration ::
  "(ModeratorID \<Rightarrow> bool) \<Rightarrow> ModerateArenaCommand \<Rightarrow> arenas_app_error + ModeratorID \<times> Reason \<times> ArenaID" where
  "validateModeration authorized cmd =
     (if ModeratorID_IsZero (mod_ActorAccountID cmd) then Inl (ArenaDomain ErrActorRequired)
      else if ArenaID_IsZero (mod_ArenaID cmd) then Inl (ArenaDomain ErrEmptyArenaID)
      else bind_r (wrap_err ArenaDomain (ParseReason (mod_Reason cmd))) (\<lambda>reason.
        if \<not> authorized (mod_ActorAccountID cmd) then Inl ErrNotAuthorized
        else Inr (mod_ActorAccountID cmd, reason, mod_ArenaID cmd)))"

text \<open>The recorder takes the event or fails; \<open>events\<close> are those it took.\<close>

definition recordModeration ::
  "(ModerationEvent \<Rightarrow> bool) \<Rightarrow> time \<Rightarrow> ModeratorID \<Rightarrow> ArenaID \<Rightarrow> ModerationAction \<Rightarrow> Reason \<Rightarrow> Arena \<Rightarrow> bool
     \<Rightarrow> ModerationEvent list \<Rightarrow> (arenas_app_error + ArenaResult) \<times> ModerationEvent list" where
  "recordModeration audit now actor i action reason arena replayed events =
     (let event = \<lparr>event_ActorAccountID = actor, event_ArenaID = i, event_Action = action, event_Reason = reason,
                   event_Replayed = replayed, event_OccurredAt = now\<rparr> in
      if \<not> audit event then (Inl ErrRecorder, events)
      else (Inr \<lparr>res_Arena = arena, res_Replayed = replayed\<rparr>, events @ [event]))"

definition RestrictArena_Execute ::
  "(string \<Rightarrow> uuid option) \<Rightarrow> (ModeratorID \<Rightarrow> bool) \<Rightarrow> (ModerationEvent \<Rightarrow> bool) \<Rightarrow> time \<Rightarrow> ModerateArenaCommand
     \<Rightarrow> arenas_db \<Rightarrow> arenas_db \<times> ModerationEvent list \<Rightarrow> (arenas_app_error + ArenaResult) \<times> arenas_db \<times> ModerationEvent list" where
  "RestrictArena_Execute scan authorized audit now cmd seen st =
     (case validateModeration authorized cmd of
        Inl e \<Rightarrow> (Inl e, st)
      | Inr (actor, reason, i) \<Rightarrow>
          (case repo_GetArenaByID scan i seen of
             Inl e \<Rightarrow> (Inl e, st)
           | Inr arena \<Rightarrow>
               if arena_status arena = ArenaStatusPublished \<or> arena_status arena = ArenaStatusClosed then
                 (case Restrict arena of
                    Inl e \<Rightarrow> (Inl (ArenaDomain e), st)
                  | Inr _ \<Rightarrow>
                      (case repo_RestrictArena scan i (arena_version arena) (fst st) of
                         (Inl e, db) \<Rightarrow> (Inl e, db, snd st)
                       | (Inr restricted, db) \<Rightarrow>
                           (case recordModeration audit now actor i ModerationRestrict reason restricted False (snd st) of
                              (res, events) \<Rightarrow> (res, db, events))))
               else if arena_status arena = ArenaStatusRestricted then
                 (case recordModeration audit now actor i ModerationRestrict reason arena True (snd st) of
                    (res, events) \<Rightarrow> (res, fst st, events))
               else (Inl (ArenaDomain ErrInvalidStatusChange), st)))"

definition RemoveArena_Execute ::
  "(string \<Rightarrow> uuid option) \<Rightarrow> (ModeratorID \<Rightarrow> bool) \<Rightarrow> (ModerationEvent \<Rightarrow> bool) \<Rightarrow> time \<Rightarrow> ModerateArenaCommand
     \<Rightarrow> arenas_db \<Rightarrow> arenas_db \<times> ModerationEvent list \<Rightarrow> (arenas_app_error + ArenaResult) \<times> arenas_db \<times> ModerationEvent list" where
  "RemoveArena_Execute scan authorized audit now cmd seen st =
     (case validateModeration authorized cmd of
        Inl e \<Rightarrow> (Inl e, st)
      | Inr (actor, reason, i) \<Rightarrow>
          (case repo_GetArenaByID scan i seen of
             Inl e \<Rightarrow> (Inl e, st)
           | Inr arena \<Rightarrow>
               if arena_status arena = ArenaStatusPublished \<or> arena_status arena = ArenaStatusClosed
                  \<or> arena_status arena = ArenaStatusRestricted then
                 (case Remove arena of
                    Inl e \<Rightarrow> (Inl (ArenaDomain e), st)
                  | Inr _ \<Rightarrow>
                      (case repo_RemoveArena scan i (arena_version arena) (fst st) of
                         (Inl e, db) \<Rightarrow> (Inl e, db, snd st)
                       | (Inr removed, db) \<Rightarrow>
                           (case recordModeration audit now actor i ModerationRemove reason removed False (snd st) of
                              (res, events) \<Rightarrow> (res, db, events))))
               else if arena_status arena = ArenaStatusRemoved then
                 (case recordModeration audit now actor i ModerationRemove reason arena True (snd st) of
                    (res, events) \<Rightarrow> (res, fst st, events))
               else (Inl (ArenaDomain ErrInvalidStatusChange), st)))"

section \<open>Public reads\<close>

definition GetPublicArena_Execute :: "string \<Rightarrow> arenas_db \<Rightarrow> arenas_app_error + Arena" where
  "GetPublicArena_Execute rawSlug db =
     (case ParseSlug rawSlug of Inl _ \<Rightarrow> Inl ErrArenaNotFound | Inr slug \<Rightarrow> repo_GetPublicArenaBySlug slug db)"

definition GetArenaDocument_Execute :: "string \<Rightarrow> arenas_db \<Rightarrow> arenas_app_error + Arena" where
  "GetArenaDocument_Execute rawSlug db =
     (case ParseSlug rawSlug of Inl _ \<Rightarrow> Inl ErrArenaNotFound | Inr slug \<Rightarrow>
     (case repo_GetPublicArenaBySlug slug db of
        Inr arena \<Rightarrow> Inr arena
      | Inl e \<Rightarrow>
          if e \<noteq> ErrArenaNotFound then Inl e
          else (case repo_GetArenaStatusBySlug slug db of
              Inl e \<Rightarrow> Inl e
            | Inr status \<Rightarrow> Inl (if status = ArenaStatusRemoved then ErrArenaGone else ErrArenaNotFound))))"

definition minFeedCursorSecretLength :: nat where "minFeedCursorSecretLength = 32"

definition NewFeedCursorCodec :: "string \<Rightarrow> arenas_app_error + string" where
  "NewFeedCursorCodec secret =
     (if length secret < minFeedCursorSecretLength then Inl ErrWeakFeedCursorSecret else Inr secret)"

definition FeedCursor_Encode :: "(string \<Rightarrow> string) \<Rightarrow> Arena \<Rightarrow> string" where
  "FeedCursor_Encode mac arena =
     cursor_encode mac (case arena_publishedAt arena of None \<Rightarrow> 0 | Some t \<Rightarrow> t) (arena_id arena)"

definition FeedCursor_Decode ::
  "(string \<Rightarrow> string) \<Rightarrow> (string \<Rightarrow> time option) \<Rightarrow> string \<Rightarrow> arenas_app_error + FeedPosition option" where
  "FeedCursor_Decode mac parse_time raw =
     (case cursor_decode mac parse_time raw of
        None \<Rightarrow> Inl ErrInvalidCursor
      | Some None \<Rightarrow> Inr None
      | Some (Some (t, i)) \<Rightarrow> Inr (Some \<lparr>fp_PublishedAt = t, fp_ArenaID = i\<rparr>))"

definition DefaultFeedLimit :: int where "DefaultFeedLimit = 20"
definition MaxFeedLimit :: int where "MaxFeedLimit = 100"

record GetArenaFeedCommand =
  feed_Language :: string
  feed_Category :: string
  feed_Status :: string
  feed_Cursor :: string
  feed_Limit :: int

record ArenaFeedPage =
  page_Arenas :: "Arena list"
  page_NextCursor :: string

definition buildFeedFilter :: "GetArenaFeedCommand \<Rightarrow> arenas_app_error + ArenaFeedFilter" where
  "buildFeedFilter cmd =
     bind_r (if TrimSpace (feed_Language cmd) \<noteq> []
             then bind_r (wrap_err ArenaDomain (ParseLanguage (feed_Language cmd))) (\<lambda>l. Inr (Some l)) else Inr None) (\<lambda>lang.
     bind_r (if TrimSpace (feed_Category cmd) \<noteq> []
             then bind_r (wrap_err ArenaDomain (ParseCategory (feed_Category cmd))) (\<lambda>c. Inr (Some c)) else Inr None) (\<lambda>category.
     bind_r (if TrimSpace (feed_Status cmd) \<noteq> []
             then (let status = TrimSpace (feed_Status cmd) in
               if status = ArenaStatusPublished \<or> status = ArenaStatusClosed \<or> status = ArenaStatusRestricted
               then Inr (Some status) else Inl ErrInvalidFeedFilter)
             else Inr None) (\<lambda>status.
     Inr \<lparr>filter_Language = lang, filter_Category = category, filter_Status = status\<rparr>)))"

definition GetArenaFeed_Execute ::
  "(string \<Rightarrow> uuid option) \<Rightarrow> (string \<Rightarrow> string) \<Rightarrow> (string \<Rightarrow> time option) \<Rightarrow> GetArenaFeedCommand \<Rightarrow> arenas_db
     \<Rightarrow> arenas_app_error + ArenaFeedPage" where
  "GetArenaFeed_Execute scan mac parse_time cmd db =
     bind_r (buildFeedFilter cmd) (\<lambda>f.
     bind_r (FeedCursor_Decode mac parse_time (feed_Cursor cmd)) (\<lambda>after.
     let limit = (if feed_Limit cmd \<le> 0 then DefaultFeedLimit
                  else if feed_Limit cmd > MaxFeedLimit then MaxFeedLimit else feed_Limit cmd) in
     bind_r (repo_ListPublicArenas scan f after (limit + 1) db) (\<lambda>arenas.
       if int (length arenas) > limit
       then Inr \<lparr>page_Arenas = take (nat limit) arenas, page_NextCursor = FeedCursor_Encode mac (arenas ! nat (limit - 1))\<rparr>
       else Inr \<lparr>page_Arenas = arenas, page_NextCursor = []\<rparr>)))"

end
