(* ===== verification/ArenasTextFacts.thy ===== *)
theory ArenasTextFacts
  imports ArenasText
begin

text \<open>
  The parsers of the arenas module leave alone what they accepted, and the slugs they accept satisfy
  the format check of the table.
\<close>

section \<open>Trimming and line ends\<close>

lemma trim_left_suffix: "\<exists>u. s = u @ trim_left s"
proof (induction s rule: trim_left.induct)
  case (1 s)
  show ?case
  proof (cases "s \<noteq> [] \<and> is_space (fst (decode_rune s))")
    case True
    let ?w = "snd (decode_rune s)"
    from 1 True obtain u where "drop ?w s = u @ trim_left (drop ?w s)" by blast
    then have "s = (take ?w s @ u) @ trim_left (drop ?w s)" by (metis append_assoc append_take_drop_id)
    moreover have "trim_left s = trim_left (drop ?w s)" using True by (subst trim_left.simps) (simp only: if_True simp_thms)
    ultimately show ?thesis by metis
  next
    case False
    then have "trim_left s = s" by (subst trim_left.simps) (rule if_not_P)
    then show ?thesis by simp
  qed
qed

lemma set_TrimSpace: "set (TrimSpace s) \<subseteq> set s"
proof -
  obtain u where u: "s = u @ trim_left s" using trim_left_suffix by blast
  obtain v where v: "trim_left s = TrimSpace s @ v" using trim_right_prefix unfolding TrimSpace_def by blast
  have "s = u @ TrimSpace s @ v" using u unfolding v by simp
  then have "set s = set (u @ TrimSpace s @ v)" by (rule arg_cong)
  then show ?thesis by auto
qed

lemma crlf_to_lf_id: "CHR 0x0D \<notin> set s \<Longrightarrow> crlf_to_lf s = s"
  by (induction s rule: crlf_to_lf.induct) auto

lemma cr_to_lf_id: "CHR 0x0D \<notin> set s \<Longrightarrow> cr_to_lf s = s"
  unfolding cr_to_lf_def by (rule map_idI) auto

lemma no_cr_normalizeText: "CHR 0x0D \<notin> set (normalizeText s)"
  using set_TrimSpace [of "cr_to_lf (crlf_to_lf s)"] by (auto simp: normalizeText_def cr_to_lf_def)

lemma normalizeText_idem [simp]: "normalizeText (normalizeText s) = normalizeText s"
proof -
  have "cr_to_lf (crlf_to_lf (normalizeText s)) = normalizeText s"
    using no_cr_normalizeText by (simp add: crlf_to_lf_id cr_to_lf_id)
  then show ?thesis by (simp add: normalizeText_def)
qed

section \<open>Parsers restate what they accepted\<close>

definition text_ok :: "string \<Rightarrow> bool" where
  "text_ok t \<longleftrightarrow> t \<noteq> [] \<and> normalizeText t = t \<and> \<not> containsUnsupportedRunes t"

lemma ParseStatement_text: "ParseStatement raw p = Inr s \<Longrightarrow> text_ok (statement_String s)"
  by (auto simp: ParseStatement_def text_ok_def Let_def split: if_splits)

lemma ParseContext_text: "ParseContext raw p = Inr c \<Longrightarrow> \<not> Context_IsZero c \<Longrightarrow> text_ok (context_String c)"
  by (auto simp: ParseContext_def Context_IsZero_def text_ok_def Let_def split: if_splits)

lemma runes_nonempty: "s \<noteq> [] \<Longrightarrow> runes s \<noteq> []"
  by (simp add: runes.simps)

lemma restate_statement:
  "text_ok t \<Longrightarrow> valid_utf8 t \<Longrightarrow> int (length (runes t)) \<le> MaxInt64 \<Longrightarrow>
   ParseStatement t ReconstitutionPolicy = Inr (Statement t)"
  using runes_nonempty [of t]
  by (auto simp: ParseStatement_def text_ok_def Let_def ReconstitutionPolicy_def StatementPolicy_IsValid_def MaxInt64_def
      neq_Nil_conv)

lemma restate_context:
  "text_ok t \<Longrightarrow> valid_utf8 t \<Longrightarrow> int (length (runes t)) \<le> MaxInt64 \<Longrightarrow>
   ParseContext t ReconstitutionPolicy = Inr (Context t)"
  by (auto simp: ParseContext_def text_ok_def Let_def ReconstitutionPolicy_def StatementPolicy_IsValid_def MaxInt64_def)

lemma restate_category: "ParseCategory raw = Inr c \<Longrightarrow> ParseCategory (category_String c) = Inr c"
  by (auto simp: ParseCategory_def Let_def split: if_splits)

lemma restate_slug: "ParseSlug raw = Inr s \<Longrightarrow> ParseSlug (slug_String s) = Inr s"
  by (auto simp: ParseSlug_def Let_def split: if_splits)

lemma ParseLanguage_supported: "ParseLanguage raw = Inr l \<Longrightarrow> language_String l \<in> {''pt-BR'', ''en-US''}"
  by (auto simp: ParseLanguage_def Let_def bind_r_Inr_iff supportedLanguages_def LanguagePortuguese_def LanguageEnglish_def
      split: if_splits)

lemma pt_BR: "ParseLanguage ''pt-BR'' = Inr (Language ''pt-BR'')"
proof -
  have p: "TrimSpace ''pt-BR'' = ''pt-BR''" by (rule TrimSpace_printable) (simp add: printable_def)
  have "canonicalizeLanguageTag ''pt-BR'' = Inr ''pt-BR''" by code_simp
  then show ?thesis by (simp add: ParseLanguage_def p supportedLanguages_def LanguagePortuguese_def)
qed

lemma en_US: "ParseLanguage ''en-US'' = Inr (Language ''en-US'')"
proof -
  have p: "TrimSpace ''en-US'' = ''en-US''" by (rule TrimSpace_printable) (simp add: printable_def)
  have "canonicalizeLanguageTag ''en-US'' = Inr ''en-US''" by code_simp
  then show ?thesis by (simp add: ParseLanguage_def p supportedLanguages_def LanguageEnglish_def)
qed

lemma supported_languages: "l \<in> {''pt-BR'', ''en-US''} \<Longrightarrow> ParseLanguage l = Inr (Language l)"
  using pt_BR en_US by blast

section \<open>Slugs\<close>

definition hyphens_apart :: "string \<Rightarrow> bool" where
  "hyphens_apart = successively (\<lambda>a b. \<not> (a = CHR ''-'' \<and> b = CHR ''-''))"

text \<open>Letters and digits in groups separated by single hyphens.\<close>

definition clean :: "string \<Rightarrow> bool" where
  "clean s \<longleftrightarrow> list_all (\<lambda>c. lower_alnum c \<or> c = CHR ''-'') s \<and> hyphens_apart s
     \<and> (s \<noteq> [] \<longrightarrow> hd s \<noteq> CHR ''-'' \<and> last s \<noteq> CHR ''-'')"

lemma hyphen_not_alnum [simp]: "\<not> lower_alnum (CHR ''-'')"
  by (simp add: lower_alnum_def)

lemma slug_bytes_iff:
  "slug_bytes p f s \<longleftrightarrow> list_all (\<lambda>c. lower_alnum c \<or> c = CHR ''-'') s \<and> hyphens_apart s
     \<and> (s \<noteq> [] \<longrightarrow> last s \<noteq> CHR ''-'' \<and> (hd s = CHR ''-'' \<longrightarrow> \<not> p \<and> \<not> f))"
proof (induction s arbitrary: p f)
  case Nil
  then show ?case by (simp add: hyphens_apart_def)
next
  case (Cons c s)
  show ?case
  proof (cases "c = CHR ''-''")
    case True
    then show ?thesis using Cons.IH [of True False] by (cases s) (auto simp: hyphens_apart_def)
  next
    case False
    then show ?thesis using Cons.IH [of False False] by (cases s) (auto simp: hyphens_apart_def)
  qed
qed

lemma slug_bytes_clean: "slug_bytes False True s = clean s"
  by (auto simp: slug_bytes_iff clean_def)

lemma clean_Nil [simp]: "clean []"
  by (simp add: clean_def hyphens_apart_def)

lemma clean_snoc: "clean s \<Longrightarrow> lower_alnum c \<Longrightarrow> clean (s @ [c])"
  by (auto simp: clean_def hyphens_apart_def successively_append_iff hd_append)

lemma clean_hyphen: "clean s \<Longrightarrow> s \<noteq> [] \<Longrightarrow> lower_alnum c \<Longrightarrow> clean (s @ [CHR ''-'', c])"
  by (auto simp: clean_def hyphens_apart_def successively_append_iff)

lemma clean_append: "clean s \<Longrightarrow> list_all lower_alnum u \<Longrightarrow> clean (s @ u)"
proof (induction u rule: rev_induct)
  case (snoc c u)
  then show ?case using clean_snoc [of "s @ u" c] by simp
qed simp

lemma clean_prefix: "clean (u @ v) \<Longrightarrow> u = [] \<or> last u \<noteq> CHR ''-'' \<Longrightarrow> clean u"
  by (cases "u = []") (auto simp: clean_def hyphens_apart_def successively_append_iff)

lemma alnum_printable: "lower_alnum c \<or> c = CHR ''-'' \<Longrightarrow> printable c"
  by (auto simp: lower_alnum_def printable_def)

lemma clean_printable: "clean s \<Longrightarrow> list_all printable s"
  unfolding clean_def by (blast intro: list.pred_mono_strong alnum_printable)

lemma ParseSlug_clean: "clean s \<Longrightarrow> SlugMinLength \<le> length s \<Longrightarrow> length s \<le> SlugMaxLength \<Longrightarrow> ParseSlug s = Inr (Slug s)"
  by (auto simp: ParseSlug_def Let_def slug_bytes_clean clean_printable SlugMinLength_def)

lemma ParseSlug_shape: "ParseSlug raw = Inr s \<Longrightarrow> clean (slug_String s) \<and> 3 \<le> length (slug_String s) \<and> length (slug_String s) \<le> 80"
  by (auto simp: ParseSlug_def Let_def slug_bytes_clean SlugMinLength_def SlugMaxLength_def split: if_splits)

section \<open>Slugify\<close>

lemma slug_rune_cases: "slug_rune r = [] \<or> (\<exists>c. slug_rune r = [c] \<and> lower_alnum c)"
proof (cases "slugTransliterations r")
  case None
  have "lower_alnum (char_of r)" if "97 \<le> r \<and> r \<le> 122 \<or> 48 \<le> r \<and> r \<le> 57"
    using that by (auto simp: lower_alnum_def)
  then show ?thesis using None by (auto simp: slug_rune_def)
next
  case (Some c)
  then have "c \<in> {CHR ''a'', CHR ''e'', CHR ''i'', CHR ''o'', CHR ''u'', CHR ''c'', CHR ''n'', CHR ''y''}"
    by (auto simp: slugTransliterations_def split: if_splits)
  then have "lower_alnum c" by (auto simp: lower_alnum_def)
  then show ?thesis using Some by (simp add: slug_rune_def)
qed

lemma slugify_runes_clean: "clean built \<Longrightarrow> (pending \<Longrightarrow> built \<noteq> []) \<Longrightarrow> clean (slugify_runes rs built pending)"
proof (induction rs arbitrary: built pending)
  case Nil
  then show ?case by simp
next
  case (Cons r rs)
  from slug_rune_cases [of r] show ?case
  proof
    assume "slug_rune r = []"
    then show ?thesis using Cons.IH [of built "pending \<or> built \<noteq> []"] Cons.prems by (auto simp: Let_def)
  next
    assume "\<exists>c. slug_rune r = [c] \<and> lower_alnum c"
    then obtain c where c: "slug_rune r = [c]" "lower_alnum c" by blast
    show ?thesis
    proof (cases pending)
      case True
      then show ?thesis using Cons.IH [of "built @ [CHR ''-'', c]" False] clean_hyphen [of built c] Cons.prems c
        by (simp add: Let_def)
    next
      case False
      then show ?thesis using Cons.IH [of "built @ [c]" False] clean_snoc [of built c] Cons.prems c
        by (simp add: Let_def)
    qed
  qed
qed

lemma Slugify_clean: "clean (Slugify s)"
  by (simp add: Slugify_def slugify_runes_clean)

end
