(* ===== verification/Sha256.thy ===== *)
theory Sha256
  imports Postgres
begin

text \<open>
  \<open>crypto/sha256\<close> and \<open>encoding/hex\<close> of the standard library, on byte strings: the digest of FIPS 180-4
  over 32-bit words, printed as 64 hexadecimal digits.
\<close>

unbundle bit_operations_syntax

type_synonym word32 = "32 word"

definition rotr :: "nat \<Rightarrow> word32 \<Rightarrow> word32" where
  "rotr n x = drop_bit n x OR push_bit (32 - n) x"

definition Ch :: "word32 \<Rightarrow> word32 \<Rightarrow> word32 \<Rightarrow> word32" where "Ch x y z = (x AND y) XOR (NOT x AND z)"
definition Maj :: "word32 \<Rightarrow> word32 \<Rightarrow> word32 \<Rightarrow> word32" where "Maj x y z = (x AND y) XOR (x AND z) XOR (y AND z)"
definition Sigma0 :: "word32 \<Rightarrow> word32" where "Sigma0 x = rotr 2 x XOR rotr 13 x XOR rotr 22 x"
definition Sigma1 :: "word32 \<Rightarrow> word32" where "Sigma1 x = rotr 6 x XOR rotr 11 x XOR rotr 25 x"
definition sigma0 :: "word32 \<Rightarrow> word32" where "sigma0 x = rotr 7 x XOR rotr 18 x XOR drop_bit 3 x"
definition sigma1 :: "word32 \<Rightarrow> word32" where "sigma1 x = rotr 17 x XOR rotr 19 x XOR drop_bit 10 x"

definition round_constants :: "word32 list" where
  "round_constants =
    [1116352408, 1899447441, 3049323471, 3921009573, 961987163, 1508970993, 2453635748, 2870763221,
     3624381080, 310598401, 607225278, 1426881987, 1925078388, 2162078206, 2614888103, 3248222580,
     3835390401, 4022224774, 264347078, 604807628, 770255983, 1249150122, 1555081692, 1996064986,
     2554220882, 2821834349, 2952996808, 3210313671, 3336571891, 3584528711, 113926993, 338241895,
     666307205, 773529912, 1294757372, 1396182291, 1695183700, 1986661051, 2177026350, 2456956037,
     2730485921, 2820302411, 3259730800, 3345764771, 3516065817, 3600352804, 4094571909, 275423344,
     430227734, 506948616, 659060556, 883997877, 958139571, 1322822218, 1537002063, 1747873779,
     1955562222, 2024104815, 2227730452, 2361852424, 2428436474, 2756734187, 3204031479, 3329325298]"

record sha_state =
  ha :: word32
  hb :: word32
  hc :: word32
  hd' :: word32
  he :: word32
  hf :: word32
  hg :: word32
  hh :: word32

definition initial_state :: sha_state where
  "initial_state = \<lparr>ha = 1779033703, hb = 3144134277, hc = 1013904242, hd' = 2773480762, he = 1359893119, hf = 2600822924, hg = 528734635, hh = 1541459225\<rparr>"

text \<open>The message schedule, newest word first.\<close>

fun extend_schedule :: "nat \<Rightarrow> word32 list \<Rightarrow> word32 list" where
  "extend_schedule 0 ws = ws"
| "extend_schedule (Suc n) ws =
     extend_schedule n ((sigma1 (ws ! 1) + ws ! 6 + sigma0 (ws ! 14) + ws ! 15) # ws)"

definition sha_round :: "word32 \<times> word32 \<Rightarrow> sha_state \<Rightarrow> sha_state" where
  "sha_round kw s =
     (let t1 = hh s + Sigma1 (he s) + Ch (he s) (hf s) (hg s) + fst kw + snd kw;
          t2 = Sigma0 (ha s) + Maj (ha s) (hb s) (hc s) in
      \<lparr>ha = t1 + t2, hb = ha s, hc = hb s, hd' = hc s, he = hd' s + t1, hf = he s, hg = hf s, hh = hg s\<rparr>)"

definition compress :: "word32 list \<Rightarrow> sha_state \<Rightarrow> sha_state" where
  "compress block s =
     (let r = fold sha_round (zip round_constants (rev (extend_schedule 48 (rev block)))) s in
      \<lparr>ha = ha s + ha r, hb = hb s + hb r, hc = hc s + hc r, hd' = hd' s + hd' r,
       he = he s + he r, hf = hf s + hf r, hg = hg s + hg r, hh = hh s + hh r\<rparr>)"

fun big_endian :: "nat \<Rightarrow> nat \<Rightarrow> nat list" where
  "big_endian 0 n = []"
| "big_endian (Suc w) n = big_endian w (n div 256) @ [n mod 256]"

definition sha_pad :: "string \<Rightarrow> nat list" where
  "sha_pad m = map byte m @ [0x80] @ replicate ((119 - length m mod 64) mod 64) 0 @ big_endian 8 (8 * length m)"

fun words_of :: "nat list \<Rightarrow> word32 list" where
  "words_of (a # b # c # d # bs) = word_of_nat (((a * 256 + b) * 256 + c) * 256 + d) # words_of bs"
| "words_of _ = []"

function compress_all :: "word32 list \<Rightarrow> sha_state \<Rightarrow> sha_state" where
  "compress_all ws s = (if length ws < 16 then s else compress_all (drop 16 ws) (compress (take 16 ws) s))"
  by pat_completeness auto
termination by (relation "measure (\<lambda>(ws, s). length ws)") auto

declare compress_all.simps [simp del]

text \<open>\<open>hex.EncodeToString\<close> of \<open>sha256.Sum256\<close>.\<close>

definition sha256_hex :: "string \<Rightarrow> string" where
  "sha256_hex m =
     (let s = compress_all (words_of (sha_pad m)) initial_state in
      concat (map (\<lambda>w. hex_digits 8 (unat w)) [ha s, hb s, hc s, hd' s, he s, hf s, hg s, hh s]))"

lemma length_sha256_hex [simp]: "length (sha256_hex m) = 64"
  by (simp add: sha256_hex_def Let_def)

lemma sha256_hex_digits: "c \<in> set (sha256_hex m) \<Longrightarrow> \<exists>d < 16. c = hex_digit d"
  using hex_digits_set by (auto simp: sha256_hex_def Let_def)

end
