(* ===== verification/ArgumentsDomain.thy ===== *)
theory ArgumentsDomain
  imports WalletUseCases ArenasUseCases ArenasTextFacts UuidScan Sha256
begin

text \<open>
  The value objects of \<open>internal/arguments/domain\<close>: identifiers, attempt keys, relations, contents with
  their canonical hash, sources and the policy of replies. \<open>counter\<close> stands for the grapheme counter of
  \<open>internal/platform/text\<close>, a library.
\<close>

section \<open>Errors\<close>

datatype arguments_error =
    ErrEmptyContent | ErrInvalidContent | ErrContentTooLong | ErrMissingGraphemeCounter | ErrInvalidContentHash
  | ErrContentHashMismatch | ErrEmptyRelation | ErrInvalidRelation | ErrEmptySourceURL | ErrInvalidSourceURL
  | ErrSourceDescriptionTooLong | ErrEmptyIdempotencyKey | ErrInvalidIdempotencyKey | ErrIdempotencyKeyTooLong
  | ErrEmptyArgumentID | ErrInvalidArgumentID | ErrEmptyArenaID | ErrInvalidArenaID | ErrEmptyAccountID
  | ErrInvalidAccountID | ErrInvalidPolicy

section \<open>Identifiers\<close>

definition maxIdentifierLength :: nat where "maxIdentifierLength = 64"
definition maxArgumentIDLength :: nat where "maxArgumentIDLength = 64"

definition parseIdentifier :: "string \<Rightarrow> arguments_error \<Rightarrow> arguments_error \<Rightarrow> arguments_error + string" where
  "parseIdentifier raw emptyErr invalidErr =
     (let trimmed = TrimSpace raw in
      if trimmed = [] then Inl emptyErr
      else if length trimmed > maxIdentifierLength then Inl invalidErr
      else if \<not> list_all printable trimmed then Inl invalidErr
      else Inr trimmed)"

datatype ArgumentID = ArgumentID (argument_String: string)
datatype ArenaID = ArenaID (arena_String: string)
datatype AccountID = AccountID (account_String: string)

definition ParseArgumentID :: "string \<Rightarrow> arguments_error + ArgumentID" where
  "ParseArgumentID raw =
     (let trimmed = TrimSpace raw in
      if trimmed = [] then Inl ErrEmptyArgumentID
      else if length trimmed > maxArgumentIDLength then Inl ErrInvalidArgumentID
      else if \<not> list_all printable trimmed then Inl ErrInvalidArgumentID
      else Inr (ArgumentID trimmed))"

definition ArgumentID_IsZero :: "ArgumentID \<Rightarrow> bool" where "ArgumentID_IsZero i \<longleftrightarrow> argument_String i = []"

definition ParseArenaID :: "string \<Rightarrow> arguments_error + ArenaID" where
  "ParseArenaID raw = bind_r (parseIdentifier raw ErrEmptyArenaID ErrInvalidArenaID) (\<lambda>t. Inr (ArenaID t))"

definition ArenaID_Equals :: "ArenaID \<Rightarrow> ArenaID \<Rightarrow> bool" where
  "ArenaID_Equals i other \<longleftrightarrow> arena_String i = arena_String other"

definition ParseAccountID :: "string \<Rightarrow> arguments_error + AccountID" where
  "ParseAccountID raw = bind_r (parseIdentifier raw ErrEmptyAccountID ErrInvalidAccountID) (\<lambda>t. Inr (AccountID t))"

interpretation argument_id: printable_identifier ParseArgumentID argument_String maxArgumentIDLength
  by unfold_locales (auto simp: ParseArgumentID_def Let_def ArgumentID.expand split: if_splits)

interpretation arena_id: printable_identifier ParseArenaID arena_String maxIdentifierLength
  by unfold_locales (auto simp: ParseArenaID_def parseIdentifier_def Let_def ArenaID.expand split: if_splits)

interpretation account_id: printable_identifier ParseAccountID account_String maxIdentifierLength
  by unfold_locales (auto simp: ParseAccountID_def parseIdentifier_def Let_def AccountID.expand split: if_splits)

section \<open>Attempt keys\<close>

definition maxIdempotencyKeyLength :: nat where "maxIdempotencyKeyLength = 128"

datatype IdempotencyKey = IdempotencyKey (key_String: string)

definition ParseIdempotencyKey :: "string \<Rightarrow> arguments_error + IdempotencyKey" where
  "ParseIdempotencyKey raw =
     (let trimmed = TrimSpace raw in
      if trimmed = [] then Inl ErrEmptyIdempotencyKey
      else if length trimmed > maxIdempotencyKeyLength then Inl ErrIdempotencyKeyTooLong
      else if \<not> list_all printable trimmed then Inl ErrInvalidIdempotencyKey
      else Inr (IdempotencyKey trimmed))"

definition WalletReference :: "IdempotencyKey \<Rightarrow> string" where
  "WalletReference k = ''argument:'' @ key_String k"

interpretation attempt_key: printable_identifier ParseIdempotencyKey key_String maxIdempotencyKeyLength
  by unfold_locales (auto simp: ParseIdempotencyKey_def Let_def IdempotencyKey.expand split: if_splits)

section \<open>Relations\<close>

datatype Relation = Relation (relation_String: string)

definition RelationSupport :: string where [vocab]: "RelationSupport = ''support''"
definition RelationOppose :: string where [vocab]: "RelationOppose = ''oppose''"
definition RelationContext :: string where [vocab]: "RelationContext = ''context''"

definition ParseRelation :: "string \<Rightarrow> arguments_error + Relation" where
  "ParseRelation raw =
     (let trimmed = TrimSpace raw in
      if trimmed = [] then Inl ErrEmptyRelation
      else if trimmed = RelationSupport \<or> trimmed = RelationOppose \<or> trimmed = RelationContext then Inr (Relation trimmed)
      else Inl ErrInvalidRelation)"

definition SupportedRelations :: "Relation list" where
  "SupportedRelations = [Relation RelationSupport, Relation RelationOppose, Relation RelationContext]"

definition IsSupported :: "Relation \<Rightarrow> bool" where
  "IsSupported r \<longleftrightarrow> relation_String r \<in> {RelationSupport, RelationOppose, RelationContext}"

section \<open>Contents\<close>

definition MaxGraphemeCost :: int where "MaxGraphemeCost = 3000"
definition contentHashVersion :: string where "contentHashVersion = ''v1''"
definition contentHashDomain :: string where "contentHashDomain = ''goyim-arena/arguments/content/v1''"

datatype ContentHash = ContentHash (hash_String: string)

definition HashContent :: "string \<Rightarrow> ContentHash" where
  "HashContent normalized =
     ContentHash (contentHashVersion @ '':'' @ sha256_hex (contentHashDomain @ [CHR 0x00] @ normalized))"

definition ParseContentHash :: "string \<Rightarrow> arguments_error + ContentHash" where
  "ParseContentHash raw =
     (let trimmed = TrimSpace raw; prefix = contentHashVersion @ '':'' in
      if take (length prefix) trimmed \<noteq> prefix then Inl ErrInvalidContentHash
      else let digest = drop (length prefix) trimmed in
      if length digest \<noteq> 64 then Inl ErrInvalidContentHash
      else if list_ex (\<lambda>c. \<not> (48 \<le> byte c \<and> byte c \<le> 57) \<and> \<not> (97 \<le> byte c \<and> byte c \<le> 102)) digest
        then Inl ErrInvalidContentHash
      else Inr (ContentHash trimmed))"

definition ContentHash_IsZero :: "ContentHash \<Rightarrow> bool" where "ContentHash_IsZero h \<longleftrightarrow> hash_String h = []"
definition ContentHash_Equals :: "ContentHash \<Rightarrow> ContentHash \<Rightarrow> bool" where
  "ContentHash_Equals h other \<longleftrightarrow> hash_String h = hash_String other"

record Content =
  content_value :: string
  content_cost :: int
  content_hash :: ContentHash

definition normalizeContent :: "string \<Rightarrow> string" where
  "normalizeContent raw = TrimSpace (cr_to_lf (crlf_to_lf raw))"

text \<open>The same loop and the same table of code points as in the arenas domain.\<close>

definition isBidiOverride :: "nat \<Rightarrow> bool" where
  "isBidiOverride r \<longleftrightarrow> r \<in> {0x200E, 0x200F, 0x061C, 0x202A, 0x202B, 0x202C, 0x202D, 0x202E, 0x2066, 0x2067, 0x2068, 0x2069}"

definition containsUnsupportedRunes :: "string \<Rightarrow> bool" where
  "containsUnsupportedRunes v \<longleftrightarrow> list_ex (\<lambda>r. isBidiOverride r \<or> r \<noteq> 10 \<and> is_control r) (runes v)"

definition ParseContent :: "string \<Rightarrow> (string \<Rightarrow> int) option \<Rightarrow> arguments_error + Content" where
  "ParseContent raw counter =
     (case counter of
        None \<Rightarrow> Inl ErrMissingGraphemeCounter
      | Some measured \<Rightarrow>
          if \<not> valid_utf8 raw then Inl ErrInvalidContent
          else let normalized = normalizeContent raw in
          if normalized = [] then Inl ErrEmptyContent
          else if containsUnsupportedRunes normalized then Inl ErrInvalidContent
          else let cost = measured normalized in
          if cost < 1 then Inl ErrEmptyContent
          else if cost > MaxGraphemeCost then Inl ErrContentTooLong
          else Inr \<lparr>content_value = normalized, content_cost = cost, content_hash = HashContent normalized\<rparr>)"

definition ReconstituteContent :: "string \<Rightarrow> int \<Rightarrow> ContentHash \<Rightarrow> arguments_error + Content" where
  "ReconstituteContent v cost hash =
     (if v = [] \<or> TrimSpace v = [] then Inl ErrEmptyContent
      else if cost < 1 \<or> cost > MaxGraphemeCost then Inl ErrContentTooLong
      else if ContentHash_IsZero hash then Inl ErrInvalidContentHash
      else if \<not> ContentHash_Equals (HashContent v) hash then Inl ErrContentHashMismatch
      else Inr \<lparr>content_value = v, content_cost = cost, content_hash = hash\<rparr>)"

section \<open>The policy of replies\<close>

record ReplyPolicy =
  reply_Version :: string
  MaxDepth :: int

definition DefaultReplyPolicy :: ReplyPolicy where
  "DefaultReplyPolicy = \<lparr>reply_Version = ''2026-09'', MaxDepth = 1\<rparr>"

definition ReplyPolicy_IsValid :: "ReplyPolicy \<Rightarrow> bool" where
  "ReplyPolicy_IsValid p \<longleftrightarrow> reply_Version p \<noteq> [] \<and> MaxDepth p \<ge> 1"

definition AllowsChildDepth :: "ReplyPolicy \<Rightarrow> int \<Rightarrow> bool" where
  "AllowsChildDepth p depth \<longleftrightarrow> depth \<ge> 1 \<and> depth \<le> MaxDepth p"

end
