(* ===== verification/ArgumentSources.thy ===== *)
theory ArgumentSources
  imports ArgumentsDomain
begin

text \<open>
  \<open>internal/arguments/domain/source.go\<close>: the structural check of source addresses, on bytes as the
  code has it, and what an accepted address looks like to the checks of the table of sources.
\<close>

section \<open>Searching\<close>

text \<open>\<open>strings.Index\<close>, \<open>strings.IndexAny\<close> of ASCII bytes, \<open>strings.IndexByte\<close> and \<open>strings.LastIndexByte\<close>.\<close>

fun index_of :: "string \<Rightarrow> string \<Rightarrow> nat option" where
  "index_of p [] = (if p = [] then Some 0 else None)"
| "index_of p (c # s) = (if take (length p) (c # s) = p then Some 0 else map_option Suc (index_of p s))"

fun index_any :: "char list \<Rightarrow> string \<Rightarrow> nat option" where
  "index_any cs [] = None"
| "index_any cs (c # s) = (if c \<in> set cs then Some 0 else map_option Suc (index_any cs s))"

definition last_index_byte :: "string \<Rightarrow> char \<Rightarrow> nat option" where
  "last_index_byte s c = map_option (\<lambda>i. length s - 1 - i) (index_any [c] (rev s))"

definition has_prefix :: "string \<Rightarrow> string \<Rightarrow> bool" where
  "has_prefix s p \<longleftrightarrow> take (length p) s = p"

section \<open>Sources\<close>

definition SourceURLMinLength :: nat where "SourceURLMinLength = 8"
definition SourceURLMaxLength :: nat where "SourceURLMaxLength = 2048"
definition SourceDescriptionMaxLength :: nat where "SourceDescriptionMaxLength = 500"

record Source =
  source_url :: string
  source_description :: string

definition HasDescription :: "Source \<Rightarrow> bool" where
  "HasDescription s \<longleftrightarrow> source_description s \<noteq> []"

definition validSourcePort :: "string \<Rightarrow> bool" where
  "validSourcePort raw =
     (if raw = [] \<or> length raw > 5 then False
      else case ParseInt raw of Inl _ \<Rightarrow> False | Inr port \<Rightarrow> port \<ge> 1 \<and> port \<le> 65535)"

definition address_rune :: "nat \<Rightarrow> bool" where
  "address_rune r \<longleftrightarrow> r \<le> 127 \<and> (r = 58 \<or> r = 46 \<or> 48 \<le> r \<and> r \<le> 57 \<or> 97 \<le> r \<and> r \<le> 102 \<or> 65 \<le> r \<and> r \<le> 70)"

definition label_rune :: "nat \<Rightarrow> bool" where
  "label_rune r \<longleftrightarrow> r \<le> 127 \<and> (97 \<le> r \<and> r \<le> 122 \<or> 65 \<le> r \<and> r \<le> 90 \<or> 48 \<le> r \<and> r \<le> 57 \<or> r = 45)"

definition valid_label :: "string \<Rightarrow> bool" where
  "valid_label l \<longleftrightarrow> \<not> (l = [] \<or> length l > 63 \<or> l ! 0 = CHR ''-'' \<or> l ! (length l - 1) = CHR ''-'') \<and> list_all label_rune (runes l)"

definition valid_host :: "string \<Rightarrow> bool" where
  "valid_host host =
     (if host = [] \<or> has_prefix host ''.'' \<or> (host \<noteq> [] \<and> last host = CHR ''.'') \<or> index_of ''..'' host \<noteq> None then False
      else list_all valid_label (split_on (CHR ''.'') host))"

definition validSourceAuthority :: "string \<Rightarrow> bool" where
  "validSourceAuthority authority =
     (if authority = [] \<or> CHR ''@'' \<in> set authority then False
      else if has_prefix authority ''['' then
        (case index_any [CHR '']''] authority of
           None \<Rightarrow> False
         | Some closing \<Rightarrow>
             if closing < 2 then False
             else if \<not> list_all address_rune (runes (drop 1 (take closing authority))) then False
             else (let host = drop (closing + 1) authority in
               if host \<noteq> [] then has_prefix host '':'' \<and> validSourcePort (drop 1 host) else True))
      else (case last_index_byte authority (CHR '':'') of
          Some colon \<Rightarrow>
            if CHR '':'' \<in> set (take colon authority) \<or> \<not> validSourcePort (drop (colon + 1) authority) then False
            else valid_host (take colon authority)
        | None \<Rightarrow> valid_host authority))"

text \<open>\<open>strings.ToLower\<close> gives \<open>http\<close> or \<open>https\<close> only for an ASCII spelling of it.\<close>

definition parseSourceURL :: "string \<Rightarrow> arguments_error + string" where
  "parseSourceURL raw =
     (let trimmed = TrimSpace raw in
      if trimmed = [] then Inl ErrEmptySourceURL
      else if length trimmed > SourceURLMaxLength then Inl ErrInvalidSourceURL
      else if list_ex (\<lambda>r. is_space r \<or> is_control r) (runes trimmed) then Inl ErrInvalidSourceURL
      else case index_of ''://'' trimmed of
        None \<Rightarrow> Inl ErrInvalidSourceURL
      | Some separator \<Rightarrow>
          if separator = 0 then Inl ErrInvalidSourceURL
          else let scheme = ascii_lower (take separator trimmed) in
          if scheme \<noteq> ''http'' \<and> scheme \<noteq> ''https'' then Inl ErrInvalidSourceURL
          else let rest = drop (separator + 3) trimmed;
                   authorityEnd = (case index_any ''/?#'' rest of None \<Rightarrow> length rest | Some i \<Rightarrow> i) in
          if \<not> validSourceAuthority (take authorityEnd rest) then Inl ErrInvalidSourceURL
          else let canonical = scheme @ ''://'' @ rest in
          if length canonical < SourceURLMinLength \<or> length canonical > SourceURLMaxLength then Inl ErrInvalidSourceURL
          else Inr canonical)"

definition parseSourceDescription :: "string \<Rightarrow> arguments_error + string" where
  "parseSourceDescription raw =
     (let trimmed = TrimSpace raw in
      if trimmed = [] then Inr []
      else if length (runes trimmed) > SourceDescriptionMaxLength then Inl ErrSourceDescriptionTooLong
      else if containsUnsupportedRunes trimmed then Inl ErrInvalidContent
      else Inr trimmed)"

definition ParseSource :: "string \<Rightarrow> string \<Rightarrow> arguments_error + Source" where
  "ParseSource rawURL rawDescription =
     bind_r (parseSourceURL rawURL) (\<lambda>url.
     bind_r (parseSourceDescription rawDescription) (\<lambda>description.
       Inr \<lparr>source_url = url, source_description = description\<rparr>))"

definition ReconstituteSource :: "string \<Rightarrow> string \<Rightarrow> arguments_error + Source" where
  "ReconstituteSource url description =
     (if url = [] then Inl ErrEmptySourceURL
      else if length url < SourceURLMinLength \<or> length url > SourceURLMaxLength then Inl ErrInvalidSourceURL
      else if description \<noteq> [] \<and> length (runes description) > SourceDescriptionMaxLength then Inl ErrSourceDescriptionTooLong
      else if description \<noteq> [] \<and> containsUnsupportedRunes description then Inl ErrInvalidContent
      else Inr \<lparr>source_url = url, source_description = description\<rparr>)"

section \<open>What is accepted\<close>

lemma index_of_Some: "index_of p s = Some i \<Longrightarrow> s = take i s @ p @ drop (i + length p) s"
proof (induction p s arbitrary: i rule: index_of.induct)
  case (2 p c s)
  show ?case
  proof (cases "take (length p) (c # s) = p")
    case True
    then have "i = 0" using 2(2) by simp
    then show ?thesis using True append_take_drop_id [of "length p" "c # s"] by simp
  next
    case False
    then obtain j where j: "index_of p s = Some j" "i = Suc j" using 2(2) by auto
    then show ?thesis using 2(1) [OF False j(1)] by simp
  qed
qed (auto split: if_splits)

lemma runes_ascii_append: "list_all (\<lambda>c. byte c < 128) a \<Longrightarrow> runes (a @ b) = map byte a @ runes b"
  by (induction a) (simp_all add: runes_ascii_Cons)

lemma ascii_lower_ascii: "list_all (\<lambda>c. byte c < 128) (ascii_lower s) \<Longrightarrow> list_all (\<lambda>c. byte c < 128) s"
  by (induction s) (auto simp: ascii_lower_def split: if_splits)

text \<open>The \<open>CHECK\<close>s of \<open>app.argument_sources\<close>; \<open>[[:space:]]\<close> is read as Unicode white space.\<close>

definition source_checks :: "string \<Rightarrow> string option \<Rightarrow> bool" where
  "source_checks url description \<longleftrightarrow>
     8 \<le> length (runes url) \<and> length (runes url) \<le> 2048
   \<and> (\<exists>scheme \<in> {''http://'', ''https://''}. has_prefix url scheme \<and> drop (length scheme) url \<noteq> []
        \<and> \<not> list_ex is_space (runes (drop (length scheme) url)))
   \<and> (case description of None \<Rightarrow> True | Some d \<Rightarrow> length (runes d) \<le> 500)"

lemma runes_eq_Nil [simp]: "runes s = [] \<longleftrightarrow> s = []"
  using runes_nonempty by auto

lemma parseSourceURL_shape:
  assumes "parseSourceURL raw = Inr url"
  obtains scheme rest where "url = scheme @ ''://'' @ rest" "scheme \<in> {''http'', ''https''}" "rest \<noteq> []"
    "\<not> list_ex (\<lambda>r. is_space r \<or> is_control r) (runes rest)" "length url \<le> 2048"
proof -
  let ?t = "TrimSpace raw"
  obtain i where i: "index_of ''://'' ?t = Some i" "ascii_lower (take i ?t) \<in> {''http'', ''https''}"
    "url = ascii_lower (take i ?t) @ ''://'' @ drop (i + 3) ?t" "length url \<le> 2048"
    "\<not> list_ex (\<lambda>r. is_space r \<or> is_control r) (runes ?t)"
    "validSourceAuthority (take (case index_any ''/?#'' (drop (i + 3) ?t) of None \<Rightarrow> length (drop (i + 3) ?t) | Some i \<Rightarrow> i) (drop (i + 3) ?t))"
    using assms unfolding parseSourceURL_def Let_def SourceURLMaxLength_def by (auto split: if_splits option.splits)
  have t: "?t = take i ?t @ ''://'' @ drop (i + 3) ?t" using index_of_Some [OF i(1)] by (simp add: numeral_3_eq_3)
  have "list_all (\<lambda>c. byte c < 128) (ascii_lower (take i ?t))" using i(2) by auto
  then have "list_all (\<lambda>c. byte c < 128) (take i ?t @ ''://'')" using ascii_lower_ascii by simp
  then have "runes ?t = map byte (take i ?t @ ''://'') @ runes (drop (i + 3) ?t)"
    using runes_ascii_append t by (metis append.assoc)
  then have "\<not> list_ex (\<lambda>r. is_space r \<or> is_control r) (runes (drop (i + 3) ?t))" using i(5) by simp
  moreover have "drop (i + 3) ?t \<noteq> []" using i(6) by (auto simp: validSourceAuthority_def)
  ultimately show ?thesis using that i by blast
qed

lemma ParseSource_checks:
  assumes "ParseSource rawURL rawDescription = Inr s"
  shows "source_checks (source_url s) (if HasDescription s then Some (source_description s) else None)"
proof -
  from assms have url: "parseSourceURL rawURL = Inr (source_url s)" and d: "parseSourceDescription rawDescription = Inr (source_description s)"
    by (auto simp: ParseSource_def bind_r_Inr_iff)
  obtain scheme rest where u: "source_url s = scheme @ ''://'' @ rest" "scheme \<in> {''http'', ''https''}" "rest \<noteq> []"
    "\<not> list_ex (\<lambda>r. is_space r \<or> is_control r) (runes rest)" "length (source_url s) \<le> 2048"
    by (rule parseSourceURL_shape [OF url])
  have "list_all (\<lambda>c. byte c < 128) (scheme @ ''://'')" using u(2) by auto
  then have "runes (source_url s) = map byte (scheme @ ''://'') @ runes rest" using runes_ascii_append u(1) by (metis append.assoc)
  then have "8 \<le> length (runes (source_url s))" using u(2,3) by (cases "runes rest") auto
  moreover have "length (runes (source_url s)) \<le> 2048" using length_runes [of "source_url s"] u(5) by simp
  moreover have "\<not> list_ex is_space (runes rest)" using u(4) by (auto simp: list_ex_iff)
  moreover have "length (runes (source_description s)) \<le> 500"
    using d by (auto simp: parseSourceDescription_def Let_def SourceDescriptionMaxLength_def split: if_splits)
  ultimately show ?thesis using u(1-3) by (auto simp: source_checks_def has_prefix_def HasDescription_def)
qed

end
