(* ===== verification/ArgumentsStore.thy ===== *)
theory ArgumentsStore
  imports ArgumentSources
begin

text \<open>
  The tables \<open>app.arguments\<close> and \<open>app.argument_sources\<close> (migrations 00015 to 00017, with their checks,
  keys and triggers) and the statements of \<open>internal/platform/postgres/arguments.sql.go\<close>, with the two
  statements of the moderation module that change an argument.
\<close>

section \<open>Tables\<close>

record AppArgument =
  ag_ID :: uuid
  ag_ArenaID :: uuid
  ag_AuthorID :: uuid
  ag_ParentID :: "uuid option"
  ag_Relation :: string
  ag_Content :: string
  ag_ContentHash :: string
  ag_GraphemeCost :: int
  ag_Status :: string
  ag_CreatedAt :: time
  ag_UpdatedAt :: time
  ag_IdempotencyKey :: "string option"
  ag_WithdrawnAt :: "time option"

record AppArgumentSource =
  src_ID :: uuid
  src_ArgumentID :: uuid
  src_Url :: string
  src_Description :: "string option"
  src_CreatedAt :: time

text \<open>
  \<open>arg_arenas\<close> and \<open>arg_accounts\<close> are the keys the foreign keys refer to, \<open>arg_uuid_gen\<close> and
  \<open>arg_uuid_next\<close> the values of \<open>uuidv7()\<close>, \<open>arg_now\<close> the value of \<open>now()\<close>.
\<close>

record arguments_db =
  argument_rows :: "AppArgument list"
  source_rows :: "AppArgumentSource list"
  arg_arenas :: "uuid list"
  arg_accounts :: "uuid list"
  arg_uuid_gen :: "nat \<Rightarrow> uuid"
  arg_uuid_next :: nat
  arg_now :: time

definition arguments_checks :: "AppArgument \<Rightarrow> bool" where
  "arguments_checks r \<longleftrightarrow>
     ag_ParentID r \<noteq> Some (ag_ID r)
   \<and> ag_Relation r \<in> {''support'', ''oppose'', ''context''}
   \<and> \<not> sql_blank (ag_Content r) \<and> length (ag_Content r) \<le> 131072
   \<and> 8 \<le> length (runes (ag_ContentHash r)) \<and> length (runes (ag_ContentHash r)) \<le> 128
   \<and> 1 \<le> ag_GraphemeCost r \<and> ag_GraphemeCost r \<le> 3000
   \<and> ag_Status r \<in> {''published'', ''withdrawn'', ''removed''}
   \<and> (case ag_IdempotencyKey r of None \<Rightarrow> True
      | Some k \<Rightarrow> 1 \<le> length (runes k) \<and> length (runes k) \<le> 128 \<and> list_all printable k)
   \<and> (ag_WithdrawnAt r = None \<or> ag_Status r \<in> {''withdrawn'', ''removed''})"

definition argument_texts :: "AppArgument \<Rightarrow> bool" where
  "argument_texts r \<longleftrightarrow> pg_text (ag_Relation r) \<and> pg_text (ag_Content r) \<and> pg_text (ag_ContentHash r)
     \<and> (case ag_IdempotencyKey r of None \<Rightarrow> True | Some k \<Rightarrow> pg_text k)"

text \<open>The trigger \<open>arguments_protect_published\<close> on an update.\<close>

definition protect_argument :: "AppArgument \<Rightarrow> AppArgument \<Rightarrow> bool" where
  "protect_argument old new \<longleftrightarrow>
     ag_ArenaID new = ag_ArenaID old \<and> ag_AuthorID new = ag_AuthorID old \<and> ag_ParentID new = ag_ParentID old
     \<and> ag_Relation new = ag_Relation old \<and> ag_Content new = ag_Content old \<and> ag_ContentHash new = ag_ContentHash old
     \<and> ag_GraphemeCost new = ag_GraphemeCost old \<and> ag_CreatedAt new = ag_CreatedAt old"

section \<open>Writes\<close>

text \<open>\<open>ON CONFLICT (author_id, idempotency_key) DO NOTHING\<close>: a used key returns no row.\<close>

definition sql_CreateArgument ::
  "uuid \<Rightarrow> uuid \<Rightarrow> uuid option \<Rightarrow> string \<Rightarrow> string \<Rightarrow> string \<Rightarrow> int \<Rightarrow> string \<Rightarrow> time \<Rightarrow> arguments_db
     \<Rightarrow> pg_error + AppArgument \<times> arguments_db" where
  "sql_CreateArgument arena author parent relation content hash cost key at db =
     (let row = \<lparr>ag_ID = arg_uuid_gen db (arg_uuid_next db), ag_ArenaID = arena, ag_AuthorID = author, ag_ParentID = parent,
           ag_Relation = relation, ag_Content = content, ag_ContentHash = hash, ag_GraphemeCost = cost,
           ag_Status = ''published'', ag_CreatedAt = timestamptz at, ag_UpdatedAt = timestamptz at,
           ag_IdempotencyKey = Some key, ag_WithdrawnAt = None\<rparr> in
      if \<not> argument_texts row then Inl InvalidText
      else if \<not> arguments_checks row then Inl CheckViolation
      else if \<exists>r \<in> set (argument_rows db). ag_AuthorID r = author \<and> ag_IdempotencyKey r = Some key then Inl NoRows
      else if ag_ID row \<in> ag_ID ` set (argument_rows db) then Inl UniqueViolation
      else if arena \<notin> set (arg_arenas db) \<or> author \<notin> set (arg_accounts db) then Inl ForeignKeyViolation
      else if \<not> (case parent of None \<Rightarrow> True
          | Some p \<Rightarrow> \<exists>r \<in> set (argument_rows db). ag_ID r = p \<and> ag_ArenaID r = arena) then Inl ForeignKeyViolation
      else Inr (row, db\<lparr>argument_rows := argument_rows db @ [row], arg_uuid_next := Suc (arg_uuid_next db)\<rparr>))"

definition sql_CreateArgumentSource ::
  "uuid \<Rightarrow> string \<Rightarrow> string option \<Rightarrow> time \<Rightarrow> arguments_db \<Rightarrow> pg_error + uuid \<times> arguments_db" where
  "sql_CreateArgumentSource argument url description at db =
     (let row = \<lparr>src_ID = arg_uuid_gen db (arg_uuid_next db), src_ArgumentID = argument, src_Url = url,
           src_Description = description, src_CreatedAt = timestamptz at\<rparr> in
      if \<not> (pg_text url \<and> (case description of None \<Rightarrow> True | Some d \<Rightarrow> pg_text d)) then Inl InvalidText
      else if \<not> source_checks url description then Inl CheckViolation
      else if src_ID row \<in> src_ID ` set (source_rows db) then Inl UniqueViolation
      else if \<exists>s \<in> set (source_rows db). src_ArgumentID s = argument \<and> src_Url s = url then Inl UniqueViolation
      else if argument \<notin> ag_ID ` set (argument_rows db) then Inl ForeignKeyViolation
      else Inr (src_ID row, db\<lparr>source_rows := source_rows db @ [row], arg_uuid_next := Suc (arg_uuid_next db)\<rparr>))"

text \<open>\<open>UPDATE app.arguments SET ... WHERE hit RETURNING ...\<close>: \<open>hit\<close> names the primary key.\<close>

definition update_argument ::
  "(AppArgument \<Rightarrow> bool) \<Rightarrow> (AppArgument \<Rightarrow> AppArgument) \<Rightarrow> arguments_db \<Rightarrow> pg_error + AppArgument \<times> arguments_db" where
  "update_argument hit change db =
     (case find hit (argument_rows db) of
        None \<Rightarrow> Inl NoRows
      | Some old \<Rightarrow>
          (let new = change old in
           if \<not> protect_argument old new \<or> \<not> arguments_checks new then Inl CheckViolation
           else Inr (new, db\<lparr>argument_rows := map (\<lambda>r. if ag_ID r = ag_ID old then new else r) (argument_rows db)\<rparr>)))"

definition sql_WithdrawArgument :: "time \<Rightarrow> uuid \<Rightarrow> uuid \<Rightarrow> arguments_db \<Rightarrow> pg_error + AppArgument \<times> arguments_db" where
  "sql_WithdrawArgument at i author =
     update_argument (\<lambda>r. ag_ID r = i \<and> ag_AuthorID r = author \<and> ag_Status r = ''published'')
       (\<lambda>r. r\<lparr>ag_Status := ''withdrawn'',
               ag_WithdrawnAt := Some (case ag_WithdrawnAt r of None \<Rightarrow> timestamptz at | Some t \<Rightarrow> t),
               ag_UpdatedAt := timestamptz at\<rparr>)"

definition sql_RemoveArgumentForModeration :: "uuid \<Rightarrow> arguments_db \<Rightarrow> pg_error + AppArgument \<times> arguments_db" where
  "sql_RemoveArgumentForModeration i db =
     update_argument (\<lambda>r. ag_ID r = i \<and> ag_Status r \<in> {''published'', ''withdrawn''})
       (\<lambda>r. r\<lparr>ag_Status := ''removed'', ag_UpdatedAt := arg_now db\<rparr>) db"

definition sql_RestoreArgumentForAppeal :: "uuid \<Rightarrow> arguments_db \<Rightarrow> pg_error + AppArgument \<times> arguments_db" where
  "sql_RestoreArgumentForAppeal i db =
     update_argument (\<lambda>r. ag_ID r = i \<and> ag_Status r = ''removed'')
       (\<lambda>r. r\<lparr>ag_Status := ''published'', ag_UpdatedAt := arg_now db\<rparr>) db"

section \<open>Reads\<close>

definition find_argument :: "(AppArgument \<Rightarrow> bool) \<Rightarrow> arguments_db \<Rightarrow> pg_error + AppArgument" where
  "find_argument P db = (case find P (argument_rows db) of None \<Rightarrow> Inl NoRows | Some r \<Rightarrow> Inr r)"

definition sql_GetArgumentByAuthorAndKey :: "uuid \<Rightarrow> string \<Rightarrow> arguments_db \<Rightarrow> pg_error + AppArgument" where
  "sql_GetArgumentByAuthorAndKey author key db = find_argument (\<lambda>r. ag_AuthorID r = author \<and> ag_IdempotencyKey r = Some key) db"

definition sql_GetArgumentForAuthor :: "uuid \<Rightarrow> uuid \<Rightarrow> arguments_db \<Rightarrow> pg_error + AppArgument" where
  "sql_GetArgumentForAuthor i author db = find_argument (\<lambda>r. ag_ID r = i \<and> ag_AuthorID r = author) db"

text \<open>The recursive chain of the statement: the number of ancestors, at most 1000.\<close>

fun chain_depth :: "nat \<Rightarrow> uuid option \<Rightarrow> AppArgument list \<Rightarrow> nat" where
  "chain_depth 0 parent rows = 0"
| "chain_depth (Suc n) None rows = 0"
| "chain_depth (Suc n) (Some p) rows =
     (case find (\<lambda>r. ag_ID r = p) rows of None \<Rightarrow> 0 | Some r \<Rightarrow> Suc (chain_depth n (ag_ParentID r) rows))"

definition sql_GetParentArgument :: "uuid \<Rightarrow> arguments_db \<Rightarrow> pg_error + AppArgument \<times> int" where
  "sql_GetParentArgument i db =
     bind_r (find_argument (\<lambda>r. ag_ID r = i) db) (\<lambda>r. Inr (r, int (chain_depth 1000 (ag_ParentID r) (argument_rows db))))"

definition reply_count :: "arguments_db \<Rightarrow> AppArgument \<Rightarrow> int" where
  "reply_count db r = int (length (filter (\<lambda>q. ag_ParentID q = Some (ag_ID r) \<and> ag_Status q = ''published'') (argument_rows db)))"

definition sql_GetPublicArgument :: "uuid \<Rightarrow> arguments_db \<Rightarrow> pg_error + AppArgument \<times> int" where
  "sql_GetPublicArgument i db =
     bind_r (find_argument (\<lambda>r. ag_ID r = i \<and> ag_Status r \<in> {''published'', ''withdrawn''}) db) (\<lambda>r. Inr (r, reply_count db r))"

definition argument_key :: "AppArgument \<Rightarrow> keyset" where
  "argument_key r = Keyset (ag_CreatedAt r) (ag_ID r)"

definition arena_argument_rows :: "uuid \<Rightarrow> string \<Rightarrow> arguments_db \<Rightarrow> AppArgument list" where
  "arena_argument_rows arena relation db =
     filter (\<lambda>r. ag_ArenaID r = arena \<and> ag_Relation r = relation \<and> ag_ParentID r = None \<and> ag_Status r = ''published'') (argument_rows db)"

definition page_after :: "(time \<times> uuid) option \<Rightarrow> keyset option" where
  "page_after after = map_option (\<lambda>(t, i). Keyset (timestamptz t) i) after"

definition sql_ListArenaArgumentsPage ::
  "uuid \<Rightarrow> string \<Rightarrow> (time \<times> uuid) option \<Rightarrow> int \<Rightarrow> arguments_db \<Rightarrow> pg_error + (AppArgument \<times> int) list" where
  "sql_ListArenaArgumentsPage arena relation after pageLimit db =
     (if pageLimit < 0 then Inl InvalidLimit
      else Inr (map (\<lambda>r. (r, reply_count db r))
        (keyset_query argument_key (arena_argument_rows arena relation db) (page_after after) (nat pageLimit))))"

definition reply_rows :: "uuid \<Rightarrow> arguments_db \<Rightarrow> AppArgument list" where
  "reply_rows parent db = filter (\<lambda>r. ag_ParentID r = Some parent \<and> ag_Status r = ''published'') (argument_rows db)"

definition sql_ListRepliesPage :: "uuid \<Rightarrow> (time \<times> uuid) option \<Rightarrow> int \<Rightarrow> arguments_db \<Rightarrow> pg_error + AppArgument list" where
  "sql_ListRepliesPage parent after pageLimit db =
     (if pageLimit < 0 then Inl InvalidLimit
      else Inr (keyset_query argument_key (reply_rows parent db) (page_after after) (nat pageLimit)))"

end
