(* ===== verification/ArgumentsRepository.thy ===== *)
theory ArgumentsRepository
  imports ArgumentsStore
begin

text \<open>
  \<open>internal/arguments/adapters/postgres/repository.go\<close>: the ports of the module over the statements.
  Every stored content is checked against its hash when it is read. \<open>scan\<close> stands for \<open>pgtype.UUID.Scan\<close>.
\<close>

datatype arguments_app_error =
    ErrArgumentNotFound | ErrParentNotFound | ErrParentNotAvailable | ErrReplyDepthExceeded
  | ErrDuplicateIdempotencyKey | ErrArgumentNotWithdrawable | ErrInsufficientInk | ErrAccountNotFound
  | ErrAccountNotEligible | ErrAccountSuspended | ErrArenaNotFound | ErrArenaNotOpen | ErrInvalidCursor
  | ErrWeakCursorSecret | ArgumentDomain arguments_error | ArgumentDatabase pg_error
  | WalletFailure wallet_app_error | ArenaFailure arenas_app_error | AccountFailure

record PublishedArgument =
  pa_ID :: ArgumentID
  pa_ArenaID :: ArenaID
  pa_AuthorID :: AccountID
  pa_ParentID :: ArgumentID
  pa_Relation :: Relation
  pa_Content :: Content
  pa_Status :: string
  pa_CreatedAt :: time
  pa_WithdrawnAt :: "time option"

record CreateArgumentRequest =
  ca_ArenaID :: ArenaID
  ca_AuthorID :: AccountID
  ca_ParentID :: ArgumentID
  ca_Relation :: Relation
  ca_Content :: Content
  ca_IdempotencyKey :: IdempotencyKey
  ca_CreatedAt :: time

section \<open>Row mapping\<close>

definition parse_parent :: "uuid option \<Rightarrow> arguments_error + ArgumentID" where
  "parse_parent parent = (case parent of None \<Rightarrow> Inr (ArgumentID []) | Some p \<Rightarrow> ParseArgumentID (uuidToString (Some p)))"

definition mapArgument :: "AppArgument \<Rightarrow> arguments_app_error + PublishedArgument" where
  "mapArgument row = wrap_err ArgumentDomain
     (bind_r (ParseArgumentID (uuidToString (Some (ag_ID row)))) (\<lambda>i.
      bind_r (ParseArenaID (uuidToString (Some (ag_ArenaID row)))) (\<lambda>arena.
      bind_r (ParseAccountID (uuidToString (Some (ag_AuthorID row)))) (\<lambda>author.
      bind_r (parse_parent (ag_ParentID row)) (\<lambda>parent.
      bind_r (ParseRelation (ag_Relation row)) (\<lambda>relation.
      bind_r (ParseContentHash (ag_ContentHash row)) (\<lambda>hash.
      bind_r (ReconstituteContent (ag_Content row) (ag_GraphemeCost row) hash) (\<lambda>content.
        Inr \<lparr>pa_ID = i, pa_ArenaID = arena, pa_AuthorID = author, pa_ParentID = parent, pa_Relation = relation,
             pa_Content = content, pa_Status = ag_Status row, pa_CreatedAt = ag_CreatedAt row,
             pa_WithdrawnAt = ag_WithdrawnAt row\<rparr>))))))))"

section \<open>Writes\<close>

text \<open>The flag tells whether a row was inserted; without it there is no argument.\<close>

definition repo_CreateArgument ::
  "(string \<Rightarrow> uuid option) \<Rightarrow> CreateArgumentRequest \<Rightarrow> arguments_db
     \<Rightarrow> (arguments_app_error + PublishedArgument option \<times> bool) \<times> arguments_db" where
  "repo_CreateArgument scan rq db =
     (case scan (arena_String (ca_ArenaID rq)) of None \<Rightarrow> (Inl ErrArenaNotFound, db) | Some arena \<Rightarrow>
     (case scan (account_String (ca_AuthorID rq)) of None \<Rightarrow> (Inl ErrAccountNotFound, db) | Some author \<Rightarrow>
     (case (if ArgumentID_IsZero (ca_ParentID rq) then Some None
            else map_option Some (scan (argument_String (ca_ParentID rq)))) of
        None \<Rightarrow> (Inl ErrParentNotFound, db)
      | Some parent \<Rightarrow>
     (case sql_CreateArgument arena author parent (relation_String (ca_Relation rq)) (content_value (ca_Content rq))
         (hash_String (content_hash (ca_Content rq))) (wrap32 (content_cost (ca_Content rq)))
         (key_String (ca_IdempotencyKey rq)) (ca_CreatedAt rq) db of
        Inl e \<Rightarrow> (if e = NoRows then Inr (None, False) else Inl (ArgumentDatabase e), db)
      | Inr (row, db') \<Rightarrow> (bind_r (mapArgument row) (\<lambda>created. Inr (Some created, True)), db')))))"

definition repo_CreateArgumentSource ::
  "(string \<Rightarrow> uuid option) \<Rightarrow> ArgumentID \<Rightarrow> Source \<Rightarrow> time \<Rightarrow> arguments_db \<Rightarrow> (arguments_app_error + unit) \<times> arguments_db" where
  "repo_CreateArgumentSource scan i s at db =
     (case scan (argument_String i) of None \<Rightarrow> (Inl ErrArgumentNotFound, db) | Some argument \<Rightarrow>
     (case sql_CreateArgumentSource argument (source_url s) (if HasDescription s then Some (source_description s) else None) at db of
        Inl e \<Rightarrow> (Inl (ArgumentDatabase e), db)
      | Inr (_, db') \<Rightarrow> (Inr (), db')))"

text \<open>The flag tells whether the status moved.\<close>

definition repo_WithdrawArgument ::
  "(string \<Rightarrow> uuid option) \<Rightarrow> ArgumentID \<Rightarrow> AccountID \<Rightarrow> time \<Rightarrow> arguments_db
     \<Rightarrow> (arguments_app_error + PublishedArgument option \<times> bool) \<times> arguments_db" where
  "repo_WithdrawArgument scan i author at db =
     (case scan (argument_String i) of None \<Rightarrow> (Inl ErrArgumentNotFound, db) | Some a \<Rightarrow>
     (case scan (account_String author) of None \<Rightarrow> (Inl ErrArgumentNotFound, db) | Some c \<Rightarrow>
     (case sql_WithdrawArgument at a c db of
        Inl e \<Rightarrow> (if e = NoRows then Inr (None, False) else Inl (ArgumentDatabase e), db)
      | Inr (row, db') \<Rightarrow> (bind_r (mapArgument row) (\<lambda>updated. Inr (Some updated, True)), db'))))"

section \<open>Reads\<close>

definition found_argument :: "pg_error + AppArgument \<Rightarrow> arguments_app_error + PublishedArgument" where
  "found_argument q =
     (case q of
        Inl e \<Rightarrow> Inl (if e = NoRows then ErrArgumentNotFound else ArgumentDatabase e)
      | Inr row \<Rightarrow> mapArgument row)"

definition repo_GetByAuthorAndIdempotencyKey ::
  "(string \<Rightarrow> uuid option) \<Rightarrow> AccountID \<Rightarrow> IdempotencyKey \<Rightarrow> arguments_db \<Rightarrow> arguments_app_error + PublishedArgument" where
  "repo_GetByAuthorAndIdempotencyKey scan author key db =
     (case scan (account_String author) of
        None \<Rightarrow> Inl ErrArgumentNotFound
      | Some c \<Rightarrow> found_argument (sql_GetArgumentByAuthorAndKey c (key_String key) db))"

definition repo_GetParent ::
  "(string \<Rightarrow> uuid option) \<Rightarrow> ArgumentID \<Rightarrow> arguments_db \<Rightarrow> arguments_app_error + PublishedArgument \<times> int" where
  "repo_GetParent scan i db =
     (case scan (argument_String i) of None \<Rightarrow> Inl ErrArgumentNotFound | Some a \<Rightarrow>
     (case sql_GetParentArgument a db of
        Inl e \<Rightarrow> Inl (if e = NoRows then ErrArgumentNotFound else ArgumentDatabase e)
      | Inr (row, depth) \<Rightarrow> bind_r (mapArgument row) (\<lambda>parent. Inr (parent, depth))))"

definition repo_GetForAuthor ::
  "(string \<Rightarrow> uuid option) \<Rightarrow> ArgumentID \<Rightarrow> AccountID \<Rightarrow> arguments_db \<Rightarrow> arguments_app_error + PublishedArgument" where
  "repo_GetForAuthor scan i author db =
     (case scan (argument_String i) of None \<Rightarrow> Inl ErrArgumentNotFound | Some a \<Rightarrow>
     (case scan (account_String author) of None \<Rightarrow> Inl ErrArgumentNotFound | Some c \<Rightarrow>
        found_argument (sql_GetArgumentForAuthor a c db)))"

section \<open>Public reads\<close>

record PublicArgument =
  pub_ID :: ArgumentID
  pub_Arena :: ArenaID
  pub_ParentID :: ArgumentID
  pub_Relation :: Relation
  pub_Content :: "Content option"
  pub_Status :: string
  pub_CreatedAt :: time
  pub_ReplyCount :: int

record ArgumentPosition =
  ap_CreatedAt :: time
  ap_ArgumentID :: string

definition mapPublicArgument :: "AppArgument \<times> int \<Rightarrow> arguments_app_error + PublicArgument" where
  "mapPublicArgument x = (case x of (row, replies) \<Rightarrow> wrap_err ArgumentDomain
     (bind_r (ParseArgumentID (uuidToString (Some (ag_ID row)))) (\<lambda>i.
      bind_r (ParseArenaID (uuidToString (Some (ag_ArenaID row)))) (\<lambda>arena.
      bind_r (parse_parent (ag_ParentID row)) (\<lambda>parent.
      bind_r (ParseRelation (ag_Relation row)) (\<lambda>relation.
      bind_r (if ag_Status row = ''published''
              then bind_r (ParseContentHash (ag_ContentHash row)) (\<lambda>hash.
                   bind_r (ReconstituteContent (ag_Content row) (ag_GraphemeCost row) hash) (\<lambda>content. Inr (Some content)))
              else Inr None) (\<lambda>content.
        Inr \<lparr>pub_ID = i, pub_Arena = arena, pub_ParentID = parent, pub_Relation = relation, pub_Content = content,
             pub_Status = ag_Status row, pub_CreatedAt = ag_CreatedAt row, pub_ReplyCount = replies\<rparr>)))))))"

fun map_public_arguments :: "(AppArgument \<times> int) list \<Rightarrow> arguments_app_error + PublicArgument list" where
  "map_public_arguments [] = Inr []"
| "map_public_arguments (x # xs) = bind_r (mapPublicArgument x) (\<lambda>a. bind_r (map_public_arguments xs) (\<lambda>as. Inr (a # as)))"

definition argumentCursorParams ::
  "(string \<Rightarrow> uuid option) \<Rightarrow> ArgumentPosition option \<Rightarrow> arguments_app_error + (time \<times> uuid) option" where
  "argumentCursorParams scan after =
     (case after of
        None \<Rightarrow> Inr None
      | Some p \<Rightarrow> (case scan (ap_ArgumentID p) of None \<Rightarrow> Inl ErrInvalidCursor | Some i \<Rightarrow> Inr (Some (ap_CreatedAt p, i))))"

definition repo_ListArenaArguments ::
  "(string \<Rightarrow> uuid option) \<Rightarrow> ArenaID \<Rightarrow> Relation \<Rightarrow> ArgumentPosition option \<Rightarrow> int \<Rightarrow> arguments_db
     \<Rightarrow> arguments_app_error + PublicArgument list" where
  "repo_ListArenaArguments scan arena relation after limit db =
     (case scan (arena_String arena) of None \<Rightarrow> Inl ErrArgumentNotFound | Some a \<Rightarrow>
     bind_r (argumentCursorParams scan after) (\<lambda>position.
     case sql_ListArenaArgumentsPage a (relation_String relation) position (wrap32 limit) db of
       Inl e \<Rightarrow> Inl (ArgumentDatabase e)
     | Inr rows \<Rightarrow> map_public_arguments rows))"

definition repo_ListReplies ::
  "(string \<Rightarrow> uuid option) \<Rightarrow> ArgumentID \<Rightarrow> ArgumentPosition option \<Rightarrow> int \<Rightarrow> arguments_db
     \<Rightarrow> arguments_app_error + PublicArgument list" where
  "repo_ListReplies scan parent after limit db =
     (case scan (argument_String parent) of None \<Rightarrow> Inl ErrArgumentNotFound | Some a \<Rightarrow>
     bind_r (argumentCursorParams scan after) (\<lambda>position.
     case sql_ListRepliesPage a position (wrap32 limit) db of
       Inl e \<Rightarrow> Inl (ArgumentDatabase e)
     | Inr rows \<Rightarrow> map_public_arguments (map (\<lambda>r. (r, 0)) rows)))"

definition repo_GetPublicArgument :: "(string \<Rightarrow> uuid option) \<Rightarrow> ArgumentID \<Rightarrow> arguments_db \<Rightarrow> arguments_app_error + PublicArgument" where
  "repo_GetPublicArgument scan i db =
     (case scan (argument_String i) of None \<Rightarrow> Inl ErrArgumentNotFound | Some a \<Rightarrow>
     (case sql_GetPublicArgument a db of
        Inl e \<Rightarrow> Inl (if e = NoRows then ErrArgumentNotFound else ArgumentDatabase e)
      | Inr x \<Rightarrow> mapPublicArgument x))"

end
