(* ===== verification/ArgumentsUseCases.thy ===== *)
theory ArgumentsUseCases
  imports ArgumentsRepository SignedPages
begin

text \<open>
  The use cases of \<open>internal/arguments/application\<close>, with the bridge to the wallet
  (\<open>adapters/walletdebit/bridge.go\<close>) and the eligibility gate over the arenas module
  (\<open>adapters/eligibility/eligibility.go\<close>): a publication composes the wallet, the arenas and the
  arguments. \<open>accounts\<close> stands for the account reader of the identity module.
\<close>

section \<open>Eligibility\<close>

datatype account_lookup = AccountMissing | AccountUnreadable | AccountStatus string

definition EnsureEligible :: "(string \<Rightarrow> account_lookup) \<Rightarrow> AccountID \<Rightarrow> arguments_app_error + unit" where
  "EnsureEligible accounts i =
     (case accounts (account_String i) of
        AccountMissing \<Rightarrow> Inl ErrAccountNotFound
      | AccountUnreadable \<Rightarrow> Inl AccountFailure
      | AccountStatus s \<Rightarrow>
          if s = ''active'' then Inr ()
          else if s = ''suspended'' then Inl ErrAccountSuspended
          else Inl ErrAccountNotEligible)"

definition EnsureAcceptsArguments :: "(string \<Rightarrow> uuid option) \<Rightarrow> ArenaID \<Rightarrow> arenas_db \<Rightarrow> arguments_app_error + unit" where
  "EnsureAcceptsArguments scan i arenas =
     (case repo_GetArenaByID scan (arena_String i) arenas of
        Inl e \<Rightarrow> Inl (if e = arenas_app_error.ErrArenaNotFound then ErrArenaNotFound else ArenaFailure e)
      | Inr arena \<Rightarrow>
          (case EnsureAcceptsParticipation arena of
             Inl e \<Rightarrow> Inl (if e = arenas_error.ErrArenaNotOpen then ErrArenaNotOpen else ArenaFailure (ArenaDomain e))
           | Inr () \<Rightarrow> Inr ()))"

section \<open>The charge\<close>

record InkDebitRequest =
  charge_AccountID :: string
  charge_Amount :: int
  charge_Reference :: string
  charge_IdempotencyKey :: string

text \<open>The bridge reports whether the wallet resolved an earlier operation under this key.\<close>

definition Bridge_Debit ::
  "(string \<Rightarrow> uuid option) \<Rightarrow> time \<Rightarrow> InkDebitRequest \<Rightarrow> wallet_db \<Rightarrow> wallet_db \<Rightarrow> (arguments_app_error + bool) \<times> wallet_db" where
  "Bridge_Debit scan now rq seen wallet =
     (case DebitInk_Execute scan now \<lparr>debitCmd_AccountID = charge_AccountID rq, debitCmd_OperationType = OperationDebitArgument,
         debitCmd_Amount = charge_Amount rq, debitCmd_Reference = charge_Reference rq,
         debitCmd_IdempotencyKey = charge_IdempotencyKey rq\<rparr> seen wallet of
        (Inl e, wallet') \<Rightarrow> (Inl (if e = Domain wallet_error.ErrInsufficientInk then ErrInsufficientInk else WalletFailure e), wallet')
      | (Inr result, wallet') \<Rightarrow> (Inr (debitResult_Replayed result), wallet'))"

section \<open>Publishing\<close>

definition statusPublished :: string where "statusPublished = ''published''"
definition statusWithdrawn :: string where "statusWithdrawn = ''withdrawn''"
definition statusRemoved :: string where "statusRemoved = ''removed''"

record SourceCommand =
  sc_URL :: string
  sc_Description :: string

record PublishArgumentCommand =
  pc_AccountID :: string
  pc_ArenaID :: string
  pc_ParentID :: string
  pc_Relation :: string
  pc_Content :: string
  pc_Sources :: "SourceCommand list"
  pc_IdempotencyKey :: string

record PublishArgumentResult =
  pr_Argument :: PublishedArgument
  pr_Replayed :: bool

fun parseSources :: "SourceCommand list \<Rightarrow> arguments_error + Source list" where
  "parseSources [] = Inr []"
| "parseSources (c # cs) =
     bind_r (ParseSource (sc_URL c) (sc_Description c)) (\<lambda>s. bind_r (parseSources cs) (\<lambda>ss. Inr (s # ss)))"

record publication =
  pub_author :: AccountID
  pub_arena :: ArenaID
  pub_parent :: ArgumentID
  pub_relation :: Relation
  pub_content :: Content
  pub_key :: IdempotencyKey
  pub_sources :: "Source list"

text \<open>Everything that is validated before the first read.\<close>

definition parse_publication ::
  "(string \<Rightarrow> int) option \<Rightarrow> ReplyPolicy \<Rightarrow> PublishArgumentCommand \<Rightarrow> arguments_error + publication" where
  "parse_publication counter replies cmd =
     (if \<not> ReplyPolicy_IsValid replies then Inl ErrInvalidPolicy
      else bind_r (ParseAccountID (pc_AccountID cmd)) (\<lambda>author.
      bind_r (ParseArenaID (pc_ArenaID cmd)) (\<lambda>arena.
      bind_r (ParseRelation (pc_Relation cmd)) (\<lambda>relation.
      bind_r (ParseContent (pc_Content cmd) counter) (\<lambda>content.
      bind_r (ParseIdempotencyKey (pc_IdempotencyKey cmd)) (\<lambda>key.
      bind_r (parseSources (pc_Sources cmd)) (\<lambda>sources.
      bind_r (if pc_ParentID cmd \<noteq> [] then ParseArgumentID (pc_ParentID cmd) else Inr (ArgumentID [])) (\<lambda>parent.
        Inr \<lparr>pub_author = author, pub_arena = arena, pub_parent = parent, pub_relation = relation, pub_content = content,
             pub_key = key, pub_sources = sources\<rparr>))))))))"

definition ensureReplyableParent ::
  "(string \<Rightarrow> uuid option) \<Rightarrow> ReplyPolicy \<Rightarrow> ArenaID \<Rightarrow> ArgumentID \<Rightarrow> arguments_db \<Rightarrow> arguments_app_error + unit" where
  "ensureReplyableParent scan replies arena parentID db =
     (case repo_GetParent scan parentID db of
        Inl e \<Rightarrow> Inl (if e = ErrArgumentNotFound then ErrParentNotFound else e)
      | Inr (parent, depth) \<Rightarrow>
          if \<not> ArenaID_Equals (pa_ArenaID parent) arena \<or> pa_Status parent \<noteq> statusPublished then Inl ErrParentNotAvailable
          else if \<not> AllowsChildDepth replies (depth + 1) then Inl ErrReplyDepthExceeded
          else Inr ())"

fun create_sources ::
  "(string \<Rightarrow> uuid option) \<Rightarrow> ArgumentID \<Rightarrow> Source list \<Rightarrow> time \<Rightarrow> arguments_db \<Rightarrow> (arguments_app_error + unit) \<times> arguments_db" where
  "create_sources scan i [] at db = (Inr (), db)"
| "create_sources scan i (s # ss) at db =
     (case repo_CreateArgumentSource scan i s at db of
        (Inl e, db') \<Rightarrow> (Inl e, db')
      | (Inr (), db') \<Rightarrow> create_sources scan i ss at db')"

text \<open>
  What a publication reads outside its transaction: the attempt key, the Arena, the parent, the wallet
  as its unlocked look-up sees it, and the attempt key again after a lost race. Other requests may
  commit between any two of these reads.
\<close>

record publish_reads =
  seen_key :: arguments_db
  seen_arenas :: arenas_db
  seen_parent :: arguments_db
  seen_wallet :: wallet_db
  seen_retry :: arguments_db

text \<open>The clock of the use case and that of the wallet.\<close>

record publish_env =
  pe_scan :: "string \<Rightarrow> uuid option"
  pe_counter :: "(string \<Rightarrow> int) option"
  pe_replies :: ReplyPolicy
  pe_accounts :: "string \<Rightarrow> account_lookup"
  pe_now :: time
  pe_wallet_now :: time

definition publish_transaction ::
  "('x) publish_env_scheme \<Rightarrow> publication \<Rightarrow> wallet_db \<Rightarrow> wallet_db \<times> arguments_db
     \<Rightarrow> (arguments_app_error + PublishedArgument) \<times> wallet_db \<times> arguments_db" where
  "publish_transaction env p seen st =
     (case Bridge_Debit (pe_scan env) (pe_wallet_now env)
         \<lparr>charge_AccountID = account_String (pub_author p), charge_Amount = content_cost (pub_content p),
          charge_Reference = WalletReference (pub_key p), charge_IdempotencyKey = key_String (pub_key p)\<rparr> seen (fst st) of
        (Inl e, wallet) \<Rightarrow> (Inl e, wallet, snd st)
      | (Inr _, wallet) \<Rightarrow>
          (case repo_CreateArgument (pe_scan env)
              \<lparr>ca_ArenaID = pub_arena p, ca_AuthorID = pub_author p, ca_ParentID = pub_parent p, ca_Relation = pub_relation p,
               ca_Content = pub_content p, ca_IdempotencyKey = pub_key p, ca_CreatedAt = pe_now env\<rparr> (snd st) of
             (Inl e, db) \<Rightarrow> (Inl e, wallet, db)
           | (Inr (argument, inserted), db) \<Rightarrow>
               if \<not> inserted then (Inl ErrDuplicateIdempotencyKey, wallet, db)
               else (case create_sources (pe_scan env) (pa_ID (the argument)) (pub_sources p) (pe_now env) db of
                   (Inl e, db') \<Rightarrow> (Inl e, wallet, db')
                 | (Inr (), db') \<Rightarrow> (Inr (the argument), wallet, db'))))"

definition PublishArgument_Execute ::
  "('x) publish_env_scheme \<Rightarrow> PublishArgumentCommand \<Rightarrow> publish_reads \<Rightarrow> wallet_db \<times> arguments_db
     \<Rightarrow> (arguments_app_error + PublishArgumentResult) \<times> wallet_db \<times> arguments_db" where
  "PublishArgument_Execute env cmd reads st =
     (case parse_publication (pe_counter env) (pe_replies env) cmd of
        Inl e \<Rightarrow> (Inl (ArgumentDomain e), st)
      | Inr p \<Rightarrow>
          (case repo_GetByAuthorAndIdempotencyKey (pe_scan env) (pub_author p) (pub_key p) (seen_key reads) of
             Inr existing \<Rightarrow> (Inr \<lparr>pr_Argument = existing, pr_Replayed = True\<rparr>, st)
           | Inl e \<Rightarrow>
          if e \<noteq> ErrArgumentNotFound then (Inl e, st)
          else
          (case EnsureEligible (pe_accounts env) (pub_author p) of Inl e \<Rightarrow> (Inl e, st) | Inr () \<Rightarrow>
          (case EnsureAcceptsArguments (pe_scan env) (pub_arena p) (seen_arenas reads) of Inl e \<Rightarrow> (Inl e, st) | Inr () \<Rightarrow>
          (case (if \<not> ArgumentID_IsZero (pub_parent p)
                 then ensureReplyableParent (pe_scan env) (pe_replies env) (pub_arena p) (pub_parent p) (seen_parent reads)
                 else Inr ()) of Inl e \<Rightarrow> (Inl e, st) | Inr () \<Rightarrow>
          (case WithinTransaction (publish_transaction env p (seen_wallet reads)) st of
             (Inr created, st') \<Rightarrow> (Inr \<lparr>pr_Argument = created, pr_Replayed = False\<rparr>, st')
           | (Inl e, st') \<Rightarrow>
               if e = ErrDuplicateIdempotencyKey then
                 (case repo_GetByAuthorAndIdempotencyKey (pe_scan env) (pub_author p) (pub_key p) (seen_retry reads) of
                    Inl e \<Rightarrow> (Inl e, st')
                  | Inr existing \<Rightarrow> (Inr \<lparr>pr_Argument = existing, pr_Replayed = True\<rparr>, st'))
               else (Inl e, st')))))))"

section \<open>Withdrawing\<close>

record WithdrawArgumentCommand =
  wc_AccountID :: string
  wc_ArgumentID :: string

text \<open>The first read, and the one after a status that moved in between.\<close>

definition WithdrawArgument_Execute ::
  "(string \<Rightarrow> uuid option) \<Rightarrow> time \<Rightarrow> WithdrawArgumentCommand \<Rightarrow> arguments_db \<Rightarrow> arguments_db \<Rightarrow> arguments_db
     \<Rightarrow> (arguments_app_error + PublishArgumentResult) \<times> arguments_db" where
  "WithdrawArgument_Execute scan now cmd seen again db =
     (case bind_r (ParseAccountID (wc_AccountID cmd)) (\<lambda>author.
           bind_r (ParseArgumentID (wc_ArgumentID cmd)) (\<lambda>argument. Inr (author, argument))) of
        Inl e \<Rightarrow> (Inl (ArgumentDomain e), db)
      | Inr (author, argument) \<Rightarrow>
          (case repo_GetForAuthor scan argument author seen of
             Inl e \<Rightarrow> (Inl e, db)
           | Inr stored \<Rightarrow>
               if pa_Status stored = statusWithdrawn then (Inr \<lparr>pr_Argument = stored, pr_Replayed = True\<rparr>, db)
               else if pa_Status stored = statusRemoved then (Inl ErrArgumentNotWithdrawable, db)
               else (case repo_WithdrawArgument scan argument author now db of
                   (Inl e, db') \<Rightarrow> (Inl e, db')
                 | (Inr (updated, transitioned), db') \<Rightarrow>
                     if transitioned then (Inr \<lparr>pr_Argument = the updated, pr_Replayed = False\<rparr>, db')
                     else (case repo_GetForAuthor scan argument author again of
                         Inl e \<Rightarrow> (Inl e, db')
                       | Inr stored \<Rightarrow>
                           if pa_Status stored = statusWithdrawn then (Inr \<lparr>pr_Argument = stored, pr_Replayed = True\<rparr>, db')
                           else (Inl ErrArgumentNotWithdrawable, db')))))"

section \<open>Public reads\<close>

definition minArgumentCursorSecretLength :: nat where "minArgumentCursorSecretLength = 32"

definition NewArgumentCursorCodec :: "string \<Rightarrow> arguments_app_error + string" where
  "NewArgumentCursorCodec secret = (if length secret < minArgumentCursorSecretLength then Inl ErrWeakCursorSecret else Inr secret)"

definition ArgumentCursor_Encode :: "(string \<Rightarrow> string) \<Rightarrow> PublicArgument \<Rightarrow> string" where
  "ArgumentCursor_Encode mac argument = cursor_encode mac (pub_CreatedAt argument) (argument_String (pub_ID argument))"

definition ArgumentCursor_Decode ::
  "(string \<Rightarrow> string) \<Rightarrow> (string \<Rightarrow> time option) \<Rightarrow> string \<Rightarrow> arguments_app_error + ArgumentPosition option" where
  "ArgumentCursor_Decode mac parse_time raw =
     (case cursor_decode_with (\<lambda>i. case ParseArgumentID i of Inl _ \<Rightarrow> False | Inr _ \<Rightarrow> True) mac parse_time raw of
        None \<Rightarrow> Inl ErrInvalidCursor
      | Some None \<Rightarrow> Inr None
      | Some (Some (t, i)) \<Rightarrow> Inr (Some \<lparr>ap_CreatedAt = t, ap_ArgumentID = i\<rparr>))"

definition DefaultArgumentPageLimit :: int where "DefaultArgumentPageLimit = 20"
definition MaxArgumentPageLimit :: int where "MaxArgumentPageLimit = 100"

definition clampArgumentPageLimit :: "int \<Rightarrow> int" where
  "clampArgumentPageLimit limit =
     (if limit \<le> 0 then DefaultArgumentPageLimit
      else if limit > MaxArgumentPageLimit then MaxArgumentPageLimit else limit)"

record ArgumentPage =
  page_Arguments :: "PublicArgument list"
  page_Next :: string

definition argument_page :: "(string \<Rightarrow> string) \<Rightarrow> PublicArgument list \<Rightarrow> int \<Rightarrow> ArgumentPage" where
  "argument_page mac arguments limit =
     (if int (length arguments) > limit
      then \<lparr>page_Arguments = take (nat limit) arguments,
            page_Next = ArgumentCursor_Encode mac (take (nat limit) arguments ! nat (limit - 1))\<rparr>
      else \<lparr>page_Arguments = arguments, page_Next = []\<rparr>)"

record ListArenaArgumentsQuery =
  la_ArenaID :: string
  la_Relation :: string
  la_Cursor :: string
  la_Limit :: int

definition ListArenaArguments_Execute ::
  "(string \<Rightarrow> uuid option) \<Rightarrow> (string \<Rightarrow> string) \<Rightarrow> (string \<Rightarrow> time option) \<Rightarrow> ListArenaArgumentsQuery \<Rightarrow> arguments_db
     \<Rightarrow> arguments_app_error + ArgumentPage" where
  "ListArenaArguments_Execute scan mac parse_time q db =
     bind_r (wrap_err ArgumentDomain (ParseArenaID (la_ArenaID q))) (\<lambda>arena.
     bind_r (wrap_err ArgumentDomain (ParseRelation (la_Relation q))) (\<lambda>relation.
     bind_r (ArgumentCursor_Decode mac parse_time (la_Cursor q)) (\<lambda>after.
     let limit = clampArgumentPageLimit (la_Limit q) in
     bind_r (repo_ListArenaArguments scan arena relation after (limit + 1) db) (\<lambda>arguments.
       Inr (argument_page mac arguments limit)))))"

record ListRepliesQuery =
  lr_ParentID :: string
  lr_Cursor :: string
  lr_Limit :: int

definition ListReplies_Execute ::
  "(string \<Rightarrow> uuid option) \<Rightarrow> (string \<Rightarrow> string) \<Rightarrow> (string \<Rightarrow> time option) \<Rightarrow> ListRepliesQuery \<Rightarrow> arguments_db
     \<Rightarrow> arguments_app_error + ArgumentPage" where
  "ListReplies_Execute scan mac parse_time q db =
     bind_r (wrap_err ArgumentDomain (ParseArgumentID (lr_ParentID q))) (\<lambda>parent.
     bind_r (ArgumentCursor_Decode mac parse_time (lr_Cursor q)) (\<lambda>after.
     let limit = clampArgumentPageLimit (lr_Limit q) in
     bind_r (repo_ListReplies scan parent after (limit + 1) db) (\<lambda>arguments.
       Inr (argument_page mac arguments limit))))"

definition GetPublicArgument_Execute ::
  "(string \<Rightarrow> uuid option) \<Rightarrow> string \<Rightarrow> arguments_db \<Rightarrow> arguments_app_error + PublicArgument" where
  "GetPublicArgument_Execute scan argumentID db =
     bind_r (wrap_err ArgumentDomain (ParseArgumentID argumentID)) (\<lambda>i. repo_GetPublicArgument scan i db)"

end
