(* ===== verification/ArgumentsCorrectness.thy ===== *)
theory ArgumentsCorrectness
  imports ArgumentsUseCases
begin

text \<open>
  The invariant of the tables of arguments, the order in which they grow, and what every write does in
  these terms. An argument's identity, content and provenance are frozen when it is inserted; only its
  status moves.
\<close>

section \<open>Rows\<close>

definition ag_row_ok :: "AppArgument \<Rightarrow> bool" where
  "ag_row_ok r \<longleftrightarrow> arguments_checks r \<and> argument_texts r \<and> TrimSpace (ag_Content r) \<noteq> []
     \<and> ag_ContentHash r = hash_String (HashContent (ag_Content r)) \<and> timestamptz (ag_CreatedAt r) = ag_CreatedAt r"

definition argument_of_row :: "AppArgument \<Rightarrow> PublishedArgument" where
  "argument_of_row r =
     \<lparr>pa_ID = ArgumentID (uuidToString (Some (ag_ID r))), pa_ArenaID = ArenaID (uuidToString (Some (ag_ArenaID r))),
      pa_AuthorID = AccountID (uuidToString (Some (ag_AuthorID r))),
      pa_ParentID = ArgumentID (case ag_ParentID r of None \<Rightarrow> [] | Some p \<Rightarrow> uuidToString (Some p)),
      pa_Relation = Relation (ag_Relation r),
      pa_Content = \<lparr>content_value = ag_Content r, content_cost = ag_GraphemeCost r, content_hash = ContentHash (ag_ContentHash r)\<rparr>,
      pa_Status = ag_Status r, pa_CreatedAt = ag_CreatedAt r, pa_WithdrawnAt = ag_WithdrawnAt r\<rparr>"

lemma length_uuid: "length (uuidToString (Some u)) = 36"
  by (simp add: uuidToString_def Let_def min_def)

lemma uuid_parses:
  "ParseArgumentID (uuidToString (Some u)) = Inr (ArgumentID (uuidToString (Some u)))"
  "ParseArenaID (uuidToString (Some u)) = Inr (ArenaID (uuidToString (Some u)))"
  "ParseAccountID (uuidToString (Some u)) = Inr (AccountID (uuidToString (Some u)))"
  using argument_id.parse_of_text [of "ArgumentID (uuidToString (Some u))"] arena_id.parse_of_text [of "ArenaID (uuidToString (Some u))"]
    account_id.parse_of_text [of "AccountID (uuidToString (Some u))"]
  by (simp_all add: uuidToString_printable length_uuid maxArgumentIDLength_def maxIdentifierLength_def)

lemma parse_parent_uuid: "parse_parent p = Inr (ArgumentID (case p of None \<Rightarrow> [] | Some u \<Rightarrow> uuidToString (Some u)))"
  by (simp add: parse_parent_def uuid_parses split: option.split)

lemma hash_text:
  "hash_String (HashContent v) = ''v1:'' @ sha256_hex (contentHashDomain @ [CHR 0x00] @ v)"
  by (simp add: HashContent_def contentHashVersion_def)

lemma hex_digit_byte: "d < 16 \<Longrightarrow> 48 \<le> byte (hex_digit d) \<and> byte (hex_digit d) \<le> 57 \<or> 97 \<le> byte (hex_digit d) \<and> byte (hex_digit d) \<le> 102"
  by (auto simp: byte_hex_digit)

lemma sha256_printable: "list_all printable (sha256_hex m)"
  using sha256_hex_digits hex_digit_printable by (metis list_all_iff)

lemma hash_printable: "list_all printable (hash_String (HashContent v))"
  unfolding hash_text using sha256_printable by (auto simp: printable_def)

lemma hash_parses: "ParseContentHash (hash_String (HashContent v)) = Inr (HashContent v)"
proof -
  let ?h = "hash_String (HashContent v)"
  have trim: "TrimSpace ?h = ?h" by (rule TrimSpace_printable [OF hash_printable])
  have "\<not> list_ex (\<lambda>c. \<not> (48 \<le> byte c \<and> byte c \<le> 57) \<and> \<not> (97 \<le> byte c \<and> byte c \<le> 102)) (sha256_hex m)" for m
    using sha256_hex_digits hex_digit_byte by (metis (mono_tags, lifting) list_ex_iff)
  then show ?thesis
    unfolding ParseContentHash_def Let_def trim by (simp add: hash_text contentHashVersion_def) (simp add: HashContent_def contentHashVersion_def)
qed

lemma relation_parses: "r \<in> {''support'', ''oppose'', ''context''} \<Longrightarrow> ParseRelation r = Inr (Relation r)"
proof -
  assume r: "r \<in> {''support'', ''oppose'', ''context''}"
  then have "list_all printable r" by (auto simp: printable_def)
  then have "TrimSpace r = r" by (rule TrimSpace_printable)
  then show "ParseRelation r = Inr (Relation r)" using r by (auto simp: ParseRelation_def vocab)
qed

lemma content_restated:
  assumes "ag_row_ok r"
  shows "ReconstituteContent (ag_Content r) (ag_GraphemeCost r) (HashContent (ag_Content r)) =
    Inr \<lparr>content_value = ag_Content r, content_cost = ag_GraphemeCost r, content_hash = ContentHash (ag_ContentHash r)\<rparr>"
proof -
  have "hash_String (HashContent v) \<noteq> []" for v by (simp add: hash_text)
  moreover have "ag_Content r \<noteq> []" using assms by (auto simp: ag_row_ok_def)
  ultimately show ?thesis using assms
    by (simp add: ReconstituteContent_def ag_row_ok_def arguments_checks_def MaxGraphemeCost_def ContentHash_IsZero_def ContentHash_Equals_def)
qed

lemma mapArgument_ok: "ag_row_ok r \<Longrightarrow> mapArgument r = Inr (argument_of_row r)"
proof -
  assume ok: "ag_row_ok r"
  then have "ParseRelation (ag_Relation r) = Inr (Relation (ag_Relation r))"
    by (intro relation_parses) (simp add: ag_row_ok_def arguments_checks_def)
  moreover have "ParseContentHash (ag_ContentHash r) = Inr (HashContent (ag_Content r))"
    using ok hash_parses by (simp add: ag_row_ok_def)
  ultimately show ?thesis
    by (simp add: mapArgument_def uuid_parses parse_parent_uuid content_restated [OF ok] argument_of_row_def)
qed

section \<open>What is frozen\<close>

definition frozen ::
  "AppArgument \<Rightarrow> uuid \<times> uuid \<times> uuid \<times> uuid option \<times> string \<times> string \<times> string \<times> int \<times> time \<times> string option" where
  "frozen r = (ag_ID r, ag_ArenaID r, ag_AuthorID r, ag_ParentID r, ag_Relation r, ag_Content r, ag_ContentHash r,
     ag_GraphemeCost r, ag_CreatedAt r, ag_IdempotencyKey r)"

text \<open>The instant of a withdrawal is recorded once.\<close>

definition kept_row :: "AppArgument \<Rightarrow> AppArgument \<Rightarrow> bool" where
  "kept_row r r' \<longleftrightarrow> frozen r' = frozen r \<and> (ag_WithdrawnAt r \<noteq> None \<longrightarrow> ag_WithdrawnAt r' = ag_WithdrawnAt r)"

definition arguments_extends :: "arguments_db \<Rightarrow> arguments_db \<Rightarrow> bool" where
  "arguments_extends db db' \<longleftrightarrow>
     (\<exists>old new. argument_rows db' = old @ new \<and> list_all2 kept_row (argument_rows db) old)
   \<and> (\<exists>new. source_rows db' = source_rows db @ new
        \<and> (\<forall>s \<in> set new. src_ArgumentID s \<notin> ag_ID ` set (argument_rows db)))"

lemma kept_refl [simp]: "kept_row r r"
  by (simp add: kept_row_def)

lemma kept_trans: "kept_row a b \<Longrightarrow> kept_row b c \<Longrightarrow> kept_row a c"
  by (auto simp: kept_row_def)

lemma frozen_parts:
  "frozen r' = frozen r \<Longrightarrow> ag_ID r' = ag_ID r \<and> ag_ArenaID r' = ag_ArenaID r \<and> ag_AuthorID r' = ag_AuthorID r
     \<and> ag_ParentID r' = ag_ParentID r \<and> ag_Content r' = ag_Content r \<and> ag_IdempotencyKey r' = ag_IdempotencyKey r
     \<and> ag_ContentHash r' = ag_ContentHash r"
  by (simp add: frozen_def)

lemma kept_frozen: "list_all2 kept_row rows old \<Longrightarrow> map frozen old = map frozen rows"
proof (induction rows old rule: list_all2_induct)
  case (Cons x xs y ys)
  from Cons.hyps(1) have "frozen y = frozen x" by (simp only: kept_row_def)
  with Cons.IH show ?case by simp
qed simp

lemma frozen_map:
  assumes "\<And>r r'. frozen r' = frozen r \<Longrightarrow> f r' = f r"
  shows "map frozen xs = map frozen ys \<Longrightarrow> map f xs = map f ys"
proof (induction xs arbitrary: ys)
  case (Cons x xs)
  then obtain y ys' where y: "ys = y # ys'" "frozen x = frozen y" "map frozen xs = map frozen ys'" by (cases ys) auto
  then show ?case using Cons.IH [OF y(3)] assms [OF y(2)] by simp
qed simp

lemma kept_ids:
  assumes "list_all2 kept_row rows old"
  shows "map ag_ID old = map ag_ID rows"
  by (rule frozen_map [OF frozen_parts [THEN conjunct1] kept_frozen [OF assms]])

lemma extends_refl [simp]: "arguments_extends db db"
  unfolding arguments_extends_def
  by (intro conjI exI [of _ "argument_rows db"] exI [of _ "[]"]) (simp_all add: list.rel_refl)

lemma extends_trans:
  assumes "arguments_extends a b" "arguments_extends b c"
  shows "arguments_extends a c"
proof -
  obtain old1 new1 s1 where 1: "argument_rows b = old1 @ new1" "list_all2 kept_row (argument_rows a) old1"
    "source_rows b = source_rows a @ s1" "\<forall>s \<in> set s1. src_ArgumentID s \<notin> ag_ID ` set (argument_rows a)"
    using assms(1) unfolding arguments_extends_def by blast
  obtain old2 new2 s2 where 2: "argument_rows c = old2 @ new2" "list_all2 kept_row (argument_rows b) old2"
    "source_rows c = source_rows b @ s2" "\<forall>s \<in> set s2. src_ArgumentID s \<notin> ag_ID ` set (argument_rows b)"
    using assms(2) unfolding arguments_extends_def by blast
  obtain o1 o2 where o: "old2 = o1 @ o2" "list_all2 kept_row old1 o1"
    using 2(2) unfolding 1(1) list_all2_append1 by blast
  have "list_all2 kept_row (argument_rows a) o1" by (rule list_all2_trans [OF kept_trans 1(2) o(2)])
  moreover have "argument_rows c = o1 @ (o2 @ new2)" using 2(1) o(1) by simp
  moreover have "ag_ID ` set (argument_rows a) \<subseteq> ag_ID ` set (argument_rows b)"
    using kept_ids [OF 1(2)] 1(1) by (metis Un_upper1 image_Un set_append set_map)
  then have "source_rows c = source_rows a @ (s1 @ s2)" "\<forall>s \<in> set (s1 @ s2). src_ArgumentID s \<notin> ag_ID ` set (argument_rows a)"
    using 1(3,4) 2(3,4) by auto
  ultimately show ?thesis unfolding arguments_extends_def by blast
qed

lemma extends_member:
  assumes "arguments_extends db db'" "r \<in> set (argument_rows db)"
  shows "\<exists>r' \<in> set (argument_rows db'). kept_row r r'"
proof -
  obtain old new where o: "argument_rows db' = old @ new" "list_all2 kept_row (argument_rows db) old"
    using assms(1) unfolding arguments_extends_def by blast
  obtain i where i: "i < length (argument_rows db)" "r = argument_rows db ! i" using assms(2) by (metis in_set_conv_nth)
  have "kept_row r (old ! i)" using list_all2_nthD [OF o(2) i(1)] i(2) by simp
  moreover have "old ! i \<in> set (argument_rows db')" using i(1) list_all2_lengthD [OF o(2)] o(1) by simp
  ultimately show ?thesis by blast
qed

section \<open>Chains\<close>

text \<open>Every parent is a stored argument of the same Arena.\<close>

definition parents_ok :: "AppArgument list \<Rightarrow> bool" where
  "parents_ok rows \<longleftrightarrow> (\<forall>r \<in> set rows. \<forall>p. ag_ParentID r = Some p \<longrightarrow> (\<exists>q \<in> set rows. ag_ID q = p \<and> ag_ArenaID q = ag_ArenaID r))"

lemma find_id:
  "distinct (map ag_ID rows) \<Longrightarrow> q \<in> set rows \<Longrightarrow> find (\<lambda>r. ag_ID r = ag_ID q) rows = Some q"
  by (induction rows) (auto simp: image_iff)

lemma find_frozen:
  "map frozen rows' = map frozen rows \<Longrightarrow>
   map_option frozen (find (\<lambda>r. ag_ID r = p) rows') = map_option frozen (find (\<lambda>r. ag_ID r = p) rows)"
proof (induction rows' arbitrary: rows)
  case (Cons x xs)
  then obtain y ys where "rows = y # ys" "frozen x = frozen y" "map frozen xs = map frozen ys" by (cases rows) auto
  then show ?case using Cons.IH [of ys] frozen_parts [of x y] by auto
qed simp

lemma chain_depth_None: "find (\<lambda>r. ag_ID r = i) rows = None \<Longrightarrow> chain_depth (Suc n) (Some i) rows = 0"
  by (simp only: chain_depth.simps option.case)

lemma chain_depth_Some:
  "find (\<lambda>r. ag_ID r = i) rows = Some r \<Longrightarrow> chain_depth (Suc n) (Some i) rows = Suc (chain_depth n (ag_ParentID r) rows)"
  by (simp only: chain_depth.simps option.case)

lemma chain_depth_frozen: "map frozen rows' = map frozen rows \<Longrightarrow> chain_depth n p rows' = chain_depth n p rows"
proof (induction n arbitrary: p)
  case (Suc n)
  show ?case
  proof (cases p)
    case (Some i)
    show ?thesis
    proof (cases "find (\<lambda>r. ag_ID r = i) rows'")
      case None
      then have "find (\<lambda>r. ag_ID r = i) rows = None" using find_frozen [OF Suc.prems, of i]
        by (metis option.map_disc_iff)
      then show ?thesis using chain_depth_None [OF None] chain_depth_None Some by simp
    next
      case (Some r)
      then obtain q where q: "find (\<lambda>r. ag_ID r = i) rows = Some q" "frozen r = frozen q"
        using find_frozen [OF Suc.prems, of i] by (cases "find (\<lambda>r. ag_ID r = i) rows") simp_all
      then show ?thesis using Suc.IH [OF Suc.prems] Some \<open>p = Some i\<close> frozen_parts [OF q(2)] by simp
    qed
  qed simp
qed simp

lemma chain_depth_append:
  assumes "distinct (map ag_ID (rows @ new))" "parents_ok rows"
  shows "p = None \<or> (\<exists>q \<in> set rows. p = Some (ag_ID q)) \<Longrightarrow> chain_depth n p (rows @ new) = chain_depth n p rows"
proof (induction n arbitrary: p)
  case (Suc n)
  show ?case
  proof (cases p)
    case (Some i)
    then obtain q where q: "q \<in> set rows" "i = ag_ID q" using Suc.prems by auto
    have f: "find (\<lambda>r. ag_ID r = i) rows = Some q" "find (\<lambda>r. ag_ID r = i) (rows @ new) = Some q"
      using find_id [of rows q] find_id [of "rows @ new" q] assms(1) q by auto
    have "ag_ParentID q = None \<or> (\<exists>q' \<in> set rows. ag_ParentID q = Some (ag_ID q'))"
      using assms(2) q(1) unfolding parents_ok_def by (cases "ag_ParentID q") auto
    then show ?thesis using Suc.IH f Some by simp
  qed simp
qed simp

section \<open>The invariant\<close>

definition keys_apart :: "AppArgument list \<Rightarrow> bool" where
  "keys_apart rows \<longleftrightarrow> (\<forall>r \<in> set rows. \<forall>q \<in> set rows.
     ag_AuthorID r = ag_AuthorID q \<longrightarrow> ag_IdempotencyKey r \<noteq> None \<longrightarrow> ag_IdempotencyKey r = ag_IdempotencyKey q \<longrightarrow> ag_ID r = ag_ID q)"

definition depth_ok :: "ReplyPolicy \<Rightarrow> AppArgument list \<Rightarrow> bool" where
  "depth_ok replies rows \<longleftrightarrow> (\<forall>r \<in> set rows. int (chain_depth 1000 (ag_ParentID r) rows) \<le> MaxDepth replies)"

definition arguments_ok :: "ReplyPolicy \<Rightarrow> arguments_db \<Rightarrow> bool" where
  "arguments_ok replies db \<longleftrightarrow>
     list_all ag_row_ok (argument_rows db) \<and> distinct (map ag_ID (argument_rows db)) \<and> keys_apart (argument_rows db)
   \<and> parents_ok (argument_rows db) \<and> depth_ok replies (argument_rows db)
   \<and> (\<forall>s \<in> set (source_rows db). src_ArgumentID s \<in> ag_ID ` set (argument_rows db))"

lemma parents_frozen: "map frozen rows' = map frozen rows \<Longrightarrow> parents_ok rows \<Longrightarrow> parents_ok rows'"
proof -
  assume f: "map frozen rows' = map frozen rows" and ok: "parents_ok rows"
  have mem: "frozen ` set rows' = frozen ` set rows" using f by (metis set_map)
  show "parents_ok rows'"
    unfolding parents_ok_def
  proof (intro ballI allI impI)
    fix r p assume r: "r \<in> set rows'" "ag_ParentID r = Some p"
    then obtain r0 where r0: "r0 \<in> set rows" "frozen r = frozen r0" using mem by (metis (no_types, lifting) imageE imageI)
    then obtain q0 where q0: "q0 \<in> set rows" "ag_ID q0 = p" "ag_ArenaID q0 = ag_ArenaID r0"
      using ok r(2) frozen_parts [OF r0(2)] unfolding parents_ok_def by metis
    then obtain q where q: "q \<in> set rows'" "frozen q = frozen q0" using mem by (metis (no_types, lifting) imageE imageI)
    then show "\<exists>q \<in> set rows'. ag_ID q = p \<and> ag_ArenaID q = ag_ArenaID r"
      using q0 frozen_parts [OF q(2)] frozen_parts [OF r0(2)] by metis
  qed
qed

lemma keys_frozen: "map frozen rows' = map frozen rows \<Longrightarrow> keys_apart rows \<Longrightarrow> keys_apart rows'"
proof -
  assume f: "map frozen rows' = map frozen rows" and ok: "keys_apart rows"
  have mem: "frozen ` set rows' = frozen ` set rows" using f by (metis set_map)
  show "keys_apart rows'"
    unfolding keys_apart_def
  proof (intro ballI impI)
    fix r q assume r: "r \<in> set rows'" "q \<in> set rows'" "ag_AuthorID r = ag_AuthorID q" "ag_IdempotencyKey r \<noteq> None"
      "ag_IdempotencyKey r = ag_IdempotencyKey q"
    then obtain r0 q0 where 0: "r0 \<in> set rows" "frozen r = frozen r0" "q0 \<in> set rows" "frozen q = frozen q0"
      using mem by (metis (no_types, lifting) imageE imageI)
    then show "ag_ID r = ag_ID q"
      using ok r(3-5) frozen_parts [OF 0(2)] frozen_parts [OF 0(4)] unfolding keys_apart_def by metis
  qed
qed

lemma depth_frozen: "map frozen rows' = map frozen rows \<Longrightarrow> depth_ok replies rows \<Longrightarrow> depth_ok replies rows'"
proof -
  assume f: "map frozen rows' = map frozen rows" and ok: "depth_ok replies rows"
  have mem: "frozen ` set rows' = frozen ` set rows" using f by (metis set_map)
  show "depth_ok replies rows'"
    unfolding depth_ok_def
  proof (intro ballI)
    fix r assume "r \<in> set rows'"
    then obtain r0 where r0: "r0 \<in> set rows" "frozen r = frozen r0" using mem by (metis (no_types, lifting) imageE imageI)
    then have "int (chain_depth 1000 (ag_ParentID r0) rows) \<le> MaxDepth replies" using ok unfolding depth_ok_def by blast
    then show "int (chain_depth 1000 (ag_ParentID r) rows') \<le> MaxDepth replies"
      using chain_depth_frozen [OF f] frozen_parts [OF r0(2)] by metis
  qed
qed

section \<open>Writes\<close>

text \<open>A new argument is a leaf: it changes no chain, and its own is one longer than its parent's.\<close>

lemma chain_depth_mono: "chain_depth n p rows \<le> chain_depth (Suc n) p rows"
proof (induction n arbitrary: p)
  case (Suc n)
  show ?case
  proof (cases p)
    case (Some i)
    show ?thesis
    proof (cases "find (\<lambda>r. ag_ID r = i) rows")
      case None
      then show ?thesis using chain_depth_None [OF None] Some by (simp del: chain_depth.simps)
    next
      case (Some r)
      then show ?thesis using Suc.IH [of "ag_ParentID r"] \<open>p = Some i\<close> by (simp only: chain_depth_Some Suc_le_mono)
    qed
  qed simp
qed simp

lemma update_argument_Inr:
  assumes "update_argument hit change db = Inr (new, db')" "arguments_ok replies db"
    and "\<And>r. ag_ID (change r) = ag_ID r \<and> ag_IdempotencyKey (change r) = ag_IdempotencyKey r"
  obtains pre old post where "argument_rows db = pre @ old # post" "hit old" "new = change old"
    "db' = db\<lparr>argument_rows := pre @ change old # post\<rparr>" "protect_argument old (change old)" "arguments_checks (change old)"
proof -
  obtain old where old: "find hit (argument_rows db) = Some old" "new = change old" "protect_argument old (change old)"
    "arguments_checks (change old)"
    "db' = db\<lparr>argument_rows := map (\<lambda>r. if ag_ID r = ag_ID old then change old else r) (argument_rows db)\<rparr>"
    using assms(1) unfolding update_argument_def Let_def by (auto split: option.splits if_splits)
  then have mem: "old \<in> set (argument_rows db)" "hit old" by (auto simp: find_Some_iff)
  then obtain pre post where split: "argument_rows db = pre @ old # post" by (meson split_list)
  have d: "distinct (map ag_ID (argument_rows db))" using assms(2) by (simp add: arguments_ok_def)
  then have "map (\<lambda>r. if ag_ID r = ag_ID old then change old else r) (argument_rows db) = pre @ change old # post"
    unfolding split by (auto intro!: map_idI simp: image_iff)
  then show ?thesis using that split mem(2) old by simp
qed

lemma protect_frozen:
  "protect_argument old new \<Longrightarrow> ag_ID new = ag_ID old \<Longrightarrow> ag_IdempotencyKey new = ag_IdempotencyKey old \<Longrightarrow> frozen new = frozen old"
  by (simp add: protect_argument_def frozen_def)

lemma row_ok_frozen:
  assumes "frozen new = frozen old" "ag_row_ok old" "arguments_checks new"
  shows "ag_row_ok new"
  using assms by (auto simp: ag_row_ok_def frozen_def argument_texts_def)

lemma arguments_ok_update:
  assumes "arguments_ok replies db" "argument_rows db = pre @ old # post" "kept_row old new" "arguments_checks new"
  shows "arguments_ok replies (db\<lparr>argument_rows := pre @ new # post\<rparr>)
    \<and> arguments_extends db (db\<lparr>argument_rows := pre @ new # post\<rparr>)"
proof -
  let ?rows = "pre @ new # post"
  have f: "frozen new = frozen old" using assms(3) by (simp add: kept_row_def)
  then have map: "map frozen ?rows = map frozen (argument_rows db)" using assms(2) by simp
  have ids: "map ag_ID ?rows = map ag_ID (argument_rows db)" using frozen_map [OF frozen_parts [THEN conjunct1] map] .
  have ok: "list_all ag_row_ok (argument_rows db)" "distinct (map ag_ID (argument_rows db))" "keys_apart (argument_rows db)"
    "parents_ok (argument_rows db)" "depth_ok replies (argument_rows db)"
    "\<forall>s \<in> set (source_rows db). src_ArgumentID s \<in> ag_ID ` set (argument_rows db)"
    using assms(1) unfolding arguments_ok_def by blast+
  have rows: "list_all ag_row_ok ?rows" using ok(1) row_ok_frozen [OF f _ assms(4)] assms(2) by simp
  have "ag_ID ` set ?rows = ag_ID ` set (argument_rows db)" using ids by (metis set_map)
  then have 1: "arguments_ok replies (db\<lparr>argument_rows := ?rows\<rparr>)"
    using rows ok(2,6) ids keys_frozen [OF map ok(3)] parents_frozen [OF map ok(4)] depth_frozen [OF map ok(5)]
    unfolding arguments_ok_def by simp
  have "list_all2 kept_row (argument_rows db) ?rows"
    unfolding assms(2) using assms(3) by (auto intro!: list_all2_appendI list.rel_refl)
  then have "arguments_extends db (db\<lparr>argument_rows := ?rows\<rparr>)"
    unfolding arguments_extends_def by (intro conjI exI [of _ ?rows] exI [of _ "[]"]) simp_all
  with 1 show ?thesis ..
qed

lemma update_keeps:
  assumes "update_argument hit change db = Inr (new, db')" "arguments_ok replies db"
    and "\<And>r. ag_ID (change r) = ag_ID r \<and> ag_IdempotencyKey (change r) = ag_IdempotencyKey r"
    and "\<And>r. ag_WithdrawnAt r \<noteq> None \<Longrightarrow> ag_WithdrawnAt (change r) = ag_WithdrawnAt r"
  shows "arguments_ok replies db' \<and> arguments_extends db db' \<and> new \<in> set (argument_rows db')"
proof -
  obtain pre old post where u: "argument_rows db = pre @ old # post" "hit old" "new = change old"
    "db' = db\<lparr>argument_rows := pre @ change old # post\<rparr>" "protect_argument old (change old)" "arguments_checks (change old)"
    by (rule update_argument_Inr [OF assms(1-3)])
  have "kept_row old (change old)" using protect_frozen [OF u(5)] assms(3,4) by (simp add: kept_row_def)
  from arguments_ok_update [OF assms(2) u(1) this u(6)] show ?thesis using u(3,4) by simp
qed

end
