(* ===== verification/ArgumentsWrites.thy ===== *)
theory ArgumentsWrites
  imports ArgumentsCorrectness
begin

text \<open>
  What a publication does to the tables of arguments: the row it inserts, the chain it closes and the
  sources it attaches, on whatever earlier states its reads saw.
\<close>

section \<open>The inserted row\<close>

lemma create_argument_Inr:
  assumes "sql_CreateArgument arena author parent relation content hash cost key at db = Inr (row, db')"
  shows "row = \<lparr>ag_ID = arg_uuid_gen db (arg_uuid_next db), ag_ArenaID = arena, ag_AuthorID = author, ag_ParentID = parent,
       ag_Relation = relation, ag_Content = content, ag_ContentHash = hash, ag_GraphemeCost = cost,
       ag_Status = ''published'', ag_CreatedAt = timestamptz at, ag_UpdatedAt = timestamptz at,
       ag_IdempotencyKey = Some key, ag_WithdrawnAt = None\<rparr>"
    "argument_texts row" "arguments_checks row"
    "\<forall>r \<in> set (argument_rows db). ag_AuthorID r = author \<longrightarrow> ag_IdempotencyKey r \<noteq> Some key"
    "ag_ID row \<notin> ag_ID ` set (argument_rows db)"
    "\<forall>p. parent = Some p \<longrightarrow> (\<exists>r \<in> set (argument_rows db). ag_ID r = p \<and> ag_ArenaID r = arena)"
    "db' = db\<lparr>argument_rows := argument_rows db @ [row], arg_uuid_next := Suc (arg_uuid_next db)\<rparr>"
  using assms unfolding sql_CreateArgument_def Let_def by (auto split: if_splits option.splits)

lemma keys_apart_insert:
  assumes "keys_apart rows" "\<forall>r \<in> set rows. ag_AuthorID r = ag_AuthorID row \<longrightarrow> ag_IdempotencyKey r \<noteq> ag_IdempotencyKey row"
  shows "keys_apart (rows @ [row])"
  unfolding keys_apart_def
proof (intro ballI impI)
  fix r q assume rq: "r \<in> set (rows @ [row])" "q \<in> set (rows @ [row])" "ag_AuthorID r = ag_AuthorID q"
    "ag_IdempotencyKey r \<noteq> None" "ag_IdempotencyKey r = ag_IdempotencyKey q"
  then consider "r \<in> set rows" "q \<in> set rows" | "r \<in> set rows" "q = row" | "r = row" "q \<in> set rows" | "r = q" by auto
  then show "ag_ID r = ag_ID q"
  proof cases
    case 1
    then show ?thesis using assms(1) rq(3-5) unfolding keys_apart_def by blast
  next
    case 2
    then show ?thesis using assms(2) rq(3,5) by blast
  next
    case 3
    then have "ag_AuthorID q = ag_AuthorID row" "ag_IdempotencyKey q = ag_IdempotencyKey row" using rq(3,5) by simp_all
    then show ?thesis using assms(2) 3(2) by blast
  qed simp
qed

lemma parents_ok_insert:
  assumes "parents_ok rows" "\<forall>p. ag_ParentID row = Some p \<longrightarrow> (\<exists>r \<in> set rows. ag_ID r = p \<and> ag_ArenaID r = ag_ArenaID row)"
  shows "parents_ok (rows @ [row])"
  unfolding parents_ok_def
proof (intro ballI allI impI)
  fix r p assume r: "r \<in> set (rows @ [row])" "ag_ParentID r = Some p"
  then consider "r \<in> set rows" | "r = row" by auto
  then have "\<exists>q \<in> set rows. ag_ID q = p \<and> ag_ArenaID q = ag_ArenaID r"
    by cases (use r(2) assms in \<open>auto simp: parents_ok_def\<close>)
  then show "\<exists>q \<in> set (rows @ [row]). ag_ID q = p \<and> ag_ArenaID q = ag_ArenaID r" by simp
qed

lemma parent_stored: "parents_ok rows \<Longrightarrow> r \<in> set rows \<Longrightarrow> ag_ParentID r = None \<or> (\<exists>q \<in> set rows. ag_ParentID r = Some (ag_ID q))"
  unfolding parents_ok_def by (cases "ag_ParentID r") auto

lemma depth_ok_insert:
  assumes "depth_ok replies rows" "parents_ok rows" "distinct (map ag_ID (rows @ [row]))" "0 \<le> MaxDepth replies"
    and parent: "\<forall>p. ag_ParentID row = Some p \<longrightarrow>
      (\<exists>q \<in> set rows. ag_ID q = p \<and> int (chain_depth 1000 (ag_ParentID q) rows) + 1 \<le> MaxDepth replies)"
  shows "depth_ok replies (rows @ [row])"
  unfolding depth_ok_def
proof
  note same = chain_depth_append [OF assms(3,2)]
  fix r assume "r \<in> set (rows @ [row])"
  then consider "r \<in> set rows" | "r = row" by auto
  then show "int (chain_depth 1000 (ag_ParentID r) (rows @ [row])) \<le> MaxDepth replies"
  proof cases
    case 1
    then show ?thesis using same [OF parent_stored [OF assms(2) 1]] assms(1) unfolding depth_ok_def by simp
  next
    case 2
    show ?thesis
    proof (cases "ag_ParentID row")
      case None
      have "chain_depth n None xs = 0" for n xs by (cases n) simp_all
      then show ?thesis using 2 None assms(4) by simp
    next
      case (Some p)
      then obtain q where q: "q \<in> set rows" "ag_ID q = p" "int (chain_depth 1000 (ag_ParentID q) rows) + 1 \<le> MaxDepth replies"
        using parent by blast
      have "find (\<lambda>r. ag_ID r = p) (rows @ [row]) = Some q"
        using find_id [OF assms(3), of q] q by simp
      from chain_depth_Some [OF this]
      have "chain_depth (Suc 999) (Some p) (rows @ [row]) = Suc (chain_depth 999 (ag_ParentID q) (rows @ [row]))" .
      also have "\<dots> \<le> Suc (chain_depth (Suc 999) (ag_ParentID q) (rows @ [row]))" using chain_depth_mono [of 999] by simp
      also have "\<dots> = Suc (chain_depth 1000 (ag_ParentID q) rows)" using same [OF parent_stored [OF assms(2) q(1)]] by simp
      finally show ?thesis using 2 Some q(3) by simp
    qed
  qed
qed

lemma arguments_ok_insert:
  assumes "arguments_ok replies db" "ag_row_ok row" "0 \<le> MaxDepth replies"
    and "\<forall>r \<in> set (argument_rows db). ag_AuthorID r = ag_AuthorID row \<longrightarrow> ag_IdempotencyKey r \<noteq> ag_IdempotencyKey row"
    and "ag_ID row \<notin> ag_ID ` set (argument_rows db)"
    and "\<forall>p. ag_ParentID row = Some p \<longrightarrow> (\<exists>r \<in> set (argument_rows db). ag_ID r = p \<and> ag_ArenaID r = ag_ArenaID row)"
    and "\<forall>p. ag_ParentID row = Some p \<longrightarrow> (\<exists>q \<in> set (argument_rows db). ag_ID q = p
      \<and> int (chain_depth 1000 (ag_ParentID q) (argument_rows db)) + 1 \<le> MaxDepth replies)"
  shows "arguments_ok replies (db\<lparr>argument_rows := argument_rows db @ [row], arg_uuid_next := n\<rparr>)"
proof -
  have ok: "list_all ag_row_ok (argument_rows db)" "distinct (map ag_ID (argument_rows db))" "keys_apart (argument_rows db)"
    "parents_ok (argument_rows db)" "depth_ok replies (argument_rows db)"
    "\<forall>s \<in> set (source_rows db). src_ArgumentID s \<in> ag_ID ` set (argument_rows db)"
    using assms(1) unfolding arguments_ok_def by blast+
  have d: "distinct (map ag_ID (argument_rows db @ [row]))" using ok(2) assms(5) by auto
  show ?thesis
    using ok(1,6) assms(2) d keys_apart_insert [OF ok(3) assms(4)] parents_ok_insert [OF ok(4) assms(6)]
      depth_ok_insert [OF ok(5,4) d assms(3,7)]
    unfolding arguments_ok_def by simp
qed

section \<open>The chain the reads saw\<close>

lemma extends_chain:
  assumes "arguments_extends db0 db" "arguments_ok replies db0" "arguments_ok replies db" "r \<in> set (argument_rows db0)"
  shows "chain_depth n (ag_ParentID r) (argument_rows db) = chain_depth n (ag_ParentID r) (argument_rows db0)"
proof -
  obtain old new where o: "argument_rows db = old @ new" "list_all2 kept_row (argument_rows db0) old"
    using assms(1) unfolding arguments_extends_def by blast
  have f: "map frozen old = map frozen (argument_rows db0)" by (rule kept_frozen [OF o(2)])
  have parents: "parents_ok (argument_rows db0)" using assms(2) by (simp add: arguments_ok_def)
  have d: "distinct (map ag_ID (old @ new))" using assms(3) o(1) by (simp add: arguments_ok_def)
  have ids: "ag_ID ` set old = ag_ID ` set (argument_rows db0)" using arg_cong [OF kept_ids [OF o(2)], of set] by simp
  have "ag_ParentID r = None \<or> (\<exists>q \<in> set old. ag_ParentID r = Some (ag_ID q))"
    using parent_stored [OF parents assms(4)]
  proof
    assume "\<exists>q \<in> set (argument_rows db0). ag_ParentID r = Some (ag_ID q)"
    then obtain i where "ag_ParentID r = Some i" "i \<in> ag_ID ` set old" unfolding ids by blast
    then show ?thesis by auto
  qed simp
  from chain_depth_append [OF d parents_frozen [OF f parents] this] show ?thesis
    using chain_depth_frozen [OF f] o(1) by simp
qed

lemma replyable_parent:
  assumes "ensureReplyableParent scan replies arena i db0 = Inr ()" "arguments_ok replies db0"
    and "arguments_extends db0 db" "arguments_ok replies db"
  obtains p q where "scan (argument_String i) = Some p" "q \<in> set (argument_rows db)" "ag_ID q = p"
    "uuidToString (Some (ag_ArenaID q)) = arena_String arena"
    "int (chain_depth 1000 (ag_ParentID q) (argument_rows db)) + 1 \<le> MaxDepth replies"
proof -
  obtain p q0 where q0: "scan (argument_String i) = Some p" "find (\<lambda>r. ag_ID r = p) (argument_rows db0) = Some q0"
    "bind_r (mapArgument q0) (\<lambda>a. Inr (a, int (chain_depth 1000 (ag_ParentID q0) (argument_rows db0)))) = repo_GetParent scan i db0"
    using assms(1) unfolding ensureReplyableParent_def repo_GetParent_def sql_GetParentArgument_def find_argument_def
    by (auto split: option.splits sum.splits simp: bind_r_def)
  have mem: "q0 \<in> set (argument_rows db0)" "ag_ID q0 = p" using q0(2) by (auto simp: find_Some_iff)
  have "ag_row_ok q0" using assms(2) mem(1) by (auto simp: arguments_ok_def list_all_iff)
  then have got: "repo_GetParent scan i db0 = Inr (argument_of_row q0, int (chain_depth 1000 (ag_ParentID q0) (argument_rows db0)))"
    using q0(3) mapArgument_ok by simp
  have arena: "uuidToString (Some (ag_ArenaID q0)) = arena_String arena"
    and depth: "int (chain_depth 1000 (ag_ParentID q0) (argument_rows db0)) + 1 \<le> MaxDepth replies"
    using assms(1) unfolding ensureReplyableParent_def got
    by (auto simp: ArenaID_Equals_def argument_of_row_def AllowsChildDepth_def split: if_splits)
  obtain q where q: "q \<in> set (argument_rows db)" "kept_row q0 q" using extends_member [OF assms(3) mem(1)] by blast
  have f: "frozen q = frozen q0" using q(2) by (simp add: kept_row_def)
  show ?thesis
    by (rule that [OF q0(1) q(1)])
      (use frozen_parts [OF f] mem(2) arena depth extends_chain [OF assms(3,2,4) mem(1)] in auto)
qed

section \<open>Sources\<close>

lemma create_source_Inr:
  assumes "repo_CreateArgumentSource scan i s at db = (Inr (), db')"
  obtains a row where "scan (argument_String i) = Some a"
    "db' = db\<lparr>source_rows := source_rows db @ [row], arg_uuid_next := Suc (arg_uuid_next db)\<rparr>"
    "src_ArgumentID row = a" "src_Url row = source_url s"
    "src_Description row = (if HasDescription s then Some (source_description s) else None)"
    "a \<in> ag_ID ` set (argument_rows db)"
  using assms unfolding repo_CreateArgumentSource_def sql_CreateArgumentSource_def Let_def
  by (auto split: option.splits sum.splits if_splits)

lemma create_sources_Inr:
  assumes "create_sources scan i ss at db = (Inr (), db')"
  shows "\<exists>new n. db' = db\<lparr>source_rows := source_rows db @ new, arg_uuid_next := n\<rparr>
    \<and> map (\<lambda>s. (src_Url s, src_Description s)) new =
        map (\<lambda>s. (source_url s, if HasDescription s then Some (source_description s) else None)) ss
    \<and> (\<forall>s \<in> set new. scan (argument_String i) = Some (src_ArgumentID s) \<and> src_ArgumentID s \<in> ag_ID ` set (argument_rows db))"
  using assms
proof (induction ss arbitrary: db)
  case Nil
  then show ?case by (intro exI [of _ "[]"] exI [of _ "arg_uuid_next db"]) simp
next
  case (Cons s ss)
  obtain x db1 where x: "repo_CreateArgumentSource scan i s at db = (x, db1)" by (cases "repo_CreateArgumentSource scan i s at db")
  have "x = Inr () \<and> create_sources scan i ss at db1 = (Inr (), db')"
    using Cons.prems unfolding create_sources.simps x by (cases x) (simp_all split: unit.splits)
  then have 1: "repo_CreateArgumentSource scan i s at db = (Inr (), db1)" "create_sources scan i ss at db1 = (Inr (), db')"
    using x by blast+
  obtain a row where row: "scan (argument_String i) = Some a"
    "db1 = db\<lparr>source_rows := source_rows db @ [row], arg_uuid_next := Suc (arg_uuid_next db)\<rparr>"
    "src_ArgumentID row = a" "src_Url row = source_url s"
    "src_Description row = (if HasDescription s then Some (source_description s) else None)"
    "a \<in> ag_ID ` set (argument_rows db)"
    by (rule create_source_Inr [OF 1(1)])
  obtain new n where new: "db' = db1\<lparr>source_rows := source_rows db1 @ new, arg_uuid_next := n\<rparr>"
    "map (\<lambda>s. (src_Url s, src_Description s)) new =
       map (\<lambda>s. (source_url s, if HasDescription s then Some (source_description s) else None)) ss"
    "\<forall>s \<in> set new. scan (argument_String i) = Some (src_ArgumentID s) \<and> src_ArgumentID s \<in> ag_ID ` set (argument_rows db1)"
    using Cons.IH [OF 1(2)] by blast
  have "db' = db\<lparr>source_rows := source_rows db @ row # new, arg_uuid_next := n\<rparr>" unfolding new(1) row(2) by simp
  moreover have "argument_rows db1 = argument_rows db" unfolding row(2) by simp
  then have "\<forall>s \<in> set (row # new). scan (argument_String i) = Some (src_ArgumentID s) \<and> src_ArgumentID s \<in> ag_ID ` set (argument_rows db)"
    using new(3) row(1,3,6) by (auto simp del: image_iff)
  moreover have "map (\<lambda>s. (src_Url s, src_Description s)) (row # new) =
      map (\<lambda>s. (source_url s, if HasDescription s then Some (source_description s) else None)) (s # ss)"
    using new(2) row(4,5) by (simp only: list.map)
  ultimately show ?case by blast
qed

end
