(* ===== verification/ArgumentsHistory.thy ===== *)
theory ArgumentsHistory
  imports ArgumentsWrites WalletHistory
begin

text \<open>
  Histories of the composed state, the ledger of the wallet with the tables of arguments: every
  request of the two modules, the two moderation statements that touch an argument, and the
  environment. A publication may read any earlier state of its history.
\<close>

section \<open>A parsed publication\<close>

lemma ParseContent_Inr:
  assumes "ParseContent raw counter = Inr c"
  shows "TrimSpace (content_value c) = content_value c" "content_value c \<noteq> []" "1 \<le> content_cost c" "content_cost c \<le> 3000"
    "content_hash c = HashContent (content_value c)"
  using assms unfolding ParseContent_def Let_def MaxGraphemeCost_def normalizeContent_def
  by (auto split: option.splits if_splits)

lemma parse_publication_Inr:
  assumes "parse_publication counter replies cmd = Inr p"
  shows "ReplyPolicy_IsValid replies" "ParseAccountID (pc_AccountID cmd) = Inr (pub_author p)"
    "ParseArenaID (pc_ArenaID cmd) = Inr (pub_arena p)" "ParseRelation (pc_Relation cmd) = Inr (pub_relation p)"
    "ParseContent (pc_Content cmd) counter = Inr (pub_content p)"
    "ParseIdempotencyKey (pc_IdempotencyKey cmd) = Inr (pub_key p)" "parseSources (pc_Sources cmd) = Inr (pub_sources p)"
  using assms unfolding parse_publication_def by (auto simp: bind_r_Inr_iff split: if_splits)

section \<open>How a publication ends\<close>

definition publication_allowed :: "publish_env \<Rightarrow> publication \<Rightarrow> publish_reads \<Rightarrow> bool" where
  "publication_allowed env p reads \<longleftrightarrow>
     EnsureEligible (pe_accounts env) (pub_author p) = Inr ()
   \<and> EnsureAcceptsArguments (pe_scan env) (pub_arena p) (seen_arenas reads) = Inr ()
   \<and> (ArgumentID_IsZero (pub_parent p)
      \<or> ensureReplyableParent (pe_scan env) (pe_replies env) (pub_arena p) (pub_parent p) (seen_parent reads) = Inr ())"

lemma publish_ends:
  assumes "PublishArgument_Execute env cmd reads st = (res, st')"
  shows "(\<exists>e. res = Inl e) \<and> st' = st
    \<or> (\<exists>r p. res = Inr r \<and> pr_Replayed r \<and> st' = st \<and> parse_publication (pe_counter env) (pe_replies env) cmd = Inr p
        \<and> (\<exists>old \<in> {seen_key reads, seen_retry reads}.
            repo_GetByAuthorAndIdempotencyKey (pe_scan env) (pub_author p) (pub_key p) old = Inr (pr_Argument r)))
    \<or> (\<exists>p created. res = Inr \<lparr>pr_Argument = created, pr_Replayed = False\<rparr>
        \<and> parse_publication (pe_counter env) (pe_replies env) cmd = Inr p
        \<and> repo_GetByAuthorAndIdempotencyKey (pe_scan env) (pub_author p) (pub_key p) (seen_key reads) = Inl ErrArgumentNotFound
        \<and> publication_allowed env p reads
        \<and> publish_transaction env p (seen_wallet reads) st = (Inr created, st'))"
proof (cases "parse_publication (pe_counter env) (pe_replies env) cmd")
  case (Inl e)
  then show ?thesis using assms by (auto simp: PublishArgument_Execute_def)
next
  case (Inr p)
  note exec = assms [unfolded PublishArgument_Execute_def Inr sum.case]
  show ?thesis
  proof (cases "repo_GetByAuthorAndIdempotencyKey (pe_scan env) (pub_author p) (pub_key p) (seen_key reads)")
    case first: (Inr existing)
    then show ?thesis using exec Inr by auto
  next
    case first: (Inl e)
    show ?thesis
    proof (cases "e = ErrArgumentNotFound \<and> publication_allowed env p reads")
      case False
      then show ?thesis using exec unfolding first
        by (auto simp: publication_allowed_def split: if_splits sum.splits unit.splits)
    next
      case True
      then have gates: "EnsureEligible (pe_accounts env) (pub_author p) = Inr ()"
        "EnsureAcceptsArguments (pe_scan env) (pub_arena p) (seen_arenas reads) = Inr ()"
        "(if \<not> ArgumentID_IsZero (pub_parent p)
          then ensureReplyableParent (pe_scan env) (pe_replies env) (pub_arena p) (pub_parent p) (seen_parent reads)
          else Inr ()) = Inr ()"
        by (auto simp: publication_allowed_def)
      have e: "e = ErrArgumentNotFound" using True by simp
      note exec = exec [unfolded first e gates, simplified sum.case unit.case simp_thms if_False]
      obtain r s where body: "publish_transaction env p (seen_wallet reads) st = (r, s)"
        by (cases "publish_transaction env p (seen_wallet reads) st")
      show ?thesis
      proof (cases r)
        case (Inr created)
        then show ?thesis using exec True \<open>parse_publication _ _ _ = _\<close> first body e by (simp add: WithinTransaction_def)
      next
        case (Inl e')
        then show ?thesis using exec \<open>parse_publication _ _ _ = _\<close> body
          by (auto simp: WithinTransaction_def split: if_splits sum.splits)
      qed
    qed
  qed
qed

definition publish_charge :: "publication \<Rightarrow> InkDebitRequest" where
  "publish_charge p = \<lparr>charge_AccountID = account_String (pub_author p), charge_Amount = content_cost (pub_content p),
     charge_Reference = WalletReference (pub_key p), charge_IdempotencyKey = key_String (pub_key p)\<rparr>"

lemma transaction_Inr:
  assumes "publish_transaction env p seen st = (Inr created, st')"
  obtains replayed db1 where "Bridge_Debit (pe_scan env) (pe_wallet_now env) (publish_charge p) seen (fst st) = (Inr replayed, fst st')"
    "repo_CreateArgument (pe_scan env)
       \<lparr>ca_ArenaID = pub_arena p, ca_AuthorID = pub_author p, ca_ParentID = pub_parent p, ca_Relation = pub_relation p,
        ca_Content = pub_content p, ca_IdempotencyKey = pub_key p, ca_CreatedAt = pe_now env\<rparr> (snd st) = (Inr (Some created, True), db1)"
    "create_sources (pe_scan env) (pa_ID created) (pub_sources p) (pe_now env) db1 = (Inr (), snd st')"
proof -
  obtain b w where b: "Bridge_Debit (pe_scan env) (pe_wallet_now env) (publish_charge p) seen (fst st) = (b, w)"
    by (cases "Bridge_Debit (pe_scan env) (pe_wallet_now env) (publish_charge p) seen (fst st)")
  note t = assms [unfolded publish_transaction_def publish_charge_def [symmetric] b]
  obtain replayed where b': "b = Inr replayed" using t by (cases b) simp_all
  let ?c = "repo_CreateArgument (pe_scan env)
       \<lparr>ca_ArenaID = pub_arena p, ca_AuthorID = pub_author p, ca_ParentID = pub_parent p, ca_Relation = pub_relation p,
        ca_Content = pub_content p, ca_IdempotencyKey = pub_key p, ca_CreatedAt = pe_now env\<rparr> (snd st)"
  obtain c db1 where c: "?c = (c, db1)" by (cases ?c)
  note t = t [unfolded b' c prod.case sum.case]
  obtain argument inserted where c': "c = Inr (argument, inserted)" using t by (cases c) auto
  note t = t [unfolded c' prod.case sum.case]
  obtain s db2 where s: "create_sources (pe_scan env) (pa_ID (the argument)) (pub_sources p) (pe_now env) db1 = (s, db2)"
    by (cases "create_sources (pe_scan env) (pa_ID (the argument)) (pub_sources p) (pe_now env) db1")
  have fin: "inserted" "s = Inr ()" "created = the argument" "st' = (w, db2)"
    using t s by (cases s; auto split: if_splits unit.splits)+
  have "argument = Some created"
    using c c' fin(1,3) unfolding repo_CreateArgument_def by (auto simp: bind_r_Inr_iff split: option.splits sum.splits if_splits)
  then show ?thesis using that b b' c c' fin s by simp
qed

section \<open>What a publication writes\<close>

text \<open>The row and the sources of a committed publication, at the time of its transaction.\<close>

definition published_row :: "publish_env \<Rightarrow> publication \<Rightarrow> AppArgument \<Rightarrow> bool" where
  "published_row env p row \<longleftrightarrow>
     pe_scan env (arena_String (pub_arena p)) = Some (ag_ArenaID row)
   \<and> pe_scan env (account_String (pub_author p)) = Some (ag_AuthorID row)
   \<and> (if ArgumentID_IsZero (pub_parent p) then ag_ParentID row = None
      else ag_ParentID row \<noteq> None \<and> ag_ParentID row = pe_scan env (argument_String (pub_parent p)))
   \<and> ag_Relation row = relation_String (pub_relation p) \<and> ag_Content row = content_value (pub_content p)
   \<and> ag_GraphemeCost row = content_cost (pub_content p) \<and> ag_ContentHash row = hash_String (content_hash (pub_content p))
   \<and> ag_Status row = ''published'' \<and> ag_WithdrawnAt row = None
   \<and> ag_IdempotencyKey row = Some (key_String (pub_key p)) \<and> ag_CreatedAt row = timestamptz (pe_now env)"

lemma CreateArgument_Inr:
  assumes "repo_CreateArgument (pe_scan env)
       \<lparr>ca_ArenaID = pub_arena p, ca_AuthorID = pub_author p, ca_ParentID = pub_parent p, ca_Relation = pub_relation p,
        ca_Content = pub_content p, ca_IdempotencyKey = pub_key p, ca_CreatedAt = pe_now env\<rparr> db = (Inr (Some created, True), db1)"
    and "parse_publication counter replies cmd = Inr p"
  obtains row where "published_row env p row" "ag_row_ok row" "created = argument_of_row row"
    "\<forall>r \<in> set (argument_rows db). ag_AuthorID r = ag_AuthorID row \<longrightarrow> ag_IdempotencyKey r \<noteq> ag_IdempotencyKey row"
    "ag_ID row \<notin> ag_ID ` set (argument_rows db)"
    "\<forall>q. ag_ParentID row = Some q \<longrightarrow> (\<exists>r \<in> set (argument_rows db). ag_ID r = q \<and> ag_ArenaID r = ag_ArenaID row)"
    "db1 = db\<lparr>argument_rows := argument_rows db @ [row], arg_uuid_next := Suc (arg_uuid_next db)\<rparr>"
proof -
  note content = ParseContent_Inr [OF parse_publication_Inr(5) [OF assms(2)]]
  have cost: "wrap32 (content_cost (pub_content p)) = content_cost (pub_content p)"
    using content(3,4) by (simp add: wrap32_def)
  obtain arena author parent row where r:
    "pe_scan env (arena_String (pub_arena p)) = Some arena" "pe_scan env (account_String (pub_author p)) = Some author"
    "(if ArgumentID_IsZero (pub_parent p) then Some None else map_option Some (pe_scan env (argument_String (pub_parent p)))) = Some parent"
    "sql_CreateArgument arena author parent (relation_String (pub_relation p)) (content_value (pub_content p))
       (hash_String (content_hash (pub_content p))) (content_cost (pub_content p)) (key_String (pub_key p)) (pe_now env) db = Inr (row, db1)"
    "mapArgument row = Inr created"
    using assms(1) unfolding repo_CreateArgument_def
    by (auto simp: bind_r_Inr_iff cost split: option.splits sum.splits if_splits)
  note row = create_argument_Inr [OF r(4)]
  have ok: "ag_row_ok row"
    using row(2,3) content unfolding ag_row_ok_def by (simp add: row(1))
  have "published_row env p row"
    using r(1-3) unfolding published_row_def by (auto simp: row(1) split: if_splits)
  moreover have "created = argument_of_row row" using mapArgument_ok [OF ok] r(5) by simp
  moreover have "ag_AuthorID row = author" "ag_ArenaID row = arena" "ag_ParentID row = parent"
    "ag_IdempotencyKey row = Some (key_String (pub_key p))" by (simp_all add: row(1))
  ultimately show ?thesis using that [OF _ ok] row(4-7) by simp
qed

definition source_pair :: "Source \<Rightarrow> string \<times> string option" where
  "source_pair s = (source_url s, if HasDescription s then Some (source_description s) else None)"

definition published :: "publish_env \<Rightarrow> publication \<Rightarrow> arguments_db \<Rightarrow> AppArgument \<Rightarrow> AppArgumentSource list \<Rightarrow> arguments_db \<Rightarrow> bool" where
  "published env p db row sources db' \<longleftrightarrow>
     published_row env p row \<and> ag_ID row \<notin> ag_ID ` set (argument_rows db)
   \<and> argument_rows db' = argument_rows db @ [row] \<and> source_rows db' = source_rows db @ sources
   \<and> map (\<lambda>s. (src_Url s, src_Description s)) sources = map source_pair (pub_sources p)
   \<and> (\<forall>s \<in> set sources. src_ArgumentID s = ag_ID row)"

lemma published_extends:
  assumes "published env p db row sources db'"
  shows "arguments_extends db db'"
  using assms unfolding published_def arguments_extends_def
  by (intro conjI exI [of _ "argument_rows db"] exI [of _ "[row]"] exI [of _ sources]) (auto simp: list.rel_refl)

lemma publication_committed:
  assumes "publish_transaction env p seen st = (Inr created, st')" "parse_publication counter (pe_replies env) cmd = Inr p"
    and "publication_allowed env p reads" "reads_canonical (pe_scan env)"
    and "arguments_ok (pe_replies env) (snd st)" "arguments_ok (pe_replies env) (seen_parent reads)"
    and "arguments_extends (seen_parent reads) (snd st)"
  obtains replayed row sources where
    "Bridge_Debit (pe_scan env) (pe_wallet_now env) (publish_charge p) seen (fst st) = (Inr replayed, fst st')"
    "published env p (snd st) row sources (snd st')" "created = argument_of_row row"
    "arguments_ok (pe_replies env) (snd st')"
proof -
  obtain replayed db1 where t: "Bridge_Debit (pe_scan env) (pe_wallet_now env) (publish_charge p) seen (fst st) = (Inr replayed, fst st')"
    "repo_CreateArgument (pe_scan env)
       \<lparr>ca_ArenaID = pub_arena p, ca_AuthorID = pub_author p, ca_ParentID = pub_parent p, ca_Relation = pub_relation p,
        ca_Content = pub_content p, ca_IdempotencyKey = pub_key p, ca_CreatedAt = pe_now env\<rparr> (snd st) = (Inr (Some created, True), db1)"
    "create_sources (pe_scan env) (pa_ID created) (pub_sources p) (pe_now env) db1 = (Inr (), snd st')"
    by (rule transaction_Inr [OF assms(1)])
  let ?rows = "argument_rows (snd st)"
  obtain row where row: "published_row env p row" "ag_row_ok row" "created = argument_of_row row"
    "\<forall>r \<in> set ?rows. ag_AuthorID r = ag_AuthorID row \<longrightarrow> ag_IdempotencyKey r \<noteq> ag_IdempotencyKey row"
    "ag_ID row \<notin> ag_ID ` set ?rows"
    "\<forall>q. ag_ParentID row = Some q \<longrightarrow> (\<exists>r \<in> set ?rows. ag_ID r = q \<and> ag_ArenaID r = ag_ArenaID row)"
    "db1 = (snd st)\<lparr>argument_rows := ?rows @ [row], arg_uuid_next := Suc (arg_uuid_next (snd st))\<rparr>"
    by (rule CreateArgument_Inr [OF t(2) assms(2)])
  have valid: "0 \<le> MaxDepth (pe_replies env)" using parse_publication_Inr(1) [OF assms(2)] by (simp add: ReplyPolicy_IsValid_def)
  have depth: "\<forall>q. ag_ParentID row = Some q \<longrightarrow> (\<exists>r \<in> set ?rows. ag_ID r = q
      \<and> int (chain_depth 1000 (ag_ParentID r) ?rows) + 1 \<le> MaxDepth (pe_replies env))"
  proof (intro allI impI)
    fix q assume q: "ag_ParentID row = Some q"
    then have p: "\<not> ArgumentID_IsZero (pub_parent p)" "pe_scan env (argument_String (pub_parent p)) = Some q"
      using row(1) by (auto simp: published_row_def split: if_splits)
    then have "ensureReplyableParent (pe_scan env) (pe_replies env) (pub_arena p) (pub_parent p) (seen_parent reads) = Inr ()"
      using assms(3) by (simp add: publication_allowed_def)
    from replyable_parent [OF this assms(6,7,5)] obtain i r where
      "pe_scan env (argument_String (pub_parent p)) = Some i" "r \<in> set ?rows" "ag_ID r = i"
      "int (chain_depth 1000 (ag_ParentID r) ?rows) + 1 \<le> MaxDepth (pe_replies env)" by blast
    then show "\<exists>r \<in> set ?rows. ag_ID r = q \<and> int (chain_depth 1000 (ag_ParentID r) ?rows) + 1 \<le> MaxDepth (pe_replies env)"
      using p(2) by auto
  qed
  have ok1: "arguments_ok (pe_replies env) db1"
    unfolding row(7) by (rule arguments_ok_insert [OF assms(5) row(2) valid row(4-6) depth])
  obtain sources n where s: "snd st' = db1\<lparr>source_rows := source_rows db1 @ sources, arg_uuid_next := n\<rparr>"
    "map (\<lambda>s. (src_Url s, src_Description s)) sources = map source_pair (pub_sources p)"
    "\<forall>s \<in> set sources. pe_scan env (argument_String (pa_ID created)) = Some (src_ArgumentID s)
       \<and> src_ArgumentID s \<in> ag_ID ` set (argument_rows db1)"
    using create_sources_Inr [OF t(3)] unfolding source_pair_def by blast
  have "pe_scan env (argument_String (pa_ID created)) = Some (ag_ID row)"
    using assms(4) by (simp add: row(3) argument_of_row_def reads_canonical_def)
  then have owner: "\<forall>s \<in> set sources. src_ArgumentID s = ag_ID row" using s(3) by auto
  have pub: "published env p (snd st) row sources (snd st')"
    using row(1,5) s(2) owner unfolding published_def s(1) row(7) by simp
  have "arguments_ok (pe_replies env) (snd st')"
    using ok1 s(3) unfolding arguments_ok_def s(1) by auto
  then show ?thesis using that t(1) pub row(3) by blast
qed

end
