(* ===== verification/ArgumentsRuns.thy ===== *)
theory ArgumentsRuns
  imports ArgumentsHistory
begin

text \<open>The step relation of the composed state, its histories and the invariant they keep.\<close>

section \<open>Withdrawals\<close>

definition withdrawn :: "time \<Rightarrow> uuid \<Rightarrow> uuid \<Rightarrow> AppArgument \<Rightarrow> AppArgument \<Rightarrow> bool" where
  "withdrawn at i author old new \<longleftrightarrow>
     ag_ID old = i \<and> ag_AuthorID old = author \<and> ag_Status old = ''published''
   \<and> new = old\<lparr>ag_Status := ''withdrawn'',
       ag_WithdrawnAt := Some (case ag_WithdrawnAt old of None \<Rightarrow> timestamptz at | Some t \<Rightarrow> t),
       ag_UpdatedAt := timestamptz at\<rparr>"

lemma withdraw_statement_Inr:
  assumes "sql_WithdrawArgument at i author db = Inr (new, db')" "arguments_ok replies db"
  obtains pre old post where "argument_rows db = pre @ old # post" "withdrawn at i author old new"
    "db' = db\<lparr>argument_rows := pre @ new # post\<rparr>" "arguments_ok replies db'" "arguments_extends db db'" "ag_row_ok new"
proof -
  note call = assms(1) [unfolded sql_WithdrawArgument_def]
  obtain pre old post where u: "argument_rows db = pre @ old # post"
    "ag_ID old = i \<and> ag_AuthorID old = author \<and> ag_Status old = ''published''"
    "new = old\<lparr>ag_Status := ''withdrawn'',
       ag_WithdrawnAt := Some (case ag_WithdrawnAt old of None \<Rightarrow> timestamptz at | Some t \<Rightarrow> t), ag_UpdatedAt := timestamptz at\<rparr>"
    "db' = db\<lparr>argument_rows := pre @ old\<lparr>ag_Status := ''withdrawn'',
       ag_WithdrawnAt := Some (case ag_WithdrawnAt old of None \<Rightarrow> timestamptz at | Some t \<Rightarrow> t), ag_UpdatedAt := timestamptz at\<rparr> # post\<rparr>"
    by (rule update_argument_Inr [OF call assms(2)]) auto
  have keeps: "arguments_ok replies db' \<and> arguments_extends db db' \<and> new \<in> set (argument_rows db')"
    by (rule update_keeps [OF call assms(2)]) (auto split: option.split)
  then have "ag_row_ok new" by (auto simp: arguments_ok_def list_all_iff)
  then show ?thesis using that u keeps unfolding withdrawn_def by blast
qed

lemma withdraw_ends:
  assumes "WithdrawArgument_Execute scan now cmd seen again db = (res, db')" "arguments_ok replies db"
  shows "(\<exists>e. res = Inl e) \<and> db' = db
    \<or> (\<exists>r author argument. res = Inr r \<and> pr_Replayed r \<and> db' = db \<and> pa_Status (pr_Argument r) = ''withdrawn''
        \<and> (\<exists>old \<in> {seen, again}. repo_GetForAuthor scan argument author old = Inr (pr_Argument r))
        \<and> ParseAccountID (wc_AccountID cmd) = Inr author \<and> ParseArgumentID (wc_ArgumentID cmd) = Inr argument)
    \<or> (\<exists>r author argument a c pre old new post. res = Inr r \<and> \<not> pr_Replayed r
        \<and> ParseAccountID (wc_AccountID cmd) = Inr author \<and> ParseArgumentID (wc_ArgumentID cmd) = Inr argument
        \<and> scan (argument_String argument) = Some a \<and> scan (account_String author) = Some c
        \<and> argument_rows db = pre @ old # post \<and> withdrawn now a c old new
        \<and> db' = db\<lparr>argument_rows := pre @ new # post\<rparr> \<and> pr_Argument r = argument_of_row new
        \<and> arguments_ok replies db' \<and> arguments_extends db db')"
proof (cases "bind_r (ParseAccountID (wc_AccountID cmd)) (\<lambda>author. bind_r (ParseArgumentID (wc_ArgumentID cmd)) (\<lambda>argument. Inr (author, argument)))")
  case (Inl e)
  then show ?thesis using assms(1) by (auto simp: WithdrawArgument_Execute_def)
next
  case (Inr p)
  then obtain author argument where p: "p = (author, argument)" "ParseAccountID (wc_AccountID cmd) = Inr author"
    "ParseArgumentID (wc_ArgumentID cmd) = Inr argument" by (auto simp: bind_r_Inr_iff)
  note exec = assms(1) [unfolded WithdrawArgument_Execute_def Inr p(1) sum.case prod.case]
  obtain w d where w: "repo_WithdrawArgument scan argument author now db = (w, d)" by (cases "repo_WithdrawArgument scan argument author now db")
  note exec = exec [unfolded w prod.case]
  show ?thesis
  proof (cases w)
    case (Inl e)
    have "d = db"
    proof (rule ccontr)
      assume "d \<noteq> db"
      then obtain a c row where s: "sql_WithdrawArgument now a c db = Inr (row, d)" "mapArgument row = Inl e"
        using w Inl unfolding repo_WithdrawArgument_def by (auto simp: bind_r_def split: option.splits sum.splits if_splits)
      obtain pre old post where "ag_row_ok row" by (rule withdraw_statement_Inr [OF s(1) assms(2)])
      then show False using mapArgument_ok s(2) by simp
    qed
    then show ?thesis using exec p(2,3) unfolding Inl statusWithdrawn_def statusRemoved_def by (auto split: sum.splits if_splits)
  next
    case (Inr v)
    obtain updated moved where v: "v = (updated, moved)" by (cases v)
    show ?thesis
    proof (cases moved)
      case False
      then have "d = db" using w Inr v unfolding repo_WithdrawArgument_def
        by (auto simp: bind_r_Inr_iff split: option.splits sum.splits if_splits)
      then show ?thesis using exec p(2,3) False unfolding Inr v statusWithdrawn_def statusRemoved_def
        by (auto split: sum.splits if_splits)
    next
      case True
      then obtain a c row created where s: "scan (argument_String argument) = Some a" "scan (account_String author) = Some c"
        "sql_WithdrawArgument now a c db = Inr (row, d)" "mapArgument row = Inr created" "updated = Some created"
        using w Inr v unfolding repo_WithdrawArgument_def by (auto simp: bind_r_Inr_iff split: option.splits sum.splits if_splits)
      obtain pre old post where u: "argument_rows db = pre @ old # post" "withdrawn now a c old row"
        "d = db\<lparr>argument_rows := pre @ row # post\<rparr>" "arguments_ok replies d" "arguments_extends db d" "ag_row_ok row"
        by (rule withdraw_statement_Inr [OF s(3) assms(2)])
      have created: "created = argument_of_row row" using mapArgument_ok [OF u(6)] s(4) by simp
      consider "(\<exists>e. res = Inl e) \<and> db' = db"
        | stored where "repo_GetForAuthor scan argument author seen = Inr stored" "pa_Status stored = ''withdrawn''"
            "res = Inr \<lparr>pr_Argument = stored, pr_Replayed = True\<rparr>" "db' = db"
        | "res = Inr \<lparr>pr_Argument = created, pr_Replayed = False\<rparr>" "db' = d"
        using exec True unfolding Inr v s(5) statusWithdrawn_def statusRemoved_def by (auto split: sum.splits if_splits)
      then show ?thesis
      proof cases
        case 2
        then show ?thesis using p(2,3) by (intro disjI2 disjI1) auto
      next
        case 3
        then show ?thesis using p(2,3) s(1,2) u created by (intro disjI2) fastforce
      qed simp
    qed
  qed
qed

section \<open>Histories\<close>

type_synonym debate = "wallet_db \<times> arguments_db"

text \<open>
  A history lists the states newest first. The reads of a publication and of a withdrawal come from
  states of their history; the Arena that a publication sees is the arenas module's. The environment creates
  Arenas and accounts, moves the clock and may hand out any UUID.
\<close>

inductive debate_history :: "(string \<Rightarrow> uuid option) \<Rightarrow> ReplyPolicy \<Rightarrow> debate list \<Rightarrow> bool" for scan replies where
  start: "wallet_init w \<Longrightarrow> argument_rows db = [] \<Longrightarrow> source_rows db = [] \<Longrightarrow> debate_history scan replies [(w, db)]"
| publish: "debate_history scan replies (st # past) \<Longrightarrow> PublishArgument_Execute (env :: publish_env) cmd reads st = (pres, st')
    \<Longrightarrow> pe_scan env = scan \<Longrightarrow> pe_replies env = replies \<Longrightarrow> {seen_key reads, seen_parent reads} \<subseteq> snd ` set (st # past)
    \<Longrightarrow> seen_wallet reads \<in> fst ` set (st # past) \<Longrightarrow> debate_history scan replies (st' # st # past)"
| withdraw: "debate_history scan replies ((w, db) # past) \<Longrightarrow> WithdrawArgument_Execute scan now wcmd seen again db = (wres, db')
    \<Longrightarrow> debate_history scan replies ((w, db') # (w, db) # past)"
| remove: "debate_history scan replies ((w, db) # past) \<Longrightarrow> sql_RemoveArgumentForModeration i db = Inr (row, db')
    \<Longrightarrow> debate_history scan replies ((w, db') # (w, db) # past)"
| restore: "debate_history scan replies ((w, db) # past) \<Longrightarrow> sql_RestoreArgumentForAppeal i db = Inr (row, db')
    \<Longrightarrow> debate_history scan replies ((w, db') # (w, db) # past)"
| wallet: "debate_history scan replies ((w, db) # past) \<Longrightarrow> wallet_step scan w w'
    \<Longrightarrow> debate_history scan replies ((w', db) # (w, db) # past)"
| environment: "debate_history scan replies ((w, db) # past)
    \<Longrightarrow> debate_history scan replies ((w, db\<lparr>arg_arenas := as, arg_accounts := cs, arg_uuid_gen := g, arg_uuid_next := n, arg_now := t\<rparr>) # (w, db) # past)"

section \<open>The invariant\<close>

definition debate_ok :: "ReplyPolicy \<Rightarrow> debate \<Rightarrow> bool" where
  "debate_ok replies st \<longleftrightarrow> ledger_ok (fst st) \<and> arguments_ok replies (snd st)"

definition debate_extends :: "debate \<Rightarrow> debate \<Rightarrow> bool" where
  "debate_extends old new \<longleftrightarrow> ledger_extends (fst old) (fst new) \<and> arguments_extends (snd old) (snd new)"

lemma debate_extends_refl [simp]: "debate_extends st st"
  by (simp add: debate_extends_def)

lemma debate_extends_trans: "debate_extends a b \<Longrightarrow> debate_extends b c \<Longrightarrow> debate_extends a c"
  unfolding debate_extends_def using ledger_extends_trans extends_trans by blast

lemma bridge_keeps:
  assumes "Bridge_Debit scan now rq seen w = (res, w')" "ledger_ok w" "in_int64 (charge_Amount rq)"
  shows "ledger_ok w' \<and> ledger_extends w w'"
proof -
  define cmd where "cmd = \<lparr>debitCmd_AccountID = charge_AccountID rq, debitCmd_OperationType = OperationDebitArgument,
    debitCmd_Amount = charge_Amount rq, debitCmd_Reference = charge_Reference rq, debitCmd_IdempotencyKey = charge_IdempotencyKey rq\<rparr>"
  obtain r d where d: "DebitInk_Execute scan now cmd seen w = (r, d)" by (cases "DebitInk_Execute scan now cmd seen w")
  then have w': "w' = d" using assms(1) unfolding Bridge_Debit_def cmd_def [symmetric] by (simp split: sum.splits)
  show ?thesis
  proof (cases "debit_request now cmd")
    case (Inl e)
    then show ?thesis using d w' assms(2) by (simp add: DebitInk_Execute_def)
  next
    case (Inr request)
    then have "ApplyDebit scan request seen w = (r, d)" using d by (simp add: DebitInk_Execute_def)
    moreover have "in_int64 (debitCmd_Amount cmd)" using assms(3) by (simp add: cmd_def)
    from debit_request_Inr [OF Inr this] have "is_Ink (debit_Amount request)" by blast
    ultimately show ?thesis using ApplyDebit_keeps assms(2) w' by blast
  qed
qed

lemma charge_in_range: "parse_publication counter replies cmd = Inr p \<Longrightarrow> in_int64 (charge_Amount (publish_charge p))"
proof -
  assume p: "parse_publication counter replies cmd = Inr p"
  from ParseContent_Inr [OF parse_publication_Inr(5) [OF p]] show ?thesis
    by (simp add: publish_charge_def int64_defs)
qed

lemma publish_keeps:
  assumes "PublishArgument_Execute (env :: publish_env) cmd reads st = (res, st')" "debate_ok (pe_replies env) st" "reads_canonical (pe_scan env)"
    and "arguments_ok (pe_replies env) (seen_parent reads)" "arguments_extends (seen_parent reads) (snd st)"
  shows "debate_ok (pe_replies env) st' \<and> debate_extends st st'"
  using publish_ends [OF assms(1)]
proof (elim disjE exE conjE)
  fix p created
  assume p: "parse_publication (pe_counter env) (pe_replies env) cmd = Inr p" "publication_allowed env p reads"
    "publish_transaction env p (seen_wallet reads) st = (Inr created, st')"
  have ok: "ledger_ok (fst st)" "arguments_ok (pe_replies env) (snd st)" using assms(2) by (simp_all add: debate_ok_def)
  obtain replayed row sources where
    c: "Bridge_Debit (pe_scan env) (pe_wallet_now env) (publish_charge p) (seen_wallet reads) (fst st) = (Inr replayed, fst st')"
    "published env p (snd st) row sources (snd st')" "created = argument_of_row row" "arguments_ok (pe_replies env) (snd st')"
    by (rule publication_committed [OF p(3,1,2) assms(3) ok(2) assms(4,5)])
  show ?thesis
    using bridge_keeps [OF c(1) ok(1) charge_in_range [OF p(1)]] published_extends [OF c(2)] c(4)
    by (simp add: debate_ok_def debate_extends_def)
qed (use assms(2) in simp_all)

lemma withdraw_keeps:
  assumes "WithdrawArgument_Execute scan now cmd seen again db = (res, db')" "arguments_ok replies db"
  shows "arguments_ok replies db' \<and> arguments_extends db db'"
  using withdraw_ends [OF assms] assms(2) by (elim disjE exE conjE) simp_all

lemma moderation_keeps:
  "sql_RemoveArgumentForModeration i db = Inr (row, db') \<Longrightarrow> arguments_ok replies db \<Longrightarrow> arguments_ok replies db' \<and> arguments_extends db db'"
  "sql_RestoreArgumentForAppeal i db = Inr (row, db') \<Longrightarrow> arguments_ok replies db \<Longrightarrow> arguments_ok replies db' \<and> arguments_extends db db'"
  unfolding sql_RemoveArgumentForModeration_def sql_RestoreArgumentForAppeal_def by (auto dest!: update_keeps)

lemma history_step:
  assumes "debate_ok replies st \<and> (\<forall>old \<in> set past. debate_ok replies old \<and> debate_extends old st)"
    and "debate_ok replies st' \<and> debate_extends st st'"
  shows "debate_ok replies st' \<and> (\<forall>old \<in> set (st # past). debate_ok replies old \<and> debate_extends old st')"
proof (intro conjI ballI)
  fix old assume "old \<in> set (st # past)"
  then consider "old = st" | "old \<in> set past" by auto
  then show "debate_extends old st'"
    by cases (use assms debate_extends_trans in blast)+
qed (use assms in auto)

lemma environment_keeps:
  assumes "debate_ok replies (w, db)"
  shows "debate_ok replies (w, db\<lparr>arg_arenas := as, arg_accounts := cs, arg_uuid_gen := g, arg_uuid_next := n, arg_now := t\<rparr>)
    \<and> debate_extends (w, db) (w, db\<lparr>arg_arenas := as, arg_accounts := cs, arg_uuid_gen := g, arg_uuid_next := n, arg_now := t\<rparr>)"
proof -
  let ?db = "db\<lparr>arg_arenas := as, arg_accounts := cs, arg_uuid_gen := g, arg_uuid_next := n, arg_now := t\<rparr>"
  have "arguments_extends db ?db"
    unfolding arguments_extends_def by (intro conjI exI [of _ "argument_rows db"] exI [of _ "[]"]) (simp_all add: list.rel_refl)
  then show ?thesis using assms by (simp add: debate_ok_def debate_extends_def arguments_ok_def)
qed

lemma debate_invariant:
  assumes "debate_history scan replies (st # past)" "reads_canonical scan"
  shows "debate_ok replies st \<and> (\<forall>old \<in> set past. debate_ok replies old \<and> debate_extends old st)"
  using assms(1)
proof (induction "st # past" arbitrary: st past rule: debate_history.induct)
  case (start w db)
  then have "ledger_ok w" using wallet_init_ok by blast
  with start show ?case by (simp add: debate_ok_def arguments_ok_def keys_apart_def parents_ok_def depth_ok_def)
next
  case (publish st past env cmd reads pres st')
  have "seen_parent reads \<in> snd ` set (st # past)" using publish.hyps(6) by (simp only: insert_subset)
  then obtain seen where seen: "seen \<in> set (st # past)" "seen_parent reads = snd seen" by (rule imageE) simp
  have old: "debate_ok replies seen" "debate_extends seen st" using publish.hyps(2) seen(1) by auto
  have "debate_ok replies st' \<and> debate_extends st st'"
    using publish_keeps [OF publish.hyps(3)] publish.hyps(2,4,5) old seen(2) assms(2)
    by (auto simp: debate_ok_def debate_extends_def)
  then show ?case by (rule history_step [OF publish.hyps(2)])
next
  case (withdraw w db past now wcmd seen again wres db')
  then have "debate_ok replies (w, db') \<and> debate_extends (w, db) (w, db')"
    using withdraw_keeps [OF withdraw.hyps(3), of replies] by (simp add: debate_ok_def debate_extends_def)
  then show ?case by (rule history_step [OF withdraw.hyps(2)])
next
  case (remove w db past i row db')
  then have "debate_ok replies (w, db') \<and> debate_extends (w, db) (w, db')"
    using moderation_keeps(1) [OF remove.hyps(3), of replies] by (simp add: debate_ok_def debate_extends_def)
  then show ?case by (rule history_step [OF remove.hyps(2)])
next
  case (restore w db past i row db')
  then have "debate_ok replies (w, db') \<and> debate_extends (w, db) (w, db')"
    using moderation_keeps(2) [OF restore.hyps(3), of replies] by (simp add: debate_ok_def debate_extends_def)
  then show ?case by (rule history_step [OF restore.hyps(2)])
next
  case (wallet w db past w')
  then have "debate_ok replies (w', db) \<and> debate_extends (w, db) (w', db)"
    using wallet_step_ok [OF wallet.hyps(3)] wallet_step_extends [OF wallet.hyps(3)] by (simp add: debate_ok_def debate_extends_def)
  then show ?case by (rule history_step [OF wallet.hyps(2)])
next
  case environment
  show ?case by (rule history_step [OF environment.hyps(2) environment_keeps]) (use environment.hyps(2) in blast)
qed

end
