(* ===== verification/PersuasionDomain.thy ===== *)
theory PersuasionDomain
  imports PositionsHistory ArgumentsRuns
begin

text \<open>
  \<open>internal/persuasion/domain\<close>: identifiers, the eligibility of a selection (\<open>eligibility.go\<close>), and
  attributions with their moderation decisions (\<open>moderation.go\<close>). A Go string type with a closed
  vocabulary is a string here, as it may hold any text there.
\<close>

section \<open>Errors\<close>

datatype persuasion_error =
    ErrInvalidPolicy | ErrEmptyChangeID | ErrEmptyArgumentID | ErrEmptyArenaID | ErrInvalidIdentifier
  | ErrEmptyAttributorID | ErrEmptyAuthorID | ErrInvalidInstant | ErrInvalidStatus | ErrTooManyAttributions
  | ErrDuplicateAttribution | ErrCrossArenaArgument | ErrSelfAttribution | ErrArgumentNotBeforeChange
  | ErrArgumentNotEligible | ErrEmptyAttributionID | ErrEmptyModeratorID | ErrInvalidAttributionStatus
  | ErrInvalidModerationAction | ErrEmptyReason | ErrInvalidReason | ErrReasonTooLong
  | ErrAttributionNotModeratable | ErrInvalidSignalPolicy | ErrInvalidSignalFacts | ErrInvalidSignal
  | ErrInvalidSignalAssessment

section \<open>Identifiers\<close>

definition maxIdentifierLength :: nat where "maxIdentifierLength = 64"

definition parseIdentifier :: "string \<Rightarrow> persuasion_error \<Rightarrow> persuasion_error + string" where
  "parseIdentifier raw emptyErr =
     (let trimmed = TrimSpace raw in
      if trimmed = [] then Inl emptyErr
      else if length trimmed > maxIdentifierLength then Inl ErrInvalidIdentifier
      else if \<not> list_all printable trimmed then Inl ErrInvalidIdentifier
      else Inr trimmed)"

datatype ChangeID = ChangeID (change_String: string)
datatype ArgumentID = ArgumentID (argument_String: string)
datatype ArenaID = ArenaID (arena_String: string)
datatype AttributorID = AttributorID (attributor_String: string)
datatype AuthorID = AuthorID (author_String: string)
datatype AttributionID = AttributionID (attribution_String: string)
datatype ModeratorID = ModeratorID (moderator_String: string)

definition ParseChangeID :: "string \<Rightarrow> persuasion_error + ChangeID" where
  "ParseChangeID raw = bind_r (parseIdentifier raw ErrEmptyChangeID) (\<lambda>t. Inr (ChangeID t))"

definition ParseArgumentID :: "string \<Rightarrow> persuasion_error + ArgumentID" where
  "ParseArgumentID raw = bind_r (parseIdentifier raw ErrEmptyArgumentID) (\<lambda>t. Inr (ArgumentID t))"

definition ParseArenaID :: "string \<Rightarrow> persuasion_error + ArenaID" where
  "ParseArenaID raw = bind_r (parseIdentifier raw ErrEmptyArenaID) (\<lambda>t. Inr (ArenaID t))"

definition ParseAttributorID :: "string \<Rightarrow> persuasion_error + AttributorID" where
  "ParseAttributorID raw = bind_r (parseIdentifier raw ErrEmptyAttributorID) (\<lambda>t. Inr (AttributorID t))"

definition ParseAuthorID :: "string \<Rightarrow> persuasion_error + AuthorID" where
  "ParseAuthorID raw = bind_r (parseIdentifier raw ErrEmptyAuthorID) (\<lambda>t. Inr (AuthorID t))"

definition ParseAttributionID :: "string \<Rightarrow> persuasion_error + AttributionID" where
  "ParseAttributionID raw = bind_r (parseIdentifier raw ErrEmptyAttributionID) (\<lambda>t. Inr (AttributionID t))"

definition ParseModeratorID :: "string \<Rightarrow> persuasion_error + ModeratorID" where
  "ParseModeratorID raw = bind_r (parseIdentifier raw ErrEmptyModeratorID) (\<lambda>t. Inr (ModeratorID t))"

definition ChangeID_IsZero :: "ChangeID \<Rightarrow> bool" where "ChangeID_IsZero i \<longleftrightarrow> change_String i = []"
definition ArgumentID_IsZero :: "ArgumentID \<Rightarrow> bool" where "ArgumentID_IsZero i \<longleftrightarrow> argument_String i = []"
definition ArenaID_IsZero :: "ArenaID \<Rightarrow> bool" where "ArenaID_IsZero i \<longleftrightarrow> arena_String i = []"
definition ArenaID_Equals :: "ArenaID \<Rightarrow> ArenaID \<Rightarrow> bool" where
  "ArenaID_Equals i other \<longleftrightarrow> arena_String i = arena_String other"
definition AttributorID_IsZero :: "AttributorID \<Rightarrow> bool" where "AttributorID_IsZero i \<longleftrightarrow> attributor_String i = []"
definition AuthorID_IsZero :: "AuthorID \<Rightarrow> bool" where "AuthorID_IsZero i \<longleftrightarrow> author_String i = []"
definition ModeratorID_IsZero :: "ModeratorID \<Rightarrow> bool" where "ModeratorID_IsZero i \<longleftrightarrow> moderator_String i = []"

lemmas persuasion_zero_defs = ChangeID_IsZero_def ArgumentID_IsZero_def ArenaID_IsZero_def AttributorID_IsZero_def
  AuthorID_IsZero_def ModeratorID_IsZero_def

interpretation change_id: printable_identifier ParseChangeID change_String maxIdentifierLength
  by unfold_locales (auto simp: ParseChangeID_def parseIdentifier_def Let_def ChangeID.expand split: if_splits)
interpretation argument_ref: printable_identifier ParseArgumentID argument_String maxIdentifierLength
  by unfold_locales (auto simp: ParseArgumentID_def parseIdentifier_def Let_def ArgumentID.expand split: if_splits)
interpretation arena_ref: printable_identifier ParseArenaID arena_String maxIdentifierLength
  by unfold_locales (auto simp: ParseArenaID_def parseIdentifier_def Let_def ArenaID.expand split: if_splits)
interpretation attributor_id: printable_identifier ParseAttributorID attributor_String maxIdentifierLength
  by unfold_locales (auto simp: ParseAttributorID_def parseIdentifier_def Let_def AttributorID.expand split: if_splits)
interpretation author_id: printable_identifier ParseAuthorID author_String maxIdentifierLength
  by unfold_locales (auto simp: ParseAuthorID_def parseIdentifier_def Let_def AuthorID.expand split: if_splits)
interpretation attribution_id: printable_identifier ParseAttributionID attribution_String maxIdentifierLength
  by unfold_locales (auto simp: ParseAttributionID_def parseIdentifier_def Let_def AttributionID.expand split: if_splits)
interpretation moderator_id: printable_identifier ParseModeratorID moderator_String maxIdentifierLength
  by unfold_locales (auto simp: ParseModeratorID_def parseIdentifier_def Let_def ModeratorID.expand split: if_splits)

section \<open>Eligibility\<close>

definition ArgumentStatusPublished :: string where [vocab]: "ArgumentStatusPublished = ''published''"
definition ArgumentStatusWithdrawn :: string where [vocab]: "ArgumentStatusWithdrawn = ''withdrawn''"
definition ArgumentStatusRemoved :: string where [vocab]: "ArgumentStatusRemoved = ''removed''"

definition ArgumentStatus_IsValid :: "string \<Rightarrow> bool" where
  "ArgumentStatus_IsValid s \<longleftrightarrow> s = ArgumentStatusPublished \<or> s = ArgumentStatusWithdrawn \<or> s = ArgumentStatusRemoved"

record Change =
  ch_ID :: ChangeID
  ch_ArenaID :: ArenaID
  ch_AttributorID :: AttributorID
  ch_ChangedAt :: time

record Candidate =
  cand_ID :: ArgumentID
  cand_ArenaID :: ArenaID
  cand_AuthorID :: AuthorID
  cand_CreatedAt :: time
  cand_Status :: string

record EligibilityPolicy =
  policy_Version :: string
  MaxAttributions :: int

definition DefaultEligibilityPolicy :: EligibilityPolicy where
  "DefaultEligibilityPolicy = \<lparr>policy_Version = ''2026-09'', MaxAttributions = 3\<rparr>"

definition EligibilityPolicy_IsValid :: "EligibilityPolicy \<Rightarrow> bool" where
  "EligibilityPolicy_IsValid p \<longleftrightarrow> policy_Version p \<noteq> [] \<and> MaxAttributions p \<ge> 1"

text \<open>The loop over the candidates; \<open>seen\<close> holds the identifiers already met.\<close>

fun validate_candidates :: "Change \<Rightarrow> string set \<Rightarrow> Candidate list \<Rightarrow> persuasion_error + unit" where
  "validate_candidates change seen [] = Inr ()"
| "validate_candidates change seen (c # cs) =
     (if ArgumentID_IsZero (cand_ID c) then Inl ErrEmptyArgumentID
      else if ArenaID_IsZero (cand_ArenaID c) then Inl ErrEmptyArenaID
      else if AuthorID_IsZero (cand_AuthorID c) then Inl ErrEmptyAuthorID
      else if time_IsZero (cand_CreatedAt c) then Inl ErrInvalidInstant
      else if \<not> ArgumentStatus_IsValid (cand_Status c) then Inl ErrInvalidStatus
      else if argument_String (cand_ID c) \<in> seen then Inl ErrDuplicateAttribution
      else if \<not> ArenaID_Equals (cand_ArenaID c) (ch_ArenaID change) then Inl ErrCrossArenaArgument
      else if author_String (cand_AuthorID c) = attributor_String (ch_AttributorID change) then Inl ErrSelfAttribution
      else if \<not> cand_CreatedAt c < ch_ChangedAt change then Inl ErrArgumentNotBeforeChange
      else if cand_Status c \<noteq> ArgumentStatusPublished then Inl ErrArgumentNotEligible
      else validate_candidates change (insert (argument_String (cand_ID c)) seen) cs)"

definition EligibilityPolicy_Validate :: "EligibilityPolicy \<Rightarrow> Change \<Rightarrow> Candidate list \<Rightarrow> persuasion_error + unit" where
  "EligibilityPolicy_Validate p change candidates =
     (if \<not> EligibilityPolicy_IsValid p then Inl ErrInvalidPolicy
      else if ChangeID_IsZero (ch_ID change) then Inl ErrEmptyChangeID
      else if ArenaID_IsZero (ch_ArenaID change) then Inl ErrEmptyArenaID
      else if AttributorID_IsZero (ch_AttributorID change) then Inl ErrEmptyAttributorID
      else if time_IsZero (ch_ChangedAt change) then Inl ErrInvalidInstant
      else if int (length candidates) > MaxAttributions p then Inl ErrTooManyAttributions
      else validate_candidates change {} candidates)"

section \<open>Moderation\<close>

definition AttributionStatusValid :: string where [vocab]: "AttributionStatusValid = ''valid''"
definition AttributionStatusInvalid :: string where [vocab]: "AttributionStatusInvalid = ''invalid''"

definition AttributionStatus_IsValid :: "string \<Rightarrow> bool" where
  "AttributionStatus_IsValid s \<longleftrightarrow> s = AttributionStatusValid \<or> s = AttributionStatusInvalid"

definition ParseAttributionStatus :: "string \<Rightarrow> persuasion_error + string" where
  "ParseAttributionStatus raw = (if \<not> AttributionStatus_IsValid raw then Inl ErrInvalidAttributionStatus else Inr raw)"

definition ModerationActionInvalidate :: string where [vocab]: "ModerationActionInvalidate = ''invalidate''"
definition ModerationActionRestore :: string where [vocab]: "ModerationActionRestore = ''restore''"

definition ModerationAction_IsValid :: "string \<Rightarrow> bool" where
  "ModerationAction_IsValid a \<longleftrightarrow> a = ModerationActionInvalidate \<or> a = ModerationActionRestore"

definition Action_TargetStatus :: "string \<Rightarrow> string" where
  "Action_TargetStatus a =
     (if a = ModerationActionInvalidate then AttributionStatusInvalid
      else if a = ModerationActionRestore then AttributionStatusValid else [])"

definition maxReasonLength :: nat where "maxReasonLength = 500"

definition isBidiOverride :: "nat \<Rightarrow> bool" where
  "isBidiOverride r \<longleftrightarrow> r \<in> {0x200E, 0x200F, 0x061C, 0x202A, 0x202B, 0x202C, 0x202D, 0x202E, 0x2066, 0x2067, 0x2068, 0x2069}"

datatype Reason = Reason (reason_String: string)

definition ParseReason :: "string \<Rightarrow> persuasion_error + Reason" where
  "ParseReason raw =
     (if \<not> valid_utf8 raw then Inl ErrInvalidReason
      else let trimmed = TrimSpace raw in
      if trimmed = [] then Inl ErrEmptyReason
      else if length (runes trimmed) > maxReasonLength then Inl ErrReasonTooLong
      else if list_ex (\<lambda>r. is_control r \<or> isBidiOverride r) (runes trimmed) then Inl ErrInvalidReason
      else Inr (Reason trimmed))"

definition Reason_IsZero :: "Reason \<Rightarrow> bool" where "Reason_IsZero r \<longleftrightarrow> reason_String r = []"

text \<open>An empty action is Go's zero decision: nothing is recorded.\<close>

record ModerationDecision =
  dec_Action :: string
  dec_Actor :: ModeratorID
  dec_Reason :: Reason
  dec_DecidedAt :: time

definition no_decision :: ModerationDecision where
  "no_decision = \<lparr>dec_Action = [], dec_Actor = ModeratorID [], dec_Reason = Reason [], dec_DecidedAt = 0\<rparr>"

definition ModerationDecision_IsZero :: "ModerationDecision \<Rightarrow> bool" where
  "ModerationDecision_IsZero d \<longleftrightarrow> dec_Action d = []"

definition Decision_TargetStatus :: "ModerationDecision \<Rightarrow> string" where
  "Decision_TargetStatus d = Action_TargetStatus (dec_Action d)"

definition ModerationDecision_Validate :: "ModerationDecision \<Rightarrow> persuasion_error + unit" where
  "ModerationDecision_Validate d =
     (if \<not> ModerationAction_IsValid (dec_Action d) then Inl ErrInvalidModerationAction
      else if ModeratorID_IsZero (dec_Actor d) then Inl ErrEmptyModeratorID
      else if Reason_IsZero (dec_Reason d) then Inl ErrEmptyReason
      else if time_IsZero (dec_DecidedAt d) then Inl ErrInvalidInstant
      else Inr ())"

record Attribution =
  attr_ID :: AttributionID
  attr_ChangeID :: ChangeID
  attr_ArgumentID :: ArgumentID
  attr_AttributorID :: AttributorID
  attr_Status :: string
  attr_CreatedAt :: time
  attr_Decision :: ModerationDecision

definition Attribution_IsValid :: "Attribution \<Rightarrow> bool" where
  "Attribution_IsValid a \<longleftrightarrow> attr_Status a = AttributionStatusValid"

definition HasDecision :: "Attribution \<Rightarrow> bool" where
  "HasDecision a \<longleftrightarrow> \<not> ModerationDecision_IsZero (attr_Decision a)"

definition Invalidate :: "Attribution \<Rightarrow> ModerationDecision \<Rightarrow> persuasion_error + Attribution" where
  "Invalidate a decision =
     (if dec_Action decision \<noteq> ModerationActionInvalidate then Inl ErrInvalidModerationAction
      else bind_r (ModerationDecision_Validate decision) (\<lambda>_.
        if \<not> Attribution_IsValid a then Inl ErrAttributionNotModeratable
        else Inr (a\<lparr>attr_Status := AttributionStatusInvalid, attr_Decision := decision\<rparr>)))"

definition Restore :: "Attribution \<Rightarrow> ModerationDecision \<Rightarrow> persuasion_error + Attribution" where
  "Restore a decision =
     (if dec_Action decision \<noteq> ModerationActionRestore then Inl ErrInvalidModerationAction
      else bind_r (ModerationDecision_Validate decision) (\<lambda>_.
        if Attribution_IsValid a then Inl ErrAttributionNotModeratable
        else Inr (a\<lparr>attr_Status := AttributionStatusValid, attr_Decision := decision\<rparr>)))"

section \<open>What the checks accept\<close>

definition eligible_candidate :: "Change \<Rightarrow> Candidate \<Rightarrow> bool" where
  "eligible_candidate change c \<longleftrightarrow>
     argument_String (cand_ID c) \<noteq> [] \<and> arena_String (cand_ArenaID c) \<noteq> [] \<and> author_String (cand_AuthorID c) \<noteq> []
   \<and> cand_CreatedAt c \<noteq> 0 \<and> cand_Status c = ''published'' \<and> cand_ArenaID c = ch_ArenaID change
   \<and> author_String (cand_AuthorID c) \<noteq> attributor_String (ch_AttributorID change) \<and> cand_CreatedAt c < ch_ChangedAt change"

lemma validate_candidates_iff:
  "validate_candidates change seen cs = Inr () \<longleftrightarrow>
     list_all (eligible_candidate change) cs \<and> distinct (map (argument_String \<circ> cand_ID) cs)
   \<and> (argument_String \<circ> cand_ID) ` set cs \<inter> seen = {}"
proof (induction cs arbitrary: seen)
  case Nil
  then show ?case by simp
next
  case (Cons c cs)
  have same: "ArenaID_Equals a b \<longleftrightarrow> a = b" for a b
    by (auto simp: ArenaID_Equals_def intro: ArenaID.expand)
  have step: "validate_candidates change seen (c # cs) = Inr () \<longleftrightarrow>
      eligible_candidate change c \<and> argument_String (cand_ID c) \<notin> seen
      \<and> validate_candidates change (insert (argument_String (cand_ID c)) seen) cs = Inr ()"
    by (simp add: eligible_candidate_def persuasion_zero_defs time_IsZero_def ArgumentStatus_IsValid_def same vocab)
  show ?case unfolding step Cons.IH by (auto simp: comp_def)
qed

lemma policy_Validate_iff:
  "EligibilityPolicy_Validate p change cs = Inr () \<longleftrightarrow>
     EligibilityPolicy_IsValid p \<and> change_String (ch_ID change) \<noteq> [] \<and> arena_String (ch_ArenaID change) \<noteq> []
   \<and> attributor_String (ch_AttributorID change) \<noteq> [] \<and> ch_ChangedAt change \<noteq> 0 \<and> int (length cs) \<le> MaxAttributions p
   \<and> list_all (eligible_candidate change) cs \<and> distinct (map (argument_String \<circ> cand_ID) cs)"
  by (auto simp: EligibilityPolicy_Validate_def validate_candidates_iff persuasion_zero_defs time_IsZero_def)

lemma decision_Validate_iff:
  "ModerationDecision_Validate d = Inr () \<longleftrightarrow> dec_Action d \<in> {''invalidate'', ''restore''}
     \<and> moderator_String (dec_Actor d) \<noteq> [] \<and> reason_String (dec_Reason d) \<noteq> [] \<and> dec_DecidedAt d \<noteq> 0"
  by (auto simp: ModerationDecision_Validate_def ModerationAction_IsValid_def ModeratorID_IsZero_def Reason_IsZero_def
      time_IsZero_def vocab)

end
