(* ===== verification/PersuasionSignals.thy ===== *)
theory PersuasionSignals
  imports PersuasionDomain "HOL-Library.Product_Lexorder"
begin

text \<open>
  \<open>internal/persuasion/domain/signals.go\<close>: the advisory signals of one subject, judged by a versioned
  policy over aggregated facts. Counts are Go's \<open>int64\<close>: sums and products wrap, a quotient truncates.
  A \<open>time.Duration\<close> is its number of nanoseconds.
\<close>

section \<open>The policy and the facts\<close>

definition SignalReciprocity :: string where [vocab]: "SignalReciprocity = ''reciprocity''"
definition SignalConcentration :: string where [vocab]: "SignalConcentration = ''concentration''"
definition SignalRapidAlternation :: string where [vocab]: "SignalRapidAlternation = ''rapid_alternation''"

definition SignalKind_IsValid :: "string \<Rightarrow> bool" where
  "SignalKind_IsValid k \<longleftrightarrow> k = SignalReciprocity \<or> k = SignalConcentration \<or> k = SignalRapidAlternation"

definition basisPointTotal :: int where "basisPointTotal = 10000"

record SignalPolicy =
  sp_Version :: string
  sp_Window :: int
  MinReciprocityEvents :: int
  MinConcentrationEvents :: int
  ConcentrationShareBasisPoints :: int
  MinAlternationChanges :: int
  MinAlternationReversals :: int

definition DefaultSignalPolicy :: SignalPolicy where
  "DefaultSignalPolicy =
     \<lparr>sp_Version = ''2026-09-attribution-signals-v1'', sp_Window = 30 * 24 * 3600000000000, MinReciprocityEvents = 2,
      MinConcentrationEvents = 4, ConcentrationShareBasisPoints = 6000, MinAlternationChanges = 4,
      MinAlternationReversals = 2\<rparr>"

definition SignalPolicy_IsValid :: "SignalPolicy \<Rightarrow> bool" where
  "SignalPolicy_IsValid p \<longleftrightarrow>
     \<not> (sp_Version p = [] \<or> sp_Window p \<le> 0) \<and> \<not> MinReciprocityEvents p < 1 \<and> \<not> MinConcentrationEvents p < 1
   \<and> \<not> (ConcentrationShareBasisPoints p < 1 \<or> ConcentrationShareBasisPoints p > basisPointTotal)
   \<and> \<not> (MinAlternationChanges p < 2 \<or> MinAlternationReversals p < 1)
   \<and> \<not> MinAlternationReversals p \<ge> MinAlternationChanges p"

record ReciprocityFact =
  rf_Counterpart :: AttributorID
  rf_Inbound :: int
  rf_Outbound :: int

record ConcentrationFact =
  cf_Attributor :: AttributorID
  cf_Events :: int

record AlternationFact =
  af_Account :: AttributorID
  af_Changes :: int
  af_Reversals :: int

record SignalFacts =
  Reciprocity :: "ReciprocityFact list"
  Concentration :: "ConcentrationFact list"
  Alternation :: "AlternationFact list"

definition SignalFacts_Validate :: "SignalFacts \<Rightarrow> persuasion_error + unit" where
  "SignalFacts_Validate f =
     (if list_ex (\<lambda>r. AttributorID_IsZero (rf_Counterpart r) \<or> rf_Inbound r < 0 \<or> rf_Outbound r < 0) (Reciprocity f)
      then Inl ErrInvalidSignalFacts
      else if list_ex (\<lambda>c. AttributorID_IsZero (cf_Attributor c) \<or> cf_Events c < 0) (Concentration f)
      then Inl ErrInvalidSignalFacts
      else if list_ex (\<lambda>a. AttributorID_IsZero (af_Account a) \<or> af_Changes a < 0 \<or> af_Reversals a < 0
                         \<or> af_Reversals a > af_Changes a) (Alternation f)
      then Inl ErrInvalidSignalFacts
      else Inr ())"

section \<open>Signals\<close>

record Signal =
  sig_Kind :: string
  sig_Counterpart :: AttributorID
  sig_Window :: int
  MutualEvents :: int
  DominantEvents :: int
  ShareBasisPoints :: int
  sig_Changes :: int
  sig_Reversals :: int

definition Signal_Validate :: "Signal \<Rightarrow> persuasion_error + unit" where
  "Signal_Validate s =
     (if \<not> SignalKind_IsValid (sig_Kind s) \<or> AttributorID_IsZero (sig_Counterpart s) \<or> sig_Window s \<le> 0 then Inl ErrInvalidSignal
      else if sig_Kind s = SignalReciprocity \<and> (MutualEvents s < 1 \<or> DominantEvents s \<noteq> 0 \<or> ShareBasisPoints s \<noteq> 0
        \<or> sig_Changes s \<noteq> 0 \<or> sig_Reversals s \<noteq> 0) then Inl ErrInvalidSignal
      else if sig_Kind s = SignalConcentration \<and> (DominantEvents s < 1 \<or> ShareBasisPoints s < 1
        \<or> ShareBasisPoints s > basisPointTotal \<or> MutualEvents s \<noteq> 0 \<or> sig_Changes s \<noteq> 0 \<or> sig_Reversals s \<noteq> 0)
        then Inl ErrInvalidSignal
      else if sig_Kind s = SignalRapidAlternation \<and> (sig_Changes s < 1 \<or> sig_Reversals s < 1 \<or> sig_Reversals s > sig_Changes s
        \<or> MutualEvents s \<noteq> 0 \<or> DominantEvents s \<noteq> 0 \<or> ShareBasisPoints s \<noteq> 0) then Inl ErrInvalidSignal
      else Inr ())"

record SignalAssessment =
  as_Subject :: AuthorID
  as_Signals :: "Signal list"
  as_PolicyVersion :: string
  as_Window :: int
  as_AssessedAt :: time

definition Has :: "SignalAssessment \<Rightarrow> string \<Rightarrow> bool" where
  "Has a kind \<longleftrightarrow> list_ex (\<lambda>s. sig_Kind s = kind) (as_Signals a)"

definition signal_key :: "Signal \<Rightarrow> string" where
  "signal_key s = sig_Kind s @ '':'' @ attributor_String (sig_Counterpart s)"

fun validate_signals :: "int \<Rightarrow> string set \<Rightarrow> Signal list \<Rightarrow> persuasion_error + unit" where
  "validate_signals window seen [] = Inr ()"
| "validate_signals window seen (s # rest) =
     bind_r (Signal_Validate s) (\<lambda>_.
       if sig_Window s \<noteq> window then Inl ErrInvalidSignalAssessment
       else if signal_key s \<in> seen then Inl ErrInvalidSignalAssessment
       else validate_signals window (insert (signal_key s) seen) rest)"

definition SignalAssessment_Validate :: "SignalAssessment \<Rightarrow> persuasion_error + unit" where
  "SignalAssessment_Validate a =
     (if AuthorID_IsZero (as_Subject a) \<or> time_IsZero (as_AssessedAt a) \<or> as_PolicyVersion a = [] \<or> as_Window a \<le> 0
      then Inl ErrInvalidSignalAssessment
      else validate_signals (as_Window a) {} (as_Signals a))"

section \<open>The assessment\<close>

definition reciprocity_signals :: "SignalPolicy \<Rightarrow> ReciprocityFact list \<Rightarrow> Signal list" where
  "reciprocity_signals p facts =
     map (\<lambda>f. \<lparr>sig_Kind = SignalReciprocity, sig_Counterpart = rf_Counterpart f, sig_Window = sp_Window p,
               MutualEvents = wrap64 (rf_Inbound f + rf_Outbound f), DominantEvents = 0, ShareBasisPoints = 0,
               sig_Changes = 0, sig_Reversals = 0\<rparr>)
       (filter (\<lambda>f. \<not> (rf_Inbound f < MinReciprocityEvents p \<or> rf_Outbound f < MinReciprocityEvents p)) facts)"

definition concentration_total :: "ConcentrationFact list \<Rightarrow> int" where
  "concentration_total facts = foldl (\<lambda>n f. wrap64 (n + cf_Events f)) 0 facts"

definition concentration_share :: "int \<Rightarrow> ConcentrationFact \<Rightarrow> int" where
  "concentration_share whole f = go_quot (wrap64 (cf_Events f * basisPointTotal)) whole"

definition concentration_signals :: "SignalPolicy \<Rightarrow> ConcentrationFact list \<Rightarrow> Signal list" where
  "concentration_signals p facts =
     (let whole = concentration_total facts in
      map (\<lambda>f. \<lparr>sig_Kind = SignalConcentration, sig_Counterpart = cf_Attributor f, sig_Window = sp_Window p,
                MutualEvents = 0, DominantEvents = cf_Events f, ShareBasisPoints = concentration_share whole f,
                sig_Changes = 0, sig_Reversals = 0\<rparr>)
        (filter (\<lambda>f. \<not> (cf_Events f < MinConcentrationEvents p \<or> whole = 0)
                   \<and> \<not> concentration_share whole f < ConcentrationShareBasisPoints p) facts))"

definition alternation_signals :: "SignalPolicy \<Rightarrow> AlternationFact list \<Rightarrow> Signal list" where
  "alternation_signals p facts =
     map (\<lambda>f. \<lparr>sig_Kind = SignalRapidAlternation, sig_Counterpart = af_Account f, sig_Window = sp_Window p,
               MutualEvents = 0, DominantEvents = 0, ShareBasisPoints = 0,
               sig_Changes = af_Changes f, sig_Reversals = af_Reversals f\<rparr>)
       (filter (\<lambda>f. \<not> (af_Changes f < MinAlternationChanges p \<or> af_Reversals f < MinAlternationReversals p)) facts)"

definition Assess :: "SignalPolicy \<Rightarrow> AuthorID \<Rightarrow> SignalFacts \<Rightarrow> persuasion_error + Signal list" where
  "Assess p subject facts =
     (if \<not> SignalPolicy_IsValid p then Inl ErrInvalidSignalPolicy
      else if AuthorID_IsZero subject then Inl ErrEmptyAuthorID
      else bind_r (SignalFacts_Validate facts) (\<lambda>_.
        Inr (sort_key (\<lambda>s. (sig_Kind s, attributor_String (sig_Counterpart s)))
          (reciprocity_signals p (Reciprocity facts) @ concentration_signals p (Concentration facts)
           @ alternation_signals p (Alternation facts)))))"

end
