(* ===== verification/PersuasionStore.thy ===== *)
theory PersuasionStore
  imports PersuasionSignals
begin

text \<open>
  The table \<open>app.persuasion_attributions\<close> (migrations 00018 and 00019, with their checks, keys and
  triggers), the statements of \<open>internal/platform/postgres/persuasion.sql.go\<close>, and the two statements of the
  moderation module that move the attributions of an argument. The statements also read the tables of the
  positions, arguments and arenas modules.
\<close>

section \<open>The table\<close>

record AppPersuasionAttribution =
  at_ID :: uuid
  at_ChangeID :: uuid
  at_AttributorID :: uuid
  at_ArgumentID :: uuid
  at_Status :: string
  at_CreatedAt :: time
  at_InvalidatedAt :: "time option"
  at_ModerationReason :: "string option"
  at_ModeratedBy :: "uuid option"
  at_ModeratedAt :: "time option"

text \<open>
  \<open>at_now\<close> is \<open>now()\<close> of the transaction, \<open>at_uuid_gen\<close> and \<open>at_uuid_next\<close> the values of \<open>uuidv7()\<close>;
  \<open>email_verified\<close> tells the accounts whose \<open>email_verified_at\<close> is set.
\<close>

record persuasion_db =
  attribution_rows :: "AppPersuasionAttribution list"
  at_uuid_gen :: "nat \<Rightarrow> uuid"
  at_uuid_next :: nat
  at_now :: time
  email_verified :: "uuid \<Rightarrow> bool"

definition attribution_checks :: "AppPersuasionAttribution \<Rightarrow> bool" where
  "attribution_checks r \<longleftrightarrow>
     at_Status r \<in> {''valid'', ''invalid''}
   \<and> (at_Status r = ''invalid'') = (at_InvalidatedAt r \<noteq> None)
   \<and> (at_ModerationReason r = None) = (at_ModeratedBy r = None)
   \<and> (at_ModerationReason r = None) = (at_ModeratedAt r = None)
   \<and> (case at_ModerationReason r of None \<Rightarrow> True | Some s \<Rightarrow> \<not> sql_blank s \<and> length (runes s) \<le> 500)
   \<and> (at_ModerationReason r \<noteq> None \<or> at_Status r = ''valid'')
   \<and> (at_Status r \<noteq> ''invalid'' \<or> at_ModeratedAt r = at_InvalidatedAt r)"

text \<open>The triggers on an update: links and provenance are immutable, the record of a decision is kept.\<close>

definition protect_links :: "AppPersuasionAttribution \<Rightarrow> AppPersuasionAttribution \<Rightarrow> bool" where
  "protect_links old new \<longleftrightarrow>
     at_ChangeID new = at_ChangeID old \<and> at_AttributorID new = at_AttributorID old
   \<and> at_ArgumentID new = at_ArgumentID old \<and> at_CreatedAt new = at_CreatedAt old"

definition protect_decision :: "AppPersuasionAttribution \<Rightarrow> AppPersuasionAttribution \<Rightarrow> bool" where
  "protect_decision old new \<longleftrightarrow> \<not> (at_ModerationReason old \<noteq> None \<and> at_ModerationReason new = None)"

section \<open>Recording\<close>

definition sql_GetPositionChangeForAttributor :: "uuid \<Rightarrow> uuid \<Rightarrow> positions_db \<Rightarrow> pg_error + AppPositionChange" where
  "sql_GetPositionChangeForAttributor change attributor pos =
     (case find (\<lambda>c. pc_ID c = change \<and> AppPositionChange.pc_AccountID c = attributor) (position_changes pos) of
        None \<Rightarrow> Inl NoRows | Some c \<Rightarrow> Inr c)"

definition change_attributions :: "uuid \<Rightarrow> persuasion_db \<Rightarrow> AppPersuasionAttribution list" where
  "change_attributions change db = filter (\<lambda>r. at_ChangeID r = change) (attribution_rows db)"

definition sql_ListAttributionArgumentIDs :: "uuid \<Rightarrow> persuasion_db \<Rightarrow> uuid list" where
  "sql_ListAttributionArgumentIDs change db =
     map at_ArgumentID (sort_key (\<lambda>r. Keyset (at_CreatedAt r) (at_ArgumentID r)) (change_attributions change db))"

definition sql_ListAttributionCandidates :: "uuid list \<Rightarrow> arguments_db \<Rightarrow> AppArgument list" where
  "sql_ListAttributionCandidates ids args = filter (\<lambda>r. ag_ID r \<in> set ids) (argument_rows args)"

text \<open>\<open>ON CONFLICT (position_change_id, argument_id) DO NOTHING\<close>: a recorded pair returns no row.\<close>

definition sql_CreateAttribution ::
  "uuid \<Rightarrow> uuid \<Rightarrow> uuid \<Rightarrow> positions_db \<Rightarrow> arguments_db \<Rightarrow> persuasion_db \<Rightarrow> pg_error + uuid \<times> persuasion_db" where
  "sql_CreateAttribution change attributor argument pos args db =
     (let row = \<lparr>at_ID = at_uuid_gen db (at_uuid_next db), at_ChangeID = change, at_AttributorID = attributor,
           at_ArgumentID = argument, at_Status = ''valid'', at_CreatedAt = timestamptz (at_now db),
           at_InvalidatedAt = None, at_ModerationReason = None, at_ModeratedBy = None, at_ModeratedAt = None\<rparr> in
      if \<exists>r \<in> set (attribution_rows db). at_ChangeID r = change \<and> at_ArgumentID r = argument then Inl NoRows
      else if at_ID row \<in> at_ID ` set (attribution_rows db) then Inl UniqueViolation
      else if (change, attributor) \<notin> (\<lambda>c. (pc_ID c, AppPositionChange.pc_AccountID c)) ` set (position_changes pos)
        then Inl ForeignKeyViolation
      else if argument \<notin> ag_ID ` set (argument_rows args) then Inl ForeignKeyViolation
      else Inr (at_ID row, db\<lparr>attribution_rows := attribution_rows db @ [row], at_uuid_next := Suc (at_uuid_next db)\<rparr>))"

section \<open>Moderation\<close>

text \<open>
  \<open>UPDATE app.persuasion_attributions SET ... WHERE hit RETURNING ...\<close>: the updated rows. A new
  moderator must be an account.
\<close>

definition update_attributions ::
  "(AppPersuasionAttribution \<Rightarrow> bool) \<Rightarrow> (AppPersuasionAttribution \<Rightarrow> AppPersuasionAttribution) \<Rightarrow> positions_db
     \<Rightarrow> persuasion_db \<Rightarrow> pg_error + AppPersuasionAttribution list \<times> persuasion_db" where
  "update_attributions hit change pos db =
     (let old = filter hit (attribution_rows db) in
      if \<exists>r \<in> set old. \<not> protect_links r (change r) \<or> \<not> protect_decision r (change r) \<or> \<not> attribution_checks (change r)
        then Inl CheckViolation
      else if \<exists>r \<in> set old. case at_ModeratedBy (change r) of None \<Rightarrow> False | Some m \<Rightarrow> account_status pos m = None
        then Inl ForeignKeyViolation
      else Inr (map change old,
        db\<lparr>attribution_rows := map (\<lambda>r. if hit r then change r else r) (attribution_rows db)\<rparr>))"

text \<open>A \<open>:one\<close> query of an update that names the primary key.\<close>

definition updated_one ::
  "pg_error + AppPersuasionAttribution list \<times> persuasion_db \<Rightarrow> pg_error + AppPersuasionAttribution \<times> persuasion_db" where
  "updated_one res = bind_r res (\<lambda>(rows, db). case rows of [] \<Rightarrow> Inl NoRows | row # _ \<Rightarrow> Inr (row, db))"

definition sql_GetAttributionForModeration :: "uuid \<Rightarrow> persuasion_db \<Rightarrow> pg_error + AppPersuasionAttribution" where
  "sql_GetAttributionForModeration i db =
     (case find (\<lambda>r. at_ID r = i) (attribution_rows db) of None \<Rightarrow> Inl NoRows | Some r \<Rightarrow> Inr r)"

definition sql_InvalidateAttribution ::
  "time \<Rightarrow> string \<Rightarrow> uuid \<Rightarrow> uuid \<Rightarrow> positions_db \<Rightarrow> persuasion_db \<Rightarrow> pg_error + AppPersuasionAttribution \<times> persuasion_db" where
  "sql_InvalidateAttribution at reason moderator i pos db =
     (if \<not> pg_text reason then Inl InvalidText
      else updated_one (update_attributions (\<lambda>r. at_ID r = i \<and> at_Status r = ''valid'')
        (\<lambda>r. r\<lparr>at_Status := ''invalid'', at_InvalidatedAt := Some (timestamptz at), at_ModerationReason := Some reason,
               at_ModeratedBy := Some moderator, at_ModeratedAt := Some (timestamptz at)\<rparr>) pos db))"

definition sql_RestoreAttribution ::
  "string \<Rightarrow> uuid \<Rightarrow> time \<Rightarrow> uuid \<Rightarrow> positions_db \<Rightarrow> persuasion_db \<Rightarrow> pg_error + AppPersuasionAttribution \<times> persuasion_db" where
  "sql_RestoreAttribution reason moderator at i pos db =
     (if \<not> pg_text reason then Inl InvalidText
      else updated_one (update_attributions (\<lambda>r. at_ID r = i \<and> at_Status r = ''invalid'')
        (\<lambda>r. r\<lparr>at_Status := ''valid'', at_InvalidatedAt := None, at_ModerationReason := Some reason,
               at_ModeratedBy := Some moderator, at_ModeratedAt := Some (timestamptz at)\<rparr>) pos db))"

text \<open>
  The moderation module, when it removes an argument and when an appeal reverses the removal. The number of
  rows is the outcome; the reason and the moderator are nullable parameters.
\<close>

definition sql_InvalidateArgumentAttributions ::
  "uuid \<Rightarrow> string option \<Rightarrow> uuid option \<Rightarrow> positions_db \<Rightarrow> persuasion_db \<Rightarrow> pg_error + int \<times> persuasion_db" where
  "sql_InvalidateArgumentAttributions argument reason moderator pos db =
     bind_r (update_attributions (\<lambda>r. at_ArgumentID r = argument \<and> at_Status r = ''valid'')
        (\<lambda>r. r\<lparr>at_Status := ''invalid'', at_InvalidatedAt := Some (timestamptz (at_now db)), at_ModerationReason := reason,
               at_ModeratedBy := moderator, at_ModeratedAt := Some (timestamptz (at_now db))\<rparr>) pos db)
       (\<lambda>(rows, db'). Inr (int (length rows), db'))"

definition sql_RestoreArgumentAttributions ::
  "uuid \<Rightarrow> string option \<Rightarrow> uuid option \<Rightarrow> positions_db \<Rightarrow> persuasion_db \<Rightarrow> pg_error + int \<times> persuasion_db" where
  "sql_RestoreArgumentAttributions argument reason moderator pos db =
     bind_r (update_attributions (\<lambda>r. at_ArgumentID r = argument \<and> at_Status r = ''invalid'')
        (\<lambda>r. r\<lparr>at_Status := ''valid'', at_ModerationReason := reason, at_ModeratedBy := moderator,
               at_ModeratedAt := Some (timestamptz (at_now db))\<rparr>) pos db)
       (\<lambda>(rows, db'). Inr (int (length rows), db'))"

section \<open>Metrics\<close>

definition eligible_attributor :: "positions_db \<Rightarrow> persuasion_db \<Rightarrow> uuid \<Rightarrow> bool" where
  "eligible_attributor pos db u \<longleftrightarrow> account_status pos u = Some ''active'' \<and> email_verified db u"

text \<open>The rows that count: valid attributions of eligible accounts.\<close>

definition counted_attributions :: "positions_db \<Rightarrow> persuasion_db \<Rightarrow> AppPersuasionAttribution list" where
  "counted_attributions pos db =
     filter (\<lambda>r. at_Status r = ''valid'' \<and> eligible_attributor pos db (at_AttributorID r)) (attribution_rows db)"

definition distinct_count :: "'a list \<Rightarrow> int" where
  "distinct_count xs = int (length (remdups xs))"

definition sql_GetArgumentAttributionMetrics ::
  "uuid \<Rightarrow> positions_db \<Rightarrow> arguments_db \<Rightarrow> persuasion_db \<Rightarrow> pg_error + int \<times> int" where
  "sql_GetArgumentAttributionMetrics argument pos args db =
     (if argument \<notin> ag_ID ` set (argument_rows args) then Inl NoRows
      else let rows = filter (\<lambda>r. at_ArgumentID r = argument) (counted_attributions pos db) in
        Inr (int (length rows), distinct_count (map at_AttributorID rows)))"

record ListAuthorArenaReputationRow =
  rr_ArenaID :: uuid
  rr_Category :: string
  rr_Language :: string
  rr_DistinctPeople :: int
  rr_ValidAttributions :: int

text \<open>The inner joins: an attribution with its argument and the argument's Arena, as (Arena, attributor).\<close>

definition author_credits ::
  "uuid \<Rightarrow> positions_db \<Rightarrow> arguments_db \<Rightarrow> arenas_db \<Rightarrow> persuasion_db \<Rightarrow> (AppArena \<times> uuid) list" where
  "author_credits author pos args arenas db =
     concat (map (\<lambda>r. case find (\<lambda>a. ag_ID a = at_ArgumentID r \<and> ag_AuthorID a = author) (argument_rows args) of
         None \<Rightarrow> []
       | Some a \<Rightarrow> (case find (\<lambda>x. ar_ID x = ag_ArenaID a) (arena_rows arenas) of
           None \<Rightarrow> [] | Some x \<Rightarrow> [(x, at_AttributorID r)]))
       (counted_attributions pos db))"

definition sql_ListAuthorArenaReputation ::
  "uuid \<Rightarrow> positions_db \<Rightarrow> arguments_db \<Rightarrow> arenas_db \<Rightarrow> persuasion_db \<Rightarrow> ListAuthorArenaReputationRow list" where
  "sql_ListAuthorArenaReputation author pos args arenas db =
     (let credits = author_credits author pos args arenas db in
      map (\<lambda>i. let group = filter (\<lambda>c. ar_ID (fst c) = i) credits in
          \<lparr>rr_ArenaID = i, rr_Category = ar_Category (fst (hd group)), rr_Language = ar_Language (fst (hd group)),
           rr_DistinctPeople = distinct_count (map snd group), rr_ValidAttributions = int (length group)\<rparr>)
        (sort (remdups (map (ar_ID \<circ> fst) credits))))"

section \<open>Observations for the signals\<close>

definition argument_author :: "arguments_db \<Rightarrow> uuid \<Rightarrow> uuid option" where
  "argument_author args i = map_option ag_AuthorID (find (\<lambda>a. ag_ID a = i) (argument_rows args))"

text \<open>The valid attributions created in the window [\<open>from_t\<close>, \<open>to_t\<close>).\<close>

definition window_attributions :: "time \<Rightarrow> time \<Rightarrow> persuasion_db \<Rightarrow> AppPersuasionAttribution list" where
  "window_attributions from_t to_t db =
     filter (\<lambda>r. at_Status r = ''valid'' \<and> from_t \<le> at_CreatedAt r \<and> at_CreatedAt r < to_t) (attribution_rows db)"

definition subject_attributions :: "uuid \<Rightarrow> time \<Rightarrow> time \<Rightarrow> arguments_db \<Rightarrow> persuasion_db \<Rightarrow> AppPersuasionAttribution list" where
  "subject_attributions subject from_t to_t args db =
     filter (\<lambda>r. argument_author args (at_ArgumentID r) = Some subject) (window_attributions from_t to_t db)"

definition sql_ListAttributionConcentration ::
  "uuid \<Rightarrow> time \<Rightarrow> time \<Rightarrow> arguments_db \<Rightarrow> persuasion_db \<Rightarrow> (uuid \<times> int) list" where
  "sql_ListAttributionConcentration subject from_t to_t args db =
     (let rows = subject_attributions subject from_t to_t args db;
          events = (\<lambda>u. count_where (\<lambda>r. at_AttributorID r = u) rows) in
      map (\<lambda>u. (u, events u)) (sort_key (\<lambda>u. (- events u, u)) (remdups (map at_AttributorID rows))))"

definition sql_ListAttributionReciprocity ::
  "uuid \<Rightarrow> time \<Rightarrow> time \<Rightarrow> arguments_db \<Rightarrow> persuasion_db \<Rightarrow> (uuid \<times> int \<times> int) list" where
  "sql_ListAttributionReciprocity subject from_t to_t args db =
     (let inbound = subject_attributions subject from_t to_t args db;
          outbound = filter (\<lambda>r. at_AttributorID r = subject) (window_attributions from_t to_t db);
          given = (\<lambda>u. count_where (\<lambda>r. argument_author args (at_ArgumentID r) = Some u) outbound) in
      map (\<lambda>u. (u, count_where (\<lambda>r. at_AttributorID r = u) inbound, given u))
        (sort (filter (\<lambda>u. 0 < given u) (remdups (map at_AttributorID inbound)))))"

text \<open>
  The window function: the changes of one account in the order of \<open>(changed_at, id)\<close>, over all Arenas; a
  reversal goes back to the target of the change before the previous one.
\<close>

definition account_chain :: "uuid \<Rightarrow> positions_db \<Rightarrow> AppPositionChange list" where
  "account_chain u pos =
     sort_key (\<lambda>c. Keyset (pc_ChangedAt c) (pc_ID c)) (filter (\<lambda>c. AppPositionChange.pc_AccountID c = u) (position_changes pos))"

definition in_window :: "time \<Rightarrow> time \<Rightarrow> AppPositionChange \<Rightarrow> bool" where
  "in_window from_t to_t c \<longleftrightarrow> from_t \<le> pc_ChangedAt c \<and> pc_ChangedAt c < to_t"

definition chain_reversals :: "time \<Rightarrow> time \<Rightarrow> AppPositionChange list \<Rightarrow> int" where
  "chain_reversals from_t to_t rows =
     int (length (filter (\<lambda>i. in_window from_t to_t (rows ! i) \<and> pc_ToPosition (rows ! i) = pc_ToPosition (rows ! (i - 2)))
       [2..<length rows]))"

definition sql_ListAttributionAlternation ::
  "time \<Rightarrow> time \<Rightarrow> uuid \<Rightarrow> positions_db \<Rightarrow> arguments_db \<Rightarrow> persuasion_db \<Rightarrow> (uuid \<times> int \<times> int) list" where
  "sql_ListAttributionAlternation from_t to_t subject pos args db =
     (let credited = remdups (map at_AttributorID (subject_attributions subject from_t to_t args db)) in
      map (\<lambda>u. (u, count_where (in_window from_t to_t) (account_chain u pos), chain_reversals from_t to_t (account_chain u pos)))
        (sort (filter (\<lambda>u. account_chain u pos \<noteq> []) credited)))"

end
