(* ===== verification/PersuasionRepository.thy ===== *)
theory PersuasionRepository
  imports PersuasionStore
begin

text \<open>
  \<open>internal/persuasion/adapters/postgres\<close>: parameters become UUIDs, rows become domain values, and the
  absence of a row becomes the error of its operation. \<open>scan\<close> stands for \<open>pgtype.UUID.Scan\<close>.
\<close>

section \<open>Errors\<close>

datatype persuasion_app_error =
    ErrChangeNotFound | ErrArgumentNotFound | ErrAttributionNotFound | ErrNotAuthorized | ErrModerationConflict
  | ErrInvalidReputationProjection | ErrInvalidAuthorID | ErrProfileNotFound | ErrMissingCanonicalUsername
  | ErrStoredInvalid | ErrModeratorNotUuid | ErrAuditFailed | PersuasionDomain persuasion_error | PersuasionPg pg_error

definition stored :: "persuasion_error + 'a \<Rightarrow> persuasion_app_error + 'a" where
  "stored r = wrap_err (\<lambda>_. ErrStoredInvalid) r"

definition uuidParam :: "(string \<Rightarrow> uuid option) \<Rightarrow> string \<Rightarrow> persuasion_app_error \<Rightarrow> persuasion_app_error + uuid" where
  "uuidParam scan raw e = (case scan raw of None \<Rightarrow> Inl e | Some u \<Rightarrow> Inr u)"

section \<open>Recording\<close>

definition repo_LockChangeForAttributor ::
  "(string \<Rightarrow> uuid option) \<Rightarrow> ChangeID \<Rightarrow> AttributorID \<Rightarrow> positions_db \<Rightarrow> persuasion_app_error + Change" where
  "repo_LockChangeForAttributor scan change attributor pos =
     bind_r (uuidParam scan (change_String change) ErrChangeNotFound) (\<lambda>c.
     bind_r (uuidParam scan (attributor_String attributor) ErrChangeNotFound) (\<lambda>u.
       case sql_GetPositionChangeForAttributor c u pos of
         Inl NoRows \<Rightarrow> Inl ErrChangeNotFound
       | Inl e \<Rightarrow> Inl (PersuasionPg e)
       | Inr row \<Rightarrow>
           bind_r (stored (ParseArenaID (uuidToString (Some (AppPositionChange.pc_ArenaID row))))) (\<lambda>arena.
           bind_r (stored (ParseAttributorID (uuidToString (Some (AppPositionChange.pc_AccountID row))))) (\<lambda>account.
             Inr \<lparr>ch_ID = change, ch_ArenaID = arena, ch_AttributorID = account, ch_ChangedAt = pc_ChangedAt row\<rparr>))))"

fun parse_stored_arguments :: "uuid list \<Rightarrow> persuasion_app_error + ArgumentID list" where
  "parse_stored_arguments [] = Inr []"
| "parse_stored_arguments (u # us) =
     bind_r (stored (ParseArgumentID (uuidToString (Some u)))) (\<lambda>i.
     bind_r (parse_stored_arguments us) (\<lambda>rest. Inr (i # rest)))"

definition repo_ListAttributedArgumentIDs ::
  "(string \<Rightarrow> uuid option) \<Rightarrow> ChangeID \<Rightarrow> persuasion_db \<Rightarrow> persuasion_app_error + ArgumentID list" where
  "repo_ListAttributedArgumentIDs scan change db =
     bind_r (uuidParam scan (change_String change) ErrChangeNotFound) (\<lambda>c.
       parse_stored_arguments (sql_ListAttributionArgumentIDs c db))"

fun scan_arguments :: "(string \<Rightarrow> uuid option) \<Rightarrow> ArgumentID list \<Rightarrow> persuasion_app_error + uuid list" where
  "scan_arguments scan [] = Inr []"
| "scan_arguments scan (i # rest) =
     bind_r (uuidParam scan (argument_String i) ErrArgumentNotFound) (\<lambda>u.
     bind_r (scan_arguments scan rest) (\<lambda>us. Inr (u # us)))"

definition map_candidate :: "AppArgument \<Rightarrow> persuasion_app_error + Candidate" where
  "map_candidate row =
     bind_r (stored (ParseArgumentID (uuidToString (Some (ag_ID row))))) (\<lambda>i.
     bind_r (stored (ParseArenaID (uuidToString (Some (ag_ArenaID row))))) (\<lambda>arena.
     bind_r (stored (ParseAuthorID (uuidToString (Some (ag_AuthorID row))))) (\<lambda>author.
       if \<not> ArgumentStatus_IsValid (ag_Status row) then Inl ErrStoredInvalid
       else Inr \<lparr>cand_ID = i, cand_ArenaID = arena, cand_AuthorID = author, cand_CreatedAt = ag_CreatedAt row,
                 cand_Status = ag_Status row\<rparr>)))"

fun map_candidates :: "AppArgument list \<Rightarrow> persuasion_app_error + Candidate list" where
  "map_candidates [] = Inr []"
| "map_candidates (row # rows) =
     bind_r (map_candidate row) (\<lambda>c. bind_r (map_candidates rows) (\<lambda>cs. Inr (c # cs)))"

definition repo_ListCandidates ::
  "(string \<Rightarrow> uuid option) \<Rightarrow> ArgumentID list \<Rightarrow> arguments_db \<Rightarrow> persuasion_app_error + Candidate list" where
  "repo_ListCandidates scan ids args =
     (if ids = [] then Inr []
      else bind_r (scan_arguments scan ids) (\<lambda>params.
        let rows = sql_ListAttributionCandidates params args in
        if length rows \<noteq> length ids then Inl ErrArgumentNotFound else map_candidates rows))"

text \<open>The loop over the accepted candidates: a recorded pair is skipped.\<close>

fun create_loop ::
  "(string \<Rightarrow> uuid option) \<Rightarrow> uuid \<Rightarrow> uuid \<Rightarrow> Candidate list \<Rightarrow> positions_db \<Rightarrow> arguments_db \<Rightarrow> persuasion_db
     \<Rightarrow> (persuasion_app_error + unit) \<times> persuasion_db" where
  "create_loop scan change attributor [] pos args db = (Inr (), db)"
| "create_loop scan change attributor (c # cs) pos args db =
     (case uuidParam scan (argument_String (cand_ID c)) ErrArgumentNotFound of
        Inl e \<Rightarrow> (Inl e, db)
      | Inr argument \<Rightarrow>
          (case sql_CreateAttribution change attributor argument pos args db of
             Inl NoRows \<Rightarrow> create_loop scan change attributor cs pos args db
           | Inl e \<Rightarrow> (Inl (PersuasionPg e), db)
           | Inr (_, db') \<Rightarrow> create_loop scan change attributor cs pos args db'))"

definition repo_CreateAttributions ::
  "(string \<Rightarrow> uuid option) \<Rightarrow> ChangeID \<Rightarrow> AttributorID \<Rightarrow> Candidate list \<Rightarrow> positions_db \<Rightarrow> arguments_db \<Rightarrow> persuasion_db
     \<Rightarrow> (persuasion_app_error + unit) \<times> persuasion_db" where
  "repo_CreateAttributions scan change attributor candidates pos args db =
     (case uuidParam scan (change_String change) ErrChangeNotFound of
        Inl e \<Rightarrow> (Inl e, db)
      | Inr c \<Rightarrow>
          (case uuidParam scan (attributor_String attributor) ErrChangeNotFound of
             Inl e \<Rightarrow> (Inl e, db)
           | Inr u \<Rightarrow> create_loop scan c u candidates pos args db))"

section \<open>Moderation\<close>

definition moderationAttribution :: "AppPersuasionAttribution \<Rightarrow> persuasion_app_error + Attribution" where
  "moderationAttribution row =
     bind_r (stored (ParseAttributionID (uuidToString (Some (at_ID row))))) (\<lambda>i.
     bind_r (stored (ParseChangeID (uuidToString (Some (at_ChangeID row))))) (\<lambda>change.
     bind_r (stored (ParseAttributorID (uuidToString (Some (at_AttributorID row))))) (\<lambda>attributor.
     bind_r (stored (ParseArgumentID (uuidToString (Some (at_ArgumentID row))))) (\<lambda>argument.
     bind_r (stored (ParseAttributionStatus (at_Status row))) (\<lambda>validity.
       let attribution = \<lparr>attr_ID = i, attr_ChangeID = change, attr_ArgumentID = argument, attr_AttributorID = attributor,
             attr_Status = validity, attr_CreatedAt = at_CreatedAt row, attr_Decision = no_decision\<rparr> in
       if (at_ModerationReason row \<noteq> None) \<noteq> (at_ModeratedBy row \<noteq> None) then Inl ErrStoredInvalid
       else case at_ModerationReason row of
         None \<Rightarrow> Inr attribution
       | Some reason \<Rightarrow>
           bind_r (stored (ParseReason reason)) (\<lambda>decisionReason.
           bind_r (stored (ParseModeratorID (uuidToString (at_ModeratedBy row)))) (\<lambda>actor.
             Inr (attribution\<lparr>attr_Decision :=
               \<lparr>dec_Action = (if validity = AttributionStatusValid then ModerationActionRestore else ModerationActionInvalidate),
                dec_Actor = actor, dec_Reason = decisionReason,
                dec_DecidedAt = (case at_ModeratedAt row of None \<Rightarrow> 0 | Some t \<Rightarrow> t)\<rparr>\<rparr>))))))))"

definition repo_LockAttributionForModeration ::
  "(string \<Rightarrow> uuid option) \<Rightarrow> AttributionID \<Rightarrow> persuasion_db \<Rightarrow> persuasion_app_error + Attribution" where
  "repo_LockAttributionForModeration scan i db =
     bind_r (uuidParam scan (attribution_String i) ErrAttributionNotFound) (\<lambda>u.
       case sql_GetAttributionForModeration u db of
         Inl NoRows \<Rightarrow> Inl ErrAttributionNotFound
       | Inl e \<Rightarrow> Inl (PersuasionPg e)
       | Inr row \<Rightarrow> moderationAttribution row)"

text \<open>What an applied statement returns; the row it moved stays moved even when it cannot be mapped.\<close>

definition applied_row ::
  "pg_error + AppPersuasionAttribution \<times> persuasion_db \<Rightarrow> persuasion_db \<Rightarrow> (persuasion_app_error + Attribution) \<times> persuasion_db" where
  "applied_row res db =
     (case res of
        Inl NoRows \<Rightarrow> (Inl ErrModerationConflict, db)
      | Inl e \<Rightarrow> (Inl (PersuasionPg e), db)
      | Inr (row, db') \<Rightarrow> (moderationAttribution row, db'))"

definition repo_ApplyModerationDecision ::
  "(string \<Rightarrow> uuid option) \<Rightarrow> AttributionID \<Rightarrow> ModerationDecision \<Rightarrow> positions_db \<Rightarrow> persuasion_db
     \<Rightarrow> (persuasion_app_error + Attribution) \<times> persuasion_db" where
  "repo_ApplyModerationDecision scan i decision pos db =
     (case uuidParam scan (attribution_String i) ErrAttributionNotFound of
        Inl e \<Rightarrow> (Inl e, db)
      | Inr u \<Rightarrow>
          (case uuidParam scan (moderator_String (dec_Actor decision)) ErrModeratorNotUuid of
             Inl e \<Rightarrow> (Inl e, db)
           | Inr m \<Rightarrow>
               if dec_Action decision = ModerationActionInvalidate then
                 applied_row (sql_InvalidateAttribution (dec_DecidedAt decision) (reason_String (dec_Reason decision)) m u pos db) db
               else if dec_Action decision = ModerationActionRestore then
                 applied_row (sql_RestoreAttribution (reason_String (dec_Reason decision)) m (dec_DecidedAt decision) u pos db) db
               else (Inl (PersuasionDomain ErrInvalidModerationAction), db)))"

section \<open>Metrics\<close>

record ArenaReputation =
  arep_ArenaID :: ArenaID
  arep_Category :: string
  arep_Language :: string
  arep_DistinctPeople :: int
  arep_ValidAttributions :: int

fun map_reputation_rows :: "ListAuthorArenaReputationRow list \<Rightarrow> persuasion_app_error + ArenaReputation list" where
  "map_reputation_rows [] = Inr []"
| "map_reputation_rows (row # rows) =
     bind_r (stored (ParseArenaID (uuidToString (Some (rr_ArenaID row))))) (\<lambda>arena.
     bind_r (map_reputation_rows rows) (\<lambda>rest.
       Inr (\<lparr>arep_ArenaID = arena, arep_Category = rr_Category row, arep_Language = rr_Language row,
             arep_DistinctPeople = rr_DistinctPeople row, arep_ValidAttributions = rr_ValidAttributions row\<rparr> # rest)))"

definition repo_ListAuthorArenaReputation ::
  "(string \<Rightarrow> uuid option) \<Rightarrow> AuthorID \<Rightarrow> positions_db \<Rightarrow> arguments_db \<Rightarrow> arenas_db \<Rightarrow> persuasion_db
     \<Rightarrow> persuasion_app_error + ArenaReputation list" where
  "repo_ListAuthorArenaReputation scan author pos args arenas db =
     bind_r (uuidParam scan (author_String author) ErrInvalidAuthorID) (\<lambda>u.
       map_reputation_rows (sql_ListAuthorArenaReputation u pos args arenas db))"

record ArgumentMetrics =
  am_ArgumentID :: ArgumentID
  am_DistinctPeople :: int
  am_ValidAttributions :: int
  am_CheckedAt :: time

definition repo_GetArgumentMetrics ::
  "(string \<Rightarrow> uuid option) \<Rightarrow> ArgumentID \<Rightarrow> positions_db \<Rightarrow> arguments_db \<Rightarrow> persuasion_db
     \<Rightarrow> persuasion_app_error + ArgumentMetrics" where
  "repo_GetArgumentMetrics scan i pos args db =
     bind_r (uuidParam scan (argument_String i) ErrArgumentNotFound) (\<lambda>u.
       case sql_GetArgumentAttributionMetrics u pos args db of
         Inl NoRows \<Rightarrow> Inl ErrArgumentNotFound
       | Inl e \<Rightarrow> Inl (PersuasionPg e)
       | Inr (events, people) \<Rightarrow>
           Inr \<lparr>am_ArgumentID = i, am_DistinctPeople = people, am_ValidAttributions = events, am_CheckedAt = 0\<rparr>)"

section \<open>Signals\<close>

fun map_reciprocity :: "(uuid \<times> int \<times> int) list \<Rightarrow> persuasion_app_error + ReciprocityFact list" where
  "map_reciprocity [] = Inr []"
| "map_reciprocity ((u, inbound, outbound) # rows) =
     bind_r (stored (ParseAttributorID (uuidToString (Some u)))) (\<lambda>i.
     bind_r (map_reciprocity rows) (\<lambda>rest.
       Inr (\<lparr>rf_Counterpart = i, rf_Inbound = inbound, rf_Outbound = outbound\<rparr> # rest)))"

fun map_concentration :: "(uuid \<times> int) list \<Rightarrow> persuasion_app_error + ConcentrationFact list" where
  "map_concentration [] = Inr []"
| "map_concentration ((u, events) # rows) =
     bind_r (stored (ParseAttributorID (uuidToString (Some u)))) (\<lambda>i.
     bind_r (map_concentration rows) (\<lambda>rest. Inr (\<lparr>cf_Attributor = i, cf_Events = events\<rparr> # rest)))"

fun map_alternation :: "(uuid \<times> int \<times> int) list \<Rightarrow> persuasion_app_error + AlternationFact list" where
  "map_alternation [] = Inr []"
| "map_alternation ((u, changes, reversals) # rows) =
     bind_r (stored (ParseAttributorID (uuidToString (Some u)))) (\<lambda>i.
     bind_r (map_alternation rows) (\<lambda>rest.
       Inr (\<lparr>af_Account = i, af_Changes = changes, af_Reversals = reversals\<rparr> # rest)))"

definition repo_LoadAbuseSignalFacts ::
  "(string \<Rightarrow> uuid option) \<Rightarrow> AuthorID \<Rightarrow> time \<Rightarrow> time \<Rightarrow> positions_db \<Rightarrow> arguments_db \<Rightarrow> persuasion_db
     \<Rightarrow> persuasion_app_error + SignalFacts" where
  "repo_LoadAbuseSignalFacts scan subject windowStart windowEnd pos args db =
     bind_r (uuidParam scan (author_String subject) ErrInvalidAuthorID) (\<lambda>u.
       if \<not> windowEnd > windowStart then Inl (PersuasionDomain ErrInvalidSignalFacts)
       else let from_t = timestamptz windowStart; to_t = timestamptz windowEnd in
       bind_r (map_reciprocity (sql_ListAttributionReciprocity u from_t to_t args db)) (\<lambda>reciprocity.
       bind_r (map_concentration (sql_ListAttributionConcentration u from_t to_t args db)) (\<lambda>concentration.
       bind_r (map_alternation (sql_ListAttributionAlternation from_t to_t u pos args db)) (\<lambda>alternation.
         Inr \<lparr>Reciprocity = reciprocity, Concentration = concentration, Alternation = alternation\<rparr>))))"

end
