(* ===== verification/PersuasionUseCases.thy ===== *)
theory PersuasionUseCases
  imports PersuasionRepository
begin

text \<open>
  The use cases of \<open>internal/persuasion/application\<close>. The authorizer and the audit recorder belong to
  other modules: \<open>authorized\<close> answers for the first, \<open>audit\<close> tells whether the second takes an event, and
  the events it took are part of the state. \<open>now\<close> is the injected clock.
\<close>

section \<open>Recording a selection\<close>

record RecordAttributionsCommand =
  rec_AccountID :: string
  rec_ChangeID :: string
  rec_ArgumentIDs :: "string list"

record RecordAttributionsResult =
  rar_ArgumentIDs :: "ArgumentID list"
  rar_Replayed :: bool

fun parseArgumentIDs :: "string list \<Rightarrow> persuasion_error + ArgumentID list" where
  "parseArgumentIDs [] = Inr []"
| "parseArgumentIDs (raw # rest) =
     bind_r (ParseArgumentID raw) (\<lambda>i. bind_r (parseArgumentIDs rest) (\<lambda>ids. Inr (i # ids)))"

definition sortedArgumentIDs :: "ArgumentID list \<Rightarrow> ArgumentID list" where
  "sortedArgumentIDs ids = sort_key argument_String ids"

text \<open>The loop that keeps the requested arguments not yet credited, refusing a repeated one.\<close>

fun new_argument_ids :: "string set \<Rightarrow> string set \<Rightarrow> ArgumentID list \<Rightarrow> persuasion_error + ArgumentID list" where
  "new_argument_ids existing seen [] = Inr []"
| "new_argument_ids existing seen (i # rest) =
     (if argument_String i \<in> existing then new_argument_ids existing seen rest
      else if argument_String i \<in> seen then Inl ErrDuplicateAttribution
      else bind_r (new_argument_ids existing (insert (argument_String i) seen) rest) (\<lambda>ids. Inr (i # ids)))"

text \<open>
  The transaction. The lock on the change serialises the requests for one change, so the attributions of the
  change are read as they are; the candidates are read without a lock, so from a state \<open>seen\<close> that other
  requests may have left behind.
\<close>

definition record_transaction ::
  "(string \<Rightarrow> uuid option) \<Rightarrow> EligibilityPolicy \<Rightarrow> AttributorID \<Rightarrow> ChangeID \<Rightarrow> ArgumentID list \<Rightarrow> arguments_db
     \<Rightarrow> positions_db \<Rightarrow> arguments_db \<Rightarrow> persuasion_db \<Rightarrow> (persuasion_app_error + RecordAttributionsResult) \<times> persuasion_db" where
  "record_transaction scan policy attributorID changeID requested seen pos args db =
     (case repo_LockChangeForAttributor scan changeID attributorID pos of
        Inl e \<Rightarrow> (Inl e, db)
      | Inr change \<Rightarrow>
     (case repo_ListAttributedArgumentIDs scan changeID db of
        Inl e \<Rightarrow> (Inl e, db)
      | Inr existing \<Rightarrow>
     (case new_argument_ids (argument_String ` set existing) {} requested of
        Inl e \<Rightarrow> (Inl (PersuasionDomain e), db)
      | Inr newIDs \<Rightarrow>
          if int (length existing) + int (length newIDs) > MaxAttributions policy
            then (Inl (PersuasionDomain ErrTooManyAttributions), db)
          else if newIDs = []
            then (Inr \<lparr>rar_ArgumentIDs = sortedArgumentIDs existing, rar_Replayed = existing \<noteq> []\<rparr>, db)
          else
     (case repo_ListCandidates scan newIDs seen of
        Inl e \<Rightarrow> (Inl e, db)
      | Inr candidates \<Rightarrow>
     (case EligibilityPolicy_Validate policy change candidates of
        Inl e \<Rightarrow> (Inl (PersuasionDomain e), db)
      | Inr _ \<Rightarrow>
     (case repo_CreateAttributions scan changeID attributorID candidates pos args db of
        (Inl e, db') \<Rightarrow> (Inl e, db')
      | (Inr _, db') \<Rightarrow>
          (Inr \<lparr>rar_ArgumentIDs = sortedArgumentIDs (existing @ newIDs), rar_Replayed = False\<rparr>, db')))))))"

definition RecordAttributions_Execute ::
  "(string \<Rightarrow> uuid option) \<Rightarrow> EligibilityPolicy \<Rightarrow> RecordAttributionsCommand \<Rightarrow> arguments_db
     \<Rightarrow> positions_db \<Rightarrow> arguments_db \<Rightarrow> persuasion_db \<Rightarrow> (persuasion_app_error + RecordAttributionsResult) \<times> persuasion_db" where
  "RecordAttributions_Execute scan policy cmd seen pos args db =
     (if \<not> EligibilityPolicy_IsValid policy then (Inl (PersuasionDomain ErrInvalidPolicy), db)
      else case bind_r (ParseAttributorID (rec_AccountID cmd)) (\<lambda>attributorID.
             bind_r (ParseChangeID (rec_ChangeID cmd)) (\<lambda>changeID.
             bind_r (parseArgumentIDs (rec_ArgumentIDs cmd)) (\<lambda>requested. Inr (attributorID, changeID, requested)))) of
        Inl e \<Rightarrow> (Inl (PersuasionDomain e), db)
      | Inr (attributorID, changeID, requested) \<Rightarrow>
          if int (length requested) > MaxAttributions policy then (Inl (PersuasionDomain ErrTooManyAttributions), db)
          else WithinTransaction (record_transaction scan policy attributorID changeID requested seen pos args) db)"

section \<open>Moderating an attribution\<close>

record ModerateAttributionCommand =
  mac_ActorAccountID :: string
  mac_AttributionID :: string
  mac_Reason :: string

record AttributionModerationEvent =
  ame_ActorAccountID :: ModeratorID
  ame_AttributionID :: AttributionID
  ame_ArgumentID :: ArgumentID
  ame_Action :: string
  ame_Reason :: Reason
  ame_OccurredAt :: time

record AttributionModerationResult =
  amr_Attribution :: Attribution
  amr_Replayed :: bool

definition transition :: "Attribution \<Rightarrow> ModerationDecision \<Rightarrow> persuasion_error + Attribution" where
  "transition recorded decision =
     (if dec_Action decision = ModerationActionInvalidate then Invalidate recorded decision
      else if dec_Action decision = ModerationActionRestore then Restore recorded decision
      else Inl ErrInvalidModerationAction)"

definition validateAttributionModeration ::
  "(ModeratorID \<Rightarrow> bool) \<Rightarrow> time \<Rightarrow> ModerateAttributionCommand \<Rightarrow> string
     \<Rightarrow> persuasion_app_error + ModerationDecision \<times> AttributionID" where
  "validateAttributionModeration authorized now cmd action =
     (if \<not> ModerationAction_IsValid action then Inl (PersuasionDomain ErrInvalidModerationAction)
      else bind_r (wrap_err PersuasionDomain (ParseModeratorID (mac_ActorAccountID cmd))) (\<lambda>actor.
        bind_r (wrap_err PersuasionDomain (ParseAttributionID (mac_AttributionID cmd))) (\<lambda>attributionID.
        bind_r (wrap_err PersuasionDomain (ParseReason (mac_Reason cmd))) (\<lambda>reason.
          if \<not> authorized actor then Inl ErrNotAuthorized
          else let decision = \<lparr>dec_Action = action, dec_Actor = actor, dec_Reason = reason, dec_DecidedAt = now\<rparr> in
            bind_r (wrap_err PersuasionDomain (ModerationDecision_Validate decision)) (\<lambda>_. Inr (decision, attributionID))))))"

definition moderation_event :: "ModerationDecision \<Rightarrow> Attribution \<Rightarrow> AttributionModerationEvent" where
  "moderation_event decision applied =
     \<lparr>ame_ActorAccountID = dec_Actor decision, ame_AttributionID = attr_ID applied, ame_ArgumentID = attr_ArgumentID applied,
      ame_Action = dec_Action decision, ame_Reason = dec_Reason decision, ame_OccurredAt = dec_DecidedAt decision\<rparr>"

type_synonym moderated = "persuasion_db \<times> AttributionModerationEvent list"

definition moderate_transaction ::
  "(string \<Rightarrow> uuid option) \<Rightarrow> (AttributionModerationEvent \<Rightarrow> bool) \<Rightarrow> ModerationDecision \<Rightarrow> AttributionID \<Rightarrow> positions_db
     \<Rightarrow> moderated \<Rightarrow> (persuasion_app_error + AttributionModerationResult) \<times> moderated" where
  "moderate_transaction scan audit decision i pos st =
     (case repo_LockAttributionForModeration scan i (fst st) of
        Inl e \<Rightarrow> (Inl e, st)
      | Inr recorded \<Rightarrow>
          if attr_Status recorded = Decision_TargetStatus decision
            then (Inr \<lparr>amr_Attribution = recorded, amr_Replayed = True\<rparr>, st)
          else (case transition recorded decision of
              Inl e \<Rightarrow> (Inl (PersuasionDomain e), st)
            | Inr target \<Rightarrow>
                (case repo_ApplyModerationDecision scan i (attr_Decision target) pos (fst st) of
                   (Inl e, db) \<Rightarrow> (Inl e, (db, snd st))
                 | (Inr applied, db) \<Rightarrow>
                     if \<not> audit (moderation_event decision applied) then (Inl ErrAuditFailed, (db, snd st))
                     else (Inr \<lparr>amr_Attribution = applied, amr_Replayed = False\<rparr>,
                           (db, snd st @ [moderation_event decision applied])))))"

definition moderateAttribution ::
  "(string \<Rightarrow> uuid option) \<Rightarrow> (ModeratorID \<Rightarrow> bool) \<Rightarrow> (AttributionModerationEvent \<Rightarrow> bool) \<Rightarrow> time
     \<Rightarrow> ModerateAttributionCommand \<Rightarrow> string \<Rightarrow> positions_db \<Rightarrow> moderated
     \<Rightarrow> (persuasion_app_error + AttributionModerationResult) \<times> moderated" where
  "moderateAttribution scan authorized audit now cmd action pos st =
     (case validateAttributionModeration authorized now cmd action of
        Inl e \<Rightarrow> (Inl e, st)
      | Inr (decision, i) \<Rightarrow> WithinTransaction (moderate_transaction scan audit decision i pos) st)"

definition InvalidateAttribution_Execute ::
  "(string \<Rightarrow> uuid option) \<Rightarrow> (ModeratorID \<Rightarrow> bool) \<Rightarrow> (AttributionModerationEvent \<Rightarrow> bool) \<Rightarrow> time
     \<Rightarrow> ModerateAttributionCommand \<Rightarrow> positions_db \<Rightarrow> moderated
     \<Rightarrow> (persuasion_app_error + AttributionModerationResult) \<times> moderated" where
  "InvalidateAttribution_Execute scan authorized audit now cmd pos st =
     moderateAttribution scan authorized audit now cmd ModerationActionInvalidate pos st"

definition RestoreAttribution_Execute ::
  "(string \<Rightarrow> uuid option) \<Rightarrow> (ModeratorID \<Rightarrow> bool) \<Rightarrow> (AttributionModerationEvent \<Rightarrow> bool) \<Rightarrow> time
     \<Rightarrow> ModerateAttributionCommand \<Rightarrow> positions_db \<Rightarrow> moderated
     \<Rightarrow> (persuasion_app_error + AttributionModerationResult) \<times> moderated" where
  "RestoreAttribution_Execute scan authorized audit now cmd pos st =
     moderateAttribution scan authorized audit now cmd ModerationActionRestore pos st"

section \<open>Metrics of an argument\<close>

definition ArgumentMetrics_Validate :: "ArgumentMetrics \<Rightarrow> persuasion_app_error + unit" where
  "ArgumentMetrics_Validate m =
     (if ArgumentID_IsZero (am_ArgumentID m) then Inl ErrInvalidReputationProjection
      else if time_IsZero (am_CheckedAt m) then Inl ErrInvalidReputationProjection
      else if am_DistinctPeople m < 0 \<or> am_ValidAttributions m < 0 then Inl ErrInvalidReputationProjection
      else if am_DistinctPeople m > am_ValidAttributions m then Inl ErrInvalidReputationProjection
      else Inr ())"

definition GetArgumentMetrics_Execute ::
  "(string \<Rightarrow> uuid option) \<Rightarrow> time \<Rightarrow> string \<Rightarrow> positions_db \<Rightarrow> arguments_db \<Rightarrow> persuasion_db
     \<Rightarrow> persuasion_app_error + ArgumentMetrics" where
  "GetArgumentMetrics_Execute scan now raw pos args db =
     bind_r (wrap_err PersuasionDomain (ParseArgumentID raw)) (\<lambda>i.
     bind_r (repo_GetArgumentMetrics scan i pos args db) (\<lambda>metrics.
       let projection = metrics\<lparr>am_ArgumentID := i, am_CheckedAt := now\<rparr> in
       bind_r (ArgumentMetrics_Validate projection) (\<lambda>_. Inr projection)))"

section \<open>Reputation of an author\<close>

record DimensionReputation =
  dim_Label :: string
  dim_DistinctPeople :: int
  dim_ValidAttributions :: int

record AuthorReputation =
  rep_AuthorID :: AuthorID
  rep_Username :: string
  rep_Arenas :: "ArenaReputation list"
  rep_CheckedAt :: time

definition InfluencedPeople :: "AuthorReputation \<Rightarrow> int" where
  "InfluencedPeople r = foldl (\<lambda>n arena. wrap64 (n + arep_DistinctPeople arena)) 0 (rep_Arenas r)"

definition TotalValidAttributions :: "AuthorReputation \<Rightarrow> int" where
  "TotalValidAttributions r = foldl (\<lambda>n arena. wrap64 (n + arep_ValidAttributions arena)) 0 (rep_Arenas r)"

text \<open>The map of buckets as an association list in the order of first use; a new bucket starts at zero.\<close>

fun add_to_bucket :: "string \<Rightarrow> int \<Rightarrow> int \<Rightarrow> DimensionReputation list \<Rightarrow> DimensionReputation list" where
  "add_to_bucket key people events [] =
     [\<lparr>dim_Label = key, dim_DistinctPeople = wrap64 (0 + people), dim_ValidAttributions = wrap64 (0 + events)\<rparr>]"
| "add_to_bucket key people events (b # bs) =
     (if dim_Label b = key
      then b\<lparr>dim_DistinctPeople := wrap64 (dim_DistinctPeople b + people),
             dim_ValidAttributions := wrap64 (dim_ValidAttributions b + events)\<rparr> # bs
      else b # add_to_bucket key people events bs)"

definition aggregateDimension :: "ArenaReputation list \<Rightarrow> (ArenaReputation \<Rightarrow> string) \<Rightarrow> DimensionReputation list" where
  "aggregateDimension arenas label =
     sort_key dim_Label
       (foldl (\<lambda>buckets arena. add_to_bucket (label arena) (arep_DistinctPeople arena) (arep_ValidAttributions arena) buckets)
         [] arenas)"

definition ByCategory :: "AuthorReputation \<Rightarrow> DimensionReputation list" where
  "ByCategory r = aggregateDimension (rep_Arenas r) arep_Category"

definition ByLanguage :: "AuthorReputation \<Rightarrow> DimensionReputation list" where
  "ByLanguage r = aggregateDimension (rep_Arenas r) arep_Language"

fun validate_arenas :: "string set \<Rightarrow> ArenaReputation list \<Rightarrow> persuasion_app_error + unit" where
  "validate_arenas seen [] = Inr ()"
| "validate_arenas seen (a # rest) =
     (if ArenaID_IsZero (arep_ArenaID a) then Inl ErrInvalidReputationProjection
      else if arena_String (arep_ArenaID a) \<in> seen then Inl ErrInvalidReputationProjection
      else if TrimSpace (arep_Category a) = [] then Inl ErrInvalidReputationProjection
      else if TrimSpace (arep_Language a) = [] then Inl ErrInvalidReputationProjection
      else if arep_DistinctPeople a < 0 \<or> arep_ValidAttributions a < 0 then Inl ErrInvalidReputationProjection
      else if arep_DistinctPeople a > arep_ValidAttributions a then Inl ErrInvalidReputationProjection
      else validate_arenas (insert (arena_String (arep_ArenaID a)) seen) rest)"

definition AuthorReputation_Validate :: "AuthorReputation \<Rightarrow> persuasion_app_error + unit" where
  "AuthorReputation_Validate r =
     (if AuthorID_IsZero (rep_AuthorID r) then Inl ErrInvalidReputationProjection
      else if time_IsZero (rep_CheckedAt r) then Inl ErrInvalidReputationProjection
      else validate_arenas {} (rep_Arenas r))"

definition deriveAuthorReputation ::
  "(string \<Rightarrow> uuid option) \<Rightarrow> AuthorID \<Rightarrow> time \<Rightarrow> positions_db \<Rightarrow> arguments_db \<Rightarrow> arenas_db \<Rightarrow> persuasion_db
     \<Rightarrow> persuasion_app_error + AuthorReputation" where
  "deriveAuthorReputation scan author checkedAt pos args arenas db =
     bind_r (repo_ListAuthorArenaReputation scan author pos args arenas db) (\<lambda>rows.
       let reputation = \<lparr>rep_AuthorID = author, rep_Username = [], rep_Arenas = rows, rep_CheckedAt = checkedAt\<rparr> in
       bind_r (AuthorReputation_Validate reputation) (\<lambda>_. Inr reputation))"

definition GetAuthorReputation_Execute ::
  "(string \<Rightarrow> uuid option) \<Rightarrow> time \<Rightarrow> string \<Rightarrow> positions_db \<Rightarrow> arguments_db \<Rightarrow> arenas_db \<Rightarrow> persuasion_db
     \<Rightarrow> persuasion_app_error + AuthorReputation" where
  "GetAuthorReputation_Execute scan now raw pos args arenas db =
     bind_r (wrap_err PersuasionDomain (ParseAuthorID raw)) (\<lambda>author.
       deriveAuthorReputation scan author now pos args arenas db)"

text \<open>\<open>directory\<close> is the profiles module's answer for a username: the author and the canonical username.\<close>

definition GetProfileReputation_Execute ::
  "(string \<Rightarrow> uuid option) \<Rightarrow> (string \<Rightarrow> persuasion_app_error + AuthorID \<times> string) \<Rightarrow> time \<Rightarrow> string
     \<Rightarrow> positions_db \<Rightarrow> arguments_db \<Rightarrow> arenas_db \<Rightarrow> persuasion_db \<Rightarrow> persuasion_app_error + AuthorReputation" where
  "GetProfileReputation_Execute scan directory now username pos args arenas db =
     bind_r (directory username) (\<lambda>(author, canonical).
       if AuthorID_IsZero author \<or> TrimSpace canonical = [] then Inl ErrMissingCanonicalUsername
       else bind_r (deriveAuthorReputation scan author now pos args arenas db) (\<lambda>reputation.
         Inr (reputation\<lparr>rep_Username := canonical\<rparr>)))"

section \<open>Signals\<close>

record AssessAttributionSignalsQuery =
  asq_ActorAccountID :: string
  asq_SubjectID :: string

definition GetAttributionSignals_Execute ::
  "(string \<Rightarrow> uuid option) \<Rightarrow> (ModeratorID \<Rightarrow> bool) \<Rightarrow> SignalPolicy \<Rightarrow> time \<Rightarrow> AssessAttributionSignalsQuery
     \<Rightarrow> positions_db \<Rightarrow> arguments_db \<Rightarrow> persuasion_db \<Rightarrow> persuasion_app_error + SignalAssessment" where
  "GetAttributionSignals_Execute scan authorized policy now query pos args db =
     (if \<not> SignalPolicy_IsValid policy then Inl (PersuasionDomain ErrInvalidSignalPolicy)
      else bind_r (wrap_err PersuasionDomain (ParseModeratorID (asq_ActorAccountID query))) (\<lambda>actor.
        bind_r (wrap_err PersuasionDomain (ParseAuthorID (asq_SubjectID query))) (\<lambda>subject.
          if \<not> authorized actor then Inl ErrNotAuthorized
          else bind_r (repo_LoadAbuseSignalFacts scan subject (now - sp_Window policy) now pos args db) (\<lambda>facts.
            bind_r (wrap_err PersuasionDomain (Assess policy subject facts)) (\<lambda>signals.
              let assessment = \<lparr>as_Subject = subject, as_Signals = signals, as_PolicyVersion = sp_Version policy,
                    as_Window = sp_Window policy, as_AssessedAt = now\<rparr> in
              bind_r (wrap_err PersuasionDomain (SignalAssessment_Validate assessment)) (\<lambda>_. Inr assessment))))))"

end
