(* ===== verification/PersuasionCorrectness.thy ===== *)
theory PersuasionCorrectness
  imports PersuasionUseCases
begin

text \<open>
  What every statement and every loop does to the attributions: the links of a row are frozen when it is
  inserted, a recorded decision is never erased, and a new row credits an argument that the eligibility rules
  accept for its change.
\<close>

section \<open>Identifiers of rows\<close>

lemma stored_uuid_parses:
  "ParseChangeID (uuidToString (Some u)) = Inr (ChangeID (uuidToString (Some u)))"
  "ParseArgumentID (uuidToString (Some u)) = Inr (ArgumentID (uuidToString (Some u)))"
  "ParseArenaID (uuidToString (Some u)) = Inr (ArenaID (uuidToString (Some u)))"
  "ParseAttributorID (uuidToString (Some u)) = Inr (AttributorID (uuidToString (Some u)))"
  "ParseAuthorID (uuidToString (Some u)) = Inr (AuthorID (uuidToString (Some u)))"
  "ParseAttributionID (uuidToString (Some u)) = Inr (AttributionID (uuidToString (Some u)))"
  "ParseModeratorID (uuidToString (Some u)) = Inr (ModeratorID (uuidToString (Some u)))"
  using change_id.parse_of_text [of "ChangeID (uuidToString (Some u))"] argument_ref.parse_of_text [of "ArgumentID (uuidToString (Some u))"]
    arena_ref.parse_of_text [of "ArenaID (uuidToString (Some u))"] attributor_id.parse_of_text [of "AttributorID (uuidToString (Some u))"]
    author_id.parse_of_text [of "AuthorID (uuidToString (Some u))"] attribution_id.parse_of_text [of "AttributionID (uuidToString (Some u))"]
    moderator_id.parse_of_text [of "ModeratorID (uuidToString (Some u))"]
  by (simp_all add: uuidToString_printable length_uuid maxIdentifierLength_def)

lemma stored_Inr [simp]: "stored (Inr a) = Inr a"
  by (simp add: stored_def)

lemma uuidParam_Inr: "uuidParam scan raw e = Inr u \<longleftrightarrow> scan raw = Some u"
  by (auto simp: uuidParam_def split: option.split)

lemma canonical_scan: "reads_canonical scan \<Longrightarrow> scan (uuidToString (Some u)) = Some u"
  by (simp add: reads_canonical_def)

section \<open>Loading what a selection is checked against\<close>

definition change_of_row :: "ChangeID \<Rightarrow> AppPositionChange \<Rightarrow> Change" where
  "change_of_row i c =
     \<lparr>ch_ID = i, ch_ArenaID = ArenaID (uuidToString (Some (AppPositionChange.pc_ArenaID c))),
      ch_AttributorID = AttributorID (uuidToString (Some (AppPositionChange.pc_AccountID c))), ch_ChangedAt = pc_ChangedAt c\<rparr>"

definition candidate_of_row :: "AppArgument \<Rightarrow> Candidate" where
  "candidate_of_row a =
     \<lparr>cand_ID = ArgumentID (uuidToString (Some (ag_ID a))), cand_ArenaID = ArenaID (uuidToString (Some (ag_ArenaID a))),
      cand_AuthorID = AuthorID (uuidToString (Some (ag_AuthorID a))), cand_CreatedAt = ag_CreatedAt a, cand_Status = ag_Status a\<rparr>"

lemma lock_change_Inr:
  assumes "repo_LockChangeForAttributor scan i attributor pos = Inr change"
  obtains c where "c \<in> set (position_changes pos)" "scan (change_String i) = Some (pc_ID c)"
    "scan (attributor_String attributor) = Some (AppPositionChange.pc_AccountID c)" "change = change_of_row i c"
proof -
  obtain k u c where k: "scan (change_String i) = Some k" "scan (attributor_String attributor) = Some u"
    "find (\<lambda>c. pc_ID c = k \<and> AppPositionChange.pc_AccountID c = u) (position_changes pos) = Some c" "change = change_of_row i c"
    using assms unfolding repo_LockChangeForAttributor_def sql_GetPositionChangeForAttributor_def
    by (auto simp: bind_r_Inr_iff uuidParam_Inr stored_uuid_parses change_of_row_def split: option.splits)
  have "c \<in> set (position_changes pos) \<and> pc_ID c = k \<and> AppPositionChange.pc_AccountID c = u" using k(3) by (auto simp: find_Some_iff)
  then show ?thesis using that k by blast
qed

lemma parse_stored_arguments_eq:
  "parse_stored_arguments us = Inr (map (\<lambda>u. ArgumentID (uuidToString (Some u))) us)"
  by (induction us) (simp_all add: stored_uuid_parses)

lemma list_attributed_Inr:
  "repo_ListAttributedArgumentIDs scan i db = Inr existing \<longleftrightarrow>
     (\<exists>c. scan (change_String i) = Some c \<and> existing = map (\<lambda>u. ArgumentID (uuidToString (Some u))) (sql_ListAttributionArgumentIDs c db))"
  by (auto simp: repo_ListAttributedArgumentIDs_def bind_r_Inr_iff uuidParam_Inr parse_stored_arguments_eq)

lemma scan_arguments_Inr: "scan_arguments scan ids = Inr us \<longleftrightarrow> map (scan \<circ> argument_String) ids = map Some us"
  by (induction ids arbitrary: us) (auto simp: bind_r_Inr_iff uuidParam_Inr Cons_eq_map_conv)

lemma map_candidates_Inr:
  "map_candidates rows = Inr cs \<Longrightarrow> cs = map candidate_of_row rows"
  by (induction rows arbitrary: cs)
    (auto simp: map_candidate_def bind_r_Inr_iff stored_uuid_parses candidate_of_row_def split: if_splits)

lemma candidates_exact:
  assumes d: "distinct (map ag_ID rows)" and len: "length (filter (\<lambda>a. ag_ID a \<in> set us) rows) = length us"
  shows "set (map ag_ID (filter (\<lambda>a. ag_ID a \<in> set us) rows)) = set us" "distinct us"
proof -
  let ?f = "map ag_ID (filter (\<lambda>a. ag_ID a \<in> set us) rows)"
  have df: "distinct ?f" using d by (rule distinct_map_filter)
  have sub: "set ?f \<subseteq> set us" by auto
  have "card (set ?f) = length us" using distinct_card [OF df] len by simp
  moreover have "card (set us) \<le> length us" by (rule card_length)
  moreover have "card (set ?f) \<le> card (set us)" using sub by (intro card_mono) simp_all
  ultimately have c: "card (set us) = length us" "card (set ?f) = card (set us)" by linarith+
  show "distinct us" using c(1) by (rule card_distinct)
  show "set ?f = set us" using sub c(2) by (intro card_subset_eq) simp_all
qed

section \<open>Rows\<close>

definition at_link :: "AppPersuasionAttribution \<Rightarrow> uuid \<times> uuid \<times> uuid \<times> uuid \<times> time" where
  "at_link r = (at_ID r, at_ChangeID r, at_AttributorID r, at_ArgumentID r, at_CreatedAt r)"

definition kept_attribution :: "AppPersuasionAttribution \<Rightarrow> AppPersuasionAttribution \<Rightarrow> bool" where
  "kept_attribution r r' \<longleftrightarrow> at_link r' = at_link r \<and> (at_ModerationReason r \<noteq> None \<longrightarrow> at_ModerationReason r' \<noteq> None)"

lemma kept_attribution_refl [simp]: "kept_attribution r r"
  by (simp add: kept_attribution_def)

lemma kept_attribution_trans: "kept_attribution a b \<Longrightarrow> kept_attribution b c \<Longrightarrow> kept_attribution a c"
  by (auto simp: kept_attribution_def)

definition attributions_extend :: "persuasion_db \<Rightarrow> persuasion_db \<Rightarrow> bool" where
  "attributions_extend db db' \<longleftrightarrow>
     (\<exists>old new. attribution_rows db' = old @ new \<and> list_all2 kept_attribution (attribution_rows db) old)"

lemma attributions_extend_rows: "attribution_rows db' = attribution_rows db \<Longrightarrow> attributions_extend db db'"
  unfolding attributions_extend_def by (rule exI [of _ "attribution_rows db"]) (simp add: list.rel_refl)

lemma attributions_extend_append: "attribution_rows db' = attribution_rows db @ new \<Longrightarrow> attributions_extend db db'"
  unfolding attributions_extend_def by (rule exI [of _ "attribution_rows db"]) (simp add: list.rel_refl)

lemma attributions_extend_trans:
  assumes "attributions_extend a b" "attributions_extend b c"
  shows "attributions_extend a c"
proof -
  obtain old1 new1 old2 new2 where o: "attribution_rows b = old1 @ new1" "list_all2 kept_attribution (attribution_rows a) old1"
    "attribution_rows c = old2 @ new2" "list_all2 kept_attribution (attribution_rows b) old2"
    using assms unfolding attributions_extend_def by blast
  obtain o1 o2 where 2: "old2 = o1 @ o2" "list_all2 kept_attribution old1 o1"
    using o(4) unfolding o(1) list_all2_append1 by blast
  have "list_all2 kept_attribution (attribution_rows a) o1"
    by (rule list_all2_trans [OF kept_attribution_trans o(2) 2(2)])
  then show ?thesis unfolding attributions_extend_def using o(3) 2(1) by (metis append.assoc)
qed

lemma attributions_extend_member:
  assumes "attributions_extend db db'" "r \<in> set (attribution_rows db)"
  shows "\<exists>r' \<in> set (attribution_rows db'). kept_attribution r r'"
proof -
  obtain old new where o: "attribution_rows db' = old @ new" "list_all2 kept_attribution (attribution_rows db) old"
    using assms(1) unfolding attributions_extend_def by blast
  obtain i where i: "i < length (attribution_rows db)" "r = attribution_rows db ! i" using assms(2) by (metis in_set_conv_nth)
  have "kept_attribution r (old ! i)" using list_all2_nthD [OF o(2) i(1)] i(2) by simp
  moreover have "old ! i \<in> set (attribution_rows db')" using i(1) list_all2_lengthD [OF o(2)] o(1) by simp
  ultimately show ?thesis by blast
qed

text \<open>The arguments that a change credits.\<close>

definition credited :: "uuid \<Rightarrow> persuasion_db \<Rightarrow> uuid set" where
  "credited change db = at_ArgumentID ` set (change_attributions change db)"

lemma credited_iff:
  "i \<in> credited change db \<longleftrightarrow> (\<exists>r \<in> set (attribution_rows db). at_ChangeID r = change \<and> at_ArgumentID r = i)"
  by (auto simp: credited_def change_attributions_def)

lemma credited_mono: "attributions_extend db db' \<Longrightarrow> credited change db \<subseteq> credited change db'"
proof
  fix i assume e: "attributions_extend db db'" and "i \<in> credited change db"
  then obtain r where "r \<in> set (attribution_rows db)" "at_ChangeID r = change" "at_ArgumentID r = i" by (auto simp: credited_iff)
  moreover from this obtain r' where "r' \<in> set (attribution_rows db')" "kept_attribution r r'"
    using attributions_extend_member [OF e] by blast
  ultimately show "i \<in> credited change db'" by (auto simp: credited_iff kept_attribution_def at_link_def)
qed

lemma listed_arguments: "set (sql_ListAttributionArgumentIDs change db) = credited change db"
  by (simp add: sql_ListAttributionArgumentIDs_def credited_def)

section \<open>Inserting\<close>

definition new_attribution :: "uuid \<Rightarrow> uuid \<Rightarrow> uuid \<Rightarrow> uuid \<Rightarrow> time \<Rightarrow> AppPersuasionAttribution" where
  "new_attribution i change attributor argument t =
     \<lparr>at_ID = i, at_ChangeID = change, at_AttributorID = attributor, at_ArgumentID = argument, at_Status = ''valid'',
      at_CreatedAt = t, at_InvalidatedAt = None, at_ModerationReason = None, at_ModeratedBy = None, at_ModeratedAt = None\<rparr>"

definition fresh_row :: "uuid \<Rightarrow> uuid \<Rightarrow> time \<Rightarrow> AppPersuasionAttribution \<Rightarrow> bool" where
  "fresh_row change attributor t r \<longleftrightarrow> r = new_attribution (at_ID r) change attributor (at_ArgumentID r) t"

lemma create_attribution_Inr:
  assumes "sql_CreateAttribution change attributor argument pos args db = Inr (i, db')"
  shows "argument \<notin> credited change db" "i \<notin> at_ID ` set (attribution_rows db)"
    "argument \<in> ag_ID ` set (argument_rows args)"
    "attribution_rows db' = attribution_rows db @ [new_attribution i change attributor argument (timestamptz (at_now db))]"
    "at_now db' = at_now db"
  using assms by (auto simp: sql_CreateAttribution_def Let_def new_attribution_def credited_iff split: if_splits)

lemma create_attribution_NoRows:
  "sql_CreateAttribution change attributor argument pos args db = Inl NoRows \<Longrightarrow> argument \<in> credited change db"
  by (auto simp: sql_CreateAttribution_def Let_def credited_iff split: if_splits)

lemma fresh_row_fields:
  "fresh_row change u t r \<Longrightarrow> at_ChangeID r = change \<and> at_AttributorID r = u \<and> at_Status r = ''valid'' \<and> at_CreatedAt r = t
     \<and> at_InvalidatedAt r = None \<and> at_ModerationReason r = None \<and> at_ModeratedBy r = None \<and> at_ModeratedAt r = None"
  unfolding fresh_row_def new_attribution_def by (cases r) simp

lemma credited_append:
  assumes "attribution_rows db' = attribution_rows db @ new" "list_all (fresh_row change u t) new"
  shows "credited change db' = credited change db \<union> at_ArgumentID ` set new"
proof -
  have "filter (\<lambda>r. at_ChangeID r = change) new = new"
    using assms(2) by (intro filter_True) (auto simp: list_all_iff dest: fresh_row_fields)
  then show ?thesis by (simp add: credited_def change_attributions_def assms(1) image_Un)
qed

definition inserted_for ::
  "uuid \<Rightarrow> uuid \<Rightarrow> uuid list \<Rightarrow> AppPersuasionAttribution list \<Rightarrow> persuasion_db \<Rightarrow> persuasion_db \<Rightarrow> bool" where
  "inserted_for change attributor arguments new db db' \<longleftrightarrow>
     attribution_rows db' = attribution_rows db @ new \<and> list_all (fresh_row change attributor (timestamptz (at_now db))) new
   \<and> map at_ArgumentID new = filter (\<lambda>i. i \<notin> credited change db) arguments
   \<and> (distinct (map at_ID (attribution_rows db)) \<longrightarrow> distinct (map at_ID (attribution_rows db')))"

lemma create_loop_Inr:
  assumes "reads_canonical scan"
  shows "create_loop scan change attributor (map candidate_of_row rows) pos args db = (Inr (), db') \<Longrightarrow> distinct (map ag_ID rows)
    \<Longrightarrow> \<exists>new. inserted_for change attributor (map ag_ID rows) new db db'"
proof (induction rows arbitrary: db)
  case Nil
  then show ?case by (simp add: inserted_for_def)
next
  case (Cons a rows)
  have sc: "uuidParam scan (argument_String (cand_ID (candidate_of_row a))) ErrArgumentNotFound = Inr (ag_ID a)"
    by (simp add: uuidParam_Inr candidate_of_row_def canonical_scan [OF assms])
  note call = Cons.prems(1) [simplified list.map create_loop.simps sc sum.case]
  show ?case
  proof (cases "sql_CreateAttribution change attributor (ag_ID a) pos args db")
    case (Inl e)
    then have e: "e = NoRows" "create_loop scan change attributor (map candidate_of_row rows) pos args db = (Inr (), db')"
      using call by (cases e; simp)+
    obtain new where new: "inserted_for change attributor (map ag_ID rows) new db db'"
      using Cons.IH [OF e(2)] Cons.prems(2) by auto
    have skip: "filter (\<lambda>i. i \<notin> credited change db) (map ag_ID (a # rows)) = filter (\<lambda>i. i \<notin> credited change db) (map ag_ID rows)"
      using create_attribution_NoRows Inl e(1) by simp
    have "inserted_for change attributor (map ag_ID (a # rows)) new db db'" using new unfolding inserted_for_def skip .
    then show ?thesis by blast
  next
    case (Inr p)
    obtain i db1 where p: "p = (i, db1)" by (cases p)
    note c = create_attribution_Inr [OF Inr [unfolded p]]
    have "create_loop scan change attributor (map candidate_of_row rows) pos args db1 = (Inr (), db')"
      using call Inr p by simp
    then obtain new where new: "inserted_for change attributor (map ag_ID rows) new db1 db'"
      using Cons.IH [of db1] Cons.prems(2) by auto
    let ?row = "new_attribution i change attributor (ag_ID a) (timestamptz (at_now db))"
    have fresh: "fresh_row change attributor (timestamptz (at_now db)) ?row" by (simp add: fresh_row_def new_attribution_def)
    have "credited change db1 = credited change db \<union> {ag_ID a}"
      using credited_append [OF c(4), of change attributor "timestamptz (at_now db)"] fresh
      by (simp add: new_attribution_def)
    then have "filter (\<lambda>i. i \<notin> credited change db1) (map ag_ID rows) = filter (\<lambda>i. i \<notin> credited change db) (map ag_ID rows)"
      using Cons.prems(2) by (intro filter_cong) (auto simp: image_iff)
    then have "map at_ArgumentID (?row # new) = filter (\<lambda>i. i \<notin> credited change db) (map ag_ID (a # rows))"
      using new c(1) by (simp add: inserted_for_def new_attribution_def)
    moreover have "distinct (map at_ID (attribution_rows db)) \<Longrightarrow> distinct (map at_ID (attribution_rows db1))"
      using c(2) by (simp add: c(4)) (simp add: new_attribution_def)
    then have "distinct (map at_ID (attribution_rows db)) \<longrightarrow> distinct (map at_ID (attribution_rows db'))"
      using new unfolding inserted_for_def by blast
    moreover have "attribution_rows db' = attribution_rows db @ ?row # new" "list_all (fresh_row change attributor (timestamptz (at_now db))) new"
      using new c(4,5) by (simp_all add: inserted_for_def)
    ultimately have "inserted_for change attributor (map ag_ID (a # rows)) (?row # new) db db'"
      unfolding inserted_for_def using fresh by simp
    then show ?thesis by blast
  qed
qed

section \<open>Recording\<close>

lemma new_argument_ids_Inr:
  "new_argument_ids existing seen ids = Inr new \<Longrightarrow>
     new = filter (\<lambda>i. argument_String i \<notin> existing) ids"
  by (induction ids arbitrary: seen new) (auto simp: bind_r_Inr_iff split: if_splits)

lemma parseArgumentIDs_Inr:
  "parseArgumentIDs raws = Inr ids \<Longrightarrow> map argument_String ids = map TrimSpace raws"
  by (induction raws arbitrary: ids) (auto simp: bind_r_Inr_iff dest: argument_ref.parse_text)

text \<open>A credit that the eligibility rules accept: the change, its argument, and how they relate.\<close>

definition sound_credit :: "positions_db \<Rightarrow> arguments_db \<Rightarrow> AppPersuasionAttribution \<Rightarrow> bool" where
  "sound_credit pos args r \<longleftrightarrow>
     (\<exists>c \<in> set (position_changes pos). \<exists>a \<in> set (argument_rows args).
        pc_ID c = at_ChangeID r \<and> AppPositionChange.pc_AccountID c = at_AttributorID r \<and> ag_ID a = at_ArgumentID r
      \<and> ag_ArenaID a = AppPositionChange.pc_ArenaID c \<and> ag_AuthorID a \<noteq> at_AttributorID r
      \<and> ag_CreatedAt a < pc_ChangedAt c)"

lemma eligible_row:
  assumes "eligible_candidate (change_of_row i c) (candidate_of_row a)"
  shows "ag_ArenaID a = AppPositionChange.pc_ArenaID c" "ag_AuthorID a \<noteq> AppPositionChange.pc_AccountID c"
    "ag_CreatedAt a < pc_ChangedAt c" "ag_Status a = ''published''"
  using assms by (auto simp: eligible_candidate_def change_of_row_def candidate_of_row_def dest: uuidToString_inj)

text \<open>
  What a request that succeeds has done: it found the change \<open>c\<close> of the caller \<open>u\<close>, and it appended one row
  for every requested argument that the change did not credit, each the credit of an argument \<open>rows\<close> read as
  eligible.
\<close>

definition recorded_selection ::
  "(string \<Rightarrow> uuid option) \<Rightarrow> EligibilityPolicy \<Rightarrow> ChangeID \<Rightarrow> AttributorID \<Rightarrow> ArgumentID list \<Rightarrow> AppPositionChange
     \<Rightarrow> arguments_db \<Rightarrow> positions_db \<Rightarrow> persuasion_db \<Rightarrow> AppPersuasionAttribution list \<Rightarrow> RecordAttributionsResult \<Rightarrow> persuasion_db \<Rightarrow> bool" where
  "recorded_selection scan policy changeID attributorID requested c seen pos db new r db' \<longleftrightarrow>
     c \<in> set (position_changes pos) \<and> scan (change_String changeID) = Some (pc_ID c)
   \<and> scan (attributor_String attributorID) = Some (AppPositionChange.pc_AccountID c)
   \<and> attribution_rows db' = attribution_rows db @ new
   \<and> list_all (fresh_row (pc_ID c) (AppPositionChange.pc_AccountID c) (timestamptz (at_now db))) new
   \<and> distinct (map at_ArgumentID new) \<and> at_ArgumentID ` set new \<inter> credited (pc_ID c) db = {}
   \<and> (\<forall>n \<in> set new. \<exists>a \<in> set (argument_rows seen). ag_ID a = at_ArgumentID n \<and> ag_ArenaID a = AppPositionChange.pc_ArenaID c
        \<and> ag_AuthorID a \<noteq> AppPositionChange.pc_AccountID c \<and> ag_CreatedAt a < pc_ChangedAt c \<and> ag_Status a = ''published'')
   \<and> credited (pc_ID c) db' = credited (pc_ID c) db \<union> {i. Some i \<in> (scan \<circ> argument_String) ` set requested}
   \<and> Some ` credited (pc_ID c) db' = (scan \<circ> argument_String) ` set (rar_ArgumentIDs r)
   \<and> (new \<noteq> [] \<longrightarrow> int (length (change_attributions (pc_ID c) db')) \<le> MaxAttributions policy)
   \<and> (distinct (map at_ID (attribution_rows db)) \<longrightarrow> distinct (map at_ID (attribution_rows db')))"

lemma sortedArgumentIDs_set [simp]: "set (sortedArgumentIDs ids) = set ids"
  by (simp add: sortedArgumentIDs_def)

lemma record_transaction_Inr:
  assumes call: "record_transaction scan policy attributorID changeID requested seen pos args db = (Inr r, db')"
    and sc: "reads_canonical scan" and d: "distinct (map ag_ID (argument_rows seen))"
  obtains c new where "recorded_selection scan policy changeID attributorID requested c seen pos db new r db'"
proof -
  obtain change where change: "repo_LockChangeForAttributor scan changeID attributorID pos = Inr change"
    using call by (cases "repo_LockChangeForAttributor scan changeID attributorID pos") (simp_all add: record_transaction_def)
  obtain c where c: "c \<in> set (position_changes pos)" "scan (change_String changeID) = Some (pc_ID c)"
    "scan (attributor_String attributorID) = Some (AppPositionChange.pc_AccountID c)" "change = change_of_row changeID c"
    using lock_change_Inr [OF change] by blast
  define existing where "existing = map (\<lambda>u. ArgumentID (uuidToString (Some u))) (sql_ListAttributionArgumentIDs (pc_ID c) db)"
  have listed: "repo_ListAttributedArgumentIDs scan changeID db = Inr existing"
    using list_attributed_Inr c(2) existing_def by blast
  have ex_scan: "(scan \<circ> argument_String) ` set existing = Some ` credited (pc_ID c) db"
    by (auto simp: existing_def listed_arguments canonical_scan [OF sc] image_image)
  have ex_len: "length existing = length (change_attributions (pc_ID c) db)"
    by (simp add: existing_def sql_ListAttributionArgumentIDs_def)
  note call = call [unfolded record_transaction_def change listed sum.case]
  obtain newIDs where new: "new_argument_ids (argument_String ` set existing) {} requested = Inr newIDs"
    using call by (cases "new_argument_ids (argument_String ` set existing) {} requested") simp_all
  note newIDs = new_argument_ids_Inr [OF new]
  note call = call [unfolded new sum.case]
  have req: "{i. Some i \<in> (scan \<circ> argument_String) ` set requested} \<subseteq>
      credited (pc_ID c) db \<union> {i. Some i \<in> (scan \<circ> argument_String) ` set newIDs}"
  proof
    fix i assume "i \<in> {i. Some i \<in> (scan \<circ> argument_String) ` set requested}"
    then obtain q where q: "q \<in> set requested" "scan (argument_String q) = Some i" by fastforce
    show "i \<in> credited (pc_ID c) db \<union> {i. Some i \<in> (scan \<circ> argument_String) ` set newIDs}"
    proof (cases "q \<in> set newIDs")
      case True
      then show ?thesis using q(2) by (auto intro: rev_image_eqI)
    next
      case False
      then obtain e where "e \<in> set existing" "argument_String q = argument_String e" using q(1) newIDs by auto
      then have "Some i \<in> (scan \<circ> argument_String) ` set existing" using q(2) by (metis comp_apply image_eqI)
      then show ?thesis unfolding ex_scan by auto
    qed
  qed
  have sub: "set newIDs \<subseteq> set requested" using newIDs by auto
  show ?thesis
  proof (cases "newIDs = []")
    case True
    then have r: "db' = db" "rar_ArgumentIDs r = sortedArgumentIDs existing" using call by (auto split: if_splits)
    have "recorded_selection scan policy changeID attributorID requested c seen pos db [] r db'"
      using c req ex_scan True r by (auto simp: recorded_selection_def)
    then show ?thesis by (rule that)
  next
    case False
    obtain candidates where cand: "repo_ListCandidates scan newIDs seen = Inr candidates"
      using call False by (cases "repo_ListCandidates scan newIDs seen") (auto split: if_splits)
    note call = call [unfolded cand sum.case]
    obtain us where us: "map (scan \<circ> argument_String) newIDs = map Some us"
      "length (filter (\<lambda>a. ag_ID a \<in> set us) (argument_rows seen)) = length newIDs"
      "candidates = map candidate_of_row (filter (\<lambda>a. ag_ID a \<in> set us) (argument_rows seen))"
      using cand False unfolding repo_ListCandidates_def sql_ListAttributionCandidates_def
      by (auto simp: bind_r_Inr_iff scan_arguments_Inr Let_def split: if_splits dest: map_candidates_Inr)
    define rows where "rows = filter (\<lambda>a. ag_ID a \<in> set us) (argument_rows seen)"
    have len: "length newIDs = length us" using us(1) by (metis length_map)
    have dr: "distinct (map ag_ID rows)" unfolding rows_def using d by (rule distinct_map_filter)
    have ids: "set (map ag_ID rows) = set us"
      unfolding rows_def using candidates_exact(1) [OF d] us(2) len by simp
    have us_set: "(scan \<circ> argument_String) ` set newIDs = Some ` set us" using us(1) by (metis list.set_map)
    have fits: "int (length existing) + int (length newIDs) \<le> MaxAttributions policy"
      and valid: "EligibilityPolicy_Validate policy change candidates = Inr ()"
      using call False by (auto split: if_splits sum.splits)
    obtain made where made: "repo_CreateAttributions scan changeID attributorID candidates pos args db = (Inr (), made)"
      and r: "db' = made" "rar_ArgumentIDs r = sortedArgumentIDs (existing @ newIDs)"
      using call False fits valid by (auto split: prod.splits sum.splits)
    have "create_loop scan (pc_ID c) (AppPositionChange.pc_AccountID c) (map candidate_of_row rows) pos args db = (Inr (), db')"
      using made c(2,3) us(3) r(1) by (simp add: repo_CreateAttributions_def uuidParam_def rows_def)
    from create_loop_Inr [OF sc this dr] obtain new where
      n: "inserted_for (pc_ID c) (AppPositionChange.pc_AccountID c) (map ag_ID rows) new db db'" by blast
    have args_new: "set (map at_ArgumentID new) = set us - credited (pc_ID c) db" using n ids by (auto simp: inserted_for_def)
    have "credited (pc_ID c) db' = credited (pc_ID c) db \<union> at_ArgumentID ` set new"
      using n credited_append unfolding inserted_for_def by blast
    then have cr: "credited (pc_ID c) db' = credited (pc_ID c) db \<union> set us" using args_new by auto
    have eligible: "list_all (eligible_candidate change) candidates" using valid by (simp add: policy_Validate_iff)
    have elig: "\<forall>m \<in> set new. \<exists>a \<in> set (argument_rows seen). ag_ID a = at_ArgumentID m
        \<and> ag_ArenaID a = AppPositionChange.pc_ArenaID c
        \<and> ag_AuthorID a \<noteq> AppPositionChange.pc_AccountID c \<and> ag_CreatedAt a < pc_ChangedAt c \<and> ag_Status a = ''published''"
    proof
      fix m assume "m \<in> set new"
      then have "at_ArgumentID m \<in> set (map ag_ID rows)" using args_new ids by auto
      then obtain a where a: "a \<in> set rows" "ag_ID a = at_ArgumentID m" by auto
      then have "eligible_candidate (change_of_row changeID c) (candidate_of_row a)"
        using eligible us(3) c(4) by (auto simp: list_all_iff rows_def)
      then show "\<exists>a \<in> set (argument_rows seen). ag_ID a = at_ArgumentID m \<and> ag_ArenaID a = AppPositionChange.pc_ArenaID c
        \<and> ag_AuthorID a \<noteq> AppPositionChange.pc_AccountID c \<and> ag_CreatedAt a < pc_ChangedAt c \<and> ag_Status a = ''published''"
        using eligible_row a by (auto simp: rows_def)
    qed
    have dn: "distinct (map at_ArgumentID new)" using n dr by (auto simp: inserted_for_def)
    have limit: "int (length (change_attributions (pc_ID c) db')) \<le> MaxAttributions policy"
    proof -
      have "length new \<le> length rows" using n by (metis inserted_for_def length_filter_le length_map)
      moreover have "length (change_attributions (pc_ID c) db') \<le> length existing + length new"
        using n ex_len by (auto simp: inserted_for_def change_attributions_def intro: order.trans [OF length_filter_le])
      ultimately show ?thesis using fits us(2) by (simp add: rows_def)
    qed
    have "set us \<subseteq> {i. Some i \<in> (scan \<circ> argument_String) ` set requested}"
    proof
      fix i assume "i \<in> set us"
      then have "Some i \<in> (scan \<circ> argument_String) ` set newIDs" unfolding us_set by simp
      then show "i \<in> {i. Some i \<in> (scan \<circ> argument_String) ` set requested}" using sub by auto
    qed
    moreover have "{i. Some i \<in> (scan \<circ> argument_String) ` set newIDs} = set us" unfolding us_set by auto
    ultimately have cr2: "credited (pc_ID c) db' = credited (pc_ID c) db \<union> {i. Some i \<in> (scan \<circ> argument_String) ` set requested}"
      using req cr by auto
    have res: "Some ` credited (pc_ID c) db' = (scan \<circ> argument_String) ` set (rar_ArgumentIDs r)"
      using ex_scan us_set cr r(2) by (simp add: image_Un)
    have rows': "attribution_rows db' = attribution_rows db @ new"
      "list_all (fresh_row (pc_ID c) (AppPositionChange.pc_AccountID c) (timestamptz (at_now db))) new"
      "distinct (map at_ID (attribution_rows db)) \<longrightarrow> distinct (map at_ID (attribution_rows db'))"
      using n by (auto simp only: inserted_for_def)
    have apart: "at_ArgumentID ` set new \<inter> credited (pc_ID c) db = {}" using args_new by auto
    have "recorded_selection scan policy changeID attributorID requested c seen pos db new r db'"
      unfolding recorded_selection_def
      by (intro conjI c(1,2,3) rows' dn apart elig cr2 res impI limit)
    then show ?thesis by (rule that)
  qed
qed

end
