(* ===== verification/PersuasionDecisions.thy ===== *)
theory PersuasionDecisions
  imports PersuasionCorrectness
begin

text \<open>
  The invariant of the attributions, and what recording and moderating do in its terms. Moderation moves the
  validity of rows and writes the record of the decision; it never touches a link.
\<close>

section \<open>The invariant\<close>

definition pair_of :: "AppPersuasionAttribution \<Rightarrow> uuid \<times> uuid" where
  "pair_of r = (at_ChangeID r, at_ArgumentID r)"

definition attributions_ok :: "EligibilityPolicy \<Rightarrow> positions_db \<Rightarrow> arguments_db \<Rightarrow> persuasion_db \<Rightarrow> bool" where
  "attributions_ok policy pos args db \<longleftrightarrow>
     list_all attribution_checks (attribution_rows db)
   \<and> distinct (map at_ID (attribution_rows db)) \<and> distinct (map pair_of (attribution_rows db))
   \<and> list_all (sound_credit pos args) (attribution_rows db)
   \<and> list_all (\<lambda>r. int (length (change_attributions (at_ChangeID r) db)) \<le> MaxAttributions policy) (attribution_rows db)"

lemma link_parts:
  "at_link r' = at_link r \<Longrightarrow> at_ID r' = at_ID r \<and> at_ChangeID r' = at_ChangeID r \<and> at_AttributorID r' = at_AttributorID r
     \<and> at_ArgumentID r' = at_ArgumentID r \<and> at_CreatedAt r' = at_CreatedAt r"
  by (simp add: at_link_def)

lemma same_links_map:
  "map at_link rows' = map at_link rows \<Longrightarrow>
     map at_ID rows' = map at_ID rows \<and> map pair_of rows' = map pair_of rows
   \<and> map at_ChangeID rows' = map at_ChangeID rows \<and> length rows' = length rows
   \<and> map (sound_credit pos args) rows' = map (sound_credit pos args) rows"
proof (induction rows' arbitrary: rows)
  case (Cons x xs)
  then obtain y ys where y: "rows = y # ys" "at_link x = at_link y" "map at_link xs = map at_link ys" by (cases rows) auto
  then show ?case using Cons.IH [OF y(3)] link_parts [OF y(2)] by (simp add: pair_of_def sound_credit_def)
qed simp

lemma change_count_map: "length (change_attributions c db) = count_list (map at_ChangeID (attribution_rows db)) c"
  by (simp add: change_attributions_def count_list_eq_length_filter filter_map comp_def eq_commute)

lemma list_all_map_id: "list_all P rows \<longleftrightarrow> list_all id (map P rows)"
  by (simp add: list.pred_map)

lemma limit_map:
  "list_all (\<lambda>r. int (length (change_attributions (at_ChangeID r) db)) \<le> k) (attribution_rows db) \<longleftrightarrow>
     list_all (\<lambda>c. int (count_list (map at_ChangeID (attribution_rows db)) c) \<le> k) (map at_ChangeID (attribution_rows db))"
  by (simp add: list.pred_map comp_def change_count_map)

lemma attributions_ok_links:
  assumes ok: "attributions_ok policy pos args db" and same: "map at_link (attribution_rows db') = map at_link (attribution_rows db)"
    and checks: "list_all attribution_checks (attribution_rows db')"
  shows "attributions_ok policy pos args db'"
proof -
  note m = same_links_map [OF same]
  have "list_all (sound_credit pos args) (attribution_rows db')"
    using ok m unfolding attributions_ok_def by (metis list_all_map_id)
  moreover have "list_all (\<lambda>r. int (length (change_attributions (at_ChangeID r) db')) \<le> MaxAttributions policy) (attribution_rows db')"
    using ok m unfolding attributions_ok_def limit_map by metis
  moreover have "distinct (map at_ID (attribution_rows db'))" "distinct (map pair_of (attribution_rows db'))"
    using ok m unfolding attributions_ok_def by metis+
  ultimately show ?thesis using checks by (simp add: attributions_ok_def)
qed

lemma sound_credit_later:
  assumes "sound_credit pos args r" "positions_extends pos pos'" "arguments_extends args args'"
  shows "sound_credit pos' args' r"
proof -
  obtain c a where ca: "c \<in> set (position_changes pos)" "a \<in> set (argument_rows args)"
    "pc_ID c = at_ChangeID r" "AppPositionChange.pc_AccountID c = at_AttributorID r" "ag_ID a = at_ArgumentID r"
    "ag_ArenaID a = AppPositionChange.pc_ArenaID c" "ag_AuthorID a \<noteq> at_AttributorID r" "ag_CreatedAt a < pc_ChangedAt c"
    using assms(1) unfolding sound_credit_def by blast
  obtain a' where a': "a' \<in> set (argument_rows args')" "frozen a' = frozen a"
    using extends_member [OF assms(3) ca(2)] unfolding kept_row_def by blast
  have "c \<in> set (position_changes pos')" using assms(2) ca(1) by (auto simp: positions_extends_def)
  then show ?thesis unfolding sound_credit_def using ca a' by (intro bexI [of _ c] bexI [of _ a']) (auto simp: frozen_def)
qed

lemma attributions_ok_later:
  assumes "attributions_ok policy pos args db" "positions_extends pos pos'" "arguments_extends args args'"
  shows "attributions_ok policy pos' args' db"
  using assms(1) sound_credit_later [OF _ assms(2,3)] unfolding attributions_ok_def list_all_iff by blast

section \<open>Recording keeps it\<close>

lemma fresh_checks: "fresh_row c u t r \<Longrightarrow> attribution_checks r"
  by (drule fresh_row_fields) (simp add: attribution_checks_def)

lemma recorded_keeps:
  assumes ok: "attributions_ok policy pos args db" and later: "arguments_extends seen args"
    and rec: "recorded_selection scan policy changeID attributorID requested c seen pos db new r db'"
  shows "attributions_ok policy pos args db' \<and> attributions_extend db db'"
proof -
  note r = rec [unfolded recorded_selection_def]
  have rows: "attribution_rows db' = attribution_rows db @ new"
    and fresh: "list_all (fresh_row (pc_ID c) (AppPositionChange.pc_AccountID c) (timestamptz (at_now db))) new"
    and d: "distinct (map at_ArgumentID new)" "at_ArgumentID ` set new \<inter> credited (pc_ID c) db = {}"
    using r by blast+
  have link: "at_ChangeID n = pc_ID c" "at_AttributorID n = AppPositionChange.pc_AccountID c" if "n \<in> set new" for n
    using fresh that fresh_row_fields unfolding list_all_iff by blast+
  have "sound_credit pos args n" if n: "n \<in> set new" for n
  proof -
    obtain a where a: "a \<in> set (argument_rows seen)" "ag_ID a = at_ArgumentID n" "ag_ArenaID a = AppPositionChange.pc_ArenaID c"
      "ag_AuthorID a \<noteq> AppPositionChange.pc_AccountID c" "ag_CreatedAt a < pc_ChangedAt c"
      using r n by blast
    have "sound_credit pos seen n" unfolding sound_credit_def
      using a r link [OF n] by (intro bexI [of _ c] bexI [of _ a]) auto
    moreover have "positions_extends pos pos" by simp
    ultimately show ?thesis using later by (rule sound_credit_later)
  qed
  then have sound: "list_all (sound_credit pos args) (attribution_rows db')"
    using ok by (auto simp: rows attributions_ok_def list_all_iff)
  have "map pair_of new = map (Pair (pc_ID c)) (map at_ArgumentID new)" using link by (simp add: pair_of_def)
  then have "distinct (map pair_of new)" using d(1) by (simp add: distinct_map inj_on_def)
  moreover have "pair_of ` set new \<inter> pair_of ` set (attribution_rows db) = {}"
    using d(2) link by (fastforce simp: pair_of_def credited_iff)
  ultimately have pairs: "distinct (map pair_of (attribution_rows db'))" using ok by (auto simp: rows attributions_ok_def)
  have limit: "int (length (change_attributions (at_ChangeID q) db')) \<le> MaxAttributions policy" if q: "q \<in> set (attribution_rows db')" for q
  proof (cases "new \<noteq> [] \<and> at_ChangeID q = pc_ID c")
    case True
    then show ?thesis using r by simp
  next
    case False
    then have "change_attributions (at_ChangeID q) db' = change_attributions (at_ChangeID q) db"
      using link by (auto simp: change_attributions_def rows intro!: filter_False)
    moreover have "q \<in> set (attribution_rows db)" using False q link by (auto simp: rows)
    ultimately show ?thesis using ok by (simp add: attributions_ok_def list_all_iff)
  qed
  have "list_all attribution_checks (attribution_rows db')"
    using ok fresh fresh_checks unfolding rows attributions_ok_def list_all_append by (auto simp: list_all_iff)
  moreover have "distinct (map at_ID (attribution_rows db'))" using ok r unfolding attributions_ok_def by blast
  ultimately show ?thesis using sound pairs limit attributions_extend_append [OF rows]
    by (simp add: attributions_ok_def list_all_iff)
qed

section \<open>Updates\<close>

lemma update_attributions_Inr:
  assumes call: "update_attributions hit change pos db = Inr (rows, db')" and ids: "\<And>r. at_ID (change r) = at_ID r"
  shows "attribution_rows db' = map (\<lambda>r. if hit r then change r else r) (attribution_rows db)"
    "rows = map change (filter hit (attribution_rows db))"
    "map at_link (attribution_rows db') = map at_link (attribution_rows db)" "attributions_extend db db'"
    "\<And>r. r \<in> set (attribution_rows db) \<Longrightarrow> hit r \<Longrightarrow> attribution_checks (change r)"
    "\<And>r m. r \<in> set (attribution_rows db) \<Longrightarrow> hit r \<Longrightarrow> at_ModeratedBy (change r) = Some m \<Longrightarrow> account_status pos m \<noteq> None"
    "email_verified db' = email_verified db"
proof -
  have g: "\<forall>r \<in> set (filter hit (attribution_rows db)).
      protect_links r (change r) \<and> protect_decision r (change r) \<and> attribution_checks (change r)"
    "\<forall>r \<in> set (filter hit (attribution_rows db)).
      \<not> (case at_ModeratedBy (change r) of None \<Rightarrow> False | Some m \<Rightarrow> account_status pos m = None)"
    and db': "db' = db\<lparr>attribution_rows := map (\<lambda>r. if hit r then change r else r) (attribution_rows db)\<rparr>"
    and "rows = map change (filter hit (attribution_rows db))"
    using call unfolding update_attributions_def by (auto simp: Let_def split: if_splits)
  then show rows: "attribution_rows db' = map (\<lambda>r. if hit r then change r else r) (attribution_rows db)"
    and "rows = map change (filter hit (attribution_rows db))" and "email_verified db' = email_verified db" by simp_all
  have kept: "kept_attribution r (if hit r then change r else r)" if "r \<in> set (attribution_rows db)" for r
    using g(1) that ids [of r] by (auto simp: kept_attribution_def at_link_def protect_links_def protect_decision_def)
  then show "map at_link (attribution_rows db') = map at_link (attribution_rows db)"
    unfolding rows by (simp add: kept_attribution_def)
  show "attributions_extend db db'" unfolding attributions_extend_def
    by (rule exI [of _ "attribution_rows db'"]) (use kept in \<open>simp add: rows list.rel_map list.rel_refl_strong\<close>)
  show "attribution_checks (change r)" if "r \<in> set (attribution_rows db)" "hit r" for r using g(1) that by simp
  show "account_status pos m \<noteq> None" if "r \<in> set (attribution_rows db)" "hit r" "at_ModeratedBy (change r) = Some m" for r m
    using g(2) that by fastforce
qed

lemma update_attributions_keeps:
  assumes "update_attributions hit change pos db = Inr (rows, db')" "\<And>r. at_ID (change r) = at_ID r"
    and ok: "attributions_ok policy pos' args db"
  shows "attributions_ok policy pos' args db' \<and> attributions_extend db db'"
proof -
  note u = update_attributions_Inr [OF assms(1,2)]
  have "list_all attribution_checks (attribution_rows db')"
    using ok u(5) unfolding u(1) attributions_ok_def by (auto simp: list_all_iff)
  then show ?thesis using attributions_ok_links [OF ok u(3)] u(4) by simp
qed

section \<open>What a moderation does\<close>

text \<open>The row that a decision of the moderator account \<open>m\<close> makes of a row.\<close>

definition decided_row :: "ModerationDecision \<Rightarrow> uuid \<Rightarrow> AppPersuasionAttribution \<Rightarrow> AppPersuasionAttribution" where
  "decided_row decision m r =
     r\<lparr>at_Status := Decision_TargetStatus decision,
       at_InvalidatedAt := (if dec_Action decision = ''invalidate'' then Some (timestamptz (dec_DecidedAt decision)) else None),
       at_ModerationReason := Some (reason_String (dec_Reason decision)), at_ModeratedBy := Some m,
       at_ModeratedAt := Some (timestamptz (dec_DecidedAt decision))\<rparr>"

lemma decided_row_link [simp]: "at_link (decided_row decision m r) = at_link r" "at_ID (decided_row decision m r) = at_ID r"
  by (simp_all add: decided_row_def at_link_def)

lemma split_by_id:
  assumes "distinct (map at_ID rows)" "r \<in> set rows"
  obtains pre post where "rows = pre @ r # post" "\<forall>q \<in> set (pre @ post). at_ID q \<noteq> at_ID r"
proof -
  obtain pre post where s: "rows = pre @ r # post" using assms(2) by (auto simp: in_set_conv_decomp)
  have "\<forall>q \<in> set (pre @ post). at_ID q \<noteq> at_ID r"
    using assms(1) unfolding s by (simp add: image_iff) (metis Un_iff)
  then show ?thesis using that s by blast
qed

lemma one_decided:
  assumes "updated_one (update_attributions (\<lambda>r. at_ID r = u \<and> at_Status r = s) change pos db) = Inr (row, db')"
    and ids: "distinct (map at_ID (attribution_rows db))" "\<And>r. at_ID (change r) = at_ID r"
  obtains pre old post where "attribution_rows db = pre @ old # post" "at_ID old = u" "at_Status old = s" "row = change old"
    "attribution_rows db' = pre @ row # post" "attribution_checks row"
    "\<And>m. at_ModeratedBy row = Some m \<Longrightarrow> account_status pos m \<noteq> None" "email_verified db' = email_verified db"
proof -
  let ?hit = "\<lambda>r. at_ID r = u \<and> at_Status r = s"
  obtain rows db1 where c: "update_attributions ?hit change pos db = Inr (rows, db1)"
    "(case rows of [] \<Rightarrow> Inl NoRows | row # _ \<Rightarrow> Inr (row, db1)) = Inr (row, db')"
    using assms(1) by (auto simp: updated_one_def bind_r_Inr_iff)
  then obtain rest where call: "update_attributions ?hit change pos db = Inr (row # rest, db')" by (cases rows) auto
  note u = update_attributions_Inr [OF call ids(2)]
  obtain old more where f: "filter ?hit (attribution_rows db) = old # more" "row = change old" using u(2) by auto
  then have old: "old \<in> set (attribution_rows db)" "?hit old" by (auto dest: filter_eq_ConsD)
  obtain pre post where s: "attribution_rows db = pre @ old # post" "\<forall>q \<in> set (pre @ post). at_ID q \<noteq> at_ID old"
    using split_by_id [OF ids(1) old(1)] by blast
  have "map (\<lambda>r. if ?hit r then change r else r) pre = pre" "map (\<lambda>r. if ?hit r then change r else r) post = post"
    using s(2) old(2) by (auto intro!: map_idI)
  then have "attribution_rows db' = pre @ row # post" using u(1) s(1) old(2) f(2) by simp
  then show ?thesis using that s(1) old f(2) u(5,6,7) by blast
qed

lemma apply_decision_eq:
  assumes "scan (attribution_String i) = Some u" "scan (moderator_String (dec_Actor decision)) = Some m"
    "pg_text (reason_String (dec_Reason decision))" "dec_Action decision \<in> {''invalidate'', ''restore''}"
  shows "repo_ApplyModerationDecision scan i decision pos db =
    applied_row (updated_one (update_attributions
      (\<lambda>r. at_ID r = u \<and> at_Status r = (if dec_Action decision = ''invalidate'' then ''valid'' else ''invalid''))
      (decided_row decision m) pos db)) db"
proof -
  have inv: "(\<lambda>r. r\<lparr>at_Status := ''invalid'', at_InvalidatedAt := Some (timestamptz (dec_DecidedAt decision)),
      at_ModerationReason := Some (reason_String (dec_Reason decision)), at_ModeratedBy := Some m,
      at_ModeratedAt := Some (timestamptz (dec_DecidedAt decision))\<rparr>) = decided_row decision m"
    if "dec_Action decision = ''invalidate''"
    by (rule ext) (simp add: decided_row_def that Decision_TargetStatus_def Action_TargetStatus_def vocab)
  have res: "(\<lambda>r. r\<lparr>at_Status := ''valid'', at_InvalidatedAt := None, at_ModerationReason := Some (reason_String (dec_Reason decision)),
      at_ModeratedBy := Some m, at_ModeratedAt := Some (timestamptz (dec_DecidedAt decision))\<rparr>) = decided_row decision m"
    if "dec_Action decision = ''restore''"
    by (rule ext) (simp add: decided_row_def that Decision_TargetStatus_def Action_TargetStatus_def vocab)
  from assms(4) consider "dec_Action decision = ''invalidate''" | "dec_Action decision = ''restore''" by auto
  then show ?thesis
    by cases (simp_all add: repo_ApplyModerationDecision_def uuidParam_def vocab assms(1-3) sql_InvalidateAttribution_def
      sql_RestoreAttribution_def inv res)
qed

lemma moderation_reason_Inr:
  assumes "ParseReason raw = Inr reason"
  shows "reason_String reason = TrimSpace raw" "TrimSpace (reason_String reason) = reason_String reason" "reason_String reason \<noteq> []"
    "length (runes (reason_String reason)) \<le> 500" "\<not> list_ex (\<lambda>r. is_control r \<or> isBidiOverride r) (runes (reason_String reason))"
    "valid_utf8 raw"
  using assms by (auto simp: ParseReason_def Let_def maxReasonLength_def split: if_splits)

lemma validate_moderation_Inr:
  assumes "validateAttributionModeration authorized now cmd action = Inr (decision, i)"
  shows "authorized (dec_Actor decision)" "ParseModeratorID (mac_ActorAccountID cmd) = Inr (dec_Actor decision)"
    "ParseAttributionID (mac_AttributionID cmd) = Inr i" "ParseReason (mac_Reason cmd) = Inr (dec_Reason decision)"
    "dec_Action decision = action" "dec_DecidedAt decision = now" "action \<in> {''invalidate'', ''restore''}" "now \<noteq> 0"
  using assms unfolding validateAttributionModeration_def
  by (auto simp: bind_r_Inr_iff Let_def ModerationAction_IsValid_def decision_Validate_iff vocab split: if_splits)

text \<open>
  The one row that an applied decision moves, with the event that was recorded; the result describes it.
\<close>

definition moderated_row ::
  "(string \<Rightarrow> uuid option) \<Rightarrow> ModerationDecision \<Rightarrow> AttributionID \<Rightarrow> positions_db \<Rightarrow> moderated
     \<Rightarrow> AppPersuasionAttribution \<Rightarrow> AttributionModerationResult \<Rightarrow> moderated \<Rightarrow> bool" where
  "moderated_row scan decision i pos st old r st' \<longleftrightarrow>
     (\<exists>m pre post. scan (moderator_String (dec_Actor decision)) = Some m \<and> account_status pos m \<noteq> None
        \<and> attribution_rows (fst st) = pre @ old # post
        \<and> scan (attribution_String i) = Some (at_ID old)
        \<and> at_Status old = (if dec_Action decision = ''invalidate'' then ''valid'' else ''invalid'')
        \<and> attribution_rows (fst st') = pre @ decided_row decision m old # post
        \<and> attribution_checks (decided_row decision m old) \<and> email_verified (fst st') = email_verified (fst st)
        \<and> moderationAttribution (decided_row decision m old) = Inr (amr_Attribution r)
        \<and> snd st' = snd st @ [moderation_event decision (amr_Attribution r)])"

lemma transition_Inr:
  "transition a decision = Inr target \<Longrightarrow> attr_Decision target = decision"
  by (auto simp: transition_def Invalidate_def Restore_def bind_r_Inr_iff split: if_splits)

lemma moderate_transaction_Inr:
  assumes call: "moderate_transaction scan audit decision i pos st = (Inr r, st')"
    and ids: "distinct (map at_ID (attribution_rows (fst st)))"
    and dec: "dec_Action decision \<in> {''invalidate'', ''restore''}"
  shows "amr_Replayed r \<and> st' = st
      \<and> (\<exists>row \<in> set (attribution_rows (fst st)). scan (attribution_String i) = Some (at_ID row)
          \<and> at_Status row = Decision_TargetStatus decision \<and> moderationAttribution row = Inr (amr_Attribution r))
    \<or> \<not> amr_Replayed r \<and> audit (moderation_event decision (amr_Attribution r))
      \<and> (\<exists>old. moderated_row scan decision i pos st old r st')"
proof -
  obtain a where a: "repo_LockAttributionForModeration scan i (fst st) = Inr a"
    using call by (cases "repo_LockAttributionForModeration scan i (fst st)") (simp_all add: moderate_transaction_def)
  then obtain u row where u: "scan (attribution_String i) = Some u" "find (\<lambda>r. at_ID r = u) (attribution_rows (fst st)) = Some row"
    "moderationAttribution row = Inr a"
  proof -
    obtain u where u: "scan (attribution_String i) = Some u"
      "(case sql_GetAttributionForModeration u (fst st) of Inl NoRows \<Rightarrow> Inl ErrAttributionNotFound | Inl e \<Rightarrow> Inl (PersuasionPg e)
        | Inr row \<Rightarrow> moderationAttribution row) = Inr a"
      using a by (auto simp: repo_LockAttributionForModeration_def bind_r_Inr_iff uuidParam_Inr)
    then show ?thesis using that
      by (cases "find (\<lambda>r. at_ID r = u) (attribution_rows (fst st))")
        (simp_all add: sql_GetAttributionForModeration_def del: find_key_None)
  qed
  have row: "row \<in> set (attribution_rows (fst st))" "at_ID row = u" using find_key_Some [OF u(2)] by simp_all
  have status: "attr_Status a = at_Status row"
    using u(3) by (auto simp: moderationAttribution_def bind_r_Inr_iff Let_def ParseAttributionStatus_def stored_def split: if_splits option.splits)
  show ?thesis
  proof (cases "attr_Status a = Decision_TargetStatus decision")
    case True
    then have "amr_Replayed r \<and> st' = st \<and> amr_Attribution r = a" using call a by (auto simp: moderate_transaction_def)
    then show ?thesis using u row status True by auto
  next
    case False
    note call = call [unfolded moderate_transaction_def a sum.case if_not_P [OF False]]
    obtain target where t: "transition a decision = Inr target" using call by (cases "transition a decision") simp_all
    note call = call [unfolded t sum.case transition_Inr [OF t]]
    obtain applied db where ap: "repo_ApplyModerationDecision scan i decision pos (fst st) = (Inr applied, db)"
      and au: "audit (moderation_event decision applied)"
      and r: "r = \<lparr>amr_Attribution = applied, amr_Replayed = False\<rparr>" "st' = (db, snd st @ [moderation_event decision applied])"
      using call by (auto split: prod.splits sum.splits if_splits)
    obtain m where m: "scan (moderator_String (dec_Actor decision)) = Some m"
      using ap by (auto simp: repo_ApplyModerationDecision_def uuidParam_def split: option.splits)
    have ptext: "pg_text (reason_String (dec_Reason decision))"
    proof (rule ccontr)
      assume "\<not> ?thesis"
      then show False using ap
        by (auto simp: repo_ApplyModerationDecision_def uuidParam_def applied_row_def sql_InvalidateAttribution_def
            sql_RestoreAttribution_def split: option.splits if_splits)
    qed
    let ?s = "if dec_Action decision = ''invalidate'' then ''valid'' else ''invalid''"
    obtain new where one: "updated_one (update_attributions (\<lambda>r. at_ID r = u \<and> at_Status r = ?s) (decided_row decision m) pos (fst st)) = Inr (new, db)"
      and mapped: "moderationAttribution new = Inr applied"
      using ap unfolding apply_decision_eq [OF u(1) m ptext dec] applied_row_def by (auto split: sum.splits pg_error.splits)
    obtain pre old post where o: "attribution_rows (fst st) = pre @ old # post" "at_ID old = u" "at_Status old = ?s"
      "new = decided_row decision m old" "attribution_rows db = pre @ new # post" "attribution_checks new"
      "\<And>m. at_ModeratedBy new = Some m \<Longrightarrow> account_status pos m \<noteq> None" "email_verified db = email_verified (fst st)"
      by (rule one_decided [OF one ids decided_row_link(2)]) blast
    have "account_status pos m \<noteq> None" using o(7) [of m] o(4) by (simp add: decided_row_def)
    then have "moderated_row scan decision i pos st old r st'"
      unfolding moderated_row_def using m u(1) o(1,2,3,4,5,6,8) mapped r by auto
    then show ?thesis using au r by auto
  qed
qed

end
