(* ===== verification/PersuasionHistory.thy ===== *)
theory PersuasionHistory
  imports PersuasionDecisions
begin

text \<open>
  Histories of the composed state: the positions, the wallet and the arguments, and the attributions with the
  events that the audit recorder took. A step is a step of the positions module, a step of a debate (wallet and
  arguments), a request of the persuasion module, a moderation statement on the attributions of an argument, or
  the environment.
\<close>

section \<open>How a recording ends\<close>

lemma record_ends:
  assumes call: "RecordAttributions_Execute scan policy cmd seen pos args db = (res, db')"
    and sc: "reads_canonical scan" and d: "distinct (map ag_ID (argument_rows seen))"
  shows "(\<exists>e. res = Inl e) \<and> db' = db
    \<or> (\<exists>r attributorID changeID requested c new. res = Inr r \<and> EligibilityPolicy_IsValid policy
        \<and> ParseAttributorID (rec_AccountID cmd) = Inr attributorID \<and> ParseChangeID (rec_ChangeID cmd) = Inr changeID
        \<and> parseArgumentIDs (rec_ArgumentIDs cmd) = Inr requested
        \<and> int (length requested) \<le> MaxAttributions policy
        \<and> recorded_selection scan policy changeID attributorID requested c seen pos db new r db')"
proof (cases "EligibilityPolicy_IsValid policy")
  case valid: True
  let ?parse = "bind_r (ParseAttributorID (rec_AccountID cmd)) (\<lambda>attributorID. bind_r (ParseChangeID (rec_ChangeID cmd)) (\<lambda>changeID.
    bind_r (parseArgumentIDs (rec_ArgumentIDs cmd)) (\<lambda>requested. Inr (attributorID, changeID, requested))))"
  show ?thesis
  proof (cases ?parse)
    case (Inl e)
    then show ?thesis using call valid by (auto simp: RecordAttributions_Execute_def)
  next
    case (Inr p)
    then obtain u i q where p: "p = (u, i, q)" "ParseAttributorID (rec_AccountID cmd) = Inr u" "ParseChangeID (rec_ChangeID cmd) = Inr i"
      "parseArgumentIDs (rec_ArgumentIDs cmd) = Inr q" by (auto simp: bind_r_Inr_iff)
    note call = call [unfolded RecordAttributions_Execute_def Inr p(1) sum.case prod.case]
    obtain r1 s where body: "record_transaction scan policy u i q seen pos args db = (r1, s)"
      by (cases "record_transaction scan policy u i q seen pos args db")
    show ?thesis
    proof (cases "int (length q) > MaxAttributions policy \<or> (\<exists>e. r1 = Inl e)")
      case True
      then show ?thesis using call valid body by (auto simp: WithinTransaction_def split: if_splits)
    next
      case False
      then obtain r where r: "r1 = Inr r" by (cases r1) auto
      then have "res = Inr r" "db' = s" using call valid body False by (auto simp: WithinTransaction_def)
      moreover obtain c new where "recorded_selection scan policy i u q c seen pos db new r s"
        by (rule record_transaction_Inr [OF body [unfolded r] sc d])
      ultimately show ?thesis using valid p False by fastforce
    qed
  qed
qed (use call in \<open>auto simp: RecordAttributions_Execute_def\<close>)

section \<open>How a moderation ends\<close>

lemma moderation_ends:
  assumes call: "moderateAttribution scan authorized audit now cmd action pos st = (res, st')"
    and ids: "distinct (map at_ID (attribution_rows (fst st)))"
  shows "(\<exists>e. res = Inl e) \<and> st' = st
    \<or> (\<exists>r decision i. res = Inr r \<and> validateAttributionModeration authorized now cmd action = Inr (decision, i)
        \<and> (amr_Replayed r \<and> st' = st
            \<and> (\<exists>row \<in> set (attribution_rows (fst st)). scan (attribution_String i) = Some (at_ID row)
                \<and> at_Status row = Action_TargetStatus action \<and> moderationAttribution row = Inr (amr_Attribution r))
          \<or> \<not> amr_Replayed r \<and> audit (moderation_event decision (amr_Attribution r))
            \<and> (\<exists>old. moderated_row scan decision i pos st old r st')))"
proof (cases "validateAttributionModeration authorized now cmd action")
  case (Inl e)
  then show ?thesis using call by (auto simp: moderateAttribution_def)
next
  case (Inr p)
  obtain decision i where p: "p = (decision, i)" by (cases p)
  note v = validate_moderation_Inr [OF Inr [unfolded p]]
  obtain r1 s where body: "moderate_transaction scan audit decision i pos st = (r1, s)"
    by (cases "moderate_transaction scan audit decision i pos st")
  show ?thesis
  proof (cases r1)
    case (Inl e)
    then show ?thesis using call body \<open>validateAttributionModeration _ _ _ _ = _\<close> p
      by (auto simp: moderateAttribution_def WithinTransaction_def)
  next
    case r: (Inr r)
    have st: "res = Inr r" "st' = s" using call body Inr p r by (simp_all add: moderateAttribution_def WithinTransaction_def)
    have "dec_Action decision \<in> {''invalidate'', ''restore''}" using v(5,7) by simp
    from moderate_transaction_Inr [OF body [unfolded r] ids this] show ?thesis
      using st Inr p v(5) by (auto simp: Decision_TargetStatus_def)
  qed
qed

section \<open>Histories\<close>

record forum =
  f_positions :: positions_db
  f_debate :: debate
  f_attributions :: persuasion_db
  f_events :: "AttributionModerationEvent list"

definition f_arguments :: "forum \<Rightarrow> arguments_db" where
  "f_arguments st = snd (f_debate st)"

definition with_moderated :: "forum \<Rightarrow> moderated \<Rightarrow> forum" where
  "with_moderated st m = st\<lparr>f_attributions := fst m, f_events := snd m\<rparr>"

text \<open>
  A history lists the states newest first. A recording may have read its candidates from any state of the
  history. The environment moves the clock, verifies addresses and may hand out any UUID.
\<close>

inductive forum_history ::
  "(string \<Rightarrow> uuid option) \<Rightarrow> ReplyPolicy \<Rightarrow> EligibilityPolicy \<Rightarrow> forum list \<Rightarrow> bool" for scan replies policy where
  start: "positions_run scan [f_positions st] \<Longrightarrow> debate_history scan replies [f_debate st] \<Longrightarrow>
    attribution_rows (f_attributions st) = [] \<Longrightarrow> forum_history scan replies policy [st]"
| positions: "forum_history scan replies policy (st # past) \<Longrightarrow> positions_run scan (pos' # map f_positions (st # past)) \<Longrightarrow>
    forum_history scan replies policy (st\<lparr>f_positions := pos'\<rparr> # st # past)"
| debate: "forum_history scan replies policy (st # past) \<Longrightarrow> debate_history scan replies (d' # map f_debate (st # past)) \<Longrightarrow>
    forum_history scan replies policy (st\<lparr>f_debate := d'\<rparr> # st # past)"
| recording: "forum_history scan replies policy (st # past) \<Longrightarrow> seen \<in> f_arguments ` set (st # past) \<Longrightarrow>
    RecordAttributions_Execute scan policy cmd seen (f_positions st) (f_arguments st) (f_attributions st) = (res, db') \<Longrightarrow>
    forum_history scan replies policy (st\<lparr>f_attributions := db'\<rparr> # st # past)"
| invalidate: "forum_history scan replies policy (st # past) \<Longrightarrow>
    InvalidateAttribution_Execute scan authorized audit now mcmd (f_positions st) (f_attributions st, f_events st) = (mres, m') \<Longrightarrow>
    forum_history scan replies policy (with_moderated st m' # st # past)"
| restore: "forum_history scan replies policy (st # past) \<Longrightarrow>
    RestoreAttribution_Execute scan authorized audit now mcmd (f_positions st) (f_attributions st, f_events st) = (mres, m') \<Longrightarrow>
    forum_history scan replies policy (with_moderated st m' # st # past)"
| removal: "forum_history scan replies policy (st # past) \<Longrightarrow>
    sql_InvalidateArgumentAttributions i reason m (f_positions st) (f_attributions st) = Inr (n, db') \<Longrightarrow>
    forum_history scan replies policy (st\<lparr>f_attributions := db'\<rparr> # st # past)"
| appeal: "forum_history scan replies policy (st # past) \<Longrightarrow>
    sql_RestoreArgumentAttributions i reason m (f_positions st) (f_attributions st) = Inr (n, db') \<Longrightarrow>
    forum_history scan replies policy (st\<lparr>f_attributions := db'\<rparr> # st # past)"
| environment: "forum_history scan replies policy (st # past) \<Longrightarrow>
    forum_history scan replies policy
      (st\<lparr>f_attributions := f_attributions st\<lparr>at_uuid_gen := g, at_uuid_next := k, at_now := t, email_verified := v\<rparr>\<rparr> # st # past)"

lemma positions_stutter: "positions_run scan (db # past) \<Longrightarrow> positions_run scan (db # db # past)"
  using positions_run.environment [where db = db and n = "pos_uuid_next db" and g = "pos_uuid_gen db" and arenas = "arena_ids db" and accts = "account_status db"] by simp

lemma debate_stutter: "debate_history scan replies (st # past) \<Longrightarrow> debate_history scan replies (st # st # past)"
proof -
  assume h: "debate_history scan replies (st # past)"
  obtain w db where st: "st = (w, db)" by (cases st)
  show ?thesis using debate_history.environment [where db = db and as = "arg_arenas db" and cs = "arg_accounts db"
      and g = "arg_uuid_gen db" and n = "arg_uuid_next db" and t = "arg_now db"] h st by simp
qed

lemma forum_projections:
  "forum_history scan replies policy run \<Longrightarrow>
     positions_run scan (map f_positions run) \<and> debate_history scan replies (map f_debate run)"
proof (induction rule: forum_history.induct)
  case (start st)
  then show ?case by simp
qed (auto simp: with_moderated_def intro: positions_stutter debate_stutter)

section \<open>The invariant\<close>

definition forum_ok :: "EligibilityPolicy \<Rightarrow> forum \<Rightarrow> bool" where
  "forum_ok policy st \<longleftrightarrow> attributions_ok policy (f_positions st) (f_arguments st) (f_attributions st)"

definition forum_extends :: "forum \<Rightarrow> forum \<Rightarrow> bool" where
  "forum_extends old new \<longleftrightarrow> positions_extends (f_positions old) (f_positions new) \<and> arguments_extends (f_arguments old) (f_arguments new)
     \<and> attributions_extend (f_attributions old) (f_attributions new) \<and> (\<exists>more. f_events new = f_events old @ more)"

lemma forum_extends_refl [simp]: "forum_extends st st"
  by (simp add: forum_extends_def attributions_extend_rows)

lemma forum_extends_trans: "forum_extends a b \<Longrightarrow> forum_extends b c \<Longrightarrow> forum_extends a c"
  unfolding forum_extends_def using positions_extends_trans extends_trans attributions_extend_trans by (metis append.assoc)

lemma decided_keeps:
  assumes "moderateAttribution scan authorized audit now cmd action pos (db, events) = (res, db', events')"
    and ok: "attributions_ok policy pos' args db"
  shows "attributions_ok policy pos' args db' \<and> attributions_extend db db' \<and> (\<exists>more. events' = events @ more)"
proof -
  have ids: "distinct (map at_ID (attribution_rows (fst (db, events))))" using ok by (simp add: attributions_ok_def)
  show ?thesis using moderation_ends [OF assms(1) ids]
  proof (elim disjE exE conjE)
    fix r decision i old
    assume "moderated_row scan decision i pos (db, events) old r (db', events')"
    then obtain m pre post where m: "attribution_rows db = pre @ old # post"
      "attribution_rows db' = pre @ decided_row decision m old # post" "attribution_checks (decided_row decision m old)"
      "events' = events @ [moderation_event decision (amr_Attribution r)]"
      by (auto simp: moderated_row_def)
    have links: "map at_link (attribution_rows db') = map at_link (attribution_rows db)" using m(1,2) by simp
    have "list_all attribution_checks (attribution_rows db')" using ok m(1-3) by (auto simp: attributions_ok_def)
    moreover have "kept_attribution old (decided_row decision m old)" by (simp add: kept_attribution_def) (simp add: decided_row_def)
    then have "attributions_extend db db'" unfolding attributions_extend_def m(1,2)
      by (intro exI [of _ "pre @ decided_row decision m old # post"] exI [of _ "[]"])
        (simp add: list.rel_refl list_all2_appendI)
    ultimately show ?thesis using attributions_ok_links [OF ok links] m(4) by blast
  qed (use ok in \<open>auto simp: attributions_extend_rows\<close>)
qed

lemma forum_step:
  assumes "forum_ok policy st \<and> (\<forall>old \<in> set past. forum_ok policy old \<and> forum_extends old st)"
    and "forum_ok policy st' \<and> forum_extends st st'"
  shows "forum_ok policy st' \<and> (\<forall>old \<in> set (st # past). forum_ok policy old \<and> forum_extends old st')"
proof (intro conjI ballI)
  fix old assume "old \<in> set (st # past)"
  then consider "old = st" | "old \<in> set past" by auto
  then show "forum_extends old st'"
    by cases (use assms forum_extends_trans in blast)+
qed (use assms in auto)

lemma attributions_step:
  assumes "forum_ok policy st" "attributions_ok policy (f_positions st) (f_arguments st) db' \<and> attributions_extend (f_attributions st) db'"
  shows "forum_ok policy (st\<lparr>f_attributions := db'\<rparr>) \<and> forum_extends st (st\<lparr>f_attributions := db'\<rparr>)"
  using assms by (simp add: forum_ok_def forum_extends_def f_arguments_def)

lemma seen_arguments:
  assumes h: "forum_history scan replies policy (st # past)" and sc: "reads_canonical scan" and s: "seen \<in> f_arguments ` set (st # past)"
  shows "distinct (map ag_ID (argument_rows seen))" "arguments_extends seen (f_arguments st)"
proof -
  have "debate_history scan replies (f_debate st # map f_debate past)" using forum_projections [OF h] by simp
  from debate_invariant [OF this sc] show "distinct (map ag_ID (argument_rows seen))" "arguments_extends seen (f_arguments st)"
    using s by (auto simp: f_arguments_def debate_ok_def debate_extends_def arguments_ok_def)
qed

lemma moderated_step:
  assumes "moderateAttribution scan authorized audit now cmd action (f_positions st) (f_attributions st, f_events st) = (res, m')"
    and "forum_ok policy st"
  shows "forum_ok policy (with_moderated st m') \<and> forum_extends st (with_moderated st m')"
proof -
  obtain db' events' where m: "m' = (db', events')" by (cases m')
  show ?thesis using decided_keeps [OF assms(1) [unfolded m], of policy "f_positions st" "f_arguments st"] assms(2)
    by (simp add: m with_moderated_def forum_ok_def forum_extends_def f_arguments_def)
qed

lemma statements_keep:
  "sql_InvalidateArgumentAttributions i reason m pos db = Inr (n, db') \<Longrightarrow> attributions_ok policy pos' args db
     \<Longrightarrow> attributions_ok policy pos' args db' \<and> attributions_extend db db'"
  "sql_RestoreArgumentAttributions i reason m pos db = Inr (n, db') \<Longrightarrow> attributions_ok policy pos' args db
     \<Longrightarrow> attributions_ok policy pos' args db' \<and> attributions_extend db db'"
  unfolding sql_InvalidateArgumentAttributions_def sql_RestoreArgumentAttributions_def bind_r_Inr_iff
  by (auto dest!: update_attributions_keeps)

lemma forum_invariant:
  assumes "forum_history scan replies policy (st # past)" "reads_canonical scan"
  shows "forum_ok policy st \<and> (\<forall>old \<in> set past. forum_ok policy old \<and> forum_extends old st)"
  using assms(1)
proof (induction "st # past" arbitrary: st past rule: forum_history.induct)
  case (start st)
  then show ?case by (simp add: forum_ok_def attributions_ok_def)
next
  case (positions st past pos')
  have "positions_extends (f_positions st) pos'"
    by (rule run_past_ok(3) [OF assms(2) positions.hyps(3)]) simp
  then have "forum_ok policy (st\<lparr>f_positions := pos'\<rparr>) \<and> forum_extends st (st\<lparr>f_positions := pos'\<rparr>)"
    using positions.hyps(2) attributions_ok_later [of policy "f_positions st" "f_arguments st" _ pos' "f_arguments st"]
    by (auto simp: forum_ok_def forum_extends_def f_arguments_def attributions_extend_rows)
  then show ?case by (rule forum_step [OF positions.hyps(2)])
next
  case (debate st past d')
  have "arguments_extends (f_arguments st) (snd d')"
    using debate_invariant [OF debate.hyps(3) assms(2)] by (simp add: debate_extends_def f_arguments_def)
  then have "forum_ok policy (st\<lparr>f_debate := d'\<rparr>) \<and> forum_extends st (st\<lparr>f_debate := d'\<rparr>)"
    using debate.hyps(2) attributions_ok_later [of policy "f_positions st" "f_arguments st" _ "f_positions st" "snd d'"]
    by (auto simp: forum_ok_def forum_extends_def f_arguments_def attributions_extend_rows)
  then show ?case by (rule forum_step [OF debate.hyps(2)])
next
  case (recording st past seen cmd res db')
  note seen = seen_arguments [OF recording.hyps(1) assms(2) recording.hyps(3)]
  have ok: "attributions_ok policy (f_positions st) (f_arguments st) (f_attributions st)" using recording.hyps(2) by (simp add: forum_ok_def)
  have "attributions_ok policy (f_positions st) (f_arguments st) db' \<and> attributions_extend (f_attributions st) db'"
    using record_ends [OF recording.hyps(4) assms(2) seen(1)]
  proof (elim disjE exE conjE)
    fix r attributorID changeID requested c new
    assume "recorded_selection scan policy changeID attributorID requested c seen (f_positions st) (f_attributions st) new r db'"
    then show ?thesis by (rule recorded_keeps [OF ok seen(2)])
  qed (use ok in \<open>simp add: attributions_extend_rows\<close>)
  from attributions_step [OF _ this] recording.hyps(2) show ?case using forum_step [OF recording.hyps(2)] by blast
next
  case (invalidate st past authorized audit now mcmd mres m')
  then show ?case using forum_step [OF invalidate.hyps(2)] moderated_step [OF invalidate.hyps(3) [unfolded InvalidateAttribution_Execute_def]]
    by blast
next
  case (restore st past authorized audit now mcmd mres m')
  then show ?case using forum_step [OF restore.hyps(2)] moderated_step [OF restore.hyps(3) [unfolded RestoreAttribution_Execute_def]]
    by blast
next
  case (removal st past i reason m n db')
  then show ?case using forum_step [OF removal.hyps(2)] attributions_step statements_keep(1) [OF removal.hyps(3)]
    by (metis forum_ok_def)
next
  case (appeal st past i reason m n db')
  then show ?case using forum_step [OF appeal.hyps(2)] attributions_step statements_keep(2) [OF appeal.hyps(3)]
    by (metis forum_ok_def)
next
  case (environment st past v t k g)
  let ?db = "f_attributions st\<lparr>at_uuid_gen := g, at_uuid_next := k, at_now := t, email_verified := v\<rparr>"
  have "attributions_ok policy (f_positions st) (f_arguments st) ?db \<and> attributions_extend (f_attributions st) ?db"
    using environment.hyps(2) by (auto simp: forum_ok_def attributions_ok_def change_attributions_def attributions_extend_rows)
  then show ?case using forum_step [OF environment.hyps(2)] attributions_step environment.hyps(2) by blast
qed

end
