(* ===== verification/PersuasionProperties.thy ===== *)
theory PersuasionProperties
  imports PersuasionHistory
begin

text \<open>
  The properties of attributions over every history of the composed state of positions, debate and
  attributions.
\<close>

section \<open>The attributions of a history\<close>

text \<open>
  C8. In every state of every history each attribution credits a stored argument of the Arena of its change,
  published strictly before the change and written by somebody else; its attributor made the change; a change
  credits an argument at most once and at most \<open>MaxAttributions\<close> arguments, whatever states the candidates were
  read from; and an invalid attribution carries the reason, the moderator and the instant of its decision.
\<close>

theorem attributions_sound:
  assumes "forum_history scan replies policy (st # past)" "reads_canonical scan"
  shows "(\<forall>r \<in> set (attribution_rows (f_attributions st)).
        (\<exists>c \<in> set (position_changes (f_positions st)). \<exists>a \<in> set (argument_rows (f_arguments st)).
           pc_ID c = at_ChangeID r \<and> AppPositionChange.pc_AccountID c = at_AttributorID r \<and> ag_ID a = at_ArgumentID r
         \<and> ag_ArenaID a = AppPositionChange.pc_ArenaID c \<and> ag_AuthorID a \<noteq> at_AttributorID r \<and> ag_CreatedAt a < pc_ChangedAt c)
      \<and> int (length (change_attributions (at_ChangeID r) (f_attributions st))) \<le> MaxAttributions policy
      \<and> (at_Status r = ''valid'' \<or> at_Status r = ''invalid'' \<and> at_ModerationReason r \<noteq> None \<and> at_ModeratedBy r \<noteq> None
           \<and> at_ModeratedAt r \<noteq> None \<and> at_ModeratedAt r = at_InvalidatedAt r))
    \<and> distinct (map at_ID (attribution_rows (f_attributions st)))
    \<and> distinct (map (\<lambda>r. (at_ChangeID r, at_ArgumentID r)) (attribution_rows (f_attributions st)))"
proof -
  have ok: "attributions_ok policy (f_positions st) (f_arguments st) (f_attributions st)"
    using forum_invariant [OF assms] by (simp add: forum_ok_def)
  have pair: "(\<lambda>r. (at_ChangeID r, at_ArgumentID r)) = pair_of" by (simp add: fun_eq_iff pair_of_def)
  show ?thesis unfolding pair
    using ok unfolding attributions_ok_def list_all_iff sound_credit_def attribution_checks_def by (intro conjI ballI) auto
qed

text \<open>
  C21. An attribution is never lost: in every later state the row is there with its links, its attributor and its
  instant, and a decision once recorded on it is never erased; the events the recorder took stay as they are.
\<close>

theorem attributions_permanent:
  assumes "forum_history scan replies policy (st # past)" "reads_canonical scan" "old \<in> set past"
    "r \<in> set (attribution_rows (f_attributions old))"
  shows "\<exists>r' \<in> set (attribution_rows (f_attributions st)).
      at_ID r' = at_ID r \<and> at_ChangeID r' = at_ChangeID r \<and> at_AttributorID r' = at_AttributorID r
    \<and> at_ArgumentID r' = at_ArgumentID r \<and> at_CreatedAt r' = at_CreatedAt r
    \<and> (at_ModerationReason r \<noteq> None \<longrightarrow> at_ModerationReason r' \<noteq> None)
    \<and> (\<exists>more. f_events st = f_events old @ more)"
proof -
  have e: "forum_extends old st" using forum_invariant [OF assms(1,2)] assms(3) by blast
  then obtain r' where r': "r' \<in> set (attribution_rows (f_attributions st))" "kept_attribution r r'"
    using attributions_extend_member assms(4) unfolding forum_extends_def by blast
  have "\<exists>more. f_events st = f_events old @ more" using e by (simp add: forum_extends_def)
  then show ?thesis using r' link_parts [of r' r] unfolding kept_attribution_def by blast
qed

section \<open>Recording\<close>

text \<open>
  C9. A recording fails and changes nothing, or it found the change of the caller and appended one valid row for
  each requested argument that the change did not credit yet and that it read as eligible: afterwards the change
  credits what it credited before and the requested arguments, and the result names exactly these.
\<close>

theorem RecordAttributions_exact:
  assumes "forum_history scan replies policy (st # past)" "reads_canonical scan" "seen \<in> f_arguments ` set (st # past)"
    and "RecordAttributions_Execute scan policy cmd seen (f_positions st) (f_arguments st) (f_attributions st) = (res, db')"
  shows "(\<exists>e. res = Inl e) \<and> db' = f_attributions st
    \<or> (\<exists>r attributorID changeID requested c new. res = Inr r \<and> EligibilityPolicy_IsValid policy
        \<and> ParseAttributorID (rec_AccountID cmd) = Inr attributorID \<and> ParseChangeID (rec_ChangeID cmd) = Inr changeID
        \<and> parseArgumentIDs (rec_ArgumentIDs cmd) = Inr requested \<and> int (length requested) \<le> MaxAttributions policy
        \<and> recorded_selection scan policy changeID attributorID requested c seen (f_positions st) (f_attributions st) new r db')"
  by (rule record_ends [OF assms(4,2) seen_arguments(1) [OF assms(1-3)]])

text \<open>What a successful recording leaves behind, in the words of its request.\<close>

lemma recorded_parts:
  assumes "recorded_selection scan policy changeID attributorID requested c seen pos db new r db'"
  shows "credited (pc_ID c) db' = credited (pc_ID c) db \<union> {i. Some i \<in> (scan \<circ> argument_String) ` set requested}"
    "attribution_rows db' = attribution_rows db @ new"
    "list_all (fresh_row (pc_ID c) (AppPositionChange.pc_AccountID c) (timestamptz (at_now db))) new"
    "at_ArgumentID ` set new \<inter> credited (pc_ID c) db = {}"
proof -
  note r = assms [unfolded recorded_selection_def]
  show "credited (pc_ID c) db' = credited (pc_ID c) db \<union> {i. Some i \<in> (scan \<circ> argument_String) ` set requested}"
    using r by (elim conjE) assumption
  show "attribution_rows db' = attribution_rows db @ new" using r by (elim conjE) assumption
  show "list_all (fresh_row (pc_ID c) (AppPositionChange.pc_AccountID c) (timestamptz (at_now db))) new"
    using r by (elim conjE) assumption
  show "at_ArgumentID ` set new \<inter> credited (pc_ID c) db = {}" using r by (elim conjE) assumption
qed

lemma recorded_nothing_new:
  assumes rec: "recorded_selection scan policy changeID attributorID requested c seen pos db new r db'"
    and all: "{i. Some i \<in> (scan \<circ> argument_String) ` set requested} \<subseteq> credited (pc_ID c) db"
  shows "attribution_rows db' = attribution_rows db"
proof -
  note p = recorded_parts [OF rec]
  have "at_ArgumentID ` set new \<subseteq> credited (pc_ID c) db" using credited_append [OF p(2,3)] p(1) all by auto
  then have "at_ArgumentID ` set new = {}" using p(4) by (metis Int_absorb2)
  then show ?thesis using p(2) by simp
qed

text \<open>
  C22. Once a selection was recorded for a change, recording it again, at any later state and whatever states its
  reads see, adds no row.
\<close>

theorem recording_again:
  assumes h: "forum_history scan replies policy (st # past)" "reads_canonical scan" and st1: "st1 \<in> set (st # past)"
    and first: "seen1 \<in> f_arguments ` set (st # past)"
      "RecordAttributions_Execute scan policy cmd seen1 pos1 args1 db1 = (Inr r1, f_attributions st1)"
    and again: "seen \<in> f_arguments ` set (st # past)"
      "RecordAttributions_Execute scan policy cmd seen (f_positions st) (f_arguments st) (f_attributions st) = (res, db')"
  shows "attribution_rows db' = attribution_rows (f_attributions st)"
proof -
  have ext: "attributions_extend (f_attributions st1) (f_attributions st)"
    using forum_invariant [OF h] st1 by (auto simp: forum_extends_def attributions_extend_rows)
  obtain u1 i1 q1 c1 new1 where 1: "ParseChangeID (rec_ChangeID cmd) = Inr i1" "parseArgumentIDs (rec_ArgumentIDs cmd) = Inr q1"
    "recorded_selection scan policy i1 u1 q1 c1 seen1 pos1 db1 new1 r1 (f_attributions st1)"
    using record_ends [OF first(2) h(2) seen_arguments(1) [OF h first(1)]] by auto
  from record_ends [OF again(2) h(2) seen_arguments(1) [OF h again(1)]]
  show ?thesis
  proof (elim disjE exE conjE)
    fix r u i q c new
    assume 2: "ParseChangeID (rec_ChangeID cmd) = Inr i" "parseArgumentIDs (rec_ArgumentIDs cmd) = Inr q"
      "recorded_selection scan policy i u q c seen (f_positions st) (f_attributions st) new r db'"
    have same: "i = i1" "q = q1" using 1(1,2) 2(1,2) by simp_all
    then have "pc_ID c = pc_ID c1" using 1(3) 2(3) by (simp add: recorded_selection_def)
    then have "{a. Some a \<in> (scan \<circ> argument_String) ` set q} \<subseteq> credited (pc_ID c) (f_attributions st)"
      using recorded_parts(1) [OF 1(3)] credited_mono [OF ext, of "pc_ID c"] same by auto
    then show ?thesis by (rule recorded_nothing_new [OF 2(3)])
  qed simp
qed

text \<open>
  A request all of whose arguments, written in the canonical form, its change already credits is answered as
  a replay of the recorded selection, in any state, without a write.
\<close>

theorem recorded_selection_replays:
  assumes h: "forum_history scan replies policy (st # past)" "reads_canonical scan" and policy: "EligibilityPolicy_IsValid policy"
    and parse: "ParseAttributorID (rec_AccountID cmd) = Inr u" "ParseChangeID (rec_ChangeID cmd) = Inr i"
    and c: "c \<in> set (position_changes (f_positions st))" "scan (change_String i) = Some (pc_ID c)"
      "scan (attributor_String u) = Some (AppPositionChange.pc_AccountID c)"
    and args: "rec_ArgumentIDs cmd = map (\<lambda>a. uuidToString (Some a)) ids" "set ids \<subseteq> credited (pc_ID c) (f_attributions st)"
      "ids \<noteq> []" "distinct ids"
  shows "\<exists>r. RecordAttributions_Execute scan policy cmd seen (f_positions st) (f_arguments st) (f_attributions st) = (Inr r, f_attributions st)
    \<and> rar_Replayed r \<and> argument_String ` set (rar_ArgumentIDs r) = (\<lambda>a. uuidToString (Some a)) ` credited (pc_ID c) (f_attributions st)"
proof -
  let ?db = "f_attributions st"
  have ok: "attributions_ok policy (f_positions st) (f_arguments st) ?db" using forum_invariant [OF h] by (simp add: forum_ok_def)
  have q: "parseArgumentIDs (map (\<lambda>a. uuidToString (Some a)) ids) = Inr (map (\<lambda>a. ArgumentID (uuidToString (Some a))) ids)"
    by (induction ids) (simp_all add: stored_uuid_parses)
  obtain k where k: "find (\<lambda>k. pc_ID k = pc_ID c \<and> AppPositionChange.pc_AccountID k = AppPositionChange.pc_AccountID c)
      (position_changes (f_positions st)) = Some k"
    using c(1) by (cases "find (\<lambda>k. pc_ID k = pc_ID c \<and> AppPositionChange.pc_AccountID k = AppPositionChange.pc_AccountID c)
      (position_changes (f_positions st))") (auto simp: find_None_iff)
  then have lock: "repo_LockChangeForAttributor scan i u (f_positions st) = Inr (change_of_row i k)"
    by (simp add: repo_LockChangeForAttributor_def uuidParam_def c(2,3) sql_GetPositionChangeForAttributor_def stored_uuid_parses change_of_row_def)
  define existing where "existing = map (\<lambda>a. ArgumentID (uuidToString (Some a))) (sql_ListAttributionArgumentIDs (pc_ID c) ?db)"
  have listed: "repo_ListAttributedArgumentIDs scan i ?db = Inr existing" using list_attributed_Inr c(2) existing_def by blast
  have strings: "argument_String ` set existing = (\<lambda>a. uuidToString (Some a)) ` credited (pc_ID c) ?db"
    by (simp add: existing_def image_image listed_arguments)
  have "new_argument_ids (argument_String ` set existing) seen' (map (\<lambda>a. ArgumentID (uuidToString (Some a))) js) = Inr []"
    if "set js \<subseteq> credited (pc_ID c) ?db" for js seen'
    using that unfolding strings by (induction js) auto
  then have new: "new_argument_ids (argument_String ` set existing) {} (map (\<lambda>a. ArgumentID (uuidToString (Some a))) ids) = Inr []"
    using args(2) by blast
  have "change_attributions (pc_ID c) ?db \<noteq> []" using args(2,3) by (auto simp: credited_def)
  then have "hd (change_attributions (pc_ID c) ?db) \<in> set (change_attributions (pc_ID c) ?db)" by simp
  then obtain n where "n \<in> set (attribution_rows ?db)" "at_ChangeID n = pc_ID c" by (auto simp: change_attributions_def)
  then have limit: "int (length (change_attributions (pc_ID c) ?db)) \<le> MaxAttributions policy"
    using ok by (auto simp: attributions_ok_def list_all_iff)
  have len: "length existing = length (change_attributions (pc_ID c) ?db)" by (simp add: existing_def sql_ListAttributionArgumentIDs_def)
  have "existing \<noteq> []" using len \<open>change_attributions (pc_ID c) ?db \<noteq> []\<close> by auto
  have "length ids = card (set ids)" using args(4) by (simp add: distinct_card)
  also have "\<dots> \<le> card (credited (pc_ID c) ?db)" using args(2) by (intro card_mono) (simp_all add: credited_def)
  also have "\<dots> \<le> length (change_attributions (pc_ID c) ?db)" unfolding credited_def by (metis card_image_le card_length finite_set le_trans)
  finally have "int (length ids) \<le> MaxAttributions policy" using limit by simp
  then have "RecordAttributions_Execute scan policy cmd seen (f_positions st) (f_arguments st) ?db =
      (Inr \<lparr>rar_ArgumentIDs = sortedArgumentIDs existing, rar_Replayed = True\<rparr>, ?db)"
    using limit len \<open>existing \<noteq> []\<close>
    by (simp add: RecordAttributions_Execute_def policy parse args(1) q WithinTransaction_def record_transaction_def lock listed new)
  then show ?thesis using strings by simp
qed

end
