(* ===== verification/PersuasionModeration.thy ===== *)
theory PersuasionModeration
  imports PersuasionProperties
begin

text \<open>
  The properties of moderation and of the public counts of an argument.
\<close>

section \<open>Following one row\<close>

lemma same_id_same_row:
  assumes "distinct (map at_ID rows)" "r \<in> set rows" "q \<in> set rows" "at_ID q = at_ID r"
  shows "q = r"
  using assms by (auto simp: distinct_map dest: inj_onD)

lemma mapped_row:
  assumes "distinct (map at_ID rows)" "\<And>x. at_ID (f x) = at_ID x" "r \<in> set rows" "r' \<in> set (map f rows)" "at_ID r' = at_ID r"
  shows "r' = f r"
proof -
  obtain x where x: "x \<in> set rows" "r' = f x" using assms(4) by auto
  then have "x = r" using same_id_same_row [OF assms(1,3)] assms(2,5) by simp
  then show ?thesis using x(2) by simp
qed

lemma moderationAttribution_parts:
  assumes "moderationAttribution row = Inr a"
  shows "attr_ID a = AttributionID (uuidToString (Some (at_ID row)))" "attr_ArgumentID a = ArgumentID (uuidToString (Some (at_ArgumentID row)))"
    "attr_Status a = at_Status row"
  using assms by (auto simp: moderationAttribution_def bind_r_Inr_iff Let_def ParseAttributionStatus_def stored_def
      stored_uuid_parses split: if_splits option.splits)

lemma moderated_pair:
  assumes m: "moderated_row scan decision i pos st old r st'" and ids: "distinct (map at_ID (attribution_rows (fst st)))"
    and q: "q \<in> set (attribution_rows (fst st))" "q' \<in> set (attribution_rows (fst st'))" "at_ID q' = at_ID q"
  obtains m where "q = old" "q' = decided_row decision m old" "scan (moderator_String (dec_Actor decision)) = Some m"
      "account_status pos m \<noteq> None" "moderationAttribution q' = Inr (amr_Attribution r)"
      "snd st' = snd st @ [moderation_event decision (amr_Attribution r)]"
    | "q' = q"
proof -
  obtain m pre post where 1: "scan (moderator_String (dec_Actor decision)) = Some m" "account_status pos m \<noteq> None"
    "attribution_rows (fst st) = pre @ old # post" "attribution_rows (fst st') = pre @ decided_row decision m old # post"
    "moderationAttribution (decided_row decision m old) = Inr (amr_Attribution r)"
    "snd st' = snd st @ [moderation_event decision (amr_Attribution r)]"
    using m unfolding moderated_row_def by blast
  have "old \<in> set (attribution_rows (fst st))" using 1(3) by simp
  show ?thesis
  proof (cases "q' \<in> set (attribution_rows (fst st))")
    case True
    then show ?thesis using that(2) same_id_same_row [OF ids q(1) True q(3)] by blast
  next
    case False
    then have "q' = decided_row decision m old" using q(2) 1(3,4) by auto
    moreover from this have "q = old" using same_id_same_row [OF ids \<open>old \<in> _\<close> q(1)] q(3) by simp
    ultimately show ?thesis using that(1) 1 by blast
  qed
qed

section \<open>Moderation\<close>

text \<open>
  An invalidation or a restoration fails and changes nothing, finds its decision applied and writes nothing,
  or moves exactly one row, by an actor that the authorizer accepts and under a reason that is not empty: the row
  gets the status of the decision and its record, and the recorder took the event.
\<close>

theorem moderation_exact:
  assumes "forum_history scan replies policy (st # past)" "reads_canonical scan"
    and "moderateAttribution scan authorized audit now cmd action (f_positions st) (f_attributions st, f_events st) = (res, m')"
  shows "(\<exists>e. res = Inl e) \<and> m' = (f_attributions st, f_events st)
    \<or> (\<exists>r decision i. res = Inr r \<and> ParseModeratorID (mac_ActorAccountID cmd) = Inr (dec_Actor decision)
        \<and> authorized (dec_Actor decision) \<and> ParseAttributionID (mac_AttributionID cmd) = Inr i
        \<and> reason_String (dec_Reason decision) = TrimSpace (mac_Reason cmd) \<and> TrimSpace (mac_Reason cmd) \<noteq> []
        \<and> dec_Action decision = action \<and> dec_DecidedAt decision = now
        \<and> (amr_Replayed r \<and> m' = (f_attributions st, f_events st)
            \<and> (\<exists>row \<in> set (attribution_rows (f_attributions st)). scan (attribution_String i) = Some (at_ID row)
                \<and> at_Status row = Action_TargetStatus action)
          \<or> \<not> amr_Replayed r \<and> audit (moderation_event decision (amr_Attribution r))
            \<and> (\<exists>old. moderated_row scan decision i (f_positions st) (f_attributions st, f_events st) old r m')))"
proof -
  have "distinct (map at_ID (attribution_rows (fst (f_attributions st, f_events st))))"
    using forum_invariant [OF assms(1,2)] by (simp add: forum_ok_def attributions_ok_def)
  from moderation_ends [OF assms(3) this] show ?thesis
  proof (elim disjE exE conjE)
    fix r decision i
    assume "validateAttributionModeration authorized now cmd action = Inr (decision, i)"
    note v = validate_moderation_Inr [OF this]
    note reason = moderation_reason_Inr(1,3) [OF v(4)]
    assume "res = Inr r" "amr_Replayed r" "m' = (f_attributions st, f_events st)"
      "\<exists>row \<in> set (attribution_rows (fst (f_attributions st, f_events st))). scan (attribution_String i) = Some (at_ID row)
        \<and> at_Status row = Action_TargetStatus action \<and> moderationAttribution row = Inr (amr_Attribution r)"
    then show ?thesis using v(1,2,3,5,6) reason by (intro disjI2 exI [of _ r] exI [of _ decision] exI [of _ i]) auto
  next
    fix r decision i old
    assume "validateAttributionModeration authorized now cmd action = Inr (decision, i)"
    note v = validate_moderation_Inr [OF this]
    note reason = moderation_reason_Inr(1,3) [OF v(4)]
    assume "res = Inr r" "\<not> amr_Replayed r" "audit (moderation_event decision (amr_Attribution r))"
      "moderated_row scan decision i (f_positions st) (f_attributions st, f_events st) old r m'"
    then show ?thesis using v(1,2,3,5,6) reason by (intro disjI2 exI [of _ r] exI [of _ decision] exI [of _ i]) auto
  qed simp
qed

text \<open>
  C25. The appeal statement of the moderation module leaves \<open>invalidated_at\<close> set on the rows it marks valid, so
  whenever an argument has an invalid attribution the statement violates the check of the table: no appeal
  restores the attributions of an argument.
\<close>

theorem appeal_never_restores:
  assumes "forum_history scan replies policy (st # past)" "reads_canonical scan"
    and "r \<in> set (attribution_rows (f_attributions st))" "at_Status r = ''invalid''"
  shows "sql_RestoreArgumentAttributions (at_ArgumentID r) reason moderator (f_positions st) (f_attributions st) = Inl CheckViolation"
proof -
  have "attribution_checks r" using forum_invariant [OF assms(1,2)] assms(3) by (simp add: forum_ok_def attributions_ok_def list_all_iff)
  then have "at_InvalidatedAt r \<noteq> None" using assms(4) by (simp add: attribution_checks_def)
  then have "\<not> attribution_checks (r\<lparr>at_Status := ''valid'', at_ModerationReason := reason, at_ModeratedBy := moderator,
      at_ModeratedAt := Some (timestamptz (at_now (f_attributions st)))\<rparr>)" by (simp add: attribution_checks_def)
  then show ?thesis using assms(3,4)
    by (auto simp: sql_RestoreArgumentAttributions_def update_attributions_def Let_def)
qed

inductive_cases forum_step_cases: "forum_history scan replies policy (st' # st # past)"

text \<open>The three kinds of steps that can move the status of a row.\<close>

lemma decided_step:
  assumes call: "moderateAttribution scan authorized audit now cmd action (f_positions st) (f_attributions st, f_events st) = (res, m')"
    and ids: "distinct (map at_ID (attribution_rows (f_attributions st)))"
    and q: "q \<in> set (attribution_rows (f_attributions st))" "q' \<in> set (attribution_rows (fst m'))" "at_ID q' = at_ID q"
      "at_Status q' \<noteq> at_Status q"
  shows "\<exists>ev m. snd m' = f_events st @ [ev] \<and> audit ev \<and> authorized (ame_ActorAccountID ev)
    \<and> ame_AttributionID ev = AttributionID (uuidToString (Some (at_ID q)))
    \<and> Action_TargetStatus (ame_Action ev) = at_Status q' \<and> at_ModerationReason q' = Some (reason_String (ame_Reason ev))
    \<and> reason_String (ame_Reason ev) \<noteq> [] \<and> scan (moderator_String (ame_ActorAccountID ev)) = Some m
    \<and> at_ModeratedBy q' = Some m \<and> account_status (f_positions st) m \<noteq> None
    \<and> at_ModeratedAt q' = Some (timestamptz (ame_OccurredAt ev))"
proof -
  have ids': "distinct (map at_ID (attribution_rows (fst (f_attributions st, f_events st))))" using ids by simp
  show ?thesis using moderation_ends [OF call ids']
  proof (elim disjE exE conjE)
    fix r decision i old
    assume "validateAttributionModeration authorized now cmd action = Inr (decision, i)"
    note v = validate_moderation_Inr [OF this]
    assume m: "moderated_row scan decision i (f_positions st) (f_attributions st, f_events st) old r m'"
      and au: "audit (moderation_event decision (amr_Attribution r))"
    show ?thesis
    proof (rule moderated_pair [OF m ids' _ q(2,3)])
      show "q \<in> set (attribution_rows (fst (f_attributions st, f_events st)))" using q(1) by simp
    next
      fix m
      assume q': "q = old" "q' = decided_row decision m old" "scan (moderator_String (dec_Actor decision)) = Some m"
        "account_status (f_positions st) m \<noteq> None" "moderationAttribution q' = Inr (amr_Attribution r)"
        "snd m' = snd (f_attributions st, f_events st) @ [moderation_event decision (amr_Attribution r)]"
      have "attr_ID (amr_Attribution r) = AttributionID (uuidToString (Some (at_ID q)))"
        using moderationAttribution_parts(1) [OF q'(5)] q(3) by simp
      then show ?thesis
        using q' au v(1) moderation_reason_Inr(3) [OF v(4)]
        by (intro exI [of _ "moderation_event decision (amr_Attribution r)"] exI [of _ m])
          (simp add: moderation_event_def decided_row_def Decision_TargetStatus_def)
    qed (use q(4) in simp)
  qed (use q same_id_same_row [OF ids q(1)] in auto)
qed

lemma removal_step:
  assumes call: "sql_InvalidateArgumentAttributions i reason moderator pos db = Inr (n, db')"
    and ids: "distinct (map at_ID (attribution_rows db))"
    and q: "q \<in> set (attribution_rows db)" "q' \<in> set (attribution_rows db')" "at_ID q' = at_ID q" "at_Status q' \<noteq> at_Status q"
  shows "\<exists>m. at_Status q' = ''invalid'' \<and> at_ArgumentID q = i \<and> at_ModerationReason q' = reason \<and> reason \<noteq> None
    \<and> at_ModeratedBy q' = Some m \<and> moderator = Some m \<and> account_status pos m \<noteq> None
    \<and> at_ModeratedAt q' = Some (timestamptz (at_now db))"
proof -
  let ?hit = "\<lambda>r. at_ArgumentID r = i \<and> at_Status r = ''valid''"
  let ?f = "\<lambda>r. r\<lparr>at_Status := ''invalid'', at_InvalidatedAt := Some (timestamptz (at_now db)), at_ModerationReason := reason,
               at_ModeratedBy := moderator, at_ModeratedAt := Some (timestamptz (at_now db))\<rparr>"
  obtain rows where up: "update_attributions ?hit ?f pos db = Inr (rows, db')"
    using call by (auto simp: sql_InvalidateArgumentAttributions_def bind_r_Inr_iff)
  have fid: "at_ID (?f r) = at_ID r" for r by simp
  note u = update_attributions_Inr [OF up fid]
  have "q' = (if ?hit q then ?f q else q)"
    by (rule mapped_row [OF ids _ q(1) q(2) [unfolded u(1)] q(3)]) simp
  then have q': "?hit q" "q' = ?f q" using q(4) by (auto split: if_splits)
  have "attribution_checks q'" using u(5) [OF q(1) q'(1)] q'(2) by simp
  then have "reason \<noteq> None" "moderator \<noteq> None" by (auto simp: attribution_checks_def q'(2))
  then show ?thesis using q' u(6) [OF q(1) q'(1)] by auto
qed

text \<open>
  C10. Validity moves only under a recorded decision. When a step of a history changes the status of an attribution,
  the row carries the reason, an account as its moderator and the instant; and either the persuasion module made
  the step, and the recorder took the one event that says the same, or the moderation module's removal of the
  argument did, and the row became invalid.
\<close>

theorem validity_moves_recorded:
  assumes h: "forum_history scan replies policy (st' # st # past)" and sc: "reads_canonical scan"
    and q: "q \<in> set (attribution_rows (f_attributions st))" "q' \<in> set (attribution_rows (f_attributions st'))" "at_ID q' = at_ID q"
      "at_Status q' \<noteq> at_Status q"
  shows "\<exists>reason m t. at_ModerationReason q' = Some reason \<and> at_ModeratedBy q' = Some m \<and> at_ModeratedAt q' = Some t
    \<and> account_status (f_positions st) m \<noteq> None
    \<and> ((\<exists>ev. f_events st' = f_events st @ [ev] \<and> ame_AttributionID ev = AttributionID (uuidToString (Some (at_ID q)))
           \<and> Action_TargetStatus (ame_Action ev) = at_Status q' \<and> reason_String (ame_Reason ev) = reason \<and> reason \<noteq> []
           \<and> scan (moderator_String (ame_ActorAccountID ev)) = Some m \<and> timestamptz (ame_OccurredAt ev) = t)
      \<or> f_events st' = f_events st \<and> at_Status q' = ''invalid''
         \<and> (\<exists>n. sql_InvalidateArgumentAttributions (at_ArgumentID q) (Some reason) (Some m) (f_positions st) (f_attributions st)
              = Inr (n, f_attributions st')))"
proof -
  have prior: "forum_history scan replies policy (st # past)" using h by (rule forum_step_cases) simp_all
  have ids: "distinct (map at_ID (attribution_rows (f_attributions st)))"
    using forum_invariant [OF prior sc] by (simp add: forum_ok_def attributions_ok_def)
  have ids': "distinct (map at_ID (attribution_rows (f_attributions st')))"
    using forum_invariant [OF h sc] by (simp add: forum_ok_def attributions_ok_def)
  have stays: False if "set (attribution_rows (f_attributions st)) \<subseteq> set (attribution_rows (f_attributions st'))"
    using same_id_same_row [OF ids' q(2)] q(1,3,4) that by auto
  show ?thesis using h
  proof (rule forum_step_cases)
    fix seen cmd res db'
    assume st': "st' = st\<lparr>f_attributions := db'\<rparr>" and read: "seen = f_arguments st \<or> seen \<in> f_arguments ` set past"
      and call: "RecordAttributions_Execute scan policy cmd seen (f_positions st) (f_arguments st) (f_attributions st) = (res, db')"
    have seen: "seen \<in> f_arguments ` set (st # past)" using read by auto
    from record_ends [OF call sc seen_arguments(1) [OF prior sc seen]] have "\<exists>new. attribution_rows db' = attribution_rows (f_attributions st) @ new"
      by (elim disjE exE conjE) (auto dest: recorded_parts(2))
    then show ?thesis using stays st' by auto
  next
    fix authorized audit now cmd res m'
    assume st': "st' = with_moderated st m'"
      and call: "InvalidateAttribution_Execute scan authorized audit now cmd (f_positions st) (f_attributions st, f_events st) = (res, m')"
    have "q' \<in> set (attribution_rows (fst m'))" using q(2) st' by (simp add: with_moderated_def)
    from decided_step [OF call [unfolded InvalidateAttribution_Execute_def] ids q(1) this q(3,4)]
    show ?thesis using st' by (auto simp: with_moderated_def)
  next
    fix authorized audit now cmd res m'
    assume st': "st' = with_moderated st m'"
      and call: "RestoreAttribution_Execute scan authorized audit now cmd (f_positions st) (f_attributions st, f_events st) = (res, m')"
    have "q' \<in> set (attribution_rows (fst m'))" using q(2) st' by (simp add: with_moderated_def)
    from decided_step [OF call [unfolded RestoreAttribution_Execute_def] ids q(1) this q(3,4)]
    show ?thesis using st' by (auto simp: with_moderated_def)
  next
    fix i reason m n db'
    assume st': "st' = st\<lparr>f_attributions := db'\<rparr>"
      and call: "sql_InvalidateArgumentAttributions i reason m (f_positions st) (f_attributions st) = Inr (n, db')"
    have "q' \<in> set (attribution_rows db')" using q(2) st' by simp
    from removal_step [OF call ids q(1) this q(3,4)] show ?thesis using st' call by auto
  next
    fix i reason m n db'
    assume st': "st' = st\<lparr>f_attributions := db'\<rparr>"
      and call: "sql_RestoreArgumentAttributions i reason m (f_positions st) (f_attributions st) = Inr (n, db')"
    obtain rows where up: "update_attributions (\<lambda>r. at_ArgumentID r = i \<and> at_Status r = ''invalid'')
        (\<lambda>r. r\<lparr>at_Status := ''valid'', at_ModerationReason := reason, at_ModeratedBy := m,
               at_ModeratedAt := Some (timestamptz (at_now (f_attributions st)))\<rparr>) (f_positions st) (f_attributions st) = Inr (rows, db')"
      using call by (auto simp: sql_RestoreArgumentAttributions_def bind_r_Inr_iff)
    have none: "\<not> (at_ArgumentID r = i \<and> at_Status r = ''invalid'')" if "r \<in> set (attribution_rows (f_attributions st))" for r
      using appeal_never_restores [OF prior sc that, of reason m] call by auto
    have "attribution_rows db' = attribution_rows (f_attributions st)"
      unfolding update_attributions_Inr(1) [OF up, simplified] using none by (auto intro!: map_idI)
    then show ?thesis using stays st' by auto
  qed (use stays in auto)
qed

section \<open>Public counts\<close>

lemma counted_card:
  assumes "distinct (map at_ID (attribution_rows db))"
  shows "int (length (filter P (counted_attributions pos db))) = int (card {r \<in> set (counted_attributions pos db). P r})"
proof -
  have "distinct (filter P (counted_attributions pos db))" using assms unfolding counted_attributions_def
    by (simp add: distinct_map)
  then show ?thesis by (metis distinct_card set_filter)
qed

text \<open>
  C23. The public counts of an argument are facts of the table: a stored argument gets the number of its valid
  attributions by active accounts with a verified address and the number of distinct such accounts, which is never
  larger, and the coherence check never refuses them; an identifier of no argument is not found.
\<close>

theorem ArgumentMetrics_exact:
  assumes "forum_history scan replies policy (st # past)" "reads_canonical scan" "now \<noteq> 0"
    and "ParseArgumentID raw = Inr i"
  shows "GetArgumentMetrics_Execute scan now raw (f_positions st) (f_arguments st) (f_attributions st) =
    (case scan (argument_String i) of
       None \<Rightarrow> Inl ErrArgumentNotFound
     | Some u \<Rightarrow>
         if u \<notin> ag_ID ` set (argument_rows (f_arguments st)) then Inl ErrArgumentNotFound
         else let counted = {r \<in> set (attribution_rows (f_attributions st)). at_ArgumentID r = u \<and> at_Status r = ''valid''
                \<and> account_status (f_positions st) (at_AttributorID r) = Some ''active''
                \<and> email_verified (f_attributions st) (at_AttributorID r)} in
           Inr \<lparr>am_ArgumentID = i, am_DistinctPeople = int (card (at_AttributorID ` counted)),
                am_ValidAttributions = int (card counted), am_CheckedAt = now\<rparr>)"
proof -
  let ?db = "f_attributions st"
  have ids: "distinct (map at_ID (attribution_rows ?db))"
    using forum_invariant [OF assms(1,2)] by (simp add: forum_ok_def attributions_ok_def)
  have i: "argument_String i \<noteq> []" using argument_ref.parsed_shape [OF assms(4)] by simp
  show ?thesis
  proof (cases "scan (argument_String i)")
    case None
    then show ?thesis using assms(4) by (simp add: GetArgumentMetrics_Execute_def repo_GetArgumentMetrics_def uuidParam_def)
  next
    case (Some u)
    define counted where "counted = {r \<in> set (attribution_rows ?db). at_ArgumentID r = u \<and> at_Status r = ''valid''
      \<and> account_status (f_positions st) (at_AttributorID r) = Some ''active'' \<and> email_verified ?db (at_AttributorID r)}"
    let ?rows = "filter (\<lambda>r. at_ArgumentID r = u) (counted_attributions (f_positions st) ?db)"
    have set_rows: "set ?rows = counted" by (auto simp: counted_def counted_attributions_def eligible_attributor_def)
    have "{r \<in> set (counted_attributions (f_positions st) ?db). at_ArgumentID r = u} = counted" using set_rows by auto
    then have len: "int (length ?rows) = int (card counted)" using counted_card [OF ids] by metis
    have people: "distinct_count (map at_AttributorID ?rows) = int (card (at_AttributorID ` counted))"
      by (simp only: distinct_count_def length_remdups_card_conv set_map set_rows)
    have "finite counted" by (simp add: counted_def)
    then have "card (at_AttributorID ` counted) \<le> card counted" by (rule card_image_le)
    then show ?thesis unfolding Some option.case counted_def [symmetric]
      using Some assms(3,4) i len people
      by (simp add: GetArgumentMetrics_Execute_def repo_GetArgumentMetrics_def uuidParam_def sql_GetArgumentAttributionMetrics_def
          ArgumentMetrics_Validate_def ArgumentID_IsZero_def time_IsZero_def Let_def)
  qed
qed

text \<open>
  An applied invalidation takes exactly one event off the count of its argument when the attributor is
  eligible, and none off any other count.
\<close>

theorem invalidation_uncounts:
  assumes h: "forum_history scan replies policy (st # past)" "reads_canonical scan"
    and call: "InvalidateAttribution_Execute scan authorized audit now cmd (f_positions st) (f_attributions st, f_events st) = (Inr r, m')"
    and applied: "\<not> amr_Replayed r"
    and count: "sql_GetArgumentAttributionMetrics u (f_positions st) (f_arguments st) (f_attributions st) = Inr (events, people)"
  shows "\<exists>old \<in> set (attribution_rows (f_attributions st)). \<exists>people'.
      attr_ID (amr_Attribution r) = AttributionID (uuidToString (Some (at_ID old)))
    \<and> sql_GetArgumentAttributionMetrics u (f_positions st) (f_arguments st) (fst m') =
        Inr (events - (if at_ArgumentID old = u \<and> eligible_attributor (f_positions st) (f_attributions st) (at_AttributorID old)
                       then 1 else 0), people')"
proof -
  have ids: "distinct (map at_ID (attribution_rows (fst (f_attributions st, f_events st))))"
    using forum_invariant [OF h] by (simp add: forum_ok_def attributions_ok_def)
  obtain decision i old where v: "validateAttributionModeration authorized now cmd ''invalidate'' = Inr (decision, i)"
    and m: "moderated_row scan decision i (f_positions st) (f_attributions st, f_events st) old r m'"
    using moderation_ends [OF call [unfolded InvalidateAttribution_Execute_def] ids] applied by (auto simp: vocab)
  have inv: "dec_Action decision = ''invalidate''" using validate_moderation_Inr(5) [OF v] .
  obtain k pre post where k: "attribution_rows (f_attributions st) = pre @ old # post" "at_Status old = ''valid''"
    "attribution_rows (fst m') = pre @ decided_row decision k old # post" "email_verified (fst m') = email_verified (f_attributions st)"
    "moderationAttribution (decided_row decision k old) = Inr (amr_Attribution r)"
    using m inv unfolding moderated_row_def by auto
  have status: "at_Status (decided_row decision k old) = ''invalid''"
    by (simp add: decided_row_def Decision_TargetStatus_def Action_TargetStatus_def inv vocab)
  have same: "eligible_attributor (f_positions st) (fst m') = eligible_attributor (f_positions st) (f_attributions st)"
    by (simp add: fun_eq_iff eligible_attributor_def k(4))
  have "int (length (filter (\<lambda>r. at_ArgumentID r = u) (counted_attributions (f_positions st) (fst m')))) =
      events - (if at_ArgumentID old = u \<and> eligible_attributor (f_positions st) (f_attributions st) (at_AttributorID old) then 1 else 0)"
    using count k(2) status unfolding sql_GetArgumentAttributionMetrics_def counted_attributions_def k(1,3) same
    by (auto simp: Let_def split: if_splits)
  moreover have "u \<in> ag_ID ` set (argument_rows (f_arguments st))"
    using count by (simp add: sql_GetArgumentAttributionMetrics_def split: if_splits)
  ultimately have "\<exists>people'. sql_GetArgumentAttributionMetrics u (f_positions st) (f_arguments st) (fst m') =
      Inr (events - (if at_ArgumentID old = u \<and> eligible_attributor (f_positions st) (f_attributions st) (at_AttributorID old)
                     then 1 else 0), people')"
    by (simp add: sql_GetArgumentAttributionMetrics_def Let_def)
  moreover have "attr_ID (amr_Attribution r) = AttributionID (uuidToString (Some (at_ID old)))"
    using moderationAttribution_parts(1) [OF k(5)] by simp
  moreover have "old \<in> set (attribution_rows (f_attributions st))" using k(1) by simp
  ultimately show ?thesis by blast
qed

end
