(* ===== verification/ArenasCorrectness.thy ===== *)
theory ArenasCorrectness
  imports ArenasUseCases ArenasTextFacts UuidScan
begin

text \<open>
  The invariant of the table of Arenas and the steps of one row, and what each statement and each use
  case does in these terms.
\<close>

section \<open>Rows\<close>

definition row_ok :: "AppArena \<Rightarrow> bool" where
  "row_ok r \<longleftrightarrow> arenas_checks r \<and> texts_ok r \<and> in_int32 (ar_Version r) \<and> text_ok (ar_Statement r)
     \<and> (case ar_Context r of None \<Rightarrow> True | Some c \<Rightarrow> text_ok c)
     \<and> ParseCategory (ar_Category r) = Inr (Category (ar_Category r))
     \<and> (case ar_Slug r of None \<Rightarrow> True | Some s \<Rightarrow> ParseSlug s = Inr (Slug s))
     \<and> (case ar_PublishedAt r of None \<Rightarrow> True | Some t \<Rightarrow> timestamptz t = t)"

definition arena_of_row :: "AppArena \<Rightarrow> Arena" where
  "arena_of_row r =
     \<lparr>arena_id = uuidToString (Some (ar_ID r)), arena_creatorID = uuidToString (Some (ar_CreatorID r)),
      arena_statement = Statement (ar_Statement r),
      arena_context = Context (case ar_Context r of None \<Rightarrow> [] | Some c \<Rightarrow> c),
      arena_category = Category (ar_Category r), arena_language = Language (ar_Language r),
      arena_status = ar_Status r, arena_slug = Slug (case ar_Slug r of None \<Rightarrow> [] | Some s \<Rightarrow> s),
      arena_version = ar_Version r, arena_createdAt = ar_CreatedAt r, arena_publishedAt = ar_PublishedAt r,
      arena_closesAt = ar_ClosesAt r\<rparr>"

lemma ParseCategory_nonempty: "ParseCategory raw = Inr c \<Longrightarrow> category_String c \<noteq> []"
  by (auto simp: ParseCategory_def Let_def split: if_splits)

lemma ParseSlug_nonempty: "ParseSlug raw = Inr s \<Longrightarrow> slug_String s \<noteq> []"
  by (auto simp: ParseSlug_def Let_def split: if_splits)

text \<open>A stored row is read back.\<close>

lemma mapArenaRow_ok:
  assumes "row_ok r"
  shows "mapArenaRow r = Inr (arena_of_row r)"
proof -
  note r = assms [unfolded row_ok_def arenas_checks_def texts_ok_def]
  have s: "ParseStatement (ar_Statement r) ReconstitutionPolicy = Inr (Statement (ar_Statement r))"
    using r by (intro restate_statement) (auto simp: pg_text_def MaxInt64_def)
  have c: "(case ar_Context r of None \<Rightarrow> Inr (Context []) | Some c \<Rightarrow> ParseContext c ReconstitutionPolicy)
      = Inr (Context (case ar_Context r of None \<Rightarrow> [] | Some c \<Rightarrow> c))"
  proof (cases "ar_Context r")
    case (Some c)
    then have "ParseContext c ReconstitutionPolicy = Inr (Context c)"
      using r by (intro restate_context) (auto simp: pg_text_def MaxInt64_def)
    with Some show ?thesis by simp
  qed simp
  have l: "ParseLanguage (ar_Language r) = Inr (Language (ar_Language r))"
    using r by (intro supported_languages) blast
  have g: "(case ar_Slug r of None \<Rightarrow> Inr (Slug []) | Some s \<Rightarrow> ParseSlug s)
      = Inr (Slug (case ar_Slug r of None \<Rightarrow> [] | Some s \<Rightarrow> s))"
    using r by (cases "ar_Slug r") simp_all
  have k: "ParseCategory (ar_Category r) = Inr (Category (ar_Category r))" using r by blast
  have "ar_Statement r \<noteq> []" using r by (simp add: text_ok_def)
  moreover have "ar_Category r \<noteq> []" using ParseCategory_nonempty [OF k] by simp
  moreover have "ar_Language r \<noteq> []" using r by auto
  moreover have slug: "s \<noteq> []" if "ar_Slug r = Some s" for s using r that ParseSlug_nonempty [of s "Slug s"] by simp
  moreover have "ArenaStatus_IsValid (ar_Status r)" using r by (auto simp: ArenaStatus_IsValid_def vocab)
  moreover have "1 \<le> ar_Version r" using r by linarith
  moreover have "(ar_Status r = ''draft'') = (ar_PublishedAt r = None)" "(ar_Status r = ''draft'') = (ar_Slug r = None)"
    "case ar_ClosesAt r of None \<Rightarrow> True | Some c \<Rightarrow> (case ar_PublishedAt r of None \<Rightarrow> False | Some p \<Rightarrow> p < c)" using r by blast+
  ultimately have "ReconstituteArena (arena_of_row r) = Inr (arena_of_row r)"
    by (cases "ar_Slug r"; cases "ar_ClosesAt r"; cases "ar_PublishedAt r")
      (simp_all add: ReconstituteArena_def arena_of_row_def ArenaID_IsZero_def CreatorID_IsZero_def Statement_IsZero_def
        Category_IsZero_def Language_IsZero_def Slug_IsZero_def vocab)
  then show ?thesis by (simp add: mapArenaRow_def s c k l g) (simp add: arena_of_row_def)
qed

section \<open>The lifecycle of a row\<close>

text \<open>The fields that a publication freezes.\<close>

definition frozen :: "AppArena \<Rightarrow> uuid \<times> uuid \<times> string option \<times> string \<times> string \<times> time \<times> time option" where
  "frozen r = (ar_ID r, ar_CreatorID r, ar_Slug r, ar_Statement r, ar_Language r, ar_CreatedAt r, ar_PublishedAt r)"

definition successors :: "ArenaStatus \<Rightarrow> ArenaStatus list" where
  "successors s =
     (if s = ''draft'' then [''draft'', ''published'']
      else if s = ''published'' then [''closed'', ''restricted'', ''removed'']
      else if s = ''closed'' then [''restricted'', ''removed'']
      else if s = ''restricted'' then [''removed''] else [])"

definition row_step :: "AppArena \<Rightarrow> AppArena \<Rightarrow> bool" where
  "row_step old new \<longleftrightarrow> ar_ID new = ar_ID old \<and> ar_Version new = ar_Version old + 1
     \<and> ar_Status new \<in> set (successors (ar_Status old))
     \<and> (ar_Status old = ''draft'' \<or> frozen new = frozen old)"

definition slugs_apart :: "AppArena list \<Rightarrow> bool" where
  "slugs_apart rows \<longleftrightarrow> (\<forall>r \<in> set rows. \<forall>q \<in> set rows. ar_Slug r \<noteq> None \<longrightarrow> ar_Slug r = ar_Slug q \<longrightarrow> ar_ID r = ar_ID q)"

definition arenas_ok :: "arenas_db \<Rightarrow> bool" where
  "arenas_ok db \<longleftrightarrow> list_all row_ok (arena_rows db) \<and> distinct (map ar_ID (arena_rows db)) \<and> slugs_apart (arena_rows db)"

text \<open>A change of the table: nothing, a new draft, a step of one row, or a draft taken away.\<close>

inductive table_step :: "arenas_db \<Rightarrow> arenas_db \<Rightarrow> bool" where
  same: "table_step db db"
| created: "arena_rows db' = arena_rows db @ [r] \<Longrightarrow> ar_Status r = ''draft'' \<Longrightarrow> ar_ID r \<notin> ar_ID ` set (arena_rows db) \<Longrightarrow> table_step db db'"
| stepped: "old \<in> set (arena_rows db) \<Longrightarrow> row_step old new \<Longrightarrow>
    arena_rows db' = map (\<lambda>r. if ar_ID r = ar_ID old then new else r) (arena_rows db) \<Longrightarrow> table_step db db'"
| deleted: "arena_rows db' = filter (\<lambda>r. \<not> (P r \<and> ar_Status r = ''draft'')) (arena_rows db) \<Longrightarrow> table_step db db'"

section \<open>Statements\<close>

lemma find_unique:
  "distinct (map ar_ID rows) \<Longrightarrow> find P rows = Some r \<Longrightarrow> r \<in> set rows \<and> P r"
  by (induction rows) (auto split: if_splits)

lemma update_arena_cases:
  assumes "update_arena hit change db = Inr (new, db')"
  obtains old where "find hit (arena_rows db) = Some old" "new = (change old)\<lparr>ar_Version := ar_Version old + 1\<rparr>"
    "in_int32 (ar_Version new)" "texts_ok new" "arenas_checks new"
    "ar_Slug new \<noteq> None \<Longrightarrow> \<forall>r \<in> set (arena_rows db). ar_ID r \<noteq> ar_ID old \<longrightarrow> ar_Slug r \<noteq> ar_Slug new"
    "db' = db\<lparr>arena_rows := map (\<lambda>r. if ar_ID r = ar_ID old then new else r) (arena_rows db)\<rparr>"
  using assms by (auto simp: update_arena_def Let_def split: option.splits if_splits)

text \<open>What a change of one row must bring for the table to stay well formed.\<close>

definition writes_ok :: "(AppArena \<Rightarrow> bool) \<Rightarrow> (AppArena \<Rightarrow> AppArena) \<Rightarrow> bool" where
  "writes_ok hit change \<longleftrightarrow> (\<forall>old. hit old \<longrightarrow> row_ok old \<longrightarrow>
     ar_ID (change old) = ar_ID old \<and> ar_Status (change old) \<in> set (successors (ar_Status old))
     \<and> (ar_Status old = ''draft'' \<or> frozen (change old) = frozen old)
     \<and> text_ok (ar_Statement (change old)) \<and> (case ar_Context (change old) of None \<Rightarrow> True | Some c \<Rightarrow> text_ok c)
     \<and> ParseCategory (ar_Category (change old)) = Inr (Category (ar_Category (change old)))
     \<and> (case ar_Slug (change old) of None \<Rightarrow> True | Some s \<Rightarrow> ParseSlug s = Inr (Slug s))
     \<and> (case ar_PublishedAt (change old) of None \<Rightarrow> True | Some t \<Rightarrow> timestamptz t = t))"

lemma frozen_version [simp]: "frozen (r\<lparr>ar_Version := v\<rparr>) = frozen r"
  by (simp add: frozen_def)

text \<open>The part of it that does not speak of the lifecycle.\<close>

definition keeps_rows :: "(AppArena \<Rightarrow> bool) \<Rightarrow> (AppArena \<Rightarrow> AppArena) \<Rightarrow> bool" where
  "keeps_rows hit change \<longleftrightarrow> (\<forall>old. hit old \<longrightarrow> row_ok old \<longrightarrow>
     ar_ID (change old) = ar_ID old
     \<and> text_ok (ar_Statement (change old)) \<and> (case ar_Context (change old) of None \<Rightarrow> True | Some c \<Rightarrow> text_ok c)
     \<and> ParseCategory (ar_Category (change old)) = Inr (Category (ar_Category (change old)))
     \<and> (case ar_Slug (change old) of None \<Rightarrow> True | Some s \<Rightarrow> ParseSlug s = Inr (Slug s))
     \<and> (case ar_PublishedAt (change old) of None \<Rightarrow> True | Some t \<Rightarrow> timestamptz t = t))"

lemma update_arena_keeps:
  assumes "arenas_ok db" "update_arena hit change db = Inr (new, db')" "keeps_rows hit change"
  obtains old where "arenas_ok db'" "row_ok new" "new \<in> set (arena_rows db')" "old \<in> set (arena_rows db)" "row_ok old" "hit old"
    "new = (change old)\<lparr>ar_Version := ar_Version old + 1\<rparr>" "ar_ID new = ar_ID old"
    "arena_rows db' = map (\<lambda>r. if ar_ID r = ar_ID old then new else r) (arena_rows db)"
proof -
  note finish = that
  obtain old where o: "find hit (arena_rows db) = Some old" "new = (change old)\<lparr>ar_Version := ar_Version old + 1\<rparr>"
    "in_int32 (ar_Version new)" "texts_ok new" "arenas_checks new"
    "ar_Slug new \<noteq> None \<Longrightarrow> \<forall>r \<in> set (arena_rows db). ar_ID r \<noteq> ar_ID old \<longrightarrow> ar_Slug r \<noteq> ar_Slug new"
    "db' = db\<lparr>arena_rows := map (\<lambda>r. if ar_ID r = ar_ID old then new else r) (arena_rows db)\<rparr>"
    by (rule update_arena_cases [OF assms(2)]) blast
  have rows: "arena_rows db' = map (\<lambda>r. if ar_ID r = ar_ID old then new else r) (arena_rows db)" using o(7) by simp
  have ids: "distinct (map ar_ID (arena_rows db))" and all: "\<forall>r \<in> set (arena_rows db). row_ok r"
    using assms(1) by (simp_all add: arenas_ok_def list_all_iff)
  have old: "old \<in> set (arena_rows db)" "hit old" using find_unique [OF ids o(1)] by simp_all
  note w = assms(3) [unfolded keeps_rows_def, rule_format, OF old(2) all [rule_format, OF old(1)]]
  have i: "ar_ID new = ar_ID old" using w o(2) by simp
  have ok: "row_ok new" using o(3-5) w unfolding row_ok_def o(2) by simp
  have "map ar_ID (arena_rows db') = map ar_ID (arena_rows db)" using i by (simp add: rows)
  moreover have "list_all row_ok (arena_rows db')" using all ok by (auto simp: rows list_all_iff)
  moreover have "slugs_apart (arena_rows db')"
  proof -
    have apart: "slugs_apart (arena_rows db)" using assms(1) by (simp add: arenas_ok_def)
    have mem: "x \<in> set (arena_rows db) \<and> ar_ID x \<noteq> ar_ID old \<or> x = new" if "x \<in> set (arena_rows db')" for x
      using that unfolding rows by (auto split: if_splits)
    have "ar_ID r = ar_ID q"
      if "r \<in> set (arena_rows db')" "q \<in> set (arena_rows db')" "ar_Slug r \<noteq> None" "ar_Slug r = ar_Slug q" for r q
      using mem [OF that(1)] mem [OF that(2)]
    proof (elim disjE conjE)
      assume "r \<in> set (arena_rows db)" "q \<in> set (arena_rows db)"
      then show ?thesis using apart that(3,4) unfolding slugs_apart_def by blast
    next
      assume "r \<in> set (arena_rows db)" "ar_ID r \<noteq> ar_ID old" "q = new"
      then show ?thesis using o(6) that(3,4) by metis
    next
      assume "r = new" "q \<in> set (arena_rows db)" "ar_ID q \<noteq> ar_ID old"
      then show ?thesis using o(6) that(3,4) by metis
    qed simp
    then show ?thesis unfolding slugs_apart_def by blast
  qed
  ultimately have "arenas_ok db'" using ids by (simp add: arenas_ok_def)
  moreover have "new \<in> set (arena_rows db')" using old(1) by (auto simp: rows image_iff)
  ultimately show thesis using finish [of old] old all ok i rows o(2) by blast
qed

lemma writes_keep: "writes_ok hit change \<Longrightarrow> keeps_rows hit change"
  by (simp add: writes_ok_def keeps_rows_def)

lemma update_arena_ok:
  assumes "arenas_ok db" "update_arena hit change db = Inr (new, db')" "writes_ok hit change"
  shows "arenas_ok db' \<and> table_step db db' \<and> row_ok new \<and> new \<in> set (arena_rows db')
    \<and> (\<exists>old \<in> set (arena_rows db). hit old \<and> row_step old new \<and> new = (change old)\<lparr>ar_Version := ar_Version old + 1\<rparr>
        \<and> arena_rows db' = map (\<lambda>r. if ar_ID r = ar_ID old then new else r) (arena_rows db))"
proof -
  obtain old where u: "arenas_ok db'" "row_ok new" "new \<in> set (arena_rows db')" "old \<in> set (arena_rows db)" "row_ok old" "hit old"
    "new = (change old)\<lparr>ar_Version := ar_Version old + 1\<rparr>" "ar_ID new = ar_ID old"
    "arena_rows db' = map (\<lambda>r. if ar_ID r = ar_ID old then new else r) (arena_rows db)"
    by (rule update_arena_keeps [OF assms(1,2) writes_keep [OF assms(3)]]) blast
  have "row_step old new"
    using assms(3) [unfolded writes_ok_def, rule_format, OF u(6,5)] u(7) by (simp add: row_step_def)
  then show ?thesis using u table_step.stepped [OF u(4) _ u(9)] by blast
qed

lemma successors_simps [simp]:
  "successors ''draft'' = [''draft'', ''published'']" "successors ''published'' = [''closed'', ''restricted'', ''removed'']"
  "successors ''closed'' = [''restricted'', ''removed'']" "successors ''restricted'' = [''removed'']" "successors ''removed'' = []"
  by (simp_all add: successors_def)

definition context_ok :: "string option \<Rightarrow> bool" where
  "context_ok c \<longleftrightarrow> (case c of None \<Rightarrow> True | Some t \<Rightarrow> text_ok t)"

lemma row_ok_parts:
  "row_ok r \<Longrightarrow> text_ok (ar_Statement r)" "row_ok r \<Longrightarrow> context_ok (ar_Context r)"
  "row_ok r \<Longrightarrow> ParseCategory (ar_Category r) = Inr (Category (ar_Category r))"
  "row_ok r \<Longrightarrow> case ar_Slug r of None \<Rightarrow> True | Some s \<Rightarrow> ParseSlug s = Inr (Slug s)"
  "row_ok r \<Longrightarrow> case ar_PublishedAt r of None \<Rightarrow> True | Some t \<Rightarrow> timestamptz t = t"
  "row_ok r \<Longrightarrow> ar_Status r = ''draft'' \<Longrightarrow> ar_Slug r = None"
  "row_ok r \<Longrightarrow> ar_Status r = ''draft'' \<longleftrightarrow> ar_PublishedAt r = None"
  by (simp_all add: row_ok_def context_ok_def arenas_checks_def)

lemma status_writes_ok:
  "writes_ok (\<lambda>r. P r \<and> ar_Status r = ''published'' \<and> Q r) (\<lambda>r. r\<lparr>ar_Status := ''closed''\<rparr>)"
  "writes_ok (\<lambda>r. P r \<and> ar_Status r \<in> {''published'', ''closed''} \<and> Q r) (\<lambda>r. r\<lparr>ar_Status := ''restricted''\<rparr>)"
  "writes_ok (\<lambda>r. P r \<and> ar_Status r \<in> {''published'', ''closed'', ''restricted''} \<and> Q r) (\<lambda>r. r\<lparr>ar_Status := ''removed''\<rparr>)"
  using row_ok_parts by (auto simp: writes_ok_def frozen_def context_ok_def)

lemma draft_writes_ok:
  "text_ok s \<Longrightarrow> context_ok c \<Longrightarrow> ParseCategory k = Inr (Category k) \<Longrightarrow>
   writes_ok (\<lambda>r. P r \<and> ar_Status r = ''draft'')
     (\<lambda>r. r\<lparr>ar_Statement := s, ar_Context := c, ar_Category := k, ar_Language := l\<rparr>)"
  using row_ok_parts by (auto simp: writes_ok_def context_ok_def)

lemma publish_writes_ok:
  "ParseSlug s = Inr (Slug s) \<Longrightarrow>
   writes_ok (\<lambda>r. P r \<and> ar_Status r = ''draft'' \<and> Q r)
     (\<lambda>r. r\<lparr>ar_Status := ''published'', ar_Slug := Some s, ar_PublishedAt := Some (timestamptz t)\<rparr>)"
  using row_ok_parts by (auto simp: writes_ok_def context_ok_def)

text \<open>Every guarded update, with the row it found.\<close>

definition wrote :: "(AppArena \<Rightarrow> bool) \<Rightarrow> (AppArena \<Rightarrow> AppArena) \<Rightarrow> arenas_db \<Rightarrow> AppArena \<Rightarrow> arenas_db \<Rightarrow> bool" where
  "wrote hit change db new db' \<longleftrightarrow> arenas_ok db' \<and> table_step db db' \<and> row_ok new \<and> new \<in> set (arena_rows db')
    \<and> (\<exists>old \<in> set (arena_rows db). hit old \<and> row_step old new \<and> new = (change old)\<lparr>ar_Version := ar_Version old + 1\<rparr>
        \<and> arena_rows db' = map (\<lambda>r. if ar_ID r = ar_ID old then new else r) (arena_rows db))"

lemma wroteI: "arenas_ok db \<Longrightarrow> update_arena hit change db = Inr (new, db') \<Longrightarrow> writes_ok hit change \<Longrightarrow> wrote hit change db new db'"
  unfolding wrote_def by (rule update_arena_ok)

lemma wrote_ok: "wrote hit change db new db' \<Longrightarrow> arenas_ok db'" "wrote hit change db new db' \<Longrightarrow> table_step db db'"
  "wrote hit change db new db' \<Longrightarrow> mapArenaRow new = Inr (arena_of_row new)"
  by (simp_all add: wrote_def mapArenaRow_ok)

section \<open>Inserting and deleting\<close>

lemma slugs_apart_subset: "slugs_apart xs \<Longrightarrow> set ys \<subseteq> set xs \<Longrightarrow> slugs_apart ys"
  unfolding slugs_apart_def by blast

lemma slugs_apart_draft: "slugs_apart rows \<Longrightarrow> ar_Slug row = None \<Longrightarrow> slugs_apart (rows @ [row])"
  unfolding slugs_apart_def set_append by (metis Un_iff empty_iff insert_iff list.set(1) list.set(2))

lemma sql_CreateArena_ok:
  assumes "arenas_ok db" "sql_CreateArena c s ctx k l now db = Inr (row, db')"
    and "text_ok s" "context_ok ctx" "ParseCategory k = Inr (Category k)"
  shows "arenas_ok db' \<and> table_step db db' \<and> row_ok row \<and> arena_rows db' = arena_rows db @ [row] \<and> ar_Status row = ''draft''"
proof -
  have r: "arena_rows db' = arena_rows db @ [row]" "ar_Status row = ''draft''" "ar_ID row \<notin> ar_ID ` set (arena_rows db)"
    "texts_ok row" "arenas_checks row" "ar_Statement row = s" "ar_Context row = ctx" "ar_Category row = k" "ar_Slug row = None"
    "ar_Version row = 1" "ar_PublishedAt row = None"
    using assms(2) by (auto simp: sql_CreateArena_def Let_def split: if_splits)
  then have ok: "row_ok row" using assms(3-5) by (simp add: row_ok_def context_ok_def int32_defs)
  have "slugs_apart (arena_rows db @ [row])"
    using assms(1) r(9) slugs_apart_draft by (simp add: arenas_ok_def)
  then have "arenas_ok db'" using assms(1) r(1,3) ok by (simp add: arenas_ok_def)
  then show ?thesis using ok r table_step.created [OF r(1-3)] by blast
qed

lemma drafts_deleted_ok:
  assumes "arenas_ok db"
    and rows: "arena_rows db' = filter (\<lambda>r. \<not> (Q r \<and> ar_Status r = ''draft'')) (arena_rows db)"
  shows "arenas_ok db' \<and> table_step db db'"
proof -
  have "slugs_apart (filter P (arena_rows db))" for P
    using assms(1) slugs_apart_subset [of "arena_rows db" "filter P (arena_rows db)"] by (simp add: arenas_ok_def)
  then have "arenas_ok db'" using assms(1) unfolding rows arenas_ok_def by (simp add: list_all_iff distinct_map_filter)
  then show ?thesis using table_step.deleted [OF rows] by blast
qed

lemma sql_DeleteArenaDraft_ok:
  "arenas_ok db \<Longrightarrow> sql_DeleteArenaDraft i c db = (n, db') \<Longrightarrow> arenas_ok db' \<and> table_step db db'"
  by (rule drafts_deleted_ok [where Q = "\<lambda>r. ar_ID r = i \<and> ar_CreatorID r = c"])
    (auto simp: sql_DeleteArenaDraft_def Let_def)

lemma sql_DeleteDeletedAccountDrafts_ok:
  "arenas_ok db \<Longrightarrow> sql_DeleteDeletedAccountDrafts c db = (n, db') \<Longrightarrow> arenas_ok db' \<and> table_step db db'"
  by (rule drafts_deleted_ok [where Q = "\<lambda>r. ar_CreatorID r = c"])
    (auto simp: sql_DeleteDeletedAccountDrafts_def Let_def)

section \<open>Parsed drafts\<close>

lemma parse_draft_ok:
  assumes "parse_draft p s c k l = Inr (s', c', k', l')"
  shows "text_ok (statement_String s')" "context_ok (textFromContext c')"
    "ParseCategory (category_String k') = Inr (Category (category_String k'))"
proof -
  have p: "ParseStatement s p = Inr s'" "ParseContext c p = Inr c'" "ParseCategory k = Inr k'"
    using assms by (auto simp: parse_draft_def bind_r_Inr_iff)
  show "text_ok (statement_String s')" by (rule ParseStatement_text [OF p(1)])
  show "context_ok (textFromContext c')" using ParseContext_text [OF p(2)] by (simp add: context_ok_def textFromContext_def)
  show "ParseCategory (category_String k') = Inr (Category (category_String k'))"
    using restate_category [OF p(3)] by (cases k') simp
qed

end
