(* ===== verification/ArenasRuns.thy ===== *)
theory ArenasRuns
  imports ArenasCorrectness
begin

text \<open>
  The exact outcomes of the use cases that write, and the runs they make up: any sequence of requests,
  each reading whatever state it may (a request carries the state it \<open>saw\<close>, which need not be a state
  of the run), over the passes, the table and the moderation events. The statements by which the moderation
  module and the deletion of an account write the table are requests too, so a run holds every write of
  the program to \<open>app.arenas\<close>.
\<close>

section \<open>Outcomes\<close>

lemma guarded_write:
  assumes "arenas_ok db" "writes_ok hit change"
    and "(case update_arena hit change db of Inl e \<Rightarrow> (Inl (g e), db) | Inr (row, db') \<Rightarrow> (mapArenaRow row, db')) = (res, db')"
  shows "(\<exists>e. res = Inl e \<and> db' = db) \<or> (\<exists>new. res = Inr (arena_of_row new) \<and> wrote hit change db new db')"
proof (cases "update_arena hit change db")
  case (Inl e)
  then show ?thesis using assms(3) by auto
next
  case (Inr x)
  then obtain row db2 where u: "update_arena hit change db = Inr (row, db2)" by (cases x) simp
  from wroteI [OF assms(1) this assms(2)] have "wrote hit change db row db2" .
  then show ?thesis using assms(3) wrote_ok(3) by (auto simp: u)
qed

abbreviation publish_hit :: "uuid \<Rightarrow> uuid \<Rightarrow> int \<Rightarrow> AppArena \<Rightarrow> bool" where
  "publish_hit a c v \<equiv> \<lambda>r. ar_ID r = a \<and> ar_CreatorID r = c \<and> ar_Status r = ''draft'' \<and> ar_Version r = v"

abbreviation publish_change :: "Slug \<Rightarrow> time \<Rightarrow> AppArena \<Rightarrow> AppArena" where
  "publish_change slug t \<equiv> \<lambda>r. r\<lparr>ar_Status := ''published'', ar_Slug := Some (slug_String slug), ar_PublishedAt := Some (timestamptz t)\<rparr>"

lemma publish_writes:
  assumes "ParseSlug (slug_String slug) = Inr slug"
  shows "writes_ok (publish_hit a c v) (publish_change slug t)"
proof -
  have s: "ParseSlug (slug_String slug) = Inr (Slug (slug_String slug))" using assms by (cases slug) simp
  show ?thesis
    using publish_writes_ok [OF s, of "\<lambda>r. ar_ID r = a \<and> ar_CreatorID r = c" "\<lambda>r. ar_Version r = v" t]
    by (simp add: conj_assoc)
qed

lemma repo_PublishArenaDraft_cases:
  assumes "arenas_ok db" "ParseSlug (slug_String slug) = Inr slug" "repo_PublishArenaDraft scan i creator slug t v db = (res, db')"
  shows "(\<exists>e. res = Inl e \<and> db' = db) \<or>
    (\<exists>new a c. scan i = Some a \<and> scan creator = Some c \<and> res = Inr (arena_of_row new)
       \<and> wrote (publish_hit a c v) (publish_change slug t) db new db')"
proof (cases "arenaScope scan i creator")
  case (Inl e)
  then show ?thesis using assms(3) by (auto simp: repo_PublishArenaDraft_def)
next
  case (Inr x)
  then obtain a c where x: "arenaScope scan i creator = Inr (a, c)" by (cases x) simp
  then have sc: "scan i = Some a" "scan creator = Some c" by (auto simp: arenaScope_def split: option.splits)
  show ?thesis
    using guarded_write [OF assms(1) publish_writes [OF assms(2)] assms(3) [unfolded repo_PublishArenaDraft_def x sql_PublishArenaDraft_def sum.case prod.case]] sc
    by blast
qed

lemma DeriveSlug_parsed: "DeriveSlug arena = Inr slug \<Longrightarrow> ParseSlug (slug_String slug) = Inr slug"
  unfolding DeriveSlug_def Let_def by (rule restate_slug)

lemma publish_cases:
  assumes "arenas_ok db" "PublishArena_Execute scan consume now cmd seen (p, db) = (res, p', db')"
  shows "(\<exists>e. res = Inl e \<and> p' = p \<and> db' = db)
    \<or> (\<exists>arena. res = Inr \<lparr>res_Arena = arena, res_Replayed = True\<rparr> \<and> p' = p \<and> db' = db
        \<and> repo_GetArenaForCreator scan (pub_ArenaID cmd) (pub_AccountID cmd) seen = Inr arena \<and> arena_status arena = ArenaStatusPublished)
    \<or> (\<exists>arena slug new a c pass. res = Inr \<lparr>res_Arena = arena_of_row new, res_Replayed = False\<rparr>
        \<and> repo_GetArenaForCreator scan (pub_ArenaID cmd) (pub_AccountID cmd) seen = Inr arena
        \<and> DeriveSlug arena = Inr slug
        \<and> consume \<lparr>pass_AccountID = pub_AccountID cmd, pass_ArenaID = pub_ArenaID cmd\<rparr> p = (Inr pass, p')
        \<and> scan (pub_ArenaID cmd) = Some a \<and> scan (pub_AccountID cmd) = Some c
        \<and> wrote (publish_hit a c (arena_version arena)) (publish_change slug now) db new db')"
proof (cases "fst (PublishArena_Execute scan consume now cmd seen (p, db))")
  case (Inl e)
  then have "snd (PublishArena_Execute scan consume now cmd seen (p, db)) = (p, db)"
    by (auto simp: PublishArena_Execute_def WithinTransaction_def split: sum.splits prod.splits if_splits)
  then show ?thesis using Inl assms(2) by auto
next
  case (Inr r)
  let ?i = "pub_ArenaID cmd" and ?creator = "pub_AccountID cmd"
  from Inr assms(2) have res: "res = Inr r" by simp
  have body: "publish_body scan consume now ?creator ?i seen (p, db) = (Inr r, p', db')"
    using assms(2) unfolding res PublishArena_Execute_def WithinTransaction_def
    by (auto split: if_splits prod.splits sum.splits)
  then obtain arena where get: "repo_GetArenaForCreator scan ?i ?creator seen = Inr arena"
    by (auto simp: publish_body_def split: sum.splits)
  show ?thesis
  proof (cases "arena_status arena = ArenaStatusPublished")
    case True
    then show ?thesis using body get res by (auto simp: publish_body_def)
  next
    case False
    then have draft: "arena_status arena = ArenaStatusDraft" using body get by (auto simp: publish_body_def split: if_splits)
    obtain slug where slug: "DeriveSlug arena = Inr slug"
      using body get False draft by (auto simp: publish_body_def split: sum.splits)
    obtain pub where pub: "Publish arena slug now = Inr pub"
      using body get False draft slug by (auto simp: publish_body_def split: sum.splits)
    have at: "arena_publishedAt pub = Some now" using pub by (auto simp: Publish_def bump_def split: if_splits)
    obtain pass p2 where pass: "consume \<lparr>pass_AccountID = ?creator, pass_ArenaID = ?i\<rparr> p = (Inr pass, p2)"
      using body get False draft slug pub by (auto simp: publish_body_def split: sum.splits prod.splits)
    obtain pr db2 where repo: "repo_PublishArenaDraft scan ?i ?creator slug now (arena_version arena) db = (pr, db2)" by fastforce
    from body get False draft slug pub at pass repo have out: "\<exists>published. pr = Inr published
        \<and> r = \<lparr>res_Arena = published, res_Replayed = False\<rparr> \<and> p' = p2 \<and> db' = db2"
      by (cases pr) (auto simp: publish_body_def)
    then show ?thesis
      using repo_PublishArenaDraft_cases [OF assms(1) DeriveSlug_parsed [OF slug] repo] get slug pass res by auto
  qed
qed

text \<open>The other writes, as far as the table is concerned.\<close>

definition kept :: "arenas_db \<Rightarrow> arenas_db \<Rightarrow> bool" where
  "kept db db' \<longleftrightarrow> arenas_ok db' \<and> table_step db db'"

lemma kept_same: "arenas_ok db \<Longrightarrow> kept db db"
  by (simp add: kept_def table_step.same)

lemma guarded_kept:
  assumes "arenas_ok db" "writes_ok hit change"
  shows "kept db (snd (case update_arena hit change db of Inl e \<Rightarrow> (Inl (g e), db) | Inr (row, db') \<Rightarrow> (mapArenaRow row, db')))"
  using guarded_write [OF assms prod.collapse [symmetric], of g] wrote_ok kept_same [OF assms(1)] by (auto simp: kept_def)

lemma create_kept:
  assumes "arenas_ok db"
  shows "kept db (snd (CreateArenaDraft_Execute scan policy now cmd db))"
proof (cases "parse_draft policy (cad_Statement cmd) (cad_Context cmd) (cad_Category cmd) (cad_Language cmd)")
  case (Inl e)
  then show ?thesis using kept_same [OF assms] by (simp add: CreateArenaDraft_Execute_def)
next
  case (Inr x)
  then obtain s c k l where x: "parse_draft policy (cad_Statement cmd) (cad_Context cmd) (cad_Category cmd) (cad_Language cmd) = Inr (s, c, k, l)"
    by (cases x) simp
  note ok = parse_draft_ok [OF x]
  have "kept db db'" if "sql_CreateArena u (statement_String s) (textFromContext c) (category_String k) (language_String l) now db = Inr (row, db')"
    for u row db' using sql_CreateArena_ok [OF assms that ok] by (simp add: kept_def)
  then show ?thesis using kept_same [OF assms] x
    by (auto simp: CreateArenaDraft_Execute_def repo_CreateArena_def split: option.splits sum.splits)
qed

lemma repo_UpdateArenaDraft_kept:
  assumes "arenas_ok db" "text_ok (statement_String (du_Statement u))" "context_ok (textFromContext (du_Context u))"
    and "ParseCategory (category_String (du_Category u)) = Inr (Category (category_String (du_Category u)))"
  shows "kept db (snd (repo_UpdateArenaDraft scan i creator u db))"
proof -
  have "writes_ok (\<lambda>r. ar_ID r = a \<and> ar_CreatorID r = c \<and> ar_Version r = v \<and> ar_Status r = ''draft'')
      (\<lambda>r. r\<lparr>ar_Statement := statement_String (du_Statement u), ar_Context := textFromContext (du_Context u),
             ar_Category := category_String (du_Category u), ar_Language := l\<rparr>)" for a c v l
    using draft_writes_ok [OF assms(2-4), of "\<lambda>r. ar_ID r = a \<and> ar_CreatorID r = c \<and> ar_Version r = v" l] by (simp add: conj_assoc)
  then show ?thesis using guarded_kept [OF assms(1)] kept_same [OF assms(1)]
    by (auto simp: repo_UpdateArenaDraft_def sql_UpdateArenaDraft_def split: sum.splits(1))
qed

lemma update_kept:
  assumes "arenas_ok db"
  shows "kept db (snd (UpdateArenaDraft_Execute scan policy cmd seen db))"
proof (cases "parse_draft policy (uad_Statement cmd) (uad_Context cmd) (uad_Category cmd) (uad_Language cmd)")
  case (Inl e)
  then show ?thesis using kept_same [OF assms] by (simp add: UpdateArenaDraft_Execute_def)
next
  case (Inr x)
  then obtain s c k l where x: "parse_draft policy (uad_Statement cmd) (uad_Context cmd) (uad_Category cmd) (uad_Language cmd) = Inr (s, c, k, l)"
    by (cases x) simp
  note repo_UpdateArenaDraft_kept [OF assms, of "\<lparr>du_Statement = s, du_Context = c, du_Category = k, du_Language = l,
      du_ExpectedVersion = uad_ExpectedVersion cmd\<rparr>"]
  then show ?thesis using parse_draft_ok [OF x] kept_same [OF assms]
    by (simp add: UpdateArenaDraft_Execute_def x split: sum.splits)
qed

lemma delete_kept: "arenas_ok db \<Longrightarrow> kept db (snd (DeleteArenaDraft_Execute scan cmd db))"
  using kept_same [of db] sql_DeleteArenaDraft_ok [of db]
  by (auto simp: DeleteArenaDraft_Execute_def repo_DeleteArenaDraft_def kept_def split: sum.splits prod.splits)

lemma publish_kept:
  assumes "arenas_ok db"
  shows "kept db (snd (snd (PublishArena_Execute scan consume now cmd seen (p, db))))"
proof -
  obtain res p' db' where "PublishArena_Execute scan consume now cmd seen (p, db) = (res, p', db')" by (metis prod_cases3)
  from publish_cases [OF assms this] this show ?thesis using wrote_ok kept_same [OF assms] by (auto simp: kept_def)
qed

lemma repo_CloseArena_kept: "arenas_ok db \<Longrightarrow> kept db (snd (repo_CloseArena scan i creator v db))"
  using status_writes_ok(1) [of "\<lambda>r. ar_ID r = a \<and> ar_CreatorID r = c" "\<lambda>r. ar_Version r = v" for a c] guarded_kept [of db] kept_same [of db]
  by (auto simp: repo_CloseArena_def sql_CloseArena_def conj_assoc split: sum.splits(1))

lemma repo_RestrictArena_kept: "arenas_ok db \<Longrightarrow> kept db (snd (repo_RestrictArena scan i v db))"
  using status_writes_ok(2) [of "\<lambda>r. ar_ID r = a" "\<lambda>r. ar_Version r = v" for a] guarded_kept [of db] kept_same [of db]
  by (auto simp: repo_RestrictArena_def sql_RestrictArena_def split: option.splits)

lemma repo_RemoveArena_kept: "arenas_ok db \<Longrightarrow> kept db (snd (repo_RemoveArena scan i v db))"
  using status_writes_ok(3) [of "\<lambda>r. ar_ID r = a" "\<lambda>r. ar_Version r = v" for a] guarded_kept [of db] kept_same [of db]
  by (auto simp: repo_RemoveArena_def sql_RemoveArena_def split: option.splits)

lemma close_kept: "arenas_ok db \<Longrightarrow> kept db (snd (CloseArena_Execute scan cmd seen db))"
  using kept_same [of db] repo_CloseArena_kept [of db scan "close_ArenaID cmd" "close_AccountID cmd"]
  by (auto simp: CloseArena_Execute_def split: sum.splits prod.splits) (metis snd_conv)+

lemma restrict_kept:
  assumes "arenas_ok (fst st)"
  shows "kept (fst st) (fst (snd (RestrictArena_Execute scan authorized audit now cmd seen st)))"
proof (cases "RestrictArena_Execute scan authorized audit now cmd seen st")
  case (fields res db' ev')
  show ?thesis
  proof (cases "db' = fst st")
    case True
    then show ?thesis using kept_same [OF assms] fields by simp
  next
    case False
    then obtain i v where "db' = snd (repo_RestrictArena scan i v (fst st))"
      using fields by (auto simp: RestrictArena_Execute_def split: sum.splits prod.splits if_splits) (metis snd_conv)+
    then show ?thesis using repo_RestrictArena_kept [OF assms] fields by simp
  qed
qed

lemma remove_kept:
  assumes "arenas_ok (fst st)"
  shows "kept (fst st) (fst (snd (RemoveArena_Execute scan authorized audit now cmd seen st)))"
proof (cases "RemoveArena_Execute scan authorized audit now cmd seen st")
  case (fields res db' ev')
  show ?thesis
  proof (cases "db' = fst st")
    case True
    then show ?thesis using kept_same [OF assms] fields by simp
  next
    case False
    then obtain i v where "db' = snd (repo_RemoveArena scan i v (fst st))"
      using fields by (auto simp: RemoveArena_Execute_def split: sum.splits prod.splits if_splits) (metis snd_conv)+
    then show ?thesis using repo_RemoveArena_kept [OF assms] fields by simp
  qed
qed

section \<open>Runs\<close>

text \<open>The other modules and the configuration the use cases are built with.\<close>

record 'p arenas_env =
  env_scan :: "string \<Rightarrow> uuid option"
  env_policy :: StatementPolicy
  env_consume :: "PassConsumption \<Rightarrow> 'p \<Rightarrow> (arenas_app_error + ConsumedPass) \<times> 'p"
  env_authorized :: "ModeratorID \<Rightarrow> bool"
  env_audit :: "ModerationEvent \<Rightarrow> bool"

text \<open>
  The requests of the module, and the statements by which other modules write the table: a sanction of the
  moderation module that closes an Arena (\<open>SanctionRq\<close>), an appeal that reopens it (\<open>AppealRq\<close>), and the
  deletion of an account, which takes its drafts along (\<open>ErasureRq\<close>). What those modules decide is left open:
  their statements may run at any time on any Arena and for any account.
\<close>

datatype arenas_request =
    CreateDraftRq time CreateArenaDraftCommand
  | UpdateDraftRq UpdateArenaDraftCommand arenas_db
  | DeleteDraftRq DeleteArenaDraftCommand
  | PublishRq time PublishArenaCommand arenas_db
  | CloseRq CloseArenaCommand arenas_db
  | RestrictRq time ModerateArenaCommand arenas_db
  | RemoveRq time ModerateArenaCommand arenas_db
  | SanctionRq uuid
  | AppealRq uuid
  | ErasureRq uuid

record 'p arenas_state =
  st_passes :: 'p
  st_table :: arenas_db
  st_events :: "ModerationEvent list"

definition arenas_apply :: "('p, 'x) arenas_env_scheme \<Rightarrow> arenas_request \<Rightarrow> 'p arenas_state \<Rightarrow> 'p arenas_state" where
  "arenas_apply env rq st =
     (case rq of
        CreateDraftRq now cmd \<Rightarrow>
          st\<lparr>st_table := snd (CreateArenaDraft_Execute (env_scan env) (env_policy env) now cmd (st_table st))\<rparr>
      | UpdateDraftRq cmd seen \<Rightarrow>
          st\<lparr>st_table := snd (UpdateArenaDraft_Execute (env_scan env) (env_policy env) cmd seen (st_table st))\<rparr>
      | DeleteDraftRq cmd \<Rightarrow> st\<lparr>st_table := snd (DeleteArenaDraft_Execute (env_scan env) cmd (st_table st))\<rparr>
      | PublishRq now cmd seen \<Rightarrow>
          (case PublishArena_Execute (env_scan env) (env_consume env) now cmd seen (st_passes st, st_table st) of
             (_, passes, db) \<Rightarrow> st\<lparr>st_passes := passes, st_table := db\<rparr>)
      | CloseRq cmd seen \<Rightarrow> st\<lparr>st_table := snd (CloseArena_Execute (env_scan env) cmd seen (st_table st))\<rparr>
      | RestrictRq now cmd seen \<Rightarrow>
          (case RestrictArena_Execute (env_scan env) (env_authorized env) (env_audit env) now cmd seen (st_table st, st_events st) of
             (_, db, events) \<Rightarrow> st\<lparr>st_table := db, st_events := events\<rparr>)
      | RemoveRq now cmd seen \<Rightarrow>
          (case RemoveArena_Execute (env_scan env) (env_authorized env) (env_audit env) now cmd seen (st_table st, st_events st) of
             (_, db, events) \<Rightarrow> st\<lparr>st_table := db, st_events := events\<rparr>)
      | SanctionRq i \<Rightarrow>
          (case sql_CloseArenaForModeration i (st_table st) of Inl _ \<Rightarrow> st | Inr (_, db) \<Rightarrow> st\<lparr>st_table := db\<rparr>)
      | AppealRq i \<Rightarrow>
          (case sql_ReopenArenaForAppeal i (st_table st) of Inl _ \<Rightarrow> st | Inr (_, db) \<Rightarrow> st\<lparr>st_table := db\<rparr>)
      | ErasureRq account \<Rightarrow> st\<lparr>st_table := snd (sql_DeleteDeletedAccountDrafts account (st_table st))\<rparr>)"

definition arenas_run :: "('p, 'x) arenas_env_scheme \<Rightarrow> arenas_request list \<Rightarrow> 'p arenas_state \<Rightarrow> 'p arenas_state" where
  "arenas_run env = fold (arenas_apply env)"

lemma arenas_run_simps [simp]:
  "arenas_run env [] st = st" "arenas_run env (rq # rqs) st = arenas_run env rqs (arenas_apply env rq st)"
  "arenas_run env (xs @ ys) st = arenas_run env ys (arenas_run env xs st)"
  by (simp_all add: arenas_run_def)

lemma sanction_kept:
  assumes "arenas_ok db" "sql_CloseArenaForModeration i db = Inr (new, db')"
  shows "kept db db'"
  using wroteI [OF assms(1) assms(2) [unfolded sql_CloseArenaForModeration_def]]
    status_writes_ok(1) [of "\<lambda>r. ar_ID r = i" "\<lambda>_. True"] wrote_ok by (simp add: kept_def)

lemma erasure_kept: "arenas_ok db \<Longrightarrow> kept db (snd (sql_DeleteDeletedAccountDrafts account db))"
  using sql_DeleteDeletedAccountDrafts_ok [of db account] by (metis kept_def prod.collapse)

text \<open>The requests other than an appeal follow the lifecycle.\<close>

lemma apply_kept:
  assumes "arenas_ok (st_table st)" "\<forall>i. rq \<noteq> AppealRq i"
  shows "kept (st_table st) (st_table (arenas_apply env rq st))"
proof (cases rq)
  case (RestrictRq now cmd seen)
  then show ?thesis
    using restrict_kept [of "(st_table st, st_events st)" "env_scan env" "env_authorized env" "env_audit env" now cmd seen] assms
    by (cases "RestrictArena_Execute (env_scan env) (env_authorized env) (env_audit env) now cmd seen (st_table st, st_events st)")
      (simp add: arenas_apply_def)
next
  case (RemoveRq now cmd seen)
  then show ?thesis
    using remove_kept [of "(st_table st, st_events st)" "env_scan env" "env_authorized env" "env_audit env" now cmd seen] assms
    by (cases "RemoveArena_Execute (env_scan env) (env_authorized env) (env_audit env) now cmd seen (st_table st, st_events st)")
      (simp add: arenas_apply_def)
next
  case (PublishRq now cmd seen)
  then show ?thesis
    using publish_kept [OF assms(1), of "env_scan env" "env_consume env" now cmd seen "st_passes st"]
    by (cases "PublishArena_Execute (env_scan env) (env_consume env) now cmd seen (st_passes st, st_table st)")
      (simp add: arenas_apply_def)
next
  case (SanctionRq i)
  then show ?thesis using sanction_kept [OF assms(1)] kept_same [OF assms(1)]
    by (auto simp: arenas_apply_def split: sum.split)
qed (use assms(2) in \<open>simp_all add: arenas_apply_def create_kept [OF assms(1)] update_kept [OF assms(1)] delete_kept [OF assms(1)]
    close_kept [OF assms(1)] erasure_kept [OF assms(1)]\<close>)

section \<open>What later tables keep\<close>

definition status_rank :: "ArenaStatus \<Rightarrow> nat" where
  "status_rank s = (if s = ''draft'' then 0 else if s = ''published'' then 1 else if s = ''closed'' then 2
     else if s = ''restricted'' then 3 else 4)"

lemma status_rank_debated: "status_rank s \<in> {1, 2} \<longleftrightarrow> s \<in> {''published'', ''closed''}"
  by (simp add: status_rank_def)

text \<open>
  Every Arena that left the draft state stays, with its frozen fields, and moves on: its version grows with
  every change, and its status moves forward, unless an appeal concerned it (\<open>appealed\<close>), which can take it
  from closed back to published.
\<close>

definition moved_on :: "uuid set \<Rightarrow> AppArena \<Rightarrow> AppArena \<Rightarrow> bool" where
  "moved_on appealed r r' \<longleftrightarrow> frozen r' = frozen r \<and> ar_Version r \<le> ar_Version r'
     \<and> (r' = r \<or> ar_Version r < ar_Version r'
         \<and> (status_rank (ar_Status r) < status_rank (ar_Status r')
            \<or> ar_ID r \<in> appealed \<and> status_rank (ar_Status r) \<in> {1, 2} \<and> status_rank (ar_Status r') \<in> {1, 2}))"

definition arenas_extends :: "uuid set \<Rightarrow> arenas_db \<Rightarrow> arenas_db \<Rightarrow> bool" where
  "arenas_extends appealed db db' \<longleftrightarrow>
     (\<forall>r \<in> set (arena_rows db). ar_Status r \<noteq> ''draft'' \<longrightarrow> (\<exists>r' \<in> set (arena_rows db'). moved_on appealed r r'))"

lemma moved_on_refl [simp]: "moved_on A r r"
  by (simp add: moved_on_def)

lemma moved_on_self: "r \<in> S \<Longrightarrow> \<exists>r' \<in> S. moved_on A r r'"
  by (rule bexI [of _ r]) simp_all

lemma rank_zero: "status_rank s = 0 \<longleftrightarrow> s = ''draft''"
  by (simp add: status_rank_def)

lemma moved_on_trans:
  assumes "moved_on A a b" "moved_on B b c" "ar_Status a \<noteq> ''draft''"
  shows "moved_on (A \<union> B) a c"
proof -
  have "0 < status_rank (ar_Status a)" using assms(3) rank_zero by blast
  moreover have "ar_ID b = ar_ID a" using assms(1) by (simp add: moved_on_def frozen_def)
  ultimately show ?thesis using assms(1,2) by (auto simp: moved_on_def)
qed

lemma moved_on_not_draft: "moved_on A r r' \<Longrightarrow> ar_Status r \<noteq> ''draft'' \<Longrightarrow> ar_Status r' \<noteq> ''draft''"
  unfolding moved_on_def using rank_zero [of "ar_Status r'"] by auto

lemma row_step_moves: "row_step old new \<Longrightarrow> ar_Status old \<noteq> ''draft'' \<Longrightarrow> moved_on A old new"
  by (auto simp: row_step_def moved_on_def successors_def status_rank_def split: if_splits)

text \<open>A table in which one row was rewritten.\<close>

lemma rewritten_extends:
  assumes "arenas_ok db" "old \<in> set (arena_rows db)" "ar_Status old \<noteq> ''draft'' \<Longrightarrow> moved_on A old new"
    "arena_rows db' = map (\<lambda>r. if ar_ID r = ar_ID old then new else r) (arena_rows db)"
  shows "arenas_extends A db db'"
proof -
  have "\<exists>r' \<in> set (arena_rows db'). moved_on A r r'" if r: "r \<in> set (arena_rows db)" "ar_Status r \<noteq> ''draft''" for r
  proof (cases "ar_ID r = ar_ID old")
    case True
    then have "r = old" using r(1) assms(1,2) by (auto simp: arenas_ok_def distinct_map inj_on_def)
    then have "moved_on A r new" using assms(3) r(2) by simp
    moreover have "new \<in> set (arena_rows db')" using assms(2,4) by (auto simp: image_iff)
    ultimately show ?thesis by blast
  next
    case False
    then have "r \<in> set (arena_rows db')" using r(1) assms(4) by (auto simp: image_iff)
    then show ?thesis using moved_on_refl by blast
  qed
  then show ?thesis by (simp add: arenas_extends_def)
qed

lemma table_step_extends: "table_step db db' \<Longrightarrow> arenas_ok db \<Longrightarrow> arenas_extends A db db'"
proof (induction rule: table_step.induct)
  case (stepped old db new db')
  show ?case by (rule rewritten_extends [OF stepped(4,1) row_step_moves [OF stepped(2)] stepped(3)])
qed (auto simp: arenas_extends_def intro: moved_on_self)

lemma arenas_extends_refl [simp]: "arenas_extends A db db"
  by (auto simp: arenas_extends_def intro: moved_on_self)

lemma arenas_extends_trans: "arenas_extends A a b \<Longrightarrow> arenas_extends B b c \<Longrightarrow> arenas_extends (A \<union> B) a c"
  unfolding arenas_extends_def using moved_on_not_draft moved_on_trans by meson

text \<open>An appeal reopens a closed Arena and touches nothing else of it.\<close>

lemma appeal_moves:
  assumes "arenas_ok db" "sql_ReopenArenaForAppeal i db = Inr (new, db')"
  shows "arenas_ok db' \<and> arenas_extends {i} db db'"
proof -
  have keeps: "keeps_rows (\<lambda>r. ar_ID r = i \<and> ar_Status r = ''closed'') (\<lambda>r. r\<lparr>ar_Status := ''published''\<rparr>)"
    using row_ok_parts(1-5) by (auto simp: keeps_rows_def context_ok_def)
  obtain old where u: "arenas_ok db'" "old \<in> set (arena_rows db)" "ar_ID old = i" "ar_Status old = ''closed''"
    "new = (old\<lparr>ar_Status := ''published''\<rparr>)\<lparr>ar_Version := ar_Version old + 1\<rparr>"
    "arena_rows db' = map (\<lambda>r. if ar_ID r = ar_ID old then new else r) (arena_rows db)"
    by (rule update_arena_keeps [OF assms(1) assms(2) [unfolded sql_ReopenArenaForAppeal_def] keeps]) blast
  have "moved_on {i} old new" using u(3,4) unfolding u(5) by (simp add: moved_on_def frozen_def status_rank_def)
  then show ?thesis using u(1) rewritten_extends [OF assms(1) u(2) _ u(6)] by blast
qed

text \<open>The Arenas that an appeal concerned.\<close>

definition appealed :: "arenas_request list \<Rightarrow> uuid set" where
  "appealed rqs = {i. AppealRq i \<in> set rqs}"

lemma appealed_Cons: "appealed (rq # rqs) = appealed [rq] \<union> appealed rqs"
  by (auto simp: appealed_def)

lemma apply_moves:
  assumes "arenas_ok (st_table st)"
  shows "arenas_ok (st_table (arenas_apply env rq st))
    \<and> arenas_extends (appealed [rq]) (st_table st) (st_table (arenas_apply env rq st))"
proof (cases "\<exists>i. rq = AppealRq i")
  case True
  then obtain i where "rq = AppealRq i" by blast
  then show ?thesis using appeal_moves [OF assms] assms by (auto simp: arenas_apply_def appealed_def split: sum.split)
next
  case False
  then show ?thesis using apply_kept [OF assms] table_step_extends [OF _ assms] by (auto simp: kept_def)
qed

lemma arenas_run_ok:
  "arenas_ok (st_table st) \<Longrightarrow>
   arenas_ok (st_table (arenas_run env rqs st)) \<and> arenas_extends (appealed rqs) (st_table st) (st_table (arenas_run env rqs st))"
proof (induction rqs arbitrary: st)
  case (Cons rq rqs)
  note step = apply_moves [OF Cons.prems, of env rq]
  show ?case using Cons.IH [of "arenas_apply env rq st"] step arenas_extends_trans
    unfolding arenas_run_simps(2) appealed_Cons [of rq rqs] by blast
qed simp

end
