(* ===== verification/PersuasionReputation.thy ===== *)
theory PersuasionReputation
  imports PersuasionModeration ArenasRuns
begin

text \<open>
  The derived reputation of an author: one row per Arena, a headline that counts each person once per Arena, and
  distributions that add up to it.
\<close>

section \<open>Buckets\<close>

lemma wrap64_add: "wrap64 (wrap64 a + b) = wrap64 (a + b)"
proof -
  have "wrap64 (wrap64 a + b) = ((a + 2 ^ 63) mod 2 ^ 64 + b) mod 2 ^ 64 - 2 ^ 63"
    by (simp add: wrap64_def algebra_simps)
  also have "\<dots> = (a + 2 ^ 63 + b) mod 2 ^ 64 - 2 ^ 63" by (simp only: mod_add_left_eq)
  finally show ?thesis by (simp add: wrap64_def algebra_simps)
qed

lemma wrap64_0 [simp]: "wrap64 0 = 0"
  by (simp add: wrap64_def)

lemma foldl_wrap64: "foldl (\<lambda>n x. wrap64 (n + f x)) (wrap64 k) xs = wrap64 (k + sum_list (map f xs))"
proof (induction xs arbitrary: k)
  case (Cons x xs)
  have "foldl (\<lambda>n x. wrap64 (n + f x)) (wrap64 k) (x # xs) = foldl (\<lambda>n x. wrap64 (n + f x)) (wrap64 (k + f x)) xs"
    by (simp add: wrap64_add)
  then show ?case using Cons.IH [of "k + f x"] by (simp add: add.assoc)
qed simp

definition label_sum :: "('a \<Rightarrow> int) \<Rightarrow> ('a \<Rightarrow> string) \<Rightarrow> string \<Rightarrow> 'a list \<Rightarrow> int" where
  "label_sum f label key xs = sum_list (map f (filter (\<lambda>x. label x = key) xs))"

definition bucket_of :: "(ArenaReputation \<Rightarrow> string) \<Rightarrow> ArenaReputation list \<Rightarrow> string \<Rightarrow> DimensionReputation" where
  "bucket_of label arenas key =
     \<lparr>dim_Label = key, dim_DistinctPeople = wrap64 (label_sum arep_DistinctPeople label key arenas),
      dim_ValidAttributions = wrap64 (label_sum arep_ValidAttributions label key arenas)\<rparr>"

lemma bucket_of_label [simp]: "dim_Label (bucket_of label arenas key) = key"
  by (simp add: bucket_of_def)

lemma label_sum_snoc: "label_sum f label key (xs @ [x]) = label_sum f label key xs + (if label x = key then f x else 0)"
  by (simp add: label_sum_def)

lemma add_to_bucket_map:
  "distinct keys \<Longrightarrow>
   add_to_bucket (label a) (arep_DistinctPeople a) (arep_ValidAttributions a) (map (bucket_of label arenas) keys) =
     (if label a \<in> set keys then map (bucket_of label (arenas @ [a])) keys
      else map (bucket_of label arenas) keys @
        [\<lparr>dim_Label = label a, dim_DistinctPeople = wrap64 (arep_DistinctPeople a), dim_ValidAttributions = wrap64 (arep_ValidAttributions a)\<rparr>])"
proof (induction keys)
  case (Cons k keys)
  have other: "bucket_of label (arenas @ [a]) key = bucket_of label arenas key" if "key \<noteq> label a" for key
    using that by (simp add: bucket_of_def label_sum_snoc)
  show ?case
  proof (cases "k = label a")
    case True
    then have "\<forall>key \<in> set keys. key \<noteq> label a" using Cons.prems by auto
    then have rest: "map (bucket_of label arenas) keys = map (bucket_of label (arenas @ [a])) keys" using other by simp
    show ?thesis using True by (simp add: rest) (simp add: bucket_of_def label_sum_snoc wrap64_add)
  next
    case False
    then show ?thesis using Cons other [of k] by auto
  qed
qed simp

lemma buckets_exact:
  "\<exists>keys. distinct keys \<and> set keys = label ` set arenas
    \<and> foldl (\<lambda>buckets a. add_to_bucket (label a) (arep_DistinctPeople a) (arep_ValidAttributions a) buckets) [] arenas
        = map (bucket_of label arenas) keys"
proof (induction arenas rule: rev_induct)
  case (snoc a arenas)
  then obtain keys where k: "distinct keys" "set keys = label ` set arenas"
    "foldl (\<lambda>buckets a. add_to_bucket (label a) (arep_DistinctPeople a) (arep_ValidAttributions a) buckets) [] arenas
        = map (bucket_of label arenas) keys" by blast
  show ?case
  proof (cases "label a \<in> set keys")
    case True
    then show ?thesis using k add_to_bucket_map [OF k(1), of label a arenas] by (intro exI [of _ keys]) auto
  next
    case False
    have empty: "filter (\<lambda>x. label x = label a) arenas = []" using False k(2) by (auto simp: filter_empty_conv image_iff)
    have "bucket_of label (arenas @ [a]) key = bucket_of label arenas key" if "key \<in> set keys" for key
      using that False by (auto simp: bucket_of_def label_sum_snoc)
    then have "map (bucket_of label arenas) keys = map (bucket_of label (arenas @ [a])) keys" by simp
    moreover have "bucket_of label (arenas @ [a]) (label a) =
        \<lparr>dim_Label = label a, dim_DistinctPeople = wrap64 (arep_DistinctPeople a), dim_ValidAttributions = wrap64 (arep_ValidAttributions a)\<rparr>"
      using empty by (simp add: bucket_of_def label_sum_def)
    ultimately show ?thesis using k False add_to_bucket_map [OF k(1), of label a arenas]
      by (intro exI [of _ "keys @ [label a]"]) auto
  qed
qed simp

lemma sum_by_label:
  "distinct keys \<Longrightarrow> label ` set xs \<subseteq> set keys \<Longrightarrow> sum_list (map (\<lambda>k. label_sum f label k xs) keys) = sum_list (map f xs)"
proof (induction xs)
  case Nil
  then show ?case by (simp add: label_sum_def)
next
  case (Cons x xs)
  have "label_sum f label k (x # xs) = (if k = label x then f x else 0) + label_sum f label k xs" for k
    by (auto simp: label_sum_def)
  then have "sum_list (map (\<lambda>k. label_sum f label k (x # xs)) keys) =
      sum_list (map (\<lambda>k. if k = label x then f x else 0) keys) + sum_list (map (\<lambda>k. label_sum f label k xs) keys)"
    by (simp add: sum_list_addf)
  moreover have "sum_list (map (\<lambda>k. if k = label x then f x else 0) keys) = f x"
    using Cons.prems by (simp add: sum_list_distinct_conv_sum_set)
  ultimately show ?case using Cons by simp
qed

lemma label_sum_range:
  assumes "\<forall>x \<in> set xs. 0 \<le> f x"
  shows "0 \<le> label_sum f label k xs" "label_sum f label k xs \<le> sum_list (map f xs)"
proof -
  show "0 \<le> label_sum f label k xs" using assms by (auto simp: label_sum_def intro!: sum_list_nonneg)
  show "label_sum f label k xs \<le> sum_list (map f xs)" using assms by (induction xs) (auto simp: label_sum_def)
qed

lemma dimension_sums:
  assumes nonneg: "\<forall>a \<in> set arenas. 0 \<le> arep_DistinctPeople a \<and> arep_DistinctPeople a \<le> arep_ValidAttributions a"
    and small: "sum_list (map arep_ValidAttributions arenas) \<le> MaxInt64"
  shows "sum_list (map dim_DistinctPeople (aggregateDimension arenas label)) = sum_list (map arep_DistinctPeople arenas)"
    "sum_list (map dim_ValidAttributions (aggregateDimension arenas label)) = sum_list (map arep_ValidAttributions arenas)"
    "sorted (map dim_Label (aggregateDimension arenas label))" "distinct (map dim_Label (aggregateDimension arenas label))"
    "dim_Label ` set (aggregateDimension arenas label) = label ` set arenas"
proof -
  obtain keys where k: "distinct keys" "set keys = label ` set arenas"
    "foldl (\<lambda>buckets a. add_to_bucket (label a) (arep_DistinctPeople a) (arep_ValidAttributions a) buckets) [] arenas
        = map (bucket_of label arenas) keys" using buckets_exact by blast
  have agg: "aggregateDimension arenas label = sort_key dim_Label (map (bucket_of label arenas) keys)"
    by (simp add: aggregateDimension_def k(3))
  have perm: "sum_list (map f (aggregateDimension arenas label)) = sum_list (map f (map (bucket_of label arenas) keys))"
    for f :: "DimensionReputation \<Rightarrow> int"
    unfolding agg by (metis mset_map mset_sort sum_mset_sum_list)
  have le: "sum_list (map arep_DistinctPeople arenas) \<le> sum_list (map arep_ValidAttributions arenas)"
    using nonneg by (intro sum_list_mono) auto
  have nn: "\<forall>a \<in> set arenas. 0 \<le> arep_DistinctPeople a" "\<forall>a \<in> set arenas. 0 \<le> arep_ValidAttributions a"
    using nonneg by fastforce+
  have range: "wrap64 (label_sum arep_DistinctPeople label key arenas) = label_sum arep_DistinctPeople label key arenas"
    "wrap64 (label_sum arep_ValidAttributions label key arenas) = label_sum arep_ValidAttributions label key arenas" for key
    using label_sum_range [OF nn(1), of label key] label_sum_range [OF nn(2), of label key] small le
    by (auto intro!: wrap64_id simp: in_int64_def MinInt64_def)
  show "sum_list (map dim_DistinctPeople (aggregateDimension arenas label)) = sum_list (map arep_DistinctPeople arenas)"
    unfolding perm using sum_by_label [OF k(1), of label arenas arep_DistinctPeople] k(2)
    by (simp add: comp_def bucket_of_def range)
  show "sum_list (map dim_ValidAttributions (aggregateDimension arenas label)) = sum_list (map arep_ValidAttributions arenas)"
    unfolding perm using sum_by_label [OF k(1), of label arenas arep_ValidAttributions] k(2)
    by (simp add: comp_def bucket_of_def range)
  show "sorted (map dim_Label (aggregateDimension arenas label))" unfolding agg by simp
  have "mset (map dim_Label (aggregateDimension arenas label)) = mset keys" unfolding agg by (simp add: multiset.map_comp comp_def)
  then show "distinct (map dim_Label (aggregateDimension arenas label))" using k(1) by (metis mset_eq_imp_distinct_iff)
  show "dim_Label ` set (aggregateDimension arenas label) = label ` set arenas" unfolding agg using k(2) by (simp add: image_image)
qed

section \<open>The rows of an author\<close>

definition arep_of_row :: "ListAuthorArenaReputationRow \<Rightarrow> ArenaReputation" where
  "arep_of_row row =
     \<lparr>arep_ArenaID = ArenaID (uuidToString (Some (rr_ArenaID row))), arep_Category = rr_Category row, arep_Language = rr_Language row,
      arep_DistinctPeople = rr_DistinctPeople row, arep_ValidAttributions = rr_ValidAttributions row\<rparr>"

lemma map_reputation_rows_eq: "map_reputation_rows rows = Inr (map arep_of_row rows)"
  by (induction rows) (simp_all add: stored_uuid_parses arep_of_row_def)

definition arep_ok :: "ArenaReputation \<Rightarrow> bool" where
  "arep_ok a \<longleftrightarrow> arena_String (arep_ArenaID a) \<noteq> [] \<and> TrimSpace (arep_Category a) \<noteq> [] \<and> TrimSpace (arep_Language a) \<noteq> []
     \<and> 0 \<le> arep_DistinctPeople a \<and> arep_DistinctPeople a \<le> arep_ValidAttributions a"

lemma validate_arenas_iff:
  "validate_arenas seen arenas = Inr () \<longleftrightarrow> list_all arep_ok arenas \<and> distinct (map (arena_String \<circ> arep_ArenaID) arenas)
     \<and> (arena_String \<circ> arep_ArenaID) ` set arenas \<inter> seen = {}"
proof (induction arenas arbitrary: seen)
  case (Cons a arenas)
  have step: "validate_arenas seen (a # arenas) = Inr () \<longleftrightarrow> arep_ok a \<and> arena_String (arep_ArenaID a) \<notin> seen
      \<and> validate_arenas (insert (arena_String (arep_ArenaID a)) seen) arenas = Inr ()"
    by (auto simp: arep_ok_def ArenaID_IsZero_def)
  show ?case unfolding step Cons.IH by (auto simp: comp_def)
qed simp

lemma credits_of_arena:
  assumes "c \<in> set (author_credits u pos args arenas db)"
  shows "fst c \<in> set (arena_rows arenas)"
  using assms by (auto simp: author_credits_def split: option.splits dest!: sym [where t = "find _ _"] find_key_Some)

lemma credits_length: "length (author_credits u pos args arenas db) \<le> length (attribution_rows db)"
proof -
  have le1: "length (concat (map f xs)) \<le> length xs" if "\<And>x. length (f x) \<le> 1" for f :: "AppPersuasionAttribution \<Rightarrow> (AppArena \<times> uuid) list" and xs
  proof (induction xs)
    case (Cons x xs)
    then show ?case using that [of x] by simp
  qed simp
  have "length (author_credits u pos args arenas db) \<le> length (counted_attributions pos db)"
    unfolding author_credits_def by (rule le1) (simp split: option.split)
  also have "\<dots> \<le> length (attribution_rows db)" by (simp add: counted_attributions_def)
  finally show ?thesis .
qed

lemma group_lengths:
  assumes "set (map f cs) \<subseteq> set keys" "distinct keys"
  shows "sum_list (map (\<lambda>k. int (length (filter (\<lambda>c. f c = k) cs))) keys) = int (length cs)"
  using assms
proof (induction cs)
  case (Cons c cs)
  have "int (length (filter (\<lambda>c. f c = k) (c # cs))) = (if k = f c then 1 else 0) + int (length (filter (\<lambda>c. f c = k) cs))" for k
    by simp
  then have "sum_list (map (\<lambda>k. int (length (filter (\<lambda>c. f c = k) (c # cs)))) keys) =
      sum_list (map (\<lambda>k. if k = f c then 1 else 0) keys) + sum_list (map (\<lambda>k. int (length (filter (\<lambda>c. f c = k) cs))) keys)"
    by (simp only: sum_list_addf)
  moreover have "sum_list (map (\<lambda>k. if k = f c then 1 else 0) keys) = (1::int)"
    using Cons.prems by (simp add: sum_list_distinct_conv_sum_set)
  ultimately show ?case using Cons by simp
qed simp

lemma group_pairs:
  assumes "distinct keys" "set keys = f ` set cs"
  shows "sum_list (map (\<lambda>k. distinct_count (map g (filter (\<lambda>c. f c = k) cs))) keys) = int (card ((\<lambda>c. (f c, g c)) ` set cs))"
proof -
  have "(\<lambda>c. (f c, g c)) ` set cs = (SIGMA k : set keys. g ` {c \<in> set cs. f c = k})"
    unfolding assms(2) by (auto intro: rev_image_eqI)
  then have "card ((\<lambda>c. (f c, g c)) ` set cs) = (\<Sum>k \<in> set keys. card (g ` {c \<in> set cs. f c = k}))" by simp
  also have "int \<dots> = (\<Sum>k \<in> set keys. distinct_count (map g (filter (\<lambda>c. f c = k) cs)))"
    by (simp add: distinct_count_def length_remdups_card_conv)
  also have "\<dots> = sum_list (map (\<lambda>k. distinct_count (map g (filter (\<lambda>c. f c = k) cs))) keys)"
    using assms(1) by (simp add: sum_list_distinct_conv_sum_set)
  finally show ?thesis by simp
qed

section \<open>The projection of an author\<close>

definition author_row :: "(AppArena \<times> uuid) list \<Rightarrow> uuid \<Rightarrow> ListAuthorArenaReputationRow" where
  "author_row credits i =
     (let group = filter (\<lambda>c. ar_ID (fst c) = i) credits in
      \<lparr>rr_ArenaID = i, rr_Category = ar_Category (fst (hd group)), rr_Language = ar_Language (fst (hd group)),
       rr_DistinctPeople = distinct_count (map snd group), rr_ValidAttributions = int (length group)\<rparr>)"

definition author_arenas :: "(AppArena \<times> uuid) list \<Rightarrow> ArenaReputation list" where
  "author_arenas credits = map (arep_of_row \<circ> author_row credits) (sort (remdups (map (ar_ID \<circ> fst) credits)))"

lemma repo_author_arenas:
  "scan (author_String author) = Some u \<Longrightarrow>
     repo_ListAuthorArenaReputation scan author pos args arenas db = Inr (author_arenas (author_credits u pos args arenas db))"
  by (simp add: repo_ListAuthorArenaReputation_def uuidParam_def sql_ListAuthorArenaReputation_def author_arenas_def author_row_def
      map_reputation_rows_eq comp_def Let_def)

lemma author_arenas_sums:
  "sum_list (map arep_ValidAttributions (author_arenas credits)) = int (length credits)"
  "sum_list (map arep_DistinctPeople (author_arenas credits)) = int (card ((\<lambda>(arena, person). (ar_ID arena, person)) ` set credits))"
  "distinct (map (arena_String \<circ> arep_ArenaID) (author_arenas credits))"
proof -
  define ids where "ids = sort (remdups (map (ar_ID \<circ> fst) credits))"
  have ids: "distinct ids" "set ids = (ar_ID \<circ> fst) ` set credits" by (simp_all add: ids_def)
  have rows: "author_arenas credits = map (arep_of_row \<circ> author_row credits) ids" by (simp add: author_arenas_def ids_def)
  note defs = rows comp_def arep_of_row_def author_row_def Let_def case_prod_beta
  show "sum_list (map arep_ValidAttributions (author_arenas credits)) = int (length credits)"
    using group_lengths [of "ar_ID \<circ> fst" credits ids] ids by (simp add: defs)
  show "sum_list (map arep_DistinctPeople (author_arenas credits)) = int (card ((\<lambda>(arena, person). (ar_ID arena, person)) ` set credits))"
    using group_pairs [of ids "ar_ID \<circ> fst" credits snd] ids by (simp add: defs)
  show "distinct (map (arena_String \<circ> arep_ArenaID) (author_arenas credits))"
    using ids(1) uuidToString_inj by (auto simp: defs distinct_map inj_on_def)
qed

lemma arena_texts:
  assumes "row_ok x"
  shows "TrimSpace (ar_Category x) \<noteq> []" "TrimSpace (ar_Language x) \<noteq> []"
proof -
  have "ParseCategory (ar_Category x) = Inr (Category (ar_Category x))" using assms by (simp add: row_ok_def)
  then show "TrimSpace (ar_Category x) \<noteq> []" by (auto simp: ParseCategory_def Let_def split: if_splits)
  have "ar_Language x \<in> {''pt-BR'', ''en-US''}" using assms by (auto simp: row_ok_def arenas_checks_def)
  then have "list_all printable (ar_Language x)" "ar_Language x \<noteq> []" by (auto simp: printable_def)
  then show "TrimSpace (ar_Language x) \<noteq> []" by simp
qed

lemma author_arenas_ok:
  assumes "arenas_ok arenas" "fst ` set credits \<subseteq> set (arena_rows arenas)"
  shows "list_all arep_ok (author_arenas credits)"
proof -
  have "arep_ok (arep_of_row (author_row credits i))" if i: "i \<in> (ar_ID \<circ> fst) ` set credits" for i
  proof -
    obtain c where c: "c \<in> set credits" "ar_ID (fst c) = i" using i by auto
    then have "hd (filter (\<lambda>c. ar_ID (fst c) = i) credits) \<in> set (filter (\<lambda>c. ar_ID (fst c) = i) credits)"
      by (intro hd_in_set) (auto simp: filter_empty_conv)
    then have "row_ok (fst (hd (filter (\<lambda>c. ar_ID (fst c) = i) credits)))"
      using assms by (auto simp: arenas_ok_def list_all_iff)
    moreover have "distinct_count (map snd group) \<le> int (length group)" "0 \<le> distinct_count (map snd group)" for group :: "(AppArena \<times> uuid) list"
      using length_remdups_leq [of "map snd group"] by (simp_all add: distinct_count_def)
    ultimately show ?thesis using arena_texts by (simp add: arep_ok_def arep_of_row_def author_row_def Let_def)
  qed
  then show ?thesis by (simp add: author_arenas_def list_all_iff)
qed

lemma projection_sums:
  assumes ok: "list_all arep_ok (rep_Arenas rep)" and small: "sum_list (map arep_ValidAttributions (rep_Arenas rep)) \<le> MaxInt64"
  shows "InfluencedPeople rep = sum_list (map arep_DistinctPeople (rep_Arenas rep))"
    "TotalValidAttributions rep = sum_list (map arep_ValidAttributions (rep_Arenas rep))"
    "\<forall>dims \<in> {ByCategory rep, ByLanguage rep}. sorted (map dim_Label dims) \<and> distinct (map dim_Label dims)
      \<and> sum_list (map dim_DistinctPeople dims) = InfluencedPeople rep \<and> sum_list (map dim_ValidAttributions dims) = TotalValidAttributions rep"
proof -
  let ?rows = "rep_Arenas rep"
  have nonneg: "\<forall>a \<in> set ?rows. 0 \<le> arep_DistinctPeople a \<and> arep_DistinctPeople a \<le> arep_ValidAttributions a"
    using ok by (auto simp: list_all_iff arep_ok_def)
  have le: "sum_list (map arep_DistinctPeople ?rows) \<le> sum_list (map arep_ValidAttributions ?rows)"
    using nonneg by (intro sum_list_mono) auto
  have ge: "0 \<le> sum_list (map arep_DistinctPeople ?rows)" using nonneg by (intro sum_list_nonneg) auto
  show inf: "InfluencedPeople rep = sum_list (map arep_DistinctPeople ?rows)"
    using foldl_wrap64 [of arep_DistinctPeople 0 ?rows] small le ge
    by (simp add: InfluencedPeople_def in_int64_def MinInt64_def)
  show tot: "TotalValidAttributions rep = sum_list (map arep_ValidAttributions ?rows)"
    using foldl_wrap64 [of arep_ValidAttributions 0 ?rows] small le ge
    by (simp add: TotalValidAttributions_def in_int64_def MinInt64_def)
  show "\<forall>dims \<in> {ByCategory rep, ByLanguage rep}. sorted (map dim_Label dims) \<and> distinct (map dim_Label dims)
      \<and> sum_list (map dim_DistinctPeople dims) = InfluencedPeople rep \<and> sum_list (map dim_ValidAttributions dims) = TotalValidAttributions rep"
    unfolding ByCategory_def ByLanguage_def inf tot
    using dimension_sums [OF nonneg small, of arep_Category] dimension_sums [OF nonneg small, of arep_Language] by simp
qed

text \<open>
  C11. The reputation of an author is derived from the facts and never refused: its Arenas are distinct, its headline
  is the number of pairs of an Arena and an eligible person credited there, its total the number of counted
  attributions, and the distributions by category and by language have distinct sorted labels and add up to both.
  The Arenas are those of a run of the arenas module.
\<close>

theorem reputation_adds_up:
  assumes h: "forum_history scan replies policy (st # past)" "reads_canonical scan" "now \<noteq> 0"
    and author: "ParseAuthorID raw = Inr author" "scan (author_String author) = Some u"
    and arenas: "arena_rows (st_table st0) = []" "arenas = st_table (arenas_run env rqs st0)"
    and size: "int (length (attribution_rows (f_attributions st))) \<le> MaxInt64"
  shows "\<exists>rep. GetAuthorReputation_Execute scan now raw (f_positions st) (f_arguments st) arenas (f_attributions st) = Inr rep
    \<and> (let credits = author_credits u (f_positions st) (f_arguments st) arenas (f_attributions st) in
        distinct (map arep_ArenaID (rep_Arenas rep))
      \<and> InfluencedPeople rep = int (card ((\<lambda>(arena, person). (ar_ID arena, person)) ` set credits))
      \<and> TotalValidAttributions rep = int (length credits)
      \<and> (\<forall>dims \<in> {ByCategory rep, ByLanguage rep}. sorted (map dim_Label dims) \<and> distinct (map dim_Label dims)
          \<and> sum_list (map dim_DistinctPeople dims) = InfluencedPeople rep
          \<and> sum_list (map dim_ValidAttributions dims) = TotalValidAttributions rep))"
proof -
  let ?credits = "author_credits u (f_positions st) (f_arguments st) arenas (f_attributions st)"
  define rep where "rep = \<lparr>rep_AuthorID = author, rep_Username = [], rep_Arenas = author_arenas ?credits, rep_CheckedAt = now\<rparr>"
  have rows: "rep_Arenas rep = author_arenas ?credits" by (simp add: rep_def)
  have "arenas_ok (st_table st0)" using arenas(1) by (simp add: arenas_ok_def slugs_apart_def)
  then have ok: "arenas_ok arenas" unfolding arenas(2) using arenas_run_ok by blast
  have valid: "list_all arep_ok (rep_Arenas rep)" unfolding rows
    by (rule author_arenas_ok [OF ok]) (auto dest: credits_of_arena)
  note sums = author_arenas_sums [of ?credits, folded rows]
  have apart: "distinct (map arep_ArenaID (rep_Arenas rep))" using sums(3) by (metis distinct_map map_map)
  have "author_String author \<noteq> []" using author_id.parsed_shape [OF author(1)] by simp
  then have "AuthorReputation_Validate rep = Inr ()"
    using h(3) valid sums(3)
    by (simp add: AuthorReputation_Validate_def validate_arenas_iff AuthorID_IsZero_def time_IsZero_def) (simp add: rep_def)
  then have exec: "GetAuthorReputation_Execute scan now raw (f_positions st) (f_arguments st) arenas (f_attributions st) = Inr rep"
    using author by (simp add: GetAuthorReputation_Execute_def deriveAuthorReputation_def repo_author_arenas rep_def)
  have small: "sum_list (map arep_ValidAttributions (rep_Arenas rep)) \<le> MaxInt64"
    using sums(1) credits_length [of u "f_positions st" "f_arguments st" arenas "f_attributions st"] size by simp
  show ?thesis unfolding Let_def using exec apart sums(1,2) projection_sums [OF valid small] by (intro exI [of _ rep]) simp
qed

end
