(* ===== verification/PersuasionAbuse.thy ===== *)
theory PersuasionAbuse
  imports PersuasionReputation
begin

text \<open>
  The advisory signals of a subject: no count overflows, the assessment validates, and the signals are exactly the
  counts of the stored facts that cross the thresholds of the policy.
\<close>

section \<open>Signals and their keys\<close>

lemma validate_signals_iff:
  "validate_signals window seen signals = Inr () \<longleftrightarrow>
     list_all (\<lambda>s. Signal_Validate s = Inr () \<and> sig_Window s = window) signals
     \<and> distinct (map signal_key signals) \<and> signal_key ` set signals \<inter> seen = {}"
proof (induction signals arbitrary: seen)
  case (Cons s signals)
  have step: "validate_signals window seen (s # signals) = Inr () \<longleftrightarrow> Signal_Validate s = Inr () \<and> sig_Window s = window
      \<and> signal_key s \<notin> seen \<and> validate_signals window (insert (signal_key s) seen) signals = Inr ()"
    by (auto simp: bind_r_Inr_iff)
  show ?case unfolding step Cons.IH by auto
qed simp

lemma signal_key_inj:
  assumes "SignalKind_IsValid (sig_Kind s)" "SignalKind_IsValid (sig_Kind t)"
  shows "signal_key s = signal_key t \<longleftrightarrow> sig_Kind s = sig_Kind t \<and> sig_Counterpart s = sig_Counterpart t"
  using assms by (auto simp: signal_key_def SignalKind_IsValid_def vocab AttributorID.expand)

definition counterpart :: "uuid \<Rightarrow> AttributorID" where
  "counterpart u = AttributorID (uuidToString (Some u))"

lemma counterpart_facts [simp]: "\<not> AttributorID_IsZero (counterpart u)" "counterpart u = counterpart v \<longleftrightarrow> u = v"
  using uuidToString_inj by (auto simp: counterpart_def AttributorID_IsZero_def)

lemma mapped_facts:
  "map_reciprocity rows3 = Inr (map (\<lambda>(u, i, n). \<lparr>rf_Counterpart = counterpart u, rf_Inbound = i, rf_Outbound = n\<rparr>) rows3)"
  "map_concentration rows2 = Inr (map (\<lambda>(u, n). \<lparr>cf_Attributor = counterpart u, cf_Events = n\<rparr>) rows2)"
  "map_alternation rows3 = Inr (map (\<lambda>(u, i, n). \<lparr>af_Account = counterpart u, af_Changes = i, af_Reversals = n\<rparr>) rows3)"
proof -
  show "map_reciprocity rows3 = Inr (map (\<lambda>(u, i, n). \<lparr>rf_Counterpart = counterpart u, rf_Inbound = i, rf_Outbound = n\<rparr>) rows3)"
    by (induction rows3 rule: map_reciprocity.induct) (simp_all add: stored_uuid_parses counterpart_def)
  show "map_concentration rows2 = Inr (map (\<lambda>(u, n). \<lparr>cf_Attributor = counterpart u, cf_Events = n\<rparr>) rows2)"
    by (induction rows2 rule: map_concentration.induct) (simp_all add: stored_uuid_parses counterpart_def)
  show "map_alternation rows3 = Inr (map (\<lambda>(u, i, n). \<lparr>af_Account = counterpart u, af_Changes = i, af_Reversals = n\<rparr>) rows3)"
    by (induction rows3 rule: map_alternation.induct) (simp_all add: stored_uuid_parses counterpart_def)
qed

section \<open>Counts\<close>

lemma count_where_split:
  assumes "distinct keys" "f ` set xs \<subseteq> set keys"
  shows "sum_list (map (\<lambda>k. count_where (\<lambda>x. f x = k) xs) keys) = int (length xs)"
  using group_lengths [of f xs keys] assms by (simp add: count_where_def)

lemma reversals_bound:
  "chain_reversals a b rows \<le> count_where (in_window a b) rows" "0 \<le> chain_reversals a b rows"
proof -
  have "length (filter (\<lambda>i. in_window a b (rows ! i)) [0..<length rows]) = length (filter (in_window a b) rows)"
    using arg_cong [OF filter_map [of "in_window a b" "nth rows" "[0..<length rows]"], of length] by (simp add: comp_def map_nth)
  moreover have "length (filter (\<lambda>i. in_window a b (rows ! i) \<and> pc_ToPosition (rows ! i) = pc_ToPosition (rows ! (i - 2))) [2..<length rows])
      \<le> length (filter (\<lambda>i. in_window a b (rows ! i)) [0..<length rows])"
    unfolding distinct_card [OF distinct_filter [OF distinct_upt], symmetric] by (rule card_mono) auto
  ultimately show "chain_reversals a b rows \<le> count_where (in_window a b) rows" by (simp add: chain_reversals_def count_where_def)
qed (simp add: chain_reversals_def)

lemma share_threshold:
  fixes whole :: int
  assumes "0 < whole" "0 \<le> n"
  shows "b \<le> go_quot (n * 10000) whole \<longleftrightarrow> b * whole \<le> n * 10000"
proof -
  have "b \<le> n * 10000 div whole \<longleftrightarrow> b * whole \<le> n * 10000"
  proof
    assume "b \<le> n * 10000 div whole"
    then have "b * whole \<le> n * 10000 div whole * whole" using assms(1) by (intro mult_right_mono) simp_all
    also have "\<dots> \<le> n * 10000" using assms(1) by (simp add: div_times_less_eq_dividend minus_mod_eq_div_mult [symmetric])
    finally show "b * whole \<le> n * 10000" .
  next
    assume "b * whole \<le> n * 10000"
    then show "b \<le> n * 10000 div whole" using zdiv_mono1 [of "b * whole" "n * 10000" whole] assms(1) by simp
  qed
  moreover have "go_quot (n * 10000) whole = n * 10000 div whole"
    using assms by (cases "n = 0") (simp_all add: go_quot_def)
  ultimately show ?thesis by simp
qed

section \<open>The assessment\<close>

definition reciprocity_facts :: "(uuid \<times> int \<times> int) list \<Rightarrow> ReciprocityFact list" where
  "reciprocity_facts rows = map (\<lambda>(u, i, n). \<lparr>rf_Counterpart = counterpart u, rf_Inbound = i, rf_Outbound = n\<rparr>) rows"

definition concentration_facts :: "(uuid \<times> int) list \<Rightarrow> ConcentrationFact list" where
  "concentration_facts rows = map (\<lambda>(u, n). \<lparr>cf_Attributor = counterpart u, cf_Events = n\<rparr>) rows"

definition alternation_facts :: "(uuid \<times> int \<times> int) list \<Rightarrow> AlternationFact list" where
  "alternation_facts rows = map (\<lambda>(u, i, n). \<lparr>af_Account = counterpart u, af_Changes = i, af_Reversals = n\<rparr>) rows"

text \<open>The facts a database answers: one row per account, non-negative counts, no more reversals than changes.\<close>

definition rows_ok :: "(uuid \<times> int \<times> int) list \<Rightarrow> (uuid \<times> int) list \<Rightarrow> (uuid \<times> int \<times> int) list \<Rightarrow> bool" where
  "rows_ok rs cs as \<longleftrightarrow> distinct (map fst rs) \<and> distinct (map fst cs) \<and> distinct (map fst as)
     \<and> (\<forall>(u, i, n) \<in> set rs. 0 \<le> i \<and> 0 \<le> n \<and> i + n \<le> MaxInt64)
     \<and> (\<forall>(u, n) \<in> set cs. 0 \<le> n) \<and> sum_list (map snd cs) * 10000 \<le> MaxInt64
     \<and> (\<forall>(u, i, n) \<in> set as. 0 \<le> n \<and> n \<le> i)"

lemma concentration_fact_iff:
  "f \<in> set (concentration_facts cs) \<longleftrightarrow> (\<exists>u n. (u, n) \<in> set cs \<and> f = \<lparr>cf_Attributor = counterpart u, cf_Events = n\<rparr>)"
  by (force simp: concentration_facts_def)

lemma concentration_fact_ex:
  "(\<exists>f \<in> set (concentration_facts cs). cf_Attributor f = counterpart u \<and> P f) \<longleftrightarrow>
     (\<exists>n. (u, n) \<in> set cs \<and> P \<lparr>cf_Attributor = counterpart u, cf_Events = n\<rparr>)"
  by (force simp: concentration_facts_def)

lemma rows_valid:
  assumes "rows_ok rs cs as"
  shows "SignalFacts_Validate \<lparr>Reciprocity = reciprocity_facts rs, Concentration = concentration_facts cs, Alternation = alternation_facts as\<rparr> = Inr ()"
  using assms
  by (fastforce simp: SignalFacts_Validate_def list_ex_iff reciprocity_facts_def concentration_facts_def alternation_facts_def rows_ok_def)

lemma concentration_counts:
  assumes "rows_ok rs cs as" "(u, n) \<in> set cs" "0 < n"
  shows "concentration_total (concentration_facts cs) = sum_list (map snd cs)" "0 < sum_list (map snd cs)" "n \<le> sum_list (map snd cs)"
    "b \<le> concentration_share (sum_list (map snd cs)) \<lparr>cf_Attributor = counterpart u, cf_Events = n\<rparr> \<longleftrightarrow> b * sum_list (map snd cs) \<le> n * 10000"
    "concentration_share (sum_list (map snd cs)) \<lparr>cf_Attributor = counterpart u, cf_Events = n\<rparr> \<le> 10000"
proof -
  have nonneg: "\<forall>x \<in> set cs. 0 \<le> snd x" and cap: "sum_list (map snd cs) * 10000 \<le> MaxInt64" using assms(1) by (auto simp: rows_ok_def)
  show le: "n \<le> sum_list (map snd cs)" using member_le_sum_list [of n "map snd cs"] nonneg assms(2) by force
  then show pos: "0 < sum_list (map snd cs)" using assms(3) by simp
  have "map cf_Events (concentration_facts cs) = map snd cs" by (auto simp: concentration_facts_def)
  then show total: "concentration_total (concentration_facts cs) = sum_list (map snd cs)"
    using foldl_wrap64 [of cf_Events 0 "concentration_facts cs"] pos cap
    by (simp add: concentration_total_def in_int64_def MinInt64_def)
  have n: "wrap64 (n * 10000) = n * 10000" using assms(3) le cap by (intro wrap64_id) (simp add: in_int64_def MinInt64_def)
  have share: "concentration_share (sum_list (map snd cs)) \<lparr>cf_Attributor = counterpart u, cf_Events = n\<rparr> = go_quot (n * 10000) (sum_list (map snd cs))"
    by (simp add: concentration_share_def basisPointTotal_def n)
  show "b \<le> concentration_share (sum_list (map snd cs)) \<lparr>cf_Attributor = counterpart u, cf_Events = n\<rparr> \<longleftrightarrow> b * sum_list (map snd cs) \<le> n * 10000"
    for b unfolding share using pos assms(3) by (intro share_threshold) simp_all
  have "\<not> 10001 \<le> go_quot (n * 10000) (sum_list (map snd cs))" using pos assms(3) le by (subst share_threshold) simp_all
  then show "concentration_share (sum_list (map snd cs)) \<lparr>cf_Attributor = counterpart u, cf_Events = n\<rparr> \<le> 10000" unfolding share by simp
qed

text \<open>The signals of the three kinds, as facts of the rows.\<close>

definition signalled :: "Signal list \<Rightarrow> string \<Rightarrow> uuid \<Rightarrow> bool" where
  "signalled signals kind u \<longleftrightarrow> (\<exists>s \<in> set signals. sig_Kind s = kind \<and> sig_Counterpart s = counterpart u)"

lemma signalled_parts:
  "signalled (xs @ ys) kind u \<longleftrightarrow> signalled xs kind u \<or> signalled ys kind u"
  "signalled (reciprocity_signals p fs) kind u \<longleftrightarrow> kind = SignalReciprocity
     \<and> (\<exists>f \<in> set fs. rf_Counterpart f = counterpart u \<and> MinReciprocityEvents p \<le> rf_Inbound f \<and> MinReciprocityEvents p \<le> rf_Outbound f)"
  "signalled (concentration_signals p gs) kind u \<longleftrightarrow> kind = SignalConcentration
     \<and> (\<exists>f \<in> set gs. cf_Attributor f = counterpart u \<and> MinConcentrationEvents p \<le> cf_Events f \<and> concentration_total gs \<noteq> 0
          \<and> ConcentrationShareBasisPoints p \<le> concentration_share (concentration_total gs) f)"
  "signalled (alternation_signals p hs) kind u \<longleftrightarrow> kind = SignalRapidAlternation
     \<and> (\<exists>f \<in> set hs. af_Account f = counterpart u \<and> MinAlternationChanges p \<le> af_Changes f \<and> MinAlternationReversals p \<le> af_Reversals f)"
  unfolding signalled_def reciprocity_signals_def concentration_signals_def alternation_signals_def Let_def
  by (auto simp: not_less)

lemma kinds_apart [simp]:
  "SignalReciprocity \<noteq> SignalConcentration" "SignalReciprocity \<noteq> SignalRapidAlternation" "SignalConcentration \<noteq> SignalRapidAlternation"
  "SignalConcentration \<noteq> SignalReciprocity" "SignalRapidAlternation \<noteq> SignalReciprocity" "SignalRapidAlternation \<noteq> SignalConcentration"
  by (simp_all add: vocab)

lemma signalled_kinds:
  assumes ok: "rows_ok rs cs as" and policy: "SignalPolicy_IsValid p"
  defines "all \<equiv> reciprocity_signals p (reciprocity_facts rs) @ concentration_signals p (concentration_facts cs)
      @ alternation_signals p (alternation_facts as)"
  shows "signalled all SignalReciprocity u \<longleftrightarrow> (\<exists>i n. (u, i, n) \<in> set rs \<and> MinReciprocityEvents p \<le> i \<and> MinReciprocityEvents p \<le> n)"
    "signalled all SignalConcentration u \<longleftrightarrow> (\<exists>n. (u, n) \<in> set cs \<and> MinConcentrationEvents p \<le> n
        \<and> ConcentrationShareBasisPoints p * sum_list (map snd cs) \<le> n * 10000)"
    "signalled all SignalRapidAlternation u \<longleftrightarrow> (\<exists>i n. (u, i, n) \<in> set as \<and> MinAlternationChanges p \<le> i \<and> MinAlternationReversals p \<le> n)"
proof -
  show "signalled all SignalReciprocity u \<longleftrightarrow> (\<exists>i n. (u, i, n) \<in> set rs \<and> MinReciprocityEvents p \<le> i \<and> MinReciprocityEvents p \<le> n)"
    unfolding all_def signalled_parts by (fastforce simp: reciprocity_facts_def)
  show "signalled all SignalRapidAlternation u \<longleftrightarrow> (\<exists>i n. (u, i, n) \<in> set as \<and> MinAlternationChanges p \<le> i \<and> MinAlternationReversals p \<le> n)"
    unfolding all_def signalled_parts by (fastforce simp: alternation_facts_def)
  let ?crossed = "\<lambda>f. MinConcentrationEvents p \<le> cf_Events f \<and> concentration_total (concentration_facts cs) \<noteq> 0
      \<and> ConcentrationShareBasisPoints p \<le> concentration_share (concentration_total (concentration_facts cs)) f"
  have "signalled all SignalConcentration u \<longleftrightarrow> (\<exists>f \<in> set (concentration_facts cs). cf_Attributor f = counterpart u \<and> ?crossed f)"
    unfolding all_def signalled_parts by simp
  also have "\<dots> \<longleftrightarrow> (\<exists>n. (u, n) \<in> set cs \<and> ?crossed \<lparr>cf_Attributor = counterpart u, cf_Events = n\<rparr>)"
    by (rule concentration_fact_ex)
  also have "\<dots> \<longleftrightarrow> (\<exists>n. (u, n) \<in> set cs \<and> MinConcentrationEvents p \<le> n
        \<and> ConcentrationShareBasisPoints p * sum_list (map snd cs) \<le> n * 10000)"
  proof -
    have "?crossed \<lparr>cf_Attributor = counterpart u, cf_Events = n\<rparr> \<longleftrightarrow> MinConcentrationEvents p \<le> n
        \<and> ConcentrationShareBasisPoints p * sum_list (map snd cs) \<le> n * 10000" if n: "(u, n) \<in> set cs" for n
    proof (cases "MinConcentrationEvents p \<le> n")
      case True
      then have "0 < n" using policy by (simp add: SignalPolicy_IsValid_def)
      note c = concentration_counts [OF ok n this]
      show ?thesis using True c(2) c(4) [of "ConcentrationShareBasisPoints p"] by (simp add: c(1) not_less)
    qed simp
    then show ?thesis by blast
  qed
  finally show "signalled all SignalConcentration u \<longleftrightarrow> (\<exists>n. (u, n) \<in> set cs \<and> MinConcentrationEvents p \<le> n
        \<and> ConcentrationShareBasisPoints p * sum_list (map snd cs) \<le> n * 10000)" .
qed

lemma distinct_filter_map: "distinct (map f xs) \<Longrightarrow> distinct (map f (filter P xs))"
  by (rule distinct_map_filter)

lemma counterparts_distinct:
  assumes "rows_ok rs cs as"
  shows "distinct (map rf_Counterpart (reciprocity_facts rs))" "distinct (map cf_Attributor (concentration_facts cs))"
    "distinct (map af_Account (alternation_facts as))"
proof -
  have injective: "distinct (map counterpart us) \<longleftrightarrow> distinct us" for us by (simp add: distinct_map inj_on_def)
  have "map rf_Counterpart (reciprocity_facts rs) = map counterpart (map fst rs)"
    "map cf_Attributor (concentration_facts cs) = map counterpart (map fst cs)"
    "map af_Account (alternation_facts as) = map counterpart (map fst as)"
    by (auto simp: reciprocity_facts_def concentration_facts_def alternation_facts_def)
  then show "distinct (map rf_Counterpart (reciprocity_facts rs))" "distinct (map cf_Attributor (concentration_facts cs))"
    "distinct (map af_Account (alternation_facts as))" using assms injective by (auto simp: rows_ok_def simp del: map_map)
qed

lemma assessed_signals_valid:
  assumes ok: "rows_ok rs cs as" and policy: "SignalPolicy_IsValid p"
  shows "\<forall>s \<in> set (reciprocity_signals p (reciprocity_facts rs)). Signal_Validate s = Inr () \<and> sig_Window s = sp_Window p"
    "\<forall>s \<in> set (concentration_signals p (concentration_facts cs)). Signal_Validate s = Inr () \<and> sig_Window s = sp_Window p"
    "\<forall>s \<in> set (alternation_signals p (alternation_facts as)). Signal_Validate s = Inr () \<and> sig_Window s = sp_Window p"
proof -
  have w: "0 < sp_Window p" "1 \<le> MinReciprocityEvents p" "1 \<le> MinConcentrationEvents p" "1 \<le> ConcentrationShareBasisPoints p"
    "2 \<le> MinAlternationChanges p" "1 \<le> MinAlternationReversals p" using policy by (auto simp: SignalPolicy_IsValid_def)
  have "wrap64 (i + n) = i + n" if "(u, i, n) \<in> set rs" for u i n
    using that ok by (intro wrap64_id) (auto simp: rows_ok_def in_int64_def MinInt64_def)
  then show "\<forall>s \<in> set (reciprocity_signals p (reciprocity_facts rs)). Signal_Validate s = Inr () \<and> sig_Window s = sp_Window p"
    using w by (auto simp: reciprocity_signals_def reciprocity_facts_def Signal_Validate_def SignalKind_IsValid_def vocab)
  show "\<forall>s \<in> set (alternation_signals p (alternation_facts as)). Signal_Validate s = Inr () \<and> sig_Window s = sp_Window p"
    using w ok by (fastforce simp: alternation_signals_def alternation_facts_def Signal_Validate_def SignalKind_IsValid_def vocab rows_ok_def)
  have "Signal_Validate s = Inr () \<and> sig_Window s = sp_Window p" if member: "s \<in> set (concentration_signals p (concentration_facts cs))" for s
  proof -
    obtain f where f: "f \<in> set (concentration_facts cs)" "MinConcentrationEvents p \<le> cf_Events f"
      "ConcentrationShareBasisPoints p \<le> concentration_share (concentration_total (concentration_facts cs)) f"
      "s = \<lparr>sig_Kind = SignalConcentration, sig_Counterpart = cf_Attributor f, sig_Window = sp_Window p, MutualEvents = 0,
        DominantEvents = cf_Events f, ShareBasisPoints = concentration_share (concentration_total (concentration_facts cs)) f,
        sig_Changes = 0, sig_Reversals = 0\<rparr>"
      using member by (auto simp: concentration_signals_def Let_def not_less)
    then obtain u n where n: "(u, n) \<in> set cs" "MinConcentrationEvents p \<le> n"
      and share: "ConcentrationShareBasisPoints p \<le> concentration_share (concentration_total (concentration_facts cs)) \<lparr>cf_Attributor = counterpart u, cf_Events = n\<rparr>"
      and s: "s = \<lparr>sig_Kind = SignalConcentration, sig_Counterpart = counterpart u, sig_Window = sp_Window p, MutualEvents = 0, DominantEvents = n,
        ShareBasisPoints = concentration_share (concentration_total (concentration_facts cs)) \<lparr>cf_Attributor = counterpart u, cf_Events = n\<rparr>,
        sig_Changes = 0, sig_Reversals = 0\<rparr>"
      unfolding concentration_fact_iff by auto
    have pos: "0 < n" using n(2) w(3) by simp
    note c = concentration_counts [OF ok n(1) pos]
    show ?thesis using share w(1,4) pos c(5) unfolding s
      by (simp add: c(1) Signal_Validate_def SignalKind_IsValid_def vocab basisPointTotal_def)
  qed
  then show "\<forall>s \<in> set (concentration_signals p (concentration_facts cs)). Signal_Validate s = Inr () \<and> sig_Window s = sp_Window p"
    by blast
qed

section \<open>The facts of the database\<close>

lemma count_where_pos: "0 < count_where P xs \<longleftrightarrow> (\<exists>x \<in> set xs. P x)" "0 \<le> count_where P xs"
  by (auto simp: count_where_def filter_empty_conv)

definition credits_received :: "uuid \<Rightarrow> time \<Rightarrow> time \<Rightarrow> arguments_db \<Rightarrow> persuasion_db \<Rightarrow> uuid \<Rightarrow> int" where
  "credits_received subject from_t to_t args db v = count_where (\<lambda>r. at_AttributorID r = v) (subject_attributions subject from_t to_t args db)"

definition credits_given :: "uuid \<Rightarrow> time \<Rightarrow> time \<Rightarrow> arguments_db \<Rightarrow> persuasion_db \<Rightarrow> uuid \<Rightarrow> int" where
  "credits_given subject from_t to_t args db v =
     count_where (\<lambda>r. at_AttributorID r = subject \<and> argument_author args (at_ArgumentID r) = Some v) (window_attributions from_t to_t db)"

lemma received_pos: "0 < credits_received subject a b args db v \<longleftrightarrow> v \<in> at_AttributorID ` set (subject_attributions subject a b args db)"
  by (auto simp: credits_received_def count_where_pos)

lemma credits_given_filter:
  "count_where (\<lambda>r. argument_author args (at_ArgumentID r) = Some v) (filter (\<lambda>r. at_AttributorID r = subject) (window_attributions a b db))
     = credits_given subject a b args db v"
  by (simp add: credits_given_def count_where_def conj_commute)

lemma reciprocity_rows:
  "set (sql_ListAttributionReciprocity u a b args db) =
     {(v, credits_received u a b args db v, credits_given u a b args db v) | v. 0 < credits_received u a b args db v \<and> 0 < credits_given u a b args db v}"
  "distinct (map fst (sql_ListAttributionReciprocity u a b args db))"
  by (auto simp: sql_ListAttributionReciprocity_def credits_given_filter Let_def received_pos comp_def image_iff
      credits_received_def [symmetric])

lemma concentration_rows:
  "set (sql_ListAttributionConcentration u a b args db) =
     {(v, credits_received u a b args db v) | v. 0 < credits_received u a b args db v}"
  "distinct (map fst (sql_ListAttributionConcentration u a b args db))"
  "sum_list (map snd (sql_ListAttributionConcentration u a b args db)) = int (length (subject_attributions u a b args db))"
proof -
  let ?rows = "subject_attributions u a b args db"
  let ?keys = "sort_key (\<lambda>v. (- credits_received u a b args db v, v)) (remdups (map at_AttributorID ?rows))"
  have eq: "sql_ListAttributionConcentration u a b args db = map (\<lambda>v. (v, credits_received u a b args db v)) ?keys"
    by (simp add: sql_ListAttributionConcentration_def Let_def credits_received_def)
  show "set (sql_ListAttributionConcentration u a b args db) =
     {(v, credits_received u a b args db v) | v. 0 < credits_received u a b args db v}" unfolding eq by (auto simp: received_pos)
  show "distinct (map fst (sql_ListAttributionConcentration u a b args db))" unfolding eq by (simp add: comp_def)
  show "sum_list (map snd (sql_ListAttributionConcentration u a b args db)) = int (length ?rows)" unfolding eq
    using count_where_split [of ?keys at_AttributorID ?rows] by (simp add: comp_def credits_received_def)
qed

lemma alternation_rows:
  "set (sql_ListAttributionAlternation a b u pos args db) =
     {(v, count_where (in_window a b) (account_chain v pos), chain_reversals a b (account_chain v pos)) | v.
        0 < credits_received u a b args db v \<and> account_chain v pos \<noteq> []}"
  "distinct (map fst (sql_ListAttributionAlternation a b u pos args db))"
  by (auto simp: sql_ListAttributionAlternation_def Let_def received_pos comp_def)

lemma database_rows_ok:
  assumes "10000 * int (length (attribution_rows db)) \<le> MaxInt64"
  shows "rows_ok (sql_ListAttributionReciprocity u a b args db) (sql_ListAttributionConcentration u a b args db)
    (sql_ListAttributionAlternation a b u pos args db)"
proof -
  have len: "length (filter P (window_attributions a b db)) \<le> length (attribution_rows db)" for P
    unfolding window_attributions_def using length_filter_le le_trans by blast
  have counts: "credits_received u a b args db v \<le> int (length (attribution_rows db))"
    "credits_given u a b args db v \<le> int (length (attribution_rows db))" for v
    using len by (simp_all add: credits_received_def credits_given_def count_where_def subject_attributions_def)
  have "credits_received u a b args db v + credits_given u a b args db v \<le> MaxInt64" for v
    using counts [of v] assms by linarith
  moreover have "int (length (subject_attributions u a b args db)) * 10000 \<le> MaxInt64"
    using len [of "\<lambda>r. argument_author args (at_ArgumentID r) = Some u"] assms by (simp add: subject_attributions_def)
  ultimately show ?thesis unfolding rows_ok_def reciprocity_rows concentration_rows alternation_rows
    using reciprocity_rows(2) concentration_rows(2) alternation_rows(2) reversals_bound
    by (auto simp: less_imp_le)
qed

section \<open>The assessment of a subject\<close>

lemma assessment_valid:
  assumes ok: "rows_ok rs cs as" and policy: "SignalPolicy_IsValid p"
    and subject: "author_String subject \<noteq> []" and now: "now \<noteq> 0"
    and signals: "signals = sort_key (\<lambda>s. (sig_Kind s, attributor_String (sig_Counterpart s)))
      (reciprocity_signals p (reciprocity_facts rs) @ concentration_signals p (concentration_facts cs) @ alternation_signals p (alternation_facts as))"
  shows "SignalAssessment_Validate \<lparr>as_Subject = subject, as_Signals = signals, as_PolicyVersion = sp_Version p, as_Window = sp_Window p,
    as_AssessedAt = now\<rparr> = Inr ()"
proof -
  let ?rs = "reciprocity_signals p (reciprocity_facts rs)" and ?cs = "concentration_signals p (concentration_facts cs)"
    and ?as = "alternation_signals p (alternation_facts as)"
  note valid = assessed_signals_valid [OF ok policy]
  have kinds: "\<forall>s \<in> set ?rs. sig_Kind s = SignalReciprocity" "\<forall>s \<in> set ?cs. sig_Kind s = SignalConcentration"
    "\<forall>s \<in> set ?as. sig_Kind s = SignalRapidAlternation"
    by (auto simp: reciprocity_signals_def concentration_signals_def alternation_signals_def Let_def)
  have keyed: "distinct (map signal_key xs)" if "\<forall>s \<in> set xs. sig_Kind s = k" "distinct (map sig_Counterpart xs)" for xs k
    using that by (auto simp: distinct_map inj_on_def signal_key_def AttributorID.expand)
  have "map sig_Counterpart ?rs = map rf_Counterpart (filter (\<lambda>f. \<not> (rf_Inbound f < MinReciprocityEvents p \<or> rf_Outbound f < MinReciprocityEvents p)) (reciprocity_facts rs))"
    by (simp add: reciprocity_signals_def)
  then have r: "distinct (map signal_key ?rs)"
    using keyed [OF kinds(1)] distinct_filter_map [OF counterparts_distinct(1) [OF ok]] by simp
  have c: "distinct (map signal_key ?cs)"
    using keyed [OF kinds(2)] distinct_filter_map [OF counterparts_distinct(2) [OF ok]]
    by (simp add: concentration_signals_def Let_def comp_def)
  have a: "distinct (map signal_key ?as)"
    using keyed [OF kinds(3)] distinct_filter_map [OF counterparts_distinct(3) [OF ok]]
    by (simp add: alternation_signals_def comp_def)
  have "signal_key s \<noteq> signal_key t" if "sig_Kind s \<noteq> sig_Kind t" "SignalKind_IsValid (sig_Kind s)" "SignalKind_IsValid (sig_Kind t)" for s t
    using signal_key_inj [OF that(2,3)] that(1) by simp
  then have apart: "signal_key ` set ?rs \<inter> signal_key ` set ?cs = {}" "signal_key ` set ?rs \<inter> signal_key ` set ?as = {}"
    "signal_key ` set ?cs \<inter> signal_key ` set ?as = {}"
    using kinds by (fastforce simp: SignalKind_IsValid_def)+
  have "distinct (map signal_key (?rs @ ?cs @ ?as))" using r c a apart by (auto simp: Int_Un_distrib)
  moreover have "mset (map signal_key signals) = mset (map signal_key (?rs @ ?cs @ ?as))" unfolding signals by simp
  ultimately have "distinct (map signal_key signals)" by (metis mset_eq_imp_distinct_iff)
  moreover have "list_all (\<lambda>s. Signal_Validate s = Inr () \<and> sig_Window s = sp_Window p) signals"
    unfolding signals using valid by (auto simp: list_all_iff)
  ultimately show ?thesis using policy subject now
    by (simp add: SignalAssessment_Validate_def validate_signals_iff AuthorID_IsZero_def time_IsZero_def SignalPolicy_IsValid_def)
qed

lemma database_signals:
  assumes "SignalPolicy_IsValid policy"
    and "ParseModeratorID (asq_ActorAccountID query) = Inr actor" "authorized actor"
    and "ParseAuthorID (asq_SubjectID query) = Inr subject" "scan (author_String subject) = Some u"
    and "now \<noteq> 0" "10000 * int (length (attribution_rows db)) \<le> MaxInt64"
    and "from_t = timestamptz (now - sp_Window policy)" "to_t = timestamptz now"
  obtains a where "GetAttributionSignals_Execute scan authorized policy now query pos args db = Inr a"
    "\<And>v. signalled (as_Signals a) SignalReciprocity v \<longleftrightarrow> MinReciprocityEvents policy \<le> credits_received u from_t to_t args db v
           \<and> MinReciprocityEvents policy \<le> credits_given u from_t to_t args db v"
    "\<And>v. signalled (as_Signals a) SignalConcentration v \<longleftrightarrow> MinConcentrationEvents policy \<le> credits_received u from_t to_t args db v
           \<and> ConcentrationShareBasisPoints policy * int (length (subject_attributions u from_t to_t args db))
               \<le> 10000 * credits_received u from_t to_t args db v"
    "\<And>v. signalled (as_Signals a) SignalRapidAlternation v \<longleftrightarrow> 0 < credits_received u from_t to_t args db v
           \<and> MinAlternationChanges policy \<le> count_where (in_window from_t to_t) (account_chain v pos)
           \<and> MinAlternationReversals policy \<le> chain_reversals from_t to_t (account_chain v pos)"
proof -
  define rs cs as where "rs = sql_ListAttributionReciprocity u from_t to_t args db"
    and "cs = sql_ListAttributionConcentration u from_t to_t args db"
    and "as = sql_ListAttributionAlternation from_t to_t u pos args db"
  define all where "all = reciprocity_signals policy (reciprocity_facts rs) @ concentration_signals policy (concentration_facts cs)
    @ alternation_signals policy (alternation_facts as)"
  define signals where "signals = sort_key (\<lambda>s. (sig_Kind s, attributor_String (sig_Counterpart s))) all"
  have ok: "rows_ok rs cs as" unfolding rs_def cs_def as_def by (rule database_rows_ok [OF assms(7)])
  have subject: "author_String subject \<noteq> []" using author_id.parsed_shape [OF assms(4)] by simp
  have w: "0 < sp_Window policy" "1 \<le> MinReciprocityEvents policy" "1 \<le> MinConcentrationEvents policy" "2 \<le> MinAlternationChanges policy"
    using assms(1) by (auto simp: SignalPolicy_IsValid_def)
  have facts: "repo_LoadAbuseSignalFacts scan subject (now - sp_Window policy) now pos args db =
      Inr \<lparr>Reciprocity = reciprocity_facts rs, Concentration = concentration_facts cs, Alternation = alternation_facts as\<rparr>"
    using w(1) by (simp add: repo_LoadAbuseSignalFacts_def uuidParam_def assms(5) mapped_facts Let_def assms(8,9) rs_def cs_def as_def
      reciprocity_facts_def concentration_facts_def alternation_facts_def)
  have assess: "Assess policy subject \<lparr>Reciprocity = reciprocity_facts rs, Concentration = concentration_facts cs, Alternation = alternation_facts as\<rparr>
      = Inr signals"
    using rows_valid [OF ok] assms(1) subject by (simp add: Assess_def AuthorID_IsZero_def signals_def all_def)
  let ?a = "\<lparr>as_Subject = subject, as_Signals = signals, as_PolicyVersion = sp_Version policy, as_Window = sp_Window policy, as_AssessedAt = now\<rparr>"
  have "SignalAssessment_Validate ?a = Inr ()"
    using assessment_valid [OF ok assms(1) subject assms(6)] by (simp add: signals_def all_def)
  then have exec: "GetAttributionSignals_Execute scan authorized policy now query pos args db = Inr ?a"
    using assms(1-4) facts assess by (simp add: GetAttributionSignals_Execute_def)
  have same: "signalled signals kind v = signalled all kind v" for kind v by (simp add: signalled_def signals_def)
  have chain: "account_chain v pos \<noteq> []" if "1 \<le> count_where (in_window from_t to_t) (account_chain v pos)" for v
    using that by (auto simp: count_where_def)
  have "signalled signals SignalReciprocity v \<longleftrightarrow> MinReciprocityEvents policy \<le> credits_received u from_t to_t args db v
      \<and> MinReciprocityEvents policy \<le> credits_given u from_t to_t args db v" for v
    unfolding same all_def signalled_kinds(1) [OF ok assms(1)] unfolding rs_def reciprocity_rows using w(2) by auto
  moreover have "signalled signals SignalConcentration v \<longleftrightarrow> MinConcentrationEvents policy \<le> credits_received u from_t to_t args db v
      \<and> ConcentrationShareBasisPoints policy * int (length (subject_attributions u from_t to_t args db)) \<le> 10000 * credits_received u from_t to_t args db v" for v
    unfolding same all_def signalled_kinds(2) [OF ok assms(1)] unfolding cs_def concentration_rows using w(3) by auto
  moreover have "signalled signals SignalRapidAlternation v \<longleftrightarrow> 0 < credits_received u from_t to_t args db v
      \<and> MinAlternationChanges policy \<le> count_where (in_window from_t to_t) (account_chain v pos)
      \<and> MinAlternationReversals policy \<le> chain_reversals from_t to_t (account_chain v pos)" for v
    unfolding same all_def signalled_kinds(3) [OF ok assms(1)] unfolding as_def alternation_rows using w(4) chain [of v] by auto
  ultimately show thesis using that [OF exec] by simp
qed

text \<open>
  C12. An authorised assessment of a subject under a valid policy always answers, and the answer is exact: an account
  is signalled for reciprocity, concentration or rapid alternation exactly when its counts of valid attributions and
  of position changes inside the window cross the thresholds, the share compared without rounding.
\<close>

theorem signals_exact:
  assumes "SignalPolicy_IsValid policy"
    and "ParseModeratorID (asq_ActorAccountID query) = Inr actor" "authorized actor"
    and "ParseAuthorID (asq_SubjectID query) = Inr subject" "scan (author_String subject) = Some u"
    and "now \<noteq> 0" "10000 * int (length (attribution_rows db)) \<le> MaxInt64"
    and "from_t = timestamptz (now - sp_Window policy)" "to_t = timestamptz now"
  shows "\<exists>a. GetAttributionSignals_Execute scan authorized policy now query pos args db = Inr a
    \<and> (\<forall>v. let received = credits_received u from_t to_t args db v;
             whole = int (length (subject_attributions u from_t to_t args db));
             chain = account_chain v pos in
        (signalled (as_Signals a) SignalReciprocity v \<longleftrightarrow> MinReciprocityEvents policy \<le> received
           \<and> MinReciprocityEvents policy \<le> credits_given u from_t to_t args db v)
      \<and> (signalled (as_Signals a) SignalConcentration v \<longleftrightarrow> MinConcentrationEvents policy \<le> received
           \<and> ConcentrationShareBasisPoints policy * whole \<le> 10000 * received)
      \<and> (signalled (as_Signals a) SignalRapidAlternation v \<longleftrightarrow> 0 < received
           \<and> MinAlternationChanges policy \<le> count_where (in_window from_t to_t) chain
           \<and> MinAlternationReversals policy \<le> chain_reversals from_t to_t chain))"
proof -
  obtain a where "GetAttributionSignals_Execute scan authorized policy now query pos args db = Inr a"
    "\<And>v. signalled (as_Signals a) SignalReciprocity v \<longleftrightarrow> MinReciprocityEvents policy \<le> credits_received u from_t to_t args db v
           \<and> MinReciprocityEvents policy \<le> credits_given u from_t to_t args db v"
    "\<And>v. signalled (as_Signals a) SignalConcentration v \<longleftrightarrow> MinConcentrationEvents policy \<le> credits_received u from_t to_t args db v
           \<and> ConcentrationShareBasisPoints policy * int (length (subject_attributions u from_t to_t args db))
               \<le> 10000 * credits_received u from_t to_t args db v"
    "\<And>v. signalled (as_Signals a) SignalRapidAlternation v \<longleftrightarrow> 0 < credits_received u from_t to_t args db v
           \<and> MinAlternationChanges policy \<le> count_where (in_window from_t to_t) (account_chain v pos)
           \<and> MinAlternationReversals policy \<le> chain_reversals from_t to_t (account_chain v pos)"
    by (rule database_signals [where scan = scan and authorized = authorized and pos = pos and args = args, OF assms], rule that)
  then show ?thesis by (intro exI [of _ a]) (simp add: Let_def)
qed

section \<open>Alternation across Arenas\<close>

lemma chain_of_rows:
  assumes "filter (\<lambda>c. AppPositionChange.pc_AccountID c = v) (position_changes pos) = rows" "sorted_wrt (<) (map pc_ChangedAt rows)"
  shows "account_chain v pos = rows"
proof -
  have "sorted (map (\<lambda>c. Keyset (pc_ChangedAt c) (pc_ID c)) rows)"
    using assms(2) by (auto simp: sorted_wrt_map sorted_map less_eq_keyset_def less_keyset_def elim!: sorted_wrt_mono_rel [rotated])
  then show ?thesis by (simp add: account_chain_def assms(1) sort_key_id_if_sorted)
qed

text \<open>
  C24. The alternation count does not separate the Arenas: an account that decided once in each of four different
  Arenas, with targets that happen to alternate, is signalled as a rapid alternation by the default policy, although
  changing position in different Arenas is documented as ordinary engagement that stays unreported.
\<close>

theorem alternation_mixes_arenas:
  assumes "ParseModeratorID (asq_ActorAccountID query) = Inr actor" "authorized actor"
    and "ParseAuthorID (asq_SubjectID query) = Inr subject" "scan (author_String subject) = Some u"
    and "now \<noteq> 0" "10000 * int (length (attribution_rows db)) \<le> MaxInt64"
    and "from_t = timestamptz (now - sp_Window DefaultSignalPolicy)" "to_t = timestamptz now"
    and "0 < credits_received u from_t to_t args db v"
    and "filter (\<lambda>c. AppPositionChange.pc_AccountID c = v) (position_changes pos) = [c1, c2, c3, c4]"
      "sorted_wrt (<) (map pc_ChangedAt [c1, c2, c3, c4])" "list_all (in_window from_t to_t) [c1, c2, c3, c4]"
      "distinct (map AppPositionChange.pc_ArenaID [c1, c2, c3, c4])"
      "pc_ToPosition c3 = pc_ToPosition c1" "pc_ToPosition c4 = pc_ToPosition c2"
  shows "\<exists>a. GetAttributionSignals_Execute scan authorized DefaultSignalPolicy now query pos args db = Inr a
    \<and> signalled (as_Signals a) SignalRapidAlternation v"
proof -
  have policy: "SignalPolicy_IsValid DefaultSignalPolicy"
    by (simp add: SignalPolicy_IsValid_def DefaultSignalPolicy_def basisPointTotal_def)
  have chain: "account_chain v pos = [c1, c2, c3, c4]" by (rule chain_of_rows [OF assms(10,11)])
  have "count_where (in_window from_t to_t) [c1, c2, c3, c4] = 4" using assms(12) by (simp add: count_where_def)
  moreover have "chain_reversals from_t to_t [c1, c2, c3, c4] = 2"
    using assms(12,14,15) by (simp add: chain_reversals_def upt_rec numeral_2_eq_2)
  moreover have thresholds: "MinAlternationChanges DefaultSignalPolicy = 4" "MinAlternationReversals DefaultSignalPolicy = 2"
    by (simp_all add: DefaultSignalPolicy_def)
  ultimately show ?thesis
    using database_signals [where scan = scan and authorized = authorized and pos = pos and args = args, OF policy assms(1-8)] assms(9)
    by (metis (no_types, lifting) chain thresholds order_refl)
qed

end
