(* ===== verification/ArgumentsCharge.thy ===== *)
theory ArgumentsCharge
  imports ArgumentsRuns
begin

text \<open>
  The charge of a publication, in terms of the ledger: the cost is taken once under the attempt key, or
  an operation of the account already holds this key.
\<close>

section \<open>The request the wallet receives\<close>

lemma publish_request:
  assumes "parse_publication counter replies cmd = Inr p" "debit_request now
     \<lparr>debitCmd_AccountID = charge_AccountID (publish_charge p), debitCmd_OperationType = OperationDebitArgument,
      debitCmd_Amount = charge_Amount (publish_charge p), debitCmd_Reference = charge_Reference (publish_charge p),
      debitCmd_IdempotencyKey = charge_IdempotencyKey (publish_charge p)\<rparr> = Inr rq"
  shows "debit_AccountID rq = account_String (pub_author p)" "debit_OperationType rq = OperationDebitArgument"
    "debit_Amount rq = \<lparr>amount = content_cost (pub_content p)\<rparr>" "is_Ink (debit_Amount rq)"
    "WalletDomain.IdempotencyKey.key_String (debit_IdempotencyKey rq) = key_String (pub_key p)"
    "reference_String (debit_Reference rq) = WalletReference (pub_key p)"
proof -
  have key: "list_all printable (key_String (pub_key p))"
    using attempt_key.parsed_shape [OF parse_publication_Inr(6) [OF assms(1)]] by blast
  then have "list_all printable (WalletReference (pub_key p))" by (simp add: WalletReference_def printable_def)
  note trims = TrimSpace_printable [OF key] TrimSpace_printable [OF this]
  have range: "in_int64 (content_cost (pub_content p))" using charge_in_range [OF assms(1)] by (simp add: publish_charge_def)
  note d = debit_request_Inr [OF assms(2), simplified publish_charge_def InkDebitRequest.simps DebitInkCommand.simps, OF range]
  from d show "debit_AccountID rq = account_String (pub_author p)"
    "debit_Amount rq = \<lparr>amount = content_cost (pub_content p)\<rparr>" "is_Ink (debit_Amount rq)" by blast+
  show "debit_OperationType rq = OperationDebitArgument"
    "WalletDomain.IdempotencyKey.key_String (debit_IdempotencyKey rq) = key_String (pub_key p)"
    "reference_String (debit_Reference rq) = WalletReference (pub_key p)"
    using assms(2) trims unfolding debit_request_def publish_charge_def
    by (auto simp: bind_r_Inr_iff ParseOperationType_def ParseReference_def WalletDomain.ParseIdempotencyKey_def Let_def split: if_splits)
qed

section \<open>What the ledger records\<close>

definition charged :: "publication \<Rightarrow> wallet_db \<Rightarrow> uuid \<Rightarrow> AppWalletOperation \<Rightarrow> wallet_db \<Rightarrow> bool" where
  "charged p w u q w' \<longleftrightarrow>
     op_account q = u \<and> op_type q = OperationDebitArgument \<and> op_key q = key_String (pub_key p)
   \<and> op_ref q = WalletReference (pub_key p) \<and> op_key q \<notin> op_key ` set (operations w)
   \<and> operations w' = operations w @ [q]
   \<and> (\<forall>v. free_of w' v + purchased_of w' v = free_of w v + purchased_of w v - (if v = u then content_cost (pub_content p) else 0))
   \<and> 0 \<le> free_of w' u \<and> 0 \<le> purchased_of w' u"

lemma debit_committed_charged:
  assumes "debit_committed scan rq w u row plan w'" "ledger_ok w" "ledger_ok w'"
    and rq: "debit_OperationType rq = OperationDebitArgument" "debit_Amount rq = \<lparr>amount = content_cost (pub_content p)\<rparr>"
      "is_Ink (debit_Amount rq)" "WalletDomain.IdempotencyKey.key_String (debit_IdempotencyKey rq) = key_String (pub_key p)"
      "reference_String (debit_Reference rq) = WalletReference (pub_key p)"
  shows "charged p w u row w'"
proof -
  obtain a a' where a: "wallets w u = Some a" "wallets w' u = Some a'"
    "AllocateDebit (debit_Amount rq) \<lparr>amount = BalanceFree a\<rparr> \<lparr>amount = BalancePurchased a\<rparr> = Inr plan"
    "BalanceFree a' = BalanceFree a - amount (fromFree plan)"
    "BalancePurchased a' = BalancePurchased a - amount (fromPurchased plan)"
    using assms(1) unfolding debit_committed_def by blast
  have c: "row = operation_row (debit_params scan u rq) w" "op_key row \<notin> op_key ` set (operations w)"
    "operations w' = operations w @ [row]" "\<forall>v. v \<noteq> u \<longrightarrow> wallets w' v = wallets w v"
    using assms(1) unfolding debit_committed_def by blast+
  have "is_Ink \<lparr>amount = BalanceFree a\<rparr>" "is_Ink \<lparr>amount = BalancePurchased a\<rparr>"
    using balances_Ink [OF assms(2), of u] a(1) by (simp_all add: free_of_def purchased_of_def)
  from AllocateDebit_Inr [OF rq(3) this a(3)]
  have total: "amount (fromFree plan) + amount (fromPurchased plan) = content_cost (pub_content p)" using rq(2) by auto
  have bal: "free_of w' v + purchased_of w' v = free_of w v + purchased_of w v - (if v = u then content_cost (pub_content p) else 0)" for v
    using a c(4) total by (cases "v = u") (simp_all add: free_of_def purchased_of_def)
  have nn: "0 \<le> free_of w' u" "0 \<le> purchased_of w' u"
    using balances_Ink [OF assms(3), of u] by (simp_all add: is_Ink_def)
  have "op_account row = u" "op_type row = OperationDebitArgument" "op_key row = key_String (pub_key p)"
    "op_ref row = WalletReference (pub_key p)"
    using rq by (simp_all add: c(1) operation_row_def debit_params_def)
  then show ?thesis using c(2,3) bal nn unfolding charged_def by blast
qed

lemma replayDebit_holder:
  assumes "replayDebit rq w = Inr (Some r)"
  shows "\<exists>q \<in> set (operations w). op_key q = WalletDomain.IdempotencyKey.key_String (debit_IdempotencyKey rq)
    \<and> uuidToString (Some (op_account q)) = debit_AccountID rq"
proof -
  obtain q where "GetWalletOperationByIdempotencyKey (WalletDomain.IdempotencyKey.key_String (debit_IdempotencyKey rq)) w = Inr q"
    "uuidToString (Some (op_account q)) = debit_AccountID rq"
    using assms by (auto simp: replayDebit_def split: sum.splits pg_error.splits if_splits)
  then show ?thesis using lookup_found by blast
qed

text \<open>The key is held by the same account, or the cost is taken now.\<close>

definition key_held :: "publication \<Rightarrow> wallet_db \<Rightarrow> bool" where
  "key_held p w \<longleftrightarrow> (\<exists>q \<in> set (operations w). op_key q = key_String (pub_key p)
     \<and> uuidToString (Some (op_account q)) = account_String (pub_author p))"

lemma charge_cases:
  assumes "Bridge_Debit scan now (publish_charge p) seen w = (Inr replayed, w')" "parse_publication counter replies cmd = Inr p"
    and "ledger_ok w" "ledger_extends seen w"
  shows "w' = w \<and> replayed \<and> key_held p w
    \<or> \<not> replayed \<and> (\<exists>u q. scan (account_String (pub_author p)) = Some u \<and> charged p w u q w')"
proof -
  define c where "c = \<lparr>debitCmd_AccountID = charge_AccountID (publish_charge p), debitCmd_OperationType = OperationDebitArgument,
    debitCmd_Amount = charge_Amount (publish_charge p), debitCmd_Reference = charge_Reference (publish_charge p),
    debitCmd_IdempotencyKey = charge_IdempotencyKey (publish_charge p)\<rparr>"
  obtain d where d: "DebitInk_Execute scan now c seen w = (Inr d, w')" "replayed = debitResult_Replayed d"
    using assms(1) unfolding Bridge_Debit_def c_def [symmetric] by (auto split: prod.splits sum.splits)
  obtain rq where rq: "debit_request now c = Inr rq" using d(1) by (auto simp: DebitInk_Execute_def split: sum.splits)
  note f = publish_request [OF assms(2) rq [unfolded c_def]]
  have body: "applyDebit scan rq seen w = Inr (d, w')"
    using d(1) rq by (auto simp: DebitInk_Execute_def ApplyDebit_def split: sum.splits prod.splits)
  from applyDebit_cases [OF body assms(3) f(4)] show ?thesis
  proof (elim disjE exE conjE)
    assume r: "w' = w" "debitResult_Replayed d"
    have "replayDebit rq seen = Inr (Some d) \<or> replayDebit rq w = Inr (Some d)"
      using applyDebit_Inr [OF body]
    proof (elim disjE exE conjE)
      fix u a assume l: "replayDebit rq w = Inr None" "debit_locked scan rq u a w = Inr (d, w')"
      from debit_locked_Inr [OF l(2,1)] have "\<not> debitResult_Replayed d" by auto
      with r(2) show ?thesis by simp
    qed simp_all
    then obtain db where db: "db = seen \<or> db = w" "replayDebit rq db = Inr (Some d)" by blast
    obtain q where q: "q \<in> set (operations db)" "op_key q = key_String (pub_key p)"
      "uuidToString (Some (op_account q)) = account_String (pub_author p)"
      using replayDebit_holder [OF db(2)] f(1,5) by metis
    have "q \<in> set (operations w)" using db(1) q(1) assms(4) by (auto simp: ledger_extends_def)
    then show ?thesis using r d(2) q(2,3) unfolding key_held_def by blast
  next
    fix u row plan operation
    assume c: "debit_committed scan rq w u row plan w'" "ledger_ok w'"
      and r: "d = \<lparr>debitResult_Operation = operation, debitResult_Allocation = plan, debitResult_Replayed = False\<rparr>"
    have "scan (account_String (pub_author p)) = Some u" using c(1) f(1) unfolding debit_committed_def by metis
    moreover have "charged p w u row w'" by (rule debit_committed_charged [OF c(1) assms(3) c(2) f(2-6)])
    ultimately show ?thesis using d(2) r by auto
  qed
qed

end
