(* ===== verification/ArgumentsProperties.thy ===== *)
theory ArgumentsProperties
  imports ArgumentsCharge
begin

text \<open>
  The properties of publications and withdrawals, over every history of the composed state of the wallet
  and the arguments.
\<close>

lemma history_reads:
  assumes "debate_history scan replies (st # past)" "reads_canonical scan"
  shows "debate_ok replies st" "db \<in> snd ` set (st # past) \<Longrightarrow> arguments_ok replies db \<and> arguments_extends db (snd st)"
    "w \<in> fst ` set (st # past) \<Longrightarrow> ledger_ok w \<and> ledger_extends w (fst st)"
proof -
  note inv = debate_invariant [OF assms]
  show "debate_ok replies st" using inv by blast
  have all: "debate_ok replies old \<and> debate_extends old st" if "old \<in> set (st # past)" for old
    using inv that by auto
  show "arguments_ok replies db \<and> arguments_extends db (snd st)" if "db \<in> snd ` set (st # past)"
    using that all unfolding debate_ok_def debate_extends_def by blast
  show "ledger_ok w \<and> ledger_extends w (fst st)" if "w \<in> fst ` set (st # past)"
    using that all unfolding debate_ok_def debate_extends_def by blast
qed

section \<open>The state\<close>

text \<open>
  C5. In every state of every history each stored argument loads as the argument it describes, content
  and hash agreeing; identifiers are unique; an author uses an attempt key for one argument; every
  parent is a stored argument of the same Arena and no reply is deeper than the policy allows; every source
  belongs to a stored argument; and every balance of the wallet is the sum of its ledger lines and not negative.
\<close>
theorem debate_consistent:
  assumes "debate_history scan replies ((w, db) # past)" "reads_canonical scan"
  shows "(\<forall>r \<in> set (argument_rows db). mapArgument r = Inr (argument_of_row r)
        \<and> ag_ContentHash r = hash_String (HashContent (ag_Content r))
        \<and> (\<forall>p. ag_ParentID r = Some p \<longrightarrow> (\<exists>q \<in> set (argument_rows db). ag_ID q = p \<and> ag_ArenaID q = ag_ArenaID r))
        \<and> int (chain_depth 1000 (ag_ParentID r) (argument_rows db)) \<le> MaxDepth replies)
    \<and> distinct (map ag_ID (argument_rows db))
    \<and> (\<forall>r \<in> set (argument_rows db). \<forall>q \<in> set (argument_rows db). ag_AuthorID r = ag_AuthorID q
        \<longrightarrow> ag_IdempotencyKey r \<noteq> None \<longrightarrow> ag_IdempotencyKey r = ag_IdempotencyKey q \<longrightarrow> ag_ID r = ag_ID q)
    \<and> (\<forall>s \<in> set (source_rows db). src_ArgumentID s \<in> ag_ID ` set (argument_rows db))
    \<and> (\<forall>u. free_of w u = bucket_sum ''FREE_INK'' (account_lines u w) \<and> purchased_of w u = bucket_sum ''PURCHASED_INK'' (account_lines u w)
        \<and> 0 \<le> free_of w u \<and> 0 \<le> purchased_of w u)"
proof -
  have ok: "ledger_ok w" "arguments_ok replies db" using history_reads(1) [OF assms] by (simp_all add: debate_ok_def)
  then have a: "list_all ag_row_ok (argument_rows db)" "distinct (map ag_ID (argument_rows db))" "keys_apart (argument_rows db)"
    "parents_ok (argument_rows db)" "depth_ok replies (argument_rows db)"
    "\<forall>s \<in> set (source_rows db). src_ArgumentID s \<in> ag_ID ` set (argument_rows db)"
    unfolding arguments_ok_def by blast+
  have rows: "mapArgument r = Inr (argument_of_row r) \<and> ag_ContentHash r = hash_String (HashContent (ag_Content r))"
    if "r \<in> set (argument_rows db)" for r
    using a(1) that mapArgument_ok by (auto simp: list_all_iff ag_row_ok_def)
  have bal: "free_of w u = bucket_sum ''FREE_INK'' (account_lines u w) \<and> purchased_of w u = bucket_sum ''PURCHASED_INK'' (account_lines u w)
      \<and> 0 \<le> free_of w u \<and> 0 \<le> purchased_of w u" for u
    using balances_of_lines [OF ok(1), of u] balances_Ink [OF ok(1), of u] by (simp add: is_Ink_def)
  show ?thesis
    using rows a(2,3,6) bal a(4,5) unfolding keys_apart_def parents_ok_def depth_ok_def by blast
qed

text \<open>
  C7. A published argument never changes: whatever happens later, its Arena, author, parent, relation,
  content, hash, cost, instant and key stay, its instant of withdrawal is recorded once, and its sources
  are exactly those it was published with.
\<close>
theorem argument_immutable:
  assumes "debate_history scan replies (st # past)" "reads_canonical scan" "old \<in> set past"
    "r \<in> set (argument_rows (snd old))"
  shows "\<exists>r' \<in> set (argument_rows (snd st)). ag_ID r' = ag_ID r \<and> ag_ArenaID r' = ag_ArenaID r \<and> ag_AuthorID r' = ag_AuthorID r
      \<and> ag_ParentID r' = ag_ParentID r \<and> ag_Relation r' = ag_Relation r \<and> ag_Content r' = ag_Content r
      \<and> ag_ContentHash r' = ag_ContentHash r \<and> ag_GraphemeCost r' = ag_GraphemeCost r \<and> ag_CreatedAt r' = ag_CreatedAt r
      \<and> ag_IdempotencyKey r' = ag_IdempotencyKey r
      \<and> (ag_WithdrawnAt r \<noteq> None \<longrightarrow> ag_WithdrawnAt r' = ag_WithdrawnAt r)
      \<and> filter (\<lambda>s. src_ArgumentID s = ag_ID r) (source_rows (snd st)) = filter (\<lambda>s. src_ArgumentID s = ag_ID r) (source_rows (snd old))"
proof -
  have ext: "arguments_extends (snd old) (snd st)"
    using history_reads(2) [OF assms(1,2), of "snd old"] assms(3) by simp
  obtain r' where r': "r' \<in> set (argument_rows (snd st))" "kept_row r r'" using extends_member [OF ext assms(4)] by blast
  obtain new where new: "source_rows (snd st) = source_rows (snd old) @ new"
    "\<forall>s \<in> set new. src_ArgumentID s \<notin> ag_ID ` set (argument_rows (snd old))"
    using ext unfolding arguments_extends_def by blast
  have "filter (\<lambda>s. src_ArgumentID s = ag_ID r) new = []" using new(2) assms(4) by (auto simp: filter_empty_conv)
  then show ?thesis using r' new(1) by (intro bexI [of _ r']) (simp_all add: kept_row_def frozen_def)
qed

section \<open>Publishing\<close>

text \<open>
  C4. A publication is exact and atomic over the wallet and the arguments, whatever earlier states its
  reads saw: it fails and changes nothing; or answers the argument already published under the attempt
  key and changes nothing; or, for an active account, an Arena open to participation and a parent open to
  replies, it appends the one row of the validated request with its sources, and either takes exactly its
  cost once, under the attempt key, leaving every other account alone, or takes nothing because the wallet
  already holds an operation of the account under that key.
\<close>
theorem PublishArgument_exact:
  assumes "PublishArgument_Execute (env :: publish_env) cmd reads st = (res, st')"
    "debate_history (pe_scan env) (pe_replies env) (st # past)" "reads_canonical (pe_scan env)"
    "seen_parent reads \<in> snd ` set (st # past)" "seen_wallet reads \<in> fst ` set (st # past)"
  shows "case res of
      Inl _ \<Rightarrow> st' = st
    | Inr r \<Rightarrow> \<exists>p. parse_publication (pe_counter env) (pe_replies env) cmd = Inr p \<and>
        (if pr_Replayed r then st' = st \<and> (\<exists>old \<in> {seen_key reads, seen_retry reads}.
            repo_GetByAuthorAndIdempotencyKey (pe_scan env) (pub_author p) (pub_key p) old = Inr (pr_Argument r))
         else publication_allowed env p reads
          \<and> (\<exists>row sources. published env p (snd st) row sources (snd st') \<and> pr_Argument r = argument_of_row row
              \<and> (fst st' = fst st \<and> key_held p (fst st)
                 \<or> (\<exists>q. charged p (fst st) (ag_AuthorID row) q (fst st')))))"
  using publish_ends [OF assms(1)]
proof (elim disjE exE conjE)
  fix p created
  assume p: "res = Inr \<lparr>pr_Argument = created, pr_Replayed = False\<rparr>"
    "parse_publication (pe_counter env) (pe_replies env) cmd = Inr p" "publication_allowed env p reads"
    "publish_transaction env p (seen_wallet reads) st = (Inr created, st')"
  note h = history_reads [OF assms(2,3)]
  have ok: "ledger_ok (fst st)" "arguments_ok (pe_replies env) (snd st)" using h(1) by (simp_all add: debate_ok_def)
  obtain replayed row sources where
    c: "Bridge_Debit (pe_scan env) (pe_wallet_now env) (publish_charge p) (seen_wallet reads) (fst st) = (Inr replayed, fst st')"
    "published env p (snd st) row sources (snd st')" "created = argument_of_row row" "arguments_ok (pe_replies env) (snd st')"
    by (rule publication_committed [OF p(4,2,3) assms(3) ok(2)]) (use h(2) [OF assms(4)] in blast)+
  have author: "pe_scan env (account_String (pub_author p)) = Some (ag_AuthorID row)"
    using c(2) unfolding published_def published_row_def by blast
  have "fst st' = fst st \<and> key_held p (fst st) \<or> (\<exists>q. charged p (fst st) (ag_AuthorID row) q (fst st'))"
    using charge_cases [OF c(1) p(2) ok(1)] h(3) [OF assms(5)] author by auto
  then show ?thesis using p c(2,3) by auto
qed auto

text \<open>
  C6. A publication happens once: when an argument of the author with this attempt key is stored, no
  later publication under the key changes the wallet or the arguments, whatever states its reads saw and
  whatever it asks to publish.
\<close>
theorem publication_once:
  assumes "PublishArgument_Execute (env :: publish_env) cmd reads st = (res, st')"
    "debate_history (pe_scan env) (pe_replies env) (st # past)" "reads_canonical (pe_scan env)"
    "seen_parent reads \<in> snd ` set (st # past)"
    "r \<in> set (argument_rows (snd st))" "ParseAccountID (pc_AccountID cmd) = Inr author"
    "pe_scan env (account_String author) = Some (ag_AuthorID r)"
    "ParseIdempotencyKey (pc_IdempotencyKey cmd) = Inr key" "ag_IdempotencyKey r = Some (key_String key)"
  shows "st' = st"
  using publish_ends [OF assms(1)]
proof (elim disjE exE conjE)
  fix p created
  assume p: "parse_publication (pe_counter env) (pe_replies env) cmd = Inr p" "publication_allowed env p reads"
    "publish_transaction env p (seen_wallet reads) st = (Inr created, st')"
  have same: "pub_author p = author" "pub_key p = key"
    using parse_publication_Inr(2,6) [OF p(1)] assms(6,8) by simp_all
  obtain db1 where "repo_CreateArgument (pe_scan env)
       \<lparr>ca_ArenaID = pub_arena p, ca_AuthorID = pub_author p, ca_ParentID = pub_parent p, ca_Relation = pub_relation p,
        ca_Content = pub_content p, ca_IdempotencyKey = pub_key p, ca_CreatedAt = pe_now env\<rparr> (snd st) = (Inr (Some created, True), db1)"
    by (rule transaction_Inr [OF p(3)]) blast
  then obtain row where row: "published_row env p row"
    "\<forall>r \<in> set (argument_rows (snd st)). ag_AuthorID r = ag_AuthorID row \<longrightarrow> ag_IdempotencyKey r \<noteq> ag_IdempotencyKey row"
    by (rule CreateArgument_Inr [OF _ p(1)]) blast
  have "ag_AuthorID r = ag_AuthorID row" "ag_IdempotencyKey r = ag_IdempotencyKey row"
    using row(1) assms(7,9) same by (auto simp: published_row_def)
  then show ?thesis using row(2) assms(5) by blast
qed simp_all

text \<open>
  C13. A used wallet key publishes for free: when the ledger already holds an operation of any kind under
  the text of the attempt key, a new publication under this key that succeeds takes no ink at all.
\<close>
theorem used_wallet_key_publishes_free:
  assumes "PublishArgument_Execute (env :: publish_env) cmd reads st = (Inr r, st')" "\<not> pr_Replayed r"
    "debate_history (pe_scan env) (pe_replies env) (st # past)" "reads_canonical (pe_scan env)"
    "seen_parent reads \<in> snd ` set (st # past)" "seen_wallet reads \<in> fst ` set (st # past)"
    "ParseIdempotencyKey (pc_IdempotencyKey cmd) = Inr key" "q \<in> set (operations (fst st))" "op_key q = key_String key"
  shows "fst st' = fst st \<and> length (argument_rows (snd st')) = Suc (length (argument_rows (snd st)))"
  using publish_ends [OF assms(1)]
proof (elim disjE exE conjE)
  fix p created
  assume p: "parse_publication (pe_counter env) (pe_replies env) cmd = Inr p" "publication_allowed env p reads"
    "publish_transaction env p (seen_wallet reads) st = (Inr created, st')"
  note h = history_reads [OF assms(3,4)]
  have ok: "ledger_ok (fst st)" "arguments_ok (pe_replies env) (snd st)" using h(1) by (simp_all add: debate_ok_def)
  obtain replayed row sources where
    c: "Bridge_Debit (pe_scan env) (pe_wallet_now env) (publish_charge p) (seen_wallet reads) (fst st) = (Inr replayed, fst st')"
    "published env p (snd st) row sources (snd st')"
    by (rule publication_committed [OF p(3,1,2) assms(4) ok(2)]) (use h(2) [OF assms(5)] in blast)+
  have "pub_key p = key" using parse_publication_Inr(6) [OF p(1)] assms(7) by simp
  then have "\<not> charged p (fst st) u q' (fst st')" for u q'
    using assms(8,9) unfolding charged_def by (metis imageI)
  then show ?thesis
    using charge_cases [OF c(1) p(1) ok(1)] h(3) [OF assms(6)] c(2) unfolding published_def by auto
qed (use assms(2) in simp_all)

section \<open>Withdrawing\<close>

text \<open>
  A withdrawal is exact: it fails without change; or finds the argument withdrawn and changes nothing;
  or moves the status of one published argument of the caller to withdrawn, recording the instant of its
  first withdrawal and keeping everything else, so that it answers the argument as it is now stored.
\<close>
theorem WithdrawArgument_exact:
  assumes "WithdrawArgument_Execute scan now cmd seen again db = (res, db')"
    "debate_history scan replies ((w, db) # past)" "reads_canonical scan"
  shows "case res of
      Inl _ \<Rightarrow> db' = db
    | Inr r \<Rightarrow> if pr_Replayed r then db' = db \<and> pa_Status (pr_Argument r) = ''withdrawn''
        else \<exists>author argument pre old new post. ParseAccountID (wc_AccountID cmd) = Inr author
          \<and> ParseArgumentID (wc_ArgumentID cmd) = Inr argument
          \<and> scan (account_String author) = Some (ag_AuthorID old) \<and> scan (argument_String argument) = Some (ag_ID old)
          \<and> argument_rows db = pre @ old # post \<and> ag_Status old = ''published''
          \<and> new = old\<lparr>ag_Status := ''withdrawn'', ag_UpdatedAt := timestamptz now,
               ag_WithdrawnAt := Some (case ag_WithdrawnAt old of None \<Rightarrow> timestamptz now | Some t \<Rightarrow> t)\<rparr>
          \<and> db' = db\<lparr>argument_rows := pre @ new # post\<rparr> \<and> pr_Argument r = argument_of_row new"
proof -
  have ok: "arguments_ok replies db" using history_reads(1) [OF assms(2,3)] by (simp add: debate_ok_def)
  from withdraw_ends [OF assms(1) ok] show ?thesis
  proof (elim disjE exE conjE)
    fix r author argument a c pre old new post
    assume *: "res = Inr r" "\<not> pr_Replayed r" "ParseAccountID (wc_AccountID cmd) = Inr author"
      "ParseArgumentID (wc_ArgumentID cmd) = Inr argument" "scan (argument_String argument) = Some a"
      "scan (account_String author) = Some c" "argument_rows db = pre @ old # post" "withdrawn now a c old new"
      "db' = db\<lparr>argument_rows := pre @ new # post\<rparr>" "pr_Argument r = argument_of_row new"
    then have "scan (account_String author) = Some (ag_AuthorID old)" "scan (argument_String argument) = Some (ag_ID old)"
      "ag_Status old = ''published''"
      "new = old\<lparr>ag_Status := ''withdrawn'', ag_UpdatedAt := timestamptz now,
               ag_WithdrawnAt := Some (case ag_WithdrawnAt old of None \<Rightarrow> timestamptz now | Some t \<Rightarrow> t)\<rparr>"
      by (simp_all add: withdrawn_def)
    with * show ?thesis unfolding *(1) sum.case if_not_P [OF *(2)] by blast
  qed simp_all
qed

text \<open>
  An appeal cannot restore a removed argument that its author had ever withdrawn: the statement that
  republishes it keeps the instant of withdrawal, which only a withdrawn or removed argument may carry, so
  the table refuses it, in every later state.
\<close>
theorem restore_withdrawn_fails:
  assumes "debate_history scan replies (st # past)" "reads_canonical scan" "old \<in> set (st # past)"
    "r \<in> set (argument_rows (snd old))" "ag_WithdrawnAt r \<noteq> None"
  shows "\<exists>r' \<in> set (argument_rows (snd st)). ag_ID r' = ag_ID r
    \<and> sql_RestoreArgumentForAppeal (ag_ID r) (snd st) = Inl (if ag_Status r' = ''removed'' then CheckViolation else NoRows)"
proof -
  have h: "arguments_ok replies (snd st)" "arguments_extends (snd old) (snd st)"
    using history_reads(2) [OF assms(1,2), of "snd st"] history_reads(2) [OF assms(1,2), of "snd old"] assms(3) by auto
  obtain r' where r': "r' \<in> set (argument_rows (snd st))" "kept_row r r'" using extends_member [OF h(2) assms(4)] by blast
  have id: "ag_ID r' = ag_ID r" "ag_WithdrawnAt r' \<noteq> None" using r'(2) assms(5) by (auto simp: kept_row_def frozen_def)
  have "find (\<lambda>q. ag_ID q = ag_ID r \<and> ag_Status q = ''removed'') rows = (if ag_Status r' = ''removed'' then Some r' else None)"
    if "distinct (map ag_ID rows)" "r' \<in> set rows" for rows
    using that id(1) by (induction rows) (auto simp: find_None_iff image_iff)
  from this [OF _ r'(1)] have "find (\<lambda>q. ag_ID q = ag_ID r \<and> ag_Status q = ''removed'') (argument_rows (snd st))
      = (if ag_Status r' = ''removed'' then Some r' else None)" using h(1) by (simp add: arguments_ok_def)
  then have "sql_RestoreArgumentForAppeal (ag_ID r) (snd st) = Inl (if ag_Status r' = ''removed'' then CheckViolation else NoRows)"
    using id(2) by (simp add: sql_RestoreArgumentForAppeal_def update_argument_def arguments_checks_def)
  with r'(1) id(1) show ?thesis by blast
qed

end
