(* ===== verification/ArgumentsReads.thy ===== *)
theory ArgumentsReads
  imports ArgumentsProperties
begin

text \<open>
  What visitors read: a single argument, the arguments of an Arena under one relation and the replies of
  an argument. The lists are signed pages over their rows paired with the number of their replies.
\<close>

section \<open>Rendered arguments\<close>

definition public_of :: "AppArgument \<times> int \<Rightarrow> PublicArgument" where
  "public_of x = (case x of (r, n) \<Rightarrow>
     \<lparr>pub_ID = ArgumentID (uuidToString (Some (ag_ID r))), pub_Arena = ArenaID (uuidToString (Some (ag_ArenaID r))),
      pub_ParentID = ArgumentID (case ag_ParentID r of None \<Rightarrow> [] | Some p \<Rightarrow> uuidToString (Some p)),
      pub_Relation = Relation (ag_Relation r),
      pub_Content = (if ag_Status r = ''published''
        then Some \<lparr>content_value = ag_Content r, content_cost = ag_GraphemeCost r, content_hash = ContentHash (ag_ContentHash r)\<rparr>
        else None),
      pub_Status = ag_Status r, pub_CreatedAt = ag_CreatedAt r, pub_ReplyCount = n\<rparr>)"

lemma mapPublicArgument_ok: "ag_row_ok r \<Longrightarrow> mapPublicArgument (r, n) = Inr (public_of (r, n))"
proof -
  assume ok: "ag_row_ok r"
  then have "ParseRelation (ag_Relation r) = Inr (Relation (ag_Relation r))"
    by (intro relation_parses) (simp add: ag_row_ok_def arguments_checks_def)
  moreover have "ParseContentHash (ag_ContentHash r) = Inr (HashContent (ag_Content r))"
    using ok hash_parses by (simp add: ag_row_ok_def)
  ultimately show ?thesis
    by (simp add: mapPublicArgument_def uuid_parses parse_parent_uuid content_restated [OF ok] public_of_def)
qed

lemma map_public_arguments_ok: "list_all (ag_row_ok \<circ> fst) rows \<Longrightarrow> map_public_arguments rows = Inr (map public_of rows)"
  by (induction rows) (auto simp: mapPublicArgument_ok)

section \<open>Pages\<close>

lemma sort_key_map: "sort_key f (map g xs) = map g (sort_key (f \<circ> g) xs)"
proof (induction xs)
  case (Cons x xs)
  have "insort_key f (g x) (map g ys) = map g (insort_key (f \<circ> g) x ys)" for ys
    by (induction ys) simp_all
  then show ?case using Cons.IH by (simp add: comp_def)
qed simp

lemma keyset_query_map: "map g (keyset_query (f \<circ> g) rows after n) = keyset_query f (map g rows) after n"
  by (simp add: keyset_query_def filter_map sort_key_map rev_map take_map comp_def split: option.split)

definition with_replies :: "arguments_db \<Rightarrow> AppArgument list \<Rightarrow> (AppArgument \<times> int) list" where
  "with_replies db rows = map (\<lambda>r. (r, reply_count db r)) rows"

definition entry_key :: "AppArgument \<times> int \<Rightarrow> keyset" where
  "entry_key = argument_key \<circ> fst"

lemma pages_of_rows: "map (\<lambda>r. (r, c r)) (keyset_query argument_key rows after n) = keyset_query entry_key (map (\<lambda>r. (r, c r)) rows) after n"
  using keyset_query_map [of "\<lambda>r. (r, c r)" entry_key] by (simp add: entry_key_def comp_def)

lemma entry_keys_distinct: "distinct (map ag_ID rows) \<Longrightarrow> distinct (map entry_key (map (\<lambda>r. (r, c r)) rows))"
  by (auto simp: distinct_map entry_key_def argument_key_def inj_on_def)

text \<open>\<open>time.Parse\<close> reads back the stored instants as \<open>Format\<close> prints them.\<close>

definition reads_created :: "(string \<Rightarrow> time option) \<Rightarrow> arguments_db \<Rightarrow> bool" where
  "reads_created parse_time db \<longleftrightarrow> (\<forall>r \<in> set (argument_rows db). parse_time (FormatRFC3339Nano (ag_CreatedAt r)) = Some (ag_CreatedAt r))"

definition argument_session ::
  "(string \<Rightarrow> uuid option) \<Rightarrow> (string \<Rightarrow> time option) \<Rightarrow> ReplyPolicy \<Rightarrow> arguments_db \<Rightarrow> bool" where
  "argument_session scan parse_time replies db \<longleftrightarrow> arguments_ok replies db \<and> reads_created parse_time db \<and> reads_canonical scan"

definition argument_opens ::
  "(string \<Rightarrow> uuid option) \<Rightarrow> (string \<Rightarrow> string) \<Rightarrow> (string \<Rightarrow> time option) \<Rightarrow> string \<Rightarrow> keyset option \<Rightarrow> bool" where
  "argument_opens scan mac parse_time cursor after \<longleftrightarrow>
     (\<exists>p position. ArgumentCursor_Decode mac parse_time cursor = Inr p \<and> argumentCursorParams scan p = Inr position
        \<and> page_after position = after)"

lemma argument_cursor_opens:
  assumes "argument_session scan parse_time replies db" "r \<in> set (argument_rows db)"
  shows "argument_opens scan mac parse_time (ArgumentCursor_Encode mac (public_of (r, n))) (Some (argument_key r))"
proof -
  have s: "arguments_ok replies db" "reads_created parse_time db" "reads_canonical scan"
    using assms(1) unfolding argument_session_def by blast+
  have row: "timestamptz (ag_CreatedAt r) = ag_CreatedAt r" using s(1) assms(2) by (auto simp: arguments_ok_def list_all_iff ag_row_ok_def)
  have "parse_time (FormatRFC3339Nano (ag_CreatedAt r)) = Some (ag_CreatedAt r)" using s(2) assms(2) by (simp add: reads_created_def)
  then have "ArgumentCursor_Decode mac parse_time (ArgumentCursor_Encode mac (public_of (r, n))) =
      Inr (Some \<lparr>ap_CreatedAt = ag_CreatedAt r, ap_ArgumentID = uuidToString (Some (ag_ID r))\<rparr>)"
    by (simp add: ArgumentCursor_Decode_def ArgumentCursor_Encode_def public_of_def cursor_roundtrip uuid_no_bar uuid_parses)
  moreover have "scan (uuidToString (Some (ag_ID r))) = Some (ag_ID r)" using s(3) by (simp add: reads_canonical_def)
  ultimately show ?thesis
    by (simp add: argument_opens_def argumentCursorParams_def page_after_def argument_key_def row)
qed

lemma argument_opens_first: "TrimSpace cursor = [] \<Longrightarrow> argument_opens scan mac parse_time cursor None"
  by (simp add: argument_opens_def ArgumentCursor_Decode_def cursor_decode_with_def argumentCursorParams_def page_after_def)

definition page_limit :: "int \<Rightarrow> nat" where
  "page_limit limit = nat (clampArgumentPageLimit limit)"

lemma page_limit_bounds: "0 < page_limit limit" "page_limit limit \<le> 100" "clampArgumentPageLimit limit = int (page_limit limit)"
  by (auto simp: page_limit_def clampArgumentPageLimit_def DefaultArgumentPageLimit_def MaxArgumentPageLimit_def)

definition page_pair :: "ArgumentPage \<Rightarrow> PublicArgument list \<times> string" where
  "page_pair page = (page_Arguments page, page_Next page)"

lemma argument_page_pair:
  assumes "0 < n"
  shows "page_pair (argument_page mac (map public_of rows) (int n)) =
    (if n < length rows then (map public_of (take n rows), ArgumentCursor_Encode mac (public_of (rows ! (n - 1)))) else (map public_of rows, []))"
  using assms by (simp add: page_pair_def argument_page_def take_map nat_diff_distrib)

section \<open>The two lists\<close>

definition arena_fetch ::
  "(string \<Rightarrow> uuid option) \<Rightarrow> (string \<Rightarrow> string) \<Rightarrow> (string \<Rightarrow> time option) \<Rightarrow> ListArenaArgumentsQuery \<Rightarrow> arguments_db \<Rightarrow> string
     \<Rightarrow> arguments_app_error + PublicArgument list \<times> string" where
  "arena_fetch scan mac parse_time q db cursor =
     bind_r (ListArenaArguments_Execute scan mac parse_time (q\<lparr>la_Cursor := cursor\<rparr>) db) (\<lambda>page. Inr (page_pair page))"

definition replies_fetch ::
  "(string \<Rightarrow> uuid option) \<Rightarrow> (string \<Rightarrow> string) \<Rightarrow> (string \<Rightarrow> time option) \<Rightarrow> ListRepliesQuery \<Rightarrow> arguments_db \<Rightarrow> string
     \<Rightarrow> arguments_app_error + PublicArgument list \<times> string" where
  "replies_fetch scan mac parse_time q db cursor =
     bind_r (ListReplies_Execute scan mac parse_time (q\<lparr>lr_Cursor := cursor\<rparr>) db) (\<lambda>page. Inr (page_pair page))"

definition arena_entries :: "uuid \<Rightarrow> string \<Rightarrow> arguments_db \<Rightarrow> (AppArgument \<times> int) list" where
  "arena_entries arena relation db = map (\<lambda>r. (r, reply_count db r)) (arena_argument_rows arena relation db)"

definition reply_entries :: "uuid \<Rightarrow> arguments_db \<Rightarrow> (AppArgument \<times> int) list" where
  "reply_entries parent db = map (\<lambda>r. (r, 0)) (reply_rows parent db)"

lemma entries_stored:
  "x \<in> set (arena_entries arena relation db) \<Longrightarrow> fst x \<in> set (argument_rows db)"
  "x \<in> set (reply_entries parent db) \<Longrightarrow> fst x \<in> set (argument_rows db)"
  by (auto simp: arena_entries_def reply_entries_def arena_argument_rows_def reply_rows_def)

lemma entries_distinct:
  assumes "arguments_ok replies db"
  shows "distinct (map entry_key (arena_entries arena relation db))" "distinct (map entry_key (reply_entries parent db))"
proof -
  have "distinct (map ag_ID (argument_rows db))" using assms by (simp add: arguments_ok_def)
  then have "distinct (map ag_ID (arena_argument_rows arena relation db))" "distinct (map ag_ID (reply_rows parent db))"
    by (simp_all add: arena_argument_rows_def reply_rows_def distinct_map_filter)
  from entry_keys_distinct [OF this(1), of "reply_count db"] entry_keys_distinct [OF this(2), of "\<lambda>_. 0"]
  show "distinct (map entry_key (arena_entries arena relation db))" "distinct (map entry_key (reply_entries parent db))"
    unfolding arena_entries_def reply_entries_def .
qed

definition arena_session where
  "arena_session scan parse_time replies q arena relation db \<longleftrightarrow> argument_session scan parse_time replies db
     \<and> (\<exists>a. ParseArenaID (la_ArenaID q) = Inr a \<and> scan (arena_String a) = Some arena)
     \<and> (\<exists>r. ParseRelation (la_Relation q) = Inr r \<and> relation_String r = relation)"

definition replies_session where
  "replies_session scan parse_time replies q parent db \<longleftrightarrow> argument_session scan parse_time replies db
     \<and> (\<exists>a. ParseArgumentID (lr_ParentID q) = Inr a \<and> scan (argument_String a) = Some parent)"

lemma page_rows_ok:
  assumes "arguments_ok replies db" "set rows \<subseteq> set entries" "\<forall>x \<in> set entries. fst x \<in> set (argument_rows db)"
  shows "map_public_arguments rows = Inr (map public_of rows)"
  by (rule map_public_arguments_ok) (use assms in \<open>auto simp: arguments_ok_def list_all_iff\<close>)

lemma limit_query: "wrap32 (int (page_limit l) + 1) = int (Suc (page_limit l))" "\<not> int (Suc n) < 0" "nat (int (Suc n)) = Suc n"
  using page_limit_bounds(2) [of l] by (simp_all add: int32_defs)

lemma arena_fetch_page:
  assumes "arena_session scan parse_time replies q arena relation db" "argument_opens scan mac parse_time cursor after"
  shows "arena_fetch scan mac parse_time q db cursor =
    (let rows = keyset_query entry_key (arena_entries arena relation db) after (Suc (page_limit (la_Limit q))) in
     Inr (if page_limit (la_Limit q) < length rows
          then (map public_of (take (page_limit (la_Limit q)) rows), ArgumentCursor_Encode mac (public_of (rows ! (page_limit (la_Limit q) - 1))))
          else (map public_of rows, [])))"
proof -
  let ?n = "page_limit (la_Limit q)"
  let ?rows = "keyset_query entry_key (arena_entries arena relation db) after (Suc ?n)"
  obtain a r where parsed: "ParseArenaID (la_ArenaID q) = Inr a" "scan (arena_String a) = Some arena"
    "ParseRelation (la_Relation q) = Inr r" "relation_String r = relation" and ok: "arguments_ok replies db"
    using assms(1) unfolding arena_session_def argument_session_def by blast
  obtain p position where open_at: "ArgumentCursor_Decode mac parse_time cursor = Inr p" "argumentCursorParams scan p = Inr position"
    "page_after position = after" using assms(2) unfolding argument_opens_def by blast
  have "set ?rows \<subseteq> set (arena_entries arena relation db)" by (auto simp: keyset_query_def dest: in_set_takeD)
  then have shown: "map_public_arguments ?rows = Inr (map public_of ?rows)"
    by (rule page_rows_ok [OF ok]) (use entries_stored(1) in blast)
  have "sql_ListArenaArgumentsPage arena relation position (int (Suc ?n)) db = Inr ?rows"
    unfolding sql_ListArenaArgumentsPage_def arena_entries_def by (simp add: open_at(3) limit_query(3) pages_of_rows del: of_nat_Suc)
  then have "repo_ListArenaArguments scan a r p (int ?n + 1) db = Inr (map public_of ?rows)"
    by (simp add: repo_ListArenaArguments_def parsed open_at shown limit_query(1) del: of_nat_Suc)
  then show ?thesis
    using page_limit_bounds [of "la_Limit q"]
    by (simp add: arena_fetch_def ListArenaArguments_Execute_def parsed open_at Let_def argument_page_pair)
qed

lemma replies_fetch_page:
  assumes "replies_session scan parse_time replies q parent db" "argument_opens scan mac parse_time cursor after"
  shows "replies_fetch scan mac parse_time q db cursor =
    (let rows = keyset_query entry_key (reply_entries parent db) after (Suc (page_limit (lr_Limit q))) in
     Inr (if page_limit (lr_Limit q) < length rows
          then (map public_of (take (page_limit (lr_Limit q)) rows), ArgumentCursor_Encode mac (public_of (rows ! (page_limit (lr_Limit q) - 1))))
          else (map public_of rows, [])))"
proof -
  let ?n = "page_limit (lr_Limit q)"
  let ?rows = "keyset_query entry_key (reply_entries parent db) after (Suc ?n)"
  obtain a where parsed: "ParseArgumentID (lr_ParentID q) = Inr a" "scan (argument_String a) = Some parent" and ok: "arguments_ok replies db"
    using assms(1) unfolding replies_session_def argument_session_def by blast
  obtain p position where open_at: "ArgumentCursor_Decode mac parse_time cursor = Inr p" "argumentCursorParams scan p = Inr position"
    "page_after position = after" using assms(2) unfolding argument_opens_def by blast
  have "set ?rows \<subseteq> set (reply_entries parent db)" by (auto simp: keyset_query_def dest: in_set_takeD)
  then have shown: "map_public_arguments ?rows = Inr (map public_of ?rows)"
    by (rule page_rows_ok [OF ok]) (use entries_stored(2) in blast)
  have "sql_ListRepliesPage parent position (int (Suc ?n)) db = Inr (keyset_query argument_key (reply_rows parent db) after (Suc ?n))"
    unfolding sql_ListRepliesPage_def by (simp add: open_at(3) limit_query(3) del: of_nat_Suc)
  then have "repo_ListReplies scan a p (int ?n + 1) db = Inr (map public_of ?rows)"
    using shown by (simp add: repo_ListReplies_def parsed open_at limit_query(1) pages_of_rows reply_entries_def del: of_nat_Suc)
  then show ?thesis
    using page_limit_bounds [of "lr_Limit q"]
    by (simp add: replies_fetch_def ListReplies_Execute_def parsed open_at Let_def argument_page_pair)
qed

lemma ArgumentCursor_nonempty: "ArgumentCursor_Encode mac a \<noteq> []"
  by (simp add: ArgumentCursor_Encode_def cursor_encode_nonempty)

lemma entry_cursor_opens:
  assumes "argument_session scan parse_time replies db" "fst x \<in> set (argument_rows db)"
  shows "argument_opens scan mac parse_time (ArgumentCursor_Encode mac (public_of x)) (Some (entry_key x))"
  using argument_cursor_opens [OF assms, of mac "snd x"] by (simp add: entry_key_def)

interpretation arena_list: signed_pages entry_key "arena_entries arena relation" "arena_session scan parse_time replies q arena relation"
  "\<lambda>db. keyset_query entry_key (arena_entries arena relation db)" "arena_fetch scan mac parse_time q" "page_limit (la_Limit q)"
  "argument_opens scan mac parse_time" "\<lambda>x. ArgumentCursor_Encode mac (public_of x)" public_of
  by unfold_locales
    (auto intro: entries_distinct arena_fetch_page entry_cursor_opens entries_stored
      simp: page_limit_bounds ArgumentCursor_nonempty arena_session_def argument_session_def)

interpretation reply_list: signed_pages entry_key "reply_entries parent" "replies_session scan parse_time replies q parent"
  "\<lambda>db. keyset_query entry_key (reply_entries parent db)" "replies_fetch scan mac parse_time q" "page_limit (lr_Limit q)"
  "argument_opens scan mac parse_time" "\<lambda>x. ArgumentCursor_Encode mac (public_of x)" public_of
  by unfold_locales
    (auto intro: entries_distinct replies_fetch_page entry_cursor_opens entries_stored
      simp: page_limit_bounds ArgumentCursor_nonempty replies_session_def argument_session_def)

end
