(* ===== verification/ArgumentsPublic.thy ===== *)
theory ArgumentsPublic
  imports ArgumentsReads
begin

text \<open>The properties of the public reads and of the chains of replies.\<close>

section \<open>A single argument\<close>

text \<open>
  The public read of an argument is exact: an argument that is not stored or was removed is not found, one that its author
  withdrew keeps its place but shows no content, and a published one shows its content and the number of its published
  replies.
\<close>
theorem GetPublicArgument_exact:
  assumes "debate_history scan replies ((w, db) # past)" "reads_canonical scan"
    "ParseArgumentID raw = Inr i" "scan (argument_String i) = Some u"
  shows "GetPublicArgument_Execute scan raw db =
    (case find (\<lambda>r. ag_ID r = u) (argument_rows db) of
       None \<Rightarrow> Inl ErrArgumentNotFound
     | Some r \<Rightarrow> if ag_Status r = ''removed'' then Inl ErrArgumentNotFound
         else Inr (public_of (r, int (length (filter (\<lambda>q. ag_ParentID q = Some u \<and> ag_Status q = ''published'') (argument_rows db))))))
   \<and> (\<forall>a. GetPublicArgument_Execute scan raw db = Inr a \<longrightarrow> (pub_Content a \<noteq> None \<longleftrightarrow> pub_Status a = ''published''))"
proof -
  let ?shown = "\<lambda>r. ag_ID r = u \<and> ag_Status r \<in> {''published'', ''withdrawn''}"
  have ok: "arguments_ok replies db" using history_reads(1) [OF assms(1,2)] by (simp add: debate_ok_def)
  then have rows: "ag_row_ok r" if "r \<in> set (argument_rows db)" for r using that by (auto simp: arguments_ok_def list_all_iff)
  have d: "distinct (map ag_ID (argument_rows db))" using ok by (simp add: arguments_ok_def)
  have exec: "GetPublicArgument_Execute scan raw db =
      (case find ?shown (argument_rows db) of None \<Rightarrow> Inl ErrArgumentNotFound | Some r \<Rightarrow> mapPublicArgument (r, reply_count db r))"
    by (simp add: GetPublicArgument_Execute_def assms(3,4) repo_GetPublicArgument_def sql_GetPublicArgument_def find_argument_def
        split: option.split)
  show ?thesis
  proof (cases "find (\<lambda>r. ag_ID r = u) (argument_rows db)")
    case None
    then have "find ?shown (argument_rows db) = None" by (auto simp: find_None_iff)
    then show ?thesis unfolding exec None by (simp del: find_None_iff)
  next
    case (Some r)
    then have mem: "r \<in> set (argument_rows db)" "ag_ID r = u" by (auto simp: find_Some_iff)
    have "find ?shown rows = (if ag_Status r \<in> {''published'', ''withdrawn''} then Some r else None)"
      if "distinct (map ag_ID rows)" "r \<in> set rows" for rows
      using that mem(2) by (induction rows) (auto simp: find_None_iff image_iff)
    from this [OF d mem(1)] have found: "find ?shown (argument_rows db) = (if ag_Status r = ''removed'' then None else Some r)"
      using rows [OF mem(1)] by (auto simp: ag_row_ok_def arguments_checks_def)
    show ?thesis unfolding exec found Some using mem(2)
      by (auto simp: mapPublicArgument_ok [OF rows [OF mem(1)]] reply_count_def) (auto simp: public_of_def split: if_splits)
  qed
qed

section \<open>Lists\<close>

text \<open>
  C15. The lists of arguments are complete and free of duplicates: a client that follows the cursors it is given, with any
  page size, receives exactly the published root arguments of an Arena under a relation, or exactly the published replies
  of an argument, each once, newest first, with its content.
\<close>
theorem argument_lists_complete:
  assumes "debate_history scan replies ((w, db) # past)" "reads_canonical scan" "reads_created parse_time db"
    "TrimSpace cursor = []" "length (argument_rows db) < fuel"
  shows "(\<forall>q arena relation. ParseArenaID (la_ArenaID q) = Inr arena \<longrightarrow> ParseRelation (la_Relation q) = Inr relation \<longrightarrow>
      (\<forall>u. scan (arena_String arena) = Some u \<longrightarrow>
      (\<exists>rows. cursor_walk fuel (arena_fetch scan mac parse_time q db) cursor = Inr (map (\<lambda>r. public_of (r, reply_count db r)) rows)
        \<and> set rows = {r \<in> set (argument_rows db). ag_ArenaID r = u \<and> ag_Relation r = relation_String relation
            \<and> ag_ParentID r = None \<and> ag_Status r = ''published''}
        \<and> sorted_wrt (\<lambda>r q. argument_key q < argument_key r) rows)))
    \<and> (\<forall>q parent. ParseArgumentID (lr_ParentID q) = Inr parent \<longrightarrow>
      (\<forall>u. scan (argument_String parent) = Some u \<longrightarrow>
      (\<exists>rows. cursor_walk fuel (replies_fetch scan mac parse_time q db) cursor = Inr (map (\<lambda>r. public_of (r, 0)) rows)
        \<and> set rows = {r \<in> set (argument_rows db). ag_ParentID r = Some u \<and> ag_Status r = ''published''}
        \<and> sorted_wrt (\<lambda>r q. argument_key q < argument_key r) rows)))"
proof -
  have session: "argument_session scan parse_time replies db"
    using history_reads(1) [OF assms(1,2)] assms(2,3) by (simp add: argument_session_def debate_ok_def)
  note first = argument_opens_first [OF assms(4), of scan mac parse_time]
  have entries: "\<exists>rows. map public_of xs = map (\<lambda>r. public_of (r, c r)) rows \<and> set rows = fst ` set xs
      \<and> sorted_wrt (\<lambda>r q. argument_key q < argument_key r) rows"
    if "set xs = set (map (\<lambda>r. (r, c r)) table)" "sorted_wrt (\<lambda>x y. entry_key y < entry_key x) xs" for xs c table
  proof (intro exI [of _ "map fst xs"] conjI)
    have "public_of x = ((\<lambda>r. public_of (r, c r)) \<circ> fst) x" if "x \<in> set xs" for x using that \<open>set xs = _\<close> by auto
    then show "map public_of xs = map (\<lambda>r. public_of (r, c r)) (map fst xs)" unfolding map_map by (rule map_cong [OF refl])
    show "sorted_wrt (\<lambda>r q. argument_key q < argument_key r) (map fst xs)"
      using that(2) by (simp add: sorted_wrt_map entry_key_def)
  qed simp
  have len: "length (filter P (argument_rows db)) < fuel" for P using assms(5) length_filter_le [of P "argument_rows db"] by linarith
  show ?thesis
  proof (intro conjI allI impI)
    fix q :: ListArenaArgumentsQuery and arena relation u
    assume q: "ParseArenaID (la_ArenaID q) = Inr arena" "ParseRelation (la_Relation q) = Inr relation" "scan (arena_String arena) = Some u"
    let ?t = "arena_entries u (relation_String relation)"
    have s: "arena_session scan parse_time replies q u (relation_String relation) db" using session q by (auto simp: arena_session_def)
    have "length (?t db) < fuel" using len by (simp add: arena_entries_def arena_argument_rows_def)
    from arena_list.cursor_walk_complete [OF s first this]
    have walk: "cursor_walk fuel (arena_fetch scan mac parse_time q db) cursor
        = Inr (map public_of (arena_list.newest_first u (relation_String relation) db))" .
    obtain rows where "map public_of (arena_list.newest_first u (relation_String relation) db) = map (\<lambda>r. public_of (r, reply_count db r)) rows"
      "set rows = fst ` set (arena_list.newest_first u (relation_String relation) db)"
      "sorted_wrt (\<lambda>r q. argument_key q < argument_key r) rows"
      using entries [of "arena_list.newest_first u (relation_String relation) db" "reply_count db"
          "arena_argument_rows u (relation_String relation) db"] arena_list.newest_first_strict [OF s] arena_list.set_newest_first
      by (auto simp: arena_entries_def)
    then show "\<exists>rows. cursor_walk fuel (arena_fetch scan mac parse_time q db) cursor = Inr (map (\<lambda>r. public_of (r, reply_count db r)) rows)
        \<and> set rows = {r \<in> set (argument_rows db). ag_ArenaID r = u \<and> ag_Relation r = relation_String relation
            \<and> ag_ParentID r = None \<and> ag_Status r = ''published''}
        \<and> sorted_wrt (\<lambda>r q. argument_key q < argument_key r) rows"
      using walk arena_list.set_newest_first
      by (intro exI [of _ rows]) (auto simp: arena_entries_def arena_argument_rows_def image_image)
  next
    fix q :: ListRepliesQuery and parent u
    assume q: "ParseArgumentID (lr_ParentID q) = Inr parent" "scan (argument_String parent) = Some u"
    have s: "replies_session scan parse_time replies q u db" using session q by (auto simp: replies_session_def)
    have "length (reply_entries u db) < fuel" using len by (simp add: reply_entries_def reply_rows_def)
    from reply_list.cursor_walk_complete [OF s first this]
    have walk: "cursor_walk fuel (replies_fetch scan mac parse_time q db) cursor = Inr (map public_of (reply_list.newest_first u db))" .
    obtain rows where "map public_of (reply_list.newest_first u db) = map (\<lambda>r. public_of (r, 0)) rows"
      "set rows = fst ` set (reply_list.newest_first u db)" "sorted_wrt (\<lambda>r q. argument_key q < argument_key r) rows"
      using entries [of "reply_list.newest_first u db" "\<lambda>_. 0" "reply_rows u db"] reply_list.newest_first_strict [OF s]
        reply_list.set_newest_first by (auto simp: reply_entries_def)
    then show "\<exists>rows. cursor_walk fuel (replies_fetch scan mac parse_time q db) cursor = Inr (map (\<lambda>r. public_of (r, 0)) rows)
        \<and> set rows = {r \<in> set (argument_rows db). ag_ParentID r = Some u \<and> ag_Status r = ''published''}
        \<and> sorted_wrt (\<lambda>r q. argument_key q < argument_key r) rows"
      using walk reply_list.set_newest_first by (intro exI [of _ rows]) (auto simp: reply_entries_def reply_rows_def image_image)
  qed
qed

section \<open>Threads\<close>

text \<open>A chain that stops before its bound is unaffected by a larger bound.\<close>

lemma chain_depth_stable: "chain_depth n p rows < n \<Longrightarrow> n \<le> m \<Longrightarrow> chain_depth m p rows = chain_depth n p rows"
proof (induction n arbitrary: p m)
  case (Suc n)
  then obtain k where m: "m = Suc k" "n \<le> k" by (cases m) auto
  show ?case
  proof (cases p)
    case (Some i)
    show ?thesis
    proof (cases "find (\<lambda>r. ag_ID r = i) rows")
      case None
      then show ?thesis using chain_depth_None [OF None] Some m(1) by (simp del: chain_depth.simps)
    next
      case (Some r)
      then have "chain_depth n (ag_ParentID r) rows < n" using Suc.prems(1) chain_depth_Some [OF Some] \<open>p = Some i\<close> by simp
      from Suc.IH [OF this m(2)] show ?thesis using chain_depth_Some [OF Some] \<open>p = Some i\<close> m(1) by simp
    qed
  qed (simp add: m)
qed simp

text \<open>The ancestors of an argument, walked upwards.\<close>

fun ancestors :: "nat \<Rightarrow> uuid option \<Rightarrow> AppArgument list \<Rightarrow> AppArgument list option" where
  "ancestors fuel None rows = Some []"
| "ancestors 0 (Some p) rows = None"
| "ancestors (Suc fuel) (Some p) rows =
     (case find (\<lambda>r. ag_ID r = p) rows of None \<Rightarrow> None | Some r \<Rightarrow> map_option (\<lambda>as. r # as) (ancestors fuel (ag_ParentID r) rows))"

lemma ancestors_depth:
  assumes "parents_ok rows"
  shows "p = None \<or> (\<exists>q \<in> set rows. p = Some (ag_ID q)) \<Longrightarrow> chain_depth n p rows < n \<Longrightarrow>
    \<exists>as. ancestors (chain_depth n p rows) p rows = Some as \<and> length as = chain_depth n p rows \<and> set as \<subseteq> set rows
      \<and> (as \<noteq> [] \<longrightarrow> ag_ParentID (last as) = None)"
proof (induction n arbitrary: p)
  case (Suc n)
  show ?case
  proof (cases p)
    case (Some i)
    then obtain r where r: "find (\<lambda>r. ag_ID r = i) rows = Some r" using Suc.prems(1) by (cases "find (\<lambda>r. ag_ID r = i) rows") auto
    then have mem: "r \<in> set rows" by (auto simp: find_Some_iff)
    have d: "chain_depth (Suc n) p rows = Suc (chain_depth n (ag_ParentID r) rows)" using chain_depth_Some [OF r] Some by simp
    then obtain as where as: "ancestors (chain_depth n (ag_ParentID r) rows) (ag_ParentID r) rows = Some as"
      "length as = chain_depth n (ag_ParentID r) rows" "set as \<subseteq> set rows" "as \<noteq> [] \<longrightarrow> ag_ParentID (last as) = None"
      using Suc.IH [OF parent_stored [OF assms mem]] Suc.prems(2) by auto
    have "ag_ParentID r = None" if "as = []"
    proof (rule ccontr)
      assume "ag_ParentID r \<noteq> None"
      then obtain q where "ag_ParentID r = Some q" by blast
      then show False using as(1,2) that by simp
    qed
    then have "\<exists>as. ancestors (Suc (chain_depth n (ag_ParentID r) rows)) (Some i) rows = Some as
        \<and> length as = Suc (chain_depth n (ag_ParentID r) rows) \<and> set as \<subseteq> set rows \<and> (as \<noteq> [] \<longrightarrow> ag_ParentID (last as) = None)"
      using as mem r by (intro exI [of _ "r # as"]) auto
    then show ?thesis unfolding d unfolding Some .
  qed simp
qed simp

lemma ancestors_mono: "ancestors n p rows = Some xs \<Longrightarrow> n \<le> m \<Longrightarrow> ancestors m p rows = Some xs"
proof (induction n arbitrary: m p xs)
  case 0
  then have "p = None" "xs = []" by (cases p; simp)+
  then show ?case by simp
next
  case (Suc n)
  from Suc.prems(2) obtain k where k: "m = Suc k" "n \<le> k" by (cases m) auto
  show ?case
  proof (cases p)
    case (Some i)
    then obtain r as where r: "find (\<lambda>r. ag_ID r = i) rows = Some r" "ancestors n (ag_ParentID r) rows = Some as" "xs = r # as"
      using Suc.prems(1) by (auto split: option.splits)
    from Suc.IH [OF r(2) k(2)] show ?thesis using r k(1) Some by simp
  qed (use Suc.prems k in simp)
qed

text \<open>
  C14. Every thread ends: walking from a stored argument to its parents reaches a root of its Arena after at most
  \<open>MaxDepth\<close> steps, visiting stored arguments only, so there is no cycle; and below a thousand levels the bound of
  the recursive statement cuts nothing, so the depth it answers is the number of ancestors.
\<close>
theorem threads_end:
  assumes "debate_history scan replies ((w, db) # past)" "reads_canonical scan" "MaxDepth replies < 1000"
    "r \<in> set (argument_rows db)"
  shows "\<exists>as. ancestors (nat (MaxDepth replies)) (ag_ParentID r) (argument_rows db) = Some as
    \<and> set as \<subseteq> set (argument_rows db) \<and> (as \<noteq> [] \<longrightarrow> ag_ParentID (last as) = None)
    \<and> int (length as) \<le> MaxDepth replies
    \<and> sql_GetParentArgument (ag_ID r) db = Inr (r, int (length as))
    \<and> (\<forall>n \<ge> 1000. chain_depth n (ag_ParentID r) (argument_rows db) = length as)"
proof -
  let ?rows = "argument_rows db" and ?d = "chain_depth 1000 (ag_ParentID r) (argument_rows db)"
  have ok: "arguments_ok replies db" using history_reads(1) [OF assms(1,2)] by (simp add: debate_ok_def)
  then have parents: "parents_ok ?rows" and depth: "int ?d \<le> MaxDepth replies" and ids: "distinct (map ag_ID ?rows)"
    using assms(4) unfolding arguments_ok_def depth_ok_def by blast+
  then have small: "?d < 1000" using assms(3) by linarith
  obtain as where as: "ancestors ?d (ag_ParentID r) ?rows = Some as" "length as = ?d" "set as \<subseteq> set ?rows"
    "as \<noteq> [] \<longrightarrow> ag_ParentID (last as) = None"
    using ancestors_depth [OF parents parent_stored [OF parents assms(4)] small] by blast
  have "ancestors (nat (MaxDepth replies)) (ag_ParentID r) ?rows = Some as" using ancestors_mono [OF as(1)] depth by simp
  moreover have "sql_GetParentArgument (ag_ID r) db = Inr (r, int ?d)"
    using find_id [OF ids assms(4)] by (simp add: sql_GetParentArgument_def find_argument_def)
  moreover have "\<forall>n \<ge> 1000. chain_depth n (ag_ParentID r) ?rows = ?d" using chain_depth_stable [OF small] by blast
  ultimately show ?thesis using as(3,4) depth unfolding as(2) [symmetric] by blast
qed

end
