(* ===== verification/ArenasFeed.thy ===== *)
theory ArenasFeed
  imports ArenasRuns SignedPages
begin

text \<open>
  The public feed as a client walks it: it asks for a page and sends the signed cursor of the page
  back until a page has none.
\<close>

definition feed_fetch ::
  "(string \<Rightarrow> uuid option) \<Rightarrow> (string \<Rightarrow> string) \<Rightarrow> (string \<Rightarrow> time option) \<Rightarrow> GetArenaFeedCommand \<Rightarrow> arenas_db \<Rightarrow> string
     \<Rightarrow> arenas_app_error + Arena list \<times> string" where
  "feed_fetch scan mac parse_time cmd db cursor =
     bind_r (GetArenaFeed_Execute scan mac parse_time (cmd\<lparr>feed_Cursor := cursor\<rparr>) db)
       (\<lambda>page. Inr (page_Arenas page, page_NextCursor page))"

definition feed_table :: "ArenaFeedFilter \<Rightarrow> arenas_db \<Rightarrow> AppArena list" where
  "feed_table f = feed_rows (map_option language_String (filter_Language f))
     (map_option category_String (filter_Category f)) (filter_Status f)"

lemma set_feed_table: "set (feed_table f db) \<subseteq> set (arena_rows db)"
  by (auto simp: feed_table_def feed_rows_def)

lemma published_key_id: "published_key r = published_key q \<Longrightarrow> ar_ID r = ar_ID q"
  by (simp add: published_key_def)

lemma feed_keys_distinct: "arenas_ok db \<Longrightarrow> distinct (map published_key (feed_table f db))"
proof -
  assume "arenas_ok db"
  then have "distinct (map ar_ID (feed_table f db))"
    by (simp add: arenas_ok_def feed_table_def feed_rows_def distinct_map_filter)
  then show ?thesis unfolding distinct_map by (auto intro: inj_onI dest: published_key_id inj_onD)
qed

lemma map_arena_rows_ok: "list_all row_ok rows \<Longrightarrow> map_arena_rows rows = Inr (map arena_of_row rows)"
  by (induction rows) (simp_all add: mapArenaRow_ok)

text \<open>\<open>time.Parse\<close> reads back the stored instants as \<open>Format\<close> prints them.\<close>

definition reads_instants :: "(string \<Rightarrow> time option) \<Rightarrow> arenas_db \<Rightarrow> bool" where
  "reads_instants parse_time db \<longleftrightarrow> (\<forall>r \<in> set (arena_rows db).
     case ar_PublishedAt r of None \<Rightarrow> True | Some t \<Rightarrow> parse_time (FormatRFC3339Nano t) = Some t)"

definition feed_limit :: "GetArenaFeedCommand \<Rightarrow> nat" where
  "feed_limit cmd = nat (if feed_Limit cmd \<le> 0 then DefaultFeedLimit else if feed_Limit cmd > MaxFeedLimit then MaxFeedLimit else feed_Limit cmd)"

lemma feed_limit_bounds: "0 < feed_limit cmd" "feed_limit cmd \<le> 100"
  by (auto simp: feed_limit_def DefaultFeedLimit_def MaxFeedLimit_def)

lemma feed_limit_int: "(if feed_Limit cmd \<le> 0 then DefaultFeedLimit else if feed_Limit cmd > MaxFeedLimit then MaxFeedLimit else feed_Limit cmd)
  = int (feed_limit cmd)"
  by (simp add: feed_limit_def DefaultFeedLimit_def MaxFeedLimit_def)

lemma feed_cursor_reads_back:
  assumes "reads_canonical scan" "row_ok r" "ar_Status r \<noteq> ''draft''"
    "case ar_PublishedAt r of None \<Rightarrow> True | Some t \<Rightarrow> parse_time (FormatRFC3339Nano t) = Some t"
  shows "\<exists>p. FeedCursor_Decode mac parse_time (FeedCursor_Encode mac (arena_of_row r)) = Inr (Some p)
    \<and> scan (fp_ArenaID p) = Some (ar_ID r) \<and> Keyset (timestamptz (fp_PublishedAt p)) (ar_ID r) = published_key r"
proof -
  obtain t where t: "ar_PublishedAt r = Some t" using row_ok_parts(7) [OF assms(2)] assms(3) by (cases "ar_PublishedAt r") auto
  then have "parse_time (FormatRFC3339Nano t) = Some t" "timestamptz t = t" using assms(4) row_ok_parts(5) [OF assms(2)] by simp_all
  then show ?thesis
    using cursor_of_uuid [of parse_time t mac "ar_ID r"] t assms(1)
    by (simp add: FeedCursor_Decode_def FeedCursor_Encode_def arena_of_row_def uuidToString_printable published_key_def reads_canonical_def)
qed

lemma buildFeedFilter_cursor [simp]: "buildFeedFilter (cmd\<lparr>feed_Cursor := x\<rparr>) = buildFeedFilter cmd"
  by (simp add: buildFeedFilter_def)

text \<open>A feed cursor opens the first page or the page after a row.\<close>

definition feed_opens ::
  "(string \<Rightarrow> uuid option) \<Rightarrow> (string \<Rightarrow> string) \<Rightarrow> (string \<Rightarrow> time option) \<Rightarrow> string \<Rightarrow> keyset option \<Rightarrow> bool" where
  "feed_opens scan mac parse_time cursor after \<longleftrightarrow>
     (case FeedCursor_Decode mac parse_time cursor of
        Inl _ \<Rightarrow> False
      | Inr None \<Rightarrow> after = None
      | Inr (Some p) \<Rightarrow> (\<exists>i. scan (fp_ArenaID p) = Some i \<and> after = Some (Keyset (timestamptz (fp_PublishedAt p)) i)))"

definition feed_session ::
  "(string \<Rightarrow> uuid option) \<Rightarrow> (string \<Rightarrow> time option) \<Rightarrow> GetArenaFeedCommand \<Rightarrow> ArenaFeedFilter \<Rightarrow> arenas_db \<Rightarrow> bool" where
  "feed_session scan parse_time cmd f db \<longleftrightarrow>
     arenas_ok db \<and> reads_instants parse_time db \<and> reads_canonical scan \<and> buildFeedFilter cmd = Inr f"

lemma feed_fetch_page:
  assumes "feed_session scan parse_time cmd f db" "feed_opens scan mac parse_time cursor after"
  shows "feed_fetch scan mac parse_time cmd db cursor =
    (let rows = keyset_query published_key (feed_table f db) after (Suc (feed_limit cmd)) in
     Inr (if feed_limit cmd < length rows
          then (map arena_of_row (take (feed_limit cmd) rows), FeedCursor_Encode mac (arena_of_row (rows ! (feed_limit cmd - 1))))
          else (map arena_of_row rows, [])))"
proof -
  let ?n = "feed_limit cmd" and ?rows = "keyset_query published_key (feed_table f db) after (Suc (feed_limit cmd))"
  have f: "buildFeedFilter cmd = Inr f" and ok: "arenas_ok db" using assms(1) by (simp_all add: feed_session_def)
  have "set ?rows \<subseteq> set (feed_table f db)" by (auto simp: keyset_query_def dest: in_set_takeD)
  then have rows: "list_all row_ok ?rows" using set_feed_table [of f db] ok by (auto simp: arenas_ok_def list_all_iff)
  have wrap: "wrap32 (int ?n + 1) = int ?n + 1" using feed_limit_bounds [of cmd] by (simp add: int32_defs)
  have n: "nat (int ?n + 1) = Suc ?n" by simp
  have same: "feed_Limit (cmd\<lparr>feed_Cursor := cursor\<rparr>) = feed_Limit cmd" "feed_Cursor (cmd\<lparr>feed_Cursor := cursor\<rparr>) = cursor" by simp_all
  obtain p where p: "FeedCursor_Decode mac parse_time cursor = Inr p"
    and at: "case p of None \<Rightarrow> after = None | Some q \<Rightarrow> \<exists>i. scan (fp_ArenaID q) = Some i \<and> after = Some (Keyset (timestamptz (fp_PublishedAt q)) i)"
    using assms(2) by (auto simp: feed_opens_def split: sum.splits option.splits)
  have "repo_ListPublicArenas scan f p (int ?n + 1) db = Inr (map arena_of_row ?rows)"
    using at map_arena_rows_ok [OF rows]
    by (cases p) (auto simp: repo_ListPublicArenas_def sql_ListPublicArenasPage_def feed_table_def wrap n)
  then have "GetArenaFeed_Execute scan mac parse_time (cmd\<lparr>feed_Cursor := cursor\<rparr>) db =
      (let arenas = map arena_of_row ?rows in
       if int (length arenas) > int ?n
       then Inr \<lparr>page_Arenas = take ?n arenas, page_NextCursor = FeedCursor_Encode mac (arenas ! (?n - 1))\<rparr>
       else Inr \<lparr>page_Arenas = arenas, page_NextCursor = []\<rparr>)"
    using feed_limit_bounds [of cmd] unfolding GetArenaFeed_Execute_def buildFeedFilter_cursor f same feed_limit_int p
    by (simp add: Let_def nat_diff_distrib)
  then show ?thesis using feed_limit_bounds [of cmd]
    by (cases "?n < length ?rows") (simp_all add: feed_fetch_def Let_def take_map)
qed

lemma feed_cursor_opens:
  assumes "feed_session scan parse_time cmd f db" "r \<in> set (feed_table f db)"
  shows "feed_opens scan mac parse_time (FeedCursor_Encode mac (arena_of_row r)) (Some (published_key r))"
proof -
  have r: "r \<in> set (arena_rows db)" "ar_Status r \<noteq> ''draft''"
    using assms(2) set_feed_table [of f db] by (auto simp: feed_table_def feed_rows_def public_statuses_def)
  then have "row_ok r" "case ar_PublishedAt r of None \<Rightarrow> True | Some t \<Rightarrow> parse_time (FormatRFC3339Nano t) = Some t"
    "reads_canonical scan"
    using assms(1) unfolding arenas_ok_def reads_instants_def feed_session_def by (auto simp: list_all_iff)
  from feed_cursor_reads_back [OF this(3,1) r(2) this(2), of mac] show ?thesis by (auto simp: feed_opens_def)
qed

lemma FeedCursor_Encode_nonempty: "FeedCursor_Encode mac arena \<noteq> []"
  by (simp add: FeedCursor_Encode_def cursor_encode_nonempty)

interpretation feed: signed_pages published_key "feed_table f" "feed_session scan parse_time cmd f"
  "\<lambda>db. keyset_query published_key (feed_table f db)" "feed_fetch scan mac parse_time cmd" "feed_limit cmd"
  "feed_opens scan mac parse_time" "\<lambda>r. FeedCursor_Encode mac (arena_of_row r)" arena_of_row
  by unfold_locales
    (auto intro: feed_keys_distinct feed_fetch_page feed_cursor_opens simp: feed_session_def feed_limit_bounds FeedCursor_Encode_nonempty)

end
