(* ===== verification/ArenasProperties.thy ===== *)
theory ArenasProperties
  imports ArenasFeed "HOL-Library.Multiset"
begin

text \<open>
  What the arenas module promises: the table stays readable and unambiguous, a published Arena keeps
  what it was published with, a publication takes one pass and takes it once, the feed shows every
  public Arena once, and public addresses are well formed; and one promise it does not keep, that the
  identifier keeps the addresses of Arenas with one statement apart.
\<close>

section \<open>Runs\<close>

lemma run_from_empty:
  "arena_rows (st_table st0) = [] \<Longrightarrow> arenas_ok (st_table (arenas_run env rqs st0))"
proof -
  assume "arena_rows (st_table st0) = []"
  then have "arenas_ok (st_table st0)" by (simp add: arenas_ok_def slugs_apart_def)
  then show ?thesis using arenas_run_ok by blast
qed

text \<open>
  C36. The table of Arenas stays readable and unambiguous: after any requests on an empty table, the
  statements of the moderation module and of the deletion of accounts among them,
  whatever states they read and whatever the other modules answer, every stored row loads as the
  Arena it describes, no two rows share an identifier or a public address, drafts have no address, and
  what a visitor finds at an address is a published, closed or restricted Arena.
\<close>
theorem arenas_consistent:
  assumes "arena_rows (st_table st0) = []" "st = arenas_run env rqs st0"
  shows "(\<forall>r \<in> set (arena_rows (st_table st)). mapArenaRow r = Inr (arena_of_row r)
            \<and> (ar_Status r = ''draft'' \<longleftrightarrow> ar_Slug r = None))
    \<and> distinct (map ar_ID (arena_rows (st_table st)))
    \<and> (\<forall>r \<in> set (arena_rows (st_table st)). \<forall>q \<in> set (arena_rows (st_table st)).
         ar_Slug r \<noteq> None \<longrightarrow> ar_Slug r = ar_Slug q \<longrightarrow> r = q)
    \<and> (\<forall>raw a. GetPublicArena_Execute raw (st_table st) = Inr a \<longrightarrow>
         (\<exists>r \<in> set (arena_rows (st_table st)). a = arena_of_row r \<and> ar_Status r \<in> {''published'', ''closed'', ''restricted''}))"
proof (intro conjI ballI impI allI)
  let ?rows = "arena_rows (st_table st)"
  have ok: "arenas_ok (st_table st)" unfolding assms(2) by (rule run_from_empty [OF assms(1)])
  then have each: "row_ok r" if "r \<in> set ?rows" for r using that by (simp add: arenas_ok_def list_all_iff)
  show ids: "distinct (map ar_ID ?rows)" using ok by (simp add: arenas_ok_def)
  fix r assume r: "r \<in> set ?rows"
  show "mapArenaRow r = Inr (arena_of_row r)" by (rule mapArenaRow_ok [OF each [OF r]])
  show "ar_Status r = ''draft'' \<longleftrightarrow> ar_Slug r = None" using each [OF r] unfolding row_ok_def arenas_checks_def by blast
  fix q assume q: "q \<in> set ?rows" and s: "ar_Slug r \<noteq> None" "ar_Slug r = ar_Slug q"
  have "ar_ID r = ar_ID q" using ok r q s unfolding arenas_ok_def slugs_apart_def by blast
  then show "r = q" using ids r q by (simp add: distinct_map inj_on_def)
next
  fix raw a assume "GetPublicArena_Execute raw (st_table st) = Inr a"
  then obtain slug row where f: "find (\<lambda>r. ar_Slug r = Some slug \<and> ar_Status r \<in> set public_statuses) (arena_rows (st_table st)) = Some row"
    and m: "mapArenaRow row = Inr a"
    by (auto simp: GetPublicArena_Execute_def repo_GetPublicArenaBySlug_def sql_GetPublicArenaBySlug_def find_arena_def
        split: sum.splits option.splits if_splits)
  then have row: "row \<in> set (arena_rows (st_table st))" "ar_Status row \<in> set public_statuses"
    by (auto simp: find_Some_iff)
  have "row_ok row" using run_from_empty [OF assms(1), of env rqs] row(1) unfolding assms(2) arenas_ok_def list_all_iff by blast
  then show "\<exists>r \<in> set (arena_rows (st_table st)). a = arena_of_row r \<and> ar_Status r \<in> {''published'', ''closed'', ''restricted''}"
    using row m mapArenaRow_ok by (intro bexI [OF _ row(1)]) (simp add: public_statuses_def)
qed

lemma status_rank_le: "status_rank s \<le> 4"
  by (simp add: status_rank_def)

text \<open>
  C38. A published Arena keeps what it was published with: once a row has left the draft state, any
  further requests of the arenas module, sanctions and appeals of the moderation module and deletions of
  accounts leave it in the table with its identifier, creator, address, statement, language and instants;
  its version grows with every change; its status moves forward (published, closed, restricted, removed),
  except that an Arena an appeal of the moderation module concerned can be closed and reopened, between
  published and closed only; and a removed Arena never changes again.
\<close>
theorem published_immutable:
  assumes "arena_rows (st_table st0) = []" "st = arenas_run env rqs st0"
    and "r \<in> set (arena_rows (st_table st))" "ar_Status r \<noteq> ''draft''"
  shows "\<exists>r' \<in> set (arena_rows (st_table (arenas_run env' rqs' st))).
      frozen r' = frozen r \<and> ar_Version r \<le> ar_Version r' \<and> (ar_Status r = ''removed'' \<longrightarrow> r' = r)
    \<and> (r' = r \<or> ar_Version r < ar_Version r'
         \<and> (status_rank (ar_Status r) < status_rank (ar_Status r')
            \<or> AppealRq (ar_ID r) \<in> set rqs' \<and> {ar_Status r, ar_Status r'} \<subseteq> {''published'', ''closed''}))"
proof -
  have "arenas_ok (st_table st)" unfolding assms(2) by (rule run_from_empty [OF assms(1)])
  then obtain r' where r': "r' \<in> set (arena_rows (st_table (arenas_run env' rqs' st)))" "moved_on (appealed rqs') r r'"
    using arenas_run_ok [of st env' rqs'] assms(3,4) unfolding arenas_extends_def by blast
  have "r' = r" if "ar_Status r = ''removed''"
    using that r'(2) status_rank_le [of "ar_Status r'"] by (auto simp: moved_on_def status_rank_def)
  then show ?thesis using r'(2) unfolding moved_on_def status_rank_debated appealed_def
    by (intro bexI [OF _ r'(1)]) simp
qed

section \<open>Publication\<close>

text \<open>
  C37. A publication takes one pass or nothing: it fails and leaves passes and Arenas as they were, or
  finds the Arena published and changes nothing, or consumes one pass for this account and Arena and
  turns exactly the draft it read, if nobody changed it since, into the published Arena under a valid
  address.
\<close>
theorem publish_exact:
  assumes "arena_rows (st_table st0) = []" "st = arenas_run env rqs st0"
    and "PublishArena_Execute scan consume now cmd seen (p, st_table st) = (res, p', db')"
  shows "(\<exists>e. res = Inl e \<and> p' = p \<and> db' = st_table st)
    \<or> (\<exists>arena. res = Inr \<lparr>res_Arena = arena, res_Replayed = True\<rparr> \<and> p' = p \<and> db' = st_table st
        \<and> repo_GetArenaForCreator scan (pub_ArenaID cmd) (pub_AccountID cmd) seen = Inr arena
        \<and> arena_status arena = ArenaStatusPublished)
    \<or> (\<exists>arena pass old slug. repo_GetArenaForCreator scan (pub_ArenaID cmd) (pub_AccountID cmd) seen = Inr arena
        \<and> consume \<lparr>pass_AccountID = pub_AccountID cmd, pass_ArenaID = pub_ArenaID cmd\<rparr> p = (Inr pass, p')
        \<and> old \<in> set (arena_rows (st_table st)) \<and> ar_Status old = ''draft'' \<and> ar_Version old = arena_version arena
        \<and> scan (pub_ArenaID cmd) = Some (ar_ID old) \<and> scan (pub_AccountID cmd) = Some (ar_CreatorID old)
        \<and> ParseSlug slug = Inr (Slug slug)
        \<and> (let new = old\<lparr>ar_Status := ''published'', ar_Slug := Some slug, ar_PublishedAt := Some (timestamptz now),
                         ar_Version := ar_Version old + 1\<rparr> in
           res = Inr \<lparr>res_Arena = arena_of_row new, res_Replayed = False\<rparr>
         \<and> arena_rows db' = map (\<lambda>r. if ar_ID r = ar_ID old then new else r) (arena_rows (st_table st))))"
proof -
  have ok: "arenas_ok (st_table st)" unfolding assms(2) by (rule run_from_empty [OF assms(1)])
  consider "\<exists>e. res = Inl e \<and> p' = p \<and> db' = st_table st"
    | "\<exists>arena. res = Inr \<lparr>res_Arena = arena, res_Replayed = True\<rparr> \<and> p' = p \<and> db' = st_table st
        \<and> repo_GetArenaForCreator scan (pub_ArenaID cmd) (pub_AccountID cmd) seen = Inr arena
        \<and> arena_status arena = ArenaStatusPublished"
    | arena slug new a c pass where "res = Inr \<lparr>res_Arena = arena_of_row new, res_Replayed = False\<rparr>"
      "repo_GetArenaForCreator scan (pub_ArenaID cmd) (pub_AccountID cmd) seen = Inr arena" "DeriveSlug arena = Inr slug"
      "consume \<lparr>pass_AccountID = pub_AccountID cmd, pass_ArenaID = pub_ArenaID cmd\<rparr> p = (Inr pass, p')"
      "scan (pub_ArenaID cmd) = Some a" "scan (pub_AccountID cmd) = Some c"
      "wrote (publish_hit a c (arena_version arena)) (publish_change slug now) (st_table st) new db'"
    using publish_cases [OF ok assms(3)] by blast
  then show ?thesis
  proof cases
    case (3 arena slug new a c pass)
    then obtain old where old: "old \<in> set (arena_rows (st_table st))" "publish_hit a c (arena_version arena) old"
      "new = (publish_change slug now old)\<lparr>ar_Version := ar_Version old + 1\<rparr>"
      "arena_rows db' = map (\<lambda>r. if ar_ID r = ar_ID old then new else r) (arena_rows (st_table st))"
      unfolding wrote_def by blast
    have "ParseSlug (slug_String slug) = Inr (Slug (slug_String slug))" using DeriveSlug_parsed [OF 3(3)] by (cases slug) simp
    with 3 old show ?thesis
      unfolding Let_def
      by (intro disjI2 exI [of _ arena] exI [of _ pass] exI [of _ old] exI [of _ "slug_String slug"]) simp
  qed blast+
qed

text \<open>
  An Arena is paid for once: after a publication of an Arena succeeded, and whatever happens in
  between, no publication of the same Arena, whatever state it read and however often it is retried,
  changes the passes or the table again.
\<close>
theorem publish_once:
  assumes "arena_rows (st_table st0) = []" "st = arenas_run env rqs st0"
    and "PublishArena_Execute (env_scan env) consume now cmd seen (st_passes st, st_table st)
           = (Inr \<lparr>res_Arena = arena, res_Replayed = False\<rparr>, p1, db1)"
    and "st2 = arenas_run env rqs2 (st\<lparr>st_passes := p1, st_table := db1\<rparr>)"
    and "env_scan env (pub_ArenaID cmd') = env_scan env (pub_ArenaID cmd)"
  shows "snd (PublishArena_Execute (env_scan env) consume' now' cmd' seen' (st_passes st2, st_table st2)) = (st_passes st2, st_table st2)"
proof -
  have ok: "arenas_ok (st_table st)" unfolding assms(2) by (rule run_from_empty [OF assms(1)])
  obtain new a c v slug where n: "env_scan env (pub_ArenaID cmd) = Some a"
    "wrote (publish_hit a c v) (publish_change slug now) (st_table st) new db1"
    using publish_cases [OF ok assms(3)] by auto
  then have new: "new \<in> set (arena_rows db1)" "ar_ID new = a" "ar_Status new \<noteq> ''draft''" and ok1: "arenas_ok db1"
    by (auto simp: wrote_def)
  have "arenas_ok (st_table st2) \<and> arenas_extends (appealed rqs2) db1 (st_table st2)"
    using arenas_run_ok [of "st\<lparr>st_passes := p1, st_table := db1\<rparr>" env rqs2] ok1 unfolding assms(4) by simp
  then obtain r where ok2: "arenas_ok (st_table st2)" and r: "r \<in> set (arena_rows (st_table st2))" "moved_on (appealed rqs2) new r"
    using new(1,3) unfolding arenas_extends_def by blast
  have id: "ar_ID r = a" "ar_Status r \<noteq> ''draft''"
    using r(2) new(2) moved_on_not_draft [OF r(2) new(3)] by (auto simp: moved_on_def frozen_def)
  have no: "\<not> wrote (publish_hit a c' v') change (st_table st2) new' db'" for c' v' change new' db'
  proof
    assume "wrote (publish_hit a c' v') change (st_table st2) new' db'"
    then obtain old where "old \<in> set (arena_rows (st_table st2))" "ar_ID old = a" "ar_Status old = ''draft''"
      unfolding wrote_def by blast
    then show False using r(1) id ok2 by (auto simp: arenas_ok_def distinct_map inj_on_def)
  qed
  obtain res p' db' where call: "PublishArena_Execute (env_scan env) consume' now' cmd' seen' (st_passes st2, st_table st2) = (res, p', db')"
    by (metis prod_cases3)
  from publish_cases [OF ok2 call] show ?thesis using no n(1) assms(5) by (auto simp: call)
qed

section \<open>Addresses\<close>

lemma find_unique_row:
  assumes "distinct (map ar_ID rows)" "r \<in> set rows" "P r" "\<And>q. P q \<Longrightarrow> ar_ID q = ar_ID r"
  shows "find P rows = Some r"
  using assms(1,2)
proof (induction rows)
  case (Cons x rows)
  show ?case
  proof (cases "x = r")
    case False
    then have "r \<in> set rows" "ar_ID x \<noteq> ar_ID r" using Cons.prems by auto
    then show ?thesis using Cons.IH Cons.prems(1) assms(4) [of x] by auto
  qed (simp add: assms(3))
qed simp

lemma hex_digit_alnum: "d < 16 \<Longrightarrow> lower_alnum (hex_digit d)"
  by (simp add: lower_alnum_def byte_hex_digit)

lemma uuid_chars: "c \<in> set (uuidToString (Some u)) \<Longrightarrow> c = CHR ''-'' \<or> lower_alnum c"
proof -
  assume "c \<in> set (uuidToString (Some u))"
  then have "c = CHR ''-'' \<or> c \<in> set (filter (\<lambda>c. c \<noteq> CHR ''-'') (uuidToString (Some u)))" by simp
  then show ?thesis unfolding filter_uuid using hex_digits_set hex_digit_alnum by blast
qed

lemma ascii_lower_id: "(\<And>c. c \<in> set s \<Longrightarrow> c = CHR ''-'' \<or> lower_alnum c) \<Longrightarrow> ascii_lower s = s"
proof -
  assume h: "\<And>c. c \<in> set s \<Longrightarrow> c = CHR ''-'' \<or> lower_alnum c"
  have "\<not> (65 \<le> byte c \<and> byte c \<le> 90)" if "c \<in> set s" for c
    using h [OF that] by (auto simp: lower_alnum_def)
  then show ?thesis unfolding ascii_lower_def by (intro map_idI) (auto simp only: if_False)
qed

lemma ascii_lower_uuid: "ascii_lower (uuidToString (Some u)) = uuidToString (Some u)"
  by (rule ascii_lower_id) (rule uuid_chars)

lemma take_uuid: "take 8 (uuidToString (Some u)) = take 8 (hex_digits 32 (unat u))"
  by (simp add: uuidToString_def Let_def)

lemma shortArenaID_uuid: "shortArenaID (uuidToString (Some u)) = take 8 (uuidToString (Some u))"
  unfolding shortArenaID_def Let_def ascii_lower_uuid filter_uuid take_uuid by simp

lemma trim_hyphens_prefix: "\<exists>v. s = trim_hyphens s @ v"
proof -
  have "rev s = takeWhile (\<lambda>c. c = CHR ''-'') (rev s) @ dropWhile (\<lambda>c. c = CHR ''-'') (rev s)" by simp
  then have "s = trim_hyphens s @ rev (takeWhile (\<lambda>c. c = CHR ''-'') (rev s))"
    unfolding trim_hyphens_def by (metis rev_append rev_rev_ident)
  then show ?thesis by blast
qed

lemma trim_hyphens_last: "trim_hyphens s = [] \<or> last (trim_hyphens s) \<noteq> CHR ''-''"
  unfolding trim_hyphens_def using hd_dropWhile [of "\<lambda>c. c = CHR ''-''" "rev s"] by (auto simp: last_rev)

lemma clean_trimmed: "clean s \<Longrightarrow> clean (trim_hyphens (take n s))"
proof -
  assume "clean s"
  moreover obtain v where v: "take n s = trim_hyphens (take n s) @ v" using trim_hyphens_prefix by blast
  have "s = trim_hyphens (take n s) @ (v @ drop n s)" using v by (metis append_assoc append_take_drop_id)
  ultimately show ?thesis using clean_prefix trim_hyphens_last by metis
qed

lemma slug_format_clean: "clean s \<Longrightarrow> 3 \<le> length s \<Longrightarrow> length s \<le> 80 \<Longrightarrow> slug_format s"
  by (cases "s = []") (auto simp: clean_def slug_format_def list_all_iff)

lemma DeriveSlug_row:
  "\<exists>base. DeriveSlug (arena_of_row r) = Inr (Slug (base @ ''-'' @ take 8 (uuidToString (Some (ar_ID r)))))
    \<and> slug_format (base @ ''-'' @ take 8 (uuidToString (Some (ar_ID r)))) \<and> 3 \<le> length base"
proof -
  let ?b0 = "Slugify (ar_Statement r)"
  define s where "s = take 8 (uuidToString (Some (ar_ID r)))"
  define b1 where "b1 = (if length ?b0 > 71 then trim_hyphens (take 71 ?b0) else ?b0)"
  define base where "base = (if length b1 < 3 then ''arena'' else b1)"
  have len: "length s = 8" by (simp add: s_def take_uuid)
  have "clean b1" by (simp add: b1_def Slugify_clean clean_trimmed)
  moreover have "clean ''arena''" by (simp add: clean_def hyphens_apart_def lower_alnum_def)
  ultimately have base: "clean base" "3 \<le> length base" by (auto simp: base_def)
  obtain v where v: "take 71 ?b0 = trim_hyphens (take 71 ?b0) @ v" using trim_hyphens_prefix by blast
  have "length (trim_hyphens (take 71 ?b0)) \<le> length (take 71 ?b0)" by (subst (2) v) simp
  then have short: "length base \<le> 71" by (simp add: base_def b1_def)
  obtain h t where ht: "s = h # t" using len by (cases s) auto
  have "lower_alnum c" if "c \<in> set s" for c
    using that hex_digits_set in_set_takeD hex_digit_alnum unfolding s_def take_uuid by metis
  then have h: "lower_alnum h" "list_all lower_alnum t" by (simp_all add: ht list_all_iff)
  have "base \<noteq> []" using base(2) by auto
  then have "clean ((base @ [CHR ''-'', h]) @ t)" using clean_hyphen [OF base(1) _ h(1)] clean_append h(2) by blast
  then have c: "clean (base @ ''-'' @ s)" by (simp add: ht)
  have l: "3 \<le> length (base @ ''-'' @ s)" "length (base @ ''-'' @ s) \<le> 80" using base(2) short len by simp_all
  have parts: "shortArenaID (arena_id (arena_of_row r)) = s" "statement_String (arena_statement (arena_of_row r)) = ar_Statement r"
    by (simp_all add: arena_of_row_def shortArenaID_uuid s_def)
  have "nat (if int SlugMaxLength - int (length s) - 1 < int SlugMinLength then int SlugMinLength
      else int SlugMaxLength - int (length s) - 1) = 71"
    by (simp add: len SlugMaxLength_def SlugMinLength_def)
  then have "DeriveSlug (arena_of_row r) = ParseSlug (base @ ''-'' @ s)"
    unfolding DeriveSlug_def Let_def parts base_def b1_def by (simp add: SlugMinLength_def)
  then show ?thesis using ParseSlug_clean [OF c] slug_format_clean [OF c l] l base(2)
    unfolding s_def [symmetric] by (intro exI [of _ base]) (simp add: SlugMinLength_def SlugMaxLength_def)
qed

text \<open>
  Publication never fails for want of an address: every stored Arena, whatever its statement, has
  a derived address, which is a text of at least three characters (the statement in lower-case ASCII,
  or \<open>arena\<close>), a hyphen and the first eight hexadecimal digits of the identifier, and satisfies the
  format check of the table.
\<close>
theorem derived_address:
  assumes "repo_GetArenaByID scan i db = Inr arena" "arenas_ok db"
  shows "\<exists>base. DeriveSlug arena = Inr (Slug (base @ ''-'' @ take 8 (arena_id arena)))
    \<and> slug_format (base @ ''-'' @ take 8 (arena_id arena)) \<and> 3 \<le> length base"
proof -
  obtain r where r: "r \<in> set (arena_rows db)" "mapArenaRow r = Inr arena"
    using assms(1) by (auto simp: repo_GetArenaByID_def sql_GetArenaByID_def find_arena_def dest: find_key_Some
        split: option.splits sum.splits if_splits)
  then have "arena = arena_of_row r" using mapArenaRow_ok [of r] assms(2) by (auto simp: arenas_ok_def list_all_iff)
  moreover have "arena_id (arena_of_row r) = uuidToString (Some (ar_ID r))" by (simp add: arena_of_row_def)
  ultimately show ?thesis using DeriveSlug_row [of r] by simp
qed

text \<open>The publication of a draft that nobody touched meanwhile comes down to its update.\<close>

lemma update_draft_published:
  assumes "arenas_ok db" "r \<in> set (arena_rows db)" "ar_Status r = ''draft''" "DeriveSlug (arena_of_row r) = Inr slug"
    and "ar_Version r < MaxInt32"
  shows "update_arena (publish_hit (ar_ID r) (ar_CreatorID r) (ar_Version r)) (publish_change slug now) db =
    (let new = (publish_change slug now r)\<lparr>ar_Version := ar_Version r + 1\<rparr> in
     if \<exists>q \<in> set (arena_rows db). ar_ID q \<noteq> ar_ID r \<and> ar_Slug q = Some (slug_String slug) then Inl UniqueViolation
     else if ar_Category r \<notin> set (category_slugs db) then Inl ForeignKeyViolation
     else Inr (new, db\<lparr>arena_rows := map (\<lambda>q. if ar_ID q = ar_ID r then new else q) (arena_rows db)\<rparr>))"
proof -
  have rows: "row_ok r" "distinct (map ar_ID (arena_rows db))" using assms(1,2) by (simp_all add: arenas_ok_def list_all_iff)
  have shape: "clean (slug_String slug)" "3 \<le> length (slug_String slug)" "length (slug_String slug) \<le> 80"
    using ParseSlug_shape DeriveSlug_parsed [OF assms(4)] by blast+
  let ?new = "(publish_change slug now r)\<lparr>ar_Version := ar_Version r + 1\<rparr>"
  have find: "find (publish_hit (ar_ID r) (ar_CreatorID r) (ar_Version r)) (arena_rows db) = Some r"
    using find_unique_row [OF rows(2) assms(2), of "publish_hit (ar_ID r) (ar_CreatorID r) (ar_Version r)"] assms(3) by simp
  have "in_int32 (ar_Version ?new)" using assms(5) rows(1) by (simp add: row_ok_def int32_defs)
  moreover have "pg_text (slug_String slug)" by (rule printable_pg_text [OF clean_printable [OF shape(1)]])
  then have "texts_ok ?new" using rows(1) by (simp add: row_ok_def texts_ok_def)
  moreover have "arenas_checks ?new"
    using rows(1) assms(3) slug_format_clean [OF shape] by (simp add: row_ok_def arenas_checks_def split: option.splits)
  moreover have "protect_published r ?new" using assms(3) by (simp add: protect_published_def)
  ultimately show ?thesis by (simp add: update_arena_def find Let_def)
qed

lemma publish_attempt:
  assumes "arenas_ok db" "r \<in> set (arena_rows db)" "ar_Status r = ''draft''" "DeriveSlug (arena_of_row r) = Inr slug"
    and "ar_Version r < MaxInt32" "scan (pub_ArenaID cmd) = Some (ar_ID r)" "scan (pub_AccountID cmd) = Some (ar_CreatorID r)"
    and "pub_ArenaID cmd \<noteq> []" "pub_AccountID cmd \<noteq> []"
    and "consume \<lparr>pass_AccountID = pub_AccountID cmd, pass_ArenaID = pub_ArenaID cmd\<rparr> p = (Inr pass, p')"
  shows "PublishArena_Execute scan consume now cmd db (p, db) =
    (case update_arena (publish_hit (ar_ID r) (ar_CreatorID r) (ar_Version r)) (publish_change slug now) db of
       Inl e \<Rightarrow> (Inl (if e = UniqueViolation then ErrSlugConflict
                 else if e = NoRows then diagnosePublishMiss (ar_ID r) (ar_CreatorID r) (ar_Version r) db else ArenaDatabase e), p, db)
     | Inr (row, db') \<Rightarrow> (Inr \<lparr>res_Arena = arena_of_row row, res_Replayed = False\<rparr>, p', db'))"
proof -
  have rows: "row_ok r" "distinct (map ar_ID (arena_rows db))" using assms(1,2) by (simp_all add: arenas_ok_def list_all_iff)
  have get: "repo_GetArenaForCreator scan (pub_ArenaID cmd) (pub_AccountID cmd) db = Inr (arena_of_row r)"
    using find_unique_row [OF rows(2) assms(2), of "\<lambda>q. ar_ID q = ar_ID r \<and> ar_CreatorID q = ar_CreatorID r"] mapArenaRow_ok [OF rows(1)]
    by (simp add: repo_GetArenaForCreator_def arenaScope_def assms(6,7) sql_GetArenaForCreator_def find_arena_def)
  have "slug_String slug \<noteq> []" using ParseSlug_shape DeriveSlug_parsed [OF assms(4)] by fastforce
  then have "Publish (arena_of_row r) slug now = Inr (bump ((arena_of_row r)\<lparr>arena_status := ArenaStatusPublished, arena_slug := slug,
      arena_publishedAt := Some now\<rparr>))"
    using assms(3) by (simp add: Publish_def arena_of_row_def vocab Slug_IsZero_def)
  then have body: "publish_body scan consume now (pub_AccountID cmd) (pub_ArenaID cmd) db (p, db) =
      (case repo_PublishArenaDraft scan (pub_ArenaID cmd) (pub_AccountID cmd) slug now (ar_Version r) db of
         (Inl e, db') \<Rightarrow> (Inl e, p', db')
       | (Inr published, db') \<Rightarrow> (Inr \<lparr>res_Arena = published, res_Replayed = False\<rparr>, p', db'))"
    using get assms(3,4,10) by (simp add: publish_body_def bump_def) (simp add: arena_of_row_def vocab)
  have repo: "repo_PublishArenaDraft scan (pub_ArenaID cmd) (pub_AccountID cmd) slug now (ar_Version r) db =
      (case update_arena (publish_hit (ar_ID r) (ar_CreatorID r) (ar_Version r)) (publish_change slug now) db of
         Inl e \<Rightarrow> (Inl (if e = UniqueViolation then ErrSlugConflict
                   else if e = NoRows then diagnosePublishMiss (ar_ID r) (ar_CreatorID r) (ar_Version r) db else ArenaDatabase e), db)
       | Inr (row, db') \<Rightarrow> (mapArenaRow row, db'))"
    by (simp add: repo_PublishArenaDraft_def arenaScope_def assms(6,7) sql_PublishArenaDraft_def)
  have map: "mapArenaRow row = Inr (arena_of_row row)"
    if "update_arena (publish_hit (ar_ID r) (ar_CreatorID r) (ar_Version r)) (publish_change slug now) db = Inr (row, db')" for row db'
    by (rule wrote_ok(3) [OF wroteI [OF assms(1) that publish_writes [OF DeriveSlug_parsed [OF assms(4)]]]])
  show ?thesis using assms(8,9)
    by (simp add: PublishArena_Execute_def WithinTransaction_def CreatorID_IsZero_def ArenaID_IsZero_def body repo map split: sum.splits)
qed

text \<open>
  C40. The identifier does not keep addresses apart: the suffix is the first eight hexadecimal digits of
  a time-ordered identifier, which identifiers of one minute share. Once an Arena is published under
  its derived address, a draft with the same statement whose identifier begins alike cannot be
  published: the publication fails with a conflict of addresses although its pass was granted.
\<close>
theorem address_collision:
  assumes "arenas_ok db" "r1 \<in> set (arena_rows db)" "DeriveSlug (arena_of_row r1) = Inr slug"
    and "ar_Slug r1 = Some (slug_String slug)" "r2 \<in> set (arena_rows db)" "ar_Status r2 = ''draft''"
    and "ar_Statement r2 = ar_Statement r1" "take 8 (uuidToString (Some (ar_ID r2))) = take 8 (uuidToString (Some (ar_ID r1)))"
    and "ar_Version r2 < MaxInt32" "scan (pub_ArenaID cmd) = Some (ar_ID r2)" "scan (pub_AccountID cmd) = Some (ar_CreatorID r2)"
    and "pub_ArenaID cmd \<noteq> []" "pub_AccountID cmd \<noteq> []"
    and "consume \<lparr>pass_AccountID = pub_AccountID cmd, pass_ArenaID = pub_ArenaID cmd\<rparr> p = (Inr pass, p')"
  shows "PublishArena_Execute scan consume now cmd db (p, db) = (Inl ErrSlugConflict, p, db)"
proof -
  have rows: "row_ok r1" "row_ok r2" "distinct (map ar_ID (arena_rows db))"
    using assms(1,2,5) by (simp_all add: arenas_ok_def list_all_iff)
  have slug: "DeriveSlug (arena_of_row r2) = Inr slug"
    using assms(3,7,8) by (simp add: DeriveSlug_def arena_of_row_def shortArenaID_uuid)
  have "ar_ID r1 \<noteq> ar_ID r2"
  proof
    assume "ar_ID r1 = ar_ID r2"
    then have "r1 = r2" using rows(3) assms(2,5) by (simp add: distinct_map inj_on_def)
    then show False using assms(4,6) row_ok_parts(6) [OF rows(2)] by simp
  qed
  then have "\<exists>r \<in> set (arena_rows db). ar_ID r \<noteq> ar_ID r2 \<and> ar_Slug r = Some (slug_String slug)" using assms(2,4) by auto
  then show ?thesis
    using publish_attempt [where scan = scan and consume = consume and now = now, OF assms(1,5,6) slug assms(9-14)]
    by (simp add: update_draft_published [OF assms(1,5,6) slug assms(9)])
qed

section \<open>The feed\<close>

text \<open>
  C39. The feed is complete and free of duplicates: a client that starts without a cursor and follows
  the cursors it is given, with any filter and any page size, receives exactly the public Arenas that
  match the filter (the condition of the statement of the feed), each once, newest first; no draft and no removed Arena is among them.
\<close>
theorem feed_walk_complete:
  assumes "arena_rows (st_table st0) = []" "st = arenas_run env rqs st0" "reads_instants parse_time (st_table st)"
    and "reads_canonical scan" "buildFeedFilter cmd = Inr f" "TrimSpace cursor = []"
    and "length (arena_rows (st_table st)) < fuel"
  shows "\<exists>rows. cursor_walk fuel (feed_fetch scan mac parse_time cmd (st_table st)) cursor = Inr (map arena_of_row rows)
    \<and> mset rows = mset (feed_table f (st_table st))
    \<and> sorted_wrt (\<lambda>r q. published_key q < published_key r) rows
    \<and> (\<forall>r \<in> set rows. ar_Status r \<in> {''published'', ''closed'', ''restricted''})"
proof -
  let ?rows = "feed.newest_first f (st_table st)"
  have "arenas_ok (st_table st)" unfolding assms(2) by (rule run_from_empty [OF assms(1)])
  then have session: "feed_session scan parse_time cmd f (st_table st)" using assms(3-5) by (simp add: feed_session_def)
  have "length (feed_table f (st_table st)) < fuel"
    using assms(7) length_filter_le [of _ "arena_rows (st_table st)"] unfolding feed_table_def feed_rows_def by (meson le_less_trans)
  moreover have "feed_opens scan mac parse_time cursor None"
    using assms(6) by (simp add: feed_opens_def FeedCursor_Decode_def cursor_empty)
  ultimately have "cursor_walk fuel (feed_fetch scan mac parse_time cmd (st_table st)) cursor = Inr (map arena_of_row ?rows)"
    using feed.cursor_walk_complete [OF session, of mac cursor fuel] by blast
  moreover have "mset ?rows = mset (feed_table f (st_table st))" by (simp add: feed.newest_first_def)
  moreover have "sorted_wrt (\<lambda>r q. published_key q < published_key r) ?rows" by (rule feed.newest_first_strict [OF session])
  moreover have "\<forall>r \<in> set ?rows. ar_Status r \<in> {''published'', ''closed'', ''restricted''}"
    unfolding feed.set_newest_first by (auto simp: feed_table_def feed_rows_def public_statuses_def)
  ultimately show ?thesis by blast
qed

end
