(* ===== verification/ArenasSamples.thy ===== *)
theory ArenasSamples
  imports ArenasProperties
begin

text \<open>A small debate site on which the hypotheses of the properties of the arenas module hold.\<close>

section \<open>Printable texts\<close>

lemma printable_bytes: "list_all printable s \<Longrightarrow> CHR 0x0D \<notin> set s"
  by (auto simp: list_all_iff printable_def)

lemma normalize_printable: "list_all printable s \<Longrightarrow> normalizeText s = s"
  using printable_bytes [of s] by (simp add: normalizeText_def crlf_to_lf_id cr_to_lf_id)

lemma runes_printable: "list_all printable s \<Longrightarrow> runes s = map byte s"
  by (induction s) (simp_all add: printable_def runes_ascii_Cons)

lemma printable_supported: "list_all printable s \<Longrightarrow> \<not> containsUnsupportedRunes s"
  by (auto simp: containsUnsupportedRunes_def runes_printable list_all_iff list_ex_iff printable_def isBidiOverride_def is_control_def)

lemma printable_utf8: "list_all printable s \<Longrightarrow> valid_utf8 s"
  using printable_pg_text by (simp add: pg_text_def)

section \<open>A draft and its publication\<close>

definition statement :: string where "statement = ''Pineapple-pizza''"

lemma statement: "list_all printable statement" "length statement = 15"
  by (simp_all add: statement_def printable_def)

lemma science: "list_all printable ''science''" "ParseCategory ''science'' = Inr (Category ''science'')"
proof -
  show p: "list_all printable ''science''" by (simp add: printable_def)
  then show "ParseCategory ''science'' = Inr (Category ''science'')"
    by (simp add: ParseCategory_def CategoryMinLength_def CategoryMaxLength_def lower_alnum_def)
qed

definition draft :: "uuid \<Rightarrow> AppArena" where
  "draft i = \<lparr>ar_ID = i, ar_CreatorID = 7, ar_Slug = None, ar_Statement = statement, ar_Context = None, ar_Category = ''science'',
     ar_Language = ''en-US'', ar_Status = ''draft'', ar_Version = 1, ar_CreatedAt = 5000, ar_PublishedAt = None, ar_ClosesAt = None\<rparr>"

definition site :: "AppArena list \<Rightarrow> arenas_db" where
  "site rows = \<lparr>arena_rows = rows, arena_accounts = [7], category_slugs = [''science''], arena_uuid_gen = of_nat,
     arena_uuid_next = Suc (length rows)\<rparr>"

lemma draft_checks: "texts_ok (draft i)" "arenas_checks (draft i)"
proof -
  have "pg_text statement" "pg_text ''science''" "pg_text ''en-US''"
    using printable_pg_text statement(1) science(1) by (auto simp: printable_def)
  then show "texts_ok (draft i)" by (simp add: texts_ok_def draft_def)
  have "\<not> sql_blank statement" using printable_not_blank [OF statement(1)] by (simp add: statement_def)
  then show "arenas_checks (draft i)" using statement by (simp add: arenas_checks_def draft_def runes_printable)
qed

lemma draft_ok: "row_ok (draft i)"
  using draft_checks [of i] statement science(2)
  by (simp add: row_ok_def text_ok_def normalize_printable printable_supported) (simp add: draft_def int32_defs normalize_printable
      printable_supported statement_def)

definition create_cmd :: CreateArenaDraftCommand where
  "create_cmd = \<lparr>cad_AccountID = uuidToString (Some 7), cad_Statement = statement, cad_Context = [], cad_Category = ''science'',
     cad_Language = ''en-US''\<rparr>"

lemma parse_sample: "parse_draft DefaultStatementPolicy statement [] ''science'' ''en-US'' =
    Inr (Statement statement, Context [], Category ''science'', Language ''en-US'')"
proof -
  have "ParseStatement statement DefaultStatementPolicy = Inr (Statement statement)"
    using statement by (auto simp: ParseStatement_def StatementPolicy_IsValid_def DefaultStatementPolicy_def normalize_printable
        printable_supported runes_printable printable_utf8)
  moreover have "ParseContext [] DefaultStatementPolicy = Inr (Context [])"
    by (simp add: ParseContext_def StatementPolicy_IsValid_def DefaultStatementPolicy_def normalize_printable)
  ultimately show ?thesis using science(2) en_US by (simp add: parse_draft_def)
qed

lemma scan_sample: "scan_canonical (uuidToString (Some u)) = Some u"
  using scan_canonical by (simp only: reads_canonical_def)

lemma create_sample:
  "snd (CreateArenaDraft_Execute scan_canonical DefaultStatementPolicy 5000 create_cmd (site [])) = site [draft 1]"
proof -
  have "sql_CreateArena 7 statement None ''science'' ''en-US'' 5000 (site []) = Inr (draft 1, site [draft 1])"
    using draft_checks [of 1] by (simp add: sql_CreateArena_def site_def) (simp add: draft_def timestamptz_def Let_def)
  then show ?thesis
    using parse_sample by (simp add: CreateArenaDraft_Execute_def create_cmd_def CreatorID_IsZero_def repo_CreateArena_def scan_sample
        textFromContext_def Context_IsZero_def)
qed

definition sample_consume :: "PassConsumption \<Rightarrow> nat \<Rightarrow> (arenas_app_error + ConsumedPass) \<times> nat" where
  "sample_consume rq n =
     (case n of 0 \<Rightarrow> (Inl ErrNoPassAvailable, 0)
      | Suc m \<Rightarrow> (Inr \<lparr>consumed_LotID = ''lot'', consumed_Remaining = int m, consumed_Replayed = False\<rparr>, m))"

definition sample_env :: "nat arenas_env" where
  "sample_env = \<lparr>env_scan = scan_canonical, env_policy = DefaultStatementPolicy, env_consume = sample_consume,
     env_authorized = (\<lambda>_. True), env_audit = (\<lambda>_. True)\<rparr>"

definition start :: "nat arenas_state" where
  "start = \<lparr>st_passes = 1, st_table = site [], st_events = []\<rparr>"

lemma start_empty: "arena_rows (st_table start) = []"
  by (simp add: start_def site_def)

lemma drafted: "arenas_run sample_env [CreateDraftRq 5000 create_cmd] start = \<lparr>st_passes = 1, st_table = site [draft 1], st_events = []\<rparr>"
  using create_sample by (simp add: arenas_apply_def sample_env_def start_def)

lemma site_ok: "distinct ids \<Longrightarrow> arenas_ok (site (map draft ids))"
proof -
  assume d: "distinct ids"
  have "ar_ID (draft i) = i" "ar_Slug (draft i) = None" for i by (simp_all add: draft_def)
  then show ?thesis using d draft_ok by (simp add: arenas_ok_def site_def list_all_iff slugs_apart_def comp_def)
qed

definition publish_cmd :: "uuid \<Rightarrow> PublishArenaCommand" where
  "publish_cmd i = \<lparr>pub_AccountID = uuidToString (Some 7), pub_ArenaID = uuidToString (Some i)\<rparr>"

definition the_slug :: "uuid \<Rightarrow> Slug" where
  "the_slug i = (case DeriveSlug (arena_of_row (draft i)) of Inl _ \<Rightarrow> Slug [] | Inr s \<Rightarrow> s)"

lemma the_slug: "DeriveSlug (arena_of_row (draft i)) = Inr (the_slug i)"
  using DeriveSlug_row [of "draft i"] by (auto simp: the_slug_def)

definition published :: "uuid \<Rightarrow> AppArena" where
  "published i = (draft i)\<lparr>ar_Status := ''published'', ar_Slug := Some (slug_String (the_slug i)), ar_PublishedAt := Some 6000, ar_Version := 2\<rparr>"

lemma publish_sample:
  "PublishArena_Execute scan_canonical sample_consume 6000 (publish_cmd 1) (site [draft 1]) (Suc n, site [draft 1]) =
    (Inr \<lparr>res_Arena = arena_of_row (published 1), res_Replayed = False\<rparr>, n, (site [draft 1])\<lparr>arena_rows := [published 1]\<rparr>)"
proof -
  have ok: "arenas_ok (site [draft 1])" using site_ok [of "[1]"] by simp
  have m: "draft 1 \<in> set (arena_rows (site [draft 1]))" "ar_Status (draft 1) = ''draft''" "ar_Version (draft 1) < MaxInt32"
    "ar_ID (draft 1) = 1" "ar_CreatorID (draft 1) = 7" "ar_Version (draft 1) = 1" "ar_Category (draft 1) = ''science''"
    by (simp_all add: site_def draft_def MaxInt32_def)
  have u: "update_arena (publish_hit 1 7 1) (publish_change (the_slug 1) 6000) (site [draft 1])
      = Inr (published 1, (site [draft 1])\<lparr>arena_rows := [published 1]\<rparr>)"
    using update_draft_published [OF ok m(1,2) the_slug m(3), of 6000] m(4-7)
    by (simp add: Let_def) (simp add: site_def published_def timestamptz_def)
  show ?thesis
    using publish_attempt [where scan = scan_canonical and consume = sample_consume and cmd = "publish_cmd 1" and p = "Suc n" and p' = n
        and now = 6000, OF ok m(1,2) the_slug m(3)] m(4-6) u
    by (simp add: publish_cmd_def scan_sample sample_consume_def)
qed

definition live :: "nat arenas_state" where
  "live = \<lparr>st_passes = 0, st_table = (site [draft 1])\<lparr>arena_rows := [published 1]\<rparr>, st_events = []\<rparr>"

abbreviation "drafting \<equiv> [CreateDraftRq 5000 create_cmd]"
abbreviation "publishing \<equiv> [CreateDraftRq 5000 create_cmd, PublishRq 6000 (publish_cmd 1) (site [draft 1])]"

lemma published_run: "arenas_run sample_env publishing start = live"
  using drafted publish_sample [of 0]
  by (simp add: arenas_apply_def sample_env_def live_def)

text \<open>The published Arena under a sanction, and under the appeal that reverses it.\<close>

lemma reopened:
  "arena_rows (st_table (arenas_run sample_env [SanctionRq 1] live)) = [(published 1)\<lparr>ar_Status := ''closed'', ar_Version := 3\<rparr>]"
  "arena_rows (st_table (arenas_run sample_env [SanctionRq 1, AppealRq 1] live)) = [(published 1)\<lparr>ar_Version := 4\<rparr>]"
proof -
  have fields: "ar_ID (published 1) = 1" "ar_Status (published 1) = ''published''" "ar_Version (published 1) = 2"
    "ar_Category (published 1) = ''science''" "ar_ClosesAt (published 1) = None" by (simp_all add: published_def draft_def)
  have "arenas_ok (st_table live)" using run_from_empty [OF start_empty] published_run by metis
  then have row: "row_ok (published 1)" by (simp add: live_def arenas_ok_def)
  define shut where "shut = (published 1)\<lparr>ar_Status := ''closed'', ar_Version := 3\<rparr>"
  have checks: "arenas_checks shut" "texts_ok shut" "arenas_checks ((published 1)\<lparr>ar_Version := 4\<rparr>)" "texts_ok ((published 1)\<lparr>ar_Version := 4\<rparr>)"
    "protect_published (published 1) shut" "protect_published shut ((published 1)\<lparr>ar_Version := 4\<rparr>)"
    using row fields by (auto simp: shut_def row_ok_def arenas_checks_def texts_ok_def protect_published_def)
  have a: "st_table (arenas_apply sample_env (SanctionRq 1) live) = (site [draft 1])\<lparr>arena_rows := [shut]\<rparr>"
    using checks fields
    by (simp add: arenas_apply_def live_def sql_CloseArenaForModeration_def update_arena_def Let_def int32_defs shut_def site_def)
  show "arena_rows (st_table (arenas_run sample_env [SanctionRq 1] live)) = [(published 1)\<lparr>ar_Status := ''closed'', ar_Version := 3\<rparr>]"
    using a by (simp add: shut_def)
  have reset: "(published 1)\<lparr>ar_Status := ''published'', ar_Version := 4\<rparr> = (published 1)\<lparr>ar_Version := 4\<rparr>"
    by (simp add: published_def)
  show "arena_rows (st_table (arenas_run sample_env [SanctionRq 1, AppealRq 1] live)) = [(published 1)\<lparr>ar_Version := 4\<rparr>]"
    using a checks fields
    by (simp add: reset arenas_apply_def [of _ "AppealRq 1"] sql_ReopenArenaForAppeal_def update_arena_def Let_def int32_defs shut_def site_def)
qed

section \<open>Witnesses\<close>

theorem arenas_consistent_witness:
  "mapArenaRow (published 1) = Inr (arena_of_row (published 1)) \<and> ar_Slug (published 1) \<noteq> None"
  using arenas_consistent [OF start_empty published_run [symmetric]] by (simp add: live_def published_def)

theorem published_immutable_witness:
  "(\<exists>r' \<in> set (arena_rows (st_table (arenas_run sample_env [SanctionRq 1, AppealRq 1] live))). frozen r' = frozen (published 1))
   \<and> arena_rows (st_table (arenas_run sample_env [SanctionRq 1] live)) = [(published 1)\<lparr>ar_Status := ''closed'', ar_Version := 3\<rparr>]
   \<and> arena_rows (st_table (arenas_run sample_env [SanctionRq 1, AppealRq 1] live)) = [(published 1)\<lparr>ar_Version := 4\<rparr>]"
proof -
  have "published 1 \<in> set (arena_rows (st_table live))" "ar_Status (published 1) \<noteq> ''draft''" by (simp_all add: live_def published_def)
  from published_immutable [OF start_empty published_run [symmetric] this, of sample_env "[SanctionRq 1, AppealRq 1]"]
  show ?thesis using reopened by blast
qed

theorem publish_exact_witness:
  "\<exists>db'. PublishArena_Execute scan_canonical sample_consume 6000 (publish_cmd 1) (site [draft 1]) (1, site [draft 1])
      = (Inr \<lparr>res_Arena = arena_of_row (published 1), res_Replayed = False\<rparr>, 0, db')
    \<and> sample_consume \<lparr>pass_AccountID = uuidToString (Some 7), pass_ArenaID = uuidToString (Some 1)\<rparr> 1
      = (Inr \<lparr>consumed_LotID = ''lot'', consumed_Remaining = 0, consumed_Replayed = False\<rparr>, 0)"
proof -
  from publish_sample [of 0] have call: "PublishArena_Execute scan_canonical sample_consume 6000 (publish_cmd 1) (site [draft 1])
      (1, st_table (arenas_run sample_env drafting start)) =
    (Inr \<lparr>res_Arena = arena_of_row (published 1), res_Replayed = False\<rparr>, 0, (site [draft 1])\<lparr>arena_rows := [published 1]\<rparr>)"
    by (simp add: drafted del: arenas_run_simps)
  from publish_exact [OF start_empty refl call] call show ?thesis
    by (auto simp: publish_cmd_def sample_consume_def drafted Let_def simp del: arenas_run_simps)
qed

theorem publish_once_witness:
  "snd (PublishArena_Execute scan_canonical sample_consume 9000 (publish_cmd 1) (site [draft 1]) (0, st_table live)) = (0, st_table live)"
proof -
  have env: "env_scan sample_env = scan_canonical" by (simp add: sample_env_def)
  have first: "PublishArena_Execute (env_scan sample_env) sample_consume 6000 (publish_cmd 1) (site [draft 1])
      (st_passes (arenas_run sample_env drafting start), st_table (arenas_run sample_env drafting start))
    = (Inr \<lparr>res_Arena = arena_of_row (published 1), res_Replayed = False\<rparr>, 0, (site [draft 1])\<lparr>arena_rows := [published 1]\<rparr>)"
    using publish_sample [of 0] by (simp add: drafted env del: arenas_run_simps)
  have later: "live = arenas_run sample_env [] ((arenas_run sample_env drafting start)
      \<lparr>st_passes := 0, st_table := (site [draft 1])\<lparr>arena_rows := [published 1]\<rparr>\<rparr>)"
    by (simp add: drafted live_def del: arenas_run_simps(2,3))
  show ?thesis
    using publish_once [OF start_empty refl first later, of "publish_cmd 1" sample_consume 9000 "site [draft 1]"] env
    by (simp add: live_def)
qed

theorem derived_address_witness:
  "\<exists>base. DeriveSlug (arena_of_row (draft 1)) = Inr (Slug (base @ ''-'' @ take 8 (arena_id (arena_of_row (draft 1)))))
    \<and> slug_format (base @ ''-'' @ take 8 (arena_id (arena_of_row (draft 1)))) \<and> 3 \<le> length base"
proof (rule derived_address)
  show "arenas_ok (site [draft 1])" using site_ok [of "[1]"] by simp
  have "ar_ID (draft 1) = 1" by (simp add: draft_def)
  then show "repo_GetArenaByID scan_canonical (uuidToString (Some 1)) (site [draft 1]) = Inr (arena_of_row (draft 1))"
    using mapArenaRow_ok [OF draft_ok [of 1]]
    by (simp add: repo_GetArenaByID_def sql_GetArenaByID_def find_arena_def scan_sample) (simp add: site_def)
qed

text \<open>Two drafts with one statement, whose identifiers begin with the same eight digits.\<close>

definition pair :: arenas_db where
  "pair = (site [draft 1, draft 2])\<lparr>arena_rows := [published 1, draft 2]\<rparr>"

lemma pair_ok: "arenas_ok pair"
proof -
  have ok: "arenas_ok (site [draft 1, draft 2])" using site_ok [of "[1, 2]"] by simp
  have m: "draft 1 \<in> set (arena_rows (site [draft 1, draft 2]))" "ar_Status (draft 1) = ''draft''" "ar_Version (draft 1) < MaxInt32"
    "ar_ID (draft 1) = 1" "ar_ID (draft 2) = 2" "ar_CreatorID (draft 1) = 7" "ar_Version (draft 1) = 1"
    "ar_Category (draft 1) = ''science''" "ar_Slug (draft 2) = None"
    by (simp_all add: site_def draft_def MaxInt32_def)
  have "update_arena (publish_hit 1 7 1) (publish_change (the_slug 1) 6000) (site [draft 1, draft 2]) = Inr (published 1, pair)"
    using update_draft_published [OF ok m(1,2) the_slug m(3), of 6000] m(4-9)
    by (simp add: Let_def) (simp add: site_def published_def timestamptz_def pair_def)
  from wroteI [OF ok this publish_writes [OF DeriveSlug_parsed [OF the_slug]]] show ?thesis by (rule wrote_ok(1))
qed

theorem address_collision_witness:
  "PublishArena_Execute scan_canonical sample_consume 6000 (publish_cmd 2) pair (3, pair) = (Inl ErrSlugConflict, 3, pair)"
proof (rule address_collision [OF pair_ok, of "published 1" "the_slug 1" "draft 2"])
  have "arena_of_row (published 1) = (arena_of_row (draft 1))\<lparr>arena_status := ''published'', arena_slug := the_slug 1,
      arena_publishedAt := Some 6000, arena_version := 2\<rparr>"
    by (simp add: arena_of_row_def published_def)
  then show "DeriveSlug (arena_of_row (published 1)) = Inr (the_slug 1)" using the_slug [of 1] by (simp add: DeriveSlug_def)
  show "take 8 (uuidToString (Some (ar_ID (draft 2)))) = take 8 (uuidToString (Some (ar_ID (published 1))))"
    by (simp add: draft_def published_def) code_simp
qed (simp_all add: pair_def published_def draft_def MaxInt32_def publish_cmd_def scan_sample sample_consume_def)

definition read_6000 :: "string \<Rightarrow> time option" where
  "read_6000 s = (if s = FormatRFC3339Nano 6000 then Some 6000 else None)"

theorem feed_walk_complete_witness:
  "\<exists>rows. cursor_walk 2 (feed_fetch scan_canonical rev read_6000
        \<lparr>feed_Language = [], feed_Category = [], feed_Status = [], feed_Cursor = [], feed_Limit = 1\<rparr> (st_table live)) []
      = Inr (map arena_of_row rows) \<and> mset rows = {#published 1#}"
proof -
  let ?cmd = "\<lparr>feed_Language = [], feed_Category = [], feed_Status = [], feed_Cursor = [], feed_Limit = 1\<rparr>"
  have rows: "arena_rows (st_table live) = [published 1]" by (simp add: live_def)
  have reads: "reads_instants read_6000 (st_table live)" by (simp add: reads_instants_def rows published_def read_6000_def)
  have filter: "buildFeedFilter ?cmd = Inr \<lparr>filter_Language = None, filter_Category = None, filter_Status = None\<rparr>"
    by (simp add: buildFeedFilter_def)
  have "feed_table \<lparr>filter_Language = None, filter_Category = None, filter_Status = None\<rparr> (st_table live) = [published 1]"
    by (simp add: feed_table_def feed_rows_def rows public_statuses_def) (simp add: published_def)
  then show ?thesis
    using feed_walk_complete [OF start_empty published_run [symmetric] reads scan_canonical filter, of "[]" 2 rev] rows by auto
qed

end
