(* ===== verification/ArgumentsSamples.thy ===== *)
theory ArgumentsSamples
  imports ArgumentsPublic ArenasSamples
begin

text \<open>A small debate, on the sample ledger and the sample Arena, on which the hypotheses of the properties of arguments hold.\<close>

section \<open>The ledger\<close>

lemma ApplyCredit_scan:
  assumes "scan' (credit_AccountID rq) = scan (credit_AccountID rq)" "credit_ActorAccountID rq = []"
  shows "ApplyCredit scan' rq db = ApplyCredit scan rq db"
proof -
  have "credit_params scan' u rq = credit_params scan u rq" for u
    using assms(2) by (simp add: credit_params_def operationActor_def WalletDomain.AccountID_IsZero_def)
  then show ?thesis unfolding ApplyCredit_def pgUUIDFromAccountID_def assms(1) by (simp only:)
qed

lemma demo_scanned: "scan_canonical demo_account = Some 1"
  using scan_sample [of 1] by (simp add: demo_account_def)

lemma demo_credit_step: "wallet_step scan_canonical demo_db demo_db1"
proof -
  obtain operation where "ApplyCredit demo_scan demo_credit demo_db = (Inr \<lparr>creditResult_Operation = operation, creditResult_Replayed = False\<rparr>, demo_db1)"
    using demo_credit_call by blast
  moreover have "ApplyCredit scan_canonical demo_credit demo_db = ApplyCredit demo_scan demo_credit demo_db"
    by (rule ApplyCredit_scan) (simp_all add: demo_credit_def demo_scanned demo_scan_canonical(2))
  ultimately show ?thesis using wallet_step.credit by metis
qed

lemma demo_ledger_ok: "ledger_ok demo_db1"
  using wallet_step_ok [OF demo_credit_step demo_init(2)] .

section \<open>A publication\<close>

definition desk :: "AppArgument list \<Rightarrow> nat \<Rightarrow> arguments_db" where
  "desk rows n = \<lparr>argument_rows = rows, source_rows = [], arg_arenas = [1], arg_accounts = [1],
     arg_uuid_gen = (\<lambda>n. word_of_nat (50 + n)), arg_uuid_next = n, arg_now = 0\<rparr>"

definition sample_publish_env :: publish_env where
  "sample_publish_env = \<lparr>pe_scan = scan_canonical, pe_counter = Some (\<lambda>s. int (length s)), pe_replies = DefaultReplyPolicy,
     pe_accounts = (\<lambda>_. AccountStatus ''active''), pe_now = 7000, pe_wallet_now = 7000\<rparr>"

definition sample_command :: "string \<Rightarrow> PublishArgumentCommand" where
  "sample_command key = \<lparr>pc_AccountID = demo_account, pc_ArenaID = uuidToString (Some 1), pc_ParentID = [], pc_Relation = ''support'',
     pc_Content = ''Yes'', pc_Sources = [], pc_IdempotencyKey = key\<rparr>"

definition sample_content :: Content where
  "sample_content = \<lparr>content_value = ''Yes'', content_cost = 3, content_hash = HashContent ''Yes''\<rparr>"

definition sample_publication :: "string \<Rightarrow> publication" where
  "sample_publication key = \<lparr>pub_author = AccountID demo_account, pub_arena = ArenaID (uuidToString (Some 1)), pub_parent = ArgumentID [],
     pub_relation = Relation ''support'', pub_content = sample_content, pub_key = IdempotencyKey key, pub_sources = []\<rparr>"

definition sample_reads :: "wallet_db \<Rightarrow> publish_reads" where
  "sample_reads w = \<lparr>seen_key = desk [] 0, seen_arenas = st_table live, seen_parent = desk [] 0, seen_wallet = w, seen_retry = desk [] 0\<rparr>"

definition sample_row :: "string \<Rightarrow> AppArgument" where
  "sample_row key = \<lparr>ag_ID = 50, ag_ArenaID = 1, ag_AuthorID = 1, ag_ParentID = None, ag_Relation = ''support'', ag_Content = ''Yes'',
     ag_ContentHash = hash_String (HashContent ''Yes''), ag_GraphemeCost = 3, ag_Status = ''published'', ag_CreatedAt = 7000,
     ag_UpdatedAt = 7000, ag_IdempotencyKey = Some key, ag_WithdrawnAt = None\<rparr>"

definition attempt_text :: "string \<Rightarrow> bool" where
  "attempt_text key \<longleftrightarrow> key \<noteq> [] \<and> length key \<le> 128 \<and> list_all printable key"

lemma yes: "list_all printable ''Yes''" "TrimSpace ''Yes'' = ''Yes''"
proof -
  show p: "list_all printable ''Yes''" by (simp add: printable_def)
  show "TrimSpace ''Yes'' = ''Yes''" by (rule TrimSpace_printable [OF p])
qed

lemma yes_parses: "ParseContent ''Yes'' (Some (\<lambda>s. int (length s))) = Inr sample_content"
proof -
  have "normalizeContent ''Yes'' = ''Yes''"
    using yes printable_bytes [OF yes(1)] by (simp add: normalizeContent_def crlf_to_lf_id cr_to_lf_id)
  moreover have "valid_utf8 ''Yes''" using printable_utf8 [OF yes(1)] .
  moreover have "\<not> ArgumentsDomain.containsUnsupportedRunes ''Yes''"
    by (simp add: ArgumentsDomain.containsUnsupportedRunes_def runes_printable [OF yes(1)])
      (simp add: ArgumentsDomain.isBidiOverride_def is_control_def)
  ultimately show ?thesis by (simp add: ParseContent_def MaxGraphemeCost_def sample_content_def Let_def)
qed

lemma sample_parses: "attempt_text key \<Longrightarrow> parse_publication (pe_counter sample_publish_env) (pe_replies sample_publish_env) (sample_command key)
    = Inr (sample_publication key)"
proof -
  assume key: "attempt_text key"
  then have "ParseIdempotencyKey key = Inr (IdempotencyKey key)"
    using attempt_key.parse_of_text [of "IdempotencyKey key"] by (simp add: attempt_text_def maxIdempotencyKeyLength_def)
  moreover have "ParseRelation ''support'' = Inr (Relation ''support'')" by (rule relation_parses) simp
  ultimately show ?thesis
    using yes_parses by (simp add: parse_publication_def sample_publish_env_def sample_command_def ReplyPolicy_IsValid_def DefaultReplyPolicy_def
        uuid_parses demo_account_def sample_publication_def)
qed

lemma sample_row_texts: "attempt_text key \<Longrightarrow> argument_texts (sample_row key) \<and> arguments_checks (sample_row key)"
proof -
  assume key: "attempt_text key"
  have s: "list_all printable ''support''" by (simp add: printable_def)
  have h: "length (hash_String (HashContent ''Yes'')) = 67" by (simp add: hash_text)
  have "\<not> sql_blank ''Yes''" using printable_not_blank [OF yes(1)] by simp
  moreover have "Suc 0 \<le> length key" using key by (simp add: attempt_text_def Suc_leI)
  ultimately show ?thesis
    using key h printable_pg_text [OF s] printable_pg_text [OF yes(1)] printable_pg_text [OF hash_printable [of "''Yes''"]]
    by (auto simp: argument_texts_def arguments_checks_def sample_row_def attempt_text_def runes_printable [OF hash_printable]
        runes_printable printable_pg_text)
qed

lemma sample_row_ok: "attempt_text key \<Longrightarrow> ag_row_ok (sample_row key)"
proof -
  assume key: "attempt_text key"
  have c: "ag_Content (sample_row key) = ''Yes''" "ag_ContentHash (sample_row key) = hash_String (HashContent ''Yes'')"
    "timestamptz (ag_CreatedAt (sample_row key)) = ag_CreatedAt (sample_row key)"
    by (simp_all add: sample_row_def timestamptz_def)
  show ?thesis using sample_row_texts [OF key] yes(2) by (simp add: ag_row_ok_def c)
qed

lemma sample_insert: "attempt_text key \<Longrightarrow>
  sql_CreateArgument 1 1 None ''support'' ''Yes'' (hash_String (HashContent ''Yes'')) 3 key 7000 (desk [] 0) = Inr (sample_row key, desk [sample_row key] 1)"
proof -
  assume key: "attempt_text key"
  have row: "sample_row key = \<lparr>ag_ID = 50, ag_ArenaID = 1, ag_AuthorID = 1, ag_ParentID = None, ag_Relation = ''support'', ag_Content = ''Yes'',
     ag_ContentHash = hash_String (HashContent ''Yes''), ag_GraphemeCost = 3, ag_Status = ''published'', ag_CreatedAt = timestamptz 7000,
     ag_UpdatedAt = timestamptz 7000, ag_IdempotencyKey = Some key, ag_WithdrawnAt = None\<rparr>"
    by (simp add: sample_row_def timestamptz_def)
  have gen: "arg_uuid_gen (desk [] 0) (arg_uuid_next (desk [] 0)) = 50" by (simp add: desk_def)
  show ?thesis
    using sample_row_texts [OF key] unfolding sql_CreateArgument_def Let_def gen row [symmetric] by (simp add: desk_def)
qed

lemma sample_create: "attempt_text key \<Longrightarrow>
  repo_CreateArgument (pe_scan sample_publish_env) \<lparr>ca_ArenaID = pub_arena (sample_publication key), ca_AuthorID = pub_author (sample_publication key),
      ca_ParentID = pub_parent (sample_publication key), ca_Relation = pub_relation (sample_publication key),
      ca_Content = pub_content (sample_publication key), ca_IdempotencyKey = pub_key (sample_publication key),
      ca_CreatedAt = pe_now sample_publish_env\<rparr> (desk [] 0)
   = (Inr (Some (argument_of_row (sample_row key)), True), desk [sample_row key] 1)"
proof -
  assume key: "attempt_text key"
  have "wrap32 (content_cost sample_content) = 3" by (simp add: sample_content_def int32_defs)
  then show ?thesis
    using sample_insert [OF key] mapArgument_ok [OF sample_row_ok [OF key]]
    by (simp add: repo_CreateArgument_def sample_publication_def sample_publish_env_def demo_scanned scan_sample ArgumentID_IsZero_def
        sample_content_def)
qed

lemma live_arena: "EnsureAcceptsArguments scan_canonical (ArenaID (uuidToString (Some 1))) (st_table live) = Inr ()"
proof -
  have "arenas_ok (st_table live)" using run_from_empty [OF start_empty, of sample_env publishing] unfolding published_run .
  then have "row_ok (ArenasSamples.published 1)" by (simp add: arenas_ok_def live_def)
  from mapArenaRow_ok [OF this]
  have "repo_GetArenaByID scan_canonical (uuidToString (Some 1)) (st_table live) = Inr (arena_of_row (ArenasSamples.published 1))"
    by (simp add: repo_GetArenaByID_def sql_GetArenaByID_def find_arena_def scan_sample live_def) (simp add: ArenasSamples.published_def draft_def)
  then show ?thesis
    by (simp add: EnsureAcceptsArguments_def EnsureAcceptsParticipation_def AcceptsParticipation_def arena_of_row_def ArenasSamples.published_def
        vocab split: unit.split)
qed

lemma sample_allowed: "publication_allowed sample_publish_env (sample_publication key) (sample_reads w)"
  using live_arena by (simp add: publication_allowed_def sample_publish_env_def sample_publication_def sample_reads_def EnsureEligible_def
      ArgumentID_IsZero_def)

text \<open>The publication goes through as soon as the wallet takes or recognises the charge.\<close>

lemma sample_publish:
  assumes "attempt_text key" "Bridge_Debit scan_canonical 7000 (publish_charge (sample_publication key)) w w = (Inr replayed, w')"
  shows "PublishArgument_Execute sample_publish_env (sample_command key) (sample_reads w) (w, desk [] 0)
    = (Inr \<lparr>pr_Argument = argument_of_row (sample_row key), pr_Replayed = False\<rparr>, w', desk [sample_row key] 1)"
proof -
  let ?env = "sample_publish_env" and ?p = "sample_publication key" and ?reads = "sample_reads w"
  have first: "repo_GetByAuthorAndIdempotencyKey (pe_scan ?env) (pub_author ?p) (pub_key ?p) (seen_key ?reads) = Inl ErrArgumentNotFound"
    by (simp add: repo_GetByAuthorAndIdempotencyKey_def sample_publish_env_def sample_publication_def demo_scanned found_argument_def
        sql_GetArgumentByAuthorAndKey_def find_argument_def sample_reads_def desk_def)
  have sources: "pub_sources ?p = []" "pub_parent ?p = ArgumentID []" by (simp_all add: sample_publication_def)
  have charge: "Bridge_Debit (pe_scan ?env) (pe_wallet_now ?env) (publish_charge ?p) (seen_wallet ?reads) w = (Inr replayed, w')"
    using assms(2) by (simp add: sample_publish_env_def sample_reads_def)
  have body: "publish_transaction ?env ?p (seen_wallet ?reads) (w, desk [] 0) = (Inr (argument_of_row (sample_row key)), w', desk [sample_row key] 1)"
    unfolding publish_transaction_def publish_charge_def [symmetric] fst_conv snd_conv charge prod.case sum.case sample_create [OF assms(1)]
    by (simp add: sources split: unit.split)
  have gates: "EnsureEligible (pe_accounts ?env) (pub_author ?p) = Inr ()"
    "EnsureAcceptsArguments (pe_scan ?env) (pub_arena ?p) (seen_arenas ?reads) = Inr ()"
    using sample_allowed [of key w] by (simp_all add: publication_allowed_def)
  show ?thesis
    unfolding PublishArgument_Execute_def sample_parses [OF assms(1)] sum.case first gates unit.case
    by (simp add: sources ArgumentID_IsZero_def WithinTransaction_def body split: unit.split)
qed

section \<open>The two charges\<close>

definition sample_debit :: "string \<Rightarrow> DebitRequest" where
  "sample_debit key = \<lparr>debit_AccountID = demo_account, debit_OperationType = OperationDebitArgument,
     debit_IdempotencyKey = WalletDomain.IdempotencyKey key, debit_Reference = Reference (''argument:'' @ key), debit_Reason = zero_Reason,
     debit_ActorAccountID = [], debit_Amount = \<lparr>amount = 3\<rparr>, debit_ChangedAt = 7000\<rparr>"

lemma sample_texts: "attempt_text ''k1''" "attempt_text ''a1''" "list_all printable ''argument:k1''" "list_all printable ''argument:a1''"
  by (simp_all add: attempt_text_def printable_def)

lemma sample_request:
  assumes "attempt_text key" "list_all printable (''argument:'' @ key)"
  shows "Bridge_Debit scan_canonical 7000 (publish_charge (sample_publication key)) seen w =
    (case ApplyDebit scan_canonical (sample_debit key) seen w of
       (Inl e, w') \<Rightarrow> (Inl (if e = Domain wallet_error.ErrInsufficientInk then ErrInsufficientInk else WalletFailure e), w')
     | (Inr d, w') \<Rightarrow> (Inr (debitResult_Replayed d), w'))"
proof -
  have key: "TrimSpace key = key" "TrimSpace (''argument:'' @ key) = ''argument:'' @ key"
    using assms TrimSpace_printable unfolding attempt_text_def by blast+
  have "debit_request 7000 \<lparr>debitCmd_AccountID = demo_account, debitCmd_OperationType = OperationDebitArgument, debitCmd_Amount = 3,
      debitCmd_Reference = ''argument:'' @ key, debitCmd_IdempotencyKey = key\<rparr> = Inr (sample_debit key)"
    using assms key by (simp add: debit_request_def WalletDomain.AccountID_IsZero_def demo_account_def ParseOperationType_def
        OperationType_IsValid_def IsDebit_def IsAdmin_def operationTypeDirection_def vocab NewInk_def Ink_IsZero_def ParseReference_def
        WalletDomain.ParseIdempotencyKey_def attempt_text_def maxReferenceLength_def WalletDomain.maxIdempotencyKeyLength_def sample_debit_def
        uuidToString_printable)
  then show ?thesis
    by (simp add: Bridge_Debit_def publish_charge_def sample_publication_def sample_content_def WalletReference_def DebitInk_Execute_def)
qed

lemma charge_replayed:
  "Bridge_Debit scan_canonical 7000 (publish_charge (sample_publication ''k1'')) demo_db1 demo_db1 = (Inr True, demo_db1)"
proof -
  obtain operation where o: "mapOperationRow demo_row = Inr operation" using demo_credit_call by blast
  have "reconstructAllocation 100 demo_db1 = Inr \<lparr>fromFree = zero_Ink, fromPurchased = \<lparr>amount = 50\<rparr>\<rparr>"
    by (simp add: reconstructAllocation_def ListWalletTransactionsByOperationID_def demo_db1_def vocab NewInk_def Ink_Add_def zero_Ink_def
        NewAllocation_def wrap64_def MaxInt64_def)
  then have "replayDebit (sample_debit ''k1'') demo_db1 = Inr (Some \<lparr>debitResult_Operation = operation,
      debitResult_Allocation = \<lparr>fromFree = zero_Ink, fromPurchased = \<lparr>amount = 50\<rparr>\<rparr>, debitResult_Replayed = True\<rparr>)"
    using o by (simp add: replayDebit_def GetWalletOperationByIdempotencyKey_def sample_debit_def demo_db1_def) (simp add: demo_row_def demo_account_def)
  then have "ApplyDebit scan_canonical (sample_debit ''k1'') demo_db1 demo_db1 = (Inr \<lparr>debitResult_Operation = operation,
      debitResult_Allocation = \<lparr>fromFree = zero_Ink, fromPurchased = \<lparr>amount = 50\<rparr>\<rparr>, debitResult_Replayed = True\<rparr>, demo_db1)"
    by (simp add: ApplyDebit_def applyDebit_def pgUUIDFromAccountID_def demo_scanned sample_debit_def [THEN arg_cong [where f = debit_AccountID]])
  then show ?thesis using sample_request [OF sample_texts(1), of demo_db1 demo_db1] sample_texts(3) by simp
qed

lemma charge_taken:
  "\<exists>w'. Bridge_Debit scan_canonical 7000 (publish_charge (sample_publication ''a1'')) demo_db1 demo_db1 = (Inr False, w')"
proof -
  define arg where "arg = debit_params scan_canonical 1 (sample_debit ''a1'')"
  have p: "list_all printable ''a1''" "list_all printable ''debit_argument''" by (simp_all add: printable_def)
  have ref: "debit_Reference (sample_debit ''a1'') = Reference ''argument:a1''" by (simp add: sample_debit_def)
  have checks: "operation_checks arg" "operation_texts arg"
    using p sample_texts(4)
    by (simp_all add: arg_def operation_checks_def operation_texts_def debit_params_def sample_debit_def
        AllOperationTypes_def operationReason_def zero_Reason_def WalletDomain.Reason_IsZero_def vocab printable_pg_text printable_not_blank)
  have valid: "valid_texts (WalletDomain.IdempotencyKey ''a1'') (Reference ''argument:a1'') zero_Reason"
    using p(1) sample_texts(4)
    by (simp add: valid_texts_def is_IdempotencyKey_def is_Reference_def WalletDomain.ParseIdempotencyKey_def
        ParseReference_def maxReferenceLength_def WalletDomain.maxIdempotencyKeyLength_def WalletDomain.Reason_IsZero_def zero_Reason_def)
  define row where "row = operation_row arg demo_db1"
  obtain operation where o: "mapOperationRow row = Inr operation"
    using inserted_row_maps [of row arg demo_db1, OF row_def checks(1) valid]
    by (auto simp: arg_def debit_params_def sample_debit_def)
  have fresh: "replayDebit (sample_debit ''a1'') demo_db1 = Inr None"
    by (simp add: replayDebit_fresh sample_debit_def demo_db1_def demo_row_def)
  define db2 where "db2 = demo_db1\<lparr>operations := [demo_row, row], uuid_next := 3\<rparr>"
  have row_id: "op_id row = 102" by (simp add: row_def operation_row_def demo_db1_def demo_db_def)
  have c: "CreateWalletOperationIfAbsent arg demo_db1 = Inr (row, db2)"
    using checks row_id unfolding CreateWalletOperationIfAbsent_def insert_operation_def Let_def row_def [symmetric]
    by (simp add: db2_def demo_db1_def demo_row_def arg_def debit_params_def sample_debit_def)
      (simp add: row_def arg_def operation_row_def debit_params_def sample_debit_def operationActor_def WalletDomain.AccountID_IsZero_def)
  have alloc: "AllocateDebit (debit_Amount (sample_debit ''a1'')) \<lparr>amount = 0\<rparr> \<lparr>amount = 50\<rparr> =
      Inr \<lparr>fromFree = zero_Ink, fromPurchased = \<lparr>amount = 3\<rparr>\<rparr>"
    by (simp add: sample_debit_def AllocateDebit_def Ink_IsZero_def Ink_Add_def Ink_Sub_def zero_Ink_def MaxInt64_def wrap64_def)
  have t: "\<exists>db3 w db4. record_lines (op_id row) (Allocation_Lines \<lparr>fromFree = zero_Ink, fromPurchased = \<lparr>amount = 3\<rparr>\<rparr>) db2 = Inr db3
      \<and> update_balances 1 0 (- 3) db3 = Inr (w, db4)"
    by (simp add: row_id Allocation_Lines_def Ink_IsZero_def Direction_Apply_def Direction_IsValid_def vocab
        wrap64_def CreateWalletTransaction_def db2_def demo_db1_def demo_db_def update_balances_def bigint_def
        int64_defs demo_wallet_def Let_def)
  have "\<exists>w'. ApplyDebit scan_canonical (sample_debit ''a1'') demo_db1 demo_db1 = (Inr \<lparr>debitResult_Operation = operation,
      debitResult_Allocation = \<lparr>fromFree = zero_Ink, fromPurchased = \<lparr>amount = 3\<rparr>\<rparr>, debitResult_Replayed = False\<rparr>, w')"
    using fresh c [unfolded arg_def] alloc t o demo_scanned
    by (auto simp: ApplyDebit_def applyDebit_def debit_locked_def pgUUIDFromAccountID_def ApplyWalletDebit_def
        GetWalletAccountForUpdate_def demo_db1_def demo_wallet_def NewInk_def sample_debit_def [THEN arg_cong [where f = debit_AccountID]])
  then show ?thesis using sample_request [OF sample_texts(2), of demo_db1 demo_db1] sample_texts(4) by auto
qed

section \<open>The history of a free publication\<close>

abbreviation "before \<equiv> [(demo_db1, desk [] 0), (demo_db, desk [] 0)]"
abbreviation "after_free \<equiv> (demo_db1, desk [sample_row ''k1''] 1) # before"

lemma before_history: "debate_history scan_canonical DefaultReplyPolicy before"
  by (rule debate_history.wallet [OF debate_history.start demo_credit_step]) (simp_all add: demo_init desk_def)

lemma free_publication:
  "PublishArgument_Execute sample_publish_env (sample_command ''k1'') (sample_reads demo_db1) (demo_db1, desk [] 0)
    = (Inr \<lparr>pr_Argument = argument_of_row (sample_row ''k1''), pr_Replayed = False\<rparr>, demo_db1, desk [sample_row ''k1''] 1)"
  by (rule sample_publish [OF sample_texts(1) charge_replayed])

lemma sample_env_parts [simp]: "pe_scan sample_publish_env = scan_canonical" "pe_replies sample_publish_env = DefaultReplyPolicy"
  by (simp_all add: sample_publish_env_def)

lemma sample_reads_parts [simp]: "seen_parent (sample_reads w) = desk [] 0" "seen_key (sample_reads w) = desk [] 0"
    "seen_wallet (sample_reads w) = w"
  by (simp_all add: sample_reads_def)

lemma free_history: "debate_history scan_canonical DefaultReplyPolicy after_free"
  by (rule debate_history.publish [OF before_history free_publication]) simp_all

section \<open>Withdrawal and removal\<close>

definition withdrawn_row :: AppArgument where
  "withdrawn_row = (sample_row ''k1'')\<lparr>ag_Status := ''withdrawn'', ag_WithdrawnAt := Some 8000, ag_UpdatedAt := 8000\<rparr>"

definition removed_row :: AppArgument where
  "removed_row = withdrawn_row\<lparr>ag_Status := ''removed'', ag_UpdatedAt := 0\<rparr>"

definition withdraw_cmd :: WithdrawArgumentCommand where
  "withdraw_cmd = \<lparr>wc_AccountID = demo_account, wc_ArgumentID = uuidToString (Some 50)\<rparr>"

lemma sample_row_parts:
  "ag_ID (sample_row key) = 50" "ag_AuthorID (sample_row key) = 1" "ag_ArenaID (sample_row key) = 1" "ag_ParentID (sample_row key) = None"
  "ag_Status (sample_row key) = ''published''" "ag_WithdrawnAt (sample_row key) = None" "ag_IdempotencyKey (sample_row key) = Some key"
  "ag_Relation (sample_row key) = ''support''" "ag_CreatedAt (sample_row key) = 7000" "ag_Content (sample_row key) = ''Yes''"
  by (simp_all add: sample_row_def)

lemma moved_row_checks: "arguments_checks withdrawn_row" "arguments_checks removed_row"
proof -
  have c: "arguments_checks (sample_row ''k1'')" using sample_row_texts [OF sample_texts(1)] by blast
  show "arguments_checks withdrawn_row" using c by (simp add: arguments_checks_def withdrawn_row_def)
  show "arguments_checks removed_row" using c by (simp add: arguments_checks_def removed_row_def withdrawn_row_def)
qed

lemma withdraw_sample:
  "WithdrawArgument_Execute scan_canonical 8000 withdraw_cmd (desk [sample_row ''k1''] 1) (desk [] 0) (desk [sample_row ''k1''] 1)
    = (Inr \<lparr>pr_Argument = argument_of_row withdrawn_row, pr_Replayed = False\<rparr>, desk [withdrawn_row] 1)"
proof -
  let ?db = "desk [sample_row ''k1''] 1"
  have parts: "bind_r (ParseAccountID (wc_AccountID withdraw_cmd)) (\<lambda>author. bind_r (ParseArgumentID (wc_ArgumentID withdraw_cmd))
      (\<lambda>argument. Inr (author, argument))) = Inr (AccountID demo_account, ArgumentID (uuidToString (Some 50)))"
    by (simp add: withdraw_cmd_def demo_account_def uuid_parses)
  have stored: "repo_GetForAuthor scan_canonical (ArgumentID (uuidToString (Some 50))) (AccountID demo_account) ?db
      = Inr (argument_of_row (sample_row ''k1''))"
    using mapArgument_ok [OF sample_row_ok [OF sample_texts(1)]]
    by (simp add: repo_GetForAuthor_def scan_sample demo_scanned found_argument_def sql_GetArgumentForAuthor_def find_argument_def desk_def
        sample_row_parts)
  have moved: "sql_WithdrawArgument 8000 50 1 ?db = Inr (withdrawn_row, desk [withdrawn_row] 1)"
    using moved_row_checks(1) sample_row_parts
    by (simp add: sql_WithdrawArgument_def update_argument_def desk_def Let_def timestamptz_def withdrawn_row_def protect_argument_def)
  have "ag_row_ok withdrawn_row"
    by (rule row_ok_frozen [OF _ sample_row_ok [OF sample_texts(1)] moved_row_checks(1)]) (simp add: withdrawn_row_def ArgumentsCorrectness.frozen_def)
  note mapped = mapArgument_ok [OF this]
  have status: "pa_Status (argument_of_row (sample_row ''k1'')) = ''published''" by (simp add: argument_of_row_def sample_row_parts)
  show ?thesis
    unfolding WithdrawArgument_Execute_def parts sum.case prod.case stored status
    by (simp add: statusWithdrawn_def statusRemoved_def repo_WithdrawArgument_def scan_sample demo_scanned moved mapped del: One_nat_def)
qed

abbreviation "after_withdrawal \<equiv> (demo_db1, desk [withdrawn_row] 1) # after_free"
abbreviation "after_removal \<equiv> (demo_db1, desk [removed_row] 1) # after_withdrawal"

lemma withdrawal_history: "debate_history scan_canonical DefaultReplyPolicy after_withdrawal"
  by (rule debate_history.withdraw [OF free_history withdraw_sample])

lemma removal_history: "debate_history scan_canonical DefaultReplyPolicy after_removal"
proof (rule debate_history.remove [OF withdrawal_history])
  show "sql_RemoveArgumentForModeration 50 (desk [withdrawn_row] 1) = Inr (removed_row, desk [removed_row] 1)"
    using moved_row_checks(2)
    by (simp add: sql_RemoveArgumentForModeration_def update_argument_def desk_def Let_def protect_argument_def removed_row_def)
      (simp add: withdrawn_row_def sample_row_parts)
qed

section \<open>Witnesses\<close>

theorem debate_consistent_witness:
  "mapArgument (sample_row ''k1'') = Inr (argument_of_row (sample_row ''k1'')) \<and> 0 \<le> purchased_of demo_db1 1"
proof -
  have "sample_row ''k1'' \<in> set (argument_rows (desk [sample_row ''k1''] 1))" by (simp add: desk_def)
  with debate_consistent [OF free_history scan_canonical] show ?thesis by blast
qed

theorem argument_immutable_witness:
  "\<exists>r' \<in> set (argument_rows (desk [removed_row] 1)). ag_ID r' = 50 \<and> ag_Content r' = ''Yes'' \<and> ag_IdempotencyKey r' = Some ''k1''"
  using argument_immutable [OF removal_history scan_canonical, of "(demo_db1, desk [sample_row ''k1''] 1)" "sample_row ''k1''"]
  by (auto simp: sample_row_parts) (auto simp: desk_def)

theorem PublishArgument_exact_witness:
  "\<exists>w' q. fst (snd (PublishArgument_Execute sample_publish_env (sample_command ''a1'') (sample_reads demo_db1) (demo_db1, desk [] 0))) = w'
     \<and> charged (sample_publication ''a1'') demo_db1 1 q w'"
proof -
  obtain w' where charge: "Bridge_Debit scan_canonical 7000 (publish_charge (sample_publication ''a1'')) demo_db1 demo_db1 = (Inr False, w')"
    using charge_taken by blast
  note call = sample_publish [OF sample_texts(2) charge]
  have "\<not> key_held (sample_publication ''a1'') demo_db1" by (simp add: key_held_def demo_db1_def demo_row_def sample_publication_def)
  then obtain q row where "ArgumentsHistory.published sample_publish_env (sample_publication ''a1'') (desk [] 0) row [] (desk [sample_row ''a1''] 1)"
    "charged (sample_publication ''a1'') demo_db1 (ag_AuthorID row) q w'"
    using PublishArgument_exact [OF call, of "[(demo_db, desk [] 0)]"] before_history scan_canonical sample_parses [OF sample_texts(2)]
    by (auto simp: ArgumentsHistory.published_def sample_publication_def)
  then show ?thesis using call by (auto simp: ArgumentsHistory.published_def desk_def sample_row_parts)
qed

theorem publication_once_witness:
  "snd (PublishArgument_Execute sample_publish_env (sample_command ''k1'') (sample_reads demo_db1) (demo_db1, desk [sample_row ''k1''] 1))
    = (demo_db1, desk [sample_row ''k1''] 1)"
proof -
  obtain res st' where call: "PublishArgument_Execute sample_publish_env (sample_command ''k1'') (sample_reads demo_db1)
      (demo_db1, desk [sample_row ''k1''] 1) = (res, st')" by (metis surj_pair)
  have "ParseAccountID (pc_AccountID (sample_command ''k1'')) = Inr (AccountID demo_account)"
    "ParseIdempotencyKey (pc_IdempotencyKey (sample_command ''k1'')) = Inr (IdempotencyKey ''k1'')"
    using parse_publication_Inr(2,6) [OF sample_parses [OF sample_texts(1)]] by (simp_all add: sample_publication_def)
  from publication_once [OF call _ _ _ _ this(1) _ this(2), of before "sample_row ''k1''"] free_history scan_canonical
  have "st' = (demo_db1, desk [sample_row ''k1''] 1)" by (simp add: demo_scanned sample_row_parts) (simp add: desk_def)
  then show ?thesis using call by simp
qed

theorem used_wallet_key_publishes_free_witness:
  "PublishArgument_Execute sample_publish_env (sample_command ''k1'') (sample_reads demo_db1) (demo_db1, desk [] 0)
    = (Inr \<lparr>pr_Argument = argument_of_row (sample_row ''k1''), pr_Replayed = False\<rparr>, demo_db1, desk [sample_row ''k1''] 1)
   \<and> op_type demo_row = ''credit_purchase'' \<and> purchased_of (fst (demo_db1, desk [sample_row ''k1''] 1)) 1 = 50"
proof -
  have key: "ParseIdempotencyKey (pc_IdempotencyKey (sample_command ''k1'')) = Inr (IdempotencyKey ''k1'')"
    using parse_publication_Inr(6) [OF sample_parses [OF sample_texts(1)]] by (simp add: sample_publication_def)
  have "fst (demo_db1, desk [sample_row ''k1''] 1) = fst (demo_db1, desk [] 0)
      \<and> length (argument_rows (snd (demo_db1, desk [sample_row ''k1''] 1))) = Suc (length (argument_rows (snd (demo_db1, desk [] 0))))"
    by (rule used_wallet_key_publishes_free [OF free_publication _ _ _ _ _ key, of "[(demo_db, desk [] 0)]" demo_row])
      (use before_history scan_canonical in \<open>simp_all add: demo_db1_def demo_row_def\<close>)
  then show ?thesis using free_publication by (simp add: demo_row_def purchased_of_def demo_db1_def demo_wallet_def)
qed

theorem WithdrawArgument_exact_witness:
  "\<exists>new. desk [withdrawn_row] 1 = (desk [sample_row ''k1''] 1)\<lparr>argument_rows := [new]\<rparr>
    \<and> ag_Status new = ''withdrawn'' \<and> ag_WithdrawnAt new = Some 8000 \<and> ag_Content new = ''Yes''"
  using WithdrawArgument_exact [OF withdraw_sample, of _ demo_db1 before] free_history scan_canonical
  by (auto simp: desk_def append_eq_Cons_conv Cons_eq_append_conv) (auto simp: withdrawn_row_def sample_row_parts)

theorem restore_withdrawn_fails_witness:
  "sql_RestoreArgumentForAppeal 50 (desk [removed_row] 1) = Inl CheckViolation"
  using restore_withdrawn_fails [OF removal_history scan_canonical, of "(demo_db1, desk [withdrawn_row] 1)" withdrawn_row]
  by (simp add: desk_def removed_row_def withdrawn_row_def sample_row_parts)

theorem GetPublicArgument_exact_witness:
  "\<exists>a. GetPublicArgument_Execute scan_canonical (uuidToString (Some 50)) (desk [withdrawn_row] 1) = Inr a
    \<and> pub_Content a = None \<and> pub_Status a = ''withdrawn''"
  using GetPublicArgument_exact [OF withdrawal_history scan_canonical uuid_parses(1), of 50 50]
  by (simp add: scan_sample) (simp add: desk_def withdrawn_row_def sample_row_parts public_of_def)

definition read_7000 :: "string \<Rightarrow> time option" where
  "read_7000 s = (if s = FormatRFC3339Nano 7000 then Some 7000 else None)"

theorem argument_lists_complete_witness:
  "\<exists>rows. cursor_walk 2 (arena_fetch scan_canonical rev read_7000
       \<lparr>la_ArenaID = uuidToString (Some 1), la_Relation = ''support'', la_Cursor = [], la_Limit = 1\<rparr> (desk [sample_row ''k1''] 1)) []
     = Inr (map (\<lambda>r. public_of (r, reply_count (desk [sample_row ''k1''] 1) r)) rows) \<and> set rows = {sample_row ''k1''}"
proof -
  have "ParseRelation ''support'' = Inr (Relation ''support'')" by (rule relation_parses) simp
  moreover have "reads_created read_7000 (desk [sample_row ''k1''] 1)" by (simp add: reads_created_def read_7000_def desk_def sample_row_parts)
  moreover have "{r \<in> set (argument_rows (desk [sample_row ''k1''] 1)). ag_ArenaID r = 1 \<and> ag_Relation r = ''support''
      \<and> ag_ParentID r = None \<and> ag_Status r = ''published''} = {sample_row ''k1''}"
    by (auto simp: desk_def sample_row_parts)
  moreover have "length (argument_rows (desk [sample_row ''k1''] 1)) < 2" by (simp add: desk_def)
  ultimately show ?thesis
    using argument_lists_complete [OF free_history scan_canonical, of read_7000 "[]" 2 rev, THEN conjunct1, rule_format,
        of "\<lparr>la_ArenaID = uuidToString (Some 1), la_Relation = ''support'', la_Cursor = [], la_Limit = 1\<rparr>"
          "ArenaID (uuidToString (Some 1))" "Relation ''support''" 1]
    by (auto simp: uuid_parses scan_sample)
qed

theorem threads_end_witness:
  "ancestors 1 None [sample_row ''k1''] = Some [] \<and> sql_GetParentArgument 50 (desk [sample_row ''k1''] 1) = Inr (sample_row ''k1'', 0)"
  using threads_end [OF free_history scan_canonical, of "sample_row ''k1''"]
  by (simp add: DefaultReplyPolicy_def sample_row_parts) (simp add: desk_def)

end
