(* ===== verification/PersuasionSamples.thy ===== *)
theory PersuasionSamples
  imports PersuasionAbuse ArgumentsSamples PositionsProperties
begin

text \<open>
  A small forum on which the hypotheses of the properties of attributions hold: the sample argument is published,
  the sample holder changes position in its Arena, and credits the argument.
\<close>

section \<open>A credit\<close>

definition no_credits :: persuasion_db where
  "no_credits = \<lparr>attribution_rows = [], at_uuid_gen = (\<lambda>n. word_of_nat (70 + n)), at_uuid_next = 0, at_now = 10000,
     email_verified = (\<lambda>_. True)\<rparr>"

definition credit_row :: AppPersuasionAttribution where
  "credit_row = \<lparr>at_ID = 70, at_ChangeID = 7, at_AttributorID = 2, at_ArgumentID = 50, at_Status = ''valid'', at_CreatedAt = 10000,
     at_InvalidatedAt = None, at_ModerationReason = None, at_ModeratedBy = None, at_ModeratedAt = None\<rparr>"

definition one_credit :: persuasion_db where
  "one_credit = no_credits\<lparr>attribution_rows := [credit_row], at_uuid_next := 1\<rparr>"

definition forum_at :: "positions_db \<Rightarrow> debate \<Rightarrow> persuasion_db \<Rightarrow> forum" where
  "forum_at pos d db = \<lparr>f_positions = pos, f_debate = d, f_attributions = db, f_events = []\<rparr>"

lemma forum_at_parts [simp]:
  "f_positions (forum_at pos d db) = pos" "f_debate (forum_at pos d db) = d" "f_attributions (forum_at pos d db) = db"
  "f_events (forum_at pos d db) = []" "f_arguments (forum_at pos d db) = snd d"
  "(forum_at pos d db)\<lparr>f_positions := pos'\<rparr> = forum_at pos' d db" "(forum_at pos d db)\<lparr>f_debate := d'\<rparr> = forum_at pos d' db"
  "(forum_at pos d db)\<lparr>f_attributions := db'\<rparr> = forum_at pos d db'"
  by (simp_all add: forum_at_def f_arguments_def)

definition the_argument :: arguments_db where "the_argument = desk [sample_row ''k1''] 1"

lemma the_argument_rows [simp]: "argument_rows the_argument = [sample_row ''k1'']"
  by (simp add: the_argument_def desk_def)

abbreviation "forum_policy \<equiv> DefaultEligibilityPolicy"
abbreviation "before_credit \<equiv> [forum_at demo_pos2 (demo_db1, the_argument) no_credits, forum_at demo_pos1 (demo_db1, the_argument) no_credits,
  forum_at demo_pos0 (demo_db1, the_argument) no_credits, forum_at demo_pos0 (demo_db1, desk [] 0) no_credits, forum_at demo_pos0 (demo_db, desk [] 0) no_credits]"
abbreviation "credited_forum \<equiv> forum_at demo_pos2 (demo_db1, the_argument) one_credit # before_credit"

lemma before_credit_history: "forum_history scan_canonical DefaultReplyPolicy forum_policy before_credit"
proof -
  let ?h = "forum_history scan_canonical DefaultReplyPolicy forum_policy"
  have "positions_run scan_canonical [demo_pos0]" by (simp add: positions_run.start positions_init_def demo_pos0_def)
  moreover have "debate_history scan_canonical DefaultReplyPolicy [(demo_db, desk [] 0)]"
    by (rule debate_history.start) (simp_all add: demo_init desk_def)
  ultimately have "?h [forum_at demo_pos0 (demo_db, desk [] 0) no_credits]"
    by (intro forum_history.start) (simp_all add: no_credits_def)
  from forum_history.debate [OF this, of "(demo_db1, desk [] 0)"] before_history
  have "?h [forum_at demo_pos0 (demo_db1, desk [] 0) no_credits, forum_at demo_pos0 (demo_db, desk [] 0) no_credits]" by simp
  from forum_history.debate [OF this, of "(demo_db1, the_argument)"] free_history [folded the_argument_def]
  have h: "?h [forum_at demo_pos0 (demo_db1, the_argument) no_credits, forum_at demo_pos0 (demo_db1, desk [] 0) no_credits,
      forum_at demo_pos0 (demo_db, desk [] 0) no_credits]" by simp
  have p: "positions_run scan_canonical [demo_pos0, demo_pos0, demo_pos0]" using forum_projections [OF h] by simp
  have p1: "positions_run scan_canonical [demo_pos1, demo_pos0, demo_pos0, demo_pos0]"
    by (rule positions_run.confirm [OF p, of demo_pos0 5000 Map.empty Map.empty demo_confirm, OF _ _ demo_confirmed [folded demo_pos1]]) simp_all
  from forum_history.positions [OF h, of demo_pos1] this
  have h: "?h [forum_at demo_pos1 (demo_db1, the_argument) no_credits, forum_at demo_pos0 (demo_db1, the_argument) no_credits,
      forum_at demo_pos0 (demo_db1, desk [] 0) no_credits, forum_at demo_pos0 (demo_db, desk [] 0) no_credits]" by simp
  have "positions_run scan_canonical [demo_pos2, demo_pos1, demo_pos0, demo_pos0, demo_pos0]"
    by (rule positions_run.change [OF p1, of demo_pos1 9000 Map.empty demo_change "fst (ChangePosition_Execute scan_canonical Map.empty 9000 demo_change demo_pos1 demo_pos1)"])
      (simp_all add: demo_pos2_def)
  with forum_history.positions [OF h, of demo_pos2] show ?thesis by simp
qed

definition record_cmd :: RecordAttributionsCommand where
  "record_cmd = \<lparr>rec_AccountID = uuidToString (Some 2), rec_ChangeID = uuidToString (Some 7), rec_ArgumentIDs = [uuidToString (Some 50)]\<rparr>"

definition credited_ids :: RecordAttributionsResult where
  "credited_ids = \<lparr>rar_ArgumentIDs = [ArgumentID (uuidToString (Some 50))], rar_Replayed = False\<rparr>"

definition the_change :: AppPositionChange where
  "the_change = \<lparr>pc_ID = 7, pc_ArenaID = 1, pc_AccountID = 2, pc_FromPosition = ''agree'', pc_ToPosition = ''undecided'', pc_Version = 2,
     pc_ChangedAt = 9000\<rparr>"

lemma demo_pos2_changes: "position_changes demo_pos2 = [the_change]" "account_status demo_pos2 = [2 \<mapsto> ''active'']"
proof -
  have k: "positionScope scan_canonical (PositionsDomain.ArenaID demo_arena) (PositionsDomain.AccountID demo_holder) = Inr (dp_key PositionsProperties.demo_row)"
    by (simp add: PositionsProperties.demo_row_def dp_key_def)
  have "snd (ChangePosition_Execute scan_canonical Map.empty 9000 demo_change demo_pos1 demo_pos1) =
      committed_change demo_pos1 (dp_ArenaID PositionsProperties.demo_row) (dp_AccountID PositionsProperties.demo_row)
        (next_change PositionsProperties.demo_row (Position ''undecided'') 9000) (dp_Version PositionsProperties.demo_row)"
    unfolding demo_change_def
    by (subst ChangePosition_current_row [OF scan_canonical demo_ok(1) _ demo_parse k])
      (simp_all add: demo_pos1 demo_pos0_def PositionsProperties.demo_row_def abs_position_def MaxInt32_def)
  then show "position_changes demo_pos2 = [the_change]" "account_status demo_pos2 = [2 \<mapsto> ''active'']"
    by (simp_all add: demo_pos2_def committed_change_def demo_pos1 demo_pos0_def PositionsProperties.demo_row_def
        change_row_def next_change_def timestamptz_def the_change_def abs_position_def)
qed

lemma recorded_sample:
  "RecordAttributions_Execute scan_canonical forum_policy record_cmd the_argument demo_pos2 the_argument no_credits = (Inr credited_ids, one_credit)"
proof -
  let ?arg = "ArgumentID (uuidToString (Some 50))"
  have lock: "repo_LockChangeForAttributor scan_canonical (ChangeID (uuidToString (Some 7))) (AttributorID (uuidToString (Some 2))) demo_pos2
      = Inr \<lparr>ch_ID = ChangeID (uuidToString (Some 7)), ch_ArenaID = ArenaID (uuidToString (Some 1)),
          ch_AttributorID = AttributorID (uuidToString (Some 2)), ch_ChangedAt = 9000\<rparr>"
    by (simp add: repo_LockChangeForAttributor_def uuidParam_def scan_sample sql_GetPositionChangeForAttributor_def demo_pos2_changes
        stored_uuid_parses) (simp add: the_change_def stored_uuid_parses)
  have candidate: "repo_ListCandidates scan_canonical [?arg] the_argument = Inr [candidate_of_row (sample_row ''k1'')]"
    by (simp add: repo_ListCandidates_def uuidParam_def scan_sample sql_ListAttributionCandidates_def sample_row_parts
        map_candidate_def stored_uuid_parses candidate_of_row_def ArgumentStatus_IsValid_def vocab)
  have apart: "uuidToString (Some 1) \<noteq> uuidToString (Some 2)" using uuidToString_inj [of 1 2] by auto
  have eligible: "EligibilityPolicy_Validate forum_policy \<lparr>ch_ID = ChangeID (uuidToString (Some 7)), ch_ArenaID = ArenaID (uuidToString (Some 1)),
          ch_AttributorID = AttributorID (uuidToString (Some 2)), ch_ChangedAt = 9000\<rparr> [candidate_of_row (sample_row ''k1'')] = Inr ()"
    using apart
    by (simp add: EligibilityPolicy_Validate_def EligibilityPolicy_IsValid_def DefaultEligibilityPolicy_def persuasion_zero_defs time_IsZero_def
        candidate_of_row_def sample_row_parts ArgumentStatus_IsValid_def ArenaID_Equals_def vocab)
  have create: "repo_CreateAttributions scan_canonical (ChangeID (uuidToString (Some 7))) (AttributorID (uuidToString (Some 2)))
      [candidate_of_row (sample_row ''k1'')] demo_pos2 the_argument no_credits = (Inr (), one_credit)"
    by (simp add: repo_CreateAttributions_def uuidParam_def scan_sample candidate_of_row_def sample_row_parts sql_CreateAttribution_def
        demo_pos2_changes the_change_def no_credits_def one_credit_def credit_row_def timestamptz_def Let_def)
  have none: "repo_ListAttributedArgumentIDs scan_canonical (ChangeID (uuidToString (Some 7))) no_credits = Inr []"
    by (simp add: repo_ListAttributedArgumentIDs_def uuidParam_def scan_sample sql_ListAttributionArgumentIDs_def change_attributions_def no_credits_def)
  have "record_transaction scan_canonical forum_policy (AttributorID (uuidToString (Some 2))) (ChangeID (uuidToString (Some 7))) [?arg]
      the_argument demo_pos2 the_argument no_credits = (Inr credited_ids, one_credit)"
    unfolding record_transaction_def lock none sum.case
    by (simp add: candidate eligible create DefaultEligibilityPolicy_def [THEN arg_cong [where f = MaxAttributions]] credited_ids_def sortedArgumentIDs_def)
  then show ?thesis
    by (simp add: RecordAttributions_Execute_def record_cmd_def stored_uuid_parses EligibilityPolicy_IsValid_def DefaultEligibilityPolicy_def
        WithinTransaction_def)
qed

lemma credited_history: "forum_history scan_canonical DefaultReplyPolicy forum_policy credited_forum"
  using forum_history.recording [OF before_credit_history, of the_argument record_cmd] recorded_sample by simp

section \<open>A removal and a decision\<close>

definition removed_credit :: persuasion_db where
  "removed_credit = one_credit\<lparr>attribution_rows := [credit_row\<lparr>at_Status := ''invalid'', at_InvalidatedAt := Some 10000,
     at_ModerationReason := Some ''spam'', at_ModeratedBy := Some 2, at_ModeratedAt := Some 10000\<rparr>]\<rparr>"

abbreviation "removed_forum \<equiv> forum_at demo_pos2 (demo_db1, the_argument) removed_credit # credited_forum"

lemma spam: "list_all printable ''spam''" "\<not> sql_blank ''spam''" "length (runes ''spam'') = 4" "pg_text ''spam''" "TrimSpace ''spam'' = ''spam''"
proof -
  show p: "list_all printable ''spam''" by (simp add: printable_def)
  show "\<not> sql_blank ''spam''" using printable_not_blank [OF p] by simp
  show "length (runes ''spam'') = 4" by (simp add: runes_printable [OF p])
  show "pg_text ''spam''" by (rule printable_pg_text [OF p])
  show "TrimSpace ''spam'' = ''spam''" by (rule TrimSpace_printable [OF p])
qed

lemma removal_sample:
  "sql_InvalidateArgumentAttributions 50 (Some ''spam'') (Some 2) demo_pos2 one_credit = Inr (1, removed_credit)"
  using spam by (simp add: sql_InvalidateArgumentAttributions_def update_attributions_def one_credit_def no_credits_def credit_row_def
      protect_links_def protect_decision_def attribution_checks_def demo_pos2_changes timestamptz_def removed_credit_def Let_def)

lemma removed_history: "forum_history scan_canonical DefaultReplyPolicy forum_policy removed_forum"
  using forum_history.removal [OF credited_history, of 50 "Some ''spam''" "Some 2"] removal_sample by simp

definition spam_cmd :: ModerateAttributionCommand where
  "spam_cmd = \<lparr>mac_ActorAccountID = uuidToString (Some 2), mac_AttributionID = uuidToString (Some 70), mac_Reason = ''spam''\<rparr>"

definition spam_decision :: ModerationDecision where
  "spam_decision = \<lparr>dec_Action = ''invalidate'', dec_Actor = ModeratorID (uuidToString (Some 2)), dec_Reason = Reason ''spam'', dec_DecidedAt = 12000\<rparr>"

definition decided_credit :: AppPersuasionAttribution where
  "decided_credit = decided_row spam_decision 2 credit_row"

definition spam_result :: Attribution where
  "spam_result = \<lparr>attr_ID = AttributionID (uuidToString (Some 70)), attr_ChangeID = ChangeID (uuidToString (Some 7)),
     attr_ArgumentID = ArgumentID (uuidToString (Some 50)), attr_AttributorID = AttributorID (uuidToString (Some 2)),
     attr_Status = ''invalid'', attr_CreatedAt = 10000, attr_Decision = spam_decision\<rparr>"

lemma spam_reason: "ParseReason ''spam'' = Inr (Reason ''spam'')"
proof -
  have "valid_utf8 ''spam''" using spam(4) by (simp add: pg_text_def)
  moreover have "\<not> list_ex (\<lambda>r. is_control r \<or> isBidiOverride r) (runes ''spam'')"
    using printable_supported [OF spam(1)] by (simp add: runes_printable [OF spam(1)] is_control_def) (simp add: isBidiOverride_def)
  ultimately show ?thesis using spam(3,5) by (simp add: ParseReason_def maxReasonLength_def Let_def)
qed

lemma decided_sample:
  "InvalidateAttribution_Execute scan_canonical (\<lambda>_. True) (\<lambda>_. True) 12000 spam_cmd demo_pos2 (one_credit, []) =
    (Inr \<lparr>amr_Attribution = spam_result, amr_Replayed = False\<rparr>,
     one_credit\<lparr>attribution_rows := [decided_credit]\<rparr>, [moderation_event spam_decision spam_result])"
proof -
  have actor: "ParseModeratorID (uuidToString (Some 2)) = Inr (ModeratorID (uuidToString (Some 2)))"
    using moderator_id.parse_of_text [of "ModeratorID (uuidToString (Some 2))"]
    by (simp add: uuidToString_printable length_uuid maxIdentifierLength_def)
  have allowed: "ModerationDecision_Validate spam_decision = Inr ()"
    unfolding decision_Validate_iff by (simp add: spam_decision_def)
  have v: "validateAttributionModeration (\<lambda>_. True) 12000 spam_cmd ''invalidate'' = Inr (spam_decision, AttributionID (uuidToString (Some 70)))"
    using allowed
    by (simp add: validateAttributionModeration_def spam_cmd_def ModerationAction_IsValid_def vocab spam_reason stored_uuid_parses actor
        spam_decision_def Let_def)
  have i: "transition a spam_decision = Inr (a\<lparr>attr_Status := ''invalid'', attr_Decision := spam_decision\<rparr>)" if "attr_Status a = ''valid''" for a
    using that allowed by (simp add: transition_def Invalidate_def Attribution_IsValid_def vocab) (simp add: spam_decision_def)
  have lock: "repo_LockAttributionForModeration scan_canonical (AttributionID (uuidToString (Some 70))) one_credit =
      Inr (spam_result\<lparr>attr_Status := ''valid'', attr_Decision := no_decision\<rparr>)"
    by (simp add: repo_LockAttributionForModeration_def uuidParam_def scan_sample sql_GetAttributionForModeration_def one_credit_def credit_row_def
        moderationAttribution_def stored_uuid_parses ParseAttributionStatus_def AttributionStatus_IsValid_def vocab spam_result_def Let_def)
  have update: "sql_InvalidateAttribution 12000 ''spam'' 2 70 demo_pos2 one_credit = Inr (decided_credit, one_credit\<lparr>attribution_rows := [decided_credit]\<rparr>)"
    using spam by (simp add: sql_InvalidateAttribution_def updated_one_def update_attributions_def one_credit_def credit_row_def decided_credit_def
        decided_row_def spam_decision_def protect_links_def protect_decision_def attribution_checks_def demo_pos2_changes timestamptz_def
        Decision_TargetStatus_def Action_TargetStatus_def vocab Let_def)
  have mapped: "moderationAttribution decided_credit = Inr spam_result"
    by (simp add: moderationAttribution_def decided_credit_def decided_row_def credit_row_def spam_decision_def stored_uuid_parses
        ParseAttributionStatus_def AttributionStatus_IsValid_def Decision_TargetStatus_def Action_TargetStatus_def vocab spam_result_def
        spam_reason actor timestamptz_def Let_def)
  have applied: "repo_ApplyModerationDecision scan_canonical (AttributionID (uuidToString (Some 70))) spam_decision demo_pos2 one_credit
      = (Inr spam_result, one_credit\<lparr>attribution_rows := [decided_credit]\<rparr>)"
    using update mapped
    by (simp add: repo_ApplyModerationDecision_def uuidParam_def scan_sample applied_row_def spam_decision_def vocab)
  have "Decision_TargetStatus spam_decision = ''invalid''"
    by (simp add: Decision_TargetStatus_def Action_TargetStatus_def spam_decision_def vocab)
  then have "moderate_transaction scan_canonical (\<lambda>_. True) spam_decision (AttributionID (uuidToString (Some 70))) demo_pos2 (one_credit, [])
      = (Inr \<lparr>amr_Attribution = spam_result, amr_Replayed = False\<rparr>, one_credit\<lparr>attribution_rows := [decided_credit]\<rparr>,
         [moderation_event spam_decision spam_result])"
    unfolding moderate_transaction_def fst_conv lock sum.case by (simp add: i applied)
  then show ?thesis using v
    by (simp add: InvalidateAttribution_Execute_def moderateAttribution_def vocab WithinTransaction_def)
qed

section \<open>Witnesses\<close>

theorem attributions_sound_witness:
  "\<exists>a \<in> set (argument_rows the_argument). ag_ID a = 50 \<and> ag_AuthorID a \<noteq> 2
     \<and> int (length (change_attributions 7 one_credit)) \<le> MaxAttributions forum_policy"
proof -
  have "credit_row \<in> set (attribution_rows one_credit)" "at_ArgumentID credit_row = 50" "at_AttributorID credit_row = 2" "at_ChangeID credit_row = 7"
    by (simp_all add: one_credit_def credit_row_def)
  with attributions_sound [OF credited_history scan_canonical] show ?thesis by simp metis
qed

theorem attributions_permanent_witness:
  "\<exists>r \<in> set (attribution_rows removed_credit). at_ID r = 70 \<and> at_ChangeID r = 7 \<and> at_ArgumentID r = 50"
  using attributions_permanent [OF removed_history scan_canonical, of "forum_at demo_pos2 (demo_db1, the_argument) one_credit" credit_row]
  by (simp add: one_credit_def) (simp add: credit_row_def, blast)

theorem RecordAttributions_exact_witness:
  "\<exists>c new. recorded_selection scan_canonical forum_policy (ChangeID (uuidToString (Some 7))) (AttributorID (uuidToString (Some 2)))
     [ArgumentID (uuidToString (Some 50))] c the_argument demo_pos2 no_credits new credited_ids one_credit"
  using RecordAttributions_exact [OF before_credit_history scan_canonical, of the_argument record_cmd "Inr credited_ids" one_credit] recorded_sample
  by (auto simp: record_cmd_def stored_uuid_parses)

theorem recording_again_witness:
  "attribution_rows (snd (RecordAttributions_Execute scan_canonical forum_policy record_cmd the_argument demo_pos2 the_argument one_credit))
     = [credit_row]"
  using recording_again [OF credited_history scan_canonical, of "forum_at demo_pos2 (demo_db1, the_argument) one_credit" the_argument record_cmd
      demo_pos2 the_argument no_credits credited_ids the_argument] recorded_sample
  by (cases "RecordAttributions_Execute scan_canonical forum_policy record_cmd the_argument demo_pos2 the_argument one_credit")
    (simp add: one_credit_def)

theorem recorded_selection_replays_witness:
  "\<exists>r. RecordAttributions_Execute scan_canonical forum_policy record_cmd the_argument demo_pos2 the_argument one_credit = (Inr r, one_credit)
     \<and> rar_Replayed r"
  using recorded_selection_replays [OF credited_history scan_canonical, of record_cmd "AttributorID (uuidToString (Some 2))"
      "ChangeID (uuidToString (Some 7))" the_change "[50]" the_argument]
  by (auto simp: record_cmd_def stored_uuid_parses EligibilityPolicy_IsValid_def DefaultEligibilityPolicy_def demo_pos2_changes scan_sample
      the_change_def credited_def change_attributions_def one_credit_def credit_row_def)

theorem appeal_never_restores_witness:
  "sql_RestoreArgumentAttributions 50 None None demo_pos2 removed_credit = Inl CheckViolation"
  using appeal_never_restores [OF removed_history scan_canonical, of "hd (attribution_rows removed_credit)"]
  by (simp add: removed_credit_def credit_row_def)

theorem validity_moves_recorded_witness:
  "\<exists>reason m. at_ModerationReason (hd (attribution_rows removed_credit)) = Some reason \<and> account_status demo_pos2 m \<noteq> None"
  using validity_moves_recorded [OF removed_history scan_canonical, of credit_row "hd (attribution_rows removed_credit)"]
  by (simp add: removed_credit_def one_credit_def) (simp add: credit_row_def, blast)

theorem ArgumentMetrics_exact_witness:
  "\<exists>m. GetArgumentMetrics_Execute scan_canonical 11000 (uuidToString (Some 50)) demo_pos2 the_argument one_credit = Inr m
     \<and> am_DistinctPeople m = 1 \<and> am_ValidAttributions m = 1"
proof -
  have "{r \<in> set (attribution_rows one_credit). at_ArgumentID r = 50 \<and> at_Status r = ''valid''
      \<and> account_status demo_pos2 (at_AttributorID r) = Some ''active'' \<and> email_verified one_credit (at_AttributorID r)} = {credit_row}"
    by (auto simp: one_credit_def no_credits_def credit_row_def demo_pos2_changes)
  with ArgumentMetrics_exact [OF credited_history scan_canonical, of 11000 "uuidToString (Some 50)" "ArgumentID (uuidToString (Some 50))"]
  show ?thesis by (simp add: stored_uuid_parses scan_sample sample_row_parts Let_def)
qed

theorem invalidation_uncounts_witness:
  "\<exists>people. sql_GetArgumentAttributionMetrics 50 demo_pos2 the_argument (one_credit\<lparr>attribution_rows := [decided_credit]\<rparr>) = Inr (0, people)"
proof -
  have "sql_GetArgumentAttributionMetrics 50 demo_pos2 the_argument one_credit = Inr (1, 1)"
    by (simp add: sql_GetArgumentAttributionMetrics_def sample_row_parts counted_attributions_def eligible_attributor_def one_credit_def
        no_credits_def credit_row_def demo_pos2_changes distinct_count_def)
  from invalidation_uncounts [OF credited_history scan_canonical, where cmd = spam_cmd and u = 50, unfolded forum_at_parts snd_conv fst_conv,
      OF decided_sample _ this]
  show ?thesis
    by (auto simp: one_credit_def no_credits_def credit_row_def eligible_attributor_def demo_pos2_changes)
qed

lemma the_author: "ParseAuthorID (uuidToString (Some 1)) = Inr (AuthorID (uuidToString (Some 1)))"
  by (rule stored_uuid_parses)

lemma sample_credits: "author_credits 1 demo_pos2 the_argument (st_table live) one_credit = [(ArenasSamples.published 1, 2)]"
  by (simp add: author_credits_def counted_attributions_def eligible_attributor_def one_credit_def no_credits_def credit_row_def demo_pos2_changes
      sample_row_parts live_def) (simp add: ArenasSamples.published_def draft_def)

theorem reputation_adds_up_witness:
  "\<exists>rep. GetAuthorReputation_Execute scan_canonical 11000 (uuidToString (Some 1)) demo_pos2 the_argument (st_table live) one_credit = Inr rep
     \<and> InfluencedPeople rep = 1 \<and> TotalValidAttributions rep = 1"
proof -
  have run: "st_table live = st_table (arenas_run sample_env publishing start)" by (simp only: published_run)
  have size: "int (length (attribution_rows (f_attributions (forum_at demo_pos2 (demo_db1, the_argument) one_credit)))) \<le> MaxInt64"
    by (simp add: one_credit_def MaxInt64_def)
  show ?thesis
    using reputation_adds_up [OF credited_history scan_canonical _ the_author _ start_empty run size, of 11000 1]
    by (auto simp: scan_sample sample_credits Let_def)
qed

definition keen_policy :: SignalPolicy where
  "keen_policy = DefaultSignalPolicy\<lparr>MinConcentrationEvents := 1\<rparr>"

definition signals_query :: AssessAttributionSignalsQuery where
  "signals_query = \<lparr>asq_ActorAccountID = uuidToString (Some 2), asq_SubjectID = uuidToString (Some 1)\<rparr>"

lemma the_actor: "ParseModeratorID (asq_ActorAccountID signals_query) = Inr (ModeratorID (uuidToString (Some 2)))"
  using moderator_id.parse_of_text [of "ModeratorID (uuidToString (Some 2))"]
  by (simp add: signals_query_def uuidToString_printable length_uuid maxIdentifierLength_def)

lemma the_subject: "ParseAuthorID (asq_SubjectID signals_query) = Inr (AuthorID (uuidToString (Some 1)))"
  by (simp add: signals_query_def stored_uuid_parses)

lemma sample_received: "a \<le> 10000 \<Longrightarrow> 10000 < b \<Longrightarrow> subject_attributions 1 a b the_argument one_credit = [credit_row]"
  by (simp add: subject_attributions_def window_attributions_def one_credit_def credit_row_def argument_author_def sample_row_parts)

theorem signals_exact_witness:
  "\<exists>a. GetAttributionSignals_Execute scan_canonical (\<lambda>_. True) keen_policy 20000 signals_query demo_pos2 the_argument one_credit = Inr a
     \<and> signalled (as_Signals a) SignalConcentration 2 \<and> \<not> signalled (as_Signals a) SignalReciprocity 2"
proof -
  have policy: "SignalPolicy_IsValid keen_policy"
    by (simp add: SignalPolicy_IsValid_def keen_policy_def DefaultSignalPolicy_def basisPointTotal_def)
  define from_t to_t where from_t: "from_t = timestamptz (20000 - sp_Window keen_policy)" and to_t: "to_t = timestamptz 20000"
  have w: "from_t \<le> 10000" "10000 < to_t" by (simp_all add: from_t to_t timestamptz_def keen_policy_def DefaultSignalPolicy_def)
  have size: "10000 * int (length (attribution_rows one_credit)) \<le> MaxInt64" by (simp add: one_credit_def MaxInt64_def)
  have received: "credits_received 1 from_t to_t the_argument one_credit 2 = 1"
    by (simp add: credits_received_def sample_received [OF w] count_where_def) (simp add: credit_row_def)
  have thresholds: "MinConcentrationEvents keen_policy = 1" "ConcentrationShareBasisPoints keen_policy = 6000" "MinReciprocityEvents keen_policy = 2"
    by (simp_all add: keen_policy_def DefaultSignalPolicy_def)
  obtain a where "GetAttributionSignals_Execute scan_canonical (\<lambda>_. True) keen_policy 20000 signals_query demo_pos2 the_argument one_credit = Inr a"
    "signalled (as_Signals a) SignalConcentration 2" "\<not> signalled (as_Signals a) SignalReciprocity 2"
    using signals_exact [where scan = scan_canonical and authorized = "\<lambda>_. True" and pos = demo_pos2 and args = the_argument and u = 1 and now = 20000,
        OF policy the_actor TrueI the_subject _ _ size from_t to_t]
    by (auto simp: scan_sample Let_def sample_received [OF w] received thresholds dest!: spec [of _ 2])
  then show ?thesis by blast
qed

text \<open>Four Arenas, one change in each.\<close>

definition wandering :: "uuid \<Rightarrow> string \<Rightarrow> AppPositionChange" where
  "wandering n target = \<lparr>pc_ID = n, pc_ArenaID = n, pc_AccountID = 2, pc_FromPosition = ''agree'', pc_ToPosition = target, pc_Version = 2,
     pc_ChangedAt = 10000 + 1000 * uint n\<rparr>"

definition wanderings :: "AppPositionChange list" where
  "wanderings = [wandering 1 ''undecided'', wandering 2 ''disagree'', wandering 3 ''undecided'', wandering 4 ''disagree'']"

theorem alternation_mixes_arenas_witness:
  "\<exists>a. GetAttributionSignals_Execute scan_canonical (\<lambda>_. True) DefaultSignalPolicy 20000 signals_query
      (demo_pos2\<lparr>position_changes := wanderings\<rparr>) the_argument one_credit = Inr a \<and> signalled (as_Signals a) SignalRapidAlternation 2"
proof (rule alternation_mixes_arenas [OF the_actor TrueI the_subject])
  let ?from = "timestamptz (20000 - sp_Window DefaultSignalPolicy)" and ?to = "timestamptz 20000"
  have w: "?from \<le> 10000" "10000 < ?to" by (simp_all add: timestamptz_def DefaultSignalPolicy_def)
  show "0 < credits_received 1 ?from ?to the_argument one_credit 2"
    by (simp add: credits_received_def sample_received [OF w] count_where_def) (simp add: credit_row_def)
  show "filter (\<lambda>c. AppPositionChange.pc_AccountID c = 2) (position_changes (demo_pos2\<lparr>position_changes := wanderings\<rparr>))
      = [wandering 1 ''undecided'', wandering 2 ''disagree'', wandering 3 ''undecided'', wandering 4 ''disagree'']"
    by (simp add: wanderings_def wandering_def)
  show "10000 * int (length (attribution_rows one_credit)) \<le> MaxInt64" by (simp add: one_credit_def MaxInt64_def)
  show "list_all (in_window ?from ?to) [wandering 1 ''undecided'', wandering 2 ''disagree'', wandering 3 ''undecided'', wandering 4 ''disagree'']"
    by (simp add: in_window_def wandering_def timestamptz_def DefaultSignalPolicy_def)
qed (simp_all add: scan_sample wandering_def)

end
