(* ===== verification/Spec2Isabelle.thy ===== *)
theory Spec2Isabelle
  imports WalletStatement PositionsConfirm JobsWorkerProperties JobsSchedulerProperties PersuasionSamples
begin

text \<open>
  A verification development for the Arena debate server (Go, \<open>src/internal\<close>). People confirm a position on a
  statement (an Arena), publish arguments that cost INK from a wallet, change their position, and credit the
  arguments that moved them; the credits are what reputation is derived from. Six modules carry this logic and are
  modelled end to end, from the value objects of the domain through the use cases and the repositories down to the
  SQL statements over explicit tables: wallet, positions, arguments, arenas, persuasion, and the background jobs.

  \<^bold>\<open>How the program is put together.\<close> Every module has a \<open>domain\<close> package (pure values and rules), an
  \<open>application\<close> package (use cases over ports), and \<open>adapters/postgres\<close> (the ports over the generated
  statements of \<open>platform/postgres/*.sql.go\<close>). A use case parses its command, asks other modules through ports,
  and runs its writes in one transaction. Modules interact as follows. A publication of an argument asks arenas
  whether the Arena accepts participation and debits the wallet through \<open>arguments/adapters/walletdebit\<close>, inside
  one transaction with the insert of the argument. A recording of credits reads the history of positions and the
  table of arguments. Reputation joins credits, arguments and Arenas. The publication of an Arena consumes a pass
  of the billing module. Moderation withdraws or restores arguments and credits by statements on their tables. The
  scheduler queues periodic jobs; the worker claims and executes them.

  \<^bold>\<open>How code becomes definitions.\<close> A Go function keeps its name; a method of a type or a repository gets the
  type or \<open>repo_\<close>, a statement \<open>sql_\<close>, a use case \<open>_Execute\<close>. A \<open>(value, error)\<close> return is
  \<open>error + value\<close> with \<open>bind_r\<close> for the early return; every error of the code is a constructor. A struct is a
  record, a string enum a string with its vocabulary in the collection \<open>vocab\<close>, a loop with state a recursive
  function over the list. \<open>int64\<close> and \<open>int32\<close> are integers with \<open>wrap64\<close> and \<open>wrap32\<close> at every
  operation that can leave the range; UUIDs are 128-bit words. Go strings are lists of bytes with UTF-8 decoding
  written out. A statement is a function on the record of its tables that checks constraints, keys and triggers of
  its migration and answers an error class of PostgreSQL or the new tables; an error leaves the tables as they were
  only where the code opens a transaction (\<open>WithinTransaction\<close>).

  \<^bold>\<open>Shared theories.\<close> \<open>Prelude\<close> (sums, integer ranges, list lemmas), \<open>GoText\<close> (UTF-8, \<open>TrimSpace\<close>,
  decimal numbers, the locale \<open>printable_identifier\<close> of the identifier parsers), \<open>GoTime\<close>
  (the civil calendar and the layout RFC 3339), \<open>Postgres\<close> (error classes, \<open>timestamptz\<close> in microseconds, the
  canonical UUID text, keyset order and the locale \<open>keyset_pages\<close>), \<open>UuidScan\<close> (what is required of
  \<open>pgtype.UUID.Scan\<close>, with one concrete reader), \<open>SignedCursor\<close> and \<open>SignedPages\<close> (base64url cursors with
  their MAC; the locale \<open>signed_pages\<close> extends \<open>keyset_pages\<close>: a client that follows the cursors sees every row
  once, newest first), \<open>Sha256\<close> (the digest of content hashes), \<open>StoreContracts\<close> (the locales
  \<open>idempotent_store\<close> of calls with a retry key and \<open>optimistic_store\<close> of writes guarded by a version).

  \<^bold>\<open>Wallet\<close> (\<open>internal/wallet\<close>, \<open>platform/postgres/wallet.sql.go\<close>). \<open>WalletDomain\<close>, \<open>WalletPeriod\<close>:
  quantities, buckets, allocation, monthly cycles. \<open>WalletLedger\<close>: the record \<open>wallet_db\<close> of accounts, operations
  and lines. \<open>WalletRepository\<close>: \<open>ApplyCredit\<close>, \<open>ApplyDebit\<close>, \<open>RenewFreePeriod\<close>. \<open>WalletUseCases\<close>:
  commands, audited adjustments. \<open>WalletCorrectness\<close>, \<open>WalletHistory\<close>: \<open>ledger_ok\<close> (each balance is the sum
  of its lines and never negative) over the step relation \<open>wallet_step\<close>, exact outcomes, and the interpretation of
  \<open>idempotent_store\<close> by which a retry never pays twice. \<open>WalletStatement\<close>: the signed statement pages.

  \<^bold>\<open>Positions\<close> (\<open>internal/positions\<close>). \<open>PositionsDomain\<close>, \<open>PositionsStore\<close>, \<open>PositionsUseCases\<close>: one
  projection per account and Arena beside an append-only history. \<open>PositionsCorrectness\<close>, \<open>PositionsHistory\<close>:
  the projection is the replay of its history in every state of every run (\<open>positions_run\<close>), where a request may
  have read any earlier state. \<open>PositionsProperties\<close>, \<open>PositionsConfirm\<close>: exact changes, no lost update
  (interpretation of \<open>optimistic_store\<close>), final confirmations, suppressed aggregates.

  \<^bold>\<open>Arenas\<close> (\<open>internal/arenas\<close>). \<open>ArenasText\<close>, \<open>ArenasTextFacts\<close>, \<open>ArenasDomain\<close>: statements,
  categories, slugs, the lifecycle. \<open>ArenasStore\<close>, \<open>ArenasRepository\<close>, \<open>ArenasUseCases\<close>: table, statements,
  use cases with the signed feed. \<open>ArenasCorrectness\<close>, \<open>ArenasRuns\<close>: \<open>arenas_ok\<close> and what any list of requests
  does (\<open>arenas_run\<close>, each request carrying the state its read saw; the statements by which sanctions, appeals and
  deletions of accounts write the table are requests too). \<open>ArenasFeed\<close>, \<open>ArenasProperties\<close>: the feed is complete,
  published Arenas keep what they were published with and only an appeal takes a status back, from closed to
  published, and one pass pays one publication. The queries that diagnose a refused write (\<open>diagnoseDraftMiss\<close> and
  its like) read the state of the write; in the code they read again, which can change which error is answered.

  \<^bold>\<open>Arguments\<close> (\<open>internal/arguments\<close>). \<open>ArgumentsDomain\<close>, \<open>ArgumentSources\<close>, \<open>ArgumentsStore\<close>,
  \<open>ArgumentsRepository\<close>, \<open>ArgumentsUseCases\<close>: contents with canonical hash and grapheme cost, cited addresses,
  publication over the wallet and arenas models, withdrawal, public lists. \<open>ArgumentsCorrectness\<close>,
  \<open>ArgumentsWrites\<close>, \<open>ArgumentsHistory\<close>, \<open>ArgumentsCharge\<close>, \<open>ArgumentsRuns\<close>: the composed state
  \<open>debate\<close> (wallet and arguments) and its step relation \<open>debate_history\<close>. \<open>ArgumentsProperties\<close>,
  \<open>ArgumentsReads\<close>, \<open>ArgumentsPublic\<close>: a publication is charged once, content never changes, reply chains end,
  lists are complete.

  \<^bold>\<open>Persuasion\<close> (\<open>internal/persuasion\<close>). \<open>PersuasionDomain\<close>, \<open>PersuasionSignals\<close>: eligibility of a
  selection, decisions, the policy of the abuse signals. \<open>PersuasionStore\<close>, \<open>PersuasionRepository\<close>,
  \<open>PersuasionUseCases\<close>: the table of attributions and every use case. \<open>PersuasionCorrectness\<close>,
  \<open>PersuasionDecisions\<close>, \<open>PersuasionHistory\<close>: the composed state \<open>forum\<close> (positions, wallet, arguments,
  attributions, audit events) and its step relation \<open>forum_history\<close>, whose projections are runs of positions and
  debates. \<open>PersuasionProperties\<close>, \<open>PersuasionModeration\<close>, \<open>PersuasionReputation\<close>, \<open>PersuasionAbuse\<close>:
  credits are sound and permanent, validity moves only through recorded decisions, counts, reputation and signals
  are exactly those of the stored facts.

  \<^bold>\<open>Jobs\<close> (\<open>internal/jobs\<close>). \<open>JobsDomain\<close>, \<open>JobsPeriod\<close>, \<open>JobsChecks\<close>: payload check against a
  reference definition, failures, periods. \<open>JobsStore\<close>, \<open>JobsQueue\<close>, \<open>JobsOperations\<close>: the queue and its
  operators. \<open>JobsCorrectness\<close>, \<open>JobsHistory\<close>, \<open>JobsRuns\<close>, \<open>JobsOutcomes\<close>, \<open>JobsProperties\<close>: the
  lifecycle of a row as a step relation, exact outcomes, the refinement of the lifecycle automaton, timelines.
  \<open>JobsWorker\<close>, \<open>JobsWorkerProperties\<close>: backoff bounds, one turn of a worker, which settles the job while it is
  leased under its name and changes nothing after it lost it. \<open>JobsScheduler\<close>,
  \<open>JobsSchedulerProperties\<close>: passes queue each period once. \<open>JobsBlocking\<close>: the claim that fails for ever.
\<close>

text \<open>
  \<^bold>\<open>Interfaces.\<close> The locales state what one part relies on: \<open>idempotent_store\<close> is interpreted on the wallet
  repository, \<open>optimistic_store\<close> on the positions repository, \<open>keyset_pages\<close> and \<open>signed_pages\<close> on the
  wallet statement, the feed of Arenas and the two lists of arguments, \<open>printable_identifier\<close> on every identifier
  parser. The properties of these parts are instances of the facts proved once in the locales.

  \<^bold>\<open>Concurrency.\<close> A transaction is one step, and a read that the code makes outside the lock of its write comes
  from any earlier state of the history (the states named \<open>seen\<close>): stale reads, retries and interleavings of
  different requests are histories. What the database serialises by a row lock is read as it is.

  \<^bold>\<open>Parameters and hypotheses.\<close> \<open>scan\<close> is \<open>pgtype.UUID.Scan\<close>; the hypothesis \<open>reads_canonical\<close> says
  that it reads back the canonical text of every UUID, and \<open>scan_canonical\<close> is one such reader. \<open>now\<close> is the
  injected clock. \<open>authorized\<close>, \<open>audit\<close>, \<open>eligible\<close>, \<open>accepts\<close>, the account reader, the consumption of a
  pass and the directory of usernames are the ports to modules that are not modelled. \<open>mac\<close> is HMAC-SHA256, the
  grapheme counter the Unicode segmentation of \<open>graphemes\<close>, \<open>parse_time\<close> is \<open>time.Parse\<close>, of which the
  lists require that it reads back the stored instants. The values of \<open>uuidv7()\<close> come from a generator in the
  state; a repeated value is a violation of the primary key, not excluded. Job handlers and the entropy of the
  backoff are arguments of a worker turn.

  \<^bold>\<open>Bounds and fuel.\<close> All recursions are structural or have a proved measure. A client walk over pages has fuel
  greater than the number of rows, which is enough because every page but the last shows a row. \<open>chain_depth\<close>
  has the 1000 levels of the recursive statement; chains stay within the depth of the policy, so no chain below
  that bound is cut. Balances, counts and versions are related to \<open>int64\<close> and \<open>int32\<close>; where a sum could leave
  the range, the outcome of the overflow is a branch of the model, and a theorem that needs the range says so.

  \<^bold>\<open>What the model shows to be wrong.\<close> A publication whose attempt key equals any earlier wallet key of the
  account is free (\<open>used_wallet_key_publishes_free\<close>). An argument that was withdrawn, and a credit that is
  invalid, can never be restored on appeal (\<open>restore_withdrawn_fails\<close>, \<open>appeal_never_restores\<close>): the statements
  keep the instant that the checks require to be empty. Position changes in different Arenas count as reversals of
  each other (\<open>alternation_mixes_arenas\<close>). A job whose worker died in its last attempt makes every claim fail
  while it is first in order (\<open>exhausted_job_blocks\<close>). The payload of a scheduled job cannot be parsed after the
  \<open>jsonb\<close> column printed it (\<open>stored_payload_unreadable\<close>). Two Arenas with one statement created close in time
  have one address, so the second is never published (\<open>address_collision\<close>).

  \<^bold>\<open>Not modelled.\<close> HTTP and HTML adapters of every module (request decoding and rendering over libraries);
  identity (password hashing, sessions and mail rest on external libraries), billing (mirrors a payment provider;
  its passes are a parameter), the moderation module but for its statements on Arenas, arguments and credits, profiles,
  notifications, the storage of audit events, and the read models of transparency, search and statistics, which
  join tables of the other modules; goroutines, sleeping and logging of the worker; privileges of the database
  roles; configuration, assets, bootstrap, generated contract, message catalogues, commands and tools.
\<close>

end
